(* ===== verification/Blip_Prelude.thy ===== *)
theory Blip_Prelude
  imports Complex_Main
begin

section \<open>Prelude: Rust arithmetic, errors and the facts the components share\<close>

text \<open>
  What every component of the development uses:
  \<^item> machine integers as \<open>nat\<close> or \<open>int\<close> with the operations of Rust's integer types
    written out over an explicit maximum (\<open>checked_*\<close>, \<open>saturating_*\<close>, \<open>try_from\<close>);
  \<^item> the floating-point conventions of the model: \<open>f64\<close> and \<open>f32\<close> values are exact
    \<open>real\<close>s, and the type \<open>fl\<close> adds the infinities and NaN for the code that tests for them;
  \<^item> Rust's \<open>Result\<close> as a sum with the error on the left, and its combinators;
  \<^item> list and order lemmas that several components need.
\<close>

named_theorems rust_arith \<open>definitions of the integer operations\<close>
named_theorems result_simps \<open>definitions of the combinators on results\<close>

subsection \<open>Integer widths\<close>

definition u8_max :: nat where "u8_max = 255"
definition u16_max :: nat where "u16_max = 65535"
definition u32_max :: nat where "u32_max = 4294967295"
definition u64_max :: nat where "u64_max = 18446744073709551615"
definition u128_max :: nat where "u128_max = 340282366920938463463374607431768211455"

text \<open>The macOS targets are 64-bit.\<close>

abbreviation usize_max :: nat where "usize_max \<equiv> u64_max"

lemmas width_defs = u8_max_def u16_max_def u32_max_def u64_max_def u128_max_def

definition checked_add :: "nat \<Rightarrow> nat \<Rightarrow> nat \<Rightarrow> nat option" where
  [rust_arith]: "checked_add m a b = (if a + b \<le> m then Some (a + b) else None)"

definition checked_sub :: "nat \<Rightarrow> nat \<Rightarrow> nat option" where
  [rust_arith]: "checked_sub a b = (if b \<le> a then Some (a - b) else None)"

definition checked_mul :: "nat \<Rightarrow> nat \<Rightarrow> nat \<Rightarrow> nat option" where
  [rust_arith]: "checked_mul m a b = (if a * b \<le> m then Some (a * b) else None)"

definition checked_div :: "nat \<Rightarrow> nat \<Rightarrow> nat option" where
  [rust_arith]: "checked_div a b = (if b = 0 then None else Some (a div b))"

definition checked_rem :: "nat \<Rightarrow> nat \<Rightarrow> nat option" where
  [rust_arith]: "checked_rem a b = (if b = 0 then None else Some (a mod b))"

definition saturating_add :: "nat \<Rightarrow> nat \<Rightarrow> nat \<Rightarrow> nat" where
  [rust_arith]: "saturating_add m a b = min m (a + b)"

definition saturating_mul :: "nat \<Rightarrow> nat \<Rightarrow> nat \<Rightarrow> nat" where
  [rust_arith]: "saturating_mul m a b = min m (a * b)"

definition saturating_sub :: "nat \<Rightarrow> nat \<Rightarrow> nat" where
  [rust_arith]: "saturating_sub a b = a - b"

definition try_from :: "nat \<Rightarrow> nat \<Rightarrow> nat option" where
  [rust_arith]: "try_from m a = (if a \<le> m then Some a else None)"

definition is_multiple_of :: "nat \<Rightarrow> nat \<Rightarrow> bool" where
  [rust_arith]: "is_multiple_of a b = (if b = 0 then a = 0 else a mod b = 0)"

fun unwrap_or :: "'a option \<Rightarrow> 'a \<Rightarrow> 'a" where
  "unwrap_or None d = d"
| "unwrap_or (Some x) d = x"

text \<open>Signed values of width \<open>w\<close>: the two's complement range.\<close>

definition in_signed :: "nat \<Rightarrow> int \<Rightarrow> bool" where
  [rust_arith]: "in_signed w x = (- (2 ^ (w - 1)) \<le> x \<and> x < 2 ^ (w - 1))"

definition checked_signed :: "nat \<Rightarrow> int \<Rightarrow> int option" where
  [rust_arith]: "checked_signed w x = (if in_signed w x then Some x else None)"

definition saturating_signed :: "nat \<Rightarrow> int \<Rightarrow> int" where
  [rust_arith]: "saturating_signed w x = max (- (2 ^ (w - 1))) (min x (2 ^ (w - 1) - 1))"

definition trunc_div :: "int \<Rightarrow> int \<Rightarrow> int" where
  [rust_arith]: "trunc_div a b = sgn a * sgn b * (\<bar>a\<bar> div \<bar>b\<bar>)"

definition checked_div_signed :: "nat \<Rightarrow> int \<Rightarrow> int \<Rightarrow> int option" where
  [rust_arith]: "checked_div_signed w a b =
     (if b = 0 then None else checked_signed w (trunc_div a b))"

lemma saturating_add_le [simp]: "saturating_add m a b \<le> m"
  by (simp add: saturating_add_def)

lemma saturating_add_exact: "a + b \<le> m \<Longrightarrow> saturating_add m a b = a + b"
  by (simp add: saturating_add_def)

lemma saturating_add_assoc:
  "saturating_add m (saturating_add m a b) c = saturating_add m a (b + c)"
  by (simp add: saturating_add_def min_def)

lemma trunc_div_nonneg: "0 \<le> a \<Longrightarrow> 0 < b \<Longrightarrow> trunc_div a b = a div b"
  by (cases "a = 0") (simp_all add: trunc_div_def)

subsection \<open>Results\<close>

fun and_then :: "'e + 'a \<Rightarrow> ('a \<Rightarrow> 'e + 'b) \<Rightarrow> 'e + 'b" where
  "and_then (Inl e) f = Inl e"
| "and_then (Inr x) f = f x"

fun ok_or :: "'a option \<Rightarrow> 'e \<Rightarrow> 'e + 'a" where
  "ok_or None e = Inl e"
| "ok_or (Some x) e = Inr x"

fun is_ok :: "'e + 'a \<Rightarrow> bool" where
  "is_ok (Inl e) = False"
| "is_ok (Inr x) = True"

lemma and_then_Inr [simp]: "and_then r f = Inr y \<longleftrightarrow> (\<exists>x. r = Inr x \<and> f x = Inr y)"
  by (cases r) auto

lemma and_then_Inl: "and_then r f = Inl e \<longleftrightarrow> r = Inl e \<or> (\<exists>x. r = Inr x \<and> f x = Inl e)"
  by (cases r) auto

lemma ok_or_Inr [simp]: "ok_or r e = Inr x \<longleftrightarrow> r = Some x"
  by (cases r) auto

lemma is_ok_iff: "is_ok r \<longleftrightarrow> (\<exists>x. r = Inr x)"
  by (cases r) auto

text \<open>Collecting the results of a loop, stopping at the first error.\<close>

fun try_map :: "('a \<Rightarrow> 'e + 'b) \<Rightarrow> 'a list \<Rightarrow> 'e + 'b list" where
  "try_map f [] = Inr []"
| "try_map f (x # xs) = and_then (f x) (\<lambda>y. and_then (try_map f xs) (\<lambda>ys. Inr (y # ys)))"

fun map_ok :: "('a \<Rightarrow> 'b) \<Rightarrow> 'e + 'a \<Rightarrow> 'e + 'b" where
  "map_ok f (Inl e) = Inl e"
| "map_ok f (Inr x) = Inr (f x)"

fun map_err :: "('e \<Rightarrow> 'd) \<Rightarrow> 'e + 'a \<Rightarrow> 'd + 'a" where
  "map_err f (Inl e) = Inl (f e)"
| "map_err f (Inr x) = Inr x"

lemma map_err_Inr [simp]: "map_err f r = Inr x \<longleftrightarrow> r = Inr x"
  by (cases r) auto

lemma map_err_Inl: "map_err f r = Inl e \<longleftrightarrow> (\<exists>d. r = Inl d \<and> e = f d)"
  by (cases r) auto

lemma map_ok_Inr [simp]: "map_ok f r = Inr y \<longleftrightarrow> (\<exists>x. r = Inr x \<and> y = f x)"
  by (cases r) auto

lemma try_map_Inr:
  "try_map f xs = Inr ys \<longleftrightarrow> length ys = length xs \<and> (\<forall>i < length xs. f (xs ! i) = Inr (ys ! i))"
proof (induction xs arbitrary: ys)
  case Nil
  then show ?case by auto
next
  case (Cons x xs)
  show ?case
    by (cases ys) (auto simp: Cons.IH less_Suc_eq_0_disj)
qed

lemma try_map_cong_map:
  "(\<And>x. x \<in> set xs \<Longrightarrow> f x = Inr (g x)) \<Longrightarrow> try_map f xs = Inr (map g xs)"
  by (induction xs) auto

lemma try_map_all:
  assumes "\<And>x y. x \<in> set xs \<Longrightarrow> f x = Inr y \<longleftrightarrow> P x \<and> y = h x"
  shows "try_map f xs = Inr ys \<longleftrightarrow> (\<forall>x \<in> set xs. P x) \<and> ys = map h xs"
  using assms by (induction xs arbitrary: ys) auto

lemma try_concat_all:
  assumes "\<And>x y. x \<in> set xs \<Longrightarrow> f x = Inr y \<longleftrightarrow> P x \<and> y = h x"
  shows "map_ok concat (try_map f xs) = Inr ys \<longleftrightarrow> (\<forall>x \<in> set xs. P x) \<and> ys = concat (map h xs)"
  using try_map_all [of xs f P h, OF assms] by auto

lemma try_map_Inl: "try_map f xs = Inl e \<Longrightarrow> \<exists>x \<in> set xs. f x = Inl e"
  by (induction xs) (auto simp: and_then_Inl)

subsection \<open>Floating-point values\<close>

text \<open>
  Arithmetic of \<open>f64\<close> and \<open>f32\<close> is modelled by exact arithmetic on \<open>real\<close>: rounding is left
  out. Where the code asks whether a value is finite, its argument has the type \<open>fl\<close>.
\<close>

datatype fl = Fin real | PosInf | NegInf | NaN

fun is_finite :: "fl \<Rightarrow> bool" where
  "is_finite (Fin x) = True"
| "is_finite _ = False"

fun fl_val :: "fl \<Rightarrow> real" where
  "fl_val (Fin x) = x"
| "fl_val _ = 0"

lemma is_finite_iff: "is_finite x \<longleftrightarrow> (\<exists>r. x = Fin r)"
  by (cases x) auto

text \<open>
  A real number as an \<open>f32\<close>: numbers that round past the largest finite one become infinite. Used where the
  code can meet such a number, a typed one.
\<close>

definition f32_infinite :: real where "f32_infinite = 2 ^ 128 - 2 ^ 103"

definition to_f32 :: "real \<Rightarrow> fl" where
  "to_f32 x = (if f32_infinite \<le> x then PosInf else if x \<le> - f32_infinite then NegInf else Fin x)"

definition f64_epsilon :: real where "f64_epsilon = 1 / 4503599627370496"

text \<open>\<open>f64::clamp\<close> panics when its bounds are out of order: \<open>None\<close> is the panic.\<close>

definition clamp_panic :: "real \<Rightarrow> real \<Rightarrow> real \<Rightarrow> real option" where
  "clamp_panic x lo hi = (if lo \<le> hi then Some (max lo (min x hi)) else None)"

definition clamp :: "real \<Rightarrow> real \<Rightarrow> real \<Rightarrow> real" where
  "clamp x lo hi = (if x < lo then lo else if hi < x then hi else x)"

lemma clamp_bounds: "lo \<le> hi \<Longrightarrow> lo \<le> clamp x lo hi \<and> clamp x lo hi \<le> hi"
  by (simp add: clamp_def)

lemma clamp_id [simp]: "lo \<le> x \<Longrightarrow> x \<le> hi \<Longrightarrow> clamp x lo hi = x"
  by (simp add: clamp_def)

lemma clamp_panic_eq: "clamp_panic x lo hi = (if lo \<le> hi then Some (clamp x lo hi) else None)"
  by (simp add: clamp_panic_def clamp_def max_def min_def)

text \<open>\<open>f64::round\<close> rounds half away from zero; \<open>as usize\<close> truncates and saturates.\<close>

definition round_away :: "real \<Rightarrow> int" where
  "round_away x = (if 0 \<le> x then \<lfloor>x + 1/2\<rfloor> else - \<lfloor>- x + 1/2\<rfloor>)"

definition as_unsigned :: "nat \<Rightarrow> real \<Rightarrow> nat" where
  "as_unsigned m x = (if x < 0 then 0 else min m (nat \<lfloor>x\<rfloor>))"

definition round_half_even :: "real \<Rightarrow> int" where
  "round_half_even x =
     (let f = \<lfloor>x\<rfloor>; d = x - of_int f
      in if d < 1/2 then f else if 1/2 < d then f + 1
         else if even f then f else f + 1)"

lemma round_half_even_near: "\<bar>of_int (round_half_even x) - x\<bar> \<le> 1/2"
proof -
  have lo: "of_int \<lfloor>x\<rfloor> \<le> x" and hi: "x < of_int \<lfloor>x\<rfloor> + 1" by linarith+
  consider "x - of_int \<lfloor>x\<rfloor> < 1/2" | "1/2 \<le> x - of_int \<lfloor>x\<rfloor>" by linarith
  then show ?thesis
  proof cases
    case 1
    then have "round_half_even x = \<lfloor>x\<rfloor>" by (simp add: round_half_even_def)
    with 1 lo show ?thesis by linarith
  next
    case 2
    then have "round_half_even x = \<lfloor>x\<rfloor> + 1 \<or> x = of_int \<lfloor>x\<rfloor> + 1/2 \<and> round_half_even x = \<lfloor>x\<rfloor>"
      by (auto simp: round_half_even_def Let_def)
    with 2 hi show ?thesis by auto
  qed
qed

lemma round_half_even_of_int [simp]: "round_half_even (of_int k) = k"
  by (simp add: round_half_even_def)

lemma round_half_even_nonneg: "0 \<le> x \<Longrightarrow> 0 \<le> round_half_even x"
  by (simp add: round_half_even_def Let_def)

lemma round_half_even_lower: "of_int k \<le> x \<Longrightarrow> k \<le> round_half_even x"
proof -
  assume "of_int k \<le> x"
  then have "k \<le> \<lfloor>x\<rfloor>" by (simp add: le_floor_iff)
  then show ?thesis by (simp add: round_half_even_def Let_def)
qed

subsection \<open>Lists\<close>

text \<open>\<open>slice.get(i)\<close>.\<close>

fun list_get :: "'a list \<Rightarrow> nat \<Rightarrow> 'a option" where
  "list_get [] i = None"
| "list_get (x # xs) 0 = Some x"
| "list_get (x # xs) (Suc i) = list_get xs i"

lemma list_get_eq: "list_get xs i = (if i < length xs then Some (xs ! i) else None)"
  by (induction xs i rule: list_get.induct) auto

text \<open>\<open>iter().position(p)\<close>.\<close>

fun position :: "('a \<Rightarrow> bool) \<Rightarrow> 'a list \<Rightarrow> nat option" where
  "position p [] = None"
| "position p (x # xs) = (if p x then Some 0 else map_option Suc (position p xs))"

lemma position_Some_iff:
  "position p xs = Some i \<longleftrightarrow> i < length xs \<and> p (xs ! i) \<and> (\<forall>j < i. \<not> p (xs ! j))"
proof (induction xs arbitrary: i)
  case Nil
  then show ?case by simp
next
  case (Cons x xs)
  show ?case
    by (cases i) (auto simp: Cons.IH less_Suc_eq_0_disj)
qed

lemma position_None_iff: "position p xs = None \<longleftrightarrow> (\<forall>x \<in> set xs. \<not> p x)"
  by (induction xs) auto

lemma position_append:
  "position p (xs @ ys) =
     (case position p xs of Some i \<Rightarrow> Some i | None \<Rightarrow> map_option ((+) (length xs)) (position p ys))"
proof (induction xs)
  case Nil
  show ?case by (cases "position p ys") simp_all
next
  case (Cons x xs)
  then show ?case by (cases "position p ys") (auto split: option.splits)
qed

text \<open>\<open>Vec::remove(i)\<close> for an index in range.\<close>

definition remove_at :: "nat \<Rightarrow> 'a list \<Rightarrow> 'a list" where
  "remove_at i xs = take i xs @ drop (Suc i) xs"

lemma length_remove_at: "i < length xs \<Longrightarrow> length (remove_at i xs) = length xs - 1"
  by (simp add: remove_at_def)

lemma set_remove_at: "set (remove_at i xs) \<subseteq> set xs"
  by (auto simp: remove_at_def dest: in_set_takeD in_set_dropD)

lemma distinct_remove_at: "distinct xs \<Longrightarrow> distinct (remove_at i xs)"
  unfolding remove_at_def distinct_append
  by (simp add: set_take_disj_set_drop_if_distinct)

lemma map_remove_at: "map f (remove_at i xs) = remove_at i (map f xs)"
  by (simp add: remove_at_def take_map drop_map)

text \<open>
  \<open>Iterator::max_by\<close> and \<open>min_by\<close> with a total order on a real key: among equal elements the
  last one is the maximum and the first one is the minimum.
\<close>

fun max_by :: "('a \<Rightarrow> real) \<Rightarrow> 'a list \<Rightarrow> 'a option" where
  "max_by key [] = None"
| "max_by key (x # xs) =
     (case max_by key xs of
        None \<Rightarrow> Some x
      | Some m \<Rightarrow> if key m < key x then Some x else Some m)"

fun min_by :: "('a \<Rightarrow> real) \<Rightarrow> 'a list \<Rightarrow> 'a option" where
  "min_by key [] = None"
| "min_by key (x # xs) =
     (case min_by key xs of
        None \<Rightarrow> Some x
      | Some m \<Rightarrow> if key m < key x then Some m else Some x)"

lemma max_by_None [simp]: "max_by key xs = None \<longleftrightarrow> xs = []"
  by (cases xs) (auto split: option.splits)

lemma min_by_None [simp]: "min_by key xs = None \<longleftrightarrow> xs = []"
  by (cases xs) (auto split: option.splits)

lemma max_by_Some: "max_by key xs = Some m \<Longrightarrow> m \<in> set xs \<and> (\<forall>x \<in> set xs. key x \<le> key m)"
proof (induction xs arbitrary: m)
  case Nil
  then show ?case by simp
next
  case (Cons x xs)
  show ?case
  proof (cases "max_by key xs")
    case None
    with Cons.prems show ?thesis by simp
  next
    case (Some k)
    from Cons.IH [OF this] Some Cons.prems show ?thesis by (fastforce split: if_splits)
  qed
qed

lemma min_by_Some: "min_by key xs = Some m \<Longrightarrow> m \<in> set xs \<and> (\<forall>x \<in> set xs. key m \<le> key x)"
proof (induction xs arbitrary: m)
  case Nil
  then show ?case by simp
next
  case (Cons x xs)
  show ?case
  proof (cases "min_by key xs")
    case None
    with Cons.prems show ?thesis by simp
  next
    case (Some k)
    from Cons.IH [OF this] Some Cons.prems show ?thesis by (fastforce split: if_splits)
  qed
qed

lemma unwrap_max_ge: "\<forall>x \<in> set xs. x \<le> unwrap_or (max_by (\<lambda>x. x) xs) d"
  by (cases "max_by (\<lambda>x. x) xs") (auto dest: max_by_Some)

lemma unwrap_min_le: "\<forall>x \<in> set xs. unwrap_or (min_by (\<lambda>x. x) xs) d \<le> x"
  by (cases "min_by (\<lambda>x. x) xs") (auto dest: min_by_Some)

lemma unwrap_max_in: "unwrap_or (max_by (\<lambda>x. x) xs) d \<in> insert d (set xs)"
  by (cases "max_by (\<lambda>x. x) xs") (auto dest: max_by_Some)

lemma unwrap_min_in: "unwrap_or (min_by (\<lambda>x. x) xs) d \<in> insert d (set xs)"
  by (cases "min_by (\<lambda>x. x) xs") (auto dest: min_by_Some)

subsection \<open>Invariants of state machines\<close>

text \<open>
  The interface of a component that is a state machine: its steps keep its invariant, so every
  state it can reach has it.
\<close>

locale state_machine =
  fixes step :: "'s \<Rightarrow> 's \<Rightarrow> bool" and inv :: "'s \<Rightarrow> bool"
  assumes step_keeps: "inv s \<Longrightarrow> step s s' \<Longrightarrow> inv s'"
begin

lemma reachable_inv: "step\<^sup>*\<^sup>* s s' \<Longrightarrow> inv s \<Longrightarrow> inv s'"
  by (induction rule: rtranclp_induct) (auto intro: step_keeps)

end

text \<open>
  The same with the operations named: every operation keeps the invariant, whatever its arguments,
  and so does every sequence of them.
\<close>

locale op_machine =
  fixes run :: "'o \<Rightarrow> 's \<Rightarrow> 's" and inv :: "'s \<Rightarrow> bool"
  assumes run_keeps: "inv s \<Longrightarrow> inv (run op s)"
begin

lemma fold_inv: "inv s \<Longrightarrow> inv (fold run ops s)"
  by (induction ops arbitrary: s) (simp_all add: run_keeps)

end

sublocale op_machine \<subseteq> op: state_machine "\<lambda>s s'. \<exists>op. s' = run op s" inv
  by unfold_locales (auto intro: run_keeps)

end
