(* ===== verification/Media_Time.thy ===== *)
theory Media_Time
  imports Blip_Prelude
begin

section \<open>Media time (crates/blip-media-time)\<close>

text \<open>
  \<open>std::time::Duration\<close> as its number of nanoseconds, and \<open>FrameTimestamp\<close>, the timestamp
  every capture backend converts its clock into. \<open>from_ratio\<close> is the conversion from a
  rational platform time; its intermediate product is computed in 128 bits.
\<close>

subsection \<open>Durations\<close>

type_synonym duration = nat

definition duration_max :: duration where
  "duration_max = u64_max * 1000000000 + 999999999"

definition nanos_per_sec :: nat where "nanos_per_sec = 1000000000"

definition as_secs_f64 :: "duration \<Rightarrow> real" where
  "as_secs_f64 d = real d / 1000000000"

definition as_micros :: "duration \<Rightarrow> nat" where "as_micros d = d div 1000"

definition as_millis :: "duration \<Rightarrow> nat" where "as_millis d = d div 1000000"

text \<open>
  \<open>Duration::try_from_secs_f64\<close>: an error below zero, on overflow and for values that are not
  finite; otherwise the nearest nanosecond.
\<close>

fun try_from_secs_f64 :: "fl \<Rightarrow> duration option" where
  "try_from_secs_f64 (Fin x) =
     (if x < 0 then None
      else let n = nat (round_half_even (x * 1000000000))
           in if n \<le> duration_max then Some n else None)"
| "try_from_secs_f64 _ = None"

lemma as_secs_f64_nonneg [simp]: "0 \<le> as_secs_f64 d"
  by (simp add: as_secs_f64_def)

lemma as_secs_f64_not_neg [simp]: "\<not> as_secs_f64 d < 0"
  by (simp add: not_less)

lemma as_secs_f64_mono: "a \<le> b \<Longrightarrow> as_secs_f64 a \<le> as_secs_f64 b"
  by (simp add: as_secs_f64_def divide_right_mono)

lemma try_from_secs_f64_as_secs:
  "d \<le> duration_max \<Longrightarrow> try_from_secs_f64 (Fin (as_secs_f64 d)) = Some d"
  using round_half_even_of_int [of "int d"] by (simp add: as_secs_f64_def Let_def)

lemma try_from_secs_f64_near:
  assumes "try_from_secs_f64 (Fin x) = Some d"
  shows "0 \<le> x \<and> \<bar>real d - x * 1000000000\<bar> \<le> 1/2"
proof -
  from assms have x: "0 \<le> x" and d: "d = nat (round_half_even (x * 1000000000))"
    by (auto simp: Let_def split: if_splits)
  from x have "0 \<le> round_half_even (x * 1000000000)"
    by (simp add: round_half_even_nonneg)
  then have "real d = of_int (round_half_even (x * 1000000000))" by (simp add: d)
  with round_half_even_near [of "x * 1000000000"] x show ?thesis by simp
qed

subsection \<open>Frame timestamps\<close>

datatype frame_timestamp = FrameTimestamp (duration_since_epoch: duration)

text \<open>The derived \<open>PartialOrd\<close> and \<open>Ord\<close>.\<close>

instantiation frame_timestamp :: linorder
begin

definition less_eq_frame_timestamp :: "frame_timestamp \<Rightarrow> frame_timestamp \<Rightarrow> bool" where
  "less_eq_frame_timestamp a b = (duration_since_epoch a \<le> duration_since_epoch b)"

definition less_frame_timestamp :: "frame_timestamp \<Rightarrow> frame_timestamp \<Rightarrow> bool" where
  "less_frame_timestamp a b = (duration_since_epoch a < duration_since_epoch b)"

instance
  by standard
    (auto simp: less_eq_frame_timestamp_def less_frame_timestamp_def intro: frame_timestamp.expand)

end

definition from_duration_since_epoch :: "duration \<Rightarrow> frame_timestamp" where
  "from_duration_since_epoch d = FrameTimestamp d"

text \<open>\<open>value\<close> is an \<open>i64\<close>, \<open>timescale\<close> an \<open>i32\<close>; the product is an \<open>i128\<close>.\<close>

definition from_ratio :: "int \<Rightarrow> int \<Rightarrow> frame_timestamp option" where
  "from_ratio value timescale =
     (if value < 0 \<or> timescale \<le> 0 then None
      else case checked_signed 128 (value * 1000000000) of
        None \<Rightarrow> None
      | Some product \<Rightarrow>
          (case checked_div_signed 128 product timescale of
             None \<Rightarrow> None
           | Some nanos \<Rightarrow>
               (if 0 \<le> nanos \<and> nanos \<le> int u64_max
                then Some (FrameTimestamp (nat nanos)) else None)))"

definition signed_seconds_since :: "frame_timestamp \<Rightarrow> frame_timestamp \<Rightarrow> real" where
  "signed_seconds_since self earlier =
     (if earlier \<le> self
      then as_secs_f64 (saturating_sub (duration_since_epoch self) (duration_since_epoch earlier))
      else - as_secs_f64 (saturating_sub (duration_since_epoch earlier) (duration_since_epoch self)))"

subsection \<open>What the conversion computes\<close>

lemma from_ratio_closed:
  assumes "in_signed 64 v" and "in_signed 32 t"
  shows "from_ratio v t =
    (if v < 0 \<or> t \<le> 0 \<or> int u64_max < v * 1000000000 div t then None
     else Some (FrameTimestamp (nat (v * 1000000000 div t))))"
proof (cases "v < 0 \<or> t \<le> 0")
  case True
  then show ?thesis by (auto simp: from_ratio_def)
next
  case False
  then have v: "0 \<le> v" and t: "0 < t" by auto
  from assms(1) v have hi: "v * 1000000000 < 2 ^ 127"
    by (simp add: in_signed_def)
  from v t have q0: "0 \<le> v * 1000000000 div t" by (simp add: pos_imp_zdiv_nonneg_iff)
  from v t have q1: "v * 1000000000 div t \<le> v * 1000000000"
    by (smt (verit) div_by_1 zdiv_mono2 mult_nonneg_nonneg)
  from v hi have p: "checked_signed 128 (v * 1000000000) = Some (v * 1000000000)"
    by (simp add: checked_signed_def in_signed_def)
  from t v q0 q1 hi
  have "checked_div_signed 128 (v * 1000000000) t = Some (v * 1000000000 div t)"
    by (simp add: checked_div_signed_def checked_signed_def in_signed_def trunc_div_nonneg)
  with p v t q0 show ?thesis by (auto simp: from_ratio_def)
qed

text \<open>
  The conversion refuses exactly the negative or unscaled inputs and those past the
  \<open>u64\<close> nanosecond range, and is otherwise the exact quotient rounded down: within one
  nanosecond below the rational time.
\<close>

theorem from_ratio_exact:
  assumes "in_signed 64 v" and "in_signed 32 t"
  shows "(from_ratio v t = None \<longleftrightarrow> v < 0 \<or> t \<le> 0 \<or> int u64_max < v * 1000000000 div t) \<and>
    (\<forall>ts. from_ratio v t = Some ts \<longrightarrow>
       real (duration_since_epoch ts) \<le> of_int v * 1000000000 / of_int t \<and>
       of_int v * 1000000000 / of_int t < real (duration_since_epoch ts) + 1)"
proof (cases "v < 0 \<or> t \<le> 0 \<or> int u64_max < v * 1000000000 div t")
  case True
  then show ?thesis by (simp add: from_ratio_closed [OF assms])
next
  case False
  let ?q = "v * 1000000000 div t"
  from False have t: "0 < t" and q0: "0 \<le> ?q" by (auto simp: pos_imp_zdiv_nonneg_iff)
  have fl: "?q = \<lfloor>of_int (v * 1000000000) / of_int t :: real\<rfloor>"
    by (simp only: floor_divide_of_int_eq)
  have "of_int ?q \<le> of_int (v * 1000000000) / (of_int t :: real)"
    and "of_int (v * 1000000000) / (of_int t :: real) < of_int ?q + 1"
    unfolding fl by linarith+
  with False q0 show ?thesis by (simp add: from_ratio_closed [OF assms])
qed

theorem from_ratio_exact_witness:
  "in_signed 64 3 \<and> in_signed 32 2 \<and> from_ratio 3 2 = Some (FrameTimestamp 1500000000) \<and>
   real 1500000000 \<le> of_int 3 * 1000000000 / of_int 2 \<and> from_ratio 3 2 \<noteq> None"
proof -
  have h: "in_signed 64 3" "in_signed 32 2" by (simp_all add: in_signed_def)
  have e: "from_ratio 3 2 = Some (FrameTimestamp 1500000000)"
    by (simp add: from_ratio_def checked_signed_def checked_div_signed_def in_signed_def
      trunc_div_def width_defs)
  from from_ratio_exact [OF h] e h show ?thesis by simp
qed

subsection \<open>Signed differences\<close>

lemma signed_seconds_since_eq:
  "signed_seconds_since a b =
     (real (duration_since_epoch a) - real (duration_since_epoch b)) / 1000000000"
  by (auto simp: signed_seconds_since_def saturating_sub_def as_secs_f64_def
    less_eq_frame_timestamp_def of_nat_diff diff_divide_distrib)

text \<open>
  Differences of timestamps are signed and add up: swapping the arguments changes the
  sign, going through a third timestamp gives the same difference, and the sign is the order.
\<close>

theorem signed_seconds_since_additive:
  "signed_seconds_since a b = - signed_seconds_since b a \<and>
   signed_seconds_since a c = signed_seconds_since a b + signed_seconds_since b c \<and>
   (0 \<le> signed_seconds_since a b \<longleftrightarrow> b \<le> a)"
  by (simp add: signed_seconds_since_eq less_eq_frame_timestamp_def field_simps)

end
