(* ===== verification/Segment_Timeline.thy ===== *)
theory Segment_Timeline
  imports Blip_Prelude
begin

section \<open>Edited timelines: the contract between the editor and the audio mixer\<close>

text \<open>
  The editor's timeline is a list of segments of the source recording, played one after the
  other. Two components look a timeline time up in it: the editor (for the frame to show) and
  the audio mixer (for the samples to play). The locale states what both promise; its lemmas
  follow once, and the specification \<open>timeline_source\<close> says what the result is.
\<close>

definition total_len :: "('s \<Rightarrow> real) \<Rightarrow> 's list \<Rightarrow> real" where
  "total_len len ss = sum_list (map len ss)"

lemma total_len_Nil [simp]: "total_len len [] = 0"
  by (simp add: total_len_def)

lemma total_len_Cons [simp]: "total_len len (s # ss) = len s + total_len len ss"
  by (simp add: total_len_def)

lemma total_len_append [simp]: "total_len len (xs @ ys) = total_len len xs + total_len len ys"
  by (simp add: total_len_def)

lemma total_len_map: "total_len len (map f ss) = total_len (\<lambda>s. len (f s)) ss"
  by (simp add: total_len_def comp_def)

lemma total_len_nonneg: "(\<And>s. s \<in> set ss \<Longrightarrow> 0 \<le> len s) \<Longrightarrow> 0 \<le> total_len len ss"
  by (induction ss) (auto simp: add_nonneg_nonneg)

text \<open>The specification: find the segment the time falls into, and go that far into it.\<close>

fun timeline_source :: "('s \<Rightarrow> real) \<Rightarrow> ('s \<Rightarrow> real) \<Rightarrow> 's list \<Rightarrow> real \<Rightarrow> real option" where
  "timeline_source start len [] t = None"
| "timeline_source start len (s # ss) t =
     (if t < len s then Some (start s + t) else timeline_source start len ss (t - len s))"

lemma timeline_source_map:
  "timeline_source start len (map f ss) t =
   timeline_source (\<lambda>s. start (f s)) (\<lambda>s. len (f s)) ss t"
  by (induction ss arbitrary: t) auto

locale segment_timeline =
  fixes seg_start :: "'s \<Rightarrow> real"
    and seg_len :: "'s \<Rightarrow> real"
    and lookup :: "'s list \<Rightarrow> real \<Rightarrow> real option"
  assumes seg_len_nonneg: "0 \<le> seg_len s"
    and lookup_hit: "0 \<le> t \<Longrightarrow> t < seg_len s \<Longrightarrow> lookup (s # ss) t = Some (seg_start s + t)"
    and lookup_skip:
      "seg_len s \<le> t \<Longrightarrow> ss \<noteq> [] \<Longrightarrow> lookup (s # ss) t = lookup ss (t - seg_len s)"
begin

lemma total_nonneg: "0 \<le> total_len seg_len ss"
  by (rule total_len_nonneg) (rule seg_len_nonneg)

lemma lookup_append:
  "total_len seg_len xs \<le> t \<Longrightarrow> ys \<noteq> [] \<Longrightarrow>
   lookup (xs @ ys) t = lookup ys (t - total_len seg_len xs)"
proof (induction xs arbitrary: t)
  case Nil
  then show ?case by simp
next
  case (Cons s xs)
  from Cons.prems(1) total_nonneg [of xs] have "seg_len s \<le> t" by simp
  with Cons.prems Cons.IH [of "t - seg_len s"] show ?case
    by (simp add: lookup_skip diff_diff_eq)
qed

lemma lookup_in_segment:
  assumes "total_len seg_len xs \<le> t" and "t < total_len seg_len xs + seg_len s"
  shows "lookup (xs @ s # ys) t = Some (seg_start s + (t - total_len seg_len xs))"
  using assms by (simp add: lookup_append lookup_hit)

lemma lookup_meets_spec:
  "0 \<le> t \<Longrightarrow> t < total_len seg_len ss \<Longrightarrow>
   lookup ss t = timeline_source seg_start seg_len ss t"
proof (induction ss arbitrary: t)
  case Nil
  then show ?case by simp
next
  case (Cons s ss)
  show ?case
  proof (cases "t < seg_len s")
    case True
    with Cons.prems show ?thesis by (simp add: lookup_hit)
  next
    case False
    with Cons.prems have "ss \<noteq> []" by auto
    with False Cons.prems Cons.IH [of "t - seg_len s"] show ?thesis
      by (simp add: lookup_skip)
  qed
qed

lemma lookup_covered:
  assumes "0 \<le> t" and "t < total_len seg_len ss"
  shows "\<exists>xs s ys. ss = xs @ s # ys \<and> total_len seg_len xs \<le> t \<and>
    t < total_len seg_len xs + seg_len s \<and>
    lookup ss t = Some (seg_start s + (t - total_len seg_len xs))"
proof -
  have "\<exists>xs s ys. ss = xs @ s # ys \<and> total_len seg_len xs \<le> t \<and>
    t < total_len seg_len xs + seg_len s"
    using assms
  proof (induction ss arbitrary: t)
    case Nil
    then show ?case by simp
  next
    case (Cons s ss)
    show ?case
    proof (cases "t < seg_len s")
      case True
      with Cons.prems have "s # ss = [] @ s # ss \<and> total_len seg_len [] \<le> t \<and>
        t < total_len seg_len [] + seg_len s" by simp
      then show ?thesis by blast
    next
      case False
      with Cons.prems Cons.IH [of "t - seg_len s"] obtain xs u ys where
        "ss = xs @ u # ys" "total_len seg_len xs \<le> t - seg_len s"
        "t - seg_len s < total_len seg_len xs + seg_len u" by auto
      then have "s # ss = (s # xs) @ u # ys \<and> total_len seg_len (s # xs) \<le> t \<and>
        t < total_len seg_len (s # xs) + seg_len u" by simp
      then show ?thesis by blast
    qed
  qed
  then show ?thesis using lookup_in_segment by blast
qed

end

end
