(* ===== verification/Audio_Mixer.thy ===== *)
theory Audio_Mixer
  imports Media_Time Segment_Timeline
begin

section \<open>The audio mixer (crates/blip-audio)\<close>

text \<open>
  Packets of interleaved PCM samples (the sample type is a parameter: the capture side holds
  raw \<open>f32\<close> values, the mixer exact ones), sources positioned on the recording's timeline, and the
  mixer that renders the edited timeline at 48 kHz stereo.
\<close>

subsection \<open>Packets\<close>

definition MIX_SAMPLE_RATE :: nat where "MIX_SAMPLE_RATE = 48000"
definition MIX_CHANNELS :: nat where "MIX_CHANNELS = 2"

lemmas mix_consts = MIX_SAMPLE_RATE_def MIX_CHANNELS_def

record 'a audio_packet =
  pkt_samples :: "'a list"
  pkt_sample_rate :: nat
  pkt_channels :: nat
  pkt_timestamp :: "frame_timestamp option"

datatype audio_packet_error =
  InvalidSampleRate | InvalidChannelCount | EmptyPacket | IncompleteFrame

definition new_packet ::
    "'a list \<Rightarrow> nat \<Rightarrow> nat \<Rightarrow> frame_timestamp option \<Rightarrow> audio_packet_error + 'a audio_packet" where
  "new_packet samples sample_rate channels timestamp =
     (if sample_rate = 0 then Inl InvalidSampleRate
      else if channels = 0 then Inl InvalidChannelCount
      else if samples = [] then Inl EmptyPacket
      else if \<not> is_multiple_of (length samples) channels then Inl IncompleteFrame
      else Inr \<lparr>pkt_samples = samples, pkt_sample_rate = sample_rate, pkt_channels = channels,
                pkt_timestamp = timestamp\<rparr>)"

definition frame_count :: "'a audio_packet \<Rightarrow> nat" where
  "frame_count p = unwrap_or (checked_div (length (pkt_samples p)) (pkt_channels p)) 0"

definition packet_wf :: "'a audio_packet \<Rightarrow> bool" where
  "packet_wf p \<longleftrightarrow> 0 < pkt_sample_rate p \<and> 0 < pkt_channels p \<and> 0 < frame_count p \<and>
     frame_count p * pkt_channels p = length (pkt_samples p)"

lemma new_packet_ok_iff:
  "is_ok (new_packet xs r c ts) \<longleftrightarrow> 0 < r \<and> 0 < c \<and> xs \<noteq> [] \<and> length xs mod c = 0"
  by (auto simp: new_packet_def is_multiple_of_def)

text \<open>
  A packet that \<open>AudioPacket::new\<close> accepts holds a positive number of complete frames at a
  positive rate, and carries exactly the given samples.
\<close>

theorem new_packet_wf:
  assumes "new_packet xs r c ts = Inr p"
  shows "packet_wf p \<and> pkt_samples p = xs \<and> pkt_sample_rate p = r \<and> pkt_channels p = c \<and>
    pkt_timestamp p = ts"
proof -
  from assms have h: "0 < r" "0 < c" "xs \<noteq> []" "length xs mod c = 0"
    and p: "p = \<lparr>pkt_samples = xs, pkt_sample_rate = r, pkt_channels = c, pkt_timestamp = ts\<rparr>"
    by (auto simp: new_packet_def is_multiple_of_def split: if_splits)
  from h have "length xs div c * c = length xs" by auto
  moreover from h this have "0 < length xs div c" by (cases "length xs div c") auto
  ultimately show ?thesis
    using h by (simp add: p packet_wf_def frame_count_def checked_div_def)
qed

theorem new_packet_wf_witness:
  "\<exists>p. new_packet [0, 1/2, 1, - 1 :: real] 48000 2 None = Inr p \<and> packet_wf p"
proof -
  obtain p where p: "new_packet [0, 1/2, 1, - 1 :: real] 48000 2 None = Inr p"
    by (simp add: new_packet_def is_multiple_of_def)
  from new_packet_wf [OF p] p show ?thesis by blast
qed

subsection \<open>Sources and the edited timeline\<close>

record audio_source =
  src_samples :: "real list"
  src_start_offset_secs :: real
  src_gain :: real

definition new_source :: "real list \<Rightarrow> real \<Rightarrow> real \<Rightarrow> audio_packet_error + audio_source" where
  "new_source samples start_offset_secs gain =
     (if \<not> is_multiple_of (length samples) MIX_CHANNELS then Inl IncompleteFrame
      else Inr \<lparr>src_samples = samples, src_start_offset_secs = start_offset_secs, src_gain = gain\<rparr>)"

record audio_timeline_segment =
  ats_source_start_secs :: real
  ats_source_end_secs :: real

definition ats_duration_secs :: "audio_timeline_segment \<Rightarrow> real" where
  "ats_duration_secs s = max (ats_source_end_secs s - ats_source_start_secs s) 0"

record audio_mixer =
  mixer_sources :: "audio_source list"
  mixer_segments :: "audio_timeline_segment list"

definition new_mixer :: "audio_source list \<Rightarrow> audio_timeline_segment list \<Rightarrow> audio_mixer" where
  "new_mixer sources segments = \<lparr>mixer_sources = sources, mixer_segments = segments\<rparr>"

definition has_sources :: "audio_mixer \<Rightarrow> bool" where
  "has_sources m \<longleftrightarrow> mixer_sources m \<noteq> []"

text \<open>The loop of \<open>AudioMixer::source_time_at\<close>: \<open>timeline_start\<close> is the sum of what it passed.\<close>

fun mixer_time_loop :: "audio_timeline_segment list \<Rightarrow> real \<Rightarrow> real \<Rightarrow> real option" where
  "mixer_time_loop [] timeline_start t = None"
| "mixer_time_loop (segment # rest) timeline_start t =
     (let duration = ats_duration_secs segment;
          timeline_end = timeline_start + duration
      in if t < timeline_end then Some (ats_source_start_secs segment + t - timeline_start)
         else mixer_time_loop rest timeline_end t)"

definition mixer_source_time_at :: "audio_timeline_segment list \<Rightarrow> real \<Rightarrow> real option" where
  "mixer_source_time_at segments t = (if t < 0 then None else mixer_time_loop segments 0 t)"

definition mixer_duration_secs :: "audio_mixer \<Rightarrow> real" where
  "mixer_duration_secs m = sum_list (map ats_duration_secs (mixer_segments m))"

lemma mixer_time_loop_shift:
  "mixer_time_loop ss a t = mixer_time_loop ss b (t - a + b)"
proof (induction ss arbitrary: a b)
  case Nil
  then show ?case by simp
next
  case (Cons s ss)
  show ?case
    using Cons.IH [of "a + ats_duration_secs s" "b + ats_duration_secs s"]
    by (simp add: Let_def algebra_simps)
qed

lemma mixer_time_loop_spec:
  "mixer_time_loop ss a t = timeline_source ats_source_start_secs ats_duration_secs ss (t - a)"
proof (induction ss arbitrary: a)
  case Nil
  then show ?case by simp
next
  case (Cons s ss)
  then show ?case by (simp add: Let_def algebra_simps)
qed

interpretation mixer_tl: segment_timeline ats_source_start_secs ats_duration_secs mixer_source_time_at
proof unfold_locales
  show "0 \<le> ats_duration_secs s" for s by (simp add: ats_duration_secs_def)
  then show "mixer_source_time_at (s # ss) t = mixer_source_time_at ss (t - ats_duration_secs s)"
    if "ats_duration_secs s \<le> t" "ss \<noteq> []" for s ss t
    using that order.trans [OF _ that(1)]
    by (force simp: mixer_source_time_at_def mixer_time_loop_spec)
qed (simp add: mixer_source_time_at_def)

lemma mixer_time_none:
  "mixer_source_time_at ss t = None \<longleftrightarrow> t < 0 \<or> total_len ats_duration_secs ss \<le> t"
proof -
  have "timeline_source ats_source_start_secs ats_duration_secs ss t = None"
    if "total_len ats_duration_secs ss \<le> t" for t
    using that
  proof (induction ss arbitrary: t)
    case Nil
    then show ?case by simp
  next
    case (Cons s ss)
    with mixer_tl.total_nonneg [of ss] show ?case by auto
  qed
  moreover have "mixer_source_time_at ss t \<noteq> None"
    if "0 \<le> t" "t < total_len ats_duration_secs ss"
    using mixer_tl.lookup_covered [OF that] by auto
  ultimately show ?thesis
    by (cases "t < total_len ats_duration_secs ss")
      (auto simp: mixer_source_time_at_def mixer_time_loop_spec)
qed

text \<open>
  The mixer maps exactly the times of \<open>[0, duration)\<close>, and a time that falls into the
  \<open>n\<close>-th segment to the point that far into that segment's source range.
\<close>

theorem mixer_source_time_at_correct:
  "(mixer_source_time_at ss t = None \<longleftrightarrow>
      t < 0 \<or> mixer_duration_secs (new_mixer srcs ss) \<le> t) \<and>
   (total_len ats_duration_secs (take n ss) \<le> t \<and> n < length ss \<and>
      t < total_len ats_duration_secs (take (Suc n) ss) \<longrightarrow>
    mixer_source_time_at ss t =
      Some (ats_source_start_secs (ss ! n) + (t - total_len ats_duration_secs (take n ss))))"
proof -
  have dur: "mixer_duration_secs (new_mixer srcs ss) = total_len ats_duration_secs ss"
    by (simp add: mixer_duration_secs_def new_mixer_def total_len_def)
  have "mixer_source_time_at ss t =
      Some (ats_source_start_secs (ss ! n) + (t - total_len ats_duration_secs (take n ss)))"
    if h: "total_len ats_duration_secs (take n ss) \<le> t" "n < length ss"
      "t < total_len ats_duration_secs (take (Suc n) ss)"
  proof -
    from h(2) have s: "ss = take n ss @ ss ! n # drop (Suc n) ss" by (rule id_take_nth_drop)
    from h(2,3) have "t < total_len ats_duration_secs (take n ss) + ats_duration_secs (ss ! n)"
      by (simp add: take_Suc_conv_app_nth)
    from mixer_tl.lookup_in_segment [OF h(1) this, of "drop (Suc n) ss"] s show ?thesis by simp
  qed
  then show ?thesis by (simp add: dur mixer_time_none)
qed

theorem mixer_source_time_at_correct_witness:
  "mixer_source_time_at
     [\<lparr>ats_source_start_secs = 0, ats_source_end_secs = 2\<rparr>,
      \<lparr>ats_source_start_secs = 6, ats_source_end_secs = 8\<rparr>] 3 = Some 7"
proof -
  let ?ss = "[\<lparr>ats_source_start_secs = 0, ats_source_end_secs = 2\<rparr>,
      \<lparr>ats_source_start_secs = 6, ats_source_end_secs = 8\<rparr>]"
  show ?thesis
    using mixer_source_time_at_correct [of ?ss 3 "[]" 1]
    by (simp add: ats_duration_secs_def take_Suc_conv_app_nth)
qed

subsection \<open>Mixing a frame\<close>

definition frame_index_at :: "fl \<Rightarrow> nat option" where
  "frame_index_at time_secs =
     (if \<not> is_finite time_secs \<or> fl_val time_secs < 0 then None
      else case try_from_secs_f64 time_secs of
        None \<Rightarrow> None
      | Some nanos \<Rightarrow>
          (case checked_mul u128_max nanos MIX_SAMPLE_RATE of
             None \<Rightarrow> None
           | Some product \<Rightarrow>
               (case checked_add u128_max product 500000000 of
                  None \<Rightarrow> None
                | Some rounded \<Rightarrow>
                    (case checked_div rounded 1000000000 of
                       None \<Rightarrow> None
                     | Some frames \<Rightarrow> try_from usize_max frames))))"

text \<open>The inner loop over the two channels of the output.\<close>

fun mix_channels :: "audio_source \<Rightarrow> nat \<Rightarrow> nat \<Rightarrow> real list \<Rightarrow> real list" where
  "mix_channels source input_start channel [] = []"
| "mix_channels source input_start channel (mixed # rest) =
     (case checked_add usize_max input_start channel of
        None \<Rightarrow> mixed
      | Some input_index \<Rightarrow>
          (case list_get (src_samples source) input_index of
             None \<Rightarrow> mixed
           | Some input \<Rightarrow> mixed + input * src_gain source))
     # mix_channels source input_start (Suc channel) rest"

definition mix_source :: "real \<Rightarrow> real list \<Rightarrow> audio_source \<Rightarrow> real list" where
  "mix_source source_time output source =
     (let input_time = source_time - src_start_offset_secs source
      in case frame_index_at (Fin input_time) of
           None \<Rightarrow> output
         | Some input_frame \<Rightarrow>
             (case checked_mul usize_max input_frame MIX_CHANNELS of
                None \<Rightarrow> output
              | Some input_start \<Rightarrow> mix_channels source input_start 0 output))"

definition mix_frame_at :: "audio_mixer \<Rightarrow> real \<Rightarrow> real list" where
  "mix_frame_at m t =
     (case mixer_source_time_at (mixer_segments m) t of
        None \<Rightarrow> [0, 0]
      | Some source_time \<Rightarrow>
          map (\<lambda>sample. clamp sample (- 1) 1)
            (foldl (mix_source source_time) [0, 0] (mixer_sources m)))"

text \<open>
  \<open>render\<close>: one stereo frame per output frame; \<open>chunks_exact_mut\<close> leaves the incomplete
  chunk of a saturated length at its initial zeros.
\<close>

definition render :: "audio_mixer \<Rightarrow> real \<Rightarrow> nat \<Rightarrow> audio_packet_error + real audio_packet" where
  "render m timeline_start_secs frames =
     (let n = saturating_mul usize_max frames MIX_CHANNELS;
          frame = (\<lambda>output_frame.
            mix_frame_at m (timeline_start_secs
              + real (unwrap_or (try_from u32_max output_frame) u32_max) / real MIX_SAMPLE_RATE))
      in new_packet (concat (map frame [0..<n div MIX_CHANNELS]) @ replicate (n mod MIX_CHANNELS) 0)
           MIX_SAMPLE_RATE MIX_CHANNELS None)"

subsection \<open>What a frame holds\<close>

lemma length_mix_channels [simp]: "length (mix_channels s i c out) = length out"
  by (induction out arbitrary: c) simp_all

lemma length_mix_source [simp]: "length (mix_source t out s) = length out"
  by (simp add: mix_source_def Let_def split: option.splits)

lemma length_fold_mix [simp]: "length (foldl (mix_source t) out ss) = length out"
  by (induction ss arbitrary: out) simp_all

lemma length_mix_frame_at [simp]: "length (mix_frame_at m t) = 2"
  by (simp add: mix_frame_at_def split: option.splits)

text \<open>The specification of one channel: what each source contributes at a source time.\<close>

definition source_frame :: "real \<Rightarrow> audio_source \<Rightarrow> nat option" where
  "source_frame source_time s = frame_index_at (Fin (source_time - src_start_offset_secs s))"

definition contribution :: "real \<Rightarrow> nat \<Rightarrow> audio_source \<Rightarrow> real" where
  "contribution source_time channel s =
     (case source_frame source_time s of
        None \<Rightarrow> 0
      | Some f \<Rightarrow> (if 2 * f + channel < length (src_samples s)
                   then src_samples s ! (2 * f + channel) * src_gain s else 0))"

lemma mix_source_contribution:
  assumes "length (src_samples s) \<le> usize_max"
  shows "mix_source t [l, r] s = [l + contribution t 0 s, r + contribution t 1 s]"
proof (cases "frame_index_at (Fin (t - src_start_offset_secs s))")
  case None
  then show ?thesis by (simp add: mix_source_def contribution_def source_frame_def)
next
  case (Some f)
  then show ?thesis
    using assms
    by (auto simp: mix_source_def contribution_def source_frame_def checked_mul_def
      checked_add_def MIX_CHANNELS_def list_get_eq Let_def mult.commute)
qed

lemma fold_mix_contributions:
  assumes "\<forall>s \<in> set ss. length (src_samples s) \<le> usize_max"
  shows "foldl (mix_source t) [l, r] ss =
    [l + sum_list (map (contribution t 0) ss), r + sum_list (map (contribution t 1) ss)]"
  using assms by (induction ss arbitrary: l r) (simp_all add: mix_source_contribution add.assoc)

text \<open>
  C34: a mixed frame is silent outside the edited timeline, and inside it is, per channel, the
  sum over the sources of sample times gain at the source time, clamped to \<open>[-1, 1]\<close>.
  (A slice never has more than \<open>usize::MAX\<close> elements.)
\<close>

theorem mix_frame_at_correct:
  assumes "\<forall>s \<in> set (mixer_sources m). length (src_samples s) \<le> usize_max"
  shows "mix_frame_at m t =
    (if t < 0 \<or> mixer_duration_secs m \<le> t then [0, 0]
     else map (\<lambda>c. clamp (\<Sum>s \<leftarrow> mixer_sources m.
            contribution (the (mixer_source_time_at (mixer_segments m) t)) c s) (- 1) 1) [0, 1])"
proof -
  have dur: "mixer_duration_secs m = total_len ats_duration_secs (mixer_segments m)"
    by (simp add: mixer_duration_secs_def total_len_def)
  show ?thesis
  proof (cases "mixer_source_time_at (mixer_segments m) t")
    case None
    with mixer_time_none [of "mixer_segments m" t]
    have "t < 0 \<or> mixer_duration_secs m \<le> t" by (simp add: dur)
    with None show ?thesis by (simp add: mix_frame_at_def)
  next
    case (Some st)
    with mixer_time_none [of "mixer_segments m" t]
    have "\<not> (t < 0 \<or> mixer_duration_secs m \<le> t)" by (simp add: dur)
    with Some fold_mix_contributions [OF assms, of st 0 0] show ?thesis
      by (simp add: mix_frame_at_def)
  qed
qed

theorem mix_frame_at_correct_witness:
  "mix_frame_at (new_mixer [\<lparr>src_samples = [1/4, 3/4], src_start_offset_secs = 0, src_gain = 2\<rparr>]
     [\<lparr>ats_source_start_secs = 0, ats_source_end_secs = 1\<rparr>]) 0 = [1/2, 1]"
proof -
  let ?m = "new_mixer [\<lparr>src_samples = [1/4, 3/4], src_start_offset_secs = 0, src_gain = 2\<rparr>]
     [\<lparr>ats_source_start_secs = 0, ats_source_end_secs = 1\<rparr>]"
  have "\<forall>s \<in> set (mixer_sources ?m). length (src_samples s) \<le> usize_max"
    by (simp add: new_mixer_def width_defs)
  from mix_frame_at_correct [OF this, of 0] show ?thesis
    by (simp add: new_mixer_def mixer_duration_secs_def ats_duration_secs_def contribution_def
      source_frame_def frame_index_at_def mixer_source_time_at_def clamp_def rust_arith width_defs
      mix_consts round_half_even_def)
qed

lemma mix_frame_at_range:
  "x \<in> set (mix_frame_at m t) \<Longrightarrow> - 1 \<le> x \<and> x \<le> 1"
  using clamp_bounds [of "- 1" 1] by (auto simp: mix_frame_at_def split: option.splits)

subsection \<open>Rendering\<close>

lemma concat_const_length: "(\<And>x. length (f x) = k) \<Longrightarrow> length (concat (map f xs)) = k * length xs"
  by (induction xs) simp_all

lemma concat_pairs_nth:
  assumes "\<And>x. length (f x) = 2" and "i < n" and "c < 2"
  shows "concat (map f [0..<n]) ! (2 * i + c) = f i ! c"
  using assms(2)
proof (induction n)
  case 0
  then show ?case by simp
next
  case (Suc n)
  have len: "length (concat (map f [0..<n])) = 2 * n"
    using concat_const_length [of f 2 "[0..<n]"] assms(1) by simp
  show ?case
  proof (cases "i < n")
    case True
    with assms(3) have "2 * i + c < 2 * n" by arith
    with True Suc.IH len show ?thesis by (simp add: nth_append)
  next
    case False
    with Suc.prems have "i = n" by simp
    with len show ?thesis by (simp add: nth_append)
  qed
qed

text \<open>
  Rendering fails only for zero frames; otherwise the packet is well-formed 48 kHz stereo with
  exactly the requested number of frames, every sample is within \<open>[-1, 1]\<close>, and frame \<open>i\<close> is
  the mix at \<open>i / 48000\<close> seconds after the start. (Up to \<open>u32::MAX\<close> frames: a day of audio.)
\<close>

theorem render_correct:
  assumes "frames \<le> u32_max"
  shows "(render m t 0 = Inl EmptyPacket) \<and>
    (0 < frames \<longrightarrow> (\<exists>p. render m t frames = Inr p \<and> packet_wf p \<and> frame_count p = frames \<and>
       pkt_sample_rate p = 48000 \<and> pkt_channels p = 2 \<and>
       (\<forall>x \<in> set (pkt_samples p). - 1 \<le> x \<and> x \<le> 1) \<and>
       (\<forall>i < frames. \<forall>c < 2.
          pkt_samples p ! (2 * i + c) = mix_frame_at m (t + real i / 48000) ! c)))"
proof (intro conjI impI)
  show "render m t 0 = Inl EmptyPacket"
    by (simp add: render_def new_packet_def saturating_mul_def mix_consts)
  assume pos: "0 < frames"
  let ?f = "\<lambda>i. mix_frame_at m (t + real (unwrap_or (try_from u32_max i) u32_max) / 48000)"
  let ?xs = "concat (map ?f [0..<frames])"
  have len: "length ?xs = 2 * frames" by (simp add: concat_const_length)
  from assms have n: "saturating_mul usize_max frames 2 = 2 * frames"
    by (simp add: saturating_mul_def width_defs)
  have r: "render m t frames = new_packet ?xs 48000 2 None"
    using n by (simp add: render_def mix_consts Let_def)
  have ne: "?xs \<noteq> []"
  proof
    assume "?xs = []"
    then have "length ?xs = 0" by (simp only: list.size)
    with len pos show False by simp
  qed
  have ok: "is_ok (new_packet ?xs 48000 2 None)"
    unfolding new_packet_ok_iff using ne len by simp
  then obtain p where p: "new_packet ?xs 48000 2 None = Inr p" by (auto simp: is_ok_iff)
  note wf = new_packet_wf [OF p]
  have xs: "pkt_samples p = ?xs" using wf by simp
  have fc: "frame_count p = frames"
    using wf len by (simp add: frame_count_def checked_div_def del: length_concat)
  have rng: "\<forall>x \<in> set (pkt_samples p). - 1 \<le> x \<and> x \<le> 1"
    unfolding xs by (auto dest: mix_frame_at_range)
  have nth: "pkt_samples p ! (2 * i + c) = mix_frame_at m (t + real i / 48000) ! c"
    if "i < frames" "c < 2" for i c
    using that assms by (simp add: xs concat_pairs_nth try_from_def)
  show "\<exists>p. render m t frames = Inr p \<and> packet_wf p \<and> frame_count p = frames \<and>
       pkt_sample_rate p = 48000 \<and> pkt_channels p = 2 \<and>
       (\<forall>x \<in> set (pkt_samples p). - 1 \<le> x \<and> x \<le> 1) \<and>
       (\<forall>i < frames. \<forall>c < 2.
          pkt_samples p ! (2 * i + c) = mix_frame_at m (t + real i / 48000) ! c)"
    by (rule exI [of _ p]) (use r p wf fc rng nth in simp)
qed

theorem render_correct_witness:
  "\<exists>p. render (new_mixer [] []) 0 2 = Inr p \<and> frame_count p = 2"
  using render_correct [of 2 "new_mixer [] []" 0] by (auto simp: width_defs)

subsection \<open>Playback\<close>

definition timeline_seconds_at_frame :: "nat \<Rightarrow> real" where
  "timeline_seconds_at_frame frame =
     (let rate = MIX_SAMPLE_RATE;
          seconds = unwrap_or (checked_div frame rate) 0;
          remainder = unwrap_or (checked_rem frame rate) 0;
          nanos = unwrap_or
            (case checked_div (saturating_mul u64_max remainder 1000000000) rate of
               None \<Rightarrow> None
             | Some value \<Rightarrow> try_from u32_max value) 0
      in as_secs_f64 (seconds * nanos_per_sec + nanos))"

text \<open>The state the output callback of \<open>build_output_stream\<close> keeps between frames.\<close>

record playback_state =
  source_frame_pos :: nat
  source_remainder :: nat

definition playback_advance :: "nat \<Rightarrow> playback_state \<Rightarrow> playback_state" where
  "playback_advance output_rate s =
     (let r = saturating_add u64_max (source_remainder s) MIX_SAMPLE_RATE
      in \<lparr>source_frame_pos =
            saturating_add u64_max (source_frame_pos s) (unwrap_or (checked_div r output_rate) 0),
          source_remainder = unwrap_or (checked_rem r output_rate) 0\<rparr>)"

text \<open>One output frame of \<open>output_channels\<close> samples: mono is the mean, else left and right alternate.\<close>

definition output_samples :: "nat \<Rightarrow> real list \<Rightarrow> real list" where
  "output_samples output_channels frame =
     (let left = unwrap_or (list_get frame 0) 0; right = unwrap_or (list_get frame 1) 0
      in map (\<lambda>channel. if output_channels = 1 then (left + right) * (1/2)
                else if is_multiple_of channel 2 then left else right) [0..<output_channels])"

fun playback_callback ::
    "audio_mixer \<Rightarrow> nat \<Rightarrow> nat \<Rightarrow> nat \<Rightarrow> playback_state \<Rightarrow> real list \<times> playback_state" where
  "playback_callback m channels rate 0 s = ([], s)"
| "playback_callback m channels rate (Suc frames) s =
     (let frame = mix_frame_at m (timeline_seconds_at_frame (source_frame_pos s));
          (rest, s') = playback_callback m channels rate frames (playback_advance rate s)
      in (output_samples channels frame @ rest, s'))"

definition playback_start :: "nat \<Rightarrow> playback_state" where
  "playback_start start_frame = \<lparr>source_frame_pos = start_frame, source_remainder = 0\<rparr>"

fun advance_n :: "nat \<Rightarrow> nat \<Rightarrow> playback_state \<Rightarrow> playback_state" where
  "advance_n rate 0 s = s"
| "advance_n rate (Suc n) s = advance_n rate n (playback_advance rate s)"

lemma playback_callback_state: "snd (playback_callback m ch rate n s) = advance_n rate n s"
  by (induction n arbitrary: s) (simp_all add: Let_def split: prod.splits, metis snd_conv)

lemma advance_n_Suc: "advance_n rate (Suc n) s = playback_advance rate (advance_n rate n s)"
  by (induction n arbitrary: s) simp_all

lemma div_carry:
  assumes "0 < (r :: nat)"
  shows "a div r + (a mod r + b) div r = (a + b) div r" and "(a mod r + b) mod r = (a + b) mod r"
  using assms by (auto simp: mod_add_left_eq div_add1_eq [of a b] div_add1_eq [of "a mod r" b])

text \<open>
  Resampling does not drift: after \<open>n\<close> output frames at \<open>rate\<close> the source position is the
  start plus exactly \<open>n * 48000 div rate\<close> and the remainder is what that division leaves,
  as long as the position stays within \<open>u64\<close>.
\<close>

theorem playback_no_drift:
  assumes "0 < rate" and "rate \<le> u32_max" and "start + n * 48000 div rate \<le> u64_max"
  shows "snd (playback_callback m channels rate n (playback_start start)) =
    \<lparr>source_frame_pos = start + n * 48000 div rate, source_remainder = n * 48000 mod rate\<rparr>"
  unfolding playback_callback_state using assms(3)
proof (induction n)
  case 0
  then show ?case by (simp add: playback_start_def)
next
  case (Suc n)
  let ?a = "n * 48000"
  have carry: "?a div rate + (?a mod rate + 48000) div rate = Suc n * 48000 div rate"
    using div_carry(1) [OF assms(1), of ?a 48000] by (simp add: add.commute)
  with Suc.prems have "start + ?a div rate \<le> u64_max" by linarith
  note ih = Suc.IH [OF this]
  have "?a mod rate < rate" using assms(1) by simp
  with assms(2) have "?a mod rate + 48000 \<le> u64_max" by (simp add: width_defs)
  then have r: "saturating_add u64_max (?a mod rate) 48000 = ?a mod rate + 48000"
    by (rule saturating_add_exact)
  show ?case
    using assms(1) Suc.prems carry div_carry(2) [OF assms(1), of ?a 48000]
    by (simp only: advance_n_Suc ih)
      (simp add: playback_advance_def r MIX_SAMPLE_RATE_def checked_div_def checked_rem_def
        saturating_add_exact add.commute add.left_commute)
qed

theorem playback_no_drift_witness:
  "snd (playback_callback (new_mixer [] []) 2 44100 3 (playback_start 7)) =
    \<lparr>source_frame_pos = 10, source_remainder = 11700\<rparr>"
  using playback_no_drift [of 44100 7 3 "new_mixer [] []" 2] by (simp add: width_defs)

lemma frame_index_at_secs:
  assumes "d \<le> duration_max"
  shows "frame_index_at (Fin (as_secs_f64 d)) =
    try_from usize_max ((d * 48000 + 500000000) div 1000000000)"
proof -
  from assms have "d * 48000 + 500000000 \<le> u128_max"
    by (simp add: duration_max_def width_defs)
  then show ?thesis
    unfolding frame_index_at_def
    by (simp add: try_from_secs_f64_as_secs [OF assms] checked_mul_def checked_add_def
      checked_div_def MIX_SAMPLE_RATE_def not_less del: try_from_secs_f64.simps)
qed

lemma frame_arith:
  fixes k q m e :: nat
  assumes "k = q * 48000 + m" and "e * 48000 \<le> m * 1000000000"
    and "m * 1000000000 < e * 48000 + 48000"
  shows "k * 1000000000 \<le> (q * 1000000000 + e) * 48000 + 500000000"
    and "(q * 1000000000 + e) * 48000 + 500000000 < Suc k * 1000000000"
  using assms by simp_all

text \<open>
  The playback clock and the mixer's sample index agree: the time the callback asks for at
  source frame \<open>k\<close> is looked up as sample frame \<open>k\<close>, for every \<open>u64\<close> frame number.
\<close>

theorem frame_time_roundtrip:
  assumes "k \<le> u64_max"
  shows "frame_index_at (Fin (timeline_seconds_at_frame k)) = Some k"
proof -
  let ?q = "k div 48000" and ?m = "k mod 48000"
  let ?e = "?m * 1000000000 div 48000"
  let ?d = "?q * 1000000000 + ?e"
  have k: "?q * 48000 + ?m = k" by simp
  have m: "?m < 48000" by simp
  have e: "?e * 48000 \<le> ?m * 1000000000" "?m * 1000000000 < ?e * 48000 + 48000"
    by (simp_all add: div_times_less_eq_dividend)
  with m have e32: "?e < 1000000000" by linarith
  have t: "timeline_seconds_at_frame k = as_secs_f64 ?d"
    using m e32
    by (simp add: timeline_seconds_at_frame_def MIX_SAMPLE_RATE_def checked_div_def checked_rem_def
      saturating_mul_def try_from_def width_defs nanos_per_sec_def min_def Let_def)
  have "?q * 1000000000 \<le> u64_max * 1000000000" using assms div_le_dividend [of k 48000] by simp
  with e32 have dmax: "?d \<le> duration_max" unfolding duration_max_def by linarith
  note lo = frame_arith(1) [OF k [symmetric] e] and hi = frame_arith(2) [OF k [symmetric] e]
  have idx: "(?d * 48000 + 500000000) div 1000000000 = k"
    using lo hi by (intro div_nat_eqI) (simp_all add: mult.commute)
  show ?thesis
    unfolding t frame_index_at_secs [OF dmax] idx using assms by (simp add: try_from_def)
qed

theorem frame_time_roundtrip_witness:
  "frame_index_at (Fin (timeline_seconds_at_frame 100003)) = Some 100003"
  by (rule frame_time_roundtrip) (simp add: width_defs)

end
