(* ===== verification/Capture_Audio.thy ===== *)
theory Capture_Audio
  imports Audio_Mixer
begin

section \<open>Captured audio (crates/blip-sck: audio.rs, audio_latency.rs, capture.rs)\<close>

text \<open>
  The conversion of a ScreenCaptureKit audio sample into an interleaved packet, the
  normalisation of capture timestamps, and the estimate of the output latency that is added to
  them. What Core Media and Core Audio answer is data of the model (the records \<open>cm_time\<close>,
  \<open>audio_sample\<close> and \<open>hal\<close>): those frameworks are not part of the repository.
\<close>

subsection \<open>Timestamps\<close>

text \<open>A \<open>CMTime\<close> after conversion to the host clock: its validity flags, epoch and ratio.\<close>

record cm_time =
  cm_valid :: bool
  cm_implied_value :: bool
  cm_epoch :: int
  cm_value :: int
  cm_timescale :: int

text \<open>
  \<open>synchronization_clock\<close> is what the stream answers (none before macOS 13 or without a
  clock); the argument is the presentation time converted to the host clock.
\<close>

definition normalized_frame_timestamp :: "bool \<Rightarrow> cm_time option \<Rightarrow> frame_timestamp option" where
  "normalized_frame_timestamp macos13 host_pts =
     (if \<not> macos13 then None
      else case host_pts of
        None \<Rightarrow> None
      | Some pts \<Rightarrow>
          (if \<not> cm_valid pts \<or> cm_implied_value pts \<or> cm_epoch pts \<noteq> 0 then None
           else from_ratio (cm_value pts) (cm_timescale pts)))"

definition compensate_timestamp :: "frame_timestamp option \<Rightarrow> duration \<Rightarrow> frame_timestamp option" where
  "compensate_timestamp timestamp output_latency =
     (case timestamp of
        None \<Rightarrow> None
      | Some ts \<Rightarrow> map_option from_duration_since_epoch
          (checked_add duration_max (duration_since_epoch ts) output_latency))"

subsection \<open>Reading a sample buffer\<close>

datatype capture_audio_error =
  BuffersUninspectable | BuffersUnreadable | NoDataBuffer | BufferCountRange
| BufferListOverflow | BufferListShort | BufferChannelRange | BufferSizeRange | BufferNoData
| NoFormatDescription | NoStreamDescription | NotFloatPcm | BigEndian | BadSampleRate
| ChannelCountRange | FrameCountInvalid | ChannelCountOverflow | ChannelMismatch
| SampleIndexOverflow | SampleOffsetOverflow | ShortBuffer | BadPacket audio_packet_error

text \<open>One \<open>AudioBuffer\<close>: its channel count, byte size and data (none for a null pointer).\<close>

record raw_buffer =
  rb_channels :: nat
  rb_byte_size :: nat
  rb_data :: "nat list option"

text \<open>What Core Media reports for a sample, with the C sizes of its structures.\<close>

record audio_sample =
  as_required_size :: nat
  as_status :: int
  as_has_block_buffer :: bool
  as_buffers :: "raw_buffer list"
  as_size_of_list :: nat
  as_size_of_buffer :: nat
  as_offset_of_buffers :: nat
  as_has_format :: bool
  as_has_description :: bool
  as_linear_pcm :: bool
  as_float :: bool
  as_packed :: bool
  as_bits_per_channel :: nat
  as_big_endian :: bool
  as_sample_rate :: fl
  as_channels :: nat
  as_num_samples :: int

definition read_buffer :: "raw_buffer \<Rightarrow> capture_audio_error + (nat \<times> nat list)" where
  "read_buffer b =
     and_then (ok_or (try_from u16_max (rb_channels b)) BufferChannelRange) (\<lambda>channels.
     and_then (ok_or (try_from usize_max (rb_byte_size b)) BufferSizeRange) (\<lambda>byte_len.
     case rb_data b of
       None \<Rightarrow> Inl BufferNoData
     | Some bytes \<Rightarrow> Inr (channels, take byte_len bytes)))"

definition audio_buffers :: "audio_sample \<Rightarrow> capture_audio_error + (nat \<times> nat list) list" where
  "audio_buffers sample =
     (if as_required_size sample < as_size_of_list sample then Inl BuffersUninspectable
      else let word_count = (as_required_size sample + 7) div 8
      in if as_status sample \<noteq> 0 then Inl BuffersUnreadable
      else if \<not> as_has_block_buffer sample then Inl NoDataBuffer
      else
        and_then (ok_or (try_from usize_max (length (as_buffers sample))) BufferCountRange)
          (\<lambda>buffer_count.
        and_then (ok_or (Option.bind
            (checked_mul usize_max buffer_count (as_size_of_buffer sample))
            (\<lambda>size. checked_add usize_max size (as_offset_of_buffers sample))) BufferListOverflow)
          (\<lambda>buffers_size.
        if saturating_mul usize_max word_count 8 < buffers_size then Inl BufferListShort
        else try_map read_buffer (as_buffers sample))))"

text \<open>\<open>f32::from_ne_bytes\<close> on a little-endian machine: an IEEE single.\<close>

definition f32_from_bytes :: "nat list \<Rightarrow> fl" where
  "f32_from_bytes bs =
     (let w = bs ! 0 + 256 * (bs ! 1) + 65536 * (bs ! 2) + 16777216 * (bs ! 3);
          neg = 2147483648 \<le> w;
          ex = (w div 8388608) mod 256;
          frac = w mod 8388608;
          sign = (if neg then - 1 else 1 :: real)
      in if ex = 255 then (if frac \<noteq> 0 then NaN else if neg then NegInf else PosInf)
         else if ex = 0 then Fin (sign * real frac / 2 ^ 149)
         else if 150 \<le> ex then Fin (sign * real (8388608 + frac) * 2 ^ (ex - 150))
         else Fin (sign * real (8388608 + frac) / 2 ^ (150 - ex)))"

definition sample_rate :: "fl \<Rightarrow> capture_audio_error + nat" where
  "sample_rate value =
     (if \<not> is_finite value \<or> fl_val value \<le> 0 \<or> fl_val value > real u32_max
         \<or> frac (fl_val value) \<noteq> 0
      then Inl BadSampleRate else Inr (as_unsigned u32_max (fl_val value)))"

text \<open>The body of the innermost loop of \<open>audio_packet\<close>.\<close>

definition sample_at :: "nat \<Rightarrow> nat list \<Rightarrow> nat \<Rightarrow> nat \<Rightarrow> capture_audio_error + fl" where
  "sample_at buffer_channels bytes frame channel =
     and_then (ok_or (Option.bind (checked_mul usize_max frame buffer_channels)
         (\<lambda>index. checked_add usize_max index channel)) SampleIndexOverflow) (\<lambda>sample_index.
     and_then (ok_or (checked_mul usize_max sample_index 4) SampleOffsetOverflow) (\<lambda>offset.
     and_then (ok_or (checked_add usize_max offset 4) SampleOffsetOverflow) (\<lambda>end_offset.
     if end_offset \<le> length bytes
     then Inr (f32_from_bytes (take 4 (drop offset bytes)))
     else Inl ShortBuffer)))"

definition interleave :: "nat \<Rightarrow> (nat \<times> nat list) list \<Rightarrow> capture_audio_error + fl list" where
  "interleave frames channel_data =
     map_ok concat (try_map (\<lambda>frame.
       map_ok concat (try_map (\<lambda>(buffer_channels, bytes).
         try_map (sample_at buffer_channels bytes frame) [0..<buffer_channels]) channel_data))
       [0..<frames])"

fun listed_channels :: "(nat \<times> nat list) list \<Rightarrow> nat \<Rightarrow> nat option" where
  "listed_channels [] acc = Some acc"
| "listed_channels (b # bs) acc = Option.bind (checked_add u32_max acc (fst b)) (listed_channels bs)"

definition audio_packet ::
    "audio_sample \<Rightarrow> frame_timestamp option \<Rightarrow> duration \<Rightarrow> capture_audio_error + fl audio_packet" where
  "audio_packet sample timestamp output_latency =
     (let timestamp = compensate_timestamp timestamp output_latency
      in if \<not> as_has_format sample then Inl NoFormatDescription
      else if \<not> as_has_description sample then Inl NoStreamDescription
      else if \<not> as_linear_pcm sample \<or> \<not> as_float sample \<or> \<not> as_packed sample
           \<or> as_bits_per_channel sample \<noteq> 32 then Inl NotFloatPcm
      else if as_big_endian sample then Inl BigEndian
      else
        and_then (sample_rate (as_sample_rate sample)) (\<lambda>rate.
        and_then (ok_or (try_from u16_max (as_channels sample)) ChannelCountRange) (\<lambda>channels.
        if as_num_samples sample < 0 then Inl FrameCountInvalid
        else let frames = nat (as_num_samples sample) in
        and_then (audio_buffers sample) (\<lambda>buffers.
        and_then (ok_or (listed_channels buffers 0) ChannelCountOverflow) (\<lambda>listed.
        if listed \<noteq> channels then Inl ChannelMismatch
        else
        and_then (interleave frames buffers) (\<lambda>samples.
        map_err BadPacket (new_packet samples rate channels timestamp)))))))"

subsection \<open>Interleaving\<close>

definition sample_bytes :: "nat \<Rightarrow> nat list \<Rightarrow> nat \<Rightarrow> nat \<Rightarrow> fl" where
  "sample_bytes buffer_channels bytes frame channel =
     f32_from_bytes (take 4 (drop (4 * (frame * buffer_channels + channel)) bytes))"

definition frame_samples :: "(nat \<times> nat list) list \<Rightarrow> nat \<Rightarrow> fl list" where
  "frame_samples buffers frame =
     concat (map (\<lambda>(bc, bytes). map (sample_bytes bc bytes frame) [0..<bc]) buffers)"

definition total_channels :: "(nat \<times> nat list) list \<Rightarrow> nat" where
  "total_channels buffers = sum_list (map fst buffers)"

lemma four_index_bounds:
  fixes k c m :: nat
  assumes "4 * (k + c) + 4 \<le> m"
  shows "k \<le> m" and "k + c \<le> m" and "(k + c) * 4 \<le> m" and "(k + c) * 4 + 4 \<le> m"
  using assms by simp_all

lemma sample_at_ok:
  assumes "length bytes \<le> usize_max"
  shows "sample_at bc bytes f c = Inr x \<longleftrightarrow>
    4 * (f * bc + c) + 4 \<le> length bytes \<and> x = sample_bytes bc bytes f c"
proof (cases "4 * (f * bc + c) + 4 \<le> length bytes")
  case True
  with assms have "4 * (f * bc + c) + 4 \<le> u64_max" by (rule order.trans [rotated])
  note bounds = four_index_bounds [OF this]
  with True bounds show ?thesis
    by (auto simp: sample_at_def checked_mul_def checked_add_def sample_bytes_def mult.commute)
next
  case False
  then show ?thesis
    by (auto simp: sample_at_def checked_mul_def checked_add_def split: if_splits)
qed

lemma length_frame_samples: "length (frame_samples buffers f) = total_channels buffers"
  by (induction buffers) (auto simp: frame_samples_def total_channels_def)

lemma buffer_fits:
  "(\<forall>f < n. \<forall>c < bc. 4 * (f * bc + c) + 4 \<le> len) \<longleftrightarrow> n = 0 \<or> 4 * (n * bc) \<le> (len :: nat)"
proof
  assume h: "\<forall>f < n. \<forall>c < bc. 4 * (f * bc + c) + 4 \<le> len"
  show "n = 0 \<or> 4 * (n * bc) \<le> len"
  proof (cases "n = 0 \<or> bc = 0")
    case True
    then show ?thesis by auto
  next
    case False
    then obtain k where Suc: "n = Suc k" and pos: "0 < bc" by (cases n) auto
    then obtain j where j: "bc = Suc j" by (cases bc) auto
    from h [rule_format, of k "bc - 1"] Suc pos have "4 * (k * bc + (bc - 1)) + 4 \<le> len" by simp
    moreover have "4 * (k * bc + (bc - 1)) + 4 = 4 * (n * bc)"
      by (simp add: Suc j algebra_simps)
    ultimately show ?thesis by simp
  qed
next
  assume h: "n = 0 \<or> 4 * (n * bc) \<le> len"
  show "\<forall>f < n. \<forall>c < bc. 4 * (f * bc + c) + 4 \<le> len"
  proof (intro allI impI)
    fix f c assume "f < n" "c < bc"
    then have "f * bc + c + 1 \<le> Suc f * bc" "Suc f * bc \<le> n * bc"
      using mult_le_mono1 [OF Suc_leI, of f n bc] by simp_all
    then have "4 * (f * bc + c + 1) \<le> 4 * (n * bc)" by (intro mult_le_mono2) (rule order.trans)
    with h \<open>f < n\<close> show "4 * (f * bc + c) + 4 \<le> len" by auto
  qed
qed

lemma read_frame_ok:
  assumes "length bytes \<le> usize_max"
  shows "try_map (sample_at bc bytes f) [0..<bc] = Inr xs \<longleftrightarrow>
    (\<forall>c < bc. 4 * (f * bc + c) + 4 \<le> length bytes) \<and> xs = map (sample_bytes bc bytes f) [0..<bc]"
  using try_map_all [of "[0..<bc]" "sample_at bc bytes f" "\<lambda>c. 4 * (f * bc + c) + 4 \<le> length bytes"
      "sample_bytes bc bytes f" xs] by (auto simp: sample_at_ok [OF assms])

lemma interleave_ok:
  assumes "\<forall>(bc, bytes) \<in> set buffers. length bytes \<le> usize_max"
  shows "interleave n buffers = Inr xs \<longleftrightarrow>
    (\<forall>(bc, bytes) \<in> set buffers. n = 0 \<or> 4 * (n * bc) \<le> length bytes) \<and>
    xs = concat (map (frame_samples buffers) [0..<n])"
proof -
  let ?fits = "\<lambda>f. \<forall>(bc, bytes) \<in> set buffers. \<forall>c < bc. 4 * (f * bc + c) + 4 \<le> length bytes"
  have frame: "map_ok concat (try_map (\<lambda>(bc, bytes). try_map (sample_at bc bytes f) [0..<bc]) buffers)
      = Inr ys \<longleftrightarrow> ?fits f \<and> ys = frame_samples buffers f" for f ys
    unfolding frame_samples_def
  proof (rule try_concat_all)
    fix x y assume "x \<in> set buffers"
    moreover obtain bc bytes where x: "x = (bc, bytes)" by (cases x)
    ultimately have "length bytes \<le> usize_max" using assms by auto
    then show "(case x of (bc, bytes) \<Rightarrow> try_map (sample_at bc bytes f) [0..<bc]) = Inr y \<longleftrightarrow>
      (case x of (bc, bytes) \<Rightarrow> \<forall>c < bc. 4 * (f * bc + c) + 4 \<le> length bytes) \<and>
      y = (case x of (bc, bytes) \<Rightarrow> map (sample_bytes bc bytes f) [0..<bc])"
      by (simp only: x prod.case read_frame_ok)
  qed
  have "interleave n buffers = Inr xs \<longleftrightarrow> (\<forall>f < n. ?fits f) \<and> xs = concat (map (frame_samples buffers) [0..<n])"
    unfolding interleave_def
    using try_concat_all [of "[0..<n]" _ ?fits "frame_samples buffers" xs, OF frame] by (simp add: Ball_def)
  moreover have "(\<forall>f < n. ?fits f) \<longleftrightarrow>
      (\<forall>(bc, bytes) \<in> set buffers. n = 0 \<or> 4 * (n * bc) \<le> length bytes)"
  proof -
    have "(\<forall>f < n. ?fits f) \<longleftrightarrow> (\<forall>(bc, bytes) \<in> set buffers. \<forall>f < n. \<forall>c < bc.
        4 * (f * bc + c) + 4 \<le> length bytes)" by fast
    also have "\<dots> \<longleftrightarrow> (\<forall>(bc, bytes) \<in> set buffers. n = 0 \<or> 4 * (n * bc) \<le> length bytes)"
      by (simp only: buffer_fits split_beta)
    finally show ?thesis .
  qed
  ultimately show ?thesis by simp
qed

text \<open>
  Interleaving succeeds exactly when every buffer holds all its frames (a shorter buffer is
  an error, never a read out of range), and then yields, frame by frame and buffer by buffer,
  the samples at their byte offsets.
\<close>

theorem interleave_correct:
  assumes "\<forall>(bc, bytes) \<in> set buffers. length bytes \<le> usize_max"
  shows "interleave n buffers = Inr xs \<longleftrightarrow>
    (\<forall>(bc, bytes) \<in> set buffers. n = 0 \<or> 4 * (n * bc) \<le> length bytes) \<and>
    xs = concat (map (frame_samples buffers) [0..<n])"
  using assms by (rule interleave_ok)

theorem interleave_correct_witness:
  "interleave 1 [(1, [0, 0, 128, 63]), (1, [0, 0, 0, 191])] = Inr [Fin 1, Fin (- (1/2))]"
proof -
  let ?b = "[(1, [0, 0, 128, 63]), (1, [0, 0, 0, 191])]"
  have "\<forall>(bc, bytes) \<in> set ?b. length bytes \<le> usize_max" by (simp add: width_defs)
  from interleave_correct [OF this, of 1 "[Fin 1, Fin (- (1/2))]"]
  show ?thesis
    by (simp add: frame_samples_def sample_bytes_def f32_from_bytes_def Let_def)
qed

subsection \<open>The whole conversion\<close>

lemma listed_channels_Some:
  "listed_channels bs acc = Some k \<Longrightarrow> k = acc + total_channels bs"
  by (induction bs acc rule: listed_channels.induct)
    (auto simp: total_channels_def checked_add_def split: if_splits bind_splits)

lemma concat_frames_length:
  "length (concat (map (frame_samples buffers) [0..<n])) = total_channels buffers * n"
  using concat_const_length [of "frame_samples buffers" "total_channels buffers" "[0..<n]"]
  by (simp add: length_frame_samples)

lemma audio_packet_Inr:
  assumes "audio_packet sample timestamp latency = Inr p"
  obtains rate buffers samples where
    "sample_rate (as_sample_rate sample) = Inr rate"
    "0 \<le> as_num_samples sample"
    "audio_buffers sample = Inr buffers"
    "total_channels buffers = as_channels sample"
    "interleave (nat (as_num_samples sample)) buffers = Inr samples"
    "new_packet samples rate (as_channels sample) (compensate_timestamp timestamp latency) = Inr p"
proof -
  from assms obtain rate buffers listed samples where h:
    "sample_rate (as_sample_rate sample) = Inr rate"
    "try_from u16_max (as_channels sample) = Some listed"
    "\<not> as_num_samples sample < 0"
    "audio_buffers sample = Inr buffers"
    "listed_channels buffers 0 = Some listed"
    "interleave (nat (as_num_samples sample)) buffers = Inr samples"
    "new_packet samples rate listed (compensate_timestamp timestamp latency) = Inr p"
    by (auto simp: audio_packet_def Let_def split: if_splits sum.splits)
  from h(2) have "listed = as_channels sample" by (auto simp: try_from_def split: if_splits)
  with h listed_channels_Some [OF h(5)] show ?thesis by (intro that) auto
qed

lemma audio_buffers_len:
  "audio_buffers sample = Inr buffers \<Longrightarrow> \<forall>(bc, bytes) \<in> set buffers. length bytes \<le> usize_max"
proof -
  assume "audio_buffers sample = Inr buffers"
  then have "try_map read_buffer (as_buffers sample) = Inr buffers"
    by (auto simp: audio_buffers_def Let_def split: if_splits)
  then have "\<exists>b. read_buffer b = Inr x" if "x \<in> set buffers" for x
    using that by (auto simp: try_map_Inr in_set_conv_nth)
  moreover have "length bytes \<le> usize_max" if "read_buffer b = Inr (bc, bytes)" for b bc bytes
    using that by (auto simp: read_buffer_def try_from_def split: if_splits option.splits)
  ultimately show ?thesis by fast
qed

text \<open>
  A captured sample that is accepted becomes a well-formed packet with the stream's channel
  count and frame count, the samples of its buffers interleaved, the stream's rate, and a
  timestamp moved later by exactly the output latency.
\<close>

theorem audio_packet_correct:
  assumes "audio_packet sample timestamp latency = Inr p"
  shows "packet_wf p \<and> int (frame_count p) = as_num_samples sample \<and>
    pkt_channels p = as_channels sample \<and>
    pkt_timestamp p = compensate_timestamp timestamp latency \<and>
    real (pkt_sample_rate p) = fl_val (as_sample_rate sample) \<and>
    (\<exists>buffers. audio_buffers sample = Inr buffers \<and>
       pkt_samples p = concat (map (frame_samples buffers) [0..<frame_count p]))"
proof -
  from assms obtain rate buffers samples where h:
    "sample_rate (as_sample_rate sample) = Inr rate" "0 \<le> as_num_samples sample"
    "audio_buffers sample = Inr buffers" "total_channels buffers = as_channels sample"
    "interleave (nat (as_num_samples sample)) buffers = Inr samples"
    and p: "new_packet samples rate (as_channels sample) (compensate_timestamp timestamp latency) = Inr p"
    by (rule audio_packet_Inr)
  note wf = new_packet_wf [OF p]
  let ?n = "nat (as_num_samples sample)"
  from h(5) have samples: "samples = concat (map (frame_samples buffers) [0..<?n])"
    using interleave_ok [OF audio_buffers_len [OF h(3)]] by blast
  from wf have e: "frame_count p * pkt_channels p = length (pkt_samples p)"
    "pkt_samples p = samples" "pkt_channels p = as_channels sample"
    unfolding packet_wf_def by blast+
  have "frame_count p * as_channels sample = as_channels sample * ?n"
    using e(1) unfolding e(2,3) samples concat_frames_length h(4) .
  moreover have "0 < as_channels sample" using wf by (simp add: packet_wf_def)
  ultimately have fc: "frame_count p = ?n" by (simp add: mult.commute)
  have "real rate = fl_val (as_sample_rate sample)"
  proof -
    let ?r = "fl_val (as_sample_rate sample)"
    from h(1) have r: "0 < ?r" "?r \<le> real u32_max" "frac ?r = 0" "rate = as_unsigned u32_max ?r"
      by (auto simp: sample_rate_def split: if_splits)
    from r(3) have "?r = of_int \<lfloor>?r\<rfloor>" by (simp add: frac_def)
    with r(1,2,4) show ?thesis
      by (auto simp: as_unsigned_def min_def le_nat_floor nat_le_eq_zle)
  qed
  with wf fc h samples show ?thesis by auto
qed

definition sample_witness :: audio_sample where
  "sample_witness =
     \<lparr>as_required_size = 40, as_status = 0, as_has_block_buffer = True,
      as_buffers = [\<lparr>rb_channels = 1, rb_byte_size = 4, rb_data = Some [0, 0, 128, 63]\<rparr>,
                    \<lparr>rb_channels = 1, rb_byte_size = 4, rb_data = Some [0, 0, 0, 191]\<rparr>],
      as_size_of_list = 24, as_size_of_buffer = 16, as_offset_of_buffers = 8,
      as_has_format = True, as_has_description = True, as_linear_pcm = True, as_float = True,
      as_packed = True, as_bits_per_channel = 32, as_big_endian = False,
      as_sample_rate = Fin 48000, as_channels = 2, as_num_samples = 1\<rparr>"

lemma sample_witness_packet:
  "audio_packet sample_witness (Some (FrameTimestamp 100)) 20 =
     Inr \<lparr>pkt_samples = [Fin 1, Fin (- (1/2))], pkt_sample_rate = 48000, pkt_channels = 2,
          pkt_timestamp = Some (FrameTimestamp 120)\<rparr>"
proof -
  have b: "audio_buffers sample_witness = Inr [(1, [0, 0, 128, 63]), (1, [0, 0, 0, 191])]"
    by (simp add: audio_buffers_def sample_witness_def read_buffer_def rust_arith width_defs)
  have r: "sample_rate (Fin 48000) = Inr 48000"
    by (simp add: sample_rate_def as_unsigned_def width_defs)
  have i: "interleave 1 [(1, [0, 0, 128, 63]), (1, [0, 0, 0, 191])] = Inr [Fin 1, Fin (- (1/2))]"
    by (simp add: interleave_def sample_at_def f32_from_bytes_def rust_arith width_defs Let_def)
  show ?thesis
    unfolding audio_packet_def b
    by (simp add: sample_witness_def r i [simplified] checked_add_def try_from_def width_defs
      new_packet_def is_multiple_of_def compensate_timestamp_def duration_max_def
      from_duration_since_epoch_def)
qed

theorem audio_packet_correct_witness:
  "\<exists>p. audio_packet sample_witness (Some (FrameTimestamp 100)) 20 = Inr p \<and> packet_wf p \<and>
     pkt_timestamp p = Some (FrameTimestamp 120) \<and> frame_count p = 1"
  using audio_packet_correct [OF sample_witness_packet] sample_witness_packet
  by (auto simp: sample_witness_def)

subsection \<open>Output latency\<close>

definition FALLBACK_SAMPLE_RATE :: real where "FALLBACK_SAMPLE_RATE = 48000"
definition BLUETOOTH_MIN_LATENCY :: duration where "BLUETOOTH_MIN_LATENCY = 120000000"
definition BLUETOOTH_FALLBACK_LATENCY :: duration where "BLUETOOTH_FALLBACK_LATENCY = 200000000"
definition AIRPLAY_MIN_LATENCY :: duration where "AIRPLAY_MIN_LATENCY = 1800000000"
definition MAX_OUTPUT_LATENCY :: duration where "MAX_OUTPUT_LATENCY = 3000000000"

lemmas latency_consts = FALLBACK_SAMPLE_RATE_def BLUETOOTH_MIN_LATENCY_def
  BLUETOOTH_FALLBACK_LATENCY_def AIRPLAY_MIN_LATENCY_def MAX_OUTPUT_LATENCY_def

text \<open>
  The Core Audio properties the code queries, each with the answer of the HAL (no value when
  the query fails or has the wrong size), and the transport codes of the SDK.
\<close>

record hal =
  hal_default_device :: "nat option"
  hal_transport :: "nat \<Rightarrow> nat option"
  hal_nominal_rate :: "nat \<Rightarrow> fl option"
  hal_device_latency :: "nat \<Rightarrow> nat option"
  hal_safety_offset :: "nat \<Rightarrow> nat option"
  hal_buffer_frames :: "nat \<Rightarrow> nat option"
  hal_streams :: "nat \<Rightarrow> nat list option"
  hal_stream_direction :: "nat \<Rightarrow> nat option"
  hal_stream_latency :: "nat \<Rightarrow> nat option"
  hal_bluetooth :: nat
  hal_bluetooth_le :: nat
  hal_airplay :: nat

definition latency_duration :: "hal \<Rightarrow> nat \<Rightarrow> real \<Rightarrow> nat \<Rightarrow> duration" where
  "latency_duration h total_frames rate transport =
     (let wireless = (transport = hal_bluetooth h \<or> transport = hal_bluetooth_le h);
          minimum = (if transport = hal_airplay h then AIRPLAY_MIN_LATENCY
                     else if wireless then BLUETOOTH_MIN_LATENCY else 0)
      in if total_frames = 0 then (if wireless then BLUETOOTH_FALLBACK_LATENCY else minimum)
         else min (max (unwrap_or (try_from_secs_f64 (Fin (real total_frames / rate))) 0) minimum)
                MAX_OUTPUT_LATENCY)"

fun max_list :: "nat list \<Rightarrow> nat option" where
  "max_list [] = None"
| "max_list (x # xs) = (case max_list xs of None \<Rightarrow> Some x | Some m \<Rightarrow> Some (max x m))"

definition max_output_stream_latency :: "hal \<Rightarrow> nat \<Rightarrow> nat option" where
  "max_output_stream_latency h device =
     (case hal_streams h device of
        None \<Rightarrow> None
      | Some streams \<Rightarrow>
          max_list (List.map_filter (hal_stream_latency h)
            (filter (\<lambda>stream. hal_stream_direction h stream = Some 0) streams)))"

definition default_output_latency :: "hal \<Rightarrow> duration option" where
  "default_output_latency h =
     (case hal_default_device h of
        None \<Rightarrow> None
      | Some device \<Rightarrow>
          (let transport = unwrap_or (hal_transport h device) 0;
               rate = (case hal_nominal_rate h device of
                         Some (Fin r) \<Rightarrow> (if 0 < r then r else FALLBACK_SAMPLE_RATE)
                       | _ \<Rightarrow> FALLBACK_SAMPLE_RATE);
               device_latency = unwrap_or (hal_device_latency h device) 0;
               safety_offset = unwrap_or (hal_safety_offset h device) 0;
               buffer_frames = unwrap_or (hal_buffer_frames h device) 0;
               stream_latency = unwrap_or (max_output_stream_latency h device) 0;
               total_frames = saturating_add u64_max (saturating_add u64_max
                 (saturating_add u64_max device_latency safety_offset) buffer_frames) stream_latency
           in Some (latency_duration h total_frames rate transport)))"

lemma latency_duration_le: "latency_duration h n r t \<le> MAX_OUTPUT_LATENCY"
  by (simp add: latency_duration_def Let_def latency_consts)

text \<open>
  The reported output latency never exceeds three seconds, is at least 1.8 s on AirPlay and
  120 ms on Bluetooth whatever the hardware reports, and on a wired device is the reported frame
  count over the rate to the nearest nanosecond, when that is below the cap.
\<close>

theorem latency_duration_bounds:
  assumes "0 < rate"
  shows "latency_duration h n rate t \<le> 3000000000 \<and>
    (t = hal_airplay h \<and> t \<noteq> hal_bluetooth h \<and> t \<noteq> hal_bluetooth_le h \<longrightarrow>
       1800000000 \<le> latency_duration h n rate t) \<and>
    (t = hal_bluetooth h \<or> t = hal_bluetooth_le h \<longrightarrow> 120000000 \<le> latency_duration h n rate t) \<and>
    (t \<notin> {hal_airplay h, hal_bluetooth h, hal_bluetooth_le h} \<and> real n / rate \<le> 2 \<longrightarrow>
       \<bar>real (latency_duration h n rate t) - real n / rate * 1000000000\<bar> \<le> 1/2)"
proof (intro conjI impI)
  show "latency_duration h n rate t \<le> 3000000000"
    using latency_duration_le [of h n rate t] by (simp add: latency_consts)
  show "1800000000 \<le> latency_duration h n rate t"
    if "t = hal_airplay h \<and> t \<noteq> hal_bluetooth h \<and> t \<noteq> hal_bluetooth_le h"
    using that by (simp add: latency_duration_def Let_def latency_consts)
  show "120000000 \<le> latency_duration h n rate t" if "t = hal_bluetooth h \<or> t = hal_bluetooth_le h"
    using that by (auto simp: latency_duration_def Let_def latency_consts)
  assume wired: "t \<notin> {hal_airplay h, hal_bluetooth h, hal_bluetooth_le h} \<and> real n / rate \<le> 2"
  let ?x = "real n / rate"
  show "\<bar>real (latency_duration h n rate t) - ?x * 1000000000\<bar> \<le> 1/2"
  proof (cases "n = 0")
    case True
    with wired show ?thesis by (simp add: latency_duration_def)
  next
    case False
    from assms have x0: "0 \<le> ?x" by simp
    have "round_half_even (?x * 1000000000) \<le> 2000000001"
      using round_half_even_near [of "?x * 1000000000"] wired by linarith
    then obtain d where d: "try_from_secs_f64 (Fin ?x) = Some d"
      using x0 by (auto simp: Let_def duration_max_def width_defs not_less nat_le_iff)
    from try_from_secs_f64_near [OF d] have near: "\<bar>real d - ?x * 1000000000\<bar> \<le> 1/2" by simp
    have "real d \<le> 3000000000" using near wired by linarith
    then have "d \<le> MAX_OUTPUT_LATENCY" by (simp add: latency_consts)
    with wired False d near show ?thesis
      by (simp add: latency_duration_def del: try_from_secs_f64.simps)
  qed
qed

definition hal_witness :: hal where
  "hal_witness =
     \<lparr>hal_default_device = Some 7, hal_transport = (\<lambda>_. Some 0), hal_nominal_rate = (\<lambda>_. Some (Fin 48000)),
      hal_device_latency = (\<lambda>_. Some 4000), hal_safety_offset = (\<lambda>_. Some 500),
      hal_buffer_frames = (\<lambda>_. Some 200), hal_streams = (\<lambda>_. Some [1, 2]),
      hal_stream_direction = (\<lambda>s. Some (s - 1)), hal_stream_latency = (\<lambda>s. Some (100 * s)),
      hal_bluetooth = 1, hal_bluetooth_le = 2, hal_airplay = 3\<rparr>"

theorem latency_duration_bounds_witness:
  "default_output_latency hal_witness = Some 100000000 \<and>
   latency_duration hal_witness 4800 48000 0 \<le> 3000000000 \<and>
   120000000 \<le> latency_duration hal_witness 256 48000 1"
proof -
  have m: "max_output_stream_latency hal_witness 7 = Some 100"
    by (simp add: max_output_stream_latency_def hal_witness_def List.map_filter_simps)
  have "try_from_secs_f64 (Fin (4800 / 48000)) = Some 100000000"
    using try_from_secs_f64_as_secs [of 100000000]
    by (simp add: as_secs_f64_def duration_max_def width_defs)
  then have l: "latency_duration hal_witness 4800 48000 0 = 100000000"
    by (simp add: latency_duration_def hal_witness_def latency_consts del: try_from_secs_f64.simps)
  have "default_output_latency hal_witness = Some 100000000"
    using m l by (simp add: default_output_latency_def hal_witness_def saturating_add_def width_defs)
  moreover have "latency_duration hal_witness 4800 48000 0 \<le> 3000000000"
    and "120000000 \<le> latency_duration hal_witness 256 48000 1"
    using latency_duration_bounds [of 48000 hal_witness 4800 0]
      latency_duration_bounds [of 48000 hal_witness 256 1] by (simp_all add: hal_witness_def)
  ultimately show ?thesis by simp
qed

end
