(* ===== verification/Bundle.thy ===== *)
theory Bundle
  imports Blip_Prelude
begin

section \<open>Blip bundles (apps/blip-capture/src/bundle.rs)\<close>

text \<open>
  The recording bundle: its manifest (version, creation time, inputs) and its project settings,
  which live in a second file. The file system is a map from paths to contents with an oracle
  for the operations that fail; the JSON library is a pair of functions per document type whose
  only law, where one is used, is that decoding undoes encoding.
\<close>

subsection \<open>Settings\<close>

datatype background_type = BgColor | BgImage | BgGradient
datatype export_format = Mp4Format | MovFormat
datatype export_resolution = P1080 | P720
datatype output_aspect_ratio = AspectAuto | Wide | Vertical | Square | Classic | Tall
datatype bundle_input_kind = VideoInput | AudioInput
datatype video_segment_resize_mode = Ghost | Live
datatype camera_position = TopLeft | TopCenter | TopRight | MiddleLeft | Center | MiddleRight
  | BottomLeft | BottomCenter | BottomRight
datatype camera_crop = Circle | Squircle | Squirectangle
datatype zoom_transition_speed = Slow | Medium | Fast

record project_appearance =
  pa_background_type :: background_type
  pa_background_image :: string
  pa_padding :: real
  pa_border_radius :: real
  pa_shadow :: real

definition default_background_image :: string where
  "default_background_image = ''tahoe-dusk.jpg''"

definition default_background_padding :: real where "default_background_padding = 8"
definition default_border_radius :: real where "default_border_radius = 8"
definition default_shadow :: real where "default_shadow = 20"

definition default_appearance :: project_appearance where
  "default_appearance =
     \<lparr>pa_background_type = BgGradient, pa_background_image = default_background_image,
      pa_padding = default_background_padding, pa_border_radius = default_border_radius,
      pa_shadow = default_shadow\<rparr>"

record export_settings =
  ex_format :: export_format
  ex_resolution :: export_resolution
  ex_fps :: nat
  ex_destination :: "string option"

definition default_export_settings :: export_settings where
  "default_export_settings =
     \<lparr>ex_format = Mp4Format, ex_resolution = P1080, ex_fps = 30, ex_destination = None\<rparr>"

record 'v screen_crop =
  crop_position :: "'v \<times> 'v"
  crop_size :: "'v \<times> 'v"

record bundle_input =
  in_id :: string
  in_name :: string
  in_media :: string
  in_kind :: bundle_input_kind
  in_start_offset_secs :: real
  in_gain :: real

record video_segment =
  vs_id :: nat
  vs_source_start_secs :: real
  vs_source_end_secs :: real

definition vs_duration_secs :: "video_segment \<Rightarrow> real" where
  "vs_duration_secs s = max (vs_source_end_secs s - vs_source_start_secs s) 0"

fun crop_from_atomic :: "nat \<Rightarrow> camera_crop" where
  "crop_from_atomic value =
     (if value = 0 then Circle else if value = 1 then Squircle else Squirectangle)"

fun crop_atomic_value :: "camera_crop \<Rightarrow> nat" where
  "crop_atomic_value Circle = 0"
| "crop_atomic_value Squircle = 1"
| "crop_atomic_value Squirectangle = 2"

lemma crop_atomic_roundtrip: "crop_from_atomic (crop_atomic_value c) = c"
  by (cases c) simp_all

record camera_layout =
  cl_size :: real
  cl_position :: camera_position
  cl_edge_padding :: real
  cl_zoom_size_reduction :: real
  cl_shadow :: real
  cl_crop :: camera_crop

definition default_camera_layout :: camera_layout where
  "default_camera_layout =
     \<lparr>cl_size = 28, cl_position = BottomRight, cl_edge_padding = 3, cl_zoom_size_reduction = 15,
      cl_shadow = 20, cl_crop = Squirectangle\<rparr>"

fun transition_duration_secs :: "zoom_transition_speed \<Rightarrow> real" where
  "transition_duration_secs Slow = 3/4"
| "transition_duration_secs Medium = 1/2"
| "transition_duration_secs Fast = 1/4"

record zoom_segment =
  zs_id :: nat
  zs_start_secs :: real
  zs_end_secs :: real
  zs_target :: "real \<times> real"
  zs_amount :: real
  zs_transition :: zoom_transition_speed

text \<open>The project settings, the part of a bundle that \<open>project-config.json\<close> holds.\<close>

record project_config =
  pc_zoom_segments :: "zoom_segment list"
  pc_video_segments :: "video_segment list option"
  pc_video_segment_resize_mode :: video_segment_resize_mode
  pc_camera_layout :: camera_layout
  pc_output_aspect_ratio :: output_aspect_ratio
  pc_screen_crop :: "real screen_crop option"
  pc_appearance :: project_appearance
  pc_export_settings :: export_settings

record blip_bundle =
  bb_version :: nat
  bb_created_at :: int
  bb_inputs :: "bundle_input list"
  bb_zoom_segments :: "zoom_segment list"
  bb_video_segments :: "video_segment list option"
  bb_video_segment_resize_mode :: video_segment_resize_mode
  bb_camera_layout :: camera_layout
  bb_output_aspect_ratio :: output_aspect_ratio
  bb_screen_crop :: "real screen_crop option"
  bb_appearance :: project_appearance
  bb_export_settings :: export_settings

definition BUNDLE_VERSION :: nat where "BUNDLE_VERSION = 2"
definition MANIFEST_FILE :: string where "MANIFEST_FILE = ''manifest.json''"
definition PROJECT_CONFIG_FILE :: string where "PROJECT_CONFIG_FILE = ''project-config.json''"

subsection \<open>Documents\<close>

text \<open>
  What serde writes and reads. The settings are skipped when the manifest is written and
  default when a manifest lacks them, so a manifest document holds each of them optionally
  (manifests of version 1 held them).
\<close>

record manifest_doc =
  md_version :: nat
  md_created_at :: int
  md_inputs :: "bundle_input list"
  md_zoom_segments :: "zoom_segment list option"
  md_video_segments :: "video_segment list option"
  md_video_segment_resize_mode :: "video_segment_resize_mode option"
  md_camera_layout :: "camera_layout option"
  md_output_aspect_ratio :: "output_aspect_ratio option"
  md_screen_crop :: "real screen_crop option"
  md_appearance :: "project_appearance option"
  md_export_settings :: "export_settings option"

definition manifest_of_bundle :: "blip_bundle \<Rightarrow> manifest_doc" where
  "manifest_of_bundle b =
     \<lparr>md_version = bb_version b, md_created_at = bb_created_at b, md_inputs = bb_inputs b,
      md_zoom_segments = None, md_video_segments = None, md_video_segment_resize_mode = None,
      md_camera_layout = None, md_output_aspect_ratio = None, md_screen_crop = None,
      md_appearance = None, md_export_settings = None\<rparr>"

definition bundle_of_manifest :: "manifest_doc \<Rightarrow> blip_bundle" where
  "bundle_of_manifest d =
     \<lparr>bb_version = md_version d, bb_created_at = md_created_at d, bb_inputs = md_inputs d,
      bb_zoom_segments = unwrap_or (md_zoom_segments d) [],
      bb_video_segments = md_video_segments d,
      bb_video_segment_resize_mode = unwrap_or (md_video_segment_resize_mode d) Ghost,
      bb_camera_layout = unwrap_or (md_camera_layout d) default_camera_layout,
      bb_output_aspect_ratio = unwrap_or (md_output_aspect_ratio d) Wide,
      bb_screen_crop = md_screen_crop d,
      bb_appearance = unwrap_or (md_appearance d) default_appearance,
      bb_export_settings = unwrap_or (md_export_settings d) default_export_settings\<rparr>"

text \<open>The JSON library, over an arbitrary type of file contents.\<close>

record 'txt json =
  encode_manifest :: "manifest_doc \<Rightarrow> 'txt option"
  decode_manifest :: "'txt \<Rightarrow> manifest_doc option"
  encode_config :: "project_config \<Rightarrow> 'txt option"
  decode_config :: "'txt \<Rightarrow> project_config option"

definition json_roundtrips :: "'txt json \<Rightarrow> bool" where
  "json_roundtrips j \<longleftrightarrow>
     (\<forall>d. \<exists>t. encode_manifest j d = Some t \<and> decode_manifest j t = Some d) \<and>
     (\<forall>c. \<exists>t. encode_config j c = Some t \<and> decode_config j t = Some c)"

subsection \<open>The file system\<close>

datatype fs_op = CreateDir string | WriteFile string | ReadFile string | RemoveDirAll string

record 'txt disk =
  dk_files :: "string \<Rightarrow> 'txt option"
  dk_dirs :: "string \<Rightarrow> bool"
  dk_fails :: "fs_op \<Rightarrow> bool"

definition path_join :: "string \<Rightarrow> string \<Rightarrow> string" where
  "path_join base rel =
     (if rel \<noteq> [] \<and> hd rel = CHR ''/'' then rel
      else if base = [] then rel
      else if last base = CHR ''/'' then base @ rel
      else base @ ''/'' @ rel)"

definition exists_at :: "'txt disk \<Rightarrow> string \<Rightarrow> bool" where
  "exists_at d p \<longleftrightarrow> dk_dirs d p \<or> dk_files d p \<noteq> None"

definition under :: "string \<Rightarrow> string \<Rightarrow> bool" where
  "under p q \<longleftrightarrow> q = p \<or> take (length p + 1) q = p @ ''/''"

definition create_dir :: "'txt disk \<Rightarrow> string \<Rightarrow> unit + 'txt disk" where
  "create_dir d p =
     (if dk_fails d (CreateDir p) \<or> exists_at d p then Inl ()
      else Inr (d\<lparr>dk_dirs := (dk_dirs d)(p := True)\<rparr>))"

definition remove_dir_all :: "'txt disk \<Rightarrow> string \<Rightarrow> 'txt disk" where
  "remove_dir_all d p =
     (if dk_fails d (RemoveDirAll p) then d
      else d\<lparr>dk_dirs := (\<lambda>q. dk_dirs d q \<and> \<not> under p q),
             dk_files := (\<lambda>q. if under p q then None else dk_files d q)\<rparr>)"

definition write_file :: "'txt disk \<Rightarrow> string \<Rightarrow> 'txt \<Rightarrow> unit + 'txt disk" where
  "write_file d p t =
     (if dk_fails d (WriteFile p) then Inl () else Inr (d\<lparr>dk_files := (dk_files d)(p := Some t)\<rparr>))"

datatype read_error = NotFound | ReadFault

definition read_file :: "'txt disk \<Rightarrow> string \<Rightarrow> read_error + 'txt" where
  "read_file d p =
     (if dk_fails d (ReadFile p) then Inl ReadFault
      else case dk_files d p of None \<Rightarrow> Inl NotFound | Some t \<Rightarrow> Inr t)"

subsection \<open>The bundle's operations\<close>

datatype bundle_error =
  CreateBundleFailed | CreateInputsFailed | ReadBundleFailed | DecodeBundleFailed
| DecodeConfigFailed | ReadConfigFailed | NoRecordingInputs | NoSuchInput string
| EncodeBundleFailed | SaveBundleFailed | EncodeConfigFailed | SaveConfigFailed

definition save_manifest :: "'txt json \<Rightarrow> 'txt disk \<Rightarrow> string \<Rightarrow> blip_bundle \<Rightarrow> bundle_error + 'txt disk" where
  "save_manifest j d path b =
     and_then (ok_or (encode_manifest j (manifest_of_bundle b)) EncodeBundleFailed) (\<lambda>contents.
       map_err (\<lambda>_. SaveBundleFailed) (write_file d (path_join path MANIFEST_FILE) contents))"

definition bundle_input_of :: "string \<Rightarrow> string \<Rightarrow> string \<Rightarrow> bundle_input_kind \<Rightarrow> bundle_input" where
  "bundle_input_of i n media kind =
     \<lparr>in_id = i, in_name = n, in_media = media, in_kind = kind, in_start_offset_secs = 0, in_gain = 1\<rparr>"

definition new_bundle :: "int \<Rightarrow> bool \<Rightarrow> bool \<Rightarrow> blip_bundle" where
  "new_bundle now include_camera include_system_audio =
     \<lparr>bb_version = BUNDLE_VERSION, bb_created_at = now,
      bb_inputs = [bundle_input_of ''screen'' ''Screen'' ''inputs/screen.mp4'' VideoInput]
        @ (if include_camera
           then [bundle_input_of ''camera'' ''Camera'' ''inputs/camera.mp4'' VideoInput] else [])
        @ (if include_system_audio
           then [bundle_input_of ''system_audio'' ''System Audio'' ''inputs/system-audio.m4a'' AudioInput]
           else []),
      bb_zoom_segments = [], bb_video_segments = None, bb_video_segment_resize_mode = Ghost,
      bb_camera_layout = default_camera_layout, bb_output_aspect_ratio = Wide,
      bb_screen_crop = None, bb_appearance = default_appearance,
      bb_export_settings = default_export_settings\<rparr>"

text \<open>\<open>BlipBundle::create\<close>: the result and the disk it leaves.\<close>

definition create_bundle ::
    "'txt json \<Rightarrow> int \<Rightarrow> 'txt disk \<Rightarrow> string \<Rightarrow> bool \<Rightarrow> bool \<Rightarrow> (bundle_error + blip_bundle) \<times> 'txt disk" where
  "create_bundle j now d path include_camera include_system_audio =
     (case create_dir d path of
        Inl _ \<Rightarrow> (Inl CreateBundleFailed, d)
      | Inr d1 \<Rightarrow>
          (case create_dir d1 (path_join path ''inputs'') of
             Inl _ \<Rightarrow> (Inl CreateInputsFailed, remove_dir_all d1 path)
           | Inr d2 \<Rightarrow>
               (let bundle = new_bundle now include_camera include_system_audio
                in case save_manifest j d2 path bundle of
                     Inl e \<Rightarrow> (Inl e, remove_dir_all d2 path)
                   | Inr d3 \<Rightarrow> (Inr bundle, d3))))"

definition apply_config :: "project_config \<Rightarrow> blip_bundle \<Rightarrow> blip_bundle" where
  "apply_config c b = b\<lparr>bb_zoom_segments := pc_zoom_segments c,
     bb_video_segments := pc_video_segments c,
     bb_video_segment_resize_mode := pc_video_segment_resize_mode c,
     bb_camera_layout := pc_camera_layout c,
     bb_output_aspect_ratio := pc_output_aspect_ratio c,
     bb_screen_crop := pc_screen_crop c,
     bb_appearance := pc_appearance c,
     bb_export_settings := pc_export_settings c\<rparr>"

definition load_bundle :: "'txt json \<Rightarrow> 'txt disk \<Rightarrow> string \<Rightarrow> bundle_error + blip_bundle" where
  "load_bundle j d path =
     and_then (map_err (\<lambda>_. ReadBundleFailed) (read_file d (path_join path MANIFEST_FILE))) (\<lambda>contents.
     and_then (ok_or (decode_manifest j contents) DecodeBundleFailed) (\<lambda>doc.
     let bundle = bundle_of_manifest doc
     in case read_file d (path_join path PROJECT_CONFIG_FILE) of
          Inr contents \<Rightarrow>
            and_then (ok_or (decode_config j contents) DecodeConfigFailed)
              (\<lambda>config. Inr (apply_config config bundle))
        | Inl NotFound \<Rightarrow> Inr bundle
        | Inl ReadFault \<Rightarrow> Inl ReadConfigFailed))"

definition config_of_bundle :: "blip_bundle \<Rightarrow> project_config" where
  "config_of_bundle b =
     \<lparr>pc_zoom_segments = bb_zoom_segments b, pc_video_segments = bb_video_segments b,
      pc_video_segment_resize_mode = bb_video_segment_resize_mode b,
      pc_camera_layout = bb_camera_layout b, pc_output_aspect_ratio = bb_output_aspect_ratio b,
      pc_screen_crop = bb_screen_crop b, pc_appearance = bb_appearance b,
      pc_export_settings = bb_export_settings b\<rparr>"

definition save_project_config ::
    "'txt json \<Rightarrow> 'txt disk \<Rightarrow> string \<Rightarrow> blip_bundle \<Rightarrow> bundle_error + 'txt disk" where
  "save_project_config j d path b =
     and_then (ok_or (encode_config j (config_of_bundle b)) EncodeConfigFailed) (\<lambda>contents.
       map_err (\<lambda>_. SaveConfigFailed) (write_file d (path_join path PROJECT_CONFIG_FILE) contents))"

definition media_path :: "blip_bundle \<Rightarrow> string \<Rightarrow> bundle_error + string" where
  "media_path b bundle_path =
     (case bb_inputs b of
        [] \<Rightarrow> Inl NoRecordingInputs
      | input # _ \<Rightarrow> Inr (path_join bundle_path (in_media input)))"

definition input_media_path :: "blip_bundle \<Rightarrow> string \<Rightarrow> string \<Rightarrow> string option" where
  "input_media_path b bundle_path i =
     map_option (\<lambda>input. path_join bundle_path (in_media input))
       (find (\<lambda>input. in_id input = i) (bb_inputs b))"

text \<open>
  \<open>set_input_start_offset\<close> changes the first input with the identifier, then saves: the bundle
  in memory is changed also when the save fails.
\<close>

definition set_input_start_offset ::
    "'txt json \<Rightarrow> 'txt disk \<Rightarrow> blip_bundle \<Rightarrow> string \<Rightarrow> string \<Rightarrow> real
     \<Rightarrow> blip_bundle \<times> (bundle_error + 'txt disk)" where
  "set_input_start_offset j d b bundle_path i offset_secs =
     (case position (\<lambda>input. in_id input = i) (bb_inputs b) of
        None \<Rightarrow> (b, Inl (NoSuchInput i))
      | Some n \<Rightarrow>
          (let b' = b\<lparr>bb_inputs := (bb_inputs b)[n := (bb_inputs b ! n)\<lparr>in_start_offset_secs := offset_secs\<rparr>]\<rparr>
           in (b', save_manifest j d bundle_path b')))"

subsection \<open>Paths\<close>

lemma path_join_rel:
  "rel \<noteq> [] \<Longrightarrow> hd rel \<noteq> CHR ''/'' \<Longrightarrow> p \<noteq> [] \<Longrightarrow>
   path_join p rel = (if last p = CHR ''/'' then p @ rel else p @ ''/'' @ rel)"
  by (simp add: path_join_def)

lemma path_join_inj:
  assumes "a \<noteq> b" and "a \<noteq> []" "hd a \<noteq> CHR ''/''" and "b \<noteq> []" "hd b \<noteq> CHR ''/''"
  shows "path_join p a \<noteq> path_join p b"
  using assms by (auto simp: path_join_def)

lemma bundle_files_distinct [simp]:
  "path_join p MANIFEST_FILE \<noteq> path_join p PROJECT_CONFIG_FILE"
  "path_join p PROJECT_CONFIG_FILE \<noteq> path_join p MANIFEST_FILE"
  by (rule path_join_inj; simp add: MANIFEST_FILE_def PROJECT_CONFIG_FILE_def)+

lemma under_join:
  "p \<noteq> [] \<Longrightarrow> last p \<noteq> CHR ''/'' \<Longrightarrow> rel \<noteq> [] \<Longrightarrow> hd rel \<noteq> CHR ''/'' \<Longrightarrow> under p (path_join p rel)"
  by (simp add: under_def path_join_def)

lemma under_self [simp]: "under p p"
  by (simp add: under_def)

subsection \<open>What the operations guarantee\<close>

lemma write_file_Inr [simp]:
  "write_file d p t = Inr d' \<longleftrightarrow> \<not> dk_fails d (WriteFile p) \<and> d' = d\<lparr>dk_files := (dk_files d)(p := Some t)\<rparr>"
  by (auto simp: write_file_def)

lemma apply_config_of_bundle:
  "bb_version b0 = bb_version b \<Longrightarrow> bb_created_at b0 = bb_created_at b \<Longrightarrow> bb_inputs b0 = bb_inputs b \<Longrightarrow>
   apply_config (config_of_bundle b) b0 = b"
  by (cases b; cases b0) (simp add: apply_config_def config_of_bundle_def)

lemma bundle_of_manifest_of_bundle:
  "bb_version (bundle_of_manifest (manifest_of_bundle b)) = bb_version b"
  "bb_created_at (bundle_of_manifest (manifest_of_bundle b)) = bb_created_at b"
  "bb_inputs (bundle_of_manifest (manifest_of_bundle b)) = bb_inputs b"
  by (simp_all add: bundle_of_manifest_def manifest_of_bundle_def)

lemma json_manifest: "json_roundtrips j \<Longrightarrow> encode_manifest j m = Some t \<Longrightarrow> decode_manifest j t = Some m"
  unfolding json_roundtrips_def by (metis option.inject)

lemma json_config: "json_roundtrips j \<Longrightarrow> encode_config j c = Some t \<Longrightarrow> decode_config j t = Some c"
  unfolding json_roundtrips_def by (metis option.inject)

text \<open>
  A bundle that is saved (manifest, then project settings) and loaded again is the same
  bundle, with all its inputs, segments and settings, although the manifest holds no settings.
\<close>

theorem bundle_save_load:
  assumes "json_roundtrips j"
    and "save_manifest j d path b = Inr d1" and "save_project_config j d1 path b = Inr d2"
    and "\<forall>p. \<not> dk_fails d (ReadFile p)"
  shows "load_bundle j d2 path = Inr b"
proof -
  let ?m = "path_join path MANIFEST_FILE" and ?c = "path_join path PROJECT_CONFIG_FILE"
  from assms(2) obtain tm where tm: "encode_manifest j (manifest_of_bundle b) = Some tm"
    and d1: "d1 = d\<lparr>dk_files := (dk_files d)(?m := Some tm)\<rparr>"
    by (auto simp: save_manifest_def)
  from assms(3) obtain tc where tc: "encode_config j (config_of_bundle b) = Some tc"
    and d2: "d2 = d1\<lparr>dk_files := (dk_files d1)(?c := Some tc)\<rparr>"
    by (auto simp: save_project_config_def)
  have "read_file d2 ?m = Inr tm" and "read_file d2 ?c = Inr tc"
    using assms(4) by (simp_all add: read_file_def d1 d2)
  then show ?thesis
    by (simp add: load_bundle_def json_manifest [OF assms(1) tm] json_config [OF assms(1) tc]
      apply_config_of_bundle bundle_of_manifest_of_bundle)
qed

text \<open>A JSON library over documents themselves, for the witnesses.\<close>

definition doc_json :: "(manifest_doc + project_config) json" where
  "doc_json = \<lparr>encode_manifest = (\<lambda>d. Some (Inl d)), decode_manifest = (\<lambda>t. case t of Inl d \<Rightarrow> Some d | _ \<Rightarrow> None),
     encode_config = (\<lambda>c. Some (Inr c)), decode_config = (\<lambda>t. case t of Inr c \<Rightarrow> Some c | _ \<Rightarrow> None)\<rparr>"

definition empty_disk :: "'txt disk" where
  "empty_disk = \<lparr>dk_files = (\<lambda>_. None), dk_dirs = (\<lambda>_. False), dk_fails = (\<lambda>_. False)\<rparr>"

lemma doc_json_roundtrips: "json_roundtrips doc_json"
  by (simp add: json_roundtrips_def doc_json_def)

theorem bundle_save_load_witness:
  "\<exists>d1 d2. save_manifest doc_json empty_disk ''x'' (new_bundle 5 True False) = Inr d1 \<and>
     save_project_config doc_json d1 ''x'' (new_bundle 5 True False) = Inr d2 \<and>
     load_bundle doc_json d2 ''x'' = Inr (new_bundle 5 True False)"
proof -
  let ?b = "new_bundle 5 True False"
  obtain d1 where d1: "save_manifest doc_json empty_disk ''x'' ?b = Inr d1"
    by (simp add: save_manifest_def doc_json_def empty_disk_def)
  then have f: "\<not> dk_fails d1 (WriteFile p)" for p
    by (auto simp: save_manifest_def empty_disk_def)
  obtain d2 where d2: "save_project_config doc_json d1 ''x'' ?b = Inr d2"
    using f by (simp add: save_project_config_def doc_json_def)
  have "load_bundle doc_json d2 ''x'' = Inr ?b"
    by (rule bundle_save_load [OF doc_json_roundtrips d1 d2]) (simp add: empty_disk_def)
  with d1 d2 show ?thesis by blast
qed

lemma remove_fresh_tree:
  assumes "\<forall>q. under p q \<longrightarrow> \<not> exists_at d q" and "\<not> dk_fails d' (RemoveDirAll p)"
    and "\<forall>q. \<not> under p q \<longrightarrow> dk_files d' q = dk_files d q \<and> dk_dirs d' q = dk_dirs d q"
    and "dk_fails d' = dk_fails d"
  shows "remove_dir_all d' p = d"
proof -
  have "dk_files (remove_dir_all d' p) = dk_files d" "dk_dirs (remove_dir_all d' p) = dk_dirs d"
    using assms by (auto simp: remove_dir_all_def exists_at_def fun_eq_iff)
  with assms(2,4) show ?thesis by (simp add: remove_dir_all_def)
qed

lemma under_bundle_files:
  assumes "path \<noteq> []" and "last path \<noteq> CHR ''/''"
  shows "under path (path_join path ''inputs'')" "under path (path_join path MANIFEST_FILE)"
    "under path (path_join path PROJECT_CONFIG_FILE)"
  using assms by (simp_all add: under_join MANIFEST_FILE_def PROJECT_CONFIG_FILE_def)

text \<open>
  C26: creating a bundle is all or nothing: when any step fails the disk is as it was before (if
  the clean-up itself succeeds), and when it succeeds the new bundle is what loading returns.
  The path is fresh and is not written with a trailing slash.
\<close>

theorem create_bundle_atomic:
  assumes path: "path \<noteq> []" "last path \<noteq> CHR ''/''"
    and fresh: "\<forall>q. under path q \<longrightarrow> \<not> exists_at d q"
    and cleanup: "\<not> dk_fails d (RemoveDirAll path)"
    and res: "create_bundle j now d path cam aud = (r, d')"
  shows "(\<forall>e. r = Inl e \<longrightarrow> d' = d) \<and>
    (\<forall>b. r = Inr b \<and> json_roundtrips j \<and> (\<forall>p. \<not> dk_fails d (ReadFile p)) \<longrightarrow>
       load_bundle j d' path = Inr b \<and> b = new_bundle now cam aud)"
proof (cases "create_dir d path")
  case (Inl u)
  with res show ?thesis by (auto simp: create_bundle_def)
next
  case (Inr d1)
  then have d1: "d1 = d\<lparr>dk_dirs := (dk_dirs d)(path := True)\<rparr>"
    by (auto simp: create_dir_def split: if_splits)
  note un = under_bundle_files [OF path]
  have undo1: "remove_dir_all d1 path = d"
    by (rule remove_fresh_tree [OF fresh]) (use cleanup in \<open>auto simp: d1\<close>)
  show ?thesis
  proof (cases "create_dir d1 (path_join path ''inputs'')")
    case (Inl u)
    with Inr res undo1 show ?thesis by (auto simp: create_bundle_def)
  next
    case i2: (Inr d2)
    then have d2: "d2 = d1\<lparr>dk_dirs := (dk_dirs d1)(path_join path ''inputs'' := True)\<rparr>"
      by (auto simp: create_dir_def split: if_splits)
    have undo2: "remove_dir_all d2 path = d"
      by (rule remove_fresh_tree [OF fresh]) (use cleanup un in \<open>auto simp: d1 d2\<close>)
    let ?b = "new_bundle now cam aud"
    show ?thesis
    proof (cases "save_manifest j d2 path ?b")
      case (Inl e)
      with Inr i2 res undo2 show ?thesis by (auto simp: create_bundle_def Let_def)
    next
      case i3: (Inr d3)
      then obtain t where t: "encode_manifest j (manifest_of_bundle ?b) = Some t"
        and d3: "d3 = d2\<lparr>dk_files := (dk_files d2)(path_join path MANIFEST_FILE := Some t)\<rparr>"
        by (auto simp: save_manifest_def)
      from Inr i2 i3 res have r: "r = Inr ?b" "d' = d3" by (auto simp: create_bundle_def Let_def)
      have "load_bundle j d3 path = Inr ?b"
        if j: "json_roundtrips j" and ok: "\<forall>p. \<not> dk_fails d (ReadFile p)"
      proof -
        have "dk_files d (path_join path PROJECT_CONFIG_FILE) = None"
          using fresh un(3) by (simp add: exists_at_def)
        then have "read_file d3 (path_join path PROJECT_CONFIG_FILE) = Inl NotFound"
          and "read_file d3 (path_join path MANIFEST_FILE) = Inr t"
          using ok by (simp_all add: read_file_def d1 d2 d3)
        moreover have "bundle_of_manifest (manifest_of_bundle ?b) = ?b"
          by (simp add: bundle_of_manifest_def manifest_of_bundle_def new_bundle_def)
        ultimately show ?thesis by (simp add: load_bundle_def json_manifest [OF j t])
      qed
      with r show ?thesis by auto
    qed
  qed
qed

theorem create_bundle_atomic_witness:
  "\<exists>b d'. create_bundle doc_json 5 empty_disk ''x'' True True = (Inr b, d') \<and>
     load_bundle doc_json d' ''x'' = Inr b \<and> length (bb_inputs b) = 3"
proof -
  obtain r d' where res: "create_bundle doc_json 5 empty_disk ''x'' True True = (r, d')"
    by fastforce
  have ok: "r = Inr (new_bundle 5 True True)"
    using res by (auto simp: create_bundle_def create_dir_def empty_disk_def exists_at_def
      save_manifest_def doc_json_def path_join_def write_file_def Let_def)
  have "load_bundle doc_json d' ''x'' = Inr (new_bundle 5 True True)"
    using create_bundle_atomic [OF _ _ _ _ res] ok doc_json_roundtrips
    by (simp add: empty_disk_def exists_at_def)
  with res ok show ?thesis by (auto simp: new_bundle_def)
qed

text \<open>
  Setting an input's offset changes exactly the first input with that identifier, in memory
  always and, when the save succeeds, in the manifest on disk as well; an unknown identifier is
  an error that changes nothing.
\<close>

theorem set_input_start_offset_correct:
  assumes "set_input_start_offset j d b path i x = (b', r)"
  shows "(if i \<notin> in_id ` set (bb_inputs b) then b' = b \<and> r = Inl (NoSuchInput i)
     else \<exists>xs input ys. bb_inputs b = xs @ input # ys \<and> i \<notin> in_id ` set xs \<and> in_id input = i \<and>
       b' = b\<lparr>bb_inputs := xs @ input\<lparr>in_start_offset_secs := x\<rparr> # ys\<rparr>) \<and>
    (\<forall>d'. r = Inr d' \<and> json_roundtrips j \<and> \<not> dk_fails d (ReadFile (path_join path MANIFEST_FILE)) \<longrightarrow>
       (\<exists>t. read_file d' (path_join path MANIFEST_FILE) = Inr t \<and>
            decode_manifest j t = Some (manifest_of_bundle b')))"
proof (cases "position (\<lambda>input. in_id input = i) (bb_inputs b)")
  case None
  with assms show ?thesis
    by (auto simp: set_input_start_offset_def position_None_iff)
next
  case (Some n)
  let ?in = "bb_inputs b ! n"
  from Some have n: "n < length (bb_inputs b)" "in_id ?in = i"
    "\<forall>k < n. in_id (bb_inputs b ! k) \<noteq> i" by (auto simp: position_Some_iff)
  have split: "bb_inputs b = take n (bb_inputs b) @ ?in # drop (Suc n) (bb_inputs b)"
    using n(1) by (rule id_take_nth_drop)
  have upd: "(bb_inputs b)[n := v] = take n (bb_inputs b) @ v # drop (Suc n) (bb_inputs b)" for v
    using n(1) by (rule upd_conv_take_nth_drop)
  have fst: "i \<notin> in_id ` set (take n (bb_inputs b))"
    using n(1,3) by (force simp: in_set_conv_nth)
  from assms Some have b': "b' = b\<lparr>bb_inputs := (bb_inputs b)[n := ?in\<lparr>in_start_offset_secs := x\<rparr>]\<rparr>"
    and r: "r = save_manifest j d path b'" by (auto simp: set_input_start_offset_def Let_def)
  have mem: "i \<in> in_id ` set (bb_inputs b)" using n by auto
  have disk: "\<exists>t. read_file d' (path_join path MANIFEST_FILE) = Inr t \<and>
      decode_manifest j t = Some (manifest_of_bundle b')"
    if "r = Inr d'" "json_roundtrips j" "\<not> dk_fails d (ReadFile (path_join path MANIFEST_FILE))" for d'
    using that json_manifest [OF that(2)] by (auto simp: r save_manifest_def read_file_def)
  have "\<exists>xs input ys. bb_inputs b = xs @ input # ys \<and> i \<notin> in_id ` set xs \<and> in_id input = i \<and>
       b' = b\<lparr>bb_inputs := xs @ input\<lparr>in_start_offset_secs := x\<rparr> # ys\<rparr>"
    by (rule exI [of _ "take n (bb_inputs b)"], rule exI [of _ ?in],
        rule exI [of _ "drop (Suc n) (bb_inputs b)"])
      (use split fst n(2) b' upd in simp)
  with mem disk show ?thesis by auto
qed

theorem set_input_start_offset_correct_witness:
  "\<exists>b' r. set_input_start_offset doc_json empty_disk (new_bundle 5 True False) ''x'' ''camera'' (1/4) = (b', r) \<and>
     map in_start_offset_secs (bb_inputs b') = [0, 1/4]"
proof -
  let ?b = "new_bundle 5 True False"
  obtain b' r where e: "set_input_start_offset doc_json empty_disk ?b ''x'' ''camera'' (1/4) = (b', r)"
    by fastforce
  from set_input_start_offset_correct [OF e] have "\<exists>xs input ys. bb_inputs ?b = xs @ input # ys \<and>
    ''camera'' \<notin> in_id ` set xs \<and> in_id input = ''camera'' \<and>
    b' = ?b\<lparr>bb_inputs := xs @ input\<lparr>in_start_offset_secs := 1/4\<rparr> # ys\<rparr>"
    by (simp add: new_bundle_def bundle_input_of_def)
  then have "map in_start_offset_secs (bb_inputs b') = [0, 1/4]"
    by (auto simp: new_bundle_def bundle_input_of_def Cons_eq_append_conv)
  with e show ?thesis by (intro exI [of _ b'] exI [of _ r]) simp
qed

end
