(* ===== verification/Video_Timeline.thy ===== *)
theory Video_Timeline
  imports Bundle Audio_Mixer
begin

section \<open>The edited video timeline (apps/blip-capture/src/editor.rs, pure part)\<close>

text \<open>
  A timeline is a list of segments of the source recording. Here are the functions the editor's
  handlers are made of: looking a time up, splitting, filling or merging a cut, resizing, the
  layout of a drag, clipping to the range all inputs share, and the ripple edits that keep the
  zoom segments in place.
\<close>

definition MIN_VIDEO_SEGMENT_DURATION_SECS :: real where
  "MIN_VIDEO_SEGMENT_DURATION_SECS = 1"

datatype segment_edge = EdgeStart | EdgeEnd

subsection \<open>Durations and lookup\<close>

abbreviation segs_duration :: "video_segment list \<Rightarrow> real" where
  "segs_duration \<equiv> total_len vs_duration_secs"

definition video_timeline_duration :: "blip_bundle \<Rightarrow> real" where
  "video_timeline_duration b = segs_duration (unwrap_or (bb_video_segments b) [])"

text \<open>The loop of \<open>source_time_at\<close>: the last segment takes what is left.\<close>

fun source_time_loop :: "video_segment list \<Rightarrow> real \<Rightarrow> real option" where
  "source_time_loop [] remaining = None"
| "source_time_loop (segment # rest) remaining =
     (let duration = vs_duration_secs segment
      in if remaining < duration \<or> rest = []
         then Some (vs_source_start_secs segment + min remaining duration)
         else source_time_loop rest (remaining - duration))"

definition source_time_at :: "blip_bundle \<Rightarrow> real \<Rightarrow> real option" where
  "source_time_at b timeline_time_secs =
     (case bb_video_segments b of
        None \<Rightarrow> None
      | Some segments \<Rightarrow> source_time_loop segments (max timeline_time_secs 0))"

definition audio_mixer_of :: "audio_source list \<Rightarrow> blip_bundle \<Rightarrow> audio_mixer" where
  "audio_mixer_of sources b =
     new_mixer sources (map (\<lambda>segment. \<lparr>ats_source_start_secs = vs_source_start_secs segment,
         ats_source_end_secs = vs_source_end_secs segment\<rparr>)
       (unwrap_or (bb_video_segments b) []))"

lemma vs_duration_nonneg [simp]: "0 \<le> vs_duration_secs s"
  by (simp add: vs_duration_secs_def)

interpretation editor_tl: segment_timeline vs_source_start_secs vs_duration_secs source_time_loop
  by unfold_locales (auto simp: Let_def)

text \<open>
  C12: the frame shown and the samples heard come from the same source time: inside the timeline
  the editor's lookup and the mixer built from the same bundle agree; past its end the editor
  shows the end of the last segment and the mixer is silent.
\<close>

theorem editor_mixer_agree:
  assumes "0 \<le> t"
  shows "(t < video_timeline_duration b \<longrightarrow>
      source_time_at b t = mixer_source_time_at (mixer_segments (audio_mixer_of srcs b)) t \<and>
      source_time_at b t \<noteq> None) \<and>
    (video_timeline_duration b \<le> t \<longrightarrow>
      mixer_source_time_at (mixer_segments (audio_mixer_of srcs b)) t = None)"
proof -
  let ?ss = "unwrap_or (bb_video_segments b) []"
  let ?f = "\<lambda>s. \<lparr>ats_source_start_secs = vs_source_start_secs s, ats_source_end_secs = vs_source_end_secs s\<rparr>"
  have mx: "mixer_segments (audio_mixer_of srcs b) = map ?f ?ss"
    by (simp add: audio_mixer_of_def new_mixer_def)
  have dur: "total_len ats_duration_secs (map ?f ss) = segs_duration ss" for ss
    by (simp add: total_len_map ats_duration_secs_def vs_duration_secs_def [abs_def])
  have src: "timeline_source ats_source_start_secs ats_duration_secs (map ?f ss) t =
      timeline_source vs_source_start_secs vs_duration_secs ss t" for ss
    by (simp add: timeline_source_map ats_duration_secs_def vs_duration_secs_def [abs_def])
  show ?thesis
  proof (intro conjI impI)
    assume t: "t < video_timeline_duration b"
    then have t': "t < segs_duration ?ss" by (simp add: video_timeline_duration_def)
    then have some: "bb_video_segments b = Some ?ss" using assms by (cases "bb_video_segments b") auto
    have "source_time_at b t = source_time_loop ?ss t"
      using assms some by (simp add: source_time_at_def max_def split: option.splits)
    moreover have "source_time_loop ?ss t = mixer_source_time_at (map ?f ?ss) t"
      using editor_tl.lookup_meets_spec [OF assms t'] mixer_tl.lookup_meets_spec [of t "map ?f ?ss"]
        assms t' by (simp add: dur src)
    moreover have "source_time_loop ?ss t \<noteq> None"
      using editor_tl.lookup_covered [OF assms t'] by auto
    ultimately show "source_time_at b t = mixer_source_time_at (mixer_segments (audio_mixer_of srcs b)) t"
      and "source_time_at b t \<noteq> None" by (simp_all add: mx)
  next
    assume "video_timeline_duration b \<le> t"
    then show "mixer_source_time_at (mixer_segments (audio_mixer_of srcs b)) t = None"
      by (simp add: mx mixer_time_none dur video_timeline_duration_def)
  qed
qed

subsection \<open>Well-formed timelines\<close>

text \<open>
  What the handlers maintain: distinct identifiers, no segment runs backwards, and the segments
  take source ranges from left to right without overlap.
\<close>

definition segs_wf :: "video_segment list \<Rightarrow> bool" where
  "segs_wf ss \<longleftrightarrow> distinct (map vs_id ss) \<and>
     (\<forall>s \<in> set ss. vs_source_start_secs s \<le> vs_source_end_secs s) \<and>
     sorted_wrt (\<lambda>a b. vs_source_end_secs a \<le> vs_source_start_secs b) ss"

definition segs_within :: "real \<Rightarrow> real \<Rightarrow> video_segment list \<Rightarrow> bool" where
  "segs_within lo hi ss \<longleftrightarrow>
     (\<forall>s \<in> set ss. lo \<le> vs_source_start_secs s \<and> vs_source_end_secs s \<le> hi)"

lemma segs_wf_append:
  "segs_wf (xs @ ys) \<longleftrightarrow> segs_wf xs \<and> segs_wf ys \<and> vs_id ` set xs \<inter> vs_id ` set ys = {} \<and>
     (\<forall>x \<in> set xs. \<forall>y \<in> set ys. vs_source_end_secs x \<le> vs_source_start_secs y)"
  by (auto simp: segs_wf_def sorted_wrt_append)

lemma segs_wf_Cons:
  "segs_wf (s # ss) \<longleftrightarrow> vs_id s \<notin> vs_id ` set ss \<and>
     vs_source_start_secs s \<le> vs_source_end_secs s \<and>
     (\<forall>y \<in> set ss. vs_source_end_secs s \<le> vs_source_start_secs y) \<and> segs_wf ss"
  by (auto simp: segs_wf_def)

lemma segs_wf_Nil [simp]: "segs_wf []"
  by (simp add: segs_wf_def)

lemmas segs_wf_simps = segs_wf_append segs_wf_Cons

lemma wf_duration: "segs_wf ss \<Longrightarrow> s \<in> set ss \<Longrightarrow>
    vs_duration_secs s = vs_source_end_secs s - vs_source_start_secs s"
  by (auto simp: segs_wf_def vs_duration_secs_def)

lemma segs_within_simps [simp]:
  "segs_within lo hi []"
  "segs_within lo hi (s # ss) \<longleftrightarrow> lo \<le> vs_source_start_secs s \<and> vs_source_end_secs s \<le> hi \<and> segs_within lo hi ss"
  "segs_within lo hi (xs @ ys) \<longleftrightarrow> segs_within lo hi xs \<and> segs_within lo hi ys"
  by (auto simp: segs_within_def)

lemma split_at_index:
  "i < length xs \<Longrightarrow> xs = take i xs @ xs ! i # drop (Suc i) xs"
  by (rule id_take_nth_drop)

subsection \<open>Splitting\<close>

definition can_split_video_segment :: "real \<Rightarrow> real \<Rightarrow> bool" where
  "can_split_video_segment duration_secs offset_secs \<longleftrightarrow>
     MIN_VIDEO_SEGMENT_DURATION_SECS \<le> offset_secs \<and>
     MIN_VIDEO_SEGMENT_DURATION_SECS \<le> duration_secs - offset_secs"

definition max_id :: "nat list \<Rightarrow> nat" where
  "max_id ids = fold max ids 0"

text \<open>
  The next free identifier, \<open>max + 1\<close> in \<open>u64\<close>: release builds wrap around.
\<close>

definition next_id :: "nat list \<Rightarrow> nat" where
  "next_id ids = (max_id ids + 1) mod (u64_max + 1)"

text \<open>The part of \<open>split_video_segment\<close> that edits the segments: the new list and identifier.\<close>

definition split_segments ::
    "video_segment list \<Rightarrow> nat \<Rightarrow> real \<Rightarrow> (video_segment list \<times> nat) option" where
  "split_segments segments i timeline_time_secs =
     (case position (\<lambda>s. vs_id s = i) segments of
        None \<Rightarrow> None
      | Some index \<Rightarrow>
          (let timeline_start = segs_duration (take index segments);
               segment = segments ! index;
               offset = timeline_time_secs - timeline_start;
               duration = vs_duration_secs segment
           in if \<not> can_split_video_segment duration offset then None
              else let new_id = next_id (map vs_id segments);
                       source_split = vs_source_start_secs segment + offset;
                       source_end = vs_source_end_secs segment
                in Some (take index segments @ [segment\<lparr>vs_source_end_secs := source_split\<rparr>,
                           \<lparr>vs_id = new_id, vs_source_start_secs = source_split,
                            vs_source_end_secs = source_end\<rparr>] @ drop (Suc index) segments,
                         new_id)))"

lemma fold_max_bound: "x \<in> set xs \<or> x \<le> m \<Longrightarrow> x \<le> fold max xs (m :: nat)"
proof (induction xs arbitrary: m)
  case Nil
  then show ?case by simp
next
  case (Cons y ys)
  from Cons.prems have "x \<in> set ys \<or> x \<le> max y m" by (simp add: le_max_iff_disj) linarith
  then show ?case using Cons.IH [of "max y m"] by simp
qed

lemma max_id_fresh: "max_id ids + 1 \<notin> set ids"
proof
  assume "max_id ids + 1 \<in> set ids"
  then have "max_id ids + 1 \<le> max_id ids" unfolding max_id_def by (blast intro: fold_max_bound)
  then show False by simp
qed

lemma max_id_less: "\<forall>i \<in> set ids. i < u64_max \<Longrightarrow> max_id ids < u64_max"
proof -
  have "\<forall>i \<in> set ids. i < u64_max \<Longrightarrow> m < u64_max \<Longrightarrow> fold max ids m < u64_max" for m
    by (induction ids arbitrary: m) auto
  then show "\<forall>i \<in> set ids. i < u64_max \<Longrightarrow> max_id ids < u64_max"
    by (simp add: max_id_def u64_max_def)
qed

lemma next_id_fresh: "\<forall>i \<in> set ids. i < u64_max \<Longrightarrow> next_id ids \<notin> set ids"
  using max_id_less [of ids] max_id_fresh [of ids] by (simp add: next_id_def)

lemma position_split:
  assumes "position p xs = Some i"
  shows "xs = take i xs @ xs ! i # drop (Suc i) xs" "p (xs ! i)" "i < length xs"
    "\<forall>x \<in> set (take i xs). \<not> p x"
proof -
  from assms have i: "i < length xs" "p (xs ! i)" "\<forall>j < i. \<not> p (xs ! j)"
    by (simp_all add: position_Some_iff)
  show "p (xs ! i)" "i < length xs" by fact+
  show "xs = take i xs @ xs ! i # drop (Suc i) xs" using i(1) by (rule split_at_index)
  show "\<forall>x \<in> set (take i xs). \<not> p x" using i(1, 3) by (auto simp: in_set_conv_nth)
qed

lemma timeline_source_append:
  "(\<And>s. s \<in> set xs \<Longrightarrow> 0 \<le> len s) \<Longrightarrow> 0 \<le> t \<Longrightarrow>
   timeline_source st len (xs @ ys) t =
     (if t < total_len len xs then timeline_source st len xs t
      else timeline_source st len ys (t - total_len len xs))"
proof (induction xs arbitrary: t)
  case Nil
  then show ?case by simp
next
  case (Cons x xs)
  then have "0 \<le> total_len len xs" by (auto intro: total_len_nonneg)
  with Cons show ?case by (auto simp: algebra_simps)
qed

lemma timeline_source_join:
  assumes "0 \<le> len r" "len l + len r = len s" "st l = st s" "st r = st s + len l"
  shows "timeline_source st len (l # r # ys) t = timeline_source st len (s # ys) t"
proof -
  have e: "t - len l - len r = t - len s" using assms(2) by simp
  show ?thesis using assms by (simp add: e)
qed

text \<open>The shape of a split: the segment, what is around it, and where it is cut.\<close>

lemma split_segments_shape:
  assumes res: "split_segments ss i t = Some (ss', k)"
  obtains xs s ys where "ss = xs @ s # ys" "vs_id s = i" "k = next_id (map vs_id ss)"
    "1 \<le> t - segs_duration xs" "1 \<le> vs_duration_secs s - (t - segs_duration xs)"
    "ss' = xs @ s\<lparr>vs_source_end_secs := vs_source_start_secs s + (t - segs_duration xs)\<rparr> #
      \<lparr>vs_id = k, vs_source_start_secs = vs_source_start_secs s + (t - segs_duration xs),
       vs_source_end_secs = vs_source_end_secs s\<rparr> # ys"
proof -
  from res obtain n where n: "position (\<lambda>s. vs_id s = i) ss = Some n"
    by (auto simp: split_segments_def split: option.splits)
  note sp = position_split [OF n]
  from res n have can: "can_split_video_segment (vs_duration_secs (ss ! n)) (t - segs_duration (take n ss))"
    and k: "k = next_id (map vs_id ss)"
    and ss': "ss' = take n ss @ [(ss ! n)\<lparr>vs_source_end_secs := vs_source_start_secs (ss ! n) + (t - segs_duration (take n ss))\<rparr>,
      \<lparr>vs_id = k, vs_source_start_secs = vs_source_start_secs (ss ! n) + (t - segs_duration (take n ss)),
       vs_source_end_secs = vs_source_end_secs (ss ! n)\<rparr>] @ drop (Suc n) ss"
    by (auto simp: split_segments_def Let_def split: if_splits)
  show thesis
    by (rule that [OF sp(1) sp(2) k]) (use can ss' in \<open>simp_all add: can_split_video_segment_def
      MIN_VIDEO_SEGMENT_DURATION_SECS_def\<close>)
qed

lemma split_segments_wf:
  assumes wf: "segs_wf ss" and ids: "\<forall>s \<in> set ss. vs_id s < u64_max"
    and res: "split_segments ss i t = Some (ss', k)"
  shows "segs_wf ss'"
  using res
proof (rule split_segments_shape)
  fix xs s ys
  assume ss: "ss = xs @ s # ys" and k: "k = next_id (map vs_id ss)"
    and off: "1 \<le> t - segs_duration xs" "1 \<le> vs_duration_secs s - (t - segs_duration xs)"
    and ss': "ss' = xs @ s\<lparr>vs_source_end_secs := vs_source_start_secs s + (t - segs_duration xs)\<rparr> #
      \<lparr>vs_id = k, vs_source_start_secs = vs_source_start_secs s + (t - segs_duration xs),
       vs_source_end_secs = vs_source_end_secs s\<rparr> # ys"
  have "k \<notin> vs_id ` set ss" using next_id_fresh [of "map vs_id ss"] ids by (simp add: k)
  moreover have "vs_duration_secs s = vs_source_end_secs s - vs_source_start_secs s"
    using wf by (simp add: ss wf_duration)
  ultimately show "segs_wf ss'"
    using wf off unfolding ss' by (auto simp: ss segs_wf_simps)
qed

text \<open>
  C33: splitting a segment does not change what plays: every time from 0 on maps to the same
  source time, its duration is the same, both parts last at least a second, the timeline stays
  well-formed and the new segment has an identifier no other segment has.
\<close>

theorem split_segments_preserves:
  assumes wf: "segs_wf ss" and ids: "\<forall>s \<in> set ss. vs_id s < u64_max"
    and res: "split_segments ss i t = Some (ss', k)"
  shows "segs_wf ss' \<and> segs_duration ss' = segs_duration ss \<and>
    (\<forall>x \<ge> 0. timeline_source vs_source_start_secs vs_duration_secs ss' x =
         timeline_source vs_source_start_secs vs_duration_secs ss x) \<and>
    (\<exists>xs s l r ys. ss = xs @ s # ys \<and> vs_id s = i \<and> ss' = xs @ l # r # ys \<and> vs_id l = i \<and> vs_id r = k \<and>
       1 \<le> vs_duration_secs l \<and> 1 \<le> vs_duration_secs r \<and> t = segs_duration xs + vs_duration_secs l) \<and>
    k \<notin> vs_id ` set ss"
  using res
proof (rule split_segments_shape)
  fix xs ys :: "video_segment list" and s :: video_segment
  let ?l = "s\<lparr>vs_source_end_secs := vs_source_start_secs s + (t - segs_duration xs)\<rparr>"
  let ?r = "\<lparr>vs_id = k, vs_source_start_secs = vs_source_start_secs s + (t - segs_duration xs),
       vs_source_end_secs = vs_source_end_secs s\<rparr>"
  assume ss: "ss = xs @ s # ys" and i: "vs_id s = i" and k: "k = next_id (map vs_id ss)"
    and off: "1 \<le> t - segs_duration xs" "1 \<le> vs_duration_secs s - (t - segs_duration xs)"
    and ss': "ss' = xs @ ?l # ?r # ys"
  have fresh: "k \<notin> vs_id ` set ss" using next_id_fresh [of "map vs_id ss"] ids by (simp add: k)
  have "vs_duration_secs s = vs_source_end_secs s - vs_source_start_secs s"
    using wf by (simp add: ss wf_duration)
  with off have len: "vs_duration_secs ?l = t - segs_duration xs"
    "vs_duration_secs ?r = vs_duration_secs s - (t - segs_duration xs)"
    by (simp_all add: vs_duration_secs_def)
  have src: "timeline_source vs_source_start_secs vs_duration_secs ss' x =
         timeline_source vs_source_start_secs vs_duration_secs ss x" if "0 \<le> x" for x
  proof -
    have "timeline_source vs_source_start_secs vs_duration_secs (?l # ?r # ys) y =
      timeline_source vs_source_start_secs vs_duration_secs (s # ys) y" for y
      using len off by (intro timeline_source_join) simp_all
    then show ?thesis
      by (simp only: ss' ss timeline_source_append [OF vs_duration_nonneg that])
  qed
  have d: "segs_duration ss' = segs_duration ss" using len by (simp add: ss ss')
  have parts: "1 \<le> vs_duration_secs ?l" "1 \<le> vs_duration_secs ?r"
    "t = segs_duration xs + vs_duration_secs ?l" "vs_id ?l = i" "vs_id ?r = k"
    using len off i by simp_all
  show ?thesis
    using split_segments_wf [OF wf ids res] d src fresh parts ss i ss' by blast
qed

theorem split_segments_preserves_witness:
  "\<exists>ss' k. split_segments [\<lparr>vs_id = 1, vs_source_start_secs = 2, vs_source_end_secs = 10\<rparr>] 1 3 = Some (ss', k) \<and>
     segs_wf ss' \<and> segs_duration ss' = 8 \<and> k = 2"
proof -
  let ?ss = "[\<lparr>vs_id = 1, vs_source_start_secs = 2, vs_source_end_secs = 10\<rparr>]"
  obtain ss' where e: "split_segments ?ss 1 3 = Some (ss', 2)"
    by (simp add: split_segments_def can_split_video_segment_def vs_duration_secs_def max_id_def
      next_id_def u64_max_def MIN_VIDEO_SEGMENT_DURATION_SECS_def)
  have "segs_wf ?ss" "\<forall>s \<in> set ?ss. vs_id s < u64_max" by (simp_all add: segs_wf_def u64_max_def)
  from split_segments_preserves [OF this e] e show ?thesis by (auto simp: vs_duration_secs_def)
qed

theorem editor_mixer_agree_witness:
  "source_time_at (new_bundle 5 False False\<lparr>bb_video_segments :=
      Some [\<lparr>vs_id = 1, vs_source_start_secs = 2, vs_source_end_secs = 10\<rparr>]\<rparr>) 3 = Some 5 \<and>
   mixer_source_time_at (mixer_segments (audio_mixer_of [] (new_bundle 5 False False\<lparr>bb_video_segments :=
      Some [\<lparr>vs_id = 1, vs_source_start_secs = 2, vs_source_end_secs = 10\<rparr>]\<rparr>))) 3 = Some 5"
proof -
  let ?b = "new_bundle 5 False False\<lparr>bb_video_segments :=
      Some [\<lparr>vs_id = 1, vs_source_start_secs = 2, vs_source_end_secs = 10\<rparr>]\<rparr>"
  have "source_time_at ?b 3 = Some 5" by (simp add: source_time_at_def vs_duration_secs_def)
  with editor_mixer_agree [of 3 ?b "[]"] show ?thesis
    by (simp add: video_timeline_duration_def vs_duration_secs_def)
qed

end
