(* ===== verification/Timeline_Edits.thy ===== *)
theory Timeline_Edits
  imports Video_Timeline
begin

section \<open>Edits of the timeline that move the zooms (apps/blip-capture/src/editor.rs)\<close>

text \<open>
  Cutting content out of the timeline or putting it back moves what comes after it, so the zoom
  segments, which are placed on the timeline, ripple along. This theory holds the ripple edits,
  the edit at a cut between two segments, the clipping to the range all inputs share, and the
  ranges a drag of a segment's edge may reach.
\<close>

subsection \<open>Ripple edits of the zoom segments\<close>

text \<open>The closure \<open>map_time\<close>: where a time goes when a range is taken out.\<close>

definition map_time :: "real \<Rightarrow> real \<Rightarrow> real \<Rightarrow> real" where
  "map_time start_secs duration_secs time_secs =
     (let end_secs = start_secs + duration_secs
      in if time_secs \<le> start_secs then time_secs
         else if end_secs \<le> time_secs then time_secs - duration_secs
         else start_secs)"

definition zs_map :: "(real \<Rightarrow> real) \<Rightarrow> zoom_segment \<Rightarrow> zoom_segment" where
  "zs_map f z = z\<lparr>zs_start_secs := f (zs_start_secs z), zs_end_secs := f (zs_end_secs z)\<rparr>"

definition zs_visible :: "zoom_segment \<Rightarrow> bool" where
  "zs_visible z \<longleftrightarrow> 1/100 < zs_end_secs z - zs_start_secs z"

definition ripple_delete_ranges :: "zoom_segment list \<Rightarrow> real \<Rightarrow> real \<Rightarrow> zoom_segment list" where
  "ripple_delete_ranges segments start_secs duration_secs =
     filter zs_visible (map (zs_map (map_time start_secs duration_secs)) segments)"

definition ripple_insert_ranges :: "zoom_segment list \<Rightarrow> real \<Rightarrow> real \<Rightarrow> zoom_segment list" where
  "ripple_insert_ranges segments start_secs duration_secs =
     map (\<lambda>z. z\<lparr>zs_start_secs := (if start_secs \<le> zs_start_secs z then zs_start_secs z + duration_secs
                                   else zs_start_secs z),
                zs_end_secs := (if start_secs < zs_end_secs z then zs_end_secs z + duration_secs
                                 else zs_end_secs z)\<rparr>) segments"

text \<open>The zooms of a project: distinct identifiers, no empty zoom, and their ranges do not
  overlap, in any order in the list.\<close>

definition zooms_wf :: "zoom_segment list \<Rightarrow> bool" where
  "zooms_wf zs \<longleftrightarrow> distinct (map zs_id zs) \<and> (\<forall>z \<in> set zs. zs_start_secs z < zs_end_secs z) \<and>
     (\<forall>a \<in> set zs. \<forall>b \<in> set zs. zs_id a \<noteq> zs_id b \<longrightarrow>
        zs_end_secs a \<le> zs_start_secs b \<or> zs_end_secs b \<le> zs_start_secs a)"

lemma zs_map_simps [simp]:
  "zs_id (zs_map f z) = zs_id z" "zs_start_secs (zs_map f z) = f (zs_start_secs z)"
  "zs_end_secs (zs_map f z) = f (zs_end_secs z)" "zs_target (zs_map f z) = zs_target z"
  "zs_amount (zs_map f z) = zs_amount z" "zs_transition (zs_map f z) = zs_transition z"
  by (simp_all add: zs_map_def)

lemma zs_map_comp: "zs_map f (zs_map g z) = zs_map (\<lambda>t. f (g t)) z"
  by (simp add: zs_map_def)

lemma zs_map_id: "f (zs_start_secs z) = zs_start_secs z \<Longrightarrow> f (zs_end_secs z) = zs_end_secs z \<Longrightarrow>
    zs_map f z = z"
  by (simp add: zs_map_def)

lemma map_time_mono: "0 \<le> d \<Longrightarrow> x \<le> y \<Longrightarrow> map_time s d x \<le> map_time s d y"
  by (auto simp: map_time_def Let_def)

lemma map_time_contracts: "0 \<le> d \<Longrightarrow> x \<le> y \<Longrightarrow> map_time s d y - map_time s d x \<le> y - x"
  by (auto simp: map_time_def Let_def)

lemma map_time_before: "t \<le> s \<Longrightarrow> map_time s d t = t"
  by (simp add: map_time_def)

lemma map_time_after: "0 \<le> d \<Longrightarrow> s + d \<le> t \<Longrightarrow> map_time s d t = t - d"
  by (auto simp: map_time_def Let_def)

text \<open>An edit keeps the zooms well-formed if it keeps their order and what it keeps is not empty.\<close>

lemma zooms_wf_image:
  assumes wf: "zooms_wf zs"
    and ids: "\<And>z. zs_id (g z) = zs_id z"
    and ne: "\<And>z. z \<in> set zs \<Longrightarrow> P (g z) \<Longrightarrow> zs_start_secs (g z) < zs_end_secs (g z)"
    and ord: "\<And>a b. a \<in> set zs \<Longrightarrow> b \<in> set zs \<Longrightarrow> zs_end_secs a \<le> zs_start_secs b \<Longrightarrow>
      zs_end_secs (g a) \<le> zs_start_secs (g b)"
  shows "zooms_wf (filter P (map g zs))"
proof -
  have "distinct (map zs_id (map g zs))"
    using wf by (simp add: zooms_wf_def comp_def ids)
  then have "distinct (map zs_id (filter P (map g zs)))" by (rule distinct_map_filter)
  moreover have "\<forall>z \<in> set (filter P (map g zs)). zs_start_secs z < zs_end_secs z" using ne by auto
  moreover have "\<forall>a \<in> set zs. \<forall>b \<in> set zs. zs_id a \<noteq> zs_id b \<longrightarrow>
      zs_end_secs (g a) \<le> zs_start_secs (g b) \<or> zs_end_secs (g b) \<le> zs_start_secs (g a)"
    using wf ord unfolding zooms_wf_def by blast
  then have "\<forall>a \<in> set (filter P (map g zs)). \<forall>b \<in> set (filter P (map g zs)). zs_id a \<noteq> zs_id b \<longrightarrow>
      zs_end_secs a \<le> zs_start_secs b \<or> zs_end_secs b \<le> zs_start_secs a"
    by (auto simp: ids) blast
  ultimately show ?thesis by (simp add: zooms_wf_def)
qed

lemma ripple_delete_wf:
  "zooms_wf zs \<Longrightarrow> 0 \<le> d \<Longrightarrow> zooms_wf (ripple_delete_ranges zs s d)"
  unfolding ripple_delete_ranges_def
  by (rule zooms_wf_image) (auto simp: zs_visible_def intro: map_time_mono)

lemma ripple_insert_wf:
  assumes wf: "zooms_wf zs" and d: "0 \<le> d"
  shows "zooms_wf (ripple_insert_ranges zs s d)"
proof -
  let ?g = "\<lambda>z. z\<lparr>zs_start_secs := (if s \<le> zs_start_secs z then zs_start_secs z + d else zs_start_secs z),
      zs_end_secs := (if s < zs_end_secs z then zs_end_secs z + d else zs_end_secs z)\<rparr>"
  have pos: "zs_start_secs z < zs_end_secs z" if "z \<in> set zs" for z
    using wf that by (simp add: zooms_wf_def)
  have "zooms_wf (filter (\<lambda>_. True) (map ?g zs))"
    using wf
  proof (rule zooms_wf_image)
    fix z assume "z \<in> set zs"
    from pos [OF this] d show "zs_start_secs (?g z) < zs_end_secs (?g z)" by auto
  next
    fix a b assume "zs_end_secs a \<le> zs_start_secs b"
    with d show "zs_end_secs (?g a) \<le> zs_start_secs (?g b)" by auto
  qed simp
  then show ?thesis by (simp add: ripple_insert_ranges_def)
qed

lemma ripple_roundtrip:
  assumes "zooms_wf zs" "0 \<le> d"
  shows "ripple_delete_ranges (ripple_insert_ranges zs s d) s d = filter zs_visible zs"
proof -
  have "zs_map (map_time s d) (z\<lparr>zs_start_secs := (if s \<le> zs_start_secs z then zs_start_secs z + d else zs_start_secs z),
      zs_end_secs := (if s < zs_end_secs z then zs_end_secs z + d else zs_end_secs z)\<rparr>) = z" for z
    using assms(2) by (simp add: zs_map_def map_time_def)
  then show ?thesis
    by (simp add: ripple_delete_ranges_def ripple_insert_ranges_def comp_def)
qed

subsection \<open>The edit at a cut\<close>

record video_cut_edit =
  vce_timeline_start_secs :: real
  vce_inserted_duration_secs :: real
  vce_left_id :: nat
  vce_removed_id :: "nat option"

text \<open>
  Filling the gap between a segment and its left neighbour, or merging the two when there is
  no gap: the edit and the new segments.
\<close>

definition edit_video_cut :: "video_segment list \<Rightarrow> nat \<Rightarrow> (video_segment list \<times> video_cut_edit) option" where
  "edit_video_cut segments right_id =
     (case position (\<lambda>s. vs_id s = right_id) segments of
        None \<Rightarrow> None
      | Some right_index \<Rightarrow>
          (case checked_sub right_index 1 of
             None \<Rightarrow> None
           | Some left_index \<Rightarrow>
               (let timeline_start_secs = segs_duration (take right_index segments);
                    right = segments ! right_index; left = segments ! left_index;
                    gap_secs = max (vs_source_start_secs right - vs_source_end_secs left) 0;
                    left_id = vs_id left
                in if f64_epsilon < gap_secs
                   then Some (segments[left_index := left\<lparr>vs_source_end_secs := vs_source_start_secs right\<rparr>],
                     \<lparr>vce_timeline_start_secs = timeline_start_secs, vce_inserted_duration_secs = gap_secs,
                      vce_left_id = left_id, vce_removed_id = None\<rparr>)
                   else Some (remove_at right_index (segments[left_index :=
                       left\<lparr>vs_source_end_secs := max (vs_source_end_secs left) (vs_source_end_secs right)\<rparr>]),
                     \<lparr>vce_timeline_start_secs = timeline_start_secs, vce_inserted_duration_secs = 0,
                      vce_left_id = left_id, vce_removed_id = Some (vs_id right)\<rparr>))))"

definition video_cut_gap_secs :: "real \<Rightarrow> real \<Rightarrow> real" where
  "video_cut_gap_secs left_source_end_secs right_source_start_secs =
     right_source_start_secs - left_source_end_secs"

text \<open>The shape of an edit: the two segments, what is around them, and which branch ran.\<close>

lemma edit_video_cut_shape:
  assumes wf: "segs_wf ss" and res: "edit_video_cut ss i = Some (ss', e)"
  obtains xs l r ys where "ss = xs @ l # r # ys" "vs_id r = i"
    "e = \<lparr>vce_timeline_start_secs = segs_duration (xs @ [l]),
          vce_inserted_duration_secs = (if f64_epsilon < vs_source_start_secs r - vs_source_end_secs l
             then vs_source_start_secs r - vs_source_end_secs l else 0),
          vce_left_id = vs_id l,
          vce_removed_id = (if f64_epsilon < vs_source_start_secs r - vs_source_end_secs l
             then None else Some i)\<rparr>"
    "ss' = (if f64_epsilon < vs_source_start_secs r - vs_source_end_secs l
            then xs @ l\<lparr>vs_source_end_secs := vs_source_start_secs r\<rparr> # r # ys
            else xs @ l\<lparr>vs_source_end_secs := vs_source_end_secs r\<rparr> # ys)"
proof -
  from res obtain m where m: "position (\<lambda>s. vs_id s = i) ss = Some m" "m \<noteq> 0"
    by (auto simp: edit_video_cut_def checked_sub_def split: option.splits if_splits)
  then obtain n where n: "m = Suc n" by (cases m) auto
  note p = position_split [OF m(1)]
  define xs l r ys where d: "xs = take n ss" "l = ss ! n" "r = ss ! Suc n" "ys = drop (Suc (Suc n)) ss"
  have ss: "ss = xs @ l # r # ys"
    using split_at_index [of n ss] p(3) n by (simp add: d Cons_nth_drop_Suc)
  have len: "length xs = n" using p(3) n by (simp add: d)
  from wf have w: "vs_source_end_secs l \<le> vs_source_start_secs r" "vs_source_start_secs r \<le> vs_source_end_secs r"
    unfolding ss by (simp_all add: segs_wf_simps)
  have pos: "position (\<lambda>s. vs_id s = i) (xs @ l # r # ys) = Some (Suc n)" using m n ss by simp
  have tk: "take (Suc n) (xs @ l # r # ys) = xs @ [l]" using len by simp
  have nt: "(xs @ l # r # ys) ! n = l" "(xs @ l # r # ys) ! Suc n = r"
    using len by (simp_all add: nth_append)
  have up: "(xs @ l # r # ys)[n := u] = xs @ u # r # ys" for u
    using len by (simp add: list_update_append)
  have rm: "remove_at (Suc n) (xs @ u # r # ys) = xs @ u # ys" for u
    using len by (simp add: remove_at_def)
  have mx: "max (vs_source_start_secs r - vs_source_end_secs l) 0 = vs_source_start_secs r - vs_source_end_secs l"
    "max (vs_source_end_secs l) (vs_source_end_secs r) = vs_source_end_secs r"
    using w by auto
  have i: "vs_id r = i" using p(2) n by (simp add: d)
  show ?thesis
    using res i unfolding ss edit_video_cut_def pos
    by (intro that [OF ss i])
      (auto simp: checked_sub_def tk nt up rm mx len Let_def split: if_splits)
qed

text \<open>
  C4: editing the cut before a segment keeps the timeline well-formed and puts exactly the content
  of the gap back: everything before the cut plays as before, then the gap, then what followed,
  later by the gap. A gap of at most \<open>f64::EPSILON\<close> is closed by merging the two segments, and
  then the right one's identifier is the only one gone; otherwise no identifier changes and the
  inserted duration the edit reports is the gap.
\<close>

theorem edit_video_cut_correct:
  assumes wf: "segs_wf ss" and res: "edit_video_cut ss i = Some (ss', e)"
  shows "segs_wf ss' \<and>
    (\<exists>l \<in> set ss. vs_id l = vce_left_id e \<and> (\<exists>gap \<ge> 0.
       segs_duration ss' = segs_duration ss + gap \<and>
       (\<forall>t \<ge> 0. timeline_source vs_source_start_secs vs_duration_secs ss' t =
          (if t < vce_timeline_start_secs e then timeline_source vs_source_start_secs vs_duration_secs ss t
           else if t < vce_timeline_start_secs e + gap
           then Some (vs_source_end_secs l + (t - vce_timeline_start_secs e))
           else timeline_source vs_source_start_secs vs_duration_secs ss (t - gap))) \<and>
       (if f64_epsilon < gap
        then vce_inserted_duration_secs e = gap \<and> vce_removed_id e = None \<and> map vs_id ss' = map vs_id ss
        else vce_inserted_duration_secs e = 0 \<and> vce_removed_id e = Some i \<and>
             vs_id ` set ss' = vs_id ` set ss - {i})))"
proof -
  from edit_video_cut_shape [OF wf res] obtain xs l r ys where
    ss: "ss = xs @ l # r # ys" and i: "vs_id r = i" and
    e: "e = \<lparr>vce_timeline_start_secs = segs_duration (xs @ [l]),
          vce_inserted_duration_secs = (if f64_epsilon < vs_source_start_secs r - vs_source_end_secs l
             then vs_source_start_secs r - vs_source_end_secs l else 0),
          vce_left_id = vs_id l,
          vce_removed_id = (if f64_epsilon < vs_source_start_secs r - vs_source_end_secs l
             then None else Some i)\<rparr>" and
    ss': "ss' = (if f64_epsilon < vs_source_start_secs r - vs_source_end_secs l
            then xs @ l\<lparr>vs_source_end_secs := vs_source_start_secs r\<rparr> # r # ys
            else xs @ l\<lparr>vs_source_end_secs := vs_source_end_secs r\<rparr> # ys)" by blast
  define gap where "gap = vs_source_start_secs r - vs_source_end_secs l"
  from wf have w: "segs_wf xs" "segs_wf ys" "vs_source_start_secs l \<le> vs_source_end_secs l"
    "vs_source_end_secs l \<le> vs_source_start_secs r" "vs_source_start_secs r \<le> vs_source_end_secs r"
    "i \<notin> vs_id ` set (xs @ l # ys)"
    unfolding ss using i by (auto simp: segs_wf_simps)
  have gap: "0 \<le> gap" using w by (simp add: gap_def)
  have wf': "segs_wf ss'"
    using wf w unfolding ss ss' by (auto simp: segs_wf_simps)
  let ?L = "l\<lparr>vs_source_end_secs := vs_source_start_secs r\<rparr>"
  let ?M = "l\<lparr>vs_source_end_secs := vs_source_end_secs r\<rparr>"
  have len: "vs_duration_secs ?L = vs_duration_secs l + gap"
    "vs_duration_secs ?M = vs_duration_secs l + gap + vs_duration_secs r"
    "vs_duration_secs l = vs_source_end_secs l - vs_source_start_secs l"
    using w by (simp_all add: vs_duration_secs_def gap_def)
  let ?tl = "timeline_source vs_source_start_secs vs_duration_secs"
  have merge: "?tl (?M # ys) t = ?tl (?L # r # ys) t" for t
    using len w by (intro timeline_source_join [symmetric]) (simp_all add: gap_def)
  have same: "?tl ss' t = ?tl (xs @ ?L # r # ys) t" if "0 \<le> t" for t
    by (simp add: ss' timeline_source_append [OF vs_duration_nonneg that] merge
      del: timeline_source.simps)
  have nn: "0 \<le> segs_duration xs" by (rule total_len_nonneg) simp
  have src: "?tl ss' t =
      (if t < segs_duration (xs @ [l]) then ?tl ss t
       else if t < segs_duration (xs @ [l]) + gap then Some (vs_source_end_secs l + (t - segs_duration (xs @ [l])))
       else ?tl ss (t - gap))" if t: "0 \<le> t" for t
  proof -
    consider "t < segs_duration (xs @ [l])" | "segs_duration (xs @ [l]) \<le> t" "t < segs_duration (xs @ [l]) + gap"
      | "segs_duration (xs @ [l]) + gap \<le> t" by linarith
    then show ?thesis
    proof cases
      case 1
      then show ?thesis using t gap nn len(1)
        by (simp add: same ss timeline_source_append)
    next
      case 2
      then have "\<not> t < segs_duration xs" using vs_duration_nonneg [of l] unfolding total_len_append total_len_Cons total_len_Nil by linarith
      with 2 show ?thesis using t gap nn len by (simp add: same timeline_source_append)
    next
      case 3
      then have b: "0 \<le> t - gap" "\<not> t < segs_duration xs" "\<not> t < segs_duration xs + vs_duration_secs l"
        "\<not> t - gap < segs_duration xs" "\<not> t - gap - segs_duration xs < vs_duration_secs l"
        "\<not> t - segs_duration xs < vs_duration_secs l + gap"
        using nn gap vs_duration_nonneg [of l] unfolding total_len_append total_len_Cons total_len_Nil
        by linarith+
      have eq: "t - segs_duration xs - (vs_duration_secs l + gap) = t - gap - segs_duration xs - vs_duration_secs l"
        by simp
      from 3 t b len(1) show ?thesis by (simp add: same ss timeline_source_append eq)
    qed
  qed
  have dur: "segs_duration ss' = segs_duration ss + gap"
    using len by (simp add: ss ss')
  have ids: "if f64_epsilon < gap
        then vce_inserted_duration_secs e = gap \<and> vce_removed_id e = None \<and> map vs_id ss' = map vs_id ss
        else vce_inserted_duration_secs e = 0 \<and> vce_removed_id e = Some i \<and>
             vs_id ` set ss' = vs_id ` set ss - {i}"
  proof -
    have "\<forall>x \<in> set (xs @ l # ys). vs_id x \<noteq> i" using w(6) by auto
    then show ?thesis using i by (auto simp: e ss ss' gap_def)
  qed
  have start: "vce_timeline_start_secs e = segs_duration (xs @ [l])" and left: "vce_left_id e = vs_id l"
    by (simp_all add: e)
  have "l \<in> set ss" by (simp add: ss)
  show ?thesis unfolding start left
    by (intro conjI wf' bexI [of _ l] exI [of _ gap] \<open>l \<in> set ss\<close> refl gap dur allI impI src ids)
qed

subsection \<open>Clipping the timeline to the range all inputs share\<close>

text \<open>\<open>shared_source_range\<close>: the intersection of the ranges.\<close>

definition shared_source_range :: "(real \<times> real) list \<Rightarrow> (real \<times> real) option" where
  "shared_source_range ranges =
     (case ranges of
        [] \<Rightarrow> None
      | first # rest \<Rightarrow>
          (case fold (\<lambda>(s, e) (shared_start, shared_end). (max shared_start s, min shared_end e)) rest first of
             (shared_start, shared_end) \<Rightarrow>
               if shared_start < shared_end then Some (shared_start, shared_end) else None))"

lemma shared_fold:
  "fold (\<lambda>(s, e) (a, b). (max a s, min b e)) rs (s0, e0) = (s1, e1) \<Longrightarrow>
   (x < s1 \<longleftrightarrow> x < s0 \<or> (\<exists>r \<in> set rs. x < fst r)) \<and> (e1 < x \<longleftrightarrow> e0 < x \<or> (\<exists>r \<in> set rs. snd r < x))"
  for x :: real
proof (induction rs arbitrary: s0 e0)
  case Nil
  then show ?case by simp
next
  case (Cons r rs)
  obtain s e where r: "r = (s, e)" by (cases r)
  from Cons.prems have "fold (\<lambda>(s, e) (a, b). (max a s, min b e)) rs (max s0 s, min e0 e) = (s1, e1)"
    by (simp add: r)
  from Cons.IH [OF this] show ?case by (auto simp: r less_max_iff_disj min_less_iff_disj)
qed

text \<open>The loop over the segments: the clipped segments and what was taken out of the timeline.\<close>

fun clip_segments ::
    "real \<Rightarrow> real \<Rightarrow> real \<Rightarrow> video_segment list \<Rightarrow> video_segment list \<times> (real \<times> real) list" where
  "clip_segments source_start_secs source_end_secs timeline_start_secs [] = ([], [])"
| "clip_segments source_start_secs source_end_secs timeline_start_secs (segment # rest) =
     (let original_start_secs = vs_source_start_secs segment;
          original_end_secs = vs_source_end_secs segment;
          original_duration_secs = vs_duration_secs segment;
          clipped_start_secs = max original_start_secs source_start_secs;
          clipped_end_secs = min original_end_secs source_end_secs;
          (segments, deletions) = clip_segments source_start_secs source_end_secs
            (timeline_start_secs + original_duration_secs) rest
      in if clipped_start_secs < clipped_end_secs
         then (segment\<lparr>vs_source_start_secs := clipped_start_secs,
                       vs_source_end_secs := clipped_end_secs\<rparr> # segments,
               (if original_start_secs < clipped_start_secs
                then [(timeline_start_secs, clipped_start_secs - original_start_secs)] else []) @
               (if clipped_end_secs < original_end_secs
                then [(timeline_start_secs + clipped_end_secs - original_start_secs,
                       original_end_secs - clipped_end_secs)] else []) @ deletions)
         else (segments,
               (if 0 < original_duration_secs then [(timeline_start_secs, original_duration_secs)] else [])
               @ deletions))"

text \<open>\<open>sort_by\<close> is a stable sort, as \<open>sort_key\<close> is.\<close>

definition clamp_video_timeline_to_source_range :: "blip_bundle \<Rightarrow> real \<Rightarrow> real \<Rightarrow> blip_bundle" where
  "clamp_video_timeline_to_source_range bundle source_start_secs source_end_secs =
     (case bb_video_segments bundle of
        None \<Rightarrow> bundle
      | Some segments \<Rightarrow>
          (case clip_segments source_start_secs source_end_secs 0 segments of
             (clipped_segments, deletions) \<Rightarrow>
               bundle\<lparr>bb_zoom_segments := fold (\<lambda>(s, d) zs. ripple_delete_ranges zs s d)
                        (sort_key (\<lambda>x. - fst x) deletions) (bb_zoom_segments bundle),
                      bb_video_segments := Some clipped_segments\<rparr>))"

text \<open>One segment's share of the deletions, and what they do to the times after and inside it.\<close>

definition seg_deletions :: "real \<Rightarrow> real \<Rightarrow> real \<Rightarrow> video_segment \<Rightarrow> (real \<times> real) list" where
  "seg_deletions lo hi t s = snd (clip_segments lo hi t [s])"

definition seg_kept :: "real \<Rightarrow> real \<Rightarrow> video_segment \<Rightarrow> real" where
  "seg_kept lo hi s = max 0 (min (vs_source_end_secs s) hi - max (vs_source_start_secs s) lo)"

lemma clip_segments_fst:
  "fst (clip_segments lo hi t (s # ss)) =
     (if max (vs_source_start_secs s) lo < min (vs_source_end_secs s) hi
      then [s\<lparr>vs_source_start_secs := max (vs_source_start_secs s) lo,
              vs_source_end_secs := min (vs_source_end_secs s) hi\<rparr>] else [])
     @ fst (clip_segments lo hi (t + vs_duration_secs s) ss)"
  by (cases "clip_segments lo hi (t + vs_duration_secs s) ss") (simp add: Let_def)

lemma clip_segments_snd:
  "snd (clip_segments lo hi t (s # ss)) =
     seg_deletions lo hi t s @ snd (clip_segments lo hi (t + vs_duration_secs s) ss)"
  by (cases "clip_segments lo hi (t + vs_duration_secs s) ss") (simp add: seg_deletions_def Let_def)

lemma seg_deletions_order:
  "\<forall>d \<in> set (seg_deletions lo hi t s). t \<le> fst d \<and> 0 < snd d \<and> fst d + snd d \<le> t + vs_duration_secs s"
  "sorted_wrt (\<lambda>a b. fst a + snd a \<le> fst b) (seg_deletions lo hi t s)"
  by (auto simp: seg_deletions_def vs_duration_secs_def Let_def)

lemma clip_deletions:
  "\<forall>d \<in> set (snd (clip_segments lo hi t ss)). t \<le> fst d \<and> 0 < snd d"
  "sorted_wrt (\<lambda>a b. fst a + snd a \<le> fst b) (snd (clip_segments lo hi t ss))"
proof (induction ss arbitrary: t)
  case Nil
  { case 1 show ?case by simp }
  { case 2 show ?case by simp }
next
  case (Cons s ss)
  {
    case (1 t)
    note o = seg_deletions_order [of lo hi t s]
    have t: "t \<le> t + vs_duration_secs s" by simp
    show ?case unfolding clip_segments_snd
    proof (rule ballI)
      fix d assume "d \<in> set (seg_deletions lo hi t s @ snd (clip_segments lo hi (t + vs_duration_secs s) ss))"
      then consider "d \<in> set (seg_deletions lo hi t s)"
        | "d \<in> set (snd (clip_segments lo hi (t + vs_duration_secs s) ss))" by (auto simp del: clip_segments.simps)
      then show "t \<le> fst d \<and> 0 < snd d"
      proof cases
        case 1
        from bspec [OF o(1) this] show ?thesis by simp
      next
        case 2
        from bspec [OF Cons.IH(1) this] t show ?thesis by linarith
      qed
    qed
  next
    case (2 t)
    note o = seg_deletions_order [of lo hi t s]
    have "fst a + snd a \<le> fst b" if "a \<in> set (seg_deletions lo hi t s)"
      "b \<in> set (snd (clip_segments lo hi (t + vs_duration_secs s) ss))" for a b
    proof -
      have "fst a + snd a \<le> t + vs_duration_secs s" using bspec [OF o(1) that(1)] by simp
      also have "\<dots> \<le> fst b" using bspec [OF Cons.IH(1) that(2)] by simp
      finally show ?thesis .
    qed
    with o(2) Cons.IH(2) show ?case unfolding clip_segments_snd sorted_wrt_append by blast
  }
qed

text \<open>The deletions come in order of time, so the sorted list is their reverse.\<close>

lemma insort_last: "\<forall>x \<in> set xs. f x < f d \<Longrightarrow> insort_key f d xs = xs @ [d]"
  by (induction xs) (auto simp: not_le)

lemma sort_desc_rev:
  "sorted_wrt (\<lambda>a b. fst a + snd a \<le> fst b) ds \<Longrightarrow> \<forall>d \<in> set ds. 0 < snd d \<Longrightarrow>
   sort_key (\<lambda>x. - fst x) ds = rev (ds :: (real \<times> real) list)"
proof (induction ds)
  case Nil
  then show ?case by simp
next
  case (Cons d ds)
  then have "\<forall>x \<in> set (rev ds). - fst x < - fst d" by fastforce
  with Cons show ?case by (simp add: insort_last)
qed

definition map_times :: "(real \<times> real) list \<Rightarrow> real \<Rightarrow> real" where
  "map_times ds x = foldr (\<lambda>(s, d) t. map_time s d t) ds x"

lemma map_times_append: "map_times (xs @ ys) x = map_times xs (map_times ys x)"
  by (simp add: map_times_def)

lemma map_times_before: "\<forall>d \<in> set ds. x \<le> fst d \<Longrightarrow> map_times ds x = x"
  by (induction ds) (auto simp: map_times_def map_time_before)

lemma seg_deletions_after:
  "t + vs_duration_secs s \<le> x \<Longrightarrow>
   map_times (seg_deletions lo hi t s) x = x - (vs_duration_secs s - seg_kept lo hi s)"
  by (auto simp: map_times_def seg_deletions_def seg_kept_def Let_def map_time_def vs_duration_secs_def)

lemma seg_deletions_inside:
  assumes "t \<le> x" "x < t + vs_duration_secs s"
    "lo \<le> vs_source_start_secs s + (x - t)" "vs_source_start_secs s + (x - t) < hi"
  shows "map_times (seg_deletions lo hi t s) x = x - (max (vs_source_start_secs s) lo - vs_source_start_secs s)"
  using assms
  by (auto simp: map_times_def seg_deletions_def Let_def map_time_def vs_duration_secs_def max_def min_def
    split: if_splits)

declare clip_segments.simps(2) [simp del]

lemma map_times_mono: "\<forall>d \<in> set ds. 0 < snd d \<Longrightarrow> x \<le> y \<Longrightarrow> map_times ds x \<le> map_times ds y"
  by (induction ds) (auto simp: map_times_def map_time_mono)

lemma map_times_contracts:
  "\<forall>d \<in> set ds. 0 < snd d \<Longrightarrow> x \<le> y \<Longrightarrow> map_times ds y - map_times ds x \<le> y - x"
proof (induction ds)
  case Nil
  then show ?case by (simp add: map_times_def)
next
  case (Cons d ds)
  then have "map_times ds x \<le> map_times ds y" by (intro map_times_mono) simp_all
  with Cons show ?case
    using map_time_contracts [of "snd d" "map_times ds x" "map_times ds y" "fst d"]
    by (cases d) (auto simp: map_times_def)
qed

text \<open>Kept content is at the mapped time, at the same source time.\<close>

lemma clip_keeps_content:
  "t \<le> x \<Longrightarrow> timeline_source vs_source_start_secs vs_duration_secs ss (x - t) = Some y \<Longrightarrow>
   lo \<le> y \<Longrightarrow> y < hi \<Longrightarrow>
   t \<le> map_times (snd (clip_segments lo hi t ss)) x \<and>
   timeline_source vs_source_start_secs vs_duration_secs (fst (clip_segments lo hi t ss))
     (map_times (snd (clip_segments lo hi t ss)) x - t) = Some y"
proof (induction ss arbitrary: t)
  case Nil
  then show ?case by simp
next
  case (Cons s ss)
  let ?t = "t + vs_duration_secs s" and ?tl = "timeline_source vs_source_start_secs vs_duration_secs"
  let ?c = "clip_segments lo hi ?t ss"
  let ?cs = "max (vs_source_start_secs s) lo" and ?ce = "min (vs_source_end_secs s) hi"
  let ?k = "s\<lparr>vs_source_start_secs := ?cs, vs_source_end_secs := ?ce\<rparr>"
  show ?case
  proof (cases "x < ?t")
    case True
    with Cons.prems have y: "y = vs_source_start_secs s + (x - t)" by auto
    have "map_times (snd ?c) x = x"
      using True clip_deletions(1) [of lo hi ?t ss] by (intro map_times_before) fastforce
    then have m: "map_times (snd (clip_segments lo hi t (s # ss))) x = x - (?cs - vs_source_start_secs s)"
      unfolding clip_segments_snd map_times_append
      using True Cons.prems y by (simp add: seg_deletions_inside)
    have "0 < vs_duration_secs s" using True Cons.prems(1) by simp
    then have kept: "?cs < ?ce" "vs_duration_secs ?k = ?ce - ?cs" "y < ?ce" "?cs \<le> y"
      using Cons.prems True y by (auto simp: vs_duration_secs_def)
    have "?tl (fst (clip_segments lo hi t (s # ss))) (y - ?cs) = Some y"
      unfolding clip_segments_fst using kept by simp
    moreover have "x - (?cs - vs_source_start_secs s) - t = y - ?cs" using y by simp
    ultimately show ?thesis unfolding m using kept(4) by (metis diff_ge_0_iff_ge)
  next
    case False
    then have "?tl ss (x - ?t) = Some y" using Cons.prems(2) by (simp add: diff_diff_eq)
    with False Cons.prems Cons.IH [of ?t] have ih: "?t \<le> map_times (snd ?c) x"
      "?tl (fst ?c) (map_times (snd ?c) x - ?t) = Some y" by auto
    have m: "map_times (snd (clip_segments lo hi t (s # ss))) x =
        map_times (snd ?c) x - (vs_duration_secs s - seg_kept lo hi s)"
      unfolding clip_segments_snd map_times_append using ih(1) by (rule seg_deletions_after)
    have e: "map_times (snd ?c) x - (vs_duration_secs s - seg_kept lo hi s) - t - seg_kept lo hi s =
        map_times (snd ?c) x - ?t" by simp
    have len: "?cs < ?ce \<Longrightarrow> vs_duration_secs ?k = seg_kept lo hi s"
      by (simp add: seg_kept_def vs_duration_secs_def)
    have none: "\<not> ?cs < ?ce \<Longrightarrow> seg_kept lo hi s = 0"
      unfolding seg_kept_def by (subst max_absorb1) linarith+
    have nn: "0 \<le> seg_kept lo hi s" by (simp add: seg_kept_def)
    show ?thesis
    proof (cases "?cs < ?ce")
      case True
      then have "?tl (fst (clip_segments lo hi t (s # ss))) u =
          (if u < seg_kept lo hi s then Some (?cs + u) else ?tl (fst ?c) (u - seg_kept lo hi s))" for u
        unfolding clip_segments_fst by (simp add: len)
      moreover have "\<not> map_times (snd ?c) x - (vs_duration_secs s - seg_kept lo hi s) - t < seg_kept lo hi s"
        "t \<le> map_times (snd ?c) x - (vs_duration_secs s - seg_kept lo hi s)"
        using ih(1) nn by linarith+
      ultimately show ?thesis using ih(2) unfolding m by (simp only: e if_False simp_thms)
    next
      case no: False
      then have "fst (clip_segments lo hi t (s # ss)) = fst ?c" unfolding clip_segments_fst by simp
      moreover have "map_times (snd ?c) x - (vs_duration_secs s - seg_kept lo hi s) - t = map_times (snd ?c) x - ?t"
        "t \<le> map_times (snd ?c) x - (vs_duration_secs s - seg_kept lo hi s)"
        using none no ih(1) by simp_all
      ultimately show ?thesis using ih(2) unfolding m by (simp only: simp_thms)
    qed
  qed
qed

text \<open>The ripple deletions together map both ends of each zoom and drop what vanishes.\<close>

lemma ripple_deletes:
  assumes "\<forall>d \<in> set ds. 0 < snd d" "\<forall>z \<in> set zs. zs_start_secs z \<le> zs_end_secs z"
  shows "fold (\<lambda>(s, d) zs. ripple_delete_ranges zs s d) (rev ds) zs =
    (if ds = [] then zs else filter zs_visible (map (zs_map (map_times ds)) zs))"
  using assms(1)
proof (induction ds)
  case Nil
  then show ?case by simp
next
  case (Cons d ds)
  obtain s l where d: "d = (s, l)" by (cases d)
  have l: "0 \<le> l" using Cons.prems by (simp add: d)
  have step: "map_times (d # ds) = (\<lambda>t. map_time s l (map_times ds t))"
    by (rule ext) (simp add: map_times_def d)
  have vis: "zs_visible (zs_map (map_times ds) z)"
    if "z \<in> set zs" "zs_visible (zs_map (map_times (d # ds)) z)" for z
  proof -
    have "map_times ds (zs_start_secs z) \<le> map_times ds (zs_end_secs z)"
      using Cons.prems assms(2) that(1) by (intro map_times_mono) auto
    from map_time_contracts [OF l this, of s] that(2) show ?thesis
      by (simp add: zs_visible_def step)
  qed
  have id0: "map_times [] = (\<lambda>t. t)" by (rule ext) (simp add: map_times_def)
  have comp: "filter zs_visible (map (zs_map (map_time s l)) (filter zs_visible (map (zs_map (map_times ds)) zs)))
      = filter zs_visible (map (zs_map (map_times (d # ds))) zs)"
    using vis
  proof (induction zs)
    case (Cons z zs)
    then show ?case
      by (cases "zs_visible (zs_map (map_times ds) z)") (auto simp: zs_map_comp step)
  qed simp
  show ?case
  proof (cases "ds = []")
    case True
    then have "map_times (d # ds) = map_time s l" using step id0 by simp
    with True show ?thesis by (simp add: d ripple_delete_ranges_def)
  next
    case False
    with Cons show ?thesis by (simp add: d ripple_delete_ranges_def comp [unfolded d])
  qed
qed

lemma clip_within:
  assumes "segs_wf ss"
  shows "segs_wf (fst (clip_segments lo hi t ss)) \<and> segs_within lo hi (fst (clip_segments lo hi t ss)) \<and>
    (\<forall>k \<in> set (fst (clip_segments lo hi t ss)). \<exists>s \<in> set ss. vs_id k = vs_id s \<and>
       vs_source_start_secs s \<le> vs_source_start_secs k \<and> vs_source_end_secs k \<le> vs_source_end_secs s)"
  using assms
proof (induction ss arbitrary: t)
  case Nil
  then show ?case by simp
next
  case (Cons s ss)
  let ?c = "fst (clip_segments lo hi (t + vs_duration_secs s) ss)"
  have ih: "segs_wf ?c" "segs_within lo hi ?c"
    "\<forall>k \<in> set ?c. \<exists>s \<in> set ss. vs_id k = vs_id s \<and>
       vs_source_start_secs s \<le> vs_source_start_secs k \<and> vs_source_end_secs k \<le> vs_source_end_secs s"
    using Cons.IH [of "t + vs_duration_secs s"] Cons.prems by (simp_all add: segs_wf_simps)
  have s: "vs_id s \<notin> vs_id ` set ss" "\<forall>y \<in> set ss. vs_source_end_secs s \<le> vs_source_start_secs y"
    using Cons.prems by (simp_all add: segs_wf_simps)
  have "vs_id s \<notin> vs_id ` set ?c" "\<forall>y \<in> set ?c. vs_source_end_secs s \<le> vs_source_start_secs y"
    using ih(3) s by (fastforce dest: bspec)+
  with ih show ?case unfolding clip_segments_fst
    by (auto simp: segs_wf_simps min_le_iff_disj)
qed

text \<open>
  C11: clipping the timeline to a source range keeps all content of the range in place relative to
  the zooms: some monotone map of times takes every time that plays kept content to a time of
  the clipped timeline that plays the same source time; the zooms that stay are the old ones with both
  ends mapped, and exactly those dropped are 10 ms or shorter afterwards; the clipped segments lie
  in the range, each inside its original, and timeline and zooms stay well-formed.
\<close>

theorem clamp_keeps_content:
  assumes some: "bb_video_segments b = Some ss" and wf: "segs_wf ss"
    and zwf: "zooms_wf (bb_zoom_segments b)" and vis: "\<forall>z \<in> set (bb_zoom_segments b). zs_visible z"
  shows "\<exists>ss' f. bb_video_segments (clamp_video_timeline_to_source_range b lo hi) = Some ss' \<and>
    segs_wf ss' \<and> segs_within lo hi ss' \<and> mono f \<and>
    (\<forall>x \<ge> 0. \<forall>y. timeline_source vs_source_start_secs vs_duration_secs ss x = Some y \<longrightarrow> lo \<le> y \<longrightarrow> y < hi \<longrightarrow>
       0 \<le> f x \<and> timeline_source vs_source_start_secs vs_duration_secs ss' (f x) = Some y) \<and>
    bb_zoom_segments (clamp_video_timeline_to_source_range b lo hi) =
      filter zs_visible (map (zs_map f) (bb_zoom_segments b)) \<and>
    zooms_wf (bb_zoom_segments (clamp_video_timeline_to_source_range b lo hi))"
proof -
  let ?c = "clip_segments lo hi 0 ss" and ?zs = "bb_zoom_segments b"
  let ?f = "map_times (snd ?c)"
  note del = clip_deletions [of lo hi 0 ss]
  have pos: "\<forall>d \<in> set (snd ?c). 0 < snd d" using del(1) by blast
  have m: "mono ?f" by (rule monoI) (rule map_times_mono [OF pos])
  have le: "\<forall>z \<in> set ?zs. zs_start_secs z \<le> zs_end_secs z" using zwf by (auto simp: zooms_wf_def)
  have segs: "bb_video_segments (clamp_video_timeline_to_source_range b lo hi) = Some (fst ?c)"
    by (simp add: clamp_video_timeline_to_source_range_def some split_beta)
  have z0: "filter zs_visible (map (zs_map (map_times [])) ?zs) = ?zs"
    using vis by (simp add: map_times_def zs_map_id filter_id_conv cong: map_cong)
  have "bb_zoom_segments (clamp_video_timeline_to_source_range b lo hi) =
      fold (\<lambda>(s, d) zs. ripple_delete_ranges zs s d) (rev (snd ?c)) ?zs"
    by (simp add: clamp_video_timeline_to_source_range_def some split_beta sort_desc_rev [OF del(2) pos])
  also have "\<dots> = filter zs_visible (map (zs_map ?f) ?zs)"
    using ripple_deletes [OF pos le] z0 by (cases "snd ?c") (simp_all only: if_True if_False list.distinct simp_thms)
  finally have zooms: "bb_zoom_segments (clamp_video_timeline_to_source_range b lo hi) =
      filter zs_visible (map (zs_map ?f) ?zs)" .
  have "zooms_wf (filter zs_visible (map (zs_map ?f) ?zs))"
    by (rule zooms_wf_image [OF zwf]) (auto simp: zs_visible_def intro: monoD [OF m])
  with segs clip_within [OF wf, of lo hi 0] m zooms clip_keeps_content [of 0 _ ss _ lo hi]
  show ?thesis by (intro exI [of _ "fst ?c"] exI [of _ ?f]) auto
qed

subsection \<open>Dragging an edge\<close>

definition resize_video_segment_range ::
    "segment_edge \<Rightarrow> real \<Rightarrow> real \<Rightarrow> real \<Rightarrow> real \<Rightarrow> real \<Rightarrow> real \<times> real" where
  "resize_video_segment_range edge source_start_secs source_end_secs
       minimum_source_start_secs maximum_source_end_secs delta_secs =
     (case edge of
        EdgeStart \<Rightarrow> (min (max (source_start_secs + delta_secs) minimum_source_start_secs)
                        (source_end_secs - 1/100), source_end_secs)
      | EdgeEnd \<Rightarrow> (source_start_secs,
                    max (min (source_end_secs + delta_secs) maximum_source_end_secs)
                        (source_start_secs + 1/100)))"

definition resize_zoom_segment_range ::
    "segment_edge \<Rightarrow> real \<Rightarrow> real \<Rightarrow> real \<Rightarrow> real \<Rightarrow> real \<Rightarrow> real \<times> real" where
  "resize_zoom_segment_range edge start_secs end_secs minimum_start_secs maximum_end_secs delta_secs =
     (case edge of
        EdgeStart \<Rightarrow> (min (max (start_secs + delta_secs) minimum_start_secs) (end_secs - 1/100), end_secs)
      | EdgeEnd \<Rightarrow> (start_secs, max (min (end_secs + delta_secs) maximum_end_secs) (start_secs + 1/100)))"

text \<open>Where a dragged segment is drawn, and where the next segment starts.\<close>

definition video_segment_drag_layout ::
    "video_segment_resize_mode \<Rightarrow> segment_edge option \<Rightarrow> real \<Rightarrow> real \<Rightarrow> real \<Rightarrow> real \<times> real \<times> real" where
  "video_segment_drag_layout resize_mode edge timeline_start_secs original_duration_secs draft_duration_secs =
     (if edge = None
      then (timeline_start_secs, timeline_start_secs + original_duration_secs,
            timeline_start_secs + original_duration_secs)
      else if resize_mode = Live
      then (timeline_start_secs, timeline_start_secs + draft_duration_secs,
            timeline_start_secs + draft_duration_secs)
      else
        (let (display_start_secs, display_end_secs) =
               (if edge = Some EdgeStart \<and> draft_duration_secs < original_duration_secs
                then (timeline_start_secs + original_duration_secs - draft_duration_secs,
                      timeline_start_secs + original_duration_secs)
                else (timeline_start_secs, timeline_start_secs + draft_duration_secs));
             next_timeline_start_secs = timeline_start_secs +
               (if original_duration_secs < draft_duration_secs then draft_duration_secs
                else original_duration_secs)
         in (display_start_secs, display_end_secs, next_timeline_start_secs)))"

lemma resize_range_bounds:
  assumes "resize_video_segment_range edge s e lo hi d = (s', e')" "lo \<le> s" "e \<le> hi" "1/100 \<le> e - s"
  shows "lo \<le> s'" "e' \<le> hi" "1/100 \<le> e' - s'" "edge = EdgeStart \<longrightarrow> e' = e" "edge = EdgeEnd \<longrightarrow> s' = s"
  using assms by (auto simp: resize_video_segment_range_def min_def max_def split: segment_edge.splits)

text \<open>
  A drag of a segment's edge moves only that edge, keeps it inside the bounds its neighbours
  set and leaves at least 10 ms; the drawn segment is as long as the draft and never overlaps the one after
  it, which in ghost mode only moves when the segment grows.
\<close>

theorem video_drag_in_bounds:
  assumes r: "resize_video_segment_range edge s e lo hi d = (s', e')"
    and lo: "lo \<le> s" and hi: "e \<le> hi" and len: "1/100 \<le> e - s"
    and l: "video_segment_drag_layout mode (Some edge) t (e - s) (e' - s') = (ds, de, nt)"
  shows "lo \<le> s' \<and> e' \<le> hi \<and> 1/100 \<le> e' - s' \<and> (edge = EdgeStart \<longrightarrow> e' = e) \<and> (edge = EdgeEnd \<longrightarrow> s' = s) \<and>
    t \<le> ds \<and> de - ds = e' - s' \<and> de \<le> nt \<and>
    nt = (if mode = Live then t + (e' - s') else t + max (e - s) (e' - s'))"
proof -
  note b = resize_range_bounds [OF r lo hi len]
  have "t \<le> ds \<and> de - ds = e' - s' \<and> de \<le> nt \<and>
    nt = (if mode = Live then t + (e' - s') else t + max (e - s) (e' - s'))"
    using l by (auto simp: video_segment_drag_layout_def max_def split: if_splits)
  with b show ?thesis by blast
qed

theorem video_drag_in_bounds_witness:
  "\<exists>ds de nt. video_segment_drag_layout Ghost (Some EdgeStart) 7 4 3 = (ds, de, nt) \<and> de - ds = 3 \<and> de \<le> nt"
proof -
  have r: "resize_video_segment_range EdgeStart 1 5 0 10 1 = (2, 5)"
    by (simp add: resize_video_segment_range_def)
  obtain ds de nt where l: "video_segment_drag_layout Ghost (Some EdgeStart) 7 (5 - 1) (5 - 2) = (ds, de, nt)"
    using prod_cases3 by blast
  from video_drag_in_bounds [OF r _ _ _ l] have "de - ds = 3 \<and> de \<le> nt" by simp
  with l show ?thesis by (intro exI [of _ ds] exI [of _ de] exI [of _ nt]) simp
qed

theorem edit_video_cut_correct_witness:
  "\<exists>ss' e. edit_video_cut [\<lparr>vs_id = 1, vs_source_start_secs = 0, vs_source_end_secs = 2\<rparr>,
       \<lparr>vs_id = 2, vs_source_start_secs = 5, vs_source_end_secs = 9\<rparr>] 2 = Some (ss', e) \<and>
     segs_wf ss' \<and> vce_inserted_duration_secs e = 3"
proof -
  let ?ss = "[\<lparr>vs_id = 1, vs_source_start_secs = 0, vs_source_end_secs = 2\<rparr>,
       \<lparr>vs_id = 2, vs_source_start_secs = 5, vs_source_end_secs = 9\<rparr>]"
  obtain ss' e where e: "edit_video_cut ?ss 2 = Some (ss', e)" "vce_inserted_duration_secs e = 3"
    by (simp add: edit_video_cut_def checked_sub_def f64_epsilon_def)
  have "segs_wf ?ss" by (simp add: segs_wf_def)
  from edit_video_cut_correct [OF this e(1)] e show ?thesis by blast
qed

theorem clamp_keeps_content_witness:
  "bb_zoom_segments (clamp_video_timeline_to_source_range
     (new_bundle 0 False False\<lparr>bb_video_segments := Some [\<lparr>vs_id = 1, vs_source_start_secs = 0, vs_source_end_secs = 9\<rparr>]\<rparr>)
     1 5) = [] \<and>
   (\<exists>ss'. bb_video_segments (clamp_video_timeline_to_source_range
     (new_bundle 0 False False\<lparr>bb_video_segments := Some [\<lparr>vs_id = 1, vs_source_start_secs = 0, vs_source_end_secs = 9\<rparr>]\<rparr>)
     1 5) = Some ss' \<and> segs_within 1 5 ss')"
proof -
  let ?ss = "[\<lparr>vs_id = 1, vs_source_start_secs = 0, vs_source_end_secs = 9\<rparr>]"
  let ?b = "new_bundle 0 False False\<lparr>bb_video_segments := Some ?ss\<rparr>"
  have z: "bb_zoom_segments ?b = []" by (simp add: new_bundle_def)
  have "segs_wf ?ss" by (simp add: segs_wf_def)
  from clamp_keeps_content [of ?b ?ss 1 5, OF _ this] z show ?thesis
    by (auto simp: zooms_wf_def)
qed

end
