(* ===== verification/Timeline_View.thy ===== *)
theory Timeline_View
  imports Timeline_Edits
begin

section \<open>The timeline's view (apps/blip-capture/src/editor.rs)\<close>

text \<open>
  The editor shows a window of the timeline that the user zooms and pans: the functions here
  place it, map times to fractions of it, find room for a new zoom at the cursor and advance the
  playback position.
\<close>

definition TIMELINE_TRAILING_SPACE_SECS :: real where
  "TIMELINE_TRAILING_SPACE_SECS = 3"

definition playback_position :: "real \<Rightarrow> real \<Rightarrow> real \<Rightarrow> real \<times> bool" where
  "playback_position start_secs elapsed_secs duration_secs =
     (let time_secs = clamp (start_secs + elapsed_secs) 0 duration_secs
      in (time_secs, duration_secs \<le> time_secs))"

definition include_timeline_fps :: "nat option \<Rightarrow> real \<Rightarrow> nat option" where
  "include_timeline_fps current nominal_fps =
     (let fps = as_unsigned u32_max (max (of_int (round_away nominal_fps)) 1)
      in Some (max (unwrap_or current fps) fps))"

definition timeline_time_fraction :: "real \<Rightarrow> real \<Rightarrow> real \<Rightarrow> real option" where
  "timeline_time_fraction time_secs view_start_secs view_duration_secs =
     (if view_duration_secs \<le> 0 \<or> time_secs < view_start_secs
         \<or> view_start_secs + view_duration_secs < time_secs
      then None
      else Some ((time_secs - view_start_secs) / view_duration_secs))"

definition timeline_range_fraction :: "real \<Rightarrow> real \<Rightarrow> real \<Rightarrow> real \<Rightarrow> (real \<times> real) option" where
  "timeline_range_fraction start_secs end_secs view_start_secs view_duration_secs =
     (if view_duration_secs \<le> 0 then None
      else let visible_start_secs = max start_secs view_start_secs;
               visible_end_secs = min end_secs (view_start_secs + view_duration_secs)
           in if visible_end_secs \<le> visible_start_secs then None
              else Some ((visible_start_secs - view_start_secs) / view_duration_secs,
                         (visible_end_secs - visible_start_secs) / view_duration_secs))"

definition timeline_segment_range_fraction :: "real \<Rightarrow> real \<Rightarrow> real \<Rightarrow> real \<Rightarrow> (real \<times> real) option" where
  "timeline_segment_range_fraction start_secs end_secs view_start_secs view_duration_secs =
     (if view_duration_secs \<le> 0 \<or> end_secs \<le> view_start_secs
         \<or> view_start_secs + view_duration_secs \<le> start_secs
      then None
      else Some ((start_secs - view_start_secs) / view_duration_secs,
                 (end_secs - start_secs) / view_duration_secs))"

definition zoom_segment_range_at :: "real \<Rightarrow> real \<Rightarrow> zoom_segment list \<Rightarrow> (real \<times> real) option" where
  "zoom_segment_range_at cursor timeline_duration_secs segments =
     (let duration_secs = max (min timeline_duration_secs 3) 0;
          cursor_secs = clamp cursor 0 (max timeline_duration_secs 0);
          available_start_secs = unwrap_or (max_by (\<lambda>x. x)
            (map zs_end_secs (filter (\<lambda>s. zs_end_secs s \<le> cursor_secs) segments))) 0;
          available_end_secs = unwrap_or (min_by (\<lambda>x. x)
            (map zs_start_secs (filter (\<lambda>s. cursor_secs \<le> zs_start_secs s) segments)))
            timeline_duration_secs
      in if available_end_secs - available_start_secs < duration_secs then None
         else let start_secs = clamp cursor_secs available_start_secs
                    (max (available_end_secs - duration_secs) available_start_secs)
              in Some (start_secs, start_secs + duration_secs))"

definition clamp_timeline_view_start :: "real \<Rightarrow> real \<Rightarrow> real \<Rightarrow> real" where
  "clamp_timeline_view_start view_start_secs view_duration_secs extent_secs =
     (let maximum_start_secs = max (extent_secs - view_duration_secs) 0
      in clamp view_start_secs 0 maximum_start_secs)"

definition timeline_extent_secs :: "real \<Rightarrow> real" where
  "timeline_extent_secs duration_secs = max duration_secs 0 + TIMELINE_TRAILING_SPACE_SECS"

definition zoomed_timeline_view :: "real \<Rightarrow> real \<Rightarrow> real \<Rightarrow> real \<Rightarrow> real \<Rightarrow> real \<times> real" where
  "zoomed_timeline_view view_start_secs view_duration timeline_duration_secs focal delta =
     (if timeline_duration_secs \<le> 0 then (0, 0)
      else let focal_fraction = clamp focal 0 1;
               view_duration_secs = clamp view_duration 0 timeline_duration_secs;
               focal_time_secs = view_start_secs + focal_fraction * view_duration_secs;
               minimum_duration_secs =
                 min (max (timeline_duration_secs / 10) (5/100)) timeline_duration_secs;
               duration_secs = clamp (view_duration_secs * exp (- delta))
                 minimum_duration_secs timeline_duration_secs;
               start_secs = clamp_timeline_view_start
                 (focal_time_secs - focal_fraction * duration_secs) duration_secs timeline_duration_secs
           in (start_secs, duration_secs))"

definition panned_timeline_view :: "real \<Rightarrow> real \<Rightarrow> real \<Rightarrow> real \<Rightarrow> real" where
  "panned_timeline_view view_start_secs view_duration_secs timeline_duration_secs delta_fraction =
     clamp_timeline_view_start (view_start_secs - delta_fraction * view_duration_secs)
       view_duration_secs timeline_duration_secs"

subsection \<open>The view stays on the timeline\<close>

lemma view_start_bounds:
  "0 \<le> clamp_timeline_view_start x d e" "d \<le> e \<Longrightarrow> clamp_timeline_view_start x d e + d \<le> e"
  by (auto simp: clamp_timeline_view_start_def clamp_def Let_def)

lemma view_start_id:
  "0 \<le> x \<Longrightarrow> x + d \<le> e \<Longrightarrow> clamp_timeline_view_start x d e = x"
  by (auto simp: clamp_timeline_view_start_def clamp_def Let_def)

lemma timeline_extent_pos: "0 < timeline_extent_secs d"
  by (simp add: timeline_extent_secs_def TIMELINE_TRAILING_SPACE_SECS_def add_nonneg_pos)

text \<open>
  Pinching zooms the view around the pointer: the new view lies on the timeline, shows at
  least a tenth of it (at least 50 ms) and never more than all of it; the time under the pointer
  stays in view, and stays under the pointer unless the view would leave the timeline.
\<close>

theorem zoomed_view_keeps_focus:
  assumes e: "0 < e" and v: "0 \<le> v" and d: "0 \<le> d" and ve: "v + d \<le> e" and f: "0 \<le> f" "f \<le> 1"
    and z: "zoomed_timeline_view v d e f delta = (v', d')"
  shows "0 \<le> v' \<and> v' + d' \<le> e \<and> min (max (e / 10) (1/20)) e \<le> d' \<and>
    v' \<le> v + f * d \<and> v + f * d \<le> v' + d' \<and>
    (0 \<le> v + f * d - f * d' \<and> v + f * d - f * d' + d' \<le> e \<longrightarrow> v' + f * d' = v + f * d)"
proof -
  let ?m = "min (max (e / 10) (1/20)) e"
  from z e v d ve f have d': "d' = clamp (d * exp (- delta)) ?m e"
    and v': "v' = clamp_timeline_view_start (v + f * d - f * d') d' e"
    by (auto simp: zoomed_timeline_view_def Let_def)
  have b: "?m \<le> d'" "d' \<le> e" using clamp_bounds [of ?m e "d * exp (- delta)"] by (simp_all add: d')
  then have d0: "0 \<le> d'" using e by (auto simp: min_def max_def split: if_splits)
  note vb = view_start_bounds(1) [of "v + f * d - f * d'" d' e] view_start_bounds(2) [OF b(2), of "v + f * d - f * d'"]
  have fd: "0 \<le> f * d" "f * d \<le> d" "0 \<le> f * d'" "f * d' \<le> d'"
    using f d d0 by (simp_all add: mult_left_le_one_le)
  have "v' \<le> v + f * d \<and> v + f * d \<le> v' + d'"
    using fd v ve b unfolding v' by (auto simp: clamp_timeline_view_start_def clamp_def Let_def)
  moreover have "0 \<le> v + f * d - f * d' \<and> v + f * d - f * d' + d' \<le> e \<longrightarrow> v' + f * d' = v + f * d"
    unfolding v' by (simp add: view_start_id)
  ultimately show ?thesis using vb b unfolding v' [symmetric] by blast
qed

theorem zoomed_view_keeps_focus_witness:
  "\<exists>v' d'. zoomed_timeline_view 2 4 10 (1/2) 0 = (v', d') \<and> v' + d' \<le> 10 \<and> v' \<le> 4"
proof -
  have z: "zoomed_timeline_view 2 4 10 (1/2) 0 = (2, 4)"
    by (simp add: zoomed_timeline_view_def clamp_timeline_view_start_def clamp_def Let_def)
  from zoomed_view_keeps_focus [OF _ _ _ _ _ _ z] show ?thesis using z
    by (intro exI [of _ 2] exI [of _ 4]) simp
qed

subsection \<open>Room for a new zoom\<close>

text \<open>
  The range offered for a new zoom at the cursor is min(3 s, duration) long, lies on the timeline and
  touches no existing zoom, and it does not start after the cursor.
\<close>

theorem zoom_range_is_free:
  assumes d: "0 < dur" and t: "0 \<le> t" "t \<le> dur" and zwf: "zooms_wf zs"
    and inside: "\<forall>z \<in> set zs. 0 \<le> zs_start_secs z \<and> zs_end_secs z \<le> dur"
    and free: "\<forall>z \<in> set zs. \<not> (zs_start_secs z < t \<and> t < zs_end_secs z)"
    and r: "zoom_segment_range_at t dur zs = Some (a, b)"
  shows "0 \<le> a \<and> b \<le> dur \<and> b - a = min dur 3 \<and> a \<le> t \<and>
    (\<forall>z \<in> set zs. zs_end_secs z \<le> a \<or> b \<le> zs_start_secs z)"
proof -
  let ?d = "max (min dur 3) 0"
  let ?ends = "map zs_end_secs (filter (\<lambda>s. zs_end_secs s \<le> t) zs)"
  let ?starts = "map zs_start_secs (filter (\<lambda>s. t \<le> zs_start_secs s) zs)"
  let ?lo = "unwrap_or (max_by (\<lambda>x. x) ?ends) 0" and ?hi = "unwrap_or (min_by (\<lambda>x. x) ?starts) dur"
  have c: "clamp t 0 (max dur 0) = t" using t by simp
  from r have room: "?d \<le> ?hi - ?lo" and a: "a = clamp t ?lo (max (?hi - ?d) ?lo)" and b: "b = a + ?d"
    by (auto simp: zoom_segment_range_at_def c Let_def split: if_splits)
  have lo: "0 \<le> ?lo" "?lo \<le> t"
    using unwrap_max_in [of ?ends 0] t d zwf inside by (force simp: zooms_wf_def)+
  have hi: "?hi \<le> dur" "t \<le> ?hi"
    using unwrap_min_in [of ?starts dur] t d zwf inside by (force simp: zooms_wf_def)+
  have ab: "?lo \<le> a" "b \<le> ?hi" "a \<le> t" using room lo by (auto simp: a b clamp_def)
  have "zs_end_secs z \<le> a \<or> b \<le> zs_start_secs z" if z: "z \<in> set zs" for z
  proof (cases "zs_end_secs z \<le> t")
    case True
    then have "zs_end_secs z \<le> ?lo" using z unwrap_max_ge [of ?ends 0] by auto
    with ab show ?thesis by simp
  next
    case False
    then have "t \<le> zs_start_secs z" using free z by force
    then have "?hi \<le> zs_start_secs z" using z unwrap_min_le [of ?starts dur] by auto
    with ab show ?thesis by simp
  qed
  with ab lo hi b d show ?thesis by auto
qed

theorem zoom_range_is_free_witness:
  "\<exists>a b. zoom_segment_range_at 2 10 [] = Some (a, b) \<and> b - a = 3 \<and> b \<le> 10"
proof -
  obtain a b where r: "zoom_segment_range_at 2 10 [] = Some (a, b)"
    by (simp add: zoom_segment_range_at_def clamp_def)
  with zoom_range_is_free [OF _ _ _ _ _ _ r] show ?thesis by (simp add: zooms_wf_def)
qed

end
