(* ===== verification/Zoom_Transform.thy ===== *)
theory Zoom_Transform
  imports Timeline_Edits
begin

section \<open>The zoom at a time (apps/blip-capture/src/editor.rs, crates/blip-compositor/src/lib.rs)\<close>

text \<open>
  The output transform of a frame: which zoom segment is in effect, how far its eased transition
  has come and, when a zoom starts while the one before it is still leaving, the blend of the two.
  The cubic Bezier easing solves for the curve's parameter by sixteen bisections.
\<close>

record output_transform =
  ot_center :: "real \<times> real"
  ot_scale :: real

definition IDENTITY :: output_transform where
  "IDENTITY = \<lparr>ot_center = (1/2, 1/2), ot_scale = 1\<rparr>"

definition cubic_bezier_coordinate :: "real \<Rightarrow> real \<Rightarrow> real \<Rightarrow> real" where
  "cubic_bezier_coordinate parameter first_coordinate second_coordinate =
     (let inverse = 1 - parameter
      in 3 * inverse * inverse * parameter * first_coordinate
         + 3 * inverse * parameter * parameter * second_coordinate
         + parameter * parameter * parameter)"

fun bezier_bisect :: "nat \<Rightarrow> real \<Rightarrow> real \<Rightarrow> real \<Rightarrow> real \<Rightarrow> real \<Rightarrow> real \<times> real" where
  "bezier_bisect 0 progress first_x second_x low high = (low, high)"
| "bezier_bisect (Suc n) progress first_x second_x low high =
     (let parameter = (low + high) * (1/2);
          x = cubic_bezier_coordinate parameter first_x second_x
      in if x < progress then bezier_bisect n progress first_x second_x parameter high
         else bezier_bisect n progress first_x second_x low parameter)"

definition cubic_bezier_ease :: "real \<Rightarrow> real \<Rightarrow> real \<Rightarrow> real \<Rightarrow> real \<Rightarrow> real" where
  "cubic_bezier_ease p first_x first_y second_x second_y =
     (let progress = clamp p 0 1
      in if progress = 0 \<or> progress = 1 then progress
         else case bezier_bisect 16 progress first_x second_x 0 1 of
           (low, high) \<Rightarrow> cubic_bezier_coordinate ((low + high) * (1/2)) first_y second_y)"

definition zs_transition_secs :: "zoom_segment \<Rightarrow> real" where
  "zs_transition_secs z = transition_duration_secs (zs_transition z)"

definition zoom_attack :: "zoom_segment \<Rightarrow> real \<Rightarrow> real" where
  "zoom_attack segment time_secs =
     (let transition_secs = zs_transition_secs segment;
          zoom_in = (if zs_start_secs segment \<le> 0 then 1
                     else clamp ((time_secs - zs_start_secs segment) / transition_secs) 0 1)
      in cubic_bezier_ease zoom_in (2/10) (8/10) (2/10) 1)"

definition zoom_release :: "zoom_segment \<Rightarrow> real \<Rightarrow> real" where
  "zoom_release segment time_secs =
     (let transition_secs = zs_transition_secs segment;
          zoom_out = clamp ((zs_end_secs segment + transition_secs - time_secs) / transition_secs) 0 1
      in cubic_bezier_ease zoom_out (4/10) 0 (6/10) 1)"

definition zoom_transform_at :: "zoom_segment list \<Rightarrow> real \<Rightarrow> output_transform" where
  "zoom_transform_at segments time_secs =
     (case max_by zs_start_secs (filter (\<lambda>s. zs_start_secs s \<le> time_secs \<and>
             time_secs \<le> zs_end_secs s + zs_transition_secs s) segments) of
        None \<Rightarrow> IDENTITY
      | Some segment \<Rightarrow>
          (let attack = zoom_attack segment time_secs;
               release = zoom_release segment time_secs;
               progress = min attack release;
               transform = \<lparr>ot_center = zs_target segment,
                 ot_scale = 1 + (clamp (zs_amount segment) 1 5 - 1) * progress\<rparr>
           in if attack < 1
              then (case max_by zs_start_secs (filter (\<lambda>p. zs_start_secs p < zs_start_secs segment \<and>
                      zs_end_secs p \<le> zs_start_secs segment \<and>
                      zs_start_secs segment < zs_end_secs p + zs_transition_secs p) segments) of
                 None \<Rightarrow> transform
               | Some previous \<Rightarrow>
                   (let previous_zoom_out = clamp ((zs_end_secs previous + zs_transition_secs previous
                          - zs_start_secs segment) / zs_transition_secs previous) 0 1;
                        previous_progress = cubic_bezier_ease previous_zoom_out (4/10) 0 (6/10) 1;
                        previous_scale = 1 + (clamp (zs_amount previous) 1 5 - 1) * previous_progress;
                        incoming_scale = 1 + (clamp (zs_amount segment) 1 5 - 1) * release
                    in \<lparr>ot_center = (fst (zs_target previous)
                            + (fst (ot_center transform) - fst (zs_target previous)) * attack,
                          snd (zs_target previous)
                            + (snd (ot_center transform) - snd (zs_target previous)) * attack),
                        ot_scale = previous_scale + (incoming_scale - previous_scale) * attack\<rparr>))
              else transform))"

subsection \<open>The easing curve\<close>

lemma bezier_ends [simp]:
  "cubic_bezier_coordinate 0 a b = 0" "cubic_bezier_coordinate 1 a b = 1"
  by (simp_all add: cubic_bezier_coordinate_def)

lemma bezier_in_unit:
  assumes "0 \<le> p" "p \<le> 1" "0 \<le> a" "a \<le> 1" "0 \<le> b" "b \<le> 1"
  shows "0 \<le> cubic_bezier_coordinate p a b \<and> cubic_bezier_coordinate p a b \<le> 1"
proof
  have nn: "0 \<le> (1 - p) * (1 - p) * p" "0 \<le> (1 - p) * p * p" "0 \<le> p * p * p"
    using assms by (simp_all add: mult_nonneg_nonneg)
  have eq: "cubic_bezier_coordinate p a b =
      3 * ((1 - p) * (1 - p) * p) * a + 3 * ((1 - p) * p * p) * b + p * p * p"
    by (simp add: cubic_bezier_coordinate_def Let_def algebra_simps)
  show "0 \<le> cubic_bezier_coordinate p a b"
    unfolding eq using nn assms by (intro add_nonneg_nonneg mult_nonneg_nonneg) simp_all
  have "3 * ((1 - p) * (1 - p) * p) * a \<le> 3 * ((1 - p) * (1 - p) * p)"
    using nn(1) assms by (intro mult_right_le_one_le) simp_all
  moreover have "3 * ((1 - p) * p * p) * b \<le> 3 * ((1 - p) * p * p)"
    using nn(2) assms by (intro mult_right_le_one_le) simp_all
  moreover have "3 * ((1 - p) * (1 - p) * p) + 3 * ((1 - p) * p * p) + p * p * p =
      1 - (1 - p) * (1 - p) * (1 - p)"
    by (simp add: algebra_simps)
  moreover have "0 \<le> (1 - p) * (1 - p) * (1 - p)" using assms by (simp add: mult_nonneg_nonneg)
  ultimately show "cubic_bezier_coordinate p a b \<le> 1" unfolding eq by linarith
qed

lemma bezier_continuous: "isCont (\<lambda>p. cubic_bezier_coordinate p a b) x"
  unfolding cubic_bezier_coordinate_def Let_def by (intro continuous_intros)

text \<open>The loop keeps the curve below the target at \<open>low\<close> and not below it at \<open>high\<close>.\<close>

lemma bezier_bisect_bracket:
  assumes "bezier_bisect n y a b lo hi = (l, h)" "lo \<le> hi"
    "cubic_bezier_coordinate lo a b \<le> y" "y \<le> cubic_bezier_coordinate hi a b"
  shows "lo \<le> l \<and> l \<le> h \<and> h \<le> hi \<and> h - l = (hi - lo) / 2 ^ n \<and>
    cubic_bezier_coordinate l a b \<le> y \<and> y \<le> cubic_bezier_coordinate h a b"
  using assms
proof (induction n arbitrary: lo hi)
  case 0
  then show ?case by simp
next
  case (Suc n)
  let ?m = "(lo + hi) * (1/2)"
  show ?case
  proof (cases "cubic_bezier_coordinate ?m a b < y")
    case True
    with Suc.prems have "bezier_bisect n y a b ?m hi = (l, h)" by (simp add: Let_def)
    from Suc.IH [OF this] True Suc.prems show ?thesis by (simp add: field_simps)
  next
    case False
    with Suc.prems have "bezier_bisect n y a b lo ?m = (l, h)" by (simp add: Let_def)
    from Suc.IH [OF this] False Suc.prems show ?thesis by (simp add: field_simps)
  qed
qed

lemma ease_inside:
  assumes "0 < p" "p < 1"
  shows "\<exists>q r. 0 \<le> q \<and> q \<le> 1 \<and> 0 \<le> r \<and> r \<le> 1 \<and> \<bar>q - r\<bar> \<le> 1 / 2 ^ 17 \<and>
    cubic_bezier_coordinate q x1 x2 = p \<and> cubic_bezier_ease p x1 y1 x2 y2 = cubic_bezier_coordinate r y1 y2"
proof -
  from assms have p: "clamp p 0 1 = p" "p \<noteq> 0" "p \<noteq> 1" by simp_all
  obtain l h where lh: "bezier_bisect 16 p x1 x2 0 1 = (l, h)" by fastforce
  from bezier_bisect_bracket [OF this] assms have
    b: "0 \<le> l" "l \<le> h" "h \<le> 1" "h - l = 1 / 2 ^ 16"
      "cubic_bezier_coordinate l x1 x2 \<le> p" "p \<le> cubic_bezier_coordinate h x1 x2" by simp_all
  from IVT [of "\<lambda>t. cubic_bezier_coordinate t x1 x2" l p h] b bezier_continuous
  obtain q where q: "l \<le> q" "q \<le> h" "cubic_bezier_coordinate q x1 x2 = p" by blast
  let ?r = "(l + h) * (1/2)"
  have e: "cubic_bezier_ease p x1 y1 x2 y2 = cubic_bezier_coordinate ?r y1 y2"
    using p by (simp add: cubic_bezier_ease_def lh)
  have "\<bar>q - ?r\<bar> \<le> (h - l) / 2" using q unfolding abs_le_iff by (simp add: field_simps)
  then have r: "0 \<le> ?r" "?r \<le> 1" "\<bar>q - ?r\<bar> \<le> 1 / 2 ^ 17" using b by simp_all
  have "0 \<le> q" "q \<le> 1" using q b by linarith+
  with q(3) r e show ?thesis by blast
qed

lemma ease_outside:
  "p \<le> 0 \<Longrightarrow> cubic_bezier_ease p x1 y1 x2 y2 = 0" "1 \<le> p \<Longrightarrow> cubic_bezier_ease p x1 y1 x2 y2 = 1"
  by (auto simp: cubic_bezier_ease_def clamp_def)

lemma cubic_bezier_ease_unit:
  assumes "0 \<le> y1" "y1 \<le> 1" "0 \<le> y2" "y2 \<le> 1"
  shows "0 \<le> cubic_bezier_ease p x1 y1 x2 y2 \<and> cubic_bezier_ease p x1 y1 x2 y2 \<le> 1"
proof -
  consider "p \<le> 0" | "1 \<le> p" | "0 < p" "p < 1" by linarith
  then show ?thesis
  proof cases
    case 3
    from ease_inside [OF this] obtain r where
      "0 \<le> r" "r \<le> 1" "cubic_bezier_ease p x1 y1 x2 y2 = cubic_bezier_coordinate r y1 y2" by blast
    with assms bezier_in_unit show ?thesis by metis
  qed (simp_all add: ease_outside)
qed

text \<open>
  The easing keeps 0 and 1, stays between them, and in between returns the curve's height at
  a parameter within 2^-17 of one where the curve is exactly at the given progress.
\<close>

theorem cubic_bezier_ease_correct:
  assumes "0 \<le> y1" "y1 \<le> 1" "0 \<le> y2" "y2 \<le> 1"
  shows "0 \<le> cubic_bezier_ease p x1 y1 x2 y2 \<and> cubic_bezier_ease p x1 y1 x2 y2 \<le> 1 \<and>
    (p \<le> 0 \<longrightarrow> cubic_bezier_ease p x1 y1 x2 y2 = 0) \<and> (1 \<le> p \<longrightarrow> cubic_bezier_ease p x1 y1 x2 y2 = 1) \<and>
    (0 < p \<and> p < 1 \<longrightarrow> (\<exists>q r. 0 \<le> q \<and> q \<le> 1 \<and> 0 \<le> r \<and> r \<le> 1 \<and> \<bar>q - r\<bar> \<le> 1 / 2 ^ 17 \<and>
       cubic_bezier_coordinate q x1 x2 = p \<and> cubic_bezier_ease p x1 y1 x2 y2 = cubic_bezier_coordinate r y1 y2))"
  using cubic_bezier_ease_unit [OF assms] ease_outside ease_inside by blast

subsection \<open>The transform\<close>

lemma transition_pos: "0 < zs_transition_secs z"
  by (cases "zs_transition z") (simp_all add: zs_transition_secs_def)

lemma zoom_eased_unit:
  "0 \<le> zoom_attack z t" "zoom_attack z t \<le> 1" "0 \<le> zoom_release z t" "zoom_release z t \<le> 1"
  using cubic_bezier_ease_unit [of "8/10" 1] cubic_bezier_ease_unit [of 0 1]
  by (simp_all add: zoom_attack_def zoom_release_def Let_def)

lemma blend_between:
  fixes a b k lo hi :: real
  assumes "0 \<le> k" "k \<le> 1" "lo \<le> a" "a \<le> hi" "lo \<le> b" "b \<le> hi"
  shows "lo \<le> a + (b - a) * k \<and> a + (b - a) * k \<le> hi"
proof -
  have "a + (b - a) * k = a * (1 - k) + b * k" by (simp add: algebra_simps)
  moreover have "lo * (1 - k) + lo * k \<le> a * (1 - k) + b * k"
    using assms by (intro add_mono mult_right_mono) simp_all
  moreover have "a * (1 - k) + b * k \<le> hi * (1 - k) + hi * k"
    using assms by (intro add_mono mult_right_mono) simp_all
  ultimately show ?thesis by (simp add: algebra_simps)
qed

lemma eased_scale:
  assumes "0 \<le> k" "k \<le> 1"
  shows "1 \<le> 1 + (clamp a 1 5 - 1) * k \<and> 1 + (clamp a 1 5 - 1) * k \<le> 5"
  using blend_between [OF assms, of 1 1 5 "clamp a 1 5"] clamp_bounds [of 1 5 a] by simp

text \<open>
  C32: the transform of a frame is never further in than five times and never out of the picture:
  its scale is between 1 and 5 and its centre lies in the picture when all targets do; it is the
  identity where no zoom is in effect; and inside a zoom, once its transition is over, it is exactly
  the zoom's target and amount.
\<close>

theorem zoom_transform_correct:
  assumes wf: "zooms_wf zs"
    and targets: "\<forall>z \<in> set zs. 0 \<le> fst (zs_target z) \<and> fst (zs_target z) \<le> 1 \<and>
      0 \<le> snd (zs_target z) \<and> snd (zs_target z) \<le> 1"
  shows "(let o' = zoom_transform_at zs t in 1 \<le> ot_scale o' \<and> ot_scale o' \<le> 5 \<and>
      0 \<le> fst (ot_center o') \<and> fst (ot_center o') \<le> 1 \<and> 0 \<le> snd (ot_center o') \<and> snd (ot_center o') \<le> 1) \<and>
    ((\<forall>z \<in> set zs. t < zs_start_secs z \<or> zs_end_secs z + zs_transition_secs z < t) \<longrightarrow>
      zoom_transform_at zs t = IDENTITY) \<and>
    (\<forall>z \<in> set zs. (zs_start_secs z \<le> 0 \<and> zs_start_secs z \<le> t \<or> zs_start_secs z + zs_transition_secs z \<le> t) \<longrightarrow>
      t < zs_end_secs z \<longrightarrow>
      zoom_transform_at zs t = \<lparr>ot_center = zs_target z, ot_scale = clamp (zs_amount z) 1 5\<rparr>)"
proof (intro conjI ballI impI)
  let ?act = "filter (\<lambda>s. zs_start_secs s \<le> t \<and> t \<le> zs_end_secs s + zs_transition_secs s) zs"
  show "let o' = zoom_transform_at zs t in 1 \<le> ot_scale o' \<and> ot_scale o' \<le> 5 \<and>
      0 \<le> fst (ot_center o') \<and> fst (ot_center o') \<le> 1 \<and> 0 \<le> snd (ot_center o') \<and> snd (ot_center o') \<le> 1"
  proof (cases "max_by zs_start_secs ?act")
    case None
    then show ?thesis by (simp add: zoom_transform_at_def IDENTITY_def del: max_by_None)
  next
    case (Some z)
    let ?a = "zoom_attack z t" and ?r = "zoom_release z t"
    note u = zoom_eased_unit [of z t]
    from max_by_Some [OF Some] have z: "z \<in> set zs" by simp
    let ?prev = "max_by zs_start_secs (filter (\<lambda>p. zs_start_secs p < zs_start_secs z \<and>
                      zs_end_secs p \<le> zs_start_secs z \<and>
                      zs_start_secs z < zs_end_secs p + zs_transition_secs p) zs)"
    have plain: "1 \<le> 1 + (clamp (zs_amount z) 1 5 - 1) * min ?a ?r \<and>
        1 + (clamp (zs_amount z) 1 5 - 1) * min ?a ?r \<le> 5"
      using u by (intro eased_scale) auto
    show ?thesis
    proof (cases "?a < 1 \<and> ?prev \<noteq> None")
      case False
      with Some have "zoom_transform_at zs t = \<lparr>ot_center = zs_target z,
          ot_scale = 1 + (clamp (zs_amount z) 1 5 - 1) * min ?a ?r\<rparr>"
        by (auto simp: zoom_transform_at_def Let_def simp del: max_by_None split: option.splits)
      with plain targets z show ?thesis by simp
    next
      case True
      then obtain p where p: "?prev = Some p" by blast
      from max_by_Some [OF p] have "p \<in> set zs" by simp
      define k where "k = cubic_bezier_ease (clamp ((zs_end_secs p + zs_transition_secs p
           - zs_start_secs z) / zs_transition_secs p) 0 1) (4/10) 0 (6/10) 1"
      have k: "0 \<le> k" "k \<le> 1"
        using cubic_bezier_ease_unit [of 0 1] by (simp_all add: k_def)
      have o': "zoom_transform_at zs t =
          \<lparr>ot_center = (fst (zs_target p) + (fst (zs_target z) - fst (zs_target p)) * ?a,
                       snd (zs_target p) + (snd (zs_target z) - snd (zs_target p)) * ?a),
           ot_scale = (1 + (clamp (zs_amount p) 1 5 - 1) * k) +
             ((1 + (clamp (zs_amount z) 1 5 - 1) * ?r) - (1 + (clamp (zs_amount p) 1 5 - 1) * k)) * ?a\<rparr>"
        using True by (simp add: zoom_transform_at_def Some p k_def Let_def)
      have s: "1 \<le> ot_scale (zoom_transform_at zs t) \<and> ot_scale (zoom_transform_at zs t) \<le> 5"
        using eased_scale [OF k, of "zs_amount p"] eased_scale [OF u(3,4), of "zs_amount z"] u
        unfolding o' output_transform.select_convs by (intro blend_between) auto
      have "0 \<le> fst (ot_center (zoom_transform_at zs t)) \<and> fst (ot_center (zoom_transform_at zs t)) \<le> 1"
        "0 \<le> snd (ot_center (zoom_transform_at zs t)) \<and> snd (ot_center (zoom_transform_at zs t)) \<le> 1"
        using targets z \<open>p \<in> set zs\<close> u unfolding o' output_transform.select_convs fst_conv snd_conv
        by (intro blend_between; auto)+
      with s show ?thesis by (simp add: Let_def)
    qed
  qed
next
  assume "\<forall>z \<in> set zs. t < zs_start_secs z \<or> zs_end_secs z + zs_transition_secs z < t"
  then have "filter (\<lambda>s. zs_start_secs s \<le> t \<and> t \<le> zs_end_secs s + zs_transition_secs s) zs = []"
    by (auto simp: filter_empty_conv not_le)
  then show "zoom_transform_at zs t = IDENTITY" by (simp add: zoom_transform_at_def)
next
  fix z
  let ?act = "filter (\<lambda>s. zs_start_secs s \<le> t \<and> t \<le> zs_end_secs s + zs_transition_secs s) zs"
  assume z: "z \<in> set zs" and e: "t < zs_end_secs z"
    and st: "zs_start_secs z \<le> 0 \<and> zs_start_secs z \<le> t \<or> zs_start_secs z + zs_transition_secs z \<le> t"
  have tr: "0 < zs_transition_secs z" by (rule transition_pos)
  have "z \<in> set ?act" using z e st tr by auto
  then have "max_by zs_start_secs ?act \<noteq> None" unfolding max_by_None by (metis empty_iff empty_set)
  then obtain m where m: "max_by zs_start_secs ?act = Some m" by blast
  from max_by_Some [OF m] \<open>z \<in> set ?act\<close> have
    mz: "m \<in> set zs" "zs_start_secs m \<le> t" "zs_start_secs z \<le> zs_start_secs m" by auto
  have "m = z"
  proof (rule ccontr)
    assume "m \<noteq> z"
    then have "zs_id m \<noteq> zs_id z" using wf mz(1) z by (auto simp: zooms_wf_def distinct_map dest: inj_onD)
    then have "zs_end_secs m \<le> zs_start_secs z \<or> zs_end_secs z \<le> zs_start_secs m"
      "zs_start_secs m < zs_end_secs m"
      using wf mz(1) z unfolding zooms_wf_def by blast+
    with mz e show False by linarith
  qed
  have "zoom_attack z t = 1"
    using st tr by (auto simp: zoom_attack_def cubic_bezier_ease_def clamp_def le_divide_eq Let_def field_simps)
  moreover have "zoom_release z t = 1"
    using e tr by (simp add: zoom_release_def cubic_bezier_ease_def clamp_def field_simps)
  ultimately show "zoom_transform_at zs t = \<lparr>ot_center = zs_target z, ot_scale = clamp (zs_amount z) 1 5\<rparr>"
    using m \<open>m = z\<close> by (simp add: zoom_transform_at_def)
qed

theorem cubic_bezier_ease_correct_witness:
  "cubic_bezier_ease 1 (2/10) (8/10) (2/10) 1 = 1 \<and> cubic_bezier_ease (1/3) (2/10) (8/10) (2/10) 1 \<le> 1"
  using cubic_bezier_ease_correct [of "8/10" 1 1 "2/10" "2/10"]
    cubic_bezier_ease_correct [of "8/10" 1 "1/3" "2/10" "2/10"] by simp

theorem zoom_transform_correct_witness:
  "zoom_transform_at [\<lparr>zs_id = 1, zs_start_secs = 2, zs_end_secs = 6, zs_target = (1/4, 1/2),
      zs_amount = 7, zs_transition = Fast\<rparr>] 4 = \<lparr>ot_center = (1/4, 1/2), ot_scale = 5\<rparr>"
  using zoom_transform_correct [of "[\<lparr>zs_id = 1, zs_start_secs = 2, zs_end_secs = 6, zs_target = (1/4, 1/2),
      zs_amount = 7, zs_transition = Fast\<rparr>]" 4]
  by (simp add: zooms_wf_def zs_transition_secs_def clamp_def)

end
