(* ===== verification/Text_Format.thy ===== *)
theory Text_Format
  imports Blip_Prelude
begin

section \<open>Text: numbers, padding, ASCII case\<close>

text \<open>
  What the code's format strings print: decimal numbers (\<open>{}\<close>), numbers padded with zeros
  (\<open>{:02}\<close>, \<open>{:06}\<close>) and one decimal place (\<open>{:.1}\<close>), and the case-insensitive comparisons of
  ASCII text. A string is the list of its bytes.
\<close>

definition digit :: "nat \<Rightarrow> char" where
  "digit d = char_of (48 + d)"

fun show_nat :: "nat \<Rightarrow> string" where
  "show_nat n = (if n < 10 then [digit n] else show_nat (n div 10) @ [digit (n mod 10)])"

definition show_int :: "int \<Rightarrow> string" where
  "show_int i = (if i < 0 then ''-'' @ show_nat (nat (- i)) else show_nat (nat i))"

declare show_nat.simps [simp del]

definition pad_zero :: "nat \<Rightarrow> string \<Rightarrow> string" where
  "pad_zero w s = replicate (w - length s) (CHR ''0'') @ s"

text \<open>Reading a number back.\<close>

definition digit_value :: "char \<Rightarrow> nat" where
  "digit_value c = of_char c - 48"

definition read_nat :: "string \<Rightarrow> nat" where
  "read_nat s = foldl (\<lambda>n c. 10 * n + digit_value c) 0 s"

lemma digit_value_digit [simp]: "d < 10 \<Longrightarrow> digit_value (digit d) = d"
  by (simp add: digit_value_def digit_def)

lemma read_nat_snoc: "read_nat (s @ [c]) = 10 * read_nat s + digit_value c"
  by (simp add: read_nat_def)

lemma read_show [simp]: "read_nat (show_nat n) = n"
proof (induction n rule: show_nat.induct)
  case (1 n)
  show ?case
  proof (cases "n < 10")
    case True
    then show ?thesis by (subst show_nat.simps) (simp add: read_nat_def)
  next
    case False
    with 1 show ?thesis by (subst show_nat.simps) (simp add: read_nat_snoc)
  qed
qed

lemma show_nat_inject [simp]: "show_nat m = show_nat n \<longleftrightarrow> m = n"
  by (metis read_show)

lemma foldl_zeros: "foldl (\<lambda>n c. 10 * n + digit_value c) 0 (replicate k (CHR ''0'') @ s)
    = foldl (\<lambda>n c. 10 * n + digit_value c) 0 s"
  by (induction k) (simp_all add: digit_value_def)

lemma read_pad [simp]: "read_nat (pad_zero w (show_nat n)) = n"
  using read_show [of n] unfolding pad_zero_def read_nat_def foldl_zeros .

lemma pad_zero_inject [simp]: "pad_zero w (show_nat m) = pad_zero w (show_nat n) \<longleftrightarrow> m = n"
  by (metis read_pad)

lemma show_nat_nonempty [simp]: "show_nat n \<noteq> []"
  by (subst show_nat.simps) simp

lemma show_nat_length: "length (show_nat n) \<le> k \<longleftrightarrow> (n < 10 ^ k \<and> 0 < k)"
proof (induction n arbitrary: k rule: show_nat.induct)
  case (1 n)
  show ?case
  proof (cases "n < 10")
    case True
    then have "k > 0 \<Longrightarrow> n < 10 ^ k" by (cases k) (simp_all add: less_le_trans)
    with True show ?thesis by (subst show_nat.simps) auto
  next
    case False
    show ?thesis
    proof (cases k)
      case 0
      then show ?thesis by (subst show_nat.simps) simp
    next
      case (Suc j)
      have "length (show_nat n) \<le> k \<longleftrightarrow> length (show_nat (n div 10)) \<le> j"
        using False Suc by (subst show_nat.simps) simp
      also have "\<dots> \<longleftrightarrow> n div 10 < 10 ^ j \<and> 0 < j" using 1 False by simp
      also have "\<dots> \<longleftrightarrow> n < 10 ^ k \<and> 0 < k"
        using False Suc by (cases j) (auto simp: div_less_iff_less_mult mult.commute)
      finally show ?thesis .
    qed
  qed
qed

lemma pad_zero_length: "length (pad_zero w (show_nat n)) = max w (length (show_nat n))"
  by (simp add: pad_zero_def)

definition all_digits :: "string \<Rightarrow> bool" where
  "all_digits s = list_all (\<lambda>c. 48 \<le> (of_char c :: nat) \<and> (of_char c :: nat) < 58) s"

lemma digit_range: "d < 10 \<Longrightarrow> 48 \<le> (of_char (digit d) :: nat) \<and> (of_char (digit d) :: nat) < 58"
  by (simp add: digit_def)

lemma show_nat_digits [simp]: "all_digits (show_nat n)"
proof (induction n rule: show_nat.induct)
  case (1 n)
  then show ?case
    by (subst show_nat.simps) (auto simp: all_digits_def digit_range)
qed

lemma pad_zero_digits [simp]: "all_digits (pad_zero w (show_nat n))"
  using show_nat_digits [of n] by (auto simp: pad_zero_def all_digits_def list_all_iff)

text \<open>\<open>{:.1}\<close> of a non-negative number of tenths.\<close>

definition show_tenths :: "nat \<Rightarrow> string" where
  "show_tenths k = show_nat (k div 10) @ ''.'' @ [digit (k mod 10)]"

subsection \<open>ASCII case\<close>

definition ascii_lower :: "char \<Rightarrow> char" where
  "ascii_lower c = (let n = of_char c :: nat in if 65 \<le> n \<and> n \<le> 90 then char_of (n + 32) else c)"

definition eq_ignore_ascii_case :: "string \<Rightarrow> string \<Rightarrow> bool" where
  "eq_ignore_ascii_case a b = (map ascii_lower a = map ascii_lower b)"

fun starts_with :: "string \<Rightarrow> string \<Rightarrow> bool" where
  "starts_with s [] = True"
| "starts_with [] (p # ps) = False"
| "starts_with (c # s) (p # ps) = (c = p \<and> starts_with s ps)"

fun contains :: "string \<Rightarrow> string \<Rightarrow> bool" where
  "contains [] p = (p = [])"
| "contains (c # s) p = (starts_with (c # s) p \<or> contains s p)"

lemma starts_with_iff: "starts_with s p \<longleftrightarrow> (\<exists>r. s = p @ r)"
  by (induction s p rule: starts_with.induct) auto

lemma contains_iff: "contains s p \<longleftrightarrow> (\<exists>l r. s = l @ p @ r)"
proof (induction s)
  case Nil
  show ?case by auto
next
  case (Cons c s)
  show ?case
    unfolding contains.simps Cons.IH starts_with_iff
    by (metis (no_types, opaque_lifting) append_Cons append_Nil neq_Nil_conv list.inject)
qed

end
