(* ===== verification/Crop_Geometry.thy ===== *)
theory Crop_Geometry
  imports Zoom_Transform Text_Format
begin

section \<open>Crop, camera and output geometry (apps/blip-capture/src/editor.rs, crates/blip-compositor/src/lib.rs)\<close>

text \<open>
  Rectangles in the picture: the screen crop and the drags that change it, the camera overlay,
  the size of the output and how the zoom's centre moves when its frame is cropped or placed on a
  canvas. Coordinates are fractions of the picture.
\<close>

record bounds =
  b_x :: real
  b_y :: real
  b_w :: real
  b_h :: real

record content_rect =
  cr_x :: real
  cr_y :: real
  cr_width :: real
  cr_height :: real

datatype crop_resize_handle = HTopLeft | HTop | HTopRight | HRight | HBottomRight | HBottom
  | HBottomLeft | HLeft

definition FULL_CROP :: "real screen_crop" where
  "FULL_CROP = \<lparr>crop_position = (0, 0), crop_size = (1, 1)\<rparr>"

subsection \<open>Normalising a crop\<close>

text \<open>One axis of the loop: the position and size it ends with.\<close>

definition normalize_axis :: "fl \<Rightarrow> fl \<Rightarrow> real \<times> real" where
  "normalize_axis pos extent =
     (let p = clamp (if is_finite pos then fl_val pos else 0) 0 (99/100);
          s = (if \<not> is_finite extent \<or> fl_val extent \<le> 0 then 1 - p else fl_val extent);
          remaining = 1 - p
      in (p, min (max s (min (1/100) remaining)) remaining))"

definition normalize_screen_crop :: "fl screen_crop option \<Rightarrow> real screen_crop option" where
  "normalize_screen_crop crop =
     (case crop of
        None \<Rightarrow> None
      | Some c \<Rightarrow>
          (let (x, w) = normalize_axis (fst (crop_position c)) (fst (crop_size c));
               (y, h) = normalize_axis (snd (crop_position c)) (snd (crop_size c));
               full = (\<bar>x\<bar> < 1/10000 \<and> \<bar>y\<bar> < 1/10000) \<and> \<bar>w - 1\<bar> < 1/10000 \<and> \<bar>h - 1\<bar> < 1/10000
           in if full then None else Some \<lparr>crop_position = (x, y), crop_size = (w, h)\<rparr>))"

text \<open>A crop of finite numbers.\<close>

definition fin_crop :: "real screen_crop \<Rightarrow> fl screen_crop" where
  "fin_crop c = \<lparr>crop_position = map_prod Fin Fin (crop_position c), crop_size = map_prod Fin Fin (crop_size c)\<rparr>"

definition crop_ok :: "real screen_crop \<Rightarrow> bool" where
  "crop_ok c \<longleftrightarrow> (\<forall>(p, s) \<in> {(fst (crop_position c), fst (crop_size c)), (snd (crop_position c), snd (crop_size c))}.
     0 \<le> p \<and> 1/100 \<le> s \<and> p + s \<le> 1)"

lemma crop_ok_simp [simp]:
  "crop_ok \<lparr>crop_position = (x, y), crop_size = (w, h)\<rparr> \<longleftrightarrow>
     0 \<le> x \<and> 1/100 \<le> w \<and> x + w \<le> 1 \<and> 0 \<le> y \<and> 1/100 \<le> h \<and> y + h \<le> 1"
  by (auto simp: crop_ok_def)

lemma crop_ok_FULL [simp]: "crop_ok FULL_CROP"
  by (simp add: FULL_CROP_def)

lemma normalize_axis_ok:
  assumes "normalize_axis p s = (x, w)"
  shows "0 \<le> x \<and> 1/100 \<le> w \<and> x + w \<le> 1"
  using assms by (auto simp: normalize_axis_def clamp_def min_def max_def Let_def split: if_splits)

lemma normalize_axis_id:
  "0 \<le> x \<Longrightarrow> 1/100 \<le> w \<Longrightarrow> x + w \<le> 1 \<Longrightarrow> normalize_axis (Fin x) (Fin w) = (x, w)"
  by (auto simp: normalize_axis_def clamp_def Let_def)

lemma normalize_ok: "normalize_screen_crop c = Some c' \<Longrightarrow> crop_ok c'"
  by (auto simp: normalize_screen_crop_def Let_def dest!: normalize_axis_ok split: option.splits prod.splits if_splits)

lemma normalize_idem:
  assumes "normalize_screen_crop c = Some c'"
  shows "normalize_screen_crop (Some (fin_crop c')) = Some c'"
proof -
  obtain x y w h where c': "c' = \<lparr>crop_position = (x, y), crop_size = (w, h)\<rparr>"
    by (cases c') auto
  have ok: "crop_ok c'" using assms by (rule normalize_ok)
  have "\<not> (\<bar>x\<bar> < 1/10000 \<and> \<bar>y\<bar> < 1/10000 \<and> \<bar>w - 1\<bar> < 1/10000 \<and> \<bar>h - 1\<bar> < 1/10000)"
    using assms by (auto simp: normalize_screen_crop_def c' Let_def split: option.splits prod.splits if_splits)
  with ok show ?thesis
    by (simp add: normalize_screen_crop_def fin_crop_def c' normalize_axis_id Let_def)
qed

definition screen_crop_rect :: "nat \<times> nat \<Rightarrow> fl screen_crop option \<Rightarrow> content_rect \<times> (nat \<times> nat)" where
  "screen_crop_rect dimensions c =
     (let crop = unwrap_or (normalize_screen_crop c) FULL_CROP;
          width = real (max (fst dimensions) 1);
          height = real (max (snd dimensions) 1);
          crop_width = max (width * fst (crop_size crop)) 1;
          crop_height = max (height * snd (crop_size crop)) 1
      in (\<lparr>cr_x = width * fst (crop_position crop), cr_y = height * snd (crop_position crop),
           cr_width = crop_width, cr_height = crop_height\<rparr>,
          (as_unsigned usize_max (of_int (round_away crop_width)),
           as_unsigned usize_max (of_int (round_away crop_height)))))"

subsection \<open>Dragging a crop\<close>

definition crop_contains :: "real screen_crop \<Rightarrow> real \<times> real \<Rightarrow> bool" where
  "crop_contains crop point \<longleftrightarrow>
     fst (crop_position crop) \<le> fst point \<and>
     fst point \<le> fst (crop_position crop) + fst (crop_size crop) \<and>
     snd (crop_position crop) \<le> snd point \<and>
     snd point \<le> snd (crop_position crop) + snd (crop_size crop)"

definition crop_handle_points :: "(crop_resize_handle \<times> real \<times> real) list" where
  "crop_handle_points =
     [(HTopLeft, 0, 0), (HTop, 1/2, 0), (HTopRight, 1, 0), (HRight, 1, 1/2),
      (HBottomRight, 1, 1), (HBottom, 1/2, 1), (HBottomLeft, 0, 1), (HLeft, 0, 1/2)]"

definition crop_handle_at :: "real \<times> real \<Rightarrow> bounds \<Rightarrow> real screen_crop \<Rightarrow> crop_resize_handle option" where
  "crop_handle_at pointer viewport crop =
     (if b_w viewport \<le> 0 \<or> b_h viewport \<le> 0 then None
      else map_option fst (find (\<lambda>(_, px, py).
        let x = b_x viewport + b_w viewport * (fst (crop_position crop) + fst (crop_size crop) * px);
            y = b_y viewport + b_h viewport * (snd (crop_position crop) + snd (crop_size crop) * py)
        in \<bar>fst pointer - x\<bar> \<le> 10 \<and> \<bar>snd pointer - y\<bar> \<le> 10) crop_handle_points))"

text \<open>Resizing by a handle. Its \<open>clamp\<close>s panic if their bounds cross: \<open>None\<close> is the panic.\<close>

definition moves_left :: "crop_resize_handle \<Rightarrow> bool" where
  "moves_left h \<longleftrightarrow> h \<in> {HTopLeft, HLeft, HBottomLeft}"

definition moves_right :: "crop_resize_handle \<Rightarrow> bool" where
  "moves_right h \<longleftrightarrow> h \<in> {HTopRight, HRight, HBottomRight}"

definition moves_top :: "crop_resize_handle \<Rightarrow> bool" where
  "moves_top h \<longleftrightarrow> h \<in> {HTopLeft, HTop, HTopRight}"

definition moves_bottom :: "crop_resize_handle \<Rightarrow> bool" where
  "moves_bottom h \<longleftrightarrow> h \<in> {HBottomLeft, HBottom, HBottomRight}"

definition resized_screen_crop ::
    "real screen_crop \<Rightarrow> crop_resize_handle \<Rightarrow> real \<times> real \<Rightarrow> real screen_crop option" where
  "resized_screen_crop original handle pointer =
     (let left0 = fst (crop_position original); top0 = snd (crop_position original);
          right0 = left0 + fst (crop_size original); bottom0 = top0 + snd (crop_size original)
      in Option.bind (if moves_left handle then clamp_panic (fst pointer) 0 (right0 - 1/100) else Some left0) (\<lambda>left.
         Option.bind (if moves_right handle then clamp_panic (fst pointer) (left + 1/100) 1 else Some right0) (\<lambda>right.
         Option.bind (if moves_top handle then clamp_panic (snd pointer) 0 (bottom0 - 1/100) else Some top0) (\<lambda>top.
         Option.bind (if moves_bottom handle then clamp_panic (snd pointer) (top + 1/100) 1 else Some bottom0) (\<lambda>bottom.
         Some \<lparr>crop_position = (left, top), crop_size = (right - left, bottom - top)\<rparr>)))))"

datatype crop_drag =
  CropCreate "real \<times> real"
| CropMove "real \<times> real" "real screen_crop"
| CropResize crop_resize_handle "real screen_crop"

text \<open>The draft a drag step makes of the pointer's position, before it is normalised.\<close>

definition dragged_crop :: "crop_drag \<Rightarrow> real \<times> real \<Rightarrow> real screen_crop option" where
  "dragged_crop operation current =
     (case operation of
        CropCreate start \<Rightarrow>
          Some \<lparr>crop_position = (min (fst start) (fst current), min (snd start) (snd current)),
                crop_size = (max \<bar>fst start - fst current\<bar> (1/100), max \<bar>snd start - snd current\<bar> (1/100))\<rparr>
      | CropMove pointer_start original \<Rightarrow>
          Option.bind (clamp_panic (fst (crop_position original) + fst current - fst pointer_start)
                         0 (1 - fst (crop_size original))) (\<lambda>x.
          Option.bind (clamp_panic (snd (crop_position original) + snd current - snd pointer_start)
                         0 (1 - snd (crop_size original))) (\<lambda>y.
          Some \<lparr>crop_position = (x, y), crop_size = crop_size original\<rparr>))
      | CropResize handle original \<Rightarrow> resized_screen_crop original handle current)"

fun drag_original_ok :: "crop_drag \<Rightarrow> bool" where
  "drag_original_ok (CropCreate start) = True"
| "drag_original_ok (CropMove _ original) = crop_ok original"
| "drag_original_ok (CropResize _ original) = crop_ok original"

lemma clamp_panic_Some: "lo \<le> hi \<Longrightarrow> \<exists>y. clamp_panic x lo hi = Some y \<and> lo \<le> y \<and> y \<le> hi"
  by (simp add: clamp_panic_eq clamp_bounds)

lemma resized_ok:
  assumes "crop_ok c"
  shows "\<exists>c'. resized_screen_crop c h p = Some c' \<and> crop_ok c'"
proof -
  obtain x y w k where c: "c = \<lparr>crop_position = (x, y), crop_size = (w, k)\<rparr>" by (cases c) auto
  have ok: "0 \<le> x" "1/100 \<le> w" "x + w \<le> 1" "0 \<le> y" "1/100 \<le> k" "y + k \<le> 1" using assms by (simp_all add: c)
  from clamp_panic_Some [of 0 "x + w - 1/100" "fst p"] ok obtain l where
    l: "clamp_panic (fst p) 0 (x + w - 1/100) = Some l" "0 \<le> l" "l + 1/100 \<le> x + w" by auto
  from clamp_panic_Some [of 0 "y + k - 1/100" "snd p"] ok obtain t where
    t: "clamp_panic (snd p) 0 (y + k - 1/100) = Some t" "0 \<le> t" "t + 1/100 \<le> y + k" by auto
  from clamp_panic_Some [of "x + 1/100" 1 "fst p"] ok obtain r where
    r: "clamp_panic (fst p) (x + 1/100) 1 = Some r" "x + 1/100 \<le> r" "r \<le> 1" by auto
  from clamp_panic_Some [of "y + 1/100" 1 "snd p"] ok obtain b where
    b: "clamp_panic (snd p) (y + 1/100) 1 = Some b" "y + 1/100 \<le> b" "b \<le> 1" by auto
  show ?thesis
    using ok l t r b by (cases h) (simp_all add: c resized_screen_crop_def moves_left_def moves_right_def
      moves_top_def moves_bottom_def Let_def)
qed

text \<open>
  No drag of the crop rectangle panics, whatever the pointer does, and the draft that results lies in
  the picture and is at least one hundredth of it in each direction; an edge no handle moves stays,
  and a move keeps the size.
\<close>

theorem crop_drag_safe:
  assumes "drag_original_ok op"
  shows "\<exists>c. dragged_crop op p = Some c \<and>
    crop_ok (unwrap_or (normalize_screen_crop (Some (fin_crop c))) FULL_CROP) \<and>
    (\<forall>start orig. op = CropMove start orig \<longrightarrow> crop_ok c \<and> crop_size c = crop_size orig) \<and>
    (\<forall>h orig. op = CropResize h orig \<longrightarrow> crop_ok c \<and>
      (\<not> moves_left h \<longrightarrow> fst (crop_position c) = fst (crop_position orig)) \<and>
      (\<not> moves_top h \<longrightarrow> snd (crop_position c) = snd (crop_position orig)) \<and>
      (\<not> moves_right h \<longrightarrow> fst (crop_position c) + fst (crop_size c) =
         fst (crop_position orig) + fst (crop_size orig)) \<and>
      (\<not> moves_bottom h \<longrightarrow> snd (crop_position c) + snd (crop_size c) =
         snd (crop_position orig) + snd (crop_size orig)))"
proof -
  have norm: "crop_ok (unwrap_or (normalize_screen_crop (Some c)) FULL_CROP)" for c
    by (cases "normalize_screen_crop (Some c)") (auto dest: normalize_ok)
  show ?thesis
  proof (cases op)
    case (CropCreate start)
    then show ?thesis using norm by (simp add: dragged_crop_def)
  next
    case (CropMove start orig)
    obtain x y w h where o': "orig = \<lparr>crop_position = (x, y), crop_size = (w, h)\<rparr>" by (cases orig) auto
    from assms CropMove have wh: "0 \<le> 1 - w" "0 \<le> 1 - h" "1/100 \<le> w" "1/100 \<le> h" by (auto simp: o')
    from clamp_panic_Some [OF wh(1)] obtain x' where
      "clamp_panic (x + fst p - fst start) 0 (1 - w) = Some x'" "0 \<le> x'" "x' \<le> 1 - w" by blast
    moreover from clamp_panic_Some [OF wh(2)] obtain y' where
      "clamp_panic (y + snd p - snd start) 0 (1 - h) = Some y'" "0 \<le> y'" "y' \<le> 1 - h" by blast
    ultimately show ?thesis using norm wh by (simp add: CropMove dragged_crop_def o')
  next
    case (CropResize h orig)
    with assms resized_ok [of orig h p] obtain c where
      c: "resized_screen_crop orig h p = Some c" "crop_ok c" by auto
    then have "(\<not> moves_left h \<longrightarrow> fst (crop_position c) = fst (crop_position orig)) \<and>
      (\<not> moves_top h \<longrightarrow> snd (crop_position c) = snd (crop_position orig)) \<and>
      (\<not> moves_right h \<longrightarrow> fst (crop_position c) + fst (crop_size c) =
         fst (crop_position orig) + fst (crop_size orig)) \<and>
      (\<not> moves_bottom h \<longrightarrow> snd (crop_position c) + snd (crop_size c) =
         snd (crop_position orig) + snd (crop_size orig))"
      by (auto simp: resized_screen_crop_def Let_def split: bind_splits)
    with c norm show ?thesis by (simp add: CropResize dragged_crop_def)
  qed
qed

theorem crop_drag_safe_witness:
  "\<exists>c. dragged_crop (CropResize HBottomRight FULL_CROP) (-3, 1/2) = Some c \<and> crop_ok c"
  using crop_drag_safe [of "CropResize HBottomRight FULL_CROP" "(-3, 1/2)"] by auto

subsection \<open>Fitting and output dimensions\<close>

definition cover_content_rect :: "nat \<Rightarrow> nat \<Rightarrow> nat \<Rightarrow> nat \<Rightarrow> content_rect" where
  "cover_content_rect source_width source_height output_width output_height =
     (let source_aspect = real source_width / real source_height;
          output_aspect = real output_width / real output_height
      in if output_aspect < source_aspect
         then let width = real source_height * output_aspect
              in \<lparr>cr_x = (real source_width - width) * (1/2), cr_y = 0,
                  cr_width = width, cr_height = real source_height\<rparr>
         else let height = real source_width / output_aspect
              in \<lparr>cr_x = 0, cr_y = (real source_height - height) * (1/2),
                  cr_width = real source_width, cr_height = height\<rparr>)"

definition aspect_fit_size :: "real \<times> real \<Rightarrow> real \<times> real \<Rightarrow> real \<times> real \<Rightarrow> real \<times> real" where
  "aspect_fit_size maximum_size source canvas =
     (if snd source = 0 \<or> snd canvas = 0 \<or> snd maximum_size = 0 then maximum_size
      else let source_aspect = fst source / snd source;
               canvas_aspect = fst canvas / snd canvas;
               box_aspect = fst maximum_size * canvas_aspect / snd maximum_size
           in if box_aspect < source_aspect
              then if source_aspect = 0 then maximum_size
                   else (fst maximum_size, fst maximum_size * canvas_aspect / source_aspect)
              else if canvas_aspect = 0 then maximum_size
              else (snd maximum_size * source_aspect / canvas_aspect, snd maximum_size))"

definition f32_epsilon :: real where "f32_epsilon = 1 / 8388608"

definition fit_dimensions :: "real \<Rightarrow> real \<Rightarrow> real \<Rightarrow> real \<times> real" where
  "fit_dimensions ratio maximum_width maximum_height =
     (let aspect_ratio = max ratio f32_epsilon
      in if aspect_ratio < maximum_width / maximum_height
         then (maximum_height * aspect_ratio, maximum_height)
         else (maximum_width, maximum_width / aspect_ratio))"

text \<open>\<open>value.round() as usize * 2\<close>; the product wraps in a release build.\<close>

definition even_dimension :: "real \<Rightarrow> nat" where
  "even_dimension v = max (as_unsigned usize_max (of_int (round_away (v / 2))) * 2 mod (usize_max + 1)) 2"

definition output_ratio :: "nat \<times> nat \<Rightarrow> output_aspect_ratio \<Rightarrow> real \<Rightarrow> real" where
  "output_ratio source aspect_ratio padding =
     (case aspect_ratio of
        AspectAuto \<Rightarrow>
          (let source_ratio = real (max (fst source) 1) / real (max (snd source) 1);
               padding_fraction = clamp padding 0 50 / 100
           in if 1 \<le> source_ratio
              then source_ratio * (1 - padding_fraction) + padding_fraction
              else 1 / ((1 - padding_fraction) / source_ratio + padding_fraction))
      | Wide \<Rightarrow> 16/9 | Vertical \<Rightarrow> 9/16 | Square \<Rightarrow> 1 | Classic \<Rightarrow> 4/3 | Tall \<Rightarrow> 3/4)"

definition output_dimensions :: "nat \<Rightarrow> nat \<times> nat \<Rightarrow> output_aspect_ratio \<Rightarrow> real \<Rightarrow> nat \<times> nat" where
  "output_dimensions short source aspect_ratio padding =
     (let ratio = output_ratio source aspect_ratio padding;
          short_edge = even_dimension (real short)
      in if 1 \<le> ratio then (even_dimension (real short_edge * ratio), short_edge)
         else (short_edge, even_dimension (real short_edge / ratio)))"

lemma round_away_mono: "0 \<le> x \<Longrightarrow> x \<le> y \<Longrightarrow> round_away x \<le> round_away y"
  by (simp add: round_away_def floor_mono)

lemma round_away_of_nat: "round_away (real n) = int n"
proof -
  have "\<lfloor>real n + 1 / 2\<rfloor> = int n" by linarith
  then show ?thesis by (simp add: round_away_def)
qed

lemma even_dimension_eq:
  assumes "0 \<le> v" "v \<le> 2 ^ 60"
  shows "even_dimension v = max (2 * nat (round_away (v / 2))) 2"
proof -
  have "round_away (v / 2) \<le> 2 ^ 59"
    using assms by (simp add: round_away_def floor_le_iff)
  moreover have "0 \<le> round_away (v / 2)" using assms by (simp add: round_away_def)
  ultimately show ?thesis
    by (simp add: even_dimension_def as_unsigned_def u64_max_def mult.commute)
qed

lemma even_dimension_mono:
  assumes "0 \<le> v" "v \<le> w" "w \<le> 2 ^ 60"
  shows "even_dimension v \<le> even_dimension w"
proof -
  have "nat (round_away (v / 2)) \<le> nat (round_away (w / 2))"
    using assms by (intro nat_mono round_away_mono) simp_all
  with assms show ?thesis by (simp add: even_dimension_eq)
qed

lemma even_dimension_even: "0 \<le> v \<Longrightarrow> v \<le> 2 ^ 60 \<Longrightarrow> even (even_dimension v) \<and> 2 \<le> even_dimension v"
  by (simp add: even_dimension_eq max_def)

lemma even_dimension_id: "even n \<Longrightarrow> 2 \<le> n \<Longrightarrow> n \<le> 2 ^ 60 \<Longrightarrow> even_dimension (real n) = n"
proof -
  assume "even n" "2 \<le> n" "n \<le> 2 ^ 60"
  then obtain k where k: "n = 2 * k" "1 \<le> k" by (auto elim!: evenE)
  have "real n / 2 = real k" by (simp add: k)
  with \<open>n \<le> 2 ^ 60\<close> k show ?thesis
    by (subst even_dimension_eq) (simp_all add: round_away_of_nat flip: of_nat_le_iff)
qed

lemma even_dimension_near:
  assumes "1 \<le> v" "v \<le> 2 ^ 60"
  shows "\<bar>real (even_dimension v) - v\<bar> \<le> 1"
proof -
  have r: "round_away (v / 2) = \<lfloor>v / 2 + 1 / 2\<rfloor>" using assms by (simp add: round_away_def)
  have "real_of_int \<lfloor>v / 2 + 1 / 2\<rfloor> \<le> v / 2 + 1 / 2" "v / 2 + 1 / 2 < real_of_int \<lfloor>v / 2 + 1 / 2\<rfloor> + 1"
    by linarith+
  moreover have pos: "1 \<le> \<lfloor>v / 2 + 1 / 2\<rfloor>" using assms by (simp add: le_floor_iff)
  have "nat \<lfloor>v / 2 + 1 / 2\<rfloor> \<ge> 1" using pos by linarith
  then have "even_dimension v = 2 * nat \<lfloor>v / 2 + 1 / 2\<rfloor>"
    using assms by (simp add: even_dimension_eq r)
  then have "real (even_dimension v) = 2 * real_of_int \<lfloor>v / 2 + 1 / 2\<rfloor>" using pos by simp
  ultimately show ?thesis by (simp add: abs_le_iff) linarith
qed

lemma output_ratio_bounds:
  assumes "fst source \<le> 65535" "snd source \<le> 65535"
  shows "0 < output_ratio source a p" "output_ratio source a p \<le> 65535" "1 / output_ratio source a p \<le> 65535"
proof -
  define s where "s = real (max (fst source) 1) / real (max (snd source) 1)"
  define q where "q = clamp p 0 50 / 100"
  have q: "0 \<le> q" "q \<le> 1/2" using clamp_bounds [of 0 50 p] by (simp_all add: q_def)
  have s: "0 < s" "s \<le> 65535" "1 / s \<le> 65535"
    using assms by (auto simp: s_def divide_le_eq max_def)
  have "0 < output_ratio source a p \<and> output_ratio source a p \<le> 65535 \<and> 1 / output_ratio source a p \<le> 65535"
  proof (cases a)
    case AspectAuto
    show ?thesis
    proof (cases "1 \<le> s")
      case True
      then have o': "output_ratio source a p = s * (1 - q) + q"
        by (simp add: output_ratio_def AspectAuto s_def q_def Let_def)
      have "s * (1 - q) + q = s + (1 - s) * q" by (simp add: algebra_simps)
      then have "1 \<le> s * (1 - q) + q \<and> s * (1 - q) + q \<le> s"
        using blend_between [of q 1 s s 1] q True by simp
      with s show ?thesis by (simp add: o' divide_le_eq)
    next
      case False
      then have o': "output_ratio source a p = 1 / ((1 - q) / s + q)"
        by (simp add: output_ratio_def AspectAuto s_def q_def Let_def)
      have "1 \<le> 1 / s" using False s(1) by simp
      moreover have "(1 - q) / s + q = 1 / s + (1 - 1 / s) * q" using s(1) by (simp add: field_simps)
      ultimately have b: "1 \<le> (1 - q) / s + q" "(1 - q) / s + q \<le> 1 / s"
        using blend_between [of q 1 "1 / s" "1 / s" 1] q by simp_all
      define x where "x = (1 - q) / s + q"
      have "0 < 1 / x" "1 / x \<le> 65535" "1 / (1 / x) \<le> 65535"
        using order_trans [OF b(2) s(3)] b(1) by (simp_all add: x_def [symmetric] divide_le_eq)
      then show ?thesis by (simp add: o' x_def [symmetric])
    qed
  qed (simp_all add: output_ratio_def)
  then show "0 < output_ratio source a p" "output_ratio source a p \<le> 65535" "1 / output_ratio source a p \<le> 65535"
    by blast+
qed

text \<open>
  The output has even dimensions of at least two pixels, as the video encoder needs; its
  shorter side is the even number nearest to the one asked for, and its longer side is within
  one pixel of the ratio asked for.
\<close>

theorem output_dimensions_even:
  assumes "fst source \<le> 65535" "snd source \<le> 65535" "short \<le> 65535"
    and o': "output_dimensions short source a p = (w, h)"
  shows "even w \<and> even h \<and> 2 \<le> w \<and> 2 \<le> h \<and> min w h = even_dimension (real short) \<and>
    (let r = output_ratio source a p in
      if 1 \<le> r then h \<le> w \<and> \<bar>real w - real h * r\<bar> \<le> 1 else w \<le> h \<and> \<bar>real h - real w / r\<bar> \<le> 1)"
proof -
  define r where "r = output_ratio source a p"
  define k where "k = (if 1 \<le> r then r else 1 / r)"
  define e where "e = even_dimension (real short)"
  note rb = output_ratio_bounds [OF assms(1,2), of a p, folded r_def]
  have k: "1 \<le> k" "k \<le> 65535" using rb by (auto simp: k_def)
  have e: "even e" "2 \<le> e" using even_dimension_even [of "real short"] assms(3) by (simp_all add: e_def)
  have "e \<le> even_dimension (real 65536)"
    unfolding e_def using assms(3) by (intro even_dimension_mono) simp_all
  moreover have "even_dimension (real 65536) = 65536" by (rule even_dimension_id) simp_all
  ultimately have e65: "e \<le> 65536" by simp
  have ek: "real e \<le> real e * k" "real e * k \<le> 2 ^ 60"
  proof -
    show "real e \<le> real e * k" using k(1) mult_left_mono [of 1 k "real e"] by simp
    have "real e * k \<le> 65536 * 65535" using e65 k by (intro mult_mono) simp_all
    then show "real e * k \<le> 2 ^ 60" by simp
  qed
  define l where "l = even_dimension (real e * k)"
  have "even_dimension (real e) = e" using e e65 by (intro even_dimension_id) simp_all
  then have le: "e \<le> l" unfolding l_def using even_dimension_mono [of "real e" "real e * k"] ek by simp
  have lev: "even l" "2 \<le> l" using even_dimension_even [of "real e * k"] ek k by (simp_all add: l_def)
  have near: "\<bar>real l - real e * k\<bar> \<le> 1"
    unfolding l_def
  proof (rule even_dimension_near)
    show "1 \<le> real e * k" using ek(1) e(2) by linarith
  qed (rule ek(2))
  show ?thesis
  proof (cases "1 \<le> r")
    case True
    then have "w = l" "h = e" using o' by (auto simp: output_dimensions_def Let_def r_def [symmetric] e_def l_def k_def)
    with True e lev le near show ?thesis by (simp add: r_def [symmetric] e_def [symmetric] k_def)
  next
    case False
    then have "w = e" "h = l" using o' by (auto simp: output_dimensions_def Let_def r_def [symmetric] e_def l_def k_def)
    with False e lev le near show ?thesis by (simp add: r_def [symmetric] e_def [symmetric] k_def)
  qed
qed

theorem output_dimensions_even_witness:
  "\<exists>w h. output_dimensions 1080 (1920, 1200) Vertical 8 = (w, h) \<and> even w \<and> even h \<and> w \<le> h"
proof -
  obtain w h where o': "output_dimensions 1080 (1920, 1200) Vertical 8 = (w, h)" by fastforce
  from output_dimensions_even [OF _ _ _ o'] show ?thesis using o' by (simp add: output_ratio_def)
qed

subsection \<open>The camera overlay\<close>

record box_shadow =
  bs_offset :: "real \<times> real"
  bs_color :: "real \<times> real \<times> real \<times> real"
  bs_blur_radius :: real
  bs_spread_radius :: real

record item_transform =
  it_center :: "real \<times> real"
  it_size :: "real \<times> real"
  it_corner_radius :: real
  it_squircle :: bool
  it_box_shadow :: "box_shadow option"

definition clamped_corner_radius :: "item_transform \<Rightarrow> real \<times> real \<Rightarrow> real option" where
  "clamped_corner_radius t canvas_size =
     (let width = fst canvas_size * fst (it_size t); height = snd canvas_size * snd (it_size t)
      in clamp_panic (it_corner_radius t) 0 (min width height * (1/2)))"

definition map_output_transform_to_item :: "output_transform \<Rightarrow> item_transform \<Rightarrow> output_transform" where
  "map_output_transform_to_item out item =
     out\<lparr>ot_center := (fst (it_center item) + (fst (ot_center out) - 1/2) * fst (it_size item),
                       snd (it_center item) + (snd (ot_center out) - 1/2) * snd (it_size item))\<rparr>"

definition map_output_transform_to_crop :: "output_transform \<Rightarrow> fl screen_crop option \<Rightarrow> output_transform" where
  "map_output_transform_to_crop out c =
     (case normalize_screen_crop c of
        None \<Rightarrow> out
      | Some crop \<Rightarrow>
          out\<lparr>ot_center :=
            (clamp ((fst (ot_center out) - fst (crop_position crop)) / fst (crop_size crop)) 0 1,
             clamp ((snd (ot_center out) - snd (crop_position crop)) / snd (crop_size crop)) 0 1)\<rparr>)"

definition camera_size_px :: "real \<times> real \<Rightarrow> bool \<Rightarrow> real \<times> real \<Rightarrow> camera_layout \<Rightarrow> real \<Rightarrow> real \<times> real" where
  "camera_size_px source_dimensions camera_is_wide canvas_dimensions layout zoom_scale =
     (let zoom_progress = clamp (zoom_scale - 1) 0 1;
          reduction = clamp (cl_zoom_size_reduction layout) 0 50 / 100;
          maximum_size = clamp (cl_size layout) 0 50 / 100 * (1 - reduction * zoom_progress);
          source_aspect = fst source_dimensions / max (snd source_dimensions) f64_epsilon;
          fixed_extent = min (fst canvas_dimensions) (snd canvas_dimensions) * maximum_size
      in if camera_is_wide then (fixed_extent * source_aspect, fixed_extent)
         else (fixed_extent, fixed_extent / max source_aspect f64_epsilon))"

definition camera_center :: "camera_position \<Rightarrow> real \<Rightarrow> real \<Rightarrow> real \<Rightarrow> real \<Rightarrow> real \<times> real" where
  "camera_center pos l t r b =
     (case pos of
        TopLeft \<Rightarrow> (l, t) | TopCenter \<Rightarrow> (1/2, t) | TopRight \<Rightarrow> (r, t)
      | MiddleLeft \<Rightarrow> (l, 1/2) | Center \<Rightarrow> (1/2, 1/2) | MiddleRight \<Rightarrow> (r, 1/2)
      | BottomLeft \<Rightarrow> (l, b) | BottomCenter \<Rightarrow> (1/2, b) | BottomRight \<Rightarrow> (r, b))"

definition camera_transform ::
    "real \<times> real \<Rightarrow> bool \<Rightarrow> real \<times> real \<Rightarrow> camera_layout \<Rightarrow> real \<Rightarrow> item_transform" where
  "camera_transform source_dimensions camera_is_wide canvas layout zoom_scale =
     (let pixel_size = camera_size_px source_dimensions camera_is_wide canvas layout zoom_scale;
          sz = (fst pixel_size / fst canvas, snd pixel_size / snd canvas);
          edge_padding = clamp (cl_edge_padding layout) 0 50 / 100 * min (fst canvas) (snd canvas);
          edge_padding_x = edge_padding / fst canvas;
          edge_padding_y = edge_padding / snd canvas;
          left = edge_padding_x + fst sz * (1/2);
          right = 1 - edge_padding_x - fst sz * (1/2);
          top = edge_padding_y + snd sz * (1/2);
          bottom = 1 - edge_padding_y - snd sz * (1/2);
          shortest = min (fst sz * fst canvas) (snd sz * snd canvas);
          corner_radius = shortest * (if cl_crop layout = Circle then 1/2 else 32/180);
          strength = clamp (cl_shadow layout) 0 50 / 50
      in \<lparr>it_center = camera_center (cl_position layout) left top right bottom, it_size = sz,
          it_corner_radius = corner_radius, it_squircle = (cl_crop layout \<noteq> Circle),
          it_box_shadow = Some \<lparr>bs_offset = (0, shortest * (2/100) * strength),
            bs_color = (0, 0, 0, 9/10 * strength),
            bs_blur_radius = shortest * (2/100) * strength,
            bs_spread_radius = shortest * (- 1/1000) * strength\<rparr>\<rparr>)"

definition camera_crop_rect :: "nat \<times> nat \<Rightarrow> camera_crop \<Rightarrow> content_rect \<times> (real \<times> real)" where
  "camera_crop_rect source crop =
     (let (crop_w, crop_h) = (case crop of
            Squirectangle \<Rightarrow> source
          | _ \<Rightarrow> let side = min (fst source) (snd source) in (side, side));
          crop_width = real crop_w; crop_height = real crop_h
      in (\<lparr>cr_x = (real (fst source) - crop_width) / 2, cr_y = (real (snd source) - crop_height) / 2,
           cr_width = crop_width, cr_height = crop_height\<rparr>, (crop_width, crop_height)))"

definition input_is_camera :: "bundle_input \<Rightarrow> nat \<Rightarrow> bool" where
  "input_is_camera input index \<longleftrightarrow>
     in_kind input = VideoInput \<and>
       (eq_ignore_ascii_case (in_id input) ''camera''
        \<or> contains (map ascii_lower (in_name input)) ''camera''
        \<or> 0 < index \<and> \<not> eq_ignore_ascii_case (in_id input) ''screen'')"

lemma camera_size_bounds:
  assumes "0 < fst canvas" "0 < snd canvas" "f64_epsilon \<le> snd source" "f64_epsilon \<le> fst source / snd source"
  shows "0 \<le> fst (camera_size_px source wide canvas l z)" "0 \<le> snd (camera_size_px source wide canvas l z)"
    "fst (camera_size_px source wide canvas l z) * snd source = snd (camera_size_px source wide canvas l z) * fst source"
    "(if wide then snd (camera_size_px source wide canvas l z) else fst (camera_size_px source wide canvas l z))
       \<le> min (fst canvas) (snd canvas) / 2"
proof -
  define m where "m = clamp (cl_size l) 0 50 / 100 * (1 - clamp (cl_zoom_size_reduction l) 0 50 / 100 * clamp (z - 1) 0 1)"
  define a where "a = fst source / snd source"
  have eps: "0 < f64_epsilon" by (simp add: f64_epsilon_def)
  have sh: "0 < snd source" and a: "0 < a" using assms(3,4) eps by (simp_all add: a_def)
  have b: "0 \<le> clamp (cl_size l) 0 50" "clamp (cl_size l) 0 50 \<le> 50"
    "0 \<le> clamp (cl_zoom_size_reduction l) 0 50" "clamp (cl_zoom_size_reduction l) 0 50 \<le> 50"
    "0 \<le> clamp (z - 1) 0 1" "clamp (z - 1) 0 1 \<le> 1"
    by (simp_all add: clamp_def)
  have r: "clamp (cl_zoom_size_reduction l) 0 50 / 100 * clamp (z - 1) 0 1 \<le> 1/2 * 1"
    "0 \<le> clamp (cl_zoom_size_reduction l) 0 50 / 100 * clamp (z - 1) 0 1"
    using b by (intro mult_mono mult_nonneg_nonneg; simp)+
  define k where "k = 1 - clamp (cl_zoom_size_reduction l) 0 50 / 100 * clamp (z - 1) 0 1"
  have k: "0 \<le> k" "k \<le> 1" using r unfolding k_def by linarith+
  have mk: "m = clamp (cl_size l) 0 50 / 100 * k" by (simp add: m_def k_def)
  have m: "0 \<le> m" "m \<le> 1/2"
  proof -
    show "0 \<le> m" unfolding mk using b k by (intro mult_nonneg_nonneg) simp_all
    have "m \<le> 1/2 * 1" unfolding mk using b k by (intro mult_mono) simp_all
    then show "m \<le> 1/2" by simp
  qed
  have px: "camera_size_px source wide canvas l z =
      (if wide then (min (fst canvas) (snd canvas) * m * a, min (fst canvas) (snd canvas) * m)
       else (min (fst canvas) (snd canvas) * m, min (fst canvas) (snd canvas) * m / a))"
    using assms(3,4) by (simp add: camera_size_px_def Let_def m_def a_def max_def)
  have fe: "0 \<le> min (fst canvas) (snd canvas) * m" "min (fst canvas) (snd canvas) * m \<le> min (fst canvas) (snd canvas) / 2"
    using m assms(1,2) mult_left_mono [OF m(2), of "min (fst canvas) (snd canvas)"] by simp_all
  show "0 \<le> fst (camera_size_px source wide canvas l z)" "0 \<le> snd (camera_size_px source wide canvas l z)"
    using fe a by (simp_all add: px)
  show "fst (camera_size_px source wide canvas l z) * snd source = snd (camera_size_px source wide canvas l z) * fst source"
  proof -
    have "fst source = a * snd source" using sh by (simp add: a_def)
    then show ?thesis using a by (simp add: px)
  qed
  show "(if wide then snd (camera_size_px source wide canvas l z) else fst (camera_size_px source wide canvas l z))
       \<le> min (fst canvas) (snd canvas) / 2"
    unfolding px using fe by simp
qed

text \<open>
  The camera overlay keeps its source's aspect ratio in pixels, takes at most half of the
  canvas' shorter side, keeps exactly the configured distance in pixels to the edges its
  position names, equal on both axes, is centred on the axis it names none of, and its corner radius is one the
  compositor accepts unclamped.
\<close>

theorem camera_transform_correct:
  assumes canvas: "0 < fst canvas" "0 < snd canvas"
    and src: "f64_epsilon \<le> snd source" "f64_epsilon \<le> fst source / snd source"
    and it: "it = camera_transform source wide canvas l z"
  defines "pad \<equiv> clamp (cl_edge_padding l) 0 50 / 100 * min (fst canvas) (snd canvas)"
    and "w \<equiv> fst (it_size it) * fst canvas" and "h \<equiv> snd (it_size it) * snd canvas"
    and "x \<equiv> fst (it_center it) * fst canvas" and "y \<equiv> snd (it_center it) * snd canvas"
  shows "w * snd source = h * fst source \<and> (if wide then h else w) \<le> min (fst canvas) (snd canvas) / 2 \<and>
    (cl_position l \<in> {TopLeft, MiddleLeft, BottomLeft} \<longrightarrow> x - w / 2 = pad) \<and>
    (cl_position l \<in> {TopRight, MiddleRight, BottomRight} \<longrightarrow> x + w / 2 = fst canvas - pad) \<and>
    (cl_position l \<in> {TopCenter, Center, BottomCenter} \<longrightarrow> x = fst canvas / 2) \<and>
    (cl_position l \<in> {TopLeft, TopCenter, TopRight} \<longrightarrow> y - h / 2 = pad) \<and>
    (cl_position l \<in> {BottomLeft, BottomCenter, BottomRight} \<longrightarrow> y + h / 2 = snd canvas - pad) \<and>
    (cl_position l \<in> {MiddleLeft, Center, MiddleRight} \<longrightarrow> y = snd canvas / 2) \<and>
    clamped_corner_radius it canvas = Some (it_corner_radius it)"
proof -
  let ?px = "camera_size_px source wide canvas l z"
  note px = camera_size_bounds [OF canvas src, of wide l z]
  have w: "w = fst ?px" and h: "h = snd ?px"
    using canvas by (simp_all add: w_def h_def it camera_transform_def Let_def)
  have cx: "x = (case cl_position l of TopLeft \<Rightarrow> pad + w / 2 | MiddleLeft \<Rightarrow> pad + w / 2 | BottomLeft \<Rightarrow> pad + w / 2
      | TopRight \<Rightarrow> fst canvas - pad - w / 2 | MiddleRight \<Rightarrow> fst canvas - pad - w / 2
      | BottomRight \<Rightarrow> fst canvas - pad - w / 2 | _ \<Rightarrow> fst canvas / 2)"
    unfolding w using canvas
    by (cases "cl_position l")
      (simp_all add: x_def it camera_transform_def camera_center_def pad_def Let_def distrib_right left_diff_distrib)
  have cy: "y = (case cl_position l of TopLeft \<Rightarrow> pad + h / 2 | TopCenter \<Rightarrow> pad + h / 2 | TopRight \<Rightarrow> pad + h / 2
      | BottomLeft \<Rightarrow> snd canvas - pad - h / 2 | BottomCenter \<Rightarrow> snd canvas - pad - h / 2
      | BottomRight \<Rightarrow> snd canvas - pad - h / 2 | _ \<Rightarrow> snd canvas / 2)"
    unfolding h using canvas
    by (cases "cl_position l")
      (simp_all add: y_def it camera_transform_def camera_center_def pad_def Let_def distrib_right left_diff_distrib)
  have cr: "it_corner_radius it = min w h * (if cl_crop l = Circle then 1/2 else 32/180)"
    by (simp add: w_def h_def it camera_transform_def Let_def)
  have "0 \<le> min w h" using px by (simp add: w h)
  then have "0 \<le> it_corner_radius it \<and> it_corner_radius it \<le> min w h * (1/2)"
    unfolding cr by (intro conjI mult_nonneg_nonneg mult_left_mono) auto
  moreover have "fst canvas * fst (it_size it) = w" "snd canvas * snd (it_size it) = h"
    by (simp_all add: w_def h_def)
  ultimately have "clamped_corner_radius it canvas = Some (it_corner_radius it)"
    by (simp add: clamped_corner_radius_def clamp_panic_eq Let_def)
  with px show ?thesis
    unfolding cx cy by (auto simp: w h split: camera_position.splits)
qed

theorem camera_transform_correct_witness:
  "fst (it_size (camera_transform (640, 480) True (1920, 1080) default_camera_layout 1)) * 1920 * 480 =
   snd (it_size (camera_transform (640, 480) True (1920, 1080) default_camera_layout 1)) * 1080 * 640"
  using camera_transform_correct [of "(1920, 1080)" "(640, 480)" _ True default_camera_layout 1, OF _ _ _ _ refl]
  by (simp add: f64_epsilon_def)

definition timeline_timecode :: "real \<Rightarrow> nat \<Rightarrow> string" where
  "timeline_timecode time_secs rate =
     (let fps = max rate 1;
          total_frames = as_unsigned u64_max (of_int \<lfloor>max time_secs 0 * real fps\<rfloor>);
          total_seconds = total_frames div fps
      in pad_zero 2 (show_nat (total_seconds div 60)) @ '':'' @
         pad_zero 2 (show_nat (total_seconds mod 60)) @ '':'' @
         pad_zero 2 (show_nat (total_frames mod fps)))"

definition duration_label :: "real \<Rightarrow> string" where
  "duration_label duration_secs =
     (let tenths = nat (round_away (max duration_secs 0 * 10))
      in if tenths = 0 then ''0s'' else show_tenths tenths @ ''s'')"

end
