(* ===== verification/Editor_State.thy ===== *)
theory Editor_State
  imports Timeline_View Crop_Geometry
begin

section \<open>The bundle editor's state and operations (apps/blip-capture/src/editor.rs, BundleEditor)\<close>

text \<open>
  The editor's window as a state record and its methods as functions on it. What a method sends
  to the outside is appended to the list of effects: saving the project settings, and the requests
  to the preview and zoom-target workers. Frames are opaque handles; redraw notifications
  (\<open>cx.notify()\<close>) and window focus are left out. A pointer event is a position in pixels with the flag
  \<open>event.dragging()\<close>; the time \<open>now\<close> of \<open>Instant::now()\<close> is an argument. A method that spawns an
  animation is split into the method and the ticks the animation later runs.
\<close>

type_synonym frame = nat
type_synonym point = "real \<times> real"

datatype slider_kind = SPadding | SRadius | SShadow | SCameraSize | SCameraPadding
  | SCameraZoomReduction | SCameraShadow | SZoomAmount | STimelineZoom

datatype zoom_segment_drag_kind = DragMove | DragResize segment_edge

record zoom_segment_drag =
  zd_id :: nat
  zd_kind :: zoom_segment_drag_kind
  zd_pointer_start_x :: real
  zd_original_start_secs :: real
  zd_original_end_secs :: real
  zd_draft_start_secs :: real
  zd_draft_end_secs :: real
  zd_minimum_start_secs :: real
  zd_maximum_end_secs :: real

record video_segment_drag =
  vd_id :: nat
  vd_edge :: segment_edge
  vd_pointer_start_x :: real
  vd_timeline_start_secs :: real
  vd_timeline_view_duration_secs :: real
  vd_original_source_start_secs :: real
  vd_original_source_end_secs :: real
  vd_draft_source_start_secs :: real
  vd_draft_source_end_secs :: real
  vd_minimum_source_start_secs :: real
  vd_maximum_source_end_secs :: real
  vd_original_zoom_segments :: "zoom_segment list"

record resize_animation =
  ra_from_ranges :: "(nat \<times> real \<times> real) list"
  ra_from_zoom_ranges :: "(nat \<times> real \<times> real) list"
  ra_ghost_range :: "(nat \<times> segment_edge \<times> real \<times> real) option"
  ra_playback_range :: "(real \<times> real) option"
  ra_view_start_secs :: real
  ra_view_duration_secs :: real
  ra_target_view_start_secs :: real
  ra_target_view_duration_secs :: real
  ra_generation :: nat

record preview_request =
  pr_playback_generation :: nat
  pr_timeline_time_secs :: real
  pr_time_secs :: real
  pr_background_type :: background_type
  pr_background_preset :: nat
  pr_padding :: real
  pr_aspect_ratio :: output_aspect_ratio
  pr_border_radius :: real
  pr_shadow :: real
  pr_zoom :: output_transform
  pr_camera_layout :: camera_layout
  pr_screen_crop :: "real screen_crop option"

record preview_result =
  pv_playback_generation :: nat
  pv_timeline_time_secs :: real
  pv_frame :: frame
  pv_screen :: frame

datatype editor_effect =
  SaveProjectConfig project_config
| SendPreview preview_request
| SendZoomTarget real

record editor =
  ed_bundle :: blip_bundle
  ed_selected_input :: nat
  ed_selected_zoom :: "nat option"
  ed_selected_video_segment :: "nat option"
  ed_cut_mode :: bool
  ed_duration_secs :: real
  ed_source_start_secs :: real
  ed_source_end_secs :: real
  ed_timeline_fps :: nat
  ed_timeline_view_start_secs :: real
  ed_timeline_view_duration_secs :: real
  ed_current_time_secs :: real
  ed_is_playing :: bool
  ed_playback_started_at :: "(real \<times> real) option"
  ed_playback_generation :: nat
  ed_cursor_time_secs :: "real option"
  ed_zoom_hover_range :: "(real \<times> real) option"
  ed_current_frame :: "frame option"
  ed_last_playback_preview_time_secs :: "real option"
  ed_current_screen_frame :: "frame option"
  ed_timeline_bounds :: bounds
  ed_timeline_rows_bounds :: bounds
  ed_zoom_target_bounds :: bounds
  ed_background_preset :: nat
  ed_slider_bounds :: "slider_kind \<Rightarrow> bounds"
  ed_active_slider :: "slider_kind option"
  ed_dragging_zoom_target :: bool
  ed_zoom_segment_drag :: "zoom_segment_drag option"
  ed_video_segment_drag :: "video_segment_drag option"
  ed_resize_animation :: "resize_animation option"
  ed_resize_generation :: nat
  ed_settings_dialog_open :: bool
  ed_aspect_ratio_dropdown_open :: bool
  ed_aspect_ratio_dropdown_visible :: bool
  ed_aspect_ratio_dropdown_transition :: nat
  ed_crop_dialog_open :: bool
  ed_crop_draft :: "real screen_crop"
  ed_crop_drag :: "crop_drag option"
  ed_crop_preview_bounds :: bounds
  ed_crop_frame :: "frame option"
  ed_export_dialog_open :: bool
  ed_audio_sources :: "audio_source list"
  ed_audio_playback :: "(audio_mixer \<times> real) option"
  ed_effects :: "editor_effect list"

subsection \<open>Access\<close>

abbreviation ed_segments :: "editor \<Rightarrow> video_segment list option" where
  "ed_segments e \<equiv> bb_video_segments (ed_bundle e)"

abbreviation ed_zooms :: "editor \<Rightarrow> zoom_segment list" where
  "ed_zooms e \<equiv> bb_zoom_segments (ed_bundle e)"

definition set_segments :: "video_segment list \<Rightarrow> editor \<Rightarrow> editor" where
  "set_segments ss e = e\<lparr>ed_bundle := (ed_bundle e)\<lparr>bb_video_segments := Some ss\<rparr>\<rparr>"

definition set_zooms :: "zoom_segment list \<Rightarrow> editor \<Rightarrow> editor" where
  "set_zooms zs e = e\<lparr>ed_bundle := (ed_bundle e)\<lparr>bb_zoom_segments := zs\<rparr>\<rparr>"

definition emit :: "editor_effect \<Rightarrow> editor \<Rightarrow> editor" where
  "emit f e = e\<lparr>ed_effects := ed_effects e @ [f]\<rparr>"

definition selected_zoom :: "editor \<Rightarrow> zoom_segment option" where
  "selected_zoom e = Option.bind (ed_selected_zoom e) (\<lambda>i. find (\<lambda>s. zs_id s = i) (ed_zooms e))"

text \<open>Updating the first zoom with an identifier, as \<open>iter_mut().find(..)\<close> does.\<close>

fun update_zoom :: "nat \<Rightarrow> (zoom_segment \<Rightarrow> zoom_segment) \<Rightarrow> zoom_segment list \<Rightarrow> zoom_segment list" where
  "update_zoom i f [] = []"
| "update_zoom i f (z # zs) = (if zs_id z = i then f z # zs else z # update_zoom i f zs)"

fun update_segment :: "nat \<Rightarrow> (video_segment \<Rightarrow> video_segment) \<Rightarrow> video_segment list \<Rightarrow> video_segment list" where
  "update_segment i f [] = []"
| "update_segment i f (s # ss) = (if vs_id s = i then f s # ss else s # update_segment i f ss)"

definition selected_video_segment :: "editor \<Rightarrow> video_segment option" where
  "selected_video_segment e = Option.bind (ed_selected_video_segment e) (\<lambda>i.
     Option.bind (ed_segments e) (\<lambda>ss. find (\<lambda>s. vs_id s = i) ss))"

definition select_video_segment :: "nat \<Rightarrow> editor \<Rightarrow> editor" where
  "select_video_segment i e =
     (case ed_segments e of
        None \<Rightarrow> e
      | Some ss \<Rightarrow> if list_ex (\<lambda>s. vs_id s = i) ss
                   then e\<lparr>ed_selected_video_segment := Some i, ed_selected_zoom := None\<rparr> else e)"

subsection \<open>Where the pointer is\<close>

definition timeline_time_at :: "editor \<Rightarrow> real \<Rightarrow> real option" where
  "timeline_time_at e x =
     (let bounds = ed_timeline_bounds e
      in if b_w bounds \<le> 0 then None
         else let fraction = clamp ((x - b_x bounds) / b_w bounds) 0 1
              in Some (ed_timeline_view_start_secs e + fraction * ed_timeline_view_duration_secs e))"

subsection \<open>Saving and requests\<close>

definition save_bundle :: "editor \<Rightarrow> editor" where
  "save_bundle e = emit (SaveProjectConfig (config_of_bundle (ed_bundle e))) e"

definition request_preview :: "editor \<Rightarrow> editor" where
  "request_preview e =
     (let time_secs = unwrap_or (ed_cursor_time_secs e) (ed_current_time_secs e); b = ed_bundle e
      in case source_time_at b time_secs of
           None \<Rightarrow> e
         | Some source_time_secs \<Rightarrow>
             emit (SendPreview \<lparr>pr_playback_generation = ed_playback_generation e,
               pr_timeline_time_secs = time_secs, pr_time_secs = source_time_secs,
               pr_background_type = pa_background_type (bb_appearance b),
               pr_background_preset = ed_background_preset e,
               pr_padding = pa_padding (bb_appearance b),
               pr_aspect_ratio = bb_output_aspect_ratio b,
               pr_border_radius = pa_border_radius (bb_appearance b),
               pr_shadow = pa_shadow (bb_appearance b),
               pr_zoom = zoom_transform_at (bb_zoom_segments b) time_secs,
               pr_camera_layout = bb_camera_layout b,
               pr_screen_crop = bb_screen_crop b\<rparr>) e)"

definition request_zoom_target :: "editor \<Rightarrow> editor" where
  "request_zoom_target e =
     (case selected_zoom e of
        None \<Rightarrow> e
      | Some segment \<Rightarrow>
          emit (SendZoomTarget (unwrap_or (source_time_at (ed_bundle e) (zs_start_secs segment))
                  (zs_start_secs segment))) e)"

subsection \<open>Playback\<close>

definition stop_playback :: "editor \<Rightarrow> editor" where
  "stop_playback e = e\<lparr>ed_is_playing := False, ed_playback_started_at := None,
     ed_playback_generation := (ed_playback_generation e + 1) mod (u64_max + 1),
     ed_last_playback_preview_time_secs := None, ed_audio_playback := None\<rparr>"

definition set_playback_time :: "real \<Rightarrow> editor \<Rightarrow> editor" where
  "set_playback_time time_secs e =
     (let e1 = stop_playback e
      in request_preview (e1\<lparr>ed_current_time_secs := clamp time_secs 0 (ed_duration_secs e1)\<rparr>))"

text \<open>\<open>start_audio\<close> says whether the audio device could be opened.\<close>

definition toggle_playback :: "(audio_mixer \<Rightarrow> real \<Rightarrow> bool) \<Rightarrow> real \<Rightarrow> editor \<Rightarrow> editor" where
  "toggle_playback start_audio now e =
     (if ed_is_playing e then stop_playback e
      else if ed_duration_secs e \<le> 0 then e
      else
        let t = (case ed_cursor_time_secs e of
                   Some cursor_time_secs \<Rightarrow> clamp cursor_time_secs 0 (ed_duration_secs e)
                 | None \<Rightarrow> if ed_duration_secs e \<le> ed_current_time_secs e then 0
                           else ed_current_time_secs e);
            e1 = e\<lparr>ed_current_time_secs := t, ed_cursor_time_secs := None, ed_zoom_hover_range := None,
                   ed_is_playing := True,
                   ed_playback_generation := (ed_playback_generation e + 1) mod (u64_max + 1),
                   ed_last_playback_preview_time_secs := None,
                   ed_playback_started_at := Some (now, t)\<rparr>;
            mixer = audio_mixer_of (ed_audio_sources e1) (ed_bundle e1);
            e2 = (if has_sources mixer \<and> start_audio mixer (ed_current_time_secs e1)
                  then e1\<lparr>ed_audio_playback := Some (mixer, ed_current_time_secs e1)\<rparr> else e1)
        in request_preview e2)"

text \<open>One frame of the playback with the given generation; the flag says that another is scheduled.\<close>

definition playback_frame :: "nat \<Rightarrow> real \<Rightarrow> editor \<Rightarrow> editor \<times> bool" where
  "playback_frame generation now e =
     (if \<not> ed_is_playing e \<or> ed_playback_generation e \<noteq> generation then (e, False)
      else case ed_playback_started_at e of
        None \<Rightarrow> (e, False)
      | Some (started_at, start_time_secs) \<Rightarrow>
          (let (time_secs, finished) =
                 playback_position start_time_secs (now - started_at) (ed_duration_secs e);
               e1 = request_preview (e\<lparr>ed_current_time_secs := time_secs\<rparr>)
           in if finished then (stop_playback e1, False) else (e1, True)))"

text \<open>The loops that receive the workers' results.\<close>

definition receive_preview :: "preview_result \<Rightarrow> editor \<Rightarrow> editor" where
  "receive_preview r e =
     (if pv_playback_generation r \<noteq> ed_playback_generation e
         \<or> ed_is_playing e \<and> (case ed_last_playback_preview_time_secs e of
              None \<Rightarrow> False | Some time_secs \<Rightarrow> pv_timeline_time_secs r < time_secs)
      then e
      else let e1 = (if ed_is_playing e
                     then e\<lparr>ed_last_playback_preview_time_secs := Some (pv_timeline_time_secs r)\<rparr> else e)
           in e1\<lparr>ed_current_frame := Some (pv_frame r), ed_crop_frame := Some (pv_screen r)\<rparr>)"

definition receive_zoom_target :: "real \<Rightarrow> frame \<Rightarrow> editor \<Rightarrow> editor" where
  "receive_zoom_target time_secs fr e =
     (case selected_zoom e of
        None \<Rightarrow> e
      | Some segment \<Rightarrow>
          if source_time_at (ed_bundle e) (zs_start_secs segment) = Some time_secs
          then e\<lparr>ed_current_screen_frame := Some fr\<rparr> else e)"

end
