(* ===== verification/Editor_Segments.thy ===== *)
theory Editor_Segments
  imports Editor_State
begin

section \<open>The editor's handlers for video segments (apps/blip-capture/src/editor.rs)\<close>

text \<open>
  Splitting, dragging an edge, deleting, filling or merging a cut, restoring the recording's ends,
  and the animation of the timeline these start. Every handler keeps the order in which the code changes the state and sends
  its requests.
\<close>

definition toggle_cut_mode :: "editor \<Rightarrow> editor" where
  "toggle_cut_mode e = e\<lparr>ed_cut_mode := \<not> ed_cut_mode e\<rparr>"

definition split_video_segment :: "nat \<Rightarrow> real \<Rightarrow> editor \<Rightarrow> editor" where
  "split_video_segment i timeline_time_secs e =
     (case ed_segments e of
        None \<Rightarrow> e
      | Some segments \<Rightarrow>
          (case split_segments segments i timeline_time_secs of
             None \<Rightarrow> e
           | Some (segments', new_id) \<Rightarrow>
               (let e1 = set_segments segments' e;
                    e2 = e1\<lparr>ed_selected_video_segment := Some new_id, ed_selected_zoom := None,
                            ed_current_time_secs := timeline_time_secs\<rparr>
                in request_preview (save_bundle e2))))"

definition activate_video_segment :: "nat \<Rightarrow> real \<Rightarrow> editor \<Rightarrow> editor" where
  "activate_video_segment i timeline_time_secs e =
     (if ed_cut_mode e then split_video_segment i timeline_time_secs e
      else set_playback_time timeline_time_secs (select_video_segment i e))"

subsection \<open>Dragging a segment's edge\<close>

definition begin_video_segment_drag :: "nat \<Rightarrow> segment_edge \<Rightarrow> point \<Rightarrow> editor \<Rightarrow> editor" where
  "begin_video_segment_drag i edge pointer e =
     (case ed_segments e of
        None \<Rightarrow> e
      | Some segments \<Rightarrow>
          (case position (\<lambda>s. vs_id s = i) segments of
             None \<Rightarrow> e
           | Some index \<Rightarrow>
               (let segment = segments ! index;
                    drag = \<lparr>vd_id = i, vd_edge = edge, vd_pointer_start_x = fst pointer,
                      vd_timeline_start_secs = segs_duration (take index segments),
                      vd_timeline_view_duration_secs = ed_timeline_view_duration_secs e,
                      vd_original_source_start_secs = vs_source_start_secs segment,
                      vd_original_source_end_secs = vs_source_end_secs segment,
                      vd_draft_source_start_secs = vs_source_start_secs segment,
                      vd_draft_source_end_secs = vs_source_end_secs segment,
                      vd_minimum_source_start_secs = unwrap_or (map_option vs_source_end_secs
                        (Option.bind (checked_sub index 1) (list_get segments))) (ed_source_start_secs e),
                      vd_maximum_source_end_secs = unwrap_or (map_option vs_source_start_secs
                        (list_get segments (index + 1))) (ed_source_end_secs e),
                      vd_original_zoom_segments = ed_zooms e\<rparr>
                in e\<lparr>ed_video_segment_drag := Some drag,
                     ed_resize_generation := (ed_resize_generation e + 1) mod (u64_max + 1),
                     ed_resize_animation := None,
                     ed_selected_video_segment := Some i, ed_selected_zoom := None,
                     ed_cursor_time_secs := None\<rparr>)))"

definition drag_video_segment :: "point \<Rightarrow> bool \<Rightarrow> editor \<Rightarrow> editor \<times> bool" where
  "drag_video_segment pointer dragging e =
     (case ed_video_segment_drag e of
        None \<Rightarrow> (e, False)
      | Some drag \<Rightarrow>
          (if \<not> dragging then (e, True)
           else if b_w (ed_timeline_bounds e) \<le> 0 then (e, True)
           else
             let delta_fraction = (fst pointer - vd_pointer_start_x drag) / b_w (ed_timeline_bounds e);
                 delta_secs = delta_fraction * vd_timeline_view_duration_secs drag;
                 (source_start_secs, source_end_secs) = resize_video_segment_range (vd_edge drag)
                   (vd_original_source_start_secs drag) (vd_original_source_end_secs drag)
                   (vd_minimum_source_start_secs drag) (vd_maximum_source_end_secs drag) delta_secs;
                 e1 = e\<lparr>ed_video_segment_drag := Some (drag\<lparr>vd_draft_source_start_secs := source_start_secs,
                   vd_draft_source_end_secs := source_end_secs\<rparr>)\<rparr>
             in ((case timeline_time_at e1 (fst pointer) of
                    None \<Rightarrow> e1
                  | Some time_secs \<Rightarrow> set_playback_time time_secs e1), True)))"

text \<open>The loops that collect the ranges an animation starts from.\<close>

fun drag_from_ranges :: "video_segment_resize_mode \<Rightarrow> nat \<Rightarrow> segment_edge \<Rightarrow> real \<Rightarrow> real \<Rightarrow>
    video_segment list \<Rightarrow> (nat \<times> real \<times> real) list" where
  "drag_from_ranges mode drag_id drag_edge new_duration timeline_start [] = []"
| "drag_from_ranges mode drag_id drag_edge new_duration timeline_start (segment # rest) =
     (let duration = vs_duration_secs segment;
          edge = (if vs_id segment = drag_id then Some drag_edge else None);
          (display_start, display_end, next_timeline_start) =
            video_segment_drag_layout mode edge timeline_start duration new_duration
      in (vs_id segment, display_start, display_end)
         # drag_from_ranges mode drag_id drag_edge new_duration next_timeline_start rest)"

fun segment_ranges :: "real \<Rightarrow> video_segment list \<Rightarrow> (nat \<times> real \<times> real) list" where
  "segment_ranges timeline_start_secs [] = []"
| "segment_ranges timeline_start_secs (segment # rest) =
     (vs_id segment, timeline_start_secs, timeline_start_secs + vs_duration_secs segment)
     # segment_ranges (timeline_start_secs + vs_duration_secs segment) rest"

definition zoom_ranges :: "zoom_segment list \<Rightarrow> (nat \<times> real \<times> real) list" where
  "zoom_ranges zs = map (\<lambda>z. (zs_id z, zs_start_secs z, zs_end_secs z)) zs"

text \<open>Starting the animation: with reduced motion the view jumps to its target.\<close>

definition animate_video_timeline_resize ::
    "bool \<Rightarrow> (nat \<times> real \<times> real) list \<Rightarrow> (nat \<times> real \<times> real) list \<Rightarrow>
     (nat \<times> segment_edge \<times> real \<times> real) option \<Rightarrow> (real \<times> real) option \<Rightarrow>
     real \<Rightarrow> real \<Rightarrow> real \<Rightarrow> real \<Rightarrow> editor \<Rightarrow> editor" where
  "animate_video_timeline_resize reduce_motion from_ranges from_zoom_ranges ghost_range playback_range
       view_start_secs view_duration_secs target_view_start_secs target_view_duration_secs e =
     (let generation = (ed_resize_generation e + 1) mod (u64_max + 1);
          e1 = e\<lparr>ed_resize_generation := generation,
                 ed_resize_animation := Some \<lparr>ra_from_ranges = from_ranges,
                   ra_from_zoom_ranges = from_zoom_ranges, ra_ghost_range = ghost_range,
                   ra_playback_range = playback_range, ra_view_start_secs = view_start_secs,
                   ra_view_duration_secs = view_duration_secs,
                   ra_target_view_start_secs = target_view_start_secs,
                   ra_target_view_duration_secs = target_view_duration_secs,
                   ra_generation = generation\<rparr>\<rparr>
      in if reduce_motion
         then e1\<lparr>ed_timeline_view_start_secs := target_view_start_secs,
                 ed_timeline_view_duration_secs := target_view_duration_secs,
                 ed_resize_animation := None\<rparr>
         else e1)"

definition TIMELINE_RESIZE_DURATION_SECS :: real where
  "TIMELINE_RESIZE_DURATION_SECS = 180 / 1000"

text \<open>A tick of the animation \<open>elapsed\<close> seconds after it started; the flag says whether it goes on.\<close>

definition resize_animation_tick :: "resize_animation \<Rightarrow> real \<Rightarrow> editor \<Rightarrow> editor \<times> bool" where
  "resize_animation_tick a elapsed e =
     (let progress = clamp (elapsed / TIMELINE_RESIZE_DURATION_SECS) 0 1;
          eased = 1 - (1 - progress) ^ 5
      in if ed_resize_generation e \<noteq> ra_generation a then (e, False)
         else (let e1 = e\<lparr>ed_timeline_view_start_secs := ra_view_start_secs a
                         + (ra_target_view_start_secs a - ra_view_start_secs a) * eased,
                       ed_timeline_view_duration_secs := ra_view_duration_secs a
                         + (ra_target_view_duration_secs a - ra_view_duration_secs a) * eased\<rparr>
               in (if 1 \<le> progress then e1\<lparr>ed_resize_animation := None\<rparr> else e1, progress < 1)))"

definition finish_video_segment_drag :: "bool \<Rightarrow> editor \<Rightarrow> editor" where
  "finish_video_segment_drag reduce_motion e =
     (case ed_video_segment_drag e of
        None \<Rightarrow> e
      | Some drag \<Rightarrow>
          (let e0 = e\<lparr>ed_video_segment_drag := None\<rparr>;
               original_duration = vd_original_source_end_secs drag - vd_original_source_start_secs drag;
               new_duration = vd_draft_source_end_secs drag - vd_draft_source_start_secs drag;
               mode = bb_video_segment_resize_mode (ed_bundle e0);
               from_ranges = drag_from_ranges mode (vd_id drag) (vd_edge drag) new_duration 0
                 (unwrap_or (ed_segments e0) []);
               animation_view_start_secs = ed_timeline_view_start_secs e0;
               animation_view_duration_secs = ed_timeline_view_duration_secs e0;
               from_zoom_ranges = zoom_ranges (vd_original_zoom_segments drag);
               ghost_range = (vd_id drag, vd_edge drag, vd_timeline_start_secs drag,
                 vd_timeline_start_secs drag + original_duration)
           in case Option.bind (ed_segments e0) (\<lambda>ss.
                     if list_ex (\<lambda>s. vs_id s = vd_id drag) ss then Some ss else None) of
                None \<Rightarrow> e0
              | Some segments \<Rightarrow>
                  (let e1 = set_segments (update_segment (vd_id drag) (\<lambda>s. s\<lparr>
                         vs_source_start_secs := vd_draft_source_start_secs drag,
                         vs_source_end_secs := vd_draft_source_end_secs drag\<rparr>) segments) e0;
                       zooms = vd_original_zoom_segments drag;
                       e2 = set_zooms (if new_duration < original_duration
                         then ripple_delete_ranges zooms
                           (case vd_edge drag of
                              EdgeStart \<Rightarrow> vd_timeline_start_secs drag
                            | EdgeEnd \<Rightarrow> vd_timeline_start_secs drag + new_duration)
                           (original_duration - new_duration)
                         else ripple_insert_ranges zooms
                           (case vd_edge drag of
                              EdgeStart \<Rightarrow> vd_timeline_start_secs drag
                            | EdgeEnd \<Rightarrow> vd_timeline_start_secs drag + original_duration)
                           (new_duration - original_duration)) e1;
                       e3 = e2\<lparr>ed_duration_secs := video_timeline_duration (ed_bundle e2)\<rparr>;
                       e4 = e3\<lparr>ed_current_time_secs := min (ed_current_time_secs e3) (ed_duration_secs e3)\<rparr>;
                       extent = timeline_extent_secs (ed_duration_secs e4);
                       target_view_duration_secs =
                         max (min (ed_timeline_view_duration_secs e4) extent) 0;
                       target_view_start_secs = clamp_timeline_view_start
                         (ed_timeline_view_start_secs e4) target_view_duration_secs extent
                   in animate_video_timeline_resize reduce_motion from_ranges from_zoom_ranges
                        (if mode = Ghost then Some ghost_range else None) None
                        animation_view_start_secs animation_view_duration_secs
                        target_view_start_secs target_view_duration_secs
                        (save_bundle (request_zoom_target (request_preview e4))))))"

subsection \<open>Deleting\<close>

definition can_delete_video_segment :: "editor \<Rightarrow> bool" where
  "can_delete_video_segment e =
     (case ed_segments e of None \<Rightarrow> False | Some segments \<Rightarrow> 1 < length segments)"

definition delete_selected_video_segment :: "editor \<Rightarrow> editor" where
  "delete_selected_video_segment e =
     (if \<not> can_delete_video_segment e then e
      else case ed_selected_video_segment e of None \<Rightarrow> e
      | Some i \<Rightarrow> (case ed_segments e of None \<Rightarrow> e
      | Some segments \<Rightarrow> (case position (\<lambda>s. vs_id s = i) segments of None \<Rightarrow> e
      | Some index \<Rightarrow>
          (let timeline_start = segs_duration (take index segments);
               removed_duration = vs_duration_secs (segments ! index);
               segments' = remove_at index segments;
               e1 = (set_segments segments' e)\<lparr>ed_selected_video_segment := map_option vs_id
                 (case list_get segments' index of
                    Some s \<Rightarrow> Some s
                  | None \<Rightarrow> Option.bind (checked_sub index 1) (list_get segments'))\<rparr>;
               e2 = set_zooms (ripple_delete_ranges (ed_zooms e1) timeline_start removed_duration) e1;
               e3 = e2\<lparr>ed_duration_secs := video_timeline_duration (ed_bundle e2)\<rparr>;
               extent = timeline_extent_secs (ed_duration_secs e3);
               e4 = e3\<lparr>ed_timeline_view_duration_secs :=
                 max (min (ed_timeline_view_duration_secs e3) extent) 0\<rparr>;
               e5 = e4\<lparr>ed_timeline_view_start_secs := clamp_timeline_view_start
                 (ed_timeline_view_start_secs e4) (ed_timeline_view_duration_secs e4) extent,
                 ed_current_time_secs := min timeline_start (ed_duration_secs e4),
                 ed_cursor_time_secs := None\<rparr>;
               e6 = (if ed_duration_secs e5 = 0 then e5\<lparr>ed_current_frame := None\<rparr> else e5)
           in request_preview (save_bundle e6)))))"

definition delete_selected :: "editor \<Rightarrow> editor" where
  "delete_selected e =
     (case ed_selected_zoom e of
        None \<Rightarrow> delete_selected_video_segment e
      | Some i \<Rightarrow>
          (let zooms = filter (\<lambda>z. zs_id z \<noteq> i) (ed_zooms e);
               e1 = set_zooms zooms e
           in if length zooms = length (ed_zooms e) then e1
              else request_preview (save_bundle (e1\<lparr>ed_selected_zoom := None, ed_zoom_segment_drag := None,
                     ed_dragging_zoom_target := False, ed_current_screen_frame := None\<rparr>))))"

subsection \<open>Filling and merging cuts\<close>

text \<open>The edit itself, before the view is adjusted.\<close>

definition apply_video_cut :: "video_segment list \<Rightarrow> video_cut_edit \<Rightarrow> editor \<Rightarrow> editor" where
  "apply_video_cut segments' edit e =
     (let e1 = set_segments segments' e;
          e2 = (if 0 < vce_inserted_duration_secs edit
                then let z = set_zooms (ripple_insert_ranges (ed_zooms e1)
                           (vce_timeline_start_secs edit) (vce_inserted_duration_secs edit)) e1
                     in if vce_timeline_start_secs edit \<le> ed_current_time_secs z
                        then z\<lparr>ed_current_time_secs := ed_current_time_secs z
                          + vce_inserted_duration_secs edit\<rparr> else z
                else e1);
          e3 = (if ed_selected_video_segment e2 = vce_removed_id edit
                then e2\<lparr>ed_selected_video_segment := Some (vce_left_id edit)\<rparr> else e2)
      in e3\<lparr>ed_duration_secs := video_timeline_duration (ed_bundle e3)\<rparr>)"

definition activate_video_cut :: "bool \<Rightarrow> nat \<Rightarrow> editor \<Rightarrow> editor" where
  "activate_video_cut reduce_motion right_id e =
     (let old_extent = timeline_extent_secs (ed_duration_secs e);
          from_ranges = segment_ranges 0 (unwrap_or (ed_segments e) []);
          from_zoom_ranges = zoom_ranges (ed_zooms e);
          view_start = ed_timeline_view_start_secs e;
          view_duration = ed_timeline_view_duration_secs e;
          from_playback_fraction = timeline_time_fraction (ed_current_time_secs e) view_start view_duration
      in case Option.bind (ed_segments e) (\<lambda>segments. edit_video_cut segments right_id) of
           None \<Rightarrow> e
         | Some (segments', edit) \<Rightarrow>
             (let should_animate = 0 < vce_inserted_duration_secs edit;
                  e4 = apply_video_cut segments' edit e;
                  extent = timeline_extent_secs (ed_duration_secs e4);
                  (target_start, target_duration) =
                    (if ed_timeline_view_start_secs e4 \<le> f64_epsilon
                        \<and> old_extent - f64_epsilon \<le> ed_timeline_view_duration_secs e4
                        \<or> extent < ed_timeline_view_duration_secs e4
                     then (0, extent)
                     else (clamp_timeline_view_start (ed_timeline_view_start_secs e4)
                             (ed_timeline_view_duration_secs e4) extent,
                           ed_timeline_view_duration_secs e4));
                  e5 = request_zoom_target (request_preview (save_bundle
                         (e4\<lparr>ed_cursor_time_secs := None\<rparr>)))
              in if should_animate
                 then let playback_range = Option.bind from_playback_fraction (\<lambda>f. map_option (Pair f)
                            (timeline_time_fraction (ed_current_time_secs e5) target_start target_duration))
                      in animate_video_timeline_resize reduce_motion from_ranges from_zoom_ranges None
                           playback_range view_start view_duration target_start target_duration e5
                 else e5\<lparr>ed_resize_generation := (ed_resize_generation e5 + 1) mod (u64_max + 1),
                         ed_resize_animation := None,
                         ed_timeline_view_start_secs := target_start,
                         ed_timeline_view_duration_secs := target_duration\<rparr>))"

text \<open>The edit of \<open>activate_video_segment_edge\<close>: the segments, where content comes in and how much.\<close>

definition restore_segment_edge :: "real \<Rightarrow> real \<Rightarrow> video_segment list \<Rightarrow> nat \<Rightarrow> segment_edge \<Rightarrow>
    (video_segment list \<times> real \<times> real) option" where
  "restore_segment_edge source_start source_end segments i edge =
     (case position (\<lambda>s. vs_id s = i) segments of
        None \<Rightarrow> None
      | Some index \<Rightarrow>
          (let timeline_start_secs = segs_duration (take index segments); segment = segments ! index
           in case edge of
                EdgeStart \<Rightarrow>
                  (let inserted = max (vs_source_start_secs segment - source_start) 0
                   in if inserted \<le> f64_epsilon then None
                      else Some (segments[index := segment\<lparr>vs_source_start_secs := source_start\<rparr>],
                                 timeline_start_secs, inserted))
              | EdgeEnd \<Rightarrow>
                  (let inserted_at = timeline_start_secs + vs_duration_secs segment;
                       inserted = max (source_end - vs_source_end_secs segment) 0
                   in if inserted \<le> f64_epsilon then None
                      else Some (segments[index := segment\<lparr>vs_source_end_secs := source_end\<rparr>],
                                 inserted_at, inserted))))"

definition apply_restored_edge :: "video_segment list \<Rightarrow> real \<Rightarrow> real \<Rightarrow> editor \<Rightarrow> editor" where
  "apply_restored_edge segments' inserted_at inserted e =
     (let e1 = set_zooms (ripple_insert_ranges (ed_zooms e) inserted_at inserted)
            (set_segments segments' e);
          e2 = (if inserted_at \<le> ed_current_time_secs e1
                then e1\<lparr>ed_current_time_secs := ed_current_time_secs e1 + inserted\<rparr> else e1)
      in e2\<lparr>ed_duration_secs := video_timeline_duration (ed_bundle e2)\<rparr>)"

definition activate_video_segment_edge :: "bool \<Rightarrow> nat \<Rightarrow> segment_edge \<Rightarrow> editor \<Rightarrow> editor" where
  "activate_video_segment_edge reduce_motion i edge e =
     (let old_extent = timeline_extent_secs (ed_duration_secs e);
          from_ranges = segment_ranges 0 (unwrap_or (ed_segments e) []);
          from_zoom_ranges = zoom_ranges (ed_zooms e);
          view_start = ed_timeline_view_start_secs e;
          view_duration = ed_timeline_view_duration_secs e;
          from_playback_fraction = timeline_time_fraction (ed_current_time_secs e) view_start view_duration
      in case Option.bind (ed_segments e) (\<lambda>segments.
               restore_segment_edge (ed_source_start_secs e) (ed_source_end_secs e) segments i edge) of
           None \<Rightarrow> e
         | Some (segments', inserted_at, inserted) \<Rightarrow>
             (let e3 = apply_restored_edge segments' inserted_at inserted e;
                  (target_start, target_duration) =
                    (if ed_timeline_view_start_secs e3 \<le> f64_epsilon
                        \<and> old_extent - f64_epsilon \<le> ed_timeline_view_duration_secs e3
                     then (0, timeline_extent_secs (ed_duration_secs e3))
                     else (ed_timeline_view_start_secs e3, ed_timeline_view_duration_secs e3));
                  e4 = request_zoom_target (request_preview (save_bundle
                         (e3\<lparr>ed_cursor_time_secs := None\<rparr>)));
                  playback_range = Option.bind from_playback_fraction (\<lambda>f. map_option (Pair f)
                    (timeline_time_fraction (ed_current_time_secs e4) target_start target_duration))
              in animate_video_timeline_resize reduce_motion from_ranges from_zoom_ranges None
                   playback_range view_start view_duration target_start target_duration e4))"

end
