(* ===== verification/Editor_Zooms.thy ===== *)
theory Editor_Zooms
  imports Editor_State
begin

section \<open>The editor's handlers for zooms, the crop, the view and the sliders (apps/blip-capture/src/editor.rs)\<close>

text \<open>
  Adding, moving, resizing and setting a zoom; the crop dialog; zooming and panning the timeline;
  hovering; sliders.
\<close>

subsection \<open>Zooms\<close>

definition add_zoom :: "real \<Rightarrow> real \<Rightarrow> editor \<Rightarrow> editor" where
  "add_zoom start_secs end_secs e =
     (if end_secs \<le> start_secs then e
      else let i = next_id (map zs_id (ed_zooms e));
               e1 = set_zooms (ed_zooms e @ [\<lparr>zs_id = i, zs_start_secs = start_secs, zs_end_secs = end_secs,
                 zs_target = (1/2, 1/2), zs_amount = 2, zs_transition = Medium\<rparr>]) e
           in request_zoom_target (request_preview (save_bundle (e1\<lparr>ed_selected_zoom := Some i,
                ed_selected_video_segment := None, ed_zoom_hover_range := None,
                ed_current_screen_frame := None\<rparr>))))"

definition begin_zoom_segment_drag :: "nat \<Rightarrow> zoom_segment_drag_kind \<Rightarrow> point \<Rightarrow> editor \<Rightarrow> editor" where
  "begin_zoom_segment_drag i kind pointer e =
     (case find (\<lambda>s. zs_id s = i) (ed_zooms e) of
        None \<Rightarrow> e
      | Some segment \<Rightarrow>
          (let start_secs = zs_start_secs segment; end_secs = zs_end_secs segment;
               minimum_start_secs = unwrap_or (max_by (\<lambda>x. x) (map zs_end_secs
                 (filter (\<lambda>s. zs_id s \<noteq> i \<and> zs_end_secs s \<le> start_secs) (ed_zooms e)))) 0;
               maximum_end_secs = unwrap_or (min_by (\<lambda>x. x) (map zs_start_secs
                 (filter (\<lambda>s. zs_id s \<noteq> i \<and> end_secs \<le> zs_start_secs s) (ed_zooms e)))) (ed_duration_secs e);
               e1 = e\<lparr>ed_zoom_segment_drag := Some \<lparr>zd_id = i, zd_kind = kind,
                 zd_pointer_start_x = fst pointer, zd_original_start_secs = start_secs,
                 zd_original_end_secs = end_secs, zd_draft_start_secs = start_secs,
                 zd_draft_end_secs = end_secs, zd_minimum_start_secs = minimum_start_secs,
                 zd_maximum_end_secs = maximum_end_secs\<rparr>\<rparr>;
               e2 = (if ed_selected_zoom e1 \<noteq> Some i then e1\<lparr>ed_current_screen_frame := None\<rparr> else e1)
           in request_zoom_target (request_preview (e2\<lparr>ed_selected_zoom := Some i,
                ed_selected_video_segment := None, ed_cursor_time_secs := None\<rparr>))))"

text \<open>The range a zoom drag gives for a movement of the pointer.\<close>

definition zoom_drag_range :: "zoom_segment_drag \<Rightarrow> real \<Rightarrow> real \<times> real" where
  "zoom_drag_range drag delta_secs =
     (case zd_kind drag of
        DragMove \<Rightarrow>
          (let duration_secs = max (zd_original_end_secs drag - zd_original_start_secs drag) 0;
               maximum_start_secs = max (zd_maximum_end_secs drag - duration_secs) (zd_minimum_start_secs drag);
               start_secs = clamp (zd_original_start_secs drag + delta_secs)
                 (zd_minimum_start_secs drag) maximum_start_secs
           in (start_secs, start_secs + duration_secs))
      | DragResize edge \<Rightarrow>
          resize_zoom_segment_range edge (zd_original_start_secs drag) (zd_original_end_secs drag)
            (zd_minimum_start_secs drag) (zd_maximum_end_secs drag) delta_secs)"

definition drag_zoom_segment :: "point \<Rightarrow> bool \<Rightarrow> editor \<Rightarrow> editor \<times> bool" where
  "drag_zoom_segment pointer dragging e =
     (case ed_zoom_segment_drag e of
        None \<Rightarrow> (e, False)
      | Some drag \<Rightarrow>
          (if \<not> dragging then (e, True)
           else if b_w (ed_timeline_bounds e) \<le> 0 then (e, True)
           else
             let delta_secs = (fst pointer - zd_pointer_start_x drag) / b_w (ed_timeline_bounds e)
                   * ed_timeline_view_duration_secs e;
                 (start_secs, end_secs) = zoom_drag_range drag delta_secs;
                 playback_time_secs = (case zd_kind drag of
                    DragMove \<Rightarrow> timeline_time_at e (fst pointer)
                  | DragResize EdgeStart \<Rightarrow> Some start_secs
                  | DragResize EdgeEnd \<Rightarrow> Some end_secs);
                 start_changed = (zd_original_start_secs drag \<noteq> start_secs);
                 finish = (\<lambda>e1. let e2 = (case playback_time_secs of
                      None \<Rightarrow> e1 | Some time_secs \<Rightarrow> set_playback_time time_secs e1)
                    in (if start_changed \<and> zd_kind drag = DragMove then request_zoom_target e2 else e2, True))
             in case zd_kind drag of
                  DragMove \<Rightarrow>
                    (if \<not> list_ex (\<lambda>s. zs_id s = zd_id drag) (ed_zooms e)
                     then (e\<lparr>ed_zoom_segment_drag := None\<rparr>, True)
                     else finish (set_zooms (update_zoom (zd_id drag)
                       (\<lambda>s. s\<lparr>zs_start_secs := start_secs, zs_end_secs := end_secs\<rparr>) (ed_zooms e)) e))
                | DragResize _ \<Rightarrow>
                    finish (e\<lparr>ed_zoom_segment_drag := Some (drag\<lparr>zd_draft_start_secs := start_secs,
                      zd_draft_end_secs := end_secs\<rparr>)\<rparr>)))"

definition finish_zoom_segment_drag :: "editor \<Rightarrow> editor" where
  "finish_zoom_segment_drag e =
     (case ed_zoom_segment_drag e of
        None \<Rightarrow> e
      | Some drag \<Rightarrow>
          (let e0 = e\<lparr>ed_zoom_segment_drag := None\<rparr>
           in if zd_kind drag \<noteq> DragMove \<and> (zd_draft_start_secs drag \<noteq> zd_original_start_secs drag
                 \<or> zd_draft_end_secs drag \<noteq> zd_original_end_secs drag)
              then if \<not> list_ex (\<lambda>s. zs_id s = zd_id drag) (ed_zooms e0) then e0
                   else save_bundle (request_zoom_target (request_preview (set_zooms (update_zoom (zd_id drag)
                     (\<lambda>s. s\<lparr>zs_start_secs := zd_draft_start_secs drag,
                            zs_end_secs := zd_draft_end_secs drag\<rparr>) (ed_zooms e0)) e0)))
              else save_bundle e0))"

definition set_zoom_amount :: "real \<Rightarrow> editor \<Rightarrow> editor" where
  "set_zoom_amount a e =
     (let amount = clamp a 1 5
      in case selected_zoom e of
           None \<Rightarrow> e
         | Some segment \<Rightarrow>
             if zs_amount segment = amount then e
             else request_preview (set_zooms (update_zoom (zs_id segment)
               (\<lambda>s. s\<lparr>zs_amount := amount\<rparr>) (ed_zooms e)) e))"

definition set_zoom_transition :: "zoom_transition_speed \<Rightarrow> editor \<Rightarrow> editor" where
  "set_zoom_transition transition e =
     (case selected_zoom e of
        None \<Rightarrow> e
      | Some segment \<Rightarrow> request_preview (save_bundle (set_zooms (update_zoom (zs_id segment)
          (\<lambda>s. s\<lparr>zs_transition := transition\<rparr>) (ed_zooms e)) e)))"

definition fraction_in :: "bounds \<Rightarrow> point \<Rightarrow> point" where
  "fraction_in b p = (clamp ((fst p - b_x b) / b_w b) 0 1, clamp ((snd p - b_y b) / b_h b) 0 1)"

definition set_zoom_target :: "point \<Rightarrow> editor \<Rightarrow> editor" where
  "set_zoom_target pointer e =
     (let bounds = ed_zoom_target_bounds e
      in if b_w bounds \<le> 0 \<or> b_h bounds \<le> 0 then e
         else case selected_zoom e of
           None \<Rightarrow> e
         | Some segment \<Rightarrow> request_preview (set_zooms (update_zoom (zs_id segment)
             (\<lambda>s. s\<lparr>zs_target := fraction_in bounds pointer\<rparr>) (ed_zooms e)) e))"

subsection \<open>The aspect ratio menu and the crop dialog\<close>

definition close_aspect_ratio_dropdown :: "editor \<Rightarrow> editor" where
  "close_aspect_ratio_dropdown e =
     (if \<not> ed_aspect_ratio_dropdown_visible e \<or> \<not> ed_aspect_ratio_dropdown_open e then e
      else e\<lparr>ed_aspect_ratio_dropdown_transition :=
               saturating_add u64_max (ed_aspect_ratio_dropdown_transition e) 1,
             ed_aspect_ratio_dropdown_open := False\<rparr>)"

definition toggle_aspect_ratio_dropdown :: "editor \<Rightarrow> editor" where
  "toggle_aspect_ratio_dropdown e =
     (if ed_aspect_ratio_dropdown_open e then close_aspect_ratio_dropdown e
      else e\<lparr>ed_aspect_ratio_dropdown_transition :=
               saturating_add u64_max (ed_aspect_ratio_dropdown_transition e) 1,
             ed_aspect_ratio_dropdown_visible := True, ed_aspect_ratio_dropdown_open := True\<rparr>)"

text \<open>The timer a closing menu starts, when it fires.\<close>

definition dropdown_hidden :: "nat \<Rightarrow> editor \<Rightarrow> editor" where
  "dropdown_hidden transition e =
     (if \<not> ed_aspect_ratio_dropdown_open e \<and> ed_aspect_ratio_dropdown_transition e = transition
      then e\<lparr>ed_aspect_ratio_dropdown_visible := False\<rparr> else e)"

definition open_crop_dialog :: "editor \<Rightarrow> editor" where
  "open_crop_dialog e =
     (let e1 = close_aspect_ratio_dropdown (stop_playback e)
      in request_preview (e1\<lparr>ed_crop_draft := unwrap_or (bb_screen_crop (ed_bundle e1)) FULL_CROP,
           ed_crop_drag := None, ed_crop_dialog_open := True\<rparr>))"

definition crop_position_at :: "editor \<Rightarrow> point \<Rightarrow> point option" where
  "crop_position_at e pointer =
     (let bounds = ed_crop_preview_bounds e
      in if b_w bounds \<le> 0 \<or> b_h bounds \<le> 0 then None else Some (fraction_in bounds pointer))"

definition begin_screen_crop :: "point \<Rightarrow> editor \<Rightarrow> editor" where
  "begin_screen_crop pointer e =
     (case crop_position_at e pointer of
        None \<Rightarrow> e
      | Some start \<Rightarrow>
          (let original = ed_crop_draft e
           in case crop_handle_at pointer (ed_crop_preview_bounds e) (ed_crop_draft e) of
                Some handle \<Rightarrow> e\<lparr>ed_crop_drag := Some (CropResize handle original)\<rparr>
              | None \<Rightarrow>
                  if crop_contains (ed_crop_draft e) start
                  then e\<lparr>ed_crop_drag := Some (CropMove start original)\<rparr>
                  else e\<lparr>ed_crop_draft := \<lparr>crop_position = start,
                           crop_size = (min (1/100) (1 - fst start), min (1/100) (1 - snd start))\<rparr>,
                         ed_crop_drag := Some (CropCreate start)\<rparr>))"

text \<open>\<open>None\<close> is a panic of one of the \<open>clamp\<close>s.\<close>

definition drag_screen_crop :: "point \<Rightarrow> editor \<Rightarrow> (editor \<times> bool) option" where
  "drag_screen_crop pointer e =
     (case ed_crop_drag e of
        None \<Rightarrow> Some (e, False)
      | Some operation \<Rightarrow>
          (case crop_position_at e pointer of
             None \<Rightarrow> Some (e, True)
           | Some current \<Rightarrow>
               map_option (\<lambda>draft. (e\<lparr>ed_crop_draft :=
                   unwrap_or (normalize_screen_crop (Some (fin_crop draft))) FULL_CROP\<rparr>, True))
                 (dragged_crop operation current)))"

definition set_screen_crop :: "real screen_crop option \<Rightarrow> editor \<Rightarrow> editor" where
  "set_screen_crop c e = e\<lparr>ed_bundle := (ed_bundle e)\<lparr>bb_screen_crop := c\<rparr>\<rparr>"

definition apply_screen_crop :: "editor \<Rightarrow> editor" where
  "apply_screen_crop e =
     request_preview (save_bundle ((set_screen_crop
       (normalize_screen_crop (Some (fin_crop (ed_crop_draft e)))) e)
         \<lparr>ed_crop_dialog_open := False, ed_crop_drag := None\<rparr>))"

definition close_crop_dialog :: "editor \<Rightarrow> editor" where
  "close_crop_dialog e = e\<lparr>ed_crop_dialog_open := False, ed_crop_drag := None\<rparr>"

subsection \<open>The view\<close>

definition b_right :: "bounds \<Rightarrow> real" where "b_right b = b_x b + b_w b"
definition b_bottom :: "bounds \<Rightarrow> real" where "b_bottom b = b_y b + b_h b"

definition zoom_timeline :: "point \<Rightarrow> real \<Rightarrow> editor \<Rightarrow> editor" where
  "zoom_timeline pointer delta e =
     (let bounds = ed_timeline_bounds e
      in if ed_duration_secs e \<le> 0 \<or> b_w bounds \<le> 0 \<or> fst pointer < b_x bounds
            \<or> b_right bounds < fst pointer
         then e
         else let focal_fraction = clamp ((fst pointer - b_x bounds) / b_w bounds) 0 1;
                  (start_secs, duration_secs) = zoomed_timeline_view (ed_timeline_view_start_secs e)
                    (ed_timeline_view_duration_secs e) (timeline_extent_secs (ed_duration_secs e))
                    focal_fraction delta
              in if start_secs \<noteq> ed_timeline_view_start_secs e
                    \<or> duration_secs \<noteq> ed_timeline_view_duration_secs e
                 then request_preview (e\<lparr>
                   ed_resize_generation := (ed_resize_generation e + 1) mod (u64_max + 1),
                   ed_resize_animation := None,
                   ed_timeline_view_start_secs := start_secs,
                   ed_timeline_view_duration_secs := duration_secs,
                   ed_cursor_time_secs := Some (start_secs + focal_fraction * duration_secs)\<rparr>)
                 else e)"

definition pan_timeline :: "point \<Rightarrow> bool \<Rightarrow> real \<Rightarrow> editor \<Rightarrow> editor" where
  "pan_timeline pointer precise delta_x e =
     (let bounds = ed_timeline_bounds e
      in if \<not> precise \<or> b_w bounds \<le> 0 \<or> fst pointer < b_x bounds \<or> b_right bounds < fst pointer
         then e
         else let start_secs = panned_timeline_view (ed_timeline_view_start_secs e)
                    (ed_timeline_view_duration_secs e) (timeline_extent_secs (ed_duration_secs e))
                    (delta_x / b_w bounds)
              in if start_secs \<noteq> ed_timeline_view_start_secs e
                 then let e1 = e\<lparr>ed_resize_generation := (ed_resize_generation e + 1) mod (u64_max + 1),
                            ed_resize_animation := None, ed_timeline_view_start_secs := start_secs\<rparr>
                      in request_preview (e1\<lparr>ed_cursor_time_secs := timeline_time_at e1 (fst pointer)\<rparr>)
                 else e)"

definition update_timeline_hover :: "point \<Rightarrow> editor \<Rightarrow> editor" where
  "update_timeline_hover pointer e =
     (if ed_is_playing e then e
      else
        let timeline = ed_timeline_bounds e; rows = ed_timeline_rows_bounds e;
            hovering = (ed_zoom_segment_drag e = None \<and> ed_video_segment_drag e = None
              \<and> 0 < b_w timeline \<and> 0 < b_h rows
              \<and> b_x timeline \<le> fst pointer \<and> fst pointer \<le> b_x timeline + b_w timeline
              \<and> b_y rows \<le> snd pointer \<and> snd pointer \<le> b_y rows + b_h rows);
            cursor_time_secs = (if hovering
              then Some (ed_timeline_view_start_secs e + (fst pointer - b_x timeline) / b_w timeline
                * ed_timeline_view_duration_secs e) else None);
            zoom_hover_range = Option.bind cursor_time_secs (\<lambda>time_secs.
              if b_y timeline \<le> snd pointer \<and> snd pointer \<le> b_bottom timeline
                 \<and> \<not> list_ex (\<lambda>s. zs_start_secs s \<le> time_secs \<and> time_secs \<le> zs_end_secs s) (ed_zooms e)
              then zoom_segment_range_at time_secs (ed_duration_secs e) (ed_zooms e) else None)
        in if ed_cursor_time_secs e \<noteq> cursor_time_secs \<or> ed_zoom_hover_range e \<noteq> zoom_hover_range
           then request_preview (e\<lparr>ed_cursor_time_secs := cursor_time_secs,
                  ed_zoom_hover_range := zoom_hover_range\<rparr>)
           else e)"

definition mouse_exit :: "editor \<Rightarrow> editor" where
  "mouse_exit e =
     (if ed_cursor_time_secs e = None then e
      else request_preview (e\<lparr>ed_cursor_time_secs := None, ed_zoom_hover_range := None\<rparr>))"

subsection \<open>Sliders\<close>

definition set_appearance :: "(project_appearance \<Rightarrow> project_appearance) \<Rightarrow> editor \<Rightarrow> editor" where
  "set_appearance f e = e\<lparr>ed_bundle := (ed_bundle e)\<lparr>bb_appearance := f (bb_appearance (ed_bundle e))\<rparr>\<rparr>"

definition set_camera_layout :: "(camera_layout \<Rightarrow> camera_layout) \<Rightarrow> editor \<Rightarrow> editor" where
  "set_camera_layout f e =
     e\<lparr>ed_bundle := (ed_bundle e)\<lparr>bb_camera_layout := f (bb_camera_layout (ed_bundle e))\<rparr>\<rparr>"

definition set_slider_value :: "slider_kind \<Rightarrow> real \<Rightarrow> editor \<Rightarrow> editor" where
  "set_slider_value kind x e =
     (let bounds = ed_slider_bounds e kind
      in if b_w bounds \<le> 0 then e
         else
           let fraction = clamp ((x - b_x bounds) / b_w bounds) 0 1;
               fifty = of_int (round_away (fraction * 50))
           in case kind of
                SPadding \<Rightarrow> request_preview (set_appearance (\<lambda>a. a\<lparr>pa_padding := fifty\<rparr>) e)
              | SRadius \<Rightarrow> request_preview (set_appearance (\<lambda>a. a\<lparr>pa_border_radius := fifty\<rparr>) e)
              | SShadow \<Rightarrow> request_preview (set_appearance (\<lambda>a. a\<lparr>pa_shadow := fifty\<rparr>) e)
              | SCameraSize \<Rightarrow> request_preview (set_camera_layout (\<lambda>l. l\<lparr>cl_size := fifty\<rparr>) e)
              | SCameraPadding \<Rightarrow> request_preview (set_camera_layout (\<lambda>l. l\<lparr>cl_edge_padding := fifty\<rparr>) e)
              | SCameraZoomReduction \<Rightarrow>
                  request_preview (set_camera_layout (\<lambda>l. l\<lparr>cl_zoom_size_reduction := fifty\<rparr>) e)
              | SCameraShadow \<Rightarrow> request_preview (set_camera_layout (\<lambda>l. l\<lparr>cl_shadow := fifty\<rparr>) e)
              | SZoomAmount \<Rightarrow> set_zoom_amount (1 + of_int (round_away (fraction * 40)) / 10) e
              | STimelineZoom \<Rightarrow>
                  (let timeline_duration_secs = timeline_extent_secs (ed_duration_secs e);
                       zoom = 1 + fraction * 9;
                       view_duration_secs = timeline_duration_secs / zoom;
                       view_center_secs = ed_timeline_view_start_secs e
                         + ed_timeline_view_duration_secs e * (1/2)
                   in e\<lparr>ed_timeline_view_duration_secs := view_duration_secs,
                        ed_timeline_view_start_secs := clamp_timeline_view_start
                          (view_center_secs - view_duration_secs * (1/2)) view_duration_secs
                          timeline_duration_secs,
                        ed_resize_generation := (ed_resize_generation e + 1) mod (u64_max + 1),
                        ed_resize_animation := None\<rparr>))"

end
