(* ===== verification/Editor_Events.thy ===== *)
theory Editor_Events
  imports Editor_Segments Editor_Zooms
begin

section \<open>The editor as a state machine (apps/blip-capture/src/editor.rs, render and its listeners)\<close>

text \<open>
  The listeners of the window dispatch pointer events, clicks and key actions to the handlers, and each
  painted frame measures the areas they compare the pointer with.
  The step relation collects them, with the guards the window puts on them: the marks that restore the recording's ends are
  shown only on the first segment's start and the last segment's end, and a press of
  the pointer on the timeline cannot come while a drag is in progress, since the release that comes between ends the drag.
\<close>

definition drag_slider :: "point \<Rightarrow> bool \<Rightarrow> editor \<Rightarrow> editor option" where
  "drag_slider pointer dragging e =
     (case (if dragging then drag_screen_crop pointer e else Some (e, False)) of
        None \<Rightarrow> None
      | Some (e1, True) \<Rightarrow> Some e1
      | Some (e1, False) \<Rightarrow>
          (case drag_video_segment pointer dragging e1 of
             (e2, True) \<Rightarrow> Some e2
           | (e2, False) \<Rightarrow>
               (case drag_zoom_segment pointer dragging e2 of
                  (e3, True) \<Rightarrow> Some e3
                | (e3, False) \<Rightarrow>
                    Some (if dragging \<and> ed_dragging_zoom_target e3 then set_zoom_target pointer e3
                          else if dragging
                          then (case ed_active_slider e3 of
                                  None \<Rightarrow> e3
                                | Some kind \<Rightarrow> set_slider_value kind (fst pointer) e3)
                          else e3))))"

definition on_mouse_move :: "point \<Rightarrow> bool \<Rightarrow> editor \<Rightarrow> editor option" where
  "on_mouse_move pointer dragging e = map_option (update_timeline_hover pointer) (drag_slider pointer dragging e)"

definition saving_slider :: "slider_kind \<Rightarrow> bool" where
  "saving_slider k \<longleftrightarrow> k \<in> {SPadding, SRadius, SShadow, SZoomAmount, SCameraSize, SCameraPadding,
     SCameraZoomReduction, SCameraShadow}"

definition on_mouse_up :: "bool \<Rightarrow> editor \<Rightarrow> editor" where
  "on_mouse_up reduce_motion e =
     (let e1 = (case ed_active_slider e of
            None \<Rightarrow> e | Some k \<Rightarrow> if saving_slider k then save_bundle e else e);
          e2 = finish_zoom_segment_drag (e1\<lparr>ed_active_slider := None\<rparr>);
          e3 = finish_video_segment_drag reduce_motion e2;
          e4 = (if ed_dragging_zoom_target e3 then save_bundle e3 else e3)
      in e4\<lparr>ed_dragging_zoom_target := False, ed_crop_drag := None\<rparr>)"

definition on_timeline_mouse_down :: "point \<Rightarrow> editor \<Rightarrow> editor" where
  "on_timeline_mouse_down pointer e =
     (let e1 = e\<lparr>ed_selected_zoom := None, ed_selected_video_segment := None\<rparr>
      in if b_x (ed_timeline_bounds e1) - 6 \<le> fst pointer
         then (case timeline_time_at e1 (fst pointer) of
                 None \<Rightarrow> e1 | Some time_secs \<Rightarrow> set_playback_time time_secs e1)
         else e1)"

definition on_segment_mouse_down :: "nat \<Rightarrow> nat \<Rightarrow> point \<Rightarrow> editor \<Rightarrow> editor" where
  "on_segment_mouse_down input_index i pointer e =
     (let e1 = e\<lparr>ed_selected_input := input_index\<rparr>
      in case timeline_time_at e1 (fst pointer) of
           None \<Rightarrow> e1 | Some time_secs \<Rightarrow> activate_video_segment i time_secs e1)"

text \<open>A press on a zoom; its edges start a resize with no seek.\<close>

definition on_zoom_mouse_down :: "nat \<Rightarrow> point \<Rightarrow> editor \<Rightarrow> editor" where
  "on_zoom_mouse_down i pointer e =
     (let e1 = begin_zoom_segment_drag i DragMove pointer e
      in case timeline_time_at e1 (fst pointer) of
           None \<Rightarrow> e1 | Some time_secs \<Rightarrow> set_playback_time time_secs e1)"

text \<open>
  A press on the track of the zooms: on a zoom it starts a drag, on free space it adds one, and
  where no zoom fits it goes on to the timeline under the track.
\<close>

definition on_zoom_track_mouse_down :: "point \<Rightarrow> editor \<Rightarrow> editor" where
  "on_zoom_track_mouse_down pointer e =
     (case timeline_time_at e (fst pointer) of
        None \<Rightarrow> on_timeline_mouse_down pointer e
      | Some time_secs \<Rightarrow>
          (case find (\<lambda>s. zs_start_secs s \<le> time_secs \<and> time_secs \<le> zs_end_secs s) (ed_zooms e) of
             Some segment \<Rightarrow>
               set_playback_time time_secs (begin_zoom_segment_drag (zs_id segment) DragMove pointer e)
           | None \<Rightarrow>
               (case zoom_segment_range_at time_secs (ed_duration_secs e) (ed_zooms e) of
                  None \<Rightarrow> on_timeline_mouse_down pointer e
                | Some (start_secs, end_secs) \<Rightarrow> add_zoom start_secs end_secs e)))"

text \<open>A press on a slider or on the preview of the zoom's target starts its drag and sets it at once.\<close>

definition on_slider_mouse_down :: "slider_kind \<Rightarrow> real \<Rightarrow> editor \<Rightarrow> editor" where
  "on_slider_mouse_down kind x e = set_slider_value kind x (e\<lparr>ed_active_slider := Some kind\<rparr>)"

definition on_zoom_target_mouse_down :: "point \<Rightarrow> editor \<Rightarrow> editor" where
  "on_zoom_target_mouse_down pointer e = set_zoom_target pointer (e\<lparr>ed_dragging_zoom_target := True\<rparr>)"

text \<open>
  The areas the pointer is compared with are measured before every frame is painted. Nothing is known of
  the values: they follow from the layout.
\<close>

datatype measured = TimelineArea | TimelineRows | ZoomTargetArea | SliderArea slider_kind | CropPreviewArea

fun measure_area :: "measured \<Rightarrow> bounds \<Rightarrow> editor \<Rightarrow> editor" where
  "measure_area TimelineArea b e = e\<lparr>ed_timeline_bounds := b\<rparr>"
| "measure_area TimelineRows b e = e\<lparr>ed_timeline_rows_bounds := b\<rparr>"
| "measure_area ZoomTargetArea b e = e\<lparr>ed_zoom_target_bounds := b\<rparr>"
| "measure_area (SliderArea kind) b e = e\<lparr>ed_slider_bounds := (ed_slider_bounds e)(kind := b)\<rparr>"
| "measure_area CropPreviewArea b e = e\<lparr>ed_crop_preview_bounds := b\<rparr>"

subsection \<open>Choices in the sidebar and the dialogs\<close>

definition choose_background_type :: "background_type \<Rightarrow> editor \<Rightarrow> editor" where
  "choose_background_type t e =
     request_preview (save_bundle (set_appearance (\<lambda>a. a\<lparr>pa_background_type := t\<rparr>) e))"

definition choose_background_preset :: "nat \<Rightarrow> string \<Rightarrow> editor \<Rightarrow> editor" where
  "choose_background_preset index name e =
     request_preview (save_bundle ((set_appearance
       (\<lambda>a. a\<lparr>pa_background_type := BgImage, pa_background_image := name\<rparr>) e)\<lparr>ed_background_preset := index\<rparr>))"

definition choose_camera_position :: "camera_position \<Rightarrow> editor \<Rightarrow> editor" where
  "choose_camera_position choice e =
     request_preview (save_bundle (set_camera_layout (\<lambda>l. l\<lparr>cl_position := choice\<rparr>) e))"

definition choose_camera_crop :: "camera_crop \<Rightarrow> editor \<Rightarrow> editor" where
  "choose_camera_crop choice e =
     request_preview (save_bundle (set_camera_layout (\<lambda>l. l\<lparr>cl_crop := choice\<rparr>) e))"

definition choose_aspect_ratio :: "output_aspect_ratio \<Rightarrow> editor \<Rightarrow> editor" where
  "choose_aspect_ratio choice e =
     request_preview (save_bundle (close_aspect_ratio_dropdown
       (e\<lparr>ed_bundle := (ed_bundle e)\<lparr>bb_output_aspect_ratio := choice\<rparr>\<rparr>)))"

definition choose_resize_mode :: "video_segment_resize_mode \<Rightarrow> editor \<Rightarrow> editor" where
  "choose_resize_mode mode e = save_bundle (e\<lparr>ed_bundle := (ed_bundle e)\<lparr>bb_video_segment_resize_mode := mode\<rparr>\<rparr>)"

text \<open>What the export dialog and a started export write.\<close>

definition keep_export_settings :: "export_settings \<Rightarrow> editor \<Rightarrow> editor" where
  "keep_export_settings settings e = save_bundle (e\<lparr>ed_bundle := (ed_bundle e)\<lparr>bb_export_settings := settings\<rparr>\<rparr>)"

definition open_settings_dialog :: "editor \<Rightarrow> editor" where
  "open_settings_dialog e = close_aspect_ratio_dropdown (e\<lparr>ed_settings_dialog_open := True\<rparr>)"

definition on_escape :: "editor \<Rightarrow> editor" where
  "on_escape e =
     (if ed_crop_dialog_open e then close_crop_dialog e
      else if ed_settings_dialog_open e then e\<lparr>ed_settings_dialog_open := False\<rparr>
      else if ed_aspect_ratio_dropdown_open e then close_aspect_ratio_dropdown e
      else if ed_export_dialog_open e \<or> ed_selected_zoom e \<noteq> None \<or> ed_selected_video_segment e \<noteq> None
      then e\<lparr>ed_export_dialog_open := False, ed_selected_zoom := None, ed_selected_video_segment := None\<rparr>
      else e)"

text \<open>The marks at the recording's ends.\<close>

definition edge_mark_shown :: "editor \<Rightarrow> nat \<Rightarrow> segment_edge \<Rightarrow> bool" where
  "edge_mark_shown e i edge =
     (case ed_segments e of
        None \<Rightarrow> False
      | Some ss \<Rightarrow> ss \<noteq> [] \<and> (case edge of EdgeStart \<Rightarrow> vs_id (hd ss) = i | EdgeEnd \<Rightarrow> vs_id (last ss) = i))"

text \<open>Identifiers are \<open>u64\<close>; a new one is one more than the largest, so they do not run out.\<close>

definition ids_left :: "editor \<Rightarrow> bool" where
  "ids_left e = list_all (\<lambda>s. vs_id s < u64_max) (unwrap_or (ed_segments e) [])"

abbreviation no_drag :: "editor \<Rightarrow> bool" where
  "no_drag e \<equiv> ed_video_segment_drag e = None"

inductive editor_step :: "(audio_mixer \<Rightarrow> real \<Rightarrow> bool) \<Rightarrow> bool \<Rightarrow> editor \<Rightarrow> editor \<Rightarrow> bool"
  for start_audio reduce_motion where
  MouseMove: "on_mouse_move p dragging e = Some e' \<Longrightarrow> editor_step start_audio reduce_motion e e'"
| MouseUp: "editor_step start_audio reduce_motion e (on_mouse_up reduce_motion e)"
| TimelineDown: "no_drag e \<Longrightarrow> editor_step start_audio reduce_motion e (on_timeline_mouse_down p e)"
| SegmentDown: "no_drag e \<Longrightarrow> ids_left e \<Longrightarrow>
    editor_step start_audio reduce_motion e (on_segment_mouse_down k i p e)"
| SegmentEdgeDown: "no_drag e \<Longrightarrow>
    editor_step start_audio reduce_motion e (begin_video_segment_drag i edge p e)"
| CutClick: "no_drag e \<Longrightarrow> editor_step start_audio reduce_motion e (activate_video_cut reduce_motion i e)"
| EdgeClick: "no_drag e \<Longrightarrow> edge_mark_shown e i edge \<Longrightarrow>
    editor_step start_audio reduce_motion e (activate_video_segment_edge reduce_motion i edge e)"
| ZoomDown: "no_drag e \<Longrightarrow> editor_step start_audio reduce_motion e (on_zoom_mouse_down i p e)"
| ZoomEdgeDown: "no_drag e \<Longrightarrow>
    editor_step start_audio reduce_motion e (begin_zoom_segment_drag i (DragResize edge) p e)"
| ZoomTrackDown: "no_drag e \<Longrightarrow> editor_step start_audio reduce_motion e (on_zoom_track_mouse_down p e)"
| SliderDown: "editor_step start_audio reduce_motion e (on_slider_mouse_down kind x e)"
| ZoomTargetDown: "editor_step start_audio reduce_motion e (on_zoom_target_mouse_down p e)"
| MouseExit: "editor_step start_audio reduce_motion e (mouse_exit e)"
| Pinch: "editor_step start_audio reduce_motion e (zoom_timeline p delta e)"
| Scroll: "editor_step start_audio reduce_motion e (pan_timeline p precise delta e)"
| KeyCutMode: "editor_step start_audio reduce_motion e (toggle_cut_mode e)"
| KeyPlay: "editor_step start_audio reduce_motion e (toggle_playback start_audio now e)"
| KeyDelete: "editor_step start_audio reduce_motion e (delete_selected e)"
| DeleteClick: "editor_step start_audio reduce_motion e (delete_selected_video_segment e)"
| KeyEscape: "editor_step start_audio reduce_motion e (on_escape e)"
| ToStart: "editor_step start_audio reduce_motion e (set_playback_time 0 e)"
| ToEnd: "editor_step start_audio reduce_motion e (set_playback_time (ed_duration_secs e) e)"
| SetTransition: "editor_step start_audio reduce_motion e (set_zoom_transition transition e)"
| AspectMenu: "editor_step start_audio reduce_motion e (toggle_aspect_ratio_dropdown e)"
| OpenCrop: "editor_step start_audio reduce_motion e (open_crop_dialog e)"
| CropDown: "editor_step start_audio reduce_motion e (begin_screen_crop p e)"
| ApplyCrop: "editor_step start_audio reduce_motion e (apply_screen_crop e)"
| CloseCrop: "editor_step start_audio reduce_motion e (close_crop_dialog e)"
| ResetCrop: "editor_step start_audio reduce_motion e (e\<lparr>ed_crop_draft := FULL_CROP\<rparr>)"
| BackgroundType: "editor_step start_audio reduce_motion e (choose_background_type t e)"
| BackgroundPreset: "editor_step start_audio reduce_motion e (choose_background_preset index name e)"
| CameraPosition: "editor_step start_audio reduce_motion e (choose_camera_position place e)"
| CameraCrop: "editor_step start_audio reduce_motion e (choose_camera_crop crop e)"
| AspectChoice: "editor_step start_audio reduce_motion e (choose_aspect_ratio ratio e)"
| ResizeMode: "editor_step start_audio reduce_motion e (choose_resize_mode mode e)"
| ExportSettings: "editor_step start_audio reduce_motion e (keep_export_settings settings e)"
| OpenSettings: "editor_step start_audio reduce_motion e (open_settings_dialog e)"
| CloseSettings: "editor_step start_audio reduce_motion e (e\<lparr>ed_settings_dialog_open := False\<rparr>)"
| ExportDialog: "editor_step start_audio reduce_motion e (e\<lparr>ed_export_dialog_open := is_open\<rparr>)"
| Measured: "editor_step start_audio reduce_motion e (measure_area area b e)"
| PlaybackTick: "editor_step start_audio reduce_motion e (fst (playback_frame g now e))"
| AnimationTick: "editor_step start_audio reduce_motion e (fst (resize_animation_tick a elapsed e))"
| DropdownTick: "editor_step start_audio reduce_motion e (dropdown_hidden transition e)"
| PreviewResult: "editor_step start_audio reduce_motion e (receive_preview r e)"
| TargetResult: "editor_step start_audio reduce_motion e (receive_zoom_target t fr e)"

end
