(* ===== verification/Editor_Invariant.thy ===== *)
theory Editor_Invariant
  imports Editor_Events
begin

section \<open>What every editor step keeps (apps/blip-capture/src/editor.rs)\<close>

text \<open>
  The invariant of the editor: its segments are ordered, disjoint, at least 10 ms long and inside the range
  the recording's inputs share; the duration it keeps is the timeline's; the playback position is
  on the timeline; playback has a start exactly while it runs; and a drag in progress can only
  end with a segment that fits between its neighbours.
\<close>

definition timeline_ok :: "real \<Rightarrow> real \<Rightarrow> video_segment list \<Rightarrow> bool" where
  "timeline_ok lo hi ss \<longleftrightarrow> segs_wf ss \<and> segs_within lo hi ss \<and>
     (\<forall>s \<in> set ss. 1/100 \<le> vs_source_end_secs s - vs_source_start_secs s)"

definition drag_ok :: "real \<Rightarrow> real \<Rightarrow> video_segment list \<Rightarrow> video_segment_drag \<Rightarrow> bool" where
  "drag_ok lo hi ss d \<longleftrightarrow>
     lo \<le> vd_minimum_source_start_secs d \<and> vd_maximum_source_end_secs d \<le> hi \<and>
     vd_minimum_source_start_secs d \<le> vd_original_source_start_secs d \<and>
     vd_original_source_end_secs d \<le> vd_maximum_source_end_secs d \<and>
     1/100 \<le> vd_original_source_end_secs d - vd_original_source_start_secs d \<and>
     vd_minimum_source_start_secs d \<le> vd_draft_source_start_secs d \<and>
     vd_draft_source_end_secs d \<le> vd_maximum_source_end_secs d \<and>
     1/100 \<le> vd_draft_source_end_secs d - vd_draft_source_start_secs d \<and>
     (\<forall>s \<in> set ss. if vs_id s = vd_id d
        then vs_source_start_secs s = vd_original_source_start_secs d \<and>
             vs_source_end_secs s = vd_original_source_end_secs d
        else vs_source_end_secs s \<le> vd_minimum_source_start_secs d \<or>
             vd_maximum_source_end_secs d \<le> vs_source_start_secs s)"

definition editor_inv :: "editor \<Rightarrow> bool" where
  "editor_inv e \<longleftrightarrow> (\<exists>ss. ed_segments e = Some ss \<and>
     timeline_ok (ed_source_start_secs e) (ed_source_end_secs e) ss \<and>
     ed_duration_secs e = segs_duration ss \<and>
     0 \<le> ed_current_time_secs e \<and> ed_current_time_secs e \<le> ed_duration_secs e \<and>
     (ed_is_playing e \<longleftrightarrow> ed_playback_started_at e \<noteq> None) \<and>
     (\<forall>d. ed_video_segment_drag e = Some d \<longrightarrow>
        drag_ok (ed_source_start_secs e) (ed_source_end_secs e) ss d))"

text \<open>What the invariant reads of the state.\<close>

definition ed_core :: "editor \<Rightarrow> video_segment list option \<times> real \<times> real \<times> real \<times> real \<times> bool \<times> bool \<times>
    video_segment_drag option" where
  "ed_core e = (ed_segments e, ed_source_start_secs e, ed_source_end_secs e, ed_duration_secs e,
     ed_current_time_secs e, ed_is_playing e, ed_playback_started_at e \<noteq> None, ed_video_segment_drag e)"

lemma editor_inv_core: "ed_core e = ed_core e' \<Longrightarrow> editor_inv e \<longleftrightarrow> editor_inv e'"
  by (auto simp: editor_inv_def ed_core_def)

named_theorems core_simps \<open>the part of the state the invariant reads, after an operation\<close>

lemma core_emit [core_simps]: "ed_core (emit f e) = ed_core e"
  by (simp add: ed_core_def emit_def)

lemma core_save [core_simps]: "ed_core (save_bundle e) = ed_core e"
  by (simp add: save_bundle_def core_simps)

lemma core_preview [core_simps]: "ed_core (request_preview e) = ed_core e"
  by (simp add: request_preview_def core_simps Let_def split: option.splits)

lemma core_target [core_simps]: "ed_core (request_zoom_target e) = ed_core e"
  by (simp add: request_zoom_target_def core_simps split: option.splits)

lemma core_zooms [core_simps]: "ed_core (set_zooms zs e) = ed_core e"
  by (simp add: ed_core_def set_zooms_def)

lemma core_animate [core_simps]:
  "ed_core (animate_video_timeline_resize rm a b c d v w x y e) = ed_core e"
  by (simp add: ed_core_def animate_video_timeline_resize_def Let_def)

lemma inv_emits [simp]:
  "editor_inv (save_bundle e) = editor_inv e" "editor_inv (request_preview e) = editor_inv e"
  "editor_inv (request_zoom_target e) = editor_inv e" "editor_inv (set_zooms zs e) = editor_inv e"
  "editor_inv (animate_video_timeline_resize rm a b c d v w x y e) = editor_inv e"
  by (rule editor_inv_core; simp add: core_simps)+

lemma editor_invE:
  assumes "editor_inv e"
  obtains ss where "ed_segments e = Some ss"
    "timeline_ok (ed_source_start_secs e) (ed_source_end_secs e) ss"
    "ed_duration_secs e = segs_duration ss" "0 \<le> ed_current_time_secs e"
    "ed_current_time_secs e \<le> ed_duration_secs e"
    "ed_is_playing e \<longleftrightarrow> ed_playback_started_at e \<noteq> None"
    "\<forall>d. ed_video_segment_drag e = Some d \<longrightarrow> drag_ok (ed_source_start_secs e) (ed_source_end_secs e) ss d"
  using assms unfolding editor_inv_def by blast

lemma inv_duration: "editor_inv e \<Longrightarrow> 0 \<le> ed_duration_secs e"
  by (auto simp: editor_inv_def intro: total_len_nonneg)

subsection \<open>Playback\<close>

lemma inv_stop: "editor_inv e \<Longrightarrow> editor_inv (stop_playback e)"
  by (auto simp: editor_inv_def stop_playback_def)

lemma inv_set_time: "editor_inv e \<Longrightarrow> editor_inv (set_playback_time t e)"
proof -
  assume e: "editor_inv e"
  have "0 \<le> clamp t 0 (ed_duration_secs e) \<and> clamp t 0 (ed_duration_secs e) \<le> ed_duration_secs e"
    using inv_duration [OF e] by (rule clamp_bounds)
  with inv_stop [OF e] have "editor_inv ((stop_playback e)\<lparr>ed_current_time_secs := clamp t 0 (ed_duration_secs e)\<rparr>)"
    by (auto simp: editor_inv_def stop_playback_def)
  then show ?thesis by (simp add: set_playback_time_def Let_def stop_playback_def)
qed

lemma inv_toggle_playback: "editor_inv e \<Longrightarrow> editor_inv (toggle_playback sa now e)"
proof -
  assume e: "editor_inv e"
  define t where "t = (case ed_cursor_time_secs e of
       Some c \<Rightarrow> clamp c 0 (ed_duration_secs e)
     | None \<Rightarrow> if ed_duration_secs e \<le> ed_current_time_secs e then 0 else ed_current_time_secs e)"
  have t: "0 \<le> t \<and> t \<le> ed_duration_secs e"
    using inv_duration [OF e] clamp_bounds [of 0 "ed_duration_secs e"] e
    by (auto simp: t_def editor_inv_def split: option.splits)
  have *: "editor_inv (e\<lparr>ed_current_time_secs := t, ed_cursor_time_secs := None, ed_zoom_hover_range := None,
     ed_is_playing := True, ed_playback_generation := g, ed_last_playback_preview_time_secs := None,
     ed_playback_started_at := Some (now, t)\<rparr>)" for g
    using e t by (auto simp: editor_inv_def)
  then have "editor_inv (e\<lparr>ed_current_time_secs := t, ed_cursor_time_secs := None, ed_zoom_hover_range := None,
     ed_is_playing := True, ed_playback_generation := g, ed_last_playback_preview_time_secs := None,
     ed_playback_started_at := Some (now, t), ed_audio_playback := a\<rparr>)" for g a
    using e t by (auto simp: editor_inv_def)
  with * e show ?thesis
    by (simp add: toggle_playback_def Let_def t_def [symmetric] inv_stop)
qed

lemma inv_playback_frame: "editor_inv e \<Longrightarrow> editor_inv (fst (playback_frame g now e))"
proof -
  assume e: "editor_inv e"
  have *: "editor_inv (e\<lparr>ed_current_time_secs := fst (playback_position s x (ed_duration_secs e))\<rparr>)" for s x
    using e clamp_bounds [OF inv_duration [OF e]]
    by (auto simp: editor_inv_def playback_position_def Let_def)
  then show ?thesis using e
    by (auto simp: playback_frame_def Let_def split_beta split: option.splits intro!: inv_stop)
qed

lemma inv_receive_preview: "editor_inv e \<Longrightarrow> editor_inv (receive_preview r e)"
  by (erule editor_inv_core [THEN iffD1, rotated]) (simp add: receive_preview_def ed_core_def Let_def)

lemma inv_receive_target: "editor_inv e \<Longrightarrow> editor_inv (receive_zoom_target t fr e)"
  by (erule editor_inv_core [THEN iffD1, rotated])
    (simp add: receive_zoom_target_def ed_core_def split: option.splits)

subsection \<open>The segments\<close>

lemma timeline_ok_split:
  assumes ok: "timeline_ok lo hi ss" and ids: "\<forall>s \<in> set ss. vs_id s < u64_max"
    and res: "split_segments ss i t = Some (ss', k)"
  shows "timeline_ok lo hi ss' \<and> segs_duration ss' = segs_duration ss \<and> 0 \<le> t \<and> t \<le> segs_duration ss"
  using res
proof (rule split_segments_shape)
  fix xs ys :: "video_segment list" and s :: video_segment
  let ?l = "s\<lparr>vs_source_end_secs := vs_source_start_secs s + (t - segs_duration xs)\<rparr>"
  let ?r = "\<lparr>vs_id = k, vs_source_start_secs = vs_source_start_secs s + (t - segs_duration xs),
       vs_source_end_secs = vs_source_end_secs s\<rparr>"
  assume ss: "ss = xs @ s # ys"
    and off: "1 \<le> t - segs_duration xs" "1 \<le> vs_duration_secs s - (t - segs_duration xs)"
    and ss': "ss' = xs @ ?l # ?r # ys"
  have wf: "segs_wf ss" and w: "segs_within lo hi ss" using ok by (simp_all add: timeline_ok_def)
  have d: "vs_duration_secs s = vs_source_end_secs s - vs_source_start_secs s"
    using wf by (simp add: ss wf_duration)
  with off have len: "vs_duration_secs ?l = t - segs_duration xs"
    "vs_duration_secs ?r = vs_duration_secs s - (t - segs_duration xs)"
    by (simp_all add: vs_duration_secs_def)
  have "segs_within lo hi ss'" using w off d by (simp add: ss ss')
  moreover have "\<forall>s \<in> set ss'. 1/100 \<le> vs_source_end_secs s - vs_source_start_secs s"
    using ok off d by (auto simp: timeline_ok_def ss ss')
  moreover have "0 \<le> segs_duration xs" "0 \<le> segs_duration ys" by (simp_all add: total_len_nonneg)
  ultimately show ?thesis
    using split_segments_wf [OF wf ids res] len off by (simp add: timeline_ok_def ss ss')
qed

lemma inv_split:
  assumes inv: "editor_inv e" and ids: "ids_left e" and nd: "no_drag e"
  shows "editor_inv (split_video_segment i t e)"
proof -
  from inv obtain ss where ss: "ed_segments e = Some ss" by (rule editor_invE)
  show ?thesis
  proof (cases "split_segments ss i t")
    case None
    then show ?thesis using inv ss by (simp add: split_video_segment_def)
  next
    case (Some r)
    obtain ss' k where r: "r = (ss', k)" by (cases r)
    have "\<forall>s \<in> set ss. vs_id s < u64_max" using ids ss by (simp add: ids_left_def list_all_iff)
    moreover from inv ss have "timeline_ok (ed_source_start_secs e) (ed_source_end_secs e) ss"
      by (auto simp: editor_inv_def)
    ultimately show ?thesis
      using timeline_ok_split [of "ed_source_start_secs e" "ed_source_end_secs e" ss i t ss' k] Some
      by (simp add: split_video_segment_def ss r set_segments_def Let_def)
        (use inv ss nd in \<open>auto simp: editor_inv_def\<close>)
  qed
qed

lemma inv_select: "editor_inv e \<Longrightarrow> editor_inv (select_video_segment i e)"
  by (erule editor_inv_core [THEN iffD1, rotated])
    (simp add: select_video_segment_def ed_core_def split: option.splits)

lemma wf_forward: "segs_wf ss \<Longrightarrow> x \<in> set ss \<Longrightarrow> vs_source_start_secs x \<le> vs_source_end_secs x"
  by (simp add: segs_wf_def)

lemma around_segment:
  assumes wf: "segs_wf (xs @ s # ys)" and w: "segs_within lo hi (xs @ s # ys)"
  shows "x \<in> set xs \<Longrightarrow> lo \<le> vs_source_end_secs x \<and> vs_source_end_secs x \<le> vs_source_start_secs s"
    "y \<in> set ys \<Longrightarrow> vs_source_start_secs y \<le> hi \<and> vs_source_end_secs s \<le> vs_source_start_secs y"
proof -
  assume x: "x \<in> set xs"
  have "vs_source_end_secs x \<le> vs_source_start_secs s" using wf x by (simp add: segs_wf_simps)
  moreover have "lo \<le> vs_source_start_secs x" using w x by (simp add: segs_within_def)
  moreover have "vs_source_start_secs x \<le> vs_source_end_secs x" using wf_forward [OF wf] x by simp
  ultimately show "lo \<le> vs_source_end_secs x \<and> vs_source_end_secs x \<le> vs_source_start_secs s" by simp
next
  assume y: "y \<in> set ys"
  have "vs_source_end_secs s \<le> vs_source_start_secs y" using wf y by (simp add: segs_wf_simps)
  moreover have "vs_source_end_secs y \<le> hi" using w y by (simp add: segs_within_def)
  moreover have "vs_source_start_secs y \<le> vs_source_end_secs y" using wf_forward [OF wf] y by simp
  ultimately show "vs_source_start_secs y \<le> hi \<and> vs_source_end_secs s \<le> vs_source_start_secs y" by simp
qed

lemma around_id:
  assumes wf: "segs_wf (xs @ s # ys)" and x: "x \<in> set xs \<or> x \<in> set ys"
  shows "vs_id x \<noteq> vs_id s"
  using x
proof
  assume "x \<in> set xs"
  then have "vs_id x \<in> vs_id ` set xs" by (rule imageI)
  then show ?thesis using wf by (auto simp: segs_wf_simps)
next
  assume "x \<in> set ys"
  then have "vs_id x \<in> vs_id ` set ys" by (rule imageI)
  then show ?thesis using wf by (auto simp: segs_wf_simps)
qed

lemma timeline_ok_append:
  "timeline_ok lo hi (xs @ ys) \<longleftrightarrow> timeline_ok lo hi xs \<and> timeline_ok lo hi ys \<and>
     vs_id ` set xs \<inter> vs_id ` set ys = {} \<and>
     (\<forall>x \<in> set xs. \<forall>y \<in> set ys. vs_source_end_secs x \<le> vs_source_start_secs y)"
  unfolding timeline_ok_def segs_wf_append segs_within_simps set_append ball_Un by blast

lemma timeline_ok_Cons:
  "timeline_ok lo hi (s # ys) \<longleftrightarrow> timeline_ok lo hi ys \<and> lo \<le> vs_source_start_secs s \<and>
     vs_source_end_secs s \<le> hi \<and> 1/100 \<le> vs_source_end_secs s - vs_source_start_secs s \<and>
     vs_id s \<notin> vs_id ` set ys \<and> (\<forall>y \<in> set ys. vs_source_end_secs s \<le> vs_source_start_secs y)"
  unfolding timeline_ok_def segs_wf_Cons segs_within_simps list.set ball_simps by auto

lemmas timeline_ok_simps = timeline_ok_append timeline_ok_Cons

text \<open>Beginning a drag.\<close>

lemma drag_bounds:
  assumes ok: "timeline_ok lo hi ss" and n: "position (\<lambda>s. vs_id s = i) ss = Some n"
    and d: "vd_id d = i" "vd_original_source_start_secs d = vs_source_start_secs (ss ! n)"
      "vd_original_source_end_secs d = vs_source_end_secs (ss ! n)"
      "vd_draft_source_start_secs d = vs_source_start_secs (ss ! n)"
      "vd_draft_source_end_secs d = vs_source_end_secs (ss ! n)"
      "vd_minimum_source_start_secs d = unwrap_or (map_option vs_source_end_secs
          (Option.bind (checked_sub n 1) (list_get ss))) lo"
      "vd_maximum_source_end_secs d = unwrap_or (map_option vs_source_start_secs (list_get ss (n + 1))) hi"
  shows "drag_ok lo hi ss d"
proof -
  note p = position_split [OF n]
  let ?s = "ss ! n" and ?xs = "take n ss" and ?ys = "drop (Suc n) ss"
  have wf: "segs_wf (?xs @ ?s # ?ys)" and w: "segs_within lo hi (?xs @ ?s # ?ys)"
    and l: "1/100 \<le> vs_source_end_secs ?s - vs_source_start_secs ?s"
    using ok p(1,3) by (simp_all add: timeline_ok_def)
  have xlast: "vd_minimum_source_start_secs d = (if ?xs = [] then lo else vs_source_end_secs (last ?xs))"
  proof (cases n)
    case 0
    then show ?thesis by (simp add: d checked_sub_def)
  next
    case (Suc m)
    then have "last ?xs = ss ! m" using p(3) by (simp add: take_Suc_conv_app_nth)
    moreover have "list_get ss m = Some (ss ! m)" using Suc p(3) by (simp add: list_get_eq)
    moreover have "?xs \<noteq> []" using Suc p(3) by auto
    ultimately show ?thesis using Suc by (simp add: d checked_sub_def)
  qed
  have ylast: "vd_maximum_source_end_secs d = (if ?ys = [] then hi else vs_source_start_secs (hd ?ys))"
    by (simp add: d list_get_eq hd_drop_conv_nth)
  have before: "vs_source_end_secs x \<le> vd_minimum_source_start_secs d" if "x \<in> set ?xs" for x
  proof -
    from that obtain zs z where z: "?xs = zs @ [z]" by (metis append_butlast_last_id empty_iff empty_set)
    have "segs_wf (zs @ [z])" using wf unfolding z by (simp add: segs_wf_simps)
    then have "vs_source_end_secs x \<le> vs_source_end_secs z"
      using that unfolding z by (auto simp: segs_wf_simps intro: order_trans)
    then show ?thesis unfolding xlast z by simp
  qed
  have after: "vd_maximum_source_end_secs d \<le> vs_source_start_secs y" if "y \<in> set ?ys" for y
  proof -
    from that obtain z zs where z: "?ys = z # zs" by (cases ?ys) auto
    have "segs_wf (z # zs)" using wf unfolding z by (simp add: segs_wf_simps)
    then have "vs_source_start_secs z \<le> vs_source_start_secs y"
      using that unfolding z by (auto simp: segs_wf_simps intro: order_trans)
    then show ?thesis unfolding ylast z by simp
  qed
  have mn: "lo \<le> vd_minimum_source_start_secs d" "vd_minimum_source_start_secs d \<le> vs_source_start_secs ?s"
  proof -
    have "lo \<le> vs_source_end_secs x \<and> vs_source_end_secs x \<le> vs_source_start_secs ?s" if "x \<in> set ?xs" for x
      using around_segment(1) [OF wf w that] .
    then show "lo \<le> vd_minimum_source_start_secs d" "vd_minimum_source_start_secs d \<le> vs_source_start_secs ?s"
      using w unfolding xlast by auto
  qed
  have mx: "vd_maximum_source_end_secs d \<le> hi" "vs_source_end_secs ?s \<le> vd_maximum_source_end_secs d"
  proof -
    have "vs_source_start_secs x \<le> hi \<and> vs_source_end_secs ?s \<le> vs_source_start_secs x" if "x \<in> set ?ys" for x
      using around_segment(2) [OF wf w that] .
    then show "vd_maximum_source_end_secs d \<le> hi" "vs_source_end_secs ?s \<le> vd_maximum_source_end_secs d"
      using w hd_in_set [of ?ys] unfolding ylast by auto
  qed
  have ids: "\<forall>x \<in> set ?xs \<union> set ?ys. vs_id x \<noteq> i"
    using around_id [OF wf] p(2) by fastforce
  have "\<forall>s \<in> set (?xs @ ?s # ?ys). if vs_id s = vd_id d
        then vs_source_start_secs s = vd_original_source_start_secs d \<and>
             vs_source_end_secs s = vd_original_source_end_secs d
        else vs_source_end_secs s \<le> vd_minimum_source_start_secs d \<or>
             vd_maximum_source_end_secs d \<le> vs_source_start_secs s"
    using ids before after p(2) by (auto simp: d(1-3))
  then show ?thesis using mn mx l p(1) by (simp add: drag_ok_def d(2-5))
qed

lemma inv_begin_drag: "editor_inv e \<Longrightarrow> editor_inv (begin_video_segment_drag i edge p e)"
proof -
  assume inv: "editor_inv e"
  then obtain ss where ss: "ed_segments e = Some ss"
    and ok: "timeline_ok (ed_source_start_secs e) (ed_source_end_secs e) ss" by (rule editor_invE)
  show ?thesis
  proof (cases "position (\<lambda>s. vs_id s = i) ss")
    case None
    with inv ss show ?thesis by (simp add: begin_video_segment_drag_def)
  next
    case (Some n)
    show ?thesis
      using inv drag_bounds [OF ok Some]
      by (auto simp: begin_video_segment_drag_def ss Some editor_inv_def Let_def)
  qed
qed

lemma drag_ok_draft:
  assumes "drag_ok lo hi ss d"
    and "resize_video_segment_range (vd_edge d) (vd_original_source_start_secs d) (vd_original_source_end_secs d)
      (vd_minimum_source_start_secs d) (vd_maximum_source_end_secs d) x = (a, b)"
  shows "drag_ok lo hi ss (d\<lparr>vd_draft_source_start_secs := a, vd_draft_source_end_secs := b\<rparr>)"
  using assms(1) resize_range_bounds [OF assms(2)] by (simp add: drag_ok_def)

lemma inv_drag: "editor_inv e \<Longrightarrow> editor_inv (fst (drag_video_segment p dragging e))"
proof -
  assume inv: "editor_inv e"
  show ?thesis
  proof (cases "ed_video_segment_drag e")
    case None
    with inv show ?thesis by (simp add: drag_video_segment_def)
  next
    case (Some d)
    have "editor_inv (e\<lparr>ed_video_segment_drag := Some (d\<lparr>vd_draft_source_start_secs := a, vd_draft_source_end_secs := b\<rparr>)\<rparr>)"
      if "resize_video_segment_range (vd_edge d) (vd_original_source_start_secs d) (vd_original_source_end_secs d)
      (vd_minimum_source_start_secs d) (vd_maximum_source_end_secs d) x = (a, b)" for x a b
      using inv Some drag_ok_draft [OF _ that] by (auto simp: editor_inv_def)
    with inv Some show ?thesis
      by (auto simp: drag_video_segment_def Let_def split: option.splits prod.splits intro!: inv_set_time)
  qed
qed

text \<open>Finishing a drag.\<close>

lemma update_segment_split:
  "list_ex (\<lambda>s. vs_id s = i) ss \<Longrightarrow>
   \<exists>xs s ys. ss = xs @ s # ys \<and> vs_id s = i \<and> update_segment i f ss = xs @ f s # ys"
proof (induction ss)
  case Nil
  then show ?case by simp
next
  case (Cons u us)
  show ?case
  proof (cases "vs_id u = i")
    case True
    then have "u # us = [] @ u # us \<and> vs_id u = i \<and> update_segment i f (u # us) = [] @ f u # us" by simp
    then show ?thesis by blast
  next
    case False
    with Cons obtain xs s ys where "us = xs @ s # ys" "vs_id s = i" "update_segment i f us = xs @ f s # ys" by auto
    with False have "u # us = (u # xs) @ s # ys \<and> vs_id s = i \<and> update_segment i f (u # us) = (u # xs) @ f s # ys"
      by simp
    then show ?thesis by blast
  qed
qed

lemma timeline_ok_drag:
  assumes ok: "timeline_ok lo hi ss" and d: "drag_ok lo hi ss d" and ex: "list_ex (\<lambda>s. vs_id s = vd_id d) ss"
  shows "timeline_ok lo hi (update_segment (vd_id d) (\<lambda>s. s\<lparr>
     vs_source_start_secs := vd_draft_source_start_secs d, vs_source_end_secs := vd_draft_source_end_secs d\<rparr>) ss)"
proof -
  let ?f = "\<lambda>s. s\<lparr>vs_source_start_secs := vd_draft_source_start_secs d, vs_source_end_secs := vd_draft_source_end_secs d\<rparr>"
  from update_segment_split [OF ex, of ?f] obtain xs s ys where
    ss: "ss = xs @ s # ys" and i: "vs_id s = vd_id d" and u: "update_segment (vd_id d) ?f ss = xs @ ?f s # ys" by blast
  have wf: "segs_wf (xs @ s # ys)" and w: "segs_within lo hi (xs @ s # ys)"
    and l: "\<forall>s \<in> set (xs @ s # ys). 1/100 \<le> vs_source_end_secs s - vs_source_start_secs s"
    using ok by (simp_all add: timeline_ok_def ss)
  have s: "vs_source_start_secs s = vd_original_source_start_secs d"
    "vs_source_end_secs s = vd_original_source_end_secs d"
    using d i by (auto simp: drag_ok_def ss)
  have ids: "\<forall>x \<in> set xs \<union> set ys. vs_id x \<noteq> vd_id d"
    using around_id [OF wf] i by fastforce
  have before: "vs_source_end_secs x \<le> vd_draft_source_start_secs d" if "x \<in> set xs" for x
  proof -
    have "vs_source_end_secs x \<le> vd_minimum_source_start_secs d \<or> vd_maximum_source_end_secs d \<le> vs_source_start_secs x"
      using d that ids by (auto simp: drag_ok_def ss)
    moreover have "vs_source_end_secs x \<le> vs_source_start_secs s" using around_segment(1) [OF wf w that] by simp
    moreover have "1/100 \<le> vs_source_end_secs x - vs_source_start_secs x" using l that by simp
    ultimately show ?thesis using d s by (auto simp: drag_ok_def)
  qed
  have after: "vd_draft_source_end_secs d \<le> vs_source_start_secs y" if "y \<in> set ys" for y
  proof -
    have "vs_source_end_secs y \<le> vd_minimum_source_start_secs d \<or> vd_maximum_source_end_secs d \<le> vs_source_start_secs y"
      using d that ids by (auto simp: drag_ok_def ss)
    moreover have "vs_source_end_secs s \<le> vs_source_start_secs y" using around_segment(2) [OF wf w that] by simp
    moreover have "1/100 \<le> vs_source_end_secs y - vs_source_start_secs y" using l that by simp
    ultimately show ?thesis using d s by (auto simp: drag_ok_def)
  qed
  have dd: "1/100 \<le> vd_draft_source_end_secs d - vd_draft_source_start_secs d"
    "lo \<le> vd_draft_source_start_secs d" "vd_draft_source_end_secs d \<le> hi" using d by (auto simp: drag_ok_def)
  show ?thesis
    using ok [unfolded ss timeline_ok_simps] before after dd unfolding u timeline_ok_simps by simp
qed

text \<open>What the invariant needs of a state with new segments and no drag in progress.\<close>

lemma editor_invI:
  assumes "ed_segments e' = Some ss" "timeline_ok (ed_source_start_secs e') (ed_source_end_secs e') ss"
    "ed_duration_secs e' = segs_duration ss"
    "0 \<le> ed_current_time_secs e'" "ed_current_time_secs e' \<le> segs_duration ss"
    "ed_is_playing e' \<longleftrightarrow> ed_playback_started_at e' \<noteq> None"
    "\<And>d. ed_video_segment_drag e' = Some d \<Longrightarrow> drag_ok (ed_source_start_secs e') (ed_source_end_secs e') ss d"
  shows "editor_inv e'"
  using assms by (simp add: editor_inv_def)

lemma inv_finish_drag: "editor_inv e \<Longrightarrow> editor_inv (finish_video_segment_drag rm e)"
proof -
  assume inv: "editor_inv e"
  from inv obtain ss where ss: "ed_segments e = Some ss"
    and ok: "timeline_ok (ed_source_start_secs e) (ed_source_end_secs e) ss"
    and dur: "ed_duration_secs e = segs_duration ss" and cur: "0 \<le> ed_current_time_secs e"
    and cur': "ed_current_time_secs e \<le> ed_duration_secs e"
    and play: "ed_is_playing e \<longleftrightarrow> ed_playback_started_at e \<noteq> None"
    and dok: "\<forall>d. ed_video_segment_drag e = Some d \<longrightarrow> drag_ok (ed_source_start_secs e) (ed_source_end_secs e) ss d"
    by (rule editor_invE)
  show ?thesis
  proof (cases "ed_video_segment_drag e")
    case None
    with inv show ?thesis by (simp add: finish_video_segment_drag_def)
  next
    case (Some d)
    have none: "editor_inv (e\<lparr>ed_video_segment_drag := None\<rparr>)" using inv by (auto simp: editor_inv_def)
    show ?thesis
    proof (cases "list_ex (\<lambda>s. vs_id s = vd_id d) ss")
      case False
      with none ss Some show ?thesis by (simp add: finish_video_segment_drag_def Let_def)
    next
      case True
      let ?ss = "update_segment (vd_id d) (\<lambda>s. s\<lparr>vs_source_start_secs := vd_draft_source_start_secs d,
        vs_source_end_secs := vd_draft_source_end_secs d\<rparr>) ss"
      have "0 \<le> segs_duration ?ss" by (rule total_len_nonneg) simp
      with True ss Some timeline_ok_drag [OF ok dok [rule_format, OF Some] True] cur play show ?thesis
        by (simp add: finish_video_segment_drag_def Let_def)
          (intro conjI impI; rule editor_invI [of _ ?ss]; simp add: set_zooms_def set_segments_def video_timeline_duration_def)
    qed
  qed
qed

lemma drag_ok_subset: "set ss' \<subseteq> set ss \<Longrightarrow> drag_ok lo hi ss d \<Longrightarrow> drag_ok lo hi ss' d"
  unfolding drag_ok_def by blast

lemma remove_at_split: "i < length xs \<Longrightarrow> \<exists>ys zs. xs = ys @ xs ! i # zs \<and> remove_at i xs = ys @ zs \<and> length ys = i"
  unfolding remove_at_def by (intro exI [of _ "take i xs"] exI [of _ "drop (Suc i) xs"]) (simp add: id_take_nth_drop)

lemma inv_delete_video: "editor_inv e \<Longrightarrow> editor_inv (delete_selected_video_segment e)"
proof -
  assume inv: "editor_inv e"
  from inv obtain ss where ss: "ed_segments e = Some ss"
    and ok: "timeline_ok (ed_source_start_secs e) (ed_source_end_secs e) ss"
    and dur: "ed_duration_secs e = segs_duration ss" and cur: "0 \<le> ed_current_time_secs e"
    and cur': "ed_current_time_secs e \<le> ed_duration_secs e"
    and play: "ed_is_playing e \<longleftrightarrow> ed_playback_started_at e \<noteq> None"
    and dok: "\<forall>d. ed_video_segment_drag e = Some d \<longrightarrow> drag_ok (ed_source_start_secs e) (ed_source_end_secs e) ss d"
    by (rule editor_invE)
  show ?thesis
  proof (cases "can_delete_video_segment e \<and> (\<exists>i n. ed_selected_video_segment e = Some i \<and>
      position (\<lambda>s. vs_id s = i) ss = Some n)")
    case False
    with inv ss show ?thesis by (auto simp: delete_selected_video_segment_def split: option.splits)
  next
    case True
    then obtain i n where can: "can_delete_video_segment e" and i: "ed_selected_video_segment e = Some i"
      and n: "position (\<lambda>s. vs_id s = i) ss = Some n" by blast
    from remove_at_split [OF position_split(3) [OF n]] obtain ys zs where
      yz: "ss = ys @ ss ! n # zs" "remove_at n ss = ys @ zs" "length ys = n" by blast
    have ok': "timeline_ok (ed_source_start_secs e) (ed_source_end_secs e) (ys @ zs)"
      using ok by (subst (asm) yz(1)) (simp add: timeline_ok_simps)
    have tk: "take n ss = ys" by (subst yz(1)) (simp add: yz(3))
    have sub: "set (ys @ zs) \<subseteq> set ss" by (subst yz(1)) auto
    have dok': "drag_ok (ed_source_start_secs e) (ed_source_end_secs e) (ys @ zs) d"
      if "ed_video_segment_drag e = Some d" for d
      using drag_ok_subset [OF sub dok [rule_format, OF that]] .
    have nn: "0 \<le> segs_duration ys" "0 \<le> segs_duration zs" by (simp_all add: total_len_nonneg)
    show ?thesis
      using can i ss n ok' dok' nn play yz(2) tk
      by (simp add: delete_selected_video_segment_def Let_def)
        (intro conjI impI; rule editor_invI [of _ "ys @ zs"]; simp add: set_zooms_def set_segments_def video_timeline_duration_def)
  qed
qed

lemma inv_delete_selected: "editor_inv e \<Longrightarrow> editor_inv (delete_selected e)"
proof -
  assume inv: "editor_inv e"
  have "editor_inv ((set_zooms zs e)\<lparr>ed_selected_zoom := None, ed_zoom_segment_drag := None,
      ed_dragging_zoom_target := False, ed_current_screen_frame := None\<rparr>)" for zs
    using inv by (auto simp: editor_inv_def set_zooms_def)
  with inv inv_delete_video show ?thesis
    by (auto simp: delete_selected_def Let_def split: option.splits)
qed

text \<open>Growing or dropping a segment.\<close>

lemma timeline_ok_drop:
  "timeline_ok lo hi (xs @ l # ys) \<Longrightarrow> timeline_ok lo hi (xs @ ys)"
  by (simp add: timeline_ok_simps)

lemma timeline_ok_replace:
  assumes ok: "timeline_ok lo hi (xs @ l # ys)" and i: "vs_id m = vs_id l"
    and s: "lo \<le> vs_source_start_secs m" "\<forall>x \<in> set xs. vs_source_end_secs x \<le> vs_source_start_secs m"
    and e: "vs_source_end_secs m \<le> hi" "\<forall>y \<in> set ys. vs_source_end_secs m \<le> vs_source_start_secs y"
    and len: "1/100 \<le> vs_source_end_secs m - vs_source_start_secs m"
  shows "timeline_ok lo hi (xs @ m # ys)"
  using ok [unfolded timeline_ok_simps] s e len unfolding timeline_ok_simps by (simp add: i)

text \<open>Cuts. No drag is in progress when a cut is clicked.\<close>

lemma timeline_ok_cut:
  assumes ok: "timeline_ok lo hi ss" and res: "edit_video_cut ss i = Some (ss', c)"
  shows "timeline_ok lo hi ss' \<and> 0 \<le> vce_inserted_duration_secs c \<and>
    segs_duration ss + vce_inserted_duration_secs c \<le> segs_duration ss'"
proof -
  have wf: "segs_wf ss" using ok by (simp add: timeline_ok_def)
  from wf res obtain xs l r ys where
    ss: "ss = xs @ l # r # ys" and "vs_id r = i" and
    c: "c = \<lparr>vce_timeline_start_secs = segs_duration (xs @ [l]),
          vce_inserted_duration_secs = (if f64_epsilon < vs_source_start_secs r - vs_source_end_secs l
             then vs_source_start_secs r - vs_source_end_secs l else 0),
          vce_left_id = vs_id l,
          vce_removed_id = (if f64_epsilon < vs_source_start_secs r - vs_source_end_secs l
             then None else Some i)\<rparr>" and
    ss': "ss' = (if f64_epsilon < vs_source_start_secs r - vs_source_end_secs l
            then xs @ l\<lparr>vs_source_end_secs := vs_source_start_secs r\<rparr> # r # ys
            else xs @ l\<lparr>vs_source_end_secs := vs_source_end_secs r\<rparr> # ys)" by (rule edit_video_cut_shape)
  have e: "vce_inserted_duration_secs c = (if f64_epsilon < vs_source_start_secs r - vs_source_end_secs l
             then vs_source_start_secs r - vs_source_end_secs l else 0)" by (simp add: c)
  have ll: "0 < f64_epsilon" by (simp add: f64_epsilon_def)
  have d: "vs_source_start_secs l \<le> vs_source_end_secs l" "vs_source_end_secs l \<le> vs_source_start_secs r"
    "vs_source_start_secs r \<le> vs_source_end_secs r"
    using ok by (simp_all add: ss timeline_ok_simps)
  have y: "\<forall>y \<in> set ys. vs_source_end_secs r \<le> vs_source_start_secs y"
    using ok by (simp add: ss timeline_ok_simps)
  then have y': "\<forall>y \<in> set ys. vs_source_start_secs r \<le> vs_source_start_secs y"
    using d(3) by (auto intro: order_trans)
  have lx: "\<forall>x \<in> set xs. vs_source_end_secs x \<le> vs_source_start_secs l" "lo \<le> vs_source_start_secs l"
    "1/100 \<le> vs_source_end_secs l - vs_source_start_secs l" "vs_source_end_secs r \<le> hi"
    using ok by (simp_all add: ss timeline_ok_simps)
  have "timeline_ok lo hi (xs @ l\<lparr>vs_source_end_secs := vs_source_start_secs r\<rparr> # r # ys)"
    by (rule timeline_ok_replace [OF ok [unfolded ss]]) (use lx d y' in simp_all)
  moreover have "timeline_ok lo hi ((xs @ [l]) @ ys)"
    by (rule timeline_ok_drop [of _ _ _ r]) (use ok in \<open>simp add: ss\<close>)
  then have "timeline_ok lo hi (xs @ l # ys)" by simp
  then have "timeline_ok lo hi (xs @ l\<lparr>vs_source_end_secs := vs_source_end_secs r\<rparr> # ys)"
    by (rule timeline_ok_replace [of lo hi xs l ys]) (use lx d y in simp_all)
  ultimately have ok': "timeline_ok lo hi ss'" unfolding ss' by simp
  have "segs_duration ss + vce_inserted_duration_secs c \<le> segs_duration ss'"
    using d unfolding e by (simp add: ss ss' vs_duration_secs_def)
  moreover have "0 \<le> vce_inserted_duration_secs c" using ll unfolding e by simp
  ultimately show ?thesis using ok' by blast
qed

lemma apply_cut_fields:
  "ed_segments (apply_video_cut ss' c e) = Some ss'"
  "ed_source_start_secs (apply_video_cut ss' c e) = ed_source_start_secs e"
  "ed_source_end_secs (apply_video_cut ss' c e) = ed_source_end_secs e"
  "ed_is_playing (apply_video_cut ss' c e) = ed_is_playing e"
  "ed_playback_started_at (apply_video_cut ss' c e) = ed_playback_started_at e"
  "ed_video_segment_drag (apply_video_cut ss' c e) = ed_video_segment_drag e"
  "ed_duration_secs (apply_video_cut ss' c e) = segs_duration ss'"
  "ed_current_time_secs (apply_video_cut ss' c e) =
     (if 0 < vce_inserted_duration_secs c \<and> vce_timeline_start_secs c \<le> ed_current_time_secs e
      then ed_current_time_secs e + vce_inserted_duration_secs c else ed_current_time_secs e)"
  by (cases "0 < vce_inserted_duration_secs c"; cases "ed_selected_video_segment e = vce_removed_id c";
    simp add: apply_video_cut_def set_segments_def set_zooms_def video_timeline_duration_def Let_def)+

lemma inv_cut: "editor_inv e \<Longrightarrow> no_drag e \<Longrightarrow> editor_inv (activate_video_cut rm i e)"
proof -
  assume inv: "editor_inv e" and nd: "no_drag e"
  from inv obtain ss where ss: "ed_segments e = Some ss"
    and ok: "timeline_ok (ed_source_start_secs e) (ed_source_end_secs e) ss"
    and dur: "ed_duration_secs e = segs_duration ss" and cur: "0 \<le> ed_current_time_secs e"
    and cur': "ed_current_time_secs e \<le> ed_duration_secs e"
    and play: "ed_is_playing e \<longleftrightarrow> ed_playback_started_at e \<noteq> None"
    and dok: "\<forall>d. ed_video_segment_drag e = Some d \<longrightarrow> drag_ok (ed_source_start_secs e) (ed_source_end_secs e) ss d"
    by (rule editor_invE)
  show ?thesis
  proof (cases "edit_video_cut ss i")
    case None
    with inv ss show ?thesis by (simp add: activate_video_cut_def Let_def)
  next
    case (Some r)
    obtain ss' c where r: "r = (ss', c)" by (cases r)
    note k = timeline_ok_cut [OF ok Some [unfolded r]]
    have *: "editor_inv ((apply_video_cut ss' c e)\<lparr>ed_cursor_time_secs := None\<rparr>)"
      using nd k dur cur cur' play
      by (intro editor_invI [of _ ss'])
        (simp_all add: apply_cut_fields)
    have **: "editor_inv (x\<lparr>ed_resize_generation := g, ed_resize_animation := None,
        ed_timeline_view_start_secs := a, ed_timeline_view_duration_secs := b\<rparr>)" if "editor_inv x" for x g a b
      using that by (auto simp: editor_inv_def)
    show ?thesis using * **
      by (simp add: activate_video_cut_def ss Some r Let_def split_beta)
  qed
qed

text \<open>The marks at the recording's ends, shown on the outer edges only.\<close>

lemma position_id:
  assumes wf: "segs_wf (xs @ s # ys)"
  shows "position (\<lambda>u. vs_id u = vs_id s) (xs @ s # ys) = Some (length xs)"
proof -
  have "position (\<lambda>u. vs_id u = vs_id s) xs = None"
    using around_id [OF wf] by (auto simp: position_None_iff)
  then show ?thesis by (simp add: position_append)
qed

lemma timeline_ok_edge:
  assumes ok: "timeline_ok lo hi ss" and m: "edge_mark_shown e i edge" "ed_segments e = Some ss"
    and res: "restore_segment_edge lo hi ss i edge = Some (ss', at', ins)"
  shows "timeline_ok lo hi ss' \<and> 0 \<le> ins \<and> segs_duration ss' = segs_duration ss + ins"
proof (cases edge)
  case EdgeStart
  with m obtain s ys where ss: "ss = [] @ s # ys" and i: "i = vs_id s"
    by (cases ss) (auto simp: edge_mark_shown_def)
  have "segs_wf ([] @ s # ys)" using ok by (simp only: ss timeline_ok_def)
  from position_id [OF this] have pos: "position (\<lambda>u. vs_id u = i) (s # ys) = Some 0" by (simp add: i)
  from res EdgeStart pos have ss': "ss' = [] @ s\<lparr>vs_source_start_secs := lo\<rparr> # ys"
    and ins: "ins = max (vs_source_start_secs s - lo) 0"
    by (auto simp: restore_segment_edge_def ss Let_def split: if_splits)
  have b: "lo \<le> vs_source_start_secs s" "vs_source_end_secs s \<le> hi"
    "1/100 \<le> vs_source_end_secs s - vs_source_start_secs s"
    "\<forall>y \<in> set ys. vs_source_end_secs s \<le> vs_source_start_secs y"
    using ok by (simp_all add: ss timeline_ok_simps)
  have "timeline_ok lo hi ss'" unfolding ss'
    by (rule timeline_ok_replace [OF ok [unfolded ss]]) (use b in simp_all)
  with b show ?thesis by (simp add: ss ss' ins vs_duration_secs_def)
next
  case EdgeEnd
  from m have ne: "ss \<noteq> []" and l: "vs_id (last ss) = i" by (auto simp: edge_mark_shown_def EdgeEnd)
  define xs s where "xs = butlast ss" and "s = last ss"
  have ss: "ss = xs @ s # []" and i: "i = vs_id s" using ne l by (simp_all add: xs_def s_def)
  have "segs_wf (xs @ s # [])" using ok by (simp only: ss timeline_ok_def)
  from position_id [OF this] have pos: "position (\<lambda>u. vs_id u = i) (xs @ [s]) = Some (length xs)" by (simp add: i)
  from res EdgeEnd pos have ss': "ss' = xs @ s\<lparr>vs_source_end_secs := hi\<rparr> # []"
    and ins: "ins = max (hi - vs_source_end_secs s) 0"
    by (auto simp: restore_segment_edge_def ss Let_def list_update_append split: if_splits)
  have b: "lo \<le> vs_source_start_secs s" "vs_source_end_secs s \<le> hi"
    "1/100 \<le> vs_source_end_secs s - vs_source_start_secs s"
    "\<forall>x \<in> set xs. vs_source_end_secs x \<le> vs_source_start_secs s"
    using ok by (simp_all add: ss timeline_ok_simps)
  have "timeline_ok lo hi ss'" unfolding ss'
    by (rule timeline_ok_replace [OF ok [unfolded ss]]) (use b in simp_all)
  with b show ?thesis by (simp add: ss ss' ins vs_duration_secs_def)
qed

lemma restored_edge_fields:
  "ed_segments (apply_restored_edge ss' a n e) = Some ss'"
  "ed_source_start_secs (apply_restored_edge ss' a n e) = ed_source_start_secs e"
  "ed_source_end_secs (apply_restored_edge ss' a n e) = ed_source_end_secs e"
  "ed_is_playing (apply_restored_edge ss' a n e) = ed_is_playing e"
  "ed_playback_started_at (apply_restored_edge ss' a n e) = ed_playback_started_at e"
  "ed_video_segment_drag (apply_restored_edge ss' a n e) = ed_video_segment_drag e"
  "ed_duration_secs (apply_restored_edge ss' a n e) = segs_duration ss'"
  "ed_current_time_secs (apply_restored_edge ss' a n e) =
     (if a \<le> ed_current_time_secs e then ed_current_time_secs e + n else ed_current_time_secs e)"
  by (simp_all add: apply_restored_edge_def set_segments_def set_zooms_def video_timeline_duration_def Let_def)

lemma inv_edge:
  assumes inv: "editor_inv e" and nd: "no_drag e" and m: "edge_mark_shown e i edge"
  shows "editor_inv (activate_video_segment_edge rm i edge e)"
proof -
  from inv obtain ss where ss: "ed_segments e = Some ss"
    and ok: "timeline_ok (ed_source_start_secs e) (ed_source_end_secs e) ss"
    and dur: "ed_duration_secs e = segs_duration ss" and cur: "0 \<le> ed_current_time_secs e"
    and cur': "ed_current_time_secs e \<le> ed_duration_secs e"
    and play: "ed_is_playing e \<longleftrightarrow> ed_playback_started_at e \<noteq> None"
    and "\<forall>d. ed_video_segment_drag e = Some d \<longrightarrow> drag_ok (ed_source_start_secs e) (ed_source_end_secs e) ss d"
    by (rule editor_invE)
  show ?thesis
  proof (cases "restore_segment_edge (ed_source_start_secs e) (ed_source_end_secs e) ss i edge")
    case None
    with inv ss show ?thesis by (simp add: activate_video_segment_edge_def Let_def)
  next
    case (Some r)
    obtain ss' a n where r: "r = (ss', a, n)" by (cases r)
    note k = timeline_ok_edge [OF ok m ss Some [unfolded r]]
    have *: "editor_inv ((apply_restored_edge ss' a n e)\<lparr>ed_cursor_time_secs := None\<rparr>)"
      using nd k dur cur cur' play
      by (intro editor_invI [of _ ss']) (simp_all add: restored_edge_fields)
    then show ?thesis
      by (simp add: activate_video_segment_edge_def ss Some r Let_def split_beta)
  qed
qed

subsection \<open>The other handlers\<close>

text \<open>They touch nothing the invariant reads, or go through \<open>set_playback_time\<close> and \<open>stop_playback\<close>.\<close>

lemma core_updates [core_simps]:
  "ed_core (e\<lparr>ed_selected_input := v0\<rparr>) = ed_core e"
  "ed_core (e\<lparr>ed_selected_zoom := v1\<rparr>) = ed_core e"
  "ed_core (e\<lparr>ed_selected_video_segment := v2\<rparr>) = ed_core e"
  "ed_core (e\<lparr>ed_cut_mode := v3\<rparr>) = ed_core e"
  "ed_core (e\<lparr>ed_timeline_view_start_secs := v4\<rparr>) = ed_core e"
  "ed_core (e\<lparr>ed_timeline_view_duration_secs := v5\<rparr>) = ed_core e"
  "ed_core (e\<lparr>ed_playback_generation := v6\<rparr>) = ed_core e"
  "ed_core (e\<lparr>ed_cursor_time_secs := v7\<rparr>) = ed_core e"
  "ed_core (e\<lparr>ed_zoom_hover_range := v8\<rparr>) = ed_core e"
  "ed_core (e\<lparr>ed_current_frame := v9\<rparr>) = ed_core e"
  "ed_core (e\<lparr>ed_last_playback_preview_time_secs := v10\<rparr>) = ed_core e"
  "ed_core (e\<lparr>ed_current_screen_frame := v11\<rparr>) = ed_core e"
  "ed_core (e\<lparr>ed_active_slider := v12\<rparr>) = ed_core e"
  "ed_core (e\<lparr>ed_dragging_zoom_target := v13\<rparr>) = ed_core e"
  "ed_core (e\<lparr>ed_zoom_segment_drag := v14\<rparr>) = ed_core e"
  "ed_core (e\<lparr>ed_resize_animation := v15\<rparr>) = ed_core e"
  "ed_core (e\<lparr>ed_resize_generation := v16\<rparr>) = ed_core e"
  "ed_core (e\<lparr>ed_settings_dialog_open := v17\<rparr>) = ed_core e"
  "ed_core (e\<lparr>ed_aspect_ratio_dropdown_open := v18\<rparr>) = ed_core e"
  "ed_core (e\<lparr>ed_aspect_ratio_dropdown_visible := v19\<rparr>) = ed_core e"
  "ed_core (e\<lparr>ed_aspect_ratio_dropdown_transition := v20\<rparr>) = ed_core e"
  "ed_core (e\<lparr>ed_crop_dialog_open := v21\<rparr>) = ed_core e"
  "ed_core (e\<lparr>ed_crop_draft := v22\<rparr>) = ed_core e"
  "ed_core (e\<lparr>ed_crop_drag := v23\<rparr>) = ed_core e"
  "ed_core (e\<lparr>ed_crop_frame := v24\<rparr>) = ed_core e"
  "ed_core (e\<lparr>ed_export_dialog_open := v25\<rparr>) = ed_core e"
  "ed_core (e\<lparr>ed_audio_playback := v26\<rparr>) = ed_core e"
  "ed_core (e\<lparr>ed_effects := v27\<rparr>) = ed_core e"
  "ed_core (e\<lparr>ed_background_preset := v28\<rparr>) = ed_core e"
  by (simp_all add: ed_core_def)

lemma core_bundle [core_simps]:
  "ed_core (set_screen_crop c e) = ed_core e" "ed_core (set_appearance f e) = ed_core e"
  "ed_core (set_camera_layout g e) = ed_core e"
  by (simp_all add: ed_core_def set_screen_crop_def set_appearance_def set_camera_layout_def)

lemma core_measured [core_simps]: "ed_core (measure_area area b e) = ed_core e"
  by (cases area) (simp_all add: ed_core_def)

lemma core_inv: "ed_core e' = ed_core e \<Longrightarrow> editor_inv e \<Longrightarrow> editor_inv e'"
  using editor_inv_core by blast

lemma core_handlers [core_simps]:
  "ed_core (mouse_exit e) = ed_core e"
  "ed_core (toggle_cut_mode e) = ed_core e"
  "ed_core (begin_zoom_segment_drag i k p e) = ed_core e"
  "ed_core (add_zoom a b e) = ed_core e"
  "ed_core (finish_zoom_segment_drag e) = ed_core e"
  "ed_core (set_zoom_amount x e) = ed_core e"
  "ed_core (set_zoom_transition tr e) = ed_core e"
  "ed_core (set_zoom_target p e) = ed_core e"
  "ed_core (close_aspect_ratio_dropdown e) = ed_core e"
  "ed_core (dropdown_hidden n e) = ed_core e"
  "ed_core (begin_screen_crop p e) = ed_core e"
  "ed_core (apply_screen_crop e) = ed_core e"
  "ed_core (close_crop_dialog e) = ed_core e"
  "ed_core (zoom_timeline p delta e) = ed_core e"
  "ed_core (pan_timeline p pr dx e) = ed_core e"
  "ed_core (update_timeline_hover p e) = ed_core e"
  by (simp_all add: mouse_exit_def toggle_cut_mode_def begin_zoom_segment_drag_def add_zoom_def
    finish_zoom_segment_drag_def set_zoom_amount_def set_zoom_transition_def set_zoom_target_def
    close_aspect_ratio_dropdown_def dropdown_hidden_def begin_screen_crop_def apply_screen_crop_def
    close_crop_dialog_def zoom_timeline_def pan_timeline_def update_timeline_hover_def
    core_simps Let_def split_beta split: option.splits)

lemma core_handlers2 [core_simps]:
  "ed_core (toggle_aspect_ratio_dropdown e) = ed_core e"
  "ed_core (set_slider_value k x e) = ed_core e"
  by (simp_all add: toggle_aspect_ratio_dropdown_def set_slider_value_def core_simps Let_def
    split: slider_kind.splits)

lemma core_choices [core_simps]:
  "ed_core (on_slider_mouse_down k x e) = ed_core e"
  "ed_core (on_zoom_target_mouse_down p e) = ed_core e"
  "ed_core (choose_background_type t e) = ed_core e"
  "ed_core (choose_background_preset n name e) = ed_core e"
  "ed_core (choose_camera_position place e) = ed_core e"
  "ed_core (choose_camera_crop crop e) = ed_core e"
  "ed_core (choose_resize_mode mode e) = ed_core e"
  "ed_core (choose_aspect_ratio ratio e) = ed_core e"
  "ed_core (keep_export_settings settings e) = ed_core e"
  "ed_core (open_settings_dialog e) = ed_core e"
  by (simp_all add: on_slider_mouse_down_def on_zoom_target_mouse_down_def choose_background_type_def
    choose_background_preset_def choose_camera_position_def choose_camera_crop_def choose_resize_mode_def
    choose_aspect_ratio_def keep_export_settings_def open_settings_dialog_def core_simps)
    (simp_all add: ed_core_def)

lemma core_animation [core_simps]: "ed_core (fst (resize_animation_tick a t e)) = ed_core e"
  by (simp add: resize_animation_tick_def core_simps Let_def)

lemma inv_open_crop: "editor_inv e \<Longrightarrow> editor_inv (open_crop_dialog e)"
proof -
  assume "editor_inv e"
  then have "editor_inv (stop_playback e)" by (rule inv_stop)
  then show ?thesis
    by (rule core_inv [rotated]) (simp add: open_crop_dialog_def core_simps Let_def)
qed

lemma inv_drag_zoom: "editor_inv e \<Longrightarrow> editor_inv (fst (drag_zoom_segment p dragging e))"
proof -
  assume inv: "editor_inv e"
  have up: "editor_inv (e\<lparr>ed_zoom_segment_drag := d\<rparr>)" for d
    by (rule core_inv [OF _ inv]) (simp add: core_simps)
  have fin: "editor_inv (fst (let e2 = (case q of None \<Rightarrow> e1 | Some t \<Rightarrow> set_playback_time t e1)
       in (if b then request_zoom_target e2 else e2, True)))" if "editor_inv e1" for q b e1
    using that by (auto simp: Let_def inv_set_time split: option.splits)
  show ?thesis
    using inv up by (auto simp: drag_zoom_segment_def Let_def split_beta inv_set_time
      split: option.splits zoom_segment_drag_kind.splits segment_edge.splits)
qed

lemma inv_drag_slider:
  assumes inv: "editor_inv e" and r: "drag_slider p dragging e = Some e'"
  shows "editor_inv e'"
proof -
  have crop: "editor_inv e1" if "drag_screen_crop p e = Some (e1, b)" for e1 b
    by (rule core_inv [OF _ inv])
      (use that in \<open>auto simp: drag_screen_crop_def core_simps split: option.splits\<close>)
  obtain e1 b1 where e1: "(if dragging then drag_screen_crop p e else Some (e, False)) = Some (e1, b1)"
    using r by (cases "if dragging then drag_screen_crop p e else Some (e, False)") (auto simp: drag_slider_def)
  obtain e2 b2 where e2: "drag_video_segment p dragging e1 = (e2, b2)" by fastforce
  obtain e3 b3 where e3: "drag_zoom_segment p dragging e2 = (e3, b3)" by fastforce
  have i1: "editor_inv e1" using e1 inv crop by (auto split: if_splits)
  have i2: "editor_inv e2" using inv_drag [OF i1, of p dragging] by (simp add: e2)
  have i3: "editor_inv e3" using inv_drag_zoom [OF i2, of p dragging] by (simp add: e3)
  have rest: "editor_inv (set_zoom_target p e3)" "editor_inv (set_slider_value k x e3)" for k x
    by (rule core_inv [OF _ i3]; simp add: core_simps)+
  show ?thesis
    using r i1 i2 i3 rest by (cases b1; cases b2; cases b3)
      (auto simp: drag_slider_def e1 e2 e3 split: if_splits option.splits)
qed

lemma inv_mouse_move: "editor_inv e \<Longrightarrow> on_mouse_move p dragging e = Some e' \<Longrightarrow> editor_inv e'"
proof -
  assume inv: "editor_inv e" and "on_mouse_move p dragging e = Some e'"
  then obtain e1 where e1: "drag_slider p dragging e = Some e1" "e' = update_timeline_hover p e1"
    by (auto simp: on_mouse_move_def)
  show ?thesis unfolding e1(2)
    by (rule core_inv [OF _ inv_drag_slider [OF inv e1(1)]]) (simp add: core_simps)
qed

lemma inv_mouse_up: "editor_inv e \<Longrightarrow> editor_inv (on_mouse_up rm e)"
proof -
  assume inv: "editor_inv e"
  define e1 where "e1 = (case ed_active_slider e of None \<Rightarrow> e | Some k \<Rightarrow> if saving_slider k then save_bundle e else e)"
  define e2 where "e2 = finish_zoom_segment_drag (e1\<lparr>ed_active_slider := None\<rparr>)"
  define e3 where "e3 = finish_video_segment_drag rm e2"
  have "editor_inv e2"
    by (rule core_inv [OF _ inv]) (simp add: e2_def e1_def core_simps split: option.splits)
  then have "editor_inv e3" unfolding e3_def by (rule inv_finish_drag)
  then show ?thesis
    by (rule core_inv [rotated]) (simp add: on_mouse_up_def e1_def [symmetric] e2_def [symmetric]
      e3_def [symmetric] core_simps Let_def)
qed

lemma inv_downs:
  assumes inv: "editor_inv e"
  shows "editor_inv (on_timeline_mouse_down p e)"
    and "no_drag e \<Longrightarrow> ids_left e \<Longrightarrow> editor_inv (on_segment_mouse_down k i p e)"
    and "editor_inv (on_zoom_mouse_down i p e)"
    and "editor_inv (on_zoom_track_mouse_down p e)"
proof -
  have time: "editor_inv (case q of None \<Rightarrow> e1 | Some t \<Rightarrow> set_playback_time t e1)" if "editor_inv e1" for q e1
    using that by (simp add: inv_set_time split: option.splits)
  have d: "editor_inv (e\<lparr>ed_selected_zoom := None, ed_selected_video_segment := None\<rparr>)"
    "editor_inv (begin_zoom_segment_drag j kk p e)" "editor_inv (add_zoom a b e)" for j kk a b
    by (rule core_inv [OF _ inv]; simp add: core_simps)+
  show down: "editor_inv (on_timeline_mouse_down p e)"
    using d(1) by (simp add: on_timeline_mouse_down_def Let_def time)
  show "editor_inv (on_zoom_mouse_down i p e)"
    using d(2) by (simp add: on_zoom_mouse_down_def Let_def time)
  show "editor_inv (on_zoom_track_mouse_down p e)"
    using d inv down by (auto simp: on_zoom_track_mouse_down_def inv_set_time split: option.splits)
  show "editor_inv (on_segment_mouse_down k i p e)" if "no_drag e" "ids_left e"
  proof -
    have "editor_inv (e\<lparr>ed_selected_input := k\<rparr>)" by (rule core_inv [OF _ inv]) (simp add: core_simps)
    moreover have "no_drag (e\<lparr>ed_selected_input := k\<rparr>)" "ids_left (e\<lparr>ed_selected_input := k\<rparr>)"
      using that by (simp_all add: ids_left_def)
    ultimately show ?thesis
      by (auto simp: on_segment_mouse_down_def activate_video_segment_def Let_def
        split: option.splits intro!: inv_split inv_set_time inv_select)
  qed
qed

lemma editor_step_inv: "editor_inv e \<Longrightarrow> editor_step sa rm e e' \<Longrightarrow> editor_inv e'"
proof (erule editor_step.cases, goal_cases)
  case 20
  then show ?case
    by (auto simp: on_escape_def intro: core_inv [rotated] simp: core_simps)
qed (auto intro: inv_mouse_move inv_mouse_up inv_downs inv_begin_drag inv_cut inv_edge inv_toggle_playback
    inv_delete_selected inv_delete_video inv_set_time inv_open_crop inv_playback_frame inv_receive_preview
    inv_receive_target core_inv [rotated] simp: core_simps)

interpretation editor_machine: state_machine "editor_step sa rm" editor_inv
  by unfold_locales (rule editor_step_inv)

end
