(* ===== verification/Editor_Properties.thy ===== *)
theory Editor_Properties
  imports Editor_Invariant
begin

section \<open>Opening the editor, and properties of its runs (apps/blip-capture/src/editor.rs)\<close>

text \<open>
  Opening a bundle gives the first state; with the step relation this is the whole machine. The
  decoders are functions of an input: \<open>decode_video\<close> gives a video's duration and frame rate and
  \<open>decode_source\<close> an audio input's source, or \<open>None\<close> when the file cannot be opened.
\<close>

subsection \<open>Opening\<close>

definition opened_ranges :: "(bundle_input \<Rightarrow> (real \<times> real) option) \<Rightarrow> bundle_input list \<Rightarrow> (real \<times> real) list" where
  "opened_ranges decode_video inputs = List.map_filter (\<lambda>input.
     if in_kind input \<noteq> VideoInput then None
     else map_option (\<lambda>(dur, _). (in_start_offset_secs input, in_start_offset_secs input + dur))
       (decode_video input)) inputs"

definition opened_fps :: "(bundle_input \<Rightarrow> (real \<times> real) option) \<Rightarrow> bundle_input list \<Rightarrow> nat option" where
  "opened_fps decode_video inputs = fold (\<lambda>input fps.
     if in_kind input \<noteq> VideoInput then fps
     else case decode_video input of None \<Rightarrow> fps | Some (_, nominal) \<Rightarrow> include_timeline_fps fps nominal) inputs None"

definition open_timeline :: "real \<Rightarrow> real \<Rightarrow> blip_bundle \<Rightarrow> blip_bundle" where
  "open_timeline source_start source_end b =
     (if bb_video_segments b = None
      then b\<lparr>bb_video_segments := Some (if source_start < source_end
        then [\<lparr>vs_id = 1, vs_source_start_secs = source_start, vs_source_end_secs = source_end\<rparr>] else [])\<rparr>
      else clamp_video_timeline_to_source_range b source_start source_end)"

definition no_bounds :: bounds where
  "no_bounds = \<lparr>b_x = 0, b_y = 0, b_w = 0, b_h = 0\<rparr>"

definition open_editor ::
    "(bundle_input \<Rightarrow> (real \<times> real) option) \<Rightarrow> (bundle_input \<Rightarrow> audio_source option) \<Rightarrow> string list \<Rightarrow>
     blip_bundle \<Rightarrow> editor" where
  "open_editor decode_video decode_source backgrounds loaded =
     (let (source_start, source_end) = unwrap_or (shared_source_range
            (opened_ranges decode_video (bb_inputs loaded))) (0, 0);
          b1 = open_timeline source_start source_end loaded;
          duration = video_timeline_duration b1;
          b2 = b1\<lparr>bb_screen_crop := normalize_screen_crop (map_option fin_crop (bb_screen_crop b1))\<rparr>
      in request_preview
         \<lparr>ed_bundle = b2, ed_selected_input = 0, ed_selected_zoom = None,
          ed_selected_video_segment = None, ed_cut_mode = False, ed_duration_secs = duration,
          ed_source_start_secs = source_start, ed_source_end_secs = source_end,
          ed_timeline_fps = unwrap_or (opened_fps decode_video (bb_inputs loaded)) 60,
          ed_timeline_view_start_secs = 0,
          ed_timeline_view_duration_secs = timeline_extent_secs duration,
          ed_current_time_secs = 0, ed_is_playing = False, ed_playback_started_at = None,
          ed_playback_generation = 0, ed_cursor_time_secs = None, ed_zoom_hover_range = None,
          ed_current_frame = None, ed_last_playback_preview_time_secs = None,
          ed_current_screen_frame = None, ed_timeline_bounds = no_bounds,
          ed_timeline_rows_bounds = no_bounds, ed_zoom_target_bounds = no_bounds,
          ed_background_preset = unwrap_or (position
            (\<lambda>n. n = pa_background_image (bb_appearance b2)) backgrounds) 0,
          ed_slider_bounds = (\<lambda>_. no_bounds), ed_active_slider = None,
          ed_dragging_zoom_target = False, ed_zoom_segment_drag = None,
          ed_video_segment_drag = None, ed_resize_animation = None, ed_resize_generation = 0,
          ed_settings_dialog_open = False, ed_aspect_ratio_dropdown_open = False,
          ed_aspect_ratio_dropdown_visible = False, ed_aspect_ratio_dropdown_transition = 0,
          ed_crop_dialog_open = False, ed_crop_draft = unwrap_or (bb_screen_crop b2) FULL_CROP,
          ed_crop_drag = None, ed_crop_preview_bounds = no_bounds, ed_crop_frame = None,
          ed_export_dialog_open = False,
          ed_audio_sources = List.map_filter (\<lambda>input. if in_kind input = AudioInput then decode_source input else None)
            (bb_inputs loaded),
          ed_audio_playback = None, ed_effects = []\<rparr>)"

lemma open_inv:
  assumes none: "bb_video_segments b = None"
    and r: "unwrap_or (shared_source_range (opened_ranges dv (bb_inputs b))) (0, 0) = (lo, hi)"
    and len: "lo < hi \<longrightarrow> 1/100 \<le> hi - lo"
  shows "editor_inv (open_editor dv ds bgs b)"
proof -
  let ?ss = "if lo < hi then [\<lparr>vs_id = 1, vs_source_start_secs = lo, vs_source_end_secs = hi\<rparr>] else []"
  have "timeline_ok lo hi ?ss" using len by (simp add: timeline_ok_def segs_wf_def)
  then show ?thesis
    by (simp add: open_editor_def r Let_def)
      (rule editor_invI [of _ ?ss]; simp add: open_timeline_def none video_timeline_duration_def)
qed

text \<open>
  C6: whatever the user does after opening a recording that has not been edited, in any order and
  with any timing of the playback, animation and worker results and whatever the layout of the window
  measures, the segments stay ordered,
  disjoint, at least 10 ms long and inside the range all inputs share; the editor's duration is the
  timeline's; the playback position is on the timeline; and playback has a start exactly while it
  runs.
\<close>

theorem editor_runs_ok:
  assumes none: "bb_video_segments b = None"
    and r: "unwrap_or (shared_source_range (opened_ranges dv (bb_inputs b))) (0, 0) = (lo, hi)"
    and len: "lo < hi \<longrightarrow> 1/100 \<le> hi - lo"
    and run: "(editor_step sa rm)\<^sup>*\<^sup>* (open_editor dv ds bgs b) e"
  shows "\<exists>ss. ed_segments e = Some ss \<and> segs_wf ss \<and>
    segs_within (ed_source_start_secs e) (ed_source_end_secs e) ss \<and>
    (\<forall>s \<in> set ss. 1/100 \<le> vs_duration_secs s) \<and>
    ed_duration_secs e = video_timeline_duration (ed_bundle e) \<and>
    0 \<le> ed_current_time_secs e \<and> ed_current_time_secs e \<le> ed_duration_secs e \<and>
    (ed_is_playing e \<longleftrightarrow> ed_playback_started_at e \<noteq> None)"
proof -
  from editor_machine.reachable_inv [OF run open_inv [OF none r len]] have "editor_inv e" .
  then obtain ss where "ed_segments e = Some ss"
    "timeline_ok (ed_source_start_secs e) (ed_source_end_secs e) ss" "ed_duration_secs e = segs_duration ss"
    "0 \<le> ed_current_time_secs e" "ed_current_time_secs e \<le> ed_duration_secs e"
    "ed_is_playing e \<longleftrightarrow> ed_playback_started_at e \<noteq> None"
    "\<forall>d. ed_video_segment_drag e = Some d \<longrightarrow> drag_ok (ed_source_start_secs e) (ed_source_end_secs e) ss d"
    by (rule editor_invE)
  then show ?thesis
    by (auto simp: timeline_ok_def video_timeline_duration_def vs_duration_secs_def)
qed

text \<open>What was scheduled or requested by a run of the playback that is over.\<close>

lemma generation_preview [simp]: "ed_playback_generation (request_preview e) = ed_playback_generation e"
  by (simp add: request_preview_def emit_def Let_def split: option.splits)

lemma stale_state:
  assumes "ed_playback_generation e' \<noteq> g" "pv_playback_generation r = g"
  shows "playback_frame g now e' = (e', False) \<and> receive_preview r e' = e'"
  using assms by (simp add: playback_frame_def receive_preview_def)

lemma stopped_generation:
  "ed_playback_generation (stop_playback e) = (ed_playback_generation e + 1) mod (u64_max + 1)"
  "ed_playback_generation (set_playback_time t e) = (ed_playback_generation e + 1) mod (u64_max + 1)"
  by (simp_all add: stop_playback_def set_playback_time_def Let_def)

lemma toggled_generation:
  "ed_playback_generation (toggle_playback sa now e) = ed_playback_generation e \<or>
   ed_playback_generation (toggle_playback sa now e) = (ed_playback_generation e + 1) mod (u64_max + 1)"
  by (simp add: toggle_playback_def Let_def stop_playback_def split: option.splits)

text \<open>
  C31: stopping playback, which every seek does, makes everything still under way stale: the frame
  the old run has scheduled and the preview frames it requested change nothing when they come, whether
  playback stands still by then or has been started again.
\<close>

theorem stale_playback_ignored:
  assumes g: "g = ed_playback_generation e" "g \<le> u64_max" and r: "pv_playback_generation r = g"
    and e': "e' = stop_playback e \<or> e' = set_playback_time t e"
    and e'': "e'' = e' \<or> e'' = toggle_playback sa started e'"
  shows "playback_frame g now e'' = (e'', False) \<and> receive_preview r e'' = e''"
proof (rule stale_state [OF _ r])
  have "ed_playback_generation e' = (g + 1) mod (u64_max + 1)"
    using e' by (auto simp: stopped_generation g(1))
  moreover have "(g + 1) mod (u64_max + 1) \<noteq> g" "((g + 1) mod (u64_max + 1) + 1) mod (u64_max + 1) \<noteq> g"
    using g(2) by (cases "g = u64_max"; cases "g + 1 = u64_max"; simp add: u64_max_def)+
  ultimately show "ed_playback_generation e'' \<noteq> g"
    using e'' toggled_generation [of sa started e'] by auto
qed

text \<open>
  Filling a gap while no video segment is selected selects the segment left of the gap, and
  keeps a selected zoom selected: the comparison with the identifier of the removed segment holds
  because neither exists.
\<close>

lemma cut_fill_selects:
  assumes "ed_segments e = Some ss" "edit_video_cut ss i = Some (ss', c)" "vce_removed_id c = None"
    and "ed_selected_video_segment e = None" "ed_selected_zoom e = Some z"
  shows "ed_selected_video_segment (apply_video_cut ss' c e) = Some (vce_left_id c) \<and>
    ed_selected_zoom (apply_video_cut ss' c e) = Some z"
  using assms by (auto simp: apply_video_cut_def set_segments_def set_zooms_def Let_def)

text \<open>
  A press at the right edge of the crop preview leaves a draft without width, and a drag of
  that draft's right edge panics in \<open>clamp\<close>.
\<close>

lemma crop_create_degenerate:
  "resized_screen_crop \<lparr>crop_position = (1, 1/2), crop_size = (min (1/100) (1 - 1), 1/100)\<rparr> HRight p = None"
  by (simp add: resized_screen_crop_def moves_left_def moves_right_def clamp_panic_def)

text \<open>A session with edits: the timeline is measured, a cut in the middle, and the right half deleted.\<close>

lemma preview_keeps:
  "ed_bundle (request_preview e) = ed_bundle e" "ed_cut_mode (request_preview e) = ed_cut_mode e"
  "ed_timeline_bounds (request_preview e) = ed_timeline_bounds e"
  "ed_timeline_view_start_secs (request_preview e) = ed_timeline_view_start_secs e"
  "ed_timeline_view_duration_secs (request_preview e) = ed_timeline_view_duration_secs e"
  "ed_duration_secs (request_preview e) = ed_duration_secs e"
  "ed_current_time_secs (request_preview e) = ed_current_time_secs e"
  "ed_selected_video_segment (request_preview e) = ed_selected_video_segment e"
  "ed_selected_zoom (request_preview e) = ed_selected_zoom e"
  "ed_video_segment_drag (request_preview e) = ed_video_segment_drag e"
  by (simp_all add: request_preview_def emit_def Let_def split: option.splits)

lemma save_keeps:
  "ed_bundle (save_bundle e) = ed_bundle e" "ed_duration_secs (save_bundle e) = ed_duration_secs e"
  "ed_selected_video_segment (save_bundle e) = ed_selected_video_segment e"
  "ed_video_segment_drag (save_bundle e) = ed_video_segment_drag e"
  "ed_playback_generation (save_bundle e) = ed_playback_generation e"
  by (simp_all add: save_bundle_def emit_def)

definition sample_opened :: editor where
  "sample_opened = open_editor (\<lambda>_. Some (10, 60)) (\<lambda>_. None) [] (new_bundle 0 False False)"

definition sample_measured :: editor where
  "sample_measured = toggle_cut_mode (measure_area TimelineArea \<lparr>b_x = 0, b_y = 0, b_w = 26, b_h = 48\<rparr> sample_opened)"

definition sample_cut :: editor where
  "sample_cut = on_segment_mouse_down 0 1 (10, 0) sample_measured"

definition sample_deleted :: editor where
  "sample_deleted = delete_selected_video_segment sample_cut"

lemma sample_range: "unwrap_or (shared_source_range
    (opened_ranges (\<lambda>_. Some (10 :: real, 60 :: real)) (bb_inputs (new_bundle 0 False False)))) (0, 0) = (0, 10)"
  by (simp add: new_bundle_def bundle_input_of_def opened_ranges_def shared_source_range_def map_filter_def)

lemma sample_unedited: "bb_video_segments (new_bundle 0 False False) = None"
  by (simp add: new_bundle_def)

lemma sample_opened_state:
  "ed_segments sample_opened = Some [\<lparr>vs_id = 1, vs_source_start_secs = 0, vs_source_end_secs = 10\<rparr>]"
  "ed_cut_mode sample_opened = False" "ed_timeline_view_start_secs sample_opened = 0"
  "ed_timeline_view_duration_secs sample_opened = timeline_extent_secs 10"
  "ed_video_segment_drag sample_opened = None" "ed_playback_generation sample_opened = 0"
  by (simp_all add: sample_opened_def open_editor_def sample_range Let_def preview_keeps open_timeline_def
    sample_unedited video_timeline_duration_def vs_duration_secs_def)

lemma extent_10: "timeline_extent_secs 10 = 13"
  by (simp add: timeline_extent_secs_def TIMELINE_TRAILING_SPACE_SECS_def)

lemma sample_cut_state:
  "ed_segments sample_cut = Some [\<lparr>vs_id = 1, vs_source_start_secs = 0, vs_source_end_secs = 5\<rparr>,
     \<lparr>vs_id = 2, vs_source_start_secs = 5, vs_source_end_secs = 10\<rparr>]"
  "ed_selected_video_segment sample_cut = Some 2" "ed_video_segment_drag sample_cut = None"
  "ed_playback_generation sample_cut = 0"
  using sample_opened_state
  by (simp_all add: sample_cut_def sample_measured_def on_segment_mouse_down_def timeline_time_at_def Let_def clamp_def
    toggle_cut_mode_def activate_video_segment_def split_video_segment_def split_segments_def
    can_split_video_segment_def preview_keeps save_keeps extent_10 set_segments_def vs_duration_secs_def
    MIN_VIDEO_SEGMENT_DURATION_SECS_def next_id_def max_id_def saturating_add_def u64_max_def)

lemma sample_deleted_state:
  "ed_segments sample_deleted = Some [\<lparr>vs_id = 1, vs_source_start_secs = 0, vs_source_end_secs = 5\<rparr>]"
  "ed_duration_secs sample_deleted = 5"
  using sample_cut_state
  by (simp_all add: sample_deleted_def delete_selected_video_segment_def can_delete_video_segment_def Let_def
    preview_keeps save_keeps set_segments_def set_zooms_def remove_at_def video_timeline_duration_def vs_duration_secs_def)

lemma sample_deleted_reached: "(editor_step (\<lambda>_ _. True) False)\<^sup>*\<^sup>* sample_opened sample_deleted"
proof -
  let ?step = "editor_step (\<lambda>_ _. True) False"
  let ?measured = "measure_area TimelineArea \<lparr>b_x = 0, b_y = 0, b_w = 26, b_h = 48\<rparr> sample_opened"
  have "?step sample_opened ?measured" by (rule Measured)
  moreover have "?step ?measured sample_measured" unfolding sample_measured_def by (rule KeyCutMode)
  moreover have "?step sample_measured sample_cut" unfolding sample_cut_def
    by (rule SegmentDown) (simp_all add: sample_measured_def toggle_cut_mode_def ids_left_def sample_opened_state u64_max_def)
  moreover have "?step sample_cut sample_deleted" unfolding sample_deleted_def by (rule DeleteClick)
  ultimately show ?thesis by (meson converse_rtranclp_into_rtranclp rtranclp.rtrancl_refl)
qed

theorem editor_runs_ok_witness:
  "ed_segments sample_deleted = Some [\<lparr>vs_id = 1, vs_source_start_secs = 0, vs_source_end_secs = 5\<rparr>] \<and>
   ed_duration_secs sample_deleted = 5 \<and> 0 \<le> ed_current_time_secs sample_deleted \<and> ed_current_time_secs sample_deleted \<le> 5"
proof -
  from editor_runs_ok [OF sample_unedited sample_range _ sample_deleted_reached [unfolded sample_opened_def]]
  show ?thesis using sample_deleted_state by auto
qed

theorem stale_playback_ignored_witness:
  "let e = toggle_playback (\<lambda>_ _. True) 8 (set_playback_time 3 sample_cut) in
   playback_frame (ed_playback_generation sample_cut) 9 e = (e, False)"
proof -
  show ?thesis
    using stale_playback_ignored [of "ed_playback_generation sample_cut" sample_cut
      "\<lparr>pv_playback_generation = ed_playback_generation sample_cut, pv_timeline_time_secs = 0, pv_frame = 1, pv_screen = 2\<rparr>"
      "set_playback_time 3 sample_cut" 3 _ "\<lambda>_ _. True" 8 9]
    by (simp add: Let_def u64_max_def sample_cut_state)
qed

end
