(* ===== verification/Screen_Capture.thy ===== *)
theory Screen_Capture
  imports Capture_Audio Text_Format
begin

section \<open>Capturing the screen (crates/blip-sck)\<close>

text \<open>
  The wrapper of ScreenCaptureKit: what can be captured (content.rs, target.rs), the filter of a capture
  (filter.rs), its stream configuration (config.rs), the pixel data and geometry of a frame
  (video_frame.rs) and the capturer with its callbacks (capture.rs). The framework's objects are the
  values they were made from, and its answers are arguments.
\<close>

datatype capture_error =
    InvalidConfiguration string
  | InvalidFrame string
  | Timeout string
  | Framework string

subsection \<open>Products and quotients of floating-point values\<close>

fun sign_of :: "fl \<Rightarrow> real" where
  "sign_of (Fin x) = sgn x"
| "sign_of PosInf = 1"
| "sign_of NegInf = - 1"
| "sign_of NaN = 0"

definition fl_times :: "fl \<Rightarrow> fl \<Rightarrow> fl" where
  "fl_times a b =
     (if a = NaN \<or> b = NaN then NaN
      else if is_finite a \<and> is_finite b then Fin (fl_val a * fl_val b)
      else let s = sign_of a * sign_of b in if s = 0 then NaN else if 0 < s then PosInf else NegInf)"

text \<open>A quotient by zero has the dividend's sign: there is one zero.\<close>

definition fl_over :: "fl \<Rightarrow> fl \<Rightarrow> fl" where
  "fl_over a b =
     (if a = NaN \<or> b = NaN then NaN
      else if is_finite a \<and> is_finite b \<and> b \<noteq> Fin 0 then Fin (fl_val a / fl_val b)
      else if is_finite a \<and> \<not> is_finite b then Fin 0
      else if \<not> is_finite a \<and> \<not> is_finite b \<or> a = Fin 0 then NaN
      else if 0 < sign_of a * (if b = Fin 0 then 1 else sign_of b) then PosInf else NegInf)"

text \<open>The functions \<open>dimension\<close> of config.rs, filter.rs and video_frame.rs are the same.\<close>

definition dimension :: "fl \<Rightarrow> nat option" where
  "dimension v =
     (if \<not> is_finite v \<or> fl_val v \<le> 0 \<or> real u32_max < fl_val v then None
      else Some (as_unsigned usize_max (of_int (round_away (fl_val v)))))"

definition dimensions :: "fl \<Rightarrow> fl \<Rightarrow> (nat \<times> nat) option" where
  "dimensions width height =
     (case dimension width of
        None \<Rightarrow> None
      | Some w \<Rightarrow> (case dimension height of None \<Rightarrow> None | Some h \<Rightarrow> Some (w, h)))"

subsection \<open>What can be captured\<close>

type_synonym rect = "real \<times> real \<times> real \<times> real"

record capture_display =
  cd_id :: nat
  cd_frame :: rect

record capture_window =
  cw_id :: nat
  cw_frame :: rect
  cw_on_screen :: bool
  cw_layer :: int
  cw_process :: "int option"

record content =
  ct_displays :: "capture_display list"
  ct_windows :: "capture_window list"

text \<open>Whether two rectangles intersect is CoreGraphics' answer, the argument \<open>intersects\<close>.\<close>

definition window_display ::
    "(rect \<Rightarrow> rect \<Rightarrow> bool) \<Rightarrow> content \<Rightarrow> capture_window \<Rightarrow> capture_display option" where
  "window_display intersects c w = find (\<lambda>d. intersects (cw_frame w) (cd_frame d)) (ct_displays c)"

definition is_application_window :: "capture_window \<Rightarrow> bool" where
  "is_application_window w = (cw_on_screen w \<and> cw_layer w = 0 \<and> cw_process w \<noteq> None)"

definition application_windows :: "content \<Rightarrow> capture_window list" where
  "application_windows c = filter is_application_window (ct_windows c)"

definition main_display :: "nat \<Rightarrow> content \<Rightarrow> capture_display option" where
  "main_display main_id c = find (\<lambda>d. cd_id d = main_id) (ct_displays c)"

text \<open>The answer of an asynchronous call: none in time, or the object or an error.\<close>

definition current_content :: "(string + content) option \<Rightarrow> capture_error + content" where
  "current_content reply =
     (case reply of
        None \<Rightarrow> Inl (Timeout ''loading shareable content'')
      | Some r \<Rightarrow> map_err Framework r)"

subsection \<open>Filters\<close>

datatype capture_filter =
    DisplayFilter nat "nat list" "bool option"
  | WindowFilter nat
  | ApplicationFilter nat "nat list" "nat list"

record display_filter_builder =
  db_display :: nat
  db_excluded :: "nat list"
  db_menu_bar :: "bool option"

definition filter_display :: "capture_display \<Rightarrow> display_filter_builder" where
  "filter_display d = \<lparr>db_display = cd_id d, db_excluded = [], db_menu_bar = None\<rparr>"

definition excluding_windows :: "capture_window list \<Rightarrow> display_filter_builder \<Rightarrow> display_filter_builder" where
  "excluding_windows ws b = b\<lparr>db_excluded := db_excluded b @ map cw_id ws\<rparr>"

definition include_menu_bar :: "bool \<Rightarrow> display_filter_builder \<Rightarrow> display_filter_builder" where
  "include_menu_bar x b = b\<lparr>db_menu_bar := Some x\<rparr>"

definition build_display_filter :: "display_filter_builder \<Rightarrow> capture_filter" where
  "build_display_filter b = DisplayFilter (db_display b) (db_excluded b) (db_menu_bar b)"

text \<open>What ScreenCaptureKit reports of a filter: its content's size in points and its scale.\<close>

record filter_info =
  fi_width :: fl
  fi_height :: fl
  fi_scale :: fl

definition capture_size :: "filter_info \<Rightarrow> (nat \<times> nat) option" where
  "capture_size i = dimensions (fl_times (fi_width i) (fi_scale i)) (fl_times (fi_height i) (fi_scale i))"

subsection \<open>The stream's configuration\<close>

datatype pixel_format = Bgra | Yuv420BiPlanarFullRange
datatype capture_color_space = Srgb

fun pixel_format_raw :: "pixel_format \<Rightarrow> string" where
  "pixel_format_raw Bgra = ''BGRA''"
| "pixel_format_raw Yuv420BiPlanarFullRange = ''420f''"

record stream_config_builder =
  sb_fps :: "nat option"
  sb_cursor :: bool
  sb_queue_depth :: "nat option"
  sb_pixel_format :: pixel_format
  sb_color_space :: "capture_color_space option"
  sb_source_rect :: "(fl \<times> fl \<times> fl \<times> fl) option"
  sb_audio :: bool

definition default_builder :: stream_config_builder where
  "default_builder = \<lparr>sb_fps = None, sb_cursor = False, sb_queue_depth = None, sb_pixel_format = Bgra,
     sb_color_space = None, sb_source_rect = None, sb_audio = False\<rparr>"

definition with_fps :: "nat \<Rightarrow> stream_config_builder \<Rightarrow> stream_config_builder" where
  "with_fps fps b = b\<lparr>sb_fps := Some fps\<rparr>"
definition with_cursor :: "bool \<Rightarrow> stream_config_builder \<Rightarrow> stream_config_builder" where
  "with_cursor x b = b\<lparr>sb_cursor := x\<rparr>"
definition with_queue_depth :: "nat \<Rightarrow> stream_config_builder \<Rightarrow> stream_config_builder" where
  "with_queue_depth n b = b\<lparr>sb_queue_depth := Some n\<rparr>"
definition with_pixel_format :: "pixel_format \<Rightarrow> stream_config_builder \<Rightarrow> stream_config_builder" where
  "with_pixel_format f b = b\<lparr>sb_pixel_format := f\<rparr>"
definition with_color_space :: "capture_color_space \<Rightarrow> stream_config_builder \<Rightarrow> stream_config_builder" where
  "with_color_space c b = b\<lparr>sb_color_space := Some c\<rparr>"
definition with_source_rect :: "fl \<Rightarrow> fl \<Rightarrow> fl \<Rightarrow> fl \<Rightarrow> stream_config_builder \<Rightarrow> stream_config_builder" where
  "with_source_rect x y w h b = b\<lparr>sb_source_rect := Some (x, y, w, h)\<rparr>"
definition with_system_audio :: "bool \<Rightarrow> stream_config_builder \<Rightarrow> stream_config_builder" where
  "with_system_audio x b = b\<lparr>sb_audio := x\<rparr>"

text \<open>The settings made on the framework's object.\<close>

record stream_config =
  sc_width :: nat
  sc_height :: nat
  sc_interval :: "(int \<times> int) option"
  sc_queue_depth :: "nat option"
  sc_pixel_format :: string
  sc_color_space :: "string option"
  sc_cursor :: bool
  sc_audio :: "(nat \<times> nat) option"
  sc_source_rect :: "(real \<times> real \<times> real \<times> real) option"
  sc_captures_audio :: bool

definition config_timescale :: "nat option \<Rightarrow> capture_error + int option" where
  "config_timescale fps =
     (case fps of
        None \<Rightarrow> Inr None
      | Some f \<Rightarrow>
          if f = 0 then Inl (InvalidConfiguration ''frame rate must be greater than zero'')
          else if 2147483647 < f then Inl (InvalidConfiguration ''frame rate exceeds CoreMedia's supported range'')
          else Inr (Some (int f)))"

fun valid_source_rect :: "fl \<times> fl \<times> fl \<times> fl \<Rightarrow> bool" where
  "valid_source_rect (x, y, w, h) =
     (is_finite x \<and> is_finite y \<and> is_finite w \<and> is_finite h \<and> 0 < fl_val w \<and> 0 < fl_val h)"

definition build_config :: "bool \<Rightarrow> nat \<Rightarrow> nat \<Rightarrow> stream_config_builder \<Rightarrow> capture_error + stream_config" where
  "build_config macos13 width height b =
     and_then (config_timescale (sb_fps b)) (\<lambda>timescale.
       if (case sb_queue_depth b of None \<Rightarrow> False | Some n \<Rightarrow> n < 1 \<or> 8 < n)
       then Inl (InvalidConfiguration ''queue depth must be between 1 and 8'')
       else if (case sb_source_rect b of None \<Rightarrow> False | Some r \<Rightarrow> \<not> valid_source_rect r)
       then Inl (InvalidConfiguration ''source rectangle must have finite coordinates and positive dimensions'')
       else Inr \<lparr>sc_width = width, sc_height = height, sc_interval = map_option (\<lambda>t. (1, t)) timescale,
         sc_queue_depth = sb_queue_depth b, sc_pixel_format = pixel_format_raw (sb_pixel_format b),
         sc_color_space = map_option (\<lambda>_. ''kCGColorSpaceSRGB'') (sb_color_space b), sc_cursor = sb_cursor b,
         sc_audio = (if sb_audio b \<and> macos13 then Some (48000, 2) else None),
         sc_source_rect = map_option (\<lambda>(x, y, w, h). (fl_val x, fl_val y, fl_val w, fl_val h)) (sb_source_rect b),
         sc_captures_audio = (sb_audio b \<and> macos13)\<rparr>)"

definition build_for :: "bool \<Rightarrow> filter_info \<Rightarrow> stream_config_builder \<Rightarrow> capture_error + stream_config" where
  "build_for macos13 info b =
     and_then (ok_or (case sb_source_rect b of
         None \<Rightarrow> capture_size info
       | Some (x, y, w, h) \<Rightarrow> dimensions (fl_times w (fi_scale info)) (fl_times h (fi_scale info)))
       (InvalidConfiguration ''failed to determine the capture target's pixel dimensions''))
       (\<lambda>(width, height). build_config macos13 width height b)"

subsection \<open>A frame's geometry\<close>

record frame_rect =
  fr_x :: fl
  fr_y :: fl
  fr_width :: fl
  fr_height :: fl

definition rect_dimensions :: "frame_rect \<Rightarrow> (nat \<times> nat) option" where
  "rect_dimensions r = dimensions (fr_width r) (fr_height r)"

text \<open>The attachment of a sample, with what it has under the three keys.\<close>

record frame_attachment =
  fa_content_rect :: "frame_rect option"
  fa_content_scale :: "fl option"
  fa_scale_factor :: "fl option"

definition frame_geometry ::
    "frame_attachment option \<Rightarrow> (frame_rect \<times> (nat \<times> nat)) option" where
  "frame_geometry attachment =
     (case attachment of
        None \<Rightarrow> None
      | Some a \<Rightarrow>
          (case (fa_content_rect a, fa_content_scale a, fa_scale_factor a) of
             (Some r, Some content_scale, Some factor) \<Rightarrow>
               (let c = \<lparr>fr_x = fl_times (fr_x r) factor, fr_y = fl_times (fr_y r) factor,
                   fr_width = fl_times (fr_width r) factor, fr_height = fl_times (fr_height r) factor\<rparr>
                in map_option (Pair c) (rect_dimensions \<lparr>fr_x = Fin 0, fr_y = Fin 0,
                     fr_width = fl_over (fr_width c) content_scale, fr_height = fl_over (fr_height c) content_scale\<rparr>))
           | _ \<Rightarrow> None))"

subsection \<open>A frame's pixel data\<close>

record surface_plane =
  sp_memory :: "nat list"
  sp_width :: nat
  sp_height :: nat
  sp_element_width :: nat
  sp_element_height :: nat
  sp_bytes_per_element :: nat
  sp_stride :: nat

definition div_ceil :: "nat \<Rightarrow> nat \<Rightarrow> nat" where
  "div_ceil a b = (a + b - 1) div b"

definition row_count :: "surface_plane \<Rightarrow> nat" where
  "row_count p = div_ceil (sp_height p) (max (sp_element_height p) 1)"

definition row_elements :: "surface_plane \<Rightarrow> nat" where
  "row_elements p = div_ceil (sp_width p) (max (sp_element_width p) 1)"

text \<open>\<open>chunks_exact\<close>: the chunks of the size that fit; a size of zero panics.\<close>

definition chunks_exact :: "nat \<Rightarrow> 'b list \<Rightarrow> 'b list list option" where
  "chunks_exact n xs =
     (if n = 0 then None else Some (map (\<lambda>i. take n (drop (i * n) xs)) [0..<length xs div n]))"

fun copy_rows :: "nat \<Rightarrow> nat list \<Rightarrow> nat list list \<Rightarrow> capture_error + nat list" where
  "copy_rows row_len out [] = Inr out"
| "copy_rows row_len out (row # rows) =
     (if length row < row_len then Inl (InvalidFrame ''capture row is shorter than expected'')
      else copy_rows row_len (out @ take row_len row) rows)"

text \<open>None is a panic.\<close>

definition copy_surface_rows :: "nat list \<Rightarrow> surface_plane \<Rightarrow> (capture_error + nat list) option" where
  "copy_surface_rows out p =
     (case checked_mul usize_max (row_elements p) (sp_bytes_per_element p) of
        None \<Rightarrow> Some (Inl (InvalidFrame ''capture row size overflow''))
      | Some row_len \<Rightarrow>
          if sp_stride p < row_len
          then Some (Inl (InvalidFrame ''capture row stride is shorter than its pixel data''))
          else case checked_mul usize_max (sp_stride p) (row_count p) of
            None \<Rightarrow> Some (Inl (InvalidFrame ''capture buffer size overflow''))
          | Some len \<Rightarrow>
              map_option (\<lambda>chunks. copy_rows row_len out (take (row_count p) chunks))
                (chunks_exact (sp_stride p) (take len (sp_memory p))))"

text \<open>A locked pixel buffer: the status of the lock, and its planes, None without a surface or data.\<close>

fun copy_planes :: "nat \<Rightarrow> surface_plane option list \<Rightarrow> nat list \<Rightarrow> (capture_error + nat list) option" where
  "copy_planes i [] out = Some (Inr out)"
| "copy_planes i (None # ps) out =
     Some (Inl (InvalidFrame (''capture plane '' @ show_nat i @ '' has no pixel data'')))"
| "copy_planes i (Some p # ps) out =
     (case copy_surface_rows out p of
        None \<Rightarrow> None
      | Some (Inl e) \<Rightarrow> Some (Inl e)
      | Some (Inr out') \<Rightarrow> copy_planes (i + 1) ps out')"

datatype pixel_surface = Packed "surface_plane option" | Planar "surface_plane option list"

definition frame_to_bytes :: "int \<Rightarrow> pixel_surface option \<Rightarrow> (capture_error + nat list) option" where
  "frame_to_bytes lock_status surface =
     (if lock_status \<noteq> 0
      then Some (Inl (InvalidFrame (''failed to lock capture pixel buffer ('' @ show_int lock_status @ '')'')))
      else case surface of
        None \<Rightarrow> Some (Inl (InvalidFrame ''capture pixel buffer is not IOSurface-backed''))
      | Some (Packed None) \<Rightarrow> Some (Inl (InvalidFrame ''capture has no pixel data''))
      | Some (Packed (Some p)) \<Rightarrow> copy_surface_rows [] p
      | Some (Planar ps) \<Rightarrow> copy_planes 0 ps [])"

subsection \<open>The capturer\<close>

datatype output_type = ScreenOutput | AudioOutput | OtherOutput

record 'f stream_output =
  so_video_callback :: bool
  so_audio_callback :: bool
  so_stop_callback :: bool
  so_latency :: duration

datatype 'f callback_call = CallVideo 'f "frame_timestamp option" | CallAudio "fl audio_packet" | CallStopped string

text \<open>
  The delegate's methods. The timestamp is that of \<open>normalized_frame_timestamp\<close>; a sample without an
  image is no frame; a callback that panics changes nothing here.
\<close>

definition did_output_sample ::
    "output_type \<Rightarrow> frame_timestamp option \<Rightarrow> 'f option \<Rightarrow> audio_sample \<Rightarrow> 'f stream_output \<Rightarrow> 'f callback_call list" where
  "did_output_sample kind timestamp picture sample out =
     (case kind of
        ScreenOutput \<Rightarrow>
          (case picture of Some f \<Rightarrow> if so_video_callback out then [CallVideo f timestamp] else [] | None \<Rightarrow> [])
      | AudioOutput \<Rightarrow>
          if so_audio_callback out
          then (case audio_packet sample timestamp (so_latency out) of Inr p \<Rightarrow> [CallAudio p] | Inl e \<Rightarrow> [])
          else []
      | OtherOutput \<Rightarrow> [])"

definition did_stop :: "string \<Rightarrow> 'f stream_output \<Rightarrow> 'f callback_call list" where
  "did_stop error out = (if so_stop_callback out then [CallStopped error] else [])"

text \<open>Building the stream: the latency asked for, and the outputs it adds, each with its error.\<close>

definition capturer_latency :: "hal \<Rightarrow> stream_config \<Rightarrow> duration" where
  "capturer_latency h c = (if sc_captures_audio c then unwrap_or (default_output_latency h) 0 else 0)"

definition add_outputs :: "stream_config \<Rightarrow> bool \<Rightarrow> (output_type \<Rightarrow> string option) \<Rightarrow> capture_error + output_type list" where
  "add_outputs c has_audio_callback reply =
     (let kinds = (if sc_captures_audio c \<and> has_audio_callback then [AudioOutput] else []) @ [ScreenOutput]
      in map_ok (\<lambda>_. kinds) (try_map (\<lambda>k. case reply k of Some e \<Rightarrow> Inl (Framework e) | None \<Rightarrow> Inr ()) kinds))"

definition build_capturer ::
    "hal \<Rightarrow> stream_config \<Rightarrow> 'f stream_output \<Rightarrow> (output_type \<Rightarrow> string option) \<Rightarrow>
     capture_error + ('f stream_output \<times> output_type list)" where
  "build_capturer h c callbacks reply =
     map_ok (Pair (callbacks\<lparr>so_latency := capturer_latency h c\<rparr>)) (add_outputs c (so_audio_callback callbacks) reply)"

text \<open>Starting and stopping wait for one answer, or time out.\<close>

definition completion_result :: "string option \<Rightarrow> string + unit" where
  "completion_result error = (case error of None \<Rightarrow> Inr () | Some e \<Rightarrow> Inl e)"

definition await :: "string \<Rightarrow> string option option \<Rightarrow> capture_error + unit" where
  "await what reply =
     (case reply of None \<Rightarrow> Inl (Timeout what) | Some error \<Rightarrow> map_err Framework (completion_result error))"

definition capturer_start :: "string option option \<Rightarrow> capture_error + unit" where
  "capturer_start reply = await ''starting capture'' reply"

definition capturer_stop :: "string option option \<Rightarrow> capture_error + unit" where
  "capturer_stop reply = await ''stopping capture'' reply"

subsection \<open>Dimensions\<close>

lemma dimension_Some:
  assumes "dimension v = Some n"
  shows "\<exists>x. v = Fin x \<and> 0 < x \<and> x \<le> real u32_max \<and> \<bar>real n - x\<bar> \<le> 1 / 2 \<and> n \<le> u32_max"
proof -
  from assms obtain x where x: "v = Fin x" "0 < x" "x \<le> real u32_max" "n = as_unsigned usize_max (of_int (round_away x))"
    by (cases v) (auto simp: dimension_def split: if_splits)
  from x(2) have e: "round_away x = \<lfloor>x + 1 / 2\<rfloor>" by (simp add: round_away_def)
  have r: "0 \<le> round_away x" "\<bar>of_int (round_away x) - x\<bar> \<le> 1 / 2"
    unfolding e using x(2) floor_correct [of "x + 1 / 2"] by linarith+
  have "\<lfloor>x + 1 / 2\<rfloor> < 4294967296" using x(3) by (simp add: u32_max_def floor_less_iff)
  then have le: "round_away x \<le> int u32_max" by (simp add: u32_max_def e)
  then have "n = nat (round_away x)" using r(1) x(4) by (simp add: as_unsigned_def u32_max_def u64_max_def)
  with r x(1-3) le show ?thesis by (simp add: u32_max_def)
qed

text \<open>A positive length can still round to no pixels.\<close>

lemma dimension_vanishes: "dimension (Fin (1 / 4)) = Some 0"
  by (simp add: dimension_def u32_max_def round_away_def as_unsigned_def)

subsection \<open>The pixel data of a frame\<close>

text \<open>Row \<open>i\<close> of a plane, without its padding.\<close>

definition plane_row :: "surface_plane \<Rightarrow> nat \<Rightarrow> nat \<Rightarrow> nat list" where
  "plane_row p row_len i = take row_len (drop (i * sp_stride p) (sp_memory p))"

lemma copy_rows_all:
  "\<forall>r \<in> set rows. row_len \<le> length r \<Longrightarrow> copy_rows row_len out rows = Inr (out @ concat (map (take row_len) rows))"
  by (induction rows arbitrary: out) auto

lemma length_concat_same: "\<forall>x \<in> set xs. length (f x) = n \<Longrightarrow> length (concat (map f xs)) = length xs * n"
  by (induction xs) auto

lemma chunks_exact_rows:
  assumes "0 < n" "k * n \<le> length xs"
  shows "\<exists>cs. chunks_exact n (take (n * k) xs) = Some cs \<and> take k cs = map (\<lambda>i. take n (drop (i * n) xs)) [0..<k]"
proof -
  have len: "length (take (n * k) xs) div n = k" using assms by (simp add: mult.commute)
  have "take n (drop (i * n) (take (n * k) xs)) = take n (drop (i * n) xs)" if "i < k" for i
  proof -
    have "i * n + n \<le> n * k" using that by (metis add.commute mult.commute mult_Suc mult_le_mono1 Suc_leI)
    then show ?thesis by (simp add: drop_take min_def)
  qed
  with len assms(1) show ?thesis by (simp add: chunks_exact_def take_map)
qed

text \<open>
  C35: the copy of a plane is its rows without their padding. When CoreVideo gives access to as many bytes
  as it promises, and a row is not of length zero, copying a plane never panics: it fails exactly when
  the plane's stride is shorter than a row's data or a size does not fit a \<open>usize\<close>, and otherwise
  appends the first bytes of every row, in order.
\<close>
theorem copy_surface_rows_correct:
  assumes "sp_stride p * row_count p \<le> length (sp_memory p)" "0 < sp_stride p"
    and "row_len = row_elements p * sp_bytes_per_element p"
  shows "\<exists>r. copy_surface_rows out p = Some r \<and>
    (case r of
       Inl e \<Rightarrow> usize_max < row_len \<or> sp_stride p < row_len \<or> usize_max < sp_stride p * row_count p
     | Inr out' \<Rightarrow> row_len \<le> usize_max \<and> row_len \<le> sp_stride p \<and> sp_stride p * row_count p \<le> usize_max \<and>
         out' = out @ concat (map (plane_row p row_len) [0..<row_count p]) \<and>
         length out' = length out + row_count p * row_len)"
proof (cases "row_len \<le> usize_max \<and> row_len \<le> sp_stride p \<and> sp_stride p * row_count p \<le> usize_max")
  case True
  obtain cs where cs: "chunks_exact (sp_stride p) (take (sp_stride p * row_count p) (sp_memory p)) = Some cs"
    "take (row_count p) cs = map (\<lambda>i. take (sp_stride p) (drop (i * sp_stride p) (sp_memory p))) [0..<row_count p]"
    using chunks_exact_rows [OF assms(2), of "row_count p" "sp_memory p"] assms(1) by (auto simp: mult.commute)
  have in_mem: "i * sp_stride p + sp_stride p \<le> length (sp_memory p)" if "i < row_count p" for i
  proof -
    have "sp_stride p * (i + 1) \<le> sp_stride p * row_count p" using that by (intro mult_le_mono2) simp
    with assms(1) show ?thesis by (simp add: algebra_simps)
  qed
  have rows: "\<forall>r \<in> set (take (row_count p) cs). row_len \<le> length r"
    using in_mem True by (auto simp: cs(2)) fastforce
  have "map (take row_len) (take (row_count p) cs) = map (plane_row p row_len) [0..<row_count p]"
    using True by (simp add: cs(2) plane_row_def min_def)
  moreover have "length (plane_row p row_len i) = row_len" if "i < row_count p" for i
  proof -
    have "row_len \<le> length (sp_memory p) - i * sp_stride p" using in_mem [OF that] True by linarith
    then show ?thesis by (simp add: plane_row_def min_absorb2)
  qed
  then have "length (concat (map (plane_row p row_len) [0..<row_count p])) = row_count p * row_len"
    using length_concat_same [of "[0..<row_count p]" "plane_row p row_len" row_len] by simp
  ultimately show ?thesis
    using True copy_rows_all [OF rows, of out] cs(1) by (simp add: copy_surface_rows_def checked_mul_def assms(3))
next
  case False
  then show ?thesis by (auto simp: copy_surface_rows_def checked_mul_def assms(3))
qed

text \<open>A plane without pixels whose rows have no bytes at all panics: \<open>chunks_exact(0)\<close>.\<close>

lemma empty_stride_panics:
  "sp_stride p = 0 \<Longrightarrow> row_elements p * sp_bytes_per_element p = 0 \<Longrightarrow> copy_surface_rows out p = None"
  by (auto simp: copy_surface_rows_def checked_mul_def chunks_exact_def)

definition small_plane :: surface_plane where
  "small_plane = \<lparr>sp_memory = [1, 2, 0, 3, 4, 0], sp_width = 2, sp_height = 2, sp_element_width = 1,
     sp_element_height = 1, sp_bytes_per_element = 1, sp_stride = 3\<rparr>"

theorem copy_surface_rows_correct_witness: "copy_surface_rows [] small_plane = Some (Inr [1, 2, 3, 4])"
proof -
  have c: "row_count small_plane = 2" "row_elements small_plane = 2"
    by (simp_all add: row_count_def row_elements_def div_ceil_def small_plane_def)
  have rows: "concat (map (plane_row small_plane 2) [0..<2]) = [1, 2, 3, 4]"
    by (simp add: plane_row_def small_plane_def upt_conv_Cons)
  have hyps: "sp_stride small_plane * row_count small_plane \<le> length (sp_memory small_plane)" "0 < sp_stride small_plane"
    "2 = row_elements small_plane * sp_bytes_per_element small_plane"
    unfolding c by (simp_all add: small_plane_def)
  from copy_surface_rows_correct [OF hyps, of "[]"] obtain r where "copy_surface_rows [] small_plane = Some r"
    and "case r of
        Inl e \<Rightarrow> usize_max < 2 \<or> sp_stride small_plane < 2 \<or> usize_max < sp_stride small_plane * row_count small_plane
      | Inr out' \<Rightarrow> 2 \<le> usize_max \<and> 2 \<le> sp_stride small_plane \<and>
          sp_stride small_plane * row_count small_plane \<le> usize_max \<and> out' = [] @ concat (map (plane_row small_plane 2) [0..<row_count small_plane])
          \<and> length out' = length ([] :: nat list) + row_count small_plane * 2"
    by blast
  moreover have "sp_stride small_plane = 3" by (simp add: small_plane_def)
  ultimately show ?thesis unfolding c by (cases r) (simp_all add: u64_max_def rows)
qed

end
