(* ===== verification/Asset_Writers.thy ===== *)
theory Asset_Writers
  imports Audio_Mixer Text_Format
begin

section \<open>The AVFoundation writers (crates/blip-avfoundation/src/lib.rs)\<close>

text \<open>
  \<open>Mp4Writer\<close> and \<open>AudioWriter\<close>. The asset writer, its inputs and CoreMedia are frameworks the
  source only calls: a writer of the model keeps the list of the calls it made, in order, and what
  a framework answers (is the input ready, did it take the sample, did it finish in time) comes
  with each operation. Presentation times are microseconds in \<open>i64\<close>; every \<open>checked_*\<close> of the
  source is a branch. The file system is a map from paths to contents with the set of its
  directories; what the operating system answers comes with each call.
\<close>

datatype writer_error =
    InvalidDimensions
  | InvalidFrameRate
  | InvalidSegmentDuration
  | InvalidOutputPath
  | OutputError string
  | MissingConstant string
  | UnsupportedInput
  | CreateError string
  | StartError string
  | AppendError string
  | AppendAudioError string
  | HlsOutput string
  | NoFrames
  | TimestampOverflow
  | FinishTimeout
  | FinishError string

datatype video_file_type = Mp4 | Mov

subsection \<open>Files\<close>

record disk =
  dk_dirs :: "string set"
  dk_files :: "string \<Rightarrow> string option"

text \<open>A failed write leaves the file as it was, or with some part of the data in it.\<close>

datatype write_reply = Written | Write_failed string "string option"

definition fs_write :: "string \<Rightarrow> string \<Rightarrow> write_reply \<Rightarrow> disk \<Rightarrow> disk \<times> (string + unit)" where
  "fs_write path data reply d =
     (case reply of
        Written \<Rightarrow> (d\<lparr>dk_files := (dk_files d)(path \<mapsto> data)\<rparr>, Inr ())
      | Write_failed e None \<Rightarrow> (d, Inl e)
      | Write_failed e (Some part) \<Rightarrow> (d\<lparr>dk_files := (dk_files d)(path \<mapsto> part)\<rparr>, Inl e))"

text \<open>\<open>Path::join\<close> with a relative name.\<close>

definition join :: "string \<Rightarrow> string \<Rightarrow> string" where
  "join dir name =
     (if dir = [] then name else if last dir = CHR ''/'' then dir @ name else dir @ ''/'' @ name)"

lemma join_inject [simp]: "join dir a = join dir b \<longleftrightarrow> a = b"
  by (simp add: join_def)

definition fs_rename :: "string \<Rightarrow> string \<Rightarrow> string option \<Rightarrow> disk \<Rightarrow> disk \<times> (string + unit)" where
  "fs_rename a b reply d =
     (case reply of
        Some e \<Rightarrow> (d, Inl e)
      | None \<Rightarrow> (d\<lparr>dk_files := (dk_files d)(b := dk_files d a, a := None)\<rparr>, Inr ()))"

definition fs_create_dir :: "string \<Rightarrow> string option \<Rightarrow> disk \<Rightarrow> disk \<times> (string + unit)" where
  "fs_create_dir path reply d =
     (case reply of Some e \<Rightarrow> (d, Inl e) | None \<Rightarrow> (d\<lparr>dk_dirs := insert path (dk_dirs d)\<rparr>, Inr ()))"

definition fs_remove :: "string \<Rightarrow> string option \<Rightarrow> disk \<Rightarrow> disk \<times> (string + unit)" where
  "fs_remove path reply d =
     (case reply of Some e \<Rightarrow> (d, Inl e) | None \<Rightarrow> (d\<lparr>dk_files := (dk_files d)(path := None)\<rparr>, Inr ()))"

text \<open>
  \<open>prepare_output\<close>: creates the parent directory, when the path names one, and removes a file
  that is there already.
\<close>

definition prepare_output ::
    "string \<Rightarrow> string option \<Rightarrow> string option \<Rightarrow> string option \<Rightarrow> disk \<Rightarrow> disk \<times> (writer_error + unit)" where
  "prepare_output path parent dir_reply remove_reply d =
     (let (d1, made) = (case parent of
            None \<Rightarrow> (d, Inr ())
          | Some p \<Rightarrow> if p = [] then (d, Inr ()) else fs_create_dir p dir_reply d)
      in case made of
           Inl e \<Rightarrow> (d1, Inl (OutputError e))
         | Inr u \<Rightarrow>
             if dk_files d1 path = None then (d1, Inr ())
             else (let (d2, r) = fs_remove path remove_reply d1 in (d2, map_err OutputError r)))"

subsection \<open>Settings and calls\<close>

datatype setting = Text string | Number nat | Dict "(string \<times> setting) list"

record 'a pcm_sample =
  smp_samples :: "'a list"
  smp_frames :: nat
  smp_frame_bytes :: nat
  smp_timescale :: nat
  smp_at :: int

datatype ('f, 'a) av_call =
    AddVideoInput "(string \<times> setting) list"
  | AddAudioInput "(string \<times> setting) list"
  | SegmentInterval int
  | InitialSegmentStart int
  | StartWriting
  | StartSession int
  | AppendFrame 'f int bool
  | AppendSamples "'a pcm_sample" bool
  | EndSession int
  | MarkVideoFinished
  | MarkAudioFinished
  | FinishWriting
  | CancelWriting

record av_reply =
  av_ready :: bool
  av_accepts :: bool
  av_error :: string

record finish_reply =
  fr_in_time :: bool
  fr_completed :: bool
  fr_error :: string

text \<open>The framework while a writer is being built.\<close>

record av_setup =
  su_constant :: "string \<Rightarrow> bool"
  su_utf8 :: bool
  su_create :: "string option"
  su_can_add_video :: bool
  su_can_add_audio :: bool
  su_starts :: bool
  su_error :: string

definition require :: "av_setup \<Rightarrow> string \<Rightarrow> writer_error + unit" where
  "require su name = (if su_constant su name then Inr () else Inl (MissingConstant name))"

fun require_all :: "av_setup \<Rightarrow> string list \<Rightarrow> writer_error + unit" where
  "require_all su [] = Inr ()"
| "require_all su (n # ns) = and_then (require su n) (\<lambda>_. require_all su ns)"

definition guard_err :: "bool \<Rightarrow> 'e \<Rightarrow> 'e + unit" where
  "guard_err b e = (if b then Inr () else Inl e)"

record ('f, 'a) video_writer =
  vw_audio_input :: bool
  vw_frame_duration :: duration
  vw_start :: "int option"
  vw_last :: "int option"
  vw_started :: bool
  vw_finished :: bool
  vw_calls :: "('f, 'a) av_call list"

definition call :: "('f, 'a) av_call \<Rightarrow> ('f, 'a, 'z) video_writer_scheme \<Rightarrow> ('f, 'a, 'z) video_writer_scheme" where
  "call c w = w\<lparr>vw_calls := vw_calls w @ [c]\<rparr>"

subsection \<open>PCM samples\<close>

record core_media =
  md_block_status :: int
  md_block :: bool
  md_copy_status :: int
  md_format_status :: int
  md_format :: bool
  md_sample_status :: int
  md_sample :: bool

definition status_text :: "string \<Rightarrow> int \<Rightarrow> string" where
  "status_text what status = what @ '' ('' @ show_int status @ '')''"

text \<open>\<open>audio_sample_buffer\<close>: only 48 kHz stereo is taken; the bytes of the samples are copied.\<close>

definition audio_sample_buffer ::
    "core_media \<Rightarrow> 'a audio_packet \<Rightarrow> int \<Rightarrow> writer_error + 'a pcm_sample" where
  "audio_sample_buffer md p time =
     (if pkt_sample_rate p \<noteq> 48000 \<or> pkt_channels p \<noteq> 2
      then Inl (AppendAudioError ''expected 48 kHz stereo PCM audio'')
      else if md_block_status md \<noteq> 0
      then Inl (AppendAudioError (status_text ''failed to allocate CoreMedia audio buffer'' (md_block_status md)))
      else if \<not> md_block md then Inl (AppendAudioError ''CoreMedia returned no audio buffer'')
      else if md_copy_status md \<noteq> 0
      then Inl (AppendAudioError (status_text ''failed to copy PCM audio into CoreMedia'' (md_copy_status md)))
      else
        and_then (ok_or (checked_mul u32_max (pkt_channels p) 4) TimestampOverflow) (\<lambda>bytes_per_frame.
        if md_format_status md \<noteq> 0
        then Inl (AppendAudioError (status_text ''failed to describe PCM audio'' (md_format_status md)))
        else if \<not> md_format md then Inl (AppendAudioError ''CoreMedia returned no audio format'')
        else
          and_then (ok_or (try_from 2147483647 (pkt_sample_rate p)) TimestampOverflow) (\<lambda>timescale.
          and_then (ok_or (try_from 9223372036854775807 (frame_count p)) TimestampOverflow) (\<lambda>frames.
          if md_sample_status md \<noteq> 0
          then Inl (AppendAudioError (status_text ''failed to create PCM sample buffer'' (md_sample_status md)))
          else if \<not> md_sample md then Inl (AppendAudioError ''CoreMedia returned no audio sample buffer'')
          else Inr \<lparr>smp_samples = pkt_samples p, smp_frames = frames,
                    smp_frame_bytes = bytes_per_frame, smp_timescale = timescale, smp_at = time\<rparr>))))"

subsection \<open>Building a writer\<close>

record color_properties =
  cp_primaries :: "string option"
  cp_transfer :: "string option"
  cp_matrix :: "string option"

record writer_options =
  wo_file_type :: video_file_type
  wo_bitrate :: "nat option"
  wo_color :: "color_properties option"
  wo_system_audio :: bool

definition rec709_color_properties :: "av_setup \<Rightarrow> color_properties option" where
  "rec709_color_properties su =
     (if su_constant su ''AVVideoColorPrimaries_ITU_R_709_2''
         \<and> su_constant su ''AVVideoTransferFunction_ITU_R_709_2''
         \<and> su_constant su ''AVVideoYCbCrMatrix_ITU_R_709_2''
      then Some \<lparr>cp_primaries = Some ''AVVideoColorPrimaries_ITU_R_709_2'',
                 cp_transfer = Some ''AVVideoTransferFunction_ITU_R_709_2'',
                 cp_matrix = Some ''AVVideoYCbCrMatrix_ITU_R_709_2''\<rparr>
      else None)"

text \<open>The options the public constructors pass.\<close>

definition options_file_type :: "video_file_type \<Rightarrow> bool \<Rightarrow> writer_options" where
  "options_file_type t audio =
     \<lparr>wo_file_type = t, wo_bitrate = None, wo_color = None, wo_system_audio = audio\<rparr>"

definition options_bitrate :: "nat \<Rightarrow> writer_options" where
  "options_bitrate b =
     \<lparr>wo_file_type = Mp4, wo_bitrate = Some b, wo_color = None, wo_system_audio = False\<rparr>"

definition options_color :: "av_setup \<Rightarrow> nat option \<Rightarrow> bool \<Rightarrow> writer_options" where
  "options_color su b audio =
     \<lparr>wo_file_type = Mp4, wo_bitrate = b, wo_color = rec709_color_properties su,
      wo_system_audio = audio\<rparr>"

definition color_entry :: "av_setup \<Rightarrow> string \<Rightarrow> string option \<Rightarrow> writer_error + (string \<times> setting) list" where
  "color_entry su key v =
     (case v of None \<Rightarrow> Inr []
      | Some s \<Rightarrow> and_then (require su key) (\<lambda>_. Inr [(key, Text s)]))"

definition color_settings :: "av_setup \<Rightarrow> color_properties \<Rightarrow> writer_error + (string \<times> setting) list" where
  "color_settings su c =
     and_then (color_entry su ''AVVideoColorPrimariesKey'' (cp_primaries c)) (\<lambda>a.
     and_then (color_entry su ''AVVideoTransferFunctionKey'' (cp_transfer c)) (\<lambda>b.
     and_then (color_entry su ''AVVideoYCbCrMatrixKey'' (cp_matrix c)) (\<lambda>d.
     Inr (a @ b @ d))))"

definition nested :: "av_setup \<Rightarrow> string \<Rightarrow> (string \<times> setting) list option \<Rightarrow> writer_error + (string \<times> setting) list" where
  "nested su key v =
     (case v of None \<Rightarrow> Inr []
      | Some d \<Rightarrow> and_then (require su key) (\<lambda>_. Inr [(key, Dict d)]))"

text \<open>The settings dictionary of the H.264 input.\<close>

definition video_settings :: "av_setup \<Rightarrow> writer_options \<Rightarrow> nat \<Rightarrow> nat \<Rightarrow> writer_error + (string \<times> setting) list" where
  "video_settings su opts width height =
     and_then (require_all su [''AVMediaTypeVideo'', ''AVVideoCodecKey'', ''AVVideoCodecTypeH264'',
                               ''AVVideoWidthKey'', ''AVVideoHeightKey'']) (\<lambda>_.
     and_then (case wo_bitrate opts of None \<Rightarrow> Inr None
               | Some b \<Rightarrow> and_then (require su ''AVVideoAverageBitRateKey'')
                   (\<lambda>_. Inr (Some [(''AVVideoAverageBitRateKey'', Number b)]))) (\<lambda>compression.
     and_then (case wo_color opts of None \<Rightarrow> Inr None
               | Some c \<Rightarrow> map_ok Some (color_settings su c)) (\<lambda>color.
     and_then (nested su ''AVVideoCompressionPropertiesKey'' compression) (\<lambda>c1.
     and_then (nested su ''AVVideoColorPropertiesKey'' color) (\<lambda>c2.
     Inr ([(''AVVideoCodecKey'', Text ''AVVideoCodecTypeH264''), (''AVVideoWidthKey'', Number width),
           (''AVVideoHeightKey'', Number height)] @ c1 @ c2))))))"

definition audio_settings :: "(string \<times> setting) list" where
  "audio_settings = [(''AVFormatIDKey'', Number 1633772320), (''AVSampleRateKey'', Number 48000),
     (''AVNumberOfChannelsKey'', Number 2), (''AVEncoderBitRateKey'', Number 128000)]"

definition add_audio_input :: "av_setup \<Rightarrow> bool \<Rightarrow> writer_error + ('f, 'a) av_call list" where
  "add_audio_input su enabled =
     (if \<not> enabled then Inr []
      else and_then (require su ''AVMediaTypeAudio'') (\<lambda>_.
           and_then (guard_err (su_can_add_audio su) UnsupportedInput) (\<lambda>_.
           Inr [AddAudioInput audio_settings])))"

text \<open>\<open>Duration::from_secs(1).checked_div(fps)\<close>.\<close>

definition frame_duration_of :: "nat \<Rightarrow> writer_error + duration" where
  "frame_duration_of fps = ok_or (checked_div nanos_per_sec fps) InvalidFrameRate"

definition writer_setup ::
    "av_setup \<Rightarrow> writer_options \<Rightarrow> nat \<Rightarrow> nat \<Rightarrow> duration \<Rightarrow> writer_error + ('f, 'a) video_writer" where
  "writer_setup su opts width height frame_duration =
     and_then (guard_err (su_utf8 su) InvalidOutputPath) (\<lambda>_.
     and_then (require su (case wo_file_type opts of Mp4 \<Rightarrow> ''AVFileTypeMPEG4''
                           | Mov \<Rightarrow> ''AVFileTypeQuickTimeMovie'')) (\<lambda>_.
     and_then (case su_create su of Some e \<Rightarrow> Inl (CreateError e) | None \<Rightarrow> Inr ()) (\<lambda>_.
     and_then (video_settings su opts width height) (\<lambda>settings.
     and_then (guard_err (su_can_add_video su) UnsupportedInput) (\<lambda>_.
     and_then (add_audio_input su (wo_system_audio opts)) (\<lambda>audio.
     and_then (guard_err (su_starts su) (StartError (su_error su))) (\<lambda>_.
     Inr \<lparr>vw_audio_input = (audio \<noteq> []), vw_frame_duration = frame_duration, vw_start = None,
          vw_last = None, vw_started = False, vw_finished = False,
          vw_calls = AddVideoInput settings # audio @ [StartWriting]\<rparr>)))))))"

definition mp4_new ::
    "av_setup \<Rightarrow> writer_options \<Rightarrow> string \<Rightarrow> string option \<Rightarrow> string option \<Rightarrow> string option \<Rightarrow>
     nat \<Rightarrow> nat \<Rightarrow> nat \<Rightarrow> disk \<Rightarrow> disk \<times> (writer_error + ('f, 'a) video_writer)" where
  "mp4_new su opts path parent dir_reply remove_reply width height fps d =
     (if width = 0 \<or> height = 0 then (d, Inl InvalidDimensions)
      else case frame_duration_of fps of
        Inl e \<Rightarrow> (d, Inl e)
      | Inr frame_duration \<Rightarrow>
          (case prepare_output path parent dir_reply remove_reply d of
             (d1, Inl e) \<Rightarrow> (d1, Inl e)
           | (d1, Inr u) \<Rightarrow> (d1, writer_setup su opts width height frame_duration)))"

subsection \<open>Appending\<close>

definition micros_i64 :: "duration \<Rightarrow> writer_error + int" where
  "micros_i64 d = ok_or (checked_signed 64 (int (as_micros d))) TimestampOverflow"

text \<open>
  The time of a frame since the first one: never negative, and one microsecond after the previous
  frame when the clock did not advance.
\<close>

definition next_relative :: "int option \<Rightarrow> int \<Rightarrow> int \<Rightarrow> writer_error + int" where
  "next_relative prev start t =
     and_then (ok_or (checked_signed 64 (t - start)) TimestampOverflow) (\<lambda>d.
       case prev of
         None \<Rightarrow> Inr (max d 0)
       | Some l \<Rightarrow> if max d 0 \<le> l then ok_or (checked_signed 64 (l + 1)) TimestampOverflow
                   else Inr (max d 0))"

definition start_session :: "int \<Rightarrow> ('f, 'a, 'z) video_writer_scheme \<Rightarrow> ('f, 'a, 'z) video_writer_scheme" where
  "start_session t w = (if vw_started w then w else (call (StartSession t) w)\<lparr>vw_started := True\<rparr>)"

definition put_frame ::
    "'f \<Rightarrow> int \<Rightarrow> int \<Rightarrow> av_reply \<Rightarrow> ('f, 'a, 'z) video_writer_scheme \<Rightarrow>
     ('f, 'a, 'z) video_writer_scheme \<times> (writer_error + bool)" where
  "put_frame f time rel reply w =
     (let w1 = call (AppendFrame f time (av_accepts reply)) w
      in if av_accepts reply then (w1\<lparr>vw_last := Some rel\<rparr>, Inr True)
         else (w1, Inl (AppendError (av_error reply))))"

definition mp4_append ::
    "'f \<Rightarrow> duration \<Rightarrow> av_reply \<Rightarrow> ('f, 'a) video_writer \<Rightarrow> ('f, 'a) video_writer \<times> (writer_error + bool)" where
  "mp4_append f timestamp reply w =
     (if \<not> av_ready reply then (w, Inr False)
      else case micros_i64 timestamp of
        Inl e \<Rightarrow> (w, Inl e)
      | Inr t \<Rightarrow>
          (let start = unwrap_or (vw_start w) t;
               w1 = w\<lparr>vw_start := Some start\<rparr>
           in case next_relative (vw_last w1) start t of
                Inl e \<Rightarrow> (w1, Inl e)
              | Inr rel \<Rightarrow>
                  (case checked_signed 64 (start + rel) of
                     None \<Rightarrow> (w1, Inl TimestampOverflow)
                   | Some time \<Rightarrow> put_frame f time rel reply (start_session start w1))))"

definition put_samples ::
    "core_media \<Rightarrow> 'a audio_packet \<Rightarrow> int \<Rightarrow> av_reply \<Rightarrow> ('f, 'a, 'z) video_writer_scheme \<Rightarrow>
     ('f, 'a, 'z) video_writer_scheme \<times> (writer_error + bool)" where
  "put_samples md packet time reply w =
     (case audio_sample_buffer md packet time of
        Inl e \<Rightarrow> (w, Inl e)
      | Inr sample \<Rightarrow>
          (call (AppendSamples sample (av_accepts reply)) w,
           if av_accepts reply then Inr True else Inl (AppendAudioError (av_error reply))))"

definition mp4_append_audio ::
    "core_media \<Rightarrow> 'a audio_packet \<Rightarrow> duration \<Rightarrow> av_reply \<Rightarrow> ('f, 'a) video_writer \<Rightarrow>
     ('f, 'a) video_writer \<times> (writer_error + bool)" where
  "mp4_append_audio md packet timestamp reply w =
     (if \<not> vw_audio_input w then (w, Inr False)
      else if \<not> av_ready reply then (w, Inr False)
      else case micros_i64 timestamp of
        Inl e \<Rightarrow> (w, Inl e)
      | Inr t \<Rightarrow>
          (case vw_start w of
             None \<Rightarrow> (w, Inl NoFrames)
           | Some start \<Rightarrow> put_samples md packet (max t start) reply w))"

subsection \<open>Finishing\<close>

definition end_calls :: "int \<Rightarrow> ('f, 'a, 'z) video_writer_scheme \<Rightarrow> ('f, 'a, 'z) video_writer_scheme" where
  "end_calls t w =
     (let w1 = call MarkVideoFinished (call (EndSession t) w)
      in if vw_audio_input w then call MarkAudioFinished w1 else w1)"

definition finish_result :: "finish_reply \<Rightarrow> writer_error + unit" where
  "finish_result reply =
     (if \<not> fr_in_time reply then Inl FinishTimeout
      else if \<not> fr_completed reply then Inl (FinishError (fr_error reply))
      else Inr ())"

definition end_after :: "int \<Rightarrow> duration \<Rightarrow> writer_error + int" where
  "end_after t frame_duration =
     and_then (micros_i64 frame_duration) (\<lambda>d.
       ok_or (checked_signed 64 (t + max d 1)) TimestampOverflow)"

definition mp4_end_time :: "('f, 'a) video_writer \<Rightarrow> writer_error + int" where
  "mp4_end_time w =
     and_then (ok_or (vw_start w) NoFrames) (\<lambda>start.
     and_then (ok_or (vw_last w) NoFrames) (\<lambda>rel.
     and_then (micros_i64 (vw_frame_duration w)) (\<lambda>_.
     and_then (ok_or (checked_signed 64 (start + rel)) TimestampOverflow) (\<lambda>t.
     end_after t (vw_frame_duration w)))))"

definition mp4_finish ::
    "finish_reply \<Rightarrow> ('f, 'a) video_writer \<Rightarrow> ('f, 'a) video_writer \<times> (writer_error + unit)" where
  "mp4_finish reply w =
     (if vw_finished w then (w, Inr ())
      else case mp4_end_time w of
        Inl e \<Rightarrow> (w, Inl e)
      | Inr t \<Rightarrow>
          (let w1 = call FinishWriting (end_calls t w)
           in case finish_result reply of
                Inl e \<Rightarrow> (w1, Inl e)
              | Inr u \<Rightarrow> (w1\<lparr>vw_finished := True\<rparr>, Inr ())))"

text \<open>Dropping an unfinished writer cancels it.\<close>

definition writer_drop :: "('f, 'a, 'z) video_writer_scheme \<Rightarrow> ('f, 'a, 'z) video_writer_scheme" where
  "writer_drop w = (if vw_finished w then w else call CancelWriting w)"

subsection \<open>The audio-only writer\<close>

record 'a audio_writer =
  aw_start :: "int option"
  aw_end :: "int option"
  aw_finished :: bool
  aw_calls :: "(unit, 'a) av_call list"

definition audio_writer_setup :: "av_setup \<Rightarrow> writer_error + 'a audio_writer" where
  "audio_writer_setup su =
     and_then (guard_err (su_utf8 su) InvalidOutputPath) (\<lambda>_.
     and_then (require su ''AVFileTypeAppleM4A'') (\<lambda>_.
     and_then (case su_create su of Some e \<Rightarrow> Inl (CreateError e) | None \<Rightarrow> Inr ()) (\<lambda>_.
     and_then (add_audio_input su True) (\<lambda>audio.
     and_then (guard_err (audio \<noteq> []) UnsupportedInput) (\<lambda>_.
     and_then (guard_err (su_starts su) (StartError (su_error su))) (\<lambda>_.
     Inr \<lparr>aw_start = None, aw_end = None, aw_finished = False,
          aw_calls = audio @ [StartWriting, StartSession 0]\<rparr>))))))"

definition audio_writer_new ::
    "av_setup \<Rightarrow> string \<Rightarrow> string option \<Rightarrow> string option \<Rightarrow> string option \<Rightarrow> disk \<Rightarrow>
     disk \<times> (writer_error + 'a audio_writer)" where
  "audio_writer_new su path parent dir_reply remove_reply d =
     (case prepare_output path parent dir_reply remove_reply d of
        (d1, Inl e) \<Rightarrow> (d1, Inl e)
      | (d1, Inr u) \<Rightarrow> (d1, audio_writer_setup su))"

definition packet_micros :: "'a audio_packet \<Rightarrow> writer_error + int" where
  "packet_micros p =
     and_then (ok_or (checked_mul u128_max (frame_count p) 1000000) TimestampOverflow) (\<lambda>m.
     and_then (ok_or (checked_div m (pkt_sample_rate p)) TimestampOverflow) (\<lambda>q.
     ok_or (checked_signed 64 (int q)) TimestampOverflow))"

definition audio_end :: "int option \<Rightarrow> int \<Rightarrow> 'a audio_packet \<Rightarrow> writer_error + int" where
  "audio_end prev rel p =
     and_then (packet_micros p) (\<lambda>d.
     and_then (ok_or (checked_signed 64 (rel + max d 1)) TimestampOverflow) (\<lambda>e.
     Inr (case prev of None \<Rightarrow> e | Some x \<Rightarrow> max x e)))"

definition audio_relative :: "int \<Rightarrow> int \<Rightarrow> writer_error + int" where
  "audio_relative start t =
     map_ok (\<lambda>d. max d 0) (ok_or (checked_signed 64 (t - start)) TimestampOverflow)"

definition audio_append ::
    "core_media \<Rightarrow> 'a audio_packet \<Rightarrow> duration \<Rightarrow> av_reply \<Rightarrow> 'a audio_writer \<Rightarrow>
     'a audio_writer \<times> (writer_error + bool)" where
  "audio_append md packet timestamp reply w =
     (if \<not> av_ready reply then (w, Inr False)
      else case micros_i64 timestamp of
        Inl e \<Rightarrow> (w, Inl e)
      | Inr t \<Rightarrow>
          (let start = unwrap_or (aw_start w) t;
               w1 = w\<lparr>aw_start := Some start\<rparr>
           in case and_then (audio_relative start t) (audio_sample_buffer md packet) of
                Inl e \<Rightarrow> (w1, Inl e)
              | Inr sample \<Rightarrow>
                  (let w2 = w1\<lparr>aw_calls := aw_calls w1 @ [AppendSamples sample (av_accepts reply)]\<rparr>
                   in if \<not> av_accepts reply then (w2, Inl (AppendAudioError (av_error reply)))
                      else case audio_end (aw_end w2) (smp_at sample) packet of
                             Inl e \<Rightarrow> (w2, Inl e)
                           | Inr e \<Rightarrow> (w2\<lparr>aw_end := Some e\<rparr>, Inr True))))"

definition audio_finish :: "finish_reply \<Rightarrow> 'a audio_writer \<Rightarrow> 'a audio_writer \<times> (writer_error + unit)" where
  "audio_finish reply w =
     (if aw_finished w then (w, Inr ())
      else case aw_end w of
        None \<Rightarrow> (w, Inl NoFrames)
      | Some t \<Rightarrow>
          (let w1 = w\<lparr>aw_calls := aw_calls w @ [EndSession t, MarkAudioFinished, FinishWriting]\<rparr>
           in case finish_result reply of
                Inl e \<Rightarrow> (w1, Inl e)
              | Inr u \<Rightarrow> (w1\<lparr>aw_finished := True\<rparr>, Inr ())))"

definition audio_writer_drop :: "'a audio_writer \<Rightarrow> 'a audio_writer" where
  "audio_writer_drop w =
     (if aw_finished w then w else w\<lparr>aw_calls := aw_calls w @ [CancelWriting]\<rparr>)"

subsection \<open>What a writer's calls amount to\<close>

fun frame_times :: "('f, 'a) av_call list \<Rightarrow> int list" where
  "frame_times [] = []"
| "frame_times (AppendFrame f t True # cs) = t # frame_times cs"
| "frame_times (_ # cs) = frame_times cs"

fun sample_times :: "('f, 'a) av_call list \<Rightarrow> int list" where
  "sample_times [] = []"
| "sample_times (AppendSamples s True # cs) = smp_at s # sample_times cs"
| "sample_times (_ # cs) = sample_times cs"

fun session_starts :: "('f, 'a) av_call list \<Rightarrow> int list" where
  "session_starts [] = []"
| "session_starts (StartSession t # cs) = t # session_starts cs"
| "session_starts (_ # cs) = session_starts cs"

fun session_ends :: "('f, 'a) av_call list \<Rightarrow> int list" where
  "session_ends [] = []"
| "session_ends (EndSession t # cs) = t # session_ends cs"
| "session_ends (_ # cs) = session_ends cs"

lemma frame_times_append [simp]: "frame_times (cs @ ds) = frame_times cs @ frame_times ds"
  by (induction cs rule: frame_times.induct) simp_all

lemma sample_times_append [simp]: "sample_times (cs @ ds) = sample_times cs @ sample_times ds"
  by (induction cs rule: sample_times.induct) simp_all

lemma session_starts_append [simp]: "session_starts (cs @ ds) = session_starts cs @ session_starts ds"
  by (induction cs rule: session_starts.induct) simp_all

lemma session_ends_append [simp]: "session_ends (cs @ ds) = session_ends cs @ session_ends ds"
  by (induction cs rule: session_ends.induct) simp_all

text \<open>
  No sample is given before the session has started: the calls up to a sample contain the start.
\<close>

fun session_first :: "('f, 'a) av_call list \<Rightarrow> bool" where
  "session_first [] = True"
| "session_first (StartSession t # cs) = True"
| "session_first (AppendFrame f t ok # cs) = False"
| "session_first (AppendSamples s ok # cs) = False"
| "session_first (_ # cs) = session_first cs"

lemma session_first_append:
  "session_first (cs @ ds) = (session_first cs \<and> (session_starts cs \<noteq> [] \<or> session_first ds))"
  by (induction cs rule: session_first.induct) auto

subsection \<open>Tracks: one clock, one session\<close>

text \<open>
  Both video writers turn a time since the first frame into a presentation time of the session
  they started: the MP4 writer keeps the source's clock, the HLS writer counts from zero. What they
  share is stated over \<open>present\<close> and \<open>session\<close>.
\<close>

definition from_start :: "int option \<Rightarrow> (int \<Rightarrow> int) \<Rightarrow> int list \<Rightarrow> bool" where
  "from_start start session ts = (case start of None \<Rightarrow> ts = [] | Some s \<Rightarrow> \<forall>t \<in> set ts. session s \<le> t)"

definition last_frame :: "(int \<Rightarrow> int \<Rightarrow> int) \<Rightarrow> int option \<Rightarrow> int option \<Rightarrow> int list \<Rightarrow> bool" where
  "last_frame present start prev ts =
     (case prev of
        None \<Rightarrow> ts = []
      | Some l \<Rightarrow> 0 \<le> l \<and> ts \<noteq> [] \<and> (\<exists>s. start = Some s \<and> last ts = present s l))"

definition track_inv ::
    "(int \<Rightarrow> int \<Rightarrow> int) \<Rightarrow> (int \<Rightarrow> int) \<Rightarrow> ('f, 'a, 'z) video_writer_scheme \<Rightarrow> bool" where
  "track_inv present session w \<longleftrightarrow>
     (vw_started w \<longleftrightarrow> vw_start w \<noteq> None) \<and>
     session_starts (vw_calls w) = (case vw_start w of None \<Rightarrow> [] | Some s \<Rightarrow> [session s]) \<and>
     session_first (vw_calls w) \<and>
     sorted_wrt (<) (frame_times (vw_calls w)) \<and>
     last_frame present (vw_start w) (vw_last w) (frame_times (vw_calls w)) \<and>
     from_start (vw_start w) session (frame_times (vw_calls w)) \<and>
     from_start (vw_start w) session (sample_times (vw_calls w))"

lemma next_relative_gt:
  assumes "next_relative prev start t = Inr r" "\<And>l. prev = Some l \<Longrightarrow> 0 \<le> l"
  shows "0 \<le> r \<and> (\<forall>l. prev = Some l \<longrightarrow> l < r)"
  using assms by (auto simp: next_relative_def checked_signed_def split: option.splits if_splits)

lemma sorted_wrt_snoc:
  assumes "sorted_wrt (<) (ts :: int list)" "ts = [] \<or> last ts < t"
  shows "sorted_wrt (<) (ts @ [t])"
proof -
  have "\<forall>x \<in> set ts. x < t"
  proof
    fix x assume x: "x \<in> set ts"
    then have ne: "ts \<noteq> []" by auto
    with assms(1) x have "x \<le> last ts"
      by (metis append_butlast_last_id order.strict_implies_order order_refl set_ConsD
          in_set_conv_decomp rotate1.simps(2) set_rotate1 sorted_wrt_append list.set_intros(1))
    with ne assms(2) show "x < t" by auto
  qed
  with assms(1) show ?thesis by (simp add: sorted_wrt_append)
qed

lemmas call_simps = call_def end_calls_def start_session_def put_frame_def put_samples_def Let_def

locale media_track =
  fixes present :: "int \<Rightarrow> int \<Rightarrow> int" and session :: "int \<Rightarrow> int"
  assumes present_mono: "r < r' \<Longrightarrow> present s r < present s r'"
    and present_after: "0 \<le> r \<Longrightarrow> session s \<le> present s r"
begin

lemma track_other:
  assumes "track_inv present session w"
    and "vw_started w' = vw_started w" "vw_start w' = vw_start w" "vw_last w' = vw_last w"
    and "vw_calls w' = vw_calls w @ cs"
    and "frame_times cs = []" "sample_times cs = []" "session_starts cs = []"
    and "session_first cs"
  shows "track_inv present session w'"
  using assms by (simp add: track_inv_def session_first_append)

lemma track_samples:
  assumes "track_inv present session w" "vw_start w = Some s"
    and "\<And>x. audio_sample_buffer md p t = Inr x \<Longrightarrow> smp_at x = t" "session s \<le> t"
  shows "track_inv present session (fst (put_samples md p t reply w))"
  using assms
  by (cases "av_accepts reply"; cases "audio_sample_buffer md p t"; cases "vw_last w")
    (auto simp: track_inv_def call_simps session_first_append from_start_def last_frame_def)

lemma track_frame:
  assumes inv: "track_inv present session w" and start: "unwrap_or (vw_start w) t = s"
    and rel: "next_relative (vw_last w) s t' = Inr rel"
  shows "track_inv present session
    (fst (put_frame f (present s rel) rel reply (start_session (session s) (w\<lparr>vw_start := Some s\<rparr>))))"
proof -
  have nonneg: "0 \<le> l" if "vw_last w = Some l" for l
    using inv that by (auto simp: track_inv_def last_frame_def)
  from next_relative_gt [OF rel nonneg]
  have r: "0 \<le> rel" and l: "\<And>l. vw_last w = Some l \<Longrightarrow> l < rel" by auto
  have later: "frame_times (vw_calls w) = [] \<or> last (frame_times (vw_calls w)) < present s rel"
  proof (cases "vw_last w")
    case None
    with inv show ?thesis by (simp add: track_inv_def last_frame_def)
  next
    case (Some k)
    with inv start have "last (frame_times (vw_calls w)) = present s k"
      by (auto simp: track_inv_def last_frame_def)
    with present_mono [OF l [OF Some]] show ?thesis by simp
  qed
  have sorted: "sorted_wrt (<) (frame_times (vw_calls w) @ [present s rel])"
    using inv later by (intro sorted_wrt_snoc) (simp_all add: track_inv_def)
  show ?thesis
  proof (cases "vw_start w")
    case None
    with inv start r present_after [OF r] show ?thesis
      by (cases "av_accepts reply"; cases "vw_last w")
        (auto simp: track_inv_def call_simps session_first_append from_start_def last_frame_def)
  next
    case (Some k)
    with start have "k = s" by simp
    with inv Some r sorted present_after [OF r] show ?thesis
      by (cases "av_accepts reply")
        (auto simp: track_inv_def call_simps session_first_append from_start_def last_frame_def
          split: option.splits)
  qed
qed

end

interpretation mp4_track: media_track "\<lambda>s r. s + r" "\<lambda>s. s"
  by unfold_locales auto

lemma audio_sample_buffer_at: "audio_sample_buffer md p t = Inr x \<Longrightarrow> smp_at x = t \<and> smp_samples x = pkt_samples p"
  by (auto simp: audio_sample_buffer_def split: if_splits)

subsection \<open>The MP4 writer keeps its track in order\<close>

datatype ('f, 'a) mp4_op =
    Append 'f duration av_reply
  | AppendAudio core_media "'a audio_packet" duration av_reply
  | Finish finish_reply

fun mp4_run :: "('f, 'a) mp4_op \<Rightarrow> ('f, 'a) video_writer \<Rightarrow> ('f, 'a) video_writer" where
  "mp4_run (Append f t reply) w = fst (mp4_append f t reply w)"
| "mp4_run (AppendAudio md p t reply) w = fst (mp4_append_audio md p t reply w)"
| "mp4_run (Finish reply) w = fst (mp4_finish reply w)"

abbreviation mp4_inv :: "('f, 'a) video_writer \<Rightarrow> bool" where
  "mp4_inv \<equiv> track_inv (\<lambda>s r. s + r) (\<lambda>s. s)"

lemma track_inv_start:
  assumes "track_inv present session w" "vw_started w"
  shows "track_inv present session (w\<lparr>vw_start := Some (unwrap_or (vw_start w) t)\<rparr>)"
  using assms by (auto simp: track_inv_def)

lemma in_signed_0 [simp]: "in_signed 64 0"
  by (simp add: in_signed_def)

lemma first_relative: "next_relative None t t = Inr 0"
  by (simp add: next_relative_def checked_signed_def)

lemma micros_range: "micros_i64 d = Inr t \<Longrightarrow> 0 \<le> t \<and> in_signed 64 t"
  by (auto simp: micros_i64_def checked_signed_def split: if_splits)

lemma unstarted:
  assumes "track_inv present session w" "vw_start w = None"
  shows "vw_last w = None" "\<not> vw_started w"
  using assms by (auto simp: track_inv_def last_frame_def split: option.splits)

lemma mp4_append_keeps:
  assumes inv: "mp4_inv w"
  shows "mp4_inv (fst (mp4_append f d reply w))"
proof (cases "av_ready reply")
  case False
  with inv show ?thesis by (simp add: mp4_append_def)
next
  case ready: True
  show ?thesis
  proof (cases "micros_i64 d")
    case (Inl e)
    with inv ready show ?thesis by (simp add: mp4_append_def)
  next
    case (Inr t)
    define s where "s = unwrap_or (vw_start w) t"
    have step: "fst (mp4_append f d reply w) =
        (case next_relative (vw_last w) s t of
           Inl e \<Rightarrow> w\<lparr>vw_start := Some s\<rparr>
         | Inr rel \<Rightarrow> (case checked_signed 64 (s + rel) of
             None \<Rightarrow> w\<lparr>vw_start := Some s\<rparr>
           | Some time \<Rightarrow> fst (put_frame f time rel reply (start_session s (w\<lparr>vw_start := Some s\<rparr>)))))"
      using ready Inr by (simp add: mp4_append_def Let_def s_def split: sum.splits option.splits)
    show ?thesis
    proof (cases "vw_start w")
      case None
      from unstarted [OF inv None] None have "vw_last w = None" "s = t"
        by (simp_all add: s_def)
      moreover have "checked_signed 64 (t + 0) = Some t"
        using micros_range [OF Inr] by (simp add: checked_signed_def)
      ultimately show ?thesis
        using mp4_track.track_frame [OF inv s_def [symmetric], of t 0 f reply] step by (simp add: first_relative)
    next
      case (Some k)
      then have "mp4_inv (w\<lparr>vw_start := Some s\<rparr>)"
        using track_inv_start [OF inv, of t] inv by (simp add: s_def track_inv_def)
      with step show ?thesis
        using mp4_track.track_frame [OF inv s_def [symmetric], of t _ f reply]
        by (auto simp: checked_signed_def split: sum.splits option.splits if_splits)
    qed
  qed
qed

lemma mp4_append_audio_keeps:
  assumes inv: "mp4_inv w"
  shows "mp4_inv (fst (mp4_append_audio md p d reply w))"
proof -
  have "mp4_inv (fst (put_samples md p (max t s) reply w))" if "vw_start w = Some s" for t s
    by (rule mp4_track.track_samples [OF inv that]) (simp_all add: audio_sample_buffer_at)
  with inv show ?thesis by (auto simp: mp4_append_audio_def split: sum.splits option.splits)
qed

definition end_list :: "('f, 'a, 'z) video_writer_scheme \<Rightarrow> int \<Rightarrow> ('f, 'a) av_call list" where
  "end_list w t =
     [EndSession t, MarkVideoFinished] @ (if vw_audio_input w then [MarkAudioFinished] else [])"

lemma end_calls_shape:
  "vw_calls (end_calls t w) = vw_calls w @ end_list w t"
  "vw_started (end_calls t w) = vw_started w" "vw_start (end_calls t w) = vw_start w"
  "vw_last (end_calls t w) = vw_last w"
  by (simp_all add: call_simps end_list_def)

lemma end_list_other:
  "frame_times (end_list w t) = []" "sample_times (end_list w t) = []"
  "session_starts (end_list w t) = []" "session_first (end_list w t)" "session_ends (end_list w t) = [t]"
  by (simp_all add: end_list_def)

lemma mp4_finish_keeps:
  assumes inv: "mp4_inv w"
  shows "mp4_inv (fst (mp4_finish reply w))"
proof -
  have "mp4_inv (w'\<lparr>vw_finished := x\<rparr>)" "mp4_inv w'" if "w' = call FinishWriting (end_calls t w)" for t w' x
    using that
    by (auto intro!: mp4_track.track_other [OF inv, where cs = "end_list w t @ [FinishWriting]"]
        simp: call_def end_calls_shape end_list_other session_first_append)
  then show ?thesis
    using inv by (auto simp: mp4_finish_def Let_def split: sum.splits)
qed

interpretation mp4_machine: op_machine mp4_run "mp4_inv :: ('f, 'a) video_writer \<Rightarrow> bool"
proof
  fix s :: "('f, 'a) video_writer" and op
  assume "mp4_inv s"
  then show "mp4_inv (mp4_run op s)"
    by (cases op) (simp_all add: mp4_append_keeps mp4_append_audio_keeps mp4_finish_keeps)
qed

lemma add_audio_calls:
  "add_audio_input su b = Inr cs \<Longrightarrow> frame_times cs = [] \<and> sample_times cs = [] \<and>
     session_starts cs = [] \<and> session_first cs \<and> session_ends cs = []"
  by (auto simp: add_audio_input_def split: if_splits)

lemma writer_setup_inv: "writer_setup su opts x y d = Inr w \<Longrightarrow> track_inv present session w"
  by (auto simp: writer_setup_def track_inv_def last_frame_def from_start_def session_first_append
      dest: add_audio_calls)

lemma mp4_new_inv: "mp4_new su opts path parent r1 r2 x y fps dk = (dk', Inr w) \<Longrightarrow> track_inv present session w"
  by (auto simp: mp4_new_def writer_setup_inv split: if_splits sum.splits prod.splits)

lemma track_order:
  assumes "track_inv present session w"
  shows "sorted_wrt (<) (frame_times (vw_calls w))" "session_first (vw_calls w)"
    "length (session_starts (vw_calls w)) \<le> 1"
    "\<forall>s \<in> set (session_starts (vw_calls w)). \<forall>t \<in> set (frame_times (vw_calls w) @ sample_times (vw_calls w)). s \<le> t"
  using assms by (auto simp: track_inv_def from_start_def split: option.splits)

lemma end_after_gt: "end_after t d = Inr e \<Longrightarrow> e = t + max (int (as_micros d)) 1"
  by (auto simp: end_after_def micros_i64_def checked_signed_def split: if_splits)

lemma sorted_last_max:
  assumes "sorted_wrt (<) (ts :: int list)" "t \<in> set ts"
  shows "t \<le> last ts"
proof -
  from assms(2) have "ts \<noteq> []" by auto
  then obtain us u where ts: "ts = us @ [u]" by (cases ts rule: rev_cases) auto
  with assms show ?thesis by (auto simp: sorted_wrt_append)
qed

text \<open>
  C30: an MP4 file's track is in order. Whatever frames and audio packets are appended, with whatever
  timestamps (late, repeated or out of range), and whatever the framework answers, the accepted
  frames have strictly increasing presentation times; the session is started at most once, before
  anything is appended, and no accepted frame or packet is before it.
\<close>
theorem mp4_track_in_order:
  assumes "mp4_new su opts path parent dir_reply remove_reply width height fps d = (d', Inr w)"
  shows "let cs = vw_calls (fold mp4_run ops w)
    in sorted_wrt (<) (frame_times cs) \<and> length (session_starts cs) \<le> 1 \<and> session_first cs \<and>
       (\<forall>s \<in> set (session_starts cs). \<forall>t \<in> set (frame_times cs @ sample_times cs). s \<le> t)"
  using track_order [OF mp4_machine.fold_inv [OF mp4_new_inv [OF assms]]] by (auto simp: Let_def)

text \<open>
  Finishing an MP4 writer that has frames ends its session one frame (at least a microsecond)
  after the last accepted frame, marks its inputs finished and only then finishes the file; it is
  done at most once.
\<close>
theorem mp4_finish_ends_session:
  assumes "mp4_new su opts path parent dir_reply remove_reply width height fps d = (d', Inr w0)"
    and "w = fold mp4_run ops w0" "\<not> vw_finished w" "mp4_finish reply w = (w', Inr u)"
  shows "frame_times (vw_calls w) \<noteq> [] \<and> vw_finished w' \<and>
    vw_calls w' = vw_calls w @ end_list w
      (last (frame_times (vw_calls w)) + max (int (as_micros (vw_frame_duration w))) 1) @ [FinishWriting] \<and>
    (\<forall>t \<in> set (frame_times (vw_calls w)). \<forall>e \<in> set (session_ends (drop (length (vw_calls w)) (vw_calls w'))). t < e) \<and>
    mp4_finish reply' w' = (w', Inr ())"
proof -
  from mp4_machine.fold_inv [OF mp4_new_inv [OF assms(1)]] assms(2)
  have inv: "mp4_inv w" by simp
  from assms(3,4) obtain e where e: "mp4_end_time w = Inr e"
    and w': "w' = (call FinishWriting (end_calls e w))\<lparr>vw_finished := True\<rparr>"
    by (auto simp: mp4_finish_def Let_def split: sum.splits)
  from e obtain s rel where "vw_start w = Some s" "vw_last w = Some rel"
    and e': "end_after (s + rel) (vw_frame_duration w) = Inr e"
    by (auto simp: mp4_end_time_def checked_signed_def split: if_splits)
  with inv have ne: "frame_times (vw_calls w) \<noteq> []" and last: "last (frame_times (vw_calls w)) = s + rel"
    by (auto simp: track_inv_def last_frame_def)
  have e_eq: "e = last (frame_times (vw_calls w)) + max (int (as_micros (vw_frame_duration w))) 1"
    using end_after_gt [OF e'] last by simp
  have "t < e" if "t \<in> set (frame_times (vw_calls w))" for t
    using sorted_last_max [OF track_order(1) [OF inv] that] e_eq by simp
  moreover have "session_ends (drop (length (vw_calls w)) (vw_calls w')) = [e]"
    by (simp add: w' call_def end_calls_shape end_list_other)
  ultimately show ?thesis
    using ne e_eq by (simp add: w' call_def end_calls_shape mp4_finish_def)
qed

definition ready_setup :: av_setup where
  "ready_setup = \<lparr>su_constant = (\<lambda>_. True), su_utf8 = True, su_create = None, su_can_add_video = True,
     su_can_add_audio = True, su_starts = True, su_error = ''''\<rparr>"

definition taken :: av_reply where
  "taken = \<lparr>av_ready = True, av_accepts = True, av_error = ''''\<rparr>"

definition finished_ok :: finish_reply where
  "finished_ok = \<lparr>fr_in_time = True, fr_completed = True, fr_error = ''''\<rparr>"

definition no_files :: disk where
  "no_files = \<lparr>dk_dirs = {}, dk_files = (\<lambda>_. None)\<rparr>"

definition plain_writer :: "(nat, nat) video_writer" where
  "plain_writer = \<lparr>vw_audio_input = False, vw_frame_duration = 33333333, vw_start = None, vw_last = None,
     vw_started = False, vw_finished = False,
     vw_calls = [AddVideoInput [(''AVVideoCodecKey'', Text ''AVVideoCodecTypeH264''),
         (''AVVideoWidthKey'', Number 640), (''AVVideoHeightKey'', Number 480)], StartWriting]\<rparr>"

lemma plain_writer_new:
  "mp4_new ready_setup (options_file_type Mp4 False) ''a.mp4'' None None None 640 480 30 no_files
     = (no_files, Inr plain_writer)"
  by (simp add: mp4_new_def frame_duration_of_def checked_div_def nanos_per_sec_def prepare_output_def
      no_files_def writer_setup_def guard_err_def ready_setup_def require_def options_file_type_def
      video_settings_def nested_def add_audio_input_def plain_writer_def)

text \<open>Three frames: the second at the time of the first, the third before both.\<close>

definition late_frames :: "(nat, nat) mp4_op list" where
  "late_frames = [Append 1 5000000 taken, Append 2 5000000 taken, Append 3 1000000 taken]"

lemmas writer_eval = late_frames_def mp4_append_def taken_def micros_i64_def checked_signed_def
  in_signed_def as_micros_def next_relative_def call_simps plain_writer_def

lemma late_frames_calls:
  "vw_calls (fold mp4_run late_frames plain_writer) = vw_calls plain_writer @
     [StartSession 5000, AppendFrame 1 5000 True, AppendFrame 2 5001 True, AppendFrame 3 5002 True]"
  by (simp add: writer_eval)

theorem mp4_track_in_order_witness:
  "frame_times (vw_calls (fold mp4_run late_frames plain_writer)) = [5000, 5001, 5002]
   \<and> sorted_wrt (<) (frame_times (vw_calls (fold mp4_run late_frames plain_writer)))"
  using mp4_track_in_order [OF plain_writer_new, of late_frames] late_frames_calls
  by (simp add: Let_def plain_writer_def)

lemma late_frames_finish:
  "\<exists>w'. mp4_finish finished_ok (fold mp4_run late_frames plain_writer) = (w', Inr ())"
  "\<not> vw_finished (fold mp4_run late_frames plain_writer)"
  by (simp_all add: mp4_finish_def mp4_end_time_def end_after_def finish_result_def finished_ok_def writer_eval
      end_calls_def)

theorem mp4_finish_ends_session_witness:
  "\<exists>w'. mp4_finish finished_ok (fold mp4_run late_frames plain_writer) = (w', Inr ()) \<and> vw_finished w'
     \<and> session_ends (vw_calls w') = [38335]"
proof -
  obtain w' where w': "mp4_finish finished_ok (fold mp4_run late_frames plain_writer) = (w', Inr ())"
    using late_frames_finish(1) by blast
  have "vw_frame_duration (fold mp4_run late_frames plain_writer) = 33333333"
    by (simp add: writer_eval)
  with mp4_finish_ends_session [OF plain_writer_new refl late_frames_finish(2) w', of finished_ok]
    late_frames_calls
  have "vw_finished w' \<and> session_ends (vw_calls w') = [38335]"
    by (simp add: end_list_other plain_writer_def as_micros_def)
  with w' show ?thesis by blast
qed

subsection \<open>The audio writer's end covers its samples\<close>

datatype 'a audio_op =
    AppendPacket core_media "'a audio_packet" duration av_reply
  | FinishAudio finish_reply

fun audio_run :: "'a audio_op \<Rightarrow> 'a audio_writer \<Rightarrow> 'a audio_writer" where
  "audio_run (AppendPacket md p t reply) w = fst (audio_append md p t reply w)"
| "audio_run (FinishAudio reply) w = fst (audio_finish reply w)"

fun taken_samples :: "('f, 'a) av_call list \<Rightarrow> 'a pcm_sample list" where
  "taken_samples [] = []"
| "taken_samples (AppendSamples s True # cs) = s # taken_samples cs"
| "taken_samples (_ # cs) = taken_samples cs"

lemma taken_samples_append [simp]: "taken_samples (cs @ ds) = taken_samples cs @ taken_samples ds"
  by (induction cs rule: taken_samples.induct) simp_all

text \<open>The end of a sample: its frames at 48 kHz, in whole microseconds.\<close>

definition sample_end :: "'a pcm_sample \<Rightarrow> int" where
  "sample_end s = smp_at s + max (int (smp_frames s * 1000000 div 48000)) 1"

definition covered :: "int option \<Rightarrow> 'a pcm_sample \<Rightarrow> bool" where
  "covered e s = (0 \<le> smp_at s \<and> (in_signed 64 (sample_end s) \<longrightarrow> (\<exists>x. e = Some x \<and> sample_end s \<le> x)))"

definition audio_inv :: "'a audio_writer \<Rightarrow> bool" where
  "audio_inv w \<longleftrightarrow> (\<forall>s \<in> set (taken_samples (aw_calls w)). covered (aw_end w) s)"

lemma audio_sample_buffer_ok:
  assumes "audio_sample_buffer md p t = Inr s"
  shows "smp_at s = t" "smp_samples s = pkt_samples p" "smp_frames s = frame_count p" "pkt_sample_rate p = 48000"
    "frame_count p < 2 ^ 63"
  using assms by (auto simp: audio_sample_buffer_def try_from_def split: if_splits)

lemma audio_end_covers:
  assumes s: "audio_sample_buffer md p t = Inr s" and t: "0 \<le> t"
  shows "case audio_end prev (smp_at s) p of
      Inl e \<Rightarrow> \<not> in_signed 64 (sample_end s)
    | Inr e \<Rightarrow> sample_end s \<le> e \<and> (\<forall>x. prev = Some x \<longrightarrow> x \<le> e)"
proof -
  note ok = audio_sample_buffer_ok [OF s]
  let ?q = "frame_count p * 1000000 div 48000"
  have "frame_count p * 1000000 \<le> u128_max"
    using ok(5) by (simp add: u128_max_def)
  with ok(4) have q: "packet_micros p = ok_or (checked_signed 64 (int ?q)) TimestampOverflow"
    by (simp add: packet_micros_def checked_mul_def checked_div_def)
  have end_eq: "sample_end s = t + max (int ?q) 1" using ok by (simp add: sample_end_def)
  show ?thesis
  proof (cases "in_signed 64 (int ?q)")
    case False
    with q end_eq t ok(1) show ?thesis
      by (simp add: audio_end_def checked_signed_def in_signed_def)
  next
    case True
    with q end_eq ok(1) show ?thesis
      by (cases prev) (auto simp: audio_end_def checked_signed_def)
  qed
qed

lemma covered_mono: "covered e s \<Longrightarrow> (\<And>x. e = Some x \<Longrightarrow> \<exists>y. e' = Some y \<and> x \<le> y) \<Longrightarrow> covered e' s"
  unfolding covered_def by (metis order_trans)

lemma audio_relative_nonneg: "audio_relative s t = Inr r \<Longrightarrow> 0 \<le> r"
  by (auto simp: audio_relative_def)

lemma audio_append_keeps:
  assumes inv: "audio_inv w"
  shows "audio_inv (fst (audio_append md p d reply w))"
proof (cases "\<exists>t rel s. av_ready reply \<and> av_accepts reply \<and> micros_i64 d = Inr t \<and>
    audio_relative (unwrap_or (aw_start w) t) t = Inr rel \<and> audio_sample_buffer md p rel = Inr s")
  case False
  then have "taken_samples (aw_calls (fst (audio_append md p d reply w))) = taken_samples (aw_calls w)"
    "aw_end (fst (audio_append md p d reply w)) = aw_end w"
    by (auto simp: audio_append_def Let_def split: sum.splits)
  with inv show ?thesis by (simp add: audio_inv_def)
next
  case True
  then obtain t rel s where a: "av_ready reply" "av_accepts reply" "micros_i64 d = Inr t"
    "audio_relative (unwrap_or (aw_start w) t) t = Inr rel" and s: "audio_sample_buffer md p rel = Inr s" by blast
  note nonneg = audio_relative_nonneg [OF a(4)]
  have calls: "aw_calls (fst (audio_append md p d reply w)) = aw_calls w @ [AppendSamples s True]"
    and e: "aw_end (fst (audio_append md p d reply w)) =
      (case audio_end (aw_end w) (smp_at s) p of Inl x \<Rightarrow> aw_end w | Inr x \<Rightarrow> Some x)"
    using a s by (auto simp: audio_append_def Let_def split: sum.splits)
  note cov = audio_end_covers [OF s nonneg, of "aw_end w"]
  show ?thesis
  proof (cases "audio_end (aw_end w) (smp_at s) p")
    case (Inl x)
    with cov nonneg audio_sample_buffer_ok(1) [OF s] have "covered (aw_end w) s"
      by (simp add: covered_def)
    with inv calls e Inl show ?thesis by (simp add: audio_inv_def)
  next
    case (Inr x)
    with cov nonneg audio_sample_buffer_ok(1) [OF s] have "covered (Some x) s"
      by (simp add: covered_def)
    moreover have "covered (Some x) s'" if "s' \<in> set (taken_samples (aw_calls w))" for s'
      using inv that Inr cov by (auto simp: audio_inv_def intro: covered_mono [of "aw_end w"])
    ultimately show ?thesis using calls e Inr by (auto simp: audio_inv_def)
  qed
qed

lemma audio_finish_keeps: "audio_inv w \<Longrightarrow> audio_inv (fst (audio_finish reply w))"
  by (auto simp: audio_inv_def audio_finish_def Let_def split: option.splits sum.splits)

interpretation audio_machine: op_machine audio_run "audio_inv :: 'a audio_writer \<Rightarrow> bool"
proof
  fix s :: "'a audio_writer" and op
  assume "audio_inv s"
  then show "audio_inv (audio_run op s)"
    by (cases op) (simp_all add: audio_append_keeps audio_finish_keeps)
qed

lemma add_audio_no_samples: "add_audio_input su b = Inr cs \<Longrightarrow> taken_samples cs = []"
  by (auto simp: add_audio_input_def split: if_splits)

lemma audio_writer_new_inv:
  "audio_writer_new su path parent r1 r2 d = (d', Inr w) \<Longrightarrow> audio_inv w"
  by (auto simp: audio_writer_new_def audio_writer_setup_def audio_inv_def add_audio_no_samples
      split: sum.splits prod.splits)

text \<open>
  An audio file's session covers its samples. Whatever packets are appended and whatever the
  framework answers, every packet the writer took starts at or after the session's zero; and when
  the writer is finished, its session ends no earlier than the end of any packet it took whose end
  is representable in 64 bits.
\<close>
theorem audio_finish_covers:
  assumes "audio_writer_new su path parent r1 r2 d = (d', Inr w0)" "w = fold audio_run ops w0"
    and "\<not> aw_finished w" "audio_finish reply w = (w', Inr u)"
  shows "\<exists>e. aw_calls w' = aw_calls w @ [EndSession e, MarkAudioFinished, FinishWriting] \<and>
    (\<forall>s \<in> set (taken_samples (aw_calls w)). 0 \<le> smp_at s \<and>
      (in_signed 64 (sample_end s) \<longrightarrow> sample_end s \<le> e))"
proof -
  from audio_machine.fold_inv [OF audio_writer_new_inv [OF assms(1)]] assms(2)
  have inv: "audio_inv w" by simp
  from assms(3,4) obtain e where e: "aw_end w = Some e"
    and "aw_calls w' = aw_calls w @ [EndSession e, MarkAudioFinished, FinishWriting]"
    by (auto simp: audio_finish_def Let_def split: option.splits sum.splits)
  with inv show ?thesis by (auto simp: audio_inv_def covered_def)
qed

definition media_ok :: core_media where
  "media_ok = \<lparr>md_block_status = 0, md_block = True, md_copy_status = 0, md_format_status = 0, md_format = True,
     md_sample_status = 0, md_sample = True\<rparr>"

definition two_frames :: "nat audio_packet" where
  "two_frames = \<lparr>pkt_samples = [1, 2, 3, 4], pkt_sample_rate = 48000, pkt_channels = 2, pkt_timestamp = None\<rparr>"

definition plain_audio :: "nat audio_writer" where
  "plain_audio = \<lparr>aw_start = None, aw_end = None, aw_finished = False,
     aw_calls = [AddAudioInput audio_settings, StartWriting, StartSession 0]\<rparr>"

lemma plain_audio_new: "audio_writer_new ready_setup ''a.m4a'' None None None no_files = (no_files, Inr plain_audio)"
  by (simp add: audio_writer_new_def audio_writer_setup_def prepare_output_def no_files_def guard_err_def
      ready_setup_def require_def add_audio_input_def plain_audio_def)

lemma plain_audio_run:
  "fold audio_run [AppendPacket media_ok two_frames 7000000 taken, AppendPacket media_ok two_frames 2000000 taken] plain_audio
     = plain_audio\<lparr>aw_start := Some 7000, aw_end := Some 41, aw_calls := aw_calls plain_audio @
         [AppendSamples \<lparr>smp_samples = [1, 2, 3, 4], smp_frames = 2, smp_frame_bytes = 8, smp_timescale = 48000, smp_at = 0\<rparr> True,
          AppendSamples \<lparr>smp_samples = [1, 2, 3, 4], smp_frames = 2, smp_frame_bytes = 8, smp_timescale = 48000, smp_at = 0\<rparr> True]\<rparr>"
  by (simp add: audio_append_def taken_def micros_i64_def checked_signed_def in_signed_def as_micros_def
      audio_relative_def audio_sample_buffer_def two_frames_def media_ok_def frame_count_def rust_arith width_defs
      audio_end_def packet_micros_def Let_def plain_audio_def)

theorem audio_finish_covers_witness:
  "\<exists>(w :: nat audio_writer) e. aw_calls w = aw_calls (fold audio_run
        [AppendPacket media_ok two_frames 7000000 taken, AppendPacket media_ok two_frames 2000000 taken] plain_audio)
      @ [EndSession e, MarkAudioFinished, FinishWriting] \<and> 41 \<le> e"
proof -
  let ?w = "fold audio_run
    [AppendPacket media_ok two_frames 7000000 taken, AppendPacket media_ok two_frames 2000000 taken] plain_audio"
  have live: "\<not> aw_finished ?w" unfolding plain_audio_run by (simp add: plain_audio_def)
  obtain w where w: "audio_finish finished_ok ?w = (w, Inr ())"
    unfolding plain_audio_run
    by (auto simp: audio_finish_def finish_result_def finished_ok_def plain_audio_def Let_def)
  from audio_finish_covers [OF plain_audio_new refl live w] obtain e
    where "aw_calls w = aw_calls ?w @ [EndSession e, MarkAudioFinished, FinishWriting]" "41 \<le> e"
    unfolding plain_audio_run by (auto simp: sample_end_def in_signed_def plain_audio_def)
  then show ?thesis by blast
qed

end
