(* ===== verification/Hls_Writer.thy ===== *)
theory Hls_Writer
  imports Asset_Writers
begin

section \<open>The HLS writer (crates/blip-avfoundation/src/hls.rs)\<close>

text \<open>
  \<open>HlsWriter\<close> and the delegate that writes its segments and playlist. AVFoundation hands a
  finished segment to the delegate on a thread of its own; the delegate's mutex makes each
  delivery one step, so that a run is a sequence of operations of the writer and deliveries, and
  \<open>append\<close> and \<open>finish\<close> take the deliveries that happen while they wait. The asset callback is a
  channel's sender and does not panic, so the mutex is never poisoned. The directory is written by
  this writer alone.
\<close>

subsection \<open>The playlist\<close>

definition segment_name :: "nat \<Rightarrow> string" where
  "segment_name i = ''segment'' @ pad_zero 5 (show_nat i) @ ''.m4s''"

definition playlist_name :: string where "playlist_name = ''playlist.m3u8''"

definition initialization_name :: string where "initialization_name = ''init.mp4''"

text \<open>\<open>{:.6}\<close> of a duration in seconds.\<close>

definition rounded_micros :: "duration \<Rightarrow> nat" where
  "rounded_micros d = nat (round_half_even (as_secs_f64 d * 1000000))"

definition show_micros :: "nat \<Rightarrow> string" where
  "show_micros m = show_nat (m div 1000000) @ ''.'' @ pad_zero 6 (show_nat (m mod 1000000))"

definition maximum_duration :: "duration \<Rightarrow> duration list \<Rightarrow> duration" where
  "maximum_duration configured ds = max (if ds = [] then configured else Max (set ds)) configured"

definition target_duration :: "duration \<Rightarrow> duration list \<Rightarrow> nat" where
  "target_duration configured ds =
     (let m = maximum_duration configured ds
      in saturating_add u64_max (m div 1000000000) (if m mod 1000000000 \<noteq> 0 then 1 else 0))"

definition line :: "string \<Rightarrow> string" where "line s = s @ [CHR 0x0A]"

definition entry_lines :: "nat \<times> duration \<Rightarrow> string list" where
  "entry_lines e = [''#EXTINF:'' @ show_micros (rounded_micros (snd e)) @ '','', segment_name (fst e)]"

definition playlist_lines :: "duration \<Rightarrow> duration list \<Rightarrow> bool \<Rightarrow> string list" where
  "playlist_lines configured ds finished =
     [''#EXTM3U'', ''#EXT-X-VERSION:7'',
      ''#EXT-X-TARGETDURATION:'' @ show_nat (max (target_duration configured ds) 1),
      ''#EXT-X-MEDIA-SEQUENCE:0'',
      ''#EXT-X-PLAYLIST-TYPE:'' @ (if finished then ''VOD'' else ''EVENT''),
      ''#EXT-X-MAP:URI='' @ [CHR 0x22] @ initialization_name @ [CHR 0x22]]
     @ concat (map entry_lines (enumerate 0 ds))
     @ (if finished then [''#EXT-X-ENDLIST''] else [])"

definition playlist :: "duration \<Rightarrow> duration list \<Rightarrow> bool \<Rightarrow> string" where
  "playlist configured ds finished = concat (map line (playlist_lines configured ds finished))"

subsection \<open>The sink\<close>

record playlist_sink =
  ps_output :: string
  ps_configured :: duration
  ps_durations :: "duration list"
  ps_initialized :: bool
  ps_finished :: bool
  ps_error :: "string option"

definition new_sink :: "string \<Rightarrow> duration \<Rightarrow> playlist_sink" where
  "new_sink out configured =
     \<lparr>ps_output = out, ps_configured = configured, ps_durations = [], ps_initialized = False,
      ps_finished = False, ps_error = None\<rparr>"

definition playlist_path :: "playlist_sink \<Rightarrow> string" where
  "playlist_path s = join (ps_output s) playlist_name"

definition temporary_path :: "playlist_sink \<Rightarrow> string" where
  "temporary_path s = join (ps_output s) (''.'' @ playlist_name @ ''.tmp'')"

definition write_playlist ::
    "write_reply \<Rightarrow> string option \<Rightarrow> playlist_sink \<Rightarrow> disk \<Rightarrow> disk \<times> (string + unit)" where
  "write_playlist tmp_reply rename_reply s d =
     (if \<not> ps_initialized s then (d, Inr ())
      else case fs_write (temporary_path s) (playlist (ps_configured s) (ps_durations s) (ps_finished s)) tmp_reply d of
             (d1, Inl e) \<Rightarrow> (d1, Inl e)
           | (d1, Inr u) \<Rightarrow> fs_rename (temporary_path s) (playlist_path s) rename_reply d1)"

datatype segment_type = Initialization | Separable | OtherSegment

text \<open>A delivered segment, with the durations of its report's tracks, and what the disk answers.\<close>

record segment =
  sg_type :: segment_type
  sg_report :: "fl list option"
  sg_data :: string
  sg_write :: write_reply
  sg_tmp :: write_reply
  sg_rename :: "string option"

fun report_duration :: "fl list option \<Rightarrow> duration option" where
  "report_duration None = None"
| "report_duration (Some []) = None"
| "report_duration (Some (t # ts)) = try_from_secs_f64 t"

definition asset_name :: "playlist_sink \<Rightarrow> segment \<Rightarrow> string option" where
  "asset_name s g =
     (case sg_type g of
        Initialization \<Rightarrow> Some initialization_name
      | Separable \<Rightarrow> Some (segment_name (length (ps_durations s)))
      | OtherSegment \<Rightarrow> None)"

definition asset_written :: "playlist_sink \<Rightarrow> segment \<Rightarrow> playlist_sink" where
  "asset_written s g =
     (case sg_type g of
        Initialization \<Rightarrow> s\<lparr>ps_initialized := True\<rparr>
      | Separable \<Rightarrow> s\<lparr>ps_durations :=
          ps_durations s @ [unwrap_or (report_duration (sg_report g)) (ps_configured s)]\<rparr>
      | OtherSegment \<Rightarrow> s)"

definition write_asset :: "playlist_sink \<Rightarrow> segment \<Rightarrow> disk \<Rightarrow> playlist_sink \<times> disk \<times> (string + unit)" where
  "write_asset s g d =
     (case asset_name s g of
        None \<Rightarrow> (s, d, Inr ())
      | Some name \<Rightarrow>
          (case fs_write (join (ps_output s) name) (sg_data g) (sg_write g) d of
             (d1, Inl e) \<Rightarrow> (s, d1, Inl e)
           | (d1, Inr u) \<Rightarrow> (asset_written s g, d1, Inr ())))"

text \<open>\<open>write_segment\<close>: the asset, then the playlist, then the report to the callback.\<close>

definition write_segment ::
    "playlist_sink \<Rightarrow> segment \<Rightarrow> disk \<Rightarrow> playlist_sink \<times> disk \<times> string list \<times> (string + unit)" where
  "write_segment s g d =
     (case write_asset s g d of
        (s1, d1, Inl e) \<Rightarrow> (s1, d1, [], Inl e)
      | (s1, d1, Inr u) \<Rightarrow>
          (case write_playlist (sg_tmp g) (sg_rename g) s1 d1 of
             (d2, Inl e) \<Rightarrow> (s1, d2, [], Inl e)
           | (d2, Inr v) \<Rightarrow>
               (s1, d2, (case asset_name s g of None \<Rightarrow> [] | Some n \<Rightarrow> [join (ps_output s) n]), Inr ())))"

subsection \<open>The writer\<close>

record ('f, 'a) hls_writer = "('f, 'a) video_writer" +
  hw_sink :: playlist_sink
  hw_disk :: disk
  hw_reported :: "string list"

definition did_output_segment :: "segment \<Rightarrow> ('f, 'a) hls_writer \<Rightarrow> ('f, 'a) hls_writer" where
  "did_output_segment g w =
     (if ps_error (hw_sink w) \<noteq> None then w
      else case write_segment (hw_sink w) g (hw_disk w) of
        (s, d, out, r) \<Rightarrow>
          w\<lparr>hw_sink := (case r of Inl e \<Rightarrow> s\<lparr>ps_error := Some e\<rparr> | Inr u \<Rightarrow> s),
            hw_disk := d, hw_reported := hw_reported w @ out\<rparr>)"

definition deliver :: "segment list \<Rightarrow> ('f, 'a) hls_writer \<Rightarrow> ('f, 'a) hls_writer" where
  "deliver gs w = fold did_output_segment gs w"

definition check_error :: "('f, 'a) hls_writer \<Rightarrow> writer_error + unit" where
  "check_error w = (case ps_error (hw_sink w) of Some e \<Rightarrow> Inl (HlsOutput e) | None \<Rightarrow> Inr ())"

definition hls_setup ::
    "av_setup \<Rightarrow> string \<Rightarrow> nat \<Rightarrow> nat \<Rightarrow> duration \<Rightarrow> duration \<Rightarrow> bool \<Rightarrow> disk \<Rightarrow> writer_error + ('f, 'a) hls_writer" where
  "hls_setup su out width height frame_duration segment_duration system_audio d =
     and_then (require su ''AVFileTypeProfileMPEG4AppleHLS'') (\<lambda>_.
     and_then (micros_i64 segment_duration) (\<lambda>interval.
     and_then (video_settings su (options_file_type Mp4 False) width height) (\<lambda>settings.
     and_then (guard_err (su_can_add_video su) UnsupportedInput) (\<lambda>_.
     and_then (add_audio_input su system_audio) (\<lambda>audio.
     and_then (guard_err (su_starts su) (StartError (su_error su))) (\<lambda>_.
     Inr \<lparr>vw_audio_input = (audio \<noteq> []), vw_frame_duration = frame_duration, vw_start = None,
          vw_last = None, vw_started = False, vw_finished = False,
          vw_calls = [SegmentInterval interval, InitialSegmentStart 0, AddVideoInput settings] @ audio @ [StartWriting],
          hw_sink = new_sink out segment_duration, hw_disk = d, hw_reported = []\<rparr>))))))"

definition hls_new ::
    "av_setup \<Rightarrow> string \<Rightarrow> string option \<Rightarrow> nat \<Rightarrow> nat \<Rightarrow> nat \<Rightarrow> duration \<Rightarrow> bool \<Rightarrow> disk \<Rightarrow>
     disk \<times> (writer_error + ('f, 'a) hls_writer)" where
  "hls_new su out dir_reply width height fps segment_duration system_audio d =
     (if width = 0 \<or> height = 0 then (d, Inl InvalidDimensions)
      else case frame_duration_of fps of
        Inl e \<Rightarrow> (d, Inl e)
      | Inr frame_duration \<Rightarrow>
          if segment_duration = 0 then (d, Inl InvalidSegmentDuration)
          else (case fs_create_dir out dir_reply d of
                  (d1, Inl e) \<Rightarrow> (d1, Inl (OutputError e))
                | (d1, Inr u) \<Rightarrow>
                    (d1, hls_setup su out width height frame_duration segment_duration system_audio d1)))"

definition hls_put_frame ::
    "'f \<Rightarrow> duration \<Rightarrow> av_reply \<Rightarrow> ('f, 'a) hls_writer \<Rightarrow> ('f, 'a) hls_writer \<times> (writer_error + bool)" where
  "hls_put_frame f timestamp reply w =
     (case check_error w of
        Inl e \<Rightarrow> (w, Inl e)
      | Inr _ \<Rightarrow>
          if \<not> av_ready reply then (w, Inr False)
          else case micros_i64 timestamp of
            Inl e \<Rightarrow> (w, Inl e)
          | Inr t \<Rightarrow>
              (let start = unwrap_or (vw_start w) t;
                   w1 = w\<lparr>vw_start := Some start\<rparr>
               in case next_relative (vw_last w1) start t of
                    Inl e \<Rightarrow> (w1, Inl e)
                  | Inr rel \<Rightarrow> put_frame f rel rel reply (start_session 0 w1)))"

definition hls_put_audio ::
    "core_media \<Rightarrow> 'a audio_packet \<Rightarrow> duration \<Rightarrow> av_reply \<Rightarrow> ('f, 'a) hls_writer \<Rightarrow>
     ('f, 'a) hls_writer \<times> (writer_error + bool)" where
  "hls_put_audio md packet timestamp reply w =
     (if \<not> vw_audio_input w then (w, Inr False)
      else if \<not> av_ready reply then (w, Inr False)
      else case micros_i64 timestamp of
        Inl e \<Rightarrow> (w, Inl e)
      | Inr t \<Rightarrow>
          (case vw_start w of
             None \<Rightarrow> (w, Inl NoFrames)
           | Some start \<Rightarrow> put_samples md packet (max (saturating_signed 64 (t - start)) 0) reply w))"

text \<open>
  The deliveries that happen during a call come before its second look at the error, which follows
  a sample the framework took.
\<close>

definition after_sample ::
    "segment list \<Rightarrow> ('f, 'a) hls_writer \<times> (writer_error + bool) \<Rightarrow> ('f, 'a) hls_writer \<times> (writer_error + bool)" where
  "after_sample during res =
     (let w = deliver during (fst res)
      in (w, case snd res of
               Inr True \<Rightarrow> and_then (check_error w) (\<lambda>_. Inr True)
             | r \<Rightarrow> r))"

definition hls_append ::
    "'f \<Rightarrow> duration \<Rightarrow> av_reply \<Rightarrow> segment list \<Rightarrow> ('f, 'a) hls_writer \<Rightarrow> ('f, 'a) hls_writer \<times> (writer_error + bool)" where
  "hls_append f timestamp reply during w = after_sample during (hls_put_frame f timestamp reply w)"

definition hls_append_audio ::
    "core_media \<Rightarrow> 'a audio_packet \<Rightarrow> duration \<Rightarrow> av_reply \<Rightarrow> segment list \<Rightarrow> ('f, 'a) hls_writer \<Rightarrow>
     ('f, 'a) hls_writer \<times> (writer_error + bool)" where
  "hls_append_audio md packet timestamp reply during w =
     after_sample during (hls_put_audio md packet timestamp reply w)"

definition finish_playlist ::
    "write_reply \<Rightarrow> string option \<Rightarrow> ('f, 'a) hls_writer \<Rightarrow> ('f, 'a) hls_writer \<times> (writer_error + unit)" where
  "finish_playlist tmp_reply rename_reply w =
     (case ps_error (hw_sink w) of
        Some e \<Rightarrow> (w, Inl (HlsOutput e))
      | None \<Rightarrow>
          (let s = (hw_sink w)\<lparr>ps_finished := True\<rparr>
           in case write_playlist tmp_reply rename_reply s (hw_disk w) of
                (d, r) \<Rightarrow> (w\<lparr>hw_sink := s, hw_disk := d\<rparr>, map_err OutputError r)))"

definition hls_end_time :: "('f, 'a) hls_writer \<Rightarrow> writer_error + int" where
  "hls_end_time w = and_then (ok_or (vw_last w) NoFrames) (\<lambda>t. end_after t (vw_frame_duration w))"

definition hls_finish ::
    "finish_reply \<Rightarrow> segment list \<Rightarrow> write_reply \<Rightarrow> string option \<Rightarrow> ('f, 'a) hls_writer \<Rightarrow>
     ('f, 'a) hls_writer \<times> (writer_error + unit)" where
  "hls_finish reply during tmp_reply rename_reply w =
     (if vw_finished w then (deliver during w, Inr ())
      else case hls_end_time w of
        Inl e \<Rightarrow> (deliver during w, Inl e)
      | Inr t \<Rightarrow>
          (let w1 = deliver during (call FinishWriting (end_calls t w))
           in case and_then (finish_result reply) (\<lambda>_. check_error w1) of
                Inl e \<Rightarrow> (w1, Inl e)
              | Inr u \<Rightarrow>
                  (case finish_playlist tmp_reply rename_reply w1 of
                     (w2, Inl e) \<Rightarrow> (w2, Inl e)
                   | (w2, Inr v) \<Rightarrow> (w2\<lparr>vw_finished := True\<rparr>, Inr ()))))"

subsection \<open>What the directory holds\<close>

abbreviation seg_path :: "string \<Rightarrow> nat \<Rightarrow> string" where "seg_path dir i \<equiv> join dir (segment_name i)"
abbreviation init_path :: "string \<Rightarrow> string" where "init_path dir \<equiv> join dir initialization_name"
abbreviation list_path :: "string \<Rightarrow> string" where "list_path dir \<equiv> join dir playlist_name"
abbreviation temp_path :: "string \<Rightarrow> string" where "temp_path dir \<equiv> join dir (''.'' @ playlist_name @ ''.tmp'')"

lemma segment_name_inject [simp]: "segment_name i = segment_name j \<longleftrightarrow> i = j"
  by (simp add: segment_name_def)

lemma names_distinct [simp]:
  "segment_name i \<noteq> initialization_name" "segment_name i \<noteq> playlist_name"
  "segment_name i \<noteq> ''.'' @ playlist_name @ ''.tmp''" "segment_name i \<noteq> CHR ''.'' # playlist_name @ ''.tmp''"
  "initialization_name \<noteq> playlist_name" "initialization_name \<noteq> CHR ''.'' # playlist_name @ ''.tmp''"
  "playlist_name \<noteq> CHR ''.'' # playlist_name @ ''.tmp''"
  "initialization_name \<noteq> segment_name i" "playlist_name \<noteq> segment_name i" "playlist_name \<noteq> initialization_name"
  by (simp_all add: segment_name_def initialization_name_def playlist_name_def)

definition media :: "segment list \<Rightarrow> segment list" where
  "media gs = filter (\<lambda>g. sg_type g = Separable) gs"

definition segment_duration :: "playlist_sink \<Rightarrow> segment \<Rightarrow> duration" where
  "segment_duration s g = unwrap_or (report_duration (sg_report g)) (ps_configured s)"

text \<open>The segments listed so far are on disk as they were delivered.\<close>

definition segments_ok :: "segment list \<Rightarrow> playlist_sink \<Rightarrow> disk \<Rightarrow> bool" where
  "segments_ok gs s d \<longleftrightarrow>
     length (ps_durations s) \<le> length (media gs) \<and>
     (\<forall>i < length (ps_durations s).
        dk_files d (seg_path (ps_output s) i) = Some (sg_data (media gs ! i)) \<and>
        ps_durations s ! i = segment_duration s (media gs ! i)) \<and>
     (ps_initialized s \<longrightarrow> dk_files d (init_path (ps_output s)) \<noteq> None)"

text \<open>A playlist on disk lists some of them, all the reported ones among them.\<close>

definition lists :: "playlist_sink \<Rightarrow> string list \<Rightarrow> string \<Rightarrow> bool" where
  "lists s out text \<longleftrightarrow> (\<exists>k fin. k \<le> length (ps_durations s) \<and> text = playlist (ps_configured s) (take k (ps_durations s)) fin
     \<and> (\<forall>i. seg_path (ps_output s) i \<in> set out \<longrightarrow> i < k))"

definition playlist_ok :: "playlist_sink \<Rightarrow> disk \<Rightarrow> string list \<Rightarrow> bool" where
  "playlist_ok s d out \<longleftrightarrow>
     (case dk_files d (list_path (ps_output s)) of
        None \<Rightarrow> True
      | Some text \<Rightarrow> ps_initialized s \<and> lists s out text)"

definition reports_ok :: "playlist_sink \<Rightarrow> string list \<Rightarrow> bool" where
  "reports_ok s out \<longleftrightarrow> (\<forall>p \<in> set out.
     ps_initialized s \<and> p = init_path (ps_output s) \<or>
     (\<exists>i < length (ps_durations s). p = seg_path (ps_output s) i))"

definition current_ok :: "segment list \<Rightarrow> playlist_sink \<Rightarrow> disk \<Rightarrow> bool" where
  "current_ok gs s d \<longleftrightarrow> (ps_error s = None \<longrightarrow> length (ps_durations s) = length (media gs) \<and>
     (ps_initialized s \<and> \<not> ps_finished s \<longrightarrow>
        dk_files d (list_path (ps_output s)) = Some (playlist (ps_configured s) (ps_durations s) False)))"

definition sink_inv :: "segment list \<Rightarrow> playlist_sink \<Rightarrow> disk \<Rightarrow> string list \<Rightarrow> bool" where
  "sink_inv gs s d out \<longleftrightarrow>
     segments_ok gs s d \<and> playlist_ok s d out \<and> reports_ok s out \<and> current_ok gs s d"

lemmas paths_simps = playlist_path_def temporary_path_def

text \<open>Writing the playlist replaces it as a whole or leaves it alone.\<close>

lemma write_playlist_disk:
  assumes "write_playlist t r s d = (d', res)"
  shows "(\<forall>p. p \<noteq> temporary_path s \<and> p \<noteq> playlist_path s \<longrightarrow> dk_files d' p = dk_files d p)
    \<and> (case res of
         Inl e \<Rightarrow> dk_files d' (playlist_path s) = dk_files d (playlist_path s)
       | Inr u \<Rightarrow> dk_files d' (playlist_path s) =
           (if ps_initialized s then Some (playlist (ps_configured s) (ps_durations s) (ps_finished s))
            else dk_files d (playlist_path s)))"
  using assms
  by (cases t; cases r)
    (auto simp: write_playlist_def fs_write_def fs_rename_def paths_simps split: if_splits option.splits)

lemma write_asset_disk:
  assumes "write_asset s g d = (s', d', res)"
  shows "(\<forall>p. (\<forall>n. asset_name s g = Some n \<longrightarrow> p \<noteq> join (ps_output s) n) \<longrightarrow> dk_files d' p = dk_files d p)
    \<and> (case res of
         Inl e \<Rightarrow> s' = s \<and> (\<forall>p. dk_files d p \<noteq> None \<longrightarrow> dk_files d' p \<noteq> None)
       | Inr u \<Rightarrow> (case asset_name s g of None \<Rightarrow> s' = s \<and> d' = d
           | Some n \<Rightarrow> s' = asset_written s g \<and> dk_files d' (join (ps_output s) n) = Some (sg_data g)))"
  using assms
  by (cases "sg_write g")
    (auto simp: write_asset_def fs_write_def split: option.splits if_splits)

lemma media_snoc: "media (gs @ [g]) = media gs @ (if sg_type g = Separable then [g] else [])"
  by (simp add: media_def)

lemma segments_ok_cong:
  assumes "segments_ok gs s d"
    and "\<And>i. dk_files d' (seg_path (ps_output s) i) = dk_files d (seg_path (ps_output s) i)"
    and "dk_files d' (init_path (ps_output s)) = dk_files d (init_path (ps_output s))"
  shows "segments_ok gs s d'"
  using assms by (simp add: segments_ok_def)

lemma asset_written_fields [simp]:
  "ps_output (asset_written s g) = ps_output s" "ps_configured (asset_written s g) = ps_configured s"
  "ps_finished (asset_written s g) = ps_finished s" "ps_error (asset_written s g) = ps_error s"
  "ps_initialized s \<Longrightarrow> ps_initialized (asset_written s g)"
  "length (ps_durations s) \<le> length (ps_durations (asset_written s g))"
  "segment_duration (asset_written s g) g' = segment_duration s g'"
  by (simp_all add: asset_written_def segment_duration_def split: segment_type.split)

lemma segments_ok_more:
  "segments_ok gs s d \<Longrightarrow> segments_ok (gs @ [g]) s d"
  by (auto simp: segments_ok_def media_snoc nth_append)

lemma asset_phase:
  assumes ok: "segments_ok gs s d" and len: "length (ps_durations s) = length (media gs)"
    and w: "write_asset s g d = (s1, d1, r)"
  shows "segments_ok (gs @ [g]) s1 d1"
    "is_ok r \<Longrightarrow> length (ps_durations s1) = length (media (gs @ [g]))"
    "dk_files d1 (list_path (ps_output s)) = dk_files d (list_path (ps_output s))"
    "s1 = s \<or> s1 = asset_written s g"
proof -
  note disk = write_asset_disk [OF w]
  have other: "dk_files d1 p = dk_files d p" if "\<And>n. asset_name s g = Some n \<Longrightarrow> p \<noteq> join (ps_output s) n" for p
    using disk that by blast
  show "dk_files d1 (list_path (ps_output s)) = dk_files d (list_path (ps_output s))"
    by (rule other) (auto simp: asset_name_def split: segment_type.splits)
  show "s1 = s \<or> s1 = asset_written s g"
    using disk by (auto split: sum.splits option.splits)
  have seg: "dk_files d1 (seg_path (ps_output s) i) = dk_files d (seg_path (ps_output s) i)"
    if "i < length (ps_durations s)" for i
    using that by (intro other) (auto simp: asset_name_def split: segment_type.splits)
  show "segments_ok (gs @ [g]) s1 d1"
  proof (cases r)
    case (Inl e)
    with disk have s1: "s1 = s" and kept: "\<And>p. dk_files d p \<noteq> None \<Longrightarrow> dk_files d1 p \<noteq> None" by auto
    have "segments_ok (gs @ [g]) s d" by (rule segments_ok_more [OF ok])
    with seg kept [of "init_path (ps_output s)"] s1 show ?thesis by (auto simp: segments_ok_def)
  next
    case (Inr u)
    show ?thesis
    proof (cases "sg_type g")
      case Initialization
      with disk Inr have "s1 = s\<lparr>ps_initialized := True\<rparr>"
        "dk_files d1 (init_path (ps_output s)) = Some (sg_data g)"
        by (auto simp: asset_name_def asset_written_def)
      with ok seg Initialization show ?thesis
        by (auto simp: segments_ok_def media_snoc segment_duration_def)
    next
      case Separable
      with disk Inr have s1: "s1 = s\<lparr>ps_durations := ps_durations s @ [segment_duration s g]\<rparr>"
        and new: "dk_files d1 (seg_path (ps_output s) (length (ps_durations s))) = Some (sg_data g)"
        by (auto simp: asset_name_def asset_written_def segment_duration_def)
      have "dk_files d1 (init_path (ps_output s)) = dk_files d (init_path (ps_output s))"
        using Separable by (intro other) (auto simp: asset_name_def)
      with ok seg new Separable len show ?thesis
        by (auto simp: segments_ok_def s1 media_snoc segment_duration_def nth_append less_Suc_eq)
    next
      case OtherSegment
      with disk Inr have "s1 = s" "d1 = d" by (auto simp: asset_name_def)
      with segments_ok_more [OF ok] show ?thesis by simp
    qed
  qed
  show "is_ok r \<Longrightarrow> length (ps_durations s1) = length (media (gs @ [g]))"
    using disk len
    by (cases r; cases "sg_type g") (auto simp: asset_name_def asset_written_def media_snoc)
qed

lemma lists_all:
  "(\<And>i. seg_path (ps_output s) i \<in> set out \<Longrightarrow> i < length (ps_durations s)) \<Longrightarrow>
   lists s out (playlist (ps_configured s) (ps_durations s) fin)"
  unfolding lists_def by (rule exI [of _ "length (ps_durations s)"]) auto

lemma lists_more:
  assumes "lists s out text" "ps_configured s' = ps_configured s" "ps_output s' = ps_output s"
    and "take (length (ps_durations s)) (ps_durations s') = ps_durations s"
  shows "lists s' out text"
proof -
  from assms(1) obtain k fin where k: "k \<le> length (ps_durations s)"
    "text = playlist (ps_configured s) (take k (ps_durations s)) fin"
    "\<forall>i. seg_path (ps_output s) i \<in> set out \<longrightarrow> i < k" by (auto simp: lists_def)
  have len: "length (ps_durations s) \<le> length (ps_durations s')"
    by (metis assms(4) length_take min.cobounded1)
  have "take k (ps_durations s') = take k (ps_durations s)"
    by (metis assms(4) k(1) min.absorb2 min.commute take_take)
  with k len assms(2,3) show ?thesis
    unfolding lists_def by (intro exI [of _ k] exI [of _ fin]) simp
qed

lemma asset_written_take:
  "take (length (ps_durations s)) (ps_durations (asset_written s g)) = ps_durations s"
  by (simp add: asset_written_def split: segment_type.split)

lemma reports_ok_more: "reports_ok s out \<Longrightarrow> reports_ok (asset_written s g) out"
  unfolding reports_ok_def
  by (metis asset_written_fields(1,5,6) order.strict_trans2)

lemma reports_bound: "reports_ok s out \<Longrightarrow> seg_path (ps_output s) i \<in> set out \<Longrightarrow> i < length (ps_durations s)"
  unfolding reports_ok_def by (auto dest!: bspec)

lemma playlist_phase:
  assumes "write_playlist t r s d = (d', res)"
  shows "dk_files d' (seg_path (ps_output s) i) = dk_files d (seg_path (ps_output s) i)"
    "dk_files d' (init_path (ps_output s)) = dk_files d (init_path (ps_output s))"
    "res = Inl e \<Longrightarrow> dk_files d' (list_path (ps_output s)) = dk_files d (list_path (ps_output s))"
    "res = Inr u \<Longrightarrow> dk_files d' (list_path (ps_output s)) =
       (if ps_initialized s then Some (playlist (ps_configured s) (ps_durations s) (ps_finished s))
        else dk_files d (list_path (ps_output s)))"
  using write_playlist_disk [OF assms] by (auto simp: paths_simps)

text \<open>A sink that stopped at an error: what it wrote stays.\<close>

lemma sink_inv_stopped:
  assumes "segments_ok gs s d" "playlist_ok s d out" "reports_ok s out"
  shows "sink_inv gs (s\<lparr>ps_error := Some e\<rparr>) d out"
  using assms
  by (auto simp: sink_inv_def segments_ok_def segment_duration_def playlist_ok_def lists_def reports_ok_def
      current_ok_def split: option.splits)

lemma write_segment_keeps:
  assumes inv: "sink_inv gs s d out" and live: "ps_error s = None"
    and w: "write_segment s g d = (s', d', new, r)"
  shows "sink_inv (gs @ [g]) (case r of Inl e \<Rightarrow> s'\<lparr>ps_error := Some e\<rparr> | Inr u \<Rightarrow> s') d' (out @ new)"
proof -
  obtain s1 d1 r1 where a: "write_asset s g d = (s1, d1, r1)" by (metis prod_cases3)
  from inv live have len: "length (ps_durations s) = length (media gs)"
    and segs: "segments_ok gs s d" and reports: "reports_ok s out" and pl: "playlist_ok s d out"
    by (auto simp: sink_inv_def current_ok_def)
  note ph = asset_phase [OF segs len a]
  have reports1: "reports_ok s1 out" using ph(4) reports reports_ok_more by auto
  have out1: "ps_output s1 = ps_output s" using ph(4) by auto
  have pl1: "playlist_ok s1 d1 out"
    using pl ph(3,4) lists_more [OF _ _ _ asset_written_take]
    by (auto simp: playlist_ok_def split: option.splits)
  show ?thesis
  proof (cases r1)
    case (Inl e)
    with w a have "s' = s1" "d' = d1" "new = []" "r = Inl e" by (auto simp: write_segment_def)
    with sink_inv_stopped [OF ph(1) pl1 reports1] show ?thesis by simp
  next
    case r1: (Inr u)
    obtain d2 r2 where b: "write_playlist (sg_tmp g) (sg_rename g) s1 d1 = (d2, r2)" by fastforce
    note pp = playlist_phase [OF b]
    have segs2: "segments_ok (gs @ [g]) s1 d2" by (rule segments_ok_cong [OF ph(1)]) (simp_all add: pp)
    have len1: "length (ps_durations s1) = length (media (gs @ [g]))" using ph(2) r1 by simp
    show ?thesis
    proof (cases r2)
      case (Inl e)
      with w a b r1 have "s' = s1" "d' = d2" "new = []" "r = Inl e" by (auto simp: write_segment_def)
      moreover have "playlist_ok s1 d2 out" using pl1 pp(3) Inl by (simp add: playlist_ok_def)
      ultimately show ?thesis using sink_inv_stopped [OF segs2 _ reports1] by simp
    next
      case (Inr v)
      with w a b r1 have eqs: "s' = s1" "d' = d2" "r = Inr ()"
        "new = (case asset_name s g of None \<Rightarrow> [] | Some n \<Rightarrow> [join (ps_output s) n])"
        by (auto simp: write_segment_def)
      have new: "reports_ok s1 (out @ new)"
        using reports1 write_asset_disk [OF a] r1
        by (cases "sg_type g")
          (auto simp: reports_ok_def eqs(4) asset_name_def asset_written_def)
      have "lists s1 (out @ new) (playlist (ps_configured s1) (ps_durations s1) fin)" for fin
        by (rule lists_all) (rule reports_bound [OF new])
      then have "playlist_ok s1 d2 (out @ new)"
        using pl1 pp(4) Inr by (auto simp: playlist_ok_def split: option.splits if_splits)
      moreover have "current_ok (gs @ [g]) s1 d2"
        using len1 pp(4) Inr by (simp add: current_ok_def)
      ultimately show ?thesis using segs2 new eqs by (simp add: sink_inv_def)
    qed
  qed
qed

lemma did_output_segment_keeps:
  assumes "sink_inv gs (hw_sink w) (hw_disk w) (hw_reported w)"
  shows "sink_inv (gs @ [g]) (hw_sink (did_output_segment g w)) (hw_disk (did_output_segment g w))
    (hw_reported (did_output_segment g w))"
proof (cases "ps_error (hw_sink w)")
  case None
  then show ?thesis
    using write_segment_keeps [OF assms None, of g]
    by (cases "write_segment (hw_sink w) g (hw_disk w)") (simp add: did_output_segment_def)
next
  case (Some e)
  with assms show ?thesis
    using segments_ok_more by (auto simp: did_output_segment_def sink_inv_def current_ok_def)
qed

lemma deliver_keeps:
  assumes "sink_inv gs (hw_sink w) (hw_disk w) (hw_reported w)"
  shows "sink_inv (gs @ hs) (hw_sink (deliver hs w)) (hw_disk (deliver hs w)) (hw_reported (deliver hs w))"
  using assms
proof (induction hs arbitrary: gs w)
  case Nil
  then show ?case by (simp add: deliver_def)
next
  case (Cons h hs)
  from Cons.IH [OF did_output_segment_keeps [OF Cons.prems, of h]]
  show ?case by (simp add: deliver_def)
qed

lemma did_output_segment_track [simp]:
  "video_writer.truncate (did_output_segment g w) = video_writer.truncate w"
  by (simp add: did_output_segment_def video_writer.truncate_def split: prod.split)

lemma deliver_track [simp]: "video_writer.truncate (deliver gs w) = video_writer.truncate w"
  by (induction gs arbitrary: w) (simp_all add: deliver_def)

subsection \<open>Runs\<close>

interpretation hls_track: media_track "\<lambda>s r. r" "\<lambda>s. 0"
  by unfold_locales auto

abbreviation hls_track_inv :: "('f, 'a, 'z) video_writer_scheme \<Rightarrow> bool" where
  "hls_track_inv \<equiv> track_inv (\<lambda>s r. r) (\<lambda>s. 0)"

lemma track_inv_truncate: "track_inv present session (video_writer.truncate w) = track_inv present session w"
  by (simp add: track_inv_def video_writer.truncate_def)

lemma track_inv_deliver [simp]: "track_inv present session (deliver gs w) = track_inv present session w"
  by (metis track_inv_truncate deliver_track)

lemma hls_put_frame_keeps:
  assumes inv: "hls_track_inv w"
  shows "hls_track_inv (fst (hls_put_frame f d reply w))"
proof (cases "is_ok (check_error w) \<and> av_ready reply \<and> is_ok (micros_i64 d)")
  case False
  with inv show ?thesis by (auto simp: hls_put_frame_def split: sum.splits)
next
  case True
  then obtain u t where ok: "check_error w = Inr u" "av_ready reply" "micros_i64 d = Inr t"
    by (auto simp: is_ok_iff)
  define s where "s = unwrap_or (vw_start w) t"
  have step: "fst (hls_put_frame f d reply w) =
      (case next_relative (vw_last w) s t of
         Inl e \<Rightarrow> w\<lparr>vw_start := Some s\<rparr>
       | Inr rel \<Rightarrow> fst (put_frame f rel rel reply (start_session 0 (w\<lparr>vw_start := Some s\<rparr>))))"
    using ok by (simp add: hls_put_frame_def Let_def s_def split: sum.splits)
  show ?thesis
  proof (cases "next_relative (vw_last w) s t")
    case (Inr rel)
    with step hls_track.track_frame [OF inv s_def [symmetric], of t rel f reply] show ?thesis by simp
  next
    case (Inl e)
    have "vw_start w \<noteq> None"
    proof
      assume none: "vw_start w = None"
      with unstarted [OF inv none] Inl first_relative show False by (simp add: s_def)
    qed
    then have "hls_track_inv (w\<lparr>vw_start := Some s\<rparr>)"
      using track_inv_start [OF inv, of t] inv by (simp add: s_def track_inv_def)
    with step Inl show ?thesis by simp
  qed
qed

lemma hls_put_audio_keeps:
  assumes inv: "hls_track_inv w"
  shows "hls_track_inv (fst (hls_put_audio md p d reply w))"
proof -
  have "hls_track_inv (fst (put_samples md p (max t 0) reply w))" if "vw_start w = Some s" for t s
    by (rule hls_track.track_samples [OF inv that]) (simp_all add: audio_sample_buffer_at)
  with inv show ?thesis by (auto simp: hls_put_audio_def split: sum.splits option.splits)
qed

lemma hls_fields:
  "hw_sink (fst (hls_put_frame f d reply w)) = hw_sink w" "hw_disk (fst (hls_put_frame f d reply w)) = hw_disk w"
  "hw_reported (fst (hls_put_frame f d reply w)) = hw_reported w"
  "hw_sink (fst (hls_put_audio md p d reply w)) = hw_sink w" "hw_disk (fst (hls_put_audio md p d reply w)) = hw_disk w"
  "hw_reported (fst (hls_put_audio md p d reply w)) = hw_reported w"
  by (simp_all add: hls_put_frame_def hls_put_audio_def call_simps split: sum.splits option.splits)

abbreviation files_inv :: "segment list \<Rightarrow> ('f, 'a) hls_writer \<Rightarrow> bool" where
  "files_inv gs w \<equiv> sink_inv gs (hw_sink w) (hw_disk w) (hw_reported w)"

lemma call_fields:
  "hw_sink (call FinishWriting (end_calls t w)) = hw_sink w" "hw_disk (call FinishWriting (end_calls t w)) = hw_disk w"
  "hw_reported (call FinishWriting (end_calls t w)) = hw_reported w"
  by (simp_all add: call_simps)

lemma finish_playlist_keeps:
  assumes "files_inv gs w"
  shows "files_inv gs (fst (finish_playlist t r w))"
proof (cases "ps_error (hw_sink w)")
  case (Some e)
  with assms show ?thesis by (simp add: finish_playlist_def)
next
  case None
  let ?s = "(hw_sink w)\<lparr>ps_finished := True\<rparr>"
  obtain d res where w: "write_playlist t r ?s (hw_disk w) = (d, res)" by fastforce
  note pp = playlist_phase [OF w]
  from assms have "segments_ok gs ?s (hw_disk w)"
    by (simp add: sink_inv_def segments_ok_def segment_duration_def)
  then have segs: "segments_ok gs ?s d" by (rule segments_ok_cong [OF _ pp(1,2)])
  have reports: "reports_ok ?s (hw_reported w)" using assms by (simp add: sink_inv_def reports_ok_def)
  have all: "lists ?s (hw_reported w) (playlist (ps_configured ?s) (ps_durations ?s) fin)" for fin
    by (rule lists_all) (rule reports_bound [OF reports])
  have "playlist_ok ?s (hw_disk w) (hw_reported w)"
    using assms by (auto simp: sink_inv_def playlist_ok_def lists_def split: option.splits)
  then have "playlist_ok ?s d (hw_reported w)"
    using pp(3,4) all by (cases res) (auto simp: playlist_ok_def split: option.splits if_splits)
  moreover have "current_ok gs ?s d" using assms None by (simp add: sink_inv_def current_ok_def)
  ultimately show ?thesis using segs reports None w by (simp add: finish_playlist_def sink_inv_def)
qed

lemma finish_playlist_vw [simp]:
  "video_writer.truncate (fst (finish_playlist t r w)) = video_writer.truncate w"
  by (simp add: finish_playlist_def video_writer.truncate_def Let_def split: option.split prod.split)

datatype ('f, 'a) hls_op =
    HlsAppend 'f duration av_reply "segment list"
  | HlsAppendAudio core_media "'a audio_packet" duration av_reply "segment list"
  | HlsDeliver segment
  | HlsFinish finish_reply "segment list" write_reply "string option"

fun hls_run :: "('f, 'a) hls_op \<Rightarrow> ('f, 'a) hls_writer \<Rightarrow> ('f, 'a) hls_writer" where
  "hls_run (HlsAppend f t reply gs) w = fst (hls_append f t reply gs w)"
| "hls_run (HlsAppendAudio md p t reply gs) w = fst (hls_append_audio md p t reply gs w)"
| "hls_run (HlsDeliver g) w = did_output_segment g w"
| "hls_run (HlsFinish reply gs t r) w = fst (hls_finish reply gs t r w)"

text \<open>The segments delivered by an operation.\<close>

fun delivered :: "('f, 'a) hls_op \<Rightarrow> segment list" where
  "delivered (HlsAppend f t reply gs) = gs"
| "delivered (HlsAppendAudio md p t reply gs) = gs"
| "delivered (HlsDeliver g) = [g]"
| "delivered (HlsFinish reply gs t r) = gs"

lemma hls_finish_cases:
  "fst (hls_finish reply gs t r w) = deliver gs w \<or>
   (\<exists>e w1. w1 = deliver gs (call FinishWriting (end_calls e w)) \<and>
     (fst (hls_finish reply gs t r w) = w1 \<or>
      (\<exists>x. fst (hls_finish reply gs t r w) = (fst (finish_playlist t r w1))\<lparr>vw_finished := x\<rparr>) \<or>
      fst (hls_finish reply gs t r w) = fst (finish_playlist t r w1)))"
  by (auto simp: hls_finish_def Let_def split: sum.splits prod.splits) (metis fst_conv)+

lemma end_keeps:
  assumes inv: "hls_track_inv w"
  shows "hls_track_inv (call FinishWriting (end_calls t w))"
  by (rule hls_track.track_other [OF inv, where cs = "end_list w t @ [FinishWriting]"])
    (simp_all add: call_def end_calls_shape end_list_other session_first_append)

lemma hls_finish_keeps:
  assumes track: "hls_track_inv w" and files: "files_inv gs w"
  shows "hls_track_inv (fst (hls_finish reply hs t r w)) \<and> files_inv (gs @ hs) (fst (hls_finish reply hs t r w))"
proof -
  have fin: "hls_track_inv (fst (finish_playlist t r w1))" if "hls_track_inv w1" for w1 :: "('a, 'b) hls_writer"
    by (metis finish_playlist_vw that track_inv_truncate)
  have upd: "hls_track_inv (w2\<lparr>vw_finished := x\<rparr>) = hls_track_inv w2" for w2 :: "('a, 'b) hls_writer" and x
    by (simp add: track_inv_def)
  have files1: "files_inv (gs @ hs) (deliver hs (call FinishWriting (end_calls e w)))" for e
    by (rule deliver_keeps) (simp add: files call_fields)
  from hls_finish_cases [of reply hs t r w] show ?thesis
    using track deliver_keeps [OF files, of hs] files1 end_keeps [OF track] fin upd finish_playlist_keeps [OF files1]
    by (elim disjE exE conjE) simp_all
qed

fun hls_log :: "('f, 'a) hls_op \<Rightarrow> segment list \<times> ('f, 'a) hls_writer \<Rightarrow> segment list \<times> ('f, 'a) hls_writer" where
  "hls_log op (gs, w) = (gs @ delivered op, hls_run op w)"

lemma fold_hls_log: "fold hls_log ops (gs, w) = (gs @ concat (map delivered ops), fold hls_run ops w)"
  by (induction ops arbitrary: gs w) simp_all

definition hls_inv :: "segment list \<times> ('f, 'a) hls_writer \<Rightarrow> bool" where
  "hls_inv s = (hls_track_inv (snd s) \<and> files_inv (fst s) (snd s))"

lemma hls_run_keeps:
  assumes track: "hls_track_inv w" and files: "files_inv gs w"
  shows "hls_track_inv (hls_run op w) \<and> files_inv (gs @ delivered op) (hls_run op w)"
proof (cases op)
  case (HlsAppend f t reply hs)
  have "files_inv gs (fst (hls_put_frame f t reply w))" using files by (simp add: hls_fields)
  with HlsAppend hls_put_frame_keeps [OF track, of f t reply] show ?thesis
    by (auto simp: hls_append_def after_sample_def Let_def intro: deliver_keeps)
next
  case (HlsAppendAudio md p t reply hs)
  have "files_inv gs (fst (hls_put_audio md p t reply w))" using files by (simp add: hls_fields)
  with HlsAppendAudio hls_put_audio_keeps [OF track, of md p t reply] show ?thesis
    by (auto simp: hls_append_audio_def after_sample_def Let_def intro: deliver_keeps)
next
  case (HlsDeliver g)
  have "hls_track_inv (did_output_segment g w)"
    by (metis did_output_segment_track track track_inv_truncate)
  with HlsDeliver did_output_segment_keeps [OF files] show ?thesis by simp
next
  case (HlsFinish reply hs t r)
  with hls_finish_keeps [OF assms] show ?thesis by simp
qed

interpretation hls_machine: op_machine hls_log "hls_inv :: segment list \<times> ('f, 'a) hls_writer \<Rightarrow> bool"
proof
  fix s :: "segment list \<times> ('f, 'a) hls_writer" and op
  assume "hls_inv s"
  with hls_run_keeps [of "snd s" "fst s" op] show "hls_inv (hls_log op s)"
    by (cases s) (simp add: hls_inv_def)
qed

lemma did_output_segment_cfg [simp]:
  "ps_output (hw_sink (did_output_segment g w)) = ps_output (hw_sink w)"
  "ps_configured (hw_sink (did_output_segment g w)) = ps_configured (hw_sink w)"
  by (auto simp: did_output_segment_def write_segment_def write_asset_def split: option.splits sum.splits prod.splits)

lemma deliver_cfg [simp]:
  "ps_output (hw_sink (deliver gs w)) = ps_output (hw_sink w)"
  "ps_configured (hw_sink (deliver gs w)) = ps_configured (hw_sink w)"
  by (induction gs arbitrary: w) (simp_all add: deliver_def)

lemma finish_playlist_cfg [simp]:
  "ps_output (hw_sink (fst (finish_playlist t r w))) = ps_output (hw_sink w)"
  "ps_configured (hw_sink (fst (finish_playlist t r w))) = ps_configured (hw_sink w)"
  by (simp_all add: finish_playlist_def Let_def split: option.split prod.split)

lemma hls_finish_cfg:
  "ps_output (hw_sink (fst (hls_finish reply gs t r w))) = ps_output (hw_sink w)"
  "ps_configured (hw_sink (fst (hls_finish reply gs t r w))) = ps_configured (hw_sink w)"
  using hls_finish_cases [of reply gs t r w] by (auto simp: call_fields)

lemma hls_run_cfg [simp]:
  "ps_output (hw_sink (hls_run op w)) = ps_output (hw_sink w)"
  "ps_configured (hw_sink (hls_run op w)) = ps_configured (hw_sink w)"
  by (cases op; simp add: hls_append_def hls_append_audio_def after_sample_def Let_def hls_fields hls_finish_cfg)+

lemma fold_hls_run_cfg [simp]:
  "ps_output (hw_sink (fold hls_run ops w)) = ps_output (hw_sink w)"
  "ps_configured (hw_sink (fold hls_run ops w)) = ps_configured (hw_sink w)"
  by (induction ops arbitrary: w) simp_all

lemma hls_new_start:
  assumes "hls_new su out r x y fps dur audio d = (d', Inr w)"
  shows "hls_track_inv w" "ps_output (hw_sink w) = out" "ps_configured (hw_sink w) = dur"
    "dk_files d (list_path out) = None \<Longrightarrow> files_inv [] w"
  using assms
  by (auto simp: hls_new_def hls_setup_def new_sink_def fs_create_dir_def track_inv_def last_frame_def
      from_start_def session_first_append sink_inv_def segments_ok_def playlist_ok_def reports_ok_def
      current_ok_def media_def
      split: if_splits sum.splits prod.splits option.splits dest: add_audio_calls)

lemma hls_run_inv:
  assumes "hls_new su out r x y fps dur audio d = (d', Inr w)" "dk_files d (list_path out) = None"
  shows "hls_track_inv (fold hls_run ops w)" "files_inv (concat (map delivered ops)) (fold hls_run ops w)"
  using hls_machine.fold_inv [of "([], w)" ops] hls_new_start [OF assms(1)] assms(2)
  by (simp_all add: hls_inv_def fold_hls_log)

lemma segments_ok_durations:
  assumes "segments_ok gs s d" "k \<le> length (ps_durations s)"
  shows "take k (ps_durations s) = map (segment_duration s) (take k (media gs))"
  using assms by (intro nth_equalityI) (auto simp: segments_ok_def)

lemma segment_duration_cfg: "segment_duration s g = unwrap_or (report_duration (sg_report g)) (ps_configured s)"
  by (simp add: segment_duration_def)

text \<open>
  C1: what a player reads from the directory is always complete. At every point of a recording that
  began in a directory with no playlist, with any interleaving of frames, packets and delivered
  segments, any framework answers and any file error, a playlist that is on disk lists a prefix of
  the delivered media segments with the durations of their reports; every listed segment's file
  holds exactly the data that was delivered, the initialization segment is there, and every media
  segment reported to the callback (and so uploaded) is listed.
\<close>
theorem hls_directory_consistent:
  assumes "hls_new su out r x y fps dur audio d = (d', Inr w0)" "dk_files d (list_path out) = None"
    and "w = fold hls_run ops w0" "gs = media (concat (map delivered ops))"
    and "dk_files (hw_disk w) (list_path out) = Some text"
  shows "\<exists>k fin. k \<le> length gs \<and>
    text = playlist dur (map (\<lambda>g. unwrap_or (report_duration (sg_report g)) dur) (take k gs)) fin \<and>
    dk_files (hw_disk w) (init_path out) \<noteq> None \<and>
    (\<forall>i < k. dk_files (hw_disk w) (seg_path out i) = Some (sg_data (gs ! i))) \<and>
    (\<forall>i. seg_path out i \<in> set (hw_reported w) \<longrightarrow> i < k)"
proof -
  let ?s = "hw_sink w"
  have cfg: "ps_output ?s = out" "ps_configured ?s = dur"
    using hls_new_start(2,3) [OF assms(1)] assms(3) by simp_all
  have inv: "files_inv (concat (map delivered ops)) w" using hls_run_inv(2) [OF assms(1,2)] assms(3) by simp
  then have segs: "segments_ok (concat (map delivered ops)) ?s (hw_disk w)" by (simp add: sink_inv_def)
  from inv assms(5) have "ps_initialized ?s" "lists ?s (hw_reported w) text"
    by (simp_all add: sink_inv_def playlist_ok_def cfg)
  then obtain k fin where k: "k \<le> length (ps_durations ?s)"
    "text = playlist dur (take k (ps_durations ?s)) fin"
    "\<forall>i. seg_path out i \<in> set (hw_reported w) \<longrightarrow> i < k" by (auto simp: lists_def cfg)
  have "take k (ps_durations ?s) = map (\<lambda>g. unwrap_or (report_duration (sg_report g)) dur) (take k gs)"
    using segments_ok_durations [OF segs k(1)] by (simp add: assms(4) segment_duration_cfg [abs_def] cfg)
  with k segs \<open>ps_initialized ?s\<close> show ?thesis
    by (intro exI [of _ k] exI [of _ fin]) (auto simp: segments_ok_def cfg assms(4))
qed

text \<open>
  The frames of an HLS recording are in order. With any timestamps, answers, deliveries and file
  errors, the accepted frames have strictly increasing presentation times, the session starts once,
  at zero, before anything is appended, and nothing accepted is before zero.
\<close>
theorem hls_track_in_order:
  assumes "hls_new su out r x y fps dur audio d = (d', Inr w)" "dk_files d (list_path out) = None"
  shows "let cs = vw_calls (fold hls_run ops w)
    in sorted_wrt (<) (frame_times cs) \<and> session_first cs \<and> set (session_starts cs) \<subseteq> {0} \<and>
       length (session_starts cs) \<le> 1 \<and> (\<forall>t \<in> set (frame_times cs @ sample_times cs). 0 \<le> t)"
proof -
  have "hls_track_inv (fold hls_run ops w)" by (rule hls_run_inv(1) [OF assms])
  then show ?thesis by (auto simp: track_inv_def from_start_def Let_def split: option.splits)
qed

text \<open>As long as there is no error, everything that is listed has been reported.\<close>

definition reported_all :: "('f, 'a) hls_writer \<Rightarrow> bool" where
  "reported_all w \<longleftrightarrow> (ps_error (hw_sink w) = None \<longrightarrow>
     (\<forall>i < length (ps_durations (hw_sink w)). seg_path (ps_output (hw_sink w)) i \<in> set (hw_reported w)) \<and>
     (ps_initialized (hw_sink w) \<longrightarrow> init_path (ps_output (hw_sink w)) \<in> set (hw_reported w)))"

lemma did_output_reported: "reported_all w \<Longrightarrow> reported_all (did_output_segment g w)"
  by (cases "sg_type g")
    (auto simp: reported_all_def did_output_segment_def write_segment_def write_asset_def asset_written_def
      asset_name_def less_Suc_eq split: sum.splits prod.splits)

lemma deliver_reported: "reported_all w \<Longrightarrow> reported_all (deliver gs w)"
  unfolding deliver_def by (induction gs arbitrary: w) (simp_all add: did_output_reported)

lemma reported_all_fields:
  "hw_sink w = hw_sink w' \<Longrightarrow> hw_reported w = hw_reported w' \<Longrightarrow> reported_all w = reported_all w'"
  by (simp add: reported_all_def)

lemma finish_playlist_reported: "reported_all w \<Longrightarrow> reported_all (fst (finish_playlist t r w))"
  by (auto simp: finish_playlist_def reported_all_def Let_def split: option.splits prod.splits)

lemma hls_run_reported: "reported_all w \<Longrightarrow> reported_all (hls_run op w)"
proof (cases op)
  case (HlsFinish reply hs t r)
  assume rep: "reported_all w"
  have end_: "reported_all (deliver hs (call FinishWriting (end_calls e w)))" for e
    by (rule deliver_reported) (simp add: rep call_fields cong: reported_all_fields)
  have upd: "reported_all (w2\<lparr>vw_finished := x\<rparr>) = reported_all w2" for w2 :: "('a, 'b) hls_writer" and x
    by (rule reported_all_fields) simp_all
  show ?thesis using hls_finish_cases [of reply hs t r w] HlsFinish deliver_reported [OF rep] end_
    by (elim disjE exE conjE) (simp_all add: upd finish_playlist_reported)
qed (auto simp: hls_append_def hls_append_audio_def after_sample_def Let_def hls_fields did_output_reported
    intro!: deliver_reported cong: reported_all_fields)

lemma finished_recording:
  assumes "hls_new su out r x y fps dur audio d = (d', Inr w0)" "dk_files d (list_path out) = None"
    and "w = fold hls_run ops w0" "gs = media (concat (map delivered ops) @ during)"
    and "\<not> vw_finished w" "hls_finish reply during t ren w = (w', Inr u)" "ps_initialized (hw_sink w')"
  shows "dk_files (hw_disk w') (list_path out)
      = Some (playlist dur (map (\<lambda>g. unwrap_or (report_duration (sg_report g)) dur) gs) True) \<and>
    (\<forall>i < length gs. dk_files (hw_disk w') (seg_path out i) = Some (sg_data (gs ! i))) \<and>
    vw_finished w' \<and> frame_times (vw_calls w) \<noteq> [] \<and>
    (\<exists>e. EndSession e \<in> set (vw_calls w') \<and> (\<forall>f \<in> set (frame_times (vw_calls w)). f < e))"
proof -
  have inv: "hls_track_inv w" and files: "files_inv (concat (map delivered ops)) w"
    using hls_run_inv [OF assms(1,2)] assms(3) by simp_all
  have cfg: "ps_output (hw_sink w) = out" "ps_configured (hw_sink w) = dur"
    using hls_new_start(2,3) [OF assms(1)] assms(3) by simp_all
  from assms(5,6) obtain e w1 w2 where e: "hls_end_time w = Inr e"
    and w1: "w1 = deliver during (call FinishWriting (end_calls e w))" and err: "check_error w1 = Inr ()"
    and w2: "finish_playlist t ren w1 = (w2, Inr ())" and w': "w' = w2\<lparr>vw_finished := True\<rparr>"
    by (auto simp: hls_finish_def Let_def split: sum.splits prod.splits)
  have trunc: "video_writer.truncate w2 = video_writer.truncate (call FinishWriting (end_calls e w))"
    by (metis deliver_track finish_playlist_vw fst_conv w1 w2)
  then have calls: "vw_calls w' = vw_calls w @ end_list w e @ [FinishWriting]"
    by (simp add: w' video_writer.truncate_def call_def end_calls_shape)
  from e obtain l where l: "vw_last w = Some l" and e': "end_after l (vw_frame_duration w) = Inr e"
    by (auto simp: hls_end_time_def)
  with inv have ne: "frame_times (vw_calls w) \<noteq> []" and last: "last (frame_times (vw_calls w)) = l"
    by (auto simp: track_inv_def last_frame_def)
  have lt: "f < e" if "f \<in> set (frame_times (vw_calls w))" for f
    using sorted_last_max [OF track_order(1) [OF inv] that] end_after_gt [OF e'] last by simp
  have files1: "files_inv (concat (map delivered ops) @ during) w1"
    unfolding w1 by (rule deliver_keeps) (simp add: files call_fields)
  have cfg1: "ps_output (hw_sink w1) = out" "ps_configured (hw_sink w1) = dur"
    using cfg by (simp_all add: w1 call_fields)
  have none: "ps_error (hw_sink w1) = None" using err by (auto simp: check_error_def split: option.splits)
  have files2: "files_inv (concat (map delivered ops) @ during) w2"
    using finish_playlist_keeps [OF files1, of t ren] w2 by simp
  let ?s = "(hw_sink w1)\<lparr>ps_finished := True\<rparr>"
  obtain d2 where s2: "hw_sink w2 = ?s" "hw_disk w2 = d2"
    and wp: "write_playlist t ren ?s (hw_disk w1) = (d2, Inr ())"
    using w2 none by (auto simp: finish_playlist_def Let_def split: prod.splits)
  have len: "length (ps_durations ?s) = length gs"
    using files1 none by (simp add: sink_inv_def current_ok_def assms(4))
  have segs: "segments_ok (concat (map delivered ops) @ during) ?s d2"
    using files2 s2 by (simp add: sink_inv_def)
  have ds: "ps_durations ?s = map (\<lambda>g. unwrap_or (report_duration (sg_report g)) dur) gs"
    using segments_ok_durations [OF segs, of "length (ps_durations ?s)"] len
    by (simp add: assms(4) segment_duration_cfg [abs_def] cfg1)
  have "dk_files d2 (list_path out) = Some (playlist dur (ps_durations ?s) True)"
    using playlist_phase(4) [OF wp refl] assms(7) w' s2 by (simp add: cfg1)
  with ds segs len s2 w' calls lt ne show ?thesis
    by (auto simp: segments_ok_def cfg1 assms(4) end_list_def intro!: exI [of _ e])
qed

text \<open>
  C16: a finished HLS recording is complete. When \<open>finish\<close> succeeds on a writer that has delivered its
  initialization segment, the playlist on disk is the VOD playlist of every media segment delivered
  since the writer was made, every one of them is on disk as delivered, and the session was ended
  after the last accepted frame.
\<close>
theorem hls_finish_complete:
  assumes "hls_new su out r x y fps dur audio d = (d', Inr w0)" "dk_files d (list_path out) = None"
    and "w = fold hls_run ops w0" "gs = media (concat (map delivered ops) @ during)"
    and "\<not> vw_finished w" "hls_finish reply during t ren w = (w', Inr u)" "ps_initialized (hw_sink w')"
  shows "dk_files (hw_disk w') (list_path out)
      = Some (playlist dur (map (\<lambda>g. unwrap_or (report_duration (sg_report g)) dur) gs) True) \<and>
    (\<forall>i < length gs. dk_files (hw_disk w') (seg_path out i) = Some (sg_data (gs ! i))) \<and>
    vw_finished w' \<and> frame_times (vw_calls w) \<noteq> [] \<and>
    (\<exists>e. EndSession e \<in> set (vw_calls w') \<and> (\<forall>f \<in> set (frame_times (vw_calls w)). f < e))"
  by (rule finished_recording [OF assms])

subsection \<open>Reading a playlist back\<close>

fun split_lines :: "string \<Rightarrow> string \<Rightarrow> string list" where
  "split_lines acc [] = (if acc = [] then [] else [rev acc])"
| "split_lines acc (c # cs) = (if c = CHR 0x0A then rev acc # split_lines [] cs else split_lines (c # acc) cs)"

definition read_micros :: "string \<Rightarrow> nat" where
  "read_micros s = read_nat (filter (\<lambda>c. c \<noteq> CHR ''.'' \<and> c \<noteq> CHR '','') s)"

fun read_entries :: "string list \<Rightarrow> (nat \<times> string) list" where
  "read_entries (a # b # ls) =
     (if starts_with a ''#EXTINF:'' then (read_micros (drop 8 a), b) # read_entries ls
      else read_entries (b # ls))"
| "read_entries _ = []"

lemma split_line: "CHR 0x0A \<notin> set l \<Longrightarrow> split_lines acc (l @ CHR 0x0A # rest) = (rev acc @ l) # split_lines [] rest"
  by (induction l arbitrary: acc) auto

lemma split_concat_lines:
  "(\<And>l. l \<in> set ls \<Longrightarrow> CHR 0x0A \<notin> set l) \<Longrightarrow> split_lines [] (concat (map line ls)) = ls"
  by (induction ls) (simp_all add: line_def split_line)

lemma digits_plain:
  assumes "all_digits s"
  shows "CHR 0x0A \<notin> set s" "CHR ''.'' \<notin> set s" "CHR '','' \<notin> set s"
  using assms by (auto simp: all_digits_def list_all_iff)

lemma filter_plain: "all_digits s \<Longrightarrow> filter (\<lambda>c. c \<noteq> CHR ''.'' \<and> c \<noteq> CHR '','') s = s"
  using digits_plain [of s] by (auto intro!: filter_True)

lemma read_nat_append: "read_nat (s @ t) = read_nat s * 10 ^ length t + read_nat t"
  by (induction t rule: rev_induct) (simp_all add: read_nat_snoc append_assoc [symmetric] read_nat_def [of "[]"] algebra_simps del: append_assoc)

lemma pad_6_length: "m < 1000000 \<Longrightarrow> length (pad_zero 6 (show_nat m)) = 6"
  using show_nat_length [of m 6] by (simp add: pad_zero_length)

lemma read_show_micros: "read_micros (show_micros m @ '','') = m"
  by (simp add: read_micros_def show_micros_def filter_plain read_nat_append pad_6_length)

lemma show_micros_plain: "CHR 0x0A \<notin> set (show_micros m)"
  using digits_plain(1) [OF show_nat_digits] digits_plain(1) [OF pad_zero_digits] by (simp add: show_micros_def)

lemma segment_name_plain: "CHR 0x0A \<notin> set (segment_name i)"
  using digits_plain(1) [OF pad_zero_digits] by (simp add: segment_name_def)

lemma playlist_lines_plain:
  assumes "l \<in> set (playlist_lines c ds fin)"
  shows "CHR 0x0A \<notin> set l"
  using assms show_micros_plain segment_name_plain digits_plain(1) [OF show_nat_digits]
  by (auto simp: playlist_lines_def entry_lines_def initialization_name_def split: if_splits)

lemma read_entry_lines:
  "read_entries (concat (map entry_lines es) @ (if fin then [x] else [])) =
     map (\<lambda>e. (rounded_micros (snd e), segment_name (fst e))) es"
proof (induction es)
  case Nil
  show ?case by simp
next
  case (Cons e es)
  then show ?case using read_show_micros [of "rounded_micros (snd e)"] by (simp add: entry_lines_def)
qed

lemma end_marker:
  "''#EXT-X-ENDLIST'' \<in> set (playlist_lines c ds fin) \<longleftrightarrow> fin"
  by (auto simp: playlist_lines_def entry_lines_def segment_name_def)

lemma read_entries_skip: "\<not> starts_with a ''#EXTINF:'' \<Longrightarrow> read_entries (a # ls) = read_entries ls"
  by (cases ls) simp_all

lemma read_playlist_entries:
  "read_entries (playlist_lines c ds fin) =
     map (\<lambda>e. (rounded_micros (snd e), segment_name (fst e))) (enumerate 0 ds)"
  unfolding read_entry_lines [of "enumerate 0 ds" fin "''#EXT-X-ENDLIST''", symmetric]
  by (simp add: playlist_lines_def read_entries_skip del: read_entries.simps)

lemma maximum_duration_ge: "d \<in> insert c (set ds) \<Longrightarrow> d \<le> maximum_duration c ds"
  by (auto simp: maximum_duration_def le_max_iff_disj)

lemma maximum_duration_in: "maximum_duration c ds \<in> insert c (set ds)"
  using Max_in [of "set ds"] by (auto simp: maximum_duration_def max_def)

lemma ceil_div_ge:
  assumes "0 < b"
  shows "(m :: nat) \<le> (m div b + (if m mod b \<noteq> 0 then 1 else 0)) * b"
proof (cases "m mod b = 0")
  case True
  then show ?thesis using div_mult_mod_eq [of m b] by simp
next
  case False
  have "m = m div b * b + m mod b" by simp
  also have "\<dots> \<le> m div b * b + b" using mod_less_divisor [OF assms, of m] by (intro add_left_mono) simp
  finally show ?thesis using False by (simp add: algebra_simps)
qed

lemma target_duration_ge:
  assumes "\<And>d. d \<in> insert c (set ds) \<Longrightarrow> d \<le> u64_max * 1000000000" "d \<in> insert c (set ds)"
  shows "d \<le> target_duration c ds * 1000000000"
proof -
  let ?m = "maximum_duration c ds"
  have m: "?m \<le> u64_max * 1000000000" using assms(1) maximum_duration_in by blast
  have "?m div 1000000000 + (if ?m mod 1000000000 \<noteq> 0 then 1 else 0) \<le> u64_max"
    using m div_mult_mod_eq [of ?m 1000000000] unfolding u64_max_def by (split if_split) linarith
  then have "target_duration c ds = ?m div 1000000000 + (if ?m mod 1000000000 \<noteq> 0 then 1 else 0)"
    by (simp add: target_duration_def Let_def saturating_add_exact)
  moreover have "?m \<le> (?m div 1000000000 + (if ?m mod 1000000000 \<noteq> 0 then 1 else 0)) * 1000000000"
    by (rule ceil_div_ge) simp
  ultimately have "?m \<le> target_duration c ds * 1000000000" by simp
  with maximum_duration_ge [OF assms(2)] show ?thesis by linarith
qed

text \<open>
  The playlist is a well-formed description of the segments. Its lines read back as the segments'
  durations, rounded to the microsecond, with their file names in order; it has the end marker
  exactly when the recording is finished; and its target duration, at least a second, is no shorter
  than any segment's duration or the configured one, whenever these are seconds a \<open>u64\<close> can hold.
\<close>
theorem playlist_roundtrip:
  assumes "\<forall>d \<in> insert c (set ds). d \<le> u64_max * 1000000000"
  shows "let ls = split_lines [] (playlist c ds fin); target = max (target_duration c ds) 1
    in read_entries ls = map (\<lambda>i. (rounded_micros (ds ! i), segment_name i)) [0..<length ds] \<and>
       (''#EXT-X-ENDLIST'' \<in> set ls \<longleftrightarrow> fin) \<and>
       ''#EXT-X-TARGETDURATION:'' @ show_nat target \<in> set ls \<and>
       (\<forall>d \<in> insert c (set ds). d \<le> target * 1000000000)"
proof -
  have ls: "split_lines [] (playlist c ds fin) = playlist_lines c ds fin"
    unfolding playlist_def by (rule split_concat_lines) (rule playlist_lines_plain)
  have "read_entries (playlist_lines c ds fin) = map (\<lambda>i. (rounded_micros (ds ! i), segment_name i)) [0..<length ds]"
    unfolding read_playlist_entries by (rule nth_equalityI) (simp_all add: nth_enumerate_eq)
  moreover have "d \<le> max (target_duration c ds) 1 * 1000000000" if "d \<in> insert c (set ds)" for d
    using target_duration_ge [OF _ that] assms by (metis max.cobounded1 mult_le_mono1 order_trans)
  ultimately show ?thesis
    using end_marker [of c ds fin] by (simp add: Let_def ls) (simp add: playlist_lines_def)
qed

theorem playlist_roundtrip_witness:
  "let ls = split_lines [] (playlist 2000000000 [2001000000, 1999999500] True)
   in read_entries ls = [(2001000, ''segment00000.m4s''), (2000000, ''segment00001.m4s'')] \<and>
      ''#EXT-X-ENDLIST'' \<in> set ls \<and> ''#EXT-X-TARGETDURATION:3'' \<in> set ls"
proof -
  have m: "rounded_micros 2001000000 = 2001000" "rounded_micros 1999999500 = 2000000"
    by (simp_all add: rounded_micros_def as_secs_f64_def round_half_even_def)
  have s: "show_nat 0 = ''0''" "show_nat (Suc 0) = ''1''" "show_nat 3 = ''3''"
    by code_simp+
  have n: "segment_name 0 = ''segment00000.m4s''" "segment_name (Suc 0) = ''segment00001.m4s''"
    by (simp_all add: segment_name_def pad_zero_def s numeral_eq_Suc)
  have t: "target_duration 2000000000 [2001000000, 1999999500] = 3"
    by (simp add: target_duration_def maximum_duration_def saturating_add_def u64_max_def)
  show ?thesis
    using playlist_roundtrip [of 2000000000 "[2001000000, 1999999500]" True]
    by (simp add: Let_def m n s t u64_max_def)
qed

definition ready_hls :: "(nat, nat) hls_writer" where
  "ready_hls = \<lparr>vw_audio_input = False, vw_frame_duration = 33333333, vw_start = None, vw_last = None,
     vw_started = False, vw_finished = False,
     vw_calls = [SegmentInterval 2000000, InitialSegmentStart 0,
         AddVideoInput [(''AVVideoCodecKey'', Text ''AVVideoCodecTypeH264''),
           (''AVVideoWidthKey'', Number 640), (''AVVideoHeightKey'', Number 480)], StartWriting],
     hw_sink = new_sink ''hls'' 2000000000, hw_disk = \<lparr>dk_dirs = {''hls''}, dk_files = (\<lambda>_. None)\<rparr>,
     hw_reported = []\<rparr>"

lemma ready_hls_new:
  "hls_new ready_setup ''hls'' None 640 480 30 2000000000 False no_files
     = (\<lparr>dk_dirs = {''hls''}, dk_files = (\<lambda>_. None)\<rparr>, Inr ready_hls)"
  by (simp add: hls_new_def frame_duration_of_def checked_div_def nanos_per_sec_def fs_create_dir_def
      no_files_def hls_setup_def guard_err_def ready_setup_def require_def options_file_type_def
      video_settings_def nested_def add_audio_input_def ready_hls_def micros_i64_def checked_signed_def
      in_signed_def as_micros_def)

lemma no_files_list: "dk_files no_files p = None"
  by (simp add: no_files_def)

definition init_segment :: segment where
  "init_segment = \<lparr>sg_type = Initialization, sg_report = None, sg_data = ''ftyp'', sg_write = Written,
     sg_tmp = Written, sg_rename = None\<rparr>"

definition media_segment :: "string \<Rightarrow> write_reply \<Rightarrow> segment" where
  "media_segment data reply = \<lparr>sg_type = Separable, sg_report = None, sg_data = data, sg_write = reply,
     sg_tmp = Written, sg_rename = None\<rparr>"

text \<open>The second media segment fails half-way.\<close>

definition failing_run :: "(nat, nat) hls_op list" where
  "failing_run = [HlsAppend 1 5000000 taken [init_segment], HlsAppend 2 5000000 taken [media_segment ''moof1'' Written],
     HlsDeliver (media_segment ''moof2'' (Write_failed ''disk full'' (Some ''mo'')))]"

definition good_run :: "(nat, nat) hls_op list" where
  "good_run = [HlsAppend 1 5000000 taken [init_segment], HlsAppend 2 5000000 taken [media_segment ''moof1'' Written]]"

lemmas hls_eval = hls_append_def hls_put_frame_def after_sample_def check_error_def writer_eval ready_hls_def
  new_sink_def deliver_def did_output_segment_def write_segment_def write_asset_def asset_name_def asset_written_def
  fs_write_def fs_rename_def write_playlist_def init_segment_def media_segment_def paths_simps

lemma failing_run_playlist:
  "dk_files (hw_disk (fold hls_run failing_run ready_hls)) (list_path ''hls'') = Some (playlist 2000000000 [2000000000] False)"
  "hw_reported (fold hls_run failing_run ready_hls) = [init_path ''hls'', seg_path ''hls'' 0]"
  by (simp_all add: failing_run_def hls_eval)

theorem hls_directory_consistent_witness:
  "\<exists>k fin. playlist 2000000000 [2000000000] False =
      playlist 2000000000 (map (\<lambda>g. 2000000000) (take k [(), ()])) fin \<and>
    dk_files (hw_disk (fold hls_run failing_run ready_hls)) (init_path ''hls'') \<noteq> None \<and> 0 < k"
  using hls_directory_consistent [OF ready_hls_new no_files_list refl refl failing_run_playlist(1)]
  unfolding failing_run_playlist(2)
  by (auto simp: failing_run_def media_def init_segment_def media_segment_def take_Cons split: nat.splits)

theorem hls_track_in_order_witness:
  "frame_times (vw_calls (fold hls_run good_run ready_hls)) = [0, 1] \<and>
   sorted_wrt (<) (frame_times (vw_calls (fold hls_run good_run ready_hls)))"
proof -
  have "frame_times (vw_calls (fold hls_run good_run ready_hls)) = [0, 1]"
    by (simp add: good_run_def hls_eval)
  with hls_track_in_order [OF ready_hls_new no_files_list, of good_run] show ?thesis by (simp add: Let_def)
qed

lemma good_run_finish:
  "\<exists>w'. hls_finish finished_ok [media_segment ''moof2'' Written] Written None (fold hls_run good_run ready_hls) = (w', Inr ())
     \<and> ps_initialized (hw_sink w')" "\<not> vw_finished (fold hls_run good_run ready_hls)"
  by (simp_all add: good_run_def hls_finish_def hls_end_time_def end_after_def finish_result_def finished_ok_def
      finish_playlist_def end_calls_def hls_eval)

theorem hls_finish_complete_witness:
  "\<exists>w' :: (nat, nat) hls_writer. dk_files (hw_disk w') (list_path ''hls'')
      = Some (playlist 2000000000 [2000000000, 2000000000] True) \<and>
    dk_files (hw_disk w') (seg_path ''hls'' 1) = Some ''moof2''"
proof -
  obtain w' where w': "hls_finish finished_ok [media_segment ''moof2'' Written] Written None
      (fold hls_run good_run ready_hls) = (w', Inr ())" "ps_initialized (hw_sink w')"
    using good_run_finish(1) by blast
  from hls_finish_complete [OF ready_hls_new no_files_list refl refl good_run_finish(2) w'] show ?thesis
    by (intro exI [of _ w']) (simp add: good_run_def media_def init_segment_def media_segment_def)
qed

end
