(* ===== verification/Profiles.thy ===== *)
theory Profiles
  imports Asset_Writers
begin

section \<open>Recording profiles (apps/blip-capture/src/profiles.rs)\<close>

text \<open>
  The destinations a recording can have: validation, the settings file with its defaults, and the
  import of a server from a \<open>blip-capture://\<close> link. URLs are parsed, printed and joined by the
  \<open>url\<close> crate and the settings are JSON: both are parameters (\<open>url_lib\<close>, \<open>settings_codec\<close>). The
  clock, \<open>HOME\<close> and the temporary directory are arguments.
\<close>

datatype recording_format = FormatMp4 | FormatHls | FormatBundle

fun format_label :: "recording_format \<Rightarrow> string" where
  "format_label FormatMp4 = ''MP4''"
| "format_label FormatHls = ''HLS''"
| "format_label FormatBundle = ''Blip Bundle''"

datatype recording_target = Local string | Remote string

datatype completion_action = Reveal | CopyToClipboard | NoAction

record recording_profile =
  rp_id :: string
  rp_name :: string
  rp_target :: recording_target
  rp_format :: recording_format
  rp_action :: completion_action

subsection \<open>URLs and text\<close>

record url =
  url_scheme :: string
  url_host :: "string option"
  url_path :: string
  url_fragment :: "string option"
  url_query :: "(string \<times> string) list"

record url_lib =
  ul_parse :: "string \<Rightarrow> url option"
  ul_show :: "url \<Rightarrow> string"
  ul_set_fragment :: "string option \<Rightarrow> url \<Rightarrow> url"
  ul_set_path :: "string \<Rightarrow> url \<Rightarrow> url"
  ul_join :: "url \<Rightarrow> string \<Rightarrow> url option"

definition is_space :: "char \<Rightarrow> bool" where
  "is_space c = (let n = of_char c :: nat in (9 \<le> n \<and> n \<le> 13) \<or> n = 32)"

definition trim :: "string \<Rightarrow> string" where
  "trim s = rev (dropWhile is_space (rev (dropWhile is_space s)))"

definition split_server_url :: "url_lib \<Rightarrow> string \<Rightarrow> string \<times> string" where
  "split_server_url lib v =
     (case ul_parse lib (trim v) of
        None \<Rightarrow> (trim v, [])
      | Some u \<Rightarrow> (ul_show lib (ul_set_fragment lib None u), unwrap_or (url_fragment u) []))"

definition join_server_url :: "url_lib \<Rightarrow> string \<Rightarrow> string \<Rightarrow> string" where
  "join_server_url lib server token =
     (case ul_parse lib (trim server) of
        None \<Rightarrow> trim server @ ''#'' @ trim token
      | Some u \<Rightarrow> ul_show lib (ul_set_fragment lib (Some (trim token)) u))"

text \<open>HTTPS, or plain HTTP to this machine.\<close>

definition secure :: "url \<Rightarrow> bool" where
  "secure u = (url_scheme u = ''https'' \<or> (url_scheme u = ''http'' \<and> url_host u = Some ''localhost''))"

subsection \<open>A profile\<close>

definition new_profile_id :: "nat option \<Rightarrow> string" where
  "new_profile_id now = ''profile-'' @ show_nat (unwrap_or now 0)"

definition local_profile :: "string \<Rightarrow> string \<Rightarrow> string \<Rightarrow> completion_action \<Rightarrow> recording_profile" where
  "local_profile ident name folder action =
     \<lparr>rp_id = ident, rp_name = name, rp_target = Local folder, rp_format = FormatMp4, rp_action = action\<rparr>"

definition new_local :: "nat option \<Rightarrow> string \<Rightarrow> recording_profile" where
  "new_local now folder = local_profile (new_profile_id now) ''New profile'' folder Reveal"

definition new_remote :: "nat option \<Rightarrow> string \<Rightarrow> string \<Rightarrow> recording_profile" where
  "new_remote now name server =
     \<lparr>rp_id = new_profile_id now, rp_name = name, rp_target = Remote server, rp_format = FormatMp4,
      rp_action = NoAction\<rparr>"

definition duplicate :: "nat option \<Rightarrow> recording_profile \<Rightarrow> recording_profile" where
  "duplicate now p = p\<lparr>rp_id := new_profile_id now, rp_name := rp_name p @ '' copy''\<rparr>"

definition validate :: "url_lib \<Rightarrow> recording_profile \<Rightarrow> string + unit" where
  "validate lib p =
     (if trim (rp_name p) = [] then Inl ''Profile name cannot be empty''
      else case rp_target p of
        Local folder \<Rightarrow>
          if rp_format p = FormatHls then Inl ''Local recordings must use MP4 or Blip Bundle''
          else if folder = [] then Inl ''Choose a local recording folder''
          else Inr ()
      | Remote server \<Rightarrow>
          if rp_format p = FormatBundle then Inl ''Blip server recordings must use HLS or MP4''
          else (case ul_parse lib (trim server) of
                  None \<Rightarrow> Inl ''Enter a valid Blip server URL''
                | Some u \<Rightarrow>
                    if \<not> secure u then Inl ''The Blip server URL must use HTTPS''
                    else if url_fragment u = None \<or> url_fragment u = Some []
                    then Inl ''The Blip server URL must include its access token''
                    else Inr ()))"

subsection \<open>The settings\<close>

record recording_profiles =
  ps_profiles :: "recording_profile list"
  ps_selected :: string

record settings_codec =
  sc_encode :: "recording_profiles \<Rightarrow> string + string"
  sc_decode :: "string \<Rightarrow> recording_profiles option"

definition home_dir :: "string option \<Rightarrow> string" where
  "home_dir home = unwrap_or home ''.''"

definition settings_folder :: "string option \<Rightarrow> string" where
  "settings_folder home = join (home_dir home) ''Library/Application Support/Blip Capture''"

definition settings_path :: "string option \<Rightarrow> string" where
  "settings_path home = join (settings_folder home) ''recording-profiles.json''"

definition default_profiles :: "string option \<Rightarrow> string \<Rightarrow> recording_profiles" where
  "default_profiles home temp =
     \<lparr>ps_profiles =
        [local_profile ''desktop'' ''Desktop'' (join (home_dir home) ''Desktop'') Reveal,
         local_profile ''documents'' ''Documents'' (join (home_dir home) ''Documents'') Reveal,
         local_profile ''downloads'' ''Downloads'' (join (home_dir home) ''Downloads'') Reveal,
         local_profile ''clipboard'' ''Clipboard'' (join temp ''blip-capture'') CopyToClipboard],
      ps_selected = ''desktop''\<rparr>"

text \<open>\<open>readable\<close> says whether the operating system lets the file be read as text.\<close>

definition load_profiles ::
    "settings_codec \<Rightarrow> string option \<Rightarrow> string \<Rightarrow> bool \<Rightarrow> disk \<Rightarrow> recording_profiles" where
  "load_profiles codec home temp readable d =
     (case (if readable then dk_files d (settings_path home) else None) of
        None \<Rightarrow> default_profiles home temp
      | Some contents \<Rightarrow>
          (case sc_decode codec contents of
             None \<Rightarrow> default_profiles home temp
           | Some s \<Rightarrow>
               (case ps_profiles s of
                  [] \<Rightarrow> default_profiles home temp
                | first # _ \<Rightarrow>
                    if list_ex (\<lambda>p. rp_id p = ps_selected s) (ps_profiles s) then s
                    else s\<lparr>ps_selected := rp_id first\<rparr>)))"

definition save_profiles ::
    "settings_codec \<Rightarrow> string option \<Rightarrow> string option \<Rightarrow> write_reply \<Rightarrow> recording_profiles \<Rightarrow> disk \<Rightarrow>
     disk \<times> (string + unit)" where
  "save_profiles codec home dir_reply reply s d =
     (case fs_create_dir (settings_folder home) dir_reply d of
        (d1, Inl e) \<Rightarrow> (d1, Inl (''failed to create settings folder: '' @ e))
      | (d1, Inr u) \<Rightarrow>
          (case sc_encode codec s of
             Inl e \<Rightarrow> (d1, Inl (''failed to encode recording profiles: '' @ e))
           | Inr contents \<Rightarrow>
               (case fs_write (settings_path home) contents reply d1 of
                  (d2, r) \<Rightarrow> (d2, map_err (\<lambda>e. ''failed to save recording profiles: '' @ e) r))))"

definition selected_index :: "recording_profiles \<Rightarrow> nat" where
  "selected_index s = unwrap_or (position (\<lambda>p. rp_id p = ps_selected s) (ps_profiles s)) 0"

definition selected :: "recording_profiles \<Rightarrow> recording_profile option" where
  "selected s = list_get (ps_profiles s) (selected_index s)"

subsection \<open>Importing a server\<close>

definition same_server :: "url_lib \<Rightarrow> string \<Rightarrow> recording_profile \<Rightarrow> bool" where
  "same_server lib base p =
     (case rp_target p of Remote server \<Rightarrow> fst (split_server_url lib server) = base | Local f \<Rightarrow> False)"

definition imported_server :: "url_lib \<Rightarrow> string \<Rightarrow> string + string" where
  "imported_server lib v =
     (case ul_parse lib v of
        None \<Rightarrow> Inl ''invalid Blip Capture URL''
      | Some u \<Rightarrow>
          if url_scheme u \<noteq> ''blip-capture'' \<or> url_host u \<noteq> Some ''add-profile''
          then Inl ''unsupported Blip Capture URL''
          else ok_or (map_of (url_query u) ''url'') ''Blip Capture URL is missing its server URL'')"

definition select_profile :: "nat \<Rightarrow> recording_profile \<Rightarrow> recording_profiles \<Rightarrow> recording_profiles" where
  "select_profile i p s = s\<lparr>ps_profiles := (ps_profiles s)[i := p], ps_selected := rp_id p\<rparr>"

definition add_server :: "url_lib \<Rightarrow> nat option \<Rightarrow> string \<Rightarrow> recording_profiles \<Rightarrow> recording_profiles \<times> (string + unit)" where
  "add_server lib now server s =
     (case ul_parse lib server of
        None \<Rightarrow> (s, Inl ''invalid Blip server URL'')
      | Some u \<Rightarrow>
          (let p = new_remote now (unwrap_or (url_host u) ''Blip server'') server
           in case validate lib p of
                Inl e \<Rightarrow> (s, Inl e)
              | Inr v \<Rightarrow> (s\<lparr>ps_selected := rp_id p, ps_profiles := ps_profiles s @ [p]\<rparr>, Inr ())))"

definition import_url :: "url_lib \<Rightarrow> nat option \<Rightarrow> string \<Rightarrow> recording_profiles \<Rightarrow> recording_profiles \<times> (string + unit)" where
  "import_url lib now v s =
     (case imported_server lib v of
        Inl e \<Rightarrow> (s, Inl e)
      | Inr server \<Rightarrow>
          (case position (same_server lib (fst (split_server_url lib server))) (ps_profiles s) of
             Some i \<Rightarrow> (select_profile i ((ps_profiles s ! i)\<lparr>rp_target := Remote server\<rparr>) s, Inr ())
           | None \<Rightarrow> add_server lib now server s))"

subsection \<open>What importing does\<close>

lemma position_distinct:
  assumes "distinct (map f xs)" "i < length xs" "f (xs ! i) = y"
  shows "position (\<lambda>x. f x = y) xs = Some i"
proof -
  have "f (xs ! j) \<noteq> y" if "j < i" for j
    using assms that nth_eq_iff_index_eq [of "map f xs" j i] by auto
  with assms show ?thesis by (simp add: position_Some_iff)
qed

lemma selected_at:
  assumes "distinct (map rp_id (ps_profiles s))" "i < length (ps_profiles s)" "rp_id (ps_profiles s ! i) = ps_selected s"
  shows "selected s = Some (ps_profiles s ! i)"
  using position_distinct [OF assms] assms(2) by (simp add: selected_def selected_index_def list_get_eq)

lemma selected_exists: "ps_profiles s \<noteq> [] \<Longrightarrow> \<exists>p. selected s = Some p \<and> p \<in> set (ps_profiles s)"
proof -
  assume ne: "ps_profiles s \<noteq> []"
  have "selected_index s < length (ps_profiles s)"
  proof (cases "position (\<lambda>p. rp_id p = ps_selected s) (ps_profiles s)")
    case None
    with ne show ?thesis by (simp add: selected_index_def)
  next
    case (Some i)
    then have "i < length (ps_profiles s)" by (simp add: position_Some_iff)
    with Some show ?thesis by (simp add: selected_index_def)
  qed
  then show ?thesis by (auto simp: selected_def list_get_eq)
qed

lemma map_update_same: "i < length xs \<Longrightarrow> f x = f (xs ! i) \<Longrightarrow> map f (xs[i := x]) = map f xs"
  by (simp add: map_update list_update_same_conv)

lemma select_profile_selected:
  assumes "distinct (map rp_id (ps_profiles s))" "i < length (ps_profiles s)" "rp_id p = rp_id (ps_profiles s ! i)"
  shows "selected (select_profile i p s) = Some p" "distinct (map rp_id (ps_profiles (select_profile i p s)))"
proof -
  have ids: "map rp_id ((ps_profiles s)[i := p]) = map rp_id (ps_profiles s)"
    using map_update_same [OF assms(2,3)] .
  then show d: "distinct (map rp_id (ps_profiles (select_profile i p s)))"
    using assms(1) by (simp add: select_profile_def)
  from selected_at [OF d, of i] assms(2) show "selected (select_profile i p s) = Some p"
    by (simp add: select_profile_def)
qed

lemma add_server_selected:
  assumes "distinct (map rp_id (ps_profiles s))" "new_profile_id now \<notin> set (map rp_id (ps_profiles s))"
    and "add_server lib now server s = (s', Inr u)"
  shows "\<exists>p. ps_profiles s' = ps_profiles s @ [p] \<and> validate lib p = Inr () \<and> rp_target p = Remote server
    \<and> selected s' = Some p \<and> distinct (map rp_id (ps_profiles s'))"
proof -
  from assms(3) obtain name where p: "validate lib (new_remote now name server) = Inr ()"
    and s': "s' = s\<lparr>ps_selected := new_profile_id now, ps_profiles := ps_profiles s @ [new_remote now name server]\<rparr>"
    by (auto simp: add_server_def Let_def new_remote_def split: option.splits sum.splits)
  have d: "distinct (map rp_id (ps_profiles s'))" using assms(1,2) by (simp add: s' new_remote_def)
  have "selected s' = Some (new_remote now name server)"
    using selected_at [OF d, of "length (ps_profiles s)"] by (simp add: s' new_remote_def nth_append)
  with p d s' show ?thesis by (auto simp: new_remote_def)
qed

text \<open>
  Importing a server from a link. An import that fails changes nothing. One that succeeds selects
  a profile whose target is the server the link names: the first profile of that server, given the
  new address and otherwise unchanged, or, when there is none, a new profile that passed validation,
  added at the end. No two profiles come to share an identifier, when the clock gives a fresh one.
\<close>
theorem import_url_correct:
  assumes "distinct (map rp_id (ps_profiles s))" "new_profile_id now \<notin> set (map rp_id (ps_profiles s))"
    and "import_url lib now v s = (s', r)"
  shows "case r of
      Inl e \<Rightarrow> s' = s
    | Inr u \<Rightarrow> \<exists>server p. imported_server lib v = Inr server \<and> selected s' = Some p \<and>
        rp_target p = Remote server \<and> distinct (map rp_id (ps_profiles s')) \<and>
        (case position (same_server lib (fst (split_server_url lib server))) (ps_profiles s) of
           Some i \<Rightarrow> p = (ps_profiles s ! i)\<lparr>rp_target := Remote server\<rparr> \<and> ps_profiles s' = (ps_profiles s)[i := p]
         | None \<Rightarrow> ps_profiles s' = ps_profiles s @ [p] \<and> validate lib p = Inr ())"
proof (cases "imported_server lib v")
  case (Inl e)
  with assms(3) show ?thesis by (auto simp: import_url_def)
next
  case (Inr server)
  show ?thesis
  proof (cases "position (same_server lib (fst (split_server_url lib server))) (ps_profiles s)")
    case (Some i)
    then have i: "i < length (ps_profiles s)" by (simp add: position_Some_iff)
    let ?p = "(ps_profiles s ! i)\<lparr>rp_target := Remote server\<rparr>"
    have "s' = select_profile i ?p s" "r = Inr ()" using assms(3) Inr Some by (auto simp: import_url_def)
    moreover have "selected (select_profile i ?p s) = Some ?p"
      "distinct (map rp_id (ps_profiles (select_profile i ?p s)))"
      by (rule select_profile_selected [OF assms(1) i]; simp)+
    ultimately show ?thesis using Inr Some by (simp add: select_profile_def)
  next
    case None
    with assms(3) Inr have add: "add_server lib now server s = (s', r)" by (simp add: import_url_def)
    show ?thesis
    proof (cases r)
      case (Inl e)
      with add show ?thesis by (auto simp: add_server_def Let_def split: option.splits sum.splits)
    next
      case r: (Inr u)
      from add r have "add_server lib now server s = (s', Inr ())" by simp
      from add_server_selected [OF assms(1,2) this] obtain p
        where "ps_profiles s' = ps_profiles s @ [p]" "validate lib p = Inr ()" "rp_target p = Remote server"
          "selected s' = Some p" "distinct (map rp_id (ps_profiles s'))" by blast
      with r Inr None show ?thesis by (auto intro!: exI [of _ p])
    qed
  qed
qed

text \<open>
  Loading always leaves a profile to record with: the settings that are used have profiles and a
  selected one, whatever is in the file.
\<close>

lemma default_profiles_selected:
  "ps_profiles (default_profiles home temp) \<noteq> []"
  "list_ex (\<lambda>p. rp_id p = ps_selected (default_profiles home temp)) (ps_profiles (default_profiles home temp))"
  by (simp_all add: default_profiles_def local_profile_def)

lemma load_profiles_selected:
  "\<exists>p. selected (load_profiles codec home temp readable d) = Some p \<and>
     p \<in> set (ps_profiles (load_profiles codec home temp readable d)) \<and>
     rp_id p = ps_selected (load_profiles codec home temp readable d)"
proof -
  let ?s = "load_profiles codec home temp readable d"
  have ex: "list_ex (\<lambda>p. rp_id p = ps_selected ?s) (ps_profiles ?s)"
    using default_profiles_selected [of home temp]
    by (auto simp: load_profiles_def split: option.splits list.splits)
  then obtain i where i: "position (\<lambda>p. rp_id p = ps_selected ?s) (ps_profiles ?s) = Some i"
    by (metis list_ex_iff option.exhaust position_None_iff)
  then have "i < length (ps_profiles ?s)" "rp_id (ps_profiles ?s ! i) = ps_selected ?s"
    by (simp_all add: position_Some_iff)
  with i show ?thesis by (simp add: selected_def selected_index_def list_get_eq)
qed

definition sample_urls :: url_lib where
  "sample_urls = \<lparr>ul_parse = (\<lambda>s. if s = ''link'' then Some \<lparr>url_scheme = ''blip-capture'', url_host = Some ''add-profile'',
        url_path = [], url_fragment = None, url_query = [(''url'', ''https://b#t'')]\<rparr>
      else if s = ''bare'' then Some \<lparr>url_scheme = ''blip-capture'', url_host = Some ''add-profile'',
        url_path = [], url_fragment = None, url_query = [(''url'', ''https://b'')]\<rparr>
      else if s = ''https://b#t'' then Some \<lparr>url_scheme = ''https'', url_host = Some ''b'', url_path = ''/'',
        url_fragment = Some ''t'', url_query = []\<rparr>
      else if s = ''https://b'' then Some \<lparr>url_scheme = ''https'', url_host = Some ''b'', url_path = ''/'',
        url_fragment = None, url_query = []\<rparr>
      else None),
     ul_show = (\<lambda>u. url_scheme u @ ''://'' @ unwrap_or (url_host u) []),
     ul_set_fragment = (\<lambda>f u. u\<lparr>url_fragment := f\<rparr>),
     ul_set_path = (\<lambda>p u. u\<lparr>url_path := p\<rparr>),
     ul_join = (\<lambda>u p. Some (u\<lparr>url_path := url_path u @ p\<rparr>))\<rparr>"

definition one_profile :: recording_profiles where
  "one_profile = \<lparr>ps_profiles = [local_profile ''desktop'' ''Desktop'' ''/d'' Reveal], ps_selected = ''desktop''\<rparr>"

lemmas profile_eval = sample_urls_def one_profile_def import_url_def imported_server_def same_server_def
  local_profile_def add_server_def new_remote_def validate_def trim_def is_space_def secure_def select_profile_def
  split_server_url_def selected_def selected_index_def new_profile_id_def

theorem import_url_correct_witness:
  "\<exists>s p. import_url sample_urls (Some 7) ''link'' one_profile = (s, Inr ()) \<and> selected s = Some p
     \<and> rp_target p = Remote ''https://b#t'' \<and> length (ps_profiles s) = 2"
proof -
  have fresh: "distinct (map rp_id (ps_profiles one_profile))"
    "new_profile_id (Some 7) \<notin> set (map rp_id (ps_profiles one_profile))"
    by (simp_all add: one_profile_def local_profile_def new_profile_id_def)
  obtain s where s: "import_url sample_urls (Some 7) ''link'' one_profile = (s, Inr ())" "length (ps_profiles s) = 2"
    by (simp add: profile_eval Let_def)
  from import_url_correct [OF fresh s(1)] obtain server p
    where "imported_server sample_urls ''link'' = Inr server" "selected s = Some p" "rp_target p = Remote server" by auto
  with s show ?thesis by (auto simp: imported_server_def sample_urls_def)
qed

text \<open>
  A known server's address is replaced without validation: a link that names it without an access
  token leaves a selected profile that \<open>validate\<close> rejects.
\<close>

lemma import_replaces_unvalidated:
  "\<exists>s1 s2 p e. import_url sample_urls (Some 7) ''link'' one_profile = (s1, Inr ())
     \<and> import_url sample_urls (Some 8) ''bare'' s1 = (s2, Inr ())
     \<and> selected s2 = Some p \<and> validate sample_urls p = Inl e"
  by (simp add: profile_eval Let_def)

end
