(* ===== verification/Upload.thy ===== *)
theory Upload
  imports Profiles "HOL-Library.List_Lexorder" "HOL-Library.Char_ord"
begin

section \<open>Uploading a recording (apps/blip-capture/src/upload.rs)\<close>

text \<open>
  The multipart upload of a finished recording and the session of an incremental HLS upload. A
  server is a function of all the requests it was sent so far, the last of which it answers; an
  operation that talks to it takes the log of requests and returns it extended. HTTP, JSON, URLs
  and the local file system are parameters. The functions with an asynchronous twin in the source
  (\<open>upload_hls_asset\<close>, \<open>upload_parts\<close>, \<open>decode\<close>) have the same text but for \<open>.await\<close>.
\<close>

datatype upload_format = UploadMp4 | UploadHls

record upload_session =
  us_id :: string
  us_upload_id :: string
  us_part_size :: nat

record signed_asset =
  sa_url :: string
  sa_content_type :: string

record uploaded_part =
  up_number :: nat
  up_etag :: string

datatype body =
    CreateUpload string "nat option" upload_format
  | SignPart string nat
  | SignAsset string string
  | CompleteUpload string "uploaded_part list"
  | CancelUpload string
  | Bytes string

datatype address = Api url | Signed string

datatype http_method = Post | Put | Delete

record request =
  rq_method :: http_method
  rq_address :: address
  rq_token :: "string option"
  rq_content_type :: "string option"
  rq_body :: body

datatype reply = TransportError string | Response nat "string option" "string option"

type_synonym server = "request list \<Rightarrow> reply"

type_synonym 'a io = "request list \<Rightarrow> (string + 'a) \<times> request list"

definition io_lift :: "string + 'a \<Rightarrow> 'a io" where
  "io_lift r = (\<lambda>lg. (r, lg))"

definition io_bind :: "'a io \<Rightarrow> ('a \<Rightarrow> 'b io) \<Rightarrow> 'b io" where
  "io_bind m f = (\<lambda>lg. case m lg of (Inl e, l) \<Rightarrow> (Inl e, l) | (Inr x, l) \<Rightarrow> f x l)"

definition send :: "server \<Rightarrow> request \<Rightarrow> reply io" where
  "send srv rq = (\<lambda>lg. (Inr (srv (lg @ [rq])), lg @ [rq]))"

record http_lib =
  hl_urls :: url_lib
  hl_client :: "string + unit"
  hl_status_text :: "nat \<Rightarrow> string"
  hl_status_error :: "nat \<Rightarrow> string"
  hl_session :: "string option \<Rightarrow> string + upload_session"
  hl_signed_part :: "string option \<Rightarrow> string + string"
  hl_signed_asset :: "string option \<Rightarrow> string + signed_asset"
  hl_complete :: "string option \<Rightarrow> string + string"
  hl_utf8 :: "string \<Rightarrow> bool"

datatype read_step = ReadSome nat | ReadError string

record local_files =
  lf_size :: "string \<Rightarrow> string + nat"
  lf_read :: "string \<Rightarrow> string + string"
  lf_open :: "string \<Rightarrow> string + (string \<times> read_step list)"
  lf_dir :: "string \<Rightarrow> string + string list"

subsection \<open>Replies\<close>

definition is_success :: "nat \<Rightarrow> bool" where "is_success status = (200 \<le> status \<and> status < 300)"

definition decode :: "http_lib \<Rightarrow> (string option \<Rightarrow> string + 'a) \<Rightarrow> string \<Rightarrow> reply \<Rightarrow> string + 'a" where
  "decode h dec action r =
     (case r of
        TransportError e \<Rightarrow> Inl (''failed to '' @ action @ '': '' @ e)
      | Response status text etag \<Rightarrow>
          if \<not> is_success status
          then (let shown = take 1000 (unwrap_or text []);
                    detail = (if trim shown = [] then [] else '': '' @ trim shown)
                in Inl (''failed to '' @ action @ '': HTTP status '' @ hl_status_text h status @ detail))
          else map_err (\<lambda>e. ''server returned an invalid response while trying to '' @ action @ '': '' @ e) (dec text))"

text \<open>\<open>Response::error_for_status\<close>.\<close>

definition error_for_status :: "http_lib \<Rightarrow> reply \<Rightarrow> string + string option" where
  "error_for_status h r =
     (case r of
        TransportError e \<Rightarrow> Inl e
      | Response status text etag \<Rightarrow>
          if 400 \<le> status \<and> status < 600 then Inl (hl_status_error h status) else Inr etag)"

subsection \<open>Addresses and names\<close>

definition parse_server_url :: "url_lib \<Rightarrow> string \<Rightarrow> string + (url \<times> string)" where
  "parse_server_url lib v =
     and_then (ok_or (ul_parse lib (trim v)) ''invalid Blip server URL'') (\<lambda>u.
     and_then (case url_fragment u of
                 None \<Rightarrow> Inl ''Blip server URL is missing its access token''
               | Some t \<Rightarrow> if t = [] then Inl ''Blip server URL is missing its access token'' else Inr t) (\<lambda>token.
     let base = ul_set_fragment lib None u
     in if \<not> secure base then Inl ''Blip server URL must use HTTPS'' else Inr (base, token)))"

definition endpoint :: "url_lib \<Rightarrow> url \<Rightarrow> string \<Rightarrow> string + url" where
  "endpoint lib base path =
     (let b = (if url_path base \<noteq> [] \<and> last (url_path base) = CHR ''/'' then base
               else ul_set_path lib (url_path base @ ''/'') base)
      in ok_or (ul_join lib b path) ''invalid Blip server endpoint'')"

definition file_name :: "string \<Rightarrow> string option" where
  "file_name path =
     (let name = rev (takeWhile (\<lambda>c. c \<noteq> CHR ''/'') (dropWhile (\<lambda>c. c = CHR ''/'') (rev path)))
      in if name = [] \<or> name = ''..'' then None else Some name)"

definition utf8_name :: "http_lib \<Rightarrow> string \<Rightarrow> string option" where
  "utf8_name h path =
     (case file_name path of None \<Rightarrow> None | Some n \<Rightarrow> if hl_utf8 h n then Some n else None)"

definition extension :: "string \<Rightarrow> string option" where
  "extension name =
     (if CHR ''.'' \<notin> set name then None
      else let after = rev (takeWhile (\<lambda>c. c \<noteq> CHR ''.'') (rev name))
           in if length name = length after + 1 then None else Some after)"

definition is_media_name :: "string \<Rightarrow> bool" where
  "is_media_name name =
     (starts_with name ''segment'' \<and>
      (case extension name of None \<Rightarrow> False | Some x \<Rightarrow> eq_ignore_ascii_case x ''m4s''))"

definition validate_hls_asset :: "http_lib \<Rightarrow> string \<Rightarrow> string + bool" where
  "validate_hls_asset h path =
     and_then (ok_or (utf8_name h path) ''HLS recording contains an invalid filename'') (\<lambda>name.
     if name = ''init.mp4'' then Inr True
     else if \<not> is_media_name name then Inl (''HLS recording contains an unexpected file: '' @ name)
     else Inr False)"

definition upload_filename :: "http_lib \<Rightarrow> string \<Rightarrow> recording_format \<Rightarrow> string" where
  "upload_filename h path format =
     (case utf8_name h path of
        Some n \<Rightarrow> n
      | None \<Rightarrow> if format = FormatHls then ''recording.hls'' else ''recording.mp4'')"

subsection \<open>Chunks\<close>

text \<open>
  Reading a chunk: \<open>read\<close> may return fewer bytes than asked for, by a schedule that is not the
  code's to choose, and nothing only at the end of the file. The index arithmetic of the source
  stays within the chunk, so its overflow branches cannot be taken.
\<close>

fun read_count :: "nat \<Rightarrow> string \<Rightarrow> read_step list \<Rightarrow> nat" where
  "read_count room data (ReadSome c # _) = min (max c 1) (min room (length data))"
| "read_count room data _ = min room (length data)"

fun read_error :: "read_step list \<Rightarrow> string option" where
  "read_error (ReadError e # _) = Some e"
| "read_error _ = None"

function fill :: "nat \<Rightarrow> string \<Rightarrow> string \<Rightarrow> read_step list \<Rightarrow> string + (string \<times> string \<times> read_step list)" where
  "fill cap acc data sched =
     (if cap \<le> length acc then Inr (acc, data, sched)
      else case read_error sched of
        Some e \<Rightarrow> Inl e
      | None \<Rightarrow>
          let n = read_count (cap - length acc) data sched
          in if n = 0 then Inr (acc, data, tl sched)
             else fill cap (acc @ take n data) (drop n data) (tl sched))"
  by pat_completeness auto

lemma read_count_le: "read_count room data sched \<le> length data"
  by (cases "(room, data, sched)" rule: read_count.cases) auto

termination fill
proof (relation "measure (\<lambda>(cap, acc, data, sched). length data)", goal_cases)
  case (2 cap acc data sched n)
  then show ?case using read_count_le [of "cap - length acc" data sched] by (simp add: diff_less)
qed simp

declare fill.simps [simp del]

lemma read_count_0: "read_error sched = None \<Longrightarrow> 0 < room \<Longrightarrow> read_count room data sched = 0 \<Longrightarrow> data = []"
  by (cases "(room, data, sched)" rule: read_count.cases) (auto simp: min_def split: if_splits)

lemma read_count_room: "read_count room data sched \<le> room"
  by (cases "(room, data, sched)" rule: read_count.cases) auto

lemma fill_splits:
  assumes "fill cap acc data sched = Inr (chunk, rest, sched')" "length acc \<le> cap"
  shows "chunk @ rest = acc @ data \<and> length chunk \<le> cap \<and> (rest \<noteq> [] \<longrightarrow> length chunk = cap)"
  using assms
proof (induction cap acc data sched rule: fill.induct)
  case (1 cap acc data sched)
  show ?case
  proof (cases "cap \<le> length acc")
    case True
    with 1(2,3) show ?thesis by (auto simp: fill.simps [of cap acc])
  next
    case False
    then have none: "read_error sched = None"
      using 1(2) by (auto simp: fill.simps [of cap acc] split: option.splits)
    let ?n = "read_count (cap - length acc) data sched"
    show ?thesis
    proof (cases "?n = 0")
      case True
      with False none read_count_0 [OF none _ True] 1(2) show ?thesis
        by (auto simp: fill.simps [of cap acc])
    next
      case n: False
      with False none 1(2) have
        "fill cap (acc @ take ?n data) (drop ?n data) (tl sched) = Inr (chunk, rest, sched')"
        by (simp add: fill.simps [of cap acc] Let_def)
      moreover have "length (acc @ take ?n data) \<le> cap"
        using read_count_room [of "cap - length acc" data sched] False by simp
      ultimately show ?thesis using 1(1) [OF False none refl n] by simp
    qed
  qed
qed

text \<open>The chunks of a file, up to the first read error.\<close>

function read_chunks :: "nat \<Rightarrow> string \<Rightarrow> read_step list \<Rightarrow> (string + string) list" where
  "read_chunks cap data sched =
     (case fill cap [] data sched of
        Inl e \<Rightarrow> [Inl e]
      | Inr (chunk, rest, sched') \<Rightarrow> if chunk = [] then [] else Inr chunk # read_chunks cap rest sched')"
  by pat_completeness auto

termination read_chunks
proof (relation "measure (\<lambda>(cap, data, sched). length data)", goal_cases)
  case (2 cap data sched r chunk p rest sched')
  then have "fill cap [] data sched = Inr (chunk, rest, sched')" "chunk \<noteq> []" by simp_all
  then have "chunk @ rest = data" using fill_splits [of cap "[]" data sched chunk rest sched'] by simp
  with \<open>chunk \<noteq> []\<close> show ?case by auto
qed simp

declare read_chunks.simps [simp del]

definition trim_quotes :: "string \<Rightarrow> string" where
  "trim_quotes s = rev (dropWhile (\<lambda>c. c = CHR 0x22) (rev (dropWhile (\<lambda>c. c = CHR 0x22) s)))"

definition session_path :: "upload_session \<Rightarrow> string \<Rightarrow> string" where
  "session_path session rest = ''api/uploads/'' @ us_id session @ rest"

definition post :: "server \<Rightarrow> url \<Rightarrow> string \<Rightarrow> body \<Rightarrow> reply io" where
  "post srv u token b = send srv \<lparr>rq_method = Post, rq_address = Api u, rq_token = Some token,
     rq_content_type = None, rq_body = b\<rparr>"

definition put :: "server \<Rightarrow> string \<Rightarrow> string option \<Rightarrow> string \<Rightarrow> reply io" where
  "put srv u content_type data = send srv \<lparr>rq_method = Put, rq_address = Signed u, rq_token = None,
     rq_content_type = content_type, rq_body = Bytes data\<rparr>"

definition upload_chunk ::
    "http_lib \<Rightarrow> server \<Rightarrow> url \<Rightarrow> string \<Rightarrow> upload_session \<Rightarrow> nat \<Rightarrow> string \<Rightarrow> uploaded_part io" where
  "upload_chunk h srv base token session number chunk =
     io_bind (io_lift (endpoint (hl_urls h) base (session_path session ''/parts''))) (\<lambda>sign_url.
     io_bind (post srv sign_url token (SignPart (us_upload_id session) number)) (\<lambda>r1.
     io_bind (io_lift (decode h (hl_signed_part h) ''sign upload chunk'' r1)) (\<lambda>signed_url.
     io_bind (put srv signed_url None chunk) (\<lambda>r2.
     io_bind (io_lift (map_err (\<lambda>e. ''failed to upload chunk '' @ show_nat number @ '': '' @ e)
       (error_for_status h r2))) (\<lambda>etag.
     io_bind (io_lift (ok_or etag (''storage did not return an ETag for chunk '' @ show_nat number))) (\<lambda>tag.
     io_lift (Inr \<lparr>up_number = number, up_etag = trim_quotes tag\<rparr>)))))))"

fun upload_chunks ::
    "http_lib \<Rightarrow> server \<Rightarrow> url \<Rightarrow> string \<Rightarrow> upload_session \<Rightarrow> (string + string) list \<Rightarrow> uploaded_part list \<Rightarrow>
     uploaded_part list io" where
  "upload_chunks h srv base token session [] parts =
     io_lift (if parts = [] then Inl ''cannot upload an empty recording'' else Inr parts)"
| "upload_chunks h srv base token session (Inl e # cs) parts =
     io_lift (Inl (''failed to read recording: '' @ e))"
| "upload_chunks h srv base token session (Inr chunk # cs) parts =
     io_bind (io_lift (ok_or (checked_add usize_max (length parts) 1) ''recording has too many chunks'')) (\<lambda>number.
     io_bind (upload_chunk h srv base token session number chunk) (\<lambda>part.
     upload_chunks h srv base token session cs (parts @ [part])))"

definition upload_parts ::
    "http_lib \<Rightarrow> server \<Rightarrow> local_files \<Rightarrow> url \<Rightarrow> string \<Rightarrow> string \<Rightarrow> upload_session \<Rightarrow> uploaded_part list io" where
  "upload_parts h srv fs base token path session =
     io_bind (io_lift (map_err (\<lambda>e. ''failed to open recording: '' @ e) (lf_open fs path))) (\<lambda>(data, sched).
     upload_chunks h srv base token session (read_chunks (us_part_size session) data sched) [])"

subsection \<open>HLS assets\<close>

definition upload_hls_asset ::
    "http_lib \<Rightarrow> server \<Rightarrow> local_files \<Rightarrow> url \<Rightarrow> string \<Rightarrow> string \<Rightarrow> upload_session \<Rightarrow> unit io" where
  "upload_hls_asset h srv fs base token path session =
     io_bind (io_lift (ok_or (utf8_name h path) ''HLS recording contains an invalid filename'')) (\<lambda>name.
     io_bind (io_lift (endpoint (hl_urls h) base (session_path session ''/assets''))) (\<lambda>sign_url.
     io_bind (post srv sign_url token (SignAsset (us_upload_id session) name)) (\<lambda>r1.
     io_bind (io_lift (decode h (hl_signed_asset h) ''sign HLS asset'' r1)) (\<lambda>signed.
     io_bind (io_lift (map_err (\<lambda>e. ''failed to read HLS asset '' @ name @ '': '' @ e) (lf_read fs path))) (\<lambda>contents.
     io_bind (put srv (sa_url signed) (Some (sa_content_type signed)) contents) (\<lambda>r2.
     io_bind (io_lift (map_err (\<lambda>e. ''failed to upload HLS asset '' @ name @ '': '' @ e)
       (error_for_status h r2))) (\<lambda>_.
     io_lift (Inr ()))))))))"

fun upload_assets ::
    "http_lib \<Rightarrow> server \<Rightarrow> local_files \<Rightarrow> url \<Rightarrow> string \<Rightarrow> string \<Rightarrow> upload_session \<Rightarrow> string list \<Rightarrow> bool \<Rightarrow> bool io" where
  "upload_assets h srv fs base token dir session [] found = io_lift (Inr found)"
| "upload_assets h srv fs base token dir session (name # names) found =
     (if \<not> hl_utf8 h name then io_lift (Inl ''HLS recording contains an invalid filename'')
      else if name = ''playlist.m3u8'' \<or> starts_with name ''.''
      then upload_assets h srv fs base token dir session names found
      else if name \<noteq> ''init.mp4'' \<and> \<not> is_media_name name
      then io_lift (Inl (''HLS recording contains an unexpected file: '' @ name))
      else io_bind (upload_hls_asset h srv fs base token (join dir name) session) (\<lambda>_.
           upload_assets h srv fs base token dir session names (found \<or> name = ''init.mp4'')))"

definition upload_hls_assets ::
    "http_lib \<Rightarrow> server \<Rightarrow> local_files \<Rightarrow> url \<Rightarrow> string \<Rightarrow> string \<Rightarrow> upload_session \<Rightarrow> unit io" where
  "upload_hls_assets h srv fs base token dir session =
     io_bind (io_lift (map_err (\<lambda>e. ''failed to read HLS recording: '' @ e) (lf_dir fs dir))) (\<lambda>names.
     io_bind (upload_assets h srv fs base token dir session (sort names) False) (\<lambda>found.
     io_lift (if found then Inr () else Inl ''HLS recording is missing init.mp4'')))"

text \<open>The asynchronous twins.\<close>

definition upload_hls_asset_async ::
    "http_lib \<Rightarrow> server \<Rightarrow> local_files \<Rightarrow> url \<Rightarrow> string \<Rightarrow> string \<Rightarrow> upload_session \<Rightarrow> unit io" where
  "upload_hls_asset_async = upload_hls_asset"

definition upload_parts_async ::
    "http_lib \<Rightarrow> server \<Rightarrow> local_files \<Rightarrow> url \<Rightarrow> string \<Rightarrow> string \<Rightarrow> upload_session \<Rightarrow> uploaded_part list io" where
  "upload_parts_async = upload_parts"

lemmas async_twins = upload_hls_asset_async_def upload_parts_async_def

subsection \<open>The whole upload\<close>

definition complete_upload ::
    "http_lib \<Rightarrow> server \<Rightarrow> url \<Rightarrow> string \<Rightarrow> upload_session \<Rightarrow> uploaded_part list \<Rightarrow> string io" where
  "complete_upload h srv base token session parts =
     io_bind (io_lift (endpoint (hl_urls h) base (session_path session ''/complete''))) (\<lambda>u.
     io_bind (post srv u token (CompleteUpload (us_upload_id session) parts)) (\<lambda>r.
     io_lift (decode h (hl_complete h) ''complete upload'' r)))"

definition cancel_request :: "url \<Rightarrow> string \<Rightarrow> upload_session \<Rightarrow> request" where
  "cancel_request u token session =
     \<lparr>rq_method = Delete, rq_address = Api u, rq_token = Some token, rq_content_type = None,
      rq_body = CancelUpload (us_upload_id session)\<rparr>"

text \<open>A failure after the session has started cancels it; an address error replaces the first error.\<close>

definition or_cancel ::
    "http_lib \<Rightarrow> server \<Rightarrow> url \<Rightarrow> string \<Rightarrow> upload_session \<Rightarrow> 'a io \<Rightarrow> 'a io" where
  "or_cancel h srv base token session m = (\<lambda>lg.
     case m lg of
       (Inr v, l) \<Rightarrow> (Inr v, l)
     | (Inl e, l) \<Rightarrow>
         (case endpoint (hl_urls h) base (session_path session []) of
            Inl e' \<Rightarrow> (Inl e', l)
          | Inr u \<Rightarrow> (Inl e, snd (send srv (cancel_request u token session) l))))"

definition start_session :: "http_lib \<Rightarrow> server \<Rightarrow> url \<Rightarrow> string \<Rightarrow> body \<Rightarrow> upload_session io" where
  "start_session h srv base token b =
     io_bind (io_lift (endpoint (hl_urls h) base ''api/uploads'')) (\<lambda>u.
     io_bind (post srv u token b) (\<lambda>r.
     io_bind (io_lift (decode h (hl_session h) ''start upload'' r)) (\<lambda>session.
     io_lift (if us_part_size session < 5 * 1024 * 1024
              then Inl ''server returned an invalid multipart chunk size'' else Inr session))))"

definition upload_body ::
    "http_lib \<Rightarrow> server \<Rightarrow> local_files \<Rightarrow> url \<Rightarrow> string \<Rightarrow> string \<Rightarrow> string \<Rightarrow> recording_format \<Rightarrow> upload_session \<Rightarrow> string io" where
  "upload_body h srv fs base token path upload_path format session =
     io_bind (if format = FormatHls then upload_hls_assets h srv fs base token path session else io_lift (Inr ())) (\<lambda>_.
     io_bind (upload_parts h srv fs base token upload_path session) (\<lambda>parts.
     complete_upload h srv base token session parts))"

definition upload_path :: "string \<Rightarrow> recording_format \<Rightarrow> string" where
  "upload_path path format = (if format = FormatHls then join path ''playlist.m3u8'' else path)"

definition upload ::
    "http_lib \<Rightarrow> server \<Rightarrow> local_files \<Rightarrow> string \<Rightarrow> string \<Rightarrow> recording_format \<Rightarrow> string io" where
  "upload h srv fs path configured format =
     io_bind (io_lift (parse_server_url (hl_urls h) configured)) (\<lambda>(base, token).
     io_bind (io_lift (map_err (\<lambda>e. ''failed to create upload client: '' @ e) (hl_client h))) (\<lambda>_.
     io_bind (io_lift (map_err (\<lambda>e. ''failed to read recording metadata: '' @ e)
       (lf_size fs (upload_path path format)))) (\<lambda>len.
     io_bind (start_session h srv base token
       (CreateUpload (upload_filename h path format) (Some len)
         (if format = FormatHls then UploadHls else UploadMp4))) (\<lambda>session.
     or_cancel h srv base token session
       (upload_body h srv fs base token path (upload_path path format) format session)))))"

subsection \<open>Reasoning about requests\<close>

lemma io_lift_iff [simp]: "io_lift r lg = (x, l) \<longleftrightarrow> r = x \<and> l = lg"
  by (auto simp: io_lift_def)

lemma io_bind_Inr [simp]:
  "io_bind m f lg = (Inr y, l') \<longleftrightarrow> (\<exists>x l. m lg = (Inr x, l) \<and> f x l = (Inr y, l'))"
  by (auto simp: io_bind_def split: prod.split sum.split)

lemma post_Inr [simp]:
  "post srv u token b lg = (Inr r, l) \<longleftrightarrow> r = srv l \<and> l = lg @ [\<lparr>rq_method = Post, rq_address = Api u,
     rq_token = Some token, rq_content_type = None, rq_body = b\<rparr>]"
  by (auto simp: post_def send_def)

lemma put_Inr [simp]:
  "put srv u t b lg = (Inr r, l) \<longleftrightarrow> r = srv l \<and> l = lg @ [\<lparr>rq_method = Put, rq_address = Signed u,
     rq_token = None, rq_content_type = t, rq_body = Bytes b\<rparr>]"
  by (auto simp: put_def send_def)

text \<open>An operation only adds requests to the log, all of them satisfying \<open>P\<close>.\<close>

definition sends :: "(request \<Rightarrow> bool) \<Rightarrow> 'a io \<Rightarrow> bool" where
  "sends P m \<longleftrightarrow> (\<forall>lg r l. m lg = (r, l) \<longrightarrow> (\<exists>new. l = lg @ new \<and> list_all P new))"

named_theorems sends_intros

lemma sends_lift [sends_intros]: "sends P (io_lift r)"
  by (simp add: sends_def)

lemma sends_bind [sends_intros]:
  assumes "sends P m" "\<And>x. sends P (f x)"
  shows "sends P (io_bind m f)"
  unfolding sends_def
proof (intro allI impI)
  fix lg r l
  assume run: "io_bind m f lg = (r, l)"
  obtain r1 l1 where m: "m lg = (r1, l1)" by fastforce
  with assms(1) obtain new where new: "l1 = lg @ new" "list_all P new" unfolding sends_def by blast
  show "\<exists>new. l = lg @ new \<and> list_all P new"
  proof (cases r1)
    case (Inl e)
    with run m new show ?thesis by (auto simp: io_bind_def)
  next
    case (Inr x)
    with run m have "f x l1 = (r, l)" by (simp add: io_bind_def)
    with assms(2) [of x] obtain more where "l = l1 @ more" "list_all P more" unfolding sends_def by blast
    with new show ?thesis by (auto intro!: exI [of _ "new @ more"])
  qed
qed

definition not_delete :: "request \<Rightarrow> bool" where "not_delete rq = (rq_method rq \<noteq> Delete)"

lemma sends_post [sends_intros]: "sends not_delete (post srv u token b)"
  by (simp add: sends_def post_def send_def not_delete_def)

lemma sends_put [sends_intros]: "sends not_delete (put srv u t b)"
  by (simp add: sends_def put_def send_def not_delete_def)

lemma sends_upload_chunk [sends_intros]: "sends not_delete (upload_chunk h srv base token session number chunk)"
  unfolding upload_chunk_def by (intro sends_intros)

lemma sends_upload_chunks [sends_intros]: "sends not_delete (upload_chunks h srv base token session cs parts)"
  by (induction h srv base token session cs parts rule: upload_chunks.induct) (auto intro!: sends_intros)

lemma sends_upload_parts [sends_intros]: "sends not_delete (upload_parts h srv fs base token path session)"
  unfolding upload_parts_def by (intro sends_intros) (auto intro: sends_intros)

lemma sends_upload_hls_asset [sends_intros]: "sends not_delete (upload_hls_asset h srv fs base token path session)"
  unfolding upload_hls_asset_def by (intro sends_intros)

lemma sends_upload_assets [sends_intros]: "sends not_delete (upload_assets h srv fs base token dir session names found)"
  by (induction h srv fs base token dir session names found rule: upload_assets.induct) (auto intro!: sends_intros)

lemma sends_upload_hls_assets [sends_intros]: "sends not_delete (upload_hls_assets h srv fs base token dir session)"
  unfolding upload_hls_assets_def by (intro sends_intros)

lemma sends_complete [sends_intros]: "sends not_delete (complete_upload h srv base token session parts)"
  unfolding complete_upload_def by (intro sends_intros)

lemma sends_upload_body: "sends not_delete (upload_body h srv fs base token path up format session)"
  unfolding upload_body_def by (intro sends_intros) (auto intro: sends_intros)

subsection \<open>The parts are the file\<close>

fun put_bodies :: "request list \<Rightarrow> string list" where
  "put_bodies [] = []"
| "put_bodies (rq # rqs) =
     (case rq_body rq of Bytes b \<Rightarrow> (if rq_method rq = Put then [b] else []) | _ \<Rightarrow> []) @ put_bodies rqs"

lemma put_bodies_append [simp]: "put_bodies (xs @ ys) = put_bodies xs @ put_bodies ys"
  by (induction xs) simp_all

lemma read_chunks_concat:
  assumes "read_chunks cap data sched = map Inr cs" "0 < cap"
  shows "concat cs = data \<and> (\<forall>c \<in> set cs. c \<noteq> [] \<and> length c \<le> cap) \<and> (\<forall>c \<in> set (butlast cs). length c = cap)"
  using assms
proof (induction cap data sched arbitrary: cs rule: read_chunks.induct)
  case (1 cap data sched)
  from 1(2) obtain chunk rest sched' where f: "fill cap [] data sched = Inr (chunk, rest, sched')"
    by (cases "fill cap [] data sched"; cases cs) (auto simp: read_chunks.simps [of cap data])
  note sp = fill_splits [OF f]
  show ?case
  proof (cases "chunk = []")
    case True
    with sp 1(3) have "data = []" by auto
    moreover have "read_chunks cap data sched = []" using f True by (simp add: read_chunks.simps [of cap data])
    ultimately show ?thesis using 1(2) by simp
  next
    case False
    with f 1(2) obtain ds where cs: "cs = chunk # ds" and ds: "read_chunks cap rest sched' = map Inr ds"
      by (cases cs) (auto simp: read_chunks.simps [of cap data])
    note ih = 1(1) [OF f _ _ False ds 1(3)]
    have "ds \<noteq> [] \<Longrightarrow> length chunk = cap" using ih sp by fastforce
    with ih sp cs False show ?thesis by auto
  qed
qed

lemma read_chunks_0: "read_chunks 0 data sched = []"
  by (simp add: read_chunks.simps [of 0] fill.simps [of 0])

lemma upload_chunk_Inr:
  assumes "upload_chunk h srv base token session number chunk lg = (Inr part, lg')"
  shows "up_number part = number \<and> (\<exists>new. lg' = lg @ new \<and> put_bodies new = [chunk])"
  using assms by (auto simp: upload_chunk_def)

lemma upload_chunks_Inr:
  assumes "upload_chunks h srv base token session cs parts lg = (Inr done, lg')"
  shows "\<exists>ds new. cs = map Inr ds \<and> lg' = lg @ new \<and> put_bodies new = ds \<and> done \<noteq> [] \<and>
    length done = length parts + length ds \<and>
    map up_number done = map up_number parts @ [length parts + 1..<length parts + length ds + 1]"
  using assms
proof (induction h srv base token session cs parts arbitrary: lg rule: upload_chunks.induct)
  case (1 h srv base token session parts)
  then show ?case by (auto split: if_splits)
next
  case (2 h srv base token session e cs parts)
  then show ?case by simp
next
  case (3 h srv base token session chunk cs parts)
  from 3(2) obtain part lg1 where
    part: "upload_chunk h srv base token session (length parts + 1) chunk lg = (Inr part, lg1)"
    and rest: "upload_chunks h srv base token session cs (parts @ [part]) lg1 = (Inr done, lg')"
    by (auto simp: checked_add_def split: if_splits)
  note p = upload_chunk_Inr [OF part]
  then obtain new1 where new1: "lg1 = lg @ new1" "put_bodies new1 = [chunk]" by blast
  from 3(1) [OF rest] obtain ds new where d: "cs = map Inr ds" "lg' = lg1 @ new" "put_bodies new = ds"
    "done \<noteq> []" "length done = Suc (length parts + length ds)"
    "map up_number done = map up_number (parts @ [part]) @ [Suc (length parts) + 1..<Suc (length parts) + length ds + 1]"
    by auto
  have "[Suc (length parts)..<Suc (Suc (length parts + length ds))] =
      Suc (length parts) # [Suc (Suc (length parts))..<Suc (Suc (length parts + length ds))]"
    by (simp add: upt_conv_Cons del: upt_Suc)
  with d new1 p show ?case
    by (intro exI [of _ "chunk # ds"] exI [of _ "new1 @ new"]) (simp del: upt_Suc)
qed

text \<open>
  C22: a finished multipart upload holds the file. Whatever sizes the operating system's reads have,
  an upload of the parts that succeeds has put exactly the file's bytes, in order, in parts numbered
  from one without a gap; every part has the session's part size but for the last, which is not
  longer and not empty. An empty file is an error.
\<close>
theorem upload_parts_correct:
  assumes "upload_parts h srv fs base token path session lg = (Inr parts, lg')"
  shows "\<exists>data sched new. lf_open fs path = Inr (data, sched) \<and> lg' = lg @ new \<and>
    data \<noteq> [] \<and> concat (put_bodies new) = data \<and> length (put_bodies new) = length parts \<and>
    map up_number parts = [1..<length parts + 1] \<and>
    (\<forall>c \<in> set (butlast (put_bodies new)). length c = us_part_size session) \<and>
    (\<forall>c \<in> set (put_bodies new). c \<noteq> [] \<and> length c \<le> us_part_size session)"
proof -
  from assms obtain data sched where o: "lf_open fs path = Inr (data, sched)"
    and up: "upload_chunks h srv base token session (read_chunks (us_part_size session) data sched) [] lg = (Inr parts, lg')"
    by (auto simp: upload_parts_def)
  from upload_chunks_Inr [OF up] obtain ds new where d:
    "read_chunks (us_part_size session) data sched = map Inr ds" "lg' = lg @ new" "put_bodies new = ds"
    "parts \<noteq> []" "length parts = length ds" "map up_number parts = [1..<length ds + 1]" by auto
  then have "0 < us_part_size session"
    using read_chunks_0 [of data sched] by (cases "us_part_size session") auto
  from read_chunks_concat [OF d(1) this] d o show ?thesis
    by (intro exI [of _ data] exI [of _ sched] exI [of _ new]) auto
qed

lemma sends_prefix: "sends P m \<Longrightarrow> m lg = (r, l) \<Longrightarrow> \<exists>new. l = lg @ new"
  unfolding sends_def by blast

lemma upload_body_Inr:
  assumes "upload_body h srv fs base token path up format session lg = (Inr v, l)"
  shows "\<exists>parts mid rq. l = lg @ mid @ [rq] \<and> rq_body rq = CompleteUpload (us_upload_id session) parts"
proof -
  from assms obtain x l1 parts l2 where
    a: "(if format = FormatHls then upload_hls_assets h srv fs base token path session else io_lift (Inr ())) lg = (Inr x, l1)"
    and b: "upload_parts h srv fs base token up session l1 = (Inr parts, l2)"
    and c: "complete_upload h srv base token session parts l2 = (Inr v, l)"
    by (auto simp: upload_body_def)
  have "sends not_delete (if format = FormatHls then upload_hls_assets h srv fs base token path session else io_lift (Inr ()))"
    by (simp add: sends_intros)
  from sends_prefix [OF this a] obtain n1 where "l1 = lg @ n1" by blast
  moreover from sends_prefix [OF sends_upload_parts b] obtain n2 where "l2 = l1 @ n2" by blast
  moreover from c obtain rq where "l = l2 @ [rq]" "rq_body rq = CompleteUpload (us_upload_id session) parts"
    by (auto simp: complete_upload_def)
  ultimately show ?thesis by (intro exI [of _ parts] exI [of _ "n1 @ n2"] exI [of _ rq]) simp
qed

text \<open>
  C23: a session that was started is either completed or cancelled. Once the server has given a usable
  session, an upload that succeeds ends with the request that completes it and never cancels it; one
  that fails at any later point (a file that cannot be read, an unexpected file, a refused part, a
  refused completion) returns its error after one last request, which cancels the session.
\<close>
theorem upload_completes_or_cancels:
  assumes "upload h srv fs path configured format lg = (r, lg')"
    and "parse_server_url (hl_urls h) configured = Inr (base, token)" "hl_client h = Inr u"
    and "lf_size fs (upload_path path format) = Inr len"
    and "start_session h srv base token (CreateUpload (upload_filename h path format) (Some len)
      (if format = FormatHls then UploadHls else UploadMp4)) lg = (Inr session, lg1)"
    and "endpoint (hl_urls h) base (session_path session []) = Inr cancel_url"
  shows "\<exists>new. list_all not_delete new \<and>
    (case r of
       Inl e \<Rightarrow> lg' = lg1 @ new @ [cancel_request cancel_url token session]
     | Inr v \<Rightarrow> lg' = lg1 @ new \<and>
         (\<exists>parts. rq_body (last new) = CompleteUpload (us_upload_id session) parts \<and> new \<noteq> []))"
proof -
  let ?m = "upload_body h srv fs base token path (upload_path path format) format session"
  have up: "or_cancel h srv base token session ?m lg1 = (r, lg')"
    using assms by (simp add: upload_def io_bind_def io_lift_def)
  obtain r1 l1 where m: "?m lg1 = (r1, l1)" by fastforce
  from sends_upload_body m obtain new where new: "l1 = lg1 @ new" "list_all not_delete new"
    unfolding sends_def by blast
  show ?thesis
  proof (cases r1)
    case (Inl e)
    with up m assms(6) new show ?thesis by (auto simp: or_cancel_def send_def)
  next
    case (Inr v)
    with up m have r: "r = Inr v" "lg' = l1" by (simp_all add: or_cancel_def)
    from m Inr have "?m lg1 = (Inr v, l1)" by simp
    from upload_body_Inr [OF this] obtain parts mid rq
      where "l1 = lg1 @ mid @ [rq]" "rq_body rq = CompleteUpload (us_upload_id session) parts" by blast
    with new r show ?thesis by (intro exI [of _ new]) auto
  qed
qed

subsection \<open>A small server\<close>

definition small_session :: upload_session where
  "small_session = \<lparr>us_id = ''s'', us_upload_id = ''u'', us_part_size = 2\<rparr>"

definition ok_server :: server where
  "ok_server lg = (case rq_body (last lg) of
     Bytes b \<Rightarrow> Response 200 None (Some [CHR 0x22, CHR ''e'', CHR 0x22]) | _ \<Rightarrow> Response 200 (Some ''{}'') None)"

definition sample_http :: "nat \<Rightarrow> http_lib" where
  "sample_http part = \<lparr>hl_urls = sample_urls, hl_client = Inr (), hl_status_text = show_nat, hl_status_error = show_nat,
     hl_session = (\<lambda>_. Inr (small_session\<lparr>us_part_size := part\<rparr>)), hl_signed_part = (\<lambda>_. Inr ''put''),
     hl_signed_asset = (\<lambda>_. Inr \<lparr>sa_url = ''put'', sa_content_type = ''video/mp4''\<rparr>),
     hl_complete = (\<lambda>_. Inr ''https://b/v''), hl_utf8 = (\<lambda>_. True)\<rparr>"

definition sample_files :: local_files where
  "sample_files = \<lparr>lf_size = (\<lambda>_. Inr 3), lf_read = (\<lambda>_. Inr ''abc''), lf_open = (\<lambda>_. Inr (''abc'', [ReadSome 1])),
     lf_dir = (\<lambda>_. Inr [''init.mp4''])\<rparr>"

definition sample_base :: url where
  "sample_base = \<lparr>url_scheme = ''https'', url_host = Some ''b'', url_path = ''/'', url_fragment = None, url_query = []\<rparr>"

lemmas upload_eval = small_session_def ok_server_def sample_http_def sample_files_def sample_base_def sample_urls_def
  upload_parts_def upload_chunk_def endpoint_def post_def put_def send_def io_bind_def io_lift_def decode_def
  error_for_status_def is_success_def checked_add_def u64_max_def

lemma sample_chunks: "read_chunks 2 ''abc'' [ReadSome 1] = [Inr ''ab'', Inr ''c'']"
  by (simp add: read_chunks.simps fill.simps Let_def)

lemma sample_parts:
  "\<exists>parts lg. upload_parts (sample_http 2) ok_server sample_files sample_base ''t'' ''f'' small_session [] = (Inr parts, lg)"
  using sample_chunks by (simp add: upload_eval)

theorem upload_parts_correct_witness:
  "\<exists>parts lg. upload_parts (sample_http 2) ok_server sample_files sample_base ''t'' ''f'' small_session [] = (Inr parts, lg)
     \<and> concat (put_bodies lg) = ''abc''"
proof -
  obtain parts lg where
    p: "upload_parts (sample_http 2) ok_server sample_files sample_base ''t'' ''f'' small_session [] = (Inr parts, lg)"
    using sample_parts by blast
  from upload_parts_correct [OF p] have "concat (put_bodies lg) = ''abc''" by (auto simp: sample_files_def)
  with p show ?thesis by blast
qed

text \<open>A server that refuses the completion.\<close>

definition refusing_server :: server where
  "refusing_server lg = (case rq_body (last lg) of
     CompleteUpload u ps \<Rightarrow> Response 500 None None | _ \<Rightarrow> ok_server lg)"

theorem upload_completes_or_cancels_witness:
  "\<exists>e lg new. upload (sample_http 6000000) refusing_server sample_files ''f'' ''https://b#t'' FormatMp4 [] = (Inl e, lg)
     \<and> list_all not_delete new \<and> rq_method (last lg) = Delete"
proof -
  let ?h = "sample_http 6000000"
  let ?s = "small_session\<lparr>us_part_size := 6000000\<rparr>"
  let ?b = "CreateUpload (upload_filename ?h ''f'' FormatMp4) (Some 3) (if FormatMp4 = FormatHls then UploadHls else UploadMp4)"
  have parse: "parse_server_url (hl_urls ?h) ''https://b#t'' = Inr (sample_base, ''t'')"
    by (simp add: parse_server_url_def sample_http_def sample_urls_def sample_base_def trim_def is_space_def secure_def)
  obtain lg1 where start: "start_session ?h refusing_server sample_base ''t'' ?b [] = (Inr ?s, lg1)"
    by (simp add: start_session_def refusing_server_def upload_eval)
  obtain c where c: "endpoint (hl_urls ?h) sample_base (session_path ?s []) = Inr c"
    by (simp add: upload_eval)
  have chunks: "read_chunks 6000000 ''abc'' [ReadSome 1] = [Inr ''abc'']"
    by (simp add: read_chunks.simps fill.simps Let_def)
  obtain e lg where run: "upload ?h refusing_server sample_files ''f'' ''https://b#t'' FormatMp4 [] = (Inl e, lg)"
    using parse chunks
    by (simp add: upload_def or_cancel_def upload_body_def complete_upload_def start_session_def
        refusing_server_def upload_path_def upload_eval)
  have size: "lf_size sample_files (upload_path ''f'' FormatMp4) = Inr 3" by (simp add: sample_files_def)
  have client: "hl_client ?h = Inr ()" by (simp add: sample_http_def)
  from upload_completes_or_cancels [OF run parse client size start c] obtain new
    where "list_all not_delete new" "lg = lg1 @ new @ [cancel_request c ''t'' ?s]" by auto
  with run show ?thesis by (intro exI [of _ e] exI [of _ lg] exI [of _ new]) (simp add: cancel_request_def)
qed

end
