(* ===== verification/Hls_Upload.thy ===== *)
theory Hls_Upload
  imports Upload "HOL-Library.Multiset"
begin

section \<open>The incremental HLS upload (upload.rs and recording.rs of apps/blip-capture)\<close>

text \<open>
  \<open>HlsUpload\<close> and \<open>run_hls_upload\<close>: while a recording runs, every asset the writer reports is
  uploaded by a task of its own, at most three at a time; when the recording is complete, the
  remaining tasks are awaited and the playlist is uploaded. The tasks run concurrently, so a run is a
  sequence of labelled steps: a message is received, some running task is joined with its outcome
  (an upload error, a task that panicked, success), or the last part of the upload is made. The
  requests of the tasks are not part of the log; those of the uploader itself are.
\<close>

subsection \<open>The session\<close>

record hls_upload =
  hu_base :: url
  hu_token :: string
  hu_session :: upload_session
  hu_found :: bool

definition hls_start :: "http_lib \<Rightarrow> server \<Rightarrow> string \<Rightarrow> string \<Rightarrow> hls_upload io" where
  "hls_start h srv path configured =
     io_bind (io_lift (parse_server_url (hl_urls h) configured)) (\<lambda>(base, token).
     io_bind (io_lift (map_err (\<lambda>e. ''failed to create upload client: '' @ e) (hl_client h))) (\<lambda>_.
     io_bind (start_session h srv base token (CreateUpload (upload_filename h path FormatHls) None UploadHls)) (\<lambda>session.
     io_lift (Inr \<lparr>hu_base = base, hu_token = token, hu_session = session, hu_found = False\<rparr>))))"

definition register_asset :: "http_lib \<Rightarrow> string \<Rightarrow> hls_upload \<Rightarrow> string + hls_upload" where
  "register_asset h path u =
     and_then (validate_hls_asset h path) (\<lambda>init. Inr (if init then u\<lparr>hu_found := True\<rparr> else u))"

definition upload_asset :: "http_lib \<Rightarrow> server \<Rightarrow> local_files \<Rightarrow> string \<Rightarrow> hls_upload \<Rightarrow> unit io" where
  "upload_asset h srv fs path u =
     io_bind (io_lift (validate_hls_asset h path)) (\<lambda>_.
     upload_hls_asset_async h srv fs (hu_base u) (hu_token u) path (hu_session u))"

definition hls_upload_finish :: "http_lib \<Rightarrow> server \<Rightarrow> local_files \<Rightarrow> string \<Rightarrow> hls_upload \<Rightarrow> string io" where
  "hls_upload_finish h srv fs playlist u =
     (if \<not> hu_found u then io_lift (Inl ''HLS recording is missing init.mp4'')
      else io_bind (upload_parts_async h srv fs (hu_base u) (hu_token u) playlist (hu_session u)) (\<lambda>parts.
           complete_upload h srv (hu_base u) (hu_token u) (hu_session u) parts))"

definition hls_abort :: "http_lib \<Rightarrow> hls_upload \<Rightarrow> request list \<Rightarrow> request list" where
  "hls_abort h u lg =
     (case endpoint (hl_urls h) (hu_base u) (session_path (hu_session u) []) of
        Inl e \<Rightarrow> lg
      | Inr a \<Rightarrow> lg @ [cancel_request a (hu_token u) (hu_session u)])"

subsection \<open>The run\<close>

datatype upload_message = Asset string | Complete string | Abort

definition max_concurrent_uploads :: nat where "max_concurrent_uploads = 3"

datatype run_status =
    Receiving
  | Joining string
  | Draining string
  | Ended "string + string option"

text \<open>\<open>hr_uploaded\<close>, the assets whose tasks were joined without an error, is for the specification only.\<close>

record uploader =
  hr_upload :: hls_upload
  hr_flight :: "string list"
  hr_status :: run_status
  hr_log :: "request list"
  hr_uploaded :: "string list"

definition start_uploader :: "hls_upload \<Rightarrow> request list \<Rightarrow> uploader" where
  "start_uploader u lg = \<lparr>hr_upload = u, hr_flight = [], hr_status = Receiving, hr_log = lg, hr_uploaded = []\<rparr>"

text \<open>A run that does not end with a viewer URL stops its tasks and aborts the session.\<close>

definition end_run :: "http_lib \<Rightarrow> string + string option \<Rightarrow> uploader \<Rightarrow> uploader" where
  "end_run h r s =
     (case r of
        Inr (Some v) \<Rightarrow> s\<lparr>hr_status := Ended r\<rparr>
      | _ \<Rightarrow> s\<lparr>hr_status := Ended r, hr_flight := [], hr_log := hls_abort h (hr_upload s) (hr_log s)\<rparr>)"

definition spawn_asset :: "http_lib \<Rightarrow> string \<Rightarrow> uploader \<Rightarrow> uploader" where
  "spawn_asset h path s =
     (case register_asset h path (hr_upload s) of
        Inl e \<Rightarrow> end_run h (Inl e) s
      | Inr u \<Rightarrow> s\<lparr>hr_upload := u, hr_flight := hr_flight s @ [path], hr_status := Receiving\<rparr>)"

definition take_task :: "nat \<Rightarrow> uploader \<Rightarrow> uploader" where
  "take_task i s = s\<lparr>hr_flight := remove_at i (hr_flight s)\<rparr>"

definition task_done :: "nat \<Rightarrow> uploader \<Rightarrow> uploader" where
  "task_done i s = (take_task i s)\<lparr>hr_uploaded := hr_uploaded s @ [hr_flight s ! i]\<rparr>"

definition finish_run :: "http_lib \<Rightarrow> server \<Rightarrow> local_files \<Rightarrow> string \<Rightarrow> uploader \<Rightarrow> uploader" where
  "finish_run h srv fs playlist s =
     (case hls_upload_finish h srv fs playlist (hr_upload s) (hr_log s) of
        (r, lg) \<Rightarrow> end_run h (map_ok Some r) (s\<lparr>hr_log := lg\<rparr>))"

datatype run_event =
    Receive upload_message
  | Closed
  | Joined nat "string + unit"
  | FinishUpload

inductive run_step :: "http_lib \<Rightarrow> server \<Rightarrow> local_files \<Rightarrow> uploader \<Rightarrow> run_event \<Rightarrow> uploader \<Rightarrow> bool"
  for h srv fs where
  receive_asset: "hr_status s = Receiving \<Longrightarrow> length (hr_flight s) \<noteq> max_concurrent_uploads \<Longrightarrow>
    run_step h srv fs s (Receive (Asset p)) (spawn_asset h p s)"
| receive_full: "hr_status s = Receiving \<Longrightarrow> length (hr_flight s) = max_concurrent_uploads \<Longrightarrow>
    run_step h srv fs s (Receive (Asset p)) (s\<lparr>hr_status := Joining p\<rparr>)"
| receive_complete: "hr_status s = Receiving \<Longrightarrow>
    run_step h srv fs s (Receive (Complete pl)) (s\<lparr>hr_status := Draining pl\<rparr>)"
| receive_abort: "hr_status s = Receiving \<Longrightarrow>
    run_step h srv fs s (Receive Abort) (end_run h (Inr None) s)"
| channel_closed: "hr_status s = Receiving \<Longrightarrow>
    run_step h srv fs s Closed (end_run h (Inl ''HLS upload stopped before the recording completed'') s)"
| slot_free: "hr_status s = Joining p \<Longrightarrow> i < length (hr_flight s) \<Longrightarrow>
    run_step h srv fs s (Joined i (Inr ())) (spawn_asset h p (task_done i s))"
| drain_one: "hr_status s = Draining pl \<Longrightarrow> i < length (hr_flight s) \<Longrightarrow>
    run_step h srv fs s (Joined i (Inr ())) (task_done i s)"
| task_failed: "(\<exists>p. hr_status s = Joining p \<or> hr_status s = Draining p) \<Longrightarrow> i < length (hr_flight s) \<Longrightarrow>
    run_step h srv fs s (Joined i (Inl e)) (end_run h (Inl e) (take_task i s))"
| drained: "hr_status s = Draining pl \<Longrightarrow> hr_flight s = [] \<Longrightarrow>
    run_step h srv fs s FinishUpload (finish_run h srv fs pl s)"

inductive_cases run_stepE: "run_step h srv fs s e s'"

inductive run_trace :: "http_lib \<Rightarrow> server \<Rightarrow> local_files \<Rightarrow> uploader \<Rightarrow> run_event list \<Rightarrow> uploader \<Rightarrow> bool"
  for h srv fs where
  trace_nil: "run_trace h srv fs s [] s"
| trace_snoc: "run_trace h srv fs s es s' \<Longrightarrow> run_step h srv fs s' e s'' \<Longrightarrow> run_trace h srv fs s (es @ [e]) s''"

text \<open>The assets among the messages received.\<close>

fun event_asset :: "run_event \<Rightarrow> string list" where
  "event_asset (Receive (Asset p)) = [p]"
| "event_asset _ = []"

definition received_assets :: "run_event list \<Rightarrow> string list" where
  "received_assets es = concat (map event_asset es)"

subsection \<open>What every run keeps\<close>

fun waiting :: "run_status \<Rightarrow> string list" where
  "waiting (Joining p) = [p]"
| "waiting _ = []"

definition is_ended :: "uploader \<Rightarrow> bool" where
  "is_ended s = (\<exists>r. hr_status s = Ended r)"

text \<open>While the run goes on, every asset received is uploaded, on its way, or waiting for a slot.\<close>

definition running_ok :: "request list \<Rightarrow> string list \<Rightarrow> uploader \<Rightarrow> bool" where
  "running_ok lg got s \<longleftrightarrow>
     mset got = mset (hr_uploaded s) + mset (hr_flight s) + mset (waiting (hr_status s)) \<and>
     hr_log s = lg \<and> (waiting (hr_status s) \<noteq> [] \<longrightarrow> length (hr_flight s) = max_concurrent_uploads)"

fun ended_ok :: "http_lib \<Rightarrow> request list \<Rightarrow> string list \<Rightarrow> uploader \<Rightarrow> string + string option \<Rightarrow> bool" where
  "ended_ok h lg got s (Inr (Some v)) \<longleftrightarrow>
     mset got = mset (hr_uploaded s) \<and> hu_found (hr_upload s) \<and>
     (\<exists>new parts. hr_log s = lg @ new \<and> new \<noteq> [] \<and> list_all not_delete new \<and>
       rq_body (last new) = CompleteUpload (us_upload_id (hu_session (hr_upload s))) parts)"
| "ended_ok h lg got s _ \<longleftrightarrow>
     (\<exists>new. list_all not_delete new \<and> hr_log s = hls_abort h (hr_upload s) (lg @ new))"

definition run_ok :: "http_lib \<Rightarrow> hls_upload \<Rightarrow> request list \<Rightarrow> string list \<Rightarrow> uploader \<Rightarrow> bool" where
  "run_ok h u lg got s \<longleftrightarrow>
     length (hr_flight s) \<le> max_concurrent_uploads \<and>
     (hr_upload s)\<lparr>hu_found := False\<rparr> = u\<lparr>hu_found := False\<rparr> \<and>
     (hu_found (hr_upload s) \<longrightarrow> (\<exists>p \<in> set got. validate_hls_asset h p = Inr True)) \<and>
     (case hr_status s of Ended r \<Rightarrow> hr_flight s = [] \<and> ended_ok h lg got s r | _ \<Rightarrow> running_ok lg got s)"

lemma start_ok: "\<not> hu_found u \<Longrightarrow> run_ok h u lg [] (start_uploader u lg)"
  by (simp add: run_ok_def running_ok_def start_uploader_def)

lemma mset_remove_at: "i < length xs \<Longrightarrow> mset xs = add_mset (xs ! i) (mset (remove_at i xs))"
  by (metis (no_types, lifting) id_take_nth_drop mset.simps(2) mset_append remove_at_def union_mset_add_mset_right)

lemma end_failed:
  assumes "(hr_upload s)\<lparr>hu_found := False\<rparr> = u\<lparr>hu_found := False\<rparr>"
    and "hu_found (hr_upload s) \<longrightarrow> (\<exists>p \<in> set got. validate_hls_asset h p = Inr True)"
    and "hr_log s = lg @ new" "list_all not_delete new" "\<And>v. r \<noteq> Inr (Some v)"
  shows "run_ok h u lg got (end_run h r s)"
proof -
  have "end_run h r s = s\<lparr>hr_status := Ended r, hr_flight := [], hr_log := hls_abort h (hr_upload s) (hr_log s)\<rparr>"
    using assms(5) by (simp add: end_run_def split: sum.split option.split)
  moreover have "ended_ok h lg got x r \<longleftrightarrow>
      (\<exists>new. list_all not_delete new \<and> hr_log x = hls_abort h (hr_upload x) (lg @ new))" for x
    using assms(5) by (cases "(h, lg, got, x, r)" rule: ended_ok.cases) auto
  ultimately show ?thesis using assms(1-4) by (auto simp: run_ok_def)
qed

lemma validate_init: "register_asset h p u = Inr u' \<Longrightarrow>
    u'\<lparr>hu_found := False\<rparr> = u\<lparr>hu_found := False\<rparr> \<and> (hu_found u' \<longrightarrow> hu_found u \<or> validate_hls_asset h p = Inr True)"
  by (auto simp: register_asset_def)

lemma spawn_ok:
  assumes "length (hr_flight s) < max_concurrent_uploads"
    and "(hr_upload s)\<lparr>hu_found := False\<rparr> = u\<lparr>hu_found := False\<rparr>"
    and "hu_found (hr_upload s) \<longrightarrow> (\<exists>p \<in> set got. validate_hls_asset h p = Inr True)"
    and "mset got = mset (hr_uploaded s) + mset (hr_flight s) + {#p#}" "hr_log s = lg"
  shows "run_ok h u lg got (spawn_asset h p s)"
proof (cases "register_asset h p (hr_upload s)")
  case (Inl e)
  from end_failed [OF assms(2,3), of lg "[]" "Inl e"] Inl assms(5) show ?thesis
    by (simp add: spawn_asset_def)
next
  case (Inr u')
  have "p \<in> set got" using assms(4) by (metis set_mset_mset union_single_eq_member add.commute union_iff)
  then have "hu_found u' \<longrightarrow> (\<exists>p \<in> set got. validate_hls_asset h p = Inr True)"
    using validate_init [OF Inr] assms(3) by blast
  with assms validate_init [OF Inr] Inr show ?thesis
    by (simp add: spawn_asset_def run_ok_def running_ok_def)
qed

lemma sends_finish: "sends not_delete (hls_upload_finish h srv fs pl u)"
  unfolding hls_upload_finish_def async_twins by (auto intro!: sends_intros)

lemma finish_complete:
  assumes "hls_upload_finish h srv fs pl u lg = (Inr v, l)"
  shows "hu_found u \<and> (\<exists>new parts. l = lg @ new \<and> new \<noteq> [] \<and> list_all not_delete new \<and>
    rq_body (last new) = CompleteUpload (us_upload_id (hu_session u)) parts)"
proof -
  from assms have found: "hu_found u" by (auto simp: hls_upload_finish_def split: if_splits)
  from sends_finish assms obtain new where new: "l = lg @ new" "list_all not_delete new"
    unfolding sends_def by blast
  from assms found obtain parts l1 where
    a: "upload_parts h srv fs (hu_base u) (hu_token u) pl (hu_session u) lg = (Inr parts, l1)"
    and b: "complete_upload h srv (hu_base u) (hu_token u) (hu_session u) parts l1 = (Inr v, l)"
    by (auto simp: hls_upload_finish_def async_twins)
  from sends_prefix [OF sends_upload_parts a] obtain n1 where n1: "l1 = lg @ n1" by blast
  from b obtain rq where "l = l1 @ [rq]" "rq_body rq = CompleteUpload (us_upload_id (hu_session u)) parts"
    by (auto simp: complete_upload_def)
  with n1 new found show ?thesis by (auto intro!: exI [of _ new])
qed

lemma finish_run_ok:
  assumes ok: "run_ok h u lg got s" and d: "hr_status s = Draining pl" "hr_flight s = []"
  shows "run_ok h u lg got (finish_run h srv fs pl s)"
proof -
  obtain r l where f: "hls_upload_finish h srv fs pl (hr_upload s) (hr_log s) = (r, l)" by fastforce
  from ok d have same: "(hr_upload s)\<lparr>hu_found := False\<rparr> = u\<lparr>hu_found := False\<rparr>"
    and found: "hu_found (hr_upload s) \<longrightarrow> (\<exists>p \<in> set got. validate_hls_asset h p = Inr True)"
    and run: "mset got = mset (hr_uploaded s)" "hr_log s = lg"
    by (auto simp: run_ok_def running_ok_def)
  show ?thesis
  proof (cases r)
    case (Inl e)
    from sends_finish f run(2) obtain new where new: "l = lg @ new" "list_all not_delete new"
      unfolding sends_def by blast
    have "run_ok h u lg got (end_run h (Inl e) (s\<lparr>hr_log := l\<rparr>))"
      by (rule end_failed [where new = new]) (use same found new in simp_all)
    with f Inl show ?thesis by (simp add: finish_run_def)
  next
    case (Inr v)
    from finish_complete [OF f [unfolded Inr]] same found run d show ?thesis
      by (auto simp: finish_run_def f Inr end_run_def run_ok_def)
  qed
qed

lemma run_step_keeps:
  assumes "run_step h srv fs s e s'" and ok: "run_ok h u lg got s"
  shows "run_ok h u lg (got @ event_asset e) s'"
proof -
  have same: "(hr_upload s)\<lparr>hu_found := False\<rparr> = u\<lparr>hu_found := False\<rparr>"
    and found: "hu_found (hr_upload s) \<longrightarrow> (\<exists>p \<in> set got. validate_hls_asset h p = Inr True)"
    and room: "length (hr_flight s) \<le> max_concurrent_uploads"
    using ok by (simp_all add: run_ok_def)
  have run: "running_ok lg got s" if "\<not> is_ended s"
    using ok that by (auto simp: run_ok_def is_ended_def split: run_status.splits)
  from assms(1) show ?thesis
  proof cases
    case (receive_asset p)
    with run have "running_ok lg got s" by (simp add: is_ended_def)
    with receive_asset same found room show ?thesis
      by (auto intro!: spawn_ok simp: running_ok_def)
  next
    case (receive_full p)
    with run have "running_ok lg got s" by (simp add: is_ended_def)
    with receive_full same found show ?thesis by (auto simp: running_ok_def run_ok_def)
  next
    case (receive_complete pl)
    with run have "running_ok lg got s" by (simp add: is_ended_def)
    with receive_complete same found room show ?thesis by (auto simp: running_ok_def run_ok_def)
  next
    case receive_abort
    with run have "running_ok lg got s" by (simp add: is_ended_def)
    with receive_abort end_failed [OF same found, of lg "[]" "Inr None"] show ?thesis by (simp add: running_ok_def)
  next
    case channel_closed
    with run have "running_ok lg got s" by (simp add: is_ended_def)
    with channel_closed end_failed [OF same found, of lg "[]" "Inl ''HLS upload stopped before the recording completed''"]
    show ?thesis by (simp add: running_ok_def)
  next
    case (slot_free p i)
    with run have r: "running_ok lg got s" by (simp add: is_ended_def)
    have "run_ok h u lg got (spawn_asset h p (task_done i s))"
    proof (rule spawn_ok)
      show "length (hr_flight (task_done i s)) < max_concurrent_uploads"
        using slot_free r by (simp add: task_done_def take_task_def running_ok_def length_remove_at max_concurrent_uploads_def)
      show "mset got = mset (hr_uploaded (task_done i s)) + mset (hr_flight (task_done i s)) + {#p#}"
        using slot_free r mset_remove_at [OF slot_free(4)]
        by (simp add: task_done_def take_task_def running_ok_def)
    qed (use same found r in \<open>simp_all add: task_done_def take_task_def running_ok_def\<close>)
    with slot_free show ?thesis by simp
  next
    case (drain_one pl i)
    with run have r: "running_ok lg got s" by (simp add: is_ended_def)
    with drain_one same found room mset_remove_at [OF drain_one(4)] show ?thesis
      by (simp add: task_done_def take_task_def running_ok_def run_ok_def length_remove_at)
  next
    case (task_failed i x)
    with run have r: "running_ok lg got s" by (auto simp: is_ended_def)
    with task_failed end_failed [of "take_task i s" u got h lg "[]" "Inl x"] same found show ?thesis
      by (simp add: take_task_def running_ok_def)
  next
    case (drained pl)
    with finish_run_ok [OF ok] show ?thesis by simp
  qed
qed

lemma run_trace_ok:
  assumes "run_trace h srv fs (start_uploader u lg) es s" "\<not> hu_found u"
  shows "run_ok h u lg (received_assets es) s"
  using assms
proof (induction "start_uploader u lg" es s rule: run_trace.induct)
  case trace_nil
  then show ?case by (simp add: start_ok received_assets_def)
next
  case (trace_snoc es s' e s'')
  then show ?case using run_step_keeps [of h srv fs s' e s''] by (simp add: received_assets_def)
qed

subsection \<open>The properties of a run\<close>

lemma abort_same:
  "u\<lparr>hu_found := False\<rparr> = v\<lparr>hu_found := False\<rparr> \<Longrightarrow> hls_abort h u = hls_abort h v \<and> hu_session u = hu_session v"
proof -
  assume "u\<lparr>hu_found := False\<rparr> = v\<lparr>hu_found := False\<rparr>"
  then have "hu_base u = hu_base v" "hu_token u = hu_token v" "hu_session u = hu_session v"
    by (metis hls_upload.select_convs hls_upload.surjective hls_upload.update_convs(4))+
  then have "hls_abort h u lg = hls_abort h v lg" for lg by (simp add: hls_abort_def cong: sum.case_cong)
  with \<open>hu_session u = hu_session v\<close> show ?thesis by (simp add: fun_eq_iff)
qed

text \<open>
  C10: an incremental upload loses nothing and leaves nothing behind. In every order of messages and
  task outcomes, at most three assets are uploaded at once. A run that ends with a viewer URL has
  uploaded every asset it was told of, exactly as often, one of them \<open>init.mp4\<close>, and has completed the
  session without cancelling it. A run that ends in any other way has stopped its tasks and, as its
  last request, cancelled the session. Until then the uploader itself sends nothing.
\<close>
theorem hls_upload_safe:
  assumes "run_trace h srv fs (start_uploader u lg) es s" "\<not> hu_found u"
  shows "length (hr_flight s) \<le> 3 \<and>
    (case hr_status s of
       Ended (Inr (Some v)) \<Rightarrow>
         mset (received_assets es) = mset (hr_uploaded s) \<and> hr_flight s = [] \<and>
         (\<exists>p \<in> set (received_assets es). validate_hls_asset h p = Inr True) \<and>
         (\<exists>new parts. hr_log s = lg @ new \<and> new \<noteq> [] \<and> list_all not_delete new \<and>
           rq_body (last new) = CompleteUpload (us_upload_id (hu_session u)) parts)
     | Ended _ \<Rightarrow> hr_flight s = [] \<and> (\<exists>new. list_all not_delete new \<and> hr_log s = hls_abort h u (lg @ new))
     | _ \<Rightarrow> hr_log s = lg)"
proof -
  have ok: "run_ok h u lg (received_assets es) s" by (rule run_trace_ok [OF assms])
  then have "hls_abort h (hr_upload s) = hls_abort h u" "hu_session (hr_upload s) = hu_session u"
    using abort_same unfolding run_ok_def by blast+
  with ok show ?thesis
    by (auto simp: run_ok_def running_ok_def max_concurrent_uploads_def
        split: run_status.splits sum.splits option.splits)
qed

lemma no_step_after_end: "run_step h srv fs s e s' \<Longrightarrow> \<not> is_ended s"
  by (erule run_stepE) (auto simp: is_ended_def)

lemma end_run_ended: "is_ended (end_run h r s)"
  by (auto simp: end_run_def is_ended_def split: sum.split option.split)

lemma finish_run_ended: "is_ended (finish_run h srv fs pl s)"
  by (simp add: finish_run_def end_run_ended split: prod.split)

lemma drain_step:
  assumes "run_step h srv fs s e s'" "hr_status s = Draining pl"
  shows "is_ended s' \<or> (hr_status s' = Draining pl \<and> length (hr_flight s') < length (hr_flight s))"
  using assms
  by (cases rule: run_step.cases)
    (auto simp: end_run_ended finish_run_ended task_done_def take_task_def length_remove_at)

lemma drain_trace:
  assumes "run_trace h srv fs s es s'" "hr_status s = Draining pl"
  shows "(hr_status s' = Draining pl \<and> length es + length (hr_flight s') \<le> length (hr_flight s)) \<or>
    (is_ended s' \<and> length es \<le> length (hr_flight s) + 1)"
  using assms
proof (induction s es s' rule: run_trace.induct)
  case (trace_nil s)
  then show ?case by simp
next
  case (trace_snoc s es s' e s'')
  from no_step_after_end [OF trace_snoc(2)] trace_snoc(3,4)
  have d: "hr_status s' = Draining pl" "length es + length (hr_flight s') \<le> length (hr_flight s)" by auto
  with drain_step [OF trace_snoc(2) d(1)] show ?case by auto
qed

lemma drain_enabled:
  assumes "hr_status s = Draining pl"
  shows "\<exists>e s'. run_step h srv fs s e s'"
proof (cases "hr_flight s")
  case Nil
  with assms show ?thesis using drained [of s pl h srv fs] by blast
next
  case (Cons p ps)
  with assms show ?thesis using drain_one [of s pl 0 h srv fs] by auto
qed

text \<open>
  C18: an upload that was told the recording is complete ends. From then on at most four steps are
  left, whatever the outcomes of the tasks still running, and until the run has ended there is always
  one to take.
\<close>
theorem hls_upload_terminates:
  assumes "run_trace h srv fs (start_uploader u lg) es s" "\<not> hu_found u" "hr_status s = Draining pl"
    and "run_trace h srv fs s es' s'"
  shows "length es' \<le> 4 \<and> (is_ended s' \<or> (\<exists>e s''. run_step h srv fs s' e s''))"
proof -
  have "length (hr_flight s) \<le> 3"
    using run_trace_ok [OF assms(1,2)] by (simp add: run_ok_def max_concurrent_uploads_def)
  with drain_trace [OF assms(4,3)] drain_enabled [of s'] show ?thesis by force
qed

subsection \<open>A run\<close>

definition sample_upload :: hls_upload where
  "sample_upload = \<lparr>hu_base = sample_base, hu_token = ''t'', hu_session = small_session, hu_found = False\<rparr>"

definition sample_found :: hls_upload where
  "sample_found = sample_upload\<lparr>hu_found := True\<rparr>"

definition draining :: uploader where
  "draining = \<lparr>hr_upload = sample_found, hr_flight = [''d/init.mp4''], hr_status = Draining ''p'', hr_log = [],
     hr_uploaded = []\<rparr>"

lemma register_init: "register_asset (sample_http 2) ''d/init.mp4'' sample_upload = Inr sample_found"
  by (simp add: register_asset_def validate_hls_asset_def utf8_name_def file_name_def sample_http_def
      sample_found_def)

lemma reach_draining:
  "run_trace (sample_http 2) ok_server sample_files (start_uploader sample_upload [])
     [Receive (Asset ''d/init.mp4''), Receive (Complete ''p'')] draining"
proof -
  let ?r = "run_trace (sample_http 2) ok_server sample_files (start_uploader sample_upload [])"
  let ?s = "spawn_asset (sample_http 2) ''d/init.mp4'' (start_uploader sample_upload [])"
  have "?r ([] @ [Receive (Asset ''d/init.mp4'')]) ?s"
    by (rule trace_snoc [OF trace_nil receive_asset]) (simp_all add: start_uploader_def max_concurrent_uploads_def)
  moreover have s: "?s = draining\<lparr>hr_status := Receiving\<rparr>"
    by (simp add: spawn_asset_def start_uploader_def register_init draining_def)
  ultimately have a: "?r [Receive (Asset ''d/init.mp4'')] ?s" by simp
  have "?r ([Receive (Asset ''d/init.mp4'')] @ [Receive (Complete ''p'')]) (?s\<lparr>hr_status := Draining ''p''\<rparr>)"
    by (rule trace_snoc [OF a receive_complete]) (simp add: s draining_def)
  then show ?thesis by (simp add: s draining_def)
qed

lemma finish_drained:
  "run_trace (sample_http 2) ok_server sample_files draining [Joined 0 (Inr ()), FinishUpload]
     (finish_run (sample_http 2) ok_server sample_files ''p'' (task_done 0 draining))"
proof -
  let ?r = "run_trace (sample_http 2) ok_server sample_files draining"
  have "?r ([] @ [Joined 0 (Inr ())]) (task_done 0 draining)"
    by (rule trace_snoc [OF trace_nil drain_one]) (simp_all add: draining_def)
  then have a: "?r [Joined 0 (Inr ())] (task_done 0 draining)" by simp
  have "?r ([Joined 0 (Inr ())] @ [FinishUpload]) (finish_run (sample_http 2) ok_server sample_files ''p'' (task_done 0 draining))"
    by (rule trace_snoc [OF a drained]) (simp_all add: draining_def task_done_def take_task_def remove_at_def)
  then show ?thesis by simp
qed

lemma run_trace_append:
  "run_trace h srv fs s1 es2 s2 \<Longrightarrow> run_trace h srv fs s es1 s1 \<Longrightarrow> run_trace h srv fs s (es1 @ es2) s2"
proof (induction s1 es2 s2 rule: run_trace.induct)
  case (trace_nil s1)
  then show ?case by simp
next
  case (trace_snoc s1 es s' e s'')
  then show ?case using run_trace.trace_snoc [of h srv fs s "es1 @ es"] by simp
qed

lemma finish_drained_status:
  "hr_status (finish_run (sample_http 2) ok_server sample_files ''p'' (task_done 0 draining)) = Ended (Inr (Some ''https://b/v''))"
  using sample_chunks
  by (simp add: finish_run_def hls_upload_finish_def async_twins draining_def task_done_def take_task_def sample_found_def
      sample_upload_def complete_upload_def end_run_def upload_eval)

theorem hls_upload_safe_witness:
  "\<exists>s. run_trace (sample_http 2) ok_server sample_files (start_uploader sample_upload [])
      [Receive (Asset ''d/init.mp4''), Receive (Complete ''p''), Joined 0 (Inr ()), FinishUpload] s \<and>
    hr_status s = Ended (Inr (Some ''https://b/v'')) \<and> mset (hr_uploaded s) = {#''d/init.mp4''#}"
proof -
  let ?s = "finish_run (sample_http 2) ok_server sample_files ''p'' (task_done 0 draining)"
  from run_trace_append [OF finish_drained reach_draining] have run:
    "run_trace (sample_http 2) ok_server sample_files (start_uploader sample_upload [])
      [Receive (Asset ''d/init.mp4''), Receive (Complete ''p''), Joined 0 (Inr ()), FinishUpload] ?s" by simp
  have "\<not> hu_found sample_upload" by (simp add: sample_upload_def)
  from hls_upload_safe [OF run this] have "mset (hr_uploaded ?s) = {#''d/init.mp4''#}"
    by (simp add: finish_drained_status received_assets_def)
  with run finish_drained_status show ?thesis by blast
qed

theorem hls_upload_terminates_witness:
  "\<exists>s'. run_trace (sample_http 2) ok_server sample_files draining [Joined 0 (Inr ()), FinishUpload] s'
     \<and> length [Joined 0 (Inr ()), FinishUpload] \<le> 4"
  using hls_upload_terminates [OF reach_draining _ _ finish_drained] finish_drained
  by (auto simp: sample_upload_def draining_def)

end
