(* ===== verification/Recording.thy ===== *)
theory Recording
  imports Screen_Capture Hls_Writer Hls_Upload Bundle
begin

section \<open>Recording a screen (apps/blip-capture/src/recording.rs)\<close>

text \<open>
  The threads of a recording: the writer thread, which turns the captured frames and packets into
  files, the camera writer, and the recording thread, which stores the inputs' start offsets in the
  bundle and uploads or keeps the result. A channel is the list of the messages received from it;
  with a message come the answers of AVFoundation and of the file system while it is handled. The
  capture session itself is ScreenCaptureKit's.
\<close>

subsection \<open>Times\<close>

record frame_timing =
  ft_normalized :: "frame_timestamp option"
  ft_fallback :: duration

definition writer_timestamp :: "frame_timing \<Rightarrow> duration" where
  "writer_timestamp t =
     (case ft_normalized t of None \<Rightarrow> ft_fallback t | Some n \<Rightarrow> duration_since_epoch n)"

definition timing_seconds_since :: "frame_timing \<Rightarrow> frame_timing \<Rightarrow> real" where
  "timing_seconds_since t earlier =
     (case (ft_normalized t, ft_normalized earlier) of
        (Some a, Some b) \<Rightarrow> signed_seconds_since a b
      | _ \<Rightarrow>
          if ft_fallback earlier \<le> ft_fallback t
          then as_secs_f64 (saturating_sub (ft_fallback t) (ft_fallback earlier))
          else - as_secs_f64 (saturating_sub (ft_fallback earlier) (ft_fallback t)))"

subsection \<open>What is captured\<close>

datatype capture_spec =
    CaptureDisplay nat
  | CaptureWindow nat
  | CaptureRegion nat real real real real

fun display_relative_intersection :: "rect \<Rightarrow> rect \<Rightarrow> rect option" where
  "display_relative_intersection (wx, wy, ww, wh) (dx, dy, dw, dh) =
     (let left = max wx dx; top_edge = max wy dy;
          right = min (wx + ww) (dx + dw); bottom = min (wy + wh) (dy + dh);
          width = right - left; height = bottom - top_edge
      in if 0 < width \<and> 0 < height then Some (left - dx, top_edge - dy, width, height) else None)"

definition capture_target :: "(rect \<Rightarrow> rect \<Rightarrow> bool) \<Rightarrow> content \<Rightarrow> capture_spec \<Rightarrow> string + (nat \<times> rect option)" where
  "capture_target intersects c spec =
     (case spec of
        CaptureDisplay d \<Rightarrow> Inr (d, None)
      | CaptureWindow w \<Rightarrow>
          and_then (ok_or (find (\<lambda>x. cw_id x = w) (application_windows c))
            ''the selected window is no longer available'') (\<lambda>window.
          and_then (ok_or (window_display intersects c window)
            ''the selected window is not on an available display'') (\<lambda>display.
          and_then (ok_or (display_relative_intersection (cw_frame window) (cd_frame display))
            ''the selected window has no visible capture area'') (\<lambda>area.
          Inr (cd_id display, Some area))))
      | CaptureRegion d x y w h \<Rightarrow> Inr (d, Some (x, y, w, h)))"

definition capture_filter_of ::
    "(rect \<Rightarrow> rect \<Rightarrow> bool) \<Rightarrow> nat \<Rightarrow> content \<Rightarrow> capture_spec \<Rightarrow> nat option \<Rightarrow> string + (capture_filter \<times> rect option)" where
  "capture_filter_of intersects pid c spec camera_window_id =
     and_then (capture_target intersects c spec) (\<lambda>(display_id, source_rect).
     and_then (ok_or (find (\<lambda>d. cd_id d = display_id) (ct_displays c))
       ''the selected display is no longer available'') (\<lambda>display.
     and_then (ok_or (try_from 2147483647 pid) ''process ID exceeds ScreenCaptureKit's range'') (\<lambda>process_id.
     let capture_ui_windows = filter (\<lambda>w. cw_process w = Some (int process_id) \<and> cw_layer w \<noteq> 0
       \<and> Some (cw_id w) \<noteq> camera_window_id) (ct_windows c)
     in Inr (build_display_filter (excluding_windows capture_ui_windows (filter_display display)), source_rect))))"

definition min_mp4_bitrate :: real where "min_mp4_bitrate = 2500000"
definition max_mp4_bitrate :: real where "max_mp4_bitrate = 8000000"

definition mp4_bitrate :: "nat \<Rightarrow> nat \<Rightarrow> nat \<Rightarrow> nat" where
  "mp4_bitrate width height fps =
     (let pixel_ratio = real width * real height / (1920 * 1080);
          fps_ratio = real (min fps 60) / 30
      in as_unsigned usize_max (of_int (round_away
           (clamp (1500000 + pixel_ratio * 1500000 + fps_ratio * 500000) min_mp4_bitrate max_mp4_bitrate))))"

lemma display_relative_inside:
  assumes "display_relative_intersection (wx, wy, ww, wh) (dx, dy, dw, dh) = Some (x, y, w, h)"
  shows "0 \<le> x \<and> 0 \<le> y \<and> 0 < w \<and> 0 < h \<and> x + w \<le> dw \<and> y + h \<le> dh \<and>
    wx \<le> dx + x \<and> dx + x + w \<le> wx + ww \<and> wy \<le> dy + y \<and> dy + y + h \<le> wy + wh"
  using assms by (auto simp: Let_def split: if_splits)

subsection \<open>The writer thread\<close>

record 'f video_frame =
  vf_buffer :: 'f
  vf_width :: nat
  vf_height :: nat

text \<open>The answers that come with a frame: for building the writer, for the sample, and the HLS deliveries.\<close>

record frame_env =
  ev_setup :: av_setup
  ev_parent :: "string option"
  ev_dir :: "string option"
  ev_remove :: "string option"
  ev_reply :: av_reply
  ev_during :: "segment list"

record audio_env =
  ax_setup :: av_setup
  ax_parent :: "string option"
  ax_dir :: "string option"
  ax_remove :: "string option"
  ax_media :: core_media
  ax_reply :: av_reply
  ax_during :: "segment list"

datatype ('f, 'a) writer_message =
    FrameMessage "'f video_frame" frame_timing frame_env
  | AudioMessage "'a audio_packet" frame_timing audio_env
  | FinishMessage

datatype ('f, 'a) any_writer = Mp4W "('f, 'a) video_writer" | HlsW "('f, 'a) hls_writer"

record write_config =
  wc_output :: string
  wc_format :: recording_format
  wc_system_audio :: bool
  wc_bundle_audio :: "string option"

record ('f, 'a) write_state =
  ws_writer :: "('f, 'a) any_writer option"
  ws_audio :: "'a audio_writer option"
  ws_first :: "frame_timing option"
  ws_first_audio :: "frame_timing option"
  ws_disk :: Asset_Writers.disk

definition start_writing :: "Asset_Writers.disk \<Rightarrow> ('f, 'a) write_state" where
  "start_writing d = \<lparr>ws_writer = None, ws_audio = None, ws_first = None, ws_first_audio = None, ws_disk = d\<rparr>"

text \<open>An HLS writer keeps the disk it writes to.\<close>

definition current_disk :: "('f, 'a) write_state \<Rightarrow> Asset_Writers.disk" where
  "current_disk st = (case ws_writer st of Some (HlsW w) \<Rightarrow> hw_disk w | _ \<Rightarrow> ws_disk st)"

definition set_disk :: "Asset_Writers.disk \<Rightarrow> ('f, 'a) write_state \<Rightarrow> ('f, 'a) write_state" where
  "set_disk d st =
     (case ws_writer st of
        Some (HlsW w) \<Rightarrow> st\<lparr>ws_writer := Some (HlsW (w\<lparr>hw_disk := d\<rparr>))\<rparr>
      | _ \<Rightarrow> st\<lparr>ws_disk := d\<rparr>)"

definition writer_options_of :: "write_config \<Rightarrow> 'f video_frame \<Rightarrow> av_setup \<Rightarrow> writer_options" where
  "writer_options_of cfg f su =
     (if wc_format cfg = FormatMp4
      then options_color su (Some (mp4_bitrate (vf_width f) (vf_height f) 60)) (wc_system_audio cfg)
      else options_color su None False)"

text \<open>A state and a result: \<open>?\<close> on the result, then a function of both.\<close>

fun result_then :: "'w \<times> ('e + 'b) \<Rightarrow> ('w \<Rightarrow> 'b \<Rightarrow> 'c) \<Rightarrow> 'e + 'c" where
  "result_then (w, Inl e) f = Inl e"
| "result_then (w, Inr b) f = Inr (f w b)"

lemma result_then_Inr [simp]: "result_then p f = Inr y \<longleftrightarrow> (\<exists>w b. p = (w, Inr b) \<and> y = f w b)"
  by (cases "(p, f)" rule: result_then.cases) auto

definition make_writer ::
    "write_config \<Rightarrow> 'f video_frame \<Rightarrow> frame_env \<Rightarrow> Asset_Writers.disk \<Rightarrow>
     Asset_Writers.disk \<times> (writer_error + ('f, 'a) any_writer)" where
  "make_writer cfg f env d =
     (if wc_format cfg = FormatHls
      then (case hls_new (ev_setup env) (wc_output cfg) (ev_dir env) (vf_width f) (vf_height f) 60 2000000000
                (wc_system_audio cfg) d of (d1, r) \<Rightarrow> (d1, map_ok HlsW r))
      else (case mp4_new (ev_setup env) (writer_options_of cfg f (ev_setup env)) (wc_output cfg) (ev_parent env)
                (ev_dir env) (ev_remove env) (vf_width f) (vf_height f) 60 d of (d1, r) \<Rightarrow> (d1, map_ok Mp4W r)))"

definition ensure_writer ::
    "write_config \<Rightarrow> 'f video_frame \<Rightarrow> frame_env \<Rightarrow> ('f, 'a) write_state \<Rightarrow>
     writer_error + (('f, 'a) write_state \<times> ('f, 'a) any_writer)" where
  "ensure_writer cfg f env st =
     (case ws_writer st of
        Some w \<Rightarrow> Inr (st, w)
      | None \<Rightarrow>
          result_then (make_writer cfg f env (ws_disk st)) (\<lambda>d w. (st\<lparr>ws_disk := d, ws_writer := Some w\<rparr>, w)))"

fun append_frame ::
    "'f video_frame \<Rightarrow> duration \<Rightarrow> frame_env \<Rightarrow> ('f, 'a) any_writer \<Rightarrow> ('f, 'a) any_writer \<times> (writer_error + bool)" where
  "append_frame f t env (Mp4W w) =
     (case mp4_append (vf_buffer f) t (ev_reply env) w of (w', r) \<Rightarrow> (Mp4W w', r))"
| "append_frame f t env (HlsW w) =
     (case hls_append (vf_buffer f) t (ev_reply env) (ev_during env) w of (w', r) \<Rightarrow> (HlsW w', r))"

text \<open>\<open>Option::get_or_insert\<close>.\<close>

definition get_or_insert :: "'a option \<Rightarrow> 'a \<Rightarrow> 'a option" where
  "get_or_insert x y = (case x of None \<Rightarrow> Some y | Some z \<Rightarrow> Some z)"

definition write_frame ::
    "write_config \<Rightarrow> 'f video_frame \<Rightarrow> frame_timing \<Rightarrow> frame_env \<Rightarrow> ('f, 'a) write_state \<Rightarrow>
     writer_error + ('f, 'a) write_state" where
  "write_frame cfg f timing env st =
     and_then (ensure_writer cfg f env st) (\<lambda>(st1, w).
       result_then (append_frame f (writer_timestamp timing) env w) (\<lambda>w' appended.
         st1\<lparr>ws_writer := Some w',
           ws_first := (if appended then get_or_insert (ws_first st1) timing else ws_first st1)\<rparr>))"

definition ensure_audio ::
    "string \<Rightarrow> audio_env \<Rightarrow> ('f, 'a) write_state \<Rightarrow> writer_error + (('f, 'a) write_state \<times> 'a audio_writer)" where
  "ensure_audio path env st =
     (case ws_audio st of
        Some w \<Rightarrow> Inr (st, w)
      | None \<Rightarrow>
          result_then (audio_writer_new (ax_setup env) path (ax_parent env) (ax_dir env) (ax_remove env) (current_disk st))
            (\<lambda>d w. ((set_disk d st)\<lparr>ws_audio := Some w\<rparr>, w)))"

definition write_bundle_audio ::
    "string \<Rightarrow> 'a audio_packet \<Rightarrow> frame_timing \<Rightarrow> audio_env \<Rightarrow> ('f, 'a) write_state \<Rightarrow>
     writer_error + ('f, 'a) write_state" where
  "write_bundle_audio path p timing env st =
     and_then (ensure_audio path env st) (\<lambda>(st1, w).
       result_then (audio_append (ax_media env) p (writer_timestamp timing) (ax_reply env) w) (\<lambda>w' appended.
         st1\<lparr>ws_audio := Some w',
           ws_first_audio := (if appended then get_or_insert (ws_first_audio st1) timing
                              else ws_first_audio st1)\<rparr>))"

definition write_track_audio ::
    "'a audio_packet \<Rightarrow> frame_timing \<Rightarrow> audio_env \<Rightarrow> ('f, 'a) write_state \<Rightarrow> writer_error + ('f, 'a) write_state" where
  "write_track_audio p timing env st =
     (case ws_writer st of
        None \<Rightarrow> Inr st
      | Some (Mp4W w) \<Rightarrow>
          result_then (mp4_append_audio (ax_media env) p (writer_timestamp timing) (ax_reply env) w)
            (\<lambda>w' b. st\<lparr>ws_writer := Some (Mp4W w')\<rparr>)
      | Some (HlsW w) \<Rightarrow>
          result_then (hls_append_audio (ax_media env) p (writer_timestamp timing) (ax_reply env) (ax_during env) w)
            (\<lambda>w' b. st\<lparr>ws_writer := Some (HlsW w')\<rparr>))"

text \<open>The loop ends at \<open>Finish\<close> or when the channel is closed.\<close>

fun write_loop ::
    "write_config \<Rightarrow> ('f, 'a) writer_message list \<Rightarrow> ('f, 'a) write_state \<Rightarrow> writer_error + ('f, 'a) write_state" where
  "write_loop cfg [] st = Inr st"
| "write_loop cfg (FrameMessage f timing env # ms) st =
     and_then (write_frame cfg f timing env st) (write_loop cfg ms)"
| "write_loop cfg (AudioMessage p timing env # ms) st =
     and_then (case wc_bundle_audio cfg of
         Some path \<Rightarrow> write_bundle_audio path p timing env st
       | None \<Rightarrow> write_track_audio p timing env st) (write_loop cfg ms)"
| "write_loop cfg (FinishMessage # ms) st = Inr st"

record finish_env =
  fe_video :: finish_reply
  fe_audio :: finish_reply
  fe_during :: "segment list"
  fe_tmp :: write_reply
  fe_rename :: "string option"

fun finish_writer :: "finish_env \<Rightarrow> ('f, 'a) any_writer \<Rightarrow> ('f, 'a) any_writer \<times> (writer_error + unit)" where
  "finish_writer env (Mp4W w) = (case mp4_finish (fe_video env) w of (w', r) \<Rightarrow> (Mp4W w', r))"
| "finish_writer env (HlsW w) =
     (case hls_finish (fe_video env) (fe_during env) (fe_tmp env) (fe_rename env) w of (w', r) \<Rightarrow> (HlsW w', r))"

record ('f, 'a) write_result =
  wr_screen_first :: frame_timing
  wr_audio_first :: "frame_timing option"
  wr_writer :: "('f, 'a) any_writer"
  wr_audio :: "'a audio_writer option"

text \<open>The writers are part of the result for the specification; the code drops them.\<close>

definition write_end ::
    "write_config \<Rightarrow> finish_env \<Rightarrow> ('f, 'a) write_state \<Rightarrow> writer_error + ('f, 'a) write_result" where
  "write_end cfg env st =
     and_then (ok_or (ws_writer st) NoFrames) (\<lambda>w.
     and_then (result_then (finish_writer env w) (\<lambda>w' u. w')) (\<lambda>w'.
     and_then (if wc_bundle_audio cfg = None then Inr (ws_audio st)
       else and_then (ok_or (ws_audio st) NoFrames) (\<lambda>a.
         result_then (audio_finish (fe_audio env) a) (\<lambda>a' u. Some a'))) (\<lambda>audio.
     and_then (ok_or (ws_first st) NoFrames) (\<lambda>first.
     Inr \<lparr>wr_screen_first = first, wr_audio_first = ws_first_audio st, wr_writer = w', wr_audio = audio\<rparr>))))"

definition write_frames ::
    "write_config \<Rightarrow> finish_env \<Rightarrow> ('f, 'a) writer_message list \<Rightarrow> Asset_Writers.disk \<Rightarrow>
     writer_error + ('f, 'a) write_result" where
  "write_frames cfg env ms d = and_then (write_loop cfg ms (start_writing d)) (write_end cfg env)"

subsection \<open>The first frame starts the file\<close>

fun any_start :: "('f, 'a) any_writer \<Rightarrow> int option" where
  "any_start (Mp4W w) = vw_start w"
| "any_start (HlsW w) = vw_start w"

definition file_start :: "('f, 'a) write_state \<Rightarrow> int option" where
  "file_start st = (case ws_writer st of None \<Rightarrow> None | Some w \<Rightarrow> any_start w)"

text \<open>The recorded first timing is the one whose timestamp started the session.\<close>

definition starts_at :: "frame_timing option \<Rightarrow> int option \<Rightarrow> bool" where
  "starts_at first start =
     (case first of
        None \<Rightarrow> start = None
      | Some t \<Rightarrow> (\<exists>m. start = Some m \<and> micros_i64 (writer_timestamp t) = Inr m))"

definition write_inv :: "('f, 'a) write_state \<Rightarrow> bool" where
  "write_inv st \<longleftrightarrow>
     starts_at (ws_first st) (file_start st) \<and>
     starts_at (ws_first_audio st) (case ws_audio st of None \<Rightarrow> None | Some a \<Rightarrow> aw_start a) \<and>
     (\<forall>a. ws_audio st = Some a \<longrightarrow> \<not> aw_finished a \<and> (aw_start a = None \<longrightarrow> aw_end a = None))"

definition appended_start :: "bool \<Rightarrow> duration \<Rightarrow> int option \<Rightarrow> int option \<Rightarrow> bool" where
  "appended_start b d before after =
     (if b then \<exists>t. micros_i64 d = Inr t \<and> after = Some (unwrap_or before t) else after = before)"

lemma starts_at_step:
  assumes "starts_at first before" "appended_start b (writer_timestamp t) before after"
  shows "starts_at (if b then get_or_insert first t else first) after"
  using assms by (auto simp: starts_at_def appended_start_def get_or_insert_def split: option.splits if_splits)

lemma mp4_append_start:
  "mp4_append f d reply w = (w', Inr b) \<Longrightarrow> appended_start b d (vw_start w) (vw_start w')"
  by (auto simp: mp4_append_def appended_start_def call_simps
      split: if_splits sum.splits option.splits)

lemma truncate_start: "video_writer.truncate w = video_writer.truncate w' \<Longrightarrow> vw_start w = vw_start w'"
  by (simp add: video_writer.truncate_def)

lemma deliver_start [simp]: "vw_start (deliver gs w) = vw_start w"
  by (rule truncate_start) simp

lemma hls_append_start:
  "hls_append f d reply gs w = (w', Inr b) \<Longrightarrow> appended_start b d (vw_start w) (vw_start w')"
  by (cases "av_ready reply"; cases "av_accepts reply"; cases "check_error w"; cases "micros_i64 d")
    (auto simp: hls_append_def after_sample_def hls_put_frame_def appended_start_def call_simps
      split: sum.splits bool.splits)

lemma audio_append_start:
  assumes "audio_append md p d reply w = (w', Inr b)"
  shows "appended_start b d (aw_start w) (aw_start w')" "aw_finished w' = aw_finished w"
    "(aw_start w = None \<longrightarrow> aw_end w = None) \<Longrightarrow> (aw_start w' = None \<longrightarrow> aw_end w' = None)"
  using assms
  by (auto simp: audio_append_def appended_start_def Let_def split: if_splits sum.splits)

lemma mp4_audio_start: "mp4_append_audio md p d reply w = (w', r) \<Longrightarrow> vw_start w' = vw_start w"
  by (auto simp: mp4_append_audio_def call_simps split: if_splits sum.splits option.splits)

lemma hls_audio_start: "hls_append_audio md p d reply gs w = (w', r) \<Longrightarrow> vw_start w' = vw_start w"
  by (auto simp: hls_append_audio_def after_sample_def hls_put_audio_def call_simps
      split: if_splits sum.splits option.splits)

lemma make_writer_start: "make_writer cfg f env d = (d', Inr w) \<Longrightarrow> any_start w = None"
  by (auto simp: make_writer_def hls_new_def hls_setup_def mp4_new_def writer_setup_def
      split: if_splits prod.splits sum.splits)

lemma audio_new_start:
  "audio_writer_new su path parent r1 r2 d = (d', Inr w) \<Longrightarrow> aw_start w = None \<and> aw_end w = None \<and> \<not> aw_finished w"
  by (auto simp: audio_writer_new_def audio_writer_setup_def split: prod.splits sum.splits)

lemma append_frame_start:
  "append_frame f d env w = (w', Inr b) \<Longrightarrow> appended_start b d (any_start w) (any_start w')"
  by (cases w) (auto split: prod.splits dest: mp4_append_start hls_append_start)

lemma ensure_writer_start:
  assumes "ensure_writer cfg f env st = Inr (st', w)" "write_inv st"
  shows "write_inv st' \<and> ws_writer st' = Some w"
  using assms
  by (auto simp: ensure_writer_def write_inv_def file_start_def split: option.splits dest: make_writer_start)

lemma write_frame_keeps:
  assumes "write_frame cfg f t env st = Inr st'" "write_inv st"
  shows "write_inv st'"
proof -
  from assms(1) obtain st1 w w' b where e: "ensure_writer cfg f env st = Inr (st1, w)"
    and a: "append_frame f (writer_timestamp t) env w = (w', Inr b)"
    and st': "st' = st1\<lparr>ws_writer := Some w',
      ws_first := (if b then get_or_insert (ws_first st1) t else ws_first st1)\<rparr>"
    by (auto simp: write_frame_def)
  from ensure_writer_start [OF e assms(2)] have inv: "write_inv st1" "ws_writer st1 = Some w" by auto
  then have "starts_at (ws_first st1) (any_start w)" by (simp add: write_inv_def file_start_def)
  from starts_at_step [OF this append_frame_start [OF a]] inv show ?thesis
    by (simp add: write_inv_def file_start_def st')
qed

lemma set_disk_start:
  "file_start (set_disk d st) = file_start st"
  "ws_first (set_disk d st) = ws_first st" "ws_first_audio (set_disk d st) = ws_first_audio st"
  "ws_audio (set_disk d st) = ws_audio st"
  by (auto simp: set_disk_def file_start_def split: option.splits any_writer.splits)

lemma file_start_audio [simp]: "file_start (st\<lparr>ws_audio := a\<rparr>) = file_start st"
  "file_start (st\<lparr>ws_first_audio := t\<rparr>) = file_start st"
  by (simp_all add: file_start_def)

lemma ensure_audio_start:
  assumes "ensure_audio path env st = Inr (st', w)" "write_inv st"
  shows "write_inv st' \<and> ws_audio st' = Some w"
  using assms
  by (auto simp: ensure_audio_def write_inv_def set_disk_start split: option.splits dest: audio_new_start)

lemma write_bundle_audio_keeps:
  assumes "write_bundle_audio path p t env st = Inr st'" "write_inv st"
  shows "write_inv st'"
proof -
  from assms(1) obtain st1 w w' b where e: "ensure_audio path env st = Inr (st1, w)"
    and a: "audio_append (ax_media env) p (writer_timestamp t) (ax_reply env) w = (w', Inr b)"
    and st': "st' = st1\<lparr>ws_audio := Some w',
      ws_first_audio := (if b then get_or_insert (ws_first_audio st1) t else ws_first_audio st1)\<rparr>"
    by (auto simp: write_bundle_audio_def)
  from ensure_audio_start [OF e assms(2)] have inv: "write_inv st1" "ws_audio st1 = Some w" by auto
  then have "starts_at (ws_first_audio st1) (aw_start w)" by (simp add: write_inv_def)
  from starts_at_step [OF this audio_append_start(1) [OF a]] audio_append_start(2,3) [OF a] inv show ?thesis
    by (simp add: write_inv_def st')
qed

lemma write_track_audio_keeps:
  assumes "write_track_audio p t env st = Inr st'" "write_inv st"
  shows "write_inv st'"
  using assms
  by (auto simp: write_track_audio_def write_inv_def file_start_def split: option.splits any_writer.splits
      dest!: mp4_audio_start hls_audio_start)

lemma write_loop_keeps: "write_loop cfg ms st = Inr st' \<Longrightarrow> write_inv st \<Longrightarrow> write_inv st'"
proof (induction cfg ms st rule: write_loop.induct)
  case (2 cfg f t env ms st)
  then show ?case using write_frame_keeps by fastforce
next
  case (3 cfg p t env ms st)
  then show ?case
    using write_bundle_audio_keeps write_track_audio_keeps by (fastforce split: option.splits)
qed simp_all

lemma finish_playlist_start [simp]: "vw_start (fst (finish_playlist t r w)) = vw_start w"
  by (rule truncate_start) simp

lemma finish_any_start: "finish_writer env w = (w', r) \<Longrightarrow> any_start w' = any_start w"
proof (cases w)
  case (Mp4W v)
  assume "finish_writer env w = (w', r)"
  with Mp4W show ?thesis
    by (auto simp: mp4_finish_def call_simps split: if_splits sum.splits prod.splits)
next
  case (HlsW v)
  assume f: "finish_writer env w = (w', r)"
  have "vw_start (fst (hls_finish (fe_video env) (fe_during env) (fe_tmp env) (fe_rename env) v)) = vw_start v"
    using hls_finish_cases [of "fe_video env" "fe_during env" "fe_tmp env" "fe_rename env" v]
    by (auto simp: call_def end_calls_shape)
  with f HlsW show ?thesis by (auto split: prod.splits)
qed

lemma audio_finish_start:
  assumes "audio_finish reply a = (a', Inr u)" "\<not> aw_finished a"
  shows "aw_start a' = aw_start a \<and> aw_end a \<noteq> None"
  using assms by (auto simp: audio_finish_def Let_def split: option.splits sum.splits)

lemma write_frames_starts:
  assumes "write_frames cfg env ms d = Inr r"
  shows "\<exists>m. any_start (wr_writer r) = Some m \<and> micros_i64 (writer_timestamp (wr_screen_first r)) = Inr m"
    "wc_bundle_audio cfg \<noteq> None \<Longrightarrow> \<exists>t a m. wr_audio_first r = Some t \<and> wr_audio r = Some a \<and>
      aw_start a = Some m \<and> micros_i64 (writer_timestamp t) = Inr m"
proof -
  from assms obtain st where l: "write_loop cfg ms (start_writing d) = Inr st" and e: "write_end cfg env st = Inr r"
    by (auto simp: write_frames_def)
  have "write_inv (start_writing d)" by (simp add: write_inv_def starts_at_def start_writing_def file_start_def)
  from write_loop_keeps [OF l this] have inv: "write_inv st" .
  from e obtain w w' u audio first where w: "ws_writer st = Some w" and f: "finish_writer env w = (w', Inr u)"
    and first: "ws_first st = Some first"
    and audio: "(if wc_bundle_audio cfg = None then Inr (ws_audio st)
       else and_then (ok_or (ws_audio st) NoFrames) (\<lambda>a.
         result_then (audio_finish (fe_audio env) a) (\<lambda>a' u. Some a'))) = Inr audio"
    and r: "r = \<lparr>wr_screen_first = first, wr_audio_first = ws_first_audio st, wr_writer = w', wr_audio = audio\<rparr>"
    by (auto simp: write_end_def)
  from inv w first finish_any_start [OF f]
  show "\<exists>m. any_start (wr_writer r) = Some m \<and> micros_i64 (writer_timestamp (wr_screen_first r)) = Inr m"
    by (auto simp: r write_inv_def starts_at_def file_start_def)
  assume "wc_bundle_audio cfg \<noteq> None"
  with audio obtain a a' v where a: "ws_audio st = Some a" "audio_finish (fe_audio env) a = (a', Inr v)" "audio = Some a'"
    by auto
  from inv a(1) have "\<not> aw_finished a" "aw_start a = None \<longrightarrow> aw_end a = None"
    and s: "starts_at (ws_first_audio st) (aw_start a)" by (auto simp: write_inv_def)
  with audio_finish_start [OF a(2)] have "aw_start a' = aw_start a" "aw_start a \<noteq> None" by auto
  with s a(3) show "\<exists>t a m. wr_audio_first r = Some t \<and> wr_audio r = Some a \<and>
      aw_start a = Some m \<and> micros_i64 (writer_timestamp t) = Inr m"
    by (auto simp: r starts_at_def split: option.splits)
qed

lemma micros_near: "micros_i64 d = Inr m \<Longrightarrow> \<bar>as_secs_f64 d * 1000000 - of_int m\<bar> < 1 \<and> of_int m \<le> as_secs_f64 d * 1000000"
proof -
  assume "micros_i64 d = Inr m"
  then have m: "m = int (d div 1000)" by (auto simp: micros_i64_def checked_signed_def as_micros_def split: if_splits)
  have "real (d div 1000) * 1000 \<le> real d" "real d < real (d div 1000) * 1000 + 1000"
    using div_mult_mod_eq [of d 1000] mod_less_divisor [of 1000 d] by linarith+
  then show ?thesis by (simp add: m as_secs_f64_def)
qed

lemma timing_same_clock:
  assumes "(ft_normalized a = None) = (ft_normalized b = None)"
  shows "timing_seconds_since a b = as_secs_f64 (writer_timestamp a) - as_secs_f64 (writer_timestamp b)"
  using assms
  by (auto simp: timing_seconds_since_def writer_timestamp_def signed_seconds_since_def less_eq_frame_timestamp_def
      saturating_sub_def as_secs_f64_def of_nat_diff diff_divide_distrib split: option.splits)

text \<open>
  A bundle's audio is stored with the offset its file has. When the writer thread succeeds, the
  timing it reports for the screen is the one that started the video file's session, and with bundle
  audio the one for the audio is that of the audio file's time zero. The start offset computed from
  them is then the distance of the two files' starts to within a microsecond, whenever both timings
  come from the same clock.
\<close>
theorem write_frames_offset:
  assumes "write_frames cfg env ms d = Inr r" "wc_bundle_audio cfg = Some path"
  shows "\<exists>video audio t a. any_start (wr_writer r) = Some video \<and> wr_audio r = Some a \<and> aw_start a = Some audio \<and>
    wr_audio_first r = Some t \<and>
    ((ft_normalized t = None) = (ft_normalized (wr_screen_first r) = None) \<longrightarrow>
      \<bar>timing_seconds_since t (wr_screen_first r) - of_int (audio - video) / 1000000\<bar> < 1 / 1000000)"
proof -
  from write_frames_starts [OF assms(1)] assms(2) obtain video t a audio where
    v: "any_start (wr_writer r) = Some video" "micros_i64 (writer_timestamp (wr_screen_first r)) = Inr video"
    and a: "wr_audio_first r = Some t" "wr_audio r = Some a" "aw_start a = Some audio"
      "micros_i64 (writer_timestamp t) = Inr audio" by auto
  have "\<bar>timing_seconds_since t (wr_screen_first r) - of_int (audio - video) / 1000000\<bar> < 1 / 1000000"
    if "(ft_normalized t = None) = (ft_normalized (wr_screen_first r) = None)"
    unfolding timing_same_clock [OF that] using micros_near [OF v(2)] micros_near [OF a(4)] by (simp add: field_simps) linarith
  with v a show ?thesis by blast
qed

definition bundle_config :: write_config where
  "bundle_config = \<lparr>wc_output = ''v.mp4'', wc_format = FormatBundle, wc_system_audio = True,
     wc_bundle_audio = Some ''a.m4a''\<rparr>"

definition sample_messages :: "(nat, nat) writer_message list" where
  "sample_messages =
     [FrameMessage \<lparr>vf_buffer = 1, vf_width = 640, vf_height = 480\<rparr>
        \<lparr>ft_normalized = Some (FrameTimestamp 5000000), ft_fallback = 0\<rparr>
        \<lparr>ev_setup = ready_setup, ev_parent = None, ev_dir = None, ev_remove = None, ev_reply = taken, ev_during = []\<rparr>,
      AudioMessage two_frames \<lparr>ft_normalized = Some (FrameTimestamp 7000400), ft_fallback = 0\<rparr>
        \<lparr>ax_setup = ready_setup, ax_parent = None, ax_dir = None, ax_remove = None, ax_media = media_ok,
         ax_reply = taken, ax_during = []\<rparr>,
      FinishMessage]"

definition sample_end_env :: finish_env where
  "sample_end_env = \<lparr>fe_video = finished_ok, fe_audio = finished_ok, fe_during = [], fe_tmp = Written, fe_rename = None\<rparr>"

lemma sample_mp4_new:
  "\<exists>w. make_writer bundle_config \<lparr>vf_buffer = (1 :: nat), vf_width = 640, vf_height = 480\<rparr>
     \<lparr>ev_setup = ready_setup, ev_parent = None, ev_dir = None, ev_remove = None, ev_reply = taken, ev_during = []\<rparr> no_files
     = (no_files, Inr (Mp4W w)) \<and> vw_start w = None \<and> vw_last w = None \<and> \<not> vw_finished w \<and> vw_frame_duration w = 16666666"
  by (simp add: make_writer_def bundle_config_def writer_options_of_def options_color_def mp4_new_def
      frame_duration_of_def checked_div_def nanos_per_sec_def prepare_output_def no_files_def writer_setup_def
      guard_err_def ready_setup_def require_def video_settings_def nested_def add_audio_input_def
      rec709_color_properties_def color_settings_def color_entry_def)

lemma sample_frame:
  assumes "vw_start w = None" "vw_last w = None" "\<not> vw_finished w" "vw_frame_duration w = 16666666"
  shows "\<exists>w1. mp4_append f 5000000 taken w = (w1, Inr True) \<and> \<not> vw_finished w1 \<and>
    vw_frame_duration w1 = 16666666 \<and> vw_last w1 = Some 0 \<and> vw_start w1 = Some 5000"
  using assms
  by (simp add: mp4_append_def taken_def micros_i64_def checked_signed_def in_signed_def as_micros_def
      next_relative_def call_simps)

lemma sample_packet:
  "\<exists>a. audio_append media_ok two_frames 7000400 taken plain_audio = (a, Inr True) \<and> \<not> aw_finished a \<and> aw_end a = Some 41"
  by (simp add: audio_append_def taken_def micros_i64_def checked_signed_def in_signed_def as_micros_def
      audio_relative_def audio_sample_buffer_def two_frames_def media_ok_def frame_count_def rust_arith width_defs
      audio_end_def packet_micros_def Let_def plain_audio_def)

lemma sample_mp4_finish:
  assumes "\<not> vw_finished w" "vw_frame_duration w = 16666666" "vw_last w = Some 0" "vw_start w = Some 5000"
  shows "\<exists>w1. mp4_finish finished_ok w = (w1, Inr ())"
  using assms
  by (simp add: mp4_finish_def mp4_end_time_def end_after_def finish_result_def finished_ok_def call_simps
      as_micros_def checked_signed_def in_signed_def micros_i64_def)

lemma sample_audio_finish:
  assumes "\<not> aw_finished a" "aw_end a = Some e"
  shows "\<exists>a1. audio_finish finished_ok a = (a1, Inr ())"
  using assms by (simp add: audio_finish_def finish_result_def finished_ok_def Let_def)

lemma sample_write: "\<exists>r. write_frames bundle_config sample_end_env sample_messages no_files = Inr r"
proof -
  obtain w :: "(nat, nat) video_writer" where
    w: "make_writer bundle_config \<lparr>vf_buffer = (1 :: nat), vf_width = 640, vf_height = 480\<rparr>
     \<lparr>ev_setup = ready_setup, ev_parent = None, ev_dir = None, ev_remove = None, ev_reply = taken, ev_during = []\<rparr> no_files
     = (no_files, Inr (Mp4W w))" "vw_start w = None" "vw_last w = None" "\<not> vw_finished w" "vw_frame_duration w = 16666666"
    using sample_mp4_new by blast
  obtain w1 where w1: "mp4_append (1 :: nat) 5000000 taken w = (w1, Inr True)" "\<not> vw_finished w1"
    "vw_frame_duration w1 = 16666666" "vw_last w1 = Some 0" "vw_start w1 = Some 5000" using sample_frame [OF w(2-5)] by blast
  obtain a where a: "audio_append media_ok two_frames 7000400 taken plain_audio = (a, Inr True)" "\<not> aw_finished a"
    "aw_end a = Some 41" using sample_packet by blast
  obtain w2 where w2: "mp4_finish finished_ok w1 = (w2, Inr ())" using sample_mp4_finish [OF w1(2-5)] by blast
  obtain a2 where a2: "audio_finish finished_ok a = (a2, Inr ())" using sample_audio_finish [OF a(2,3)] by blast
  have cfg: "wc_bundle_audio bundle_config = Some ''a.m4a''" by (simp add: bundle_config_def)
  show ?thesis
    by (simp del: result_then_Inr One_nat_def add: write_frames_def sample_messages_def start_writing_def write_frame_def
        ensure_writer_def w(1) w1(1) w2 a(1) a2 cfg writer_timestamp_def write_bundle_audio_def ensure_audio_def
        current_disk_def set_disk_def plain_audio_new write_end_def sample_end_env_def get_or_insert_def)
qed

theorem write_frames_offset_witness:
  "\<exists>r a. write_frames bundle_config sample_end_env sample_messages no_files = Inr r \<and> wr_audio r = Some a
     \<and> aw_start a \<noteq> None"
proof -
  obtain r where r: "write_frames bundle_config sample_end_env sample_messages no_files = Inr r"
    using sample_write by blast
  have "wc_bundle_audio bundle_config = Some ''a.m4a''" by (simp add: bundle_config_def)
  from write_frames_offset [OF r this] r show ?thesis by auto
qed

subsection \<open>The camera's writer thread\<close>

text \<open>
  What the loop sees on each turn: the stop flag, a timeout, the end of the channel, or a frame with
  the time since the recording started (none for a frame captured before).
\<close>

datatype 'f camera_event =
    CameraStop
  | CameraTimeout
  | CameraDisconnected
  | CameraFrame "'f video_frame" "duration option" "frame_timestamp option" frame_env

definition camera_frame ::
    "string \<Rightarrow> 'f video_frame \<Rightarrow> frame_timing \<Rightarrow> frame_env \<Rightarrow> ('f, 'a) write_state \<Rightarrow>
     writer_error + ('f, 'a) write_state" where
  "camera_frame path f timing env st =
     and_then (case ws_writer st of
         Some w \<Rightarrow> Inr (st, w)
       | None \<Rightarrow>
           result_then (mp4_new (ev_setup env) (options_color (ev_setup env) None False) path (ev_parent env)
               (ev_dir env) (ev_remove env) (vf_width f) (vf_height f) 30 (ws_disk st))
             (\<lambda>d w. (st\<lparr>ws_disk := d, ws_writer := Some (Mp4W w)\<rparr>, Mp4W w))) (\<lambda>(st1, w).
       result_then (append_frame f (writer_timestamp timing) env w) (\<lambda>w' appended.
         st1\<lparr>ws_writer := Some w',
           ws_first := (if appended then get_or_insert (ws_first st1) timing else ws_first st1)\<rparr>))"

fun camera_loop ::
    "string \<Rightarrow> 'f camera_event list \<Rightarrow> ('f, 'a) write_state \<Rightarrow> writer_error + ('f, 'a) write_state" where
  "camera_loop path [] st = Inr st"
| "camera_loop path (CameraStop # es) st = Inr st"
| "camera_loop path (CameraTimeout # es) st = camera_loop path es st"
| "camera_loop path (CameraDisconnected # es) st = Inr st"
| "camera_loop path (CameraFrame f None stamp env # es) st = camera_loop path es st"
| "camera_loop path (CameraFrame f (Some fallback) stamp env # es) st =
     and_then (camera_frame path f \<lparr>ft_normalized = stamp, ft_fallback = fallback\<rparr> env st) (camera_loop path es)"

definition write_camera_frames ::
    "string \<Rightarrow> finish_env \<Rightarrow> 'f camera_event list \<Rightarrow> Asset_Writers.disk \<Rightarrow>
     writer_error + (frame_timing \<times> ('f, unit) any_writer)" where
  "write_camera_frames path env es d =
     and_then (camera_loop path es (start_writing d)) (\<lambda>st.
     and_then (ok_or (ws_writer st) NoFrames) (\<lambda>w.
     and_then (result_then (finish_writer env w) (\<lambda>w' u. w')) (\<lambda>w'.
     and_then (ok_or (ws_first st) NoFrames) (\<lambda>first. Inr (first, w')))))"

lemma camera_frame_keeps:
  assumes "camera_frame path f t env st = Inr st'" "write_inv st"
  shows "write_inv st'"
proof -
  from assms(1) obtain st1 w w' b where
    e: "(case ws_writer st of
         Some w \<Rightarrow> Inr (st, w)
       | None \<Rightarrow>
           result_then (mp4_new (ev_setup env) (options_color (ev_setup env) None False) path (ev_parent env)
               (ev_dir env) (ev_remove env) (vf_width f) (vf_height f) 30 (ws_disk st))
             (\<lambda>d w. (st\<lparr>ws_disk := d, ws_writer := Some (Mp4W w)\<rparr>, Mp4W w))) = Inr (st1, w)"
    and a: "append_frame f (writer_timestamp t) env w = (w', Inr b)"
    and st': "st' = st1\<lparr>ws_writer := Some w',
      ws_first := (if b then get_or_insert (ws_first st1) t else ws_first st1)\<rparr>"
    by (auto simp: camera_frame_def)
  have start: "vw_start v = None" if "mp4_new su opts p pa r1 r2 x y fps d = (d', Inr v)" for su opts p pa r1 r2 x y fps d d' v
    using that by (auto simp: mp4_new_def writer_setup_def split: if_splits prod.splits sum.splits)
  have inv: "write_inv st1 \<and> ws_writer st1 = Some w"
    using e assms(2) by (auto simp: write_inv_def file_start_def split: option.splits dest!: start)
  then have w: "write_inv st1" "ws_writer st1 = Some w" by auto
  then have "starts_at (ws_first st1) (any_start w)" by (simp add: write_inv_def file_start_def)
  from starts_at_step [OF this append_frame_start [OF a]] w show ?thesis
    by (simp add: write_inv_def file_start_def st')
qed

lemma camera_loop_keeps: "camera_loop path es st = Inr st' \<Longrightarrow> write_inv st \<Longrightarrow> write_inv st'"
  by (induction path es st rule: camera_loop.induct) (auto dest: camera_frame_keeps)

lemma write_camera_starts:
  assumes "write_camera_frames path env es d = Inr (t, w)"
  shows "\<exists>m. any_start w = Some m \<and> micros_i64 (writer_timestamp t) = Inr m"
proof -
  from assms obtain st v u where l: "camera_loop path es (start_writing d) = Inr st" and v: "ws_writer st = Some v"
    and f: "finish_writer env v = (w, Inr u)" and t: "ws_first st = Some t"
    by (auto simp: write_camera_frames_def)
  have "write_inv (start_writing d)" by (simp add: write_inv_def starts_at_def start_writing_def file_start_def)
  from camera_loop_keeps [OF l this] v t finish_any_start [OF f] show ?thesis
    by (auto simp: write_inv_def starts_at_def file_start_def)
qed

end
