(* ===== verification/Recording_Thread.thy ===== *)
theory Recording_Thread
  imports Recording
begin

section \<open>The recording thread (apps/blip-capture/src/recording.rs)\<close>

text \<open>
  \<open>spawn\<close>, \<open>record\<close> and \<open>spawn_hls_upload\<close>. What the operating system, ScreenCaptureKit and the other
  threads answer is a record of replies; the writers, the bundle and the uploads are those of the
  other theories. What the thread does outside itself is a list of actions: the events it sends, the
  files it removes and the last message of the uploader.
\<close>

subsection \<open>Recording\<close>

datatype message =
    Text string
  | WriterMessageText writer_error
  | CaptureMessageText capture_error
  | BundleMessageText bundle_error
  | KeptAt string string

datatype recording_event =
    RecordingStarted
  | RecordingUploading
  | RecordingFinished string "string option"
  | RecordingFailed message

text \<open>A thread that is joined has panicked or returned.\<close>

datatype 'r joined = Panicked | Returned 'r

fun join_thread :: "string \<Rightarrow> ('e \<Rightarrow> message) \<Rightarrow> ('e + 'b) joined \<Rightarrow> message + 'b" where
  "join_thread panic show_error Panicked = Inl (Text panic)"
| "join_thread panic show_error (Returned r) = map_err show_error r"

record bundle_input_file =
  bi_output :: string
  bi_bundle_path :: string

record record_args =
  ar_spec :: capture_spec
  ar_camera_window :: "nat option"
  ar_output :: string
  ar_format :: recording_format
  ar_system_audio :: bool
  ar_bundle_audio :: "bundle_input_file option"
  ar_camera :: "bundle_input_file option"

text \<open>The answers to a recording; an error is \<open>Some\<close> text, or a closed channel.\<close>

record ('f, 'a) record_replies =
  rr_content :: "(string + content) option"
  rr_macos13 :: bool
  rr_info :: filter_info
  rr_pid :: nat
  rr_camera_thread :: "string option"
  rr_writer_thread :: "string option"
  rr_outputs :: "output_type \<Rightarrow> string option"
  rr_start :: "string option option"
  rr_stop_signal :: "string option"
  rr_stop :: "string option option"
  rr_send_finish :: "string option"
  rr_written :: "(writer_error + ('f, 'a) write_result) joined"
  rr_camera :: "(writer_error + frame_timing) joined"

definition answered :: "string option \<Rightarrow> message + unit" where
  "answered r = (case r of None \<Rightarrow> Inr () | Some e \<Rightarrow> Inl (Text e))"

definition store_offset ::
    "'txt json \<Rightarrow> string \<Rightarrow> string \<Rightarrow> real \<Rightarrow> 'txt Bundle.disk \<Rightarrow> message + 'txt Bundle.disk" where
  "store_offset j path input_id secs d =
     map_err BundleMessageText (and_then (load_bundle j d path) (\<lambda>b. snd (set_input_start_offset j d b path input_id secs)))"

definition store_camera_offset ::
    "'txt json \<Rightarrow> bundle_input_file option \<Rightarrow> (writer_error + frame_timing) joined \<Rightarrow> frame_timing \<Rightarrow>
     'txt Bundle.disk \<Rightarrow> message + 'txt Bundle.disk" where
  "store_camera_offset j camera joined screen d =
     (case camera of
        None \<Rightarrow> Inr d
      | Some c \<Rightarrow>
          and_then (join_thread ''camera writer terminated unexpectedly'' WriterMessageText joined)
            (\<lambda>first. store_offset j (bi_bundle_path c) ''camera'' (timing_seconds_since first screen) d))"

definition store_audio_offset ::
    "'txt json \<Rightarrow> bundle_input_file option \<Rightarrow> frame_timing option \<Rightarrow> frame_timing \<Rightarrow>
     'txt Bundle.disk \<Rightarrow> message + 'txt Bundle.disk" where
  "store_audio_offset j audio audio_first screen d =
     (case audio of
        None \<Rightarrow> Inr d
      | Some a \<Rightarrow>
          and_then (ok_or audio_first (Text ''system audio recording contains no samples''))
            (\<lambda>first. store_offset j (bi_bundle_path a) ''system_audio'' (timing_seconds_since first screen) d))"

text \<open>A bundle keeps its own camera track, so its camera window is left out of the capture too.\<close>

definition embedded_camera_window :: "record_args \<Rightarrow> nat option" where
  "embedded_camera_window ar = (if ar_format ar \<noteq> FormatBundle then ar_camera_window ar else None)"

definition capture_config_of :: "record_args \<Rightarrow> rect option \<Rightarrow> stream_config_builder" where
  "capture_config_of ar area =
     (let config = with_system_audio (ar_system_audio ar) (with_color_space Srgb (with_pixel_format Bgra
        (with_queue_depth 8 (with_cursor True (with_fps 60 default_builder)))))
      in case area of
           None \<Rightarrow> config
         | Some (x, y, w, h) \<Rightarrow> with_source_rect (Fin x) (Fin y) (Fin w) (Fin h) config)"

text \<open>Up to the running capture, and from the request to stop it.\<close>

definition record_begin ::
    "(rect \<Rightarrow> rect \<Rightarrow> bool) \<Rightarrow> record_args \<Rightarrow> ('f, 'a) record_replies \<Rightarrow>
     message + (capture_filter \<times> stream_config)" where
  "record_begin intersects ar rr =
     and_then (map_err CaptureMessageText (current_content (rr_content rr))) (\<lambda>content.
     and_then (map_err Text (capture_filter_of intersects (rr_pid rr) content (ar_spec ar) (embedded_camera_window ar)))
       (\<lambda>(f, area).
     and_then (answered (if ar_camera ar = None then None else rr_camera_thread rr)) (\<lambda>_.
     and_then (answered (rr_writer_thread rr)) (\<lambda>_.
     and_then (map_err CaptureMessageText (build_for (rr_macos13 rr) (rr_info rr) (capture_config_of ar area))) (\<lambda>config.
     and_then (map_err CaptureMessageText (add_outputs config True (rr_outputs rr))) (\<lambda>_.
     and_then (map_err CaptureMessageText (capturer_start (rr_start rr))) (\<lambda>_. Inr (f, config))))))))"

definition record_end ::
    "'txt json \<Rightarrow> record_args \<Rightarrow> ('f, 'a) record_replies \<Rightarrow> 'txt Bundle.disk \<Rightarrow> message + 'txt Bundle.disk" where
  "record_end j ar rr d =
     and_then (answered (rr_stop_signal rr)) (\<lambda>_.
     and_then (map_err CaptureMessageText (capturer_stop (rr_stop rr))) (\<lambda>_.
     and_then (answered (rr_send_finish rr)) (\<lambda>_.
     and_then (join_thread ''video writer terminated unexpectedly'' WriterMessageText (rr_written rr)) (\<lambda>written.
     and_then (store_camera_offset j (ar_camera ar) (rr_camera rr) (wr_screen_first written) d) (\<lambda>d1.
     store_audio_offset j (ar_bundle_audio ar) (wr_audio_first written) (wr_screen_first written) d1)))))"

definition record_session ::
    "'txt json \<Rightarrow> (rect \<Rightarrow> rect \<Rightarrow> bool) \<Rightarrow> record_args \<Rightarrow> ('f, 'a) record_replies \<Rightarrow> 'txt Bundle.disk \<Rightarrow>
     recording_event list \<times> (message + 'txt Bundle.disk)" where
  "record_session j intersects ar rr d =
     (case record_begin intersects ar rr of
        Inl e \<Rightarrow> ([], Inl e)
      | Inr _ \<Rightarrow> ([RecordingStarted], record_end j ar rr d))"

subsection \<open>The uploader's thread\<close>

fun event_message :: "run_event \<Rightarrow> upload_message list" where
  "event_message (Receive m) = [m]"
| "event_message _ = []"

definition received :: "run_event list \<Rightarrow> upload_message list" where
  "received es = concat (map event_message es)"

text \<open>
  What the thread of \<open>spawn_hls_upload\<close> can return, given the messages sent to it: the runtime or the
  session cannot be started, or the run ends. The run sees a closed channel only after every message.
\<close>

inductive hls_worker ::
    "http_lib \<Rightarrow> server \<Rightarrow> local_files \<Rightarrow> string \<Rightarrow> string \<Rightarrow> upload_message list \<Rightarrow>
     string + string option \<Rightarrow> string list \<Rightarrow> request list \<Rightarrow> bool"
  for h srv fs out server_url ms where
  runtime_failed: "hls_worker h srv fs out server_url ms (Inl (''failed to start HLS upload runtime: '' @ e)) [] []"
| not_started: "hls_start h srv out server_url [] = (Inl e, lg) \<Longrightarrow>
    hls_worker h srv fs out server_url ms (Inl e) [] lg"
| worker_ran: "hls_start h srv out server_url [] = (Inr u, lg) \<Longrightarrow>
    run_trace h srv fs (start_uploader u lg) es s \<Longrightarrow> (\<exists>later. ms = received es @ later) \<Longrightarrow>
    (Closed \<in> set es \<longrightarrow> received es = ms) \<Longrightarrow> hr_status s = Ended r \<Longrightarrow>
    hls_worker h srv fs out server_url ms r (hr_uploaded s) (hr_log s)"

subsection \<open>The thread\<close>

datatype thread_action =
    Emit recording_event
  | Tell upload_message
  | RemoveTree string
  | RemoveOne string

record thread_args =
  ta_output :: string
  ta_completed :: string
  ta_cleanup :: "string option"
  ta_server :: "string option"
  ta_format :: recording_format

definition incremental :: "thread_args \<Rightarrow> bool" where
  "incremental ta = (ta_format ta = FormatHls \<and> ta_server ta \<noteq> None)"

definition clean_up :: "thread_args \<Rightarrow> thread_action list" where
  "clean_up ta = (case ta_cleanup ta of None \<Rightarrow> [] | Some p \<Rightarrow> [RemoveTree p])"

definition fail_with :: "message \<Rightarrow> thread_action list" where
  "fail_with e = [Emit (RecordingFailed e)]"

definition finish_with :: "thread_args \<Rightarrow> string option \<Rightarrow> thread_action list" where
  "finish_with ta v = [Emit (RecordingFinished (ta_completed ta) v)]"

fun join_worker :: "(string + string option) joined \<Rightarrow> string + string option" where
  "join_worker Panicked = Inl ''HLS upload thread terminated unexpectedly''"
| "join_worker (Returned r) = r"

text \<open>\<open>direct\<close> is the result of \<open>upload\<close>, called only when there is a server and no uploader.\<close>

definition after_recording ::
    "thread_args \<Rightarrow> (string + string option) joined option \<Rightarrow> string + string \<Rightarrow> thread_action list" where
  "after_recording ta worker direct =
     (case map_option join_worker worker of
        Some (Inr v) \<Rightarrow> [RemoveTree (ta_output ta)] @ finish_with ta v
      | Some (Inl e) \<Rightarrow> fail_with (KeptAt e (ta_output ta))
      | None \<Rightarrow>
          (if ta_server ta = None then finish_with ta None
           else case direct of
             Inl e \<Rightarrow> fail_with (KeptAt e (ta_output ta))
           | Inr v \<Rightarrow>
               [if ta_format ta = FormatHls then RemoveTree (ta_output ta) else RemoveOne (ta_output ta)]
                 @ finish_with ta (Some v)))"

definition recording_thread ::
    "thread_args \<Rightarrow> recording_event list \<times> (message + 'd) \<Rightarrow> (string + string option) joined option \<Rightarrow>
     string + string \<Rightarrow> thread_action list" where
  "recording_thread ta recording worker direct =
     (let ok = (case snd recording of Inl e \<Rightarrow> False | Inr d \<Rightarrow> True)
      in map Emit (fst recording)
         @ (if ok \<and> ta_server ta \<noteq> None then [Emit RecordingUploading] else [])
         @ (if worker \<noteq> None then [Tell (if ok then Complete (join (ta_output ta) ''playlist.m3u8'') else Abort)] else [])
         @ (case snd recording of
              Inl e \<Rightarrow> clean_up ta @ fail_with e
            | Inr d \<Rightarrow> after_recording ta worker direct))"

text \<open>
  A run of the thread: the uploader's thread cannot be started, or it is started and joined, or there
  is none. Before the last message the uploader is sent the assets the writer reports.
\<close>

inductive thread_run ::
    "http_lib \<Rightarrow> server \<Rightarrow> local_files \<Rightarrow> thread_args \<Rightarrow> recording_event list \<times> (message + 'd) \<Rightarrow> string list \<Rightarrow>
     thread_action list \<Rightarrow> string list \<Rightarrow> request list \<Rightarrow> bool"
  for h srv fs ta recording assets where
  no_uploader: "incremental ta \<Longrightarrow>
    thread_run h srv fs ta recording assets
      (clean_up ta @ fail_with (Text (''failed to spawn HLS upload thread: '' @ e))) [] []"
| with_uploader: "incremental ta \<Longrightarrow> ta_server ta = Some server_url \<Longrightarrow>
    acts = recording_thread ta recording (Some (Returned r)) direct \<Longrightarrow>
    hls_worker h srv fs (ta_output ta) server_url (map Asset assets @ [m]) r up lg \<Longrightarrow> Tell m \<in> set acts \<Longrightarrow>
    thread_run h srv fs ta recording assets acts up lg"
| uploader_panicked: "incremental ta \<Longrightarrow>
    thread_run h srv fs ta recording assets (recording_thread ta recording (Some Panicked) direct) up lg"
| without_uploader: "\<not> incremental ta \<Longrightarrow>
    (case (ta_server ta, snd recording) of
       (Some server_url, Inr d) \<Rightarrow> upload h srv fs (ta_output ta) server_url (ta_format ta) [] = (direct, lg)
     | _ \<Rightarrow> lg = []) \<Longrightarrow>
    thread_run h srv fs ta recording assets (recording_thread ta recording None direct) [] lg"

inductive_cases thread_runE: "thread_run h srv fs ta recording assets acts up lg"

text \<open>\<open>spawn\<close>: the thread runs, or cannot be started.\<close>

definition spawn_failed :: "thread_args \<Rightarrow> string \<Rightarrow> thread_action list \<times> string" where
  "spawn_failed ta e = (clean_up ta, ''failed to spawn recording thread: '' @ e)"

subsection \<open>What the uploader was told\<close>

definition told :: "upload_message list \<Rightarrow> run_status \<Rightarrow> bool" where
  "told ms st =
     (case st of
        Draining p \<Rightarrow> Complete p \<in> set ms
      | Ended (Inr (Some v)) \<Rightarrow> \<exists>p. Complete p \<in> set ms
      | Ended (Inr None) \<Rightarrow> Abort \<in> set ms
      | _ \<Rightarrow> True)"

lemma received_snoc [simp]: "received (es @ [e]) = received es @ event_message e" "received [] = []"
  by (simp_all add: received_def)

lemma told_mono: "told ms st \<Longrightarrow> told (ms @ ms') st"
  by (auto simp: told_def split: run_status.splits sum.splits option.splits)

lemma told_failed [simp]: "told ms (hr_status (end_run h (Inl e) s))" "told ms (hr_status (spawn_asset h p s))"
  by (auto simp: told_def end_run_def spawn_asset_def split: sum.splits option.splits)

lemma told_finish: "Complete p \<in> set ms \<Longrightarrow> told ms (hr_status (finish_run h srv fs p s))"
  by (cases "fst (hls_upload_finish h srv fs p (hr_upload s) (hr_log s))")
    (auto simp: told_def end_run_def finish_run_def split: prod.splits)

lemma told_cases [simp]: "told ms Receiving" "told ms (Joining p)" "told ms (Draining p) \<longleftrightarrow> Complete p \<in> set ms"
  by (simp_all add: told_def)

lemma task_done_status [simp]: "hr_status (task_done i s) = hr_status s"
  by (simp add: task_done_def take_task_def)

lemma told_step: "run_step h srv fs s e s' \<Longrightarrow> told ms (hr_status s) \<Longrightarrow> told (ms @ event_message e) (hr_status s')"
proof (induction rule: run_step.induct)
  case (drained s pl)
  then show ?case by (simp add: told_finish)
next
  case (receive_abort s)
  then show ?case by (simp add: told_def end_run_def)
qed simp_all

lemma told_run: "run_trace h srv fs s es s' \<Longrightarrow> hr_status s = Receiving \<Longrightarrow> told (received es) (hr_status s')"
  by (induction s es s' rule: run_trace.induct) (simp add: told_def, auto dest: told_step)

fun message_asset :: "upload_message \<Rightarrow> string list" where
  "message_asset (Asset p) = [p]"
| "message_asset _ = []"

lemma received_assets_of: "received_assets es = concat (map message_asset (received es))"
proof (induction es)
  case (Cons e es)
  then show ?case by (cases e rule: event_asset.cases) (auto simp: received_assets_def received_def)
qed (simp add: received_assets_def received_def)

lemma message_assets: "concat (map message_asset (map Asset ps)) = ps"
  by (induction ps) auto

text \<open>An uploader that got \<open>Complete\<close> as its last message has received all of them.\<close>

lemma received_all:
  assumes "map Asset assets @ [m] = received es @ later" "Complete p \<in> set (received es)"
  shows "received_assets es = assets"
proof -
  have l: "later = []"
  proof (rule ccontr)
    assume "later \<noteq> []"
    then obtain xs x where "later = xs @ [x]" by (cases later rule: rev_cases) auto
    with assms(1) have "map Asset assets = received es @ xs" by simp
    with assms(2) show False by (metis UnCI ex_map_conv set_append upload_message.distinct(1))
  qed
  with assms have "m = Complete p" by (auto dest!: arg_cong [where f = set])
  with l assms(1) have "received es = map Asset assets @ [Complete p]" by simp
  then show ?thesis by (simp add: received_assets_of message_assets del: map_map)
qed

lemma worker_finished:
  assumes "hls_worker h srv fs out server_url (map Asset assets @ [m]) (Inr (Some v)) up lg"
  shows "mset up = mset assets \<and> lg \<noteq> [] \<and> (\<exists>i parts. rq_body (last lg) = CompleteUpload i parts) \<and>
    (\<exists>p \<in> set assets. validate_hls_asset h p = Inr True)"
  using assms
proof cases
  case (worker_ran u lg0 es s)
  from worker_ran(3) have "\<not> hu_found u"
    by (auto simp: hls_start_def io_bind_def io_lift_def split: prod.splits sum.splits)
  from run_trace_ok [OF worker_ran(4) this] worker_ran(7)
  have ok: "mset (received_assets es) = mset (hr_uploaded s)"
    "\<exists>p \<in> set (received_assets es). validate_hls_asset h p = Inr True"
    "\<exists>new i parts. hr_log s = lg0 @ new \<and> new \<noteq> [] \<and> rq_body (last new) = CompleteUpload i parts"
    by (auto simp: run_ok_def)
  from told_run [OF worker_ran(4)] worker_ran(7) obtain p where p: "Complete p \<in> set (received es)"
    by (auto simp: start_uploader_def told_def)
  from worker_ran(5) obtain later where "map Asset assets @ [m] = received es @ later" by blast
  from received_all [OF this p] ok worker_ran(1,2) show ?thesis by auto
qed

lemma worker_silent:
  assumes "hls_worker h srv fs out server_url ms (Inr None) up lg"
  shows "Abort \<in> set ms"
  using assms
proof cases
  case (worker_ran u lg0 es s)
  from told_run [OF worker_ran(4)] worker_ran(5,7) show ?thesis by (auto simp: start_uploader_def told_def)
qed

subsection \<open>What a recording leaves\<close>

fun terminal :: "thread_action \<Rightarrow> bool" where
  "terminal (Emit (RecordingFinished p v)) = True"
| "terminal (Emit (RecordingFailed e)) = True"
| "terminal _ = False"

lemmas action_defs = recording_thread_def after_recording_def clean_up_def fail_with_def finish_with_def Let_def

lemma thread_run_actions:
  assumes "thread_run h srv fs ta recording assets acts up lg"
  obtains e where "acts = clean_up ta @ fail_with e"
  | worker direct where "acts = recording_thread ta recording worker direct"
  using assms by (rule thread_runE) auto

lemma record_events: "set (fst (record_session j intersects ar rr d)) \<subseteq> {RecordingStarted}"
  by (auto simp: record_session_def split: sum.splits)

lemma upload_Inr:
  assumes "upload h srv fs path configured format lg = (Inr v, l)"
  shows "l \<noteq> [] \<and> (\<exists>i parts. rq_body (last l) = CompleteUpload i parts)"
proof -
  from assms obtain base token session lg1 where
    "or_cancel h srv base token session
       (upload_body h srv fs base token path (upload_path path format) format session) lg1 = (Inr v, l)"
    by (auto simp: upload_def)
  then have "upload_body h srv fs base token path (upload_path path format) format session lg1 = (Inr v, l)"
    by (auto simp: or_cancel_def split: prod.splits sum.splits)
  from upload_body_Inr [OF this] show ?thesis by auto
qed

text \<open>
  C9: a recording is removed only once it is safely elsewhere. When the thread removes its output,
  either there is no recording to lose (it failed, or the uploader's thread could not be started; the
  output is what the caller asked to clean up, and the thread ends by reporting the failure), or the
  recording had succeeded, the last request completed the upload session, the thread ends by
  reporting the recording's URL, and an incremental upload had uploaded every asset the writer
  reported, exactly as often. So no failure of an upload loses a recording.
\<close>
theorem recording_removed_after_upload:
  assumes "thread_run h srv fs ta recording assets acts up lg"
    and "RemoveTree (ta_output ta) \<in> set acts \<or> RemoveOne (ta_output ta) \<in> set acts"
  shows "(\<exists>e. last acts = Emit (RecordingFailed e) \<and> ta_cleanup ta = Some (ta_output ta) \<and>
      (snd recording = Inl e \<or> acts = clean_up ta @ fail_with e)) \<or>
    (\<exists>v d i parts. snd recording = Inr d \<and> last acts = Emit (RecordingFinished (ta_completed ta) (Some v)) \<and>
      lg \<noteq> [] \<and> rq_body (last lg) = CompleteUpload i parts \<and> (incremental ta \<longrightarrow> mset up = mset assets))"
  using assms(1)
proof cases
  case (no_uploader e)
  with assms(2) show ?thesis by (auto simp: action_defs split: option.splits)
next
  case (with_uploader server_url r direct m)
  show ?thesis
  proof (cases "snd recording")
    case (Inl e)
    with with_uploader(3) assms(2) show ?thesis by (auto simp: action_defs split: option.splits)
  next
    case (Inr d)
    with with_uploader(2,3) assms(2) obtain v where r: "r = Inr v"
      by (auto simp: action_defs split: option.splits sum.splits if_splits)
    from with_uploader(2,3,5) Inr have m: "m = Complete (join (ta_output ta) ''playlist.m3u8'')"
      by (auto simp: action_defs split: sum.splits)
    show ?thesis
    proof (cases v)
      case None
      from worker_silent [OF with_uploader(4) [unfolded r None]] m show ?thesis by auto
    next
      case (Some u)
      from worker_finished [OF with_uploader(4) [unfolded r Some]] Inr r Some with_uploader(1-3) show ?thesis
        by (auto simp: action_defs)
    qed
  qed
next
  case (uploader_panicked direct)
  with assms(2) show ?thesis by (auto simp: action_defs split: option.splits sum.splits if_splits)
next
  case (without_uploader direct)
  show ?thesis
  proof (cases "snd recording")
    case (Inl e)
    with without_uploader assms(2) show ?thesis by (auto simp: action_defs split: option.splits)
  next
    case (Inr d)
    with without_uploader assms(2) obtain v server_url where "direct = Inr v" "ta_server ta = Some server_url"
      by (auto simp: action_defs split: option.splits sum.splits if_splits)
    with without_uploader Inr upload_Inr show ?thesis by (fastforce simp: action_defs)
  qed
qed

subsection \<open>From the writer to the server\<close>

text \<open>The segments delivered while a list of messages is written: those before the first frame have no writer.\<close>

fun segments_of :: "bool \<Rightarrow> ('f, 'a) writer_message list \<Rightarrow> segment list" where
  "segments_of started [] = []"
| "segments_of started (FrameMessage f t env # ms) = ev_during env @ segments_of True ms"
| "segments_of started (AudioMessage p t env # ms) = (if started then ax_during env else []) @ segments_of started ms"
| "segments_of started (FinishMessage # ms) = []"

abbreviation media_file :: "Asset_Writers.disk \<Rightarrow> string \<Rightarrow> string option" where
  "media_file \<equiv> Asset_Writers.disk.dk_files"

definition hls_config :: "write_config \<Rightarrow> bool" where
  "hls_config cfg \<longleftrightarrow> wc_format cfg = FormatHls \<and> wc_bundle_audio cfg = None"

definition reached :: "write_config \<Rightarrow> segment list \<Rightarrow> ('f, 'a) hls_writer \<Rightarrow> bool" where
  "reached cfg gs w \<longleftrightarrow>
     (\<exists>su r x y d d' w0 ops. hls_new su (wc_output cfg) r x y 60 2000000000 (wc_system_audio cfg) d = (d', Inr w0) \<and>
        media_file d (list_path (wc_output cfg)) = None \<and> w = fold hls_run ops w0 \<and>
        concat (map delivered ops) = gs \<and> \<not> vw_finished w \<and> reported_all w)"

lemma reached_run:
  assumes "reached cfg gs w" "\<not> vw_finished (hls_run op w)"
  shows "reached cfg (gs @ delivered op) (hls_run op w)"
proof -
  from assms(1) obtain su r x y d d' w0 ops where
    n: "hls_new su (wc_output cfg) r x y 60 2000000000 (wc_system_audio cfg) d = (d', Inr w0)"
      "media_file d (list_path (wc_output cfg)) = None"
    and w: "w = fold hls_run ops w0" "concat (map delivered ops) = gs" and rep: "reported_all w"
    unfolding reached_def by blast
  from w have "hls_run op w = fold hls_run (ops @ [op]) w0" "concat (map delivered (ops @ [op])) = gs @ delivered op"
    by simp_all
  with n assms(2) hls_run_reported [OF rep, of op] show ?thesis unfolding reached_def by blast
qed

lemma deliver_finished: "vw_finished (deliver gs w) = vw_finished w"
  using deliver_track [of gs w] by (simp add: video_writer.truncate_def)

lemma append_finished:
  "vw_finished (fst (hls_append f t reply gs w)) = vw_finished w"
  "vw_finished (fst (hls_append_audio md p t reply gs w)) = vw_finished w"
  by (simp_all add: hls_append_def hls_append_audio_def after_sample_def deliver_finished hls_put_frame_def hls_put_audio_def
      call_simps split: sum.splits option.splits)

lemma reached_live: "reached cfg gs w \<Longrightarrow> \<not> vw_finished w"
  by (auto simp: reached_def)

lemma reached_append:
  "reached cfg gs w \<Longrightarrow> hls_append f t reply hs w = (w', r) \<Longrightarrow> reached cfg (gs @ hs) w'"
  "reached cfg gs w \<Longrightarrow> hls_append_audio md p t reply hs w = (w', r) \<Longrightarrow> reached cfg (gs @ hs) w'"
  using reached_run [of cfg gs w "HlsAppend f t reply hs"] reached_run [of cfg gs w "HlsAppendAudio md p t reply hs"]
    append_finished(1) [of f t reply hs w] append_finished(2) [of md p t reply hs w] reached_live [of cfg gs w]
  by auto

lemma reached_new:
  assumes "hls_new su (wc_output cfg) r x y 60 2000000000 (wc_system_audio cfg) d = (d', Inr w)"
    and "media_file d (list_path (wc_output cfg)) = None"
  shows "reached cfg [] w"
proof -
  from assms(1) have "\<not> vw_finished w" "hw_sink w = new_sink (wc_output cfg) 2000000000"
    by (auto simp: hls_new_def hls_setup_def split: if_splits sum.splits prod.splits)
  then have "reported_all w" by (simp add: reported_all_def new_sink_def)
  moreover have "w = fold hls_run [] w" "concat (map delivered []) = []" by simp_all
  ultimately show ?thesis using assms \<open>\<not> vw_finished w\<close> unfolding reached_def by blast
qed

text \<open>What the writer thread has before and after the first frame.\<close>

definition hls_progress :: "write_config \<Rightarrow> segment list \<Rightarrow> ('f, 'a) write_state \<Rightarrow> bool" where
  "hls_progress cfg gs st =
     (case ws_writer st of
        None \<Rightarrow> gs = [] \<and> media_file (ws_disk st) (list_path (wc_output cfg)) = None
      | Some (Mp4W w) \<Rightarrow> False
      | Some (HlsW w) \<Rightarrow> reached cfg gs w)"

lemma make_writer_reached:
  assumes "make_writer cfg f env d = (d', Inr w)" "hls_config cfg" "media_file d (list_path (wc_output cfg)) = None"
  shows "\<exists>v. w = HlsW v \<and> reached cfg [] v"
  using assms reached_new by (fastforce simp: make_writer_def hls_config_def split: prod.splits)

lemma write_frame_progress:
  assumes "write_frame cfg f t env st = Inr st'" "hls_config cfg" "hls_progress cfg gs st"
  shows "hls_progress cfg (gs @ ev_during env) st' \<and> ws_writer st' \<noteq> None"
proof -
  from assms(1) obtain st1 w w' b where e: "ensure_writer cfg f env st = Inr (st1, w)"
    and a: "append_frame f (writer_timestamp t) env w = (w', Inr b)"
    and st': "st' = st1\<lparr>ws_writer := Some w',
      ws_first := (if b then get_or_insert (ws_first st1) t else ws_first st1)\<rparr>"
    by (auto simp: write_frame_def)
  obtain v where v: "w = HlsW v" "reached cfg gs v"
  proof (cases "ws_writer st")
    case None
    with e obtain d where "make_writer cfg f env (ws_disk st) = (d, Inr w)" by (auto simp: ensure_writer_def)
    from make_writer_reached [OF this assms(2)] assms(3) None that show ?thesis by (auto simp: hls_progress_def)
  next
    case (Some u)
    with e assms(3) that show ?thesis by (auto simp: ensure_writer_def hls_progress_def split: any_writer.splits)
  qed
  from a v(1) obtain v' where "w' = HlsW v'" "hls_append (vf_buffer f) (writer_timestamp t) (ev_reply env) (ev_during env) v = (v', Inr b)"
    by (auto split: prod.splits)
  with reached_append(1) [OF v(2)] st' show ?thesis by (auto simp: hls_progress_def)
qed

lemma write_track_progress:
  assumes "write_track_audio p t env st = Inr st'" "hls_progress cfg gs st"
  shows "hls_progress cfg (gs @ (if ws_writer st = None then [] else ax_during env)) st' \<and>
    (ws_writer st' = None) = (ws_writer st = None)"
  using assms reached_append(2)
  by (fastforce simp: write_track_audio_def hls_progress_def split: option.splits any_writer.splits)

lemma write_loop_progress:
  "write_loop cfg ms st = Inr st' \<Longrightarrow> hls_config cfg \<Longrightarrow> hls_progress cfg gs st \<Longrightarrow>
   hls_progress cfg (gs @ segments_of (ws_writer st \<noteq> None) ms) st'"
proof (induction cfg ms st arbitrary: gs rule: write_loop.induct)
  case (2 cfg f t env ms st)
  then obtain st1 where s: "write_frame cfg f t env st = Inr st1" "write_loop cfg ms st1 = Inr st'" by auto
  from write_frame_progress [OF s(1) 2(3,4)] have p: "hls_progress cfg (gs @ ev_during env) st1" "ws_writer st1 \<noteq> None"
    by auto
  from 2(1) [OF s(2) 2(3) p(1)] p(2) show ?case by simp
next
  case (3 cfg p t env ms st)
  then obtain st1 where s: "write_track_audio p t env st = Inr st1" "write_loop cfg ms st1 = Inr st'"
    by (auto simp: hls_config_def)
  from write_track_progress [OF s(1) 3(4)] have
    p: "hls_progress cfg (gs @ (if ws_writer st = None then [] else ax_during env)) st1"
      "(ws_writer st1 = None) = (ws_writer st = None)" by auto
  from 3(1) [OF s(2) 3(3) p(1)] p(2) show ?case by (auto split: if_splits)
qed simp_all

lemma file_name_join:
  assumes "name \<noteq> []" "CHR ''/'' \<notin> set name" "name \<noteq> ''..''"
  shows "file_name (join out name) = Some name"
proof -
  have "\<exists>pre. join out name = pre @ name \<and> (pre = [] \<or> last pre = CHR ''/'')"
    by (cases "out = []"; cases "last out = CHR ''/''") (auto simp: join_def)
  then obtain pre where p: "join out name = pre @ name" "pre = [] \<or> last pre = CHR ''/''" by blast
  from assms(1) obtain cs c where "name = cs @ [c]" by (cases name rule: rev_cases) auto
  with assms(2) have d: "dropWhile (\<lambda>c. c = CHR ''/'') (rev name @ xs) = rev name @ xs" for xs by auto
  have t: "takeWhile (\<lambda>c. c \<noteq> CHR ''/'') (rev name @ rev pre) = rev name"
    using assms(2) p(2) by (cases pre rule: rev_cases) (auto simp: takeWhile_append)
  show ?thesis using assms by (simp add: file_name_def p(1) d t)
qed

lemma segment_not_init: "validate_hls_asset h (seg_path out i) \<noteq> Inr True"
proof -
  have "file_name (seg_path out i) = Some (segment_name i)"
    using pad_zero_digits [of 5 i] by (intro file_name_join) (auto simp: segment_name_def all_digits_def list_all_iff)
  then show ?thesis
    using names_distinct(1) [of i] by (auto simp: validate_hls_asset_def utf8_name_def initialization_name_def)
qed

lemma finish_no_error:
  assumes "hls_finish reply during t ren w = (w', Inr u)" "\<not> vw_finished w"
  shows "ps_error (hw_sink w') = None"
  using assms
  by (auto simp: hls_finish_def finish_playlist_def check_error_def Let_def
      split: sum.splits prod.splits option.splits)

text \<open>The writer of a finished HLS recording has reported every file of the playlist it leaves.\<close>

definition written_hls :: "string \<Rightarrow> segment list \<Rightarrow> ('f, 'a) hls_writer \<Rightarrow> bool" where
  "written_hls out gs w \<longleftrightarrow>
     (ps_initialized (hw_sink w) \<longrightarrow> media_file (hw_disk w) (list_path out)
        = Some (playlist 2000000000 (map (\<lambda>g. unwrap_or (report_duration (sg_report g)) 2000000000) gs) True) \<and>
        (\<forall>i < length gs. media_file (hw_disk w) (seg_path out i) = Some (sg_data (gs ! i))) \<and>
        insert (init_path out) (seg_path out ` {..<length gs}) \<subseteq> set (hw_reported w)) \<and>
     (\<forall>p \<in> set (hw_reported w). ps_initialized (hw_sink w) \<and> p = init_path out \<or> (\<exists>i. p = seg_path out i))"

lemma hls_written:
  assumes "write_frames cfg env ms d = Inr r" "hls_config cfg" "media_file d (list_path (wc_output cfg)) = None"
  shows "\<exists>w. wr_writer r = HlsW w \<and> written_hls (wc_output cfg) (media (segments_of False ms @ fe_during env)) w"
proof -
  from assms(1) obtain st where l: "write_loop cfg ms (start_writing d) = Inr st" and e: "write_end cfg env st = Inr r"
    by (auto simp: write_frames_def)
  from e obtain v v' u where v: "ws_writer st = Some v" "finish_writer env v = (v', Inr u)" "wr_writer r = v'"
    by (auto simp: write_end_def)
  have "hls_progress cfg [] (start_writing d)" using assms(3) by (simp add: hls_progress_def start_writing_def)
  from write_loop_progress [OF l assms(2) this] v(1) obtain w where
    w: "v = HlsW w" "reached cfg (segments_of False ms) w"
    by (auto simp: hls_progress_def start_writing_def split: any_writer.splits)
  from v(2) w(1) obtain w' where f: "hls_finish (fe_video env) (fe_during env) (fe_tmp env) (fe_rename env) w = (w', Inr u)"
    and w': "v' = HlsW w'" by (auto split: prod.splits)
  let ?op = "HlsFinish (fe_video env) (fe_during env) (fe_tmp env) (fe_rename env)"
  from w(2) obtain su x1 x2 x3 d0 d' w0 ops where
    n: "hls_new su (wc_output cfg) x1 x2 x3 60 2000000000 (wc_system_audio cfg) d0 = (d', Inr w0)"
      "media_file d0 (list_path (wc_output cfg)) = None"
    and ops: "w = fold hls_run ops w0" "concat (map delivered ops) = segments_of False ms"
    and live: "\<not> vw_finished w" and rep: "reported_all w" unfolding reached_def by blast
  have run: "w' = hls_run ?op w" using f by simp
  then have rep': "reported_all w'" using hls_run_reported [OF rep, of ?op] by (simp del: hls_run.simps)
  have "w' = fold hls_run (ops @ [?op]) w0" using run ops(1) by simp
  with hls_run_inv(2) [OF n, of "ops @ [?op]"] ops(2)
  have inv: "files_inv (segments_of False ms @ fe_during env) w'" by simp
  have cfg: "ps_output (hw_sink w') = wc_output cfg"
    using hls_new_start(2) [OF n(1)] by (simp add: run ops(1) del: hls_run.simps)
  have err: "ps_error (hw_sink w') = None" by (rule finish_no_error [OF f live])
  from inv err have len: "length (ps_durations (hw_sink w')) = length (media (segments_of False ms @ fe_during env))"
    by (simp add: sink_inv_def current_ok_def)
  have "media (segments_of False ms @ fe_during env) = media (concat (map delivered ops) @ fe_during env)"
    using ops(2) by simp
  from finished_recording [OF n ops(1) this live f] rep' err cfg len
  have "ps_initialized (hw_sink w') \<longrightarrow> media_file (hw_disk w') (list_path (wc_output cfg))
        = Some (playlist 2000000000 (map (\<lambda>g. unwrap_or (report_duration (sg_report g)) 2000000000)
            (media (segments_of False ms @ fe_during env))) True) \<and>
      (\<forall>i < length (media (segments_of False ms @ fe_during env)).
         media_file (hw_disk w') (seg_path (wc_output cfg) i) = Some (sg_data (media (segments_of False ms @ fe_during env) ! i))) \<and>
      insert (init_path (wc_output cfg)) (seg_path (wc_output cfg) ` {..<length (media (segments_of False ms @ fe_during env))})
        \<subseteq> set (hw_reported w')"
    by (auto simp: reported_all_def)
  moreover from inv cfg have "\<forall>p \<in> set (hw_reported w').
      ps_initialized (hw_sink w') \<and> p = init_path (wc_output cfg) \<or> (\<exists>i. p = seg_path (wc_output cfg) i)"
    by (auto simp: sink_inv_def reports_ok_def)
  ultimately show ?thesis using v(3) w' by (simp add: written_hls_def)
qed

lemma finished_uploaded:
  assumes "thread_run h srv fs ta recording assets acts up lg" "incremental ta"
    and "last acts = Emit (RecordingFinished p v)"
  shows "\<exists>d. snd recording = Inr d \<and> mset up = mset assets \<and> (\<exists>p \<in> set assets. validate_hls_asset h p = Inr True)"
  using assms(1)
proof cases
  case (with_uploader server_url r direct m)
  from with_uploader(2,3) assms(3) obtain d v where ok: "snd recording = Inr d" "r = Inr v"
    by (auto simp: action_defs split: option.splits sum.splits if_splits)
  with with_uploader(2,3,5) have m: "m = Complete (join (ta_output ta) ''playlist.m3u8'')"
    by (auto simp: action_defs)
  show ?thesis
  proof (cases v)
    case None
    from worker_silent [OF with_uploader(4) [unfolded ok None]] m show ?thesis by auto
  next
    case (Some u)
    from worker_finished [OF with_uploader(4) [unfolded ok Some]] ok show ?thesis by blast
  qed
qed (use assms(2,3) in \<open>auto simp: action_defs split: option.splits sum.splits if_splits\<close>)

definition reported_by :: "(writer_error + ('f, 'a) write_result) joined \<Rightarrow> string list" where
  "reported_by written =
     (case written of
        Returned (Inr r) \<Rightarrow> (case wr_writer r of HlsW w \<Rightarrow> hw_reported w | Mp4W w \<Rightarrow> [])
      | _ \<Rightarrow> [])"

text \<open>
  C8: an HLS recording that is reported as finished has reached the server whole. Take a whole recording:
  the writer thread's frames, packets and segment deliveries, the file system, the uploader with any
  order of its tasks, and the server. When the thread ends by reporting the recording as finished, the
  directory held the VOD playlist of all the segments delivered to the writer, with their data in the
  files, and the playlist's every segment and its initialization segment had been uploaded.
\<close>
theorem hls_recording_uploaded:
  assumes "thread_run h srv fs ta (record_session j intersects ar rr bd) (reported_by (rr_written rr)) acts up lg"
    and "rr_written rr = Returned (write_frames cfg env ms d)" "hls_config cfg" "wc_output cfg = ta_output ta"
    and "media_file d (list_path (ta_output ta)) = None" "incremental ta"
    and "last acts = Emit (RecordingFinished p v)" "gs = media (segments_of False ms @ fe_during env)"
  shows "\<exists>r w. write_frames cfg env ms d = Inr r \<and> wr_writer r = HlsW w \<and>
    media_file (hw_disk w) (list_path (ta_output ta))
      = Some (playlist 2000000000 (map (\<lambda>g. unwrap_or (report_duration (sg_report g)) 2000000000) gs) True) \<and>
    init_path (ta_output ta) \<in> set up \<and>
    (\<forall>i < length gs. media_file (hw_disk w) (seg_path (ta_output ta) i) = Some (sg_data (gs ! i)) \<and>
       seg_path (ta_output ta) i \<in> set up)"
proof -
  from finished_uploaded [OF assms(1,6,7)] obtain bd' q where
    ok: "snd (record_session j intersects ar rr bd) = Inr bd'"
    and up: "mset up = mset (reported_by (rr_written rr))"
    and q: "q \<in> set (reported_by (rr_written rr))" "validate_hls_asset h q = Inr True" by blast
  from ok assms(2) obtain r where r: "write_frames cfg env ms d = Inr r"
    by (auto simp: record_session_def record_end_def split: sum.splits)
  from hls_written [OF r assms(3)] assms(4,5,8) obtain w where
    w: "wr_writer r = HlsW w" "written_hls (ta_output ta) gs w" by auto
  from r w(1) assms(2) have rep: "reported_by (rr_written rr) = hw_reported w" by (simp add: reported_by_def)
  from q segment_not_init w(2) have "ps_initialized (hw_sink w)" unfolding rep written_hls_def by metis
  moreover from up have "set up = set (hw_reported w)" unfolding rep by (metis set_mset_mset)
  ultimately show ?thesis using r w by (auto simp: written_hls_def)
qed

text \<open>
  Every recording has one outcome. Whatever happens in the thread, it reports exactly one end,
  finished or failed, as its last action; a recording that failed is reported as failed, after the
  cleanup it asked for; and one that succeeded is either finished or kept.
\<close>
theorem recording_one_outcome:
  assumes "thread_run h srv fs ta (record_session j intersects ar rr bd) assets acts up lg"
  shows "\<exists>pre out. acts = pre @ [Emit out] \<and> terminal (Emit out) \<and> list_all (\<lambda>a. \<not> terminal a) pre \<and>
    (\<forall>e. snd (record_session j intersects ar rr bd) = Inl e \<longrightarrow>
       (\<exists>m. out = RecordingFailed m) \<and> (\<forall>p. ta_cleanup ta = Some p \<longrightarrow> RemoveTree p \<in> set pre)) \<and>
    (\<forall>p v. out = RecordingFinished p v \<longrightarrow> p = ta_completed ta \<and> RecordingStarted \<in> set (fst (record_session j intersects ar rr bd)))"
proof -
  have quiet: "list_all (\<lambda>a. \<not> terminal a) (map Emit (fst (record_session j intersects ar rr bd)))"
    using record_events [of j intersects ar rr bd] by (auto simp: list_all_iff)
  have started: "RecordingStarted \<in> set (fst (record_session j intersects ar rr bd))"
    if "snd (record_session j intersects ar rr bd) = Inr d" for d
    using that by (auto simp: record_session_def split: sum.splits)
  from thread_run_actions [OF assms] show ?thesis
  proof cases
    case (1 e)
    then show ?thesis by (auto simp: clean_up_def fail_with_def split: option.splits)
  next
    case (2 worker direct)
    then show ?thesis
      using quiet started
      by (cases "snd (record_session j intersects ar rr bd)")
        (auto simp: action_defs split: option.splits sum.splits intro!: exI)
  qed
qed

subsection \<open>A recording\<close>

definition big_session :: upload_session where
  "big_session = \<lparr>us_id = ''s'', us_upload_id = ''u'', us_part_size = 6000000\<rparr>"

definition big_upload :: hls_upload where
  "big_upload = \<lparr>hu_base = sample_base, hu_token = ''t'', hu_session = big_session, hu_found = False\<rparr>"

lemma sample_start:
  "\<exists>lg. hls_start (sample_http 6000000) ok_server ''hls'' ''https://b#t'' [] = (Inr big_upload, lg)"
  by (simp add: hls_start_def parse_server_url_def trim_def is_space_def secure_def start_session_def big_upload_def
      big_session_def upload_eval)

lemma two_assets_run:
  assumes "register_asset h p u = Inr u1" "register_asset h q u1 = Inr u2"
  shows "run_trace h srv fs (start_uploader u lg)
      [Receive (Asset p), Receive (Asset q), Receive (Complete pl), Joined 1 (Inr ()), Joined 0 (Inr ()), FinishUpload]
      (finish_run h srv fs pl \<lparr>hr_upload = u2, hr_flight = [], hr_status = Draining pl, hr_log = lg, hr_uploaded = [q, p]\<rparr>)"
proof -
  let ?s = "\<lambda>v fl st up. \<lparr>hr_upload = v, hr_flight = fl, hr_status = st, hr_log = lg, hr_uploaded = up\<rparr>"
  note step = trace_snoc [where h = h and srv = srv and fs = fs]
  have "run_trace h srv fs (start_uploader u lg) ([] @ [Receive (Asset p)]) (spawn_asset h p (start_uploader u lg))"
    by (rule step [OF trace_nil receive_asset]) (simp_all add: start_uploader_def max_concurrent_uploads_def)
  then have "run_trace h srv fs (start_uploader u lg) [Receive (Asset p)] (?s u1 [p] Receiving [])"
    using assms by (simp add: spawn_asset_def start_uploader_def)
  from step [OF this receive_asset [where p = q]]
  have "run_trace h srv fs (start_uploader u lg) [Receive (Asset p), Receive (Asset q)] (?s u2 [p, q] Receiving [])"
    using assms by (simp add: spawn_asset_def max_concurrent_uploads_def)
  from step [OF this receive_complete [where pl = pl]]
  have "run_trace h srv fs (start_uploader u lg) [Receive (Asset p), Receive (Asset q), Receive (Complete pl)]
      (?s u2 [p, q] (Draining pl) [])" by simp
  from step [OF this drain_one [where i = 1 and pl = pl]]
  have "run_trace h srv fs (start_uploader u lg)
      [Receive (Asset p), Receive (Asset q), Receive (Complete pl), Joined 1 (Inr ())] (?s u2 [p] (Draining pl) [q])"
    by (simp add: task_done_def take_task_def remove_at_def)
  from step [OF this drain_one [where i = 0 and pl = pl]]
  have "run_trace h srv fs (start_uploader u lg)
      [Receive (Asset p), Receive (Asset q), Receive (Complete pl), Joined 1 (Inr ()), Joined 0 (Inr ())]
      (?s u2 [] (Draining pl) [q, p])"
    by (simp add: task_done_def take_task_def remove_at_def)
  from step [OF this drained [where pl = pl]] show ?thesis by simp
qed

lemma sample_register:
  "register_asset (sample_http n) (init_path ''hls'') big_upload = Inr (big_upload\<lparr>hu_found := True\<rparr>)"
  "register_asset (sample_http n) (seg_path ''hls'' 0) u = Inr u"
proof -
  have s: "segment_name 0 = ''segment00000.m4s''"
  proof -
    have "show_nat 0 = ''0''" by code_simp
    then show ?thesis by (simp add: segment_name_def pad_zero_def numeral_eq_Suc)
  qed
  show "register_asset (sample_http n) (init_path ''hls'') big_upload = Inr (big_upload\<lparr>hu_found := True\<rparr>)"
    by (simp add: register_asset_def validate_hls_asset_def utf8_name_def file_name_def sample_http_def
        initialization_name_def join_def)
  show "register_asset (sample_http n) (seg_path ''hls'' 0) u = Inr u"
    by (simp add: register_asset_def validate_hls_asset_def utf8_name_def file_name_def sample_http_def s join_def
        is_media_name_def extension_def eq_ignore_ascii_case_def)
qed

lemma sample_finish_run:
  "hr_status (finish_run (sample_http 6000000) ok_server sample_files pl
      \<lparr>hr_upload = big_upload\<lparr>hu_found := True\<rparr>, hr_flight = [], hr_status = Draining pl, hr_log = lg, hr_uploaded = up\<rparr>)
      = Ended (Inr (Some ''https://b/v''))"
proof -
  have chunks: "read_chunks 6000000 ''abc'' [ReadSome 1] = [Inr ''abc'']"
    by (simp add: read_chunks.simps fill.simps Let_def)
  then show ?thesis
    by (simp add: finish_run_def hls_upload_finish_def async_twins big_upload_def big_session_def
        complete_upload_def end_run_def upload_eval)
qed

definition hls_cfg :: write_config where
  "hls_cfg = \<lparr>wc_output = ''hls'', wc_format = FormatHls, wc_system_audio = False, wc_bundle_audio = None\<rparr>"

definition small_frame :: "nat \<Rightarrow> nat video_frame" where
  "small_frame n = \<lparr>vf_buffer = n, vf_width = 640, vf_height = 480\<rparr>"

definition frame_at :: "duration \<Rightarrow> frame_timing" where
  "frame_at t = \<lparr>ft_normalized = None, ft_fallback = t\<rparr>"

definition delivering :: "segment list \<Rightarrow> frame_env" where
  "delivering gs = \<lparr>ev_setup = ready_setup, ev_parent = None, ev_dir = None, ev_remove = None, ev_reply = taken, ev_during = gs\<rparr>"

definition hls_messages :: "(nat, nat) writer_message list" where
  "hls_messages = [FrameMessage (small_frame 1) (frame_at 5000000) (delivering [init_segment]),
     FrameMessage (small_frame 2) (frame_at 5000000) (delivering [media_segment ''moof1'' Written]), FinishMessage]"

definition live_hls :: "(nat, nat) hls_writer" where
  "live_hls = ready_hls\<lparr>vw_frame_duration := 16666666\<rparr>"

lemma live_new: "make_writer hls_cfg (small_frame 1) (delivering gs) no_files
    = (hw_disk ready_hls, Inr (HlsW live_hls))"
  by (simp add: make_writer_def hls_cfg_def small_frame_def delivering_def hls_new_def frame_duration_of_def
      checked_div_def nanos_per_sec_def fs_create_dir_def no_files_def hls_setup_def guard_err_def ready_setup_def
      require_def options_file_type_def video_settings_def nested_def add_audio_input_def ready_hls_def live_hls_def
      micros_i64_def checked_signed_def in_signed_def as_micros_def)

lemma live_frames:
  "\<exists>w1 w2 w3. hls_append (Suc 0) 5000000 taken [init_segment] live_hls = (w1, Inr True) \<and>
     hls_append 2 5000000 taken [media_segment ''moof1'' Written] w1 = (w2, Inr True) \<and>
     hls_finish finished_ok [] Written None w2 = (w3, Inr ()) \<and>
     hw_reported w3 = [init_path ''hls'', seg_path ''hls'' 0]"
  by (simp add: live_hls_def hls_finish_def hls_end_time_def end_after_def finish_result_def finished_ok_def
      finish_playlist_def end_calls_def hls_eval)

lemma hls_messages_written:
  "\<exists>r w. write_frames hls_cfg sample_end_env hls_messages no_files = Inr r \<and> wr_writer r = HlsW w \<and>
     hw_reported w = [init_path ''hls'', seg_path ''hls'' 0]"
proof -
  obtain w1 w2 w3 where w: "hls_append (Suc 0) 5000000 taken [init_segment] live_hls = (w1, Inr True)"
    "hls_append 2 5000000 taken [media_segment ''moof1'' Written] w1 = (w2, Inr True)"
    "hls_finish finished_ok [] Written None w2 = (w3, Inr ())"
    "hw_reported w3 = [init_path ''hls'', seg_path ''hls'' 0]" using live_frames by blast
  have e: "append_frame (small_frame n) t (delivering gs) (HlsW v) = (case hls_append n t taken gs v of (w', r) \<Rightarrow> (HlsW w', r))"
    for n t gs v by (simp add: small_frame_def delivering_def)
  have "wc_bundle_audio hls_cfg = None" "writer_timestamp (frame_at 5000000) = 5000000"
    by (simp_all add: hls_cfg_def writer_timestamp_def frame_at_def)
  then show ?thesis
    by (simp del: result_then_Inr append_frame.simps add: write_frames_def hls_messages_def start_writing_def
        write_frame_def ensure_writer_def live_new [simplified] e w sample_end_env_def write_end_def get_or_insert_def)
qed

definition hls_thread :: thread_args where
  "hls_thread = \<lparr>ta_output = ''hls'', ta_completed = ''hls'', ta_cleanup = Some ''hls'', ta_server = Some ''https://b#t'',
     ta_format = FormatHls\<rparr>"

definition hls_args :: record_args where
  "hls_args = \<lparr>ar_spec = CaptureDisplay 1, ar_camera_window = None, ar_output = ''hls'', ar_format = FormatHls,
     ar_system_audio = False, ar_bundle_audio = None, ar_camera = None\<rparr>"

definition hls_replies :: "(nat, nat) record_replies" where
  "hls_replies = \<lparr>rr_content = Some (Inr \<lparr>ct_displays = [\<lparr>cd_id = 1, cd_frame = (0, 0, 640, 480)\<rparr>], ct_windows = []\<rparr>),
     rr_macos13 = True, rr_info = \<lparr>fi_width = Fin 640, fi_height = Fin 480, fi_scale = Fin 2\<rparr>,
     rr_pid = 7, rr_camera_thread = None, rr_writer_thread = None, rr_outputs = (\<lambda>_. None), rr_start = Some None,
     rr_stop_signal = None, rr_stop = Some None, rr_send_finish = None,
     rr_written = Returned (write_frames hls_cfg sample_end_env hls_messages no_files), rr_camera = Panicked\<rparr>"

lemma hls_session:
  "record_session j (\<lambda>_ _. True) hls_args hls_replies bd = ([RecordingStarted], Inr bd)"
proof -
  obtain r where r: "write_frames hls_cfg sample_end_env hls_messages no_files = Inr r"
    using hls_messages_written by blast
  have "\<exists>f c. record_begin (\<lambda>_ _. True) hls_args hls_replies = Inr (f, c)"
    by (simp add: record_begin_def hls_args_def hls_replies_def embedded_camera_window_def capture_filter_of_def
        capture_target_def try_from_def answered_def current_content_def build_display_filter_def capture_config_of_def
        with_system_audio_def with_color_space_def with_pixel_format_def with_queue_depth_def with_cursor_def with_fps_def
        default_builder_def build_for_def capture_size_def dimensions_def dimension_def fl_times_def u32_max_def
        build_config_def config_timescale_def add_outputs_def capturer_start_def await_def completion_result_def Let_def)
  moreover have "record_end j hls_args hls_replies bd = Inr bd"
    by (simp add: record_end_def hls_args_def hls_replies_def answered_def r store_camera_offset_def store_audio_offset_def
        capturer_stop_def await_def completion_result_def)
  ultimately show ?thesis by (auto simp: record_session_def)
qed

lemma hls_server: "ta_server hls_thread = Some ''https://b#t''" "ta_output hls_thread = ''hls''" "ta_format hls_thread = FormatHls"
  by (simp_all add: hls_thread_def)

definition hls_recording :: "recording_event list \<times> (message + (manifest_doc + project_config) Bundle.disk)" where
  "hls_recording = record_session doc_json (\<lambda>_ _. True) hls_args hls_replies empty_disk"

definition hls_actions :: "thread_action list" where
  "hls_actions = recording_thread hls_thread hls_recording (Some (Returned (Inr (Some ''https://b/v'')))) (Inl [])"

lemma hls_actions:
  "hls_actions = [Emit RecordingStarted, Emit RecordingUploading, Tell (Complete (list_path ''hls'')),
     RemoveTree ''hls'', Emit (RecordingFinished ''hls'' (Some ''https://b/v''))]"
  by (simp add: hls_actions_def hls_recording_def hls_session action_defs playlist_name_def)
    (simp add: hls_thread_def playlist_name_def)

lemma hls_thread_run:
  "\<exists>lg. thread_run (sample_http 6000000) ok_server sample_files hls_thread
      hls_recording (reported_by (rr_written hls_replies))
      hls_actions
      [seg_path ''hls'' 0, init_path ''hls''] lg"
proof -
  obtain lg where start: "hls_start (sample_http 6000000) ok_server ''hls'' ''https://b#t'' [] = (Inr big_upload, lg)"
    using sample_start by blast
  let ?es = "[Receive (Asset (init_path ''hls'')), Receive (Asset (seg_path ''hls'' 0)), Receive (Complete (list_path ''hls'')),
     Joined 1 (Inr ()), Joined 0 (Inr ()), FinishUpload]"
  let ?s = "finish_run (sample_http 6000000) ok_server sample_files (list_path ''hls'')
     \<lparr>hr_upload = big_upload\<lparr>hu_found := True\<rparr>, hr_flight = [], hr_status = Draining (list_path ''hls''), hr_log = lg,
       hr_uploaded = [seg_path ''hls'' 0, init_path ''hls'']\<rparr>"
  have rep: "reported_by (rr_written hls_replies) = [init_path ''hls'', seg_path ''hls'' 0]"
    using hls_messages_written by (auto simp: reported_by_def hls_replies_def)
  have up: "hr_uploaded ?s = [seg_path ''hls'' 0, init_path ''hls'']"
    by (simp add: finish_run_def end_run_def split: prod.split sum.split option.split)
  have w: "hls_worker (sample_http 6000000) ok_server sample_files ''hls'' ''https://b#t''
      (map Asset [init_path ''hls'', seg_path ''hls'' 0] @ [Complete (list_path ''hls'')])
      (Inr (Some ''https://b/v'')) (hr_uploaded ?s) (hr_log ?s)"
    by (rule worker_ran [OF start two_assets_run [OF sample_register]])
      (simp_all add: received_def sample_finish_run)
  have "thread_run (sample_http 6000000) ok_server sample_files hls_thread hls_recording
      (reported_by (rr_written hls_replies)) hls_actions (hr_uploaded ?s) (hr_log ?s)"
  proof (rule with_uploader)
    show "hls_actions = recording_thread hls_thread hls_recording (Some (Returned (Inr (Some ''https://b/v'')))) (Inl [])"
      by (rule hls_actions_def)
    show "hls_worker (sample_http 6000000) ok_server sample_files (ta_output hls_thread) ''https://b#t''
        (map Asset (reported_by (rr_written hls_replies)) @ [Complete (list_path ''hls'')])
        (Inr (Some ''https://b/v'')) (hr_uploaded ?s) (hr_log ?s)"
      using w by (simp only: rep hls_server)
  qed (simp_all add: hls_actions hls_server incremental_def)
  then show ?thesis unfolding up by blast
qed

lemma hls_removed:
  "RemoveTree (ta_output hls_thread) \<in> set hls_actions" "incremental hls_thread"
  "last hls_actions = Emit (RecordingFinished ''hls'' (Some ''https://b/v''))"
  by (simp_all add: hls_actions hls_thread_def incremental_def)

theorem recording_removed_after_upload_witness:
  "\<exists>acts up lg i parts. thread_run (sample_http 6000000) ok_server sample_files hls_thread
      hls_recording (reported_by (rr_written hls_replies)) acts up lg
    \<and> rq_body (last lg) = CompleteUpload i parts"
proof -
  obtain lg where run: "thread_run (sample_http 6000000) ok_server sample_files hls_thread
      hls_recording (reported_by (rr_written hls_replies))
      hls_actions
      [seg_path ''hls'' 0, init_path ''hls''] lg" using hls_thread_run by blast
  from recording_removed_after_upload [OF run disjI1 [OF hls_removed(1)]]
  obtain i parts where "rq_body (last lg) = CompleteUpload i parts" by (auto simp: hls_removed(3))
  with run show ?thesis by blast
qed

theorem hls_recording_uploaded_witness:
  "\<exists>w :: (nat, nat) hls_writer. media_file (hw_disk w) (seg_path ''hls'' 0) = Some ''moof1'' \<and>
     seg_path ''hls'' 0 \<in> {seg_path ''hls'' 0, init_path ''hls''}"
proof -
  obtain lg where run: "thread_run (sample_http 6000000) ok_server sample_files hls_thread
      hls_recording (reported_by (rr_written hls_replies)) hls_actions
      [seg_path ''hls'' 0, init_path ''hls''] lg" using hls_thread_run by blast
  have cfg: "rr_written hls_replies = Returned (write_frames hls_cfg sample_end_env hls_messages no_files)"
    "hls_config hls_cfg" "wc_output hls_cfg = ta_output hls_thread"
    "media_file no_files (list_path (ta_output hls_thread)) = None"
    by (simp_all add: hls_replies_def hls_config_def hls_cfg_def hls_thread_def no_files_def)
  have gs: "media (segments_of False hls_messages @ fe_during sample_end_env) = [media_segment ''moof1'' Written]"
    by (simp add: hls_messages_def delivering_def sample_end_env_def media_def init_segment_def media_segment_def)
  from hls_recording_uploaded [OF run [unfolded hls_recording_def] cfg hls_removed(2,3) refl]
  obtain w :: "(nat, nat) hls_writer" where
    "\<forall>i < length (media (segments_of False hls_messages @ fe_during sample_end_env)).
       media_file (hw_disk w) (seg_path (ta_output hls_thread) i)
         = Some (sg_data (media (segments_of False hls_messages @ fe_during sample_end_env) ! i)) \<and>
       seg_path (ta_output hls_thread) i \<in> set [seg_path ''hls'' 0, init_path ''hls'']"
    by (elim exE conjE)
  then show ?thesis by (intro exI [of _ w]) (simp add: gs media_segment_def hls_server)
qed

theorem recording_one_outcome_witness:
  "\<exists>pre e. hls_actions = pre @ [Emit e] \<and> terminal (Emit e) \<and> list_all (\<lambda>a. \<not> terminal a) pre"
proof -
  obtain lg where run: "thread_run (sample_http 6000000) ok_server sample_files hls_thread
      hls_recording (reported_by (rr_written hls_replies)) hls_actions
      [seg_path ''hls'' 0, init_path ''hls''] lg" using hls_thread_run by blast
  from recording_one_outcome [OF run [unfolded hls_recording_def]] obtain pre e where
    "hls_actions = pre @ [Emit e]" "terminal (Emit e)" "list_all (\<lambda>a. \<not> terminal a) pre" by (elim exE conjE)
  then show ?thesis by (intro exI [of _ pre] exI [of _ e] conjI)
qed

end
