(* ===== verification/Region_Selection.thy ===== *)
theory Region_Selection
  imports Screen_Capture
begin

section \<open>Selecting a region (apps/blip-capture/src/main.rs)\<close>

text \<open>
  The geometry of a region on a display's overlay: drawing, moving and resizing it with the pointer and
  editing its numbers. Lengths are logical pixels; points and sizes of gpui are pairs.
\<close>

type_synonym pos = "real \<times> real"

record bounds =
  bn_x :: real
  bn_y :: real
  bn_width :: real
  bn_height :: real

definition bn_right :: "bounds \<Rightarrow> real" where "bn_right b = bn_x b + bn_width b"
definition bn_bottom :: "bounds \<Rightarrow> real" where "bn_bottom b = bn_y b + bn_height b"

definition bn_center :: "bounds \<Rightarrow> pos" where
  "bn_center b = (bn_x b + bn_width b / 2, bn_y b + bn_height b / 2)"

definition bn_contains :: "bounds \<Rightarrow> pos \<Rightarrow> bool" where
  "bn_contains b p = (bn_x b \<le> fst p \<and> fst p < bn_right b \<and> bn_y b \<le> snd p \<and> snd p < bn_bottom b)"

lemmas bn_defs = bn_right_def bn_bottom_def

definition normalized_bounds :: "pos \<Rightarrow> pos \<Rightarrow> bounds" where
  "normalized_bounds a b =
     \<lparr>bn_x = min (fst a) (fst b), bn_y = min (snd a) (snd b),
      bn_width = \<bar>fst a - fst b\<bar>, bn_height = \<bar>snd a - snd b\<bar>\<rparr>"

definition rounded :: "real \<Rightarrow> real" where "rounded x = of_int (round_away x)"

definition rounded_bounds :: "bounds \<Rightarrow> bounds" where
  "rounded_bounds b =
     \<lparr>bn_x = rounded (bn_x b), bn_y = rounded (bn_y b),
      bn_width = rounded (bn_width b), bn_height = rounded (bn_height b)\<rparr>"

definition moved_bounds :: "bounds \<Rightarrow> pos \<Rightarrow> pos \<Rightarrow> pos \<Rightarrow> bounds" where
  "moved_bounds original pointer pointer_start viewport =
     (let max_x = max (fst viewport - bn_width original) 0;
          max_y = max (snd viewport - bn_height original) 0
      in original\<lparr>bn_x := min (max (bn_x original + fst pointer - fst pointer_start) 0) max_x,
           bn_y := min (max (bn_y original + snd pointer - snd pointer_start) 0) max_y\<rparr>)"

datatype resize_handle = HTopLeft | HTop | HTopRight | HRight | HBottomRight | HBottom | HBottomLeft | HLeft

definition region_handle_points :: "bounds \<Rightarrow> (resize_handle \<times> pos) list" where
  "region_handle_points b =
     (let cx = fst (bn_center b); cy = snd (bn_center b)
      in [(HTopLeft, (bn_x b, bn_y b)), (HTop, (cx, bn_y b)), (HTopRight, (bn_right b, bn_y b)),
          (HRight, (bn_right b, cy)), (HBottomRight, (bn_right b, bn_bottom b)), (HBottom, (cx, bn_bottom b)),
          (HBottomLeft, (bn_x b, bn_bottom b)), (HLeft, (bn_x b, cy))])"

definition region_handle_at :: "pos \<Rightarrow> bounds \<Rightarrow> resize_handle option" where
  "region_handle_at p b =
     map_option fst (find (\<lambda>(h, q). \<bar>fst p - fst q\<bar> \<le> 9 \<and> \<bar>snd p - snd q\<bar> \<le> 9) (region_handle_points b))"

definition resized_bounds :: "bounds \<Rightarrow> resize_handle \<Rightarrow> pos \<Rightarrow> pos \<Rightarrow> pos \<Rightarrow> bounds" where
  "resized_bounds original handle pointer pointer_start viewport =
     (let dx = fst pointer - fst pointer_start; dy = snd pointer - snd pointer_start;
          left0 = bn_x original; right0 = bn_right original; top0 = bn_y original; bottom0 = bn_bottom original;
          left = (if handle \<in> {HTopLeft, HLeft, HBottomLeft} then min (max (left0 + dx) 0) (right0 - 16) else left0);
          right = (if handle \<in> {HTopRight, HRight, HBottomRight}
            then min (max (right0 + dx) (left + 16)) (fst viewport) else right0);
          top_edge = (if handle \<in> {HTopLeft, HTop, HTopRight} then min (max (top0 + dy) 0) (bottom0 - 16) else top0);
          bottom = (if handle \<in> {HBottomLeft, HBottom, HBottomRight}
            then min (max (bottom0 + dy) (top_edge + 16)) (snd viewport) else bottom0)
      in \<lparr>bn_x = left, bn_y = top_edge, bn_width = right - left, bn_height = bottom - top_edge\<rparr>)"

type_synonym region = "nat \<times> real \<times> real \<times> real \<times> real"

definition bounds_of_region :: "region \<Rightarrow> bounds" where
  "bounds_of_region r = (case r of (d, x, y, w, h) \<Rightarrow> \<lparr>bn_x = x, bn_y = y, bn_width = w, bn_height = h\<rparr>)"

definition region_of_bounds :: "nat \<Rightarrow> bounds \<Rightarrow> region" where
  "region_of_bounds d b = (d, bn_x b, bn_y b, bn_width b, bn_height b)"

datatype region_drag =
    DragCreate pos
  | DragMove pos bounds
  | DragResize resize_handle pos bounds

definition begin_drag :: "pos \<Rightarrow> bounds option \<Rightarrow> region_drag" where
  "begin_drag p existing =
     (case existing of
        None \<Rightarrow> DragCreate p
      | Some original \<Rightarrow>
          (case region_handle_at p original of
             Some h \<Rightarrow> DragResize h p original
           | None \<Rightarrow> if bn_contains original p then DragMove p original else DragCreate p))"

fun drag_bounds :: "region_drag \<Rightarrow> pos \<Rightarrow> pos \<Rightarrow> bounds" where
  "drag_bounds (DragCreate start) p viewport = normalized_bounds start p"
| "drag_bounds (DragMove start original) p viewport = moved_bounds original p start viewport"
| "drag_bounds (DragResize h start original) p viewport = resized_bounds original h p start viewport"

datatype region_field = FieldX | FieldY | FieldWidth | FieldHeight

definition set_field :: "region_field \<Rightarrow> real \<Rightarrow> int \<times> int \<Rightarrow> bounds \<Rightarrow> bounds" where
  "set_field field value display b =
     (let v = rounded value; dw = of_int (fst display); dh = of_int (snd display)
      in case field of
           FieldX \<Rightarrow> b\<lparr>bn_x := min (max v 0) (max (dw - bn_width b) 0)\<rparr>
         | FieldY \<Rightarrow> b\<lparr>bn_y := min (max v 0) (max (dh - bn_height b) 0)\<rparr>
         | FieldWidth \<Rightarrow> b\<lparr>bn_width := min (max v 1) (max (dw - bn_x b) 1)\<rparr>
         | FieldHeight \<Rightarrow> b\<lparr>bn_height := min (max v 1) (max (dh - bn_y b) 1)\<rparr>)"

text \<open>Nothing happens when the display's size does not fit an \<open>i32\<close>.\<close>

definition set_region_bounds :: "region_field \<Rightarrow> real \<Rightarrow> int \<times> int \<Rightarrow> bounds \<Rightarrow> bounds option" where
  "set_region_bounds field value logical b =
     (if in_signed 32 (fst logical) \<and> in_signed 32 (snd logical) then Some (set_field field value logical b) else None)"

subsection \<open>A drag stays on the display\<close>

text \<open>How far a region may reach beyond the display: \<open>slack\<close>.\<close>

definition on_display :: "real \<Rightarrow> pos \<Rightarrow> bounds \<Rightarrow> bool" where
  "on_display slack viewport b \<longleftrightarrow>
     0 \<le> bn_x b \<and> 0 \<le> bn_y b \<and> bn_right b \<le> fst viewport + slack \<and> bn_bottom b \<le> snd viewport + slack"

definition at_least :: "real \<Rightarrow> bounds \<Rightarrow> bool" where
  "at_least m b \<longleftrightarrow> m \<le> bn_width b \<and> m \<le> bn_height b"

lemmas region_defs = on_display_def at_least_def bn_defs

lemma rounded_floor: "0 \<le> x \<Longrightarrow> rounded x = of_int \<lfloor>x + 1 / 2\<rfloor>"
  by (simp add: rounded_def round_away_def)

lemma rounded_half: "0 \<le> x \<Longrightarrow> 0 \<le> rounded x \<and> x - 1 / 2 < rounded x \<and> rounded x \<le> x + 1 / 2"
  unfolding rounded_floor using floor_correct [of "x + 1 / 2"] by simp linarith

lemma rounded_16: "16 \<le> x \<Longrightarrow> 16 \<le> rounded x"
  by (simp add: rounded_floor le_floor_iff)

definition in_view :: "pos \<Rightarrow> pos \<Rightarrow> bool" where
  "in_view viewport p \<longleftrightarrow> 0 \<le> fst p \<and> fst p \<le> fst viewport \<and> 0 \<le> snd p \<and> snd p \<le> snd viewport"

fun drag_ok :: "real \<Rightarrow> pos \<Rightarrow> region_drag \<Rightarrow> bool" where
  "drag_ok slack viewport (DragCreate start) = in_view viewport start"
| "drag_ok slack viewport (DragMove start original) = (on_display slack viewport original \<and> at_least 16 original)"
| "drag_ok slack viewport (DragResize h start original) = (on_display slack viewport original \<and> at_least 16 original)"

definition positive :: "bounds \<Rightarrow> bool" where
  "positive b \<longleftrightarrow> 0 \<le> bn_width b \<and> 0 \<le> bn_height b"

lemma drag_bounds_on_display:
  assumes "drag_ok slack viewport d" "in_view viewport p" "0 \<le> slack" "slack \<le> 16"
  shows "on_display slack viewport (drag_bounds d p viewport) \<and> positive (drag_bounds d p viewport)"
proof (cases d)
  case (DragCreate start)
  with assms show ?thesis by (auto simp: in_view_def normalized_bounds_def region_defs positive_def min_def)
next
  case (DragMove start b)
  with assms show ?thesis by (auto simp: in_view_def moved_bounds_def region_defs positive_def Let_def)
next
  case (DragResize h start b)
  with assms show ?thesis
    by (cases h; simp add: in_view_def resized_bounds_def region_defs positive_def Let_def; auto simp: min_def max_def)
qed

lemma rounded_on_display:
  assumes "on_display slack viewport b" "positive b"
  shows "on_display (slack + 1) viewport (rounded_bounds b)" "at_least 16 b \<Longrightarrow> at_least 16 (rounded_bounds b)"
proof -
  from assms have nn: "0 \<le> bn_x b" "0 \<le> bn_y b" "0 \<le> bn_width b" "0 \<le> bn_height b"
    by (simp_all add: on_display_def positive_def)
  from assms(1) rounded_half [OF nn(1)] rounded_half [OF nn(2)] rounded_half [OF nn(3)] rounded_half [OF nn(4)]
  show "on_display (slack + 1) viewport (rounded_bounds b)" by (simp add: region_defs rounded_bounds_def)
  show "at_least 16 (rounded_bounds b)" if "at_least 16 b"
    using that by (simp add: at_least_def rounded_bounds_def rounded_16)
qed

lemma resize_minimum:
  assumes "on_display 0 viewport original" "at_least 16 original"
  shows "at_least 16 (resized_bounds original h p start viewport)"
  using assms by (cases h; simp add: resized_bounds_def region_defs Let_def; auto simp: min_def max_def)

text \<open>
  A drag keeps the region on the display. With the pointer on the display, drawing, moving or resizing
  a region never takes its left or top edge off the display and moves its right and bottom edges at
  most one logical pixel further out than the display or the region was before (its origin and its
  size are rounded separately); a region inside the display never becomes smaller than 16 pixels.
\<close>
theorem region_drag_bounded:
  assumes "drag_ok slack viewport d" "in_view viewport p" "0 \<le> slack" "slack \<le> 16"
    and "b = rounded_bounds (drag_bounds d p viewport)"
  shows "on_display (slack + 1) viewport b \<and>
    (\<forall>h start original. d = DragResize h start original \<and> slack = 0 \<longrightarrow> at_least 16 b)"
proof -
  from drag_bounds_on_display [OF assms(1-4)] have on: "on_display slack viewport (drag_bounds d p viewport)"
    and pos: "positive (drag_bounds d p viewport)" by auto
  have "at_least 16 b" if "d = DragResize h start original" "slack = 0" for h start original
  proof (unfold assms(5), rule rounded_on_display(2) [OF on pos])
    from that assms(1) show "at_least 16 (drag_bounds d p viewport)" using resize_minimum by simp
  qed
  with rounded_on_display(1) [OF on pos] assms(5) show ?thesis by auto
qed

text \<open>The pixel is reached, and the next drag can add another.\<close>

lemma region_drifts:
  "rounded_bounds (drag_bounds (DragCreate (1 / 2, 0)) (100, 50) (100, 50))
     = \<lparr>bn_x = 1, bn_y = 0, bn_width = 100, bn_height = 50\<rparr>"
  "rounded_bounds (drag_bounds (DragResize HLeft (1, 0) \<lparr>bn_x = 1, bn_y = 0, bn_width = 100, bn_height = 50\<rparr>)
     (5 / 2, 0) (100, 50)) = \<lparr>bn_x = 3, bn_y = 0, bn_width = 99, bn_height = 50\<rparr>"
  by (simp_all add: rounded_bounds_def normalized_bounds_def resized_bounds_def rounded_def round_away_def bn_defs)

definition wide_drag :: region_drag where
  "wide_drag = DragResize HLeft (1, 0) \<lparr>bn_x = 1, bn_y = 0, bn_width = 100, bn_height = 50\<rparr>"

theorem region_drag_bounded_witness:
  "bn_right (rounded_bounds (drag_bounds wide_drag (5 / 2, 0) (100, 50))) = 102 \<and>
   on_display 2 (100, 50) (rounded_bounds (drag_bounds wide_drag (5 / 2, 0) (100, 50)))"
proof -
  have "drag_ok 1 (100, 50) wide_drag" "in_view (100, 50) (5 / 2, 0)" "(0 :: real) \<le> 1" "(1 :: real) \<le> 16"
    by (simp_all add: region_defs in_view_def wide_drag_def)
  from region_drag_bounded [OF this refl]
  have "on_display 2 (100, 50) (rounded_bounds (drag_bounds wide_drag (5 / 2, 0) (100, 50)))" by simp
  then show ?thesis unfolding wide_drag_def region_drifts(2) by (simp add: bn_right_def)
qed

text \<open>Editing a number keeps a region that is on the display there.\<close>

lemma set_field_on_display:
  assumes "on_display 0 (of_int (fst display), of_int (snd display)) b" "at_least 1 b"
  shows "on_display 0 (of_int (fst display), of_int (snd display)) (set_field f v display b) \<and>
    at_least 1 (set_field f v display b)"
  using assms by (cases f) (auto simp: set_field_def region_defs Let_def)

text \<open>A region made narrower than 16 pixels by its number leaves the display when its left edge is dragged.\<close>

lemma narrow_region_leaves:
  "bn_x (resized_bounds (set_field FieldWidth 1 (100, 50) \<lparr>bn_x = 3, bn_y = 0, bn_width = 40, bn_height = 20\<rparr>)
     HLeft (3, 5) (3, 5) (100, 50)) = - 12"
  by (simp add: set_field_def resized_bounds_def rounded_def round_away_def bn_defs)

end
