(* ===== verification/Profile_Settings.thy ===== *)
theory Profile_Settings
  imports Profiles
begin

section \<open>The profile settings window (ProfileSettings in apps/blip-capture/src/main.rs)\<close>

text \<open>
  The window edits its own copy of the profiles; three text inputs hold the selected profile's name,
  destination and token until they are committed. Saving validates every profile, writes the
  settings file and hands the copy to the toolbar.
\<close>

subsection \<open>The window\<close>

record profile_settings =
  pf_profiles :: recording_profiles
  pf_selected :: nat
  pf_name :: string
  pf_destination :: string
  pf_token :: string
  pf_error :: "string option"

definition edit_profiles :: "(recording_profile list \<Rightarrow> recording_profile list) \<Rightarrow> profile_settings \<Rightarrow> profile_settings" where
  "edit_profiles f s = s\<lparr>pf_profiles := (pf_profiles s)\<lparr>ps_profiles := f (ps_profiles (pf_profiles s))\<rparr>\<rparr>"

text \<open>\<open>get_mut(selected)\<close>: a change of the selected profile, if there is one.\<close>

definition edit_selected :: "(recording_profile \<Rightarrow> recording_profile) \<Rightarrow> profile_settings \<Rightarrow> profile_settings" where
  "edit_selected f s =
     (case list_get (ps_profiles (pf_profiles s)) (pf_selected s) of
        None \<Rightarrow> s
      | Some p \<Rightarrow> edit_profiles (\<lambda>ps. ps[pf_selected s := f p]) s)"

definition committed :: "url_lib \<Rightarrow> profile_settings \<Rightarrow> recording_profile \<Rightarrow> recording_profile" where
  "committed lib s p = p\<lparr>rp_name := trim (pf_name s),
     rp_target := (case rp_target p of
        Local folder \<Rightarrow> Local (trim (pf_destination s))
      | Remote server \<Rightarrow> Remote (join_server_url lib (trim (pf_destination s)) (trim (pf_token s))))\<rparr>"

definition commit_inputs :: "url_lib \<Rightarrow> profile_settings \<Rightarrow> profile_settings" where
  "commit_inputs lib s = edit_selected (committed lib s) s"

definition load_inputs :: "url_lib \<Rightarrow> profile_settings \<Rightarrow> profile_settings" where
  "load_inputs lib s =
     (case list_get (ps_profiles (pf_profiles s)) (pf_selected s) of
        None \<Rightarrow> s
      | Some p \<Rightarrow>
          (case (case rp_target p of Local folder \<Rightarrow> (folder, []) | Remote server \<Rightarrow> split_server_url lib server) of
             (destination, token) \<Rightarrow> s\<lparr>pf_name := rp_name p, pf_destination := destination, pf_token := token\<rparr>))"

definition open_settings :: "url_lib \<Rightarrow> recording_profiles \<Rightarrow> profile_settings" where
  "open_settings lib ps = load_inputs lib \<lparr>pf_profiles = ps, pf_selected = selected_index ps, pf_name = [],
     pf_destination = [], pf_token = [], pf_error = None\<rparr>"

definition show_profile :: "url_lib \<Rightarrow> nat \<Rightarrow> profile_settings \<Rightarrow> profile_settings" where
  "show_profile lib i s = load_inputs lib (s\<lparr>pf_selected := i, pf_error := None\<rparr>)"

definition settings_select :: "url_lib \<Rightarrow> nat \<Rightarrow> profile_settings \<Rightarrow> profile_settings" where
  "settings_select lib i s =
     (let s1 = commit_inputs lib s
      in if list_get (ps_profiles (pf_profiles s1)) i = None then s1 else show_profile lib i s1)"

definition append_profile :: "url_lib \<Rightarrow> recording_profile \<Rightarrow> profile_settings \<Rightarrow> profile_settings" where
  "append_profile lib p s =
     (let s1 = edit_profiles (\<lambda>ps. ps @ [p]) s
      in show_profile lib (length (ps_profiles (pf_profiles s1)) - 1) s1)"

definition desktop_folder :: "string option \<Rightarrow> string" where
  "desktop_folder home = join (home_dir home) ''Desktop''"

definition settings_add :: "url_lib \<Rightarrow> string option \<Rightarrow> nat option \<Rightarrow> profile_settings \<Rightarrow> profile_settings" where
  "settings_add lib home now s = append_profile lib (new_local now (desktop_folder home)) (commit_inputs lib s)"

definition settings_duplicate :: "url_lib \<Rightarrow> nat option \<Rightarrow> profile_settings \<Rightarrow> profile_settings" where
  "settings_duplicate lib now s =
     (let s1 = commit_inputs lib s
      in case list_get (ps_profiles (pf_profiles s1)) (pf_selected s1) of
           None \<Rightarrow> s1
         | Some p \<Rightarrow> append_profile lib (duplicate now p) s1)"

definition remove_profile :: "nat \<Rightarrow> recording_profiles \<Rightarrow> recording_profiles" where
  "remove_profile i ps =
     (let rest = remove_at i (ps_profiles ps)
      in ps\<lparr>ps_profiles := rest,
           ps_selected := (if ps_selected ps = rp_id (ps_profiles ps ! i)
             then (case rest of [] \<Rightarrow> ps_selected ps | p # _ \<Rightarrow> rp_id p) else ps_selected ps)\<rparr>)"

definition settings_delete :: "url_lib \<Rightarrow> profile_settings \<Rightarrow> profile_settings" where
  "settings_delete lib s =
     (if length (ps_profiles (pf_profiles s)) = 1
      then s\<lparr>pf_error := Some ''At least one recording profile is required''\<rparr>
      else if list_get (ps_profiles (pf_profiles s)) (pf_selected s) = None then s
      else (let s1 = s\<lparr>pf_profiles := remove_profile (pf_selected s) (pf_profiles s)\<rparr>
            in show_profile lib (min (pf_selected s) (length (ps_profiles (pf_profiles s1)) - 1)) s1))"

definition remote_profile :: "recording_profile \<Rightarrow> recording_profile" where
  "remote_profile p = p\<lparr>rp_target := Remote ''https://blip.brendonovich.dev/'', rp_format := FormatMp4, rp_action := NoAction\<rparr>"

definition set_remote_profile :: "string option \<Rightarrow> bool \<Rightarrow> recording_profile \<Rightarrow> recording_profile" where
  "set_remote_profile home remote p =
     (case rp_target p of
        Local folder \<Rightarrow> if remote then remote_profile p else p
      | Remote server \<Rightarrow>
          if remote then p
          else p\<lparr>rp_target := Local (desktop_folder home), rp_format := FormatMp4, rp_action := Reveal\<rparr>)"

definition settings_set_remote :: "url_lib \<Rightarrow> string option \<Rightarrow> bool \<Rightarrow> profile_settings \<Rightarrow> profile_settings" where
  "settings_set_remote lib home remote s =
     (let s1 = commit_inputs lib s
      in if list_get (ps_profiles (pf_profiles s1)) (pf_selected s1) = None then s1
         else load_inputs lib ((edit_selected (set_remote_profile home remote) s1)\<lparr>pf_error := None\<rparr>))"

definition settings_set_action :: "completion_action \<Rightarrow> profile_settings \<Rightarrow> profile_settings" where
  "settings_set_action a s = edit_selected (\<lambda>p. p\<lparr>rp_action := a\<rparr>) s"

definition settings_set_format :: "recording_format \<Rightarrow> profile_settings \<Rightarrow> profile_settings" where
  "settings_set_format f s = edit_selected (\<lambda>p. p\<lparr>rp_format := f\<rparr>) s"

text \<open>The first profile that is not valid, with its name.\<close>

fun first_invalid :: "url_lib \<Rightarrow> recording_profile list \<Rightarrow> string option" where
  "first_invalid lib [] = None"
| "first_invalid lib (p # ps) =
     (case validate lib p of Inl e \<Rightarrow> Some (rp_name p @ '': '' @ e) | Inr u \<Rightarrow> first_invalid lib ps)"

text \<open>Saving: the window, the disk, and the profiles given to the toolbar when the window closes.\<close>

definition settings_save ::
    "url_lib \<Rightarrow> settings_codec \<Rightarrow> string option \<Rightarrow> string option \<Rightarrow> write_reply \<Rightarrow> profile_settings \<Rightarrow> disk \<Rightarrow>
     profile_settings \<times> disk \<times> recording_profiles option" where
  "settings_save lib codec home dir_reply reply s d =
     (let s1 = commit_inputs lib s
      in case first_invalid lib (ps_profiles (pf_profiles s1)) of
           Some e \<Rightarrow> (s1\<lparr>pf_error := Some e\<rparr>, d, None)
         | None \<Rightarrow>
             (case save_profiles codec home dir_reply reply (pf_profiles s1) d of
                (d1, Inl e) \<Rightarrow> (s1\<lparr>pf_error := Some e\<rparr>, d1, None)
              | (d1, Inr u) \<Rightarrow> (s1, d1, Some (pf_profiles s1))))"

subsection \<open>Its operations\<close>

datatype settings_op =
    TypeName string
  | TypeDestination string
  | TypeToken string
  | SelectProfile nat
  | AddProfile "nat option"
  | DuplicateProfile "nat option"
  | DeleteProfile
  | SetRemote bool
  | SetAction completion_action
  | SetFormat recording_format

fun settings_run :: "url_lib \<Rightarrow> string option \<Rightarrow> settings_op \<Rightarrow> profile_settings \<Rightarrow> profile_settings" where
  "settings_run lib home (TypeName t) s = s\<lparr>pf_name := t\<rparr>"
| "settings_run lib home (TypeDestination t) s = s\<lparr>pf_destination := t\<rparr>"
| "settings_run lib home (TypeToken t) s = s\<lparr>pf_token := t\<rparr>"
| "settings_run lib home (SelectProfile i) s = settings_select lib i s"
| "settings_run lib home (AddProfile now) s = settings_add lib home now s"
| "settings_run lib home (DuplicateProfile now) s = settings_duplicate lib now s"
| "settings_run lib home DeleteProfile s = settings_delete lib s"
| "settings_run lib home (SetRemote b) s = settings_set_remote lib home b s"
| "settings_run lib home (SetAction a) s = settings_set_action a s"
| "settings_run lib home (SetFormat f) s = settings_set_format f s"

subsection \<open>There is always a profile, and one of them is selected\<close>

definition profiles_ok :: "recording_profiles \<Rightarrow> bool" where
  "profiles_ok ps \<longleftrightarrow> ps_profiles ps \<noteq> [] \<and> ps_selected ps \<in> rp_id ` set (ps_profiles ps)"

definition settings_ok :: "profile_settings \<Rightarrow> bool" where
  "settings_ok s \<longleftrightarrow> profiles_ok (pf_profiles s) \<and> pf_selected s < length (ps_profiles (pf_profiles s))"

lemma load_inputs_keeps [simp]:
  "pf_profiles (load_inputs lib s) = pf_profiles s" "pf_selected (load_inputs lib s) = pf_selected s"
  by (auto simp: load_inputs_def split: option.split prod.split)

lemma show_profile_fields [simp]:
  "pf_profiles (show_profile lib i s) = pf_profiles s" "pf_selected (show_profile lib i s) = i"
  by (simp_all add: show_profile_def)

lemma ids_update: "i < length ps \<Longrightarrow> rp_id p = rp_id (ps ! i) \<Longrightarrow> rp_id ` set (ps[i := p]) = rp_id ` set ps"
  using map_update_same [of i ps rp_id p] by (metis set_map)

lemma edit_selected_keeps:
  assumes "\<And>p. rp_id (f p) = rp_id p"
  shows "length (ps_profiles (pf_profiles (edit_selected f s))) = length (ps_profiles (pf_profiles s))"
    "rp_id ` set (ps_profiles (pf_profiles (edit_selected f s))) = rp_id ` set (ps_profiles (pf_profiles s))"
    "ps_selected (pf_profiles (edit_selected f s)) = ps_selected (pf_profiles s)"
    "pf_selected (edit_selected f s) = pf_selected s"
    "settings_ok s \<Longrightarrow> settings_ok (edit_selected f s)"
proof -
  show l: "length (ps_profiles (pf_profiles (edit_selected f s))) = length (ps_profiles (pf_profiles s))"
    and i: "rp_id ` set (ps_profiles (pf_profiles (edit_selected f s))) = rp_id ` set (ps_profiles (pf_profiles s))"
    and p: "ps_selected (pf_profiles (edit_selected f s)) = ps_selected (pf_profiles s)"
    and n: "pf_selected (edit_selected f s) = pf_selected s"
    using assms by (auto simp: edit_selected_def edit_profiles_def list_get_eq ids_update split: option.split if_splits)
  assume "settings_ok s"
  then show "settings_ok (edit_selected f s)"
    unfolding settings_ok_def profiles_ok_def l i p n using l by auto
qed

lemma commit_keeps:
  "settings_ok s \<Longrightarrow> settings_ok (commit_inputs lib s)" "pf_selected (commit_inputs lib s) = pf_selected s"
  unfolding commit_inputs_def by (rule edit_selected_keeps; simp add: committed_def)+

lemma append_keeps: "settings_ok s \<Longrightarrow> settings_ok (append_profile lib p s)"
  by (auto simp: settings_ok_def profiles_ok_def append_profile_def edit_profiles_def Let_def)

lemma remote_id: "rp_id (set_remote_profile home b p) = rp_id p"
  by (simp add: set_remote_profile_def remote_profile_def split: recording_target.split)

lemma error_keeps [simp]: "settings_ok (s\<lparr>pf_error := e\<rparr>) = settings_ok s"
  "settings_ok (load_inputs lib s) = settings_ok s"
  by (simp_all add: settings_ok_def)

lemma remove_ids:
  assumes "i < length xs"
  shows "insert (f (xs ! i)) (f ` set (remove_at i xs)) = f ` set xs"
proof -
  have "set xs = insert (xs ! i) (set (remove_at i xs))"
    using assms by (subst id_take_nth_drop [OF assms]) (auto simp: remove_at_def)
  then show ?thesis by simp
qed

lemma delete_keeps: "settings_ok s \<Longrightarrow> settings_ok (settings_delete lib s)"
proof -
  let ?ps = "ps_profiles (pf_profiles s)"
  let ?rest = "remove_at (pf_selected s) ?ps"
  assume ok: "settings_ok s"
  show "settings_ok (settings_delete lib s)"
  proof (cases "length ?ps = 1 \<or> list_get ?ps (pf_selected s) = None")
    case True
    with ok show ?thesis by (auto simp: settings_delete_def)
  next
    case False
    with ok have i: "pf_selected s < length ?ps" and len: "length ?rest = length ?ps - 1" "2 \<le> length ?ps"
      by (auto simp: settings_ok_def length_remove_at list_get_eq split: if_splits)
    then have ne: "?rest \<noteq> []" by auto
    have "ps_selected (pf_profiles s) \<in> insert (rp_id (?ps ! pf_selected s)) (rp_id ` set ?rest)"
      using ok unfolding remove_ids [OF i] settings_ok_def profiles_ok_def by blast
    with ne have "ps_selected (remove_profile (pf_selected s) (pf_profiles s)) \<in> rp_id ` set ?rest"
      by (cases ?rest) (auto simp: remove_profile_def Let_def)
    then have "profiles_ok (remove_profile (pf_selected s) (pf_profiles s))"
      using ne by (simp add: profiles_ok_def remove_profile_def Let_def)
    moreover have "ps_profiles (remove_profile (pf_selected s) (pf_profiles s)) = ?rest"
      by (simp add: remove_profile_def Let_def)
    ultimately show ?thesis
      using False len by (auto simp: settings_delete_def settings_ok_def Let_def)
  qed
qed

interpretation settings_machine: op_machine "settings_run lib home" settings_ok
proof
  fix s op
  assume ok: "settings_ok s"
  show "settings_ok (settings_run lib home op s)"
  proof (cases op)
    case (SelectProfile i)
    have "settings_ok (commit_inputs lib s)" using ok by (rule commit_keeps)
    with SelectProfile show ?thesis
      by (auto simp: settings_select_def Let_def settings_ok_def list_get_eq split: if_splits)
  next
    case (AddProfile now)
    with ok show ?thesis by (simp add: settings_add_def append_keeps commit_keeps)
  next
    case (DuplicateProfile now)
    with ok show ?thesis
      by (auto simp: settings_duplicate_def Let_def append_keeps commit_keeps split: option.split)
  next
    case DeleteProfile
    with ok delete_keeps show ?thesis by simp
  next
    case (SetRemote b)
    have "settings_ok (edit_selected (set_remote_profile home b) (commit_inputs lib s))"
      using commit_keeps(1) [OF ok] by (rule edit_selected_keeps(5) [rotated]) (rule remote_id)
    with SetRemote commit_keeps(1) [OF ok] show ?thesis by (simp add: settings_set_remote_def Let_def)
  next
    case (SetAction a)
    with ok show ?thesis by (simp add: settings_set_action_def edit_selected_keeps)
  next
    case (SetFormat f)
    with ok show ?thesis by (simp add: settings_set_format_def edit_selected_keeps)
  qed (use ok in \<open>simp_all add: settings_ok_def\<close>)
qed

subsection \<open>Saving, and the next start\<close>

lemma open_settings_ok:
  assumes "profiles_ok ps"
  shows "settings_ok (open_settings lib ps)"
proof -
  from assms obtain i where "position (\<lambda>p. rp_id p = ps_selected ps) (ps_profiles ps) = Some i"
    by (cases "position (\<lambda>p. rp_id p = ps_selected ps) (ps_profiles ps)")
      (auto simp: profiles_ok_def position_None_iff)
  then have "selected_index ps < length (ps_profiles ps)"
    using position_Some_iff [of "\<lambda>p. rp_id p = ps_selected ps" "ps_profiles ps" i]
    by (simp add: selected_index_def)
  with assms show ?thesis by (simp add: open_settings_def settings_ok_def)
qed

lemma loaded_ok: "profiles_ok (load_profiles codec home temp readable d)"
  using load_profiles_selected [of codec home temp readable d] by (force simp: profiles_ok_def)

lemma session_ok:
  "settings_ok (fold (settings_run lib home) ops (open_settings lib (load_profiles codec home temp readable d)))"
  by (intro settings_machine.fold_inv open_settings_ok loaded_ok)

lemma first_invalid_None: "first_invalid lib ps = None \<longleftrightarrow> (\<forall>p \<in> set ps. validate lib p = Inr ())"
  by (induction ps) (auto split: sum.split)

text \<open>Settings that were written are what loading reads, when they have a selected profile.\<close>

lemma load_saved:
  assumes "save_profiles codec home dir_reply reply ps d = (d', Inr u)" "profiles_ok ps"
    and "\<And>c. sc_encode codec ps = Inr c \<Longrightarrow> sc_decode codec c = Some ps"
  shows "load_profiles codec home temp True d' = ps"
proof -
  from assms(1) obtain c where c: "sc_encode codec ps = Inr c" "dk_files d' (settings_path home) = Some c"
    by (auto simp: save_profiles_def fs_write_def split: prod.splits sum.splits write_reply.splits option.splits)
  have "list_ex (\<lambda>q. rp_id q = ps_selected ps) (ps_profiles ps)"
    using assms(2) by (force simp: profiles_ok_def list_ex_iff)
  with c assms(3) [OF c(1)] show ?thesis by (cases "ps_profiles ps") (simp_all add: load_profiles_def)
qed

lemma save_profiles_writes:
  "save_profiles codec home dir_reply reply ps d = (d', r) \<Longrightarrow> path \<noteq> settings_path home \<Longrightarrow>
     dk_files d' path = dk_files d path"
  by (auto simp: save_profiles_def fs_create_dir_def fs_write_def
      split: option.splits sum.splits write_reply.splits)

text \<open>
  C24: the settings window over a whole session: opened on the profiles that were loaded, edited by any
  operations, saved. What the window hands to the toolbar has profiles, every one valid, and one of
  them selected, and it is exactly what the next start loads from the disk. When the save fails, the
  toolbar gets nothing and an error is shown; with an invalid profile nothing is written at all. No
  other file is ever touched.
\<close>
theorem settings_save_correct:
  assumes "settings_save lib codec home dir_reply reply
      (fold (settings_run lib home) ops (open_settings lib (load_profiles codec home temp readable d0))) d = (s', d', saved)"
    and "\<And>ps c. sc_encode codec ps = Inr c \<Longrightarrow> sc_decode codec c = Some ps"
  shows "(case saved of
        Some ps \<Rightarrow> ps = pf_profiles s' \<and> profiles_ok ps \<and> (\<forall>p \<in> set (ps_profiles ps). validate lib p = Inr ())
          \<and> load_profiles codec home temp True d' = ps
      | None \<Rightarrow> pf_error s' \<noteq> None \<and>
          ((\<exists>p \<in> set (ps_profiles (pf_profiles s')). validate lib p \<noteq> Inr ()) \<longrightarrow> d' = d))
    \<and> settings_ok s' \<and> (\<forall>path. path \<noteq> settings_path home \<longrightarrow> dk_files d' path = dk_files d path)"
proof -
  let ?s = "fold (settings_run lib home) ops (open_settings lib (load_profiles codec home temp readable d0))"
  let ?s1 = "commit_inputs lib ?s"
  have ok: "settings_ok ?s1" by (rule commit_keeps(1) [OF session_ok])
  show ?thesis
  proof (cases "first_invalid lib (ps_profiles (pf_profiles ?s1))")
    case (Some e)
    with assms(1) ok show ?thesis by (auto simp: settings_save_def Let_def)
  next
    case None
    then have valid: "\<forall>p \<in> set (ps_profiles (pf_profiles ?s1)). validate lib p = Inr ()"
      by (simp add: first_invalid_None)
    obtain d1 r where save: "save_profiles codec home dir_reply reply (pf_profiles ?s1) d = (d1, r)"
      by fastforce
    show ?thesis
    proof (cases r)
      case (Inl e)
      with assms(1) None save valid ok save_profiles_writes [OF save] show ?thesis
        by (auto simp: settings_save_def Let_def)
    next
      case (Inr u)
      have good: "profiles_ok (pf_profiles ?s1)" using ok by (simp add: settings_ok_def)
      have "load_profiles codec home temp True d1 = pf_profiles ?s1"
        by (rule load_saved [OF save [unfolded Inr] good assms(2)])
      with assms(1) None save Inr valid ok good save_profiles_writes [OF save] show ?thesis
        by (auto simp: settings_save_def Let_def)
    qed
  qed
qed

subsection \<open>Links opened while the window is open\<close>

text \<open>
  \<open>import_profile_urls\<close>, the links that are no bundles: when there are any, they are imported one
  after the other into the profiles on disk and these saved; the toolbar gets them only when
  everything went well. Each link comes with the clock at its import.
\<close>

fun import_links ::
    "url_lib \<Rightarrow> (nat option \<times> string) list \<Rightarrow> recording_profiles \<Rightarrow> recording_profiles \<times> (string + unit)" where
  "import_links lib [] ps = (ps, Inr ())"
| "import_links lib ((now, link) # links) ps =
     (case import_url lib now link ps of
        (ps1, Inl e) \<Rightarrow> (ps1, Inl e)
      | (ps1, Inr u) \<Rightarrow> import_links lib links ps1)"

definition import_profile_urls ::
    "url_lib \<Rightarrow> settings_codec \<Rightarrow> string option \<Rightarrow> string \<Rightarrow> bool \<Rightarrow> string option \<Rightarrow> write_reply \<Rightarrow>
     (nat option \<times> string) list \<Rightarrow> disk \<Rightarrow> disk \<times> (string + recording_profiles) option" where
  "import_profile_urls lib codec home temp readable dir_reply reply links d =
     (if links = [] then (d, None)
      else case import_links lib links (load_profiles codec home temp readable d) of
        (ps, Inl e) \<Rightarrow> (d, Some (Inl e))
      | (ps, Inr u) \<Rightarrow>
          (case save_profiles codec home dir_reply reply ps d of
             (d1, Inl e) \<Rightarrow> (d1, Some (Inl e))
           | (d1, Inr v) \<Rightarrow> (d1, Some (Inr ps))))"

text \<open>
  The window's copy was taken when it opened: a profile that a link adds meanwhile, on disk and in
  the toolbar, is gone from both after the window is saved.
\<close>

definition two_profiles :: recording_profiles where
  "two_profiles = fst (import_url sample_urls (Some 7) ''link'' one_profile)"

definition sample_codec :: settings_codec where
  "sample_codec = \<lparr>sc_encode = (\<lambda>ps. if ps = one_profile then Inr ''one''
       else if ps = two_profiles then Inr ''two'' else Inl ''no''),
     sc_decode = (\<lambda>c. if c = ''one'' then Some one_profile else if c = ''two'' then Some two_profiles else None)\<rparr>"

lemma sample_codec_decodes: "sc_encode sample_codec ps = Inr c \<Longrightarrow> sc_decode sample_codec c = Some ps"
  by (auto simp: sample_codec_def split: if_splits)

lemma two_profiles_eq: "import_url sample_urls (Some 7) ''link'' one_profile = (two_profiles, Inr ())"
  "length (ps_profiles two_profiles) = 2"
  by (simp_all add: two_profiles_def profile_eval Let_def)

lemma two_not_one: "two_profiles \<noteq> one_profile"
proof
  assume "two_profiles = one_profile"
  with two_profiles_eq(2) have "length (ps_profiles one_profile) = 2" by simp
  then show False by (simp add: one_profile_def)
qed

lemma sample_codec_simps [simp]:
  "sc_encode sample_codec one_profile = Inr ''one''" "sc_encode sample_codec two_profiles = Inr ''two''"
  "sc_decode sample_codec ''one'' = Some one_profile" "sc_decode sample_codec ''two'' = Some two_profiles"
  using two_not_one by (simp_all add: sample_codec_def)

definition one_saved :: disk where
  "one_saved = no_files\<lparr>dk_files := Map.empty(settings_path None \<mapsto> ''one'')\<rparr>"

lemma one_loads:
  "(case ps_profiles one_profile of [] \<Rightarrow> x
    | first # _ \<Rightarrow> if list_ex (\<lambda>p. rp_id p = ps_selected one_profile) (ps_profiles one_profile) then one_profile
        else y first) = one_profile"
  by (simp add: one_profile_def local_profile_def)

lemma one_loaded: "load_profiles sample_codec None temp True one_saved = one_profile"
  by (simp add: load_profiles_def one_saved_def sample_codec_def one_profile_def local_profile_def)

lemma one_window:
  "commit_inputs sample_urls (open_settings sample_urls one_profile) = open_settings sample_urls one_profile"
  "first_invalid sample_urls (ps_profiles one_profile) = None"
  by (simp_all add: profile_eval open_settings_def load_inputs_def commit_inputs_def committed_def edit_selected_def
    edit_profiles_def)

lemma one_window_saves:
  "settings_save sample_urls sample_codec None None Written (open_settings sample_urls one_profile) d =
     (open_settings sample_urls one_profile,
      d\<lparr>dk_files := (dk_files d)(settings_path None \<mapsto> ''one''), dk_dirs := insert (settings_folder None) (dk_dirs d)\<rparr>,
      Some one_profile)"
proof -
  have "pf_profiles (open_settings sample_urls one_profile) = one_profile" by (simp add: open_settings_def)
  then show ?thesis
    by (simp add: settings_save_def Let_def one_window save_profiles_def fs_create_dir_def fs_write_def
      sample_codec_def)
qed

lemma save_forgets_import:
  "\<exists>d1 s d2. import_profile_urls sample_urls sample_codec None [] True None Written [(Some 7, ''link'')] one_saved
       = (d1, Some (Inr two_profiles))
     \<and> settings_save sample_urls sample_codec None None Written (open_settings sample_urls one_profile) d1
       = (s, d2, Some one_profile)
     \<and> load_profiles sample_codec None [] True d1 = two_profiles \<and> load_profiles sample_codec None [] True d2 = one_profile"
proof -
  let ?d = "one_saved\<lparr>dk_files := (dk_files one_saved)(settings_path None \<mapsto> ''two''),
    dk_dirs := insert (settings_folder None) (dk_dirs one_saved)\<rparr>"
  have "ps_profiles two_profiles \<noteq> []" using two_profiles_eq(2) by auto
  moreover have "profiles_ok two_profiles"
    by (simp add: two_profiles_def profiles_ok_def profile_eval Let_def)
  ultimately have two: "load_profiles sample_codec None [] True ?d = two_profiles"
    by (cases "ps_profiles two_profiles")
      (force simp: load_profiles_def profiles_ok_def list_ex_iff)+
  have "import_profile_urls sample_urls sample_codec None [] True None Written [(Some 7, ''link'')] one_saved
      = (?d, Some (Inr two_profiles))"
    by (simp add: import_profile_urls_def one_loaded two_profiles_eq save_profiles_def fs_create_dir_def fs_write_def)
  moreover have "load_profiles sample_codec None [] True (?d\<lparr>dk_files := (dk_files ?d)(settings_path None \<mapsto> ''one'')\<rparr>)
      = one_profile"
    by (simp add: load_profiles_def one_loads)
  ultimately show ?thesis using two
    by (auto simp: one_window_saves load_profiles_def one_loads)
qed

theorem settings_save_correct_witness:
  "\<exists>s d. settings_save sample_urls sample_codec None None Written
       (fold (settings_run sample_urls None) [] (open_settings sample_urls (load_profiles sample_codec None [] True one_saved)))
       one_saved = (s, d, Some one_profile)
     \<and> load_profiles sample_codec None [] True d = one_profile"
proof -
  obtain s d where save: "settings_save sample_urls sample_codec None None Written
       (fold (settings_run sample_urls None) [] (open_settings sample_urls (load_profiles sample_codec None [] True one_saved)))
       one_saved = (s, d, Some one_profile)"
    by (simp add: one_loaded one_window_saves)
  from settings_save_correct [OF this sample_codec_decodes]
  have "load_profiles sample_codec None [] True d = one_profile" by simp
  with save show ?thesis by blast
qed

end
