(* ===== verification/Output_Paths.thy ===== *)
theory Output_Paths
  imports Profiles Bundle
begin

section \<open>Where a recording is written (apps/blip-capture/src/main.rs)\<close>

text \<open>
  \<open>output_destination\<close> and what it uses: the file name made from the window or display that is
  recorded, the first free name in the profile's folder, and the bundle that is created there. A title
  is a list of Unicode code points; a path is the list of its bytes.
\<close>

subsection \<open>Unicode text\<close>

type_synonym unicode = "nat list"

fun utf8_len :: "nat \<Rightarrow> nat" where
  "utf8_len c = (if c < 128 then 1 else if c < 2048 then 2 else if c < 65536 then 3 else 4)"

definition utf8_char :: "nat \<Rightarrow> string" where
  "utf8_char c =
     (if c < 128 then [char_of c]
      else if c < 2048 then [char_of (192 + c div 64), char_of (128 + c mod 64)]
      else if c < 65536
        then [char_of (224 + c div 4096), char_of (128 + c div 64 mod 64), char_of (128 + c mod 64)]
      else [char_of (240 + c div 262144), char_of (128 + c div 4096 mod 64), char_of (128 + c div 64 mod 64),
        char_of (128 + c mod 64)])"

definition utf8 :: "unicode \<Rightarrow> string" where
  "utf8 s = concat (map utf8_char s)"

definition byte_len :: "unicode \<Rightarrow> nat" where
  "byte_len s = sum_list (map utf8_len s)"

definition is_control :: "nat \<Rightarrow> bool" where
  "is_control c = (c < 32 \<or> 127 \<le> c \<and> c < 160)"

definition is_white :: "nat \<Rightarrow> bool" where
  "is_white c = (9 \<le> c \<and> c \<le> 13 \<or> 8192 \<le> c \<and> c \<le> 8202 \<or> c \<in> {32, 133, 160, 5760, 8232, 8233, 8239, 8287, 12288})"

definition trim_unicode :: "unicode \<Rightarrow> unicode" where
  "trim_unicode s = rev (dropWhile is_white (rev (dropWhile is_white s)))"

definition ascii :: "string \<Rightarrow> unicode" where
  "ascii s = map of_char s"

subsection \<open>File names\<close>

definition is_char_boundary :: "unicode \<Rightarrow> nat \<Rightarrow> bool" where
  "is_char_boundary s n = list_ex (\<lambda>k. n = byte_len (take k s)) [0..<length s + 1]"

text \<open>\<open>while !is_char_boundary(end) { end = end.saturating_sub(1) }\<close>: zero is a boundary.\<close>

fun back_to_boundary :: "unicode \<Rightarrow> nat \<Rightarrow> nat" where
  "back_to_boundary s 0 = 0"
| "back_to_boundary s (Suc n) = (if is_char_boundary s (Suc n) then Suc n else back_to_boundary s n)"

fun truncate_bytes :: "nat \<Rightarrow> unicode \<Rightarrow> unicode" where
  "truncate_bytes n [] = []"
| "truncate_bytes n (c # cs) = (if utf8_len c \<le> n then c # truncate_bytes (n - utf8_len c) cs else [])"

definition sanitize_char :: "nat \<Rightarrow> nat" where
  "sanitize_char c = (if c = 47 \<or> c = 58 \<or> is_control c then 45 else c)"

definition sanitize_filename :: "unicode \<Rightarrow> unicode" where
  "sanitize_filename name =
     (let sanitized = map sanitize_char (trim_unicode name)
      in if sanitized = [] then ascii ''Recording''
         else truncate_bytes (back_to_boundary sanitized (min (byte_len sanitized) 150)) sanitized)"

definition window_name :: "unicode option \<Rightarrow> unicode option \<Rightarrow> nat \<Rightarrow> unicode" where
  "window_name application title ident =
     (case (application, if (case title of None \<Rightarrow> True | Some t \<Rightarrow> trim_unicode t = []) then None else title) of
        (Some a, Some t) \<Rightarrow> a @ ascii '' - '' @ t
      | (Some a, None) \<Rightarrow> a
      | (None, Some t) \<Rightarrow> t
      | (None, None) \<Rightarrow> ascii (''Window '' @ show_nat ident))"

subsection \<open>A free path\<close>

text \<open>The loop over the suffixes 2, 3, ... of a \<open>u32\<close>; None when they are exhausted. The builds differ at the very
end: with overflow checks the range panics when it would yield \<open>u32::MAX\<close>, a release build tries that suffix too and
would go on with 0 and 1. The model tries it.\<close>

function first_free :: "(string \<Rightarrow> bool) \<Rightarrow> (nat \<Rightarrow> string) \<Rightarrow> nat \<Rightarrow> string option" where
  "first_free taken_path candidate suffix =
     (if u32_max < suffix then None
      else if \<not> taken_path (candidate suffix) then Some (candidate suffix)
      else first_free taken_path candidate (suffix + 1))"
  by pat_completeness auto
termination
  by (relation "measure (\<lambda>(t, c, suffix). u32_max + 1 - suffix)") auto

declare first_free.simps [simp del]

definition unique_output_path :: "'txt Bundle.disk \<Rightarrow> string \<Rightarrow> string \<Rightarrow> string \<Rightarrow> string option" where
  "unique_output_path d folder filename extension =
     (let initial = path_join folder (filename @ ''.'' @ extension)
      in if \<not> exists_at d initial then Some initial
         else first_free (exists_at d)
           (\<lambda>suffix. path_join folder (filename @ '' '' @ show_nat suffix @ ''.'' @ extension)) 2)"

subsection \<open>The destination\<close>

record output_destination =
  od_media_path :: string
  od_camera_media_path :: "string option"
  od_system_audio_media_path :: "string option"
  od_bundle_path :: "string option"
  od_completed_path :: string
  od_cleanup_on_failure :: "string option"

datatype output_error = FolderError string | BundleFailed bundle_error | NamesExhausted

text \<open>\<open>create_dir_all\<close> makes the folder and its ancestors, or fails with the error.\<close>

definition create_dir_all :: "string \<Rightarrow> string option \<Rightarrow> 'txt Bundle.disk \<Rightarrow> output_error + 'txt Bundle.disk" where
  "create_dir_all folder reply d =
     (case reply of
        Some e \<Rightarrow> Inl (FolderError (''failed to create recording folder: '' @ e))
      | None \<Rightarrow> Inr (d\<lparr>dk_dirs := (\<lambda>p. dk_dirs d p \<or> under p folder)\<rparr>))"

definition file_destination :: "string \<Rightarrow> bool \<Rightarrow> output_destination" where
  "file_destination path cleanup =
     \<lparr>od_media_path = path, od_camera_media_path = None, od_system_audio_media_path = None, od_bundle_path = None,
      od_completed_path = path, od_cleanup_on_failure = (if cleanup then Some path else None)\<rparr>"

text \<open>The bundle's part: created, its crop saved, and the paths of its inputs.\<close>

definition save_crop ::
    "'txt json \<Rightarrow> string \<Rightarrow> camera_crop option \<Rightarrow> blip_bundle \<Rightarrow> 'txt Bundle.disk \<Rightarrow> output_error + (blip_bundle \<times> 'txt Bundle.disk)" where
  "save_crop j path crop b d =
     (case crop of
        None \<Rightarrow> Inr (b, d)
      | Some c \<Rightarrow>
          (let b' = b\<lparr>bb_camera_layout := (bb_camera_layout b)\<lparr>cl_crop := c\<rparr>\<rparr>
           in map_ok (Pair b') (map_err BundleFailed (save_project_config j d path b'))))"

definition bundle_paths :: "string \<Rightarrow> blip_bundle \<Rightarrow> output_error + output_destination" where
  "bundle_paths path b =
     map_ok (\<lambda>media. \<lparr>od_media_path = media, od_camera_media_path = input_media_path b path ''camera'',
         od_system_audio_media_path = input_media_path b path ''system_audio'', od_bundle_path = Some path,
         od_completed_path = path, od_cleanup_on_failure = Some path\<rparr>)
       (map_err BundleFailed (media_path b path))"

definition bundle_destination ::
    "'txt json \<Rightarrow> int \<Rightarrow> string \<Rightarrow> camera_crop option \<Rightarrow> bool \<Rightarrow> 'txt Bundle.disk \<Rightarrow>
     (output_error + output_destination) \<times> 'txt Bundle.disk" where
  "bundle_destination j now path crop system_audio d =
     (case create_bundle j now d path (crop \<noteq> None) system_audio of
        (Inl e, d1) \<Rightarrow> (Inl (BundleFailed e), d1)
      | (Inr b, d1) \<Rightarrow>
          (case save_crop j path crop b d1 of
             Inl e \<Rightarrow> (Inl e, d1)
           | Inr (b', d2) \<Rightarrow> (bundle_paths path b', d2)))"

definition recording_folder :: "string \<Rightarrow> recording_profile \<Rightarrow> string" where
  "recording_folder temp_dir p =
     (case rp_target p of Local folder \<Rightarrow> folder | Remote server \<Rightarrow> path_join temp_dir ''blip-capture'')"

definition recording_filename :: "unicode \<Rightarrow> string \<Rightarrow> string" where
  "recording_filename target_name date = utf8 (sanitize_filename target_name) @ '' - '' @ date"

definition recording_extension :: "recording_format \<Rightarrow> string" where
  "recording_extension f = (case f of FormatHls \<Rightarrow> ''hls'' | FormatBundle \<Rightarrow> ''blip'' | FormatMp4 \<Rightarrow> ''mp4'')"

definition output_destination_of ::
    "'txt json \<Rightarrow> int \<Rightarrow> string \<Rightarrow> string \<Rightarrow> string option \<Rightarrow> recording_profile \<Rightarrow> unicode \<Rightarrow> camera_crop option \<Rightarrow> bool \<Rightarrow>
     'txt Bundle.disk \<Rightarrow> (output_error + output_destination) \<times> 'txt Bundle.disk" where
  "output_destination_of j now date temp_dir reply p target_name crop system_audio d =
     (let folder = recording_folder temp_dir p
      in case create_dir_all folder reply d of
           Inl e \<Rightarrow> (Inl e, d)
         | Inr d1 \<Rightarrow>
             (case unique_output_path d1 folder (recording_filename target_name date) (recording_extension (rp_format p)) of
                None \<Rightarrow> (Inl NamesExhausted, d1)
              | Some path \<Rightarrow>
                  (case rp_format p of
                     FormatHls \<Rightarrow> (Inr (file_destination path True), d1)
                   | FormatBundle \<Rightarrow> bundle_destination j now path crop system_audio d1
                   | FormatMp4 \<Rightarrow> (Inr (file_destination path False), d1))))"

subsection \<open>What the file name can be\<close>

lemma utf8_len_pos [simp]: "0 < utf8_len c" "utf8_len c \<le> 4"
  by auto

declare utf8_len.simps [simp del]

lemma byte_len_simps [simp]: "byte_len [] = 0" "byte_len (c # cs) = utf8_len c + byte_len cs"
  "byte_len (s @ t) = byte_len s + byte_len t"
  by (simp_all add: byte_len_def)

lemma back_le: "back_to_boundary s n \<le> n"
  by (induction n) auto

lemma boundary_iff: "is_char_boundary s n \<longleftrightarrow> (\<exists>k \<le> length s. n = byte_len (take k s))"
  unfolding is_char_boundary_def list_ex_iff set_upt by (auto simp: Bex_def less_Suc_eq_le)

lemma back_boundary: "\<exists>k \<le> length s. back_to_boundary s n = byte_len (take k s)"
proof (induction n)
  case 0
  show ?case by (intro exI [of _ 0]) simp
next
  case (Suc n)
  then show ?case using boundary_iff [of s "Suc n"] by auto
qed

lemma back_max: "k \<le> length s \<Longrightarrow> byte_len (take k s) \<le> n \<Longrightarrow> byte_len (take k s) \<le> back_to_boundary s n"
proof (induction n)
  case (Suc n)
  show ?case
  proof (cases "byte_len (take k s) = Suc n")
    case True
    with Suc.prems(1) have "is_char_boundary s (Suc n)" unfolding boundary_iff by metis
    with True show ?thesis by simp
  next
    case False
    with Suc show ?thesis using back_le [of s n] by (auto simp: le_Suc_eq)
  qed
qed simp

lemma truncate_take: "k \<le> length s \<Longrightarrow> truncate_bytes (byte_len (take k s)) s = take k s"
proof (induction s arbitrary: k)
  case (Cons c cs)
  show ?case
  proof (cases k)
    case 0
    then show ?thesis by (simp add: not_le)
  next
    case (Suc j)
    with Cons show ?thesis by simp
  qed
qed simp

text \<open>Truncating at a boundary of at most \<open>n\<close> bytes keeps the longest prefix that fits.\<close>

lemma truncate_prefix:
  assumes "r = truncate_bytes (back_to_boundary s (min (byte_len s) n)) s"
  shows "\<exists>rest. s = r @ rest \<and> byte_len r \<le> n \<and> (rest \<noteq> [] \<longrightarrow> n < byte_len r + utf8_len (hd rest))"
proof -
  let ?m = "min (byte_len s) n"
  obtain k where k: "k \<le> length s" "back_to_boundary s ?m = byte_len (take k s)" using back_boundary by blast
  with assms truncate_take have r: "r = take k s" by simp
  have le: "byte_len r \<le> n" using back_le [of s ?m] k r by simp
  have "n < byte_len r + utf8_len (hd (drop k s))" if "drop k s \<noteq> []"
  proof (rule ccontr)
    assume c: "\<not> ?thesis"
    have lt: "k < length s" using that by simp
    then have t: "take (Suc k) s = take k s @ [hd (drop k s)]" by (simp add: take_Suc_conv_app_nth hd_drop_conv_nth)
    then have b: "byte_len (take (Suc k) s) = byte_len r + utf8_len (hd (drop k s))" by (simp add: r)
    moreover have "byte_len (take (Suc k) s) \<le> byte_len s"
      by (metis append_take_drop_id byte_len_simps(3) le_add1)
    ultimately have "byte_len (take (Suc k) s) \<le> ?m" using c by simp
    with back_max [of "Suc k" s ?m] lt k b r show False using utf8_len_pos(1) [of "hd (drop k s)"] by simp
  qed
  with r le show ?thesis by (intro exI [of _ "drop k s"]) simp
qed

definition plain_char :: "nat \<Rightarrow> bool" where
  "plain_char c \<longleftrightarrow> c \<noteq> 47 \<and> c \<noteq> 58 \<and> \<not> is_control c"

lemma sanitize_char_plain: "plain_char (sanitize_char c)"
  by (simp add: plain_char_def sanitize_char_def is_control_def)

lemma sanitized:
  "let r = sanitize_filename name
   in r \<noteq> [] \<and> byte_len r \<le> 150 \<and> list_all plain_char r \<and>
      (if trim_unicode name = [] then r = ascii ''Recording''
       else \<exists>rest. map sanitize_char (trim_unicode name) = r @ rest \<and>
         (rest = [] \<or> 150 < byte_len r + utf8_len (hd rest)))"
proof (cases "trim_unicode name = []")
  case True
  have "list_all plain_char (ascii ''Recording'')" "byte_len (ascii ''Recording'') \<le> 150" "ascii ''Recording'' \<noteq> []"
    by (simp_all add: ascii_def plain_char_def is_control_def utf8_len.simps)
  with True show ?thesis by (simp add: sanitize_filename_def Let_def)
next
  case False
  let ?s = "map sanitize_char (trim_unicode name)"
  let ?r = "sanitize_filename name"
  have r: "?r = truncate_bytes (back_to_boundary ?s (min (byte_len ?s) 150)) ?s"
    using False by (simp add: sanitize_filename_def Let_def)
  from truncate_prefix [OF r] obtain rest where rest: "?s = ?r @ rest" "byte_len ?r \<le> 150"
    "rest \<noteq> [] \<longrightarrow> 150 < byte_len ?r + utf8_len (hd rest)" by blast
  have "list_all plain_char ?s" by (simp add: list_all_iff sanitize_char_plain)
  with rest(1) have plain: "list_all plain_char ?r" by (metis list_all_append)
  have "?r \<noteq> []"
  proof
    assume e: "?r = []"
    with rest(1) False have "rest \<noteq> []" by auto
    with rest(3) e have "150 < utf8_len (hd rest)" by simp
    then show False using utf8_len_pos(2) [of "hd rest"] by linarith
  qed
  with False rest plain show ?thesis by (auto simp: Let_def)
qed

text \<open>
  Any title makes a usable file name. The name made from a title is not empty, at most 150 bytes of
  UTF-8, and free of separators and control characters; unless the title is blank it is the longest
  prefix that fits of the trimmed title with these characters replaced, cut between characters.
\<close>
theorem sanitize_filename_correct:
  "let r = sanitize_filename name
   in r \<noteq> [] \<and> byte_len r \<le> 150 \<and> list_all plain_char r \<and>
      (if trim_unicode name = [] then r = ascii ''Recording''
       else \<exists>rest. map sanitize_char (trim_unicode name) = r @ rest \<and>
         (rest = [] \<or> 150 < byte_len r + utf8_len (hd rest)))"
  by (rule sanitized)

lemma utf8_plain: "c \<noteq> 47 \<Longrightarrow> c < 1114112 \<Longrightarrow> CHR ''/'' \<notin> set (utf8_char c)"
proof -
  have s: "CHR ''/'' = char_of (47 :: nat)" by (simp add: char_of_def bit_iff_odd)
  have e: "CHR ''/'' = char_of n \<longleftrightarrow> n mod 256 = 47" for n :: nat
    unfolding s by (simp add: char_of_eq_iff)
  assume c: "c \<noteq> 47" "c < 1114112"
  then have "c div 64 < 32 \<or> 2048 \<le> c" "c div 4096 < 16 \<or> 65536 \<le> c" "c div 262144 < 5" by auto
  with c show ?thesis by (auto simp: utf8_char_def e)
qed

text \<open>A title's code points are below 1114112.\<close>

definition is_unicode :: "unicode \<Rightarrow> bool" where
  "is_unicode s = list_all (\<lambda>c. c < 1114112) s"

lemma sanitize_unicode: "is_unicode name \<Longrightarrow> is_unicode (sanitize_filename name)"
proof -
  assume u: "is_unicode name"
  let ?r = "sanitize_filename name"
  have trim: "set (trim_unicode name) \<subseteq> set name"
    unfolding trim_unicode_def using set_dropWhileD by (fastforce dest: set_dropWhileD)
  from sanitized [of name] consider "?r = ascii ''Recording''"
    | rest where "map sanitize_char (trim_unicode name) = ?r @ rest" by (auto simp: Let_def split: if_splits)
  then show "is_unicode ?r"
  proof cases
    case 1
    then show ?thesis by (simp add: is_unicode_def ascii_def)
  next
    case (2 rest)
    then have "set ?r \<subseteq> sanitize_char ` set (trim_unicode name)" by (metis Un_upper1 set_append set_map)
    with trim u show ?thesis by (fastforce simp: is_unicode_def list_all_iff sanitize_char_def)
  qed
qed

lemma filename_plain:
  assumes "is_unicode name" "CHR ''/'' \<notin> set date"
  shows "CHR ''/'' \<notin> set (recording_filename name date)" "recording_filename name date \<noteq> []"
proof -
  have "c \<noteq> 47 \<and> c < 1114112" if "c \<in> set (sanitize_filename name)" for c
    using that sanitize_unicode [OF assms(1)] sanitized [of name]
    by (auto simp: is_unicode_def list_all_iff plain_char_def Let_def)
  with utf8_plain have "CHR ''/'' \<notin> set (utf8 (sanitize_filename name))" by (auto simp: utf8_def)
  with assms(2) show "CHR ''/'' \<notin> set (recording_filename name date)" by (simp add: recording_filename_def)
  show "recording_filename name date \<noteq> []" by (simp add: recording_filename_def)
qed

subsection \<open>The free path\<close>

lemma first_free_Some:
  "first_free t c n = Some p \<Longrightarrow> \<not> t p \<and> (\<exists>k \<ge> n. k \<le> u32_max \<and> p = c k)"
proof (induction t c n rule: first_free.induct)
  case (1 t c n)
  then show ?case
    by (subst (asm) (2) first_free.simps) (auto split: if_splits dest: Suc_leD)
qed

lemma first_free_None: "first_free t c n = None \<Longrightarrow> n \<le> k \<Longrightarrow> k \<le> u32_max \<Longrightarrow> t (c k)"
proof (induction t c n rule: first_free.induct)
  case (1 t c n)
  then show ?case
    by (subst (asm) (2) first_free.simps) (cases "k = n"; auto split: if_splits)
qed

lemma path_join_plain:
  "CHR ''/'' \<notin> set name \<Longrightarrow> CHR ''/'' \<notin> set name' \<Longrightarrow> name \<noteq> [] \<Longrightarrow> name' \<noteq> [] \<Longrightarrow>
   path_join folder name = path_join folder name' \<longleftrightarrow> name = name'"
  by (cases name; cases name') (auto simp: path_join_def)

lemma show_nat_no_slash: "CHR ''/'' \<notin> set (show_nat n)"
  using show_nat_digits [of n] by (auto simp: all_digits_def list_all_iff)

text \<open>
  C36: the search for a free path ends. When fewer than \<open>u32::MAX\<close> paths exist, whatever they are, a path
  is found (the last suffix of all is tried by a release build only): it does not exist, and it is the folder with a name that has no separator and the
  extension asked for.
\<close>
theorem unique_output_path_finds:
  assumes "finite {p. exists_at d p}" "card {p. exists_at d p} < u32_max"
    and "CHR ''/'' \<notin> set filename" "CHR ''/'' \<notin> set ext"
  shows "\<exists>name. unique_output_path d folder filename ext = Some (path_join folder name) \<and>
    \<not> exists_at d (path_join folder name) \<and> CHR ''/'' \<notin> set name \<and> (\<exists>stem. name = stem @ ''.'' @ ext)"
proof -
  let ?c = "\<lambda>n. path_join folder (filename @ '' '' @ show_nat n @ ''.'' @ ext)"
  let ?p = "path_join folder (filename @ ''.'' @ ext)"
  have plain: "CHR ''/'' \<notin> set (filename @ '' '' @ show_nat n @ ''.'' @ ext)" for n
    using assms(3,4) show_nat_no_slash by simp
  have inj: "inj ?c" by (rule injI) (subst (asm) path_join_plain, use plain in auto)
  show ?thesis
  proof (cases "exists_at d ?p")
    case False
    with assms(3,4) show ?thesis
      by (intro exI [of _ "filename @ ''.'' @ ext"]) (auto simp: unique_output_path_def)
  next
    case taken: True
    show ?thesis
    proof (cases "first_free (exists_at d) ?c 2")
      case (Some p)
      from first_free_Some [OF this] obtain n where "\<not> exists_at d p" "p = ?c n" by blast
      with taken Some plain [of n] show ?thesis
        by (intro exI [of _ "filename @ '' '' @ show_nat n @ ''.'' @ ext"])
          (auto simp: unique_output_path_def intro!: exI [of _ "filename @ '' '' @ show_nat n"])
    next
      case None
      from first_free_None [OF this] have "?c ` {2..u32_max} \<subseteq> {p. exists_at d p}" by auto
      moreover have "?p \<notin> ?c ` {2..u32_max}"
      proof
        assume "?p \<in> ?c ` {2..u32_max}"
        then obtain n where "?p = ?c n" by blast
        then have "filename @ ''.'' @ ext = filename @ '' '' @ show_nat n @ ''.'' @ ext"
          by (subst (asm) path_join_plain) (use plain [of n] assms(3,4) in auto)
        then show False by simp
      qed
      ultimately have "insert ?p (?c ` {2..u32_max}) \<subseteq> {p. exists_at d p}" and n: "?p \<notin> ?c ` {2..u32_max}"
        using taken by auto
      from card_mono [OF assms(1) this(1)] have "Suc (card (?c ` {2..u32_max})) \<le> card {p. exists_at d p}"
        using n by simp
      moreover have "card (?c ` {2..u32_max}) = u32_max - 1"
        using card_image [OF inj_on_subset [OF inj subset_UNIV]] by (simp add: u32_max_def)
      ultimately show ?thesis using assms(2) by (simp add: u32_max_def)
    qed
  qed
qed

definition only_at :: "string \<Rightarrow> 'txt Bundle.disk" where
  "only_at p = \<lparr>dk_files = (\<lambda>_. None), dk_dirs = (\<lambda>q. q = p), dk_fails = (\<lambda>_. False)\<rparr>"

theorem unique_output_path_finds_witness:
  "unique_output_path (only_at ''d/a.mp4'' :: unit Bundle.disk) ''d'' ''a'' ''mp4'' \<noteq> Some ''d/a.mp4'' \<and>
   (\<exists>name. unique_output_path (only_at ''d/a.mp4'' :: unit Bundle.disk) ''d'' ''a'' ''mp4'' = Some (path_join ''d'' name))"
proof -
  let ?d = "only_at ''d/a.mp4'' :: unit Bundle.disk"
  have e: "{p. exists_at ?d p} = {''d/a.mp4''}" by (auto simp: exists_at_def only_at_def)
  have f: "finite {p. exists_at ?d p}" "card {p. exists_at ?d p} < u32_max" by (simp_all add: e u32_max_def)
  from unique_output_path_finds [OF f, of "''a''" "''mp4''" "''d''"] obtain name
    where n: "unique_output_path ?d ''d'' ''a'' ''mp4'' = Some (path_join ''d'' name)" "\<not> exists_at ?d (path_join ''d'' name)"
    by auto
  then have "path_join ''d'' name \<noteq> ''d/a.mp4''" by (auto simp: exists_at_def only_at_def)
  with n(1) show ?thesis by (intro conjI exI [of _ name]) simp_all
qed

subsection \<open>The destination\<close>

lemma unique_output_path_free:
  "unique_output_path d folder filename ext = Some p \<Longrightarrow> \<not> exists_at d p \<and>
   (\<exists>name. p = path_join folder name \<and> (name = filename @ ''.'' @ ext \<or> (\<exists>n. name = filename @ '' '' @ show_nat n @ ''.'' @ ext)))"
  by (auto simp: unique_output_path_def Let_def split: if_splits dest!: first_free_Some)

text \<open>A path in a folder is a file directly in it.\<close>

definition directly_in :: "string \<Rightarrow> string \<Rightarrow> bool" where
  "directly_in folder p \<longleftrightarrow> (\<exists>name. name \<noteq> [] \<and> CHR ''/'' \<notin> set name \<and> name \<notin> {''.'', ''..''} \<and> p = path_join folder name)"

lemma recording_extension_plain: "CHR ''/'' \<notin> set (recording_extension f)" "recording_extension f \<noteq> []"
  by (cases f; simp add: recording_extension_def)+

lemma create_bundle_kept: "create_bundle j now d path cam aud = (Inr b, d') \<Longrightarrow> b = new_bundle now cam aud"
  by (auto simp: create_bundle_def Let_def split: sum.splits)

lemma bundle_destination_Inr:
  assumes "bundle_destination j now path crop audio d = (Inr dest, d')"
  shows "od_completed_path dest = path \<and> od_bundle_path dest = Some path \<and> od_cleanup_on_failure dest = Some path \<and>
    od_media_path dest = path_join path ''inputs/screen.mp4'' \<and>
    od_camera_media_path dest = (if crop = None then None else Some (path_join path ''inputs/camera.mp4'')) \<and>
    od_system_audio_media_path dest = (if audio then Some (path_join path ''inputs/system-audio.m4a'') else None)"
proof -
  from assms obtain b d1 b' where c: "create_bundle j now d path (crop \<noteq> None) audio = (Inr b, d1)"
    and s: "save_crop j path crop b d1 = Inr (b', d')" and p: "bundle_paths path b' = Inr dest"
    by (auto simp: bundle_destination_def split: prod.splits sum.splits)
  have "bb_inputs b' = bb_inputs (new_bundle now (crop \<noteq> None) audio)"
    using s create_bundle_kept [OF c] by (auto simp: save_crop_def Let_def split: option.splits)
  with p show ?thesis
    by (auto simp: bundle_paths_def media_path_def input_media_path_def new_bundle_def bundle_input_of_def
        split: list.splits)
qed

text \<open>
  A recording gets a new place in its folder, whatever it is called. On success the destination's
  path did not exist, and is directly in the profile's folder for any title and any date without a
  separator; a bundle is created there and its recordings are in its \<open>inputs\<close> directory; and what a
  failed recording cleans up is this new path, or nothing for an MP4 file.
\<close>
theorem output_destination_fresh:
  assumes "output_destination_of j now date temp_dir reply p target_name crop audio d = (Inr dest, d')"
    and "is_unicode target_name" "CHR ''/'' \<notin> set date"
  shows "\<not> exists_at d (od_completed_path dest) \<and>
    directly_in (recording_folder temp_dir p) (od_completed_path dest) \<and>
    od_cleanup_on_failure dest = (if rp_format p = FormatMp4 then None else Some (od_completed_path dest)) \<and>
    (if rp_format p = FormatBundle
     then od_bundle_path dest = Some (od_completed_path dest) \<and>
       od_media_path dest = path_join (od_completed_path dest) ''inputs/screen.mp4''
     else od_bundle_path dest = None \<and> od_media_path dest = od_completed_path dest \<and> dk_files d' = dk_files d)"
proof -
  let ?folder = "recording_folder temp_dir p"
  from assms(1) obtain path where m: "reply = None"
    and u: "unique_output_path (d\<lparr>dk_dirs := (\<lambda>q. dk_dirs d q \<or> under q ?folder)\<rparr>) ?folder
      (recording_filename target_name date) (recording_extension (rp_format p)) = Some path"
    and r: "(case rp_format p of
       FormatHls \<Rightarrow> (Inr (file_destination path True), d\<lparr>dk_dirs := (\<lambda>q. dk_dirs d q \<or> under q ?folder)\<rparr>)
     | FormatBundle \<Rightarrow> bundle_destination j now path crop audio (d\<lparr>dk_dirs := (\<lambda>q. dk_dirs d q \<or> under q ?folder)\<rparr>)
     | FormatMp4 \<Rightarrow> (Inr (file_destination path False), d\<lparr>dk_dirs := (\<lambda>q. dk_dirs d q \<or> under q ?folder)\<rparr>)) = (Inr dest, d')"
    by (auto simp: output_destination_of_def create_dir_all_def Let_def split: option.splits)
  from unique_output_path_free [OF u] obtain name where free: "\<not> exists_at (d\<lparr>dk_dirs := (\<lambda>q. dk_dirs d q \<or> under q ?folder)\<rparr>) path"
    and name: "path = path_join ?folder name"
      "name = recording_filename target_name date @ ''.'' @ recording_extension (rp_format p) \<or>
       (\<exists>n. name = recording_filename target_name date @ '' '' @ show_nat n @ ''.'' @ recording_extension (rp_format p))"
    by blast
  have plain: "CHR ''/'' \<notin> set name" "name \<noteq> []"
    using name(2) filename_plain [OF assms(2,3)] recording_extension_plain show_nat_no_slash by auto
  have "length name \<ge> 4" using name(2) by (cases "rp_format p") (auto simp: recording_extension_def)
  then have "name \<notin> {''.'', ''..''}" by auto
  with plain name(1) have dir: "directly_in ?folder path" unfolding directly_in_def by blast
  from free have "\<not> exists_at d path" by (auto simp: exists_at_def)
  with dir r show ?thesis
    by (cases "rp_format p") (auto simp: file_destination_def dest: bundle_destination_Inr)
qed

definition blank_disk :: "(manifest_doc + project_config) Bundle.disk" where
  "blank_disk = \<lparr>dk_files = (\<lambda>_. None), dk_dirs = (\<lambda>_. False), dk_fails = (\<lambda>_. False)\<rparr>"

text \<open>A disk with no files and at most the folder \<open>/v\<close> has room for a video there.\<close>

definition roomy :: "'txt Bundle.disk \<Rightarrow> bool" where
  "roomy d \<longleftrightarrow> (\<forall>p. dk_files d p = None) \<and> (\<forall>p. dk_dirs d p \<longrightarrow> under p ''/v'')"

lemma blank_roomy: "roomy blank_disk"
  by (simp add: roomy_def blank_disk_def)

lemma roomy_destination:
  assumes "roomy d" "is_unicode name"
  shows "\<exists>dest d'. output_destination_of j now ''2026-01-02'' temp_dir None (local_profile i n ''/v'' action) name crop audio d
      = (Inr dest, d') \<and> roomy d'"
proof -
  let ?d = "d\<lparr>dk_dirs := (\<lambda>q. dk_dirs d q \<or> under q ''/v'')\<rparr>"
  let ?n = "recording_filename name ''2026-01-02''"
  have n: "CHR ''/'' \<notin> set ?n" using assms(2) by (rule filename_plain) simp
  have "\<not> under (''/v/'' @ m) ''/v''" for m by (simp add: under_def)
  then have "\<not> exists_at ?d (''/v/'' @ m)" for m using assms(1) by (auto simp: exists_at_def roomy_def)
  moreover have "path_join ''/v'' (?n @ ''.mp4'') = ''/v/'' @ ?n @ ''.mp4''"
    using n by (cases ?n) (auto simp: path_join_def)
  ultimately have "unique_output_path ?d ''/v'' ?n ''mp4'' = Some (path_join ''/v'' (?n @ ''.mp4''))"
    by (simp add: unique_output_path_def Let_def del: append_assoc)
  moreover have "roomy ?d" using assms(1) by (auto simp: roomy_def)
  moreover have "recording_folder temp_dir (local_profile i n ''/v'' action) = ''/v''"
    by (simp add: recording_folder_def local_profile_def)
  ultimately show ?thesis
    by (simp add: output_destination_of_def create_dir_all_def Let_def)
      (simp add: local_profile_def recording_extension_def)
qed

theorem output_destination_fresh_witness:
  "\<exists>dest d'. output_destination_of doc_json 0 ''2026-01-02'' ''/tmp'' None (local_profile ''1'' ''p'' ''/v'' Reveal)
      (ascii ''../x:y'') None False blank_disk = (Inr dest, d') \<and> directly_in ''/v'' (od_completed_path dest)"
proof -
  let ?p = "local_profile ''1'' ''p'' ''/v'' Reveal"
  have f: "recording_folder ''/tmp'' ?p = ''/v''" by (simp add: recording_folder_def local_profile_def)
  have u: "is_unicode (ascii ''../x:y'')" "CHR ''/'' \<notin> set ''2026-01-02''" by (simp_all add: is_unicode_def ascii_def)
  from roomy_destination [OF blank_roomy u(1)] obtain dest d'
    where e: "output_destination_of doc_json 0 ''2026-01-02'' ''/tmp'' None ?p (ascii ''../x:y'') None False blank_disk
      = (Inr dest, d')" by blast
  from output_destination_fresh [OF e u] e show ?thesis unfolding f by blast
qed

text \<open>A bundle whose crop cannot be saved is an error that leaves the created bundle behind.\<close>

lemma failed_crop_leaves_bundle:
  assumes "create_bundle j now d path True audio = (Inr b, d1)"
    and "\<And>b'. save_project_config j d1 path b' = Inl SaveConfigFailed"
  shows "bundle_destination j now path (Some c) audio d = (Inl (BundleFailed SaveConfigFailed), d1)"
  using assms by (simp add: bundle_destination_def save_crop_def Let_def)

end
