(* ===== verification/Capture_App.thy ===== *)
theory Capture_App
  imports Recording_Thread Region_Selection Profile_Settings Output_Paths
begin

section \<open>The capture application (CaptureApp and SelectionOverlay in apps/blip-capture/src/main.rs)\<close>

text \<open>
  The toolbar's state, the overlays on the displays and every handler that changes them. The overlays
  share the cells of \<open>SelectionState\<close> with the toolbar. What the window system, the file system and the
  clock answer are arguments; what a handler does outside (starting a thread, the stop channel,
  clipboard, opening files) is the list of effects it returns.
\<close>

subsection \<open>State\<close>

datatype mode = ModeDisplay | ModeWindow | ModeRegion

datatype status = Idle | Starting | Capturing | Finalizing | Uploading

record target_window =
  tw_window :: capture_window
  tw_display :: "nat option"
  tw_application :: "unicode option"
  tw_title :: "unicode option"

definition tw_id :: "target_window \<Rightarrow> nat" where "tw_id w = cw_id (tw_window w)"

record selection_state =
  sl_mode :: "mode option"
  sl_display :: nat
  sl_window :: "nat option"
  sl_hovered :: "nat option"
  sl_region :: "region option"
  sl_recording :: bool

text \<open>An overlay: its display and windows, the mode it was last rendered in, and a drag.\<close>

record overlay =
  ov_display :: nat
  ov_windows :: "target_window list"
  ov_mode :: "mode option"
  ov_drag :: "region_drag option"

datatype app_error = ErrorText string | OutputFailed output_error | ErrorMessage message

text \<open>
  \<open>ca_stop_sender\<close> is the recording whose stop channel the toolbar holds, \<open>ca_camera_window\<close> the device of
  the open preview, \<open>ca_escape\<close> whether the Escape hot key is registered; \<open>ca_settings\<close> and \<open>ca_toolbar\<close>
  say whether the settings window is open and the toolbar shown.
\<close>

record capture_app =
  ca_displays :: "nat list"
  ca_windows :: "target_window list"
  ca_mode :: "mode option"
  ca_display :: nat
  ca_window :: "nat option"
  ca_region :: "region option"
  ca_selection :: selection_state
  ca_overlays :: "overlay list"
  ca_visuals :: "overlay list"
  ca_status :: status
  ca_started :: "nat option"
  ca_recorded :: nat
  ca_stop_sender :: "nat option"
  ca_visible :: bool
  ca_escape :: bool
  ca_profiles :: recording_profiles
  ca_cameras :: "string list"
  ca_camera :: "nat option"
  ca_system_audio :: bool
  ca_camera_window :: "string option"
  ca_camera_window_id :: "nat option"
  ca_action :: completion_action
  ca_open_finished :: bool
  ca_drag_start :: "pos option"
  ca_error :: "app_error option"
  ca_settings :: bool
  ca_toolbar :: bool
  ca_closed :: bool

definition new_app :: "nat list \<Rightarrow> target_window list \<Rightarrow> recording_profiles \<Rightarrow> string list \<Rightarrow> bool \<Rightarrow> capture_app" where
  "new_app displays windows profiles cameras escape =
     \<lparr>ca_displays = displays, ca_windows = windows, ca_mode = None, ca_display = 0, ca_window = None, ca_region = None,
      ca_selection = \<lparr>sl_mode = None, sl_display = 0, sl_window = None, sl_hovered = None, sl_region = None,
        sl_recording = False\<rparr>,
      ca_overlays = [], ca_visuals = [], ca_status = Idle, ca_started = None, ca_recorded = 0, ca_stop_sender = None,
      ca_visible = True, ca_escape = escape, ca_profiles = profiles, ca_cameras = cameras, ca_camera = None,
      ca_system_audio = False, ca_camera_window = None, ca_camera_window_id = None, ca_action = NoAction,
      ca_open_finished = True, ca_drag_start = None, ca_error = None, ca_settings = False, ca_toolbar = True,
      ca_closed = False\<rparr>"

text \<open>The cells shared with the overlays.\<close>

definition set_selection :: "(selection_state \<Rightarrow> selection_state) \<Rightarrow> capture_app \<Rightarrow> capture_app" where
  "set_selection f a = a\<lparr>ca_selection := f (ca_selection a)\<rparr>"

definition fail_app :: "string \<Rightarrow> capture_app \<Rightarrow> capture_app" where
  "fail_app e a = a\<lparr>ca_error := Some (ErrorText e)\<rparr>"

datatype app_effect =
    Spawn nat record_args thread_args
  | SendStop nat
  | DropStop nat
  | CopyText string
  | CopyFile string
  | OpenUrl string
  | RevealFile string
  | OpenEditor string

definition drop_stop :: "nat option \<Rightarrow> app_effect list" where
  "drop_stop s = (case s of None \<Rightarrow> [] | Some i \<Rightarrow> [DropStop i])"

subsection \<open>Overlays\<close>

definition windows_on :: "nat \<Rightarrow> target_window list \<Rightarrow> target_window list" where
  "windows_on d ws = filter (\<lambda>w. tw_display w = Some d) ws"

definition new_overlay :: "capture_app \<Rightarrow> nat \<Rightarrow> overlay" where
  "new_overlay a d = \<lparr>ov_display = d, ov_windows = windows_on d (ca_windows a), ov_mode = sl_mode (ca_selection a),
     ov_drag = None\<rparr>"

definition close_selection_windows :: "capture_app \<Rightarrow> capture_app" where
  "close_selection_windows a = a\<lparr>ca_overlays := [], ca_visuals := []\<rparr>"

definition close_interaction_windows :: "capture_app \<Rightarrow> capture_app" where
  "close_interaction_windows a = a\<lparr>ca_overlays := []\<rparr>"

text \<open>The displays that have a screen, and why a window cannot be opened on one, if so.\<close>

record screens =
  sc_screens :: "nat list"
  sc_fails :: "nat \<Rightarrow> bool \<Rightarrow> string option"

definition open_overlay :: "screens \<Rightarrow> nat \<times> bool \<Rightarrow> capture_app \<Rightarrow> capture_app" where
  "open_overlay sc k a =
     (case k of (d, visual) \<Rightarrow>
       (case sc_fails sc d visual of
          Some e \<Rightarrow> fail_app (''Failed to open selection overlay: '' @ e) a
        | None \<Rightarrow>
            if visual then a\<lparr>ca_visuals := ca_visuals a @ [new_overlay a d]\<rparr>
            else a\<lparr>ca_overlays := ca_overlays a @ [new_overlay a d]\<rparr>))"

definition open_selection_windows :: "screens \<Rightarrow> capture_app \<Rightarrow> capture_app" where
  "open_selection_windows sc a =
     fold (open_overlay sc)
       (concat (map (\<lambda>d. if d \<in> set (sc_screens sc) then [(d, False), (d, True)] else []) (ca_displays a)))
       (close_selection_windows a)"

subsection \<open>Choosing what to record\<close>

definition set_mode :: "screens \<Rightarrow> mode \<Rightarrow> capture_app \<Rightarrow> capture_app" where
  "set_mode sc m a =
     (if ca_mode a = Some m
      then close_selection_windows (set_selection (\<lambda>s. s\<lparr>sl_mode := None, sl_region := None\<rparr>)
        (a\<lparr>ca_mode := None, ca_region := None, ca_error := None\<rparr>))
      else let a1 = set_selection (\<lambda>s. s\<lparr>sl_mode := Some m, sl_hovered := None, sl_region := None\<rparr>)
             (a\<lparr>ca_mode := Some m, ca_region := None, ca_error := None\<rparr>)
           in if ca_overlays a1 = [] then open_selection_windows sc a1 else a1)"

definition select_display :: "nat \<Rightarrow> capture_app \<Rightarrow> capture_app" where
  "select_display d a = set_selection (\<lambda>s. s\<lparr>sl_display := d, sl_region := None\<rparr>)
     (a\<lparr>ca_display := d, ca_region := None\<rparr>)"

definition select_window :: "nat \<Rightarrow> capture_app \<Rightarrow> capture_app" where
  "select_window w a = set_selection (\<lambda>s. s\<lparr>sl_window := Some w\<rparr>) (a\<lparr>ca_window := Some w\<rparr>)"

definition select_region :: "nat \<Rightarrow> bounds \<Rightarrow> capture_app \<Rightarrow> capture_app" where
  "select_region d b a = set_selection (\<lambda>s. s\<lparr>sl_display := d, sl_region := Some (region_of_bounds d b)\<rparr>)
     (a\<lparr>ca_display := d, ca_region := Some (region_of_bounds d b)\<rparr>)"

definition gone :: "target_window list \<Rightarrow> nat option \<Rightarrow> bool" where
  "gone ws w = (case w of None \<Rightarrow> False | Some i \<Rightarrow> \<not> list_ex (\<lambda>x. tw_id x = i) ws)"

definition refresh_windows :: "target_window list \<Rightarrow> overlay \<Rightarrow> overlay" where
  "refresh_windows ws v = v\<lparr>ov_windows := windows_on (ov_display v) ws\<rparr>"

definition update_window_snapshot :: "target_window list \<Rightarrow> capture_app \<Rightarrow> capture_app" where
  "update_window_snapshot ws a =
     (let a1 = (if gone ws (ca_window a)
            then set_selection (\<lambda>s. s\<lparr>sl_window := None\<rparr>) (a\<lparr>ca_window := None\<rparr>) else a);
          a2 = (if gone ws (sl_hovered (ca_selection a1)) then set_selection (\<lambda>s. s\<lparr>sl_hovered := None\<rparr>) a1 else a1)
      in a2\<lparr>ca_windows := ws, ca_overlays := map (refresh_windows ws) (ca_overlays a2),
           ca_visuals := map (refresh_windows ws) (ca_visuals a2)\<rparr>)"

text \<open>The window is polled for only in window mode, when nothing is recorded.\<close>

definition polls_windows :: "capture_app \<Rightarrow> bool" where
  "polls_windows a = (ca_mode a = Some ModeWindow \<and> ca_status a = Idle \<and> ca_visible a)"

definition window_bounds :: "target_window \<Rightarrow> pos \<Rightarrow> bounds" where
  "window_bounds w origin =
     (case cw_frame (tw_window w) of (x, y, width, height) \<Rightarrow>
        \<lparr>bn_x = x - fst origin, bn_y = y - snd origin, bn_width = width, bn_height = height\<rparr>)"

fun find_map :: "('x \<Rightarrow> 'y option) \<Rightarrow> 'x list \<Rightarrow> 'y option" where
  "find_map f [] = None"
| "find_map f (x # xs) = (case f x of None \<Rightarrow> find_map f xs | Some y \<Rightarrow> Some y)"

text \<open>CoreGraphics lists the windows on screen from the front, or does not answer.\<close>

definition topmost_window_at :: "nat list option \<Rightarrow> pos \<Rightarrow> overlay \<Rightarrow> pos \<Rightarrow> nat option" where
  "topmost_window_at ids origin v p =
     (case ids of
        None \<Rightarrow> None
      | Some front \<Rightarrow>
          find_map (\<lambda>i.
            (case find (\<lambda>w. tw_id w = i) (ov_windows v) of
               None \<Rightarrow> None
             | Some w \<Rightarrow> if bn_contains (window_bounds w origin) p then Some (tw_id w) else None)) front)"

subsection \<open>Drawing a region\<close>

definition on_overlay :: "nat \<Rightarrow> (overlay \<Rightarrow> capture_app \<Rightarrow> capture_app) \<Rightarrow> capture_app \<Rightarrow> capture_app" where
  "on_overlay i f a = (case list_get (ca_overlays a) i of None \<Rightarrow> a | Some v \<Rightarrow> f v a)"

definition set_drag :: "nat \<Rightarrow> region_drag option \<Rightarrow> capture_app \<Rightarrow> capture_app" where
  "set_drag i d a = on_overlay i (\<lambda>v a. a\<lparr>ca_overlays := (ca_overlays a)[i := v\<lparr>ov_drag := d\<rparr>]\<rparr>) a"

definition set_region_cell :: "region option \<Rightarrow> capture_app \<Rightarrow> capture_app" where
  "set_region_cell r = set_selection (\<lambda>s. s\<lparr>sl_region := r\<rparr>)"

definition region_on :: "nat \<Rightarrow> capture_app \<Rightarrow> bounds option" where
  "region_on d a =
     (case sl_region (ca_selection a) of
        None \<Rightarrow> None
      | Some r \<Rightarrow> if fst r = d then Some (bounds_of_region r) else None)"

definition is_create :: "region_drag \<Rightarrow> bool" where
  "is_create d = (case d of DragCreate p \<Rightarrow> True | _ \<Rightarrow> False)"

definition begin_region :: "nat \<Rightarrow> pos \<Rightarrow> capture_app \<Rightarrow> capture_app" where
  "begin_region i p = on_overlay i (\<lambda>v a.
     if sl_mode (ca_selection a) \<noteq> Some ModeRegion then a
     else let d = begin_drag p (region_on (ov_display v) a); a1 = set_drag i (Some d) a
          in if is_create d then set_region_cell None a1 else a1)"

definition drag_region :: "nat \<Rightarrow> pos \<Rightarrow> pos \<Rightarrow> capture_app \<Rightarrow> capture_app" where
  "drag_region i p viewport = on_overlay i (\<lambda>v a.
     case ov_drag v of
       None \<Rightarrow> a
     | Some d \<Rightarrow> set_region_cell (Some (region_of_bounds (ov_display v) (rounded_bounds (drag_bounds d p viewport)))) a)"

definition finish_region :: "nat \<Rightarrow> capture_app \<Rightarrow> capture_app" where
  "finish_region i = on_overlay i (\<lambda>v a.
     case ov_drag v of
       None \<Rightarrow> a
     | Some d \<Rightarrow>
         (let a1 = set_drag i None a
          in case sl_region (ca_selection a1) of
               None \<Rightarrow> a1
             | Some r \<Rightarrow>
                 (let b = rounded_bounds (bounds_of_region r)
                  in if bn_width b < 16 \<or> bn_height b < 16 then set_region_cell None a1
                     else select_region (fst r) b a1)))"

definition set_region_field :: "region_field \<Rightarrow> real \<Rightarrow> int \<times> int \<Rightarrow> capture_app \<Rightarrow> capture_app" where
  "set_region_field field v logical a =
     (case sl_region (ca_selection a) of
        None \<Rightarrow> a
      | Some r \<Rightarrow>
          (case set_region_bounds field v logical (bounds_of_region r) of
             None \<Rightarrow> a
           | Some b \<Rightarrow> select_region (fst r) b a))"

definition hover_window :: "nat option \<Rightarrow> capture_app \<Rightarrow> capture_app" where
  "hover_window w = set_selection (\<lambda>s. s\<lparr>sl_hovered := w\<rparr>)"

definition select_hovered_window :: "capture_app \<Rightarrow> capture_app" where
  "select_hovered_window a =
     (case sl_hovered (ca_selection a) of None \<Rightarrow> a | Some w \<Rightarrow> select_window w a)"

text \<open>Rendering an overlay in a new mode gives up its drag and the hovered window.\<close>

definition rendered :: "capture_app \<Rightarrow> overlay \<Rightarrow> overlay" where
  "rendered a v = v\<lparr>ov_mode := sl_mode (ca_selection a), ov_drag := None\<rparr>"

definition render_overlay :: "nat \<Rightarrow> capture_app \<Rightarrow> capture_app" where
  "render_overlay i = on_overlay i (\<lambda>v a.
     if sl_mode (ca_selection a) = ov_mode v then a
     else set_selection (\<lambda>s. s\<lparr>sl_hovered := None\<rparr>) (a\<lparr>ca_overlays := (ca_overlays a)[i := rendered a v]\<rparr>))"

definition render_visual :: "nat \<Rightarrow> capture_app \<Rightarrow> capture_app" where
  "render_visual i a =
     (case list_get (ca_visuals a) i of
        None \<Rightarrow> a
      | Some v \<Rightarrow>
          if sl_mode (ca_selection a) = ov_mode v then a
          else set_selection (\<lambda>s. s\<lparr>sl_hovered := None\<rparr>) (a\<lparr>ca_visuals := (ca_visuals a)[i := rendered a v]\<rparr>))"

subsection \<open>Cameras\<close>

definition close_camera_window :: "capture_app \<Rightarrow> capture_app" where
  "close_camera_window a = a\<lparr>ca_camera_window := None, ca_camera_window_id := None\<rparr>"

definition camera_at :: "capture_app \<Rightarrow> nat option \<Rightarrow> string option" where
  "camera_at a i = (case i of None \<Rightarrow> None | Some n \<Rightarrow> list_get (ca_cameras a) n)"

definition update_camera_snapshot :: "string list \<Rightarrow> capture_app \<Rightarrow> capture_app" where
  "update_camera_snapshot cameras a =
     (let now_selected = (case camera_at a (ca_camera a) of
            None \<Rightarrow> None
          | Some ident \<Rightarrow> position (\<lambda>c. c = ident) cameras);
          a1 = a\<lparr>ca_cameras := cameras, ca_camera := now_selected\<rparr>
      in if ca_camera a \<noteq> None \<and> now_selected = None then close_camera_window a1 else a1)"

text \<open>The answer: the preview's window, with its number when it has one, or the error.\<close>

definition select_camera :: "string + nat option \<Rightarrow> nat option \<Rightarrow> capture_app \<Rightarrow> capture_app" where
  "select_camera reply i a =
     (let a1 = (close_camera_window a)\<lparr>ca_camera := i\<rparr>
      in case camera_at a1 i of
           None \<Rightarrow> a1
         | Some device \<Rightarrow>
             (case reply of
                Inr number \<Rightarrow> a1\<lparr>ca_camera_window := Some device, ca_camera_window_id := number, ca_error := None\<rparr>
              | Inl e \<Rightarrow> fail_app (''Failed to open camera preview: '' @ e) (a1\<lparr>ca_camera := None\<rparr>)))"

subsection \<open>Recording\<close>

definition record_spec :: "capture_app \<Rightarrow> string + capture_spec" where
  "record_spec a =
     (case ca_mode a of
        Some ModeDisplay \<Rightarrow>
          if ca_display a \<noteq> 0 then Inr (CaptureDisplay (ca_display a)) else Inl ''Select a display first''
      | Some ModeWindow \<Rightarrow>
          (case ca_window a of None \<Rightarrow> Inl ''Select a window first'' | Some w \<Rightarrow> Inr (CaptureWindow w))
      | Some ModeRegion \<Rightarrow>
          (case ca_region a of
             None \<Rightarrow> Inl ''Drag to select a recording area''
           | Some (d, x, y, w, h) \<Rightarrow> Inr (CaptureRegion d x y w h))
      | None \<Rightarrow> Inl ''Choose a capture mode'')"

definition record_profile :: "url_lib \<Rightarrow> capture_app \<Rightarrow> string + recording_profile" where
  "record_profile lib a =
     and_then (ok_or (selected (ca_profiles a)) ''Create a recording profile first'') (\<lambda>p.
       map_ok (\<lambda>u. p) (validate lib p))"

text \<open>
  What a recording is started with besides the toolbar: the clock, the folders and their answer, the
  crop that an open camera preview answers, the names of the displays, and whether the thread starts.
\<close>

record 'txt record_env =
  re_lib :: url_lib
  re_json :: "'txt json"
  re_now :: int
  re_date :: string
  re_temp :: string
  re_folder :: "string option"
  re_crop :: "camera_crop option"
  re_display_name :: "nat \<Rightarrow> unicode option"
  re_spawn :: "string option"

definition target_name :: "(nat \<Rightarrow> unicode option) \<Rightarrow> capture_app \<Rightarrow> capture_spec \<Rightarrow> unicode" where
  "target_name display_name a spec =
     (case spec of
        CaptureWindow w \<Rightarrow>
          (case find (\<lambda>x. tw_id x = w) (ca_windows a) of
             Some x \<Rightarrow> window_name (tw_application x) (tw_title x) (tw_id x)
           | None \<Rightarrow> ascii (''Window '' @ show_nat w))
      | CaptureDisplay d \<Rightarrow> unwrap_or (display_name d) (ascii (''Display '' @ show_nat d))
      | CaptureRegion d x y w h \<Rightarrow> unwrap_or (display_name d) (ascii (''Display '' @ show_nat d)))"

definition bundle_file :: "string option \<Rightarrow> string option \<Rightarrow> bundle_input_file option" where
  "bundle_file input_path bundle_path =
     (case (input_path, bundle_path) of
        (Some m, Some b) \<Rightarrow> Some \<lparr>bi_output = m, bi_bundle_path = b\<rparr>
      | _ \<Rightarrow> None)"

definition spawn_args ::
    "capture_app \<Rightarrow> capture_spec \<Rightarrow> recording_profile \<Rightarrow> bool \<Rightarrow> output_destination \<Rightarrow> record_args \<times> thread_args" where
  "spawn_args a spec p camera od =
     (\<lparr>ar_spec = spec, ar_camera_window = ca_camera_window_id a, ar_output = od_media_path od, ar_format = rp_format p,
        ar_system_audio = ca_system_audio a,
        ar_bundle_audio = bundle_file (od_system_audio_media_path od) (od_bundle_path od),
        ar_camera = (if camera then bundle_file (od_camera_media_path od) (od_bundle_path od) else None)\<rparr>,
      \<lparr>ta_output = od_media_path od, ta_completed = od_completed_path od, ta_cleanup = od_cleanup_on_failure od,
        ta_server = (case rp_target p of Remote server \<Rightarrow> Some server | Local folder \<Rightarrow> None),
        ta_format = rp_format p\<rparr>)"

fun run_removal :: "thread_action \<Rightarrow> 'txt Bundle.disk \<Rightarrow> 'txt Bundle.disk" where
  "run_removal (RemoveTree p) d = remove_dir_all d p"
| "run_removal a d = d"

definition recording_started :: "nat \<Rightarrow> completion_action \<Rightarrow> capture_app \<Rightarrow> capture_app" where
  "recording_started i action a =
     (close_interaction_windows (set_selection (\<lambda>s. s\<lparr>sl_recording := True\<rparr>)
        (a\<lparr>ca_action := action, ca_escape := False\<rparr>)))
       \<lparr>ca_stop_sender := Some i, ca_status := Starting, ca_error := None\<rparr>"

text \<open>\<open>record\<close>; \<open>i\<close> names the thread that is started and its stop channel.\<close>

definition record_app ::
    "'txt record_env \<Rightarrow> nat \<Rightarrow> capture_app \<Rightarrow> 'txt Bundle.disk \<Rightarrow> capture_app \<times> 'txt Bundle.disk \<times> app_effect list" where
  "record_app env i a d =
     (if ca_status a \<noteq> Idle then (a, d, [])
      else case and_then (record_spec a) (\<lambda>spec. map_ok (Pair spec) (record_profile (re_lib env) a)) of
        Inl e \<Rightarrow> (fail_app e a, d, [])
      | Inr (spec, p) \<Rightarrow>
          (let crop = (if rp_format p = FormatBundle \<and> ca_camera_window a \<noteq> None then re_crop env else None)
           in case output_destination_of (re_json env) (re_now env) (re_date env) (re_temp env) (re_folder env) p
                  (target_name (re_display_name env) a spec) crop (ca_system_audio a) d of
                (Inl e, d1) \<Rightarrow> (a\<lparr>ca_error := Some (OutputFailed e)\<rparr>, d1, [])
              | (Inr od, d1) \<Rightarrow>
                  (case spawn_args a spec p (crop \<noteq> None) od of (ra, ta) \<Rightarrow>
                     (case re_spawn env of
                        Some e \<Rightarrow>
                          (fail_app (snd (spawn_failed ta e)) a, fold run_removal (fst (spawn_failed ta e)) d1, [])
                      | None \<Rightarrow>
                          (recording_started i (rp_action p) a, d1, drop_stop (ca_stop_sender a) @ [Spawn i ra ta])))))"

definition stop_app :: "nat \<Rightarrow> capture_app \<Rightarrow> capture_app \<times> app_effect list" where
  "stop_app now a =
     (if ca_status a \<noteq> Capturing then (a, [])
      else ((close_selection_windows (set_selection (\<lambda>s. s\<lparr>sl_recording := False\<rparr>)
               (a\<lparr>ca_recorded := (case ca_started a of None \<Rightarrow> 0 | Some start \<Rightarrow> now - start), ca_started := None\<rparr>)))
              \<lparr>ca_status := Finalizing, ca_stop_sender := None\<rparr>,
            (case ca_stop_sender a of None \<Rightarrow> [] | Some i \<Rightarrow> [SendStop i])))"

subsection \<open>Closing\<close>

text \<open>
  \<open>close_windows\<close>: the toolbar's window is removed, and with it the application's state and the stop
  channel it holds.
\<close>

definition close_windows :: "capture_app \<Rightarrow> capture_app \<times> app_effect list" where
  "close_windows a =
     ((close_camera_window (close_selection_windows (set_selection (\<lambda>s. s\<lparr>sl_recording := False\<rparr>) a)))
        \<lparr>ca_visible := False, ca_escape := False, ca_stop_sender := None, ca_closed := True\<rparr>,
      drop_stop (ca_stop_sender a))"

definition escape_app :: "capture_app \<Rightarrow> capture_app \<times> app_effect list" where
  "escape_app a =
     (if ca_status a \<noteq> Idle then (a, [])
      else if ca_mode a \<noteq> None then
        (close_selection_windows (a\<lparr>ca_mode := None, ca_display := 0, ca_window := None, ca_region := None,
           ca_selection := (ca_selection a)\<lparr>sl_mode := None, sl_display := 0, sl_window := None, sl_hovered := None,
             sl_region := None\<rparr>\<rparr>), [])
      else close_windows a)"

subsection \<open>Events of a recording\<close>

definition completion :: "capture_app \<Rightarrow> string \<Rightarrow> string option \<Rightarrow> app_effect list" where
  "completion a path viewer_url =
     (case viewer_url of
        Some url \<Rightarrow> CopyText url # (if ca_open_finished a then [OpenUrl url] else [])
      | None \<Rightarrow>
          (if file_name path \<noteq> None \<and> extension (the (file_name path)) = Some ''blip'' then [OpenEditor path]
           else case ca_action a of
             CopyToClipboard \<Rightarrow> [CopyFile path]
           | Reveal \<Rightarrow> if ca_open_finished a then [RevealFile path] else []
           | NoAction \<Rightarrow> []))"

text \<open>
  The answers: the clock, the hot key's registration, the displays. After a failure the overlays are
  opened anew once the handler is done.
\<close>

definition recording_failed :: "bool \<Rightarrow> screens \<Rightarrow> message \<Rightarrow> capture_app \<Rightarrow> capture_app" where
  "recording_failed registered sc m a =
     open_selection_windows sc
       ((set_selection (\<lambda>s. s\<lparr>sl_recording := False\<rparr>) a)
          \<lparr>ca_status := Idle, ca_started := None, ca_recorded := 0, ca_stop_sender := None,
           ca_error := Some (ErrorMessage m), ca_escape := ca_escape a \<or> registered\<rparr>)"

fun handle_event ::
    "nat \<Rightarrow> bool \<Rightarrow> screens \<Rightarrow> recording_event \<Rightarrow> capture_app \<Rightarrow> capture_app \<times> app_effect list" where
  "handle_event now registered sc RecordingStarted a =
     (a\<lparr>ca_status := Capturing, ca_started := Some now, ca_recorded := 0\<rparr>, [])"
| "handle_event now registered sc RecordingUploading a = (a\<lparr>ca_status := Uploading\<rparr>, [])"
| "handle_event now registered sc (RecordingFinished path viewer_url) a =
     (case close_windows a of (a1, effects) \<Rightarrow> (a1, completion a path viewer_url @ effects))"
| "handle_event now registered sc (RecordingFailed m) a =
     (recording_failed registered sc m a, drop_stop (ca_stop_sender a))"

subsection \<open>Profiles and their settings\<close>

definition choose_profile ::
    "settings_codec \<Rightarrow> string option \<Rightarrow> string option \<Rightarrow> write_reply \<Rightarrow> nat \<Rightarrow> capture_app \<Rightarrow> Asset_Writers.disk \<Rightarrow>
     capture_app \<times> Asset_Writers.disk" where
  "choose_profile codec home dir_reply reply i a d =
     (case list_get (ps_profiles (ca_profiles a)) i of
        None \<Rightarrow> (a, d)
      | Some p \<Rightarrow>
          (let ps = (ca_profiles a)\<lparr>ps_selected := rp_id p\<rparr>; a1 = a\<lparr>ca_profiles := ps\<rparr>
           in case save_profiles codec home dir_reply reply ps d of
                (d1, Inl e) \<Rightarrow> (fail_app e a1, d1)
              | (d1, Inr u) \<Rightarrow> (a1, d1)))"

text \<open>The settings window opens with a copy of the profiles, or it does not.\<close>

definition open_profile_settings :: "url_lib \<Rightarrow> string option \<Rightarrow> capture_app \<Rightarrow> capture_app \<times> profile_settings option" where
  "open_profile_settings lib reply a =
     (case reply of
        Some e \<Rightarrow> (fail_app (''Failed to open recording profile settings: '' @ e) a, None)
      | None \<Rightarrow>
          ((close_selection_windows a)\<lparr>ca_escape := False, ca_toolbar := False, ca_settings := True\<rparr>,
           Some (open_settings lib (ca_profiles a))))"

definition restore_after_profile_settings :: "int + unit \<Rightarrow> screens \<Rightarrow> capture_app \<Rightarrow> capture_app" where
  "restore_after_profile_settings hotkey sc a =
     (let a1 = a\<lparr>ca_toolbar := True, ca_settings := False\<rparr>;
          a2 = (if ca_mode a1 \<noteq> None then open_selection_windows sc a1 else a1)
      in case hotkey of
           Inr u \<Rightarrow> a2\<lparr>ca_escape := True\<rparr>
         | Inl st \<Rightarrow> fail_app (''Failed to register Escape ('' @ show_int st @ '')'') a2)"

definition profiles_changed :: "string + recording_profiles \<Rightarrow> capture_app \<Rightarrow> capture_app" where
  "profiles_changed r a =
     (case r of
        Inr ps \<Rightarrow> a\<lparr>ca_profiles := ps, ca_error := None\<rparr>
      | Inl e \<Rightarrow> fail_app e a)"

text \<open>The toolbar is as wide as the selected profile's name needs; a label is a list of code points.\<close>

definition toolbar_dimensions_for_label :: "unicode \<Rightarrow> real \<times> real" where
  "toolbar_dimensions_for_label label = (584 + of_nat (min (max (length label) 3) 30) * 8, 56)"

text \<open>A press that moved the toolbar is no click.\<close>

definition was_dragged :: "pos \<Rightarrow> capture_app \<Rightarrow> bool" where
  "was_dragged origin a =
     (case ca_drag_start a of
        None \<Rightarrow> False
      | Some start \<Rightarrow> 3 < \<bar>fst origin - fst start\<bar> \<or> 3 < \<bar>snd origin - snd start\<bar>)"

definition clicked :: "pos \<Rightarrow> (capture_app \<Rightarrow> capture_app \<times> app_effect list) \<Rightarrow> capture_app \<Rightarrow> capture_app \<times> app_effect list" where
  "clicked origin f a =
     (let a1 = a\<lparr>ca_drag_start := None\<rparr> in if was_dragged origin a then (a1, []) else f a1)"

subsection \<open>What can happen to it\<close>

datatype 'txt app_op =
    PressToolbar pos
  | ClickMode screens mode pos
  | ClickClose pos
  | ClickAudio pos
  | ClickStop nat pos
  | ChooseCamera "string + nat option" "nat option"
  | CamerasFound "string list"
  | WindowsFound "target_window list"
  | ChooseProfile settings_codec "string option" "string option" write_reply nat Asset_Writers.disk
  | ToggleOpenRecording
  | OpenSettings url_lib "string option"
  | SettingsClosed "int + unit" screens
  | ProfilesChanged "string + recording_profiles"
  | PressEscape
  | CloseToolbar
  | RenderOverlay nat
  | RenderVisual nat
  | BeginRegion nat pos
  | DragRegion nat pos pos
  | FinishRegion nat
  | EditRegion region_field real "int \<times> int"
  | HoverWindow nat "nat list option" pos pos
  | PickHovered
  | StartDisplay nat "'txt record_env"
  | StartWindow "'txt record_env"
  | StartRegion "'txt record_env"

definition no_effects :: "'txt Bundle.disk \<Rightarrow> capture_app \<Rightarrow> capture_app \<times> 'txt Bundle.disk \<times> app_effect list" where
  "no_effects d a = (a, d, [])"

definition with_effects ::
    "'txt Bundle.disk \<Rightarrow> capture_app \<times> app_effect list \<Rightarrow> capture_app \<times> 'txt Bundle.disk \<times> app_effect list" where
  "with_effects d r = (fst r, d, snd r)"

text \<open>An operation; \<open>i\<close> is the name of a recording that it may start.\<close>

fun app_run ::
    "'txt app_op \<Rightarrow> nat \<Rightarrow> capture_app \<Rightarrow> 'txt Bundle.disk \<Rightarrow> capture_app \<times> 'txt Bundle.disk \<times> app_effect list" where
  "app_run (PressToolbar origin) i a d = no_effects d (a\<lparr>ca_drag_start := Some origin\<rparr>)"
| "app_run (ClickMode sc m origin) i a d = with_effects d (clicked origin (\<lambda>a. (set_mode sc m a, [])) a)"
| "app_run (ClickClose origin) i a d = with_effects d (clicked origin close_windows a)"
| "app_run (ClickAudio origin) i a d =
     with_effects d (clicked origin (\<lambda>a. (a\<lparr>ca_system_audio := \<not> ca_system_audio a\<rparr>, [])) a)"
| "app_run (ClickStop now origin) i a d = with_effects d (clicked origin (stop_app now) a)"
| "app_run (ChooseCamera reply k) i a d = no_effects d (select_camera reply k a)"
| "app_run (CamerasFound cs) i a d = no_effects d (update_camera_snapshot cs a)"
| "app_run (WindowsFound ws) i a d = no_effects d (update_window_snapshot ws a)"
| "app_run (ChooseProfile codec home dr reply k settings) i a d =
     no_effects d (fst (choose_profile codec home dr reply k a settings))"
| "app_run ToggleOpenRecording i a d = no_effects d (a\<lparr>ca_open_finished := \<not> ca_open_finished a\<rparr>)"
| "app_run (OpenSettings lib reply) i a d = no_effects d (fst (open_profile_settings lib reply a))"
| "app_run (SettingsClosed hotkey sc) i a d = no_effects d (restore_after_profile_settings hotkey sc a)"
| "app_run (ProfilesChanged r) i a d = no_effects d (profiles_changed r a)"
| "app_run PressEscape i a d = with_effects d (escape_app a)"
| "app_run CloseToolbar i a d = with_effects d (close_windows a)"
| "app_run (RenderOverlay k) i a d = no_effects d (render_overlay k a)"
| "app_run (RenderVisual k) i a d = no_effects d (render_visual k a)"
| "app_run (BeginRegion k p) i a d = no_effects d (begin_region k p a)"
| "app_run (DragRegion k p viewport) i a d = no_effects d (drag_region k p viewport a)"
| "app_run (FinishRegion k) i a d = no_effects d (finish_region k a)"
| "app_run (EditRegion field v logical) i a d = no_effects d (set_region_field field v logical a)"
| "app_run (HoverWindow k ids origin p) i a d =
     no_effects d (on_overlay k (\<lambda>v. hover_window (topmost_window_at ids origin v p)) a)"
| "app_run PickHovered i a d = no_effects d (select_hovered_window a)"
| "app_run (StartDisplay k env) i a d =
     (case list_get (ca_overlays a) k of
        None \<Rightarrow> no_effects d a
      | Some v \<Rightarrow> record_app env i (select_display (ov_display v) a) d)"
| "app_run (StartWindow env) i a d =
     (case sl_hovered (ca_selection a) of
        None \<Rightarrow> no_effects d a
      | Some w \<Rightarrow> record_app env i (select_window w a) d)"
| "app_run (StartRegion env) i a d =
     (if sl_region (ca_selection a) = None then no_effects d a else record_app env i a d)"

text \<open>
  When an operation can occur: the buttons of the toolbar are those of its status, an overlay reacts as
  it was last rendered (a start button as long as that is the present mode), and while the pointer
  draws a region it presses nothing else.
\<close>

definition dragging :: "capture_app \<Rightarrow> bool" where
  "dragging a = list_ex (\<lambda>v. ov_drag v \<noteq> None) (ca_overlays a)"

definition in_mode :: "mode \<Rightarrow> capture_app \<Rightarrow> bool" where
  "in_mode m a = list_ex (\<lambda>v. ov_mode v = Some m) (ca_overlays a)"

definition overlay_shows :: "mode \<Rightarrow> nat \<Rightarrow> capture_app \<Rightarrow> bool" where
  "overlay_shows m i a =
     (case list_get (ca_overlays a) i of None \<Rightarrow> False | Some v \<Rightarrow> ov_mode v = Some m)"

definition idle_toolbar :: "capture_app \<Rightarrow> bool" where
  "idle_toolbar a = (ca_toolbar a \<and> ca_status a = Idle \<and> \<not> dragging a)"

definition can_start :: "mode \<Rightarrow> capture_app \<Rightarrow> bool" where
  "can_start m a = (in_mode m a \<and> sl_mode (ca_selection a) = Some m \<and> \<not> sl_recording (ca_selection a) \<and> \<not> dragging a)"

fun enabled :: "'txt app_op \<Rightarrow> capture_app \<Rightarrow> bool" where
  "enabled (PressToolbar origin) a = (ca_toolbar a \<and> \<not> dragging a)"
| "enabled (ClickMode sc m origin) a = idle_toolbar a"
| "enabled (ClickClose origin) a = idle_toolbar a"
| "enabled (ClickAudio origin) a = (idle_toolbar a \<and> selected (ca_profiles a) \<noteq> None)"
| "enabled (ClickStop now origin) a = (ca_toolbar a \<and> ca_status a = Capturing \<and> \<not> dragging a)"
| "enabled (OpenSettings lib reply) a = idle_toolbar a"
| "enabled (SettingsClosed hotkey sc) a = ca_settings a"
| "enabled PressEscape a = ca_escape a"
| "enabled (BeginRegion k p) a = (overlay_shows ModeRegion k a \<and> \<not> dragging a)"
| "enabled (DragRegion k p viewport) a = overlay_shows ModeRegion k a"
| "enabled (FinishRegion k) a = overlay_shows ModeRegion k a"
| "enabled (EditRegion field v logical) a = in_mode ModeRegion a"
| "enabled (HoverWindow k ids origin p) a = overlay_shows ModeWindow k a"
| "enabled PickHovered a = in_mode ModeWindow a"
| "enabled (StartDisplay k env) a = (can_start ModeDisplay a \<and> overlay_shows ModeDisplay k a)"
| "enabled (StartWindow env) a = can_start ModeWindow a"
| "enabled (StartRegion env) a = can_start ModeRegion a"
| "enabled _ a = True"

end
