(* ===== verification/App_Invariant.thy ===== *)
theory App_Invariant
  imports Capture_App
begin

section \<open>What the application keeps\<close>

text \<open>
  The invariant of the toolbar and its overlays, that every operation that can occur keeps it, and
  what an operation can mean to the recordings: nothing, a start, a stop or the end of the toolbar.
\<close>

subsection \<open>The toolbar's invariant\<close>

definition mirrored :: "capture_app \<Rightarrow> bool" where
  "mirrored a \<longleftrightarrow> sl_mode (ca_selection a) = ca_mode a \<and> sl_display (ca_selection a) = ca_display a \<and>
     sl_window (ca_selection a) = ca_window a"

definition drags_ok :: "capture_app \<Rightarrow> bool" where
  "drags_ok a \<longleftrightarrow> list_all (\<lambda>v. ov_drag v \<noteq> None \<longrightarrow> ov_mode v = Some ModeRegion) (ca_overlays a)"

definition region_ok :: "capture_app \<Rightarrow> bool" where
  "region_ok a \<longleftrightarrow> (ca_mode a = Some ModeRegion \<and> \<not> dragging a \<longrightarrow>
     sl_region (ca_selection a) = None \<or> sl_region (ca_selection a) = ca_region a)"

definition windows_ok :: "capture_app \<Rightarrow> bool" where
  "windows_ok a \<longleftrightarrow> (ca_status a \<noteq> Idle \<or> ca_settings a \<longrightarrow> ca_overlays a = []) \<and>
     ca_settings a = (\<not> ca_toolbar a) \<and> (ca_settings a \<longrightarrow> ca_status a = Idle)"

definition camera_ok :: "capture_app \<Rightarrow> bool" where
  "camera_ok a \<longleftrightarrow> (\<forall>device. ca_camera_window a = Some device \<longrightarrow>
     (\<exists>n. ca_camera a = Some n \<and> list_get (ca_cameras a) n = Some device))"

definition app_ok :: "capture_app \<Rightarrow> bool" where
  "app_ok a \<longleftrightarrow> mirrored a \<and> drags_ok a \<and> region_ok a \<and> windows_ok a \<and> camera_ok a"

lemmas app_ok_defs = app_ok_def mirrored_def drags_ok_def region_ok_def windows_ok_def camera_ok_def dragging_def

lemma set_selection_fields [simp]:
  "ca_selection (set_selection f a) = f (ca_selection a)" "ca_mode (set_selection f a) = ca_mode a"
  "ca_display (set_selection f a) = ca_display a" "ca_window (set_selection f a) = ca_window a"
  "ca_region (set_selection f a) = ca_region a" "ca_overlays (set_selection f a) = ca_overlays a"
  "ca_status (set_selection f a) = ca_status a" "ca_settings (set_selection f a) = ca_settings a"
  "ca_toolbar (set_selection f a) = ca_toolbar a" "ca_camera_window (set_selection f a) = ca_camera_window a"
  "ca_camera (set_selection f a) = ca_camera a" "ca_cameras (set_selection f a) = ca_cameras a"
  "ca_stop_sender (set_selection f a) = ca_stop_sender a" "ca_closed (set_selection f a) = ca_closed a"
  by (simp_all add: set_selection_def)

text \<open>Opening the overlays changes nothing else but the error.\<close>

definition reopened :: "capture_app \<Rightarrow> capture_app \<Rightarrow> bool" where
  "reopened a b \<longleftrightarrow> b = a\<lparr>ca_overlays := ca_overlays b, ca_visuals := ca_visuals b, ca_error := ca_error b\<rparr>"

lemma reopened_trans: "reopened a b \<Longrightarrow> reopened b c \<Longrightarrow> reopened a c"
  unfolding reopened_def by (cases a; cases b; cases c) simp

lemma reopened_close: "reopened a (close_selection_windows a)"
  unfolding reopened_def close_selection_windows_def by (cases a) simp

definition undragged :: "capture_app \<Rightarrow> bool" where
  "undragged a \<longleftrightarrow> list_all (\<lambda>v. ov_drag v = None) (ca_overlays a)"

lemma open_overlay_reopens:
  "reopened a (open_overlay sc k a)" "undragged a \<Longrightarrow> undragged (open_overlay sc k a)"
  by (cases a; auto simp: reopened_def undragged_def open_overlay_def fail_app_def new_overlay_def
    split: prod.split option.split)+

lemma open_overlays_reopen:
  "reopened a (fold (open_overlay sc) ks a)" "undragged a \<Longrightarrow> undragged (fold (open_overlay sc) ks a)"
proof (induction ks arbitrary: a)
  case Nil
  {
    case 1
    then show ?case by (cases a) (simp add: reopened_def)
  next
    case 2
    then show ?case by simp
  }
next
  case (Cons k ks)
  {
    case 1
    show ?case using reopened_trans [OF open_overlay_reopens(1) Cons.IH(1)] by simp
  next
    case 2
    then show ?case using Cons.IH(2) [OF open_overlay_reopens(2)] by simp
  }
qed

lemma opened: "reopened a (open_selection_windows sc a)" "undragged (open_selection_windows sc a)"
  unfolding open_selection_windows_def
  by (rule reopened_trans [OF reopened_close open_overlays_reopen(1)],
    rule open_overlays_reopen(2), simp add: undragged_def close_selection_windows_def)

lemma reopened_fields:
  assumes "reopened a b"
  shows "ca_selection b = ca_selection a" "ca_mode b = ca_mode a" "ca_display b = ca_display a"
    "ca_window b = ca_window a" "ca_region b = ca_region a" "ca_status b = ca_status a"
    "ca_settings b = ca_settings a" "ca_toolbar b = ca_toolbar a" "ca_camera_window b = ca_camera_window a"
    "ca_camera b = ca_camera a" "ca_cameras b = ca_cameras a" "ca_stop_sender b = ca_stop_sender a"
    "ca_closed b = ca_closed a"
proof -
  note eq = arg_cong [OF assms [unfolded reopened_def]]
  show "ca_selection b = ca_selection a" and "ca_mode b = ca_mode a" and "ca_display b = ca_display a" and "ca_window b = ca_window a"
    and "ca_region b = ca_region a"
    and "ca_status b = ca_status a" and "ca_settings b = ca_settings a" and "ca_toolbar b = ca_toolbar a" and "ca_camera_window b = ca_camera_window a"
    and "ca_camera b = ca_camera a" and "ca_cameras b = ca_cameras a" and "ca_stop_sender b = ca_stop_sender a" and "ca_closed b = ca_closed a"
    using eq [of ca_selection] eq [of ca_mode] eq [of ca_display] eq [of ca_window] eq [of ca_region] eq [of ca_status] 
      eq [of ca_settings] eq [of ca_toolbar] eq [of ca_camera_window] eq [of ca_camera] eq [of ca_cameras] eq [of ca_stop_sender] eq [of ca_closed] by simp_all
qed

lemmas opened_fields [simp] = reopened_fields [OF opened(1)]

text \<open>An application with new overlays: they have no drag, and there are none while they must be closed.\<close>

lemma app_ok_reopened:
  assumes "reopened a b" "undragged b" "mirrored a" "camera_ok a" "ca_settings a = (\<not> ca_toolbar a)"
    and "ca_status a \<noteq> Idle \<or> ca_settings a \<Longrightarrow> ca_overlays b = []" "ca_settings a \<Longrightarrow> ca_status a = Idle"
    and "ca_mode a = Some ModeRegion \<Longrightarrow> sl_region (ca_selection a) = None \<or> sl_region (ca_selection a) = ca_region a"
  shows "app_ok b"
  using assms by (simp add: app_ok_defs undragged_def reopened_fields [OF assms(1)] list_all_iff)

lemma set_mode_ok:
  assumes "app_ok a" "idle_toolbar a"
  shows "app_ok (set_mode sc m a)"
proof (cases "ca_mode a = Some m")
  case True
  with assms show ?thesis
    by (simp add: set_mode_def app_ok_defs close_selection_windows_def)
next
  case False
  let ?a = "set_selection (\<lambda>s. s\<lparr>sl_mode := Some m, sl_hovered := None, sl_region := None\<rparr>)
    (a\<lparr>ca_mode := Some m, ca_region := None, ca_error := None\<rparr>)"
  have "mirrored ?a" "camera_ok ?a" "ca_settings ?a = (\<not> ca_toolbar ?a)" "ca_status ?a = Idle" "\<not> ca_settings ?a"
    using assms by (simp_all add: app_ok_defs idle_toolbar_def)
  then have "app_ok (open_selection_windows sc ?a)" by (intro app_ok_reopened [OF opened]) simp_all
  moreover have "app_ok ?a"
    using assms by (simp add: app_ok_defs idle_toolbar_def)
  ultimately show ?thesis using False by (simp add: set_mode_def Let_def)
qed

lemma record_app_ok:
  assumes "app_ok a" "ca_status a \<noteq> Idle \<or> \<not> dragging a \<and> ca_toolbar a"
  shows "app_ok (fst (record_app env i a d))"
  using assms
  by (auto simp: record_app_def app_ok_defs fail_app_def recording_started_def close_interaction_windows_def Let_def
    split: sum.split prod.split option.split)

lemma stop_app_ok: "app_ok a \<Longrightarrow> app_ok (fst (stop_app now a))"
  by (auto simp: stop_app_def app_ok_defs close_selection_windows_def)

lemma escape_app_ok: "app_ok a \<Longrightarrow> ca_closed (fst (escape_app a)) \<or> app_ok (fst (escape_app a))"
  by (auto simp: escape_app_def close_windows_def app_ok_defs close_selection_windows_def)

lemma app_ok_unrelated [simp]:
  "app_ok (a\<lparr>ca_escape := x\<rparr>) = app_ok a" "app_ok (a\<lparr>ca_error := e\<rparr>) = app_ok a" "app_ok (fail_app t a) = app_ok a"
  "app_ok (a\<lparr>ca_drag_start := p\<rparr>) = app_ok a" "app_ok (a\<lparr>ca_system_audio := x\<rparr>) = app_ok a"
  "app_ok (a\<lparr>ca_open_finished := x\<rparr>) = app_ok a" "app_ok (a\<lparr>ca_profiles := ps\<rparr>) = app_ok a"
  by (simp_all add: app_ok_defs fail_app_def)

lemma restore_ok:
  assumes "app_ok a" "ca_settings a"
  shows "app_ok (restore_after_profile_settings hotkey sc a)"
proof -
  let ?a1 = "a\<lparr>ca_toolbar := True, ca_settings := False\<rparr>"
  have none: "ca_overlays a = []" and ok: "mirrored ?a1" "camera_ok ?a1" "app_ok ?a1"
    using assms by (simp_all add: app_ok_defs)
  have "app_ok (open_selection_windows sc ?a1)"
    using assms none ok(1,2) by (intro app_ok_reopened [OF opened]) (simp_all add: app_ok_defs)
  with ok(3) show ?thesis
    by (simp add: restore_after_profile_settings_def Let_def split: sum.split)
qed

lemma cameras_ok: "app_ok a \<Longrightarrow> app_ok (update_camera_snapshot cs a)" "app_ok a \<Longrightarrow> app_ok (select_camera reply k a)"
proof -
  assume ok: "app_ok a"
  show "app_ok (select_camera reply k a)"
    using ok by (auto simp: select_camera_def camera_at_def close_camera_window_def Let_def fail_app_def app_ok_defs
      split: option.split sum.split)
  have "list_get cs n = Some c" if "position (\<lambda>x. x = c) cs = Some n" for n c
    using that by (auto simp: position_Some_iff list_get_eq)
  with ok show "app_ok (update_camera_snapshot cs a)"
    by (auto simp: update_camera_snapshot_def camera_at_def close_camera_window_def Let_def app_ok_defs
      split: option.split)
qed

lemma window_snapshot_ok: "app_ok a \<Longrightarrow> app_ok (update_window_snapshot ws a)"
  by (auto simp: update_window_snapshot_def Let_def app_ok_defs refresh_windows_def list_all_length list_ex_length gone_def
    split: option.split)

lemma settings_app_ok:
  "app_ok a \<Longrightarrow> idle_toolbar a \<Longrightarrow> app_ok (fst (open_profile_settings lib reply a))"
  "app_ok a \<Longrightarrow> app_ok (profiles_changed r a)"
  "app_ok a \<Longrightarrow> app_ok (fst (choose_profile codec home dr wr k a fd))"
  by (auto simp: open_profile_settings_def profiles_changed_def choose_profile_def close_selection_windows_def Let_def
    idle_toolbar_def app_ok_defs fail_app_def split: option.split sum.split prod.split)

subsection \<open>Overlays keep it\<close>

lemma on_overlay_None: "list_get (ca_overlays a) i = None \<Longrightarrow> on_overlay i f a = a"
  by (simp add: on_overlay_def)

lemma on_overlay_Some: "list_get (ca_overlays a) i = Some v \<Longrightarrow> on_overlay i f a = f v a"
  by (simp add: on_overlay_def)

lemma on_overlay_ok: "app_ok a \<Longrightarrow> (\<And>v. list_get (ca_overlays a) i = Some v \<Longrightarrow> app_ok (f v a)) \<Longrightarrow> app_ok (on_overlay i f a)"
  by (cases "list_get (ca_overlays a) i") (simp_all add: on_overlay_def)

lemma overlay_nth: "list_get (ca_overlays a) i = Some v \<longleftrightarrow> i < length (ca_overlays a) \<and> ca_overlays a ! i = v"
  by (auto simp: list_get_eq)

lemma dragging_at: "list_get (ca_overlays a) i = Some v \<Longrightarrow> ov_drag v = Some d \<Longrightarrow> dragging a"
  by (auto simp: dragging_def list_ex_length overlay_nth)

lemma set_drag_eq:
  "list_get (ca_overlays a) i = Some v \<Longrightarrow> set_drag i d a = a\<lparr>ca_overlays := (ca_overlays a)[i := v\<lparr>ov_drag := d\<rparr>]\<rparr>"
  by (simp add: set_drag_def on_overlay_def)

lemma all_update: "list_all P xs \<Longrightarrow> P x \<Longrightarrow> list_all P (xs[i := x])"
  by (auto simp: list_all_iff dest!: set_update_subset_insert [THEN subsetD])

lemma ex_update: "i < length xs \<Longrightarrow> P x \<Longrightarrow> list_ex P (xs[i := x])"
  by (auto simp: list_ex_length)

text \<open>A drag that is not this overlay's survives.\<close>

lemma dragging_update:
  assumes "list_get (ca_overlays a) i = Some v" "ov_drag v = None" "dragging a"
  shows "list_ex (\<lambda>v. ov_drag v \<noteq> None) ((ca_overlays a)[i := w])"
proof -
  from assms(3) obtain n where n: "n < length (ca_overlays a)" "ov_drag (ca_overlays a ! n) \<noteq> None"
    by (auto simp: dragging_def list_ex_length)
  with assms have "n \<noteq> i" by (auto simp: overlay_nth)
  with n show ?thesis by (auto simp: list_ex_length)
qed

lemma begin_region_ok:
  assumes "app_ok a" "overlay_shows ModeRegion i a"
  shows "app_ok (begin_region i p a)"
  unfolding begin_region_def
proof (rule on_overlay_ok [OF assms(1)])
  fix v
  assume v: "list_get (ca_overlays a) i = Some v"
  let ?d = "begin_drag p (region_on (ov_display v) a)"
  have "dragging (set_drag i (Some ?d) a)" "ca_overlays a \<noteq> []"
    using v by (auto simp: dragging_def set_drag_eq overlay_nth intro!: ex_update)
  moreover have "drags_ok (set_drag i (Some ?d) a)"
    using assms v by (auto simp: drags_ok_def set_drag_eq overlay_shows_def app_ok_def intro!: all_update)
  ultimately have "app_ok (set_drag i (Some ?d) a)"
    using assms(1) v by (auto simp: app_ok_def mirrored_def region_ok_def windows_ok_def camera_ok_def set_drag_eq)
  with \<open>dragging (set_drag i (Some ?d) a)\<close>
  show "app_ok (if sl_mode (ca_selection a) \<noteq> Some ModeRegion then a
      else let d = ?d; a1 = set_drag i (Some d) a in if is_create d then set_region_cell None a1 else a1)"
    using assms(1) by (auto simp: Let_def set_region_cell_def app_ok_defs)
qed

lemma drag_region_ok: "app_ok a \<Longrightarrow> app_ok (drag_region i p viewport a)"
  unfolding drag_region_def
  by (rule on_overlay_ok) (auto dest: dragging_at simp: set_region_cell_def app_ok_defs split: option.split)

lemma select_region_ok: "app_ok a \<Longrightarrow> app_ok (select_region d b a)"
  by (auto simp: select_region_def app_ok_defs)

lemma select_ok:
  "app_ok a \<Longrightarrow> app_ok (select_display d a)" "app_ok a \<Longrightarrow> app_ok (select_window w a)"
  "app_ok a \<Longrightarrow> app_ok (hover_window h a)" "app_ok a \<Longrightarrow> app_ok (select_hovered_window a)"
  "app_ok a \<Longrightarrow> app_ok (set_region_field field x logical a)"
  by (auto simp: select_display_def select_window_def hover_window_def select_hovered_window_def set_region_field_def
    select_region_def app_ok_defs split: option.split)

lemma finish_region_ok:
  assumes "app_ok a"
  shows "app_ok (finish_region i a)"
  unfolding finish_region_def
proof (rule on_overlay_ok [OF assms])
  fix v
  assume v: "list_get (ca_overlays a) i = Some v"
  let ?a = "set_drag i None a"
  have m: "mirrored ?a" "drags_ok ?a" "windows_ok ?a" "camera_ok ?a"
    using assms v by (auto simp: app_ok_def mirrored_def drags_ok_def windows_ok_def camera_ok_def set_drag_eq
      intro!: all_update)
  have sel: "app_ok (select_region d b ?a)" for d b
    using m by (auto simp: app_ok_defs select_region_def)
  have "app_ok ?a" if "sl_region (ca_selection ?a) = None" using m that by (simp add: app_ok_defs)
  moreover have "app_ok (set_region_cell None ?a)" using m by (simp add: app_ok_defs set_region_cell_def)
  ultimately show "app_ok (case ov_drag v of None \<Rightarrow> a
      | Some d \<Rightarrow> (let a1 = set_drag i None a
          in case sl_region (ca_selection a1) of None \<Rightarrow> a1
             | Some r \<Rightarrow> (let b = rounded_bounds (bounds_of_region r)
                  in if bn_width b < 16 \<or> bn_height b < 16 then set_region_cell None a1 else select_region (fst r) b a1)))"
    using assms sel by (auto simp: Let_def split: option.split)
qed

lemma render_ok:
  assumes "app_ok a"
  shows "app_ok (render_overlay i a)" "app_ok (render_visual i a)"
proof -
  show "app_ok (render_visual i a)"
    using assms by (auto simp: render_visual_def app_ok_defs split: option.split)
  show "app_ok (render_overlay i a)"
    unfolding render_overlay_def
  proof (rule on_overlay_ok [OF assms])
    fix v
    assume v: "list_get (ca_overlays a) i = Some v"
    let ?a = "set_selection (\<lambda>s. s\<lparr>sl_hovered := None\<rparr>) (a\<lparr>ca_overlays := (ca_overlays a)[i := rendered a v]\<rparr>)"
    have "drags_ok ?a" "mirrored ?a" "windows_ok ?a" "camera_ok ?a"
      using assms v by (auto simp: app_ok_def mirrored_def drags_ok_def windows_ok_def camera_ok_def rendered_def
        intro!: all_update)
    moreover have "region_ok ?a" if "sl_mode (ca_selection a) \<noteq> ov_mode v"
    proof (cases "ca_mode a = Some ModeRegion")
      case True
      with that assms v have "ov_drag v = None"
        by (auto simp: app_ok_def mirrored_def drags_ok_def overlay_nth list_all_length)
      with dragging_update [OF v] assms show ?thesis by (auto simp: app_ok_def region_ok_def dragging_def)
    next
      case False
      then show ?thesis by (simp add: region_ok_def)
    qed
    ultimately show "app_ok (if sl_mode (ca_selection a) = ov_mode v then a else ?a)"
      using assms by (simp add: app_ok_def)
  qed
qed

lemma clicked_ok:
  assumes "app_ok a" "\<And>b. b = a\<lparr>ca_drag_start := None\<rparr> \<Longrightarrow> app_ok b \<Longrightarrow> ca_closed (fst (f b)) \<or> app_ok (fst (f b))"
  shows "ca_closed (fst (clicked origin f a)) \<or> app_ok (fst (clicked origin f a))"
  using assms(1) assms(2) [OF refl] by (simp add: clicked_def Let_def)

lemma idle_toolbar_pressed [simp]: "idle_toolbar (a\<lparr>ca_drag_start := p\<rparr>) = idle_toolbar a"
  by (simp add: idle_toolbar_def dragging_def)

lemma can_start_record: "app_ok a \<Longrightarrow> can_start m a \<Longrightarrow> \<not> dragging a \<and> ca_toolbar a"
  by (auto simp: can_start_def in_mode_def app_ok_def windows_ok_def)

lemma select_toolbar [simp]:
  "dragging (select_display d a) = dragging a" "ca_toolbar (select_display d a) = ca_toolbar a"
  "dragging (select_window w a) = dragging a" "ca_toolbar (select_window w a) = ca_toolbar a"
  by (simp_all add: select_display_def select_window_def dragging_def)

lemma close_windows_closed: "ca_closed (fst (close_windows a))"
  by (simp add: close_windows_def)

text \<open>Every operation that can occur keeps the invariant, or closes the toolbar.\<close>

lemma app_run_ok:
  assumes "app_ok a" "enabled op a"
  shows "ca_closed (fst (app_run op i a d)) \<or> app_ok (fst (app_run op i a d))"
proof (cases op)
  case (ClickMode sc m origin)
  with assms show ?thesis by (simp add: with_effects_def) (rule clicked_ok, auto simp: set_mode_ok)
next
  case (ClickClose origin)
  with assms show ?thesis by (simp add: with_effects_def) (rule clicked_ok, auto simp: close_windows_closed)
next
  case (ClickAudio origin)
  with assms show ?thesis by (simp add: with_effects_def) (rule clicked_ok, auto)
next
  case (ClickStop now origin)
  with assms show ?thesis by (simp add: with_effects_def) (rule clicked_ok, auto simp: stop_app_ok)
next
  case PressEscape
  with assms show ?thesis by (simp add: with_effects_def escape_app_ok)
next
  case CloseToolbar
  then show ?thesis by (simp add: with_effects_def close_windows_closed)
next
  case (StartDisplay k env)
  with assms can_start_record show ?thesis
    by (auto simp: no_effects_def select_ok record_app_ok split: option.split)
next
  case (StartWindow env)
  with assms can_start_record show ?thesis
    by (auto simp: no_effects_def select_ok record_app_ok split: option.split)
next
  case (StartRegion env)
  with assms can_start_record show ?thesis by (auto simp: no_effects_def record_app_ok)
next
  case (HoverWindow k ids origin p)
  with assms show ?thesis by (auto simp: no_effects_def intro!: on_overlay_ok select_ok)
qed (use assms in \<open>auto simp: no_effects_def cameras_ok window_snapshot_ok settings_app_ok restore_ok render_ok
  begin_region_ok drag_region_ok finish_region_ok select_ok\<close>)

subsection \<open>What is recorded is what is selected\<close>

definition selected_as :: "selection_state \<Rightarrow> capture_spec \<Rightarrow> bool" where
  "selected_as s spec \<longleftrightarrow>
     (case spec of
        CaptureDisplay d \<Rightarrow> sl_mode s = Some ModeDisplay \<and> sl_display s = d
      | CaptureWindow w \<Rightarrow> sl_mode s = Some ModeWindow \<and> sl_window s = Some w
      | CaptureRegion d x y w h \<Rightarrow> sl_mode s = Some ModeRegion \<and> sl_region s = Some (d, x, y, w, h))"

text \<open>A recording is started, with one effect, or there is an error and none.\<close>

lemma record_app_cases:
  assumes "record_app env i a d = (a', d', effects)"
  obtains (started) spec p camera od ra ta where "ca_status a = Idle" "record_spec a = Inr spec"
      "selected (ca_profiles a) = Some p"
      "spawn_args a spec p camera od = (ra, ta)" "a' = recording_started i (rp_action p) a"
      "effects = drop_stop (ca_stop_sender a) @ [Spawn i ra ta]"
  | (failed) e where "effects = []" "a' = a \<or> a' = a\<lparr>ca_error := e\<rparr>"
proof (cases "ca_status a = Idle")
  case False
  with assms show ?thesis by (intro failed) (auto simp: record_app_def)
next
  case idle: True
  show ?thesis
  proof (cases "and_then (record_spec a) (\<lambda>spec. map_ok (Pair spec) (record_profile (re_lib env) a))")
    case (Inl e)
    with assms idle show ?thesis by (intro failed) (auto simp: record_app_def fail_app_def)
  next
    case (Inr r)
    obtain spec p where r: "r = (spec, p)" by (cases r)
    with Inr have spec: "record_spec a = Inr spec" and p: "selected (ca_profiles a) = Some p"
      by (auto simp: record_profile_def)
    let ?crop = "if rp_format p = FormatBundle \<and> ca_camera_window a \<noteq> None then re_crop env else None"
    obtain out d1 where out: "output_destination_of (re_json env) (re_now env) (re_date env) (re_temp env) (re_folder env) p
      (target_name (re_display_name env) a spec) ?crop (ca_system_audio a) d = (out, d1)" by fastforce
    show ?thesis
    proof (cases out)
      case (Inl e)
      with assms idle \<open>_ = Inr r\<close> r out show ?thesis by (intro failed) (auto simp: record_app_def Let_def)
    next
      case od: (Inr od)
      obtain ra ta where args: "spawn_args a spec p (?crop \<noteq> None) od = (ra, ta)" by fastforce
      show ?thesis
      proof (cases "re_spawn env")
        case None
        with assms idle \<open>_ = Inr r\<close> r out od args show ?thesis
          by (intro started [OF idle spec p args]) (simp_all add: record_app_def Let_def del: and_then.simps)
      next
        case (Some e)
        with assms idle \<open>_ = Inr r\<close> r out od args show ?thesis
          by (intro failed) (auto simp: record_app_def Let_def fail_app_def)
      qed
    qed
  qed
qed

lemma record_spawns:
  assumes "app_ok a" "\<not> dragging a" "record_app env i a d = (a', d', effects)" "Spawn j ra ta \<in> set effects"
    and "sl_mode (ca_selection a) = Some ModeRegion \<Longrightarrow> sl_region (ca_selection a) \<noteq> None"
  shows "selected_as (ca_selection a') (ar_spec ra)"
  using assms(3)
proof (cases rule: record_app_cases)
  case (started spec p camera od ra' ta')
  with assms(4) have ra: "ar_spec ra = spec" by (auto simp: drop_stop_def spawn_args_def split: option.splits)
  have sel: "ca_selection a' = (ca_selection a)\<lparr>sl_recording := True\<rparr>"
    by (simp add: started recording_started_def close_interaction_windows_def)
  from assms(1,2,5) started(2) show ?thesis
    unfolding ra sel record_spec_def
    by (auto simp: selected_as_def app_ok_def mirrored_def region_ok_def split: option.splits mode.splits if_splits)
next
  case failed
  with assms(4) show ?thesis by simp
qed

lemma no_spawn:
  "Spawn j ra ta \<notin> set (snd (close_windows a))" "Spawn j ra ta \<notin> set (snd (stop_app now a))"
  "Spawn j ra ta \<notin> set (snd (escape_app a))"
  by (auto simp: close_windows_def stop_app_def escape_app_def drop_stop_def split: option.splits if_splits)

lemma clicked_effects: "set (snd (clicked origin f a)) \<subseteq> set (snd (f (a\<lparr>ca_drag_start := None\<rparr>)))"
  by (simp add: clicked_def Let_def)

text \<open>What an operation can mean to the recordings.\<close>

definition quiet :: "capture_app \<Rightarrow> capture_app \<times> 'd \<times> app_effect list \<Rightarrow> bool" where
  "quiet a r \<longleftrightarrow> (case r of (a', d', effects) \<Rightarrow> effects = [] \<and> ca_status a' = ca_status a \<and>
     ca_stop_sender a' = ca_stop_sender a \<and> ca_closed a' = ca_closed a)"

definition starts :: "nat \<Rightarrow> capture_app \<Rightarrow> capture_app \<times> 'd \<times> app_effect list \<Rightarrow> bool" where
  "starts i a r \<longleftrightarrow> (case r of (a', d', effects) \<Rightarrow> ca_status a = Idle \<and> ca_status a' = Starting \<and>
     ca_stop_sender a' = Some i \<and> ca_closed a' = ca_closed a \<and>
     (\<exists>ra ta p. effects = drop_stop (ca_stop_sender a) @ [Spawn i ra ta] \<and> selected_as (ca_selection a') (ar_spec ra) \<and>
        selected (ca_profiles a') = Some p \<and> ta_format ta = rp_format p \<and> ar_format ra = rp_format p \<and>
        ca_action a' = rp_action p))"

definition stops :: "capture_app \<Rightarrow> capture_app \<times> 'd \<times> app_effect list \<Rightarrow> bool" where
  "stops a r \<longleftrightarrow> (case r of (a', d', effects) \<Rightarrow> ca_status a = Capturing \<and> ca_status a' = Finalizing \<and>
     ca_stop_sender a' = None \<and> ca_closed a' = ca_closed a \<and>
     effects = (case ca_stop_sender a of None \<Rightarrow> [] | Some i \<Rightarrow> [SendStop i]))"

definition closes :: "capture_app \<Rightarrow> capture_app \<times> 'd \<times> app_effect list \<Rightarrow> bool" where
  "closes a r \<longleftrightarrow> (case r of (a', d', effects) \<Rightarrow> ca_closed a' \<and> effects = drop_stop (ca_stop_sender a))"

lemma quiet_no_effects:
  "ca_status b = ca_status a \<Longrightarrow> ca_stop_sender b = ca_stop_sender a \<Longrightarrow> ca_closed b = ca_closed a \<Longrightarrow>
     quiet a (no_effects d b)"
  by (simp add: quiet_def no_effects_def)

lemma closes_windows: "ca_stop_sender b = ca_stop_sender a \<Longrightarrow> closes a (with_effects d (close_windows b))"
  by (simp add: closes_def with_effects_def close_windows_def)

lemma on_overlay_keeps:
  "(\<And>v. list_get (ca_overlays a) i = Some v \<Longrightarrow> P (f v a)) \<Longrightarrow> P a \<Longrightarrow> P (on_overlay i f a)"
  by (cases "list_get (ca_overlays a) i") (simp_all add: on_overlay_def)

text \<open>The fields that only recordings change.\<close>

definition recording_fields :: "capture_app \<Rightarrow> status \<times> nat option \<times> bool" where
  "recording_fields a = (ca_status a, ca_stop_sender a, ca_closed a)"

lemma recording_fields_keep [simp]:
  "recording_fields (set_selection f a) = recording_fields a"
  "recording_fields (a\<lparr>ca_overlays := vs\<rparr>) = recording_fields a"
  "recording_fields (a\<lparr>ca_visuals := vs\<rparr>) = recording_fields a"
  "recording_fields (fail_app t a) = recording_fields a" "recording_fields (a\<lparr>ca_drag_start := p\<rparr>) = recording_fields a"
  "recording_fields (a\<lparr>ca_display := k, ca_region := r\<rparr>) = recording_fields a"
  "recording_fields (a\<lparr>ca_window := w\<rparr>) = recording_fields a"
  "recording_fields (a\<lparr>ca_profiles := ps\<rparr>) = recording_fields a"
  "recording_fields (open_selection_windows sc a) = recording_fields a"
  "recording_fields (close_selection_windows a) = recording_fields a"
  by (simp_all add: recording_fields_def fail_app_def close_selection_windows_def)

lemma region_fields [simp]:
  "recording_fields (begin_region i p a) = recording_fields a"
  "recording_fields (drag_region i p viewport a) = recording_fields a"
  "recording_fields (finish_region i a) = recording_fields a"
  "recording_fields (render_overlay i a) = recording_fields a"
  "recording_fields (render_visual i a) = recording_fields a"
  by (auto simp: begin_region_def drag_region_def finish_region_def render_overlay_def render_visual_def on_overlay_def
    set_drag_def set_region_cell_def select_region_def Let_def split: option.split)

lemma chosen_fields [simp]:
  "recording_fields (select_display k a) = recording_fields a" "recording_fields (select_window w a) = recording_fields a"
  "recording_fields (hover_window h a) = recording_fields a"
  "recording_fields (on_overlay i (\<lambda>v. hover_window (g v)) a) = recording_fields a"
  "recording_fields (select_hovered_window a) = recording_fields a"
  "recording_fields (set_region_field field x logical a) = recording_fields a"
  "recording_fields (update_window_snapshot ws a) = recording_fields a"
  "recording_fields (set_mode sc m a) = recording_fields a"
  by (auto simp: select_display_def select_window_def hover_window_def select_hovered_window_def set_region_field_def
    select_region_def update_window_snapshot_def on_overlay_def set_mode_def recording_fields_def Let_def
    close_selection_windows_def split: option.split)

lemma other_fields [simp]:
  "recording_fields (select_camera reply k a) = recording_fields a"
  "recording_fields (update_camera_snapshot cs a) = recording_fields a"
  "recording_fields (fst (choose_profile codec home dr wr j a fd)) = recording_fields a"
  "recording_fields (fst (open_profile_settings lib sr a)) = recording_fields a"
  "recording_fields (restore_after_profile_settings hotkey sc a) = recording_fields a"
  "recording_fields (profiles_changed r a) = recording_fields a"
  "recording_fields (a\<lparr>ca_open_finished := x\<rparr>) = recording_fields a"
  "recording_fields (a\<lparr>ca_system_audio := x\<rparr>) = recording_fields a"
  by (auto simp: select_camera_def update_camera_snapshot_def choose_profile_def open_profile_settings_def
    restore_after_profile_settings_def profiles_changed_def close_camera_window_def Let_def recording_fields_def
    fail_app_def close_selection_windows_def split: option.split sum.split prod.split)

lemma quiet_keeps: "recording_fields b = recording_fields a \<Longrightarrow> quiet a (no_effects d b)"
  by (simp add: recording_fields_def quiet_def no_effects_def)

lemma record_starts:
  assumes "app_ok a" "recording_fields a = recording_fields b" "\<not> dragging a"
    and "sl_mode (ca_selection a) = Some ModeRegion \<Longrightarrow> sl_region (ca_selection a) \<noteq> None"
  shows "quiet b (record_app env i a d) \<or> starts i b (record_app env i a d)"
proof -
  obtain a' d' effects where r: "record_app env i a d = (a', d', effects)" by (cases "record_app env i a d")
  then show ?thesis
  proof (cases rule: record_app_cases)
    case (started spec p camera od ra ta)
    have "selected_as (ca_selection a') (ar_spec ra)"
      by (rule record_spawns [OF assms(1,3) r, of i ra ta]) (simp_all add: started assms(4))
    moreover have "ta_format ta = rp_format p" "ar_format ra = rp_format p"
      using started(4) by (auto simp: spawn_args_def)
    moreover have "ca_profiles a' = ca_profiles a" "ca_action a' = rp_action p" "ca_status a' = Starting"
      "ca_stop_sender a' = Some i" "ca_closed a' = ca_closed a"
      by (simp_all add: started(5) recording_started_def close_interaction_windows_def set_selection_def)
    ultimately show ?thesis using started(1,3,6) assms(2) unfolding r starts_def recording_fields_def by auto
  next
    case failed
    with r assms(2) show ?thesis by (auto simp: quiet_def recording_fields_def)
  qed
qed

lemma clicked_quiet:
  "recording_fields (fst (f (a\<lparr>ca_drag_start := None\<rparr>))) = recording_fields a \<Longrightarrow> snd (f (a\<lparr>ca_drag_start := None\<rparr>)) = [] \<Longrightarrow>
     quiet a (with_effects d (clicked origin f a))"
  by (auto simp: clicked_def Let_def quiet_def with_effects_def recording_fields_def)

lemma clicked_cases:
  "clicked origin f a = (a\<lparr>ca_drag_start := None\<rparr>, []) \<or> clicked origin f a = f (a\<lparr>ca_drag_start := None\<rparr>)"
  by (simp add: clicked_def Let_def)

lemma stop_stops: "ca_status a = Capturing \<Longrightarrow> stops a (with_effects d (stop_app now (a\<lparr>ca_drag_start := None\<rparr>)))"
  by (simp add: stops_def with_effects_def stop_app_def close_selection_windows_def)

lemma escape_outcome: "quiet a (with_effects d (escape_app a)) \<or> closes a (with_effects d (escape_app a))"
  by (auto simp: escape_app_def quiet_def closes_def with_effects_def close_selection_windows_def close_windows_def)

lemma app_run_outcome:
  assumes "app_ok a" "enabled op a"
  shows "quiet a (app_run op i a d) \<or> starts i a (app_run op i a d) \<or> stops a (app_run op i a d) \<or> closes a (app_run op i a d)"
proof (cases op)
  case (ClickMode sc m origin)
  then show ?thesis by (simp add: clicked_quiet)
next
  case (ClickClose origin)
  with clicked_cases [of origin close_windows a] show ?thesis
    by (auto simp: closes_windows) (simp add: quiet_def with_effects_def)
next
  case (ClickAudio origin)
  then show ?thesis by (simp add: clicked_quiet)
next
  case (ClickStop now origin)
  with assms clicked_cases [of origin "stop_app now" a] stop_stops [of a d now] show ?thesis
    by (auto simp: quiet_def with_effects_def)
next
  case PressEscape
  with escape_outcome show ?thesis by auto
next
  case CloseToolbar
  then show ?thesis by (simp add: closes_windows)
next
  case (StartDisplay k env)
  with assms have can: "can_start ModeDisplay a" by simp
  show ?thesis
  proof (cases "list_get (ca_overlays a) k")
    case None
    with StartDisplay show ?thesis by (simp add: quiet_keeps)
  next
    case (Some v)
    have "quiet a (record_app env i (select_display (ov_display v) a) d) \<or>
        starts i a (record_app env i (select_display (ov_display v) a) d)"
      using can can_start_record [OF assms(1) can] assms(1)
      by (intro record_starts) (simp_all add: select_ok can_start_def, simp add: select_display_def)
    with StartDisplay Some show ?thesis by auto
  qed
next
  case (StartWindow env)
  with assms have can: "can_start ModeWindow a" by simp
  show ?thesis
  proof (cases "sl_hovered (ca_selection a)")
    case None
    with StartWindow show ?thesis by (simp add: quiet_keeps)
  next
    case (Some w)
    have "quiet a (record_app env i (select_window w a) d) \<or> starts i a (record_app env i (select_window w a) d)"
      using can can_start_record [OF assms(1) can] assms(1)
      by (intro record_starts) (simp_all add: select_ok can_start_def, simp add: select_window_def)
    with StartWindow Some show ?thesis by auto
  qed
next
  case (StartRegion env)
  with assms can_start_record [OF assms(1)] have "\<not> dragging a" by simp
  then have "sl_region (ca_selection a) \<noteq> None \<Longrightarrow> quiet a (record_app env i a d) \<or> starts i a (record_app env i a d)"
    by (intro record_starts assms(1)) simp_all
  with StartRegion show ?thesis by (auto simp: quiet_keeps)
qed (simp_all add: quiet_keeps)

end
