(* ===== verification/Recording_System.thy ===== *)
theory Recording_System
  imports App_Invariant
begin

section \<open>The application and its recordings\<close>

text \<open>
  The toolbar, the recording threads it starts and the channel of their events as one step relation.
  Of a thread there are the phases of its work and the state of its stop channel; every run of the
  thread of \<open>Recording_Thread\<close> goes through these phases. A fault is a stream that ScreenCaptureKit
  stops by itself: the capturer's stop callback then sends a failure of its own.
\<close>

subsection \<open>Threads\<close>

datatype phase = Beginning | InCapture | Ending | Failing | InUpload | Done

datatype signal = Waiting | Stopped | Dropped

record thread_state =
  td_phase :: phase
  td_signal :: signal

inductive phase_step :: "signal \<Rightarrow> phase \<Rightarrow> recording_event list \<Rightarrow> phase \<Rightarrow> bool" where
  begin_failed: "phase_step sg Beginning [RecordingFailed m] Done"
| begun: "phase_step sg Beginning [RecordingStarted] InCapture"
| stop_received: "phase_step Stopped InCapture [] Ending"
| sender_lost: "phase_step Dropped InCapture [] Failing"
| capture_failed: "phase_step sg Failing [RecordingFailed m] Done"
| ending_failed: "phase_step sg Ending [RecordingFailed m] Done"
| ended: "phase_step sg Ending [RecordingFinished p v] Done"
| uploading: "phase_step sg Ending [RecordingUploading] InUpload"
| upload_failed: "phase_step sg InUpload [RecordingFailed m] Done"
| uploaded: "phase_step sg InUpload [RecordingFinished p v] Done"

inductive_cases phase_stepE: "phase_step sg ph es ph'"

inductive phase_run :: "signal \<Rightarrow> phase \<Rightarrow> recording_event list \<Rightarrow> phase \<Rightarrow> bool" for sg where
  phase_refl: "phase_run sg ph [] ph"
| phase_trans: "phase_step sg ph es ph1 \<Longrightarrow> phase_run sg ph1 es' ph2 \<Longrightarrow> phase_run sg ph (es @ es') ph2"

fun emitted :: "thread_action list \<Rightarrow> recording_event list" where
  "emitted [] = []"
| "emitted (Emit e # acts) = e # emitted acts"
| "emitted (_ # acts) = emitted acts"

lemma emitted_append [simp]: "emitted (xs @ ys) = emitted xs @ emitted ys"
  by (induction xs rule: emitted.induct) auto

lemma emitted_events [simp]: "emitted (map Emit es) = es"
  by (induction es) auto

lemma emitted_clean_up [simp]: "emitted (clean_up ta) = []" "emitted (fail_with e) = [RecordingFailed e]"
  by (auto simp: clean_up_def fail_with_def split: option.split)

lemma phase_cons: "phase_step sg ph [e] ph1 \<Longrightarrow> phase_run sg ph1 es ph2 \<Longrightarrow> phase_run sg ph (e # es) ph2"
  using phase_trans [of sg ph "[e]" ph1 es ph2] by simp

lemma phase_tau: "phase_step sg ph [] ph1 \<Longrightarrow> phase_run sg ph1 es ph2 \<Longrightarrow> phase_run sg ph es ph2"
  using phase_trans [of sg ph "[]" ph1 es ph2] by simp

text \<open>After the recording: it is finished or failed, with an upload before when there is a server.\<close>

lemma after_phases:
  "phase_run sg Ending ((if ta_server ta \<noteq> None then [RecordingUploading] else []) @ emitted (after_recording ta worker direct)) Done"
  by (auto simp: after_recording_def finish_with_def split: option.split sum.split
    intro!: phase_cons [OF uploading] phase_cons [OF upload_failed] phase_cons [OF uploaded] phase_cons [OF ended]
      phase_cons [OF ending_failed] phase_refl)

definition signal_of :: "string option \<Rightarrow> signal" where
  "signal_of r = (if r = None then Stopped else Dropped)"

text \<open>
  C17: the phases are those of the recording thread. Whatever the operating system, the writers, the
  uploads and the server answer to it, the events that the thread sends are those of a run through
  the phases, in which what it waits for is the stop signal it was answered.
\<close>
theorem thread_refines_phases:
  assumes "thread_run h srv fs ta (record_session j intersects ar rr bd) assets acts up lg"
  shows "phase_run (signal_of (rr_stop_signal rr)) Beginning (emitted acts) Done"
proof -
  let ?sg = "signal_of (rr_stop_signal rr)"
  have failed: "phase_run ?sg Beginning [RecordingFailed m] Done" for m
    by (rule phase_cons [OF begin_failed phase_refl])
  show ?thesis
    using thread_run_actions [OF assms]
  proof cases
    case (1 e)
    then show ?thesis by (simp add: failed)
  next
    case (2 worker direct)
    show ?thesis
    proof (cases "record_begin intersects ar rr")
      case (Inl e)
      with 2 show ?thesis by (simp add: record_session_def recording_thread_def Let_def failed)
    next
      case start: (Inr x)
      have started: "phase_run ?sg InCapture es Done \<Longrightarrow> phase_run ?sg Beginning (RecordingStarted # es) Done" for es
        by (rule phase_cons [OF begun])
      show ?thesis
      proof (cases "record_end j ar rr bd")
        case (Inl e)
        have "phase_run ?sg InCapture [RecordingFailed e] Done"
          by (cases "rr_stop_signal rr")
            (auto simp: signal_of_def intro: phase_tau [OF stop_received] phase_tau [OF sender_lost]
              phase_cons [OF ending_failed phase_refl] phase_cons [OF capture_failed phase_refl])
        with 2 start Inl started show ?thesis by (simp add: record_session_def recording_thread_def Let_def)
      next
        case (Inr d)
        then have "rr_stop_signal rr = None"
          by (cases "rr_stop_signal rr") (simp_all add: record_end_def answered_def)
        then have "phase_run ?sg InCapture
            ((if ta_server ta \<noteq> None then [RecordingUploading] else []) @ emitted (after_recording ta worker direct)) Done"
          using phase_tau [OF stop_received after_phases] by (simp add: signal_of_def)
        with 2 start Inr started show ?thesis
          by (cases "ta_server ta"; cases worker) (simp_all add: record_session_def recording_thread_def Let_def)
      qed
    qed
  qed
qed

subsection \<open>The system\<close>

record 'txt recording_system =
  sy_app :: capture_app
  sy_disk :: "'txt Bundle.disk"
  sy_threads :: "nat \<Rightarrow> thread_state option"
  sy_channel :: "recording_event list"
  sy_next :: nat

definition signal_thread :: "signal \<Rightarrow> nat \<Rightarrow> (nat \<Rightarrow> thread_state option) \<Rightarrow> nat \<Rightarrow> thread_state option" where
  "signal_thread sg i T =
     (case T i of
        Some t \<Rightarrow> if td_signal t = Waiting then T(i \<mapsto> t\<lparr>td_signal := sg\<rparr>) else T
      | None \<Rightarrow> T)"

text \<open>A message in the stop channel is received even when its sender is gone.\<close>

fun apply_effect :: "app_effect \<Rightarrow> (nat \<Rightarrow> thread_state option) \<Rightarrow> nat \<Rightarrow> thread_state option" where
  "apply_effect (Spawn i ra ta) T = T(i \<mapsto> \<lparr>td_phase = Beginning, td_signal = Waiting\<rparr>)"
| "apply_effect (SendStop i) T = signal_thread Stopped i T"
| "apply_effect (DropStop i) T = signal_thread Dropped i T"
| "apply_effect _ T = T"

definition after_app ::
    "'txt recording_system \<Rightarrow> capture_app \<times> 'txt Bundle.disk \<times> app_effect list \<Rightarrow> 'txt recording_system" where
  "after_app s r =
     (case r of (a, d, effects) \<Rightarrow>
        s\<lparr>sy_app := a, sy_disk := d, sy_threads := fold apply_effect effects (sy_threads s)\<rparr>)"

text \<open>The steps that need no user: the toolbar handles an event, a thread goes on.\<close>

inductive work_step :: "'txt recording_system \<Rightarrow> 'txt recording_system \<Rightarrow> bool" where
  event_step: "\<not> ca_closed (sy_app s) \<Longrightarrow> sy_channel s = e # es \<Longrightarrow>
    s' = (after_app s (with_effects (sy_disk s) (handle_event now registered sc e (sy_app s))))\<lparr>sy_channel := es\<rparr> \<Longrightarrow>
    work_step s s'"
| thread_step: "sy_threads s i = Some t \<Longrightarrow> phase_step (td_signal t) (td_phase t) es ph \<Longrightarrow>
    s' = s\<lparr>sy_threads := (sy_threads s)(i \<mapsto> t\<lparr>td_phase := ph\<rparr>), sy_channel := sy_channel s @ es\<rparr> \<Longrightarrow>
    work_step s s'"

inductive sys_step :: "bool \<Rightarrow> 'txt recording_system \<Rightarrow> 'txt recording_system \<Rightarrow> bool" for faulty where
  user_step: "\<not> ca_closed (sy_app s) \<Longrightarrow> enabled op (sy_app s) \<Longrightarrow>
    s' = (after_app s (app_run op (sy_next s) (sy_app s) (sy_disk s)))\<lparr>sy_next := Suc (sy_next s)\<rparr> \<Longrightarrow>
    sys_step faulty s s'"
| works: "work_step s s' \<Longrightarrow> sys_step faulty s s'"
| fault_step: "faulty \<Longrightarrow> sy_threads s i = Some t \<Longrightarrow> td_phase t \<in> {Beginning, InCapture, Ending} \<Longrightarrow>
    s' = s\<lparr>sy_channel := sy_channel s @ [RecordingFailed m]\<rparr> \<Longrightarrow>
    sys_step faulty s s'"

definition new_system :: "capture_app \<Rightarrow> 'txt Bundle.disk \<Rightarrow> 'txt recording_system" where
  "new_system a d = \<lparr>sy_app = a, sy_disk = d, sy_threads = (\<lambda>_. None), sy_channel = [], sy_next = 0\<rparr>"

definition live :: "'txt recording_system \<Rightarrow> nat \<Rightarrow> bool" where
  "live s i \<longleftrightarrow> (case sy_threads s i of Some t \<Rightarrow> td_phase t \<noteq> Done | None \<Rightarrow> False)"

subsection \<open>One recording at a time\<close>

definition final_event :: "recording_event \<Rightarrow> bool" where
  "final_event e \<longleftrightarrow> (case e of RecordingFinished p v \<Rightarrow> True | RecordingFailed m \<Rightarrow> True | _ \<Rightarrow> False)"

text \<open>The status of the toolbar, its stop channel, and the only thread with the events not yet handled.\<close>

fun status_ok :: "status \<Rightarrow> nat option \<Rightarrow> nat \<Rightarrow> thread_state \<Rightarrow> recording_event list \<Rightarrow> bool" where
  "status_ok Idle ss i t ch = False"
| "status_ok Starting ss i t ch = (ss = Some i \<and> td_signal t = Waiting \<and>
     (td_phase t = Beginning \<and> ch = [] \<or> td_phase t = InCapture \<and> ch = [RecordingStarted] \<or>
      td_phase t = Done \<and> (\<exists>m. ch = [RecordingFailed m])))"
| "status_ok Capturing ss i t ch = (ss = Some i \<and> td_signal t = Waiting \<and> td_phase t = InCapture \<and> ch = [])"
| "status_ok Finalizing ss i t ch = (ss = None \<and> td_signal t = Stopped \<and>
     (td_phase t \<in> {InCapture, Ending} \<and> ch = [] \<or> td_phase t = InUpload \<and> ch = [RecordingUploading] \<or>
      td_phase t = Done \<and> (\<exists>e. final_event e \<and> (ch = [e] \<or> ch = [RecordingUploading, e]))))"
| "status_ok Uploading ss i t ch = (ss = None \<and> td_signal t = Stopped \<and>
     (td_phase t = InUpload \<and> ch = [] \<or> td_phase t = Done \<and> (\<exists>e. final_event e \<and> ch = [e])))"

definition only_live :: "(nat \<Rightarrow> thread_state option) \<Rightarrow> nat \<Rightarrow> bool" where
  "only_live T i \<longleftrightarrow> (\<forall>j t. T j = Some t \<and> j \<noteq> i \<longrightarrow> td_phase t = Done)"

definition none_live :: "(nat \<Rightarrow> thread_state option) \<Rightarrow> bool" where
  "none_live T \<longleftrightarrow> (\<forall>j t. T j = Some t \<longrightarrow> td_phase t = Done)"

definition recording_ok :: "'txt recording_system \<Rightarrow> bool" where
  "recording_ok s \<longleftrightarrow>
     (if ca_closed (sy_app s) then \<exists>i. only_live (sy_threads s) i
      else if ca_status (sy_app s) = Idle then none_live (sy_threads s) \<and> sy_channel s = [] \<and> ca_stop_sender (sy_app s) = None
      else \<exists>i t. sy_threads s i = Some t \<and> only_live (sy_threads s) i \<and>
        status_ok (ca_status (sy_app s)) (ca_stop_sender (sy_app s)) i t (sy_channel s))"

definition system_ok :: "'txt recording_system \<Rightarrow> bool" where
  "system_ok s \<longleftrightarrow> (ca_closed (sy_app s) \<or> app_ok (sy_app s)) \<and> recording_ok s \<and>
     (\<forall>i. sy_next s \<le> i \<longrightarrow> sy_threads s i = None)"

lemma only_live_update: "only_live T i \<Longrightarrow> i = j \<or> (\<exists>t. T j = Some t \<and> td_phase t \<noteq> Done) \<Longrightarrow> only_live (T(j \<mapsto> u)) i"
  by (auto simp: only_live_def)

lemma thread_step_status:
  assumes "status_ok st ss i t ch" "phase_step (td_signal t) (td_phase t) es ph"
  shows "status_ok st ss i (t\<lparr>td_phase := ph\<rparr>) (ch @ es)"
  using assms(2,1) by (cases st; cases t; cases rule: phase_step.cases) (auto simp: final_event_def)

lemma thread_step_ok:
  assumes "system_ok s" "sy_threads s i = Some t" "phase_step (td_signal t) (td_phase t) es ph"
  shows "system_ok (s\<lparr>sy_threads := (sy_threads s)(i \<mapsto> t\<lparr>td_phase := ph\<rparr>), sy_channel := sy_channel s @ es\<rparr>)"
proof -
  let ?T = "(sy_threads s)(i \<mapsto> t\<lparr>td_phase := ph\<rparr>)"
  have nd: "td_phase t \<noteq> Done" using assms(3) by (auto elim: phase_stepE)
  have upd: "only_live ?T k" if "only_live (sy_threads s) k" for k
    using only_live_update [OF that, of i] assms(2) nd by blast
  have ok: "recording_ok s" using assms(1) by (simp add: system_ok_def)
  have "recording_ok (s\<lparr>sy_threads := ?T, sy_channel := sy_channel s @ es\<rparr>)"
  proof (cases "ca_closed (sy_app s)")
    case True
    with ok upd show ?thesis by (auto simp: recording_ok_def)
  next
    case False
    with ok assms(2) nd have "ca_status (sy_app s) \<noteq> Idle" by (auto simp: recording_ok_def none_live_def)
    with ok False obtain k u where k: "sy_threads s k = Some u" "only_live (sy_threads s) k"
      "status_ok (ca_status (sy_app s)) (ca_stop_sender (sy_app s)) k u (sy_channel s)" by (auto simp: recording_ok_def)
    with assms(2) nd have [simp]: "k = i" by (auto simp: only_live_def)
    with k(1) assms(2) have [simp]: "u = t" by simp
    from thread_step_status [OF k(3) [simplified] assms(3)] upd [OF k(2)] False \<open>ca_status (sy_app s) \<noteq> Idle\<close>
    show ?thesis by (auto simp: recording_ok_def)
  qed
  with assms(1,2) show ?thesis by (auto simp: system_ok_def)
qed

lemma only_live_signal: "only_live T k \<Longrightarrow> only_live (signal_thread sg i T) k"
  by (auto simp: signal_thread_def only_live_def split: option.split)

lemma none_live_signal: "none_live T \<Longrightarrow> none_live (signal_thread sg i T)"
  by (auto simp: signal_thread_def none_live_def split: option.split)

lemma signal_unknown: "\<forall>k \<ge> n. T k = None \<Longrightarrow> \<forall>k \<ge> n. signal_thread sg i T k = None"
  by (auto simp: signal_thread_def split: option.split)

lemma drop_keeps:
  "only_live T k \<Longrightarrow> only_live (fold apply_effect (drop_stop ss) T) k"
  "none_live T \<Longrightarrow> none_live (fold apply_effect (drop_stop ss) T)"
  "\<forall>k \<ge> n. T k = None \<Longrightarrow> \<forall>k \<ge> n. fold apply_effect (drop_stop ss) T k = None"
  by (auto simp: drop_stop_def only_live_signal none_live_signal signal_unknown split: option.split)

lemma completion_keeps: "fold apply_effect (completion a path v) T = T"
  by (simp add: completion_def split: option.split completion_action.split)

lemma closed_ok: "recording_ok s \<Longrightarrow> \<exists>k. only_live (sy_threads s) k"
  by (auto simp: recording_ok_def only_live_def none_live_def split: if_splits)

text \<open>What the user does.\<close>

lemma user_step_ok:
  assumes "system_ok s" "\<not> ca_closed (sy_app s)" "enabled op (sy_app s)"
  shows "system_ok ((after_app s (app_run op (sy_next s) (sy_app s) (sy_disk s)))\<lparr>sy_next := Suc (sy_next s)\<rparr>)"
proof -
  let ?a = "sy_app s"
  obtain a' d' effects where run: "app_run op (sy_next s) ?a (sy_disk s) = (a', d', effects)"
    by (cases "app_run op (sy_next s) ?a (sy_disk s)")
  from assms have app: "app_ok ?a" and rec: "recording_ok s" and fresh: "\<forall>k \<ge> sy_next s. sy_threads s k = None"
    by (auto simp: system_ok_def)
  have app': "ca_closed a' \<or> app_ok a'" using app_run_ok [OF app assms(3), of "sy_next s" "sy_disk s"] run by simp
  let ?T = "fold apply_effect effects (sy_threads s)"
  let ?s = "s\<lparr>sy_app := a', sy_disk := d', sy_threads := ?T, sy_next := Suc (sy_next s)\<rparr>"
  have "recording_ok ?s \<and> (\<forall>k \<ge> Suc (sy_next s). ?T k = None)"
    using app_run_outcome [OF app assms(3), of "sy_next s" "sy_disk s"] unfolding run
  proof (elim disjE)
    assume "quiet ?a (a', d', effects)"
    with rec assms(2) fresh show ?thesis by (simp add: quiet_def recording_ok_def)
  next
    assume st: "starts (sy_next s) ?a (a', d', effects)"
    then have "none_live (sy_threads s)" "sy_channel s = []" "ca_stop_sender ?a = None"
      using rec assms(2) by (auto simp: starts_def recording_ok_def)
    with st assms(2) fresh show ?thesis
      by (auto simp: starts_def recording_ok_def drop_stop_def only_live_def none_live_def)
  next
    assume st: "stops ?a (a', d', effects)"
    then obtain k t where k: "sy_threads s k = Some t" "only_live (sy_threads s) k"
      "ca_stop_sender ?a = Some k" "td_signal t = Waiting" "td_phase t = InCapture" "sy_channel s = []"
      using rec assms(2) by (auto simp: stops_def recording_ok_def)
    then have sig: "signal_thread Stopped k (sy_threads s) = (sy_threads s)(k \<mapsto> t\<lparr>td_signal := Stopped\<rparr>)"
      by (simp add: signal_thread_def)
    with st k have T: "?T = (sy_threads s)(k \<mapsto> t\<lparr>td_signal := Stopped\<rparr>)" by (simp add: stops_def)
    have "only_live ?T k" using k(2) by (simp add: T only_live_def)
    moreover have "\<forall>j \<ge> Suc (sy_next s). ?T j = None"
      using fresh k(1) by (auto simp: T dest: Suc_leD)
    ultimately show ?thesis using st k assms(2) unfolding T
      by (auto simp: recording_ok_def stops_def intro!: exI [of _ k])
  next
    assume cl: "closes ?a (a', d', effects)"
    from closed_ok [OF rec] obtain k where "only_live (sy_threads s) k" ..
    with cl drop_keeps fresh show ?thesis by (auto simp: closes_def recording_ok_def)
  qed
  with app' show ?thesis by (simp add: system_ok_def after_app_def run)
qed

text \<open>What the toolbar learns from a recording.\<close>

lemma recording_failed_ok:
  assumes "app_ok a" "ca_status a \<noteq> Idle"
  shows "app_ok (recording_failed registered sc m a)"
  unfolding recording_failed_def
  using assms by (intro app_ok_reopened [OF opened]) (auto simp: app_ok_defs)

lemma handle_event_ok:
  assumes "app_ok a" "ca_status a \<noteq> Idle"
  shows "ca_closed (fst (handle_event now registered sc e a)) \<or> app_ok (fst (handle_event now registered sc e a))"
  using assms
  by (cases e)
    (auto simp: recording_failed_ok close_windows_def split: prod.split, auto simp: app_ok_defs)

lemma recording_failed_fields [simp]:
  "ca_status (recording_failed registered sc m a) = Idle" "ca_stop_sender (recording_failed registered sc m a) = None"
  "ca_closed (recording_failed registered sc m a) = ca_closed a"
  by (simp_all add: recording_failed_def)

lemma event_step_ok:
  assumes "system_ok s" "\<not> ca_closed (sy_app s)" "sy_channel s = e # es"
  shows "system_ok ((after_app s (with_effects (sy_disk s) (handle_event now registered sc e (sy_app s))))\<lparr>sy_channel := es\<rparr>)"
proof -
  let ?a = "sy_app s" and ?T = "sy_threads s"
  obtain a' effects where h: "handle_event now registered sc e ?a = (a', effects)"
    by (cases "handle_event now registered sc e ?a")
  from assms have app: "app_ok ?a" and rec: "recording_ok s" and fresh: "\<forall>k \<ge> sy_next s. ?T k = None"
    by (auto simp: system_ok_def)
  from rec assms(2,3) have busy: "ca_status ?a \<noteq> Idle" by (auto simp: recording_ok_def)
  with rec assms(2,3) obtain k t where k: "?T k = Some t" "only_live ?T k"
    "status_ok (ca_status ?a) (ca_stop_sender ?a) k t (e # es)" by (auto simp: recording_ok_def)
  have app': "ca_closed a' \<or> app_ok a'" using handle_event_ok [OF app busy, of now registered sc e] h by simp
  let ?s = "s\<lparr>sy_app := a', sy_threads := fold apply_effect effects ?T, sy_channel := es\<rparr>"
  have "recording_ok ?s \<and> (\<forall>k \<ge> sy_next s. fold apply_effect effects ?T k = None)"
  proof (cases e)
    case RecordingStarted
    with h k assms(2) fresh show ?thesis
      by (cases "ca_status ?a") (auto simp: recording_ok_def final_event_def intro!: exI [of _ k])
  next
    case RecordingUploading
    with h k assms(2) fresh show ?thesis
      by (cases "ca_status ?a") (auto simp: recording_ok_def final_event_def intro!: exI [of _ k])
  next
    case (RecordingFinished p v)
    with h have "a' = fst (close_windows ?a)" "effects = completion ?a p v @ drop_stop (ca_stop_sender ?a)"
      by (auto simp: close_windows_def)
    with drop_keeps(1) [OF k(2)] drop_keeps(3) [OF fresh] show ?thesis
      by (auto simp: recording_ok_def close_windows_closed completion_keeps)
  next
    case (RecordingFailed m)
    with k(3) have "td_phase t = Done" "es = []"
      by (cases "ca_status ?a"; auto simp: final_event_def)+
    with k(1,2) have "none_live ?T" unfolding only_live_def none_live_def by (metis option.inject)
    moreover have "a' = recording_failed registered sc m ?a" "effects = drop_stop (ca_stop_sender ?a)"
      using h RecordingFailed by auto
    ultimately show ?thesis using \<open>es = []\<close> assms(2) drop_keeps fresh by (auto simp: recording_ok_def)
  qed
  with app' show ?thesis by (simp add: system_ok_def after_app_def with_effects_def h)
qed

interpretation working: state_machine work_step system_ok
proof
  fix s s' :: "'txt recording_system"
  assume "system_ok s" "work_step s s'"
  from this(2,1) show "system_ok s'"
    by (cases rule: work_step.cases) (auto simp: event_step_ok thread_step_ok)
qed

interpretation quiet_system: state_machine "sys_step False" system_ok
proof
  fix s s' :: "'txt recording_system"
  assume "system_ok s" "sys_step False s s'"
  from this(2,1) show "system_ok s'"
    by (cases rule: sys_step.cases) (auto simp: user_step_ok intro: working.step_keeps)
qed

lemma new_system_ok: "system_ok (new_system (new_app displays windows profiles cameras escape) d)"
  by (simp add: system_ok_def new_system_def recording_ok_def none_live_def new_app_def app_ok_defs)

text \<open>A system that was started and has had no fault.\<close>

definition reachable :: "'txt recording_system \<Rightarrow> bool" where
  "reachable s \<longleftrightarrow> (\<exists>displays windows profiles cameras escape d.
     (sys_step False)\<^sup>*\<^sup>* (new_system (new_app displays windows profiles cameras escape) d) s)"

lemma reachable_ok: "reachable s \<Longrightarrow> system_ok s"
  unfolding reachable_def by (auto intro: quiet_system.reachable_inv new_system_ok)

text \<open>
  C3: there is one recording at a time, and the toolbar knows it. As long as ScreenCaptureKit stops no
  stream by itself: whatever the user does and in whatever order threads work and events arrive, at
  most one recording thread is at work. An idle toolbar has none, and no event is on its way to it;
  while it shows that a recording runs, the thread whose stop channel it holds is the one that waits
  for the stop signal, and stopping sends it that signal. The camera preview that is open is the one
  of the selected camera.
\<close>
theorem one_recording:
  assumes "reachable s"
  shows "(\<forall>i j. live s i \<and> live s j \<longrightarrow> i = j) \<and>
    (\<not> ca_closed (sy_app s) \<longrightarrow>
       (ca_status (sy_app s) = Idle \<longrightarrow> (\<forall>i. \<not> live s i) \<and> sy_channel s = []) \<and>
       (ca_status (sy_app s) = Capturing \<longrightarrow>
          (\<exists>i t. ca_stop_sender (sy_app s) = Some i \<and> sy_threads s i = Some t \<and> td_phase t = InCapture \<and>
             snd (stop_app now (sy_app s)) = [SendStop i] \<and>
             apply_effect (SendStop i) (sy_threads s) i = Some (t\<lparr>td_signal := Stopped\<rparr>))) \<and>
       (\<forall>device. ca_camera_window (sy_app s) = Some device \<longrightarrow>
          camera_at (sy_app s) (ca_camera (sy_app s)) = Some device))"
proof -
  from reachable_ok [OF assms] have ok: "system_ok s" .
  then have rec: "recording_ok s" and app: "\<not> ca_closed (sy_app s) \<Longrightarrow> app_ok (sy_app s)" by (auto simp: system_ok_def)
  from closed_ok [OF rec] have one: "\<forall>i j. live s i \<and> live s j \<longrightarrow> i = j"
    by (auto simp: only_live_def live_def split: option.splits)
  have cam: "camera_at (sy_app s) (ca_camera (sy_app s)) = Some device"
    if "\<not> ca_closed (sy_app s)" "ca_camera_window (sy_app s) = Some device" for device
    using app that by (auto simp: app_ok_def camera_ok_def camera_at_def)
  from rec one cam show ?thesis
    by (auto simp: recording_ok_def none_live_def live_def stop_app_def signal_thread_def split: option.splits)
qed

subsection \<open>What is recorded\<close>

text \<open>
  C5: what is recorded is what the overlays show as selected. As long as ScreenCaptureKit stops no stream by
  itself: whenever an operation starts a recording,
  no other one is at work, the toolbar holds the new one's stop channel, the display, window or
  region it records is the one in the cells that the overlays of the present mode are drawn from, and
  the format and the completion action are the selected profile's. (After such a fault a new recording can
  start while the thread of the failed one is still ending: \<open>stale_failure\<close> below.)
\<close>
theorem recorded_as_selected:
  assumes "reachable s" "\<not> ca_closed (sy_app s)" "enabled op (sy_app s)"
    and "app_run op (sy_next s) (sy_app s) (sy_disk s) = (a', d', effects)" "Spawn i ra ta \<in> set effects"
  shows "(\<forall>j. \<not> live s j) \<and> ca_status a' = Starting \<and> ca_stop_sender a' = Some i \<and>
    selected_as (ca_selection a') (ar_spec ra) \<and>
    (\<exists>p. selected (ca_profiles a') = Some p \<and> ta_format ta = rp_format p \<and> ar_format ra = rp_format p \<and>
       ca_action a' = rp_action p)"
proof -
  have ok: "app_ok (sy_app s)" "recording_ok s" using reachable_ok [OF assms(1)] assms(2) by (auto simp: system_ok_def)
  have "starts (sy_next s) (sy_app s) (a', d', effects)"
    using app_run_outcome [OF ok(1) assms(3), of "sy_next s" "sy_disk s"] assms(5) unfolding assms(4)
    by (auto simp: quiet_def stops_def closes_def drop_stop_def split: option.splits)
  with ok(2) assms(2,5) show ?thesis
    by (auto simp: starts_def drop_stop_def recording_ok_def none_live_def live_def split: option.splits)
qed

subsection \<open>A recording that is stopped ends\<close>

fun phase_rank :: "phase \<Rightarrow> nat" where
  "phase_rank Done = 0"
| "phase_rank Failing = 2"
| "phase_rank InUpload = 2"
| "phase_rank Ending = 4"
| "phase_rank InCapture = 5"
| "phase_rank Beginning = 7"

definition thread_rank :: "(nat \<Rightarrow> thread_state option) \<Rightarrow> nat \<Rightarrow> nat" where
  "thread_rank T i = (case T i of Some t \<Rightarrow> phase_rank (td_phase t) | None \<Rightarrow> 0)"

definition rank :: "'txt recording_system \<Rightarrow> nat" where
  "rank s = length (sy_channel s) + (\<Sum>i < sy_next s. thread_rank (sy_threads s) i)"

lemma phase_step_rank: "phase_step sg ph es ph' \<Longrightarrow> length es + phase_rank ph' < phase_rank ph"
  by (induction rule: phase_step.induct) simp_all

lemma signal_rank [simp]: "thread_rank (signal_thread sg k T) = thread_rank T"
  by (auto simp: thread_rank_def signal_thread_def fun_eq_iff split: option.split)

lemma event_rank [simp]:
  "thread_rank (fold apply_effect (snd (handle_event now registered sc e a)) T) = thread_rank T"
  by (cases e) (auto simp: close_windows_def completion_keeps drop_stop_def split: option.split)

lemma work_rank:
  assumes "work_step s s'" "system_ok s"
  shows "rank s' < rank s"
  using assms(1)
proof cases
  case (event_step e es now registered sc)
  then show ?thesis by (simp add: rank_def after_app_def with_effects_def)
next
  case (thread_step i t es ph)
  from assms(2) thread_step(1) have i: "i < sy_next s" by (force simp: system_ok_def not_le[symmetric])
  let ?T = "(sy_threads s)(i \<mapsto> t\<lparr>td_phase := ph\<rparr>)"
  have split: "(\<Sum>j < sy_next s. thread_rank T j) = thread_rank T i + (\<Sum>j \<in> {..<sy_next s} - {i}. thread_rank T j)" for T
    using i by (simp add: sum.remove)
  have "(\<Sum>j \<in> {..<sy_next s} - {i}. thread_rank ?T j) = (\<Sum>j \<in> {..<sy_next s} - {i}. thread_rank (sy_threads s) j)"
    by (intro sum.cong) (auto simp: thread_rank_def)
  with phase_step_rank [OF thread_step(2)] thread_step(1,3) split [of ?T] split [of "sy_threads s"] show ?thesis
    by (simp add: rank_def thread_rank_def)
qed

lemma work_steps_rank: "(work_step ^^ n) s s' \<Longrightarrow> system_ok s \<Longrightarrow> n + rank s' \<le> rank s"
proof (induction n arbitrary: s')
  case (Suc n)
  then obtain u where u: "(work_step ^^ n) s u" "work_step u s'" by auto
  then have "system_ok u" using working.reachable_inv [OF relpowp_imp_rtranclp Suc.prems(2)] by blast
  with u Suc work_rank [OF u(2)] show ?case by fastforce
qed simp

definition stopping :: "'txt recording_system \<Rightarrow> bool" where
  "stopping s \<longleftrightarrow> ca_closed (sy_app s) \<or> ca_status (sy_app s) \<in> {Finalizing, Uploading, Idle}"

lemma work_stopping:
  assumes "work_step s s'" "system_ok s" "stopping s"
  shows "stopping s'"
  using assms(1)
proof cases
  case (event_step e es now registered sc)
  from assms(2) have "recording_ok s" by (simp add: system_ok_def)
  with event_step assms(3) have "e \<noteq> RecordingStarted"
    by (auto simp: recording_ok_def stopping_def final_event_def)
  with event_step show ?thesis
    by (cases e) (simp_all add: stopping_def after_app_def with_effects_def close_windows_def split: prod.split)
next
  case (thread_step i t es ph)
  with assms(3) show ?thesis by (simp add: stopping_def)
qed

lemma work_possible:
  assumes "system_ok s" "\<not> ca_closed (sy_app s)" "ca_status (sy_app s) \<notin> {Idle, Capturing}"
  shows "\<exists>s'. work_step s s'"
proof (cases "sy_channel s")
  case (Cons e es)
  from work_step.event_step [OF assms(2) Cons refl] show ?thesis by blast
next
  case Nil
  from assms obtain i t where t: "sy_threads s i = Some t"
    "status_ok (ca_status (sy_app s)) (ca_stop_sender (sy_app s)) i t []"
    by (auto simp: system_ok_def recording_ok_def Nil)
  with assms(3) have "(\<exists>es ph. phase_step (td_signal t) (td_phase t) es ph)"
    by (cases "ca_status (sy_app s)")
      (auto intro: begun upload_failed, (metis stop_received ending_failed)+)
  with work_step.thread_step [OF t(1) _ refl] show ?thesis by blast
qed

lemma only_live_rank:
  assumes "only_live T i" "i < n"
  shows "(\<Sum>j < n. thread_rank T j) = thread_rank T i"
proof -
  have "(\<Sum>j \<in> {..<n} - {i}. thread_rank T j) = 0"
    using assms(1) by (auto simp: thread_rank_def only_live_def split: option.split)
  with assms(2) show ?thesis by (simp add: sum.remove)
qed

lemma stopping_rank:
  assumes "system_ok s" "\<not> ca_closed (sy_app s)" "ca_status (sy_app s) \<in> {Finalizing, Uploading}"
  shows "rank s \<le> 5"
proof -
  from assms obtain i t where t: "sy_threads s i = Some t" "only_live (sy_threads s) i"
    "status_ok (ca_status (sy_app s)) (ca_stop_sender (sy_app s)) i t (sy_channel s)"
    by (auto simp: system_ok_def recording_ok_def)
  moreover have "i < sy_next s" using assms(1) t(1) by (force simp: system_ok_def not_le [symmetric])
  ultimately have "rank s = length (sy_channel s) + phase_rank (td_phase t)"
    by (simp add: rank_def only_live_rank) (simp add: thread_rank_def)
  with t(3) assms(3) show ?thesis by (elim insertE) auto
qed

text \<open>
  C15: a recording that is stopped ends. From the moment the toolbar has stopped a recording (or learned
  that it is uploaded), and without faults, threads and events take at most five steps, whatever they
  answer and in whatever order, and as long as the toolbar neither is idle nor has closed, another
  step is possible. When none is left the toolbar has closed after a finished recording or is idle
  again with no thread at work: it never stays in "Finishing" or "Uploading".
\<close>
theorem stopped_recording_ends:
  assumes "reachable s" "\<not> ca_closed (sy_app s)" "ca_status (sy_app s) \<in> {Finalizing, Uploading}"
    and "(work_step ^^ n) s s'"
  shows "n \<le> 5 \<and>
    ((\<exists>s''. work_step s' s'') \<or> ca_closed (sy_app s') \<or> ca_status (sy_app s') = Idle \<and> (\<forall>i. \<not> live s' i))"
proof -
  have ok: "system_ok s" by (rule reachable_ok [OF assms(1)])
  have "(work_step ^^ m) s u \<Longrightarrow> system_ok u \<and> stopping u" for m u
  proof (induction m arbitrary: u)
    case 0
    with ok assms(3) show ?case by (auto simp: stopping_def)
  next
    case (Suc m)
    then obtain v where "(work_step ^^ m) s v" "work_step v u" by auto
    with Suc.IH working.step_keeps work_stopping show ?case by blast
  qed
  with assms(4) have ok': "system_ok s'" and st: "stopping s'" by auto
  have "n \<le> 5" using work_steps_rank [OF assms(4) ok] stopping_rank [OF ok assms(2,3)] by simp
  moreover have "\<forall>i. \<not> live s' i" if "\<not> ca_closed (sy_app s')" "ca_status (sy_app s') = Idle"
    using ok' that by (auto simp: system_ok_def recording_ok_def none_live_def live_def split: option.splits)
  ultimately show ?thesis
    using work_possible [OF ok'] st by (auto simp: stopping_def)
qed

subsection \<open>A recording of a display\<close>

definition one_screen :: screens where
  "one_screen = \<lparr>sc_screens = [1], sc_fails = (\<lambda>_ _. None)\<rparr>"

definition video_profiles :: recording_profiles where
  "video_profiles = \<lparr>ps_profiles = [local_profile ''1'' ''p'' ''/v'' Reveal], ps_selected = ''1''\<rparr>"

definition plain_env :: "'txt json \<Rightarrow> 'txt record_env" where
  "plain_env j = \<lparr>re_lib = sample_urls, re_json = j, re_now = 0, re_date = ''2026-01-02'', re_temp = ''/tmp'',
     re_folder = None, re_crop = None, re_display_name = (\<lambda>_. None), re_spawn = None\<rparr>"

text \<open>A toolbar in display mode on one display, before a recording.\<close>

definition on_screen :: "capture_app \<Rightarrow> bool" where
  "on_screen a \<longleftrightarrow> ca_displays a = [1] \<and> ca_mode a = Some ModeDisplay \<and> sl_mode (ca_selection a) = Some ModeDisplay \<and>
     ca_profiles a = video_profiles \<and> ca_toolbar a \<and> \<not> ca_closed a \<and> ca_drag_start a = None"

definition ready :: "capture_app \<Rightarrow> bool" where
  "ready a \<longleftrightarrow> on_screen a \<and> ca_status a = Idle \<and> \<not> sl_recording (ca_selection a) \<and> ca_stop_sender a = None \<and>
     (\<exists>v. ca_overlays a = [v] \<and> ov_mode v = Some ModeDisplay \<and> ov_display v = 1 \<and> ov_drag v = None)"

lemma one_screen_opens:
  "ca_displays a = [1] \<Longrightarrow> ca_overlays (open_selection_windows one_screen a) = [new_overlay (close_selection_windows a) 1]"
  "ca_profiles (open_selection_windows one_screen a) = ca_profiles a"
  "ca_displays (open_selection_windows one_screen a) = ca_displays a"
  "ca_drag_start (open_selection_windows one_screen a) = ca_drag_start a"
proof -
  show "ca_displays a = [1] \<Longrightarrow> ca_overlays (open_selection_windows one_screen a) = [new_overlay (close_selection_windows a) 1]"
    by (simp add: open_selection_windows_def one_screen_def open_overlay_def close_selection_windows_def)
  show "ca_profiles (open_selection_windows one_screen a) = ca_profiles a"
    "ca_displays (open_selection_windows one_screen a) = ca_displays a"
    "ca_drag_start (open_selection_windows one_screen a) = ca_drag_start a"
    using arg_cong [OF opened(1) [unfolded reopened_def], of ca_profiles]
      arg_cong [OF opened(1) [unfolded reopened_def], of ca_displays]
      arg_cong [OF opened(1) [unfolded reopened_def], of ca_drag_start] by simp_all
qed

lemma ascii_unicode: "is_unicode (ascii t)"
proof -
  have "of_char c < (1114112 :: nat)" for c :: char
    using nat_of_char_less_256 [of c] by linarith
  then show ?thesis by (simp add: is_unicode_def ascii_def list_all_iff)
qed

definition video_profile :: recording_profile where
  "video_profile = local_profile ''1'' ''p'' ''/v'' Reveal"

lemma video_profile_used: "ca_profiles b = video_profiles \<Longrightarrow> record_profile sample_urls b = Inr video_profile"
  by (simp add: record_profile_def video_profiles_def video_profile_def selected_def selected_index_def local_profile_def
      validate_def trim_def is_space_def)

lemma recording_started_fields [simp]:
  "on_screen (recording_started i action a) = on_screen a" "ca_status (recording_started i action a) = Starting"
  "ca_stop_sender (recording_started i action a) = Some i"
  by (simp_all add: on_screen_def recording_started_def close_interaction_windows_def set_selection_def)

lemma display_recorded:
  assumes "on_screen b" "ca_status b = Idle" "ca_stop_sender b = None" "ca_display b = 1" "roomy d"
  shows "\<exists>a' d' ra ta. record_app (plain_env j) i b d = (a', d', [Spawn i ra ta]) \<and> roomy d' \<and> on_screen a' \<and>
    ca_status a' = Starting \<and> ca_stop_sender a' = Some i \<and> ar_spec ra = CaptureDisplay 1"
proof -
  have spec: "record_spec b = Inr (CaptureDisplay 1)" using assms by (simp add: record_spec_def on_screen_def)
  have name: "is_unicode (target_name (\<lambda>_. None) b (CaptureDisplay 1))"
    by (simp add: target_name_def ascii_unicode)
  from roomy_destination [OF assms(5) name] obtain dest d'
    where out: "output_destination_of j 0 ''2026-01-02'' ''/tmp'' None video_profile
      (target_name (\<lambda>_. None) b (CaptureDisplay 1)) None (ca_system_audio b) d = (Inr dest, d')" "roomy d'"
    unfolding video_profile_def by blast
  have crop: "\<not> (rp_format video_profile = FormatBundle \<and> ca_camera_window b \<noteq> None)"
    by (simp add: video_profile_def local_profile_def)
  obtain ra ta where args: "spawn_args b (CaptureDisplay 1) video_profile False dest = (ra, ta)" by fastforce
  then have "ar_spec ra = CaptureDisplay 1" by (auto simp: spawn_args_def)
  moreover have "record_app (plain_env j) i b d = (recording_started i (rp_action video_profile) b, d', [Spawn i ra ta])"
    using assms spec out(1) args crop video_profile_used [of b]
    by (simp add: record_app_def on_screen_def plain_env_def drop_stop_def Let_def del: One_nat_def)
  ultimately show ?thesis using out(2) assms(1) by simp
qed

lemma screen_start:
  assumes "ready a" "roomy d"
  shows "enabled (StartDisplay 0 (plain_env j)) a"
    "\<exists>a' d' ra ta. app_run (StartDisplay 0 (plain_env j)) i a d = (a', d', [Spawn i ra ta]) \<and> roomy d' \<and> on_screen a' \<and>
       ca_status a' = Starting \<and> ca_stop_sender a' = Some i \<and> ar_spec ra = CaptureDisplay 1"
proof -
  from assms(1) obtain v where v: "ca_overlays a = [v]" "ov_mode v = Some ModeDisplay" "ov_display v = 1" "ov_drag v = None"
    by (auto simp: ready_def)
  with assms(1) show "enabled (StartDisplay 0 (plain_env j)) a"
    by (simp add: ready_def on_screen_def can_start_def in_mode_def overlay_shows_def dragging_def)
  have "on_screen (select_display 1 a)" "ca_status (select_display 1 a) = Idle"
    "ca_stop_sender (select_display 1 a) = None" "ca_display (select_display 1 a) = 1"
    using assms(1) by (simp_all add: select_display_def ready_def on_screen_def set_selection_def)
  from display_recorded [OF this assms(2)]
  show "\<exists>a' d' ra ta. app_run (StartDisplay 0 (plain_env j)) i a d = (a', d', [Spawn i ra ta]) \<and> roomy d' \<and> on_screen a' \<and>
       ca_status a' = Starting \<and> ca_stop_sender a' = Some i \<and> ar_spec ra = CaptureDisplay 1"
    by (simp add: v(1,3) del: One_nat_def)
qed

lemma opens_ready:
  assumes "on_screen b" "ca_status b = Idle" "ca_stop_sender b = None" "\<not> sl_recording (ca_selection b)"
  shows "ready (open_selection_windows one_screen b)"
proof -
  have "new_overlay (close_selection_windows b) 1 =
      \<lparr>ov_display = 1, ov_windows = windows_on 1 (ca_windows b), ov_mode = Some ModeDisplay, ov_drag = None\<rparr>"
    using assms(1) by (simp add: new_overlay_def close_selection_windows_def on_screen_def)
  with assms one_screen_opens(1) [of b] show ?thesis
    by (simp add: ready_def on_screen_def one_screen_opens del: One_nat_def)
qed

lemma failed_ready: "on_screen a \<Longrightarrow> ready (recording_failed registered one_screen m a)"
  unfolding recording_failed_def by (rule opens_ready) (simp_all add: on_screen_def set_selection_def)

lemma mode_ready:
  "enabled (ClickMode one_screen ModeDisplay p) (new_app [1] [] video_profiles [] escape)"
  "ready (fst (app_run (ClickMode one_screen ModeDisplay p) i (new_app [1] [] video_profiles [] escape) d))"
proof -
  let ?a = "new_app [1] [] video_profiles [] escape"
  show "enabled (ClickMode one_screen ModeDisplay p) ?a"
    by (simp add: idle_toolbar_def new_app_def dragging_def)
  let ?b = "set_selection (\<lambda>s. s\<lparr>sl_mode := Some ModeDisplay, sl_hovered := None, sl_region := None\<rparr>)
    (?a\<lparr>ca_drag_start := None, ca_mode := Some ModeDisplay, ca_region := None, ca_error := None\<rparr>)"
  have "ready (open_selection_windows one_screen ?b)"
    by (rule opens_ready) (simp_all add: on_screen_def new_app_def set_selection_def)
  moreover have "fst (app_run (ClickMode one_screen ModeDisplay p) i ?a d) = open_selection_windows one_screen ?b"
    by (simp add: with_effects_def clicked_def was_dragged_def set_mode_def Let_def) (simp add: new_app_def)
  ultimately show "ready (fst (app_run (ClickMode one_screen ModeDisplay p) i ?a d))" by simp
qed

text \<open>The system with such a toolbar, and what it does when the display is recorded.\<close>

definition at_start :: "(manifest_doc + project_config) recording_system" where
  "at_start = new_system (new_app [1] [] video_profiles [] True) blank_disk"

lemma at_start_fields [simp]:
  "sy_app at_start = new_app [1] [] video_profiles [] True" "sy_disk at_start = blank_disk" "sy_next at_start = 0"
  "sy_threads at_start = (\<lambda>_. None)" "sy_channel at_start = []"
  by (simp_all add: at_start_def new_system_def)

lemma first_click:
  "\<exists>s. sys_step f at_start s \<and> ready (sy_app s) \<and> roomy (sy_disk s) \<and> sy_threads s = (\<lambda>_. None) \<and> sy_channel s = [] \<and>
     sy_next s = 1"
proof -
  let ?op = "ClickMode one_screen ModeDisplay (0, 0)" and ?a = "new_app [1] [] video_profiles [] True"
  obtain a' d' effects where r: "app_run ?op 0 ?a blank_disk = (a', d', effects)"
    by (cases "app_run ?op 0 ?a blank_disk")
  then have "d' = blank_disk" "effects = []" by (auto simp: with_effects_def clicked_def Let_def)
  moreover have "ready a'" using mode_ready(2) [of "(0, 0)" 0 True blank_disk] by (simp only: r fst_conv)
  moreover have "\<not> ca_closed (sy_app at_start)" "enabled ?op (sy_app at_start)"
    unfolding at_start_fields by (simp add: new_app_def, rule mode_ready(1))
  from user_step [OF this refl, where faulty = f]
  have "sys_step f at_start ((after_app at_start (a', d', effects))\<lparr>sy_next := 1\<rparr>)"
    unfolding at_start_fields r by simp
  ultimately show ?thesis
    by (intro exI conjI) (assumption, simp_all add: after_app_def blank_roomy)
qed

lemma next_recording:
  fixes s :: "(manifest_doc + project_config) recording_system"
  assumes "ready (sy_app s)" "roomy (sy_disk s)"
  shows "\<exists>s'. sys_step f s s' \<and> on_screen (sy_app s') \<and> roomy (sy_disk s') \<and> ca_status (sy_app s') = Starting \<and>
    ca_stop_sender (sy_app s') = Some (sy_next s) \<and> sy_channel s' = sy_channel s \<and> sy_next s' = Suc (sy_next s) \<and>
    sy_threads s' = (sy_threads s)(sy_next s \<mapsto> \<lparr>td_phase = Beginning, td_signal = Waiting\<rparr>)"
proof -
  let ?op = "StartDisplay 0 (plain_env doc_json)"
  from screen_start(2) [OF assms, of doc_json "sy_next s"] obtain a' d' ra ta
    where r: "app_run ?op (sy_next s) (sy_app s) (sy_disk s) = (a', d', [Spawn (sy_next s) ra ta])" "roomy d'"
      "on_screen a'" "ca_status a' = Starting" "ca_stop_sender a' = Some (sy_next s)" by blast
  have "\<not> ca_closed (sy_app s)" using assms(1) by (simp add: ready_def on_screen_def)
  from user_step [OF this screen_start(1) [OF assms, of doc_json] refl, where faulty = f]
  have "sys_step f s ((after_app s (a', d', [Spawn (sy_next s) ra ta]))\<lparr>sy_next := Suc (sy_next s)\<rparr>)"
    unfolding r(1) .
  with r(2-) show ?thesis by (intro exI conjI) (assumption, simp_all add: after_app_def)
qed

lemma recording_begins:
  assumes "on_screen (sy_app s)" "sy_threads s i = Some \<lparr>td_phase = Beginning, td_signal = Waiting\<rparr>" "sy_channel s = []"
  shows "\<exists>s'. (sys_step f)\<^sup>*\<^sup>* s s' \<and> on_screen (sy_app s') \<and> sy_disk s' = sy_disk s \<and>
    ca_status (sy_app s') = Capturing \<and> ca_stop_sender (sy_app s') = ca_stop_sender (sy_app s) \<and> sy_channel s' = [] \<and>
    sy_next s' = sy_next s \<and> sy_threads s' = (sy_threads s)(i \<mapsto> \<lparr>td_phase = InCapture, td_signal = Waiting\<rparr>)"
proof -
  have "phase_step (td_signal \<lparr>td_phase = Beginning, td_signal = Waiting\<rparr>)
      (td_phase \<lparr>td_phase = Beginning, td_signal = Waiting\<rparr>) [RecordingStarted] InCapture" by (simp add: begun)
  from works [OF thread_step [OF assms(2) this refl], where faulty = f] obtain s1
    where s1: "sys_step f s s1" "s1 = s\<lparr>sy_threads := (sy_threads s)(i \<mapsto> \<lparr>td_phase = InCapture, td_signal = Waiting\<rparr>),
      sy_channel := [RecordingStarted]\<rparr>" by (auto simp: assms(3))
  have "\<not> ca_closed (sy_app s1)" "sy_channel s1 = [RecordingStarted]" using assms(1) s1(2) by (simp_all add: on_screen_def)
  from works [OF event_step [OF this refl], where faulty = f] obtain s2
    where s2: "sys_step f s1 s2" "s2 = (after_app s1 (with_effects (sy_disk s1)
      (handle_event 0 True one_screen RecordingStarted (sy_app s1))))\<lparr>sy_channel := []\<rparr>" by blast
  have "(sys_step f)\<^sup>*\<^sup>* s s2" using s1(1) s2(1) by (meson converse_rtranclp_into_rtranclp r_into_rtranclp)
  with assms s1(2) s2(2) show ?thesis
    by (intro exI [of _ s2]) (simp add: after_app_def with_effects_def on_screen_def)
qed

text \<open>The first recording runs.\<close>

lemma first_recording:
  "\<exists>s. (sys_step f)\<^sup>*\<^sup>* at_start s \<and> on_screen (sy_app s) \<and> roomy (sy_disk s) \<and> ca_status (sy_app s) = Capturing \<and>
    ca_stop_sender (sy_app s) = Some 1 \<and> sy_channel s = [] \<and> sy_next s = 2 \<and>
    sy_threads s = [1 \<mapsto> \<lparr>td_phase = InCapture, td_signal = Waiting\<rparr>]"
proof -
  obtain s1 where s1: "sys_step f at_start s1" "ready (sy_app s1)" "roomy (sy_disk s1)" "sy_threads s1 = (\<lambda>_. None)"
    "sy_channel s1 = []" "sy_next s1 = 1" using first_click by blast
  from next_recording [OF s1(2,3), of f] obtain s2
    where s2: "sys_step f s1 s2" "on_screen (sy_app s2)" "roomy (sy_disk s2)" "ca_stop_sender (sy_app s2) = Some 1"
      "sy_channel s2 = []" "sy_next s2 = 2" "sy_threads s2 = [1 \<mapsto> \<lparr>td_phase = Beginning, td_signal = Waiting\<rparr>]"
    using s1 by auto
  have "sy_threads s2 1 = Some \<lparr>td_phase = Beginning, td_signal = Waiting\<rparr>" by (simp add: s2(7))
  from recording_begins [OF s2(2) this s2(5), of f] obtain s3
    where s3: "(sys_step f)\<^sup>*\<^sup>* s2 s3" "on_screen (sy_app s3)" "sy_disk s3 = sy_disk s2" "ca_status (sy_app s3) = Capturing"
      "ca_stop_sender (sy_app s3) = Some 1" "sy_channel s3 = []" "sy_next s3 = 2"
      "sy_threads s3 = [1 \<mapsto> \<lparr>td_phase = InCapture, td_signal = Waiting\<rparr>]"
    using s2 by auto
  have "(sys_step f)\<^sup>*\<^sup>* at_start s3"
    using s1(1) s2(1) s3(1) by (meson converse_rtranclp_into_rtranclp)
  with s2(3) s3 show ?thesis by (intro exI [of _ s3]) simp
qed

lemma at_start_reachable: "(sys_step False)\<^sup>*\<^sup>* at_start s \<Longrightarrow> reachable s"
  unfolding reachable_def at_start_def by blast

theorem one_recording_witness:
  "\<exists>s :: (manifest_doc + project_config) recording_system. ca_status (sy_app s) = Capturing \<and>
     (\<exists>t. ca_stop_sender (sy_app s) = Some 1 \<and> snd (stop_app 0 (sy_app s)) = [SendStop 1] \<and>
       apply_effect (SendStop 1) (sy_threads s) 1 = Some (t\<lparr>td_signal := Stopped\<rparr>))"
proof -
  obtain s where s: "(sys_step False)\<^sup>*\<^sup>* at_start s" "on_screen (sy_app s)" "ca_status (sy_app s) = Capturing"
    "ca_stop_sender (sy_app s) = Some 1" using first_recording by blast
  from one_recording [OF at_start_reachable [OF s(1)], of 0] s(2-) show ?thesis
    by (intro exI [of _ s]) (auto simp: on_screen_def)
qed

theorem recorded_as_selected_witness:
  "\<exists>(s :: (manifest_doc + project_config) recording_system) a' d' ra ta.
     app_run (StartDisplay 0 (plain_env doc_json)) (sy_next s) (sy_app s) (sy_disk s) = (a', d', [Spawn 1 ra ta]) \<and>
     selected_as (ca_selection a') (ar_spec ra) \<and> ar_spec ra = CaptureDisplay 1 \<and> ta_format ta = FormatMp4"
proof -
  obtain s where s: "sys_step False at_start s" "ready (sy_app s)" "roomy (sy_disk s)" "sy_next s = 1"
    using first_click by blast
  from screen_start(2) [OF s(2,3), of doc_json 1] obtain a' d' ra ta
    where r: "app_run (StartDisplay 0 (plain_env doc_json)) 1 (sy_app s) (sy_disk s) = (a', d', [Spawn 1 ra ta])"
      "on_screen a'" "ar_spec ra = CaptureDisplay 1" by blast
  have reach: "reachable s" using at_start_reachable s(1) by blast
  have open': "\<not> ca_closed (sy_app s)" using s(2) by (simp add: ready_def on_screen_def)
  have r': "app_run (StartDisplay 0 (plain_env doc_json)) (sy_next s) (sy_app s) (sy_disk s) = (a', d', [Spawn 1 ra ta])"
    using r(1) s(4) by simp
  have "selected (ca_profiles a') = Some video_profile"
    using r(2) by (simp add: on_screen_def video_profiles_def video_profile_def selected_def selected_index_def local_profile_def)
  moreover have "rp_format video_profile = FormatMp4" by (simp add: video_profile_def local_profile_def)
  moreover note recorded_as_selected [OF reach open'
      screen_start(1) [OF s(2,3)] r', of 1 ra ta]
  ultimately show ?thesis using r' r(3) by (intro exI conjI) (assumption, auto)
qed

lemma recording_stops:
  assumes "on_screen (sy_app s)" "ca_overlays (sy_app s) = []" "ca_status (sy_app s) = Capturing"
    "ca_stop_sender (sy_app s) = Some i" "sy_threads s i = Some \<lparr>td_phase = InCapture, td_signal = Waiting\<rparr>"
  shows "\<exists>s'. sys_step f s s' \<and> ca_status (sy_app s') = Finalizing \<and> \<not> ca_closed (sy_app s') \<and>
    sy_threads s' i = Some \<lparr>td_phase = InCapture, td_signal = Stopped\<rparr>"
proof -
  have "\<not> ca_closed (sy_app s)" "enabled (ClickStop 0 (0, 0)) (sy_app s)"
    using assms by (simp_all add: on_screen_def dragging_def)
  from user_step [OF this refl, where faulty = f] assms show ?thesis
    by (intro exI conjI)
      (assumption, simp_all add: after_app_def with_effects_def clicked_def was_dragged_def on_screen_def stop_app_def
        close_selection_windows_def signal_thread_def Let_def)
qed

theorem stopped_recording_ends_witness:
  "\<exists>s s' :: (manifest_doc + project_config) recording_system. ca_status (sy_app s) = Finalizing \<and>
     (work_step ^^ 1) s s' \<and> (\<exists>t. sy_threads s' 1 = Some t \<and> td_phase t = Ending) \<and>
     ((\<exists>s''. work_step s' s'') \<or> ca_closed (sy_app s') \<or> ca_status (sy_app s') = Idle \<and> (\<forall>i. \<not> live s' i))"
proof -
  obtain s where s: "(sys_step False)\<^sup>*\<^sup>* at_start s" "on_screen (sy_app s)" "ca_status (sy_app s) = Capturing"
    "ca_stop_sender (sy_app s) = Some 1" "sy_threads s = [1 \<mapsto> \<lparr>td_phase = InCapture, td_signal = Waiting\<rparr>]"
    using first_recording by blast
  have "app_ok (sy_app s)"
    using reachable_ok [OF at_start_reachable [OF s(1)]] s(2) by (auto simp: system_ok_def on_screen_def)
  then have "ca_overlays (sy_app s) = []" using s(3) by (simp add: app_ok_def windows_ok_def)
  from recording_stops [OF s(2) this s(3,4), of False] s(5) obtain s1
    where s1: "sys_step False s s1" "ca_status (sy_app s1) = Finalizing" "\<not> ca_closed (sy_app s1)"
      "sy_threads s1 1 = Some \<lparr>td_phase = InCapture, td_signal = Stopped\<rparr>" by auto
  have reach: "reachable s1" using at_start_reachable s(1) s1(1) by (meson rtranclp.rtrancl_into_rtrancl)
  have "phase_step (td_signal \<lparr>td_phase = InCapture, td_signal = Stopped\<rparr>)
      (td_phase \<lparr>td_phase = InCapture, td_signal = Stopped\<rparr>) [] Ending" by (simp add: stop_received)
  from work_step.thread_step [OF s1(4) this refl] obtain s2
    where s2: "work_step s1 s2" "\<exists>t. sy_threads s2 1 = Some t \<and> td_phase t = Ending" by auto
  then have "(work_step ^^ 1) s1 s2" by auto
  with stopped_recording_ends [OF reach s1(3) _ this] s1(2) s2(2) show ?thesis by blast
qed

subsection \<open>A stream that stops by itself\<close>

text \<open>
  With such a fault the two failures of one recording are two events: after the first the toolbar is
  idle while the thread is still at work, and when the user has started the next recording, the second
  arrives and drops the stop channel of that one: it ends as a failure.
\<close>

lemma failure_handled:
  assumes "on_screen (sy_app s)" "sy_channel s = [RecordingFailed m]" "ca_stop_sender (sy_app s) = Some i"
    "sy_threads s i = Some t" "td_signal t = Waiting"
  shows "\<exists>s'. sys_step f s s' \<and> ready (sy_app s') \<and> sy_disk s' = sy_disk s \<and> sy_channel s' = [] \<and> sy_next s' = sy_next s \<and>
    sy_threads s' = (sy_threads s)(i \<mapsto> t\<lparr>td_signal := Dropped\<rparr>)"
proof -
  have "\<not> ca_closed (sy_app s)" using assms(1) by (simp add: on_screen_def)
  from works [OF event_step [OF this assms(2) refl, where now = 0 and registered = True and sc = one_screen], where faulty = f]
  show ?thesis
    using assms by (intro exI conjI)
      (assumption, simp_all add: after_app_def with_effects_def failed_ready drop_stop_def signal_thread_def)
qed

lemma sender_lost_fails:
  assumes "sy_threads s i = Some \<lparr>td_phase = InCapture, td_signal = Dropped\<rparr>" "sy_channel s = []"
  shows "\<exists>s'. (sys_step f)\<^sup>*\<^sup>* s s' \<and> sy_app s' = sy_app s \<and> sy_channel s' = [RecordingFailed m] \<and> (\<forall>j. j \<noteq> i \<longrightarrow> sy_threads s' j = sy_threads s j)"
proof -
  have 1: "phase_step (td_signal \<lparr>td_phase = InCapture, td_signal = Dropped\<rparr>)
      (td_phase \<lparr>td_phase = InCapture, td_signal = Dropped\<rparr>) [] Failing" by (simp add: sender_lost)
  from works [OF thread_step [OF assms(1) 1 refl], where faulty = f] obtain s1
    where s1: "sys_step f s s1" "s1 = s\<lparr>sy_threads := (sy_threads s)(i \<mapsto> \<lparr>td_phase = Failing, td_signal = Dropped\<rparr>)\<rparr>"
    by auto
  then have t: "sy_threads s1 i = Some \<lparr>td_phase = Failing, td_signal = Dropped\<rparr>" by simp
  have 2: "phase_step (td_signal \<lparr>td_phase = Failing, td_signal = Dropped\<rparr>)
      (td_phase \<lparr>td_phase = Failing, td_signal = Dropped\<rparr>) [RecordingFailed m] Done" by (simp add: capture_failed)
  from works [OF thread_step [OF t 2 refl], where faulty = f] obtain s2
    where s2: "sys_step f s1 s2" "s2 = s1\<lparr>sy_threads := (sy_threads s1)(i \<mapsto> \<lparr>td_phase = Done, td_signal = Dropped\<rparr>),
      sy_channel := [RecordingFailed m]\<rparr>" using s1(2) assms(2) by auto
  have "(sys_step f)\<^sup>*\<^sup>* s s2" using s1(1) s2(1) by (meson converse_rtranclp_into_rtranclp r_into_rtranclp)
  with s1(2) s2(2) show ?thesis by (intro exI [of _ s2]) simp
qed

lemma stale_failure:
  "\<exists>s s' :: (manifest_doc + project_config) recording_system. (sys_step True)\<^sup>*\<^sup>* at_start s \<and> live s 1 \<and> live s 2 \<and>
     ca_stop_sender (sy_app s) = Some 2 \<and> (sys_step True)\<^sup>*\<^sup>* s s' \<and> live s' 2 \<and> ca_status (sy_app s') = Idle \<and>
     (\<exists>t. sy_threads s' 2 = Some t \<and> td_signal t = Dropped)"
proof -
  obtain s1 where s1: "(sys_step True)\<^sup>*\<^sup>* at_start s1" "on_screen (sy_app s1)" "roomy (sy_disk s1)"
    "ca_stop_sender (sy_app s1) = Some 1" "sy_channel s1 = []" "sy_next s1 = 2"
    "sy_threads s1 = [1 \<mapsto> \<lparr>td_phase = InCapture, td_signal = Waiting\<rparr>]" using first_recording by blast
  define s2 where "s2 = s1\<lparr>sy_channel := [RecordingFailed (Text [])]\<rparr>"
  have "s2 = s1\<lparr>sy_channel := sy_channel s1 @ [RecordingFailed (Text [])]\<rparr>"
    "sy_threads s1 1 = Some \<lparr>td_phase = InCapture, td_signal = Waiting\<rparr>"
    by (simp_all add: s2_def s1(5,7))
  from fault_step [OF TrueI this(2) _ this(1)] have s2: "sys_step True s1 s2" by simp
  have "on_screen (sy_app s2)" "sy_channel s2 = [RecordingFailed (Text [])]" "ca_stop_sender (sy_app s2) = Some 1"
    "sy_threads s2 1 = Some \<lparr>td_phase = InCapture, td_signal = Waiting\<rparr>" by (simp_all add: s2_def s1)
  from failure_handled [OF this, of True] obtain s3
    where s3: "sys_step True s2 s3" "ready (sy_app s3)" "roomy (sy_disk s3)" "sy_channel s3 = []" "sy_next s3 = 2"
      "sy_threads s3 = [1 \<mapsto> \<lparr>td_phase = InCapture, td_signal = Dropped\<rparr>]" by (auto simp: s2_def s1)
  from next_recording [OF s3(2,3), of True] obtain s4
    where s4: "sys_step True s3 s4" "on_screen (sy_app s4)" "ca_stop_sender (sy_app s4) = Some 2" "sy_channel s4 = []"
      "sy_threads s4 = [1 \<mapsto> \<lparr>td_phase = InCapture, td_signal = Dropped\<rparr>,
         2 \<mapsto> \<lparr>td_phase = Beginning, td_signal = Waiting\<rparr>]" using s3 by auto
  have "sy_threads s4 1 = Some \<lparr>td_phase = InCapture, td_signal = Dropped\<rparr>" by (simp add: s4(5))
  from sender_lost_fails [OF this s4(4), of True "Text []"] obtain s5
    where s5: "(sys_step True)\<^sup>*\<^sup>* s4 s5" "sy_app s5 = sy_app s4" "sy_channel s5 = [RecordingFailed (Text [])]"
      "sy_threads s5 2 = Some \<lparr>td_phase = Beginning, td_signal = Waiting\<rparr>" using s4(5) by auto
  have "on_screen (sy_app s5)" "ca_stop_sender (sy_app s5) = Some 2" using s4 s5 by simp_all
  from failure_handled [OF this(1) s5(3) this(2) s5(4), of True] obtain s6
    where s6: "sys_step True s5 s6" "ready (sy_app s6)"
      "sy_threads s6 2 = Some \<lparr>td_phase = Beginning, td_signal = Dropped\<rparr>" by auto
  have "(sys_step True)\<^sup>*\<^sup>* at_start s4" using s1(1) s2 s3(1) s4(1) by (meson rtranclp.rtrancl_into_rtrancl)
  moreover have "(sys_step True)\<^sup>*\<^sup>* s4 s6" using s5(1) s6(1) by (meson rtranclp.rtrancl_into_rtrancl)
  ultimately show ?thesis using s4(3,5) s6(2,3)
    by (intro exI [of _ s4] exI [of _ s6]) (auto simp: live_def ready_def)
qed

theorem thread_refines_phases_witness:
  "emitted hls_actions = [RecordingStarted, RecordingUploading, RecordingFinished ''hls'' (Some ''https://b/v'')] \<and>
   phase_run Stopped Beginning (emitted hls_actions) Done"
proof -
  obtain lg where run: "thread_run (sample_http 6000000) ok_server sample_files hls_thread
      hls_recording (reported_by (rr_written hls_replies)) hls_actions
      [seg_path ''hls'' 0, init_path ''hls''] lg" using hls_thread_run by blast
  from thread_refines_phases [OF run [unfolded hls_recording_def]]
  have "phase_run Stopped Beginning (emitted hls_actions) Done" by (simp add: signal_of_def hls_replies_def)
  then show ?thesis by (simp add: hls_actions)
qed

end
