(* ===== verification/Studio_Scene.thy ===== *)
theory Studio_Scene
  imports Asset_Writers "HOL-Library.Multiset"
begin

section \<open>The scene of Blip Studio and its project file (apps/blip-studio/src/project.rs, viewer.rs)\<close>

text \<open>
  A scene is a list of elements, back to front, each an identifier, a source and a layout in fractions of
  the canvas. The project file holds the scene, the colours of its colour sources and the selection. The
  record types are polymorphic in the type of coordinates: a project that is read holds \<open>fl\<close> values, which
  \<open>is_valid\<close> tests; the scene in memory holds reals.
\<close>

subsection \<open>Data\<close>

type_synonym rgb = "nat \<times> nat \<times> nat"

datatype source_id = DisplaySource nat | WindowSource nat | CameraSource nat | ColorSource nat

record 'v item_layout =
  il_center :: "'v \<times> 'v"
  il_size :: "'v \<times> 'v"
  il_corner_radius_ratio :: 'v

record 'v scene_element =
  se_id :: nat
  se_source :: source_id
  se_layout :: "'v item_layout"

record 'v scene =
  sc_elements :: "'v scene_element list"
  sc_next_id :: nat

datatype project_source =
  DisplayItem nat | WindowItem nat | CameraItem nat | ColorItem nat rgb

record 'v project_element =
  pe_id :: nat
  pe_source :: project_source
  pe_center :: "'v \<times> 'v"
  pe_size :: "'v \<times> 'v"
  pe_corner_radius_ratio :: 'v

record 'v project =
  pj_elements :: "'v project_element list"
  pj_selected_item :: "nat option"

definition full_canvas_layout :: "real item_layout" where
  "full_canvas_layout = \<lparr>il_center = (1/2, 1/2), il_size = (1, 1), il_corner_radius_ratio = 0\<rparr>"

definition inset_layout :: "real item_layout" where
  "inset_layout = \<lparr>il_center = (1/2, 1/2), il_size = (1/2, 1/2), il_corner_radius_ratio = 8/100\<rparr>"

subsection \<open>Operations of the scene\<close>

definition new_scene :: "'v scene" where
  "new_scene = \<lparr>sc_elements = [], sc_next_id = 1\<rparr>"

definition scene_add :: "source_id \<Rightarrow> 'v item_layout \<Rightarrow> 'v scene \<Rightarrow> 'v scene \<times> nat" where
  "scene_add source layout s =
     (s\<lparr>sc_elements := sc_elements s @ [\<lparr>se_id = sc_next_id s, se_source = source, se_layout = layout\<rparr>],
        sc_next_id := saturating_add u64_max (sc_next_id s) 1\<rparr>, sc_next_id s)"

definition scene_element_of :: "nat \<Rightarrow> 'v scene \<Rightarrow> 'v scene_element option" where
  "scene_element_of i s = find (\<lambda>e. se_id e = i) (sc_elements s)"

text \<open>\<open>element_mut\<close> with what its caller does to the element: the first one with the identifier.\<close>

definition update_element :: "nat \<Rightarrow> ('v scene_element \<Rightarrow> 'v scene_element) \<Rightarrow> 'v scene \<Rightarrow> 'v scene" where
  "update_element i f s =
     (case position (\<lambda>e. se_id e = i) (sc_elements s) of
        None \<Rightarrow> s
      | Some n \<Rightarrow> s\<lparr>sc_elements := (sc_elements s)[n := f (sc_elements s ! n)]\<rparr>)"

definition scene_remove :: "nat \<Rightarrow> 'v scene \<Rightarrow> 'v scene \<times> 'v scene_element option" where
  "scene_remove i s =
     (case position (\<lambda>e. se_id e = i) (sc_elements s) of
        None \<Rightarrow> (s, None)
      | Some n \<Rightarrow> (s\<lparr>sc_elements := remove_at n (sc_elements s)\<rparr>, Some (sc_elements s ! n)))"

definition uses_source :: "source_id \<Rightarrow> 'v scene \<Rightarrow> bool" where
  "uses_source source s = list_ex (\<lambda>e. se_source e = source) (sc_elements s)"

definition replace_source :: "nat \<Rightarrow> source_id \<Rightarrow> 'v scene \<Rightarrow> 'v scene \<times> source_id option" where
  "replace_source i source s =
     (update_element i (\<lambda>e. e\<lparr>se_source := source\<rparr>) s, map_option se_source (scene_element_of i s))"

definition move_to_index :: "nat \<Rightarrow> nat \<Rightarrow> 'v scene \<Rightarrow> 'v scene \<times> bool" where
  "move_to_index i index s =
     (case position (\<lambda>e. se_id e = i) (sc_elements s) of
        None \<Rightarrow> (s, False)
      | Some current_index \<Rightarrow>
          (let destination = min index (length (sc_elements s) - 1)
           in if current_index = destination then (s, False)
              else let element = sc_elements s ! current_index;
                       rest = remove_at current_index (sc_elements s)
                   in (s\<lparr>sc_elements := take destination rest @ element # drop destination rest\<rparr>, True)))"

subsection \<open>The project\<close>

fun valid_elements :: "nat set \<Rightarrow> fl project_element list \<Rightarrow> nat set option" where
  "valid_elements ids [] = Some ids"
| "valid_elements ids (e # es) =
     (if 0 < pe_id e \<and> pe_id e < u64_max \<and> pe_id e \<notin> ids
         \<and> is_finite (fst (pe_center e)) \<and> is_finite (snd (pe_center e))
         \<and> is_finite (fst (pe_size e)) \<and> 0 < fl_val (fst (pe_size e))
         \<and> is_finite (snd (pe_size e)) \<and> 0 < fl_val (snd (pe_size e))
         \<and> is_finite (pe_corner_radius_ratio e) \<and> 0 \<le> fl_val (pe_corner_radius_ratio e)
      then valid_elements (insert (pe_id e) ids) es else None)"

definition is_valid :: "fl project \<Rightarrow> bool" where
  "is_valid p =
     (case valid_elements {} (pj_elements p) of
        None \<Rightarrow> False
      | Some ids \<Rightarrow> (case pj_selected_item p of None \<Rightarrow> True | Some selected \<Rightarrow> selected \<in> ids))"

fun snapshot_source :: "(source_id \<Rightarrow> rgb option) \<Rightarrow> source_id \<Rightarrow> project_source" where
  "snapshot_source colors (DisplaySource i) = DisplayItem i"
| "snapshot_source colors (WindowSource i) = WindowItem i"
| "snapshot_source colors (CameraSource i) = CameraItem i"
| "snapshot_source colors (ColorSource i) = ColorItem i (unwrap_or (colors (ColorSource i)) (0, 0, 0))"

definition snapshot_element :: "(source_id \<Rightarrow> rgb option) \<Rightarrow> 'v scene_element \<Rightarrow> 'v project_element" where
  "snapshot_element colors e =
     \<lparr>pe_id = se_id e, pe_source = snapshot_source colors (se_source e), pe_center = il_center (se_layout e),
      pe_size = il_size (se_layout e), pe_corner_radius_ratio = il_corner_radius_ratio (se_layout e)\<rparr>"

definition project_snapshot :: "'v scene \<Rightarrow> (source_id \<Rightarrow> rgb option) \<Rightarrow> nat option \<Rightarrow> 'v project" where
  "project_snapshot s colors selected_item =
     \<lparr>pj_elements = List.map (snapshot_element colors) (sc_elements s), pj_selected_item = selected_item\<rparr>"

fun restored_source :: "project_source \<Rightarrow> source_id" where
  "restored_source (DisplayItem i) = DisplaySource i"
| "restored_source (WindowItem i) = WindowSource i"
| "restored_source (CameraItem i) = CameraSource i"
| "restored_source (ColorItem i value) = ColorSource i"

definition restored_element :: "'v project_element \<Rightarrow> 'v scene_element" where
  "restored_element e =
     \<lparr>se_id = pe_id e, se_source = restored_source (pe_source e),
      se_layout = \<lparr>il_center = pe_center e, il_size = pe_size e,
        il_corner_radius_ratio = pe_corner_radius_ratio e\<rparr>\<rparr>"

fun restore_step ::
    "'v project_element \<Rightarrow> 'v scene \<times> (source_id \<Rightarrow> rgb option) \<times> nat
     \<Rightarrow> 'v scene \<times> (source_id \<Rightarrow> rgb option) \<times> nat" where
  "restore_step e (s, colors, next_color) =
     (let (colors', next_color') =
            (case pe_source e of
               ColorItem i value \<Rightarrow>
                 (colors(ColorSource i \<mapsto> value), max next_color (saturating_add u64_max i 1))
             | _ \<Rightarrow> (colors, next_color))
      in (\<lparr>sc_elements = sc_elements s @ [restored_element e],
           sc_next_id = max (sc_next_id s) (saturating_add u64_max (pe_id e) 1)\<rparr>, colors', next_color'))"

definition restore_project ::
    "'v project \<Rightarrow> 'v scene \<times> (source_id \<Rightarrow> rgb option) \<times> nat option \<times> nat" where
  "restore_project p =
     (let (s, colors, next_color) = fold restore_step (pj_elements p) (new_scene, Map.empty, 1)
      in (s, colors, pj_selected_item p, next_color))"

subsection \<open>The file\<close>

text \<open>
  The JSON library: what it writes for a project and what it reads. The \<open>HOME\<close> variable may be missing.
\<close>

record project_codec =
  pc_encode :: "fl project \<Rightarrow> string"
  pc_decode :: "string \<Rightarrow> fl project option"

definition project_folder :: "string option \<Rightarrow> string" where
  "project_folder home = join (unwrap_or home ''.'') ''Library/Application Support/Blip Studio''"

definition project_path :: "string option \<Rightarrow> string" where
  "project_path home = join (project_folder home) ''project.json''"

definition project_temporary_path :: "string option \<Rightarrow> string" where
  "project_temporary_path home = join (project_folder home) ''project.tmp''"

definition load_project :: "project_codec \<Rightarrow> string option \<Rightarrow> bool \<Rightarrow> disk \<Rightarrow> fl project option" where
  "load_project c home readable d =
     (if \<not> readable then None
      else case dk_files d (project_path home) of
             None \<Rightarrow> None
           | Some contents \<Rightarrow>
               (case pc_decode c contents of None \<Rightarrow> None | Some p \<Rightarrow> if is_valid p then Some p else None))"

record save_replies =
  sr_dir :: "string option"
  sr_write :: write_reply
  sr_rename :: "string option"

definition save_project ::
    "project_codec \<Rightarrow> string option \<Rightarrow> save_replies \<Rightarrow> fl project \<Rightarrow> disk \<Rightarrow> disk \<times> (string + unit)" where
  "save_project c home r p d =
     (case fs_create_dir (project_folder home) (sr_dir r) d of
        (d1, Inl e) \<Rightarrow> (d1, Inl e)
      | (d1, Inr _) \<Rightarrow>
          (case fs_write (project_temporary_path home) (pc_encode c p) (sr_write r) d1 of
             (d2, Inl e) \<Rightarrow> (d2, Inl e)
           | (d2, Inr _) \<Rightarrow> fs_rename (project_temporary_path home) (project_path home) (sr_rename r) d2))"

subsection \<open>Well-formed scenes\<close>

abbreviation element_ids :: "'v scene \<Rightarrow> nat list" where
  "element_ids s \<equiv> List.map se_id (sc_elements s)"

definition scene_ok :: "'v scene \<Rightarrow> bool" where
  "scene_ok s \<longleftrightarrow> distinct (element_ids s) \<and> (\<forall>i \<in> set (element_ids s). 0 < i \<and> i < sc_next_id s)
     \<and> 0 < sc_next_id s \<and> sc_next_id s \<le> u64_max"

definition layout_ok :: "real item_layout \<Rightarrow> bool" where
  "layout_ok l \<longleftrightarrow> 0 < fst (il_size l) \<and> 0 < snd (il_size l) \<and> 0 \<le> il_corner_radius_ratio l"

definition layouts_ok :: "real scene \<Rightarrow> bool" where
  "layouts_ok s \<longleftrightarrow> (\<forall>e \<in> set (sc_elements s). layout_ok (se_layout e))"

definition selection_ok :: "'v scene \<Rightarrow> nat option \<Rightarrow> bool" where
  "selection_ok s selected \<longleftrightarrow> (case selected of None \<Rightarrow> True | Some i \<Rightarrow> i \<in> set (element_ids s))"

lemma layouts_sample [simp]: "layout_ok full_canvas_layout" "layout_ok inset_layout"
  by (simp_all add: layout_ok_def full_canvas_layout_def inset_layout_def)

lemma new_scene_ok [simp]: "scene_ok new_scene" "layouts_ok new_scene"
  by (simp_all add: scene_ok_def layouts_ok_def new_scene_def u64_max_def)

lemma find_None_id: "find (\<lambda>e. se_id e = i) es = None \<longleftrightarrow> i \<notin> set (List.map se_id es)"
  by (auto simp: find_None_iff)

lemma scene_element_of_None: "scene_element_of i s = None \<longleftrightarrow> i \<notin> set (element_ids s)"
  by (simp add: scene_element_of_def find_None_id)

lemma scene_element_of_Some:
  "scene_element_of i s = Some e \<Longrightarrow> e \<in> set (sc_elements s) \<and> se_id e = i"
  by (auto simp: scene_element_of_def find_Some_iff in_set_conv_nth)

lemma position_id_None: "position (\<lambda>e. se_id e = i) es = None \<longleftrightarrow> i \<notin> set (List.map se_id es)"
  by (auto simp: position_None_iff)

lemma position_update:
  assumes "distinct (List.map se_id es)"
  shows "(case position (\<lambda>e. se_id e = i) es of None \<Rightarrow> es | Some n \<Rightarrow> es[n := f (es ! n)])
     = List.map (\<lambda>e. if se_id e = i then f e else e) es"
  using assms
proof (induction es)
  case Nil
  show ?case by simp
next
  case (Cons e es)
  have rest: "List.map (\<lambda>e. if se_id e = i then f e else e) es = es" if "i \<notin> set (List.map se_id es)"
    using that by (intro map_idI) auto
  show ?case
    using Cons rest by (cases "position (\<lambda>e. se_id e = i) es") auto
qed

lemma update_element_map:
  assumes "scene_ok s"
  shows "update_element i f s = s\<lparr>sc_elements := List.map (\<lambda>e. if se_id e = i then f e else e) (sc_elements s)\<rparr>"
  using position_update [where es = "sc_elements s" and i = i and f = f] assms
  by (cases "position (\<lambda>e. se_id e = i) (sc_elements s)") (auto simp: update_element_def scene_ok_def)

lemma position_remove:
  assumes "distinct (List.map se_id es)"
  shows "(case position (\<lambda>e. se_id e = i) es of None \<Rightarrow> es | Some n \<Rightarrow> remove_at n es)
     = filter (\<lambda>e. se_id e \<noteq> i) es"
  using assms
proof (induction es)
  case Nil
  show ?case by simp
next
  case (Cons e es)
  have rest: "filter (\<lambda>e. se_id e \<noteq> i) es = es" if "i \<notin> set (List.map se_id es)"
    using that by (intro filter_True) auto
  show ?case
    using Cons rest by (cases "position (\<lambda>e. se_id e = i) es") (auto simp: remove_at_def)
qed

lemma scene_remove_filter:
  assumes "scene_ok s"
  shows "fst (scene_remove i s) = s\<lparr>sc_elements := filter (\<lambda>e. se_id e \<noteq> i) (sc_elements s)\<rparr>"
  using position_remove [of "sc_elements s" i] assms
  by (cases "position (\<lambda>e. se_id e = i) (sc_elements s)") (auto simp: scene_remove_def scene_ok_def)

lemma scene_remove_None: "snd (scene_remove i s) = None \<longleftrightarrow> i \<notin> set (element_ids s)"
  using position_id_None [of i "sc_elements s"]
  by (cases "position (\<lambda>e. se_id e = i) (sc_elements s)") (auto simp: scene_remove_def)

lemma scene_remove_Some:
  "snd (scene_remove i s) = Some e \<Longrightarrow> e \<in> set (sc_elements s) \<and> se_id e = i"
  by (auto simp: scene_remove_def position_Some_iff split: option.splits)

lemma scene_add_ok:
  assumes "scene_ok s" and "sc_next_id s < u64_max"
  shows "scene_ok (fst (scene_add source l s))"
  using assms by (auto simp: scene_ok_def scene_add_def saturating_add_def)

lemma scene_remove_ok: "scene_ok s \<Longrightarrow> scene_ok (fst (scene_remove i s))"
  by (subst scene_remove_filter) (auto simp: scene_ok_def distinct_map inj_on_def)

lemma scene_ok_cong:
  "element_ids s' = element_ids s \<Longrightarrow> sc_next_id s' = sc_next_id s \<Longrightarrow> scene_ok s' \<longleftrightarrow> scene_ok s"
  unfolding scene_ok_def by (simp only:)

lemma update_element_ok:
  assumes "scene_ok s" and "\<And>e. se_id (f e) = se_id e"
  shows "scene_ok (update_element i f s)"
proof -
  have "element_ids (update_element i f s) = element_ids s"
    using assms by (simp add: update_element_map)
  moreover have "sc_next_id (update_element i f s) = sc_next_id s"
    by (simp add: update_element_map [OF assms(1)])
  ultimately show ?thesis using assms(1) by (rule scene_ok_cong [THEN iffD2])
qed

lemma layouts_ok_simps:
  "layouts_ok s \<Longrightarrow> layout_ok l \<Longrightarrow> layouts_ok (fst (scene_add source l s))"
  "scene_ok s \<Longrightarrow> layouts_ok s \<Longrightarrow> layouts_ok (fst (scene_remove i s))"
  by (auto simp: layouts_ok_def scene_add_def scene_remove_filter)

lemma layouts_ok_update:
  "scene_ok s \<Longrightarrow> layouts_ok s \<Longrightarrow> (\<And>e. layout_ok (se_layout e) \<Longrightarrow> layout_ok (se_layout (f e))) \<Longrightarrow>
   layouts_ok (update_element i f s)"
  by (auto simp: layouts_ok_def update_element_map)

lemma moved_elements:
  assumes "c < length es" and "k < length es"
  shows "mset (take k (remove_at c es) @ es ! c # drop k (remove_at c es)) = mset es"
    and "(take k (remove_at c es) @ es ! c # drop k (remove_at c es)) ! k = es ! c"
proof -
  have "mset (take k (remove_at c es)) + mset (drop k (remove_at c es)) = mset (remove_at c es)"
    by (metis append_take_drop_id mset_append)
  moreover have "mset es = add_mset (es ! c) (mset (remove_at c es))"
    using id_take_nth_drop [OF assms(1)] unfolding remove_at_def
    by (metis mset.simps(2) mset_append union_mset_add_mset_right)
  ultimately show "mset (take k (remove_at c es) @ es ! c # drop k (remove_at c es)) = mset es" by simp
  show "(take k (remove_at c es) @ es ! c # drop k (remove_at c es)) ! k = es ! c"
    using assms by (simp add: nth_append length_remove_at)
qed

lemma filter_inserted: "\<not> P x \<Longrightarrow> filter P (take k xs @ x # drop k xs) = filter P xs"
  using filter_append [of P "take k xs" "drop k xs"] by simp

text \<open>
  Moving an element of a well-formed scene to an index puts it there (at the front when the index is
  past the end), leaves the others in their order, and answers whether anything changed; an unknown
  element changes nothing.
\<close>

theorem scene_reorder_correct:
  fixes s :: "real scene"
  assumes "scene_ok s" and "move_to_index i index s = (s', changed)"
  shows "filter (\<lambda>e. se_id e \<noteq> i) (sc_elements s') = filter (\<lambda>e. se_id e \<noteq> i) (sc_elements s)
    \<and> mset (sc_elements s') = mset (sc_elements s) \<and> scene_ok s'
    \<and> (if i \<in> set (element_ids s)
       then element_ids s' ! min index (length (sc_elements s) - 1) = i \<and> (changed \<longleftrightarrow> s' \<noteq> s)
       else \<not> changed \<and> s' = s)"
proof (cases "position (\<lambda>e. se_id e = i) (sc_elements s)")
  case None
  then show ?thesis using assms position_id_None [of i "sc_elements s"] by (simp add: move_to_index_def)
next
  case (Some c)
  let ?es = "sc_elements s" and ?k = "min index (length (sc_elements s) - 1)"
  have c: "c < length ?es" "se_id (?es ! c) = i" and mem: "i \<in> set (element_ids s)"
    using Some by (auto simp: position_Some_iff)
  have k: "?k < length ?es" using c by linarith
  show ?thesis
  proof (cases "c = ?k")
    case True
    then show ?thesis using assms Some c mem by (simp add: move_to_index_def)
  next
    case False
    let ?new = "take ?k (remove_at c ?es) @ ?es ! c # drop ?k (remove_at c ?es)"
    have s': "s' = s\<lparr>sc_elements := ?new\<rparr>" and ch: changed
      using assms(2) Some False by (simp_all add: move_to_index_def Let_def)
    have others: "filter (\<lambda>e. se_id e \<noteq> i) ?new = filter (\<lambda>e. se_id e \<noteq> i) ?es"
    proof -
      have "filter (\<lambda>e. se_id e \<noteq> i) ?new = filter (\<lambda>e. se_id e \<noteq> i) (remove_at c ?es)"
        by (rule filter_inserted) (simp add: c(2))
      also have "\<dots> = filter (\<lambda>e. se_id e \<noteq> i) ?es"
        using c(2) arg_cong [OF id_take_nth_drop [OF c(1)], of "filter (\<lambda>e. se_id e \<noteq> i)"]
        by (simp add: remove_at_def)
      finally show ?thesis .
    qed
    have at: "?new ! ?k = ?es ! c" by (rule moved_elements(2) [OF c(1) k])
    have ne: "?new \<noteq> ?es"
    proof
      assume "?new = ?es"
      with at c(2) have "element_ids s ! ?k = element_ids s ! c" using c(1) k by simp
      then show False
        using False c(1) k assms(1) nth_eq_iff_index_eq [of "element_ids s" ?k c]
        by (simp del: One_nat_def add: scene_ok_def)
    qed
    have ok: "scene_ok s'"
      using assms(1) moved_elements(1) [OF c(1) k] unfolding scene_ok_def s'
      by (metis (no_types, lifting) mset_eq_imp_distinct_iff mset_map scene.select_convs(1,2) scene.surjective
        scene.update_convs(1) set_mset_mset)
    have len: "length ?new = length ?es" using moved_elements(1) [OF c(1) k] by (metis size_mset)
    have new: "sc_elements s' = ?new" by (simp add: s')
    have "element_ids s' ! ?k = i" using at c(2) k len unfolding new by (simp only: nth_map)
    moreover have "s' \<noteq> s" using ne by (metis s' scene.select_convs(1) scene.surjective scene.update_convs(1))
    ultimately show ?thesis using others moved_elements(1) [OF c(1) k] ok ch mem by (simp add: s')
  qed
qed

definition sample_scene :: "real scene" where
  "sample_scene = fst (scene_add (ColorSource 3) full_canvas_layout
     (fst (scene_add (DisplaySource 1) inset_layout (fst (scene_add (DisplaySource 1) full_canvas_layout new_scene)))))"

lemma sample_scene_elements:
  "sample_scene = \<lparr>sc_elements =
     [\<lparr>se_id = 1, se_source = DisplaySource 1, se_layout = full_canvas_layout\<rparr>,
      \<lparr>se_id = 2, se_source = DisplaySource 1, se_layout = inset_layout\<rparr>,
      \<lparr>se_id = 3, se_source = ColorSource 3, se_layout = full_canvas_layout\<rparr>], sc_next_id = 4\<rparr>"
  by (simp add: sample_scene_def scene_add_def new_scene_def saturating_add_def u64_max_def)

lemma sample_scene_ok [simp]: "scene_ok sample_scene" "layouts_ok sample_scene"
  by (auto simp: sample_scene_elements scene_ok_def layouts_ok_def u64_max_def)

lemma scene_reorder_correct_witness:
  "element_ids (fst (move_to_index 1 9 sample_scene)) = [2, 3, 1] \<and>
   scene_ok (fst (move_to_index 1 9 sample_scene))"
  using scene_reorder_correct [OF sample_scene_ok(1) prod.collapse [symmetric], of 1 9]
  by (simp add: move_to_index_def sample_scene_elements remove_at_def)

subsection \<open>The project of a scene\<close>

lemma valid_elements_iff:
  "valid_elements ids es = Some ids' \<longleftrightarrow>
     distinct (List.map pe_id es) \<and> (\<forall>e \<in> set es. 0 < pe_id e \<and> pe_id e < u64_max \<and> pe_id e \<notin> ids
       \<and> is_finite (fst (pe_center e)) \<and> is_finite (snd (pe_center e))
       \<and> is_finite (fst (pe_size e)) \<and> 0 < fl_val (fst (pe_size e))
       \<and> is_finite (snd (pe_size e)) \<and> 0 < fl_val (snd (pe_size e))
       \<and> is_finite (pe_corner_radius_ratio e) \<and> 0 \<le> fl_val (pe_corner_radius_ratio e))
     \<and> ids' = ids \<union> set (List.map pe_id es)"
proof (induction es arbitrary: ids)
  case Nil
  show ?case by auto
next
  case (Cons e es)
  show ?case by (simp add: Cons.IH) (auto, metis imageI)
qed

lemma is_valid_iff:
  "is_valid p \<longleftrightarrow>
     distinct (List.map pe_id (pj_elements p)) \<and> (\<forall>e \<in> set (pj_elements p). 0 < pe_id e \<and> pe_id e < u64_max
       \<and> is_finite (fst (pe_center e)) \<and> is_finite (snd (pe_center e))
       \<and> is_finite (fst (pe_size e)) \<and> 0 < fl_val (fst (pe_size e))
       \<and> is_finite (snd (pe_size e)) \<and> 0 < fl_val (snd (pe_size e))
       \<and> is_finite (pe_corner_radius_ratio e) \<and> 0 \<le> fl_val (pe_corner_radius_ratio e))
     \<and> (\<forall>i. pj_selected_item p = Some i \<longrightarrow> i \<in> set (List.map pe_id (pj_elements p)))"
  (is "?v \<longleftrightarrow> ?r")
proof (cases "valid_elements {} (pj_elements p)")
  case None
  have "\<not> ?r"
  proof
    assume ?r
    then have "valid_elements {} (pj_elements p) = Some (set (List.map pe_id (pj_elements p)))"
      by (simp add: valid_elements_iff)
    with None show False by simp
  qed
  with None show ?thesis by (simp add: is_valid_def)
next
  case (Some ids)
  from valid_elements_iff [THEN iffD1, OF Some] Some show ?thesis
    by (cases "pj_selected_item p") (auto simp: is_valid_def)
qed

text \<open>Coordinates in memory and in a project.\<close>

definition map_layout :: "('a \<Rightarrow> 'b) \<Rightarrow> 'a item_layout \<Rightarrow> 'b item_layout" where
  "map_layout f l = \<lparr>il_center = map_prod f f (il_center l), il_size = map_prod f f (il_size l),
     il_corner_radius_ratio = f (il_corner_radius_ratio l)\<rparr>"

definition map_element :: "('a \<Rightarrow> 'b) \<Rightarrow> 'a scene_element \<Rightarrow> 'b scene_element" where
  "map_element f e = \<lparr>se_id = se_id e, se_source = se_source e, se_layout = map_layout f (se_layout e)\<rparr>"

definition map_scene :: "('a \<Rightarrow> 'b) \<Rightarrow> 'a scene \<Rightarrow> 'b scene" where
  "map_scene f s = \<lparr>sc_elements = List.map (map_element f) (sc_elements s), sc_next_id = sc_next_id s\<rparr>"

definition scene_project :: "real scene \<Rightarrow> (source_id \<Rightarrow> rgb option) \<Rightarrow> nat option \<Rightarrow> fl project" where
  "scene_project s colors selected = project_snapshot (map_scene Fin s) colors selected"

lemma scene_project_ids:
  "List.map pe_id (pj_elements (scene_project s colors selected)) = element_ids s"
  by (simp add: scene_project_def project_snapshot_def map_scene_def snapshot_element_def map_element_def comp_def)

lemma scene_project_valid:
  assumes "scene_ok s" and "layouts_ok s"
  shows "is_valid (scene_project s colors selected) \<longleftrightarrow> selection_ok s selected"
proof -
  have "\<forall>e \<in> set (sc_elements s). 0 < se_id e \<and> se_id e < u64_max \<and> layout_ok (se_layout e)"
    using assms by (fastforce simp: scene_ok_def layouts_ok_def)
  then have "\<forall>e \<in> set (pj_elements (scene_project s colors selected)). 0 < pe_id e \<and> pe_id e < u64_max
       \<and> is_finite (fst (pe_center e)) \<and> is_finite (snd (pe_center e))
       \<and> is_finite (fst (pe_size e)) \<and> 0 < fl_val (fst (pe_size e))
       \<and> is_finite (snd (pe_size e)) \<and> 0 < fl_val (snd (pe_size e))
       \<and> is_finite (pe_corner_radius_ratio e) \<and> 0 \<le> fl_val (pe_corner_radius_ratio e)"
    by (auto simp: scene_project_def project_snapshot_def map_scene_def snapshot_element_def map_element_def
      map_layout_def layout_ok_def)
  moreover have "distinct (element_ids s)" using assms by (simp add: scene_ok_def)
  moreover have "pj_selected_item (scene_project s colors selected) = selected"
    by (simp add: scene_project_def project_snapshot_def)
  ultimately show ?thesis
    unfolding is_valid_iff scene_project_ids by (cases selected) (auto simp: selection_ok_def)
qed

lemma fold_restore:
  "fold restore_step es (s, colors, next_color) =
     (\<lparr>sc_elements = sc_elements s @ List.map restored_element es,
       sc_next_id = fold (\<lambda>e n. max n (saturating_add u64_max (pe_id e) 1)) es (sc_next_id s)\<rparr>,
      fold (\<lambda>e m. case pe_source e of ColorItem i v \<Rightarrow> m(ColorSource i \<mapsto> v) | _ \<Rightarrow> m) es colors,
      fold (\<lambda>e n. case pe_source e of ColorItem i v \<Rightarrow> max n (saturating_add u64_max i 1) | _ \<Rightarrow> n) es next_color)"
  by (induction es arbitrary: s colors next_color) (auto split: project_source.splits)

lemma snapshot_element_simps [simp]:
  "pe_id (snapshot_element colors e) = se_id e"
  "pe_source (snapshot_element colors e) = snapshot_source colors (se_source e)"
  by (simp_all add: snapshot_element_def)

lemma restored_snapshot [simp]: "restored_element (snapshot_element colors e) = e"
  by (cases "se_source e"; cases "se_layout e") (simp_all add: restored_element_def snapshot_element_def)

lemma fold_max:
  fixes f :: "'a \<Rightarrow> nat"
  assumes "n \<le> m" and "\<forall>e \<in> set es. f e \<le> m"
  shows "n \<le> fold (\<lambda>e n. max n (f e)) es n \<and> (\<forall>e \<in> set es. f e \<le> fold (\<lambda>e n. max n (f e)) es n)
    \<and> fold (\<lambda>e n. max n (f e)) es n \<le> m"
  using assms
proof (induction es arbitrary: n)
  case Nil
  then show ?case by simp
next
  case (Cons e es)
  show ?case using Cons.IH [of "max n (f e)"] Cons.prems by simp
qed

definition color_id :: "source_id \<Rightarrow> nat option" where
  "color_id s = (case s of ColorSource i \<Rightarrow> Some i | _ \<Rightarrow> None)"

lemma restored_colors:
  "fold (\<lambda>e m. case pe_source e of ColorItem i v \<Rightarrow> m(ColorSource i \<mapsto> v) | _ \<Rightarrow> m)
     (List.map (snapshot_element colors) es) m src =
   (if color_id src \<noteq> None \<and> src \<in> se_source ` set es then Some (unwrap_or (colors src) (0, 0, 0)) else m src)"
proof (induction es arbitrary: m)
  case Nil
  show ?case by simp
next
  case (Cons e es)
  show ?case
    by (cases "se_source e") (auto simp: Cons.IH color_id_def split: source_id.splits)
qed

lemma next_color_bounds:
  "\<forall>e \<in> set es. \<forall>i. se_source e = ColorSource i \<longrightarrow> i < m \<Longrightarrow> m \<le> u64_max \<Longrightarrow> n \<le> m \<Longrightarrow>
   (let k = fold (\<lambda>e n. case pe_source e of ColorItem i v \<Rightarrow> max n (saturating_add u64_max i 1) | _ \<Rightarrow> n)
              (List.map (snapshot_element colors) es) n
    in n \<le> k \<and> k \<le> m \<and> (\<forall>e \<in> set es. \<forall>i. se_source e = ColorSource i \<longrightarrow> i < k))"
proof (induction es arbitrary: n)
  case Nil
  then show ?case by simp
next
  case (Cons e es)
  show ?case
  proof (cases "se_source e")
    case (ColorSource i)
    then have "i < m" using Cons.prems(1) by simp
    then show ?thesis
      using Cons.IH [of "max n (saturating_add u64_max i 1)"] Cons.prems ColorSource
      by (auto simp: Let_def saturating_add_def)
  qed (use Cons.IH [of n] Cons.prems in \<open>auto simp: Let_def\<close>)
qed

text \<open>Restoring the snapshot of a scene: its elements, the colours in use, and fresh identifiers.\<close>

definition same_scene ::
    "'v scene \<Rightarrow> (source_id \<Rightarrow> rgb option) \<Rightarrow> 'v scene \<times> (source_id \<Rightarrow> rgb option) \<times> nat option \<times> nat \<Rightarrow> nat option \<Rightarrow> bool" where
  "same_scene s colors r selected =
     (case r of (s', colors', selected', next_color) \<Rightarrow>
        sc_elements s' = sc_elements s \<and> scene_ok s' \<and> selected' = selected
        \<and> (\<forall>e \<in> set (sc_elements s). \<forall>i. se_source e = ColorSource i \<longrightarrow>
             colors' (ColorSource i) = colors (ColorSource i) \<and> i < next_color))"

definition colors_ok :: "'v scene \<Rightarrow> (source_id \<Rightarrow> rgb option) \<Rightarrow> nat \<Rightarrow> bool" where
  "colors_ok s colors next_color \<longleftrightarrow> next_color \<le> u64_max \<and> 0 < next_color
     \<and> (\<forall>e \<in> set (sc_elements s). \<forall>i. se_source e = ColorSource i \<longrightarrow> colors (ColorSource i) \<noteq> None \<and> i < next_color)"

lemma restore_snapshot:
  assumes "scene_ok s" and "colors_ok s colors next_color"
  shows "same_scene s colors (restore_project (project_snapshot s colors selected)) selected"
proof -
  let ?pes = "List.map (snapshot_element colors) (sc_elements s)"
  let ?f = "\<lambda>e :: 'a project_element. saturating_add u64_max (pe_id e) 1"
  have ids: "0 < se_id e \<and> se_id e < sc_next_id s" if "e \<in> set (sc_elements s)" for e
    using assms(1) that by (simp add: scene_ok_def)
  have bound: "sc_next_id s \<le> u64_max" "0 < sc_next_id s" using assms(1) by (simp_all add: scene_ok_def)
  let ?n = "fold (\<lambda>e n. max n (?f e)) ?pes 1"
  have n: "1 \<le> ?n" "\<forall>e \<in> set ?pes. ?f e \<le> ?n" "?n \<le> u64_max"
    using fold_max [of 1 u64_max ?pes ?f] by (simp_all add: u64_max_def saturating_add_def)
  have "\<forall>e \<in> set (sc_elements s). se_id e < ?n"
  proof
    fix e assume e: "e \<in> set (sc_elements s)"
    have "?f (snapshot_element colors e) \<le> ?n" using n(2) e by simp
    moreover have "?f (snapshot_element colors e) = se_id e + 1"
      using ids [OF e] bound by (simp add: saturating_add_def)
    ultimately show "se_id e < ?n" by simp
  qed
  then have ok: "scene_ok \<lparr>sc_elements = sc_elements s, sc_next_id = ?n\<rparr>"
    using assms(1) n by (auto simp: scene_ok_def)
  have "\<forall>e \<in> set (sc_elements s). \<forall>i. se_source e = ColorSource i \<longrightarrow> i < next_color"
    using assms(2) by (auto simp: colors_ok_def)
  from next_color_bounds [OF this, of 1 colors] assms(2)
  have fresh: "\<forall>e \<in> set (sc_elements s). \<forall>i. se_source e = ColorSource i \<longrightarrow>
      i < fold (\<lambda>e n. case pe_source e of ColorItem i v \<Rightarrow> max n (saturating_add u64_max i 1) | _ \<Rightarrow> n) ?pes 1"
    by (auto simp: colors_ok_def Let_def)
  have cols: "color_id (ColorSource i) \<noteq> None \<and> ColorSource i \<in> se_source ` set (sc_elements s)
      \<and> Some (unwrap_or (colors (ColorSource i)) (0, 0, 0)) = colors (ColorSource i)"
    if e: "e \<in> set (sc_elements s)" "se_source e = ColorSource i" for e i
  proof -
    obtain c where "colors (ColorSource i) = Some c" using assms(2) e unfolding colors_ok_def by blast
    then show ?thesis using e by (simp add: color_id_def) (metis imageI)
  qed
  show ?thesis
    using ok fresh cols
    by (simp add: same_scene_def restore_project_def project_snapshot_def fold_restore new_scene_def restored_colors
      comp_def)
qed

lemma paths_distinct [simp]:
  "project_path home \<noteq> project_temporary_path home" "project_temporary_path home \<noteq> project_path home"
  by (simp_all add: project_path_def project_temporary_path_def)

lemma save_project_file:
  assumes "save_project c home r p d = (d', res)"
  shows "dk_files d' (project_path home) =
    (if res = Inr () then Some (pc_encode c p) else dk_files d (project_path home))"
  using assms
  by (auto simp: save_project_def fs_create_dir_def fs_write_def fs_rename_def
      split: option.splits write_reply.splits prod.splits sum.splits)

text \<open>
  C25: saving the project of a well-formed scene either leaves the file that is loaded as it was, when any
  step fails (also a write that stops halfway), or leaves the new one; loading and restoring that gives
  the same elements in the same order with the same layouts, the colours of their sources, the same
  selection, and identifiers that the elements do not use.
\<close>

theorem project_roundtrip:
  assumes "scene_ok s" and "layouts_ok s" and "selection_ok s selected" and "colors_ok s colors next_color"
    and "pc_decode c (pc_encode c (scene_project s colors selected)) = Some (scene_project s colors selected)"
    and "save_project c home r (scene_project s colors selected) d = (d', result)"
  shows "case result of
      Inl _ \<Rightarrow> load_project c home readable d' = load_project c home readable d
    | Inr _ \<Rightarrow> load_project c home True d' = Some (scene_project s colors selected)
        \<and> same_scene (map_scene Fin s) colors (restore_project (scene_project s colors selected)) selected"
proof (cases result)
  case (Inl e)
  then show ?thesis using save_project_file [OF assms(6)] by (simp add: load_project_def)
next
  case (Inr u)
  let ?p = "scene_project s colors selected"
  have valid: "is_valid ?p" using scene_project_valid assms by blast
  have "scene_ok (map_scene Fin s)"
    using assms(1) by (simp add: scene_ok_def map_scene_def map_element_def comp_def)
  moreover have "colors_ok (map_scene Fin s) colors next_color"
    using assms(4) by (simp add: colors_ok_def map_scene_def map_element_def)
  ultimately have "same_scene (map_scene Fin s) colors (restore_project ?p) selected"
    unfolding scene_project_def by (rule restore_snapshot)
  then show ?thesis
    using Inr valid save_project_file [OF assms(6)] assms(5) by (simp add: load_project_def)
qed

definition sample_colors :: "source_id \<Rightarrow> rgb option" where
  "sample_colors = [ColorSource 3 \<mapsto> (88, 101, 242)]"

definition sample_project :: "fl project" where
  "sample_project = scene_project sample_scene sample_colors (Some 2)"

definition sample_project_codec :: project_codec where
  "sample_project_codec =
     \<lparr>pc_encode = (\<lambda>p. if p = sample_project then ''sample'' else []),
      pc_decode = (\<lambda>t. if t = ''sample'' then Some sample_project else None)\<rparr>"

definition all_saved :: save_replies where
  "all_saved = \<lparr>sr_dir = None, sr_write = Written, sr_rename = None\<rparr>"

definition empty_disk :: disk where
  "empty_disk = \<lparr>dk_dirs = {}, dk_files = Map.empty\<rparr>"

lemma sample_project_parts:
  "selection_ok sample_scene (Some 2)" "colors_ok sample_scene sample_colors 4"
  "pc_decode sample_project_codec (pc_encode sample_project_codec sample_project) = Some sample_project"
  by (auto simp: selection_ok_def colors_ok_def sample_scene_elements sample_colors_def u64_max_def
    sample_project_codec_def)

lemma sample_saved:
  "\<exists>d'. save_project sample_project_codec None all_saved sample_project empty_disk = (d', Inr ())"
  by (simp add: save_project_def all_saved_def fs_create_dir_def fs_write_def fs_rename_def)

lemma project_roundtrip_witness:
  "\<exists>d'. save_project sample_project_codec None all_saved sample_project empty_disk = (d', Inr ())
     \<and> load_project sample_project_codec None True d' = Some sample_project"
proof -
  obtain d' where d': "save_project sample_project_codec None all_saved sample_project empty_disk = (d', Inr ())"
    using sample_saved by blast
  from project_roundtrip [OF sample_scene_ok sample_project_parts(1,2), of sample_project_codec None all_saved
      empty_disk d' "Inr ()" True, folded sample_project_def, OF sample_project_parts(3) d'] d'
  show ?thesis by (simp add: sample_project_def)
qed

end
