(* ===== verification/Studio_Geometry.thy ===== *)
theory Studio_Geometry
  imports Studio_Scene Crop_Geometry Region_Selection
begin

section \<open>Placing items on the canvas of Blip Studio (apps/blip-studio/src/viewer.rs)\<close>

text \<open>
  Where an element is drawn, and what dragging it, its handles and its row does. Positions on the canvas
  are fractions of it, positions in the window pixels. Extents that the code divides by are positive in
  what is proved; the infinities of a division by a collapsed preview are not modelled.
\<close>

subsection \<open>Elements on the canvas\<close>

definition plain_transform :: "pos \<Rightarrow> pos \<Rightarrow> item_transform" where
  "plain_transform center extent =
     \<lparr>it_center = center, it_size = extent, it_corner_radius = 0, it_squircle = False, it_box_shadow = None\<rparr>"

definition with_corner_radius :: "real \<Rightarrow> item_transform \<Rightarrow> item_transform" where
  "with_corner_radius radius t = t\<lparr>it_corner_radius := radius\<rparr>"

definition scaled_size :: "pos \<Rightarrow> real \<Rightarrow> pos" where
  "scaled_size extent scale = (fst extent * scale, snd extent * scale)"

definition studio_fit_size :: "pos \<Rightarrow> pos \<Rightarrow> pos \<Rightarrow> pos" where
  "studio_fit_size maximum_size source canvas =
     (let source_aspect = fst source / snd source;
          canvas_aspect = fst canvas / snd canvas;
          box_aspect = fst maximum_size * canvas_aspect / snd maximum_size
      in if box_aspect < source_aspect
         then (fst maximum_size, fst maximum_size * canvas_aspect / source_aspect)
         else (snd maximum_size * source_aspect / canvas_aspect, snd maximum_size))"

definition element_transform :: "real item_layout \<Rightarrow> pos \<Rightarrow> nat \<times> nat \<Rightarrow> string + item_transform" where
  "element_transform layout source_dimensions canvas_dimensions =
     and_then (ok_or (try_from u32_max (fst canvas_dimensions)) ''canvas width exceeds u32'') (\<lambda>width.
     and_then (ok_or (try_from u32_max (snd canvas_dimensions)) ''canvas height exceeds u32'') (\<lambda>height.
       let extent = studio_fit_size (il_size layout) source_dimensions (real width, real height);
           corner_radius = min (fst extent * real width) (snd extent * real height) * il_corner_radius_ratio layout
       in Inr (with_corner_radius corner_radius (plain_transform (il_center layout) extent))))"

text \<open>\<open>width & !1\<close>.\<close>

definition even_dimensions :: "nat \<times> nat \<Rightarrow> nat \<times> nat" where
  "even_dimensions d = (fst d - fst d mod 2, snd d - snd d mod 2)"

definition normalized_color :: "rgb \<Rightarrow> real \<times> real \<times> real \<times> real" where
  "normalized_color c = (case c of (red, green, blue) \<Rightarrow> (real red / 255, real green / 255, real blue / 255, 1))"

definition color_rgb :: "rgb \<Rightarrow> nat" where
  "color_rgb c = (case c of (red, green, blue) \<Rightarrow> red * 65536 + green * 256 + blue)"

subsection \<open>The canvas in the window\<close>

definition SIDEBAR_WIDTH :: real where "SIDEBAR_WIDTH = 280"
definition INSPECTOR_WIDTH :: real where "INSPECTOR_WIDTH = 232"

definition preview_bounds :: "pos \<Rightarrow> bounds" where
  "preview_bounds viewport =
     \<lparr>bn_x = SIDEBAR_WIDTH, bn_y = 0, bn_width = max (fst viewport - SIDEBAR_WIDTH - INSPECTOR_WIDTH) 0,
      bn_height = snd viewport\<rparr>"

text \<open>\<open>ObjectFit::Contain.get_bounds\<close> of gpui.\<close>

definition contain_bounds :: "bounds \<Rightarrow> pos \<Rightarrow> bounds" where
  "contain_bounds b image_size =
     (let image_ratio = fst image_size / snd image_size;
          bounds_ratio = bn_width b / bn_height b;
          extent = (if image_ratio < bounds_ratio
            then (fst image_size * (bn_height b / snd image_size), bn_height b)
            else (bn_width b, snd image_size * (bn_width b / fst image_size)))
      in \<lparr>bn_x = bn_x b + (bn_width b - fst extent) / 2, bn_y = bn_y b + (bn_height b - snd extent) / 2,
          bn_width = fst extent, bn_height = snd extent\<rparr>)"

definition i32_max :: nat where "i32_max = 2147483647"

definition content_frame_bounds :: "bounds \<Rightarrow> nat \<times> nat \<Rightarrow> bounds option" where
  "content_frame_bounds container content =
     (case (try_from i32_max (fst content), try_from i32_max (snd content)) of
        (Some width, Some height) \<Rightarrow> Some (contain_bounds container (real width, real height))
      | _ \<Rightarrow> None)"

definition preview_frame_bounds :: "pos \<Rightarrow> nat \<times> nat \<Rightarrow> bounds option" where
  "preview_frame_bounds viewport content = content_frame_bounds (preview_bounds viewport) content"

definition transform_bounds :: "bounds \<Rightarrow> item_transform \<Rightarrow> bounds" where
  "transform_bounds frame t =
     (let width = bn_width frame * fst (it_size t); height = bn_height frame * snd (it_size t)
      in \<lparr>bn_x = bn_x frame + bn_width frame * fst (it_center t) - width * (1/2),
          bn_y = bn_y frame + bn_height frame * snd (it_center t) - height * (1/2),
          bn_width = width, bn_height = height\<rparr>)"

definition item_corner_radius :: "bounds \<Rightarrow> nat \<times> nat \<Rightarrow> item_transform \<Rightarrow> real option" where
  "item_corner_radius frame content t =
     map_option (\<lambda>radius. radius * (bn_width frame / real (fst content)))
       (clamped_corner_radius t (real (fst content), real (snd content)))"

definition normalized_position :: "real \<Rightarrow> real \<Rightarrow> real \<Rightarrow> real" where
  "normalized_position coordinate origin extent = clamp ((coordinate - origin) / extent) 0 1"

definition normalized_position_unclamped :: "real \<Rightarrow> real \<Rightarrow> real \<Rightarrow> real" where
  "normalized_position_unclamped coordinate origin extent = (coordinate - origin) / extent"

definition nudged_center :: "pos \<Rightarrow> pos \<Rightarrow> pos \<Rightarrow> pos" where
  "nudged_center center delta canvas =
     (clamp (fst center + fst delta / fst canvas) 0 1, clamp (snd center + snd delta / snd canvas) 0 1)"

subsection \<open>Resizing\<close>

datatype item_handle = ITopLeft | ITop | ITopRight | IRight | IBottomRight | IBottom | IBottomLeft | ILeft

fun handle_axes :: "item_handle \<Rightarrow> real \<times> real" where
  "handle_axes ITopLeft = (- 1, - 1)"
| "handle_axes ITop = (0, - 1)"
| "handle_axes ITopRight = (1, - 1)"
| "handle_axes IRight = (1, 0)"
| "handle_axes IBottomRight = (1, 1)"
| "handle_axes IBottom = (0, 1)"
| "handle_axes IBottomLeft = (- 1, 1)"
| "handle_axes ILeft = (- 1, 0)"

datatype drag_operation =
  MoveItem nat pos
| ResizeItem nat item_handle item_transform pos pos
| CornerRadius nat bounds

record snap_guides =
  sg_x :: "real option"
  sg_y :: "real option"

definition no_guides :: snap_guides where "no_guides = \<lparr>sg_x = None, sg_y = None\<rparr>"

definition resize_operation :: "nat \<Rightarrow> item_handle \<Rightarrow> item_transform \<Rightarrow> pos \<Rightarrow> drag_operation" where
  "resize_operation item handle t initial_size =
     (let (horizontal, vertical) = handle_axes handle;
          anchor = (fst (it_center t) - horizontal * fst (it_size t) * (1/2),
                    snd (it_center t) - vertical * snd (it_size t) * (1/2))
      in ResizeItem item handle t initial_size anchor)"

definition MIN_ITEM_SCALE :: real where "MIN_ITEM_SCALE = 5/100"
definition SNAP_THRESHOLD_PX :: real where "SNAP_THRESHOLD_PX = 8"
definition CORNER_HANDLE_INSET :: real where "CORNER_HANDLE_INSET = 16"

definition minimum_resize_ratio :: "pos \<Rightarrow> real" where
  "minimum_resize_ratio extent = MIN_ITEM_SCALE / max (fst extent) (snd extent)"

definition resized_item :: "item_handle \<Rightarrow> item_transform \<Rightarrow> pos \<Rightarrow> pos \<Rightarrow> real \<Rightarrow> pos \<times> real" where
  "resized_item handle initial anchor pointer minimum_ratio =
     (let (horizontal, vertical) = handle_axes handle;
          vx = horizontal * fst (it_size initial); vy = vertical * snd (it_size initial);
          px = fst pointer - fst anchor; py = snd pointer - snd anchor;
          denominator = vx * vx + vy * vy;
          ratio = max ((px * vx + py * vy) / denominator) minimum_ratio
      in ((if horizontal = 0 then fst (it_center initial) else fst anchor + vx * ratio * (1/2),
           if vertical = 0 then snd (it_center initial) else snd anchor + vy * ratio * (1/2)), ratio))"

text \<open>
  The loop over the two axes keeps the ratio snapped to, the smallest adjustment (\<open>None\<close> for the infinity
  it starts with) and the guides.
\<close>

fun snap_axis ::
    "real \<Rightarrow> real \<Rightarrow> bool \<times> real \<times> real \<times> real \<times> real \<Rightarrow> real \<times> real option \<times> snap_guides
     \<Rightarrow> real \<times> real option \<times> snap_guides" where
  "snap_axis ratio minimum_ratio (axis, anchor, direction, extent, threshold) (snapped, smallest, guides) =
     (if direction = 0 then (snapped, smallest, guides)
      else let border = (if direction < 0 then 0 else 1);
               moving_edge = anchor + direction * extent * ratio
           in if threshold < \<bar>moving_edge - border\<bar> then (snapped, smallest, guides)
              else let candidate = max ((border - anchor) / (direction * extent)) minimum_ratio;
                       adjustment = \<bar>candidate - ratio\<bar>
                   in if (case smallest of None \<Rightarrow> True | Some least \<Rightarrow> adjustment < least)
                      then (candidate, Some adjustment,
                        if axis then \<lparr>sg_x = Some border, sg_y = None\<rparr> else \<lparr>sg_x = None, sg_y = Some border\<rparr>)
                      else (snapped, smallest, guides))"

definition snap_borders ::
    "item_handle \<Rightarrow> item_transform \<Rightarrow> pos \<Rightarrow> real \<Rightarrow> real \<Rightarrow> pos \<Rightarrow> real \<times> real option \<times> snap_guides" where
  "snap_borders handle initial anchor ratio minimum_ratio threshold =
     fold (snap_axis ratio minimum_ratio)
       [(True, fst anchor, fst (handle_axes handle), fst (it_size initial), fst threshold),
        (False, snd anchor, snd (handle_axes handle), snd (it_size initial), snd threshold)]
       (ratio, None, no_guides)"

definition resized_item_with_border_snap ::
    "item_handle \<Rightarrow> item_transform \<Rightarrow> pos \<Rightarrow> pos \<Rightarrow> real \<Rightarrow> pos \<Rightarrow> pos \<times> real \<times> snap_guides" where
  "resized_item_with_border_snap handle initial anchor pointer minimum_ratio threshold =
     (let ratio = snd (resized_item handle initial anchor pointer minimum_ratio);
          (snapped_ratio, smallest, guides) = snap_borders handle initial anchor ratio minimum_ratio threshold;
          (center, final_ratio) = resized_item handle initial anchor
            (fst anchor + fst (handle_axes handle) * fst (it_size initial) * snapped_ratio,
             snd anchor + snd (handle_axes handle) * snd (it_size initial) * snapped_ratio) minimum_ratio
      in (center, final_ratio, guides))"

subsection \<open>Moving\<close>

definition snap_point ::
    "real \<Rightarrow> real \<Rightarrow> real \<times> real \<Rightarrow> real \<times> real option \<times> real option \<Rightarrow> real \<times> real option \<times> real option" where
  "snap_point center threshold pt st =
     (let (place, target) = pt; (snapped, guide, smallest) = st; adjustment = target - place
      in if \<bar>adjustment\<bar> \<le> threshold \<and> (case smallest of None \<Rightarrow> True | Some least \<Rightarrow> \<bar>adjustment\<bar> < least)
         then (center + adjustment, Some target, Some \<bar>adjustment\<bar>) else st)"

definition snapped_move_axis :: "real \<Rightarrow> real \<Rightarrow> real \<Rightarrow> real \<times> real option" where
  "snapped_move_axis center extent threshold =
     (let half_size = extent * (1/2);
          (snapped, guide, smallest) = fold (snap_point center threshold)
            [(center - half_size, 0), (center, 1/2), (center + half_size, 1)] (center, None, None)
      in (snapped, guide))"

definition snapped_move_center :: "pos \<Rightarrow> pos \<Rightarrow> pos \<Rightarrow> pos \<times> snap_guides" where
  "snapped_move_center center extent threshold =
     (let (x, x_guide) = snapped_move_axis (fst center) (fst extent) (fst threshold);
          (y, y_guide) = snapped_move_axis (snd center) (snd extent) (snd threshold)
      in ((x, y), \<lparr>sg_x = x_guide, sg_y = y_guide\<rparr>))"

definition normalized_snap_threshold :: "bounds \<Rightarrow> pos" where
  "normalized_snap_threshold frame = (SNAP_THRESHOLD_PX / bn_width frame, SNAP_THRESHOLD_PX / bn_height frame)"

subsection \<open>Handles\<close>

definition item_handle_points :: "bounds \<Rightarrow> (item_handle \<times> pos) list" where
  "item_handle_points b =
     (let l = bn_x b; t = bn_y b; cx = l + bn_width b * (1/2); cy = t + bn_height b * (1/2);
          r = l + bn_width b; bt = t + bn_height b
      in [(ITopLeft, (l, t)), (ITop, (cx, t)), (ITopRight, (r, t)), (IRight, (r, cy)),
          (IBottomRight, (r, bt)), (IBottom, (cx, bt)), (IBottomLeft, (l, bt)), (ILeft, (l, cy))])"

definition square_bounds :: "pos \<Rightarrow> bounds" where
  "square_bounds center =
     \<lparr>bn_x = fst center - 10 * (1/2), bn_y = snd center - 10 * (1/2), bn_width = 10, bn_height = 10\<rparr>"

definition item_handle_at :: "pos \<Rightarrow> bounds \<Rightarrow> item_handle option" where
  "item_handle_at p b = map_option fst (find (\<lambda>(h, c). bn_contains (square_bounds c) p) (item_handle_points b))"

definition corner_inset :: "bounds \<Rightarrow> real \<Rightarrow> real" where
  "corner_inset b radius =
     (let maximum_inset = min (bn_width b) (bn_height b) * (1/2)
      in if maximum_inset \<le> CORNER_HANDLE_INSET then maximum_inset
         else CORNER_HANDLE_INSET + clamp (radius / maximum_inset) 0 1 * (maximum_inset - CORNER_HANDLE_INSET))"

definition corner_handle_point :: "bounds \<Rightarrow> real \<Rightarrow> pos" where
  "corner_handle_point b radius =
     (let inset = corner_inset b radius in (bn_x b + bn_width b - inset, bn_y b + inset))"

definition corner_radius_handle_bounds :: "bounds \<Rightarrow> real \<Rightarrow> bounds" where
  "corner_radius_handle_bounds b radius = square_bounds (corner_handle_point b radius)"

definition corner_radius_ratio_from_position :: "bounds \<Rightarrow> pos \<Rightarrow> real" where
  "corner_radius_ratio_from_position b p =
     (let maximum_inset = min (bn_width b) (bn_height b) * (1/2)
      in if maximum_inset \<le> CORNER_HANDLE_INSET then 0
         else let r = bn_x b + bn_width b;
                  pointer_inset = ((r - fst p) + (snd p - bn_y b)) * (1/2)
              in clamp ((pointer_inset - CORNER_HANDLE_INSET) / (maximum_inset - CORNER_HANDLE_INSET)) 0 1 * (1/2))"

subsection \<open>The list of elements\<close>

definition SCENE_ROW_STRIDE :: real where "SCENE_ROW_STRIDE = 36"

definition clamped_scene_drag_origin :: "pos \<Rightarrow> bounds \<Rightarrow> pos" where
  "clamped_scene_drag_origin place b =
     (bn_x b, clamp (snd place) (bn_y b) (max (bn_y b + bn_height b - 32) (bn_y b)))"

definition scene_drag_render_index :: "real \<Rightarrow> real \<Rightarrow> bounds \<Rightarrow> nat \<Rightarrow> nat option" where
  "scene_drag_render_index pointer_y grab_offset_y b item_count =
     (case checked_sub item_count 1 of
        None \<Rightarrow> None
      | Some maximum_display_index \<Rightarrow>
          (let origin = clamped_scene_drag_origin (bn_x b, pointer_y - grab_offset_y) b;
               center = snd origin + 16;
               display_index = min (as_unsigned usize_max (of_int \<lfloor>(center - bn_y b) / SCENE_ROW_STRIDE\<rfloor>))
                 maximum_display_index
           in checked_sub maximum_display_index display_index))"

definition scene_item_origin :: "'v scene \<Rightarrow> nat \<Rightarrow> bounds \<Rightarrow> pos option" where
  "scene_item_origin s item b =
     (case position (\<lambda>e. se_id e = item) (sc_elements s) of
        None \<Rightarrow> None
      | Some render_index \<Rightarrow>
          map_option (\<lambda>display_index. (bn_x b, bn_y b + real display_index * SCENE_ROW_STRIDE))
            (checked_sub (length (sc_elements s)) (saturating_add usize_max render_index 1)))"

text \<open>\<open>SCENE_ROW_ANIMATION_DURATION\<close> is 140 ms; a duration is in nanoseconds.\<close>

definition scene_animation_remaining :: "nat \<Rightarrow> real" where
  "scene_animation_remaining elapsed = (1 - clamp (real elapsed / 1000000000 / (14/100)) 0 1) ^ 5"

text \<open>
  The offsets of the rows that moved, as a map: \<open>enumerate\<close> and \<open>collect\<close> of the identifiers' indices keep
  the last index of an identifier.
\<close>

definition index_map :: "nat list \<Rightarrow> nat \<Rightarrow> nat option" where
  "index_map ids = map_of (rev (zip ids [0..<length ids]))"

definition row_offset :: "nat list \<Rightarrow> nat \<Rightarrow> nat \<times> 'v scene_element \<Rightarrow> (nat \<times> real) option" where
  "row_offset previous_order dragged = (\<lambda>(new_index, e).
     if se_id e = dragged then None
     else case index_map previous_order (se_id e) of
            None \<Rightarrow> None
          | Some old_index \<Rightarrow>
              if new_index \<le> i32_max \<and> old_index \<le> i32_max \<and> new_index \<noteq> old_index
              then Some (se_id e, of_int (int new_index - int old_index) * SCENE_ROW_STRIDE) else None)"

definition scene_reorder_offsets :: "nat list \<Rightarrow> 'v scene \<Rightarrow> nat \<Rightarrow> nat \<Rightarrow> real option" where
  "scene_reorder_offsets previous_order s dragged =
     map_of (rev (List.map_filter (row_offset previous_order dragged)
       (zip [0..<length (sc_elements s)] (sc_elements s))))"

subsection \<open>Resizing keeps the anchor\<close>

definition resize_vector :: "item_handle \<Rightarrow> item_transform \<Rightarrow> pos" where
  "resize_vector h t = (fst (handle_axes h) * fst (it_size t), snd (handle_axes h) * snd (it_size t))"

definition resize_anchor :: "item_handle \<Rightarrow> item_transform \<Rightarrow> pos" where
  "resize_anchor h t =
     (fst (it_center t) - fst (resize_vector h t) / 2, snd (it_center t) - snd (resize_vector h t) / 2)"

lemma resize_operation_anchor:
  "resize_operation item h t extent = ResizeItem item h t extent (resize_anchor h t)"
  by (simp add: resize_operation_def resize_anchor_def resize_vector_def case_prod_beta Let_def)

lemma axes_nonzero: "fst (handle_axes h) \<noteq> 0 \<or> snd (handle_axes h) \<noteq> 0"
  by (cases h) simp_all

lemma axes_cases: "fst (handle_axes h) \<in> {- 1, 0, 1}" "snd (handle_axes h) \<in> {- 1, 0, 1}"
  by (cases h; simp)+

lemma resize_vector_square:
  assumes "0 < fst (it_size t)" "0 < snd (it_size t)"
  shows "0 < fst (resize_vector h t) * fst (resize_vector h t) + snd (resize_vector h t) * snd (resize_vector h t)"
  using axes_nonzero [of h] assms
  by (auto simp: resize_vector_def add_pos_nonneg add_nonneg_pos zero_less_mult_iff mult_less_0_iff linorder_neq_iff)

lemma resized_item_ratio: "m \<le> snd (resized_item h t anchor p m)"
  by (simp add: resized_item_def case_prod_beta Let_def)

lemma resized_item_along:
  assumes "0 < fst (it_size t)" "0 < snd (it_size t)" "m \<le> r"
  shows "resized_item h t anchor
      (fst anchor + fst (resize_vector h t) * r, snd anchor + snd (resize_vector h t) * r) m =
    ((if fst (handle_axes h) = 0 then fst (it_center t) else fst anchor + fst (resize_vector h t) * r * (1/2),
      if snd (handle_axes h) = 0 then snd (it_center t) else snd anchor + snd (resize_vector h t) * r * (1/2)), r)"
proof -
  let ?x = "fst (resize_vector h t)" and ?y = "snd (resize_vector h t)"
  have "?x * r * ?x + ?y * r * ?y = r * (?x * ?x + ?y * ?y)" by (simp add: algebra_simps)
  then have "(?x * r * ?x + ?y * r * ?y) / (?x * ?x + ?y * ?y) = r"
    using resize_vector_square [OF assms(1,2), of h] by (metis less_irrefl nonzero_mult_div_cancel_right)
  then show ?thesis
    using assms(3)
    by (simp add: resized_item_def case_prod_beta Let_def resize_vector_def max_absorb1 del: times_divide_eq_right)
qed

text \<open>What the loop over the axes has found: a ratio no smaller than the minimum that meets its guide.\<close>

definition snap_found :: "real \<Rightarrow> pos \<Rightarrow> pos \<Rightarrow> real \<times> real option \<times> snap_guides \<Rightarrow> bool" where
  "snap_found m anchor v st \<longleftrightarrow>
     (case st of (snapped, smallest, guides) \<Rightarrow>
        m \<le> snapped
        \<and> (\<forall>b. sg_x guides = Some b \<longrightarrow> b \<in> {0, 1} \<and> fst v \<noteq> 0
             \<and> (m < snapped \<longrightarrow> fst anchor + fst v * snapped = b))
        \<and> (\<forall>b. sg_y guides = Some b \<longrightarrow> b \<in> {0, 1} \<and> snd v \<noteq> 0
             \<and> (m < snapped \<longrightarrow> snd anchor + snd v * snapped = b)))"

lemma snap_axis_found:
  assumes "snap_found m anchor (resize_vector h t) st" "0 < fst (it_size t)" "0 < snd (it_size t)"
  shows "snap_found m anchor (resize_vector h t)
      (snap_axis ratio m (True, fst anchor, fst (handle_axes h), fst (it_size t), th) st)"
    and "snap_found m anchor (resize_vector h t)
      (snap_axis ratio m (False, snd anchor, snd (handle_axes h), snd (it_size t), th) st)"
  using assms axes_cases [of h]
  by (cases st; auto simp: snap_found_def resize_vector_def Let_def max_def field_simps split: if_splits)+

text \<open>
  C37: resizing an item by a handle keeps the opposite edge or corner where it was, in both directions, for
  any pointer position and with the snapping: the item scales by one ratio, never below the minimum, an
  edge handle leaves the other axis alone, and where a guide is drawn the moved edge lies on that border
  of the canvas unless the item is at its minimum.
\<close>

theorem resize_keeps_anchor:
  assumes "0 < fst (it_size t)" "0 < snd (it_size t)"
    and "resize_operation item h t extent = ResizeItem item h t extent anchor"
    and "resized_item_with_border_snap h t anchor p m threshold = (center, ratio, guides)"
  shows "m \<le> ratio
    \<and> fst center - fst (handle_axes h) * (fst (it_size t) * ratio) / 2 =
        (if fst (handle_axes h) = 0 then fst (it_center t) else fst anchor)
    \<and> snd center - snd (handle_axes h) * (snd (it_size t) * ratio) / 2 =
        (if snd (handle_axes h) = 0 then snd (it_center t) else snd anchor)
    \<and> (\<forall>b. sg_x guides = Some b \<longrightarrow> b \<in> {0, 1}
         \<and> (ratio = m \<or> fst center + fst (handle_axes h) * (fst (it_size t) * ratio) / 2 = b))
    \<and> (\<forall>b. sg_y guides = Some b \<longrightarrow> b \<in> {0, 1}
         \<and> (ratio = m \<or> snd center + snd (handle_axes h) * (snd (it_size t) * ratio) / 2 = b))"
proof -
  let ?v = "resize_vector h t" and ?r = "snd (resized_item h t anchor p m)"
  obtain s least g where st: "snap_borders h t anchor ?r m threshold = (s, least, g)" by (metis prod_cases3)
  have "snap_found m anchor ?v (?r, None, no_guides)"
    by (simp add: snap_found_def resized_item_ratio no_guides_def)
  then have found: "snap_found m anchor ?v (s, least, g)"
    unfolding st [symmetric] snap_borders_def fold.simps comp_def id_apply by (intro snap_axis_found assms(1,2))
  then have s: "m \<le> s" by (simp add: snap_found_def)
  have res: "center = (if fst (handle_axes h) = 0 then fst (it_center t) else fst anchor + fst ?v * s * (1/2),
      if snd (handle_axes h) = 0 then snd (it_center t) else snd anchor + snd ?v * s * (1/2))"
    "ratio = s" "guides = g"
    using assms(4) resized_item_along [OF assms(1,2) s, of h anchor]
    unfolding resized_item_with_border_snap_def st Let_def resize_vector_def by simp_all
  have zero: "fst ?v \<noteq> 0 \<Longrightarrow> fst (handle_axes h) \<noteq> 0" "snd ?v \<noteq> 0 \<Longrightarrow> snd (handle_axes h) \<noteq> 0"
    by (auto simp: resize_vector_def)
  have c: "fst center - fst ?v * ratio / 2 = (if fst (handle_axes h) = 0 then fst (it_center t) else fst anchor)"
    "snd center - snd ?v * ratio / 2 = (if snd (handle_axes h) = 0 then snd (it_center t) else snd anchor)"
    by (simp_all add: res resize_vector_def)
  have x: "b \<in> {0, 1} \<and> (ratio = m \<or> fst center + fst ?v * ratio / 2 = b)" if "sg_x guides = Some b" for b
  proof -
    have "b \<in> {0, 1}" "fst ?v \<noteq> 0" "m < s \<Longrightarrow> fst anchor + fst ?v * s = b"
      using found that unfolding snap_found_def res by simp_all
    then show ?thesis using c(1) zero(1) s by (cases "m < s") (simp_all add: res(2))
  qed
  have y: "b \<in> {0, 1} \<and> (ratio = m \<or> snd center + snd ?v * ratio / 2 = b)" if "sg_y guides = Some b" for b
  proof -
    have "b \<in> {0, 1}" "snd ?v \<noteq> 0" "m < s \<Longrightarrow> snd anchor + snd ?v * s = b"
      using found that unfolding snap_found_def res by simp_all
    then show ?thesis using c(2) zero(2) s by (cases "m < s") (simp_all add: res(2))
  qed
  have v: "fst ?v * ratio = fst (handle_axes h) * (fst (it_size t) * ratio)"
    "snd ?v * ratio = snd (handle_axes h) * (snd (it_size t) * ratio)"
    by (simp_all add: resize_vector_def)
  show ?thesis using s c x y unfolding v by (simp only: res(2)) blast
qed

lemma resize_keeps_anchor_witness:
  "fst (resized_item_with_border_snap IRight (plain_transform (1/2, 1/2) (1/2, 1/4)) (1/4, 1/2) (99/100, 1/2)
     (1/20) (1/50, 1/50)) = (5/8, 1/2)
   \<and> (1/20 :: real) \<le> fst (snd (resized_item_with_border_snap IRight (plain_transform (1/2, 1/2) (1/2, 1/4))
       (1/4, 1/2) (99/100, 1/2) (1/20) (1/50, 1/50)))"
proof -
  let ?t = "plain_transform (1/2, 1/2) (1/2, 1/4)"
  obtain c r g where e: "resized_item_with_border_snap IRight ?t (1/4, 1/2) (99/100, 1/2) (1/20) (1/50, 1/50) = (c, r, g)"
    by (metis prod_cases3)
  have op: "resize_operation 1 IRight ?t (1/2, 1/4) = ResizeItem 1 IRight ?t (1/2, 1/4) (1/4, 1/2)"
    by (simp add: resize_operation_def plain_transform_def)
  have "1/20 \<le> r" using resize_keeps_anchor [OF _ _ op e] by (simp add: plain_transform_def)
  moreover have "c = (5/8, 1/2)"
    using e by (simp add: resized_item_with_border_snap_def resized_item_def plain_transform_def snap_borders_def no_guides_def Let_def)
  ultimately show ?thesis using e by simp
qed

subsection \<open>Moving snaps to the nearest line\<close>

text \<open>The three points of an item that can snap on an axis, with the lines of the canvas they snap to.\<close>

definition snap_distances :: "real \<Rightarrow> real \<Rightarrow> (real \<times> real) list" where
  "snap_distances center extent = [(- (center - extent / 2), 0), (1/2 - center, 1/2), (1 - (center + extent / 2), 1)]"

lemma snapped_move_axis_correct:
  assumes "snapped_move_axis center extent threshold = (c, guide)"
  shows "case guide of
      None \<Rightarrow> c = center \<and> (\<forall>(d, line) \<in> set (snap_distances center extent). threshold < \<bar>d\<bar>)
    | Some line \<Rightarrow> (c - center, line) \<in> set (snap_distances center extent) \<and> \<bar>c - center\<bar> \<le> threshold
        \<and> (\<forall>(d, l) \<in> set (snap_distances center extent). \<bar>c - center\<bar> \<le> \<bar>d\<bar>)"
  using assms
  by (simp add: snapped_move_axis_def snap_point_def snap_distances_def Let_def split: if_splits option.splits) (auto simp: abs_if split: if_splits)

subsection \<open>The corner handle\<close>

lemma corner_ratio_bounds: "0 \<le> corner_radius_ratio_from_position b p \<and> corner_radius_ratio_from_position b p \<le> 1/2"
  using clamp_bounds [of 0 1] by (simp add: corner_radius_ratio_from_position_def Let_def)

text \<open>Dragging the corner handle from its middle leaves the radius as it is.\<close>

lemma corner_handle_roundtrip:
  assumes "2 * CORNER_HANDLE_INSET < min (bn_width b) (bn_height b)" and "0 \<le> radius"
    and "radius \<le> min (bn_width b) (bn_height b) / 2"
  shows "corner_radius_ratio_from_position b (corner_handle_point b radius) * min (bn_width b) (bn_height b) = radius"
proof -
  define m where "m = min (bn_width b) (bn_height b) * (1/2)"
  have m: "16 < m" "0 \<le> radius / m" "radius / m \<le> 1"
    using assms by (simp_all add: CORNER_HANDLE_INSET_def m_def)
  have "corner_inset b radius = 16 + radius / m * (m - 16)"
    using m unfolding corner_inset_def m_def [symmetric] Let_def CORNER_HANDLE_INSET_def by simp
  then have "(((bn_x b + bn_width b) - fst (corner_handle_point b radius))
      + (snd (corner_handle_point b radius) - bn_y b)) * (1/2) - 16 = radius / m * (m - 16)"
    unfolding corner_handle_point_def Let_def fst_conv snd_conv by argo
  moreover have "radius / m * (m - 16) / (m - 16) = radius / m" using m(1) by simp
  ultimately have "corner_radius_ratio_from_position b (corner_handle_point b radius) = radius / m * (1/2)"
    using m unfolding corner_radius_ratio_from_position_def m_def [symmetric] Let_def CORNER_HANDLE_INSET_def by simp
  moreover have "min (bn_width b) (bn_height b) = 2 * m" by (simp add: m_def)
  ultimately show ?thesis using m(1) by simp
qed

subsection \<open>Rows\<close>

lemma position_id_index:
  "distinct (List.map se_id es) \<Longrightarrow> k < length es \<Longrightarrow> position (\<lambda>e. se_id e = se_id (es ! k)) es = Some k"
  using nth_eq_iff_index_eq [of "List.map se_id es"] by (fastforce simp: position_Some_iff)

lemma scene_item_origin_index:
  assumes "scene_ok s" and "k < length (sc_elements s)" and "length (sc_elements s) \<le> u64_max"
  shows "scene_item_origin s (se_id (sc_elements s ! k)) b =
    Some (bn_x b, bn_y b + real (length (sc_elements s) - Suc k) * SCENE_ROW_STRIDE)"
  using assms
  by (simp add: scene_item_origin_def position_id_index scene_ok_def saturating_add_exact checked_sub_def)

text \<open>
  A row dropped where it is drawn keeps its place: the index computed for the pointer at the row's origin
  is the element's own.
\<close>

lemma drag_index_of_origin:
  assumes "scene_ok s" and "k < length (sc_elements s)" and "length (sc_elements s) \<le> u64_max"
    and "scene_item_origin s (se_id (sc_elements s ! k)) b = Some p"
    and "real (length (sc_elements s) - 1) * SCENE_ROW_STRIDE + 32 \<le> bn_height b"
  shows "scene_drag_render_index (snd p + grab) grab b (length (sc_elements s)) = Some k"
proof -
  define n d where "n = length (sc_elements s)" and "d = length (sc_elements s) - Suc k"
  have d: "d \<le> n - 1" "n - 1 - d = k" "0 < n" "n \<le> u64_max"
    using assms(2,3) by (auto simp: n_def d_def)
  have p: "snd p = bn_y b + real d * 36"
    using scene_item_origin_index [OF assms(1-3), of b] assms(4) by (auto simp: SCENE_ROW_STRIDE_def d_def)
  have "real d * 36 \<le> real (n - 1) * 36" using d(1) by simp
  then have "real d * 36 + 32 \<le> bn_height b"
    using assms(5) unfolding n_def [symmetric] SCENE_ROW_STRIDE_def by linarith
  then have o: "snd (clamped_scene_drag_origin (bn_x b, snd p) b) = bn_y b + real d * 36"
    by (simp add: clamped_scene_drag_origin_def p)
  have "\<lfloor>(real d * 36 + 16) / 36 :: real\<rfloor> = int d"
    by (rule floor_unique) (simp_all add: field_simps)
  moreover have "as_unsigned usize_max (of_int (int d)) = d"
    using d by (simp add: as_unsigned_def)
  ultimately show ?thesis
    unfolding n_def [symmetric] scene_drag_render_index_def checked_sub_def SCENE_ROW_STRIDE_def Let_def
    using d o by simp
qed

lemma map_of_rev_distinct: "distinct (List.map fst xs) \<Longrightarrow> map_of (rev xs) = map_of xs"
  by (rule map_of_inject_set [THEN iffD2]) (simp_all add: rev_map [symmetric])

lemma index_map_nth: "distinct ids \<Longrightarrow> i < length ids \<Longrightarrow> index_map ids (ids ! i) = Some i"
  unfolding index_map_def by (subst map_of_rev_distinct) (auto simp: map_of_zip_nth)

lemma scene_animation_remaining_bounds: "0 \<le> scene_animation_remaining e \<and> scene_animation_remaining e \<le> 1"
  using clamp_bounds [of 0 1 "real e / 1000000000 / (14/100)"]
  by (simp add: scene_animation_remaining_def power_le_one)

lemma map_filter_mem: "y \<in> set (List.map_filter f zs) \<longleftrightarrow> (\<exists>z \<in> set zs. f z = Some y)"
  by (force simp: List.map_filter_def)

lemma map_filter_keys:
  assumes "\<And>x y. f x = Some y \<Longrightarrow> fst y = key x" and "distinct (List.map key zs)"
  shows "distinct (List.map fst (List.map_filter f zs))"
  using assms(2)
proof (induction zs)
  case Nil
  show ?case by (simp add: List.map_filter_simps)
next
  case (Cons z zs)
  have "key z \<notin> fst ` set (List.map_filter f zs)"
  proof
    assume "key z \<in> fst ` set (List.map_filter f zs)"
    then obtain x y where "x \<in> set zs" "f x = Some y" "fst y = key z"
      unfolding image_iff Bex_def map_filter_mem by metis
    with assms(1) have "key z = key x" by metis
    with \<open>x \<in> set zs\<close> Cons.prems show False by simp
  qed
  then show ?case using Cons assms(1) [of z] by (cases "f z") (auto simp: List.map_filter_simps)
qed

lemma row_offset_key: "row_offset previous dragged x = Some y \<Longrightarrow> fst y = se_id (snd x)"
  by (auto simp: row_offset_def split: if_splits option.splits prod.splits)

text \<open>The offset of a row that moved is the distance from its new place to the one it was drawn at.\<close>

lemma reorder_offset_continuous:
  assumes "distinct previous" and "scene_ok s" and "i < length previous" and "j < length (sc_elements s)"
    and "previous ! i = se_id (sc_elements s ! j)" and "se_id (sc_elements s ! j) \<noteq> dragged"
    and "length previous = length (sc_elements s)" and "length previous \<le> i32_max"
  shows "unwrap_or (scene_reorder_offsets previous s dragged (previous ! i)) 0 =
    real (length previous - Suc i) * SCENE_ROW_STRIDE - real (length previous - Suc j) * SCENE_ROW_STRIDE"
proof -
  let ?f = "row_offset previous dragged"
  let ?z = "zip [0..<length (sc_elements s)] (sc_elements s)"
  have "List.map (\<lambda>x. se_id (snd x)) ?z = element_ids s"
    by (simp flip: map_map [of se_id snd, unfolded comp_def])
  then have "distinct (List.map (\<lambda>x. se_id (snd x)) ?z)" using assms(2) by (metis scene_ok_def)
  then have sub: "distinct (List.map fst (List.map_filter ?f ?z))"
    using map_filter_keys [of ?f "\<lambda>x. se_id (snd x)" ?z] row_offset_key [of previous dragged] by blast
  have z: "(j, sc_elements s ! j) \<in> set ?z" using assms(4) by (auto simp: in_set_zip intro!: exI [of _ j])
  have idx: "index_map previous (se_id (sc_elements s ! j)) = Some i"
    using index_map_nth [OF assms(1,3)] assms(5) by simp
  have small: "i \<le> i32_max" "j \<le> i32_max" using assms by simp_all
  have dist: "real (length previous - Suc i) * SCENE_ROW_STRIDE - real (length previous - Suc j) * SCENE_ROW_STRIDE
      = of_int (int j - int i) * SCENE_ROW_STRIDE"
    using assms(3,4,7) by (simp add: of_nat_diff algebra_simps)
  have off: "scene_reorder_offsets previous s dragged = map_of (List.map_filter ?f ?z)"
    unfolding scene_reorder_offsets_def by (rule map_of_rev_distinct [OF sub])
  show ?thesis
  proof (cases "i = j")
    case False
    then have "?f (j, sc_elements s ! j) = Some (previous ! i, of_int (int j - int i) * SCENE_ROW_STRIDE)"
      using assms(5,6) idx small by (simp add: row_offset_def)
    with z have "(previous ! i, of_int (int j - int i) * SCENE_ROW_STRIDE) \<in> set (List.map_filter ?f ?z)"
      unfolding map_filter_mem by blast
    with sub have "map_of (List.map_filter ?f ?z) (previous ! i)
        = Some (of_int (int j - int i) * SCENE_ROW_STRIDE)" by simp
    then show ?thesis unfolding off dist by simp
  next
    case True
    have "previous ! i \<notin> fst ` set (List.map_filter ?f ?z)"
    proof
      assume "previous ! i \<in> fst ` set (List.map_filter ?f ?z)"
      then obtain y where "y \<in> set (List.map_filter ?f ?z)" "fst y = previous ! i" by auto
      then obtain k e where k: "(k, e) \<in> set ?z" "?f (k, e) = Some y" "fst y = previous ! i"
        unfolding map_filter_mem by fastforce
      have e: "se_id e = previous ! i" using row_offset_key [OF k(2)] k(3) by simp
      have ke: "e = sc_elements s ! k" "k < length (sc_elements s)" using k(1) by (auto simp: in_set_zip)
      have "k = j"
        using nth_eq_iff_index_eq [of "element_ids s" k j] assms(2,4,5) e ke by (simp add: scene_ok_def)
      then show False using k(2) ke idx assms(6) True by (simp add: row_offset_def)
    qed
    then have "map_of (List.map_filter ?f ?z) (previous ! i) = None" by (simp add: map_of_eq_None_iff)
    then show ?thesis using True unfolding off by simp
  qed
qed

end
