(* ===== verification/Compositor.thy ===== *)
theory Compositor
  imports Studio_Geometry
begin

section \<open>The compositor (crates/blip-compositor/src/lib.rs)\<close>

text \<open>
  What the compositor hands to the GPU: the textures it imports from CoreVideo buffers, the settings of
  each item's draw call in order, and every error on the way. CoreVideo, Metal and wgpu answer through
  a record of replies; the shaders are not modelled. \<open>None\<close> is the panic of \<open>clamp\<close> with crossed bounds.
\<close>

subsection \<open>Buffers, sources and items\<close>

datatype pixel_format_type = Bgra32 | Nv12VideoRange | Nv12FullRange | OtherFormat nat

record pixel_buffer =
  pb_id :: nat
  pb_format :: pixel_format_type
  pb_width :: nat
  pb_height :: nat
  pb_planes :: "(nat \<times> nat) list"

record compositor_source =
  cs_pixel_buffer :: pixel_buffer
  cs_content_rect :: "content_rect option"

type_synonym color = "real \<times> real \<times> real \<times> real"

datatype compositor_content =
  SourceContent nat | ColorContent color | GradientContent color color | CheckerboardContent color color

record compositor_item =
  ci_content :: compositor_content
  ci_transform :: item_transform

definition plain_shadow :: "pos \<Rightarrow> color \<Rightarrow> box_shadow" where
  "plain_shadow offset color =
     \<lparr>bs_offset = offset, bs_color = color, bs_blur_radius = 0, bs_spread_radius = 0\<rparr>"

definition with_blur_radius :: "real \<Rightarrow> box_shadow \<Rightarrow> box_shadow" where
  "with_blur_radius r s = s\<lparr>bs_blur_radius := r\<rparr>"

definition with_spread_radius :: "real \<Rightarrow> box_shadow \<Rightarrow> box_shadow" where
  "with_spread_radius r s = s\<lparr>bs_spread_radius := r\<rparr>"

definition with_squircle :: "bool \<Rightarrow> item_transform \<Rightarrow> item_transform" where
  "with_squircle squircle t = t\<lparr>it_squircle := squircle\<rparr>"

definition with_box_shadow :: "box_shadow \<Rightarrow> item_transform \<Rightarrow> item_transform" where
  "with_box_shadow s t = t\<lparr>it_box_shadow := Some s\<rparr>"

subsection \<open>What the frameworks answer\<close>

record gpu_replies =
  gr_pool :: "string option"
  gr_allocate :: "string + nat"
  gr_texture :: "nat \<Rightarrow> nat \<Rightarrow> string option"
  gr_poll :: "string option"

subsection \<open>Importing\<close>

definition import_plane :: "gpu_replies \<Rightarrow> nat \<Rightarrow> nat \<Rightarrow> nat \<Rightarrow> nat \<Rightarrow> string + unit" where
  "import_plane g buffer width height plane =
     (if u32_max < width then Inl ''frame width exceeds u32''
      else if u32_max < height then Inl ''frame height exceeds u32''
      else case gr_texture g buffer plane of Some e \<Rightarrow> Inl e | None \<Rightarrow> Inr ())"

record source_textures =
  st_chroma :: bool
  st_content_kind :: nat

definition plane_of :: "pixel_buffer \<Rightarrow> nat \<Rightarrow> nat \<times> nat" where
  "plane_of b i = unwrap_or (list_get (pb_planes b) i) (0, 0)"

definition import_source :: "gpu_replies \<Rightarrow> pixel_buffer \<Rightarrow> string + source_textures" where
  "import_source g b =
     (case pb_format b of
        Bgra32 \<Rightarrow>
          map_ok (\<lambda>_. \<lparr>st_chroma = False, st_content_kind = 0\<rparr>)
            (import_plane g (pb_id b) (pb_width b) (pb_height b) 0)
      | OtherFormat f \<Rightarrow> Inl ''unsupported source pixel format''
      | f \<Rightarrow>
          (if length (pb_planes b) \<noteq> 2 then Inl ''NV12 camera frame does not contain two planes''
           else and_then (import_plane g (pb_id b) (fst (plane_of b 0)) (snd (plane_of b 0)) 0) (\<lambda>_.
                and_then (import_plane g (pb_id b) (fst (plane_of b 1)) (snd (plane_of b 1)) 1) (\<lambda>_.
                  Inr \<lparr>st_chroma = True, st_content_kind =
                    (if pb_height b < 720 then (if f = Nv12FullRange then 5 else 4)
                     else if f = Nv12FullRange then 3 else 2)\<rparr>))))"

definition gpu_content_rect :: "content_rect option \<Rightarrow> nat \<Rightarrow> nat \<Rightarrow> (string + color) option" where
  "gpu_content_rect content_rect width height =
     (if u32_max < width then Some (Inl ''frame width exceeds u32'')
      else if u32_max < height then Some (Inl ''frame height exceeds u32'')
      else let w = real width; h = real height;
               rect = unwrap_or content_rect \<lparr>cr_x = 0, cr_y = 0, cr_width = w, cr_height = h\<rparr>;
               x = clamp (cr_x rect) 0 (max (w - 1) 0);
               y = clamp (cr_y rect) 0 (max (h - 1) 0)
           in (case (clamp_panic (cr_width rect) 1 (w - x), clamp_panic (cr_height rect) 1 (h - y)) of
                 (Some rect_width, Some rect_height) \<Rightarrow> Some (Inr (x, y, rect_width, rect_height))
               | _ \<Rightarrow> None))"

text \<open>The loop over the sources, with its early returns.\<close>

fun import_sources ::
    "gpu_replies \<Rightarrow> compositor_source list \<Rightarrow> (string + (source_textures \<times> color) list) option" where
  "import_sources g [] = Some (Inr [])"
| "import_sources g (s # ss) =
     (case import_source g (cs_pixel_buffer s) of
        Inl e \<Rightarrow> Some (Inl e)
      | Inr t \<Rightarrow>
          (case gpu_content_rect (cs_content_rect s) (pb_width (cs_pixel_buffer s)) (pb_height (cs_pixel_buffer s)) of
             None \<Rightarrow> None
           | Some (Inl e) \<Rightarrow> Some (Inl e)
           | Some (Inr r) \<Rightarrow> map_option (map_ok (\<lambda>ts. (t, r) # ts)) (import_sources g ss)))"

subsection \<open>Draw calls\<close>

text \<open>
  The settings of an item, and the texture it is drawn from: a source's index, or none for the dummy
  texture.
\<close>

record draw =
  dw_content_rect :: color
  dw_transform :: color
  dw_canvas :: color
  dw_color :: color
  dw_shadow :: color
  dw_shadow_color :: color
  dw_source :: "nat option"

definition transform_data :: "item_transform \<Rightarrow> color" where
  "transform_data t = (fst (it_center t), snd (it_center t), fst (it_size t), snd (it_size t))"

definition no_shadow :: box_shadow where "no_shadow = plain_shadow (0, 0) (0, 0, 0, 0)"

definition item_settings ::
    "(source_textures \<times> color) list \<Rightarrow> pos \<Rightarrow> compositor_item \<Rightarrow> (string + draw) option" where
  "item_settings sources canvas_size item =
     (let content = (case ci_content item of
            SourceContent i \<Rightarrow>
              (case list_get sources i of
                 None \<Rightarrow> Inl ''compositor item source index is out of bounds''
               | Some (t, r) \<Rightarrow> Inr (r, (0, 0, 0, 0), real (st_content_kind t), Some i))
          | ColorContent c \<Rightarrow> Inr ((0, 0, 1, 1), c, 1, None)
          | GradientContent start end_color \<Rightarrow> Inr (end_color, start, 6, None)
          | CheckerboardContent first second \<Rightarrow> Inr (second, first, 7, None))
      in case content of
           Inl e \<Rightarrow> Some (Inl e)
         | Inr (rect, color, kind, source) \<Rightarrow>
             map_option (\<lambda>radius.
               let t = ci_transform item;
                   shadow = unwrap_or (it_box_shadow t) no_shadow
               in Inr \<lparr>dw_content_rect = rect, dw_transform = transform_data t,
                    dw_canvas = (fst canvas_size, snd canvas_size,
                      radius * (if it_squircle t then - 1 else 1), kind),
                    dw_color = color,
                    dw_shadow = (fst (bs_offset shadow), snd (bs_offset shadow), max (bs_blur_radius shadow) 0,
                      bs_spread_radius shadow),
                    dw_shadow_color = bs_color shadow, dw_source = source\<rparr>)
               (clamped_corner_radius (ci_transform item) canvas_size))"

fun items_settings ::
    "(source_textures \<times> color) list \<Rightarrow> pos \<Rightarrow> compositor_item list \<Rightarrow> (string + draw list) option" where
  "items_settings sources canvas_size [] = Some (Inr [])"
| "items_settings sources canvas_size (i # is) =
     (case item_settings sources canvas_size i of
        None \<Rightarrow> None
      | Some (Inl e) \<Rightarrow> Some (Inl e)
      | Some (Inr d) \<Rightarrow> map_option (map_ok (\<lambda>ds. d # ds)) (items_settings sources canvas_size is))"

subsection \<open>Rendering\<close>

text \<open>The compositor keeps the pool of output buffers of the size rendered last.\<close>

type_synonym output_pool = "(nat \<times> nat) option"

definition output_pixel_buffer :: "gpu_replies \<Rightarrow> nat \<times> nat \<Rightarrow> output_pool \<Rightarrow> output_pool \<times> (string + nat)" where
  "output_pixel_buffer g dims pool =
     (if pool = Some dims then (pool, gr_allocate g)
      else case gr_pool g of
             Some e \<Rightarrow> (pool, Inl e)
           | None \<Rightarrow> (Some dims, gr_allocate g))"

datatype clear_color = ClearBlack | ClearTransparent

text \<open>A rendered frame: the buffer drawn into, what it was cleared to, and the draw calls in order.\<close>

record rendering =
  rn_buffer :: nat
  rn_clear :: clear_color
  rn_draws :: "draw list"

definition render_with_clear_color ::
    "gpu_replies \<Rightarrow> clear_color \<Rightarrow> compositor_source list \<Rightarrow> compositor_item list \<Rightarrow> nat \<times> nat \<Rightarrow> output_pool
     \<Rightarrow> output_pool \<times> (string + rendering) option" where
  "render_with_clear_color g clear sources items dims pool =
     (case output_pixel_buffer g dims pool of
        (pool', Inl e) \<Rightarrow> (pool', Some (Inl e))
      | (pool', Inr buffer) \<Rightarrow>
          (pool',
           case import_plane g buffer (fst dims) (snd dims) 0 of
             Inl e \<Rightarrow> Some (Inl e)
           | Inr _ \<Rightarrow>
               (case import_sources g sources of
                  None \<Rightarrow> None
                | Some (Inl e) \<Rightarrow> Some (Inl e)
                | Some (Inr textures) \<Rightarrow>
                    (case items_settings textures (real (fst dims), real (snd dims)) items of
                       None \<Rightarrow> None
                     | Some (Inl e) \<Rightarrow> Some (Inl e)
                     | Some (Inr draws) \<Rightarrow>
                         (case gr_poll g of
                            Some e \<Rightarrow> Some (Inl e)
                          | None \<Rightarrow> Some (Inr \<lparr>rn_buffer = buffer, rn_clear = clear, rn_draws = draws\<rparr>))))))"

definition render_items where
  "render_items g sources items dims pool =
     render_with_clear_color g ClearBlack sources items dims pool"

definition render_transparent where
  "render_transparent g sources items dims pool =
     render_with_clear_color g ClearTransparent sources items dims pool"

subsection \<open>The output transform\<close>

definition transformed_output_item :: "pos \<Rightarrow> real \<Rightarrow> item_transform" where
  "transformed_output_item center scale =
     plain_transform (fst center + scale * (1/2 - fst center), snd center + scale * (1/2 - snd center)) (scale, scale)"

definition output_scale :: "fl \<Rightarrow> real" where
  "output_scale scale = (if is_finite scale then max (fl_val scale) 1 else 1)"

definition output_focus :: "fl \<Rightarrow> real" where
  "output_focus v = (if is_finite v then clamp (fl_val v) 0 1 else 1/2)"

text \<open>The combined buffer is a BGRA buffer of the output's size.\<close>

definition combined_source :: "nat \<Rightarrow> nat \<times> nat \<Rightarrow> compositor_source" where
  "combined_source buffer dims =
     \<lparr>cs_pixel_buffer = \<lparr>pb_id = buffer, pb_format = Bgra32, pb_width = fst dims,
        pb_height = snd dims, pb_planes = []\<rparr>, cs_content_rect = None\<rparr>"

definition render_with_output_transform ::
    "gpu_replies \<Rightarrow> gpu_replies \<Rightarrow> compositor_source list \<Rightarrow> compositor_item list \<Rightarrow> nat \<times> nat
     \<Rightarrow> fl \<times> fl \<Rightarrow> fl \<Rightarrow> output_pool \<Rightarrow> output_pool \<times> (string + rendering) option" where
  "render_with_output_transform g1 g2 sources items dims center scale pool =
     (case render_items g1 sources items dims pool of
        (pool', None) \<Rightarrow> (pool', None)
      | (pool', Some (Inl e)) \<Rightarrow> (pool', Some (Inl e))
      | (pool', Some (Inr combined)) \<Rightarrow>
          (let s = output_scale scale; focus = (output_focus (fst center), output_focus (snd center))
           in if s = 1 then (pool', Some (Inr combined))
              else render_items g2 [combined_source (rn_buffer combined) dims]
                     [\<lparr>ci_content = SourceContent 0, ci_transform = transformed_output_item focus s\<rparr>]
                     dims pool'))"

subsection \<open>What is drawn\<close>

definition rect_inside :: "color \<Rightarrow> nat \<Rightarrow> nat \<Rightarrow> bool" where
  "rect_inside r width height \<longleftrightarrow>
     (case r of (x, y, w, h) \<Rightarrow>
        0 \<le> x \<and> 0 \<le> y \<and> 1 \<le> w \<and> 1 \<le> h \<and> x + w \<le> real width \<and> y + h \<le> real height)"

lemma gpu_content_rect_inside:
  assumes "0 < width" and "0 < height"
  shows "gpu_content_rect r width height \<noteq> None"
    and "gpu_content_rect r width height = Some (Inr c) \<Longrightarrow> rect_inside c width height"
proof -
  define rr where "rr = unwrap_or r \<lparr>cr_x = 0, cr_y = 0, cr_width = real width, cr_height = real height\<rparr>"
  have m: "max (real width - 1) 0 = real width - 1" "max (real height - 1) 0 = real height - 1"
    using assms by simp_all
  have x: "0 \<le> clamp (cr_x rr) 0 (real width - 1)" "clamp (cr_x rr) 0 (real width - 1) \<le> real width - 1"
    and y: "0 \<le> clamp (cr_y rr) 0 (real height - 1)" "clamp (cr_y rr) 0 (real height - 1) \<le> real height - 1"
    using clamp_bounds [of 0 "real width - 1" "cr_x rr"] clamp_bounds [of 0 "real height - 1" "cr_y rr"] assms by auto
  have cl: "1 \<le> clamp v 1 m \<and> clamp v 1 m \<le> m" if "1 \<le> m" for v m :: real using clamp_bounds [OF that] .
  show "gpu_content_rect r width height \<noteq> None"
    using x y by (simp add: gpu_content_rect_def clamp_panic_eq Let_def m flip: rr_def)
  show "rect_inside c width height" if "gpu_content_rect r width height = Some (Inr c)"
    using that x y cl [of "real width - clamp (cr_x rr) 0 (real width - 1)"]
      cl [of "real height - clamp (cr_y rr) 0 (real height - 1)"]
    by (auto simp: gpu_content_rect_def clamp_panic_eq Let_def m rect_inside_def algebra_simps simp flip: rr_def
        split: if_splits)
qed

definition source_ok :: "compositor_source \<Rightarrow> bool" where
  "source_ok s \<longleftrightarrow> 0 < pb_width (cs_pixel_buffer s) \<and> 0 < pb_height (cs_pixel_buffer s)"

lemma import_sources_correct:
  assumes "\<forall>s \<in> set sources. source_ok s"
  shows "import_sources g sources \<noteq> None"
    and "import_sources g sources = Some (Inr ts) \<Longrightarrow> length ts = length sources \<and>
      (\<forall>i < length sources. rect_inside (snd (ts ! i)) (pb_width (cs_pixel_buffer (sources ! i)))
         (pb_height (cs_pixel_buffer (sources ! i))))"
proof -
  show "import_sources g sources \<noteq> None"
    using assms
  proof (induction sources)
    case (Cons s ss)
    then have "gpu_content_rect (cs_content_rect s) (pb_width (cs_pixel_buffer s)) (pb_height (cs_pixel_buffer s)) \<noteq> None"
      using gpu_content_rect_inside(1) by (simp add: source_ok_def)
    with Cons show ?case by (auto split: sum.splits option.splits)
  qed simp
  show "length ts = length sources \<and> (\<forall>i < length sources. rect_inside (snd (ts ! i))
      (pb_width (cs_pixel_buffer (sources ! i))) (pb_height (cs_pixel_buffer (sources ! i))))"
    if "import_sources g sources = Some (Inr ts)"
    using assms that
  proof (induction sources arbitrary: ts)
    case Nil
    then show ?case by simp
  next
    case (Cons s ss)
    then obtain t r us where "import_source g (cs_pixel_buffer s) = Inr t"
      and r: "gpu_content_rect (cs_content_rect s) (pb_width (cs_pixel_buffer s)) (pb_height (cs_pixel_buffer s))
        = Some (Inr r)"
      and us: "import_sources g ss = Some (Inr us)" and ts: "ts = (t, r) # us"
      by (auto split: sum.splits option.splits)
    have "rect_inside r (pb_width (cs_pixel_buffer s)) (pb_height (cs_pixel_buffer s))"
      using gpu_content_rect_inside(2) [OF _ _ r] Cons.prems(1) by (simp add: source_ok_def)
    with Cons.IH [OF _ us] Cons.prems(1) show ?case
      by (auto simp: ts nth_Cons split: nat.split)
  qed
qed

definition item_ok :: "compositor_item \<Rightarrow> bool" where
  "item_ok i \<longleftrightarrow> 0 \<le> fst (it_size (ci_transform i)) \<and> 0 \<le> snd (it_size (ci_transform i))"

text \<open>What a draw call must be for an item, over sources with the given rectangles.\<close>

definition draws_item :: "color list \<Rightarrow> pos \<Rightarrow> compositor_item \<Rightarrow> draw \<Rightarrow> bool" where
  "draws_item rects canvas item d \<longleftrightarrow>
     (let t = ci_transform item; (w, h, radius, kind) = dw_canvas d
      in dw_transform d = transform_data t \<and> (w, h) = canvas
         \<and> \<bar>radius\<bar> \<le> min (fst canvas * fst (it_size t)) (snd canvas * snd (it_size t)) / 2
         \<and> (radius \<noteq> 0 \<longrightarrow> (radius < 0 \<longleftrightarrow> it_squircle t))
         \<and> (case ci_content item of
              SourceContent k \<Rightarrow> k < length rects \<and> dw_source d = Some k \<and> dw_content_rect d = rects ! k
            | ColorContent c \<Rightarrow> dw_source d = None \<and> dw_color d = c \<and> kind = 1
            | GradientContent a b \<Rightarrow> dw_source d = None \<and> dw_color d = a \<and> dw_content_rect d = b \<and> kind = 6
            | CheckerboardContent a b \<Rightarrow> dw_source d = None \<and> dw_color d = a \<and> dw_content_rect d = b \<and> kind = 7))"

lemma clamped_radius_bounds:
  assumes "0 \<le> fst canvas" "0 \<le> snd canvas" "0 \<le> fst (it_size t)" "0 \<le> snd (it_size t)"
  shows "\<exists>r. clamped_corner_radius t canvas = Some r \<and> 0 \<le> r
    \<and> r \<le> min (fst canvas * fst (it_size t)) (snd canvas * snd (it_size t)) / 2"
proof -
  let ?m = "min (fst canvas * fst (it_size t)) (snd canvas * snd (it_size t)) * (1/2)"
  have "0 \<le> ?m" using assms by simp
  with clamp_bounds [of 0 ?m "it_corner_radius t"] show ?thesis
    by (simp add: clamped_corner_radius_def clamp_panic_eq Let_def)
qed

lemma item_settings_correct:
  assumes "0 \<le> fst canvas" "0 \<le> snd canvas" "item_ok item"
  shows "item_settings ts canvas item \<noteq> None"
    and "item_settings ts canvas item = Some (Inr d) \<Longrightarrow> draws_item (List.map snd ts) canvas item d"
proof -
  obtain r where r: "clamped_corner_radius (ci_transform item) canvas = Some r" "0 \<le> r"
    "r \<le> min (fst canvas * fst (it_size (ci_transform item))) (snd canvas * snd (it_size (ci_transform item))) / 2"
    using clamped_radius_bounds [OF assms(1,2)] assms(3) by (auto simp: item_ok_def)
  show "item_settings ts canvas item \<noteq> None"
    using r(1) by (simp add: item_settings_def Let_def split: sum.split prod.split)
  show "draws_item (List.map snd ts) canvas item d" if "item_settings ts canvas item = Some (Inr d)"
    using that r
    by (cases "ci_content item")
      (auto simp: item_settings_def draws_item_def Let_def list_get_eq split: option.splits if_splits prod.splits)
qed

lemma items_settings_correct:
  assumes "0 \<le> fst canvas" "0 \<le> snd canvas" "\<forall>i \<in> set items. item_ok i"
  shows "items_settings ts canvas items \<noteq> None"
    and "items_settings ts canvas items = Some (Inr ds) \<Longrightarrow> list_all2 (draws_item (List.map snd ts) canvas) items ds"
proof -
  show "items_settings ts canvas items \<noteq> None"
    using assms(3) item_settings_correct(1) [OF assms(1,2)]
    by (induction items) (auto split: sum.splits option.splits)
  show "list_all2 (draws_item (List.map snd ts) canvas) items ds" if "items_settings ts canvas items = Some (Inr ds)"
    using assms(3) that item_settings_correct(2) [OF assms(1,2)]
    by (induction items arbitrary: ds) (auto split: sum.splits option.splits)
qed

text \<open>
  C29: rendering buffers and items with sizes that are not negative never panics; when it succeeds there is
  one draw call for every item, in order, with a corner radius of at most half the item's shorter side,
  and every item that shows a source names one that was given, cut to a rectangle of at least a pixel
  inside its buffer.
\<close>

theorem render_draws_items:
  assumes "render_with_clear_color g clear sources items dims pool = (pool', result)"
    and "\<forall>s \<in> set sources. source_ok s" and "\<forall>i \<in> set items. item_ok i"
  shows "case result of
      None \<Rightarrow> False
    | Some (Inl e) \<Rightarrow> True
    | Some (Inr r) \<Rightarrow> \<exists>rects. length rects = length sources \<and> pool' = Some dims \<and> rn_clear r = clear
        \<and> (\<forall>i < length sources. rect_inside (rects ! i) (pb_width (cs_pixel_buffer (sources ! i)))
             (pb_height (cs_pixel_buffer (sources ! i))))
        \<and> list_all2 (draws_item rects (real (fst dims), real (snd dims))) items (rn_draws r)"
proof -
  let ?c = "(real (fst dims), real (snd dims))"
  have i: "items_settings ts ?c items \<noteq> None" for ts using items_settings_correct(1) [OF _ _ assms(3)] by simp
  have s: "import_sources g sources \<noteq> None" using import_sources_correct(1) [OF assms(2)] .
  show ?thesis
  proof (cases result)
    case None
    then have False
      using assms(1) s by (auto simp: render_with_clear_color_def i split: prod.splits sum.splits option.splits)
    then show ?thesis ..
  next
    case (Some x)
    show ?thesis
    proof (cases x)
      case (Inr r)
      from assms(1) Some Inr obtain ts ds where ts: "import_sources g sources = Some (Inr ts)"
        and ds: "items_settings ts ?c items = Some (Inr ds)" and r: "rn_clear r = clear" "rn_draws r = ds"
        and p: "pool' = Some dims"
        by (auto simp: render_with_clear_color_def output_pixel_buffer_def
            split: prod.splits sum.splits option.splits if_splits)
      have "list_all2 (draws_item (List.map snd ts) ?c) items ds"
        using items_settings_correct(2) [OF _ _ assms(3) ds] by simp
      with import_sources_correct(2) [OF assms(2) ts] Some Inr r p show ?thesis
        by (auto intro!: exI [of _ "List.map snd ts"])
    qed (simp add: Some)
  qed
qed

definition willing_gpu :: gpu_replies where
  "willing_gpu = \<lparr>gr_pool = None, gr_allocate = Inr 7, gr_texture = (\<lambda>b p. None), gr_poll = None\<rparr>"

definition sample_source :: compositor_source where
  "sample_source = \<lparr>cs_pixel_buffer = \<lparr>pb_id = 1, pb_format = Bgra32, pb_width = 640, pb_height = 480, pb_planes = []\<rparr>,
     cs_content_rect = Some \<lparr>cr_x = 0, cr_y = 0, cr_width = 9999, cr_height = 480\<rparr>\<rparr>"

definition sample_item :: compositor_item where
  "sample_item = \<lparr>ci_content = SourceContent 0, ci_transform = plain_transform (1/2, 1/2) (1/2, 1/2)\<rparr>"

lemma render_draws_items_witness:
  "\<exists>r. render_with_clear_color willing_gpu ClearBlack [sample_source] [sample_item] (1920, 1080) None
     = (Some (1920, 1080), Some (Inr r)) \<and> length (rn_draws r) = 1"
proof -
  obtain p x where e: "render_with_clear_color willing_gpu ClearBlack [sample_source] [sample_item] (1920, 1080) None = (p, x)"
    by (metis surj_pair)
  have ok: "\<forall>s \<in> set [sample_source]. source_ok s" "\<forall>i \<in> set [sample_item]. item_ok i"
    by (simp_all add: source_ok_def sample_source_def item_ok_def sample_item_def plain_transform_def)
  have "\<exists>r. x = Some (Inr r)"
    using e
    by (auto simp: render_with_clear_color_def output_pixel_buffer_def willing_gpu_def import_plane_def u32_max_def
      import_source_def sample_source_def gpu_content_rect_def clamp_panic_def clamp_def item_settings_def sample_item_def
      plain_transform_def clamped_corner_radius_def Let_def)
  then show ?thesis using render_draws_items [OF e ok] e by (fastforce dest: list_all2_lengthD)
qed

subsection \<open>The output transform keeps its focus and fills the output\<close>

text \<open>Where a point of the combined picture is drawn.\<close>

definition drawn_at :: "item_transform \<Rightarrow> pos \<Rightarrow> pos" where
  "drawn_at t p = (fst (it_center t) + (fst p - 1/2) * fst (it_size t), snd (it_center t) + (snd p - 1/2) * snd (it_size t))"

lemma output_focus_kept: "drawn_at (transformed_output_item focus scale) focus = focus"
  by (cases focus) (simp add: drawn_at_def transformed_output_item_def plain_transform_def algebra_simps)

lemma output_fills:
  assumes "1 \<le> scale" "0 \<le> fst focus" "fst focus \<le> 1" "0 \<le> snd focus" "snd focus \<le> 1"
  shows "fst (drawn_at (transformed_output_item focus scale) (0, 0)) \<le> 0"
    "snd (drawn_at (transformed_output_item focus scale) (0, 0)) \<le> 0"
    "1 \<le> fst (drawn_at (transformed_output_item focus scale) (1, 1))"
    "1 \<le> snd (drawn_at (transformed_output_item focus scale) (1, 1))"
proof -
  have a: "x \<le> scale * x" if "0 \<le> x" for x :: real using assms(1) that by (simp add: mult_right_mono [of 1 scale x, simplified])
  show "fst (drawn_at (transformed_output_item focus scale) (0, 0)) \<le> 0"
    "snd (drawn_at (transformed_output_item focus scale) (0, 0)) \<le> 0"
    using a [of "fst focus"] a [of "snd focus"] assms by (simp_all add: drawn_at_def transformed_output_item_def plain_transform_def algebra_simps)
  show "1 \<le> fst (drawn_at (transformed_output_item focus scale) (1, 1))"
    "1 \<le> snd (drawn_at (transformed_output_item focus scale) (1, 1))"
    using a [of "1 - fst focus"] a [of "1 - snd focus"] assms
    by (simp_all add: drawn_at_def transformed_output_item_def plain_transform_def algebra_simps)
qed

end
