(* ===== verification/Studio_Compose.thy ===== *)
theory Studio_Compose
  imports Compositor
begin

section \<open>Composing a scene (compose_scene in apps/blip-studio/src/viewer.rs)\<close>

text \<open>
  From the scene, the latest frame of each source and the colours to the sources and items of the
  compositor, and the transforms the preview uses for hit testing.
\<close>

subsection \<open>Frames\<close>

text \<open>A captured frame: its buffer and, for a screen frame, the content rectangle of its geometry.\<close>

datatype captured_frame =
  ScreenFrame pixel_buffer "content_rect option"
| CameraFrame pixel_buffer

record source_frame =
  sf_pixel_buffer :: pixel_buffer
  sf_content_rect :: "content_rect option"
  sf_dimensions :: pos

definition frame_dimensions :: "nat \<Rightarrow> nat \<Rightarrow> string + pos" where
  "frame_dimensions width height =
     (if u32_max < width then Inl ''frame width exceeds u32''
      else if u32_max < height then Inl ''frame height exceeds u32''
      else Inr (real width, real height))"

fun source_frame_of :: "captured_frame \<Rightarrow> string + source_frame" where
  "source_frame_of (ScreenFrame b geometry) =
     map_ok (\<lambda>d. \<lparr>sf_pixel_buffer = b, sf_content_rect = geometry, sf_dimensions = d\<rparr>)
       (case geometry of
          Some rect \<Rightarrow> Inr (cr_width rect, cr_height rect)
        | None \<Rightarrow> frame_dimensions (pb_width b) (pb_height b))"
| "source_frame_of (CameraFrame b) =
     map_ok (\<lambda>d. \<lparr>sf_pixel_buffer = b, sf_content_rect = None, sf_dimensions = d\<rparr>)
       (frame_dimensions (pb_width b) (pb_height b))"

subsection \<open>The scene's sources and items\<close>

definition DEFAULT_CANVAS_DIMENSIONS :: "nat \<times> nat" where "DEFAULT_CANVAS_DIMENSIONS = (1920, 1080)"

text \<open>The sources with a frame, each once, in the order of the elements; the indices are positions in it.\<close>

definition add_source_id ::
    "(source_id \<Rightarrow> source_frame option) \<Rightarrow> real scene_element \<Rightarrow> source_id list \<Rightarrow> source_id list" where
  "add_source_id frs e ids =
     (if frs (se_source e) \<noteq> None \<and> se_source e \<notin> set ids then ids @ [se_source e] else ids)"

definition source_ids_of ::
    "(source_id \<Rightarrow> source_frame option) \<Rightarrow> real scene_element list \<Rightarrow> source_id list" where
  "source_ids_of frs elements = fold (add_source_id frs) elements []"

definition scene_sources ::
    "(source_id \<Rightarrow> source_frame option) \<Rightarrow> source_id list \<Rightarrow> compositor_source list" where
  "scene_sources frs ids =
     List.map_filter (\<lambda>s. map_option (\<lambda>f. \<lparr>cs_pixel_buffer = sf_pixel_buffer f, cs_content_rect = sf_content_rect f\<rparr>)
       (frs s)) ids"

record rendered_element =
  re_id :: nat
  re_transform :: item_transform

text \<open>
  The content of an element with its dimensions: \<open>Inr None\<close> skips an element without a colour or a frame.
\<close>

definition element_content ::
    "(source_id \<Rightarrow> source_frame option) \<Rightarrow> (source_id \<Rightarrow> rgb option) \<Rightarrow> source_id list \<Rightarrow> nat \<times> nat
     \<Rightarrow> source_id \<Rightarrow> string + (compositor_content \<times> pos) option" where
  "element_content frs colors ids canvas source =
     (case source of
        ColorSource i \<Rightarrow>
          (case colors source of
             None \<Rightarrow> Inr None
           | Some c \<Rightarrow>
               if u32_max < fst canvas then Inl ''canvas width exceeds u32''
               else if u32_max < snd canvas then Inl ''canvas height exceeds u32''
               else Inr (Some (ColorContent (normalized_color c), (real (fst canvas), real (snd canvas)))))
      | _ \<Rightarrow>
          (case (position (\<lambda>s. s = source) ids, frs source) of
             (Some i, Some f) \<Rightarrow> Inr (Some (SourceContent i, sf_dimensions f))
           | _ \<Rightarrow> Inr None))"

fun compose_items ::
    "(source_id \<Rightarrow> source_frame option) \<Rightarrow> (source_id \<Rightarrow> rgb option) \<Rightarrow> source_id list \<Rightarrow> nat \<times> nat
     \<Rightarrow> real scene_element list \<Rightarrow> string + (compositor_item \<times> rendered_element) list" where
  "compose_items frs colors ids canvas [] = Inr []"
| "compose_items frs colors ids canvas (e # es) =
     and_then (element_content frs colors ids canvas (se_source e)) (\<lambda>c.
       case c of
         None \<Rightarrow> compose_items frs colors ids canvas es
       | Some (content, source_dims) \<Rightarrow>
           and_then (element_transform (se_layout e) source_dims canvas) (\<lambda>t.
             let corner_scale = real (fst canvas) / real (fst canvas)
             in map_ok (\<lambda>rest.
                  (\<lparr>ci_content = content, ci_transform = with_corner_radius (it_corner_radius t * corner_scale) t\<rparr>,
                   \<lparr>re_id = se_id e, re_transform = t\<rparr>) # rest)
                  (compose_items frs colors ids canvas es)))"

text \<open>\<open>rendered\<close> stands for the compositor with what it answers for the sources and items it is given.\<close>

record render_request =
  rq_elements :: "real scene_element list"
  rq_frames :: "source_id \<Rightarrow> source_frame option"
  rq_colors :: "source_id \<Rightarrow> rgb option"
  rq_locked_dimensions :: "(nat \<times> nat) option"

record composed_frame =
  cf_image :: nat
  cf_dimensions :: "nat \<times> nat"
  cf_elements :: "rendered_element list"

definition request_canvas :: "render_request \<Rightarrow> nat \<times> nat" where
  "request_canvas r = unwrap_or (rq_locked_dimensions r) DEFAULT_CANVAS_DIMENSIONS"

definition compose_scene ::
    "(compositor_source list \<Rightarrow> compositor_item list \<Rightarrow> nat \<times> nat \<Rightarrow> string + nat) \<Rightarrow> render_request
     \<Rightarrow> string + composed_frame" where
  "compose_scene rendered r =
     (let canvas = request_canvas r; ids = source_ids_of (rq_frames r) (rq_elements r);
          given = scene_sources (rq_frames r) ids
      in and_then (compose_items (rq_frames r) (rq_colors r) ids canvas (rq_elements r)) (\<lambda>items.
           map_ok (\<lambda>image. \<lparr>cf_image = image, cf_dimensions = canvas, cf_elements = List.map snd items\<rparr>)
             (rendered given (List.map fst items) canvas)))"

subsection \<open>Fitting a source into its box\<close>

definition fits_box :: "pos \<Rightarrow> pos \<Rightarrow> pos \<Rightarrow> pos \<Rightarrow> bool" where
  "fits_box box source canvas s \<longleftrightarrow>
     0 < fst s \<and> fst s \<le> fst box \<and> 0 < snd s \<and> snd s \<le> snd box \<and> (fst s = fst box \<or> snd s = snd box)
     \<and> (fst s * fst canvas) * snd source = (snd s * snd canvas) * fst source"

definition positive :: "pos \<Rightarrow> bool" where "positive p \<longleftrightarrow> 0 < fst p \<and> 0 < snd p"

lemma studio_fit_size_fits:
  assumes "positive box" "positive source" "positive canvas"
  shows "fits_box box source canvas (studio_fit_size box source canvas)"
proof -
  obtain bw bh sw sh cw ch where p: "box = (bw, bh)" "source = (sw, sh)" "canvas = (cw, ch)"
    by (metis surj_pair)
  have pos: "0 < bw" "0 < bh" "0 < sw" "0 < sh" "0 < cw" "0 < ch" using assms by (simp_all add: p positive_def)
  have key: "bw * (cw / ch) / bh < sw / sh \<longleftrightarrow> bw * cw * sh < sw * (ch * bh)"
    using pos by (simp add: divide_less_eq less_divide_eq mult.commute mult.left_commute)
  show ?thesis
  proof (cases "bw * (cw / ch) / bh < sw / sh")
    case True
    have "bw * (cw / ch) / (sw / sh) \<le> bh"
      using True key pos by (simp add: divide_le_eq mult.commute mult.left_commute)
    moreover have "0 < bw * (cw / ch) / (sw / sh)" using pos by simp
    ultimately show ?thesis
      using True pos by (simp add: p studio_fit_size_def fits_box_def Let_def)
  next
    case False
    have "bh * (sw / sh) / (cw / ch) = (sw * (ch * bh)) / (sh * cw)" using pos by (simp add: field_simps)
    moreover have "sw * (ch * bh) \<le> bw * cw * sh" using False key by linarith
    ultimately have "bh * (sw / sh) / (cw / ch) \<le> bw"
      using pos by (simp add: divide_le_eq ac_simps)
    moreover have "0 < bh * (sw / sh) / (cw / ch)" using pos by simp
    ultimately show ?thesis
      using False pos by (simp add: p studio_fit_size_def fits_box_def Let_def)
  qed
qed

subsection \<open>The sources used\<close>

lemma source_ids_fold:
  "distinct ids \<Longrightarrow>
   (let r = fold (add_source_id frs) es ids
    in distinct r \<and> set r = set ids \<union> {s \<in> se_source ` set es. frs s \<noteq> None})"
  by (induction es arbitrary: ids) (auto simp: add_source_id_def Let_def)

lemma source_ids_of:
  "distinct (source_ids_of frs es)" "set (source_ids_of frs es) = {s \<in> se_source ` set es. frs s \<noteq> None}"
  using source_ids_fold [of "[]" frs es] by (simp_all add: source_ids_of_def Let_def)

definition as_source :: "source_frame \<Rightarrow> compositor_source" where
  "as_source f = \<lparr>cs_pixel_buffer = sf_pixel_buffer f, cs_content_rect = sf_content_rect f\<rparr>"

lemma scene_sources_map:
  "\<forall>s \<in> set ids. frs s \<noteq> None \<Longrightarrow> scene_sources frs ids = List.map (\<lambda>s. as_source (the (frs s))) ids"
  by (induction ids) (auto simp: scene_sources_def as_source_def List.map_filter_simps)

subsection \<open>What is composed\<close>

definition visible :: "(source_id \<Rightarrow> source_frame option) \<Rightarrow> (source_id \<Rightarrow> rgb option) \<Rightarrow> real scene_element \<Rightarrow> bool" where
  "visible frs colors e = (if color_id (se_source e) \<noteq> None then colors (se_source e) \<noteq> None else frs (se_source e) \<noteq> None)"

text \<open>What the item and the transform of an element are, given the compositor's sources.\<close>

definition shows_element ::
    "render_request \<Rightarrow> compositor_source list \<Rightarrow> real scene_element \<Rightarrow> compositor_item \<times> rendered_element \<Rightarrow> bool" where
  "shows_element r given e ir =
     (case ir of (item, rendered) \<Rightarrow>
        re_id rendered = se_id e \<and> it_center (re_transform rendered) = il_center (se_layout e)
        \<and> it_size (ci_transform item) = it_size (re_transform rendered)
        \<and> it_center (ci_transform item) = it_center (re_transform rendered)
        \<and> (let fit = (\<lambda>d. studio_fit_size (il_size (se_layout e)) d
               (real (fst (request_canvas r)), real (snd (request_canvas r))))
            in case color_id (se_source e) of
                 Some _ \<Rightarrow> \<exists>c. rq_colors r (se_source e) = Some c \<and> ci_content item = ColorContent (normalized_color c)
                   \<and> it_size (re_transform rendered) = fit (real (fst (request_canvas r)), real (snd (request_canvas r)))
               | None \<Rightarrow> \<exists>f k. rq_frames r (se_source e) = Some f \<and> ci_content item = SourceContent k
                   \<and> k < length given \<and> given ! k = as_source f
                   \<and> it_size (re_transform rendered) = fit (sf_dimensions f)))"

lemma element_transform_Inr:
  "element_transform l d canvas = Inr t \<Longrightarrow>
   it_center t = il_center l \<and> it_size t = studio_fit_size (il_size l) d (real (fst canvas), real (snd canvas))"
  by (auto simp: element_transform_def try_from_def with_corner_radius_def plain_transform_def Let_def split: if_splits)

lemma element_content_Inr:
  assumes "element_content frs colors ids canvas source = Inr c"
    and "set ids \<subseteq> {s. frs s \<noteq> None}" and "frs source \<noteq> None \<Longrightarrow> source \<in> set ids"
  shows "case c of
      None \<Rightarrow> (if color_id source \<noteq> None then colors source = None else frs source = None)
    | Some (content, d) \<Rightarrow>
        (case color_id source of
           Some _ \<Rightarrow> \<exists>v. colors source = Some v \<and> content = ColorContent (normalized_color v)
             \<and> d = (real (fst canvas), real (snd canvas))
         | None \<Rightarrow> \<exists>f k. frs source = Some f \<and> content = SourceContent k \<and> k < length ids \<and> ids ! k = source
             \<and> d = sf_dimensions f)"
proof (cases source)
  case (ColorSource i)
  then show ?thesis
    using assms(1) by (auto simp: element_content_def color_id_def split: option.splits if_splits)
next
  case (DisplaySource i)
  then show ?thesis
    using assms by (cases "frs source")
      (auto simp: element_content_def color_id_def position_Some_iff position_None_iff split: option.splits)
next
  case (WindowSource i)
  then show ?thesis
    using assms by (cases "frs source")
      (auto simp: element_content_def color_id_def position_Some_iff position_None_iff split: option.splits)
next
  case (CameraSource i)
  then show ?thesis
    using assms by (cases "frs source")
      (auto simp: element_content_def color_id_def position_Some_iff position_None_iff split: option.splits)
qed

lemma compose_items_correct:
  assumes "compose_items (rq_frames r) (rq_colors r) ids (request_canvas r) es = Inr items"
    and "\<forall>s \<in> set ids. rq_frames r s \<noteq> None" and "\<forall>e \<in> set es. rq_frames r (se_source e) \<noteq> None \<longrightarrow> se_source e \<in> set ids"
    and "given = List.map (\<lambda>s. as_source (the (rq_frames r s))) ids"
  shows "list_all2 (shows_element r given) (filter (visible (rq_frames r) (rq_colors r)) es) items"
  using assms(1,3)
proof (induction es arbitrary: items)
  case Nil
  then show ?case by simp
next
  case (Cons e es)
  from Cons.prems(1) obtain c where
    c: "element_content (rq_frames r) (rq_colors r) ids (request_canvas r) (se_source e) = Inr c"
    by auto
  have spec: "case c of
      None \<Rightarrow> (if color_id (se_source e) \<noteq> None then rq_colors r (se_source e) = None else rq_frames r (se_source e) = None)
    | Some (content, d) \<Rightarrow>
        (case color_id (se_source e) of
           Some _ \<Rightarrow> \<exists>v. rq_colors r (se_source e) = Some v \<and> content = ColorContent (normalized_color v)
             \<and> d = (real (fst (request_canvas r)), real (snd (request_canvas r)))
         | None \<Rightarrow> \<exists>f k. rq_frames r (se_source e) = Some f \<and> content = SourceContent k \<and> k < length ids
             \<and> ids ! k = se_source e \<and> d = sf_dimensions f)"
    by (rule element_content_Inr [OF c]) (use assms(2) Cons.prems(2) in auto)
  show ?case
  proof (cases c)
    case None
    then have "\<not> visible (rq_frames r) (rq_colors r) e" using spec by (auto simp: visible_def split: if_splits)
    moreover have "compose_items (rq_frames r) (rq_colors r) ids (request_canvas r) es = Inr items"
      using Cons.prems(1) c None by simp
    ultimately show ?thesis using Cons.IH Cons.prems(2) by simp
  next
    case (Some cd)
    then obtain content d where cd: "c = Some (content, d)" by (cases cd) simp
    with Cons.prems(1) c obtain t rest where t: "element_transform (se_layout e) d (request_canvas r) = Inr t"
      and rest: "compose_items (rq_frames r) (rq_colors r) ids (request_canvas r) es = Inr rest"
      and items: "items = (\<lparr>ci_content = content, ci_transform = with_corner_radius (it_corner_radius t *
          (real (fst (request_canvas r)) / real (fst (request_canvas r)))) t\<rparr>,
          \<lparr>re_id = se_id e, re_transform = t\<rparr>) # rest"
      by (auto simp: Let_def)
    have "visible (rq_frames r) (rq_colors r) e" using spec cd by (auto simp: visible_def split: option.splits)
    moreover have "shows_element r given e (hd items)"
      using spec cd element_transform_Inr [OF t] assms(4)
      by (cases "color_id (se_source e)") (auto simp: shows_element_def items with_corner_radius_def)
    ultimately show ?thesis using Cons.IH [OF rest] Cons.prems(2) by (simp add: items)
  qed
qed

text \<open>
  C28: composing a scene draws exactly the elements whose colour or frame is known, back to front, each on
  its layout's centre with a size that keeps the proportions of its source and fits its box; every item
  that shows a frame names the source of its own element, each source is handed over once, and the
  transforms kept for hit testing are those of the items drawn.
\<close>

theorem compose_scene_correct:
  assumes "compose_scene rendered r = Inr c"
  shows "\<exists>given items.
      rendered given (List.map fst items) (request_canvas r) = Inr (cf_image c)
    \<and> cf_dimensions c = request_canvas r \<and> cf_elements c = List.map snd items
    \<and> length given = card {s \<in> se_source ` set (rq_elements r). rq_frames r s \<noteq> None}
    \<and> list_all2 (shows_element r given) (filter (visible (rq_frames r) (rq_colors r)) (rq_elements r)) items
    \<and> (\<forall>box source canvas. positive box \<and> positive source \<and> positive canvas \<longrightarrow>
         fits_box box source canvas (studio_fit_size box source canvas))"
proof -
  let ?ids = "source_ids_of (rq_frames r) (rq_elements r)"
  from assms obtain items where items: "compose_items (rq_frames r) (rq_colors r) ?ids (request_canvas r) (rq_elements r) = Inr items"
    and image: "rendered (scene_sources (rq_frames r) ?ids) (List.map fst items) (request_canvas r) = Inr (cf_image c)"
    and c: "cf_dimensions c = request_canvas r" "cf_elements c = List.map snd items"
    by (auto simp: compose_scene_def Let_def)
  have all: "\<forall>s \<in> set ?ids. rq_frames r s \<noteq> None"
    "\<forall>e \<in> set (rq_elements r). rq_frames r (se_source e) \<noteq> None \<longrightarrow> se_source e \<in> set ?ids"
    by (auto simp: source_ids_of)
  have given: "scene_sources (rq_frames r) ?ids = List.map (\<lambda>s. as_source (the (rq_frames r s))) ?ids"
    by (rule scene_sources_map [OF all(1)])
  have "length (scene_sources (rq_frames r) ?ids) = card {s \<in> se_source ` set (rq_elements r). rq_frames r s \<noteq> None}"
    unfolding given length_map distinct_card [OF source_ids_of(1), symmetric] source_ids_of(2) ..
  with compose_items_correct [OF items all given] image c studio_fit_size_fits show ?thesis by blast
qed

definition sample_frame :: source_frame where
  "sample_frame = \<lparr>sf_pixel_buffer = cs_pixel_buffer sample_source, sf_content_rect = None, sf_dimensions = (640, 480)\<rparr>"

definition sample_request :: render_request where
  "sample_request = \<lparr>rq_elements = sc_elements sample_scene, rq_frames = [DisplaySource 1 \<mapsto> sample_frame],
     rq_colors = Map.empty, rq_locked_dimensions = None\<rparr>"

lemma sample_composed:
  "\<exists>c. compose_scene (\<lambda>s i d. Inr 9) sample_request = Inr c \<and> List.map re_id (cf_elements c) = [1, 2]"
  by (simp add: compose_scene_def sample_request_def sample_scene_elements source_ids_of_def add_source_id_def
    element_content_def request_canvas_def DEFAULT_CANVAS_DIMENSIONS_def element_transform_def try_from_def u32_max_def
    Let_def)

lemma compose_scene_correct_witness:
  "\<exists>c given. compose_scene (\<lambda>s i d. Inr 9) sample_request = Inr c \<and> length (cf_elements c) = 2
     \<and> length (given :: compositor_source list) = 1"
proof -
  obtain c where c: "compose_scene (\<lambda>s i d. Inr 9) sample_request = Inr c" "List.map re_id (cf_elements c) = [1, 2]"
    using sample_composed by (elim exE conjE)
  have "\<exists>given :: compositor_source list.
      length given = card {s \<in> se_source ` set (rq_elements sample_request). rq_frames sample_request s \<noteq> None}"
    using compose_scene_correct [OF c(1)]
    apply (elim exE conjE)
    apply (rule exI)
    apply assumption
    done
  then obtain given :: "compositor_source list"
    where "length given = card {s \<in> se_source ` set (rq_elements sample_request). rq_frames sample_request s \<noteq> None}" ..
  moreover have "{s \<in> se_source ` set (rq_elements sample_request). rq_frames sample_request s \<noteq> None} = {DisplaySource 1}"
    by (auto simp: sample_request_def sample_scene_elements)
  moreover have "length (cf_elements c) = 2" using arg_cong [OF c(2), of length] by simp
  ultimately show ?thesis using c(1) by auto
qed

end
