(* ===== verification/Studio_Frames.thy ===== *)
theory Studio_Frames
  imports Studio_Compose
begin

section \<open>From captured frames to the preview (FrameHub, RenderQueue, CompositionHub in apps/blip-studio/src/viewer.rs)\<close>

text \<open>
  Three kinds of threads hand frames on: the capture threads put the latest frame of their source into the
  frame hub, the window's thread collects them into requests for the compositor thread, and that puts the
  latest picture into the composition hub. Each hand-over keeps one value and one flag that says whether
  the event that fetches it is on its way. The threads are a step relation whose steps are the accesses
  to shared state, a mutex being held where the code holds it.
\<close>

subsection \<open>The frame hub\<close>

text \<open>Times are nanoseconds.\<close>

record camera_status =
  cst_window_started :: nat
  cst_frames :: nat
  cst_measured_fps :: "real option"
  cst_dimensions :: "nat \<times> nat"
  cst_dropped_frames :: nat

definition record_status :: "nat \<Rightarrow> nat \<times> nat \<Rightarrow> camera_status \<Rightarrow> camera_status" where
  "record_status now dims s =
     (let s1 = s\<lparr>cst_frames := saturating_add u32_max (cst_frames s) 1, cst_dimensions := dims\<rparr>;
          elapsed = now - cst_window_started s1
      in if 1000000000 \<le> elapsed
         then s1\<lparr>cst_measured_fps := Some (real (min (cst_frames s1) u16_max) / (real elapsed / 1000000000)),
                cst_window_started := now, cst_frames := 0\<rparr>
         else s1)"

record frame_hub =
  fh_frames :: "source_id \<Rightarrow> captured_frame option"
  fh_camera_statuses :: "source_id \<Rightarrow> camera_status option"
  fh_removed_sources :: "source_id list"
  fh_render_pending :: bool

definition new_frame_hub :: frame_hub where
  "new_frame_hub = \<lparr>fh_frames = Map.empty, fh_camera_statuses = Map.empty, fh_removed_sources = [],
     fh_render_pending = False\<rparr>"

text \<open>\<open>FrameHub::submit\<close> is \<open>insert_frame\<close> and then \<open>request_render\<close>, whose second result says that it sends the event.\<close>

definition insert_frame :: "nat \<Rightarrow> source_id \<Rightarrow> captured_frame \<Rightarrow> frame_hub \<Rightarrow> frame_hub" where
  "insert_frame now source f h =
     (let h1 = (case f of
            CameraFrame b \<Rightarrow>
              (let dims = (pb_width b, pb_height b);
                   status = unwrap_or (fh_camera_statuses h source)
                     \<lparr>cst_window_started = now, cst_frames = 0, cst_measured_fps = None, cst_dimensions = dims,
                      cst_dropped_frames = 0\<rparr>
               in h\<lparr>fh_camera_statuses := (fh_camera_statuses h)(source \<mapsto> record_status now dims status)\<rparr>)
          | ScreenFrame b g \<Rightarrow> h)
      in h1\<lparr>fh_frames := (fh_frames h1)(source \<mapsto> f)\<rparr>)"

definition request_render :: "frame_hub \<Rightarrow> frame_hub \<times> bool" where
  "request_render h = (h\<lparr>fh_render_pending := True\<rparr>, \<not> fh_render_pending h)"

text \<open>\<open>drain\<close>: the frames are taken and the flag is cleared while the lock on the frames is held.\<close>

definition take_frames :: "frame_hub \<Rightarrow> frame_hub \<times> (source_id \<Rightarrow> captured_frame option)" where
  "take_frames h = (h\<lparr>fh_frames := Map.empty\<rparr>, fh_frames h)"

definition clear_pending :: "frame_hub \<Rightarrow> frame_hub" where
  "clear_pending h = h\<lparr>fh_render_pending := False\<rparr>"

definition drain_removed_sources :: "frame_hub \<Rightarrow> frame_hub \<times> source_id list" where
  "drain_removed_sources h = (h\<lparr>fh_removed_sources := []\<rparr>, fh_removed_sources h)"

definition forget_source :: "source_id \<Rightarrow> frame_hub \<Rightarrow> frame_hub" where
  "forget_source source h =
     h\<lparr>fh_frames := (fh_frames h)(source := None), fh_removed_sources := fh_removed_sources h @ [source],
       fh_camera_statuses := (fh_camera_statuses h)(source := None)\<rparr>"

definition scene_changed :: "source_id option \<Rightarrow> frame_hub \<Rightarrow> frame_hub \<times> bool" where
  "scene_changed removed_source h =
     request_render (case removed_source of None \<Rightarrow> h | Some source \<Rightarrow> forget_source source h)"

definition camera_status_of :: "source_id \<Rightarrow> frame_hub \<Rightarrow> camera_status option" where
  "camera_status_of source h = fh_camera_statuses h source"

definition report_camera_drop :: "source_id \<Rightarrow> frame_hub \<Rightarrow> frame_hub" where
  "report_camera_drop source h =
     (case fh_camera_statuses h source of
        None \<Rightarrow> h
      | Some s \<Rightarrow>
          h\<lparr>fh_camera_statuses := (fh_camera_statuses h)
              (source \<mapsto> s\<lparr>cst_dropped_frames := saturating_add u64_max (cst_dropped_frames s) 1\<rparr>)\<rparr>)"

subsection \<open>The composition hub\<close>

record composition_hub =
  cm_latest :: "composed_frame option"
  cm_event_pending :: bool

definition submit_composition :: "composed_frame \<Rightarrow> composition_hub \<Rightarrow> composition_hub \<times> bool" where
  "submit_composition f h = (\<lparr>cm_latest = Some f, cm_event_pending = True\<rparr>, \<not> cm_event_pending h)"

definition take_composition :: "composition_hub \<Rightarrow> composition_hub \<times> composed_frame option" where
  "take_composition h = (\<lparr>cm_latest = None, cm_event_pending = False\<rparr>, cm_latest h)"

subsection \<open>The threads\<close>

datatype viewer_event = RenderReady | CompositionReady | CompositionFailed string

text \<open>
  Where the window's thread is: waiting, holding a \<open>RenderReady\<close>, with the frames taken and the lock held,
  with the flag cleared, or holding a \<open>CompositionReady\<close>. The compositor thread starts, waits, waits out
  the render interval with a request, renders one, or has given up.
\<close>

datatype window_phase =
  Waiting | Received | Taken "source_id \<Rightarrow> captured_frame option" | Cleared "source_id \<Rightarrow> captured_frame option"
| Collecting

datatype compositor_phase = Starting | Ready | Pacing render_request | Rendering render_request | GivenUp

record pipeline =
  pl_hub :: frame_hub
  pl_events :: "viewer_event list"
  pl_submitting :: nat
  pl_window :: window_phase
  pl_elements :: "real scene_element list"
  pl_colors :: "source_id \<Rightarrow> rgb option"
  pl_canvas :: "(nat \<times> nat) option"
  pl_source_frames :: "source_id \<Rightarrow> source_frame option"
  pl_queue :: "render_request option"
  pl_compositor :: compositor_phase
  pl_composition :: composition_hub
  pl_shown :: "composed_frame option"
  pl_running :: bool

definition start_pipeline :: "real scene_element list \<Rightarrow> (source_id \<Rightarrow> rgb option) \<Rightarrow> pipeline" where
  "start_pipeline elements colors =
     \<lparr>pl_hub = new_frame_hub, pl_events = [], pl_submitting = 0, pl_window = Waiting, pl_elements = elements,
      pl_colors = colors, pl_canvas = None, pl_source_frames = Map.empty, pl_queue = None,
      pl_compositor = Starting, pl_composition = \<lparr>cm_latest = None, cm_event_pending = False\<rparr>,
      pl_shown = None, pl_running = True\<rparr>"

definition current_request :: "pipeline \<Rightarrow> render_request" where
  "current_request p =
     \<lparr>rq_elements = pl_elements p, rq_frames = pl_source_frames p, rq_colors = pl_colors p,
      rq_locked_dimensions = pl_canvas p\<rparr>"

definition send_if :: "bool \<Rightarrow> viewer_event \<Rightarrow> viewer_event list \<Rightarrow> viewer_event list" where
  "send_if sent e es = (if sent then es @ [e] else es)"

text \<open>
  The frames of a \<open>RenderReady\<close>, once taken: each is converted, a conversion that fails ends the
  application; removed sources are dropped, then a request replaces the pending one.
\<close>

definition converted :: "(source_id \<Rightarrow> captured_frame option) \<Rightarrow> (source_id \<Rightarrow> source_frame option)
    \<Rightarrow> source_id \<Rightarrow> source_frame option" where
  "converted fetched frs s =
     (case fetched s of
        None \<Rightarrow> frs s
      | Some f \<Rightarrow> (case source_frame_of f of Inl e \<Rightarrow> frs s | Inr sf \<Rightarrow> Some sf))"

definition conversion_fails :: "(source_id \<Rightarrow> captured_frame option) \<Rightarrow> bool" where
  "conversion_fails fetched \<longleftrightarrow> (\<exists>s f e. fetched s = Some f \<and> source_frame_of f = Inl e)"

definition drop_sources :: "source_id list \<Rightarrow> (source_id \<Rightarrow> source_frame option) \<Rightarrow> source_id \<Rightarrow> source_frame option" where
  "drop_sources removed frs s = (if s \<in> set removed then None else frs s)"

definition submit_request :: "(source_id \<Rightarrow> captured_frame option) \<Rightarrow> pipeline \<Rightarrow> pipeline" where
  "submit_request fetched p =
     (let (h, removed) = drain_removed_sources (pl_hub p);
          p1 = p\<lparr>pl_hub := h,
                 pl_source_frames := drop_sources removed (converted fetched (pl_source_frames p)), pl_window := Waiting\<rparr>
      in p1\<lparr>pl_queue := Some (current_request p1)\<rparr>)"

datatype pipe_label =
  FrameInserted nat source_id captured_frame
| RenderRequested
| Edited "real scene_element list" "source_id \<Rightarrow> rgb option" "source_id option"
| CanvasLocked "(nat \<times> nat) option"
| CameraDropped source_id
| ReceivedRender
| FramesTaken
| PendingCleared
| RequestSubmitted
| CompositorStarted "string option"
| RequestTaken
| RenderStarted
| LatestRenderStarted
| Composed "string + composed_frame"
| ReceivedComposition
| CompositionTaken
| ReceivedFailure

text \<open>
  The compositor that renders is a parameter: what it answers for the sources, items and canvas it is given, the
  picture's number standing for its content. It can also fail at any time. The canvas is locked when a stream
  starts, to the size of the picture shown, and unlocked when it ends.
\<close>

type_synonym renderer = "compositor_source list \<Rightarrow> compositor_item list \<Rightarrow> nat \<times> nat \<Rightarrow> string + nat"

inductive pipe_step :: "renderer \<Rightarrow> pipeline \<Rightarrow> pipe_label \<Rightarrow> pipeline \<Rightarrow> bool" for rendered where
  insert: "(\<forall>f. pl_window p \<noteq> Taken f) \<Longrightarrow>
     pipe_step rendered p (FrameInserted now s f)
       (p\<lparr>pl_hub := insert_frame now s f (pl_hub p), pl_submitting := Suc (pl_submitting p)\<rparr>)"
| request: "pl_submitting p = Suc n \<Longrightarrow> request_render (pl_hub p) = (h, sent) \<Longrightarrow>
     pipe_step rendered p RenderRequested
       (p\<lparr>pl_hub := h, pl_submitting := n, pl_events := send_if sent RenderReady (pl_events p)\<rparr>)"
| edit: "pl_window p = Waiting \<Longrightarrow> pl_running p \<Longrightarrow> scene_changed removed (pl_hub p) = (h, sent) \<Longrightarrow>
     pipe_step rendered p (Edited elements colors removed)
       (p\<lparr>pl_elements := elements, pl_colors := colors, pl_hub := h,
          pl_events := send_if sent RenderReady (pl_events p)\<rparr>)"
| lock: "pl_window p = Waiting \<Longrightarrow> canvas = None \<or>
       (\<exists>c. pl_shown p = Some c \<and> canvas = Some (even_dimensions (cf_dimensions c))) \<Longrightarrow>
     pipe_step rendered p (CanvasLocked canvas) (p\<lparr>pl_canvas := canvas\<rparr>)"
| drop: "pipe_step rendered p (CameraDropped s) (p\<lparr>pl_hub := report_camera_drop s (pl_hub p)\<rparr>)"
| receive: "pl_window p = Waiting \<Longrightarrow> pl_running p \<Longrightarrow> pl_events p = RenderReady # es \<Longrightarrow>
     pipe_step rendered p ReceivedRender (p\<lparr>pl_window := Received, pl_events := es\<rparr>)"
| take: "pl_window p = Received \<Longrightarrow> take_frames (pl_hub p) = (h, fetched) \<Longrightarrow>
     pipe_step rendered p FramesTaken (p\<lparr>pl_window := Taken fetched, pl_hub := h\<rparr>)"
| clear: "pl_window p = Taken fetched \<Longrightarrow>
     pipe_step rendered p PendingCleared (p\<lparr>pl_window := Cleared fetched, pl_hub := clear_pending (pl_hub p)\<rparr>)"
| submit: "pl_window p = Cleared fetched \<Longrightarrow> \<not> conversion_fails fetched \<Longrightarrow>
     pipe_step rendered p RequestSubmitted (submit_request fetched p)"
| submit_fails: "pl_window p = Cleared fetched \<Longrightarrow> conversion_fails fetched \<Longrightarrow>
     pipe_step rendered p RequestSubmitted (p\<lparr>pl_window := Waiting, pl_running := False\<rparr>)"
| start: "pl_compositor p = Starting \<Longrightarrow>
     pipe_step rendered p (CompositorStarted None) (p\<lparr>pl_compositor := Ready\<rparr>)"
| start_fails: "pl_compositor p = Starting \<Longrightarrow>
     pipe_step rendered p (CompositorStarted (Some e))
       (p\<lparr>pl_compositor := GivenUp, pl_events := pl_events p @ [CompositionFailed e]\<rparr>)"
| take_request: "pl_compositor p = Ready \<Longrightarrow> pl_queue p = Some r \<Longrightarrow>
     pipe_step rendered p RequestTaken (p\<lparr>pl_compositor := Pacing r, pl_queue := None\<rparr>)"
| render_now: "pl_compositor p = Pacing r \<Longrightarrow>
     pipe_step rendered p RenderStarted (p\<lparr>pl_compositor := Rendering r\<rparr>)"
| render_latest: "pl_compositor p = Pacing r \<Longrightarrow>
     pipe_step rendered p LatestRenderStarted
       (p\<lparr>pl_compositor := Rendering (unwrap_or (pl_queue p) r), pl_queue := None\<rparr>)"
| compose: "pl_compositor p = Rendering r \<Longrightarrow> compose_scene rendered r = Inr c \<Longrightarrow>
     submit_composition c (pl_composition p) = (h, sent) \<Longrightarrow>
     pipe_step rendered p (Composed (Inr c))
       (p\<lparr>pl_compositor := Ready, pl_composition := h, pl_events := send_if sent CompositionReady (pl_events p)\<rparr>)"
| compose_fails: "pl_compositor p = Rendering r \<Longrightarrow>
     pipe_step rendered p (Composed (Inl e))
       (p\<lparr>pl_compositor := Ready, pl_events := pl_events p @ [CompositionFailed e]\<rparr>)"
| receive_composition: "pl_window p = Waiting \<Longrightarrow> pl_running p \<Longrightarrow> pl_events p = CompositionReady # es \<Longrightarrow>
     pipe_step rendered p ReceivedComposition (p\<lparr>pl_window := Collecting, pl_events := es\<rparr>)"
| take_composition: "pl_window p = Collecting \<Longrightarrow> take_composition (pl_composition p) = (h, c) \<Longrightarrow>
     pipe_step rendered p CompositionTaken
       (p\<lparr>pl_window := Waiting, pl_composition := h, pl_shown := (case c of None \<Rightarrow> pl_shown p | Some f \<Rightarrow> Some f)\<rparr>)"
| receive_failure: "pl_window p = Waiting \<Longrightarrow> pl_running p \<Longrightarrow> pl_events p = CompositionFailed e # es \<Longrightarrow>
     pipe_step rendered p ReceivedFailure (p\<lparr>pl_running := False, pl_events := es\<rparr>)"

text \<open>A run of the threads, with its labels.\<close>

inductive pipe_run :: "renderer \<Rightarrow> pipeline \<Rightarrow> pipe_label list \<Rightarrow> pipeline \<Rightarrow> bool" for g p0 where
  pipe_start: "pipe_run g p0 [] p0"
| pipe_next: "pipe_run g p0 ls p \<Longrightarrow> pipe_step g p l p' \<Longrightarrow> pipe_run g p0 (ls @ [l]) p'"

subsection \<open>No event is lost\<close>

definition render_expected :: "pipeline \<Rightarrow> bool" where
  "render_expected p \<longleftrightarrow> RenderReady \<in> set (pl_events p) \<or> pl_window p = Received"

text \<open>
  The flag of the frame hub is set only while its event is on the way or being handled; frames and removed
  sources that nobody has fetched have an event on the way, or a capture thread about to ask for one; the
  same for the composition hub.
\<close>

definition hubs_ok :: "pipeline \<Rightarrow> bool" where
  "hubs_ok p \<longleftrightarrow>
     (fh_render_pending (pl_hub p) \<longrightarrow> render_expected p \<or> (\<exists>f. pl_window p = Taken f))
     \<and> (fh_frames (pl_hub p) \<noteq> Map.empty \<longrightarrow> render_expected p \<or> pl_submitting p \<noteq> 0)
     \<and> ((\<exists>f. pl_window p = Taken f) \<longrightarrow> fh_frames (pl_hub p) = Map.empty)
     \<and> (fh_removed_sources (pl_hub p) \<noteq> [] \<longrightarrow>
          render_expected p \<or> (\<exists>f. pl_window p = Taken f \<or> pl_window p = Cleared f) \<or> \<not> pl_running p)
     \<and> (cm_latest (pl_composition p) \<noteq> None \<longrightarrow> cm_event_pending (pl_composition p))
     \<and> (cm_event_pending (pl_composition p) \<longrightarrow> CompositionReady \<in> set (pl_events p) \<or> pl_window p = Collecting)"

lemma hub_simps [simp]:
  "fh_render_pending (insert_frame now s f h) = fh_render_pending h"
  "fh_removed_sources (insert_frame now s f h) = fh_removed_sources h"
  "fh_frames (insert_frame now s f h) = (fh_frames h)(s \<mapsto> f)"
  "fh_render_pending (report_camera_drop s h) = fh_render_pending h"
  "fh_removed_sources (report_camera_drop s h) = fh_removed_sources h"
  "fh_frames (report_camera_drop s h) = fh_frames h"
  "fh_frames (clear_pending h) = fh_frames h" "\<not> fh_render_pending (clear_pending h)"
  "fh_removed_sources (clear_pending h) = fh_removed_sources h"
  by (simp_all add: insert_frame_def report_camera_drop_def clear_pending_def Let_def
      split: captured_frame.split option.split)

lemma request_render_simps:
  "request_render h = (h', sent) \<Longrightarrow> fh_render_pending h' \<and> fh_frames h' = fh_frames h
     \<and> fh_removed_sources h' = fh_removed_sources h \<and> sent = (\<not> fh_render_pending h)"
  by (auto simp: request_render_def)

lemma scene_changed_simps:
  "scene_changed removed h = (h', sent) \<Longrightarrow> fh_render_pending h' \<and> sent = (\<not> fh_render_pending h)
     \<and> (case removed of None \<Rightarrow> fh_frames h' = fh_frames h \<and> fh_removed_sources h' = fh_removed_sources h
        | Some s \<Rightarrow> fh_frames h' = (fh_frames h)(s := None) \<and> fh_removed_sources h' = fh_removed_sources h @ [s])"
  by (auto simp: scene_changed_def request_render_def forget_source_def split: option.splits)

lemma set_send_if [simp]: "set (send_if b e es) = (if b then insert e (set es) else set es)"
  by (simp add: send_if_def)

lemma submit_request_simps [simp]:
  "fh_frames (pl_hub (submit_request t p)) = fh_frames (pl_hub p)"
  "fh_removed_sources (pl_hub (submit_request t p)) = []"
  "fh_render_pending (pl_hub (submit_request t p)) = fh_render_pending (pl_hub p)"
  "pl_events (submit_request t p) = pl_events p" "pl_window (submit_request t p) = Waiting"
  "pl_submitting (submit_request t p) = pl_submitting p" "pl_composition (submit_request t p) = pl_composition p"
  "pl_shown (submit_request t p) = pl_shown p" "pl_running (submit_request t p) = pl_running p"
  "pl_compositor (submit_request t p) = pl_compositor p"
  "pl_queue (submit_request t p) = Some (current_request (submit_request t p))"
  "pl_source_frames (submit_request t p) =
     drop_sources (fh_removed_sources (pl_hub p)) (converted t (pl_source_frames p))"
  by (simp_all add: submit_request_def drain_removed_sources_def current_request_def)

lemma start_hubs_ok: "hubs_ok (start_pipeline es cs)"
  by (simp add: hubs_ok_def start_pipeline_def new_frame_hub_def)

text \<open>The conjuncts of the invariant are kept one by one.\<close>

lemma step_render_pending:
  assumes "pipe_step g p l p'"
    and "fh_render_pending (pl_hub p) \<longrightarrow> render_expected p \<or> (\<exists>f. pl_window p = Taken f)"
  shows "fh_render_pending (pl_hub p') \<longrightarrow> render_expected p' \<or> (\<exists>f. pl_window p' = Taken f)"
  using assms
  by (cases rule: pipe_step.cases)
    (auto simp: render_expected_def take_frames_def dest!: request_render_simps scene_changed_simps)

lemma step_frames_fetched:
  assumes "pipe_step g p l p'"
    and "fh_frames (pl_hub p) \<noteq> Map.empty \<longrightarrow> render_expected p \<or> pl_submitting p \<noteq> 0"
    and "(\<exists>f. pl_window p = Taken f) \<longrightarrow> fh_frames (pl_hub p) = Map.empty"
    and "fh_render_pending (pl_hub p) \<longrightarrow> render_expected p \<or> (\<exists>f. pl_window p = Taken f)"
  shows "fh_frames (pl_hub p') \<noteq> Map.empty \<longrightarrow> render_expected p' \<or> pl_submitting p' \<noteq> 0"
    and "(\<exists>f. pl_window p' = Taken f) \<longrightarrow> fh_frames (pl_hub p') = Map.empty"
proof -
  show "(\<exists>f. pl_window p' = Taken f) \<longrightarrow> fh_frames (pl_hub p') = Map.empty"
    using assms(1,3)
    by (cases rule: pipe_step.cases) (auto simp: take_frames_def dest!: request_render_simps scene_changed_simps)
  show "fh_frames (pl_hub p') \<noteq> Map.empty \<longrightarrow> render_expected p' \<or> pl_submitting p' \<noteq> 0"
    using assms(1)
  proof (cases rule: pipe_step.cases)
    case (request n h sent)
    then show ?thesis
      using assms(3,4) by (auto simp: render_expected_def dest!: request_render_simps)
  next
    case (edit removed h sent elements colors)
    then show ?thesis
      using assms(4) by (auto simp: render_expected_def dest!: scene_changed_simps)
  qed (use assms(2,3) in \<open>auto simp: render_expected_def take_frames_def\<close>)
qed

lemma step_removed_fetched:
  assumes "pipe_step g p l p'"
    and "fh_removed_sources (pl_hub p) \<noteq> [] \<longrightarrow>
      render_expected p \<or> (\<exists>f. pl_window p = Taken f \<or> pl_window p = Cleared f) \<or> \<not> pl_running p"
    and "fh_render_pending (pl_hub p) \<longrightarrow> render_expected p \<or> (\<exists>f. pl_window p = Taken f)"
  shows "fh_removed_sources (pl_hub p') \<noteq> [] \<longrightarrow>
    render_expected p' \<or> (\<exists>f. pl_window p' = Taken f \<or> pl_window p' = Cleared f) \<or> \<not> pl_running p'"
  using assms(1)
proof (cases rule: pipe_step.cases)
  case (edit removed h sent elements colors)
  then show ?thesis
    using assms(3) by (auto simp: render_expected_def dest!: scene_changed_simps)
qed (use assms(2) in \<open>auto simp: render_expected_def take_frames_def dest!: request_render_simps\<close>)

lemma step_composition_fetched:
  assumes "pipe_step g p l p'"
    and "cm_latest (pl_composition p) \<noteq> None \<longrightarrow> cm_event_pending (pl_composition p)"
    and "cm_event_pending (pl_composition p) \<longrightarrow> CompositionReady \<in> set (pl_events p) \<or> pl_window p = Collecting"
  shows "cm_latest (pl_composition p') \<noteq> None \<longrightarrow> cm_event_pending (pl_composition p')"
    and "cm_event_pending (pl_composition p') \<longrightarrow> CompositionReady \<in> set (pl_events p') \<or> pl_window p' = Collecting"
proof -
  show "cm_latest (pl_composition p') \<noteq> None \<longrightarrow> cm_event_pending (pl_composition p')"
    using assms(1,2)
    by (cases rule: pipe_step.cases) (auto simp: submit_composition_def take_composition_def)
  show "cm_event_pending (pl_composition p') \<longrightarrow> CompositionReady \<in> set (pl_events p') \<or> pl_window p' = Collecting"
    using assms(1,3)
    by (cases rule: pipe_step.cases) (auto simp: submit_composition_def take_composition_def)
qed

lemma step_hubs_ok:
  assumes "hubs_ok p" "pipe_step g p l p'"
  shows "hubs_ok p'"
proof -
  note ok = assms(1) [unfolded hubs_ok_def]
  note a = ok [THEN conjunct1] and b = ok [THEN conjunct2, THEN conjunct1]
    and c = ok [THEN conjunct2, THEN conjunct2, THEN conjunct1]
    and d = ok [THEN conjunct2, THEN conjunct2, THEN conjunct2, THEN conjunct1]
    and e = ok [THEN conjunct2, THEN conjunct2, THEN conjunct2, THEN conjunct2, THEN conjunct1]
    and f = ok [THEN conjunct2, THEN conjunct2, THEN conjunct2, THEN conjunct2, THEN conjunct2]
  show ?thesis
    unfolding hubs_ok_def
    by (intro conjI step_render_pending [OF assms(2) a] step_frames_fetched [OF assms(2) b c a]
      step_removed_fetched [OF assms(2) d a] step_composition_fetched [OF assms(2) e f])
qed

interpretation frame_threads: state_machine "\<lambda>p p'. \<exists>l. pipe_step g p l p'" hubs_ok for g
  by unfold_locales (blast intro: step_hubs_ok)

subsection \<open>The picture follows the scene\<close>

definition same_request :: "render_request \<Rightarrow> render_request \<Rightarrow> bool" where
  "same_request r q \<longleftrightarrow> rq_elements r = rq_elements q \<and> rq_frames r = rq_frames q \<and> rq_colors r = rq_colors q
     \<and> request_canvas r = request_canvas q"

definition composed_from :: "renderer \<Rightarrow> render_request \<Rightarrow> composed_frame \<Rightarrow> bool" where
  "composed_from g r c \<longleftrightarrow> compose_scene g r = Inr c"

lemma same_request_refl [simp]: "same_request r r" by (simp add: same_request_def)

lemma composed_from_cong: "same_request r q \<Longrightarrow> composed_from g r c \<longleftrightarrow> composed_from g q c"
  by (simp add: same_request_def composed_from_def compose_scene_def)

text \<open>The first canvas is the default one, and locking keeps the size of what was composed: there is no other.\<close>

definition canvas_ok :: "pipeline \<Rightarrow> bool" where
  "canvas_ok p \<longleftrightarrow> unwrap_or (pl_canvas p) DEFAULT_CANVAS_DIMENSIONS = DEFAULT_CANVAS_DIMENSIONS
     \<and> (\<forall>q. pl_queue p = Some q \<or> pl_compositor p = Pacing q \<or> pl_compositor p = Rendering q \<longrightarrow>
          request_canvas q = DEFAULT_CANVAS_DIMENSIONS)
     \<and> (\<forall>c. cm_latest (pl_composition p) = Some c \<or> pl_shown p = Some c \<longrightarrow> cf_dimensions c = DEFAULT_CANVAS_DIMENSIONS)"

lemma composed_canvas: "compose_scene g r = Inr c \<Longrightarrow> cf_dimensions c = request_canvas r"
  by (auto simp: compose_scene_def Let_def split: sum.splits)

lemma even_default: "even_dimensions DEFAULT_CANVAS_DIMENSIONS = DEFAULT_CANVAS_DIMENSIONS"
  by (simp add: even_dimensions_def DEFAULT_CANVAS_DIMENSIONS_def)

lemma step_canvas_ok:
  assumes "canvas_ok p" "pipe_step g p l p'"
  shows "canvas_ok p'"
  using assms(2)
proof (cases rule: pipe_step.cases)
  case (submit fetched)
  have "request_canvas (current_request (submit_request fetched p)) = unwrap_or (pl_canvas p) DEFAULT_CANVAS_DIMENSIONS"
    by (simp add: request_canvas_def current_request_def submit_request_def drain_removed_sources_def Let_def)
  moreover have "pl_canvas (submit_request fetched p) = pl_canvas p"
    by (simp add: submit_request_def drain_removed_sources_def Let_def)
  ultimately show ?thesis using assms(1) submit by (simp add: canvas_ok_def)
next
  case (lock canvas)
  then show ?thesis using assms(1) by (auto simp: canvas_ok_def even_default)
next
  case (compose r c h sent)
  then show ?thesis using assms(1) composed_canvas [OF compose(4)] by (auto simp: canvas_ok_def submit_composition_def)
next
  case (render_latest r)
  then show ?thesis using assms(1) by (cases "pl_queue p") (auto simp: canvas_ok_def)
qed (use assms(1) in \<open>auto simp: canvas_ok_def take_composition_def split: option.splits\<close>)

lemma start_canvas_ok: "canvas_ok (start_pipeline es cs)"
  by (simp add: canvas_ok_def start_pipeline_def)

definition failing :: "pipeline \<Rightarrow> bool" where
  "failing p \<longleftrightarrow> \<not> pl_running p \<or> (\<exists>e. CompositionFailed e \<in> set (pl_events p))"

text \<open>The newest picture or request on the way belongs to the scene as it is, or nothing has happened yet.\<close>

definition newest :: "renderer \<Rightarrow> render_request \<Rightarrow> pipeline \<Rightarrow> bool" where
  "newest g r0 p =
     (let r = current_request p
      in case pl_queue p of
           Some q \<Rightarrow> same_request q r
         | None \<Rightarrow>
             (case pl_compositor p of
                Pacing q \<Rightarrow> same_request q r
              | Rendering q \<Rightarrow> same_request q r
              | _ \<Rightarrow> (case cm_latest (pl_composition p) of
                      Some c \<Rightarrow> composed_from g r c
                    | None \<Rightarrow> (case pl_shown p of Some c \<Rightarrow> composed_from g r c | None \<Rightarrow> same_request r r0))))"

definition follows :: "renderer \<Rightarrow> render_request \<Rightarrow> pipeline \<Rightarrow> bool" where
  "follows g r0 p \<longleftrightarrow> failing p \<or>
     ((pl_window p = Waiting \<or> pl_window p = Collecting) \<and> RenderReady \<notin> set (pl_events p) \<longrightarrow> newest g r0 p)"

lemma newest_cong:
  assumes "same_request (current_request p) (current_request p')"
    and "pl_queue p' = pl_queue p" "pl_compositor p' = pl_compositor p"
    and "cm_latest (pl_composition p') = cm_latest (pl_composition p)" "pl_shown p' = pl_shown p"
  shows "newest g r0 p' = newest g r0 p"
  using assms composed_from_cong [OF assms(1)]
  by (auto simp: newest_def Let_def same_request_def split: option.splits compositor_phase.splits)

lemma current_request_simps [simp]:
  "current_request (p\<lparr>pl_hub := h\<rparr>) = current_request p"
  "current_request (p\<lparr>pl_events := ev\<rparr>) = current_request p"
  "current_request (p\<lparr>pl_submitting := n\<rparr>) = current_request p"
  "current_request (p\<lparr>pl_window := w\<rparr>) = current_request p"
  "current_request (p\<lparr>pl_queue := q\<rparr>) = current_request p"
  "current_request (p\<lparr>pl_compositor := c\<rparr>) = current_request p"
  "current_request (p\<lparr>pl_composition := m\<rparr>) = current_request p"
  "current_request (p\<lparr>pl_shown := s\<rparr>) = current_request p"
  "current_request (p\<lparr>pl_running := b\<rparr>) = current_request p"
  by (simp_all add: current_request_def)

lemma follows_keep:
  assumes "follows g r0 p" "failing p \<Longrightarrow> failing p'"
    and "(pl_window p' = Waiting \<or> pl_window p' = Collecting) \<and> RenderReady \<notin> set (pl_events p') \<Longrightarrow>
      (pl_window p = Waiting \<or> pl_window p = Collecting) \<and> RenderReady \<notin> set (pl_events p)"
    and "newest g r0 p \<Longrightarrow> newest g r0 p'"
  shows "follows g r0 p'"
  using assms unfolding follows_def by blast

lemma newest_same:
  assumes "newest g r0 p" "current_request p' = current_request p"
    and "pl_queue p' = pl_queue p" "pl_compositor p' = pl_compositor p"
    and "pl_composition p' = pl_composition p" "pl_shown p' = pl_shown p"
  shows "newest g r0 p'"
  using assms newest_cong [of p p' g r0] by simp

lemma step_follows:
  assumes "follows g r0 p" "hubs_ok p" "pipe_step g p l p'" "canvas_ok p"
  shows "follows g r0 p'"
  using assms(3)
proof (cases rule: pipe_step.cases)
  case (edit removed h sent elements colors)
  then have "RenderReady \<in> set (pl_events p')"
    using assms(2) by (auto simp: hubs_ok_def render_expected_def dest!: scene_changed_simps)
  then show ?thesis by (simp add: follows_def)
next
  case (lock canvas)
  have "canvas_ok p'" by (rule step_canvas_ok [OF assms(4,3)])
  with assms(4) have "newest g r0 p' = newest g r0 p"
    using lock by (intro newest_cong) (simp_all add: same_request_def current_request_def request_canvas_def canvas_ok_def)
  then show ?thesis using assms(1) lock by (simp add: follows_def failing_def)
next
  case (submit fetched)
  then show ?thesis by (simp add: follows_def newest_def Let_def)
next
  case (compose r c h sent)
  then have "composed_from g r c" by (simp add: composed_from_def)
  then have "newest g r0 p \<Longrightarrow> newest g r0 p'"
    using compose by (auto simp: newest_def Let_def submit_composition_def composed_from_cong split: option.splits)
  then show ?thesis using compose by (intro follows_keep [OF assms(1)]) (auto simp: failing_def split: if_splits)
next
  case (take_composition h c)
  then have "newest g r0 p \<Longrightarrow> newest g r0 p'"
    by (auto simp: newest_def Let_def take_composition_def split: option.splits compositor_phase.splits)
  then show ?thesis using take_composition by (intro follows_keep [OF assms(1)]) (auto simp: failing_def)
next
  case start
  then have "newest g r0 p \<Longrightarrow> newest g r0 p'" by (simp add: newest_def Let_def split: option.splits)
  then show ?thesis using start by (intro follows_keep [OF assms(1)]) (auto simp: failing_def)
next
  case (take_request r)
  then have "newest g r0 p \<Longrightarrow> newest g r0 p'" by (simp add: newest_def Let_def)
  then show ?thesis using take_request by (intro follows_keep [OF assms(1)]) (auto simp: failing_def)
next
  case (render_now r)
  then have "newest g r0 p \<Longrightarrow> newest g r0 p'" by (simp add: newest_def Let_def split: option.splits)
  then show ?thesis using render_now by (intro follows_keep [OF assms(1)]) (auto simp: failing_def)
next
  case (render_latest r)
  then have "newest g r0 p \<Longrightarrow> newest g r0 p'" by (simp add: newest_def Let_def split: option.splits)
  then show ?thesis using render_latest by (intro follows_keep [OF assms(1)]) (auto simp: failing_def)
next
  case (take h fetched)
  then show ?thesis by (simp add: follows_def)
next
  case clear
  then show ?thesis by (simp add: follows_def)
next
  case submit_fails
  then show ?thesis by (auto simp: follows_def failing_def)
next
  case start_fails
  then show ?thesis by (auto simp: follows_def failing_def)
next
  case compose_fails
  then show ?thesis by (auto simp: follows_def failing_def)
next
  case receive_failure
  then show ?thesis by (auto simp: follows_def failing_def)
next
  case insert
  then show ?thesis
    by (intro follows_keep [OF assms(1)]) (auto simp: failing_def elim!: newest_same)
next
  case request
  then show ?thesis
    by (intro follows_keep [OF assms(1)]) (auto simp: failing_def elim!: newest_same split: if_splits)
next
  case drop
  then show ?thesis
    by (intro follows_keep [OF assms(1)]) (auto simp: failing_def elim!: newest_same)
next
  case receive
  then show ?thesis using assms(1) by (auto simp: follows_def failing_def)
next
  case receive_composition
  then show ?thesis
    by (intro follows_keep [OF assms(1)]) (auto simp: failing_def elim!: newest_same)
qed

lemma run_ok:
  "pipe_run g p0 ls p \<Longrightarrow> hubs_ok p0 \<Longrightarrow> follows g r0 p0 \<Longrightarrow> canvas_ok p0 \<Longrightarrow> hubs_ok p \<and> follows g r0 p \<and> canvas_ok p"
  by (induction rule: pipe_run.induct) (auto intro: step_hubs_ok step_follows step_canvas_ok)

lemma start_follows: "follows g (current_request (start_pipeline es cs)) (start_pipeline es cs)"
  by (simp add: follows_def newest_def start_pipeline_def)

subsection \<open>The frames shown are the last ones\<close>

definition last_inserted :: "source_id \<Rightarrow> pipe_label list \<Rightarrow> captured_frame option" where
  "last_inserted s ls =
     fold (\<lambda>l f. case l of FrameInserted now s' g \<Rightarrow> if s' = s then Some g else f | _ \<Rightarrow> f) ls None"





lemma last_inserted_snoc [simp]:
  "last_inserted s (ls @ [l]) =
     (case l of FrameInserted now s' g \<Rightarrow> if s' = s then Some g else last_inserted s ls | _ \<Rightarrow> last_inserted s ls)"
  by (simp add: last_inserted_def split: pipe_label.split)






text \<open>All threads wait and nothing is on the way.\<close>

definition at_rest :: "pipeline \<Rightarrow> bool" where
  "at_rest p \<longleftrightarrow> pl_running p \<and> pl_window p = Waiting \<and> pl_events p = [] \<and> pl_submitting p = 0
     \<and> pl_queue p = None \<and> pl_compositor p = Ready"


subsection \<open>The threads come to rest\<close>

fun input_label :: "pipe_label \<Rightarrow> bool" where
  "input_label (FrameInserted now s f) = True"
| "input_label (Edited es cs r) = True"
| "input_label (CanvasLocked c) = True"
| "input_label (CameraDropped s) = True"
| "input_label _ = False"

fun event_weight :: "viewer_event \<Rightarrow> nat" where
  "event_weight RenderReady = 20"
| "event_weight CompositionReady = 5"
| "event_weight (CompositionFailed e) = 1"

definition work_left :: "pipeline \<Rightarrow> nat" where
  "work_left p = 21 * pl_submitting p + sum_list (List.map event_weight (pl_events p))
     + (case pl_window p of Waiting \<Rightarrow> 0 | Received \<Rightarrow> 19 | Taken f \<Rightarrow> 18 | Cleared f \<Rightarrow> 17 | Collecting \<Rightarrow> 4)
     + (case pl_queue p of None \<Rightarrow> 0 | Some r \<Rightarrow> 10)
     + (case pl_compositor p of Starting \<Rightarrow> 2 | Ready \<Rightarrow> 0 | Pacing r \<Rightarrow> 8 | Rendering r \<Rightarrow> 7 | GivenUp \<Rightarrow> 0)"

lemma work_decreases:
  assumes "pipe_step g p l p'" "\<not> input_label l"
  shows "work_left p' < work_left p"
  using assms
proof (cases rule: pipe_step.cases)
  case (submit fetched)
  then show "work_left p' < work_left p" by (simp add: work_left_def split: option.split)
qed (auto simp: work_left_def send_if_def)

lemma run_length:
  "pipe_run g p ls p' \<Longrightarrow> \<forall>l \<in> set ls. \<not> input_label l \<Longrightarrow> length ls + work_left p' \<le> work_left p"
proof (induction rule: pipe_run.induct)
  case (pipe_next ls p1 l p2)
  then show ?case using work_decreases [of g p1 l p2] by simp
qed simp

lemma given_up_fails: "pl_compositor p = GivenUp \<longrightarrow> failing p \<Longrightarrow> pipe_step g p l p' \<Longrightarrow> pl_compositor p' = GivenUp \<longrightarrow> failing p'"
  by (cases rule: pipe_step.cases) (auto simp: failing_def)

lemma run_given_up: "pipe_run g p0 ls p \<Longrightarrow> pl_compositor p0 = GivenUp \<longrightarrow> failing p0 \<Longrightarrow> pl_compositor p = GivenUp \<longrightarrow> failing p"
proof (induction rule: pipe_run.induct)
  case (pipe_next ls p l p')
  then show ?case by (intro given_up_fails [of p g l p']) blast+
qed

text \<open>Steps that fail only where the compositor does.\<close>

definition forced :: "renderer \<Rightarrow> pipe_label \<Rightarrow> bool" where
  "forced g l \<longleftrightarrow> \<not> input_label l \<and> (\<forall>e. l \<noteq> CompositorStarted (Some e))
     \<and> (\<forall>e. l = Composed (Inl e) \<longrightarrow> (\<exists>r. compose_scene g r = Inl e))"

lemma forced_simps [simp]:
  "forced g (CompositorStarted None)" "forced g RequestTaken" "forced g RenderStarted" "forced g RenderRequested"
  "forced g ReceivedRender" "forced g ReceivedComposition" "forced g ReceivedFailure" "forced g FramesTaken"
  "forced g PendingCleared" "forced g RequestSubmitted" "forced g CompositionTaken" "forced g (Composed (Inr c))"
  "compose_scene g r = Inl e \<Longrightarrow> forced g (Composed (Inl e))"
  by (auto simp: forced_def)

lemma progress:
  assumes "pl_running p" "pl_compositor p = GivenUp \<longrightarrow> failing p" "\<not> at_rest p"
  shows "\<exists>l p'. pipe_step g p l p' \<and> forced g l"
proof (cases "pl_window p")
  case Waiting
  show ?thesis
  proof (cases "pl_events p")
    case Nil
    show ?thesis
    proof (cases "pl_submitting p")
      case 0
      show ?thesis
      proof (cases "pl_compositor p")
        case Starting
        then show ?thesis using start by fastforce
      next
        case Ready
        then obtain r where "pl_queue p = Some r"
          using assms Waiting Nil 0 by (auto simp: at_rest_def)
        with Ready show ?thesis using take_request by fastforce
      next
        case (Pacing r)
        then show ?thesis using render_now by fastforce
      next
        case (Rendering r)
        show ?thesis
        proof (cases "compose_scene g r")
          case (Inl e)
          then show ?thesis using compose_fails [OF Rendering, of g e] by (meson forced_simps(13))
        next
          case (Inr c)
          then show ?thesis using compose [OF Rendering Inr prod.collapse [symmetric]] by fastforce
        qed
      next
        case GivenUp
        then show ?thesis using assms Nil by (simp add: failing_def)
      qed
    next
      case (Suc n)
      then show ?thesis using request [OF Suc prod.collapse [symmetric]] by fastforce
    qed
  next
    case (Cons e es)
    then show ?thesis
      using Waiting assms(1) receive receive_composition receive_failure by (cases e) fastforce+
  qed
next
  case Received
  then show ?thesis using take [OF Received prod.collapse [symmetric]] by fastforce
next
  case (Taken f)
  then show ?thesis using clear by fastforce
next
  case (Cleared f)
  then show ?thesis using submit submit_fails by (cases "conversion_fails f") fastforce+
next
  case Collecting
  then show ?thesis using take_composition [OF Collecting prod.collapse [symmetric]] by fastforce
qed

lemma run_trans: "pipe_run g p1 ks p2 \<Longrightarrow> pipe_run g p0 ls p1 \<Longrightarrow> pipe_run g p0 (ls @ ks) p2"
proof (induction rule: pipe_run.induct)
  case (pipe_next ks p l p')
  then show ?case using pipe_run.pipe_next [of g p0 "ls @ ks" p l p'] by simp
qed simp

lemma settle:
  assumes "pl_compositor p = GivenUp \<longrightarrow> failing p"
  shows "\<exists>ls p'. pipe_run g p ls p' \<and> (\<forall>l \<in> set ls. forced g l) \<and> (at_rest p' \<or> \<not> pl_running p')"
  using assms
proof (induction p rule: measure_induct_rule [of work_left])
  case (less p)
  show ?case
  proof (cases "at_rest p \<or> \<not> pl_running p")
    case True
    then show ?thesis using pipe_start [of g p] by fastforce
  next
    case False
    then obtain l p1 where step: "pipe_step g p l p1" "forced g l" using progress less.prems by blast
    then have own: "\<not> input_label l" by (simp add: forced_def)
    obtain ls p' where "pipe_run g p1 ls p'" "\<forall>l \<in> set ls. forced g l" "at_rest p' \<or> \<not> pl_running p'"
      using less.IH [OF work_decreases [OF step(1) own] given_up_fails [OF less.prems step(1)]] by blast
    with step run_trans [of g p1 ls p' p "[l]"] pipe_next [OF pipe_start step(1)] show ?thesis
      by (intro exI [of _ "l # ls"] exI [of _ p']) simp
  qed
qed

text \<open>
  C27: after the last frame, edit and drop the threads take at most \<open>work_left\<close> more steps, and some such
  steps, none of which fails unless the compositor refuses the scene or a frame cannot be converted, lead to a
  state in which either the application has ended with an error or the preview shows the picture the compositor
  makes of the scene as it is.
\<close>

theorem preview_settles:
  assumes "pipe_run rendered (start_pipeline es cs) ls p"
  shows "(\<forall>ks p'. pipe_run rendered p ks p' \<and> (\<forall>l \<in> set ks. \<not> input_label l) \<longrightarrow> length ks \<le> work_left p)
    \<and> (\<exists>ks p'. pipe_run rendered p ks p' \<and> (\<forall>l \<in> set ks. forced rendered l)
         \<and> (\<not> pl_running p' \<or> (case pl_shown p' of
              Some c \<Rightarrow> compose_scene rendered (current_request p') = Inr c
            | None \<Rightarrow> same_request (current_request p') (current_request (start_pipeline es cs)))))"
proof -
  have "pl_compositor p = GivenUp \<longrightarrow> failing p"
    by (rule run_given_up [OF assms]) (simp add: start_pipeline_def)
  then obtain ks p' where run: "pipe_run rendered p ks p'" "\<forall>l \<in> set ks. forced rendered l" "at_rest p' \<or> \<not> pl_running p'"
    using settle by blast
  have "follows rendered (current_request (start_pipeline es cs)) p'" "hubs_ok p'"
    using run_ok [OF run_trans [OF run(1) assms] start_hubs_ok start_follows start_canvas_ok] by blast+
  moreover have "cm_latest (pl_composition p') = None" if "at_rest p'"
    using that calculation(2) by (auto simp: hubs_ok_def at_rest_def)
  ultimately have "\<not> pl_running p' \<or> (case pl_shown p' of Some c \<Rightarrow> compose_scene rendered (current_request p') = Inr c
      | None \<Rightarrow> same_request (current_request p') (current_request (start_pipeline es cs)))"
    using run(3) unfolding composed_from_def [symmetric]
    by (elim disjE) (simp_all add: follows_def failing_def at_rest_def newest_def Let_def)
  then have rest: "\<exists>ks p'. pipe_run rendered p ks p' \<and> (\<forall>l \<in> set ks. forced rendered l)
      \<and> (\<not> pl_running p' \<or> (case pl_shown p' of Some c \<Rightarrow> compose_scene rendered (current_request p') = Inr c
        | None \<Rightarrow> same_request (current_request p') (current_request (start_pipeline es cs))))"
    using run(1,2) by blast
  show ?thesis
  proof (intro conjI allI impI)
    fix ks q assume "pipe_run rendered p ks q \<and> (\<forall>l \<in> set ks. \<not> input_label l)"
    then show "length ks \<le> work_left p" using run_length [of rendered p ks q] by simp
  qed (rule rest)
qed

subsection \<open>Runs that are computed\<close>

fun pipe_exec ::
    "renderer \<Rightarrow> pipe_label \<Rightarrow> pipeline \<Rightarrow> pipeline option"
  where
  "pipe_exec g (FrameInserted now s f) p =
     (case pl_window p of Taken t \<Rightarrow> None
      | _ \<Rightarrow> Some (p\<lparr>pl_hub := insert_frame now s f (pl_hub p), pl_submitting := Suc (pl_submitting p)\<rparr>))"
| "pipe_exec g RenderRequested p =
     (case pl_submitting p of 0 \<Rightarrow> None
      | Suc n \<Rightarrow> (case request_render (pl_hub p) of (h, sent) \<Rightarrow>
          Some (p\<lparr>pl_hub := h, pl_submitting := n, pl_events := send_if sent RenderReady (pl_events p)\<rparr>)))"
| "pipe_exec g (Edited elements colors removed) p =
     (if pl_window p = Waiting \<and> pl_running p then
        (case scene_changed removed (pl_hub p) of (h, sent) \<Rightarrow>
          Some (p\<lparr>pl_elements := elements, pl_colors := colors, pl_hub := h,
            pl_events := send_if sent RenderReady (pl_events p)\<rparr>))
      else None)"
| "pipe_exec g ReceivedRender p =
     (case pl_events p of RenderReady # es \<Rightarrow>
        if pl_window p = Waiting \<and> pl_running p then Some (p\<lparr>pl_window := Received, pl_events := es\<rparr>) else None
      | _ \<Rightarrow> None)"
| "pipe_exec g FramesTaken p =
     (if pl_window p = Received then
        (case take_frames (pl_hub p) of (h, t) \<Rightarrow> Some (p\<lparr>pl_window := Taken t, pl_hub := h\<rparr>)) else None)"
| "pipe_exec g PendingCleared p =
     (case pl_window p of Taken t \<Rightarrow> Some (p\<lparr>pl_window := Cleared t, pl_hub := clear_pending (pl_hub p)\<rparr>) | _ \<Rightarrow> None)"
| "pipe_exec g (CompositorStarted None) p =
     (case pl_compositor p of Starting \<Rightarrow> Some (p\<lparr>pl_compositor := Ready\<rparr>) | _ \<Rightarrow> None)"
| "pipe_exec g RequestTaken p =
     (case (pl_compositor p, pl_queue p) of
        (Ready, Some r) \<Rightarrow> Some (p\<lparr>pl_compositor := Pacing r, pl_queue := None\<rparr>) | _ \<Rightarrow> None)"
| "pipe_exec g RenderStarted p =
     (case pl_compositor p of Pacing r \<Rightarrow> Some (p\<lparr>pl_compositor := Rendering r\<rparr>) | _ \<Rightarrow> None)"
| "pipe_exec g (Composed (Inr c)) p =
     (case pl_compositor p of
        Rendering r \<Rightarrow>
          if compose_scene g r = Inr c then
            (case submit_composition c (pl_composition p) of (h, sent) \<Rightarrow>
               Some (p\<lparr>pl_compositor := Ready, pl_composition := h,
                 pl_events := send_if sent CompositionReady (pl_events p)\<rparr>))
          else None
      | _ \<Rightarrow> None)"
| "pipe_exec g ReceivedComposition p =
     (case pl_events p of CompositionReady # es \<Rightarrow>
        if pl_window p = Waiting \<and> pl_running p then Some (p\<lparr>pl_window := Collecting, pl_events := es\<rparr>) else None
      | _ \<Rightarrow> None)"
| "pipe_exec g CompositionTaken p =
     (if pl_window p = Collecting then
        (case take_composition (pl_composition p) of (h, c) \<Rightarrow>
          Some (p\<lparr>pl_window := Waiting, pl_composition := h,
            pl_shown := (case c of None \<Rightarrow> pl_shown p | Some f \<Rightarrow> Some f)\<rparr>))
      else None)"
| "pipe_exec g l p = None"

lemma pipe_exec_sound:
  assumes "pipe_exec g l p = Some p'"
  shows "pipe_step g p l p'"
  using assms
  by (cases "(g, l, p)" rule: pipe_exec.cases)
    (auto split: window_phase.splits compositor_phase.splits list.splits viewer_event.splits nat.splits prod.splits
      option.splits if_splits intro: pipe_step.intros dest: pipe_step.take_composition)

text \<open>The submission of a request needs to know that every conversion succeeds.\<close>

lemma submit_step:
  "pl_window p = Cleared t \<Longrightarrow> \<not> conversion_fails t \<Longrightarrow> pipe_run g p0 ls p \<Longrightarrow>
   pipe_run g p0 (ls @ [RequestSubmitted]) (submit_request t p)"
  by (auto intro: pipe_next submit)

fun exec_all where
  "exec_all g [] p = Some p"
| "exec_all g (l # ls) p = (case pipe_exec g l p of None \<Rightarrow> None | Some q \<Rightarrow> exec_all g ls q)"

lemma exec_all_run: "pipe_run g p0 ks p \<Longrightarrow> exec_all g ls p = Some p' \<Longrightarrow> pipe_run g p0 (ks @ ls) p'"
proof (induction ls arbitrary: ks p)
  case (Cons l ls)
  then obtain q where q: "pipe_exec g l p = Some q" "exec_all g ls q = Some p'" by (auto split: option.splits)
  from Cons.IH [OF pipe_next [OF Cons.prems(1) pipe_exec_sound [OF q(1)]] q(2)] show ?case by simp
qed simp

text \<open>
  A color element is added to an empty scene: the request is submitted, composed and shown. The compositor of
  this run paints the first color only, which is its picture's number.
\<close>

definition paint :: renderer where
  "paint given items canvas = Inr (case items of
     [] \<Rightarrow> 0
   | i # is \<Rightarrow> (case ci_content i of
       ColorContent (r, g, b, a) \<Rightarrow> nat \<lfloor>255 * r\<rfloor> * 65536 + nat \<lfloor>255 * g\<rfloor> * 256 + nat \<lfloor>255 * b\<rfloor>
     | SourceContent k \<Rightarrow> 0))"

definition color_element :: "real scene_element" where
  "color_element = \<lparr>se_id = 1, se_source = ColorSource 1, se_layout = full_canvas_layout\<rparr>"

definition one_color :: "source_id \<Rightarrow> rgb option" where
  "one_color = [ColorSource 1 \<mapsto> (88, 101, 242)]"

definition asked :: pipeline where
  "asked = (start_pipeline [] Map.empty)
     \<lparr>pl_elements := [color_element], pl_colors := one_color, pl_compositor := Ready, pl_window := Cleared Map.empty\<rparr>"


lemma asked_run:
  "pipe_run paint (start_pipeline [] Map.empty)
     [CompositorStarted None, Edited [color_element] one_color None, ReceivedRender, FramesTaken, PendingCleared] asked"
  by (rule exec_all_run [OF pipe_start, of paint, simplified])
    (simp add: start_pipeline_def asked_def scene_changed_def request_render_def new_frame_hub_def take_frames_def
      clear_pending_def send_if_def)








theorem preview_settles_witness:
  "\<exists>ks p'. pipe_run paint asked ks p' \<and> (\<forall>l \<in> set ks. forced paint l) \<and> (\<not> pl_running p' \<or> pl_shown p' \<noteq> None)"
proof -
  have "rq_elements (current_request p') = [color_element]" if "pipe_run paint asked ks p'" "\<forall>l \<in> set ks. forced paint l" for ks p'
    using that
  proof (induction rule: pipe_run.induct)
    case pipe_start
    then show ?case by (simp add: asked_def current_request_def)
  next
    case (pipe_next ls p l p')
    have "pl_elements p' = pl_elements p" using pipe_next.hyps(2) pipe_next.prems
      by (cases rule: pipe_step.cases) (auto simp: forced_def submit_request_def drain_removed_sources_def Let_def)
    with pipe_next show ?case by (simp add: current_request_def)
  qed
  moreover have "rq_elements (current_request (start_pipeline [] Map.empty)) = []"
    by (simp add: current_request_def start_pipeline_def)
  ultimately have "\<not> same_request (current_request p') (current_request (start_pipeline [] Map.empty))"
    if "pipe_run paint asked ks p'" "\<forall>l \<in> set ks. forced paint l" for ks p'
    using that by (fastforce simp: same_request_def)
  with preview_settles [OF asked_run] show ?thesis by (fastforce split: option.splits)
qed

text \<open>
  A source that is removed and added again before the window handles the event of the removal loses the
  frames captured meanwhile: they are collected first and then dropped with the removed source.
\<close>

definition one_frame :: captured_frame where
  "one_frame = ScreenFrame (cs_pixel_buffer sample_source) None"

definition screen_element :: "real scene_element" where
  "screen_element = \<lparr>se_id = 2, se_source = DisplaySource 1, se_layout = inset_layout\<rparr>"

lemma readded_source_lost:
  "\<exists>p. pipe_run paint (start_pipeline [screen_element] Map.empty)
     [Edited [] Map.empty (Some (DisplaySource 1)), Edited [screen_element] Map.empty None,
      FrameInserted 5 (DisplaySource 1) one_frame, RenderRequested, ReceivedRender, FramesTaken, PendingCleared,
      RequestSubmitted] p
   \<and> pl_elements p = [screen_element] \<and> pl_source_frames p (DisplaySource 1) = None
   \<and> fh_frames (pl_hub p) = Map.empty \<and> pl_events p = [] \<and> pl_submitting p = 0"
proof -
  let ?ls = "[Edited [] Map.empty (Some (DisplaySource 1)), Edited [screen_element] Map.empty None,
      FrameInserted 5 (DisplaySource 1) one_frame, RenderRequested, ReceivedRender, FramesTaken, PendingCleared]"
  let ?t = "[DisplaySource 1 \<mapsto> one_frame]"
  obtain p where p: "exec_all paint ?ls (start_pipeline [screen_element] Map.empty) = Some p"
    "pl_window p = Cleared ?t" "pl_elements p = [screen_element]" "fh_removed_sources (pl_hub p) = [DisplaySource 1]"
    "fh_frames (pl_hub p) = Map.empty" "pl_events p = []" "pl_submitting p = 0"
    by (simp add: start_pipeline_def scene_changed_def request_render_def forget_source_def new_frame_hub_def
      insert_frame_def one_frame_def take_frames_def clear_pending_def send_if_def Let_def)
  have "\<not> conversion_fails ?t"
    by (auto simp: conversion_fails_def one_frame_def frame_dimensions_def sample_source_def u32_max_def split: if_splits)
  from submit_step [OF p(2) this exec_all_run [OF pipe_start p(1)]]
  have "pipe_run paint (start_pipeline [screen_element] Map.empty) (?ls @ [RequestSubmitted]) (submit_request ?t p)" by simp
  moreover have "pl_elements (submit_request ?t p) = [screen_element]"
    using p(3) by (simp add: submit_request_def drain_removed_sources_def)
  ultimately show ?thesis
    using p by (intro exI [of _ "submit_request ?t p"]) (simp add: drop_sources_def)
qed

end
