(* ===== verification/Studio_Viewer.thy ===== *)
theory Studio_Viewer
  imports Studio_Frames
begin

section \<open>The window of Blip Studio (FrameViewer in apps/blip-studio/src/viewer.rs)\<close>

text \<open>
  The window's state and every handler that changes it. What the capture frameworks, the publisher thread,
  the window system and the clock answer are arguments; what a handler does outside (saving the project,
  telling the frame hub, starting and stopping captures and the stream) is appended to \<open>vw_effects\<close>.
  The hash of a camera's identifier is the parameter \<open>hash\<close> of the functions that use it.
\<close>

subsection \<open>State\<close>

datatype capture_target =
  TargetDisplay nat
| TargetWindow nat "string option" "string option"
| TargetCamera string string

fun target_id :: "(string \<Rightarrow> nat) \<Rightarrow> capture_target \<Rightarrow> source_id" where
  "target_id hash (TargetDisplay i) = DisplaySource i"
| "target_id hash (TargetWindow i application title) = WindowSource i"
| "target_id hash (TargetCamera unique_id name) = CameraSource (hash unique_id)"

record capture_resource =
  cr_generation :: nat
  cr_configuration :: "((nat \<times> nat) \<times> real) option"
  cr_is_camera :: bool

datatype transform_adjustment =
  AdjustX | AdjustY | AdjustWidth | AdjustHeight | AdjustCornerRadius | AdjustRed | AdjustGreen | AdjustBlue

datatype open_menu = SourceMenu | CaptureMenu

datatype viewer_effect =
  SaveProject "fl project"
| SceneChanged "source_id option"
| StartCapture source_id nat
| StopCapture source_id nat
| SpawnCamera source_id nat
| StopStartedCamera source_id
| StartStream nat "nat \<times> nat"
| StopStream
| SendToStream nat
| StartMenuTimer nat

record viewer =
  vw_image :: "nat option"
  vw_content_dimensions :: "(nat \<times> nat) option"
  vw_scene :: "real scene"
  vw_rendered_elements :: "rendered_element list"
  vw_selected_item :: "nat option"
  vw_drag_operation :: "drag_operation option"
  vw_snap_guides :: snap_guides
  vw_hovered_handle :: "item_handle option"
  vw_corner_handle_hovered :: bool
  vw_focused_inputs :: "transform_adjustment set"
  vw_open_menu :: "open_menu option"
  vw_source_menu_visible :: bool
  vw_source_menu_transition :: nat
  vw_scene_dragging_item :: "nat option"
  vw_scene_drag_grab_offset :: "pos option"
  vw_scene_item_offsets :: "nat \<Rightarrow> real option"
  vw_scene_reorder_transition :: nat
  vw_scene_animation_started :: "nat option"
  vw_scene_list_bounds :: "bounds option"
  vw_scene_row_bounds :: "nat \<Rightarrow> bounds option"
  vw_targets :: "capture_target list"
  vw_captures :: "source_id \<Rightarrow> capture_resource option"
  vw_pending_captures :: "source_id \<Rightarrow> nat option"
  vw_failed_captures :: "source_id set"
  vw_next_capture_generation :: nat
  vw_colors :: "source_id \<Rightarrow> rgb option"
  vw_next_color_source_id :: nat
  vw_stream :: bool
  vw_stream_url :: string
  vw_stream_url_focused :: bool
  vw_stream_canvas :: "(nat \<times> nat) option"
  vw_stream_generation :: nat
  vw_control_error :: "string option"
  vw_infinite :: bool
  vw_effects :: "viewer_effect list"

subsection \<open>What handlers share\<close>

definition effect :: "viewer_effect \<Rightarrow> viewer \<Rightarrow> viewer" where
  "effect e v = v\<lparr>vw_effects := vw_effects v @ [e]\<rparr>"

definition save_viewer :: "viewer \<Rightarrow> viewer" where
  "save_viewer v = effect (SaveProject (scene_project (vw_scene v) (vw_colors v) (vw_selected_item v))) v"

definition changed_scene :: "source_id option \<Rightarrow> viewer \<Rightarrow> viewer" where
  "changed_scene removed v = effect (SceneChanged removed) v"

definition control_error :: "string \<Rightarrow> viewer \<Rightarrow> viewer" where
  "control_error e v = v\<lparr>vw_control_error := Some e\<rparr>"

definition rendered_transform :: "viewer \<Rightarrow> nat \<Rightarrow> item_transform option" where
  "rendered_transform v item = map_option re_transform (find (\<lambda>e. re_id e = item) (vw_rendered_elements v))"

definition keyboard_free :: "viewer \<Rightarrow> bool" where
  "keyboard_free v \<longleftrightarrow> \<not> vw_stream_url_focused v \<and> vw_focused_inputs v = {}"

subsection \<open>Menus and inputs\<close>

definition close_source_menu :: "viewer \<Rightarrow> viewer" where
  "close_source_menu v =
     (if \<not> vw_source_menu_visible v \<or> vw_open_menu v \<noteq> Some SourceMenu then v
      else let transition = saturating_add u64_max (vw_source_menu_transition v) 1
           in effect (StartMenuTimer transition) (v\<lparr>vw_source_menu_transition := transition, vw_open_menu := None\<rparr>))"

definition source_menu_timer :: "nat \<Rightarrow> viewer \<Rightarrow> viewer" where
  "source_menu_timer transition v =
     (if vw_open_menu v \<noteq> Some SourceMenu \<and> vw_source_menu_transition v = transition
      then v\<lparr>vw_source_menu_visible := False\<rparr> else v)"

definition toggle_source_menu :: "viewer \<Rightarrow> viewer" where
  "toggle_source_menu v =
     (if vw_open_menu v = Some SourceMenu then close_source_menu v
      else v\<lparr>vw_source_menu_transition := saturating_add u64_max (vw_source_menu_transition v) 1,
             vw_source_menu_visible := True, vw_open_menu := Some SourceMenu\<rparr>)"

definition toggle_capture_menu :: "viewer \<Rightarrow> viewer" where
  "toggle_capture_menu v =
     v\<lparr>vw_open_menu := (if vw_open_menu v = Some CaptureMenu then None else Some CaptureMenu)\<rparr>"

definition blur_inputs :: "viewer \<Rightarrow> viewer" where
  "blur_inputs v =
     (let v1 = (if vw_open_menu v = Some SourceMenu then close_source_menu v else v)
      in if vw_open_menu v1 = Some CaptureMenu then v1\<lparr>vw_open_menu := None\<rparr> else v1)"

definition focus_input :: "transform_adjustment \<Rightarrow> bool \<Rightarrow> viewer \<Rightarrow> viewer" where
  "focus_input a focused v =
     v\<lparr>vw_focused_inputs := (if focused then insert a (vw_focused_inputs v) else vw_focused_inputs v - {a})\<rparr>"

definition focus_stream_url :: "bool \<Rightarrow> viewer \<Rightarrow> viewer" where
  "focus_stream_url focused v = v\<lparr>vw_stream_url_focused := focused\<rparr>"

subsection \<open>The list of elements\<close>

definition select_scene_item :: "nat \<Rightarrow> viewer \<Rightarrow> viewer" where
  "select_scene_item item v = save_viewer (v\<lparr>vw_selected_item := Some item\<rparr>)"

definition start_scene_drag :: "nat \<Rightarrow> pos \<Rightarrow> viewer \<Rightarrow> viewer" where
  "start_scene_drag item grab_offset v =
     v\<lparr>vw_scene_dragging_item := Some item, vw_scene_drag_grab_offset := Some grab_offset,
       vw_selected_item := Some item\<rparr>"

definition drag_scene_item_over :: "nat \<Rightarrow> nat \<Rightarrow> real \<Rightarrow> viewer \<Rightarrow> viewer" where
  "drag_scene_item_over now dragged pointer_y v =
     (case (vw_scene_drag_grab_offset v, vw_scene_list_bounds v) of
        (Some grab_offset, Some b) \<Rightarrow>
          (case scene_drag_render_index pointer_y (snd grab_offset) b (length (sc_elements (vw_scene v))) of
             None \<Rightarrow> v
           | Some destination \<Rightarrow>
               (let previous_order = element_ids (vw_scene v);
                    (s, moved) = move_to_index dragged destination (vw_scene v)
                in if moved
                   then save_viewer (changed_scene None
                     (v\<lparr>vw_scene := s, vw_scene_item_offsets := scene_reorder_offsets previous_order s dragged,
                        vw_scene_reorder_transition := saturating_add u64_max (vw_scene_reorder_transition v) 1,
                        vw_scene_animation_started := Some now\<rparr>))
                   else v))
      | _ \<Rightarrow> v)"

definition shrink_offsets :: "real \<Rightarrow> (nat \<Rightarrow> real option) \<Rightarrow> nat \<Rightarrow> real option" where
  "shrink_offsets remaining m i =
     (case m i of None \<Rightarrow> None | Some offset \<Rightarrow> if 1/10 < \<bar>offset * remaining\<bar> then Some (offset * remaining) else None)"

definition animate_scene_drag_release :: "nat \<Rightarrow> pos \<Rightarrow> nat \<Rightarrow> viewer \<Rightarrow> viewer" where
  "animate_scene_drag_release now mouse item v =
     (case vw_scene_drag_grab_offset v of
        None \<Rightarrow> v
      | Some grab_offset \<Rightarrow>
          (let v1 = v\<lparr>vw_scene_drag_grab_offset := None\<rparr>
           in case vw_scene_list_bounds v1 of
                None \<Rightarrow> v1
              | Some b \<Rightarrow>
                  (let release_origin = clamped_scene_drag_origin
                         (fst mouse - fst grab_offset, snd mouse - snd grab_offset) b;
                       final_origin = (case vw_scene_row_bounds v1 item of
                           Some row \<Rightarrow> Some (bn_x row, bn_y row)
                         | None \<Rightarrow> scene_item_origin (vw_scene v1) item b)
                   in case final_origin of
                        None \<Rightarrow> v1
                      | Some final \<Rightarrow>
                          (let remaining = (case vw_scene_animation_started v1 of
                                   None \<Rightarrow> 0
                                 | Some started \<Rightarrow> scene_animation_remaining (now - started));
                               offsets = shrink_offsets remaining (vw_scene_item_offsets v1);
                               release_offset = snd release_origin - snd final
                           in v1\<lparr>vw_scene_item_offsets :=
                                  (if 1/10 < \<bar>release_offset\<bar> then offsets(item \<mapsto> release_offset) else offsets),
                                vw_scene_reorder_transition := saturating_add u64_max (vw_scene_reorder_transition v1) 1,
                                vw_scene_animation_started := Some now\<rparr>))))"

definition drop_scene_item :: "nat \<Rightarrow> pos \<Rightarrow> nat \<Rightarrow> viewer \<Rightarrow> viewer" where
  "drop_scene_item now mouse item v =
     save_viewer ((animate_scene_drag_release now mouse item v)
       \<lparr>vw_scene_dragging_item := None, vw_selected_item := Some item\<rparr>)"

subsection \<open>Deleting and nudging\<close>

text \<open>
  What \<open>delete_selected\<close> and \<open>replace_selected_capture\<close> do with a capture that no element uses any more;
  \<open>stop\<close> is what stopping it answers.
\<close>

definition release_capture :: "string option \<Rightarrow> source_id \<Rightarrow> viewer \<Rightarrow> viewer" where
  "release_capture stop source v =
     (let v1 = v\<lparr>vw_pending_captures := (vw_pending_captures v)(source := None),
                 vw_failed_captures := vw_failed_captures v - {source},
                 vw_captures := (vw_captures v)(source := None)\<rparr>
      in case vw_captures v source of
           None \<Rightarrow> v1
         | Some resource \<Rightarrow>
             (let v2 = effect (StopCapture source (cr_generation resource)) v1
              in case stop of None \<Rightarrow> v2 | Some e \<Rightarrow> control_error e v2))"

definition delete_selected :: "string option \<Rightarrow> viewer \<Rightarrow> viewer" where
  "delete_selected stop v =
     (if \<not> keyboard_free v then v
      else case vw_selected_item v of
             None \<Rightarrow> v
           | Some selected \<Rightarrow>
               (let v1 = v\<lparr>vw_selected_item := None\<rparr>
                in case scene_remove selected (vw_scene v1) of
                     (s, None) \<Rightarrow> v1
                   | (s, Some removed) \<Rightarrow>
                       (let v2 = v1\<lparr>vw_scene := s\<rparr>; source = se_source removed;
                            (v3, removed_source) =
                              (if uses_source source s then (v2, None)
                               else (case source of
                                       ColorSource i \<Rightarrow> v2\<lparr>vw_colors := (vw_colors v2)(source := None)\<rparr>
                                     | _ \<Rightarrow> release_capture stop source v2, Some source));
                            v4 = v3\<lparr>vw_rendered_elements := filter (\<lambda>e. re_id e \<noteq> selected) (vw_rendered_elements v3),
                                    vw_drag_operation := None, vw_hovered_handle := None,
                                    vw_corner_handle_hovered := False\<rparr>
                        in save_viewer (changed_scene removed_source v4))))"

definition edit_layout :: "nat \<Rightarrow> (real item_layout \<Rightarrow> real item_layout) \<Rightarrow> viewer \<Rightarrow> viewer" where
  "edit_layout item f v = v\<lparr>vw_scene := update_element item (\<lambda>e. e\<lparr>se_layout := f (se_layout e)\<rparr>) (vw_scene v)\<rparr>"

definition move_selected :: "pos \<Rightarrow> viewer \<Rightarrow> viewer" where
  "move_selected delta v =
     (if \<not> keyboard_free v then v
      else case vw_selected_item v of
             None \<Rightarrow> v
           | Some selected \<Rightarrow>
               (let (width, height) = unwrap_or (vw_content_dimensions v) DEFAULT_CANVAS_DIMENSIONS
                in if u32_max < width \<or> u32_max < height then v
                   else case scene_element_of selected (vw_scene v) of
                          None \<Rightarrow> v
                        | Some element \<Rightarrow>
                            save_viewer (changed_scene None (edit_layout selected
                              (\<lambda>l. l\<lparr>il_center := nudged_center (il_center l) delta (real width, real height)\<rparr>) v))))"

subsection \<open>The stream\<close>

text \<open>\<open>trimmed\<close> is the trimmed address; \<open>reply\<close> what \<open>RtmpStream::start\<close> answers.\<close>

definition toggle_stream :: "string \<Rightarrow> string + unit \<Rightarrow> viewer \<Rightarrow> viewer" where
  "toggle_stream trimmed reply v0 =
     (let v = v0\<lparr>vw_stream_generation := saturating_add u64_max (vw_stream_generation v0) 1\<rparr>
      in if vw_stream v
         then effect StopStream (v\<lparr>vw_stream := False, vw_stream_canvas := None, vw_control_error := None\<rparr>)
         else if trimmed = [] then control_error ''enter an RTMP URL before starting the stream'' v
         else case vw_content_dimensions v of
                None \<Rightarrow> control_error ''waiting for the first captured frame'' v
              | Some content \<Rightarrow>
                  (let dims = even_dimensions content;
                       v1 = effect (StartStream (vw_stream_generation v) dims) v
                   in case reply of
                        Inr _ \<Rightarrow> v1\<lparr>vw_stream_canvas := Some dims, vw_stream := True, vw_control_error := None\<rparr>
                      | Inl e \<Rightarrow> control_error e v1))"

definition stream_failed :: "nat \<Rightarrow> string \<Rightarrow> viewer \<Rightarrow> viewer" where
  "stream_failed generation message v =
     (if generation \<noteq> vw_stream_generation v then v
      else control_error message (v\<lparr>vw_stream := False, vw_stream_canvas := None\<rparr>))"

text \<open>\<open>sent\<close> is what \<open>RtmpStream::send\<close> answers.\<close>

definition show_frame :: "string option \<Rightarrow> composed_frame \<Rightarrow> viewer \<Rightarrow> viewer" where
  "show_frame sent f v =
     (let v1 = (if vw_stream v
                then (case sent of
                        None \<Rightarrow> effect (SendToStream (cf_image f)) v
                      | Some e \<Rightarrow> control_error e (effect (SendToStream (cf_image f))
                          (v\<lparr>vw_stream := False, vw_stream_canvas := None\<rparr>)))
                else v)
      in v1\<lparr>vw_image := Some (cf_image f), vw_content_dimensions := Some (cf_dimensions f),
            vw_rendered_elements := cf_elements f\<rparr>)"

subsection \<open>Captures\<close>

definition should_restart_capture :: "bool \<Rightarrow> nat option \<Rightarrow> nat \<Rightarrow> bool" where
  "should_restart_capture source_in_use current_generation failed_generation \<longleftrightarrow>
     source_in_use \<and> current_generation = Some failed_generation"

definition should_finish_pending_capture :: "nat option \<Rightarrow> nat \<Rightarrow> bool \<Rightarrow> bool" where
  "should_finish_pending_capture pending_generation completed_generation source_in_use \<longleftrightarrow>
     source_in_use \<and> pending_generation = Some completed_generation"

text \<open>
  A new capture of a display or window: \<open>reply\<close> is the configuration of the capturer that was built and
  started, or the error of either step.
\<close>

type_synonym configuration = "((nat \<times> nat) \<times> real) option"

definition open_capture :: "source_id \<Rightarrow> nat \<Rightarrow> bool \<Rightarrow> configuration \<Rightarrow> viewer \<Rightarrow> viewer" where
  "open_capture source generation is_camera configuration v =
     effect (StartCapture source generation)
       (v\<lparr>vw_captures := (vw_captures v)(source \<mapsto>
           \<lparr>cr_generation = generation, cr_configuration = configuration, cr_is_camera = is_camera\<rparr>)\<rparr>)"

text \<open>The common first part of adding and replacing: the source is captured, or the error is shown.\<close>

definition ensure_captured :: "source_id \<Rightarrow> string + configuration \<Rightarrow> viewer \<Rightarrow> viewer \<times> bool" where
  "ensure_captured source reply v =
     (if vw_captures v source \<noteq> None then (v, True)
      else case reply of
             Inl e \<Rightarrow> (control_error e v, False)
           | Inr configuration \<Rightarrow> (open_capture source 1 False configuration v, True))"

definition add_element :: "source_id \<Rightarrow> real item_layout \<Rightarrow> viewer \<Rightarrow> viewer" where
  "add_element source layout v =
     (let (s, i) = scene_add source layout (vw_scene v)
      in close_source_menu (v\<lparr>vw_scene := s, vw_selected_item := Some i\<rparr>))"

definition add_camera_target :: "source_id \<Rightarrow> viewer \<Rightarrow> viewer" where
  "add_camera_target source v =
     (let v1 = save_viewer (changed_scene None ((add_element source inset_layout v)\<lparr>vw_control_error := None\<rparr>))
      in if vw_captures v1 source \<noteq> None \<or> vw_pending_captures v1 source \<noteq> None then v1
         else let generation = vw_next_capture_generation v1
              in effect (SpawnCamera source generation)
                   (v1\<lparr>vw_next_capture_generation := saturating_add u64_max generation 1,
                       vw_pending_captures := (vw_pending_captures v1)(source \<mapsto> generation),
                       vw_failed_captures := vw_failed_captures v1 - {source}\<rparr>))"

definition add_capture_target :: "(string \<Rightarrow> nat) \<Rightarrow> nat \<Rightarrow> string + configuration \<Rightarrow> viewer \<Rightarrow> viewer" where
  "add_capture_target hash target_index reply v =
     (case list_get (vw_targets v) target_index of
        None \<Rightarrow> v
      | Some (TargetCamera unique_id name) \<Rightarrow> add_camera_target (CameraSource (hash unique_id)) v
      | Some target \<Rightarrow>
          (case ensure_captured (target_id hash target) reply v of
             (v1, False) \<Rightarrow> v1
           | (v1, True) \<Rightarrow>
               save_viewer (changed_scene None
                 ((add_element (target_id hash target) inset_layout v1)\<lparr>vw_control_error := None\<rparr>))))"

definition replace_selected_capture ::
    "(string \<Rightarrow> nat) \<Rightarrow> nat \<Rightarrow> string + configuration \<Rightarrow> string option \<Rightarrow> viewer \<Rightarrow> viewer" where
  "replace_selected_capture hash target_index reply stop v =
     (case (vw_selected_item v, list_get (vw_targets v) target_index) of
        (Some item, Some target) \<Rightarrow>
          (case target of
             TargetCamera unique_id name \<Rightarrow> v
           | _ \<Rightarrow>
               (let source = target_id hash target
                in case scene_element_of item (vw_scene v) of
                     None \<Rightarrow> v
                   | Some element \<Rightarrow>
                       (let previous = se_source element
                        in if source = previous then v\<lparr>vw_open_menu := None\<rparr>
                           else case ensure_captured source reply v of
                                  (v1, False) \<Rightarrow> v1
                                | (v1, True) \<Rightarrow>
                                    (let s = fst (replace_source item source (vw_scene v1));
                                         v2 = v1\<lparr>vw_scene := s, vw_control_error := None\<rparr>;
                                         (v3, removed_source) =
                                           (if uses_source previous s then (v2, None)
                                            else (release_capture stop previous v2, Some previous))
                                     in save_viewer (changed_scene removed_source (v3\<lparr>vw_open_menu := None\<rparr>))))))
      | _ \<Rightarrow> v)"

definition camera_started :: "source_id \<Rightarrow> nat \<Rightarrow> string + configuration \<Rightarrow> viewer \<Rightarrow> viewer" where
  "camera_started source generation result v =
     (if \<not> should_finish_pending_capture (vw_pending_captures v source) generation (uses_source source (vw_scene v))
      then (case result of Inr _ \<Rightarrow> effect (StopStartedCamera source) v | Inl _ \<Rightarrow> v)
      else let v1 = v\<lparr>vw_pending_captures := (vw_pending_captures v)(source := None)\<rparr>;
               v2 = (case result of
                       Inr configuration \<Rightarrow>
                         v1\<lparr>vw_captures := (vw_captures v1)(source \<mapsto>
                              \<lparr>cr_generation = generation, cr_configuration = configuration, cr_is_camera = True\<rparr>),
                            vw_failed_captures := vw_failed_captures v1 - {source}, vw_control_error := None\<rparr>
                     | Inl e \<Rightarrow> control_error e (v1\<lparr>vw_failed_captures := insert source (vw_failed_captures v1)\<rparr>))
           in changed_scene None v2)"

text \<open>
  \<open>capture_failed\<close>: a capture that is still the current one of a source in use is replaced; \<open>reply\<close> is the
  new one's configuration or the error of starting it.
\<close>

fun debug_source :: "source_id \<Rightarrow> string" where
  "debug_source (DisplaySource i) = ''Display('' @ show_nat i @ '')''"
| "debug_source (WindowSource i) = ''Window('' @ show_nat i @ '')''"
| "debug_source (CameraSource i) = ''Camera('' @ show_nat i @ '')''"
| "debug_source (ColorSource i) = ''Color('' @ show_nat i @ '')''"

definition capture_failed ::
    "(string \<Rightarrow> nat) \<Rightarrow> source_id \<Rightarrow> nat \<Rightarrow> string \<Rightarrow> string + configuration \<Rightarrow> viewer \<Rightarrow> viewer" where
  "capture_failed hash source generation message reply v =
     (if \<not> should_restart_capture (uses_source source (vw_scene v))
           (map_option cr_generation (vw_captures v source)) generation then v
      else let v1 = v\<lparr>vw_captures := (vw_captures v)(source := None)\<rparr>
           in case find (\<lambda>t. target_id hash t = source) (vw_targets v1) of
                None \<Rightarrow> control_error (debug_source source @ '': '' @ message @ ''; source is unavailable'') v1
              | Some target \<Rightarrow>
                  (case reply of
                     Inr configuration \<Rightarrow>
                       (open_capture source (saturating_add u64_max generation 1)
                          (case target of TargetCamera u n \<Rightarrow> True | _ \<Rightarrow> False) configuration v1)
                         \<lparr>vw_control_error := None\<rparr>
                   | Inl e \<Rightarrow> control_error (debug_source source @ '': '' @ message @ ''; failed to restart capture: '' @ e) v1))"

subsection \<open>Colors\<close>

definition add_color_source :: "viewer \<Rightarrow> viewer" where
  "add_color_source v =
     (let source = ColorSource (vw_next_color_source_id v);
          v1 = v\<lparr>vw_next_color_source_id := saturating_add u64_max (vw_next_color_source_id v) 1,
                 vw_colors := (vw_colors v)(source \<mapsto> (88, 101, 242))\<rparr>
      in save_viewer (changed_scene None (add_element source full_canvas_layout v1)))"

definition selected_source :: "viewer \<Rightarrow> source_id option" where
  "selected_source v =
     (case vw_selected_item v of
        None \<Rightarrow> None
      | Some item \<Rightarrow> map_option se_source (scene_element_of item (vw_scene v)))"

definition selected_color :: "viewer \<Rightarrow> rgb option" where
  "selected_color v = (case selected_source v of None \<Rightarrow> None | Some source \<Rightarrow> vw_colors v source)"

definition edit_color :: "(rgb \<Rightarrow> rgb) \<Rightarrow> viewer \<Rightarrow> viewer" where
  "edit_color f v =
     (case selected_source v of
        None \<Rightarrow> v
      | Some source \<Rightarrow>
          (case vw_colors v source of
             None \<Rightarrow> v
           | Some c \<Rightarrow> save_viewer (changed_scene None (v\<lparr>vw_colors := (vw_colors v)(source \<mapsto> f c)\<rparr>))))"

definition set_selected_color :: "rgb \<Rightarrow> viewer \<Rightarrow> viewer" where
  "set_selected_color color v = edit_color (\<lambda>_. color) v"

subsection \<open>Typing a number\<close>

text \<open>
  The inputs tell an \<open>f32\<close>, which is infinite for a number of 39 digits. A colour's channel saturates, and
  so do the corner radius and, downwards, the size.
\<close>

fun color_channel :: "fl \<Rightarrow> nat" where
  "color_channel (Fin x) = nat (max 0 (min (round_away x) 255))"
| "color_channel PosInf = 255"
| "color_channel NegInf = 0"
| "color_channel NaN = 0"

definition layout_value :: "transform_adjustment \<Rightarrow> real \<Rightarrow> pos \<Rightarrow> pos \<Rightarrow> real item_layout \<Rightarrow> real item_layout" where
  "layout_value a value canvas extent l =
     (case a of
        AdjustX \<Rightarrow> l\<lparr>il_center := (value / fst canvas + fst extent * (1/2), snd (il_center l))\<rparr>
      | AdjustY \<Rightarrow> l\<lparr>il_center := (fst (il_center l), value / snd canvas + snd extent * (1/2))\<rparr>
      | AdjustWidth \<Rightarrow> l\<lparr>il_size := scaled_size (il_size l) (max value 1 / (fst extent * fst canvas))\<rparr>
      | AdjustHeight \<Rightarrow> l\<lparr>il_size := scaled_size (il_size l) (max value 1 / (snd extent * snd canvas))\<rparr>
      | AdjustCornerRadius \<Rightarrow>
          (let maximum = min (fst extent * fst canvas) (snd extent * snd canvas) * (1/2)
           in l\<lparr>il_corner_radius_ratio := (if 0 < maximum then clamp value 0 maximum / (maximum * 2) else 0)\<rparr>)
      | _ \<Rightarrow> l)"

text \<open>The finite number a typed value acts as, or \<open>None\<close> if the layout follows it to infinity.\<close>

fun acts_as :: "transform_adjustment \<Rightarrow> real \<Rightarrow> fl \<Rightarrow> real option" where
  "acts_as a maximum (Fin x) = Some x"
| "acts_as AdjustCornerRadius maximum PosInf = Some maximum"
| "acts_as AdjustCornerRadius maximum NegInf = Some 0"
| "acts_as AdjustCornerRadius maximum NaN = (if 0 < maximum then None else Some 0)"
| "acts_as AdjustX maximum value = None"
| "acts_as AdjustY maximum value = None"
| "acts_as a maximum value = (if value = PosInf then None else Some 1)"

definition infinite_layout :: "transform_adjustment \<Rightarrow> fl \<Rightarrow> real item_layout \<Rightarrow> fl item_layout" where
  "infinite_layout a value l0 =
     (let l = map_layout to_f32 l0
      in case a of
           AdjustX \<Rightarrow> l\<lparr>il_center := (value, snd (il_center l))\<rparr>
         | AdjustY \<Rightarrow> l\<lparr>il_center := (fst (il_center l), value)\<rparr>
         | AdjustCornerRadius \<Rightarrow> l\<lparr>il_corner_radius_ratio := value\<rparr>
         | _ \<Rightarrow> l\<lparr>il_size := (value, value)\<rparr>)"

definition typed_layout :: "transform_adjustment \<Rightarrow> fl \<Rightarrow> pos \<Rightarrow> pos \<Rightarrow> real item_layout \<Rightarrow> fl item_layout" where
  "typed_layout a value canvas extent l =
     (let maximum = min (fst extent * fst canvas) (snd extent * snd canvas) * (1/2)
      in case acts_as a maximum value of
           None \<Rightarrow> infinite_layout a value l
         | Some x \<Rightarrow> map_layout to_f32 (layout_value a x canvas extent l))"

definition finite_layout :: "fl item_layout \<Rightarrow> bool" where
  "finite_layout l \<longleftrightarrow> list_all is_finite
     [fst (il_center l), snd (il_center l), fst (il_size l), snd (il_size l), il_corner_radius_ratio l]"

text \<open>
  The model follows a session while its numbers are finite. An infinite layout is written to the scene and
  saved like any other; \<open>vw_infinite\<close> records it, and the sessions below end there.
\<close>

definition set_layout :: "nat \<Rightarrow> fl item_layout \<Rightarrow> viewer \<Rightarrow> viewer" where
  "set_layout item l v =
     (if finite_layout l then save_viewer (changed_scene None (edit_layout item (\<lambda>_. map_layout fl_val l) v))
      else effect (SaveProject (project_snapshot
             (update_element item (\<lambda>e. e\<lparr>se_layout := l\<rparr>) (map_scene Fin (vw_scene v))) (vw_colors v) (vw_selected_item v)))
           (changed_scene None (v\<lparr>vw_infinite := True\<rparr>)))"

definition set_transform_value :: "transform_adjustment \<Rightarrow> fl \<Rightarrow> viewer \<Rightarrow> viewer" where
  "set_transform_value a value v =
     (case vw_selected_item v of
        None \<Rightarrow> v
      | Some item \<Rightarrow>
          (case a of
             AdjustRed \<Rightarrow> edit_color (\<lambda>(r, g, b). (color_channel value, g, b)) v
           | AdjustGreen \<Rightarrow> edit_color (\<lambda>(r, g, b). (r, color_channel value, b)) v
           | AdjustBlue \<Rightarrow> edit_color (\<lambda>(r, g, b). (r, g, color_channel value)) v
           | _ \<Rightarrow>
               (case (vw_content_dimensions v, rendered_transform v item) of
                  (Some canvas, Some t) \<Rightarrow>
                    (case scene_element_of item (vw_scene v) of
                       None \<Rightarrow> v
                     | Some element \<Rightarrow>
                         set_layout item (typed_layout a value (real (fst canvas), real (snd canvas)) (it_size t)
                           (se_layout element)) v)
                | _ \<Rightarrow> v)))"

subsection \<open>Dragging on the canvas\<close>

definition hit_item :: "bounds \<Rightarrow> pos \<Rightarrow> viewer \<Rightarrow> nat option" where
  "hit_item frame p v =
     map_option re_id (find (\<lambda>e. bn_contains (transform_bounds frame (re_transform e)) p) (rev (vw_rendered_elements v)))"

definition begin_move :: "bounds \<Rightarrow> pos \<Rightarrow> viewer \<Rightarrow> viewer" where
  "begin_move frame p v =
     (let selected_item = hit_item frame p v
      in v\<lparr>vw_selected_item := selected_item, vw_hovered_handle := None, vw_corner_handle_hovered := False,
           vw_drag_operation := map_option (\<lambda>item.
             let center = (case rendered_transform v item of None \<Rightarrow> (1/2, 1/2) | Some t \<Rightarrow> it_center t)
             in MoveItem item
                  (normalized_position (fst p) (bn_x frame) (bn_width frame) - fst center,
                   normalized_position (snd p) (bn_y frame) (bn_height frame) - snd center)) selected_item\<rparr>)"

text \<open>\<open>None\<close> is the panic of \<open>clamped_corner_radius\<close>.\<close>

definition begin_drag :: "pos \<Rightarrow> pos \<Rightarrow> viewer \<Rightarrow> viewer option" where
  "begin_drag viewport p v0 =
     (let v = v0\<lparr>vw_snap_guides := no_guides\<rparr>
      in case vw_content_dimensions v of
           None \<Rightarrow> Some v
         | Some content \<Rightarrow>
             (case preview_frame_bounds viewport content of
                None \<Rightarrow> Some v
              | Some frame \<Rightarrow>
                  (case vw_selected_item v of
                     None \<Rightarrow> Some (begin_move frame p v)
                   | Some item \<Rightarrow>
                       (case rendered_transform v item of
                          None \<Rightarrow> Some v
                        | Some t \<Rightarrow>
                            (let b = transform_bounds frame t
                             in case item_corner_radius frame content t of
                                  None \<Rightarrow> None
                                | Some radius \<Rightarrow>
                                    if bn_contains (corner_radius_handle_bounds b radius) p
                                    then Some (v\<lparr>vw_drag_operation := Some (CornerRadius item b),
                                      vw_corner_handle_hovered := True, vw_hovered_handle := None\<rparr>)
                                    else case item_handle_at p b of
                                           None \<Rightarrow> Some (begin_move frame p v)
                                         | Some handle \<Rightarrow>
                                             (case scene_element_of item (vw_scene v) of
                                                None \<Rightarrow> Some v
                                              | Some element \<Rightarrow>
                                                  Some (v\<lparr>vw_drag_operation := Some (resize_operation item handle t
                                                      (il_size (se_layout element))),
                                                    vw_hovered_handle := Some handle,
                                                    vw_corner_handle_hovered := False\<rparr>)))))))"

definition reposition_item :: "nat \<Rightarrow> pos \<Rightarrow> pos \<Rightarrow> pos \<Rightarrow> viewer \<Rightarrow> viewer" where
  "reposition_item item offset viewport p v =
     (case vw_content_dimensions v of
        None \<Rightarrow> v
      | Some content \<Rightarrow>
          (case (preview_frame_bounds viewport content, rendered_transform v item) of
             (Some frame, Some t) \<Rightarrow>
               (let center = (normalized_position_unclamped (fst p) (bn_x frame) (bn_width frame) - fst offset,
                              normalized_position_unclamped (snd p) (bn_y frame) (bn_height frame) - snd offset);
                    (snapped, guides) = snapped_move_center center (it_size t) (normalized_snap_threshold frame);
                    v1 = v\<lparr>vw_snap_guides := guides\<rparr>
                in case scene_element_of item (vw_scene v1) of
                     None \<Rightarrow> v1
                   | Some element \<Rightarrow> changed_scene None (edit_layout item (\<lambda>l. l\<lparr>il_center := snapped\<rparr>) v1))
           | _ \<Rightarrow> v))"

definition resize_dragged ::
    "nat \<Rightarrow> item_handle \<Rightarrow> item_transform \<Rightarrow> pos \<Rightarrow> pos \<Rightarrow> pos \<Rightarrow> pos \<Rightarrow> viewer \<Rightarrow> viewer" where
  "resize_dragged item handle initial_transform initial_size anchor viewport p v =
     (case vw_content_dimensions v of
        None \<Rightarrow> v
      | Some content \<Rightarrow>
          (case preview_frame_bounds viewport content of
             None \<Rightarrow> v
           | Some frame \<Rightarrow>
               (let pointer = (normalized_position_unclamped (fst p) (bn_x frame) (bn_width frame),
                               normalized_position_unclamped (snd p) (bn_y frame) (bn_height frame));
                    (center, scale_ratio, guides) = resized_item_with_border_snap handle initial_transform anchor
                      pointer (minimum_resize_ratio initial_size) (normalized_snap_threshold frame);
                    v1 = v\<lparr>vw_snap_guides := guides\<rparr>
                in case scene_element_of item (vw_scene v1) of
                     None \<Rightarrow> v1
                   | Some element \<Rightarrow>
                       changed_scene None (edit_layout item
                         (\<lambda>l. l\<lparr>il_center := center, il_size := scaled_size initial_size scale_ratio\<rparr>) v1))))"

definition adjust_corner_radius :: "nat \<Rightarrow> bounds \<Rightarrow> pos \<Rightarrow> viewer \<Rightarrow> viewer" where
  "adjust_corner_radius item b p v =
     (case scene_element_of item (vw_scene v) of
        None \<Rightarrow> v
      | Some element \<Rightarrow>
          changed_scene None (edit_layout item
            (\<lambda>l. l\<lparr>il_corner_radius_ratio := corner_radius_ratio_from_position b p\<rparr>) v))"

text \<open>What the pointer is over when nothing is dragged; the outer \<open>None\<close> is the panic.\<close>

definition hovered_at :: "pos \<Rightarrow> pos \<Rightarrow> viewer \<Rightarrow> (item_handle option \<times> bool) option" where
  "hovered_at viewport p v =
     (case (vw_selected_item v, vw_content_dimensions v) of
        (Some item, Some content) \<Rightarrow>
          (case (preview_frame_bounds viewport content, rendered_transform v item) of
             (Some frame, Some t) \<Rightarrow>
               (let b = transform_bounds frame t
                in map_option (\<lambda>radius.
                     if bn_contains (corner_radius_handle_bounds b radius) p then (None, True)
                     else (item_handle_at p b, False)) (item_corner_radius frame content t))
           | _ \<Rightarrow> Some (None, False))
      | _ \<Rightarrow> Some (None, False))"

definition drag_inset :: "pos \<Rightarrow> pos \<Rightarrow> viewer \<Rightarrow> viewer option" where
  "drag_inset viewport p v =
     (case vw_drag_operation v of
        Some (MoveItem item offset) \<Rightarrow> Some (reposition_item item offset viewport p v)
      | Some (ResizeItem item handle t extent anchor) \<Rightarrow>
          Some (resize_dragged item handle t extent anchor viewport p v)
      | Some (CornerRadius item b) \<Rightarrow> Some (adjust_corner_radius item b p v)
      | None \<Rightarrow>
          map_option (\<lambda>(handle, corner). v\<lparr>vw_hovered_handle := handle, vw_corner_handle_hovered := corner\<rparr>)
            (hovered_at viewport p v))"

definition end_drag :: "nat \<Rightarrow> pos \<Rightarrow> viewer \<Rightarrow> viewer" where
  "end_drag now mouse v =
     (let project_changed = (vw_drag_operation v \<noteq> None \<or> vw_scene_dragging_item v \<noteq> None);
          v1 = v\<lparr>vw_drag_operation := None, vw_snap_guides := no_guides\<rparr>;
          v2 = (case vw_scene_dragging_item v1 of
                  None \<Rightarrow> v1
                | Some item \<Rightarrow> animate_scene_drag_release now mouse item v1);
          v3 = v2\<lparr>vw_scene_dragging_item := None\<rparr>
      in if project_changed then save_viewer v3 else v3)"

subsection \<open>Labels and starting\<close>

datatype source_group = Displays | Windows | Cameras

fun group_contains :: "source_group \<Rightarrow> capture_target \<Rightarrow> bool" where
  "group_contains Displays (TargetDisplay i) \<longleftrightarrow> True"
| "group_contains Windows (TargetWindow i application title) \<longleftrightarrow> True"
| "group_contains Cameras (TargetCamera u n) \<longleftrightarrow> True"
| "group_contains _ _ \<longleftrightarrow> False"

fun target_label :: "capture_target \<Rightarrow> string" where
  "target_label (TargetDisplay i) = ''Display '' @ show_nat i"
| "target_label (TargetWindow i application title) =
     unwrap_or application ''Unknown app'' @ '' - '' @ unwrap_or title ''Untitled''"
| "target_label (TargetCamera unique_id name) = name"

definition named_target :: "(string \<Rightarrow> nat) \<Rightarrow> string \<Rightarrow> source_id \<Rightarrow> viewer \<Rightarrow> string" where
  "named_target hash missing source v =
     (case find (\<lambda>t. target_id hash t = source) (vw_targets v) of None \<Rightarrow> missing | Some t \<Rightarrow> target_label t)"

definition source_label :: "(string \<Rightarrow> nat) \<Rightarrow> camera_status option \<Rightarrow> source_id \<Rightarrow> viewer \<Rightarrow> string" where
  "source_label hash status source v =
     (case source of
        ColorSource i \<Rightarrow> ''Color''
      | CameraSource i \<Rightarrow>
          (let label = named_target hash ''Unavailable camera'' source v
           in if vw_pending_captures v source \<noteq> None then label @ '' - Loading...''
              else if source \<in> vw_failed_captures v then label @ '' - Failed''
              else case status of
                     None \<Rightarrow> label
                   | Some st \<Rightarrow> if cst_dropped_frames st = 0 then label
                               else label @ '' - '' @ show_nat (cst_dropped_frames st) @ '' dropped'')
      | _ \<Rightarrow> named_target hash ''Unavailable capture'' source v)"

text \<open>Which target the program starts with: the display or window asked for, or the main display.\<close>

definition selected_target_index ::
    "capture_target list \<Rightarrow> nat option \<Rightarrow> nat option \<Rightarrow> nat option \<Rightarrow> string + nat" where
  "selected_target_index targets main_id display window =
     (let index_of = (\<lambda>P. ok_or (Blip_Prelude.position P targets) ''requested capture target is not available'');
          is_display = (\<lambda>i t. case t of TargetDisplay j \<Rightarrow> j = i | _ \<Rightarrow> False)
      in case display of
           Some i \<Rightarrow> index_of (is_display i)
         | None \<Rightarrow>
             (case window of
                Some i \<Rightarrow> index_of (\<lambda>t. case t of TargetWindow j _ _ \<Rightarrow> j = i | _ \<Rightarrow> False)
              | None \<Rightarrow>
                  (case main_id of
                     None \<Rightarrow> Inl ''the main display is not available to ScreenCaptureKit''
                   | Some i \<Rightarrow> index_of (is_display i))))"

text \<open>
  The captures started with the window: of the initial target and of every target the scene uses, each source
  once. \<open>start t\<close> is the configuration of the target's capturer or the error of building or starting it.
\<close>

fun start_captures ::
    "(string \<Rightarrow> nat) \<Rightarrow> (capture_target \<Rightarrow> string + configuration) \<Rightarrow> source_id \<Rightarrow> real scene \<Rightarrow> capture_target list
     \<Rightarrow> (source_id \<Rightarrow> capture_resource option) \<Rightarrow> nat \<Rightarrow> string + (source_id \<Rightarrow> capture_resource option) \<times> nat" where
  "start_captures hash start initial s [] captures generation = Inr (captures, generation)"
| "start_captures hash start initial s (t # ts) captures generation =
     (let source = target_id hash t
      in if captures source \<noteq> None \<or> (source \<noteq> initial \<and> \<not> uses_source source s)
         then start_captures hash start initial s ts captures generation
         else case start t of
                Inr configuration \<Rightarrow>
                  start_captures hash start initial s ts
                    (captures(source \<mapsto> \<lparr>cr_generation = generation, cr_configuration = configuration,
                      cr_is_camera = (case t of TargetCamera u n \<Rightarrow> True | _ \<Rightarrow> False)\<rparr>))
                    (saturating_add u64_max generation 1)
              | Inl e \<Rightarrow>
                  if source = initial then Inl e
                  else start_captures hash start initial s ts captures generation)"

definition initial_project ::
    "source_id \<Rightarrow> real project option \<Rightarrow> real scene \<times> (source_id \<Rightarrow> rgb option) \<times> nat option \<times> nat" where
  "initial_project initial loaded =
     (case loaded of
        Some p \<Rightarrow> restore_project p
      | None \<Rightarrow>
          (let (s, selected) = scene_add initial inset_layout (fst (scene_add initial full_canvas_layout new_scene))
           in (s, Map.empty, Some selected, 1)))"

definition new_viewer ::
    "capture_target list \<Rightarrow> real scene \<times> (source_id \<Rightarrow> rgb option) \<times> nat option \<times> nat
     \<Rightarrow> (source_id \<Rightarrow> capture_resource option) \<Rightarrow> nat \<Rightarrow> viewer" where
  "new_viewer targets restored captures generation =
     (case restored of (s, colors, selected, next_color) \<Rightarrow>
        \<lparr>vw_image = None, vw_content_dimensions = None, vw_scene = s, vw_rendered_elements = [],
         vw_selected_item = selected, vw_drag_operation = None, vw_snap_guides = no_guides, vw_hovered_handle = None,
         vw_corner_handle_hovered = False, vw_focused_inputs = {}, vw_open_menu = None,
         vw_source_menu_visible = False, vw_source_menu_transition = 0, vw_scene_dragging_item = None,
         vw_scene_drag_grab_offset = None, vw_scene_item_offsets = Map.empty, vw_scene_reorder_transition = 0,
         vw_scene_animation_started = None, vw_scene_list_bounds = None, vw_scene_row_bounds = Map.empty,
         vw_targets = targets, vw_captures = captures, vw_pending_captures = Map.empty, vw_failed_captures = {},
         vw_next_capture_generation = generation, vw_colors = colors, vw_next_color_source_id = next_color,
         vw_stream = False, vw_stream_url = [], vw_stream_url_focused = False, vw_stream_canvas = None,
         vw_stream_generation = 0, vw_control_error = None, vw_infinite = False,
         vw_effects = []\<rparr>)"

definition open_studio ::
    "(string \<Rightarrow> nat) \<Rightarrow> capture_target list \<Rightarrow> nat option \<Rightarrow> nat option \<Rightarrow> nat option \<Rightarrow> real project option
     \<Rightarrow> (capture_target \<Rightarrow> string + configuration) \<Rightarrow> string + viewer" where
  "open_studio hash targets main_id display window loaded start =
     and_then (selected_target_index targets main_id display window) (\<lambda>i.
     and_then (ok_or (list_get targets i) ''the main display is not available to ScreenCaptureKit'') (\<lambda>target.
       let initial = target_id hash target;
           restored = initial_project initial loaded
       in and_then (start_captures hash start initial (fst restored) (target # targets) Map.empty 1)
            (\<lambda>(captures, generation). Inr (new_viewer targets restored captures generation))))"

text \<open>Leaving: every capture is stopped, and the first error is the answer. \<open>stops\<close>: what stopping each answers.\<close>

fun stop_captures :: "string option list \<Rightarrow> string option \<Rightarrow> string + unit" where
  "stop_captures [] first_error = (case first_error of None \<Rightarrow> Inr () | Some e \<Rightarrow> Inl e)"
| "stop_captures (answer # stops) first_error =
     stop_captures stops (if first_error = None then answer else first_error)"

definition frame_rate_label :: "real \<Rightarrow> string" where
  "frame_rate_label fps =
     (if \<bar>fps - real_of_int (round_away fps)\<bar> < 1/100 then show_int (round_half_even fps) @ '' FPS''
      else let hundredths = nat (round_half_even (fps * 100))
           in show_nat (hundredths div 100) @ ''.'' @ pad_zero 2 (show_nat (hundredths mod 100)) @ '' FPS'')"

definition camera_configuration :: "((int \<times> int) \<times> real) option \<Rightarrow> configuration" where
  "camera_configuration format =
     (case format of
        None \<Rightarrow> None
      | Some ((width, height), frame_rate) \<Rightarrow>
          if width < 0 \<or> height < 0 then None else Some ((nat width, nat height), frame_rate))"

end
