(* ===== verification/Studio_Session.thy ===== *)
theory Studio_Session
  imports Studio_Viewer
begin

section \<open>Sessions of Blip Studio\<close>

text \<open>
  Everything that can reach the window of Blip Studio, one operation per handler with what the outside answers,
  and what holds after any number of them: the scene stays well formed, nothing panics, and the projects saved
  on the way load again.
\<close>

subsection \<open>Operations\<close>

datatype viewer_op =
  PressSourceMenu | SourceMenuTimer nat | PressCaptureMenu | BlurInputs
| FocusInput transform_adjustment bool | FocusStreamUrl bool
| SelectItem nat | StartSceneDrag nat pos | DragSceneOver nat nat real | DropSceneItem nat pos nat
| MeasureList bounds | MeasureRow nat bounds
| DeleteSelected "string option" | MoveSelected pos
| ToggleStream string "string + unit" | StreamFailed nat string | ShowFrame "string option" composed_frame
| AddTarget nat "string + configuration" | ReplaceCapture nat "string + configuration" "string option"
| CameraStarted source_id nat "string + configuration"
| CaptureFailed source_id nat string "string + configuration"
| AddColor | SetColor rgb | SetValue transform_adjustment fl
| BeginDrag pos pos | MovePointer pos pos | EndDrag nat pos

fun view_op :: "(string \<Rightarrow> nat) \<Rightarrow> viewer_op \<Rightarrow> viewer \<Rightarrow> viewer option" where
  "view_op hash PressSourceMenu v = Some (toggle_source_menu v)"
| "view_op hash (SourceMenuTimer n) v = Some (source_menu_timer n v)"
| "view_op hash PressCaptureMenu v = Some (toggle_capture_menu v)"
| "view_op hash BlurInputs v = Some (blur_inputs v)"
| "view_op hash (FocusInput a b) v = Some (focus_input a b v)"
| "view_op hash (FocusStreamUrl b) v = Some (focus_stream_url b v)"
| "view_op hash (SelectItem i) v = Some (select_scene_item i v)"
| "view_op hash (StartSceneDrag i p) v = Some (start_scene_drag i p v)"
| "view_op hash (DragSceneOver now i y) v = Some (drag_scene_item_over now i y v)"
| "view_op hash (DropSceneItem now p i) v = Some (drop_scene_item now p i v)"
| "view_op hash (MeasureList b) v = Some (v\<lparr>vw_scene_list_bounds := Some b\<rparr>)"
| "view_op hash (MeasureRow i b) v = Some (v\<lparr>vw_scene_row_bounds := (vw_scene_row_bounds v)(i \<mapsto> b)\<rparr>)"
| "view_op hash (DeleteSelected stop) v = Some (delete_selected stop v)"
| "view_op hash (MoveSelected d) v = Some (move_selected d v)"
| "view_op hash (ToggleStream url reply) v = Some (toggle_stream url reply v)"
| "view_op hash (StreamFailed g e) v = Some (stream_failed g e v)"
| "view_op hash (ShowFrame sent f) v = Some (show_frame sent f v)"
| "view_op hash (AddTarget i reply) v = Some (add_capture_target hash i reply v)"
| "view_op hash (ReplaceCapture i reply stop) v = Some (replace_selected_capture hash i reply stop v)"
| "view_op hash (CameraStarted s g r) v = Some (camera_started s g r v)"
| "view_op hash (CaptureFailed s g e reply) v = Some (capture_failed hash s g e reply v)"
| "view_op hash AddColor v = Some (add_color_source v)"
| "view_op hash (SetColor c) v = Some (set_selected_color c v)"
| "view_op hash (SetValue a x) v = Some (set_transform_value a x v)"
| "view_op hash (BeginDrag viewport p) v = begin_drag viewport p v"
| "view_op hash (MovePointer viewport p) v = drag_inset viewport p v"
| "view_op hash (EndDrag now p) v = Some (end_drag now p v)"

text \<open>
  What the compositor hands over: a canvas of at least one pixel, and elements drawn with a positive extent
  (\<open>compose_scene_correct\<close> gives it for sources of positive size).
\<close>

definition frame_ok :: "composed_frame \<Rightarrow> bool" where
  "frame_ok f \<longleftrightarrow> 0 < fst (cf_dimensions f) \<and> 0 < snd (cf_dimensions f)
     \<and> (\<forall>e \<in> set (cf_elements f). positive (it_size (re_transform e)))"

fun op_ok :: "viewer_op \<Rightarrow> bool" where
  "op_ok (ShowFrame sent f) = frame_ok f"
| "op_ok op = True"

subsection \<open>The invariant\<close>

definition scene_inv :: "viewer \<Rightarrow> bool" where
  "scene_inv v \<longleftrightarrow> scene_ok (vw_scene v) \<and> layouts_ok (vw_scene v)
     \<and> colors_ok (vw_scene v) (vw_colors v) (vw_next_color_source_id v)"

fun drag_ok :: "drag_operation \<Rightarrow> bool" where
  "drag_ok (ResizeItem item handle t extent anchor) \<longleftrightarrow> positive extent"
| "drag_ok d \<longleftrightarrow> True"

definition drawn_inv :: "viewer \<Rightarrow> bool" where
  "drawn_inv v \<longleftrightarrow> (\<forall>e \<in> set (vw_rendered_elements v). positive (it_size (re_transform e)))
     \<and> (\<forall>c. vw_content_dimensions v = Some c \<longrightarrow> 0 < fst c \<and> 0 < snd c)
     \<and> (\<forall>d. vw_drag_operation v = Some d \<longrightarrow> Studio_Session.drag_ok d)"

definition stream_inv :: "viewer \<Rightarrow> bool" where
  "stream_inv v \<longleftrightarrow> (vw_stream v \<longleftrightarrow> vw_stream_canvas v \<noteq> None)
     \<and> (\<forall>d. vw_stream_canvas v = Some d \<longrightarrow> even (fst d) \<and> even (snd d))"

definition capture_inv :: "viewer \<Rightarrow> bool" where
  "capture_inv v \<longleftrightarrow> (\<forall>s g. vw_pending_captures v s = Some g \<longrightarrow>
     (\<exists>i. s = CameraSource i) \<and> uses_source s (vw_scene v) \<and> vw_captures v s = None \<and> s \<notin> vw_failed_captures v)"

definition viewer_ok :: "viewer \<Rightarrow> bool" where
  "viewer_ok v \<longleftrightarrow> scene_inv v \<and> drawn_inv v \<and> stream_inv v \<and> capture_inv v"

text \<open>Identifiers are left: one more element or colour can be numbered.\<close>

definition ids_left :: "viewer \<Rightarrow> bool" where
  "ids_left v \<longleftrightarrow> sc_next_id (vw_scene v) < u64_max \<and> vw_next_color_source_id v < u64_max"

subsection \<open>What the helpers change\<close>

lemmas viewer_helpers = effect_def save_viewer_def changed_scene_def control_error_def

lemma close_source_menu_fields [simp]:
  "vw_scene (close_source_menu v) = vw_scene v" "vw_colors (close_source_menu v) = vw_colors v"
  "vw_next_color_source_id (close_source_menu v) = vw_next_color_source_id v"
  "vw_rendered_elements (close_source_menu v) = vw_rendered_elements v"
  "vw_content_dimensions (close_source_menu v) = vw_content_dimensions v"
  "vw_drag_operation (close_source_menu v) = vw_drag_operation v"
  "vw_stream (close_source_menu v) = vw_stream v" "vw_stream_canvas (close_source_menu v) = vw_stream_canvas v"
  "vw_pending_captures (close_source_menu v) = vw_pending_captures v"
  "vw_failed_captures (close_source_menu v) = vw_failed_captures v"
  "vw_captures (close_source_menu v) = vw_captures v" "vw_selected_item (close_source_menu v) = vw_selected_item v"
  by (simp_all add: close_source_menu_def viewer_helpers Let_def)

lemma release_fields [simp]:
  "vw_scene (animate_scene_drag_release now p i v) = vw_scene v"
  "vw_colors (animate_scene_drag_release now p i v) = vw_colors v"
  "vw_next_color_source_id (animate_scene_drag_release now p i v) = vw_next_color_source_id v"
  "vw_rendered_elements (animate_scene_drag_release now p i v) = vw_rendered_elements v"
  "vw_content_dimensions (animate_scene_drag_release now p i v) = vw_content_dimensions v"
  "vw_drag_operation (animate_scene_drag_release now p i v) = vw_drag_operation v"
  "vw_stream (animate_scene_drag_release now p i v) = vw_stream v"
  "vw_stream_canvas (animate_scene_drag_release now p i v) = vw_stream_canvas v"
  "vw_pending_captures (animate_scene_drag_release now p i v) = vw_pending_captures v"
  "vw_failed_captures (animate_scene_drag_release now p i v) = vw_failed_captures v"
  "vw_captures (animate_scene_drag_release now p i v) = vw_captures v"
  "vw_selected_item (animate_scene_drag_release now p i v) = vw_selected_item v"
  "vw_effects (animate_scene_drag_release now p i v) = vw_effects v"
  by (simp_all add: animate_scene_drag_release_def Let_def split: option.split)

lemma release_capture_fields [simp]:
  "vw_scene (release_capture stop s v) = vw_scene v" "vw_colors (release_capture stop s v) = vw_colors v"
  "vw_next_color_source_id (release_capture stop s v) = vw_next_color_source_id v"
  "vw_rendered_elements (release_capture stop s v) = vw_rendered_elements v"
  "vw_content_dimensions (release_capture stop s v) = vw_content_dimensions v"
  "vw_drag_operation (release_capture stop s v) = vw_drag_operation v"
  "vw_stream (release_capture stop s v) = vw_stream v"
  "vw_stream_canvas (release_capture stop s v) = vw_stream_canvas v"
  "vw_pending_captures (release_capture stop s v) = (vw_pending_captures v)(s := None)"
  "vw_failed_captures (release_capture stop s v) = vw_failed_captures v - {s}"
  "vw_captures (release_capture stop s v) = (vw_captures v)(s := None)"
  "vw_selected_item (release_capture stop s v) = vw_selected_item v"
  by (simp_all add: release_capture_def viewer_helpers Let_def split: option.split)

lemma add_element_fields [simp]:
  "vw_scene (add_element s l v) = fst (scene_add s l (vw_scene v))" "vw_colors (add_element s l v) = vw_colors v"
  "vw_next_color_source_id (add_element s l v) = vw_next_color_source_id v"
  "vw_rendered_elements (add_element s l v) = vw_rendered_elements v"
  "vw_content_dimensions (add_element s l v) = vw_content_dimensions v"
  "vw_drag_operation (add_element s l v) = vw_drag_operation v"
  "vw_stream (add_element s l v) = vw_stream v" "vw_stream_canvas (add_element s l v) = vw_stream_canvas v"
  "vw_pending_captures (add_element s l v) = vw_pending_captures v"
  "vw_failed_captures (add_element s l v) = vw_failed_captures v"
  "vw_captures (add_element s l v) = vw_captures v"
  "vw_selected_item (add_element s l v) = Some (snd (scene_add s l (vw_scene v)))"
  by (simp_all add: add_element_def case_prod_beta Let_def)

lemma edit_layout_fields [simp]:
  "vw_colors (edit_layout i f v) = vw_colors v"
  "vw_next_color_source_id (edit_layout i f v) = vw_next_color_source_id v"
  "vw_rendered_elements (edit_layout i f v) = vw_rendered_elements v"
  "vw_content_dimensions (edit_layout i f v) = vw_content_dimensions v"
  "vw_drag_operation (edit_layout i f v) = vw_drag_operation v"
  "vw_stream (edit_layout i f v) = vw_stream v" "vw_stream_canvas (edit_layout i f v) = vw_stream_canvas v"
  "vw_pending_captures (edit_layout i f v) = vw_pending_captures v"
  "vw_failed_captures (edit_layout i f v) = vw_failed_captures v"
  "vw_captures (edit_layout i f v) = vw_captures v" "vw_selected_item (edit_layout i f v) = vw_selected_item v"
  "vw_effects (edit_layout i f v) = vw_effects v"
  by (simp_all add: edit_layout_def)

subsection \<open>The scene stays well formed\<close>

lemma scene_inv_cong:
  "vw_scene v' = vw_scene v \<Longrightarrow> vw_colors v' = vw_colors v
   \<Longrightarrow> vw_next_color_source_id v' = vw_next_color_source_id v \<Longrightarrow> scene_inv v' \<longleftrightarrow> scene_inv v"
  by (simp add: scene_inv_def)

lemma helpers_scene_inv [simp]:
  "scene_inv (save_viewer v) \<longleftrightarrow> scene_inv v" "scene_inv (changed_scene r v) \<longleftrightarrow> scene_inv v"
  "scene_inv (effect e v) \<longleftrightarrow> scene_inv v" "scene_inv (control_error m v) \<longleftrightarrow> scene_inv v"
  by (simp_all add: scene_inv_def viewer_helpers)

lemma move_to_index_mset:
  "mset (sc_elements (fst (move_to_index i k s))) = mset (sc_elements s)
   \<and> sc_next_id (fst (move_to_index i k s)) = sc_next_id s"
proof (cases "position (\<lambda>e. se_id e = i) (sc_elements s)")
  case None
  then show ?thesis by (simp add: move_to_index_def)
next
  case (Some c)
  then have c: "c < length (sc_elements s)" by (auto simp: position_Some_iff)
  then have "min k (length (sc_elements s) - 1) < length (sc_elements s)" by linarith
  from moved_elements(1) [OF c this] Some show ?thesis by (simp add: move_to_index_def Let_def)
qed

lemma scene_inv_mset:
  assumes "scene_inv v" "mset (sc_elements (vw_scene v')) = mset (sc_elements (vw_scene v))"
    and "sc_next_id (vw_scene v') = sc_next_id (vw_scene v)" "vw_colors v' = vw_colors v"
    and "vw_next_color_source_id v' = vw_next_color_source_id v"
  shows "scene_inv v'"
proof -
  have "set (sc_elements (vw_scene v')) = set (sc_elements (vw_scene v))"
    using assms(2) by (rule mset_eq_setD)
  moreover have "mset (element_ids (vw_scene v')) = mset (element_ids (vw_scene v))"
    using assms(2) by simp
  then have "distinct (element_ids (vw_scene v')) = distinct (element_ids (vw_scene v))"
    by (rule mset_eq_imp_distinct_iff)
  ultimately show ?thesis
    using assms by (simp add: scene_inv_def scene_ok_def layouts_ok_def colors_ok_def)
qed

lemma scene_inv_update:
  assumes "scene_inv v" "vw_scene v' = update_element i f (vw_scene v)" "\<And>e. se_id (f e) = se_id e"
    and "\<And>e. layout_ok (se_layout e) \<Longrightarrow> layout_ok (se_layout (f e))"
    and "\<And>e j. se_source (f e) = ColorSource j \<Longrightarrow> se_source e = ColorSource j"
    and "vw_colors v' = vw_colors v" "vw_next_color_source_id v' = vw_next_color_source_id v"
  shows "scene_inv v'"
proof -
  have ok: "scene_ok (vw_scene v)" "layouts_ok (vw_scene v)" using assms(1) by (simp_all add: scene_inv_def)
  have "colors_ok (update_element i f (vw_scene v)) (vw_colors v) (vw_next_color_source_id v)"
    unfolding colors_ok_def update_element_map [OF ok(1)]
  proof (intro conjI ballI allI impI)
    fix x j
    assume "x \<in> set (sc_elements ((vw_scene v)
        \<lparr>sc_elements := List.map (\<lambda>e. if se_id e = i then f e else e) (sc_elements (vw_scene v))\<rparr>))"
      and j: "se_source x = ColorSource j"
    then obtain e where e: "e \<in> set (sc_elements (vw_scene v))" "x = (if se_id e = i then f e else e)" by auto
    with j assms(5) [of e j] have "se_source e = ColorSource j" by (simp split: if_splits)
    with e(1) assms(1) show "vw_colors v (ColorSource j) \<noteq> None" "j < vw_next_color_source_id v"
      by (auto simp: scene_inv_def colors_ok_def)
  qed (use assms(1) in \<open>simp_all add: scene_inv_def colors_ok_def\<close>)
  with update_element_ok [OF ok(1) assms(3)] layouts_ok_update [OF ok assms(4)] assms(2,6,7) show ?thesis
    by (simp add: scene_inv_def)
qed

lemma scene_inv_edit_layout:
  "scene_inv v \<Longrightarrow> (\<And>l. layout_ok l \<Longrightarrow> layout_ok (f l)) \<Longrightarrow> scene_inv (edit_layout i f v)"
  by (rule scene_inv_update [where i = i and v = v and f = "\<lambda>e. e\<lparr>se_layout := f (se_layout e)\<rparr>"])
    (simp_all add: edit_layout_def)

lemma scene_inv_add:
  assumes "scene_inv v" "sc_next_id (vw_scene v) < u64_max" "layout_ok l"
    and "vw_scene v' = fst (scene_add source l (vw_scene v))"
    and "\<And>i. source = ColorSource i \<Longrightarrow> vw_colors v' source \<noteq> None \<and> i < vw_next_color_source_id v'"
    and "\<And>i. source \<noteq> ColorSource i \<Longrightarrow> vw_colors v (ColorSource i) \<noteq> None \<Longrightarrow> vw_colors v' (ColorSource i) \<noteq> None"
    and "vw_next_color_source_id v \<le> vw_next_color_source_id v'" "vw_next_color_source_id v' \<le> u64_max"
  shows "scene_inv v'"
proof -
  have "colors_ok (fst (scene_add source l (vw_scene v))) (vw_colors v') (vw_next_color_source_id v')"
    using assms(1,5-8) by (fastforce simp: scene_inv_def colors_ok_def scene_add_def)
  with assms show ?thesis
    by (simp add: scene_inv_def scene_add_ok layouts_ok_simps(1))
qed

lemma scene_inv_remove:
  assumes "scene_inv v" "scene_remove i (vw_scene v) = (s, Some e)"
    and "vw_scene v' = s" "vw_next_color_source_id v' = vw_next_color_source_id v"
    and "\<And>src. uses_source src s \<Longrightarrow> vw_colors v' src = vw_colors v src"
  shows "scene_inv v'"
proof -
  have ok: "scene_ok (vw_scene v)" "layouts_ok (vw_scene v)" using assms(1) by (simp_all add: scene_inv_def)
  have s: "s = fst (scene_remove i (vw_scene v))" using assms(2) by simp
  have sub: "set (sc_elements s) \<subseteq> set (sc_elements (vw_scene v))" unfolding s scene_remove_filter [OF ok(1)] by auto
  have "colors_ok s (vw_colors v') (vw_next_color_source_id v')"
    unfolding colors_ok_def
  proof (intro conjI ballI allI impI)
    fix x j assume x: "x \<in> set (sc_elements s)" "se_source x = ColorSource j"
    then have "uses_source (ColorSource j) s" by (auto simp: uses_source_def list_ex_iff)
    from assms(5) [OF this] x sub assms(1,4)
    show "vw_colors v' (ColorSource j) \<noteq> None" "j < vw_next_color_source_id v'"
      by (auto simp: scene_inv_def colors_ok_def)
  qed (use assms(1,4) in \<open>simp_all add: scene_inv_def colors_ok_def\<close>)
  then show ?thesis
    using scene_remove_ok [OF ok(1), of i] layouts_ok_simps(2) [OF ok, of i] assms(3)
    by (simp add: scene_inv_def s)
qed

lemma drag_over_scene_inv: "scene_inv v \<Longrightarrow> scene_inv (drag_scene_item_over now i y v)"
proof -
  assume inv: "scene_inv v"
  have "scene_inv (save_viewer (changed_scene None (v\<lparr>vw_scene := s, vw_scene_item_offsets := os,
      vw_scene_reorder_transition := n, vw_scene_animation_started := t\<rparr>)))"
    if "move_to_index i k (vw_scene v) = (s, b)" for k s b os n t
    using that move_to_index_mset [of i k "vw_scene v"] scene_inv_mset [OF inv] by simp
  then show ?thesis
    using inv by (auto simp: drag_scene_item_over_def Let_def split: option.splits prod.splits)
qed

lemma delete_scene_inv: "scene_inv v \<Longrightarrow> scene_inv (delete_selected stop v)"
proof (cases "vw_selected_item v")
  case None
  then show "scene_inv v \<Longrightarrow> ?thesis" by (simp add: delete_selected_def)
next
  case (Some i)
  assume inv: "scene_inv v"
  obtain s e where r: "scene_remove i (vw_scene v) = (s, e)" by fastforce
  show ?thesis
  proof (cases e)
    case None
    then show ?thesis using Some r inv by (simp add: delete_selected_def scene_inv_def)
  next
    case (Some x)
    with r have r: "scene_remove i (vw_scene v) = (s, Some x)" by simp
    show ?thesis
      using inv \<open>vw_selected_item v = Some i\<close>
      by (auto simp: delete_selected_def Let_def r intro!: scene_inv_remove [OF inv r]
        split: source_id.split if_splits)
  qed
qed

lemma fst_pair_splits: "(case p of (x, y) \<Rightarrow> f x y) = f (fst p) (snd p)" by (simp add: case_prod_beta)

lemma ensure_captured_fields [simp]:
  "vw_scene (fst (ensure_captured s r v)) = vw_scene v" "vw_colors (fst (ensure_captured s r v)) = vw_colors v"
  "vw_next_color_source_id (fst (ensure_captured s r v)) = vw_next_color_source_id v"
  "vw_rendered_elements (fst (ensure_captured s r v)) = vw_rendered_elements v"
  "vw_content_dimensions (fst (ensure_captured s r v)) = vw_content_dimensions v"
  "vw_drag_operation (fst (ensure_captured s r v)) = vw_drag_operation v"
  "vw_stream (fst (ensure_captured s r v)) = vw_stream v"
  "vw_stream_canvas (fst (ensure_captured s r v)) = vw_stream_canvas v"
  "vw_pending_captures (fst (ensure_captured s r v)) = vw_pending_captures v"
  "vw_failed_captures (fst (ensure_captured s r v)) = vw_failed_captures v"
  "vw_selected_item (fst (ensure_captured s r v)) = vw_selected_item v"
  by (simp_all add: ensure_captured_def open_capture_def viewer_helpers split: sum.split)

lemma layout_ok_center [simp]: "layout_ok (l\<lparr>il_center := c\<rparr>) \<longleftrightarrow> layout_ok l"
  by (simp add: layout_ok_def)

lemma layout_ok_scaled:
  "layout_ok l \<Longrightarrow> 0 < k \<Longrightarrow> layout_ok (l\<lparr>il_size := scaled_size (il_size l) k\<rparr>)"
  by (simp add: layout_ok_def scaled_size_def)

lemma move_scene_inv: "scene_inv v \<Longrightarrow> scene_inv (move_selected d v)"
  by (auto simp: move_selected_def Let_def intro!: scene_inv_edit_layout split: option.split prod.split)

lemma open_menu_scene_inv [simp]: "scene_inv (v\<lparr>vw_open_menu := m\<rparr>) \<longleftrightarrow> scene_inv v"
  by (simp add: scene_inv_def)

lemma add_element_scene_inv:
  assumes "scene_inv v" "sc_next_id (vw_scene v) < u64_max" "\<And>i. source \<noteq> ColorSource i"
  shows "scene_inv (add_element source inset_layout v)"
  using assms by (intro scene_inv_add [OF assms(1,2) layouts_sample(2)]) (auto simp: scene_inv_def colors_ok_def)

lemma ensure_scene_inv: "scene_inv v \<Longrightarrow> scene_inv (fst (ensure_captured s r v))"
  by (simp add: scene_inv_def)

lemma control_none_scene_inv [simp]: "scene_inv (v\<lparr>vw_control_error := e\<rparr>) \<longleftrightarrow> scene_inv v"
  by (simp add: scene_inv_def)

lemma add_camera_scene_inv:
  assumes "scene_inv v" "sc_next_id (vw_scene v) < u64_max" "\<And>i. source \<noteq> ColorSource i"
  shows "scene_inv (add_camera_target source v)"
proof -
  have "scene_inv (save_viewer (changed_scene None ((add_element source inset_layout v)\<lparr>vw_control_error := None\<rparr>)))"
    using add_element_scene_inv [OF assms] by simp
  then show ?thesis
    by (auto simp: add_camera_target_def Let_def intro: scene_inv_cong [THEN iffD2])
qed

lemma target_id_no_color [simp]: "target_id hash t \<noteq> ColorSource i"
  by (cases t) simp_all

lemma add_target_scene_inv:
  assumes "scene_inv v" "sc_next_id (vw_scene v) < u64_max"
  shows "scene_inv (add_capture_target hash i reply v)"
proof -
  have kept [simp]: "scene_inv (fst (ensure_captured s reply v))" for s by (rule ensure_scene_inv [OF assms(1)])
  have "scene_inv (add_element s inset_layout (fst (ensure_captured s reply v)))" if "\<And>j. s \<noteq> ColorSource j" for s
    by (rule add_element_scene_inv [OF kept]) (simp_all add: assms(2) that)
  then show ?thesis
    using assms(1) add_camera_scene_inv [OF assms] unfolding add_capture_target_def
    by (auto simp: case_prod_beta split: option.split capture_target.split bool.split)
qed

lemma replace_scene_inv:
  assumes "scene_inv v"
  shows "scene_inv (replace_selected_capture hash i reply stop v)"
proof -
  have step: "scene_inv v2" if "vw_scene v2 = fst (replace_source item source (vw_scene v))"
    "\<And>j. source \<noteq> ColorSource j" "vw_colors v2 = vw_colors v"
    "vw_next_color_source_id v2 = vw_next_color_source_id v" for item source v2
    by (rule scene_inv_update [OF assms that(1) [unfolded replace_source_def fst_conv]]) (simp_all add: that)
  have kept [simp]: "scene_inv (fst (ensure_captured source reply v))" for source by (rule ensure_scene_inv [OF assms])
  show ?thesis
    unfolding replace_selected_capture_def Let_def
    using assms
    by (auto simp: case_prod_beta split: option.split capture_target.split bool.split intro: step)
qed

lemma camera_started_scene_inv: "scene_inv v \<Longrightarrow> scene_inv (camera_started s g r v)"
  by (auto simp: camera_started_def Let_def scene_inv_def viewer_helpers split: sum.split)

lemma capture_failed_scene_inv: "scene_inv v \<Longrightarrow> scene_inv (capture_failed hash s g m r v)"
  by (auto simp: capture_failed_def Let_def scene_inv_def viewer_helpers open_capture_def split: sum.split option.split)

lemma add_color_scene_inv:
  assumes "scene_inv v" "ids_left v"
  shows "scene_inv (add_color_source v)"
proof -
  let ?v1 = "v\<lparr>vw_next_color_source_id := saturating_add u64_max (vw_next_color_source_id v) 1,
      vw_colors := (vw_colors v)(ColorSource (vw_next_color_source_id v) \<mapsto> (88, 101, 242))\<rparr>"
  have "scene_inv (add_element (ColorSource (vw_next_color_source_id v)) full_canvas_layout ?v1)"
    using assms by (intro scene_inv_add [OF assms(1) _ layouts_sample(1)]) (auto simp: ids_left_def saturating_add_def)
  then show ?thesis by (simp add: add_color_source_def Let_def)
qed

lemma edit_color_scene_inv: "scene_inv v \<Longrightarrow> scene_inv (edit_color f v)"
  by (auto simp: edit_color_def scene_inv_def colors_ok_def viewer_helpers split: option.split) (metis prod_cases3)

lemma layout_value_ok:
  assumes "layout_ok l" "positive canvas" "positive extent"
  shows "layout_ok (layout_value a x canvas extent l)"
proof -
  have "0 < max x 1 / (fst extent * fst canvas)" "0 < max x 1 / (snd extent * snd canvas)"
    using assms(2,3) by (simp_all add: positive_def less_max_iff_disj)
  with assms(1) show ?thesis
    by (cases a) (auto simp: layout_value_def layout_ok_scaled, auto simp: layout_ok_def Let_def clamp_def)
qed

lemma rendered_positive:
  "drawn_inv v \<Longrightarrow> rendered_transform v item = Some t \<Longrightarrow> positive (it_size t)"
  by (auto simp: drawn_inv_def rendered_transform_def find_Some_iff)

text \<open>A typed value that leaves the layout finite acts as a finite number.\<close>

lemma infinite_acts: "acts_as a m y = None \<Longrightarrow> \<not> is_finite y"
  by (cases y) auto

lemma typed_finite:
  assumes "finite_layout (typed_layout a y canvas extent l)"
  obtains x where "map_layout fl_val (typed_layout a y canvas extent l) = layout_value a x canvas extent l"
proof (cases "acts_as a (min (fst extent * fst canvas) (snd extent * snd canvas) * (1/2)) y")
  case None
  with assms infinite_acts [OF None] show ?thesis
    by (cases a) (simp_all add: typed_layout_def infinite_layout_def finite_layout_def Let_def)
next
  case (Some x)
  have f: "is_finite (to_f32 y) \<Longrightarrow> fl_val (to_f32 y) = y" for y by (auto simp: to_f32_def split: if_splits)
  have "map_layout fl_val (map_layout to_f32 m) = m" if "finite_layout (map_layout to_f32 m)" for m
    using that f by (cases m) (auto simp: map_layout_def finite_layout_def)
  with Some assms that show ?thesis by (auto simp: typed_layout_def Let_def)
qed

lemma typed_layout_ok:
  assumes "layout_ok l" "positive canvas" "positive extent" "finite_layout (typed_layout a value canvas extent l)"
  shows "layout_ok (map_layout fl_val (typed_layout a value canvas extent l))"
  using assms(4) layout_value_ok [OF assms(1-3)] by (metis typed_finite)

lemma set_layout_scene_inv:
  "scene_inv v \<Longrightarrow> (finite_layout l \<Longrightarrow> layout_ok (map_layout fl_val l)) \<Longrightarrow> scene_inv (set_layout i l v)"
  using scene_inv_edit_layout [of v "\<lambda>_. map_layout fl_val l" i]
  by (auto simp: set_layout_def scene_inv_def viewer_helpers)

lemma scene_element_layout_ok: "scene_inv v \<Longrightarrow> scene_element_of i (vw_scene v) = Some e \<Longrightarrow> layout_ok (se_layout e)"
  using scene_element_of_Some by (fastforce simp: scene_inv_def layouts_ok_def)

lemma set_value_scene_inv:
  assumes "scene_inv v" "drawn_inv v"
  shows "scene_inv (set_transform_value a x v)"
proof -
  have "scene_inv (set_layout i (typed_layout a x (real (fst c), real (snd c)) (it_size t) (se_layout e)) v)"
    if "vw_content_dimensions v = Some c" "rendered_transform v i = Some t" "scene_element_of i (vw_scene v) = Some e" for i c t e
    using that assms rendered_positive [OF assms(2)] scene_element_layout_ok [OF assms(1)]
    by (intro set_layout_scene_inv typed_layout_ok) (auto simp: drawn_inv_def positive_def)
  then show ?thesis
    using assms(1) unfolding set_transform_value_def
    by (cases a) (auto simp: edit_color_scene_inv split: option.split)
qed

lemma begin_move_fields [simp]:
  "vw_scene (begin_move f p v) = vw_scene v" "vw_colors (begin_move f p v) = vw_colors v"
  "vw_next_color_source_id (begin_move f p v) = vw_next_color_source_id v"
  "vw_rendered_elements (begin_move f p v) = vw_rendered_elements v"
  "vw_content_dimensions (begin_move f p v) = vw_content_dimensions v"
  "vw_stream (begin_move f p v) = vw_stream v" "vw_stream_canvas (begin_move f p v) = vw_stream_canvas v"
  "vw_pending_captures (begin_move f p v) = vw_pending_captures v"
  "vw_failed_captures (begin_move f p v) = vw_failed_captures v" "vw_captures (begin_move f p v) = vw_captures v"
  "vw_effects (begin_move f p v) = vw_effects v"
  by (simp_all add: begin_move_def Let_def)

text \<open>\<open>begin_drag\<close> changes the selection, the pointer's state and the operation, nothing else.\<close>

lemma begin_drag_fields:
  assumes "begin_drag viewport p v = Some v'"
  shows "vw_scene v' = vw_scene v" "vw_colors v' = vw_colors v"
    "vw_next_color_source_id v' = vw_next_color_source_id v" "vw_rendered_elements v' = vw_rendered_elements v"
    "vw_content_dimensions v' = vw_content_dimensions v" "vw_stream v' = vw_stream v"
    "vw_stream_canvas v' = vw_stream_canvas v" "vw_pending_captures v' = vw_pending_captures v"
    "vw_failed_captures v' = vw_failed_captures v" "vw_captures v' = vw_captures v" "vw_effects v' = vw_effects v"
  using assms by (auto simp: begin_drag_def Let_def split: option.splits if_splits)

lemma begin_drag_scene_inv: "scene_inv v \<Longrightarrow> begin_drag viewport p v = Some v' \<Longrightarrow> scene_inv v'"
  by (rule scene_inv_cong [THEN iffD2]) (simp_all add: begin_drag_fields)

lemma guides_scene_inv [simp]: "scene_inv (v\<lparr>vw_snap_guides := g\<rparr>) \<longleftrightarrow> scene_inv v"
  by (simp add: scene_inv_def)

lemma reposition_scene_inv: "scene_inv v \<Longrightarrow> scene_inv (reposition_item i off viewport p v)"
  unfolding reposition_item_def
  by (auto simp: Let_def case_prod_beta intro!: scene_inv_edit_layout split: option.split)

lemma minimum_ratio_positive: "positive extent \<Longrightarrow> 0 < minimum_resize_ratio extent"
  by (simp add: minimum_resize_ratio_def MIN_ITEM_SCALE_def positive_def less_max_iff_disj)

lemma snapped_ratio_least: "m \<le> fst (snd (resized_item_with_border_snap h t a p m th))"
  by (simp add: resized_item_with_border_snap_def case_prod_beta Let_def resized_item_ratio)

lemma resize_scene_inv:
  assumes "scene_inv v" "positive extent"
  shows "scene_inv (resize_dragged i h t extent a viewport p v)"
proof -
  have k: "0 < fst (snd (resized_item_with_border_snap h t a q (minimum_resize_ratio extent) th))" for q th
    using minimum_ratio_positive [OF assms(2)] snapped_ratio_least [of "minimum_resize_ratio extent" h t a q th]
    by linarith
  have ok: "layout_ok (l\<lparr>il_center := c, il_size := scaled_size extent r\<rparr>)" if "layout_ok l" "0 < r" for l c r
    using that assms(2) by (simp add: layout_ok_def scaled_size_def positive_def)
  show ?thesis
    using assms(1) unfolding resize_dragged_def Let_def case_prod_beta
    by (auto intro!: scene_inv_edit_layout ok k simp del: split_paired_All split: option.split)
qed

lemma corner_scene_inv: "scene_inv v \<Longrightarrow> scene_inv (adjust_corner_radius i b p v)"
  unfolding adjust_corner_radius_def using corner_ratio_bounds [of b p]
  by (auto intro!: scene_inv_edit_layout simp: layout_ok_def split: option.split)

lemma drag_scene_inv:
  assumes "scene_inv v" "drawn_inv v" "drag_inset viewport p v = Some v'"
  shows "scene_inv v'"
proof (cases "vw_drag_operation v")
  case None
  with assms(1,3) show ?thesis by (auto simp: drag_inset_def scene_inv_def)
next
  case (Some d)
  with assms show ?thesis
    by (cases d) (auto simp: drag_inset_def drawn_inv_def intro: reposition_scene_inv resize_scene_inv corner_scene_inv)
qed

lemma toggle_stream_fields [simp]:
  "vw_scene (toggle_stream u r v) = vw_scene v" "vw_colors (toggle_stream u r v) = vw_colors v"
  "vw_next_color_source_id (toggle_stream u r v) = vw_next_color_source_id v"
  "vw_rendered_elements (toggle_stream u r v) = vw_rendered_elements v"
  "vw_content_dimensions (toggle_stream u r v) = vw_content_dimensions v"
  "vw_drag_operation (toggle_stream u r v) = vw_drag_operation v"
  "vw_pending_captures (toggle_stream u r v) = vw_pending_captures v"
  "vw_failed_captures (toggle_stream u r v) = vw_failed_captures v"
  "vw_captures (toggle_stream u r v) = vw_captures v" "vw_selected_item (toggle_stream u r v) = vw_selected_item v"
  by (simp_all add: toggle_stream_def viewer_helpers Let_def split: option.split sum.split)

lemma show_frame_fields [simp]:
  "vw_scene (show_frame sent f v) = vw_scene v" "vw_colors (show_frame sent f v) = vw_colors v"
  "vw_next_color_source_id (show_frame sent f v) = vw_next_color_source_id v"
  "vw_rendered_elements (show_frame sent f v) = cf_elements f"
  "vw_content_dimensions (show_frame sent f v) = Some (cf_dimensions f)"
  "vw_drag_operation (show_frame sent f v) = vw_drag_operation v"
  "vw_pending_captures (show_frame sent f v) = vw_pending_captures v"
  "vw_failed_captures (show_frame sent f v) = vw_failed_captures v"
  "vw_captures (show_frame sent f v) = vw_captures v" "vw_selected_item (show_frame sent f v) = vw_selected_item v"
  by (simp_all add: show_frame_def viewer_helpers Let_def split: option.split)

lemma end_drag_fields [simp]:
  "vw_scene (end_drag now p v) = vw_scene v" "vw_colors (end_drag now p v) = vw_colors v"
  "vw_next_color_source_id (end_drag now p v) = vw_next_color_source_id v"
  "vw_rendered_elements (end_drag now p v) = vw_rendered_elements v"
  "vw_content_dimensions (end_drag now p v) = vw_content_dimensions v"
  "vw_drag_operation (end_drag now p v) = None" "vw_stream (end_drag now p v) = vw_stream v"
  "vw_stream_canvas (end_drag now p v) = vw_stream_canvas v"
  "vw_pending_captures (end_drag now p v) = vw_pending_captures v"
  "vw_failed_captures (end_drag now p v) = vw_failed_captures v"
  "vw_captures (end_drag now p v) = vw_captures v" "vw_selected_item (end_drag now p v) = vw_selected_item v"
  by (cases "vw_scene_dragging_item v"; simp add: end_drag_def viewer_helpers Let_def)+

lemmas menu_defs = toggle_source_menu_def source_menu_timer_def toggle_capture_menu_def blur_inputs_def
  focus_input_def focus_stream_url_def select_scene_item_def start_scene_drag_def drop_scene_item_def
  stream_failed_def

lemma op_scene_inv:
  assumes "scene_inv v" "drawn_inv v" "ids_left v" "view_op hash op v = Some v'"
  shows "scene_inv v'"
proof (cases op)
  case (AddTarget i r)
  then show ?thesis using assms by (auto simp: ids_left_def intro: add_target_scene_inv)
next
  case (BeginDrag a b)
  then show ?thesis using assms by (auto intro: begin_drag_scene_inv)
next
  case (MovePointer a b)
  then show ?thesis using assms by (auto intro: drag_scene_inv)
qed (use assms in \<open>auto intro: drag_over_scene_inv delete_scene_inv move_scene_inv replace_scene_inv
    camera_started_scene_inv capture_failed_scene_inv add_color_scene_inv edit_color_scene_inv set_value_scene_inv
    simp: set_selected_color_def\<close>,
    auto simp: menu_defs scene_inv_def viewer_helpers Let_def split: option.split)

subsection \<open>What is drawn\<close>

lemma ensure_case: "(case ensure_captured s r v of (v1, b) \<Rightarrow> f v1 b) =
   f (fst (ensure_captured s r v)) (snd (ensure_captured s r v))"
  by (rule case_prod_beta)

text \<open>Most operations keep what is drawn and dragged: the operations on captures and the scene's list.\<close>

definition same_drawing :: "viewer \<Rightarrow> viewer \<Rightarrow> bool" where
  "same_drawing v v' \<longleftrightarrow> vw_rendered_elements v' = vw_rendered_elements v
     \<and> vw_content_dimensions v' = vw_content_dimensions v \<and> vw_drag_operation v' = vw_drag_operation v"

definition same_stream :: "viewer \<Rightarrow> viewer \<Rightarrow> bool" where
  "same_stream v v' \<longleftrightarrow> vw_stream v' = vw_stream v \<and> vw_stream_canvas v' = vw_stream_canvas v"

lemma same_refl [simp]: "same_drawing v v" "same_stream v v" by (simp_all add: same_drawing_def same_stream_def)

lemma add_target_same:
  "same_drawing v (add_capture_target hash i r v)" "same_stream v (add_capture_target hash i r v)"
  by (auto simp: same_drawing_def same_stream_def add_capture_target_def add_camera_target_def ensure_case viewer_helpers
    Let_def split: option.split capture_target.split bool.split)

lemma replace_same:
  "same_drawing v (replace_selected_capture hash i r stop v)" "same_stream v (replace_selected_capture hash i r stop v)"
  by (auto simp: same_drawing_def same_stream_def replace_selected_capture_def ensure_case case_prod_beta viewer_helpers
    Let_def split: option.split capture_target.split bool.split)

lemma camera_started_same:
  "same_drawing v (camera_started s g r v)" "same_stream v (camera_started s g r v)"
  by (auto simp: same_drawing_def same_stream_def camera_started_def viewer_helpers Let_def split: sum.split)

lemma capture_failed_same:
  "same_drawing v (capture_failed hash s g m r v)" "same_stream v (capture_failed hash s g m r v)"
  by (auto simp: same_drawing_def same_stream_def capture_failed_def open_capture_def viewer_helpers Let_def
    split: sum.split option.split)

lemma colour_same:
  "same_drawing v (add_color_source v)" "same_stream v (add_color_source v)"
  "same_drawing v (edit_color f v)" "same_stream v (edit_color f v)"
  by (auto simp: same_drawing_def same_stream_def add_color_source_def edit_color_def viewer_helpers Let_def
    split: option.split)

lemma set_value_same:
  "same_drawing v (set_transform_value a x v)" "same_stream v (set_transform_value a x v)"
  by (cases a; auto simp: set_transform_value_def set_layout_def colour_same same_drawing_def same_stream_def
    viewer_helpers edit_color_def split: option.split)+

lemma list_same:
  "same_drawing v (drag_scene_item_over now i y v)" "same_stream v (drag_scene_item_over now i y v)"
  "same_drawing v (move_selected d v)" "same_stream v (move_selected d v)"
  by (auto simp: same_drawing_def same_stream_def drag_scene_item_over_def move_selected_def viewer_helpers Let_def
    split: option.split prod.split)

lemma same_drawn_inv: "same_drawing v v' \<Longrightarrow> drawn_inv v \<Longrightarrow> drawn_inv v'"
  by (simp add: same_drawing_def drawn_inv_def)

lemma same_stream_inv: "same_stream v v' \<Longrightarrow> stream_inv v \<Longrightarrow> stream_inv v'"
  by (simp add: same_stream_def stream_inv_def)

lemma reposition_same:
  "same_drawing v (reposition_item i off viewport p v)" "same_stream v (reposition_item i off viewport p v)"
  by (auto simp: same_drawing_def same_stream_def reposition_item_def case_prod_beta viewer_helpers Let_def
    split: option.split)

lemma resize_same:
  "same_drawing v (resize_dragged i h t e a viewport p v)" "same_stream v (resize_dragged i h t e a viewport p v)"
  by (auto simp: same_drawing_def same_stream_def resize_dragged_def case_prod_beta viewer_helpers Let_def
    split: option.split)

lemma corner_same:
  "same_drawing v (adjust_corner_radius i b p v)" "same_stream v (adjust_corner_radius i b p v)"
  by (auto simp: same_drawing_def same_stream_def adjust_corner_radius_def viewer_helpers split: option.split)

lemma drag_same:
  assumes "drag_inset viewport p v = Some v'"
  shows "same_drawing v v'" "same_stream v v'"
  using assms by (auto simp: drag_inset_def reposition_same resize_same corner_same
    split: option.splits drag_operation.splits) (auto simp: same_drawing_def same_stream_def)

lemma delete_drawn_inv: "drawn_inv v \<Longrightarrow> drawn_inv (delete_selected stop v)"
  by (auto simp: delete_selected_def drawn_inv_def viewer_helpers Let_def split: option.split prod.split source_id.split)

lemma delete_same_stream: "same_stream v (delete_selected stop v)"
  by (auto simp: delete_selected_def same_stream_def viewer_helpers Let_def split: option.split prod.split source_id.split)

lemma begin_drag_drawn_inv:
  assumes "drawn_inv v" "scene_inv v" "begin_drag viewport p v = Some v'"
  shows "drawn_inv v'"
proof -
  have "positive (il_size (se_layout e))" if "scene_element_of i (vw_scene v) = Some e" for i e
    using that assms(2)
    by (auto simp: scene_inv_def layouts_ok_def layout_ok_def positive_def scene_element_of_def find_Some_iff)
  moreover have "\<forall>d. vw_drag_operation (begin_move f p w) = Some d \<longrightarrow> Studio_Session.drag_ok d" for f w
    by (auto simp: begin_move_def Let_def)
  ultimately have "\<forall>d. vw_drag_operation v' = Some d \<longrightarrow> Studio_Session.drag_ok d"
    using assms(1,3)
    by (auto simp: begin_drag_def drawn_inv_def Let_def resize_operation_anchor split: option.splits if_splits)
  with assms(1) show ?thesis by (simp add: drawn_inv_def begin_drag_fields [OF assms(3)])
qed

lemma op_drawn_inv:
  assumes "drawn_inv v" "scene_inv v" "op_ok op" "view_op hash op v = Some v'"
  shows "drawn_inv v'"
proof (cases op)
  case (BeginDrag a b)
  then show ?thesis using assms by (auto intro: begin_drag_drawn_inv)
next
  case (MovePointer a b)
  then show ?thesis using assms by (auto intro: same_drawn_inv drag_same)
next
  case (ShowFrame sent f)
  then show ?thesis using assms by (auto simp: drawn_inv_def frame_ok_def)
next
  case (EndDrag a b)
  then show ?thesis using assms by (auto simp: drawn_inv_def)
qed (use assms in \<open>auto intro: same_drawn_inv add_target_same replace_same camera_started_same capture_failed_same
    colour_same set_value_same list_same delete_drawn_inv simp: set_selected_color_def\<close>,
    auto simp: menu_defs drawn_inv_def viewer_helpers Let_def split: option.split)

text \<open>A stream runs exactly when the canvas is locked, and the canvas it is locked to is even.\<close>

lemma toggle_stream_inv: "stream_inv v \<Longrightarrow> stream_inv (toggle_stream u r v)"
  by (auto simp: stream_inv_def toggle_stream_def viewer_helpers Let_def even_dimensions_def split: option.split sum.split)

lemma show_frame_stream_inv: "stream_inv v \<Longrightarrow> stream_inv (show_frame sent f v)"
  by (auto simp: stream_inv_def show_frame_def viewer_helpers Let_def split: option.split)

lemma op_stream_inv:
  assumes "stream_inv v" "view_op hash op v = Some v'"
  shows "stream_inv v'"
proof (cases op)
  case (BeginDrag a b)
  then show ?thesis using assms by (simp add: stream_inv_def begin_drag_fields)
next
  case (MovePointer a b)
  then show ?thesis using assms by (auto intro: same_stream_inv drag_same)
qed (use assms in \<open>auto intro: same_stream_inv add_target_same replace_same camera_started_same capture_failed_same
    colour_same set_value_same list_same delete_same_stream toggle_stream_inv show_frame_stream_inv
    simp: set_selected_color_def\<close>,
    auto simp: menu_defs stream_inv_def viewer_helpers Let_def split: option.split)

subsection \<open>Cameras that are starting\<close>

lemma capture_inv_mono:
  assumes "capture_inv v"
    and "\<And>s g. vw_pending_captures v' s = Some g \<Longrightarrow> vw_pending_captures v s = Some g"
    and "\<And>s. uses_source s (vw_scene v) \<Longrightarrow> vw_pending_captures v' s \<noteq> None \<Longrightarrow> uses_source s (vw_scene v')"
    and "\<And>i. vw_captures v (CameraSource i) = None \<Longrightarrow> vw_pending_captures v' (CameraSource i) \<noteq> None
      \<Longrightarrow> vw_captures v' (CameraSource i) = None"
    and "\<And>s. s \<in> vw_failed_captures v' \<Longrightarrow> vw_pending_captures v' s \<noteq> None \<Longrightarrow> s \<in> vw_failed_captures v"
  shows "capture_inv v'"
  unfolding capture_inv_def
proof (intro allI impI)
  fix s g assume g: "vw_pending_captures v' s = Some g"
  from assms(1) assms(2) [OF g] obtain i where
    i: "s = CameraSource i" "uses_source s (vw_scene v)" "vw_captures v s = None" "s \<notin> vw_failed_captures v"
    unfolding capture_inv_def by blast
  with assms(3-5) g show "(\<exists>i. s = CameraSource i) \<and> uses_source s (vw_scene v') \<and> vw_captures v' s = None
      \<and> s \<notin> vw_failed_captures v'" by fastforce
qed

lemma uses_source_iff: "uses_source src s \<longleftrightarrow> src \<in> se_source ` set (sc_elements s)"
  by (auto simp: uses_source_def list_ex_iff)

lemma uses_source_add [simp]: "uses_source src (fst (scene_add x l s)) \<longleftrightarrow> src = x \<or> uses_source src s"
  by (auto simp: uses_source_iff scene_add_def)

lemma uses_source_update:
  "scene_ok s \<Longrightarrow> (\<And>e. se_source (f e) = se_source e) \<Longrightarrow> uses_source src (update_element i f s) \<longleftrightarrow> uses_source src s"
  by (auto simp: uses_source_def list_ex_iff update_element_map)

lemma capture_inv_same:
  assumes "capture_inv v" "vw_pending_captures v' = vw_pending_captures v" "vw_captures v' = vw_captures v"
    "vw_failed_captures v' = vw_failed_captures v" "\<And>s. uses_source s (vw_scene v) \<Longrightarrow> uses_source s (vw_scene v')"
  shows "capture_inv v'"
  by (rule capture_inv_mono [OF assms(1)]) (simp_all add: assms)

lemma helpers_capture_inv [simp]:
  "capture_inv (save_viewer v) \<longleftrightarrow> capture_inv v" "capture_inv (changed_scene r v) \<longleftrightarrow> capture_inv v"
  "capture_inv (effect e v) \<longleftrightarrow> capture_inv v" "capture_inv (control_error m v) \<longleftrightarrow> capture_inv v"
  "capture_inv (v\<lparr>vw_open_menu := om\<rparr>) \<longleftrightarrow> capture_inv v" "capture_inv (v\<lparr>vw_control_error := c\<rparr>) \<longleftrightarrow> capture_inv v"
  "capture_inv (v\<lparr>vw_snap_guides := gs\<rparr>) \<longleftrightarrow> capture_inv v"
  by (simp_all add: capture_inv_def viewer_helpers)

lemma edit_layout_capture_inv: "capture_inv v \<Longrightarrow> scene_inv v \<Longrightarrow> capture_inv (edit_layout i f v)"
  by (rule capture_inv_same [of v]) (simp_all add: edit_layout_def scene_inv_def uses_source_update)

lemma drag_over_capture_inv:
  assumes "capture_inv v"
  shows "capture_inv (drag_scene_item_over now i y v)"
proof -
  have "uses_source s (fst (move_to_index j k (vw_scene v))) \<longleftrightarrow> uses_source s (vw_scene v)" for s j k
    using move_to_index_mset [of j k "vw_scene v"] by (metis mset_eq_setD uses_source_iff)
  then have "capture_inv (v\<lparr>vw_scene := s', vw_scene_item_offsets := os, vw_scene_reorder_transition := n,
      vw_scene_animation_started := t\<rparr>)" if "move_to_index j k (vw_scene v) = (s', b)" for j k s' b os n t
    using that by (intro capture_inv_same [OF assms]) (simp_all, metis fst_conv)
  then show ?thesis
    using assms by (auto simp: drag_scene_item_over_def Let_def split: option.split prod.split)
qed

lemma delete_capture_inv:
  assumes "capture_inv v" "scene_inv v"
  shows "capture_inv (delete_selected stop v)"
proof (cases "vw_selected_item v")
  case None
  then show ?thesis using assms by (simp add: delete_selected_def)
next
  case (Some i)
  obtain s r where r: "scene_remove i (vw_scene v) = (s, r)" by fastforce
  show ?thesis
  proof (cases r)
    case None
    with Some r assms(1) show ?thesis by (simp add: delete_selected_def capture_inv_def)
  next
    case (Some x)
    have ok: "scene_ok (vw_scene v)" using assms(2) by (simp add: scene_inv_def)
    have s: "sc_elements s = filter (\<lambda>e. se_id e \<noteq> i) (sc_elements (vw_scene v))"
      using scene_remove_filter [OF ok, of i] r by simp
    have x: "x \<in> set (sc_elements (vw_scene v))" "se_id x = i" using scene_remove_Some [of i "vw_scene v" x] r Some by simp_all
    have only: "e = x" if "e \<in> set (sc_elements (vw_scene v))" "se_id e = i" for e
      using that x ok by (auto simp: scene_ok_def distinct_map inj_on_def)
    have kept: "uses_source src s" if "uses_source src (vw_scene v)" "src \<noteq> se_source x" for src
    proof -
      from that(1) obtain e where e: "e \<in> set (sc_elements (vw_scene v))" "se_source e = src"
        by (auto simp: uses_source_iff)
      with that(2) only have "se_id e \<noteq> i" by blast
      with e show ?thesis by (auto simp: uses_source_iff s)
    qed
    have "capture_inv v'" if "vw_scene v' = s" "vw_pending_captures v' = (vw_pending_captures v)(se_source x := None)"
      "vw_failed_captures v' = vw_failed_captures v - {se_source x}"
      "vw_captures v' = (vw_captures v)(se_source x := None)" for v'
      using that kept by (intro capture_inv_mono [OF assms(1)]) (auto split: if_splits)
    moreover have "capture_inv v'" if "vw_scene v' = s" "vw_pending_captures v' = vw_pending_captures v"
      "vw_failed_captures v' = vw_failed_captures v" "vw_captures v' = vw_captures v"
      "uses_source (se_source x) s \<or> (\<exists>j. se_source x = ColorSource j)" for v'
    proof (cases "uses_source (se_source x) s")
      case True
      with that kept show ?thesis by (intro capture_inv_same [OF assms(1)]) (simp_all, blast)
    next
      case False
      with that obtain j where j: "se_source x = ColorSource j" by blast
      with assms(1) have "vw_pending_captures v (ColorSource j) = None"
        by (auto simp: capture_inv_def)
      show ?thesis
      proof (rule capture_inv_mono [OF assms(1)])
        fix sa assume "uses_source sa (vw_scene v)" "vw_pending_captures v' sa \<noteq> None"
        then show "uses_source sa (vw_scene v')"
          using kept [of sa] j that \<open>vw_pending_captures v (ColorSource j) = None\<close> by (cases "sa = ColorSource j") simp_all
      qed (simp_all add: that)
    qed
    ultimately show ?thesis
      using \<open>vw_selected_item v = Some i\<close> r Some assms(1)
      by (auto simp: delete_selected_def Let_def split: source_id.split)
  qed
qed

lemma add_element_capture_inv: "capture_inv v \<Longrightarrow> capture_inv (add_element s l v)"
  by (rule capture_inv_same [of v]) simp_all

lemma ensure_capture_inv:
  assumes "capture_inv v" "\<And>i. s \<noteq> CameraSource i"
  shows "capture_inv (fst (ensure_captured s r v))"
  using assms(2)
  by (intro capture_inv_mono [OF assms(1)])
    (simp_all, auto simp: ensure_captured_def open_capture_def viewer_helpers split: sum.split if_splits)

lemma add_camera_capture_inv:
  assumes "capture_inv v"
  shows "capture_inv (add_camera_target (CameraSource i) v)"
proof -
  let ?v = "save_viewer (changed_scene None ((add_element (CameraSource i) inset_layout v)\<lparr>vw_control_error := None\<rparr>))"
  have "capture_inv ?v" using add_element_capture_inv [OF assms] by simp
  moreover have "uses_source (CameraSource i) (vw_scene ?v)" by (simp add: viewer_helpers)
  ultimately show ?thesis
    by (auto simp: add_camera_target_def Let_def) (auto simp: capture_inv_def viewer_helpers)
qed

lemma add_target_capture_inv: "capture_inv v \<Longrightarrow> capture_inv (add_capture_target hash i r v)"
  unfolding add_capture_target_def
  by (auto simp: ensure_case add_camera_capture_inv split: option.split capture_target.split bool.split
    intro!: add_element_capture_inv ensure_capture_inv)

lemma replace_capture_inv:
  assumes "capture_inv v" "scene_inv v"
  shows "capture_inv (replace_selected_capture hash i r stop v)"
proof -
  have ok: "scene_ok (vw_scene v)" using assms(2) by (simp add: scene_inv_def)
  have kept: "uses_source src (fst (replace_source item source (vw_scene v)))"
    if "uses_source src (vw_scene v)" "scene_element_of item (vw_scene v) = Some e" "src \<noteq> se_source e"
    for src item source e
  proof -
    from that(1) obtain x where x: "x \<in> set (sc_elements (vw_scene v))" "se_source x = src"
      by (auto simp: uses_source_iff)
    have "se_id x \<noteq> item"
    proof
      assume "se_id x = item"
      moreover have "e \<in> set (sc_elements (vw_scene v)) \<and> se_id e = item"
        using that(2) by (auto simp: scene_element_of_def find_Some_iff)
      ultimately have "x = e" using x(1) ok by (auto simp: scene_ok_def distinct_map inj_on_def)
      with x(2) that(3) show False by simp
    qed
    with x show ?thesis
      by (auto simp: uses_source_def list_ex_iff replace_source_def update_element_map [OF ok])
  qed
  have step: "capture_inv v2" if "scene_element_of item (vw_scene v) = Some e"
    "vw_scene v2 = fst (replace_source item source (vw_scene v))"
    "vw_captures v1 = vw_captures (fst (ensure_captured source r v))" "\<And>j. source \<noteq> CameraSource j"
    "if uses_source (se_source e) (vw_scene v2)
     then vw_pending_captures v2 = vw_pending_captures v \<and> vw_failed_captures v2 = vw_failed_captures v
       \<and> vw_captures v2 = vw_captures v1
     else vw_pending_captures v2 = (vw_pending_captures v)(se_source e := None)
       \<and> vw_failed_captures v2 = vw_failed_captures v - {se_source e}
       \<and> vw_captures v2 = (vw_captures v1)(se_source e := None)" for item e source v1 v2
  proof -
    have cam: "vw_captures v1 (CameraSource j) = vw_captures v (CameraSource j)" for j
      using that(4) [of j] unfolding that(3)
      by (auto simp: ensure_captured_def open_capture_def viewer_helpers split: sum.split)
    show ?thesis
      by (rule capture_inv_mono [OF assms(1)])
        (use that(5) cam kept [OF _ that(1), of _ source] that(2) in \<open>auto split: if_splits\<close>)
  qed
  have kept1 [simp]: "capture_inv (fst (ensure_captured s r v))" if "\<And>j. s \<noteq> CameraSource j" for s
    using ensure_capture_inv [OF assms(1)] that by blast
  show ?thesis
    unfolding replace_selected_capture_def Let_def
    using assms(1)
    by (auto simp: case_prod_beta split: option.split capture_target.split bool.split intro!: step)
qed

lemma camera_started_capture_inv: "capture_inv v \<Longrightarrow> capture_inv (camera_started s g r v)"
  by (auto simp: camera_started_def Let_def split: sum.split) (auto simp: capture_inv_def viewer_helpers)

lemma capture_failed_capture_inv: "capture_inv v \<Longrightarrow> capture_inv (capture_failed hash s g m r v)"
  by (auto simp: capture_failed_def should_restart_capture_def Let_def open_capture_def split: sum.split option.split)
    (auto simp: capture_inv_def viewer_helpers)

lemma edit_color_capture_inv [simp]: "capture_inv (edit_color f v) \<longleftrightarrow> capture_inv v"
  by (auto simp: edit_color_def capture_inv_def viewer_helpers split: option.split)

lemma add_color_capture_inv: "capture_inv v \<Longrightarrow> capture_inv (add_color_source v)"
  by (auto simp: add_color_source_def Let_def intro!: add_element_capture_inv) (simp add: capture_inv_def)

lemma infinite_capture_inv [simp]: "capture_inv (v\<lparr>vw_infinite := b\<rparr>) \<longleftrightarrow> capture_inv v"
  by (simp add: capture_inv_def)

lemma set_value_capture_inv: "capture_inv v \<Longrightarrow> scene_inv v \<Longrightarrow> capture_inv (set_transform_value a x v)"
  by (cases a) (auto simp: set_transform_value_def set_layout_def edit_layout_capture_inv split: option.split)

lemma drag_capture_inv:
  assumes "capture_inv v" "scene_inv v" "drag_inset viewport p v = Some v'"
  shows "capture_inv v'"
proof -
  have [simp]: "capture_inv (reposition_item i off viewport p v)" "capture_inv (resize_dragged i h t e a viewport p v)"
    "capture_inv (adjust_corner_radius i b p v)" for i off h t e a b
    using assms(1,2)
    by (auto simp: reposition_item_def resize_dragged_def adjust_corner_radius_def case_prod_beta Let_def
      edit_layout_capture_inv split: option.split)
  from assms(1,3) show ?thesis
    by (auto simp: drag_inset_def split: option.splits drag_operation.splits) (simp add: capture_inv_def)
qed

lemma op_capture_inv:
  assumes "capture_inv v" "scene_inv v" "view_op hash op v = Some v'"
  shows "capture_inv v'"
proof (cases op)
  case (BeginDrag a b)
  then show ?thesis using assms by (simp add: capture_inv_def begin_drag_fields)
next
  case (MovePointer a b)
  then show ?thesis using assms by (auto intro: drag_capture_inv)
next
  case (MoveSelected d)
  then show ?thesis
    using assms by (auto simp: move_selected_def Let_def edit_layout_capture_inv split: option.split prod.split)
qed (use assms in \<open>auto intro: drag_over_capture_inv delete_capture_inv add_target_capture_inv replace_capture_inv
    camera_started_capture_inv capture_failed_capture_inv add_color_capture_inv set_value_capture_inv
    simp: set_selected_color_def\<close>,
    auto simp: menu_defs capture_inv_def viewer_helpers Let_def split: option.split)

subsection \<open>Every run of a session\<close>

lemma corner_radius_total:
  assumes "drawn_inv v" "vw_content_dimensions v = Some c" "rendered_transform v i = Some t"
  shows "item_corner_radius frame c t \<noteq> None"
proof -
  have "0 < fst (it_size t)" "0 < snd (it_size t)"
    using rendered_positive [OF assms(1,3)] by (simp_all add: positive_def)
  then show ?thesis
    using clamped_radius_bounds [of "(real (fst c), real (snd c))" t] by (auto simp: item_corner_radius_def)
qed

lemma rendered_guides: "rendered_transform (v\<lparr>vw_snap_guides := gs\<rparr>) i = rendered_transform v i"
  by (simp add: rendered_transform_def)

text \<open>No operation panics: the only handlers that could are those that place the handle of the corner radius.\<close>

lemma op_total:
  assumes "drawn_inv v"
  shows "view_op hash op v \<noteq> None"
proof (cases op)
  case (BeginDrag viewport p)
  have no: "item_corner_radius frame c t = None \<Longrightarrow> vw_content_dimensions v = Some c
      \<Longrightarrow> rendered_transform v i = Some t \<Longrightarrow> False" for frame c t i
    using corner_radius_total [OF assms] by blast
  from BeginDrag show ?thesis
    by (auto simp: begin_drag_def Let_def rendered_guides split: option.split dest: no)
next
  case (MovePointer viewport p)
  have no: "item_corner_radius frame c t = None \<Longrightarrow> vw_content_dimensions v = Some c
      \<Longrightarrow> rendered_transform v i = Some t \<Longrightarrow> False" for frame c t i
    using corner_radius_total [OF assms] by blast
  from MovePointer show ?thesis
    by (auto simp: drag_inset_def hovered_at_def Let_def simp del: not_None_eq
      split: option.split drag_operation.split) (metis no option.exhaust)
qed simp_all

lemma next_id_simps [simp]:
  "sc_next_id (update_element i f s) = sc_next_id s" "sc_next_id (fst (scene_remove i s)) = sc_next_id s"
  "sc_next_id (fst (move_to_index i k s)) = sc_next_id s" "sc_next_id (fst (replace_source i src s)) = sc_next_id s"
  by (simp_all add: update_element_def scene_remove_def move_to_index_mset replace_source_def split: option.split)

lemma next_id_results:
  "scene_remove i s = (s', r) \<Longrightarrow> sc_next_id s' = sc_next_id s"
  "move_to_index i k s = (s', b) \<Longrightarrow> sc_next_id s' = sc_next_id s"
  using next_id_simps(2) [of i s] next_id_simps(3) [of i k s] by simp_all

lemma next_id_add [simp]: "sc_next_id (fst (scene_add src l s)) = saturating_add u64_max (sc_next_id s) 1"
  by (simp add: scene_add_def)

text \<open>The counters of a state.\<close>

definition same_ids :: "viewer \<Rightarrow> viewer \<Rightarrow> bool" where
  "same_ids v v' \<longleftrightarrow> sc_next_id (vw_scene v') = sc_next_id (vw_scene v)
     \<and> vw_next_color_source_id v' = vw_next_color_source_id v"

lemma same_ids_left: "same_ids v v' \<Longrightarrow> ids_left v' \<Longrightarrow> ids_left v"
  by (simp add: same_ids_def ids_left_def)

lemma edit_layout_ids [simp]: "sc_next_id (vw_scene (edit_layout i f v)) = sc_next_id (vw_scene v)"
  by (simp add: edit_layout_def)

lemma drag_over_ids: "same_ids v (drag_scene_item_over now i y v)"
  by (auto simp: same_ids_def drag_scene_item_over_def viewer_helpers Let_def split: option.split prod.split
    dest: next_id_results)

lemma delete_ids: "same_ids v (delete_selected stop v)"
  by (auto simp: same_ids_def delete_selected_def viewer_helpers Let_def split: option.split prod.split source_id.split
    dest: next_id_results)

lemma move_ids: "same_ids v (move_selected d v)"
  by (auto simp: same_ids_def move_selected_def viewer_helpers Let_def split: option.split prod.split)

lemma replace_ids: "same_ids v (replace_selected_capture hash k r stop v)"
  by (auto simp: same_ids_def replace_selected_capture_def ensure_case case_prod_beta viewer_helpers Let_def
    split: option.split capture_target.split bool.split)

lemma capture_ids: "same_ids v (camera_started s g r v)" "same_ids v (capture_failed hash s g m r v)"
  by (auto simp: same_ids_def camera_started_def viewer_helpers Let_def split: sum.split)
    (auto simp: same_ids_def capture_failed_def open_capture_def viewer_helpers Let_def split: option.split sum.split)

lemma drag_step_ids:
  "same_ids v (edit_color fc v)" "same_ids v (reposition_item i off viewport p v)"
  "same_ids v (resize_dragged i h t e a viewport p v)" "same_ids v (adjust_corner_radius i b p v)"
  by (auto simp: same_ids_def edit_color_def reposition_item_def resize_dragged_def adjust_corner_radius_def
    case_prod_beta viewer_helpers Let_def split: option.split)

lemmas same_ids_ops = drag_over_ids delete_ids move_ids replace_ids capture_ids drag_step_ids

lemma set_value_ids: "same_ids v (set_transform_value a x v)"
  by (cases a; auto simp: set_transform_value_def set_layout_def same_ids_ops same_ids_def edit_color_def viewer_helpers
    split: option.split)

lemma drag_ids: "drag_inset viewport p v = Some v' \<Longrightarrow> same_ids v v'"
  by (auto simp: drag_inset_def same_ids_ops split: option.splits drag_operation.splits) (auto simp: same_ids_def)

lemma add_camera_ids: "ids_left (add_camera_target s v) \<Longrightarrow> ids_left v"
  by (auto simp: ids_left_def add_camera_target_def viewer_helpers Let_def saturating_add_def split: if_splits)

lemma add_target_ids: "ids_left (add_capture_target hash i r v) \<Longrightarrow> ids_left v"
  by (auto simp: add_capture_target_def ensure_case dest: add_camera_ids
    split: option.splits capture_target.splits bool.splits)
    (auto simp: ids_left_def viewer_helpers saturating_add_def split: if_splits)

lemma add_color_ids: "ids_left (add_color_source v) \<Longrightarrow> ids_left v"
  by (auto simp: ids_left_def add_color_source_def viewer_helpers Let_def saturating_add_def split: if_splits)

lemma op_same_ids:
  assumes "view_op hash op v = Some v'" "\<And>i r. op \<noteq> AddTarget i r" "op \<noteq> AddColor"
  shows "same_ids v v'"
proof (cases op)
  case (BeginDrag a b)
  then show ?thesis using assms(1) by (simp add: same_ids_def begin_drag_fields)
next
  case (MovePointer a b)
  then show ?thesis using assms(1) by (simp add: drag_ids)
qed (use assms in \<open>auto simp: same_ids_ops set_value_ids set_selected_color_def\<close>,
    auto simp: same_ids_def menu_defs viewer_helpers Let_def split: option.split)

lemma op_ids_left: "view_op hash op v = Some v' \<Longrightarrow> ids_left v' \<Longrightarrow> ids_left v"
  using op_same_ids [of hash op v v', THEN same_ids_left] by (cases op) (auto intro: add_target_ids add_color_ids)

text \<open>
  One step of a session, and what every state keeps as long as identifiers are left. A session is followed
  until a typed number makes a layout infinite.
\<close>

definition view_step :: "(string \<Rightarrow> nat) \<Rightarrow> viewer \<Rightarrow> viewer \<Rightarrow> bool" where
  "view_step hash v v' \<longleftrightarrow> \<not> vw_infinite v \<and> (\<exists>op. op_ok op \<and> view_op hash op v = Some v')"

definition session_inv :: "viewer \<Rightarrow> bool" where
  "session_inv v \<longleftrightarrow> (ids_left v \<longrightarrow> viewer_ok v)"

lemma op_viewer_ok:
  assumes "viewer_ok v" "ids_left v" "op_ok op" "view_op hash op v = Some v'"
  shows "viewer_ok v'"
  using assms op_scene_inv op_drawn_inv op_stream_inv op_capture_inv unfolding viewer_ok_def by blast

interpretation session: state_machine "view_step hash" session_inv for hash
  by unfold_locales (auto simp: view_step_def session_inv_def intro: op_viewer_ok op_ids_left)

subsection \<open>Starting\<close>

definition map_project :: "('a \<Rightarrow> 'b) \<Rightarrow> 'a project \<Rightarrow> 'b project" where
  "map_project f p = \<lparr>pj_elements = List.map (\<lambda>e. \<lparr>pe_id = pe_id e, pe_source = pe_source e,
       pe_center = map_prod f f (pe_center e), pe_size = map_prod f f (pe_size e),
       pe_corner_radius_ratio = f (pe_corner_radius_ratio e)\<rparr>) (pj_elements p),
     pj_selected_item = pj_selected_item p\<rparr>"

text \<open>A project that \<open>load\<close> hands over, whose colours are not numbered up to the last number.\<close>

definition loadable :: "real project \<Rightarrow> bool" where
  "loadable p \<longleftrightarrow> is_valid (map_project Fin p)
     \<and> (\<forall>e \<in> set (pj_elements p). \<forall>i c. pe_source e = ColorItem i c \<longrightarrow> i < u64_max)"

lemma fold_colors:
  "(\<exists>e \<in> set es. \<exists>c. pe_source e = ColorItem i c) \<or> m (ColorSource i) \<noteq> None \<Longrightarrow>
   fold (\<lambda>e m. case pe_source e of ColorItem i v \<Rightarrow> m(ColorSource i \<mapsto> v) | _ \<Rightarrow> m) es m (ColorSource i) \<noteq> None"
proof (induction es arbitrary: m)
  case Nil
  then show ?case by simp
next
  case (Cons e es)
  show ?case
  proof (cases "\<exists>x \<in> set es. \<exists>c. pe_source x = ColorItem i c")
    case True
    with Cons.IH show ?thesis by simp
  next
    case False
    with Cons.prems have "(\<exists>c. pe_source e = ColorItem i c) \<or> m (ColorSource i) \<noteq> None" by simp
    then have "(case pe_source e of ColorItem i v \<Rightarrow> m(ColorSource i \<mapsto> v) | _ \<Rightarrow> m) (ColorSource i) \<noteq> None"
      by (cases "pe_source e") (auto simp del: not_None_eq split_paired_Ex)
    with Cons.IH show ?thesis by simp
  qed
qed

lemma fold_next_color:
  fixes es :: "'a project_element list"
  assumes "n \<le> u64_max" "\<forall>e \<in> set es. \<forall>i c. pe_source e = ColorItem i c \<longrightarrow> i < u64_max"
  shows "let k = fold (\<lambda>e n. case pe_source e of ColorItem i v \<Rightarrow> max n (saturating_add u64_max i 1) | _ \<Rightarrow> n) es n
    in n \<le> k \<and> k \<le> u64_max \<and> (\<forall>e \<in> set es. \<forall>i c. pe_source e = ColorItem i c \<longrightarrow> i < k)"
  using assms
proof (induction es arbitrary: n)
  case Nil
  then show ?case by simp
next
  case (Cons e es)
  show ?case
  proof (cases "pe_source e")
    case (ColorItem i c)
    then have i: "i < u64_max" using Cons.prems(2) by (meson list.set_intros(1))
    have "max n (saturating_add u64_max i 1) \<le> u64_max" using Cons.prems(1) by (simp add: saturating_add_def)
    from Cons.IH [OF this] Cons.prems(2) i ColorItem show ?thesis by (auto simp: Let_def saturating_add_def)
  qed (use Cons.IH [of n] Cons.prems in \<open>auto simp: Let_def\<close>)
qed

lemma restored_source_color: "restored_source s = ColorSource i \<longleftrightarrow> (\<exists>c. s = ColorItem i c)"
  by (cases s) (simp_all del: split_paired_Ex)

lemma restored_ok:
  assumes "loadable p" "restore_project p = (s, colors, selected, next_color)"
  shows "scene_ok s" "layouts_ok s" "colors_ok s colors next_color" "selection_ok s selected"
proof -
  let ?es = "pj_elements p"
  have v: "distinct (List.map pe_id ?es)" "\<forall>e \<in> set ?es. 0 < pe_id e \<and> pe_id e < u64_max
      \<and> 0 < fst (pe_size e) \<and> 0 < snd (pe_size e) \<and> 0 \<le> pe_corner_radius_ratio e"
    "\<forall>i. pj_selected_item p = Some i \<longrightarrow> i \<in> set (List.map pe_id ?es)"
    "\<forall>e \<in> set ?es. \<forall>i c. pe_source e = ColorItem i c \<longrightarrow> i < u64_max"
    using assms(1) unfolding loadable_def is_valid_iff map_project_def by (auto simp: comp_def)
  have s: "sc_elements s = List.map restored_element ?es"
    "sc_next_id s = fold (\<lambda>e n. max n (saturating_add u64_max (pe_id e) 1)) ?es 1"
    "colors = fold (\<lambda>e m. case pe_source e of ColorItem i v \<Rightarrow> m(ColorSource i \<mapsto> v) | _ \<Rightarrow> m) ?es Map.empty"
    "next_color = fold (\<lambda>e n. case pe_source e of ColorItem i v \<Rightarrow> max n (saturating_add u64_max i 1) | _ \<Rightarrow> n) ?es 1"
    "selected = pj_selected_item p"
    using assms(2) by (auto simp: restore_project_def fold_restore new_scene_def)
  have ids: "element_ids s = List.map pe_id ?es" by (simp add: s(1) restored_element_def comp_def)
  have "\<forall>e \<in> set ?es. saturating_add u64_max (pe_id e) 1 \<le> u64_max" by (simp add: saturating_add_def)
  from fold_max [OF _ this, of 1] have n: "1 \<le> sc_next_id s"
    "\<forall>e \<in> set ?es. saturating_add u64_max (pe_id e) 1 \<le> sc_next_id s" "sc_next_id s \<le> u64_max"
    by (simp_all add: s(2) u64_max_def)
  have "pe_id e < sc_next_id s" if "e \<in> set ?es" for e
  proof -
    have "saturating_add u64_max (pe_id e) 1 = pe_id e + 1"
      using v(2) that by (auto simp: saturating_add_def)
    with n(2) that show ?thesis by fastforce
  qed
  with v(1,2) n show "scene_ok s" unfolding scene_ok_def ids by auto
  show "layouts_ok s" using v(2) by (simp add: layouts_ok_def s(1) restored_element_def layout_ok_def)
  show "selection_ok s selected" using v(3) by (auto simp: selection_ok_def s(5) ids split: option.split)
  have "(1 :: nat) \<le> u64_max" by (simp add: u64_max_def)
  from fold_next_color [OF this v(4)] have k: "1 \<le> next_color" "next_color \<le> u64_max"
    "\<forall>e \<in> set ?es. \<forall>i c. pe_source e = ColorItem i c \<longrightarrow> i < next_color"
    by (simp_all add: s(4) Let_def)
  show "colors_ok s colors next_color"
    unfolding colors_ok_def
  proof (intro conjI ballI allI impI)
    fix e i assume "e \<in> set (sc_elements s)" "se_source e = ColorSource i"
    then obtain x c where x: "x \<in> set ?es" "pe_source x = ColorItem i c"
      by (auto simp: s(1) restored_element_def restored_source_color)
    then show "colors (ColorSource i) \<noteq> None" "i < next_color"
      using fold_colors [of ?es i Map.empty] k(3) unfolding s(3) by blast+
  qed (use k in simp_all)
qed

text \<open>The parts of the state a session starts with.\<close>

lemma open_studio_parts:
  assumes "open_studio hash targets m d w loaded start = Inr v" "\<And>p. loaded = Some p \<Longrightarrow> loadable p"
  shows "viewer_ok v \<and> selection_ok (vw_scene v) (vw_selected_item v) \<and> vw_effects v = []"
proof -
  obtain t captures generation where
    v: "v = new_viewer targets (initial_project (target_id hash t) loaded) captures generation"
    using assms(1) by (auto simp: open_studio_def Let_def split: prod.splits)
  obtain s colors selected next_color where r: "initial_project (target_id hash t) loaded = (s, colors, selected, next_color)"
    by (metis prod_cases4)
  have "scene_ok s \<and> layouts_ok s \<and> colors_ok s colors next_color \<and> selection_ok s selected"
  proof (cases loaded)
    case None
    have [simp]: "(1 :: nat) < u64_max" "saturating_add u64_max 1 1 < u64_max"
      by (simp_all add: u64_max_def saturating_add_def)
    show ?thesis
      using r None assms(1)
      by (auto simp: initial_project_def case_prod_beta Let_def scene_add_ok layouts_ok_simps(1) new_scene_def[symmetric]
        selection_ok_def colors_ok_def u64_max_def scene_ok_def layouts_ok_def new_scene_def scene_add_def saturating_add_def)
  next
    case (Some p)
    with r restored_ok [OF assms(2)] show ?thesis by (simp add: initial_project_def)
  qed
  then show ?thesis
    by (simp add: v new_viewer_def r viewer_ok_def scene_inv_def drawn_inv_def stream_inv_def capture_inv_def)
qed

text \<open>
  C2: however a session of Blip Studio goes (any order of clicks, drags, typed numbers, frames, camera starts,
  capture errors and stream errors, with any answers from outside), until a typed number makes a layout infinite
  (it takes 39 digits) nothing in its handlers panics and its
  state stays typed: elements have distinct numbers below the next one, positive sizes and known colours, a
  stream runs exactly while the canvas is locked to even dimensions, and a camera is pending only while an
  element uses it and it neither runs nor has failed; as long as the 64-bit numbers are not used up.
\<close>

theorem studio_stays_typed:
  assumes "open_studio hash targets main display_id window loaded start = Inr v0"
    and "\<And>p. loaded = Some p \<Longrightarrow> loadable p" and "(view_step hash)\<^sup>*\<^sup>* v0 v" and "ids_left v"
    and "\<not> vw_infinite v"
  shows "viewer_ok v \<and> (\<forall>op. view_op hash op v \<noteq> None)"
proof -
  have "session_inv v0" using open_studio_parts [OF assms(1,2)] by (simp add: session_inv_def)
  from session.reachable_inv [OF assms(3) this] assms(4) have ok: "viewer_ok v" by (simp add: session_inv_def)
  then show ?thesis using op_total by (simp add: viewer_ok_def)
qed

subsection \<open>The projects a session saves\<close>

definition snapshot :: "viewer \<Rightarrow> fl project" where
  "snapshot v = scene_project (vw_scene v) (vw_colors v) (vw_selected_item v)"

text \<open>The projects a session has saved, in the order of the saves.\<close>

fun saved_project :: "viewer_effect \<Rightarrow> fl project option" where
  "saved_project (SaveProject p) = Some p"
| "saved_project e = None"

definition saves :: "viewer \<Rightarrow> fl project list" where
  "saves v = List.map_filter saved_project (vw_effects v)"

text \<open>Every operation saves at most once, and what is left when it is done.\<close>

definition saved_now :: "viewer \<Rightarrow> viewer \<Rightarrow> bool" where
  "saved_now v v' \<longleftrightarrow> saves v' = saves v \<or> saves v' = saves v @ [snapshot v']"

lemma saves_helpers [simp]:
  "saves (save_viewer v) = saves v @ [snapshot v]" "saves (changed_scene r v) = saves v"
  "saves (control_error m v) = saves v" "saves (close_source_menu v) = saves v"
  "saves (release_capture stop s v) = saves v" "saves (fst (ensure_captured s reply v)) = saves v"
  "saves (add_element s l v) = saves v" "saves (edit_layout i f v) = saves v"
  "saves (animate_scene_drag_release now p i v) = saves v" "saves (open_capture s g c k v) = saves v"
  by (auto simp: saves_def map_filter_def viewer_helpers snapshot_def close_source_menu_def release_capture_def
    ensure_captured_def open_capture_def add_element_def edit_layout_def Let_def case_prod_beta
    split: option.splits sum.splits)

lemma saves_update [simp]:
  "saves (v\<lparr>vw_selected_item := a\<rparr>) = saves v" "saves (v\<lparr>vw_scene := s\<rparr>) = saves v"
  "saves (v\<lparr>vw_colors := c\<rparr>) = saves v" "saves (v\<lparr>vw_open_menu := om\<rparr>) = saves v"
  "saves (v\<lparr>vw_control_error := e\<rparr>) = saves v" "saves (v\<lparr>vw_snap_guides := gs\<rparr>) = saves v"
  "saves (v\<lparr>vw_drag_operation := d\<rparr>) = saves v" "saves (v\<lparr>vw_hovered_handle := h\<rparr>) = saves v"
  "saves (v\<lparr>vw_corner_handle_hovered := b\<rparr>) = saves v" "saves (v\<lparr>vw_rendered_elements := es\<rparr>) = saves v"
  "saves (v\<lparr>vw_scene_dragging_item := di\<rparr>) = saves v" "saves (v\<lparr>vw_scene_item_offsets := os\<rparr>) = saves v"
  "saves (v\<lparr>vw_scene_reorder_transition := n\<rparr>) = saves v" "saves (v\<lparr>vw_scene_animation_started := t\<rparr>) = saves v"
  "saves (v\<lparr>vw_pending_captures := pc\<rparr>) = saves v" "saves (v\<lparr>vw_captures := cs\<rparr>) = saves v"
  "saves (v\<lparr>vw_failed_captures := fs\<rparr>) = saves v" "saves (v\<lparr>vw_next_capture_generation := g\<rparr>) = saves v"
  "saves (v\<lparr>vw_next_color_source_id := k\<rparr>) = saves v" "saves (v\<lparr>vw_stream := sb\<rparr>) = saves v"
  "saves (v\<lparr>vw_stream_canvas := sc\<rparr>) = saves v" "saves (v\<lparr>vw_stream_generation := sg\<rparr>) = saves v"
  "saves (v\<lparr>vw_image := im\<rparr>) = saves v" "saves (v\<lparr>vw_content_dimensions := cd\<rparr>) = saves v"
  "saves (v\<lparr>vw_scene_drag_grab_offset := go\<rparr>) = saves v" "saves (v\<lparr>vw_source_menu_transition := mt\<rparr>) = saves v"
  "saves (v\<lparr>vw_source_menu_visible := mv\<rparr>) = saves v" "saves (v\<lparr>vw_focused_inputs := fi\<rparr>) = saves v"
  "saves (v\<lparr>vw_stream_url_focused := uf\<rparr>) = saves v" "saves (v\<lparr>vw_scene_list_bounds := lb\<rparr>) = saves v"
  "saves (v\<lparr>vw_scene_row_bounds := rb\<rparr>) = saves v"
  by (simp_all add: saves_def)

lemma saves_effect [simp]: "(\<And>p. e \<noteq> SaveProject p) \<Longrightarrow> saves (effect e v) = saves v"
  by (cases e) (auto simp: saves_def effect_def map_filter_def)

lemma snapshot_helpers [simp]:
  "snapshot (save_viewer v) = snapshot v" "snapshot (changed_scene r v) = snapshot v"
  "snapshot (control_error m v) = snapshot v" "snapshot (effect e v) = snapshot v"
  by (simp_all add: snapshot_def viewer_helpers)

lemma saved_now_refl [simp]: "saved_now v v"
  by (auto simp: saved_now_def)

lemma saved_by_save: "saves v1 = saves v \<Longrightarrow> saved_now v (save_viewer v1)"
  by (auto simp: saved_now_def)

lemma list_saved:
  "saved_now v (drag_scene_item_over now i y v)" "saved_now v (delete_selected stop v)" "saved_now v (move_selected d v)"
  by (auto simp: saved_now_def drag_scene_item_over_def Let_def split: option.split prod.split)
    (auto simp: delete_selected_def Let_def case_prod_beta intro!: saved_by_save
      split: option.split prod.split source_id.split if_splits,
     auto simp: saved_now_def move_selected_def Let_def split: option.split prod.split)

lemma add_saved:
  "saved_now v (add_camera_target s v)" "saved_now v (add_capture_target hash i r v)" "saved_now v (add_color_source v)"
proof -
  show camera: "saved_now v (add_camera_target s v)" for s
    by (auto simp: saved_now_def add_camera_target_def Let_def) (simp_all add: snapshot_def viewer_helpers)
  show "saved_now v (add_capture_target hash i r v)"
    unfolding add_capture_target_def
    by (auto simp: ensure_case camera split: option.split capture_target.split bool.split)
      (auto simp: saved_now_def)
  show "saved_now v (add_color_source v)"
    unfolding add_color_source_def Let_def by (rule saved_by_save) simp
qed

lemma replace_saved: "saved_now v (replace_selected_capture hash i r stop v)"
  unfolding replace_selected_capture_def Let_def
  by (auto simp: case_prod_beta saved_now_def split: option.split capture_target.split bool.split)

lemma capture_saved: "saved_now v (camera_started s g r v)" "saved_now v (capture_failed hash s g m r v)"
  by (auto simp: saved_now_def camera_started_def Let_def split: sum.split)
    (auto simp: saved_now_def capture_failed_def Let_def split: option.split sum.split)

lemma edit_saved:
  "saved_now v (edit_color f v)" "saved_now v (reposition_item i off viewport p v)"
  "saved_now v (resize_dragged i h t e a viewport p v)" "saved_now v (adjust_corner_radius i b p v)"
  by (auto simp: saved_now_def edit_color_def reposition_item_def resize_dragged_def adjust_corner_radius_def
    case_prod_beta Let_def split: option.split)

lemma set_layout_saved: "\<not> vw_infinite (set_layout i l v) \<Longrightarrow> saved_now v (set_layout i l v)"
  by (cases "finite_layout l") (simp_all add: set_layout_def saved_now_def, simp add: viewer_helpers)

lemma set_value_saved: "\<not> vw_infinite (set_transform_value a x v) \<Longrightarrow> saved_now v (set_transform_value a x v)"
  by (cases a; auto simp: set_transform_value_def edit_saved set_layout_saved split: option.splits)

lemma drag_saved: "drag_inset viewport p v = Some v' \<Longrightarrow> saved_now v v'"
  by (auto simp: drag_inset_def edit_saved split: option.splits drag_operation.splits) (auto simp: saved_now_def)

lemma begin_drag_saved: "begin_drag viewport p v = Some v' \<Longrightarrow> saved_now v v'"
  by (simp add: saved_now_def saves_def begin_drag_fields)

lemma end_drag_saved: "saved_now v (end_drag now p v)"
  by (cases "vw_scene_dragging_item v"; auto simp: end_drag_def Let_def saved_now_def)

lemma stream_saved: "saved_now v (toggle_stream u r v)" "saved_now v (stream_failed g m v)" "saved_now v (show_frame sent f v)"
  by (auto simp: saved_now_def toggle_stream_def stream_failed_def show_frame_def Let_def split: option.split sum.split)

lemma op_saved:
  assumes "view_op hash op v = Some v'" "\<not> vw_infinite v'"
  shows "saved_now v v'"
proof (cases op)
  case (MovePointer a b)
  then show ?thesis using assms by (simp add: drag_saved)
next
  case (BeginDrag a b)
  then show ?thesis using assms by (simp add: begin_drag_saved)
qed (use assms in \<open>auto simp: list_saved add_saved replace_saved capture_saved set_selected_color_def edit_saved
    set_value_saved end_drag_saved stream_saved\<close>,
    auto simp: saved_now_def menu_defs Let_def)

text \<open>
  The operations that name an element name one of the scene: rows of the list that are still there, and
  pictures of elements that have not been deleted since.
\<close>

definition has_element :: "viewer \<Rightarrow> nat \<Rightarrow> bool" where
  "has_element v i \<longleftrightarrow> i \<in> set (element_ids (vw_scene v))"

fun op_fresh :: "viewer \<Rightarrow> viewer_op \<Rightarrow> bool" where
  "op_fresh v (SelectItem i) \<longleftrightarrow> has_element v i"
| "op_fresh v (StartSceneDrag i p) \<longleftrightarrow> has_element v i"
| "op_fresh v (DropSceneItem now p i) \<longleftrightarrow> has_element v i"
| "op_fresh v (BeginDrag viewport p) \<longleftrightarrow> (\<forall>e \<in> set (vw_rendered_elements v). has_element v (re_id e))"
| "op_fresh v op \<longleftrightarrow> True"

definition sel_inv :: "viewer \<Rightarrow> bool" where
  "sel_inv v \<longleftrightarrow> (\<forall>i. vw_selected_item v = Some i \<longrightarrow> has_element v i)"

lemma sel_inv_selection: "sel_inv v \<longleftrightarrow> selection_ok (vw_scene v) (vw_selected_item v)"
  by (auto simp: sel_inv_def selection_ok_def has_element_def split: option.split)

text \<open>Operations that keep the selection and every element.\<close>

definition keeps_sel :: "viewer \<Rightarrow> viewer \<Rightarrow> bool" where
  "keeps_sel v v' \<longleftrightarrow> vw_selected_item v' = vw_selected_item v \<and> (\<forall>i. has_element v i \<longrightarrow> has_element v' i)"

lemma keeps_sel_inv: "keeps_sel v v' \<Longrightarrow> sel_inv v \<Longrightarrow> sel_inv v'"
  by (simp add: keeps_sel_def sel_inv_def)

lemma keeps_refl [simp]: "keeps_sel v v" by (simp add: keeps_sel_def)

lemma element_ids_update:
  "(\<And>e. se_id (f e) = se_id e) \<Longrightarrow> element_ids (update_element i f s) = element_ids s"
  by (auto simp: update_element_def map_update position_Some_iff split: option.split
    intro!: list_update_same_conv [THEN iffD2])

lemma has_element_helpers [simp]:
  "has_element (save_viewer v) = has_element v" "has_element (changed_scene r v) = has_element v"
  "has_element (control_error m v) = has_element v" "has_element (effect e v) = has_element v"
  "has_element (close_source_menu v) = has_element v" "has_element (release_capture stop s v) = has_element v"
  "has_element (fst (ensure_captured s reply v)) = has_element v" "has_element (open_capture s g c k v) = has_element v"
  "has_element (animate_scene_drag_release now p i v) = has_element v"
  by (simp_all add: has_element_def fun_eq_iff viewer_helpers open_capture_def)

lemma has_element_edit_layout [simp]: "has_element (edit_layout i f v) = has_element v"
  by (simp add: has_element_def fun_eq_iff edit_layout_def element_ids_update del: set_map)

lemma selected_helpers [simp]:
  "vw_selected_item (save_viewer v) = vw_selected_item v" "vw_selected_item (changed_scene r v) = vw_selected_item v"
  "vw_selected_item (control_error m v) = vw_selected_item v" "vw_selected_item (effect e v) = vw_selected_item v"
  "vw_selected_item (open_capture s g c k v) = vw_selected_item v"
  by (simp_all add: viewer_helpers open_capture_def)

lemma has_element_update [simp]:
  "has_element (v\<lparr>vw_selected_item := a\<rparr>) = has_element v" "has_element (v\<lparr>vw_colors := c\<rparr>) = has_element v"
  "has_element (v\<lparr>vw_open_menu := om\<rparr>) = has_element v" "has_element (v\<lparr>vw_control_error := e\<rparr>) = has_element v"
  "has_element (v\<lparr>vw_snap_guides := gs\<rparr>) = has_element v" "has_element (v\<lparr>vw_captures := cs\<rparr>) = has_element v"
  "has_element (v\<lparr>vw_pending_captures := pc\<rparr>) = has_element v"
  "has_element (v\<lparr>vw_failed_captures := fs\<rparr>) = has_element v"
  "has_element (v\<lparr>vw_next_capture_generation := g\<rparr>) = has_element v"
  "has_element (v\<lparr>vw_next_color_source_id := k\<rparr>) = has_element v"
  "has_element (v\<lparr>vw_hovered_handle := h\<rparr>) = has_element v"
  "has_element (v\<lparr>vw_corner_handle_hovered := b\<rparr>) = has_element v"
  "has_element (v\<lparr>vw_scene_dragging_item := di\<rparr>) = has_element v"
  "has_element (v\<lparr>vw_drag_operation := dop\<rparr>) = has_element v"
  "has_element (v\<lparr>vw_scene_drag_grab_offset := go\<rparr>) = has_element v"
  by (simp_all add: has_element_def fun_eq_iff)

lemma has_element_scene [simp]:
  "has_element (v\<lparr>vw_scene := s\<rparr>) i \<longleftrightarrow> i \<in> set (element_ids s)"
  by (simp add: has_element_def)

lemma moved_has_element:
  "move_to_index i k (vw_scene v) = (s, b) \<Longrightarrow> i' \<in> set (element_ids s) \<longleftrightarrow> has_element v i'"
  using move_to_index_mset [of i k "vw_scene v"] unfolding has_element_def
  by (metis fst_conv mset_eq_setD mset_map)

lemma replaced_has_element:
  "i' \<in> set (element_ids (fst (replace_source i s (vw_scene v)))) \<longleftrightarrow> has_element v i'"
  by (simp add: replace_source_def element_ids_update has_element_def del: set_map)

lemma drag_over_keeps: "keeps_sel v (drag_scene_item_over now i y v)"
proof -
  have "has_element (save_viewer (changed_scene None (v\<lparr>vw_scene := s, vw_scene_item_offsets := os,
      vw_scene_reorder_transition := n, vw_scene_animation_started := t\<rparr>))) j \<longleftrightarrow> has_element v j"
    if "move_to_index i k (vw_scene v) = (s, b)" for k s b os n t j
    using moved_has_element [OF that, of j] by (simp add: has_element_def)
  then show ?thesis
    by (auto simp: keeps_sel_def drag_scene_item_over_def Let_def split: option.split prod.split)
qed

lemma ops_keep:
  "keeps_sel v (move_selected d v)" "keeps_sel v (camera_started s g r v)" "keeps_sel v (capture_failed hash s g m r v)"
  "keeps_sel v (edit_color f v)" "keeps_sel v (reposition_item i off viewport p v)"
  "keeps_sel v (resize_dragged i h t e a viewport p v)" "keeps_sel v (adjust_corner_radius i b p v)"
  by (auto simp: keeps_sel_def move_selected_def camera_started_def edit_color_def reposition_item_def
      resize_dragged_def adjust_corner_radius_def case_prod_beta Let_def split: option.split prod.split sum.split)
    (auto simp: keeps_sel_def capture_failed_def Let_def split: option.split sum.split)

lemma replace_keeps: "keeps_sel v (replace_selected_capture hash i r stop v)"
  unfolding replace_selected_capture_def Let_def
  by (auto simp: case_prod_beta keeps_sel_def replaced_has_element simp del: set_map
    split: option.split capture_target.split bool.split)

lemma set_layout_keeps: "keeps_sel v (set_layout i l v)"
  by (simp add: keeps_sel_def set_layout_def) (simp add: has_element_def)

lemma set_value_keeps: "keeps_sel v (set_transform_value a x v)"
  by (cases a; auto simp: set_transform_value_def ops_keep set_layout_keeps split: option.split)

lemma drag_keeps: "drag_inset viewport p v = Some v' \<Longrightarrow> keeps_sel v v'"
  by (auto simp: drag_inset_def ops_keep split: option.splits drag_operation.splits) (auto simp: keeps_sel_def)

lemma add_element_sel: "sel_inv (add_element s l v)"
  by (auto simp: sel_inv_def has_element_def scene_add_def)

lemma sel_inv_helpers [simp]:
  "sel_inv (save_viewer v) = sel_inv v" "sel_inv (changed_scene r v) = sel_inv v" "sel_inv (control_error m v) = sel_inv v"
  "sel_inv (effect e v) = sel_inv v" "sel_inv (v\<lparr>vw_control_error := c\<rparr>) = sel_inv v"
  "sel_inv (v\<lparr>vw_pending_captures := pc\<rparr>) = sel_inv v" "sel_inv (v\<lparr>vw_failed_captures := fs\<rparr>) = sel_inv v"
  "sel_inv (v\<lparr>vw_next_capture_generation := g\<rparr>) = sel_inv v"
  by (simp_all add: sel_inv_def)

lemma add_sel:
  "sel_inv v \<Longrightarrow> sel_inv (add_camera_target s v)" "sel_inv v \<Longrightarrow> sel_inv (add_capture_target hash i r v)"
  "sel_inv (add_color_source v)"
proof -
  show camera: "sel_inv (add_camera_target s v)" if "sel_inv v" for s
    by (simp add: add_camera_target_def Let_def add_element_sel)
  show "sel_inv (add_capture_target hash i r v)" if "sel_inv v"
    using that camera [OF that] unfolding add_capture_target_def
    by (auto simp: ensure_case add_element_sel split: option.split capture_target.split bool.split)
      (simp_all add: sel_inv_def)
  show "sel_inv (add_color_source v)" by (simp add: add_color_source_def Let_def add_element_sel)
qed

lemma delete_sel: "sel_inv v \<Longrightarrow> sel_inv (delete_selected stop v)"
  by (auto simp: delete_selected_def Let_def sel_inv_def split: option.split prod.split source_id.split)

lemma begin_drag_sel:
  assumes "sel_inv v" "begin_drag viewport p v = Some v'" "\<forall>e \<in> set (vw_rendered_elements v). has_element v (re_id e)"
  shows "sel_inv v'"
proof -
  have "\<exists>e \<in> set (vw_rendered_elements v). re_id e = i" if "hit_item f p w = Some i"
    "vw_rendered_elements w = vw_rendered_elements v" for i f w
    using that by (auto simp: hit_item_def find_Some_iff) (metis length_rev nth_mem set_rev)
  with assms(3) have hit: "has_element v i" if "hit_item f p w = Some i"
    "vw_rendered_elements w = vw_rendered_elements v" for i f w using that by blast
  have "has_element v' i" if "vw_selected_item v' = Some i" for i
  proof -
    have "vw_selected_item v' = vw_selected_item v
        \<or> (\<exists>f. vw_selected_item v' = hit_item f p (v\<lparr>vw_snap_guides := no_guides\<rparr>))"
      using assms(2) by (auto simp: begin_drag_def begin_move_def Let_def split: option.splits if_splits)
    with that assms(1) hit have "has_element v i" by (auto simp: sel_inv_def)
    then show ?thesis by (simp add: has_element_def begin_drag_fields [OF assms(2)])
  qed
  then show ?thesis by (simp add: sel_inv_def)
qed

lemma op_sel:
  assumes "sel_inv v" "op_fresh v op" "view_op hash op v = Some v'"
  shows "sel_inv v'"
proof (cases op)
  case (BeginDrag a b)
  then show ?thesis using assms begin_drag_sel [OF assms(1)] by auto
next
  case (MovePointer a b)
  then show ?thesis using assms by (auto intro: keeps_sel_inv drag_keeps)
qed (use assms in \<open>auto intro: keeps_sel_inv drag_over_keeps ops_keep replace_keeps set_value_keeps add_sel delete_sel
    simp: set_selected_color_def\<close>,
    auto simp: sel_inv_def menu_defs has_element_def Let_def toggle_stream_fields show_frame_fields viewer_helpers)

subsection \<open>What is saved can be loaded\<close>

definition calm_step :: "(string \<Rightarrow> nat) \<Rightarrow> viewer \<Rightarrow> viewer \<Rightarrow> bool" where
  "calm_step hash v v' \<longleftrightarrow> \<not> vw_infinite v \<and> (\<exists>op. op_ok op \<and> op_fresh v op \<and> view_op hash op v = Some v')"

definition calm_inv :: "viewer \<Rightarrow> bool" where
  "calm_inv v \<longleftrightarrow> (ids_left v \<longrightarrow> viewer_ok v \<and> sel_inv v)"

lemma calm_step_keeps:
  assumes "calm_inv v" "calm_step hash v v'"
  shows "calm_inv v'"
  unfolding calm_inv_def
proof
  assume "ids_left v'"
  obtain op where op: "op_ok op" "op_fresh v op" "view_op hash op v = Some v'"
    using assms(2) by (auto simp: calm_step_def)
  with \<open>ids_left v'\<close> have "ids_left v" by (blast intro: op_ids_left)
  with assms(1) have v: "viewer_ok v" "sel_inv v" by (simp_all add: calm_inv_def)
  show "viewer_ok v' \<and> sel_inv v'"
    using op_viewer_ok [OF v(1) \<open>ids_left v\<close> op(1,3)] op_sel [OF v(2) op(2,3)] by blast
qed

interpretation calm_session: state_machine "calm_step hash" calm_inv for hash
  by unfold_locales (rule calm_step_keeps)

text \<open>The scene a project restores: the one it was saved from.\<close>

lemma snapshot_good:
  assumes "viewer_ok v" "sel_inv v"
  shows "is_valid (snapshot v)"
    and "same_scene (map_scene Fin (vw_scene v)) (vw_colors v) (restore_project (snapshot v)) (vw_selected_item v)"
proof -
  have s: "scene_ok (vw_scene v)" "layouts_ok (vw_scene v)"
    "colors_ok (vw_scene v) (vw_colors v) (vw_next_color_source_id v)"
    using assms(1) by (simp_all add: viewer_ok_def scene_inv_def)
  have "scene_ok (map_scene Fin (vw_scene v))"
    using s(1) by (simp add: scene_ok_def map_scene_def map_element_def comp_def)
  moreover have "colors_ok (map_scene Fin (vw_scene v)) (vw_colors v) (vw_next_color_source_id v)"
    using s(3) by (simp add: colors_ok_def map_scene_def map_element_def)
  ultimately show "same_scene (map_scene Fin (vw_scene v)) (vw_colors v) (restore_project (snapshot v)) (vw_selected_item v)"
    unfolding snapshot_def scene_project_def by (rule restore_snapshot)
  show "is_valid (snapshot v)"
    using scene_project_valid [OF s(1,2)] assms(2) by (simp add: snapshot_def sel_inv_selection)
qed

text \<open>The step that made a save: the states before and after it, between the start and now.\<close>

definition saved_at :: "(string \<Rightarrow> nat) \<Rightarrow> viewer \<Rightarrow> nat \<Rightarrow> viewer \<Rightarrow> viewer \<Rightarrow> viewer \<Rightarrow> bool" where
  "saved_at hash v0 k w u v \<longleftrightarrow> (calm_step hash)\<^sup>*\<^sup>* v0 w \<and> calm_step hash w u \<and> (calm_step hash)\<^sup>*\<^sup>* u v
     \<and> length (saves w) = k \<and> saves u = saves w @ [snapshot u]"

lemma saves_grow: "calm_step hash v v' \<Longrightarrow> \<not> vw_infinite v' \<Longrightarrow> saved_now v v'"
  using op_saved by (auto simp: calm_step_def)

lemma save_found:
  assumes "(calm_step hash)\<^sup>*\<^sup>* v0 v" "saves v0 = []" "\<not> vw_infinite v" "k < length (saves v)"
  shows "\<exists>w u. saved_at hash v0 k w u v \<and> saves v ! k = snapshot u"
  using assms
proof (induction rule: rtranclp_induct)
  case base
  then show ?case by simp
next
  case (step v v')
  have fin: "\<not> vw_infinite v" using step.hyps(2) by (simp add: calm_step_def)
  have grown: "saves v' = saves v \<or> saves v' = saves v @ [snapshot v']"
    using saves_grow [OF step.hyps(2) step.prems(2)] by (simp add: saved_now_def)
  show ?case
  proof (cases "k < length (saves v)")
    case True
    then have "saves v' ! k = saves v ! k" using grown by (auto simp: nth_append)
    with step.IH [OF step.prems(1) fin True] step.hyps(2) show ?thesis
      by (auto simp: saved_at_def intro: rtranclp.rtrancl_into_rtrancl)
  next
    case False
    with grown step.prems(3) have "saves v' = saves v @ [snapshot v']" "k = length (saves v)" by auto
    with step.hyps show ?thesis by (auto simp: saved_at_def)
  qed
qed

text \<open>
  C14: when every click names an element that is still in the scene, and as long as no typed number has made a
  layout infinite, each project a session of Blip Studio has saved was taken by one of its operations, of the
  scene, colours and selection as that operation left them; it passes the validation of the next start, and
  restoring it gives these elements in their order with their layouts, their colours and the selection.
\<close>

theorem studio_saves_load:
  assumes "open_studio hash targets main display_id window loaded start = Inr v0"
    and "\<And>p. loaded = Some p \<Longrightarrow> loadable p" and "(calm_step hash)\<^sup>*\<^sup>* v0 v" and "ids_left v"
    and "\<not> vw_infinite v" and "k < length (saves v)"
  shows "\<exists>w u. saved_at hash v0 k w u v \<and> saves v ! k = snapshot u \<and> is_valid (saves v ! k)
    \<and> same_scene (map_scene Fin (vw_scene u)) (vw_colors u) (restore_project (saves v ! k)) (vw_selected_item u)"
proof -
  have v0: "viewer_ok v0 \<and> selection_ok (vw_scene v0) (vw_selected_item v0) \<and> vw_effects v0 = []"
    by (rule open_studio_parts [OF assms(1,2)])
  then have inv0: "calm_inv v0" "saves v0 = []"
    by (simp_all add: calm_inv_def sel_inv_selection saves_def map_filter_def)
  from save_found [OF assms(3) inv0(2) assms(5,6)] obtain w u
    where u: "saved_at hash v0 k w u v" "saves v ! k = snapshot u" by blast
  then have run: "(calm_step hash)\<^sup>*\<^sup>* v0 u" "(calm_step hash)\<^sup>*\<^sup>* u v"
    unfolding saved_at_def by auto
  have "ids_left u" using run(2) assms(4)
    by (induction rule: rtranclp_induct) (auto simp: calm_step_def intro: op_ids_left)
  with calm_session.reachable_inv [OF run(1) inv0(1)] have "viewer_ok u" "sel_inv u" by (simp_all add: calm_inv_def)
  from snapshot_good [OF this] u show ?thesis by metis
qed

subsection \<open>A session\<close>

definition no_hash :: "string \<Rightarrow> nat" where "no_hash s = 0"

definition first_viewer :: viewer where
  "first_viewer = new_viewer [TargetDisplay 1]
     (\<lparr>sc_elements = [\<lparr>se_id = 1, se_source = DisplaySource 1, se_layout = full_canvas_layout\<rparr>,
        \<lparr>se_id = 2, se_source = DisplaySource 1, se_layout = inset_layout\<rparr>], sc_next_id = 3\<rparr>, Map.empty, Some 2, 1)
     [DisplaySource 1 \<mapsto> \<lparr>cr_generation = 1, cr_configuration = None, cr_is_camera = False\<rparr>] 2"

lemma first_viewer_opened:
  "open_studio no_hash [TargetDisplay 1] (Some 1) None None None (\<lambda>t. Inr None) = Inr first_viewer"
  by (simp add: open_studio_def selected_target_index_def initial_project_def scene_add_def new_scene_def
    first_viewer_def saturating_add_def u64_max_def Let_def del: One_nat_def)

text \<open>A picture of the inset is shown, and then 480 is typed as its width.\<close>

definition first_frame :: composed_frame where
  "first_frame = \<lparr>cf_image = 1, cf_dimensions = (1920, 1080), cf_elements = [\<lparr>re_id = 2, re_transform =
     \<lparr>it_center = (1/2, 1/2), it_size = (1/2, 1/2), it_corner_radius = 40, it_squircle = True, it_box_shadow = None\<rparr>\<rparr>]\<rparr>"

definition shown_viewer :: viewer where
  "shown_viewer = show_frame None first_frame first_viewer"

definition resized_viewer :: viewer where
  "resized_viewer = set_transform_value AdjustWidth (Fin 480) shown_viewer"

lemma shown_viewer_eq:
  "shown_viewer = first_viewer\<lparr>vw_image := Some 1, vw_content_dimensions := Some (1920, 1080),
     vw_rendered_elements := cf_elements first_frame\<rparr>"
  by (simp add: shown_viewer_def show_frame_def first_frame_def first_viewer_def new_viewer_def)

lemma resized_viewer_eq:
  "resized_viewer = save_viewer (changed_scene None (shown_viewer\<lparr>vw_scene :=
     \<lparr>sc_elements = [\<lparr>se_id = 1, se_source = DisplaySource 1, se_layout = full_canvas_layout\<rparr>,
        \<lparr>se_id = 2, se_source = DisplaySource 1, se_layout = inset_layout\<lparr>il_size := (1/4, 1/4)\<rparr>\<rparr>], sc_next_id = 3\<rparr>\<rparr>))"
  by (simp add: resized_viewer_def shown_viewer_eq first_viewer_def new_viewer_def set_transform_value_def
    rendered_transform_def first_frame_def scene_element_of_def set_layout_def typed_layout_def layout_value_def
    scaled_size_def inset_layout_def map_layout_def to_f32_def f32_infinite_def finite_layout_def edit_layout_def
    update_element_def Let_def)

lemma resized_viewer_parts:
  "ids_left resized_viewer" "\<not> vw_infinite resized_viewer" "saves resized_viewer = [snapshot resized_viewer]"
  "\<not> vw_infinite shown_viewer" "\<not> vw_infinite first_viewer"
  by (simp_all add: resized_viewer_eq shown_viewer_eq ids_left_def viewer_helpers first_viewer_def new_viewer_def u64_max_def
    saves_def map_filter_def snapshot_def)

lemma resized_viewer_ops:
  "view_op no_hash (ShowFrame None first_frame) first_viewer = Some shown_viewer"
  "view_op no_hash (SetValue AdjustWidth (Fin 480)) shown_viewer = Some resized_viewer" "frame_ok first_frame"
  by (simp_all add: shown_viewer_def resized_viewer_def frame_ok_def first_frame_def positive_def)

lemma resized_viewer_reached: "(calm_step no_hash)\<^sup>*\<^sup>* first_viewer resized_viewer"
proof -
  have "calm_step no_hash first_viewer shown_viewer" unfolding calm_step_def
    using resized_viewer_ops resized_viewer_parts by (intro conjI exI [of _ "ShowFrame None first_frame"]) simp_all
  moreover have "calm_step no_hash shown_viewer resized_viewer" unfolding calm_step_def
    using resized_viewer_ops resized_viewer_parts by (intro conjI exI [of _ "SetValue AdjustWidth (Fin 480)"]) simp_all
  ultimately show ?thesis by simp
qed

lemma calm_step_view: "(calm_step hash)\<^sup>*\<^sup>* v w \<Longrightarrow> (view_step hash)\<^sup>*\<^sup>* v w"
  by (erule mono_rtranclp [rule_format, rotated]) (auto simp: calm_step_def view_step_def)

theorem studio_stays_typed_witness:
  "viewer_ok resized_viewer \<and> view_op no_hash (BeginDrag (800, 450) (400, 225)) resized_viewer \<noteq> None"
proof -
  have "viewer_ok resized_viewer \<and> (\<forall>op. view_op no_hash op resized_viewer \<noteq> None)"
    by (rule studio_stays_typed [OF first_viewer_opened _ calm_step_view [OF resized_viewer_reached] resized_viewer_parts(1,2)])
      simp
  then show ?thesis by blast
qed

theorem studio_saves_load_witness:
  "saves resized_viewer = [snapshot resized_viewer] \<and> is_valid (snapshot resized_viewer)"
  using studio_saves_load [OF first_viewer_opened _ resized_viewer_reached resized_viewer_parts(1,2), of 0]
    resized_viewer_parts(3) by auto

subsection \<open>Sessions that go wrong\<close>

text \<open>
  Without the hypothesis on clicks: an element deleted while its row is dragged stays selected when the row is
  dropped, and the project saved then is refused by the next start, which begins with an empty project.
\<close>

lemma dropped_after_delete:
  assumes "viewer_ok v" "\<not> has_element v i"
  shows "snapshot (drop_scene_item now p i v) \<in> set (saves (drop_scene_item now p i v))
    \<and> \<not> is_valid (snapshot (drop_scene_item now p i v))"
proof -
  let ?v = "drop_scene_item now p i v"
  have "vw_scene ?v = vw_scene v" "vw_selected_item ?v = Some i"
    by (simp_all add: drop_scene_item_def viewer_helpers)
  with assms scene_project_valid [of "vw_scene v"] have "\<not> is_valid (snapshot ?v)"
    by (simp add: snapshot_def viewer_ok_def scene_inv_def selection_ok_def has_element_def)
  moreover have "snapshot ?v \<in> set (saves ?v)" by (simp add: drop_scene_item_def)
  ultimately show ?thesis by simp
qed

fun view_ops :: "(string \<Rightarrow> nat) \<Rightarrow> viewer_op list \<Rightarrow> viewer \<Rightarrow> viewer option" where
  "view_ops hash [] v = Some v"
| "view_ops hash (op # ops) v = (case view_op hash op v of None \<Rightarrow> None | Some v' \<Rightarrow> view_ops hash ops v')"

lemma deleted_row_dropped:
  "\<exists>v. view_ops no_hash [StartSceneDrag 2 (0, 0), DeleteSelected None] first_viewer = Some v \<and> \<not> has_element v 2"
  by (simp add: start_scene_drag_def delete_selected_def keyboard_free_def first_viewer_def new_viewer_def
    scene_remove_def remove_at_def uses_source_def has_element_def viewer_helpers Let_def)

text \<open>
  A typed number of 39 digits: the layout becomes infinite, and the project saved then is refused by the next
  start too.
\<close>

lemma infinite_save_refused:
  assumes "scene_ok (vw_scene v)" "has_element v i" "\<not> finite_layout l"
  shows "\<exists>p. saves (set_layout i l v) = saves v @ [p] \<and> \<not> is_valid p"
proof -
  let ?s = "update_element i (\<lambda>e. e\<lparr>se_layout := l\<rparr>) (map_scene Fin (vw_scene v))"
  have ok: "scene_ok (map_scene Fin (vw_scene v))" using assms(1)
    by (simp add: scene_ok_def map_scene_def map_element_def comp_def)
  obtain e where "e \<in> set (sc_elements (vw_scene v))" "se_id e = i" using assms(2) by (auto simp: has_element_def)
  then have "(map_element Fin e)\<lparr>se_layout := l\<rparr> \<in> set (sc_elements ?s)"
    unfolding update_element_map [OF ok] by (force simp: map_scene_def map_element_def)
  then have "snapshot_element (vw_colors v) ((map_element Fin e)\<lparr>se_layout := l\<rparr>)
      \<in> set (pj_elements (project_snapshot ?s (vw_colors v) (vw_selected_item v)))"
    by (simp add: project_snapshot_def)
  then have "\<not> is_valid (project_snapshot ?s (vw_colors v) (vw_selected_item v))"
    using assms(3) unfolding is_valid_iff by (fastforce simp: snapshot_element_def finite_layout_def)
  moreover have "saves (set_layout i l v) = saves v @ [project_snapshot ?s (vw_colors v) (vw_selected_item v)]"
    using assms(3) by (simp add: set_layout_def saves_def map_filter_def viewer_helpers)
  ultimately show ?thesis by blast
qed

lemma many_digits_typed:
  "view_op no_hash (SetValue AdjustX PosInf) shown_viewer = Some (set_layout 2 (infinite_layout AdjustX PosInf inset_layout) shown_viewer)
   \<and> \<not> finite_layout (infinite_layout AdjustX PosInf inset_layout)"
  by (simp add: shown_viewer_eq first_viewer_def new_viewer_def set_transform_value_def rendered_transform_def
    first_frame_def scene_element_of_def typed_layout_def infinite_layout_def finite_layout_def Let_def)

text \<open>
  A source that is added again is captured with the generation its first capture had, so that a late error of
  the capture that was stopped restarts the new one.
\<close>

lemma stale_error_restarts:
  "\<exists>v. view_ops no_hash [DeleteSelected None, SelectItem 1, DeleteSelected None, AddTarget 0 (Inr None),
       CaptureFailed (DisplaySource 1) 1 ''stopped'' (Inr None)] first_viewer = Some v
     \<and> StopCapture (DisplaySource 1) 1 \<in> set (vw_effects v)
     \<and> map_option cr_generation (vw_captures v (DisplaySource 1)) = Some 2"
  by (simp add: delete_selected_def keyboard_free_def first_viewer_def new_viewer_def scene_remove_def remove_at_def
    uses_source_def select_scene_item_def release_capture_def add_capture_target_def ensure_captured_def
    open_capture_def add_element_def scene_add_def close_source_menu_def capture_failed_def should_restart_capture_def
    saturating_add_def u64_max_def viewer_helpers Let_def del: One_nat_def)

end
