(* ===== verification/Text_Input.thy ===== *)
theory Text_Input
  imports Text_Format Profiles
begin

section \<open>Numeric and text inputs (crates/blip-ui/src/lib.rs)\<close>

text \<open>
  The editing state of the input shared by all windows. Content is a list of bytes (UTF-8) and the selection a
  range of byte positions; slicing outside a character's boundary panics, which is \<open>None\<close> here. A number is
  read as an \<open>f32\<close>: exactly, except that values past its range become infinite. Layout, painting, focus and
  the dropdown styles are left to gpui: the position under the mouse is what the shaped line answers.
\<close>

subsection \<open>Numbers as text\<close>

definition is_digit :: "char \<Rightarrow> bool" where
  "is_digit c \<longleftrightarrow> 48 \<le> (of_char c :: nat) \<and> (of_char c :: nat) < 58"

fun strip_sign :: "string \<Rightarrow> bool \<times> string" where
  "strip_sign [] = (False, [])"
| "strip_sign (c # s) =
     (if c = CHR ''-'' then (True, s) else if c = CHR ''+'' then (False, s) else (False, c # s))"

definition span_digits :: "string \<Rightarrow> string \<times> string" where
  "span_digits s = (takeWhile is_digit s, dropWhile is_digit s)"

text \<open>The exponent part, \<open>None\<close> when what follows the digits is not one.\<close>

fun read_exponent :: "string \<Rightarrow> int option" where
  "read_exponent [] = Some 0"
| "read_exponent (c # s) =
     (if c = CHR ''e'' \<or> c = CHR ''E''
      then let (negative, digits) = strip_sign s
           in if digits \<noteq> [] \<and> list_all is_digit digits
              then Some (if negative then - int (read_nat digits) else int (read_nat digits)) else None
      else None)"

definition scaled_decimal :: "string \<Rightarrow> string \<Rightarrow> int \<Rightarrow> real" where
  "scaled_decimal whole fraction e =
     (let x = real (read_nat (whole @ fraction)) / 10 ^ length fraction
      in if 0 \<le> e then x * 10 ^ nat e else x / 10 ^ nat (- e))"

definition parse_unsigned :: "string \<Rightarrow> fl option" where
  "parse_unsigned s =
     (if eq_ignore_ascii_case s ''inf'' \<or> eq_ignore_ascii_case s ''infinity'' then Some PosInf
      else if eq_ignore_ascii_case s ''nan'' then Some NaN
      else let (whole, rest) = span_digits s;
               (fraction, tail) = (case rest of [] \<Rightarrow> ([], [])
                 | c # r \<Rightarrow> if c = CHR ''.'' then span_digits r else ([], c # r))
           in if whole = [] \<and> fraction = [] then None
              else map_option (\<lambda>e. to_f32 (scaled_decimal whole fraction e)) (read_exponent tail))"

fun negate :: "fl \<Rightarrow> fl" where
  "negate (Fin x) = Fin (- x)"
| "negate PosInf = NegInf"
| "negate NegInf = PosInf"
| "negate NaN = NaN"

text \<open>\<open>str::parse::<f32>\<close>.\<close>

definition parse_f32 :: "string \<Rightarrow> fl option" where
  "parse_f32 s = (let (negative, u) = strip_sign s
     in map_option (if negative then negate else (\<lambda>x. x)) (parse_unsigned u))"

text \<open>\<open>format!("{:.0}")\<close>: half to even, and a negative number that rounds to zero keeps its sign.\<close>

fun format_rounded :: "fl \<Rightarrow> string" where
  "format_rounded (Fin x) =
     (if x < 0 \<and> round_half_even x = 0 then ''-0'' else show_int (round_half_even x))"
| "format_rounded PosInf = ''inf''"
| "format_rounded NegInf = ''-inf''"
| "format_rounded NaN = ''NaN''"

fun add_delta :: "real \<Rightarrow> fl \<Rightarrow> fl" where
  "add_delta d (Fin x) = to_f32 (x + d)"
| "add_delta d x = x"

subsection \<open>Which texts a numeric input accepts\<close>

fun candidate_chars :: "bool \<Rightarrow> string \<Rightarrow> bool" where
  "candidate_chars decimal [] = True"
| "candidate_chars decimal (c # s) =
     (if c = CHR ''.'' \<and> \<not> decimal then candidate_chars True s else is_digit c \<and> candidate_chars decimal s)"

definition is_numeric_candidate :: "string \<Rightarrow> bool" where
  "is_numeric_candidate value \<longleftrightarrow>
     value \<in> {[], ''-'', ''.'', ''-.''}
     \<or> (let unsigned = (case value of c # s \<Rightarrow> if c = CHR ''-'' then s else value | [] \<Rightarrow> [])
        in candidate_chars False unsigned \<and> list_ex is_digit unsigned)"

subsection \<open>The input\<close>

record text_input =
  ti_numeric :: bool
  ti_content :: string
  ti_start :: nat
  ti_end :: nat

datatype input_effect = ValueChanged fl | InputFocus bool | SystemBell

definition new_numeric :: text_input where
  "new_numeric = \<lparr>ti_numeric = True, ti_content = ''0'', ti_start = 0, ti_end = 1\<rparr>"

definition new_text :: text_input where
  "new_text = \<lparr>ti_numeric = False, ti_content = [], ti_start = 0, ti_end = 0\<rparr>"

text \<open>\<open>str::is_char_boundary\<close>.\<close>

definition char_boundary :: "string \<Rightarrow> nat \<Rightarrow> bool" where
  "char_boundary s i \<longleftrightarrow> i = 0 \<or> i = length s
     \<or> (i < length s \<and> ((of_char (s ! i) :: nat) < 128 \<or> 192 \<le> (of_char (s ! i) :: nat)))"

definition set_selection :: "nat \<Rightarrow> nat \<Rightarrow> text_input \<Rightarrow> text_input" where
  "set_selection a b t = t\<lparr>ti_start := a, ti_end := b\<rparr>"

definition set_content :: "string \<Rightarrow> text_input \<Rightarrow> text_input" where
  "set_content s t = t\<lparr>ti_content := s, ti_start := length s, ti_end := length s\<rparr>"

definition set_value :: "fl \<Rightarrow> bool \<Rightarrow> text_input \<Rightarrow> text_input" where
  "set_value value focused t =
     (if focused then t
      else let content = format_rounded value
           in if ti_content t \<noteq> content then set_content content t else t)"

definition replace_selection :: "string \<Rightarrow> text_input \<Rightarrow> (text_input \<times> input_effect list) option" where
  "replace_selection s t =
     (if \<not> char_boundary (ti_content t) (ti_start t) \<or> \<not> char_boundary (ti_content t) (ti_end t) then None
      else let candidate = take (ti_start t) (ti_content t) @ s @ drop (ti_end t) (ti_content t)
           in if ti_numeric t \<and> \<not> is_numeric_candidate candidate then Some (t, [SystemBell])
              else let cursor = ti_start t + length s;
                       t' = t\<lparr>ti_content := candidate, ti_start := cursor, ti_end := cursor\<rparr>
                   in Some (t', if ti_numeric t
                        then (case parse_f32 candidate of Some x \<Rightarrow> [ValueChanged x] | None \<Rightarrow> []) else []))"

definition backspace :: "text_input \<Rightarrow> (text_input \<times> input_effect list) option" where
  "backspace t = replace_selection []
     (if ti_start t = ti_end t \<and> 0 < ti_start t then t\<lparr>ti_start := ti_start t - 1\<rparr> else t)"

definition delete_forward :: "text_input \<Rightarrow> (text_input \<times> input_effect list) option" where
  "delete_forward t = replace_selection []
     (if ti_start t = ti_end t \<and> ti_end t < length (ti_content t) then t\<lparr>ti_end := ti_end t + 1\<rparr> else t)"

definition move_left :: "text_input \<Rightarrow> text_input" where
  "move_left t = set_selection (ti_start t - 1) (ti_start t - 1) t"

definition move_right :: "text_input \<Rightarrow> text_input" where
  "move_right t = (let offset = min (ti_end t + 1) (length (ti_content t)) in set_selection offset offset t)"

definition select_all :: "text_input \<Rightarrow> text_input" where
  "select_all t = set_selection 0 (length (ti_content t)) t"

definition adjust_value :: "real \<Rightarrow> text_input \<Rightarrow> text_input \<times> input_effect list" where
  "adjust_value delta t =
     (case parse_f32 (ti_content t) of
        None \<Rightarrow> (t, [])
      | Some value \<Rightarrow>
          (let content = format_rounded (add_delta delta value)
           in (t\<lparr>ti_content := content, ti_start := 0, ti_end := length content\<rparr>,
               [ValueChanged (add_delta delta value)])))"

text \<open>\<open>clipboard\<close>: its text, if it has one.\<close>

definition paste :: "string option \<Rightarrow> text_input \<Rightarrow> (text_input \<times> input_effect list) option" where
  "paste clipboard t =
     (case clipboard of None \<Rightarrow> Some (t, []) | Some s \<Rightarrow> replace_selection (trim s) t)"

definition mouse_down :: "nat \<Rightarrow> text_input \<Rightarrow> text_input" where
  "mouse_down index t =
     (if ti_numeric t then select_all t else set_selection index index t)"

text \<open>Text from the operating system, for the selection or for a range it names.\<close>

definition replace_text_in_range ::
    "(nat \<times> nat) option \<Rightarrow> string \<Rightarrow> text_input \<Rightarrow> (text_input \<times> input_effect list) option" where
  "replace_text_in_range named s t =
     replace_selection s (case named of None \<Rightarrow> t | Some (a, b) \<Rightarrow> set_selection a b t)"

definition text_for_range :: "nat \<Rightarrow> nat \<Rightarrow> text_input \<Rightarrow> string option" where
  "text_for_range a b t =
     (if a \<le> b \<and> b \<le> length (ti_content t) \<and> char_boundary (ti_content t) a \<and> char_boundary (ti_content t) b
      then Some (take (b - a) (drop a (ti_content t))) else None)"

definition blur :: "text_input \<Rightarrow> text_input \<times> input_effect list" where
  "blur t = (set_selection (ti_end t) (ti_end t) t, [InputFocus False])"

subsection \<open>Operations\<close>

datatype input_op =
  SetValue fl bool | SetText string | Backspace | DeleteForward | MoveLeft | MoveRight | SelectAll
| Increment | Decrement | Paste "string option" | MouseDown nat | ReplaceText "(nat \<times> nat) option" string
| FocusGained | FocusLost

fun input_step :: "input_op \<Rightarrow> text_input \<Rightarrow> (text_input \<times> input_effect list) option" where
  "input_step (SetValue v focused) t = Some (set_value v focused t, [])"
| "input_step (SetText s) t = Some (set_content s t, [])"
| "input_step Backspace t = backspace t"
| "input_step DeleteForward t = delete_forward t"
| "input_step MoveLeft t = Some (move_left t, [])"
| "input_step MoveRight t = Some (move_right t, [])"
| "input_step SelectAll t = Some (select_all t, [])"
| "input_step Increment t = Some (adjust_value 1 t)"
| "input_step Decrement t = Some (adjust_value (- 1) t)"
| "input_step (Paste c) t = paste c t"
| "input_step (MouseDown i) t = Some (mouse_down i t, [])"
| "input_step (ReplaceText r s) t = replace_text_in_range r s t"
| "input_step FocusGained t = Some (t, [InputFocus True])"
| "input_step FocusLost t = Some (blur t)"

subsection \<open>Editing never leaves the text\<close>

definition ascii_text :: "string \<Rightarrow> bool" where
  "ascii_text s \<longleftrightarrow> list_all (\<lambda>c. (of_char c :: nat) < 128) s"

text \<open>
  What an input stays: one byte for each character, the selection in the text and, in a numeric input, a
  number being typed, or one of the words that a value past the range of an \<open>f32\<close> is shown as.
\<close>

definition number_words :: "string set" where
  "number_words = {''inf'', ''-inf'', ''NaN''}"

definition input_ok :: "text_input \<Rightarrow> bool" where
  "input_ok t \<longleftrightarrow> ascii_text (ti_content t) \<and> ti_start t \<le> ti_end t \<and> ti_end t \<le> length (ti_content t)
     \<and> (ti_numeric t \<longrightarrow> is_numeric_candidate (ti_content t) \<or> ti_content t \<in> number_words)"

text \<open>
  What the outside gives an input: positions in the text, and for an input of text ASCII characters. A numeric
  input is only written to by \<open>set_value\<close>.
\<close>

fun input_op_ok :: "input_op \<Rightarrow> text_input \<Rightarrow> bool" where
  "input_op_ok (SetValue v focused) t \<longleftrightarrow> ti_numeric t"
| "input_op_ok (SetText s) t \<longleftrightarrow> \<not> ti_numeric t \<and> ascii_text s"
| "input_op_ok (Paste c) t \<longleftrightarrow> ti_numeric t \<or> (\<forall>s. c = Some s \<longrightarrow> ascii_text s)"
| "input_op_ok (MouseDown i) t \<longleftrightarrow> i \<le> length (ti_content t)"
| "input_op_ok (ReplaceText r s) t \<longleftrightarrow> (ti_numeric t \<or> ascii_text s)
     \<and> (\<forall>a b. r = Some (a, b) \<longrightarrow> a \<le> b \<and> b \<le> length (ti_content t))"
| "input_op_ok op t \<longleftrightarrow> True"

lemma ascii_simps [simp]:
  "ascii_text []" "ascii_text (c # s) \<longleftrightarrow> (of_char c :: nat) < 128 \<and> ascii_text s"
  "ascii_text (r @ s) \<longleftrightarrow> ascii_text r \<and> ascii_text s"
  by (simp_all add: ascii_text_def)

lemma ascii_subset: "ascii_text s \<Longrightarrow> set r \<subseteq> set s \<Longrightarrow> ascii_text r"
  by (auto simp: ascii_text_def list_all_iff)

lemma ascii_take [simp]: "ascii_text s \<Longrightarrow> ascii_text (take n s)"
  by (rule ascii_subset) (auto dest: in_set_takeD)

lemma ascii_drop [simp]: "ascii_text s \<Longrightarrow> ascii_text (drop n s)"
  by (rule ascii_subset) (auto dest: in_set_dropD)

lemma ascii_trim [simp]: "ascii_text s \<Longrightarrow> ascii_text (trim s)"
  by (rule ascii_subset) (auto simp: trim_def dest!: set_dropWhileD)

lemma ascii_boundary: "ascii_text s \<Longrightarrow> i \<le> length s \<Longrightarrow> char_boundary s i"
  by (auto simp: char_boundary_def ascii_text_def list_all_length)

lemma digit_ascii: "is_digit c \<Longrightarrow> (of_char c :: nat) < 128"
  by (simp add: is_digit_def)

lemma candidate_chars_ascii: "candidate_chars d s \<Longrightarrow> ascii_text s"
  by (induction d s rule: candidate_chars.induct) (auto split: if_splits dest: digit_ascii)

lemma candidate_ascii: "is_numeric_candidate s \<Longrightarrow> ascii_text s"
  by (cases s) (auto simp: is_numeric_candidate_def Let_def split: if_splits
    dest: candidate_chars_ascii digit_ascii)

text \<open>The texts a numeric input accepts, as a grammar.\<close>

lemma candidate_chars_True: "candidate_chars True s \<longleftrightarrow> list_all is_digit s"
  by (induction s) auto

lemma candidate_chars_False:
  "candidate_chars False s \<longleftrightarrow> list_all is_digit s
     \<or> (\<exists>whole fraction. s = whole @ ''.'' @ fraction \<and> list_all is_digit whole \<and> list_all is_digit fraction)"
proof (induction s)
  case Nil
  show ?case by simp
next
  case (Cons c s)
  show ?case
  proof (cases "c = CHR ''.''")
    case True
    have dot: "\<not> is_digit (CHR ''.'')" by (simp add: is_digit_def)
    have "(\<exists>w f. CHR ''.'' # s = w @ ''.'' @ f \<and> list_all is_digit w \<and> list_all is_digit f) \<longleftrightarrow> list_all is_digit s"
    proof
      assume "\<exists>w f. CHR ''.'' # s = w @ ''.'' @ f \<and> list_all is_digit w \<and> list_all is_digit f"
      then obtain w f where w: "CHR ''.'' # s = w @ ''.'' @ f" "list_all is_digit w" "list_all is_digit f" by blast
      then show "list_all is_digit s" using dot by (cases w) auto
    next
      assume "list_all is_digit s"
      then show "\<exists>w f. CHR ''.'' # s = w @ ''.'' @ f \<and> list_all is_digit w \<and> list_all is_digit f"
        by (intro exI [of _ "[]"] exI [of _ s]) simp
    qed
    with True dot show ?thesis by (simp add: candidate_chars_True)
  next
    case False
    have "(\<exists>w f. c # s = w @ ''.'' @ f \<and> list_all is_digit w \<and> list_all is_digit f) \<longleftrightarrow>
      is_digit c \<and> (\<exists>w f. s = w @ ''.'' @ f \<and> list_all is_digit w \<and> list_all is_digit f)"
    proof
      assume "\<exists>w f. c # s = w @ ''.'' @ f \<and> list_all is_digit w \<and> list_all is_digit f"
      then obtain w f where w: "c # s = w @ ''.'' @ f" "list_all is_digit w" "list_all is_digit f" by blast
      then show "is_digit c \<and> (\<exists>w f. s = w @ ''.'' @ f \<and> list_all is_digit w \<and> list_all is_digit f)"
        using False by (cases w) auto
    next
      assume "is_digit c \<and> (\<exists>w f. s = w @ ''.'' @ f \<and> list_all is_digit w \<and> list_all is_digit f)"
      then obtain w f where "is_digit c" "s = w @ ''.'' @ f" "list_all is_digit w" "list_all is_digit f" by blast
      then show "\<exists>w f. c # s = w @ ''.'' @ f \<and> list_all is_digit w \<and> list_all is_digit f"
        by (intro exI [of _ "c # w"] exI [of _ f]) simp
    qed
    with False Cons.IH show ?thesis by auto
  qed
qed

text \<open>Every accepted text with a digit is a number, so the window is told of it.\<close>

lemma digit_not_word:
  "is_digit c \<Longrightarrow> \<not> eq_ignore_ascii_case (c # s) ''inf'' \<and> \<not> eq_ignore_ascii_case (c # s) ''infinity''
     \<and> \<not> eq_ignore_ascii_case (c # s) ''nan''"
  by (auto simp: eq_ignore_ascii_case_def ascii_lower_def is_digit_def Let_def)

lemma dot_not_word:
  "\<not> eq_ignore_ascii_case (CHR ''.'' # s) ''inf'' \<and> \<not> eq_ignore_ascii_case (CHR ''.'' # s) ''infinity''
     \<and> \<not> eq_ignore_ascii_case (CHR ''.'' # s) ''nan''"
  by (simp add: eq_ignore_ascii_case_def ascii_lower_def)

lemma span_digits_simps:
  "list_all is_digit w \<Longrightarrow> span_digits w = (w, [])"
  "list_all is_digit w \<Longrightarrow> span_digits (w @ CHR ''.'' # r) = (w, CHR ''.'' # r)"
proof -
  have dot: "\<not> is_digit (CHR ''.'')" by (simp add: is_digit_def)
  show "list_all is_digit w \<Longrightarrow> span_digits w = (w, [])"
    by (simp add: span_digits_def list_all_iff takeWhile_eq_all_conv dropWhile_eq_Nil_conv)
  show "list_all is_digit w \<Longrightarrow> span_digits (w @ CHR ''.'' # r) = (w, CHR ''.'' # r)"
    using dot by (simp add: span_digits_def list_all_iff)
qed

lemma parse_unsigned_decimal:
  assumes "candidate_chars False s" "list_ex is_digit s"
  shows "\<exists>whole fraction. s = (if \<exists>c \<in> set s. c = CHR ''.'' then whole @ ''.'' @ fraction else whole @ fraction)
    \<and> parse_unsigned s = Some (to_f32 (scaled_decimal whole fraction 0))"
  using assms(1) unfolding candidate_chars_False
proof (elim disjE exE conjE)
  assume d: "list_all is_digit s"
  then obtain c r where s: "s = c # r" "is_digit c" using assms(2) by (cases s) auto
  have "\<not> (\<exists>c \<in> set s. c = CHR ''.'')" using d by (auto simp: list_all_iff is_digit_def)
  moreover have "parse_unsigned s = Some (to_f32 (scaled_decimal s [] 0))"
    using span_digits_simps(1) [OF d] digit_not_word [OF s(2), of r] s(1) by (simp add: parse_unsigned_def)
  ultimately show ?thesis by (intro exI [of _ s] exI [of _ "[]"]) simp
next
  fix w f assume s: "s = w @ ''.'' @ f" "list_all is_digit w" "list_all is_digit f"
  then have some: "w \<noteq> [] \<or> f \<noteq> []" using assms(2) by (auto simp: is_digit_def)
  have "\<not> (eq_ignore_ascii_case s ''inf'' \<or> eq_ignore_ascii_case s ''infinity'' \<or> eq_ignore_ascii_case s ''nan'')"
    using s digit_not_word [of "hd w" "tl w @ ''.'' @ f"] dot_not_word [of f] by (cases w) auto
  then have "parse_unsigned s = Some (to_f32 (scaled_decimal w f 0))"
    using s(1) span_digits_simps(2) [OF s(2), of f] span_digits_simps(1) [OF s(3)] some
    by (auto simp: parse_unsigned_def)
  then show ?thesis using s(1) by (intro exI [of _ w] exI [of _ f]) simp
qed

lemma show_nat_chars: "list_all is_digit (show_nat n) \<and> show_nat n \<noteq> []"
  using show_nat_digits [of n] show_nat_nonempty [of n] by (simp add: all_digits_def is_digit_def list_all_iff)

lemma digits_candidate: "list_all is_digit s \<Longrightarrow> s \<noteq> [] \<Longrightarrow> is_numeric_candidate s \<and> is_numeric_candidate (CHR ''-'' # s)"
proof -
  assume d: "list_all is_digit s" "s \<noteq> []"
  have "candidate_chars False s" using d(1) unfolding candidate_chars_False by simp
  moreover have "list_ex is_digit s" using d by (cases s) auto
  moreover have "hd s \<noteq> CHR ''-''" using d by (cases s) (auto simp: is_digit_def)
  ultimately show ?thesis using d(2) by (cases s) (auto simp: is_numeric_candidate_def)
qed

lemma format_rounded_ok: "is_numeric_candidate (format_rounded v) \<or> format_rounded v \<in> number_words"
proof (cases v)
  case (Fin x)
  have "is_numeric_candidate (show_int i)" for i
    using digits_candidate [of "show_nat (nat i)"] digits_candidate [of "show_nat (nat (- i))"] show_nat_chars
    by (auto simp: show_int_def)
  moreover have "is_numeric_candidate ''-0''" using digits_candidate [of "''0''"] by (simp add: is_digit_def)
  ultimately show ?thesis using Fin by simp
qed (simp_all add: number_words_def)

lemma number_ascii: "is_numeric_candidate s \<or> s \<in> number_words \<Longrightarrow> ascii_text s"
  by (auto simp: number_words_def dest: candidate_ascii)

lemma new_inputs_ok [simp]: "input_ok new_numeric" "input_ok new_text"
  using digits_candidate [of "''0''"]
  by (simp_all add: input_ok_def new_numeric_def new_text_def is_digit_def)

lemma replace_selection_ok:
  assumes "ascii_text (ti_content t)" "ti_start t \<le> ti_end t" "ti_end t \<le> length (ti_content t)"
    and "ti_numeric t \<Longrightarrow> is_numeric_candidate (ti_content t) \<or> ti_content t \<in> number_words"
    and "ti_numeric t \<or> ascii_text s"
  shows "\<exists>t' es. replace_selection s t = Some (t', es) \<and> input_ok t' \<and> ti_numeric t' = ti_numeric t"
proof -
  have "char_boundary (ti_content t) (ti_start t)" "char_boundary (ti_content t) (ti_end t)"
    using assms(1-3) by (simp_all add: ascii_boundary)
  with assms show ?thesis
    by (auto simp: replace_selection_def input_ok_def Let_def dest: candidate_ascii)
qed

lemma input_step_ok:
  assumes "input_ok t" "input_op_ok op t"
  shows "\<exists>t' es. input_step op t = Some (t', es) \<and> input_ok t' \<and> ti_numeric t' = ti_numeric t"
proof -
  have t: "ascii_text (ti_content t)" "ti_start t \<le> ti_end t" "ti_end t \<le> length (ti_content t)"
    "ti_numeric t \<Longrightarrow> is_numeric_candidate (ti_content t) \<or> ti_content t \<in> number_words"
    using assms(1) by (simp_all add: input_ok_def)
  have sel: "input_ok (set_selection a b t)" if "a \<le> b" "b \<le> length (ti_content t)" for a b
    using that assms(1) by (simp add: input_ok_def set_selection_def)
  have num: "ti_numeric (set_selection a b t) = ti_numeric t" for a b by (simp add: set_selection_def)
  have written: "\<exists>t' es. replace_selection s (t\<lparr>ti_start := a, ti_end := b\<rparr>) = Some (t', es) \<and> input_ok t'
      \<and> ti_numeric t' = ti_numeric t"
    if "a \<le> b" "b \<le> length (ti_content t)" "ti_numeric t \<or> ascii_text s" for a b s
    using replace_selection_ok [of "t\<lparr>ti_start := a, ti_end := b\<rparr>" s] t that by simp
  have word: "input_ok (t\<lparr>ti_content := format_rounded v, ti_start := a, ti_end := b\<rparr>)"
    if "a \<le> b" "b \<le> length (format_rounded v)" for v a b
    using that number_ascii [OF format_rounded_ok [of v]] format_rounded_ok [of v] by (simp add: input_ok_def)
  show ?thesis
  proof (cases op)
    case (SetValue v focused)
    then show ?thesis using assms(1) word [of _ _ v] by (simp add: set_value_def set_content_def Let_def)
  next
    case (SetText s)
    then show ?thesis using assms by (simp add: set_content_def input_ok_def)
  next
    case Backspace
    then show ?thesis
      using written [of "ti_start t - 1" "ti_end t" "[]"] written [of "ti_start t" "ti_end t" "[]"] t(2,3)
      by (auto simp: backspace_def)
  next
    case DeleteForward
    then show ?thesis
      using written [of "ti_start t" "ti_end t + 1" "[]"] written [of "ti_start t" "ti_end t" "[]"] t(2,3)
      by (auto simp: delete_forward_def)
  next
    case (Paste c)
    then show ?thesis
      using written [of "ti_start t" "ti_end t"] t(2,3) assms by (cases c) (auto simp: paste_def)
  next
    case (ReplaceText r s)
    then show ?thesis
      using written [of "ti_start t" "ti_end t" s] written [of _ _ s] t(2,3) assms(2)
      by (cases r) (auto simp: replace_text_in_range_def set_selection_def)
  next
    case Increment
    then show ?thesis using assms(1) word by (auto simp: adjust_value_def Let_def split: option.split)
  next
    case Decrement
    then show ?thesis using assms(1) word by (auto simp: adjust_value_def Let_def split: option.split)
  qed (use assms sel num t in \<open>auto simp: move_left_def move_right_def select_all_def mouse_down_def blur_def Let_def\<close>)
qed

fun input_run :: "input_op list \<Rightarrow> text_input \<Rightarrow> (text_input \<times> input_effect list) option" where
  "input_run [] t = Some (t, [])"
| "input_run (op # ops) t =
     (case input_step op t of
        None \<Rightarrow> None
      | Some (t1, es1) \<Rightarrow> map_option (\<lambda>(t2, es2). (t2, es1 @ es2)) (input_run ops t1))"

fun inputs_ok :: "input_op list \<Rightarrow> text_input \<Rightarrow> bool" where
  "inputs_ok [] t \<longleftrightarrow> True"
| "inputs_ok (op # ops) t \<longleftrightarrow>
     input_op_ok op t \<and> (case input_step op t of None \<Rightarrow> True | Some (t1, es) \<Rightarrow> inputs_ok ops t1)"

lemma input_run_ok:
  "input_ok t \<Longrightarrow> inputs_ok ops t \<Longrightarrow> \<exists>t' es. input_run ops t = Some (t', es) \<and> input_ok t' \<and> ti_numeric t' = ti_numeric t"
proof (induction ops arbitrary: t)
  case Nil
  then show ?case by simp
next
  case (Cons op ops)
  then obtain t1 es where "input_step op t = Some (t1, es)" "input_ok t1" "ti_numeric t1 = ti_numeric t"
    using input_step_ok [of t op] by auto
  with Cons show ?case by fastforce
qed

lemma parse_candidate:
  assumes "is_numeric_candidate s"
  shows "parse_f32 s \<noteq> None \<longleftrightarrow> list_ex is_digit s"
proof (cases "list_ex is_digit s")
  case True
  let ?u = "case s of c # r \<Rightarrow> if c = CHR ''-'' then r else s | [] \<Rightarrow> []"
  have u: "candidate_chars False ?u \<and> list_ex is_digit ?u"
    using True assms by (auto simp: is_numeric_candidate_def Let_def is_digit_def)
  have "snd (strip_sign s) = ?u" using u by (cases s) (auto simp: is_digit_def split: if_splits)
  with u parse_unsigned_decimal [of ?u] True show ?thesis
    by (auto simp: parse_f32_def Let_def case_prod_beta)
next
  case False
  then have "s \<in> {[], ''-'', ''.'', ''-.''}"
    using assms by (auto simp: is_numeric_candidate_def Let_def split: list.splits if_splits)
  then have "parse_f32 s = None"
    by (auto simp: parse_f32_def parse_unsigned_def span_digits_def is_digit_def eq_ignore_ascii_case_def
      ascii_lower_def)
  with False show ?thesis by simp
qed

text \<open>What a numeric input does with typed text: it rings the bell, or holds the text and tells its value.\<close>

definition typed_ok :: "string \<Rightarrow> text_input \<Rightarrow> text_input \<Rightarrow> input_effect list \<Rightarrow> bool" where
  "typed_ok s t t' es \<longleftrightarrow>
     (t' = t \<and> es = [SystemBell])
     \<or> (ti_content t' = take (ti_start t) (ti_content t) @ s @ drop (ti_end t) (ti_content t)
        \<and> is_numeric_candidate (ti_content t') \<and> ti_start t' = ti_start t + length s \<and> ti_end t' = ti_start t'
        \<and> (if list_ex is_digit (ti_content t')
           then \<exists>x. parse_f32 (ti_content t') = Some x \<and> es = [ValueChanged x] else es = []))"

lemma typed_value_told:
  assumes "ti_numeric t" "replace_selection s t = Some (t', es)"
  shows "typed_ok s t t' es"
proof -
  let ?c = "take (ti_start t) (ti_content t) @ s @ drop (ti_end t) (ti_content t)"
  show ?thesis
  proof (cases "is_numeric_candidate ?c")
    case False
    then show ?thesis using assms by (auto simp: typed_ok_def replace_selection_def split: if_splits)
  next
    case True
    with assms have t': "ti_content t' = ?c" "ti_start t' = ti_start t + length s" "ti_end t' = ti_start t'"
      "es = (case parse_f32 ?c of Some x \<Rightarrow> [ValueChanged x] | None \<Rightarrow> [])"
      by (auto simp: replace_selection_def Let_def split: if_splits)
    show ?thesis
      using parse_candidate [OF True] True unfolding typed_ok_def t' by (auto split: option.split)
  qed
qed

text \<open>
  What the window is told: after typing, deleting and pasting the number the new text denotes, after the up and
  down keys the old text's number plus or minus one, of which the new text is the rounding.
\<close>

definition stepped :: "real \<Rightarrow> text_input \<Rightarrow> text_input \<Rightarrow> input_effect list \<Rightarrow> bool" where
  "stepped delta t t' es \<longleftrightarrow>
     (case parse_f32 (ti_content t) of
        None \<Rightarrow> t' = t \<and> es = []
      | Some x \<Rightarrow> es = [ValueChanged (add_delta delta x)] \<and> ti_content t' = format_rounded (add_delta delta x)
          \<and> ti_start t' = 0 \<and> ti_end t' = length (ti_content t'))"

definition told_ok :: "input_op \<Rightarrow> text_input \<Rightarrow> text_input \<Rightarrow> input_effect list \<Rightarrow> bool" where
  "told_ok op t t' es \<longleftrightarrow>
     (case op of
        Increment \<Rightarrow> stepped 1 t t' es
      | Decrement \<Rightarrow> stepped (- 1) t t' es
      | _ \<Rightarrow> \<forall>x. ValueChanged x \<in> set es \<longrightarrow> parse_f32 (ti_content t') = Some x)"

lemma replace_told:
  "replace_selection s t = Some (t', es) \<Longrightarrow> ValueChanged x \<in> set es \<Longrightarrow> parse_f32 (ti_content t') = Some x"
  by (auto simp: replace_selection_def Let_def split: if_splits option.splits)

lemma step_told:
  assumes "input_step op t = Some (t', es)"
  shows "told_ok op t t' es"
  using assms
  by (cases op)
    (auto simp: told_ok_def backspace_def delete_forward_def paste_def replace_text_in_range_def blur_def
      stepped_def adjust_value_def Let_def split: option.splits dest: replace_told)

text \<open>
  C38: editing an input never panics and never leaves its text, whatever is typed, pasted or pressed, in a numeric
  input for any bytes and in a text input for ASCII ones: the selection stays inside the text, a numeric
  input holds a number being typed or one of the words for a value past the range of an \<open>f32\<close>, and what
  is typed next is either refused with the bell, changing nothing, or replaces the selection and tells the
  window the value of the whole text as soon as it has a digit. Whatever is done next, a number the window is
  told is the one the text denotes then, except by the up and down keys: they tell the number the text denoted
  plus or minus one, and leave its rounding as the text.
\<close>

theorem input_editing_safe:
  assumes "t0 \<in> {new_numeric, new_text}" and "inputs_ok ops t0"
  shows "\<exists>t es. input_run ops t0 = Some (t, es) \<and> input_ok t \<and> ti_numeric t = ti_numeric t0
    \<and> (ti_numeric t \<longrightarrow> (\<forall>s. \<exists>t' es'. replace_selection s t = Some (t', es') \<and> typed_ok s t t' es'))
    \<and> (\<forall>op. input_op_ok op t \<longrightarrow> (\<exists>t' es'. input_step op t = Some (t', es') \<and> told_ok op t t' es'))"
proof -
  have "input_ok t0" using assms(1) by auto
  from input_run_ok [OF this assms(2)] obtain t es where
    t: "input_run ops t0 = Some (t, es)" "input_ok t" "ti_numeric t = ti_numeric t0" by blast
  have "\<exists>t' es'. replace_selection s t = Some (t', es') \<and> typed_ok s t t' es'" if "ti_numeric t" for s
    using input_step_ok [OF t(2), of "ReplaceText None s"] that typed_value_told [OF that, of s]
    by (fastforce simp: replace_text_in_range_def)
  moreover have "\<exists>t' es'. input_step op t = Some (t', es') \<and> told_ok op t t' es'" if "input_op_ok op t" for op
    using input_step_ok [OF t(2) that] step_told by blast
  ultimately show ?thesis using t by blast
qed

theorem input_editing_safe_witness:
  "\<exists>t es. input_run [ReplaceText None ''12'', MoveLeft, Backspace, ReplaceText None ''-'', Increment] new_numeric
     = Some (t, es) \<and> input_ok t \<and> ti_content t = ''-1''"
proof -
  let ?ops = "[ReplaceText None ''12'', MoveLeft, Backspace, ReplaceText None ''-'', Increment]"
  have "inputs_ok ?ops new_numeric" by (simp split: option.split)
  from input_editing_safe [OF _ this] obtain t es where t: "input_run ?ops new_numeric = Some (t, es)" "input_ok t"
    by auto
  have [simp]: "round_half_even (- 1) = - 1" "show_nat (Suc 0) = ''1''"
    using round_half_even_of_int [of "- 1"] by (simp_all add: show_nat.simps digit_def char_of_def bit_0)
  have "map_option (ti_content \<circ> fst) (input_run ?ops new_numeric) = Some ''-1''"
    by (simp add: new_numeric_def replace_text_in_range_def replace_selection_def char_boundary_def is_numeric_candidate_def
      is_digit_def move_left_def set_selection_def backspace_def adjust_value_def parse_f32_def parse_unsigned_def
      span_digits_def scaled_decimal_def to_f32_def f32_infinite_def read_nat_def digit_value_def eq_ignore_ascii_case_def
      ascii_lower_def show_int_def Let_def)
  with t show ?thesis by auto
qed

text \<open>
  Text beyond ASCII: after pasting a character of two bytes, backspace selects its second byte only and the
  program panics.
\<close>

lemma backspace_panics:
  "input_run [Paste (Some [char_of (195 :: nat), char_of (169 :: nat)]), Backspace] new_text = None"
  by (simp add: new_text_def paste_def trim_def is_space_def replace_selection_def char_boundary_def backspace_def Let_def)

text \<open>The up key tells 2.5 for a text of 1.5, and shows 2.\<close>

lemma increment_rounds:
  "adjust_value 1 (new_numeric\<lparr>ti_content := ''1.5'', ti_start := 3, ti_end := 3\<rparr>)
   = (new_numeric\<lparr>ti_content := ''2'', ti_start := 0, ti_end := 1\<rparr>, [ValueChanged (Fin (5/2))])"
  by (simp add: new_numeric_def adjust_value_def parse_f32_def parse_unsigned_def eq_ignore_ascii_case_def ascii_lower_def
    span_digits_def is_digit_def scaled_decimal_def read_nat_def digit_value_def to_f32_def f32_infinite_def
    round_half_even_def show_int_def show_nat.simps digit_def char_of_def bit_0 Let_def)

text \<open>A number of 39 nines is past the range of an \<open>f32\<close>: the window is told an infinite value.\<close>

lemma many_digits_infinite: "parse_f32 ''999999999999999999999999999999999999999'' = Some PosInf"
  by (simp add: parse_f32_def parse_unsigned_def eq_ignore_ascii_case_def ascii_lower_def span_digits_def is_digit_def
    scaled_decimal_def read_nat_def digit_value_def to_f32_def f32_infinite_def)

end
