(* ===== verification/Command_Line.thy ===== *)
theory Command_Line
  imports Recording Text_Input "HOL-Library.Sublist"
begin

section \<open>The command line program (apps/blip-cli)\<close>

text \<open>
  Listing what can be captured, choosing a target, and recording it to an MP4 file: the capture callback, the
  writer thread and the main thread around a queue of eight messages and a channel for the end, as a step
  relation. Arguments are what clap parsed; what the frameworks answer comes with each step.
\<close>

subsection \<open>Arguments and targets (commands.rs)\<close>

record stream_args =
  sa_display :: "nat option"
  sa_window :: "nat option"
  sa_fps :: nat
  sa_cursor :: bool

record cli_record_args =
  ca_capture :: stream_args
  ca_output :: string

datatype cli_error =
  CliText string | CliPermissionDenied | CliNoDisplay | CliCapture capture_error | CliWriter writer_error

definition cli_content :: "bool \<Rightarrow> (string + content) option \<Rightarrow> cli_error + content" where
  "cli_content permission reply =
     (if \<not> permission then Inl CliPermissionDenied else map_err CliCapture (current_content reply))"

definition available_display :: "content \<Rightarrow> nat \<Rightarrow> cli_error + capture_display" where
  "available_display c display_id = ok_or (find (\<lambda>d. cd_id d = display_id) (ct_displays c))
     (CliText (''display '' @ show_nat display_id @ '' is not available''))"

definition available_window :: "content \<Rightarrow> nat \<Rightarrow> cli_error + capture_window" where
  "available_window c window_id = ok_or (find (\<lambda>w. cw_id w = window_id) (application_windows c))
     (CliText (''window '' @ show_nat window_id @ '' is not available''))"

definition select_target :: "nat \<Rightarrow> content \<Rightarrow> stream_args \<Rightarrow> cli_error + (capture_filter \<times> string)" where
  "select_target main_id c args =
     (case sa_display args of
        Some display_id \<Rightarrow>
          and_then (available_display c display_id) (\<lambda>display.
            Inr (build_display_filter (filter_display display), ''display '' @ show_nat display_id))
      | None \<Rightarrow>
          (case sa_window args of
             Some window_id \<Rightarrow>
               and_then (available_window c window_id) (\<lambda>window.
                 Inr (WindowFilter (cw_id window), ''window '' @ show_nat window_id))
           | None \<Rightarrow>
               and_then (ok_or (Screen_Capture.main_display main_id c) CliNoDisplay) (\<lambda>display.
                 Inr (build_display_filter (filter_display display), ''main display '' @ show_nat (cd_id display)))))"

definition stream_config_of :: "stream_args \<Rightarrow> stream_config_builder" where
  "stream_config_of args = with_queue_depth 2 (with_cursor (sa_cursor args) (with_fps (sa_fps args) default_builder))"

definition record_config_of :: "stream_args \<Rightarrow> stream_config_builder" where
  "record_config_of args =
     with_pixel_format Bgra (with_queue_depth 8 (with_cursor (sa_cursor args) (with_fps (sa_fps args) default_builder)))"

subsection \<open>Listings\<close>

text \<open>What ScreenCaptureKit reports of a display's or window's filter, and a display's physical size.\<close>

definition display_capture_dimensions :: "filter_info \<Rightarrow> nat \<times> nat \<Rightarrow> nat \<times> nat" where
  "display_capture_dimensions info physical =
     (case capture_size info of Some size' \<Rightarrow> size' | None \<Rightarrow> physical)"

fun size_text :: "nat \<times> nat \<Rightarrow> string" where
  "size_text (width, height) = show_nat width @ ''x'' @ show_nat height"

definition tab :: string where "tab = [char_of (9 :: nat)]"

definition sanitize :: "string \<Rightarrow> string" where
  "sanitize value = map (\<lambda>c. if (of_char c :: nat) \<in> {9, 10, 13} then CHR '' '' else c) value"

definition display_line :: "nat option \<Rightarrow> (capture_display \<Rightarrow> filter_info \<times> nat \<times> nat) \<Rightarrow> capture_display \<Rightarrow> string" where
  "display_line main_id report d =
     show_nat (cd_id d) @ tab @ size_text (case report d of (info, physical) \<Rightarrow> display_capture_dimensions info physical)
     @ tab @ (if Some (cd_id d) = main_id then ''main'' else [])"

definition list_displays :: "nat \<Rightarrow> (capture_display \<Rightarrow> filter_info \<times> nat \<times> nat) \<Rightarrow> content \<Rightarrow> string list" where
  "list_displays main_id report c =
     map (display_line (map_option cd_id (Screen_Capture.main_display main_id c)) report) (ct_displays c)"

record window_report =
  wt_info :: filter_info
  wt_application :: "(string \<times> string) option"
  wt_title :: "string option"
  wt_active :: bool

definition window_size_text :: "window_report \<Rightarrow> string" where
  "window_size_text r = (case capture_size (wt_info r) of None \<Rightarrow> ''unknown'' | Some size' \<Rightarrow> size_text size')"

definition application_name :: "window_report \<Rightarrow> string" where
  "application_name r = (case wt_application r of None \<Rightarrow> ''unknown'' | Some (name, bundle) \<Rightarrow> name)"

definition window_line :: "window_report \<Rightarrow> capture_window \<Rightarrow> string" where
  "window_line r w =
     show_nat (cw_id w) @ tab @ window_size_text r @ tab @ sanitize (application_name r)
     @ tab @ sanitize (unwrap_or (wt_title r) [])"

definition list_windows :: "(capture_window \<Rightarrow> window_report) \<Rightarrow> content \<Rightarrow> string list" where
  "list_windows report c = map (\<lambda>w. window_line (report w) w) (application_windows c)"

definition bool_text :: "bool \<Rightarrow> string" where
  "bool_text b = (if b then ''true'' else ''false'')"

fun frame_text :: "rect \<Rightarrow> string" where
  "frame_text (x, y, w, h) =
     ''frame: '' @ format_rounded (Fin w) @ ''x'' @ format_rounded (Fin h) @ ''+'' @ format_rounded (Fin x)
     @ ''+'' @ format_rounded (Fin y)"

definition window_info :: "(rect \<Rightarrow> rect \<Rightarrow> bool) \<Rightarrow> (capture_window \<Rightarrow> window_report) \<Rightarrow> content \<Rightarrow> nat \<Rightarrow> cli_error + string list" where
  "window_info intersects report c window_id =
     and_then (available_window c window_id) (\<lambda>w. let r = report w in Inr
       [''id: '' @ show_nat (cw_id w), ''title: '' @ unwrap_or (wt_title r) [],
        ''application: '' @ application_name r,
        ''bundle-id: '' @ (case wt_application r of None \<Rightarrow> ''unknown'' | Some (name, bundle) \<Rightarrow> bundle),
        ''on-screen: '' @ bool_text (cw_on_screen w), ''active: '' @ bool_text (wt_active r),
        ''layer: '' @ show_int (cw_layer w), ''capture-size: '' @ window_size_text r,
        ''display: '' @ (case window_display intersects c w of None \<Rightarrow> ''unknown'' | Some d \<Rightarrow> show_nat (cd_id d)),
        frame_text (cw_frame w), ''available-fps: not reported by ScreenCaptureKit''])"

record mode_report =
  mr_logical :: "nat \<times> nat"
  mr_pixel :: "nat \<times> nat"
  mr_refresh_rate :: real
  mr_io_id :: int
  mr_usable :: bool

text \<open>\<open>{:.2}\<close> of a positive number.\<close>

definition two_decimals :: "real \<Rightarrow> string" where
  "two_decimals x = (let n = nat (round_half_even (100 * x))
     in show_nat (n div 100) @ ''.'' @ pad_zero 2 (show_nat (n mod 100)))"

definition mode_line :: "string \<Rightarrow> mode_report \<Rightarrow> string" where
  "mode_line label m =
     label @ '': logical='' @ size_text (mr_logical m) @ '' pixels='' @ size_text (mr_pixel m) @ '' fps=''
     @ (if 0 < mr_refresh_rate m then two_decimals (mr_refresh_rate m) @ '' Hz'' else ''variable/unspecified'')
     @ '' io-id='' @ show_int (mr_io_id m) @ '' desktop-usable='' @ bool_text (mr_usable m)"

record display_report =
  dr_main :: bool
  dr_builtin :: bool
  dr_active :: bool
  dr_online :: bool
  dr_rotation :: real
  dr_logical :: "nat \<times> nat"
  dr_physical :: "nat \<times> nat"
  dr_info :: filter_info
  dr_current :: "mode_report option"
  dr_modes :: "mode_report list"

definition display_info :: "(capture_display \<Rightarrow> display_report) \<Rightarrow> content \<Rightarrow> nat \<Rightarrow> cli_error + string list" where
  "display_info report c display_id =
     and_then (available_display c display_id) (\<lambda>d. let r = report d in Inr
       ([''id: '' @ show_nat (cd_id d), ''main: '' @ bool_text (dr_main r), ''built-in: '' @ bool_text (dr_builtin r),
         ''active: '' @ bool_text (dr_active r), ''online: '' @ bool_text (dr_online r),
         ''rotation: '' @ format_rounded (Fin (dr_rotation r)) @ '' degrees'',
         ''logical-size: '' @ size_text (dr_logical r), ''physical-size: '' @ size_text (dr_physical r),
         ''capture-size: '' @ size_text (display_capture_dimensions (dr_info r) (dr_physical r)),
         frame_text (cd_frame d)]
        @ (case dr_current r of Some m \<Rightarrow> [mode_line ''current-mode'' m] | None \<Rightarrow> [])
        @ ''available-modes:'' # map (mode_line ''  -'') (dr_modes r)))"

subsection \<open>Starting a capture\<close>

text \<open>What the operating system and ScreenCaptureKit answer to a command, an error each or what was asked for.\<close>

record cli_env =
  ce_permission :: bool
  ce_content :: "(string + content) option"
  ce_main_id :: nat
  ce_handler :: "string option"
  ce_macos13 :: bool
  ce_info :: "capture_filter \<Rightarrow> filter_info"
  ce_hal :: hal
  ce_outputs :: "output_type \<Rightarrow> string option"
  ce_start :: "string option option"

definition failure_text :: "string option \<Rightarrow> cli_error + unit" where
  "failure_text e = (case e of Some m \<Rightarrow> Inl (CliText m) | None \<Rightarrow> Inr ())"

definition video_callbacks :: "'f stream_output" where
  "video_callbacks = \<lparr>so_video_callback = True, so_audio_callback = False, so_stop_callback = True, so_latency = 0\<rparr>"

definition build_cli_capturer :: "cli_env \<Rightarrow> capture_filter \<Rightarrow> stream_config_builder \<Rightarrow> cli_error + 'f stream_output" where
  "build_cli_capturer env target builder =
     map_err CliCapture
       (and_then (build_for (ce_macos13 env) (ce_info env target) builder) (\<lambda>config.
        and_then (build_capturer (ce_hal env) config video_callbacks (ce_outputs env)) (\<lambda>(outputs, kinds).
        and_then (capturer_start (ce_start env)) (\<lambda>u. Inr outputs))))"

datatype stream_end = StreamInterrupt | StreamError string

definition stream_result :: "stream_end \<Rightarrow> string option option \<Rightarrow> cli_error + unit" where
  "stream_result e stop_reply =
     map_err CliCapture (case e of StreamInterrupt \<Rightarrow> capturer_stop stop_reply | StreamError m \<Rightarrow> Inl (Framework m))"

definition stream :: "cli_env \<Rightarrow> stream_args \<Rightarrow> stream_end \<Rightarrow> string option option \<Rightarrow> cli_error + unit" where
  "stream env args e stop_reply =
     and_then (cli_content (ce_permission env) (ce_content env)) (\<lambda>c.
     and_then (select_target (ce_main_id env) c args) (\<lambda>(target, description).
     and_then (failure_text (ce_handler env)) (\<lambda>u.
     and_then (build_cli_capturer env target (stream_config_of args) :: cli_error + unit stream_output) (\<lambda>out.
     stream_result e stop_reply))))"

text \<open>
  The start of a recording, up to its hint; \<open>terminal\<close> is whether the input is one, \<open>raw_mode\<close> and \<open>worker\<close> are
  the errors of entering raw mode and of starting a thread.
\<close>

definition begin_record ::
    "cli_env \<Rightarrow> bool \<Rightarrow> string option \<Rightarrow> string option \<Rightarrow> cli_record_args \<Rightarrow> cli_error + (unit stream_output \<times> string)" where
  "begin_record env terminal raw_mode worker args =
     and_then (cli_content (ce_permission env) (ce_content env)) (\<lambda>c.
     and_then (select_target (ce_main_id env) c (ca_capture args)) (\<lambda>(target, description).
     and_then (failure_text (ce_handler env)) (\<lambda>u.
     and_then (if terminal then failure_text raw_mode else Inr ()) (\<lambda>u.
     and_then (failure_text worker) (\<lambda>u.
     and_then (build_cli_capturer env target (record_config_of (ca_capture args))) (\<lambda>out.
     Inr (out, ''recording '' @ description @ '' to '' @ ca_output args @ ''; ''
       @ (if terminal then ''press Space to stop'' else ''press Ctrl-C to stop''))))))))"

subsection \<open>The writer thread (recording.rs)\<close>

datatype 'f cli_message = CliFrame "'f video_frame" duration | CliFinish

record writer_stats =
  st_appended :: nat
  st_drops :: nat

record ('f, 'a) cli_writing =
  cw_writer :: "('f, 'a) video_writer option"
  cw_stats :: writer_stats
  cw_disk :: Asset_Writers.disk

definition cli_start_writing :: "Asset_Writers.disk \<Rightarrow> ('f, 'a) cli_writing" where
  "cli_start_writing d = \<lparr>cw_writer = None, cw_stats = \<lparr>st_appended = 0, st_drops = 0\<rparr>, cw_disk = d\<rparr>"

definition cli_ensure_writer ::
    "string \<Rightarrow> nat \<Rightarrow> 'f video_frame \<Rightarrow> frame_env \<Rightarrow> ('f, 'a) cli_writing \<Rightarrow>
     writer_error + (('f, 'a) cli_writing \<times> ('f, 'a) video_writer)" where
  "cli_ensure_writer path fps f env st =
     (case cw_writer st of
        Some w \<Rightarrow> Inr (st, w)
      | None \<Rightarrow>
          result_then (mp4_new (ev_setup env) (options_file_type Mp4 False) path (ev_parent env) (ev_dir env)
              (ev_remove env) (vf_width f) (vf_height f) fps (cw_disk st))
            (\<lambda>d w. (st\<lparr>cw_disk := d, cw_writer := Some w\<rparr>, w)))"

definition count_frame :: "bool \<Rightarrow> writer_stats \<Rightarrow> writer_stats" where
  "count_frame appended s =
     (if appended then s\<lparr>st_appended := saturating_add u64_max (st_appended s) 1\<rparr>
      else s\<lparr>st_drops := saturating_add u64_max (st_drops s) 1\<rparr>)"

definition cli_write_frame ::
    "string \<Rightarrow> nat \<Rightarrow> 'f video_frame \<Rightarrow> duration \<Rightarrow> frame_env \<Rightarrow> ('f, 'a) cli_writing \<Rightarrow>
     writer_error + ('f, 'a) cli_writing" where
  "cli_write_frame path fps f t env st =
     and_then (cli_ensure_writer path fps f env st) (\<lambda>(st1, w).
       result_then (mp4_append (vf_buffer f) t (ev_reply env) w) (\<lambda>w' appended.
         st1\<lparr>cw_writer := Some w', cw_stats := count_frame appended (cw_stats st1)\<rparr>))"

text \<open>The finished writer is part of the result for the specification.\<close>

definition cli_write_end ::
    "finish_reply \<Rightarrow> ('f, 'a) cli_writing \<Rightarrow> writer_error + (('f, 'a) video_writer \<times> writer_stats)" where
  "cli_write_end reply st =
     and_then (ok_or (cw_writer st) NoFrames) (\<lambda>w.
       result_then (mp4_finish reply w) (\<lambda>w' u. (w', cw_stats st)))"

fun cli_write_loop ::
    "string \<Rightarrow> nat \<Rightarrow> ('f cli_message \<times> frame_env) list \<Rightarrow> ('f, 'a) cli_writing \<Rightarrow>
     writer_error + ('f, 'a) cli_writing" where
  "cli_write_loop path fps [] st = Inr st"
| "cli_write_loop path fps ((CliFrame f t, env) # ms) st =
     and_then (cli_write_frame path fps f t env st) (cli_write_loop path fps ms)"
| "cli_write_loop path fps ((CliFinish, env) # ms) st = Inr st"

definition cli_write_frames ::
    "string \<Rightarrow> nat \<Rightarrow> ('f cli_message \<times> frame_env) list \<Rightarrow> finish_reply \<Rightarrow> Asset_Writers.disk \<Rightarrow>
     writer_error + (('f, 'a) video_writer \<times> writer_stats)" where
  "cli_write_frames path fps ms reply d =
     and_then (cli_write_loop path fps ms (cli_start_writing d)) (cli_write_end reply)"
subsection \<open>Stop keys and the end of a recording\<close>

datatype key_kind = KeyPress | KeyRepeat | KeyRelease

record key_event =
  ke_kind :: key_kind
  ke_char :: "char option"
  ke_control :: bool

definition is_stop_key :: "key_event \<Rightarrow> bool" where
  "is_stop_key k \<longleftrightarrow> ke_kind k = KeyPress
     \<and> (ke_char k = Some (CHR '' '') \<or> (ke_char k = Some (CHR ''c'') \<and> ke_control k))"

datatype record_end = Interrupted | CaptureStopped string | WriterFailed

definition frame_queue_depth :: nat where "frame_queue_depth = 8"

datatype ('f, 'a) writer_thread =
  Writing "('f, 'a) cli_writing" | WriterEnded "writer_error + (('f, 'a) video_writer \<times> writer_stats)"

datatype main_phase =
  AwaitingEnd | SendingFinish record_end "capture_error + unit" | JoiningWriter record_end "capture_error + unit"
| RecordReturned "cli_error + (writer_stats \<times> nat)"

text \<open>
  For the specification, \<open>rc_captured\<close> are the frames captured while the writer was at work, and \<open>rc_received\<close> is
  what the writer has taken from the queue.
\<close>

record ('f, 'a) cli_recording =
  rc_queue :: "'f cli_message list"
  rc_writer :: "('f, 'a) writer_thread"
  rc_queue_drops :: nat
  rc_end :: "record_end option"
  rc_main :: main_phase
  rc_received :: "('f cli_message \<times> frame_env) list"
  rc_captured :: "('f video_frame \<times> duration) list"

definition start_recording :: "Asset_Writers.disk \<Rightarrow> ('f, 'a) cli_recording" where
  "start_recording d = \<lparr>rc_queue = [], rc_writer = Writing (cli_start_writing d), rc_queue_drops = 0, rc_end = None,
     rc_main = AwaitingEnd, rc_received = [], rc_captured = []\<rparr>"

text \<open>\<open>try_send\<close> on the channel of one message for the end.\<close>

definition send_end :: "record_end \<Rightarrow> ('f, 'a) cli_recording \<Rightarrow> ('f, 'a) cli_recording" where
  "send_end e s = (if rc_end s = None then s\<lparr>rc_end := Some e\<rparr> else s)"

text \<open>The capture callback: with a full queue the frame is counted as dropped; without a writer nothing happens.\<close>

definition frame_captured :: "'f video_frame \<Rightarrow> duration \<Rightarrow> ('f, 'a) cli_recording \<Rightarrow> ('f, 'a) cli_recording" where
  "frame_captured f t s =
     (case rc_writer s of
        WriterEnded r \<Rightarrow> s
      | Writing w \<Rightarrow>
          (let s' = s\<lparr>rc_captured := rc_captured s @ [(f, t)]\<rparr>
           in if length (rc_queue s) < frame_queue_depth then s'\<lparr>rc_queue := rc_queue s @ [CliFrame f t]\<rparr>
              else s'\<lparr>rc_queue_drops := (rc_queue_drops s + 1) mod (u64_max + 1)\<rparr>))"

definition key_pressed :: "key_event \<Rightarrow> ('f, 'a) cli_recording \<Rightarrow> ('f, 'a) cli_recording" where
  "key_pressed k s = (if is_stop_key k then send_end Interrupted s else s)"

definition writer_ended ::
    "writer_error + (('f, 'a) video_writer \<times> writer_stats) \<Rightarrow> ('f, 'a) cli_recording \<Rightarrow> ('f, 'a) cli_recording" where
  "writer_ended r s = (let s' = s\<lparr>rc_writer := WriterEnded r\<rparr> in if is_ok r then s' else send_end WriterFailed s')"

text \<open>The writer thread takes a message.\<close>

definition writer_takes ::
    "string \<Rightarrow> nat \<Rightarrow> frame_env \<Rightarrow> finish_reply \<Rightarrow> ('f, 'a) cli_recording \<Rightarrow> ('f, 'a) cli_recording" where
  "writer_takes path fps env reply s =
     (case (rc_writer s, rc_queue s) of
        (Writing w, m # q) \<Rightarrow>
          (let s' = s\<lparr>rc_queue := q, rc_received := rc_received s @ [(m, env)]\<rparr>
           in case m of
                CliFinish \<Rightarrow> writer_ended (cli_write_end reply w) s'
              | CliFrame f t \<Rightarrow>
                  (case cli_write_frame path fps f t env w of
                     Inl e \<Rightarrow> writer_ended (Inl e) s'
                   | Inr w' \<Rightarrow> s'\<lparr>rc_writer := Writing w'\<rparr>))
      | _ \<Rightarrow> s)"

text \<open>The main thread; the answer is that of stopping the capture.\<close>

definition stop_after :: "record_end \<Rightarrow> string option option \<Rightarrow> capture_error + unit" where
  "stop_after e reply = (case e of CaptureStopped m \<Rightarrow> Inr () | _ \<Rightarrow> capturer_stop reply)"

definition record_result ::
    "record_end \<Rightarrow> capture_error + unit \<Rightarrow> writer_error + (('f, 'a) video_writer \<times> writer_stats) \<Rightarrow> nat \<Rightarrow>
     cli_error + (writer_stats \<times> nat)" where
  "record_result e stopped written queue_drops =
     and_then (map_err CliCapture stopped) (\<lambda>u.
     and_then (case e of CaptureStopped m \<Rightarrow> Inl (CliCapture (Framework m)) | _ \<Rightarrow> Inr ()) (\<lambda>u.
     and_then (map_err CliWriter written) (\<lambda>(w, stats). Inr (stats, queue_drops))))"

definition main_continues :: "string option option \<Rightarrow> ('f, 'a) cli_recording \<Rightarrow> ('f, 'a) cli_recording option" where
  "main_continues reply s =
     (case rc_main s of
        AwaitingEnd \<Rightarrow>
          map_option (\<lambda>e. s\<lparr>rc_end := None, rc_main := SendingFinish e (stop_after e reply)\<rparr>) (rc_end s)
      | SendingFinish e stopped \<Rightarrow>
          (case rc_writer s of
             WriterEnded r \<Rightarrow> Some (s\<lparr>rc_main := JoiningWriter e stopped\<rparr>)
           | Writing w \<Rightarrow>
               if length (rc_queue s) < frame_queue_depth
               then Some (s\<lparr>rc_queue := rc_queue s @ [CliFinish], rc_main := JoiningWriter e stopped\<rparr>) else None)
      | JoiningWriter e stopped \<Rightarrow>
          (case rc_writer s of
             Writing w \<Rightarrow> None
           | WriterEnded r \<Rightarrow> Some (s\<lparr>rc_main := RecordReturned (record_result e stopped r (rc_queue_drops s))\<rparr>))
      | RecordReturned r \<Rightarrow> None)"

text \<open>Steps of the program's own threads, and what happens to it.\<close>

inductive own_step :: "string \<Rightarrow> nat \<Rightarrow> ('f, 'a) cli_recording \<Rightarrow> ('f, 'a) cli_recording \<Rightarrow> bool" for path fps where
  Take: "rc_writer s = Writing w \<Longrightarrow> rc_queue s \<noteq> [] \<Longrightarrow> own_step path fps s (writer_takes path fps env reply s)"
| Main: "main_continues reply s = Some s' \<Longrightarrow> own_step path fps s s'"

inductive outer_step :: "('f, 'a) cli_recording \<Rightarrow> ('f, 'a) cli_recording \<Rightarrow> bool" where
  Frame: "outer_step s (frame_captured f t s)"
| Key: "outer_step s (key_pressed k s)"
| Interrupt: "outer_step s (send_end Interrupted s)"
| StreamStopped: "outer_step s (send_end (CaptureStopped m) s)"

definition cli_step :: "string \<Rightarrow> nat \<Rightarrow> ('f, 'a) cli_recording \<Rightarrow> ('f, 'a) cli_recording \<Rightarrow> bool" where
  "cli_step path fps s s' \<longleftrightarrow> own_step path fps s s' \<or> outer_step s s'"

inductive_simps own_step_iff: "own_step path fps s s'"
inductive_simps outer_step_iff: "outer_step s s'"
subsection \<open>What the writer has written\<close>

fun message_frame :: "'f cli_message \<Rightarrow> ('f video_frame \<times> duration) list" where
  "message_frame (CliFrame f t) = [(f, t)]"
| "message_frame CliFinish = []"

definition frames_of :: "'f cli_message list \<Rightarrow> ('f video_frame \<times> duration) list" where
  "frames_of ms = concat (map message_frame ms)"

lemma frames_of_simps [simp]:
  "frames_of [] = []" "frames_of (m # ms) = message_frame m @ frames_of ms" "frames_of (ms @ ns) = frames_of ms @ frames_of ns"
  by (simp_all add: frames_of_def)

text \<open>The counts are those of the frames the file was given, and its writer is in order.\<close>

definition writing_ok :: "nat \<Rightarrow> ('f, 'a) cli_writing \<Rightarrow> bool" where
  "writing_ok n st \<longleftrightarrow>
     (case cw_writer st of
        None \<Rightarrow> n = 0 \<and> cw_stats st = \<lparr>st_appended = 0, st_drops = 0\<rparr>
      | Some w \<Rightarrow> mp4_inv w \<and> \<not> vw_finished w \<and> length (frame_times (vw_calls w)) \<le> n
          \<and> st_appended (cw_stats st) = min u64_max (length (frame_times (vw_calls w)))
          \<and> st_drops (cw_stats st) = min u64_max (n - length (frame_times (vw_calls w))))"

lemma saturating_count: "saturating_add m (min m n) (Suc 0) = min m (Suc n)"
  by (auto simp: saturating_add_def min_def)

lemma mp4_append_counts:
  assumes "mp4_append f t reply w = (w', Inr b)"
  shows "length (frame_times (vw_calls w')) = length (frame_times (vw_calls w)) + (if b then 1 else 0)
    \<and> vw_finished w' = vw_finished w"
  using assms
  by (auto simp: mp4_append_def Asset_Writers.start_session_def put_frame_def call_def Let_def split: sum.splits option.splits if_splits)

lemma mp4_new_unfinished:
  "mp4_new su opts p parent r1 r2 x y fps dk = (dk', Inr w) \<Longrightarrow> \<not> vw_finished w \<and> frame_times (vw_calls w) = []"
  by (auto simp: mp4_new_def writer_setup_def add_audio_input_def split: if_splits sum.splits prod.splits)

lemma write_frame_ok:
  assumes "writing_ok n st" "cli_write_frame path fps f t env st = Inr st'"
  shows "writing_ok (Suc n) st'"
proof -
  from assms(2) obtain st1 w w' b where w: "cli_ensure_writer path fps f env st = Inr (st1, w)"
      "mp4_append (vf_buffer f) t (ev_reply env) w = (w', Inr b)"
    and st': "st' = st1\<lparr>cw_writer := Some w', cw_stats := count_frame b (cw_stats st1)\<rparr>"
    by (auto simp: cli_write_frame_def)
  have ok: "mp4_inv w \<and> \<not> vw_finished w \<and> length (frame_times (vw_calls w)) \<le> n
      \<and> st_appended (cw_stats st1) = min u64_max (length (frame_times (vw_calls w)))
      \<and> st_drops (cw_stats st1) = min u64_max (n - length (frame_times (vw_calls w)))"
    using assms(1) w(1) by (auto simp: cli_ensure_writer_def writing_ok_def dest: mp4_new_inv mp4_new_unfinished
      split: option.splits)
  moreover have "mp4_inv w'" using mp4_append_keeps [of w "vf_buffer f" t "ev_reply env"] ok w(2) by simp
  ultimately show ?thesis
    using mp4_append_counts [OF w(2)] st'
    by (cases b) (auto simp: writing_ok_def count_frame_def saturating_count Suc_diff_le)
qed

lemma write_loop_ok:
  "cli_write_loop path fps ms st = Inr st' \<Longrightarrow> writing_ok n st \<Longrightarrow> CliFinish \<notin> set (map fst ms)
    \<Longrightarrow> writing_ok (n + length ms) st'"
proof (induction path fps ms st arbitrary: n rule: cli_write_loop.induct)
  case (2 path fps f t env ms st)
  from 2(2) obtain st1 where st1: "cli_write_frame path fps f t env st = Inr st1" "cli_write_loop path fps ms st1 = Inr st'"
    by auto
  with 2(1) [OF st1(2) write_frame_ok [OF 2(3) st1(1)]] 2(4) show ?case by simp
qed auto

lemma write_loop_snoc:
  "CliFinish \<notin> set (map fst ms) \<Longrightarrow> cli_write_loop path fps (ms @ ns) st
    = and_then (cli_write_loop path fps ms st) (cli_write_loop path fps ns)"
proof (induction path fps ms st rule: cli_write_loop.induct)
  case (2 path fps f t env ms st)
  then show ?case by (cases "cli_write_frame path fps f t env st") auto
qed auto

lemma start_writing_ok [simp]: "writing_ok 0 (cli_start_writing d)"
  by (simp add: writing_ok_def cli_start_writing_def)

lemma write_end_ok:
  assumes "writing_ok n st" "cli_write_end reply st = Inr (w, stats)"
  shows "vw_finished w \<and> mp4_inv w \<and> frame_times (vw_calls w) \<noteq> [] \<and> length (frame_times (vw_calls w)) \<le> n
    \<and> stats = \<lparr>st_appended = min u64_max (length (frame_times (vw_calls w))),
        st_drops = min u64_max (n - length (frame_times (vw_calls w)))\<rparr>"
proof -
  from assms(2) obtain w0 where w0: "cw_writer st = Some w0" "mp4_finish reply w0 = (w, Inr ())" "stats = cw_stats st"
    by (auto simp: cli_write_end_def)
  from assms(1) w0(1) have ok: "mp4_inv w0" "\<not> vw_finished w0"
    "length (frame_times (vw_calls w0)) \<le> n"
    "cw_stats st = \<lparr>st_appended = min u64_max (length (frame_times (vw_calls w0))),
        st_drops = min u64_max (n - length (frame_times (vw_calls w0)))\<rparr>"
    by (auto simp: writing_ok_def intro!: writer_stats.equality)
  have "mp4_inv w" using mp4_finish_keeps [OF ok(1), of reply] w0(2) by simp
  moreover have "vw_finished w" "frame_times (vw_calls w) = frame_times (vw_calls w0)" "vw_last w0 \<noteq> None"
    using w0(2) ok(2) by (auto simp: mp4_finish_def mp4_end_time_def Let_def call_def end_calls_shape end_list_other
      split: sum.splits)
  moreover have "frame_times (vw_calls w0) \<noteq> []"
    using ok(1) \<open>vw_last w0 \<noteq> None\<close> by (auto simp: track_inv_def last_frame_def)
  ultimately show ?thesis using ok w0(3) by simp
qed
subsection \<open>What stays true of a recording\<close>

definition no_finish :: "('f, 'a) cli_recording \<Rightarrow> bool" where
  "no_finish s \<longleftrightarrow> CliFinish \<notin> set (rc_queue s) \<and> CliFinish \<notin> set (map fst (rc_received s))"

definition writer_inv :: "string \<Rightarrow> nat \<Rightarrow> Asset_Writers.disk \<Rightarrow> ('f, 'a) cli_recording \<Rightarrow> bool" where
  "writer_inv path fps d s \<longleftrightarrow>
     (case rc_writer s of
        Writing w \<Rightarrow> CliFinish \<notin> set (map fst (rc_received s))
          \<and> cli_write_loop path fps (rc_received s) (cli_start_writing d) = Inr w
      | WriterEnded r \<Rightarrow> \<exists>reply ms m env. rc_received s = ms @ [(m, env)] \<and> CliFinish \<notin> set (map fst ms)
          \<and> cli_write_frames path fps (rc_received s) reply d = r)"

definition main_inv :: "('f, 'a) cli_recording \<Rightarrow> bool" where
  "main_inv s \<longleftrightarrow>
     (case rc_main s of
        AwaitingEnd \<Rightarrow> no_finish s \<and> (\<forall>r. rc_writer s = WriterEnded r \<longrightarrow> rc_end s \<noteq> None)
      | SendingFinish e stopped \<Rightarrow> no_finish s
      | JoiningWriter e stopped \<Rightarrow> \<forall>w. rc_writer s = Writing w \<longrightarrow> CliFinish \<in> set (rc_queue s)
      | RecordReturned r \<Rightarrow> \<exists>e stopped written. rc_writer s = WriterEnded written
          \<and> r = record_result e stopped written (rc_queue_drops s))"

definition counted :: "('f, 'a) cli_recording \<Rightarrow> bool" where
  "counted s \<longleftrightarrow> length (rc_queue s) \<le> frame_queue_depth
     \<and> subseq (frames_of (map fst (rc_received s) @ rc_queue s)) (rc_captured s)
     \<and> (\<exists>k. length (rc_captured s) = length (frames_of (map fst (rc_received s) @ rc_queue s)) + k
          \<and> rc_queue_drops s = k mod (u64_max + 1))"

definition rec_inv :: "string \<Rightarrow> nat \<Rightarrow> Asset_Writers.disk \<Rightarrow> ('f, 'a) cli_recording \<Rightarrow> bool" where
  "rec_inv path fps d s \<longleftrightarrow> writer_inv path fps d s \<and> main_inv s \<and> counted s"

lemma start_rec_inv [simp]: "rec_inv path fps d (start_recording d)"
  by (simp add: rec_inv_def writer_inv_def main_inv_def counted_def no_finish_def start_recording_def frame_queue_depth_def)

lemma writer_inv_cong:
  "rc_writer s' = rc_writer s \<Longrightarrow> rc_received s' = rc_received s \<Longrightarrow> writer_inv path fps d s' = writer_inv path fps d s"
  unfolding writer_inv_def by (simp only:)

lemma send_end_inv [simp]:
  assumes "rec_inv path fps d s"
  shows "rec_inv path fps d (send_end e s)"
proof -
  have same: "rc_writer (send_end e s) = rc_writer s" "rc_received (send_end e s) = rc_received s"
    "rc_queue (send_end e s) = rc_queue s" "rc_main (send_end e s) = rc_main s" "rc_captured (send_end e s) = rc_captured s"
    "rc_queue_drops (send_end e s) = rc_queue_drops s" "rc_end (send_end e s) \<noteq> None"
    by (simp_all add: send_end_def)
  with assms writer_inv_cong [OF same(1,2), of path fps d] show ?thesis
    by (auto simp: rec_inv_def main_inv_def counted_def no_finish_def split: main_phase.splits)
qed

lemma frame_captured_inv:
  assumes "rec_inv path fps d s"
  shows "rec_inv path fps d (frame_captured f t s)"
proof (cases "rc_writer s")
  case (Writing w)
  have "counted (frame_captured f t s)"
  proof -
    from assms obtain k where k: "length (rc_captured s) = length (frames_of (map fst (rc_received s) @ rc_queue s)) + k"
        "rc_queue_drops s = k mod (u64_max + 1)"
      and c: "length (rc_queue s) \<le> frame_queue_depth"
        "subseq (frames_of (map fst (rc_received s) @ rc_queue s)) (rc_captured s)"
      by (auto simp: rec_inv_def counted_def)
    show ?thesis
    proof (cases "length (rc_queue s) < frame_queue_depth")
      case True
      have "subseq ((frames_of (map fst (rc_received s)) @ frames_of (rc_queue s)) @ [(f, t)]) (rc_captured s @ [(f, t)])"
        using c(2) by (intro list_emb_append_mono) simp_all
      with True Writing k show ?thesis
        by (auto simp: counted_def frame_captured_def)
    next
      case False
      have "length (rc_captured s @ [(f, t)]) = length (frames_of (map fst (rc_received s) @ rc_queue s)) + Suc k"
        using k by simp
      moreover have "(rc_queue_drops s + 1) mod (u64_max + 1) = Suc k mod (u64_max + 1)"
        unfolding k(2) by (simp add: mod_Suc_eq)
      ultimately show ?thesis using False Writing c
        by (auto simp: counted_def frame_captured_def intro: list_emb_append2)
    qed
  qed
  with assms Writing show ?thesis
    by (auto simp: rec_inv_def writer_inv_def main_inv_def no_finish_def frame_captured_def Let_def split: main_phase.splits)
next
  case (WriterEnded r)
  with assms show ?thesis by (simp add: frame_captured_def)
qed

lemma main_continues_same:
  assumes "main_continues reply s = Some s'"
  shows "rc_writer s' = rc_writer s" "rc_received s' = rc_received s" "rc_captured s' = rc_captured s"
    "rc_queue_drops s' = rc_queue_drops s"
    "rc_queue s' = rc_queue s \<or> rc_queue s' = rc_queue s @ [CliFinish] \<and> length (rc_queue s) < frame_queue_depth"
  using assms by (auto simp: main_continues_def split: main_phase.splits writer_thread.splits if_splits)

lemma main_continues_inv:
  assumes inv: "rec_inv path fps d s" and m: "main_continues reply s = Some s'"
  shows "rec_inv path fps d s'"
proof -
  note same = main_continues_same [OF m]
  have "writer_inv path fps d s'" using inv writer_inv_cong [OF same(1,2), of path fps d] by (simp add: rec_inv_def)
  moreover have "counted s'" using same(5)
  proof
    assume "rc_queue s' = rc_queue s"
    then show "counted s'" using inv unfolding rec_inv_def counted_def same(3,4) by (simp only: same(2))
  next
    assume "rc_queue s' = rc_queue s @ [CliFinish] \<and> length (rc_queue s) < frame_queue_depth"
    then show "counted s'" using inv by (auto simp: rec_inv_def counted_def same(2-4))
  qed
  moreover have "main_inv s'"
  proof (cases "rc_main s")
    case (JoiningWriter e stopped)
    with m obtain r where r: "rc_writer s = WriterEnded r"
        "s' = s\<lparr>rc_main := RecordReturned (record_result e stopped r (rc_queue_drops s))\<rparr>"
      by (auto simp: main_continues_def split: writer_thread.splits)
    then show ?thesis unfolding main_inv_def by auto
  qed (use inv m in \<open>auto simp: rec_inv_def main_inv_def no_finish_def main_continues_def
         split: writer_thread.splits if_splits\<close>)
  ultimately show ?thesis by (simp add: rec_inv_def)
qed

lemma writer_ended_simps [simp]:
  "rc_queue (writer_ended r s) = rc_queue s" "rc_received (writer_ended r s) = rc_received s"
  "rc_captured (writer_ended r s) = rc_captured s" "rc_queue_drops (writer_ended r s) = rc_queue_drops s"
  "rc_writer (writer_ended r s) = WriterEnded r" "rc_main (writer_ended r s) = rc_main s"
  "\<not> is_ok r \<Longrightarrow> rc_end (writer_ended r s) \<noteq> None"
  by (auto simp: writer_ended_def send_end_def Let_def)

lemma writer_takes_inv:
  assumes inv: "rec_inv path fps d s" and w: "rc_writer s = Writing w" and q: "rc_queue s = m # q"
  shows "rec_inv path fps d (writer_takes path fps env reply s)"
proof -
  let ?s = "writer_takes path fps env reply s" and ?ms = "rc_received s @ [(m, env)]"
  from inv w have wi: "CliFinish \<notin> set (map fst (rc_received s))"
      "cli_write_loop path fps (rc_received s) (cli_start_writing d) = Inr w"
    by (simp_all add: rec_inv_def writer_inv_def)
  have r: "rc_received ?s = ?ms" "rc_queue ?s = q" "rc_captured ?s = rc_captured s" "rc_queue_drops ?s = rc_queue_drops s"
      "rc_main ?s = rc_main s"
    using w q by (simp_all add: writer_takes_def Let_def split: cli_message.split sum.split)
  have "counted ?s" using inv q by (auto simp: rec_inv_def counted_def r)
  moreover have "writer_inv path fps d ?s"
    using wi w q by (auto simp: writer_inv_def r(1) writer_takes_def Let_def write_loop_snoc cli_write_frames_def
      split: cli_message.split sum.split)
  moreover have "main_inv ?s"
  proof (cases "rc_main s")
    case AwaitingEnd
    with inv q have "no_finish s" "m \<noteq> CliFinish" by (auto simp: rec_inv_def main_inv_def no_finish_def)
    with AwaitingEnd w q show ?thesis
      by (cases m) (auto simp: main_inv_def r no_finish_def writer_takes_def Let_def split: sum.split)
  next
    case (SendingFinish e st)
    with inv q show ?thesis by (auto simp: rec_inv_def main_inv_def no_finish_def r)
  next
    case (JoiningWriter e st)
    with inv w q have "CliFinish \<in> set (m # q)" by (auto simp: rec_inv_def main_inv_def)
    with JoiningWriter w q show ?thesis
      by (cases m) (auto simp: main_inv_def r writer_takes_def Let_def split: sum.split)
  next
    case (RecordReturned x)
    with inv w show ?thesis by (auto simp: rec_inv_def main_inv_def)
  qed
  ultimately show ?thesis by (simp add: rec_inv_def)
qed

lemma own_step_inv: "rec_inv path fps d s \<Longrightarrow> own_step path fps s s' \<Longrightarrow> rec_inv path fps d s'"
  by (auto simp: own_step_iff neq_Nil_conv intro: writer_takes_inv main_continues_inv)

interpretation cli_machine: state_machine "cli_step path fps" "rec_inv path fps d"
  by unfold_locales (auto simp: cli_step_def outer_step_iff key_pressed_def intro: own_step_inv frame_captured_inv)
lemma reachable_rec_inv: "(cli_step path fps)\<^sup>*\<^sup>* (start_recording d) s \<Longrightarrow> rec_inv path fps d s"
  by (rule cli_machine.reachable_inv [OF _ start_rec_inv])

lemma record_result_ok:
  assumes "record_result e stopped written n = Inr (stats, queue_drops)"
  shows "\<exists>w. written = Inr (w, stats) \<and> queue_drops = n"
  using assms by (auto simp: record_result_def)

lemma frames_no_finish: "CliFinish \<notin> set ms \<Longrightarrow> length (frames_of ms) = length ms"
proof (induction ms)
  case (Cons m ms)
  then show ?case by (cases m) auto
qed simp

text \<open>What the writer leaves when it has ended well.\<close>

lemma write_frames_ok:
  assumes "cli_write_frames path fps (ms @ [(m, env)]) reply d = Inr (w, stats)" "CliFinish \<notin> set (map fst ms)"
  defines "n \<equiv> length (frames_of (map fst (ms @ [(m, env)])))"
  shows "vw_finished w \<and> mp4_inv w \<and> frame_times (vw_calls w) \<noteq> [] \<and> length (frame_times (vw_calls w)) \<le> n
    \<and> stats = \<lparr>st_appended = min u64_max (length (frame_times (vw_calls w))),
        st_drops = min u64_max (n - length (frame_times (vw_calls w)))\<rparr>"
proof -
  from assms(1) obtain st where st: "cli_write_loop path fps (ms @ [(m, env)]) (cli_start_writing d) = Inr st"
      "cli_write_end reply st = Inr (w, stats)"
    by (auto simp: cli_write_frames_def)
  have "writing_ok n st"
  proof (cases m)
    case (CliFrame f t)
    with assms(2) write_loop_ok [OF st(1) start_writing_ok] frames_no_finish [of "map fst ms"] show ?thesis
      by (simp add: n_def)
  next
    case CliFinish
    with st(1) assms(2) have "cli_write_loop path fps ms (cli_start_writing d) = Inr st" by (auto simp: write_loop_snoc)
    from write_loop_ok [OF this start_writing_ok assms(2)] frames_no_finish [OF assms(2)] CliFinish show ?thesis
      by (simp add: n_def)
  qed
  from write_end_ok [OF this st(2)] show ?thesis .
qed

text \<open>
  C20: a recording of the command line program that succeeds has written exactly what the loop of its writer
  makes of the messages it took, and its file was finished: the frames it was given are those captured, in
  order, less the ones counted as dropped and those still queued; of them the ones counted as written have
  strictly increasing times in the file, the others are counted as refused by AVFoundation, and at least one
  is in the file.
\<close>

theorem cli_recording_complete:
  fixes s :: "('f, 'a) cli_recording"
  assumes "(cli_step path fps)\<^sup>*\<^sup>* (start_recording d) s" "rc_main s = RecordReturned (Inr (stats, queue_drops))"
  shows "\<exists>reply (w :: ('f, 'a) video_writer) k. cli_write_frames path fps (rc_received s) reply d = Inr (w, stats) \<and> vw_finished w
    \<and> sorted_wrt (<) (frame_times (vw_calls w)) \<and> frame_times (vw_calls w) \<noteq> []
    \<and> subseq (frames_of (map fst (rc_received s))) (rc_captured s)
    \<and> st_appended stats = min u64_max (length (frame_times (vw_calls w)))
    \<and> st_drops stats = min u64_max (length (frames_of (map fst (rc_received s))) - length (frame_times (vw_calls w)))
    \<and> length (rc_captured s) = length (frames_of (map fst (rc_received s))) + length (frames_of (rc_queue s)) + k
    \<and> queue_drops = k mod (u64_max + 1)"
proof -
  have inv: "writer_inv path fps d s" "main_inv s" "counted s"
    using reachable_rec_inv [OF assms(1)] by (simp_all add: rec_inv_def)
  from inv(2) assms(2) obtain w where w: "rc_writer s = WriterEnded (Inr (w, stats))" "queue_drops = rc_queue_drops s"
    by (fastforce simp: main_inv_def dest: record_result_ok [OF sym])
  with inv(1) obtain reply ms m env where ms: "rc_received s = ms @ [(m, env)]" "CliFinish \<notin> set (map fst ms)"
      "cli_write_frames path fps (rc_received s) reply d = Inr (w, stats)"
    by (auto simp: writer_inv_def)
  note ok = write_frames_ok [OF ms(3) [unfolded ms(1)] ms(2), folded ms(1)]
  have "subseq (frames_of (map fst (rc_received s))) (rc_captured s)"
    using inv(3) by (auto simp: counted_def elim: subseq_order.trans [rotated])
  moreover have "sorted_wrt (<) (frame_times (vw_calls w))" using ok by (auto dest: track_order)
  moreover from inv(3) obtain k where
    "length (rc_captured s) = length (frames_of (map fst (rc_received s))) + length (frames_of (rc_queue s)) + k"
    "queue_drops = k mod (u64_max + 1)" by (auto simp: counted_def w(2))
  ultimately show ?thesis using ms(3) ok by (intro exI [of _ reply] exI [of _ w] exI [of _ k]) (intro conjI; simp)
qed
subsection \<open>A recording that is to end does\<close>

definition ending :: "('f, 'a) cli_recording \<Rightarrow> bool" where
  "ending s \<longleftrightarrow> rc_end s \<noteq> None \<or> rc_main s \<noteq> AwaitingEnd \<or> (\<exists>r. rc_writer s = WriterEnded r)"

fun main_rank :: "main_phase \<Rightarrow> nat" where
  "main_rank AwaitingEnd = 4"
| "main_rank (SendingFinish e r) = 3"
| "main_rank (JoiningWriter e r) = 1"
| "main_rank (RecordReturned r) = 0"

definition own_measure :: "('f, 'a) cli_recording \<Rightarrow> nat" where
  "own_measure s = main_rank (rc_main s) + (case rc_writer s of Writing w \<Rightarrow> length (rc_queue s) + 1 | WriterEnded r \<Rightarrow> 0)"

lemma writer_takes_measure:
  "rc_writer s = Writing w \<Longrightarrow> rc_queue s = m # q \<Longrightarrow> own_measure (writer_takes path fps env reply s) < own_measure s"
  by (auto simp: writer_takes_def own_measure_def Let_def split: cli_message.split sum.split)

lemma main_continues_measure: "main_continues reply s = Some s' \<Longrightarrow> own_measure s' < own_measure s"
  by (auto simp: main_continues_def own_measure_def split: main_phase.splits writer_thread.splits if_splits)

lemma own_step_measure: "own_step path fps s s' \<Longrightarrow> own_measure s' < own_measure s"
  by (auto simp: own_step_iff neq_Nil_conv dest: writer_takes_measure main_continues_measure)

lemma own_steps_bounded: "(own_step path fps ^^ n) s s' \<Longrightarrow> n + own_measure s' \<le> own_measure s"
proof (induction n arbitrary: s')
  case (Suc n)
  then obtain s1 where "(own_step path fps ^^ n) s s1" "own_step path fps s1 s'" by auto
  with Suc.IH own_step_measure [of path fps s1 s'] show ?case by fastforce
qed simp

lemma own_step_possible:
  assumes inv: "main_inv s" and e: "ending s" and r: "\<nexists>r. rc_main s = RecordReturned r"
  shows "\<exists>s'. own_step path fps s s'"
proof (cases "\<exists>w. rc_writer s = Writing w \<and> rc_queue s \<noteq> []")
  case True
  then show ?thesis using own_step.Take by blast
next
  case False
  have "\<exists>s'. main_continues None s = Some s'"
  proof (cases "rc_main s")
    case AwaitingEnd
    with e inv have "rc_end s \<noteq> None" by (auto simp: ending_def main_inv_def)
    with AwaitingEnd show ?thesis by (auto simp: main_continues_def)
  next
    case (SendingFinish x y)
    with False show ?thesis by (cases "rc_writer s") (auto simp: main_continues_def frame_queue_depth_def)
  next
    case (JoiningWriter x y)
    with False inv show ?thesis by (cases "rc_writer s") (auto simp: main_continues_def main_inv_def)
  qed (use r in auto)
  then show ?thesis using own_step.Main by blast
qed

lemma own_step_ending:
  assumes "ending s" "own_step path fps s s'"
  shows "ending s'"
  using assms(2)
proof (cases rule: own_step.cases)
  case (Take w env reply)
  then obtain m q where q: "rc_queue s = m # q" by (auto simp: neq_Nil_conv)
  have "rc_main s' = rc_main s" "rc_end s \<noteq> None \<Longrightarrow> rc_end s' \<noteq> None"
    using Take q by (auto simp: writer_takes_def Let_def writer_ended_def send_end_def split: cli_message.splits sum.splits)
  with assms(1) Take(2) show ?thesis by (auto simp: ending_def)
next
  case (Main reply)
  then have "rc_main s' \<noteq> AwaitingEnd"
    by (auto simp: main_continues_def split: main_phase.splits writer_thread.splits if_splits)
  then show ?thesis by (simp add: ending_def)
qed

text \<open>
  C39: once a stop key, an interrupt, an error of the stream or the end of the writer has come, the command
  returns after at most thirteen steps of its own threads, whatever AVFoundation and the disk answer and
  however full the queue is: until then one of them can always step, so the threads never block one another.
\<close>

theorem cli_recording_ends:
  assumes "(cli_step path fps)\<^sup>*\<^sup>* (start_recording d) s" "ending s" "(own_step path fps ^^ n) s s'"
  shows "n \<le> 13 \<and> ((\<exists>r. rc_main s' = RecordReturned r) \<or> (\<exists>s''. own_step path fps s' s''))"
proof -
  have inv: "rec_inv path fps d s" by (rule reachable_rec_inv [OF assms(1)])
  then have "own_measure s \<le> 13"
    by (cases "rc_main s") (auto simp: own_measure_def rec_inv_def counted_def frame_queue_depth_def split: writer_thread.split)
  with own_steps_bounded [OF assms(3)] have "n \<le> 13" by simp
  moreover have "rec_inv path fps d s' \<and> ending s'" using assms(3)
  proof (induction n arbitrary: s')
    case 0
    with inv assms(2) show ?case by simp
  next
    case (Suc n)
    then show ?case by (auto intro: own_step_inv own_step_ending)
  qed
  ultimately show ?thesis using own_step_possible [of s' path fps] unfolding rec_inv_def by blast
qed

subsection \<open>A recording of one frame\<close>

definition plain_env :: frame_env where
  "plain_env = \<lparr>ev_setup = ready_setup, ev_parent = None, ev_dir = None, ev_remove = None,
     ev_reply = Asset_Writers.taken, ev_during = []\<rparr>"

definition plain_frame :: "nat video_frame" where
  "plain_frame = \<lparr>vf_buffer = 1, vf_width = 640, vf_height = 480\<rparr>"

definition one_written :: "(nat, nat) cli_writing" where
  "one_written = \<lparr>cw_writer = Some (fst (mp4_append 1 5000000 Asset_Writers.taken plain_writer)),
     cw_stats = \<lparr>st_appended = 1, st_drops = 0\<rparr>, cw_disk = no_files\<rparr>"

text \<open>One frame is captured and written, then the space key ends the recording.\<close>

definition one_captured :: "(nat, nat) cli_recording" where
  "one_captured = (start_recording no_files)\<lparr>rc_queue := [CliFrame plain_frame 5000000],
     rc_captured := [(plain_frame, 5000000)]\<rparr>"

definition one_received :: "(nat, nat) cli_recording" where
  "one_received = one_captured\<lparr>rc_queue := [], rc_received := [(CliFrame plain_frame 5000000, plain_env)],
     rc_writer := Writing one_written\<rparr>"

definition one_stopped :: "(nat, nat) cli_recording" where
  "one_stopped = one_received\<lparr>rc_end := Some Interrupted\<rparr>"

definition one_joining :: "(nat, nat) cli_recording" where
  "one_joining = one_received\<lparr>rc_queue := [CliFinish], rc_main := JoiningWriter Interrupted (Inr ())\<rparr>"

definition one_finished :: "(nat, nat) cli_recording" where
  "one_finished = one_received\<lparr>rc_received := [(CliFrame plain_frame 5000000, plain_env), (CliFinish, plain_env)],
     rc_writer := WriterEnded (cli_write_end finished_ok one_written), rc_main := JoiningWriter Interrupted (Inr ())\<rparr>"

lemmas one_defs = one_captured_def one_received_def one_stopped_def one_joining_def one_finished_def start_recording_def

lemma plain_append:
  "\<exists>w. mp4_append 1 5000000 Asset_Writers.taken plain_writer = (w, Inr True)"
  by (simp add: writer_eval)

lemma one_written_frame:
  "cli_write_frame ''a.mp4'' 30 plain_frame 5000000 plain_env (cli_start_writing no_files) = Inr one_written"
proof -
  obtain w where "mp4_append 1 5000000 Asset_Writers.taken plain_writer = (w, Inr True)" using plain_append by blast
  then show ?thesis
    by (simp del: result_then_Inr One_nat_def add: cli_write_frame_def cli_ensure_writer_def cli_start_writing_def
      plain_env_def plain_frame_def plain_writer_new one_written_def count_frame_def saturating_add_def width_defs)
qed

lemma one_written_end:
  "\<exists>w. cli_write_end finished_ok one_written = Inr (w, \<lparr>st_appended = 1, st_drops = 0\<rparr>)"
  by (simp add: cli_write_end_def one_written_def writer_eval mp4_finish_def mp4_end_time_def end_after_def
    finish_result_def finished_ok_def)

lemma one_reached: "(cli_step ''a.mp4'' 30)\<^sup>*\<^sup>* (start_recording no_files) one_stopped"
proof -
  have "cli_step ''a.mp4'' 30 (start_recording no_files) one_captured"
    unfolding cli_step_def outer_step_iff
    by (rule disjI2, rule disjI1) (auto simp: one_defs frame_captured_def frame_queue_depth_def intro!: exI)
  moreover have "cli_step ''a.mp4'' 30 one_captured one_received"
    unfolding cli_step_def
    using own_step.Take [of one_captured _ "''a.mp4''" 30 plain_env finished_ok] one_written_frame
    by (simp add: one_defs writer_takes_def)
  moreover have "cli_step ''a.mp4'' 30 one_received one_stopped"
    using outer_step.Interrupt [of one_received] unfolding cli_step_def by (simp add: one_defs send_end_def)
  ultimately show ?thesis by (meson converse_rtranclp_into_rtranclp rtranclp.rtrancl_refl)
qed

lemma one_returned:
  "\<exists>s :: (nat, nat) cli_recording. (cli_step ''a.mp4'' 30)\<^sup>*\<^sup>* (start_recording no_files) s
     \<and> rc_main s = RecordReturned (Inr (\<lparr>st_appended = 1, st_drops = 0\<rparr>, 0))
     \<and> rc_captured s = [(plain_frame, 5000000)]"
proof -
  let ?e = "one_received\<lparr>rc_main := SendingFinish Interrupted (Inr ())\<rparr>"
  obtain w where w: "cli_write_end finished_ok one_written = Inr (w, \<lparr>st_appended = 1, st_drops = 0\<rparr>)"
    using one_written_end by blast
  let ?r = "one_finished\<lparr>rc_main := RecordReturned (Inr (\<lparr>st_appended = 1, st_drops = 0\<rparr>, 0))\<rparr>"
  have "own_step ''a.mp4'' 30 one_stopped ?e"
    by (rule own_step.Main [where reply = "Some None"])
      (simp add: one_defs main_continues_def stop_after_def capturer_stop_def await_def completion_result_def)
  moreover have "own_step ''a.mp4'' 30 ?e one_joining"
    by (rule own_step.Main) (simp add: one_defs main_continues_def frame_queue_depth_def)
  moreover have "own_step ''a.mp4'' 30 one_joining one_finished"
    using own_step.Take [of one_joining _ "''a.mp4''" 30 plain_env finished_ok] w
    by (simp add: one_defs writer_takes_def writer_ended_def)
  moreover have "own_step ''a.mp4'' 30 one_finished ?r"
    by (rule own_step.Main) (simp add: one_defs main_continues_def record_result_def w)
  ultimately have "(cli_step ''a.mp4'' 30)\<^sup>*\<^sup>* (start_recording no_files) ?r"
    using one_reached by (meson cli_step_def rtranclp.rtrancl_into_rtrancl)
  then show ?thesis by (intro exI [of _ ?r]) (simp add: one_defs)
qed

lemma cli_recording_complete_witness:
  "\<exists>(s :: (nat, nat) cli_recording) (w :: (nat, nat) video_writer). rc_captured s = [(plain_frame, 5000000)]
     \<and> vw_finished w \<and> length (frame_times (vw_calls w)) = 1"
proof -
  obtain s :: "(nat, nat) cli_recording" where s: "(cli_step ''a.mp4'' 30)\<^sup>*\<^sup>* (start_recording no_files) s"
      "rc_main s = RecordReturned (Inr (\<lparr>st_appended = 1, st_drops = 0\<rparr>, 0))" "rc_captured s = [(plain_frame, 5000000)]"
    using one_returned by blast
  from cli_recording_complete [OF s(1,2)] obtain w :: "(nat, nat) video_writer" where
    "vw_finished w" "(1 :: nat) = min u64_max (length (frame_times (vw_calls w)))" by auto
  with s(3) show ?thesis by (intro exI [of _ s] exI [of _ w]) (simp add: min_def width_defs split: if_splits)
qed

lemma cli_recording_ends_witness: "\<exists>s. own_step ''a.mp4'' 30 one_stopped s"
proof -
  have "ending one_stopped" "\<nexists>r. rc_main one_stopped = RecordReturned r" by (simp_all add: ending_def one_defs)
  with cli_recording_ends [OF one_reached, of 0 one_stopped] show ?thesis by simp
qed

end
