(* ===== verification/Studio_Stream.thy ===== *)
theory Studio_Stream
  imports Studio_Geometry Media_Time Text_Format
begin

section \<open>Streaming the canvas (apps/blip-studio/src/rtmp.rs)\<close>

text \<open>
  The RTMP publisher of Blip Studio: a queue of two composed frames between the window and a thread that copies
  each into FFmpeg's frame, encodes it at the time since the start in a time base of 90 kHz and writes the
  encoder's packets. FFmpeg's answers come with each step, and the calls made to it are recorded.
\<close>

definition time_base :: int where "time_base = 90000"
definition stream_queue_depth :: nat where "stream_queue_depth = 2"

record rtmp_config =
  rt_url :: string
  rt_fps :: nat
  rt_bitrate :: nat

definition validate_config :: "rtmp_config \<Rightarrow> nat \<times> nat \<Rightarrow> string + unit" where
  "validate_config c dims =
     (if \<not> starts_with (rt_url c) ''rtmp://'' then Inl ''RTMP destination must start with rtmp://''
      else if fst dims = 0 \<or> snd dims = 0 \<or> \<not> is_multiple_of (fst dims) 2 \<or> \<not> is_multiple_of (snd dims) 2
      then Inl ''stream canvas dimensions must be non-zero and even''
      else if rt_fps c = 0 then Inl ''stream frame rate must be greater than zero''
      else if rt_bitrate c = 0 then Inl ''stream bitrate must be greater than zero''
      else Inr ())"

definition timestamp_pts :: "duration \<Rightarrow> string + int" where
  "timestamp_pts t =
     (case checked_signed 64 (int (as_micros t)) of
        None \<Rightarrow> Inl ''stream timestamp is too large''
      | Some micros \<Rightarrow>
          (case checked_signed 64 (micros * time_base) of
             None \<Rightarrow> Inl ''stream timestamp is too large''
           | Some v \<Rightarrow> ok_or (checked_div_signed 64 v 1000000) ''stream timestamp is too large''))"

subsection \<open>Copying a composed frame\<close>

text \<open>A pixel buffer with the statuses of locking and unlocking it, and FFmpeg's frame.\<close>

record stream_image =
  si_format :: string
  si_width :: nat
  si_height :: nat
  si_lock :: int
  si_unlock :: int
  si_stride :: nat
  si_memory :: "nat list option"

record ff_frame =
  ff_width :: nat
  ff_height :: nat
  ff_stride :: nat
  ff_data :: "nat list"

definition copy_stream_row :: "nat \<Rightarrow> nat \<Rightarrow> nat list \<Rightarrow> nat \<Rightarrow> nat \<Rightarrow> nat list \<Rightarrow> string + nat list" where
  "copy_stream_row row_bytes source_stride source destination_stride row data =
     (if length source < row * source_stride + row_bytes then Inl ''compositor frame row is out of bounds''
      else if length data < row * destination_stride + row_bytes then Inl ''FFmpeg frame row is out of bounds''
      else Inr (take (row * destination_stride) data @ take row_bytes (drop (row * source_stride) source)
        @ drop (row * destination_stride + row_bytes) data))"

fun copy_stream_rows :: "nat \<Rightarrow> nat \<Rightarrow> nat list \<Rightarrow> nat \<Rightarrow> nat list \<Rightarrow> nat list \<Rightarrow> string + nat list" where
  "copy_stream_rows rb ss source ds [] data = Inr data"
| "copy_stream_rows rb ss source ds (row # rows) data =
     and_then (copy_stream_row rb ss source ds row data) (copy_stream_rows rb ss source ds rows)"

definition copy_locked :: "stream_image \<Rightarrow> ff_frame \<Rightarrow> string + ff_frame" where
  "copy_locked i f =
     and_then (ok_or (checked_mul usize_max (si_width i) 4) ''canvas row size is too large'') (\<lambda>row_bytes.
     and_then (ok_or (checked_mul usize_max (si_stride i) (si_height i)) ''canvas buffer is too large'') (\<lambda>source_len.
     and_then (ok_or (si_memory i) ''compositor frame has no base address'') (\<lambda>memory.
     map_ok (\<lambda>data. f\<lparr>ff_data := data\<rparr>)
       (copy_stream_rows row_bytes (si_stride i) (take source_len memory) (ff_stride f) [0..<si_height i] (ff_data f)))))"

definition copy_pixel_buffer :: "stream_image \<Rightarrow> ff_frame \<Rightarrow> string + ff_frame" where
  "copy_pixel_buffer i f =
     (if si_format i \<noteq> ''BGRA'' then Inl ''compositor produced a non-BGRA frame''
      else if si_width i \<noteq> ff_width f \<or> si_height i \<noteq> ff_height f
      then Inl ''compositor frame dimensions changed while streaming''
      else if si_lock i \<noteq> 0 then Inl (''failed to lock compositor frame ('' @ show_int (si_lock i) @ '')'')
      else let result = copy_locked i f
           in if si_unlock i \<noteq> 0 then Inl (''failed to unlock compositor frame ('' @ show_int (si_unlock i) @ '')'')
              else result)"

subsection \<open>Encoding\<close>

datatype ff_call = WriteHeader | EncodeFrame int ff_frame | WritePacket int int | FlushEncoder | WriteTrailer

text \<open>The packets the encoder has, each with its time and whether it can be written, and the answer after them.\<close>

datatype drain_end = EncoderAgain | EncoderEof | EncoderFailed

record drain_answer =
  da_stream :: bool
  da_packets :: "(int \<times> bool) list"
  da_end :: drain_end

fun drain_loop :: "nat \<Rightarrow> (int \<times> bool) list \<Rightarrow> drain_end \<Rightarrow> ff_call list \<times> (string + unit)" where
  "drain_loop fps [] e = ([], if e = EncoderFailed then Inl ''failed to receive H.264 data'' else Inr ())"
| "drain_loop fps ((pts, written) # ps) e =
     (case checked_div_signed 64 time_base (int fps) of
        None \<Rightarrow> ([], Inl ''invalid stream frame rate'')
      | Some d \<Rightarrow>
          if \<not> written then ([WritePacket pts d], Inl ''failed to write video to RTMP destination'')
          else (case drain_loop fps ps e of (cs, r) \<Rightarrow> (WritePacket pts d # cs, r)))"

definition drain_packets :: "nat \<Rightarrow> drain_answer \<Rightarrow> ff_call list \<times> (string + unit)" where
  "drain_packets fps a =
     (if \<not> da_stream a then ([], Inl ''RTMP video stream disappeared'') else drain_loop fps (da_packets a) (da_end a))"

record frame_answer =
  fw_scaled :: bool
  fw_sent :: bool
  fw_drain :: drain_answer

text \<open>One turn of the loop: the frame and the calls made, and the result.\<close>

definition publish_frame ::
    "nat \<Rightarrow> duration \<Rightarrow> stream_image \<Rightarrow> frame_answer \<Rightarrow> ff_frame \<Rightarrow> ff_call list \<times> (string + ff_frame)" where
  "publish_frame fps elapsed i a f =
     (case copy_pixel_buffer i f of
        Inl e \<Rightarrow> ([], Inl e)
      | Inr f' \<Rightarrow>
          if \<not> fw_scaled a then ([], Inl ''failed to convert a stream frame to NV12'')
          else (case timestamp_pts elapsed of
             Inl e \<Rightarrow> ([], Inl e)
           | Inr pts \<Rightarrow>
               if \<not> fw_sent a then ([], Inl ''failed to send a frame to VideoToolbox'')
               else (case drain_packets fps (fw_drain a) of
                       (cs, r) \<Rightarrow> (EncodeFrame pts f' # cs, map_ok (\<lambda>u. f') r))))"

record finish_answer =
  fn_eof :: bool
  fn_drain :: drain_answer
  fn_trailer :: bool

definition finish_stream :: "nat \<Rightarrow> finish_answer \<Rightarrow> ff_call list \<times> (string + unit)" where
  "finish_stream fps a =
     (if \<not> fn_eof a then ([], Inl ''failed to flush VideoToolbox'')
      else case drain_packets fps (fn_drain a) of
        (cs, Inl e) \<Rightarrow> (FlushEncoder # cs, Inl e)
      | (cs, Inr u) \<Rightarrow>
          if fn_trailer a then (FlushEncoder # cs @ [WriteTrailer], Inr ())
          else (FlushEncoder # cs @ [WriteTrailer], Inl ''failed to finish the RTMP stream''))"

subsection \<open>Opening the stream\<close>

record encoder_settings =
  en_width :: nat
  en_height :: nat
  en_fps :: int
  en_bit_rate :: nat
  en_gop :: nat
  en_global_header :: bool

record publish_answer =
  pa_init :: bool
  pa_connected :: bool
  pa_codec :: bool
  pa_encoder :: bool
  pa_global_header :: bool
  pa_opened :: bool
  pa_stream :: bool
  pa_header :: bool
  pa_scaler :: bool
  pa_stride :: nat
  pa_data :: "nat list"

definition guard_text :: "bool \<Rightarrow> string \<Rightarrow> string + unit" where
  "guard_text b e = (if b then Inr () else Inl e)"

definition open_stream ::
    "rtmp_config \<Rightarrow> nat \<times> nat \<Rightarrow> publish_answer \<Rightarrow> string + (encoder_settings \<times> ff_frame)" where
  "open_stream c dims a =
     and_then (guard_text (pa_init a) ''failed to initialize FFmpeg'') (\<lambda>u.
     and_then (ok_or (try_from u32_max (fst dims)) ''canvas width exceeds FFmpeg limits'') (\<lambda>width.
     and_then (ok_or (try_from u32_max (snd dims)) ''canvas height exceeds FFmpeg limits'') (\<lambda>height.
     and_then (ok_or (checked_signed 32 (int (rt_fps c))) ''frame rate exceeds FFmpeg limits'') (\<lambda>fps.
     and_then (guard_text (pa_connected a) ''failed to connect to RTMP destination'') (\<lambda>u.
     and_then (guard_text (pa_codec a) ''FFmpeg does not provide h264_videotoolbox'') (\<lambda>u.
     and_then (guard_text (pa_encoder a) ''failed to create H.264 encoder'') (\<lambda>u.
     and_then (ok_or (checked_mul usize_max (rt_bitrate c) 1000) ''stream bitrate is too large'') (\<lambda>bit_rate.
     and_then (guard_text (pa_opened a) ''failed to open VideoToolbox H.264 encoder'') (\<lambda>u.
     and_then (guard_text (pa_stream a) ''failed to add the RTMP video stream'') (\<lambda>u.
     and_then (guard_text (pa_header a) ''RTMP destination rejected the stream'') (\<lambda>u.
     and_then (guard_text (pa_scaler a) ''failed to create the BGRA to NV12 converter'') (\<lambda>u.
     Inr (\<lparr>en_width = width, en_height = height, en_fps = fps, en_bit_rate = bit_rate,
            en_gop = saturating_mul u32_max (rt_fps c) 2, en_global_header = pa_global_header a\<rparr>,
          \<lparr>ff_width = width, ff_height = height, ff_stride = pa_stride a, ff_data = pa_data a\<rparr>)))))))))))))"

subsection \<open>The window's end and the publisher\<close>

datatype publisher = Opening | Publishing ff_frame | PublisherEnded "string + unit"

text \<open>
  \<open>rs_open\<close> is whether the window still holds the sender, \<open>rs_clock\<close> the time since the start, \<open>rs_failed\<close> what
  was told to the window; \<open>rs_sent\<close>, the images put into the queue, and \<open>rs_calls\<close> are for the specification.
\<close>

record rtmp_stream =
  rs_open :: bool
  rs_queue :: "stream_image list"
  rs_publisher :: publisher
  rs_clock :: duration
  rs_failed :: "(nat \<times> string) option"
  rs_sent :: "stream_image list"
  rs_calls :: "ff_call list"

definition start_stream :: "rtmp_config \<Rightarrow> nat \<times> nat \<Rightarrow> bool \<Rightarrow> string + rtmp_stream" where
  "start_stream c dims spawned =
     and_then (validate_config c dims) (\<lambda>u.
     and_then (guard_text spawned ''failed to start RTMP publisher thread'') (\<lambda>u.
     Inr \<lparr>rs_open = True, rs_queue = [], rs_publisher = Opening, rs_clock = 0, rs_failed = None, rs_sent = [],
       rs_calls = []\<rparr>))"

definition send_image :: "stream_image \<Rightarrow> rtmp_stream \<Rightarrow> rtmp_stream \<times> (string + unit)" where
  "send_image i s =
     (if \<not> rs_open s then (s, Inl ''RTMP publisher is stopping'')
      else case rs_publisher s of
        PublisherEnded r \<Rightarrow> (s, Inl ''RTMP publisher stopped'')
      | _ \<Rightarrow>
          if length (rs_queue s) < stream_queue_depth
          then (s\<lparr>rs_queue := rs_queue s @ [i], rs_sent := rs_sent s @ [i]\<rparr>, Inr ()) else (s, Inr ()))"

definition stop_stream :: "rtmp_stream \<Rightarrow> rtmp_stream" where
  "stop_stream s = s\<lparr>rs_open := False\<rparr>"

definition publisher_ends :: "nat \<Rightarrow> string + unit \<Rightarrow> rtmp_stream \<Rightarrow> rtmp_stream" where
  "publisher_ends generation r s =
     (case r of
        Inr u \<Rightarrow> s\<lparr>rs_publisher := PublisherEnded (Inr ())\<rparr>
      | Inl e \<Rightarrow> s\<lparr>rs_publisher := PublisherEnded (Inl e), rs_failed := Some (generation, e)\<rparr>)"

definition publisher_opens :: "rtmp_config \<Rightarrow> nat \<times> nat \<Rightarrow> nat \<Rightarrow> publish_answer \<Rightarrow> rtmp_stream \<Rightarrow> rtmp_stream" where
  "publisher_opens c dims generation a s =
     (case open_stream c dims a of
        Inl e \<Rightarrow> publisher_ends generation (Inl e) s
      | Inr (settings, f) \<Rightarrow> s\<lparr>rs_publisher := Publishing f, rs_calls := rs_calls s @ [WriteHeader]\<rparr>)"

definition publisher_takes :: "rtmp_config \<Rightarrow> nat \<Rightarrow> frame_answer \<Rightarrow> ff_frame \<Rightarrow> rtmp_stream \<Rightarrow> rtmp_stream" where
  "publisher_takes c generation a f s =
     (case rs_queue s of
        [] \<Rightarrow> s
      | i # q \<Rightarrow>
          (case publish_frame (rt_fps c) (rs_clock s) i a f of
             (cs, r) \<Rightarrow>
               (let s' = s\<lparr>rs_queue := q, rs_calls := rs_calls s @ cs\<rparr>
                in case r of
                     Inl e \<Rightarrow> publisher_ends generation (Inl e) s'
                   | Inr f' \<Rightarrow> s'\<lparr>rs_publisher := Publishing f'\<rparr>)))"

definition publisher_finishes :: "rtmp_config \<Rightarrow> nat \<Rightarrow> finish_answer \<Rightarrow> rtmp_stream \<Rightarrow> rtmp_stream" where
  "publisher_finishes c generation a s =
     (case finish_stream (rt_fps c) a of
        (cs, r) \<Rightarrow> publisher_ends generation r (s\<lparr>rs_calls := rs_calls s @ cs\<rparr>))"

text \<open>FFmpeg allocates its frame with rows that hold the picture's width.\<close>

definition frame_allocated :: "nat \<times> nat \<Rightarrow> publish_answer \<Rightarrow> bool" where
  "frame_allocated dims a \<longleftrightarrow> 4 * fst dims \<le> pa_stride a"

inductive stream_step :: "rtmp_config \<Rightarrow> nat \<times> nat \<Rightarrow> nat \<Rightarrow> rtmp_stream \<Rightarrow> rtmp_stream \<Rightarrow> bool" for c dims g where
  Sent: "stream_step c dims g s (fst (send_image i s))"
| Stopped: "stream_step c dims g s (stop_stream s)"
| Ticked: "rs_publisher s = Publishing f \<Longrightarrow> rs_clock s \<le> t \<Longrightarrow> stream_step c dims g s (s\<lparr>rs_clock := t\<rparr>)"
| Opened: "rs_publisher s = Opening \<Longrightarrow> frame_allocated dims a \<Longrightarrow> stream_step c dims g s (publisher_opens c dims g a s)"
| Took: "rs_publisher s = Publishing f \<Longrightarrow> rs_queue s \<noteq> [] \<Longrightarrow> stream_step c dims g s (publisher_takes c g a' f s)"
| Finished: "rs_publisher s = Publishing f \<Longrightarrow> rs_queue s = [] \<Longrightarrow> \<not> rs_open s \<Longrightarrow>
    stream_step c dims g s (publisher_finishes c g b s)"

inductive_simps stream_step_iff: "stream_step c dims g s s'"
subsection \<open>What is published\<close>

text \<open>The picture in FFmpeg's frame is the image's, row by row.\<close>

definition shows_image :: "stream_image \<Rightarrow> ff_frame \<Rightarrow> bool" where
  "shows_image i f \<longleftrightarrow> si_width i = ff_width f \<and> si_height i = ff_height f
     \<and> (\<exists>memory. si_memory i = Some memory \<and> (\<forall>row < si_height i.
          take (4 * si_width i) (drop (row * ff_stride f) (ff_data f))
          = take (4 * si_width i) (drop (row * si_stride i) (take (si_stride i * si_height i) memory))))"

lemma copy_stream_row_ok:
  assumes "copy_stream_row rb ss source ds row data = Inr data'" "rb \<le> ds"
  shows "length data' = length data" "take (row * ds) data' = take (row * ds) data"
    "take rb (drop (row * ds) data') = take rb (drop (row * ss) source)"
proof -
  from assms(1) have l: "row * ss + rb \<le> length source" "row * ds + rb \<le> length data"
    and d: "data' = take (row * ds) data @ take rb (drop (row * ss) source) @ drop (row * ds + rb) data"
    by (auto simp: copy_stream_row_def split: if_splits)
  from l d show "length data' = length data" by simp
  from l d show "take (row * ds) data' = take (row * ds) data" by simp
  from l d show "take rb (drop (row * ds) data') = take rb (drop (row * ss) source)" by simp
qed

lemma copy_stream_rows_ok:
  assumes "copy_stream_rows rb ss source ds [k..<h] data = Inr data'" "rb \<le> ds"
  shows "length data' = length data \<and> take (k * ds) data' = take (k * ds) data
    \<and> (\<forall>row. k \<le> row \<and> row < h \<longrightarrow> take rb (drop (row * ds) data') = take rb (drop (row * ss) source))"
  using assms(1)
proof (induction "h - k" arbitrary: k data)
  case 0
  then show ?case by simp
next
  case (Suc n)
  then have r: "[k..<h] = k # [Suc k..<h]" by (simp add: upt_conv_Cons)
  with Suc.prems obtain d1 where d1: "copy_stream_row rb ss source ds k data = Inr d1"
      "copy_stream_rows rb ss source ds [Suc k..<h] d1 = Inr data'" by auto
  note row = copy_stream_row_ok [OF d1(1) assms(2)]
  have ih: "length data' = length d1" "take (Suc k * ds) data' = take (Suc k * ds) d1"
    "\<And>row. Suc k \<le> row \<Longrightarrow> row < h \<Longrightarrow> take rb (drop (row * ds) data') = take rb (drop (row * ss) source)"
    using Suc.hyps(1) [OF _ d1(2)] Suc.hyps(2) by auto
  have part: "take (k * ds) xs = take (k * ds) (take (Suc k * ds) xs)" for xs :: "nat list" by (simp add: min_def)
  have "take (k * ds) data' = take (k * ds) data"
    unfolding part [of data'] ih(2) part [of d1, symmetric] by (rule row(2))
  moreover have "take rb (drop (k * ds) data') = take rb (drop (k * ss) source)"
  proof -
    have cut: "take rb (drop (k * ds) xs) = take rb (drop (k * ds) (take (Suc k * ds) xs))" for xs :: "nat list"
      using assms(2) by (simp add: drop_take min_def)
    show ?thesis unfolding cut [of data'] ih(2) cut [of d1, symmetric] by (rule row(3))
  qed
  moreover have "take rb (drop (r * ds) data') = take rb (drop (r * ss) source)" if "k < r" "r < h" for r
    using ih(3) that by simp
  ultimately show ?case using ih(1) row(1) by (auto simp: le_less)
qed

lemma copy_pixel_buffer_ok:
  assumes "copy_pixel_buffer i f = Inr f'" "4 * ff_width f \<le> ff_stride f"
  shows "shows_image i f'" "ff_width f' = ff_width f" "ff_stride f' = ff_stride f"
proof -
  from assms(1) obtain memory data where c: "si_width i = ff_width f" "si_height i = ff_height f" "si_memory i = Some memory"
      "copy_stream_rows (si_width i * 4) (si_stride i) (take (si_stride i * si_height i) memory) (ff_stride f)
         [0..<si_height i] (ff_data f) = Inr data" and f': "f' = f\<lparr>ff_data := data\<rparr>"
    by (auto simp: copy_pixel_buffer_def copy_locked_def checked_mul_def Let_def split: if_splits)
  from copy_stream_rows_ok [OF c(4)] assms(2) c(1) have
    "\<forall>row < si_height i. take (si_width i * 4) (drop (row * ff_stride f) data)
      = take (si_width i * 4) (drop (row * si_stride i) (take (si_stride i * si_height i) memory))" by simp
  with c(1-3) f' show "shows_image i f'" by (simp add: shows_image_def mult.commute)
  from f' show "ff_width f' = ff_width f" "ff_stride f' = ff_stride f" by simp_all
qed

text \<open>The frames given to the encoder, with their times.\<close>

fun encoded :: "ff_call list \<Rightarrow> (int \<times> ff_frame) list" where
  "encoded [] = []"
| "encoded (EncodeFrame pts f # cs) = (pts, f) # encoded cs"
| "encoded (_ # cs) = encoded cs"

lemma encoded_append [simp]: "encoded (cs @ ds) = encoded cs @ encoded ds"
  by (induction cs rule: encoded.induct) simp_all

lemma encoded_drain [simp]: "drain_loop fps ps e = (cs, r) \<Longrightarrow> encoded cs = []"
  by (induction fps ps e arbitrary: cs r rule: drain_loop.induct) (auto split: if_splits option.splits prod.splits)

lemma encoded_drain_packets: "drain_packets fps a = (cs, r) \<Longrightarrow> encoded cs = []"
  by (auto simp: drain_packets_def split: if_splits)

lemma publish_frame_cases:
  assumes "publish_frame fps t i a f = (cs, r)" "4 * ff_width f \<le> ff_stride f"
  obtains (Lost) e where "r = Inl e" "encoded cs = []"
  | (Encoded) f' pts where "encoded cs = [(pts, f')]" "timestamp_pts t = Inr pts" "shows_image i f'"
      "\<And>f''. r = Inr f'' \<Longrightarrow> f'' = f'" "ff_width f' = ff_width f" "ff_stride f' = ff_stride f"
proof (cases "copy_pixel_buffer i f")
  case (Inl e)
  with assms(1) show ?thesis by (intro Lost [of e]) (auto simp: publish_frame_def)
next
  case (Inr f')
  note ok = copy_pixel_buffer_ok [OF this assms(2)]
  show ?thesis
  proof (cases "fw_scaled a \<and> fw_sent a \<and> (\<exists>pts. timestamp_pts t = Inr pts)")
    case True
    then obtain pts where pts: "timestamp_pts t = Inr pts" by blast
    obtain ds u where d: "drain_packets fps (fw_drain a) = (ds, u)" by (metis surj_pair)
    show ?thesis
    proof (rule Encoded [OF _ pts ok(1) _ ok(2,3)])
      show "encoded cs = [(pts, f')]"
        using assms(1) Inr True pts d encoded_drain_packets [OF d] by (auto simp: publish_frame_def)
      show "f'' = f'" if "r = Inr f''" for f'' using that assms(1) Inr True pts d by (auto simp: publish_frame_def)
    qed
  next
    case False
    then have "\<exists>e. r = Inl e \<and> encoded cs = []"
      using assms(1) Inr by (auto simp: publish_frame_def split: if_splits sum.splits)
    with Lost show ?thesis by blast
  qed
qed

text \<open>Times do not go back.\<close>

definition clock_pts :: "duration \<Rightarrow> int" where
  "clock_pts t = int (as_micros t) * 90000 div 1000000"

lemma clock_pts_mono: "t \<le> u \<Longrightarrow> clock_pts t \<le> clock_pts u"
  by (auto simp: clock_pts_def as_micros_def intro!: zdiv_mono1 div_le_mono)

lemma timestamp_pts_clock: "timestamp_pts t = Inr pts \<Longrightarrow> pts = clock_pts t"
  by (auto simp: timestamp_pts_def time_base_def clock_pts_def checked_signed_def checked_div_signed_def trunc_div_nonneg
    split: option.splits if_splits)
text \<open>
  The images sent are those encoded, at most one that was lost by the failure that ended the publisher, and
  those still queued.
\<close>

definition published :: "rtmp_stream \<Rightarrow> stream_image list \<Rightarrow> stream_image list \<Rightarrow> bool" where
  "published s done lost \<longleftrightarrow> rs_sent s = done @ lost @ rs_queue s
     \<and> list_all2 (\<lambda>i (pts, f). shows_image i f) done (encoded (rs_calls s))
     \<and> sorted (map fst (encoded (rs_calls s)))
     \<and> (\<forall>pts \<in> set (map fst (encoded (rs_calls s))). pts \<le> clock_pts (rs_clock s))"

definition publisher_inv :: "rtmp_stream \<Rightarrow> stream_image list \<Rightarrow> bool" where
  "publisher_inv s lost \<longleftrightarrow>
     (case rs_publisher s of
        Opening \<Rightarrow> lost = [] \<and> rs_calls s = []
      | Publishing f \<Rightarrow> lost = [] \<and> 4 * ff_width f \<le> ff_stride f
      | PublisherEnded (Inl e) \<Rightarrow> rs_failed s \<noteq> None \<and> length lost \<le> 1
      | PublisherEnded (Inr u) \<Rightarrow> lost = [] \<and> rs_queue s = [] \<and> \<not> rs_open s \<and> rs_calls s \<noteq> []
          \<and> last (rs_calls s) = WriteTrailer)"

definition stream_inv :: "rtmp_stream \<Rightarrow> bool" where
  "stream_inv s \<longleftrightarrow> (\<exists>done lost. published s done lost \<and> publisher_inv s lost)"

lemma publisher_ends_simps [simp]:
  "rs_sent (publisher_ends g r s) = rs_sent s" "rs_queue (publisher_ends g r s) = rs_queue s"
  "rs_calls (publisher_ends g r s) = rs_calls s" "rs_clock (publisher_ends g r s) = rs_clock s"
  "rs_open (publisher_ends g r s) = rs_open s" "rs_publisher (publisher_ends g r s) = PublisherEnded r"
  by (auto simp: publisher_ends_def split: sum.splits)

lemma send_image_inv:
  assumes "stream_inv s"
  shows "stream_inv (fst (send_image i s))"
proof (cases "fst (send_image i s) = s")
  case True
  with assms show ?thesis by simp
next
  case False
  then have s': "fst (send_image i s) = s\<lparr>rs_queue := rs_queue s @ [i], rs_sent := rs_sent s @ [i]\<rparr>"
    and p: "\<forall>r. rs_publisher s \<noteq> PublisherEnded r"
    by (auto simp: send_image_def split: if_splits publisher.splits)
  from assms obtain done' lost where d: "published s done' lost" "publisher_inv s lost" unfolding stream_inv_def by blast
  then have "published (fst (send_image i s)) done' lost" unfolding s' by (simp add: published_def)
  moreover have "publisher_inv (fst (send_image i s)) lost"
    using d(2) p unfolding s' by (cases "rs_publisher s") (simp_all add: publisher_inv_def)
  ultimately show ?thesis unfolding stream_inv_def by blast
qed

lemma publisher_opens_inv:
  assumes "stream_inv s" "rs_publisher s = Opening" "frame_allocated dims a"
  shows "stream_inv (publisher_opens c dims g a s)"
proof -
  from assms(1,2) have p: "published s [] []" by (auto simp: stream_inv_def publisher_inv_def published_def)
  show ?thesis
  proof (cases "open_stream c dims a")
    case (Inl e)
    have "published (publisher_ends g (Inl e) s) [] []" using p by (simp add: published_def)
    then show ?thesis unfolding stream_inv_def publisher_inv_def publisher_opens_def Inl
      by (intro exI [of _ "[]"]) (simp add: publisher_ends_def)
  next
    case (Inr x)
    then obtain en f where x: "x = (en, f)" "ff_width f = fst dims" "ff_stride f = pa_stride a"
      by (auto simp: open_stream_def try_from_def split: if_splits)
    have "published (s\<lparr>rs_publisher := Publishing f, rs_calls := rs_calls s @ [WriteHeader]\<rparr>) [] []"
      using p by (simp add: published_def)
    then show ?thesis unfolding stream_inv_def publisher_inv_def publisher_opens_def Inr
      using x assms(3) by (intro exI [of _ "[]"]) (simp add: frame_allocated_def)
  qed
qed

lemma publisher_takes_inv:
  assumes inv: "stream_inv s" and p: "rs_publisher s = Publishing f" and q: "rs_queue s = i # q"
  shows "stream_inv (publisher_takes c g a f s)"
proof -
  from inv p obtain done' where d: "published s done' []" and f: "4 * ff_width f \<le> ff_stride f"
    by (auto simp: stream_inv_def publisher_inv_def)
  obtain cs r where r: "publish_frame (rt_fps c) (rs_clock s) i a f = (cs, r)" by (metis surj_pair)
  let ?s = "s\<lparr>rs_queue := q, rs_calls := rs_calls s @ cs\<rparr>"
  show ?thesis using r f
  proof (cases rule: publish_frame_cases)
    case (Lost e)
    then have "published (publisher_ends g (Inl e) ?s) done' [i]" using d q by (simp add: published_def)
    with r q Lost show ?thesis unfolding stream_inv_def publisher_inv_def
      by (intro exI [of _ done'] exI [of _ "[i]"]) (simp add: publisher_takes_def publisher_ends_def)
  next
    case (Encoded f' pts)
    have sent: "published ?s (done' @ [i]) []"
      using d q Encoded timestamp_pts_clock [OF Encoded(2)]
      by (auto simp: published_def sorted_append intro: list_all2_appendI)
    show ?thesis
    proof (cases r)
      case (Inl e)
      have "published (publisher_ends g (Inl e) ?s) (done' @ [i]) []" using sent by (simp add: published_def)
      with r q Inl show ?thesis unfolding stream_inv_def publisher_inv_def
        by (intro exI [of _ "done' @ [i]"] exI [of _ "[]"]) (simp add: publisher_takes_def publisher_ends_def)
    next
      case (Inr f'')
      have "published (?s\<lparr>rs_publisher := Publishing f''\<rparr>) (done' @ [i]) []" using sent by (simp add: published_def)
      with r q Inr Encoded f show ?thesis unfolding stream_inv_def publisher_inv_def
        by (intro exI [of _ "done' @ [i]"] exI [of _ "[]"]) (simp add: publisher_takes_def)
    qed
  qed
qed

lemma finish_stream_calls:
  assumes "finish_stream fps a = (cs, r)"
  shows "encoded cs = []" "r = Inr u \<Longrightarrow> cs \<noteq> [] \<and> last cs = WriteTrailer"
proof -
  obtain ds x where "drain_packets fps (fn_drain a) = (ds, x)" by (metis surj_pair)
  with assms encoded_drain_packets [OF this] show "encoded cs = []"
    by (auto simp: finish_stream_def split: if_splits sum.splits)
  show "r = Inr u \<Longrightarrow> cs \<noteq> [] \<and> last cs = WriteTrailer"
    using assms by (auto simp: finish_stream_def split: if_splits sum.splits prod.splits)
qed

lemma publisher_finishes_inv:
  assumes inv: "stream_inv s" and p: "rs_publisher s = Publishing f" "rs_queue s = []" "\<not> rs_open s"
  shows "stream_inv (publisher_finishes c g a s)"
proof -
  from inv p obtain done' where d: "published s done' []" by (auto simp: stream_inv_def publisher_inv_def)
  obtain cs r where r: "finish_stream (rt_fps c) a = (cs, r)" by (metis surj_pair)
  note calls = finish_stream_calls [OF r]
  have "published (publisher_ends g r (s\<lparr>rs_calls := rs_calls s @ cs\<rparr>)) done' []"
    using d calls(1) by (simp add: published_def)
  then show ?thesis unfolding stream_inv_def publisher_inv_def publisher_finishes_def r
    using calls(2) p by (intro exI [of _ done'] exI [of _ "[]"]) (cases r; simp add: publisher_ends_def)
qed

lemma stream_step_inv:
  assumes "stream_inv s" "stream_step c dims g s s'"
  shows "stream_inv s'"
  using assms(2)
proof (cases rule: stream_step.cases)
  case (Sent i)
  with assms(1) send_image_inv show ?thesis by simp
next
  case Stopped
  from assms(1) obtain d l where "published s d l" "publisher_inv s l" unfolding stream_inv_def by blast
  then have "published (stop_stream s) d l" "publisher_inv (stop_stream s) l"
    by (auto simp: stop_stream_def published_def publisher_inv_def split: publisher.splits sum.splits)
  then show ?thesis unfolding stream_inv_def Stopped by blast
next
  case (Ticked f t)
  from assms(1) Ticked(2) obtain d where d: "published s d []" "4 * ff_width f \<le> ff_stride f"
    by (auto simp: stream_inv_def publisher_inv_def)
  then have "published (s\<lparr>rs_clock := t\<rparr>) d []"
    using clock_pts_mono [OF Ticked(3)] by (auto simp: published_def intro: order_trans)
  with d(2) Ticked(1,2) show ?thesis unfolding stream_inv_def publisher_inv_def by (intro exI [of _ d] exI [of _ "[]"]) simp
next
  case (Opened a)
  with assms(1) publisher_opens_inv show ?thesis by simp
next
  case (Took f a)
  with assms(1) publisher_takes_inv show ?thesis by (auto simp: neq_Nil_conv)
next
  case (Finished f a)
  with assms(1) publisher_finishes_inv show ?thesis by simp
qed

interpretation stream_machine: state_machine "stream_step c dims g" stream_inv
  by unfold_locales (rule stream_step_inv)
text \<open>
  C21: at every moment of a stream the images put into the queue are, in order, those given to the encoder, each
  with its own picture row by row, then at most one lost by a failure, then those waiting; their times in the
  stream never go back. A stream that has ended without an error was stopped by the window, has encoded every
  image it accepted, and its last call wrote the trailer; one that failed has told the window.
\<close>

theorem stream_publishes_in_order:
  assumes "start_stream c dims True = Inr s0" "(stream_step c dims g)\<^sup>*\<^sup>* s0 s"
  shows "\<exists>done lost. rs_sent s = done @ lost @ rs_queue s \<and> length lost \<le> 1
    \<and> list_all2 (\<lambda>i (pts, f). shows_image i f) done (encoded (rs_calls s))
    \<and> sorted (map fst (encoded (rs_calls s)))
    \<and> (rs_publisher s = PublisherEnded (Inr ()) \<longrightarrow> done = rs_sent s \<and> \<not> rs_open s \<and> last (rs_calls s) = WriteTrailer)
    \<and> (\<forall>e. rs_publisher s = PublisherEnded (Inl e) \<longrightarrow> rs_failed s \<noteq> None)"
proof -
  have "published s0 [] []" "publisher_inv s0 []"
    using assms(1) by (auto simp: start_stream_def published_def publisher_inv_def)
  then have "stream_inv s0" unfolding stream_inv_def by blast
  from stream_machine.reachable_inv [OF assms(2) this] obtain d l where
    d: "published s d l" "publisher_inv s l" unfolding stream_inv_def by blast
  then show ?thesis
    by (intro exI [of _ d] exI [of _ l]) (auto simp: published_def publisher_inv_def split: publisher.splits sum.splits)
qed

subsection \<open>What the window starts\<close>

text \<open>The window starts a stream of the content's dimensions made even: they are refused only when one vanishes.\<close>

lemma viewer_dimensions_accepted:
  assumes "starts_with (rt_url c) ''rtmp://''" "0 < rt_fps c" "0 < rt_bitrate c" "2 \<le> fst content" "2 \<le> snd content"
  shows "validate_config c (even_dimensions content) = Inr ()"
  using assms by (auto simp: validate_config_def even_dimensions_def is_multiple_of_def)

definition small_config :: rtmp_config where
  "small_config = \<lparr>rt_url = ''rtmp://host/key'', rt_fps = 60, rt_bitrate = 6000\<rparr>"

definition small_image :: "nat \<Rightarrow> stream_image" where
  "small_image w = \<lparr>si_format = ''BGRA'', si_width = w, si_height = 2, si_lock = 0, si_unlock = 0, si_stride = 16,
     si_memory = Some (replicate 32 7)\<rparr>"

definition good_publish :: publish_answer where
  "good_publish = \<lparr>pa_init = True, pa_connected = True, pa_codec = True, pa_encoder = True, pa_global_header = True,
     pa_opened = True, pa_stream = True, pa_header = True, pa_scaler = True, pa_stride = 8, pa_data = replicate 16 0\<rparr>"

definition no_packets :: drain_answer where
  "no_packets = \<lparr>da_stream = True, da_packets = [], da_end = EncoderAgain\<rparr>"

definition small_stream :: rtmp_stream where
  "small_stream = \<lparr>rs_open = True, rs_queue = [], rs_publisher = Opening, rs_clock = 0, rs_failed = None, rs_sent = [],
     rs_calls = []\<rparr>"

lemma small_start: "start_stream small_config (2, 2) True = Inr small_stream"
  by (simp add: start_stream_def small_config_def validate_config_def guard_text_def small_stream_def is_multiple_of_def)

definition small_frame :: ff_frame where
  "small_frame = \<lparr>ff_width = 2, ff_height = 2, ff_stride = 8, ff_data = replicate 16 0\<rparr>"

definition small_opened :: "nat \<Rightarrow> rtmp_stream" where
  "small_opened w = small_stream\<lparr>rs_sent := [small_image w], rs_queue := [small_image w], rs_publisher := Publishing small_frame,
     rs_calls := [WriteHeader]\<rparr>"

lemma small_open: "(stream_step small_config (2, 2) g)\<^sup>*\<^sup>* small_stream (small_opened w)"
proof -
  let ?s = "fst (send_image (small_image w) small_stream)"
  have "stream_step small_config (2, 2) g small_stream ?s" by (rule stream_step.Sent)
  moreover have "stream_step small_config (2, 2) g ?s (small_opened w)"
    using stream_step.Opened [of ?s "(2, 2)" good_publish small_config g]
    by (simp add: send_image_def small_stream_def stream_queue_depth_def frame_allocated_def good_publish_def
      publisher_opens_def open_stream_def guard_text_def try_from_def width_defs checked_signed_def in_signed_def
      checked_mul_def small_config_def small_opened_def small_frame_def)
  ultimately show ?thesis by (meson converse_rtranclp_into_rtranclp rtranclp.rtrancl_refl)
qed

definition good_frame :: frame_answer where
  "good_frame = \<lparr>fw_scaled = True, fw_sent = True, fw_drain = no_packets\<rparr>"

definition small_copied :: ff_frame where
  "small_copied = small_frame\<lparr>ff_data := replicate 16 7\<rparr>"

lemma small_copy: "copy_pixel_buffer (small_image 2) small_frame = Inr small_copied"
proof -
  have [simp]: "[0..<2] = [0 :: nat, 1]" by (simp add: numeral_2_eq_2)
  show ?thesis
    by (simp add: copy_pixel_buffer_def copy_locked_def small_image_def small_frame_def small_copied_def checked_mul_def
      width_defs copy_stream_row_def replicate_add [symmetric] del: replicate_add)
qed

lemma small_publish: "publish_frame 60 5000000 (small_image 2) good_frame small_frame
    = ([EncodeFrame 450 small_copied], Inr small_copied)"
  by (simp add: publish_frame_def small_copy good_frame_def no_packets_def drain_packets_def timestamp_pts_def
    time_base_def as_micros_def checked_signed_def in_signed_def checked_div_signed_def trunc_div_def)

lemma small_finish: "finish_stream 60 \<lparr>fn_eof = True, fn_drain = no_packets, fn_trailer = True\<rparr>
    = ([FlushEncoder, WriteTrailer], Inr ())"
  by (simp add: finish_stream_def drain_packets_def no_packets_def)

definition small_ended :: rtmp_stream where
  "small_ended = (small_opened 2)\<lparr>rs_open := False, rs_clock := 5000000, rs_queue := [],
     rs_publisher := PublisherEnded (Inr ()),
     rs_calls := [WriteHeader, EncodeFrame 450 small_copied, FlushEncoder, WriteTrailer]\<rparr>"

lemma small_run: "(stream_step small_config (2, 2) g)\<^sup>*\<^sup>* small_stream small_ended"
proof -
  let ?step = "stream_step small_config (2, 2) g"
  let ?t = "(small_opened 2)\<lparr>rs_clock := 5000000\<rparr>" and ?n = "\<lparr>fn_eof = True, fn_drain = no_packets, fn_trailer = True\<rparr>"
  let ?u = "?t\<lparr>rs_queue := [], rs_publisher := Publishing small_copied,
    rs_calls := [WriteHeader, EncodeFrame 450 small_copied]\<rparr>"
  have fps: "rt_fps small_config = 60" by (simp add: small_config_def)
  have "?step (small_opened 2) ?t"
    by (rule stream_step.Ticked [where f = small_frame]) (simp_all add: small_opened_def small_stream_def)
  moreover have "?step ?t ?u"
    using stream_step.Took [of ?t small_frame small_config "(2, 2)" g good_frame] small_publish
    by (simp add: small_opened_def publisher_takes_def fps small_stream_def)
  moreover have "?step ?u (stop_stream ?u)" by (rule stream_step.Stopped)
  moreover have "?step (stop_stream ?u) small_ended"
    using stream_step.Finished [of "stop_stream ?u" small_copied small_config "(2, 2)" g ?n] small_finish
    by (simp add: stop_stream_def small_opened_def publisher_finishes_def fps publisher_ends_def small_ended_def
      small_stream_def)
  ultimately show ?thesis using small_open [where w = 2 and g = g] by (meson rtranclp.rtrancl_into_rtrancl)
qed

lemma stream_publishes_in_order_witness:
  "\<exists>i pts f. rs_sent small_ended = [i] \<and> encoded (rs_calls small_ended) = [(pts, f)] \<and> shows_image i f"
proof -
  have "rs_publisher small_ended = PublisherEnded (Inr ())" "rs_sent small_ended = [small_image 2]"
    by (simp_all add: small_ended_def small_opened_def)
  with stream_publishes_in_order [OF small_start small_run] show ?thesis
    by (auto simp: list_all2_Cons1)
qed

text \<open>
  A stream of content with an odd side: the picture composed before the canvas was locked is still sent, does
  not have the stream's dimensions, and ends the publisher.
\<close>

lemma odd_content_fails:
  "even_dimensions (3, 2) = (2, 2)
   \<and> (stream_step small_config (2, 2) g)\<^sup>*\<^sup>* small_stream (publisher_takes small_config g a small_frame (small_opened 3))
   \<and> rs_publisher (publisher_takes small_config g a small_frame (small_opened 3))
       = PublisherEnded (Inl ''compositor frame dimensions changed while streaming'')"
proof -
  let ?s = "publisher_takes small_config g a small_frame (small_opened 3)"
  have "stream_step small_config (2, 2) g (small_opened 3) ?s"
    by (rule stream_step.Took) (simp_all add: small_opened_def)
  with small_open [where w = 3 and g = g] have "(stream_step small_config (2, 2) g)\<^sup>*\<^sup>* small_stream ?s" by simp
  moreover have "rs_publisher ?s = PublisherEnded (Inl ''compositor frame dimensions changed while streaming'')"
    by (simp add: publisher_takes_def small_opened_def publish_frame_def copy_pixel_buffer_def small_image_def
      small_frame_def publisher_ends_def)
  ultimately show ?thesis by (simp add: even_dimensions_def)
qed

end
