(* ===== verification/Studio_Headless.thy ===== *)
theory Studio_Headless
  imports Compositor Media_Time Text_Format
begin

section \<open>Blip Studio without a window (apps/blip-studio/src/headless.rs)\<close>

text \<open>
  A run that composes the cameras of a scene graph for a number of seconds and measures itself: reading and
  validating the graph, choosing the cameras, the map of latest frames the capture callbacks fill and the
  pipeline drains, composing, and the metrics. Times are durations since the start. Serde, AVFoundation and the
  compositor's rendering are answered by arguments; the sources of a graph are a list in the order its map is
  iterated.
\<close>

subsection \<open>The scene graph\<close>

datatype source_definition = CameraDefinition "string option" "string option" | ColorDefinition rgb

record element_definition =
  ed_source :: string
  ed_center :: pos
  ed_size :: pos
  ed_corner_radius :: real

record scene_graph =
  sg_canvas :: "nat \<times> nat"
  sg_sources :: "(string \<times> source_definition) list"
  sg_elements :: "element_definition list"

definition default_canvas :: "nat \<times> nat" where "default_canvas = (1920, 1080)"
definition default_center :: pos where "default_center = (1/2, 1/2)"
definition default_size :: pos where "default_size = (1, 1)"

text \<open>An element as written, with the defaults for what is left out.\<close>

record element_document =
  ec_source :: string
  ec_center :: "pos option"
  ec_size :: "pos option"
  ec_corner_radius :: "real option"

record scene_document =
  sd_canvas :: "(nat \<times> nat) option"
  sd_sources :: "(string \<times> source_definition) list"
  sd_elements :: "element_document list"

definition element_of_document :: "element_document \<Rightarrow> element_definition" where
  "element_of_document e =
     \<lparr>ed_source = ec_source e, ed_center = unwrap_or (ec_center e) default_center,
      ed_size = unwrap_or (ec_size e) default_size, ed_corner_radius = unwrap_or (ec_corner_radius e) 0\<rparr>"

definition graph_of_document :: "scene_document \<Rightarrow> scene_graph" where
  "graph_of_document d = \<lparr>sg_canvas = unwrap_or (sd_canvas d) default_canvas, sg_sources = sd_sources d,
     sg_elements = map element_of_document (sd_elements d)\<rparr>"

text \<open>\<open>contents\<close> is the file read, \<open>parse\<close> what serde makes of it.\<close>

definition load_scene :: "string \<Rightarrow> string option \<Rightarrow> (string \<Rightarrow> scene_document option) \<Rightarrow> string + scene_graph" where
  "load_scene path contents parse =
     and_then (ok_or contents (''failed to read scene '' @ path)) (\<lambda>text.
     and_then (ok_or (parse text) (''failed to parse scene '' @ path)) (\<lambda>d. Inr (graph_of_document d)))"

definition graph_source :: "scene_graph \<Rightarrow> string \<Rightarrow> source_definition option" where
  "graph_source g source = map_of (sg_sources g) source"

fun validate_elements :: "scene_graph \<Rightarrow> element_definition list \<Rightarrow> string + unit" where
  "validate_elements g [] = Inr ()"
| "validate_elements g (e # es) =
     (if graph_source g (ed_source e) = None then Inl (''scene element references unknown source '' @ ed_source e)
      else if fst (ed_size e) \<le> 0 \<or> snd (ed_size e) \<le> 0 then Inl ''scene element sizes must be positive''
      else validate_elements g es)"

definition validate_scene :: "scene_graph \<Rightarrow> string + unit" where
  "validate_scene g =
     (if fst (sg_canvas g) = 0 \<or> snd (sg_canvas g) = 0 then Inl ''canvas dimensions must be non-zero''
      else validate_elements g (sg_elements g))"

subsection \<open>Cameras\<close>

record video_device =
  vd_unique_id :: string
  vd_name :: string

fun join_names :: "string list \<Rightarrow> string" where
  "join_names [] = []"
| "join_names [n] = n"
| "join_names (n # ns) = n @ '', '' @ join_names ns"

definition camera_matches :: "string option \<Rightarrow> string option \<Rightarrow> video_device \<Rightarrow> bool" where
  "camera_matches name unique_id d \<longleftrightarrow>
     (case unique_id of None \<Rightarrow> True | Some i \<Rightarrow> vd_unique_id d = i)
     \<and> (case name of None \<Rightarrow> True | Some n \<Rightarrow> contains (vd_name d) n)"

definition select_camera :: "video_device list \<Rightarrow> string option \<Rightarrow> string option \<Rightarrow> string + video_device" where
  "select_camera devices name unique_id =
     ok_or (find (camera_matches name unique_id) devices)
       (''requested camera is unavailable; available cameras: '' @ join_names (map vd_name devices))"

text \<open>\<open>create\<close> and \<open>begin\<close> are the errors of making and starting the capture of a source.\<close>

record camera_answers =
  cn_create :: "string \<Rightarrow> string option"
  cn_begin :: "string \<Rightarrow> string option"

definition fails_with :: "string option \<Rightarrow> string + unit" where
  "fails_with e = (case e of None \<Rightarrow> Inr () | Some m \<Rightarrow> Inl m)"

fun start_cameras ::
    "video_device list \<Rightarrow> camera_answers \<Rightarrow> (string \<times> source_definition) list \<Rightarrow> string + (string \<times> video_device) list" where
  "start_cameras devices a [] = Inr []"
| "start_cameras devices a ((i, ColorDefinition c) # ss) = start_cameras devices a ss"
| "start_cameras devices a ((i, CameraDefinition name unique_id) # ss) =
     and_then (select_camera devices name unique_id) (\<lambda>d.
     and_then (fails_with (cn_create a i)) (\<lambda>u.
     and_then (fails_with (cn_begin a i)) (\<lambda>u.
     map_ok (\<lambda>rest. (i, d) # rest) (start_cameras devices a ss))))"

definition start_headless ::
    "string option \<Rightarrow> (string \<Rightarrow> string option) \<Rightarrow> (string \<Rightarrow> scene_document option) \<Rightarrow> string + video_device list \<Rightarrow>
     camera_answers \<Rightarrow> string + (scene_graph \<times> (string \<times> video_device) list)" where
  "start_headless scene files parse devices a =
     and_then (ok_or scene ''--scene is required with --headless'') (\<lambda>path.
     and_then (load_scene path (files path) parse) (\<lambda>g.
     and_then (validate_scene g) (\<lambda>u.
     and_then devices (\<lambda>ds.
     and_then (start_cameras ds a (sg_sources g)) (\<lambda>capturers.
     if capturers = [] then Inl ''headless scene contains no camera sources'' else Inr (g, capturers))))))"

subsection \<open>Composing\<close>

record timed_frame =
  tf_buffer :: pixel_buffer
  tf_captured_at :: duration

type_synonym frame_map = "string \<Rightarrow> timed_frame option"

text \<open>The sources with a frame, each once, in the order of the elements; the indices are positions in it.\<close>

definition headless_source :: "frame_map \<Rightarrow> element_definition \<Rightarrow> string list \<Rightarrow> string list" where
  "headless_source fs e ids =
     (if fs (ed_source e) \<noteq> None \<and> ed_source e \<notin> set ids then ids @ [ed_source e] else ids)"

definition headless_sources :: "frame_map \<Rightarrow> element_definition list \<Rightarrow> string list" where
  "headless_sources fs es = fold (headless_source fs) es []"

definition headless_given :: "frame_map \<Rightarrow> string list \<Rightarrow> compositor_source list" where
  "headless_given fs ids =
     List.map_filter (\<lambda>s. map_option (\<lambda>f. \<lparr>cs_pixel_buffer = tf_buffer f, cs_content_rect = None\<rparr>) (fs s)) ids"

definition headless_item :: "scene_graph \<Rightarrow> string list \<Rightarrow> element_definition \<Rightarrow> compositor_item option" where
  "headless_item g ids e =
     (let transform = with_corner_radius (ed_corner_radius e) (plain_transform (ed_center e) (ed_size e))
      in case graph_source g (ed_source e) of
           None \<Rightarrow> None
         | Some (CameraDefinition name unique_id) \<Rightarrow>
             map_option (\<lambda>i. \<lparr>ci_content = SourceContent i, ci_transform = transform\<rparr>)
               (position (\<lambda>s. s = ed_source e) ids)
         | Some (ColorDefinition c) \<Rightarrow> Some \<lparr>ci_content = ColorContent (normalized_color c), ci_transform = transform\<rparr>)"

definition headless_items :: "scene_graph \<Rightarrow> string list \<Rightarrow> compositor_item list" where
  "headless_items g ids = List.map_filter (headless_item g ids) (sg_elements g)"

definition newest_capture :: "scene_graph \<Rightarrow> frame_map \<Rightarrow> duration \<Rightarrow> duration" where
  "newest_capture g fs now =
     (case List.map_filter (\<lambda>e. map_option tf_captured_at (fs (ed_source e))) (sg_elements g) of
        [] \<Rightarrow> now
      | t # ts \<Rightarrow> fold max ts t)"

subsection \<open>Metrics\<close>

record metric_values =
  mv_captured :: nat
  mv_dropped :: nat
  mv_overwritten :: nat
  mv_composed :: nat
  mv_compose_time :: duration
  mv_pipeline_latency :: duration
  mv_maximum_compose_time :: duration
  mv_maximum_pipeline_latency :: duration
  mv_media_intervals :: nat
  mv_media_duration :: duration

definition no_metrics :: metric_values where
  "no_metrics = \<lparr>mv_captured = 0, mv_dropped = 0, mv_overwritten = 0, mv_composed = 0, mv_compose_time = 0,
     mv_pipeline_latency = 0, mv_maximum_compose_time = 0, mv_maximum_pipeline_latency = 0, mv_media_intervals = 0,
     mv_media_duration = 0\<rparr>"

record metrics =
  ms_values :: metric_values
  ms_last_timestamp :: "duration option"

definition increment :: "nat \<Rightarrow> nat" where "increment n = saturating_add u64_max n 1"

definition count_interval :: "duration option \<Rightarrow> duration \<Rightarrow> metric_values \<Rightarrow> metric_values" where
  "count_interval previous timestamp v =
     (case previous of
        None \<Rightarrow> v
      | Some p \<Rightarrow>
          (case checked_sub timestamp p of
             None \<Rightarrow> v
           | Some interval \<Rightarrow>
               if interval < nanos_per_sec
               then v\<lparr>mv_media_intervals := increment (mv_media_intervals v),
                      mv_media_duration := saturating_add duration_max (mv_media_duration v) interval\<rparr>
               else v))"

definition record_capture :: "duration option \<Rightarrow> metrics \<Rightarrow> metrics" where
  "record_capture timestamp m =
     (let v = (ms_values m)\<lparr>mv_captured := increment (mv_captured (ms_values m))\<rparr>
      in case timestamp of
           None \<Rightarrow> m\<lparr>ms_values := v\<rparr>
         | Some t \<Rightarrow> m\<lparr>ms_values := count_interval (ms_last_timestamp m) t v, ms_last_timestamp := Some t\<rparr>)"

definition record_drop :: "metrics \<Rightarrow> metrics" where
  "record_drop m = m\<lparr>ms_values := (ms_values m)\<lparr>mv_dropped := increment (mv_dropped (ms_values m))\<rparr>\<rparr>"

definition record_overwrite :: "metrics \<Rightarrow> metrics" where
  "record_overwrite m = m\<lparr>ms_values := (ms_values m)\<lparr>mv_overwritten := increment (mv_overwritten (ms_values m))\<rparr>\<rparr>"

definition record_composition :: "duration \<Rightarrow> duration \<Rightarrow> metrics \<Rightarrow> metrics" where
  "record_composition compose_time latency m =
     (let v = ms_values m
      in m\<lparr>ms_values := v\<lparr>mv_composed := increment (mv_composed v),
             mv_compose_time := saturating_add duration_max (mv_compose_time v) compose_time,
             mv_pipeline_latency := saturating_add duration_max (mv_pipeline_latency v) latency,
             mv_maximum_compose_time := max (mv_maximum_compose_time v) compose_time,
             mv_maximum_pipeline_latency := max (mv_maximum_pipeline_latency v) latency\<rparr>\<rparr>)"

definition average_duration :: "duration \<Rightarrow> nat \<Rightarrow> duration" where
  "average_duration whole samples =
     (case try_from u32_max samples of None \<Rightarrow> 0 | Some n \<Rightarrow> if 0 < n then whole div n else 0)"
text \<open>The numbers \<open>print_metrics\<close> writes, when there is anything to report; a rate over no time is left out.\<close>

record metric_report =
  mp_capture_fps :: real
  mp_media_fps :: real
  mp_dropped :: nat
  mp_overwritten :: nat
  mp_render_fps :: real
  mp_compose_average_ms :: real
  mp_compose_maximum_ms :: real
  mp_latency_average_ms :: real
  mp_latency_maximum_ms :: real

definition at_most_u32 :: "nat \<Rightarrow> nat" where "at_most_u32 n = unwrap_or (try_from u32_max n) u32_max"

definition metric_report_of :: "metric_values \<Rightarrow> duration \<Rightarrow> metric_report option" where
  "metric_report_of v interval =
     (if mv_captured v = 0 \<and> mv_dropped v = 0 \<and> mv_overwritten v = 0 \<and> mv_composed v = 0 then None
      else let seconds = as_secs_f64 interval
           in Some \<lparr>mp_capture_fps = real (at_most_u32 (mv_captured v)) / seconds,
                mp_media_fps = (if mv_media_duration v = 0 then 0
                  else real (at_most_u32 (mv_media_intervals v)) / as_secs_f64 (mv_media_duration v)),
                mp_dropped = mv_dropped v, mp_overwritten = mv_overwritten v,
                mp_render_fps = real (at_most_u32 (mv_composed v)) / seconds,
                mp_compose_average_ms = as_secs_f64 (average_duration (mv_compose_time v) (mv_composed v)) * 1000,
                mp_compose_maximum_ms = as_secs_f64 (mv_maximum_compose_time v) * 1000,
                mp_latency_average_ms = as_secs_f64 (average_duration (mv_pipeline_latency v) (mv_composed v)) * 1000,
                mp_latency_maximum_ms = as_secs_f64 (mv_maximum_pipeline_latency v) * 1000\<rparr>)"

subsection \<open>The pipeline\<close>

text \<open>
  Where the loop is: before its test of the deadline, after draining at a time with whether there were new
  frames, before its report, or returned.
\<close>

datatype pipeline_phase = Polling | Drained bool duration | Reporting duration | PipelineEnded "string + unit"

record pipeline_config =
  pc_graph :: scene_graph
  pc_capture_only :: bool
  pc_deadline :: duration

text \<open>
  \<open>hs_latest\<close> and \<open>hs_metrics\<close> are shared with the capture callbacks. For the specification, \<open>hs_history\<close> is what was
  captured, \<open>hs_drained\<close> counts the frames taken over, \<open>hs_compositions\<close> are the frames, sources and items of each
  composition; \<open>hs_reports\<close> are the metrics printed with their interval.
\<close>

record headless_state =
  hs_latest :: frame_map
  hs_metrics :: metrics
  hs_frames :: frame_map
  hs_phase :: pipeline_phase
  hs_next_report :: duration
  hs_last_report :: duration
  hs_reports :: "(metric_values \<times> duration) list"
  hs_history :: "(string \<times> timed_frame) list"
  hs_drained :: nat
  hs_compositions :: "(frame_map \<times> compositor_source list \<times> compositor_item list) list"

definition report_interval :: duration where "report_interval = 1000000000"

definition start_pipeline :: headless_state where
  "start_pipeline = \<lparr>hs_latest = Map.empty, hs_metrics = \<lparr>ms_values = no_metrics, ms_last_timestamp = None\<rparr>,
     hs_frames = Map.empty, hs_phase = Polling, hs_next_report = report_interval, hs_last_report = 0, hs_reports = [],
     hs_history = [], hs_drained = 0, hs_compositions = []\<rparr>"

definition submit :: "string \<Rightarrow> pixel_buffer \<Rightarrow> duration option \<Rightarrow> duration \<Rightarrow> headless_state \<Rightarrow> headless_state" where
  "submit source buffer timestamp now s =
     (let f = \<lparr>tf_buffer = buffer, tf_captured_at = now\<rparr>;
          m = (if hs_latest s source \<noteq> None then record_overwrite (hs_metrics s) else hs_metrics s)
      in s\<lparr>hs_latest := (hs_latest s)(source \<mapsto> f), hs_metrics := record_capture timestamp m,
           hs_history := hs_history s @ [(source, f)]\<rparr>)"

definition frame_dropped :: "headless_state \<Rightarrow> headless_state" where
  "frame_dropped s = s\<lparr>hs_metrics := record_drop (hs_metrics s)\<rparr>"

definition take_metrics :: "duration \<Rightarrow> headless_state \<Rightarrow> headless_state" where
  "take_metrics now s =
     s\<lparr>hs_metrics := (hs_metrics s)\<lparr>ms_values := no_metrics\<rparr>,
       hs_reports := hs_reports s @ [(ms_values (hs_metrics s), saturating_sub now (hs_last_report s))]\<rparr>"

text \<open>The loop's test at a time, then draining, which returns at another.\<close>

definition poll :: "pipeline_config \<Rightarrow> duration \<Rightarrow> duration \<Rightarrow> headless_state \<Rightarrow> headless_state" where
  "poll c tested now s =
     (if tested < pc_deadline c
      then s\<lparr>hs_latest := Map.empty, hs_frames := hs_frames s ++ hs_latest s, hs_drained := hs_drained s + card (dom (hs_latest s)),
             hs_phase := Drained (hs_latest s \<noteq> Map.empty) now\<rparr>
      else (take_metrics now s)\<lparr>hs_phase := PipelineEnded (Inr ())\<rparr>)"

text \<open>\<open>began\<close> and \<open>completed\<close> are the times around rendering, \<open>reply\<close> its error.\<close>

definition compose_step ::
    "pipeline_config \<Rightarrow> bool \<Rightarrow> duration \<Rightarrow> duration \<Rightarrow> duration \<Rightarrow> string option \<Rightarrow> headless_state \<Rightarrow> headless_state" where
  "compose_step c received now began completed reply s =
     (if pc_capture_only c \<or> \<not> received \<or> hs_frames s = Map.empty then s\<lparr>hs_phase := Reporting now\<rparr>
      else let g = pc_graph c; ids = headless_sources (hs_frames s) (sg_elements g);
               s' = s\<lparr>hs_compositions := hs_compositions s
                 @ [(hs_frames s, headless_given (hs_frames s) ids, headless_items g ids)]\<rparr>
           in case reply of
                Some e \<Rightarrow> s'\<lparr>hs_phase := PipelineEnded (Inl e)\<rparr>
              | None \<Rightarrow> s'\<lparr>hs_phase := Reporting now, hs_metrics := record_composition (saturating_sub completed began)
                  (saturating_sub completed (newest_capture g (hs_frames s) began)) (hs_metrics s)\<rparr>)"

definition report_step :: "duration \<Rightarrow> headless_state \<Rightarrow> headless_state" where
  "report_step now s =
     (if hs_next_report s \<le> now
      then (take_metrics now s)\<lparr>hs_last_report := now, hs_next_report := now + report_interval, hs_phase := Polling\<rparr>
      else s\<lparr>hs_phase := Polling\<rparr>)"

inductive headless_step :: "pipeline_config \<Rightarrow> headless_state \<Rightarrow> headless_state \<Rightarrow> bool" for c where
  Submitted: "headless_step c s (submit source b ts t s)"
| Dropped: "headless_step c s (frame_dropped s)"
| Polled: "hs_phase s = Polling \<Longrightarrow> headless_step c s (poll c t u s)"
| Composed: "hs_phase s = Drained r t \<Longrightarrow> headless_step c s (compose_step c r t u v x s)"
| Reported: "hs_phase s = Reporting t \<Longrightarrow> headless_step c s (report_step t s)"

inductive_simps headless_step_iff: "headless_step c s s'"

subsection \<open>What a composition draws\<close>

definition drawn :: "scene_graph \<Rightarrow> frame_map \<Rightarrow> element_definition \<Rightarrow> bool" where
  "drawn g fs e \<longleftrightarrow>
     (case graph_source g (ed_source e) of
        None \<Rightarrow> False
      | Some (ColorDefinition c) \<Rightarrow> True
      | Some (CameraDefinition name i) \<Rightarrow> fs (ed_source e) \<noteq> None)"

definition draws_element :: "scene_graph \<Rightarrow> frame_map \<Rightarrow> compositor_source list \<Rightarrow> element_definition \<Rightarrow> compositor_item \<Rightarrow> bool" where
  "draws_element g fs given e item \<longleftrightarrow>
     ci_transform item = with_corner_radius (ed_corner_radius e) (plain_transform (ed_center e) (ed_size e))
     \<and> (case graph_source g (ed_source e) of
          None \<Rightarrow> False
        | Some (ColorDefinition c) \<Rightarrow> ci_content item = ColorContent (normalized_color c)
        | Some (CameraDefinition name i) \<Rightarrow> \<exists>f k. fs (ed_source e) = Some f \<and> ci_content item = SourceContent k
            \<and> k < length given \<and> cs_pixel_buffer (given ! k) = tf_buffer f)"

definition composed_ok :: "scene_graph \<Rightarrow> frame_map \<times> compositor_source list \<times> compositor_item list \<Rightarrow> bool" where
  "composed_ok g x = (case x of (fs, given, items) \<Rightarrow>
     list_all2 (draws_element g fs given) (filter (drawn g fs) (sg_elements g)) items)"

lemma headless_source_fold:
  "set (fold (headless_source fs) es ids) = set ids \<union> {x \<in> ed_source ` set es. fs x \<noteq> None}"
  by (induction es arbitrary: ids) (auto simp: headless_source_def)

lemma headless_sources_set: "set (headless_sources fs es) = {x \<in> ed_source ` set es. fs x \<noteq> None}"
  by (simp add: headless_sources_def headless_source_fold)

lemma headless_given_map:
  assumes "\<forall>x \<in> set ids. fs x \<noteq> None"
  shows "headless_given fs ids = map (\<lambda>x. \<lparr>cs_pixel_buffer = tf_buffer (the (fs x)), cs_content_rect = None\<rparr>) ids"
  using assms by (induction ids) (auto simp: headless_given_def List.map_filter_simps)

lemma headless_item_draws:
  assumes "set ids = {x \<in> ed_source ` set (sg_elements g). fs x \<noteq> None}" "e \<in> set (sg_elements g)"
  shows "if drawn g fs e then \<exists>item. headless_item g ids e = Some item \<and> draws_element g fs (headless_given fs ids) e item
    else headless_item g ids e = None"
proof -
  have given: "headless_given fs ids = map (\<lambda>x. \<lparr>cs_pixel_buffer = tf_buffer (the (fs x)), cs_content_rect = None\<rparr>) ids"
    using assms(1) by (intro headless_given_map) auto
  have pos: "fs (ed_source e) = None \<longleftrightarrow> position (\<lambda>s. s = ed_source e) ids = None"
    using assms by (auto simp: position_None_iff)
  have none: "fs (ed_source e) = None \<Longrightarrow> k < length ids \<Longrightarrow> ids ! k \<noteq> ed_source e" for k
    using assms(1) nth_mem [of k ids] by fastforce
  show ?thesis
  proof (cases "graph_source g (ed_source e)")
    case None
    then show ?thesis by (simp add: drawn_def headless_item_def)
  next
    case (Some d)
    with pos show ?thesis
      by (cases d) (auto simp: drawn_def headless_item_def draws_element_def given position_Some_iff Let_def dest: none)
  qed
qed

lemma map_filter_list_all2:
  assumes "\<And>e. e \<in> set es \<Longrightarrow> if P e then \<exists>y. f e = Some y \<and> R e y else f e = None"
  shows "list_all2 R (filter P es) (List.map_filter f es)"
  using assms
proof (induction es)
  case (Cons e es)
  have "list_all2 R (filter P es) (List.map_filter f es)" using Cons by simp
  with Cons.prems [of e] show ?case by (auto simp: List.map_filter_simps split: if_splits)
qed (simp add: List.map_filter_simps)

lemma headless_composed_ok:
  "composed_ok g (fs, headless_given fs (headless_sources fs (sg_elements g)),
     headless_items g (headless_sources fs (sg_elements g)))"
  unfolding composed_ok_def headless_items_def prod.case
  by (rule map_filter_list_all2) (rule headless_item_draws, simp_all add: headless_sources_set)
subsection \<open>The frames and their counts\<close>

definition total :: "(metric_values \<Rightarrow> nat) \<Rightarrow> headless_state \<Rightarrow> nat" where
  "total sel s = sum_list (map (\<lambda>r. sel (fst r)) (hs_reports s)) + sel (ms_values (hs_metrics s))"

definition newest_known :: "headless_state \<Rightarrow> bool" where
  "newest_known s \<longleftrightarrow>
     (\<forall>x. map_of (rev (hs_history s)) x = (case hs_latest s x of Some f \<Rightarrow> Some f | None \<Rightarrow> hs_frames s x))"

definition counts_ok :: "headless_state \<Rightarrow> bool" where
  "counts_ok s \<longleftrightarrow> finite (dom (hs_latest s)) \<and> (length (hs_history s) \<le> u64_max \<longrightarrow>
     total mv_captured s = length (hs_history s)
     \<and> total mv_overwritten s + hs_drained s + card (dom (hs_latest s)) = length (hs_history s))"

definition headless_inv :: "pipeline_config \<Rightarrow> headless_state \<Rightarrow> bool" where
  "headless_inv c s \<longleftrightarrow> newest_known s \<and> counts_ok s \<and> (\<forall>x \<in> set (hs_compositions s). composed_ok (pc_graph c) x)"

lemma record_capture_counts [simp]:
  "mv_captured (ms_values (record_capture t m)) = increment (mv_captured (ms_values m))"
  "mv_overwritten (ms_values (record_capture t m)) = mv_overwritten (ms_values m)"
  by (auto simp: record_capture_def count_interval_def Let_def split: option.split)

lemma record_overwrite_counts [simp]:
  "mv_captured (ms_values (record_overwrite m)) = mv_captured (ms_values m)"
  "mv_overwritten (ms_values (record_overwrite m)) = increment (mv_overwritten (ms_values m))"
  by (simp_all add: record_overwrite_def)

lemma record_composition_counts [simp]:
  "mv_captured (ms_values (record_composition a b m)) = mv_captured (ms_values m)"
  "mv_overwritten (ms_values (record_composition a b m)) = mv_overwritten (ms_values m)"
  by (simp_all add: record_composition_def Let_def)

lemma increment_below: "n < u64_max \<Longrightarrow> increment n = Suc n"
  by (simp add: increment_def saturating_add_def)

lemma submit_counts:
  assumes "counts_ok s"
  shows "counts_ok (submit source b ts t s)"
proof (cases "length (hs_history s) < u64_max")
  case False
  with assms show ?thesis by (simp add: counts_ok_def submit_def Let_def)
next
  case True
  let ?r = "sum_list (map (\<lambda>r. mv_captured (fst r)) (hs_reports s))"
  let ?o = "sum_list (map (\<lambda>r. mv_overwritten (fst r)) (hs_reports s))"
  from assms True have c: "finite (dom (hs_latest s))" "?r + mv_captured (ms_values (hs_metrics s)) = length (hs_history s)"
      "?o + mv_overwritten (ms_values (hs_metrics s)) + hs_drained s + card (dom (hs_latest s)) = length (hs_history s)"
    by (simp_all add: counts_ok_def total_def)
  then have "increment (mv_captured (ms_values (hs_metrics s))) = Suc (mv_captured (ms_values (hs_metrics s)))"
      "increment (mv_overwritten (ms_values (hs_metrics s))) = Suc (mv_overwritten (ms_values (hs_metrics s)))"
    using True by (auto intro!: increment_below)
  moreover have "card (insert source (dom (hs_latest s)))
      = (if hs_latest s source = None then Suc (card (dom (hs_latest s))) else card (dom (hs_latest s)))"
    using c(1) by (simp add: card_insert_if domIff)
  ultimately show ?thesis
    using c True by (auto simp: counts_ok_def submit_def total_def Let_def)
qed

lemma take_metrics_total: "(sel :: metric_values \<Rightarrow> nat) no_metrics = 0 \<Longrightarrow> total sel (take_metrics t s) = total sel s"
  by (simp add: total_def take_metrics_def)

lemma take_metrics_fields [simp]:
  "hs_latest (take_metrics t s) = hs_latest s" "hs_frames (take_metrics t s) = hs_frames s"
  "hs_history (take_metrics t s) = hs_history s" "hs_drained (take_metrics t s) = hs_drained s"
  "hs_compositions (take_metrics t s) = hs_compositions s"
  by (simp_all add: take_metrics_def)

text \<open>The phase and the times of the reports do not matter.\<close>

lemma headless_inv_cong:
  assumes "hs_latest s' = hs_latest s" "hs_frames s' = hs_frames s" "hs_history s' = hs_history s"
    "hs_drained s' = hs_drained s" "hs_compositions s' = hs_compositions s"
    "total mv_captured s' = total mv_captured s" "total mv_overwritten s' = total mv_overwritten s"
  shows "headless_inv c s' = headless_inv c s"
  unfolding headless_inv_def newest_known_def counts_ok_def assms ..

lemma take_metrics_inv: "headless_inv c (take_metrics t s) = headless_inv c s"
  by (rule headless_inv_cong) (simp_all add: take_metrics_total no_metrics_def)

lemma headless_inv_phase [simp]:
  "headless_inv c (s\<lparr>hs_phase := p\<rparr>) = headless_inv c s"
  "headless_inv c (s\<lparr>hs_last_report := a, hs_next_report := b\<rparr>) = headless_inv c s"
  by (rule headless_inv_cong; simp add: total_def)+

lemma poll_inv:
  assumes "headless_inv c s"
  shows "headless_inv c (poll c t u s)"
proof (cases "t < pc_deadline c")
  case True
  have "newest_known (poll c t u s)"
    using assms True by (auto simp: headless_inv_def newest_known_def poll_def map_add_def split: option.splits)
  with assms True show ?thesis by (simp add: headless_inv_def counts_ok_def total_def poll_def add.assoc)
next
  case False
  with assms show ?thesis by (simp add: poll_def take_metrics_inv)
qed

lemma submit_inv:
  assumes "headless_inv c s"
  shows "headless_inv c (submit source b ts t s)"
proof -
  let ?f = "\<lparr>tf_buffer = b, tf_captured_at = t\<rparr>"
  have "hs_latest (submit source b ts t s) = (hs_latest s)(source \<mapsto> ?f)" "hs_frames (submit source b ts t s) = hs_frames s"
    "hs_history (submit source b ts t s) = hs_history s @ [(source, ?f)]" by (simp_all add: submit_def Let_def)
  then have "newest_known (submit source b ts t s)"
    using assms by (auto simp: headless_inv_def newest_known_def split: option.split)
  moreover have "hs_compositions (submit source b ts t s) = hs_compositions s" by (simp add: submit_def Let_def)
  ultimately show ?thesis using assms submit_counts by (simp add: headless_inv_def)
qed

lemma compose_step_inv:
  assumes "headless_inv c s"
  shows "headless_inv c (compose_step c r t u v x s)"
  using assms headless_composed_ok
  by (auto simp: compose_step_def headless_inv_def newest_known_def counts_ok_def total_def Let_def split: option.split)

lemma frame_dropped_inv: "headless_inv c (frame_dropped s) = headless_inv c s"
  by (rule headless_inv_cong) (simp_all add: frame_dropped_def record_drop_def total_def)

lemma report_step_inv: "headless_inv c (report_step t s) = headless_inv c s"
  by (simp add: report_step_def take_metrics_inv)

lemma headless_step_inv: "headless_inv c s \<Longrightarrow> headless_step c s s' \<Longrightarrow> headless_inv c s'"
  by (auto simp: headless_step_iff report_step_inv frame_dropped_inv poll_inv submit_inv compose_step_inv)

interpretation headless_machine: state_machine "headless_step c" "headless_inv c"
  by unfold_locales (rule headless_step_inv)

text \<open>
  C40: in any interleaving of captured frames and the pipeline, the newest frame of every camera is the one
  waiting, or else the one the pipeline holds, so that draining never leaves an older picture in place; every
  frame captured is overwritten, taken over or still waiting, and the metrics, summed over all reports, count
  exactly that; and every composition draws the elements in order, a colour as itself and a camera's element with
  the buffer of its own camera's frame, leaving out only the cameras without one.
\<close>

theorem headless_frames_accounted:
  assumes "(headless_step c)\<^sup>*\<^sup>* start_pipeline s" "length (hs_history s) \<le> u64_max"
  shows "(\<forall>x. map_of (rev (hs_history s)) x = (case hs_latest s x of Some f \<Rightarrow> Some f | None \<Rightarrow> hs_frames s x))
    \<and> total mv_captured s = length (hs_history s)
    \<and> total mv_overwritten s + hs_drained s + card (dom (hs_latest s)) = length (hs_history s)
    \<and> (\<forall>x \<in> set (hs_compositions s). composed_ok (pc_graph c) x)"
proof -
  have "headless_inv c start_pipeline"
    by (simp add: headless_inv_def newest_known_def counts_ok_def start_pipeline_def total_def no_metrics_def)
  from headless_machine.reachable_inv [OF assms(1) this] assms(2) show ?thesis
    by (simp add: headless_inv_def newest_known_def counts_ok_def)
qed

subsection \<open>A run of two frames\<close>

definition camera_graph :: scene_graph where
  "camera_graph = \<lparr>sg_canvas = (1920, 1080), sg_sources = [(''camera'', CameraDefinition None None)],
     sg_elements = [\<lparr>ed_source = ''camera'', ed_center = default_center, ed_size = default_size, ed_corner_radius = 0\<rparr>]\<rparr>"

definition camera_buffer :: "nat \<Rightarrow> pixel_buffer" where
  "camera_buffer i = \<lparr>pb_id = i, pb_format = Bgra32, pb_width = 640, pb_height = 480, pb_planes = []\<rparr>"

definition camera_run :: headless_state where
  "camera_run = (let c = \<lparr>pc_graph = camera_graph, pc_capture_only = False, pc_deadline = 10\<rparr>;
       s1 = submit ''camera'' (camera_buffer 1) (Some 1) 1 start_pipeline; s2 = submit ''camera'' (camera_buffer 2) (Some 2) 2 s1;
       s3 = poll c 3 4 s2
     in compose_step c True 4 5 6 None s3)"

lemma camera_run_reached:
  "(headless_step \<lparr>pc_graph = camera_graph, pc_capture_only = False, pc_deadline = 10\<rparr>)\<^sup>*\<^sup>* start_pipeline camera_run"
proof -
  let ?c = "\<lparr>pc_graph = camera_graph, pc_capture_only = False, pc_deadline = 10\<rparr>"
  let ?s1 = "submit ''camera'' (camera_buffer 1) (Some 1) 1 start_pipeline"
  let ?s2 = "submit ''camera'' (camera_buffer 2) (Some 2) 2 ?s1"
  have "headless_step ?c start_pipeline ?s1" "headless_step ?c ?s1 ?s2" by (rule headless_step.Submitted)+
  moreover have "headless_step ?c ?s2 (poll ?c 3 4 ?s2)"
    by (rule headless_step.Polled) (simp add: submit_def start_pipeline_def Let_def)
  moreover have "headless_step ?c (poll ?c 3 4 ?s2) camera_run"
    unfolding camera_run_def Let_def
    by (rule headless_step.Composed) (simp add: poll_def submit_def start_pipeline_def Let_def)
  ultimately show ?thesis by (meson converse_rtranclp_into_rtranclp rtranclp.rtrancl_refl)
qed

lemma headless_frames_accounted_witness:
  "total mv_captured camera_run = 2 \<and> total mv_overwritten camera_run + hs_drained camera_run = 2
   \<and> map_option tf_buffer (hs_frames camera_run ''camera'') = Some (camera_buffer 2) \<and> hs_compositions camera_run \<noteq> []"
proof -
  have h: "hs_history camera_run = [(''camera'', \<lparr>tf_buffer = camera_buffer 1, tf_captured_at = 1\<rparr>),
      (''camera'', \<lparr>tf_buffer = camera_buffer 2, tf_captured_at = 2\<rparr>)]" "hs_latest camera_run = Map.empty"
      "hs_compositions camera_run \<noteq> []"
    by (simp_all add: camera_run_def compose_step_def poll_def submit_def start_pipeline_def Let_def)
  note all = headless_frames_accounted [OF camera_run_reached, unfolded h(1,2)]
  from all have "hs_frames camera_run ''camera'' = Some \<lparr>tf_buffer = camera_buffer 2, tf_captured_at = 2\<rparr>"
    by (auto simp: width_defs dest: spec [of _ "''camera''"])
  with all h(3) show ?thesis by (simp add: width_defs)
qed

end
