(* ===== verification/Capture_Headless.thy ===== *)
theory Capture_Headless
  imports Recording_System
begin

section \<open>Recording without a window (apps/blip-capture/src/headless.rs)\<close>

text \<open>
  The command that records a display for a number of seconds and uploads it: its profile, the choice of the
  display, the destination, and the loop over the recording thread's events with the timer it starts.
\<close>

datatype headless_error = HeadlessText string | HeadlessOutput output_error | HeadlessCapture capture_error
  | HeadlessMessage message

datatype headless_format = HeadlessMp4 | HeadlessHls

fun format_of_headless :: "headless_format \<Rightarrow> recording_format" where
  "format_of_headless HeadlessMp4 = FormatMp4"
| "format_of_headless HeadlessHls = FormatHls"

record capture_args =
  ha_server_url :: "string option"
  ha_format :: headless_format
  ha_display :: "nat option"
  ha_duration :: nat

text \<open>The environment: the variable with a server, the permission, the content, names of displays, clock and folders.\<close>

record 'txt headless_env =
  he_variable :: "string option"
  he_permission :: bool
  he_content :: "(string + content) option"
  he_main_id :: nat
  he_display_name :: "nat \<Rightarrow> unicode option"
  he_now :: int
  he_date :: string
  he_temp_dir :: string
  he_folder :: "string option"
  he_disk :: "'txt Bundle.disk"

definition headless_profile :: "string \<Rightarrow> recording_format \<Rightarrow> recording_profile" where
  "headless_profile server_url format =
     \<lparr>rp_id = ''headless'', rp_name = ''Headless test'', rp_target = Remote server_url, rp_format = format,
      rp_action = NoAction\<rparr>"

definition headless_server :: "capture_args \<Rightarrow> string option \<Rightarrow> headless_error + string" where
  "headless_server args variable =
     (case ha_server_url args of
        Some s \<Rightarrow> Inr s
      | None \<Rightarrow> ok_or variable (HeadlessText ''--server-url or the BLIP_SERVER_URL environment variable is required''))"

definition headless_display :: "capture_args \<Rightarrow> nat \<Rightarrow> content \<Rightarrow> headless_error + capture_display" where
  "headless_display args main_id c =
     (case ha_display args of
        Some display_id \<Rightarrow> ok_or (find (\<lambda>d. cd_id d = display_id) (ct_displays c))
          (HeadlessText (''display '' @ show_nat display_id @ '' is not available''))
      | None \<Rightarrow> ok_or (Screen_Capture.main_display main_id c) (HeadlessText ''the main display is not available''))"

text \<open>What the recording thread is started with, up to the call of \<open>spawn\<close>.\<close>

definition headless_setup ::
    "url_lib \<Rightarrow> 'txt json \<Rightarrow> 'txt headless_env \<Rightarrow> capture_args \<Rightarrow>
     headless_error + (record_args \<times> thread_args)" where
  "headless_setup lib j env args =
     and_then (headless_server args (he_variable env)) (\<lambda>server_url.
     let format = format_of_headless (ha_format args); profile = headless_profile server_url format
     in and_then (map_err HeadlessText (validate lib profile)) (\<lambda>u.
        if \<not> he_permission env
        then Inl (HeadlessText ''Screen Recording permission is required; grant it in System Settings and retry'')
        else and_then (map_err HeadlessCapture (current_content (he_content env))) (\<lambda>c.
        and_then (headless_display args (he_main_id env) c) (\<lambda>display.
        let target_name = unwrap_or (he_display_name env (cd_id display))
          (ascii (''Display '' @ show_nat (cd_id display)))
        in and_then (map_err HeadlessOutput (fst (output_destination_of j (he_now env) (he_date env) (he_temp_dir env)
             (he_folder env) profile target_name None True (he_disk env)))) (\<lambda>out.
           Inr (\<lparr>ar_spec = CaptureDisplay (cd_id display), ar_camera_window = None, ar_output = od_media_path out,
                  ar_format = format, ar_system_audio = True, ar_bundle_audio = None, ar_camera = None\<rparr>,
                \<lparr>ta_output = od_media_path out, ta_completed = od_completed_path out,
                  ta_cleanup = od_cleanup_on_failure out, ta_server = Some server_url, ta_format = format\<rparr>))))))"

subsection \<open>The loop over the thread's events\<close>

datatype headless_effect = StartTimer duration | SendStop

text \<open>\<open>timer\<close> is the error of starting its thread; the loop ends at a result or when the channel is closed.\<close>

fun event_loop ::
    "nat \<Rightarrow> string option \<Rightarrow> bool \<Rightarrow> recording_event list \<Rightarrow> headless_effect list \<times> (headless_error + string)" where
  "event_loop seconds timer started [] = ([], Inl (HeadlessText ''recording stopped without a result''))"
| "event_loop seconds timer started (RecordingStarted # es) =
     (if started then event_loop seconds timer True es
      else case timer of
        Some e \<Rightarrow> ([SendStop], Inl (HeadlessText (''failed to start recording timer: '' @ e)))
      | None \<Rightarrow>
          (case event_loop seconds timer True es of (fs, r) \<Rightarrow> (StartTimer (seconds * nanos_per_sec) # fs, r)))"
| "event_loop seconds timer started (RecordingUploading # es) = event_loop seconds timer started es"
| "event_loop seconds timer started (RecordingFinished p (Some v) # es) = ([], Inr v)"
| "event_loop seconds timer started (RecordingFinished p None # es) =
     ([], Inl (HeadlessText ''headless recording finished without a viewer URL''))"
| "event_loop seconds timer started (RecordingFailed m # es) = ([SendStop], Inl (HeadlessMessage m))"

subsection \<open>Against the recording thread\<close>

text \<open>Uploading is reported, if at all, before the one event that ends a run.\<close>

definition ending_events :: "recording_event list \<Rightarrow> bool" where
  "ending_events es \<longleftrightarrow> (\<exists>us e. es = us @ [e] \<and> set us \<subseteq> {RecordingUploading} \<and> final_event e)"

definition thread_events :: "phase \<Rightarrow> recording_event list \<Rightarrow> bool" where
  "thread_events ph es \<longleftrightarrow>
     (case ph of
        Done \<Rightarrow> es = []
      | Beginning \<Rightarrow> (\<exists>m. es = [RecordingFailed m]) \<or> (\<exists>rest. es = RecordingStarted # rest \<and> ending_events rest)
      | _ \<Rightarrow> ending_events es)"

lemma ending_events_simps [simp]:
  "final_event e \<Longrightarrow> ending_events [e]" "ending_events es \<Longrightarrow> ending_events (RecordingUploading # es)"
proof -
  show "final_event e \<Longrightarrow> ending_events [e]" by (simp add: ending_events_def)
  assume "ending_events es"
  then obtain us e where "es = us @ [e]" "set us \<subseteq> {RecordingUploading}" "final_event e"
    by (auto simp: ending_events_def)
  then show "ending_events (RecordingUploading # es)"
    unfolding ending_events_def by (intro exI [of _ "RecordingUploading # us"] exI [of _ e]) simp
qed

lemma phase_run_events: "phase_run sg ph es ph' \<Longrightarrow> ph' = Done \<Longrightarrow> thread_events ph es"
proof (induction rule: phase_run.induct)
  case (phase_refl ph)
  then show ?case by (simp add: thread_events_def)
next
  case (phase_trans ph es ph1 es' ph2)
  then have "thread_events ph1 es'" by simp
  with phase_trans(1) show ?case
    by (cases rule: phase_step.cases) (auto simp: thread_events_def final_event_def)
qed

lemma event_loop_ending:
  assumes "ending_events es"
  shows "fst (event_loop seconds timer True es) \<in> {[], [SendStop]}
    \<and> (\<forall>v. snd (event_loop seconds timer True es) = Inr v \<longleftrightarrow> (\<exists>p. RecordingFinished p (Some v) \<in> set es))
    \<and> snd (event_loop seconds timer True es) \<noteq> Inl (HeadlessText ''recording stopped without a result'')"
proof -
  obtain us e where es: "es = us @ [e]" "set us \<subseteq> {RecordingUploading}" "final_event e"
    using assms by (auto simp: ending_events_def)
  from es(2) have skip: "event_loop seconds timer True (us @ [e]) = event_loop seconds timer True [e]" by (induction us) auto
  have only: "RecordingFinished p v \<in> set es \<longleftrightarrow> e = RecordingFinished p v" for p v using es(1,2) by auto
  show ?thesis
  proof (cases e)
    case (RecordingFinished p v)
    then show ?thesis unfolding only unfolding es(1) skip by (cases v) auto
  next
    case (RecordingFailed m)
    then show ?thesis unfolding only unfolding es(1) skip by auto
  qed (use es(3) in \<open>simp_all add: final_event_def\<close>)
qed

text \<open>
  The timer is started exactly once, when capturing has begun, so that the thread's stop signal is sent; the
  command answers with the viewer URL the thread reported and with an error if it reported none, and it never
  waits for an event that does not come.
\<close>

theorem headless_follows_thread:
  assumes "phase_run sg Beginning es Done" and run: "run = event_loop seconds None False es"
  shows "filter (\<lambda>f. f \<noteq> SendStop) (fst run) = (if RecordingStarted \<in> set es then [StartTimer (seconds * nanos_per_sec)] else [])
    \<and> (\<forall>v. snd run = Inr v \<longleftrightarrow> (\<exists>p. RecordingFinished p (Some v) \<in> set es))
    \<and> snd run \<noteq> Inl (HeadlessText ''recording stopped without a result'')"
proof -
  have "(\<exists>m. es = [RecordingFailed m]) \<or> (\<exists>rest. es = RecordingStarted # rest \<and> ending_events rest)"
    using phase_run_events [OF assms(1)] by (simp add: thread_events_def)
  then show ?thesis
  proof (elim disjE exE conjE)
    fix m assume "es = [RecordingFailed m]"
    then show ?thesis by (simp add: run)
  next
    fix rest assume r: "es = RecordingStarted # rest" "ending_events rest"
    note tl = event_loop_ending [OF r(2), of seconds None]
    obtain fs x where fx: "event_loop seconds None True rest = (fs, x)" by (metis surj_pair)
    have "RecordingStarted \<notin> set rest" using r(2) by (auto simp: ending_events_def final_event_def)
    with tl fx show ?thesis by (auto simp: run r(1))
  qed
qed

end
