(* ===== verification/Video_Decoder.thy ===== *)
theory Video_Decoder
  imports Media_Time Text_Format
begin

section \<open>Decoding video and audio files (crates/blip-avfoundation/src/decoder.rs)\<close>

text \<open>
  The decoder the editor scrubs with: a cache of all frames decoded so far, and a reader that goes on from the
  last frame when the next time is close behind it. AVFoundation answers with the samples a reader has from a
  time on; a sample has a time in seconds and, unless it is a marker, a picture.
\<close>

datatype decoder_error =
  DecoderInvalidPath | NoVideoTrack | NoAudioTrack | CreateReader string | CreateOutput string | StartReading string
| DecodeFailed | DecodeAudio string

definition fallback_gop_duration_secs :: real where "fallback_gop_duration_secs = 3"
definition gop_intervals_to_sample :: nat where "gop_intervals_to_sample = 3"
definition max_gop_samples_to_scan :: nat where "max_gop_samples_to_scan = 10000"

definition can_decode_sequentially :: "real \<Rightarrow> real \<Rightarrow> bool" where
  "can_decode_sequentially delta gop_duration \<longleftrightarrow> - (1/100) \<le> delta \<and> delta \<le> gop_duration"

subsection \<open>Opening a file\<close>

text \<open>The samples of a track in decoding order, as a cursor sees them: whether each can be decoded alone, and its time.\<close>

fun sync_timestamps :: "nat \<Rightarrow> (bool \<times> fl) list \<Rightarrow> real list \<Rightarrow> real list" where
  "sync_timestamps 0 cursor ts = ts"
| "sync_timestamps (Suc n) [] ts = ts"
| "sync_timestamps (Suc n) ((full_sync, time) # cursor) ts =
     (let ts' = (if full_sync \<and> is_finite time then ts @ [fl_val time] else ts)
      in if full_sync \<and> is_finite time \<and> gop_intervals_to_sample < length ts' then ts'
         else sync_timestamps n cursor ts')"

definition estimate_gop_duration :: "(bool \<times> fl) list option \<Rightarrow> real option" where
  "estimate_gop_duration cursor =
     (case cursor of
        None \<Rightarrow> None
      | Some samples \<Rightarrow>
          (let ts = sync_timestamps max_gop_samples_to_scan samples [];
               intervals = sort (filter (\<lambda>d. 0 < d) (map (\<lambda>(a, b). b - a) (zip ts (tl ts))))
           in list_get intervals (length intervals div 2)))"

record 'f sample =
  sm_time :: real
  sm_image :: "'f option"

record 'f active_reader =
  rd_rest :: "'f sample list"
  rd_last_frame :: 'f
  rd_last_ts :: real

record 'f video_decoder =
  de_duration :: duration
  de_width :: nat
  de_height :: nat
  de_nominal_fps :: real
  de_gop_duration :: real
  de_reader :: "'f active_reader option"
  de_cache :: "(int \<times> 'f) list"

text \<open>What the asset and its first video track report.\<close>

record track_report =
  tr_value :: int
  tr_timescale :: int
  tr_width :: real
  tr_height :: real
  tr_frame_rate :: real
  tr_cursor :: "(bool \<times> fl) list option"

definition open_decoder :: "bool \<Rightarrow> track_report option \<Rightarrow> decoder_error + 'f video_decoder" where
  "open_decoder utf8_path track =
     (if \<not> utf8_path then Inl DecoderInvalidPath
      else case track of
        None \<Rightarrow> Inl NoVideoTrack
      | Some r \<Rightarrow>
          (let seconds = (if 0 < tr_timescale r then real_of_int (tr_value r) / real_of_int (tr_timescale r) else 0)
           in Inr \<lparr>de_duration = unwrap_or (try_from_secs_f64 (Fin (max seconds 0))) 0,
                de_width = as_unsigned usize_max (of_int \<lfloor>\<bar>tr_width r\<bar>\<rfloor>),
                de_height = as_unsigned usize_max (of_int \<lfloor>\<bar>tr_height r\<bar>\<rfloor>),
                de_nominal_fps = (if 0 < tr_frame_rate r then tr_frame_rate r else 30),
                de_gop_duration = unwrap_or (estimate_gop_duration (tr_cursor r)) fallback_gop_duration_secs,
                de_reader = None, de_cache = []\<rparr>))"

subsection \<open>The cache\<close>

text \<open>A \<open>BTreeMap\<close> is its entries in order.\<close>

fun cache_insert :: "int \<Rightarrow> 'f \<Rightarrow> (int \<times> 'f) list \<Rightarrow> (int \<times> 'f) list" where
  "cache_insert k f [] = [(k, f)]"
| "cache_insert k f ((j, g) # c) =
     (if k < j then (k, f) # (j, g) # c else if k = j then (k, f) # c else (j, g) # cache_insert k f c)"

text \<open>\<open>(x * 1000000.0).round() as i64\<close>.\<close>

definition secs_to_micros :: "real \<Rightarrow> int" where
  "secs_to_micros x = saturating_signed 64 (round_away (x * 1000000))"

definition cached_near :: "int \<Rightarrow> int \<Rightarrow> (int \<times> 'f) list \<Rightarrow> 'f option" where
  "cached_near target tol cache =
     map_option snd (min_by (\<lambda>(k, f). real_of_int \<bar>k - target\<bar>)
       (filter (\<lambda>(k, f). target - tol \<le> k \<and> k \<le> target + tol) cache))"

subsection \<open>Reading\<close>

text \<open>Reads on until the last frame's time has reached the limit; the flag is whether it has.\<close>

fun read_on ::
    "real \<Rightarrow> 'f sample list \<Rightarrow> (int \<times> 'f) list \<Rightarrow> 'f option \<Rightarrow> real \<Rightarrow>
     bool \<times> 'f sample list \<times> (int \<times> 'f) list \<times> 'f option \<times> real" where
  "read_on limit [] cache frame ts = (False, [], cache, frame, ts)"
| "read_on limit (s # ss) cache frame ts =
     (case sm_image s of
        Some f \<Rightarrow>
          (let cache' = cache_insert (secs_to_micros (sm_time s)) f cache
           in if limit \<le> sm_time s then (True, ss, cache', Some f, sm_time s)
              else read_on limit ss cache' (Some f) (sm_time s))
      | None \<Rightarrow> if limit \<le> ts then (True, ss, cache, frame, ts) else read_on limit ss cache frame ts)"

definition tolerance :: "'f video_decoder \<Rightarrow> real" where
  "tolerance d = (1/2) / de_nominal_fps d"

text \<open>A new reader from the time on; \<open>open_reader\<close> is AVFoundation's answer for a start in microseconds.\<close>

definition seek_frame ::
    "(int \<Rightarrow> decoder_error + 'f sample list) \<Rightarrow> real \<Rightarrow> 'f video_decoder \<Rightarrow> 'f video_decoder \<times> (decoder_error + 'f)" where
  "seek_frame open_reader t d =
     (case open_reader (secs_to_micros t) of
        Inl e \<Rightarrow> (d\<lparr>de_reader := None\<rparr>, Inl e)
      | Inr samples \<Rightarrow>
          (case read_on (t - tolerance d) samples (de_cache d) None 0 of
             (found, rest, cache, None, ts) \<Rightarrow> (d\<lparr>de_reader := None, de_cache := cache\<rparr>, Inl DecodeFailed)
           | (found, rest, cache, Some f, ts) \<Rightarrow>
               (d\<lparr>de_reader := Some \<lparr>rd_rest = rest, rd_last_frame = f, rd_last_ts = ts\<rparr>, de_cache := cache\<rparr>, Inr f)))"

definition frame_at ::
    "(int \<Rightarrow> decoder_error + 'f sample list) \<Rightarrow> real \<Rightarrow> 'f video_decoder \<Rightarrow> 'f video_decoder \<times> (decoder_error + 'f)" where
  "frame_at open_reader t d =
     (case cached_near (secs_to_micros t) (secs_to_micros (tolerance d)) (de_cache d) of
        Some f \<Rightarrow> (d, Inr f)
      | None \<Rightarrow>
          (case de_reader d of
             None \<Rightarrow> seek_frame open_reader t d
           | Some r \<Rightarrow>
               (let delta = t - rd_last_ts r
                in if \<not> can_decode_sequentially delta (de_gop_duration d) then seek_frame open_reader t d
                   else if delta \<le> tolerance d then (d, Inr (rd_last_frame r))
                   else case read_on (t - tolerance d) (rd_rest r) (de_cache d) (Some (rd_last_frame r)) (rd_last_ts r) of
                     (True, rest, cache, Some f, ts) \<Rightarrow>
                       (d\<lparr>de_reader := Some \<lparr>rd_rest = rest, rd_last_frame = f, rd_last_ts = ts\<rparr>, de_cache := cache\<rparr>, Inr f)
                   | (_, _, cache, _, _) \<Rightarrow> seek_frame open_reader t (d\<lparr>de_cache := cache\<rparr>))))"

subsection \<open>Audio\<close>

text \<open>A buffer of samples: its data, none when it has no data buffer, its size in bytes and the status of copying it.\<close>

record 'v audio_buffer =
  ub_data :: "'v list option"
  ub_bytes :: nat
  ub_status :: int

fun collect_samples :: "'v audio_buffer list \<Rightarrow> 'v list \<Rightarrow> decoder_error + 'v list" where
  "collect_samples [] samples = Inr samples"
| "collect_samples (b # bs) samples =
     (case ub_data b of
        None \<Rightarrow> Inl (DecodeAudio ''sample has no data buffer'')
      | Some values \<Rightarrow>
          if ub_bytes b = 0 \<or> \<not> is_multiple_of (ub_bytes b) 4 then collect_samples bs samples
          else if ub_status b \<noteq> 0
          then Inl (DecodeAudio (''could not copy PCM bytes ('' @ show_int (ub_status b) @ '')''))
          else collect_samples bs (samples @ take (ub_bytes b div 4) values))"

definition decode_audio :: "bool \<Rightarrow> bool \<Rightarrow> decoder_error + 'v audio_buffer list \<Rightarrow> decoder_error + 'v list" where
  "decode_audio utf8_path has_track reader =
     (if \<not> utf8_path then Inl DecoderInvalidPath
      else if \<not> has_track then Inl NoAudioTrack
      else and_then reader (\<lambda>buffers.
        and_then (collect_samples buffers []) (\<lambda>samples.
        if samples = [] then Inl (DecodeAudio ''audio track contains no samples'') else Inr samples)))"
text \<open>When every buffer can be read, decoding gives their samples one after another.\<close>

lemma decode_audio_samples:
  assumes "\<forall>b \<in> set buffers. \<exists>vs. ub_data b = Some vs \<and> ub_bytes b = 4 * length vs \<and> ub_status b = 0"
    and "concat (map (\<lambda>b. unwrap_or (ub_data b) []) buffers) \<noteq> []"
  shows "decode_audio True True (Inr buffers) = Inr (concat (map (\<lambda>b. unwrap_or (ub_data b) []) buffers))"
proof -
  have "collect_samples buffers acc = Inr (acc @ concat (map (\<lambda>b. unwrap_or (ub_data b) []) buffers))" for acc
    using assms(1)
  proof (induction buffers arbitrary: acc)
    case (Cons b buffers)
    then obtain vs where v: "ub_data b = Some vs" "ub_bytes b = 4 * length vs" "ub_status b = 0" by auto
    then show ?case using Cons by (cases "vs = []") (auto simp: is_multiple_of_def)
  qed simp
  then show ?thesis using assms(2) by (simp add: decode_audio_def)
qed

subsection \<open>Frames shown\<close>

text \<open>The pictures among samples, with their times.\<close>

fun pictures :: "'f sample list \<Rightarrow> (real \<times> 'f) list" where
  "pictures [] = []"
| "pictures (s # ss) = (case sm_image s of None \<Rightarrow> pictures ss | Some f \<Rightarrow> (sm_time s, f) # pictures ss)"

lemma pictures_append [simp]: "pictures (xs @ ys) = pictures xs @ pictures ys"
  by (induction xs) (auto split: option.splits)

lemma pictures_sample: "(ts, f) \<in> set (pictures ss) \<Longrightarrow> \<exists>s \<in> set ss. sm_time s = ts"
  by (induction ss) (auto split: option.splits if_splits)

lemma pictures_sorted:
  "sorted_wrt (<) (map sm_time ss) \<Longrightarrow> sorted_wrt (<) (map fst (pictures ss))"
  by (induction ss) (fastforce split: option.splits dest: pictures_sample)+

text \<open>Reading stops with the first picture at or after the limit, or at the end.\<close>

lemma read_on_result:
  "read_on limit ss c fr ts = (found, rest, c', fr', ts') \<Longrightarrow>
   \<exists>mid. ss = mid @ rest \<and> c' = fold (\<lambda>(x, f). cache_insert (secs_to_micros x) f) (pictures mid) c
     \<and> (if pictures mid = [] then fr' = fr \<and> ts' = ts
        else fr' = Some (snd (last (pictures mid))) \<and> ts' = fst (last (pictures mid)))
     \<and> (\<forall>p \<in> set (butlast (pictures mid)). fst p < limit)
     \<and> (if found then limit \<le> ts' else rest = [] \<and> (mid \<noteq> [] \<longrightarrow> ts' < limit))
     \<and> (found \<and> pictures mid = [] \<longrightarrow> (\<exists>s ms. mid = s # ms))"
proof (induction ss arbitrary: c fr ts)
  case Nil
  then show ?case by (auto intro!: exI [of _ "[]"])
next
  case (Cons s ss)
  show ?case
  proof (cases "sm_image s")
    case None
    show ?thesis
    proof (cases "limit \<le> ts")
      case True
      then show ?thesis using Cons.prems None by (auto intro!: exI [of _ "[s]"])
    next
      case False
      then have "read_on limit ss c fr ts = (found, rest, c', fr', ts')" using Cons.prems None by simp
      from Cons.IH [OF this] obtain mid where m:
        "ss = mid @ rest" "c' = fold (\<lambda>(x, f). cache_insert (secs_to_micros x) f) (pictures mid) c"
        "if pictures mid = [] then fr' = fr \<and> ts' = ts
         else fr' = Some (snd (last (pictures mid))) \<and> ts' = fst (last (pictures mid))"
        "\<forall>p \<in> set (butlast (pictures mid)). fst p < limit"
        "if found then limit \<le> ts' else rest = [] \<and> (mid \<noteq> [] \<longrightarrow> ts' < limit)"
        by blast
      with False None show ?thesis
        by (intro exI [of _ "s # mid"]) (auto split: if_splits)
    qed
  next
    case (Some f)
    show ?thesis
    proof (cases "limit \<le> sm_time s")
      case True
      then have "read_on limit (s # ss) c fr ts
          = (True, ss, cache_insert (secs_to_micros (sm_time s)) f c, Some f, sm_time s)"
        using Some by simp
      with Cons.prems have r: "found" "rest = ss" "c' = cache_insert (secs_to_micros (sm_time s)) f c"
          "fr' = Some f" "ts' = sm_time s"
        by auto
      have p: "pictures [s] = [(sm_time s, f)]" using Some by simp
      show ?thesis by (rule exI [of _ "[s]"], unfold p r) (use True r(1) in simp)
    next
      case False
      then have "read_on limit ss (cache_insert (secs_to_micros (sm_time s)) f c) (Some f) (sm_time s)
          = (found, rest, c', fr', ts')"
        using Cons.prems Some by simp
      from Cons.IH [OF this] obtain mid where m:
        "ss = mid @ rest"
        "c' = fold (\<lambda>(x, f). cache_insert (secs_to_micros x) f) (pictures mid) (cache_insert (secs_to_micros (sm_time s)) f c)"
        "if pictures mid = [] then fr' = Some f \<and> ts' = sm_time s
         else fr' = Some (snd (last (pictures mid))) \<and> ts' = fst (last (pictures mid))"
        "\<forall>p \<in> set (butlast (pictures mid)). fst p < limit"
        "if found then limit \<le> ts' else rest = [] \<and> (mid \<noteq> [] \<longrightarrow> ts' < limit)"
        by blast
      with False Some show ?thesis
        by (intro exI [of _ "s # mid"]) (auto split: if_splits)
    qed
  qed
qed
lemma secs_to_micros_close: "\<bar>x\<bar> \<le> 10 ^ 12 \<Longrightarrow> \<bar>real_of_int (secs_to_micros x) - x * 1000000\<bar> \<le> 1/2"
proof -
  assume x: "\<bar>x\<bar> \<le> 10 ^ 12"
  have r: "\<bar>real_of_int (round_away y) - y\<bar> \<le> 1/2" for y :: real
    unfolding round_away_def by (cases "0 \<le> y") (simp_all only: if_True if_False, linarith+)
  have "x \<le> 1000000000000" "- x \<le> 1000000000000" using x by simp_all
  with r [of "x * 1000000"]
  have "- 1000000000000000001 \<le> real_of_int (round_away (x * 1000000))"
      "real_of_int (round_away (x * 1000000)) \<le> 1000000000000000001"
    by linarith+
  then have "real_of_int (- 1000000000000000001) \<le> real_of_int (round_away (x * 1000000))"
      "real_of_int (round_away (x * 1000000)) \<le> real_of_int 1000000000000000001"
    by (simp_all only: of_int_minus of_int_numeral)
  then have "- 1000000000000000001 \<le> round_away (x * 1000000)" "round_away (x * 1000000) \<le> 1000000000000000001"
    by (simp_all only: of_int_le_iff)
  then have "secs_to_micros x = round_away (x * 1000000)"
    by (simp add: secs_to_micros_def saturating_signed_def)
  with r show ?thesis by simp
qed

lemma cache_insert_set: "set (cache_insert k f c) \<subseteq> insert (k, f) (set c)"
  by (induction c rule: cache_insert.induct) auto

text \<open>What holds of the decoder of an asset with the samples \<open>A\<close>: the cache has decoded pictures under their times, and
the reader goes on where its last picture ended.\<close>

definition cache_ok :: "'f sample list \<Rightarrow> (int \<times> 'f) list \<Rightarrow> bool" where
  "cache_ok A c \<longleftrightarrow> (\<forall>(k, f) \<in> set c. \<exists>x. (x, f) \<in> set (pictures A) \<and> k = secs_to_micros x)"

definition reader_ok :: "'f sample list \<Rightarrow> 'f active_reader \<Rightarrow> bool" where
  "reader_ok A r \<longleftrightarrow> (\<exists>seen. A = seen @ rd_rest r \<and> pictures seen \<noteq> [] \<and> last (pictures seen) = (rd_last_ts r, rd_last_frame r))"

definition decoder_ok :: "'f sample list \<Rightarrow> 'f video_decoder \<Rightarrow> bool" where
  "decoder_ok A d \<longleftrightarrow> 0 < de_nominal_fps d \<and> cache_ok A (de_cache d)
     \<and> (\<forall>r. de_reader d = Some r \<longrightarrow> reader_ok A r)"

text \<open>A new reader has the asset's samples from its start on.\<close>

definition reader_answers :: "'f sample list \<Rightarrow> (int \<Rightarrow> decoder_error + 'f sample list) \<Rightarrow> bool" where
  "reader_answers A open_reader \<longleftrightarrow>
     (\<forall>start ss. open_reader start = Inr ss \<longrightarrow>
        (\<exists>before. A = before @ ss \<and> (\<forall>s \<in> set before. sm_time s < real_of_int start / 1000000)))"

definition asset_ok :: "'f sample list \<Rightarrow> bool" where
  "asset_ok A \<longleftrightarrow> sorted_wrt (<) (map sm_time A) \<and> (\<forall>s \<in> set A. \<bar>sm_time s\<bar> \<le> 10 ^ 12)"

text \<open>
  A picture shown for a time: one within the tolerance (up to the rounding of three times to microseconds), or one at
  most 10 ms after the time (the last one shown, which is shown again for a time that little before it), or the
  first one after the time, or, when the file has no later one, its last.
\<close>

definition frame_shown :: "'f sample list \<Rightarrow> real \<Rightarrow> real \<Rightarrow> 'f \<Rightarrow> bool" where
  "frame_shown A tol t f \<longleftrightarrow>
     (\<exists>x. (x, f) \<in> set (pictures A) \<and>
        (\<bar>x - t\<bar> \<le> tol + (3/2) / 1000000
         \<or> t < x \<and> x \<le> t + 1/100
         \<or> t < x \<and> (\<forall>(y, g) \<in> set (pictures A). t + 1/1000000 \<le> y \<longrightarrow> x \<le> y)
         \<or> x < t \<and> (\<forall>(y, g) \<in> set (pictures A). y \<le> x)))"

lemma cache_fold_ok:
  "cache_ok A c \<Longrightarrow> set ps \<subseteq> set (pictures A) \<Longrightarrow>
   cache_ok A (fold (\<lambda>(x, f). cache_insert (secs_to_micros x) f) ps c)"
proof (induction ps arbitrary: c)
  case (Cons p ps)
  obtain x f where p: "p = (x, f)" by (cases p)
  have "cache_ok A (cache_insert (secs_to_micros x) f c)"
    using Cons.prems cache_insert_set [of "secs_to_micros x" f c] unfolding cache_ok_def p by fastforce
  then show ?case using Cons p by simp
qed simp

lemma cached_near_shown:
  assumes "cached_near (secs_to_micros t) (secs_to_micros tol) c = Some f" and "cache_ok A c" and "asset_ok A"
    and "\<bar>t\<bar> \<le> 10 ^ 12" and "0 \<le> tol" and "tol \<le> 10 ^ 12"
  shows "frame_shown A tol t f"
proof -
  from assms(1) obtain k where k: "(k, f) \<in> set c"
      "secs_to_micros t - secs_to_micros tol \<le> k" "k \<le> secs_to_micros t + secs_to_micros tol"
    by (auto simp: cached_near_def dest!: min_by_Some)
  with assms(2) obtain x where x: "(x, f) \<in> set (pictures A)" "k = secs_to_micros x" by (auto simp: cache_ok_def)
  from x(1) assms(3) have "\<bar>x\<bar> \<le> 10 ^ 12" by (auto simp: asset_ok_def dest!: pictures_sample)
  note close = secs_to_micros_close [OF this] secs_to_micros_close [OF assms(4)]
  have ctol: "\<bar>real_of_int (secs_to_micros tol) - tol * 1000000\<bar> \<le> 1/2"
    using assms by (intro secs_to_micros_close) auto
  from k x have "\<bar>real_of_int (secs_to_micros x) - real_of_int (secs_to_micros t)\<bar> \<le> real_of_int (secs_to_micros tol)"
    by linarith
  with close ctol have "\<bar>x * 1000000 - t * 1000000\<bar> \<le> tol * 1000000 + 3/2" by linarith
  then have "\<bar>x - t\<bar> \<le> tol + (3/2) / 1000000" by linarith
  then show ?thesis unfolding frame_shown_def using x(1) by blast
qed

text \<open>The last of the pictures read, when those before it are too early.\<close>

lemma last_read_shown:
  assumes "asset_ok A" and "A = before @ mid @ rest" and "pictures mid \<noteq> []" and "last (pictures mid) = (x, f)"
    and "\<forall>p \<in> set (butlast (pictures mid)). fst p < t - tol"
    and "\<forall>p \<in> set (pictures before). fst p < t + 1/1000000"
    and "if found then t - tol \<le> x else rest = [] \<and> x < t - tol" and "0 \<le> tol"
  shows "frame_shown A tol t f"
proof -
  from assms(3,4) have mid: "pictures mid = butlast (pictures mid) @ [(x, f)]" by (metis append_butlast_last_id)
  then have pA: "pictures A = pictures before @ butlast (pictures mid) @ [(x, f)] @ pictures rest"
    unfolding assms(2) by simp
  have "sorted_wrt (<) (map fst (pictures A))" using assms(1) by (simp add: asset_ok_def pictures_sorted)
  then have s: "\<forall>p \<in> set (pictures rest). x < fst p" "\<forall>p \<in> set (pictures before). fst p < x"
      "\<forall>p \<in> set (butlast (pictures mid)). fst p < x"
    unfolding pA by (simp_all add: sorted_wrt_append)
  have x: "(x, f) \<in> set (pictures A)" unfolding pA by simp
  consider "\<bar>x - t\<bar> \<le> tol" | "found" "t < x" | "\<not> found" "x < t - tol"
    using assms(7,8) by (cases found) (force simp: abs_le_iff)+
  then show ?thesis
  proof cases
    case 1
    then have "\<bar>x - t\<bar> \<le> tol + (3/2) / 1000000" by linarith
    then show ?thesis unfolding frame_shown_def using x by blast
  next
    case 2
    have "\<forall>(y, g) \<in> set (pictures A). t + 1/1000000 \<le> y \<longrightarrow> x \<le> y"
      unfolding pA using assms(5,6,8) s by fastforce
    then show ?thesis unfolding frame_shown_def using x 2 by blast
  next
    case 3
    then have "pictures rest = []" using assms(7) by simp
    then have "set (pictures A) = set (pictures before) \<union> set (butlast (pictures mid)) \<union> {(x, f)}"
      unfolding pA by auto
    then have "fst p \<le> x" if "p \<in> set (pictures A)" for p using that s(2,3) by force
    then have "\<forall>(y, g) \<in> set (pictures A). y \<le> x" by force
    moreover have "x < t" using 3(2) assms(8) by simp
    ultimately show ?thesis unfolding frame_shown_def using x by blast
  qed
qed
text \<open>What a request answers: a picture shown for its time, or an error when the reader cannot be opened, has no picture
from the time on, or starts with a sample without one at the start of the file.\<close>

definition answer_ok ::
    "'f sample list \<Rightarrow> real \<Rightarrow> real \<Rightarrow> (int \<Rightarrow> decoder_error + 'f sample list) \<Rightarrow> decoder_error + 'f \<Rightarrow> bool" where
  "answer_ok A tol t open_reader answer \<longleftrightarrow>
     (case answer of
        Inr f \<Rightarrow> frame_shown A tol t f
      | Inl e \<Rightarrow> open_reader (secs_to_micros t) = Inl e
          \<or> e = DecodeFailed \<and> (\<exists>ss. open_reader (secs_to_micros t) = Inr ss
              \<and> (pictures ss = [] \<or> t \<le> tol \<and> sm_image (hd ss) = None)))"

lemma seek_frame_correct:
  assumes "decoder_ok A d" and A: "asset_ok A" and "reader_answers A open_reader" and t: "\<bar>t\<bar> \<le> 10 ^ 12"
    and seek: "seek_frame open_reader t d = (d', answer)"
  shows "decoder_ok A d' \<and> de_nominal_fps d' = de_nominal_fps d \<and> answer_ok A (tolerance d) t open_reader answer"
proof (cases "open_reader (secs_to_micros t)")
  case (Inl e)
  then show ?thesis using assms by (auto simp: seek_frame_def decoder_ok_def answer_ok_def)
next
  case (Inr ss)
  obtain before where before: "A = before @ ss" "\<forall>s \<in> set before. sm_time s < real_of_int (secs_to_micros t) / 1000000"
    using assms(3) Inr by (auto simp: reader_answers_def)
  obtain found rest c fr x where r: "read_on (t - tolerance d) ss (de_cache d) None 0 = (found, rest, c, fr, x)"
    by (metis prod_cases5)
  from read_on_result [OF this] obtain mid where m: "ss = mid @ rest"
      "c = fold (\<lambda>(x, f). cache_insert (secs_to_micros x) f) (pictures mid) (de_cache d)"
      "if pictures mid = [] then fr = None \<and> x = 0
       else fr = Some (snd (last (pictures mid))) \<and> x = fst (last (pictures mid))"
      "\<forall>p \<in> set (butlast (pictures mid)). fst p < t - tolerance d"
      "if found then t - tolerance d \<le> x else rest = [] \<and> (mid \<noteq> [] \<longrightarrow> x < t - tolerance d)"
      "found \<and> pictures mid = [] \<longrightarrow> (\<exists>s ms. mid = s # ms)"
    by blast
  have cache: "cache_ok A c"
    unfolding m(2) using assms(1) before(1) m(1) by (intro cache_fold_ok) (auto simp: decoder_ok_def)
  have fps: "0 < de_nominal_fps d" using assms(1) by (simp add: decoder_ok_def)
  show ?thesis
  proof (cases "pictures mid")
    case Nil
    have e: "seek_frame open_reader t d = (d\<lparr>de_reader := None, de_cache := c\<rparr>, Inl DecodeFailed)"
      using m(3) Nil r Inr by (simp add: seek_frame_def)
    have "pictures ss = [] \<or> t \<le> tolerance d \<and> sm_image (hd ss) = None"
    proof (cases found)
      case True
      then obtain s ms where "mid = s # ms" using m(6) Nil by blast
      then show ?thesis using m(1,3,5) Nil True by (auto split: option.splits)
    next
      case False
      then show ?thesis using m(1,5) Nil by simp
    qed
    then show ?thesis using seek e Inr cache fps by (auto simp: answer_ok_def decoder_ok_def)
  next
    case (Cons p ps)
    define f where "f = snd (last (pictures mid))"
    have mf: "last (pictures mid) = (x, f)" "fr = Some f" using m(3) Cons by (simp_all add: f_def)
    have e: "seek_frame open_reader t d
        = (d\<lparr>de_reader := Some \<lparr>rd_rest = rest, rd_last_frame = f, rd_last_ts = x\<rparr>, de_cache := c\<rparr>, Inr f)"
      using mf(2) r Inr by (simp add: seek_frame_def)
    have "real_of_int (secs_to_micros t) / 1000000 < t + 1/1000000" using secs_to_micros_close [OF t] by linarith
    then have "\<forall>p \<in> set (pictures before). fst p < t + 1/1000000"
      using before(2) by (force dest: pictures_sample)
    then have "frame_shown A (tolerance d) t f"
      using A before(1) m mf(1) Cons fps
      by (intro last_read_shown [of A before mid rest x f t "tolerance d" found])
         (auto simp: tolerance_def split: if_splits)
    moreover have "reader_ok A \<lparr>rd_rest = rest, rd_last_frame = f, rd_last_ts = x\<rparr>"
      unfolding reader_ok_def using before(1) m(1) mf(1) Cons by (intro exI [of _ "before @ mid"]) simp
    ultimately show ?thesis using seek e cache fps by (auto simp: answer_ok_def decoder_ok_def)
  qed
qed
lemma frame_at_correct:
  assumes d: "decoder_ok A d" "tolerance d \<le> 10 ^ 12" and A: "asset_ok A" and opener: "reader_answers A open_reader"
    and t: "\<bar>t\<bar> \<le> 10 ^ 12" and got: "frame_at open_reader t d = (d', answer)"
  shows "decoder_ok A d' \<and> de_nominal_fps d' = de_nominal_fps d \<and> answer_ok A (tolerance d) t open_reader answer"
proof -
  note seek = seek_frame_correct [OF _ A opener t]
  have fps: "0 < de_nominal_fps d" and tol: "0 \<le> tolerance d" and cache: "cache_ok A (de_cache d)"
    using d by (auto simp: decoder_ok_def tolerance_def)
  consider f where "cached_near (secs_to_micros t) (secs_to_micros (tolerance d)) (de_cache d) = Some f"
      "d' = d" "answer = Inr f"
    | "frame_at open_reader t d = seek_frame open_reader t d"
    | r where "de_reader d = Some r" "can_decode_sequentially (t - rd_last_ts r) (de_gop_duration d)"
      "frame_at open_reader t d =
         (if t - rd_last_ts r \<le> tolerance d then (d, Inr (rd_last_frame r))
          else case read_on (t - tolerance d) (rd_rest r) (de_cache d) (Some (rd_last_frame r)) (rd_last_ts r) of
            (True, rest, cache, Some f, ts) \<Rightarrow>
              (d\<lparr>de_reader := Some \<lparr>rd_rest = rest, rd_last_frame = f, rd_last_ts = ts\<rparr>, de_cache := cache\<rparr>, Inr f)
          | (_, _, cache, _, _) \<Rightarrow> seek_frame open_reader t (d\<lparr>de_cache := cache\<rparr>))"
  proof (cases "cached_near (secs_to_micros t) (secs_to_micros (tolerance d)) (de_cache d)")
    case (Some f)
    then show ?thesis using that(1) got by (simp add: frame_at_def)
  next
    case None
    show ?thesis
    proof (cases "de_reader d")
      case None
      then show ?thesis using that(2) \<open>cached_near _ _ _ = None\<close> by (simp add: frame_at_def)
    next
      case (Some r)
      then show ?thesis using that(2,3) \<open>cached_near _ _ _ = None\<close>
        by (cases "can_decode_sequentially (t - rd_last_ts r) (de_gop_duration d)") (simp_all add: frame_at_def Let_def)
    qed
  qed
  then show ?thesis
  proof cases
    case (1 f)
    then show ?thesis
      using cached_near_shown [OF _ cache A t tol d(2)] d by (simp add: answer_ok_def)
  next
    case 2
    then have "seek_frame open_reader t d = (d', answer)" using got by simp
    then show ?thesis by (rule seek [OF d(1)])
  next
    case (3 r)
    have "reader_ok A r" using d 3(1) by (simp add: decoder_ok_def)
    then obtain seen where seen: "A = seen @ rd_rest r" "pictures seen \<noteq> []"
        "last (pictures seen) = (rd_last_ts r, rd_last_frame r)"
      by (auto simp: reader_ok_def)
    have in_A: "(rd_last_ts r, rd_last_frame r) \<in> set (pictures A)"
      using seen by (metis UnI1 last_in_set pictures_append set_append)
    show ?thesis
    proof (cases "t - rd_last_ts r \<le> tolerance d")
      case True
      then have "\<bar>rd_last_ts r - t\<bar> \<le> tolerance d + (3/2) / 1000000 \<or> t < rd_last_ts r \<and> rd_last_ts r \<le> t + 1/100"
        using 3(2) by (simp add: can_decode_sequentially_def) linarith
      then show ?thesis using True got d 3 in_A by (auto simp: answer_ok_def frame_shown_def)
    next
      case late: False
      obtain found rest c fr x where r:
        "read_on (t - tolerance d) (rd_rest r) (de_cache d) (Some (rd_last_frame r)) (rd_last_ts r) = (found, rest, c, fr, x)"
        by (metis prod_cases5)
      from read_on_result [OF this] obtain mid where m: "rd_rest r = mid @ rest"
          "c = fold (\<lambda>(x, f). cache_insert (secs_to_micros x) f) (pictures mid) (de_cache d)"
          "if pictures mid = [] then fr = Some (rd_last_frame r) \<and> x = rd_last_ts r
           else fr = Some (snd (last (pictures mid))) \<and> x = fst (last (pictures mid))"
          "\<forall>p \<in> set (butlast (pictures mid)). fst p < t - tolerance d"
          "if found then t - tolerance d \<le> x else rest = [] \<and> (mid \<noteq> [] \<longrightarrow> x < t - tolerance d)"
        by blast
      have c: "cache_ok A c"
        unfolding m(2) using cache seen(1) m(1) by (intro cache_fold_ok) auto
      show ?thesis
      proof (cases found)
        case False
        then have "frame_at open_reader t d = seek_frame open_reader t (d\<lparr>de_cache := c\<rparr>)"
          using 3 late r by simp
        moreover have "decoder_ok A (d\<lparr>de_cache := c\<rparr>)" "tolerance (d\<lparr>de_cache := c\<rparr>) = tolerance d"
          using d c by (simp_all add: decoder_ok_def tolerance_def)
        moreover have "seek_frame open_reader t (d\<lparr>de_cache := c\<rparr>) = (d', answer)"
          using calculation(1) got by simp
        ultimately show ?thesis using seek [of "d\<lparr>de_cache := c\<rparr>" d' answer] by simp
      next
        case True
        then have mid: "pictures mid \<noteq> []" using m(3,5) late by auto
        define f where "f = snd (last (pictures mid))"
        have mf: "last (pictures mid) = (x, f)" "fr = Some f" using m(3) mid by (simp_all add: f_def)
        have "sorted_wrt (<) (map fst (pictures A))" using A by (simp add: asset_ok_def pictures_sorted)
        then have "\<forall>p \<in> set (pictures seen). fst p \<le> rd_last_ts r"
          unfolding seen(1) using seen(2,3)
          by (cases "pictures seen" rule: rev_cases) (auto simp: sorted_wrt_append)
        then have "\<forall>p \<in> set (pictures seen). fst p < t + 1/1000000" using late tol by force
        then have "frame_shown A (tolerance d) t f"
          using A seen(1) m mf(1) mid tol True
          by (intro last_read_shown [of A seen mid rest x f t "tolerance d" found]) auto
        moreover have "reader_ok A \<lparr>rd_rest = rest, rd_last_frame = f, rd_last_ts = x\<rparr>"
          unfolding reader_ok_def using seen(1) m(1) mf(1) mid by (intro exI [of _ "seen @ mid"]) simp
        ultimately show ?thesis using got c fps 3 late r mf(2) True by (auto simp: answer_ok_def decoder_ok_def)
      qed
    qed
  qed
qed

text \<open>The requests one after another, as a preview makes them.\<close>

fun frames_at ::
    "(real \<times> (int \<Rightarrow> decoder_error + 'f sample list)) list \<Rightarrow> 'f video_decoder \<Rightarrow> (decoder_error + 'f) list" where
  "frames_at [] d = []"
| "frames_at ((t, open_reader) # requests) d =
     (case frame_at open_reader t d of (d', answer) \<Rightarrow> answer # frames_at requests d')"

lemma frames_at_answers:
  "decoder_ok A d \<Longrightarrow> tolerance d \<le> 10 ^ 12 \<Longrightarrow> asset_ok A \<Longrightarrow>
   \<forall>(t, open_reader) \<in> set requests. \<bar>t\<bar> \<le> 10 ^ 12 \<and> reader_answers A open_reader \<Longrightarrow>
   list_all2 (\<lambda>(t, open_reader). answer_ok A (tolerance d) t open_reader) requests (frames_at requests d)"
proof (induction requests arbitrary: d)
  case (Cons q requests)
  obtain t open_reader where q: "q = (t, open_reader)" by (cases q)
  obtain d' answer where a: "frame_at open_reader t d = (d', answer)" by (metis surj_pair)
  from frame_at_correct [OF Cons.prems(1-3) _ _ a] Cons.prems(4) q
  have c: "decoder_ok A d'" "de_nominal_fps d' = de_nominal_fps d" "answer_ok A (tolerance d) t open_reader answer"
    by auto
  have "tolerance d' = tolerance d" using c(2) by (simp add: tolerance_def)
  then show ?case using Cons.IH [of d'] Cons.prems c q a by simp
qed simp
lemma open_decoder_ok:
  assumes "open_decoder utf8_path (Some r) = Inr d" and "tr_frame_rate r \<le> 0 \<or> 1/1000 \<le> tr_frame_rate r"
  shows "decoder_ok A d" and "tolerance d \<le> 10 ^ 12"
proof -
  have "de_nominal_fps d = (if 0 < tr_frame_rate r then tr_frame_rate r else 30)" "de_cache d = []" "de_reader d = None"
    using assms(1) by (auto simp: open_decoder_def Let_def split: if_splits)
  then show "decoder_ok A d" "tolerance d \<le> 10 ^ 12"
    using assms(2) by (auto simp: decoder_ok_def cache_ok_def tolerance_def field_simps)
qed

text \<open>
  C19: Whatever times are asked for one after another, forwards or backwards, each answer is a picture of the file
  within half a frame of the time asked for, or at most 10 ms after it, or the first one after it, or the last one
  of the file when all are earlier; an error is answered only when a new reader could not be opened or had no
  picture from the time on, or, for a time at the start of the file, when the reader began with a sample without
  a picture.
\<close>

theorem decoder_shows_frames:
  assumes "open_decoder utf8_path (Some r) = Inr d" and "tr_frame_rate r \<le> 0 \<or> 1/1000 \<le> tr_frame_rate r"
    and "asset_ok A"
    and "\<forall>(t, open_reader) \<in> set requests. \<bar>t\<bar> \<le> 10 ^ 12 \<and> reader_answers A open_reader"
  shows "list_all2 (\<lambda>(t, open_reader). answer_ok A (tolerance d) t open_reader) requests (frames_at requests d)"
  using open_decoder_ok [OF assms(1,2)] assms(3,4) by (intro frames_at_answers)

lemma reader_answers_dropWhile:
  "reader_answers A (\<lambda>start. Inr (dropWhile (\<lambda>s. sm_time s < real_of_int start / 1000000) A))"
  unfolding reader_answers_def
  by (auto intro!: exI [of _ "takeWhile (\<lambda>s. sm_time s < real_of_int _ / 1000000) A"] dest: set_takeWhileD)

theorem decoder_shows_frames_witness:
  "list_all2
     (\<lambda>(t, open_reader). answer_ok [\<lparr>sm_time = 0, sm_image = Some CHR ''a''\<rparr>, \<lparr>sm_time = 1/30, sm_image = Some CHR ''b''\<rparr>]
        (1/60) t open_reader)
     [(1/30, \<lambda>start. Inr (dropWhile (\<lambda>s. sm_time s < real_of_int start / 1000000)
          [\<lparr>sm_time = 0, sm_image = Some CHR ''a''\<rparr>, \<lparr>sm_time = 1/30, sm_image = Some CHR ''b''\<rparr>])),
      (0, \<lambda>start. Inr (dropWhile (\<lambda>s. sm_time s < real_of_int start / 1000000)
          [\<lparr>sm_time = 0, sm_image = Some CHR ''a''\<rparr>, \<lparr>sm_time = 1/30, sm_image = Some CHR ''b''\<rparr>]))]
     (frames_at
        [(1/30, \<lambda>start. Inr (dropWhile (\<lambda>s. sm_time s < real_of_int start / 1000000)
            [\<lparr>sm_time = 0, sm_image = Some CHR ''a''\<rparr>, \<lparr>sm_time = 1/30, sm_image = Some CHR ''b''\<rparr>])),
         (0, \<lambda>start. Inr (dropWhile (\<lambda>s. sm_time s < real_of_int start / 1000000)
            [\<lparr>sm_time = 0, sm_image = Some CHR ''a''\<rparr>, \<lparr>sm_time = 1/30, sm_image = Some CHR ''b''\<rparr>]))]
        \<lparr>de_duration = 0, de_width = 2, de_height = 2, de_nominal_fps = 30, de_gop_duration = 3,
         de_reader = None, de_cache = []\<rparr>)"
proof -
  let ?A = "[\<lparr>sm_time = 0, sm_image = Some CHR ''a''\<rparr>, \<lparr>sm_time = 1/30, sm_image = Some CHR ''b''\<rparr>]"
  let ?r = "\<lparr>tr_value = 0, tr_timescale = 0, tr_width = 2, tr_height = 2, tr_frame_rate = 30, tr_cursor = None\<rparr>"
  let ?d = "\<lparr>de_duration = 0, de_width = 2, de_height = 2, de_nominal_fps = 30, de_gop_duration = 3,
             de_reader = None, de_cache = []\<rparr> :: char video_decoder"
  let ?o = "\<lambda>start. Inr (dropWhile (\<lambda>s. sm_time s < real_of_int start / 1000000) ?A)"
  have opened: "open_decoder True (Some ?r) = Inr ?d"
    by (simp add: open_decoder_def estimate_gop_duration_def fallback_gop_duration_secs_def as_unsigned_def
        round_half_even_def duration_max_def u64_max_def Let_def)
  have rate: "tr_frame_rate ?r \<le> 0 \<or> 1/1000 \<le> tr_frame_rate ?r" by simp
  have asset: "asset_ok ?A" by (simp add: asset_ok_def)
  have requests: "\<forall>(t :: real, open_reader) \<in> set [(1/30, ?o), (0, ?o)]. \<bar>t\<bar> \<le> 10 ^ 12 \<and> reader_answers ?A open_reader"
    using reader_answers_dropWhile [of ?A] by (auto simp del: dropWhile.simps)
  have "tolerance ?d = 1/60" by (simp add: tolerance_def)
  then show ?thesis using decoder_shows_frames [OF opened rate asset requests] by (simp only:)
qed

text \<open>At the start of a file the time of the last picture is still 0, which has reached the limit: a leading sample
without a picture ends the loop, and the frames after it are not looked at.\<close>

lemma leading_marker_fails:
  assumes "open_reader (secs_to_micros t) = Inr (s # ss)" and "sm_image s = None" and "t \<le> tolerance d"
  shows "snd (seek_frame open_reader t d) = Inl DecodeFailed"
  using assms by (simp add: seek_frame_def)

text \<open>Nothing is taken out of the cache: every frame decoded stays.\<close>

lemma cache_insert_keys: "fst ` set (cache_insert k f c) = insert k (fst ` set c)"
  by (induction c rule: cache_insert.induct) auto

lemma fold_cache_keys: "fst ` set c \<subseteq> fst ` set (fold (\<lambda>(x, f). cache_insert (secs_to_micros x) f) ps c)"
proof (induction ps arbitrary: c)
  case (Cons p ps)
  obtain x f where "p = (x, f)" by (cases p)
  then show ?case using Cons [of "cache_insert (secs_to_micros x) f c"] by (auto simp: cache_insert_keys)
qed simp

lemma read_on_keys:
  "read_on limit ss c fr ts = (found, rest, c', fr', ts') \<Longrightarrow> fst ` set c \<subseteq> fst ` set c'"
  by (drule read_on_result) (use fold_cache_keys in blast)

lemma seek_frame_keys: "fst ` set (de_cache d) \<subseteq> fst ` set (de_cache (fst (seek_frame open_reader t d)))"
  unfolding seek_frame_def by (auto split: sum.splits prod.splits option.splits dest!: read_on_keys)

lemma cache_only_grows: "fst ` set (de_cache d) \<subseteq> fst ` set (de_cache (fst (frame_at open_reader t d)))"
proof -
  have sequential: "fst ` set (de_cache d) \<subseteq> fst ` set (de_cache (fst
      (case read_on limit ss (de_cache d) fr ts of
         (True, rest, cache, Some f, ts) \<Rightarrow>
           (d\<lparr>de_reader := Some \<lparr>rd_rest = rest, rd_last_frame = f, rd_last_ts = ts\<rparr>, de_cache := cache\<rparr>, Inr f)
       | (_, _, cache, _, _) \<Rightarrow> seek_frame open_reader t (d\<lparr>de_cache := cache\<rparr>))))" for limit ss fr ts
  proof -
    obtain found rest c fr' ts' where r: "read_on limit ss (de_cache d) fr ts = (found, rest, c, fr', ts')"
      by (metis prod_cases5)
    from read_on_keys [OF this] seek_frame_keys [of "d\<lparr>de_cache := c\<rparr>" open_reader t] r
    show ?thesis by (cases found; cases fr') auto
  qed
  show ?thesis
  proof (cases "cached_near (secs_to_micros t) (secs_to_micros (tolerance d)) (de_cache d)")
    case None
    show ?thesis
    proof (cases "de_reader d")
      case (Some r)
      then show ?thesis using None seek_frame_keys [of d open_reader t] sequential
        by (simp add: frame_at_def Let_def)
    qed (simp add: frame_at_def None seek_frame_keys)
  qed (simp add: frame_at_def)
qed

end
