(* ===== verification/Editor_Export.thy ===== *)
theory Editor_Export
  imports Editor_State Compositor Asset_Writers Video_Decoder
begin

section \<open>Exporting a recording (apps/blip-capture/src/editor.rs)\<close>

text \<open>
  The export dialog's state, composing a frame of the timeline from the decoders' pictures, and the export thread
  that encodes every frame and the mixed audio. What AVFoundation, the GPU and the encoder answer is data; a
  \<open>while\<close> loop that waits for the encoder takes its answers one by one and is still waiting when they run out.
\<close>

subsection \<open>Paths\<close>

text \<open>A path of a file as its directory, with the separator, and its name.\<close>

definition split_path :: "string \<Rightarrow> string \<times> string" where
  "split_path p = (let n = length (takeWhile (\<lambda>c. c \<noteq> CHR ''/'') (rev p)) in (take (length p - n) p, drop (length p - n) p))"

definition path_parent :: "string \<Rightarrow> string option" where
  "path_parent p =
     (if p = [] \<or> p = ''/'' then None
      else Some (let d = fst (split_path p) in if d = ''/'' then d else butlast d))"

definition name_stem :: "string \<Rightarrow> string" where
  "name_stem name =
     (let n = length (takeWhile (\<lambda>c. c \<noteq> CHR ''.'') (rev name))
      in if length name \<le> n + 1 then name else take (length name - n - 1) name)"

definition file_stem :: "string \<Rightarrow> string option" where
  "file_stem p = (let name = snd (split_path p) in if name = [] \<or> name = ''..'' then None else Some (name_stem name))"

definition with_extension :: "string \<Rightarrow> string \<Rightarrow> string" where
  "with_extension p ext =
     (case split_path p of (d, name) \<Rightarrow>
        if name = [] \<or> name = ''..'' then p
        else d @ name_stem name @ (if ext = [] then [] else CHR ''.'' # ext))"

subsection \<open>The dialog\<close>

definition format_extension :: "export_format \<Rightarrow> string" where
  "format_extension f = (case f of Mp4Format \<Rightarrow> ''mp4'' | MovFormat \<Rightarrow> ''mov'')"

definition file_type :: "export_format \<Rightarrow> video_file_type" where
  "file_type f = (case f of Mp4Format \<Rightarrow> Mp4 | MovFormat \<Rightarrow> Mov)"

definition short_edge :: "export_resolution \<Rightarrow> nat" where
  "short_edge r = (case r of P1080 \<Rightarrow> 1080 | P720 \<Rightarrow> 720)"

record export_panel =
  xp_progress :: real
  xp_exporting :: bool
  xp_error :: "string option"
  xp_path :: "string option"

definition new_panel :: export_panel where
  "new_panel = \<lparr>xp_progress = 0, xp_exporting = False, xp_error = None, xp_path = None\<rparr>"

definition set_export_settings :: "(export_settings \<Rightarrow> export_settings) \<Rightarrow> editor \<Rightarrow> editor" where
  "set_export_settings f e =
     e\<lparr>ed_bundle := (ed_bundle e)\<lparr>bb_export_settings := f (bb_export_settings (ed_bundle e))\<rparr>\<rparr>"

text \<open>The buttons of the dialog.\<close>

definition choose_format :: "export_format \<Rightarrow> editor \<times> export_panel \<Rightarrow> editor \<times> export_panel" where
  "choose_format f = (\<lambda>(e, p). (save_bundle (set_export_settings (ex_format_update (\<lambda>_. f)) e), p\<lparr>xp_path := None\<rparr>))"

definition choose_resolution :: "export_resolution \<Rightarrow> editor \<times> export_panel \<Rightarrow> editor \<times> export_panel" where
  "choose_resolution r = (\<lambda>(e, p). (save_bundle (set_export_settings (ex_resolution_update (\<lambda>_. r)) e), p\<lparr>xp_path := None\<rparr>))"

definition choose_fps :: "nat \<Rightarrow> editor \<times> export_panel \<Rightarrow> editor \<times> export_panel" where
  "choose_fps fps = (\<lambda>(e, p). (save_bundle (set_export_settings (ex_fps_update (\<lambda>_. fps)) e), p\<lparr>xp_path := None\<rparr>))"

datatype prompt_answer = PathChosen string | PromptFailed string | PromptCancelled

text \<open>The folder and the name the prompt starts with; \<open>home\<close> is the environment's answer.\<close>

definition suggested_destination :: "string \<Rightarrow> bool \<Rightarrow> string option \<Rightarrow> string \<Rightarrow> editor \<Rightarrow> string \<times> string" where
  "suggested_destination path stem_utf8 home temp_dir e =
     (let settings = bb_export_settings (ed_bundle e)
      in (case Option.bind (ex_destination settings) path_parent of
            Some directory \<Rightarrow> directory
          | None \<Rightarrow> (case home of Some h \<Rightarrow> join h ''Movies'' | None \<Rightarrow> temp_dir),
          (if stem_utf8 then unwrap_or (file_stem path) ''Blip Export'' else ''Blip Export'')
            @ ''.'' @ format_extension (ex_format settings)))"

definition choose_export_destination :: "prompt_answer \<Rightarrow> editor \<times> export_panel \<Rightarrow> editor \<times> export_panel" where
  "choose_export_destination answer = (\<lambda>(e, p).
     case answer of
       PathChosen path \<Rightarrow>
         (save_bundle (set_export_settings (ex_destination_update (\<lambda>_. Some path)) e), p\<lparr>xp_error := None, xp_path := None\<rparr>)
     | PromptFailed error \<Rightarrow> (e, p\<lparr>xp_error := Some (''Could not choose destination: '' @ error)\<rparr>)
     | PromptCancelled \<Rightarrow> (e, p))"

record export_job =
  xj_output :: string
  xj_file_type :: video_file_type
  xj_short_edge :: nat
  xj_aspect_ratio :: output_aspect_ratio
  xj_fps :: nat
  xj_duration_secs :: real
  xj_bundle :: blip_bundle
  xj_decoder_inputs :: "(string \<times> bool \<times> real) list"
  xj_wallpaper :: "string option"
  xj_background_type :: background_type
  xj_padding :: real
  xj_border_radius :: real
  xj_shadow :: real
  xj_audio_mixer :: audio_mixer

definition decoder_inputs :: "string \<Rightarrow> bundle_input list \<Rightarrow> (string \<times> bool \<times> real) list" where
  "decoder_inputs path inputs =
     map (\<lambda>(index, input). (join path (in_media input), input_is_camera input index, in_start_offset_secs input))
       (filter (\<lambda>(index, input). in_kind input = VideoInput) (enumerate 0 inputs))"

definition export_job_of :: "string \<Rightarrow> string list \<Rightarrow> string \<Rightarrow> editor \<Rightarrow> export_job" where
  "export_job_of path background_images out e =
     (let b = ed_bundle e; settings = bb_export_settings b; appearance = bb_appearance b
      in \<lparr>xj_output = out, xj_file_type = file_type (ex_format settings),
          xj_short_edge = short_edge (ex_resolution settings), xj_aspect_ratio = bb_output_aspect_ratio b,
          xj_fps = ex_fps settings, xj_duration_secs = ed_duration_secs e, xj_bundle = b,
          xj_decoder_inputs = decoder_inputs path (bb_inputs b),
          xj_wallpaper = (if pa_background_type appearance = BgImage
                          then list_get background_images (ed_background_preset e) else None),
          xj_background_type = pa_background_type appearance, xj_padding = pa_padding appearance,
          xj_border_radius = pa_border_radius appearance, xj_shadow = pa_shadow appearance,
          xj_audio_mixer = audio_mixer_of (ed_audio_sources e) b\<rparr>)"

text \<open>The job is handed to a thread, which \<open>spawn_error\<close> says could not be started.\<close>

definition start_export ::
    "string \<Rightarrow> string list \<Rightarrow> string option \<Rightarrow> editor \<times> export_panel \<Rightarrow> (editor \<times> export_panel) \<times> export_job option" where
  "start_export path background_images spawn_error = (\<lambda>(e, p).
     if xp_exporting p then ((e, p), None)
     else case ex_destination (bb_export_settings (ed_bundle e)) of
       None \<Rightarrow> ((e, p\<lparr>xp_error := Some ''Choose a destination before exporting.''\<rparr>), None)
     | Some destination \<Rightarrow>
         if ed_duration_secs e \<le> 0
         then ((e, p\<lparr>xp_error := Some ''There is no video on the timeline to export.''\<rparr>), None)
         else
           (let out = with_extension destination (format_extension (ex_format (bb_export_settings (ed_bundle e))))
            in case spawn_error of
                 Some error \<Rightarrow> ((e, p\<lparr>xp_error := Some (''Could not start export: '' @ error)\<rparr>), None)
               | None \<Rightarrow>
                   ((save_bundle (set_export_settings (ex_destination_update (\<lambda>_. Some out)) e),
                     p\<lparr>xp_exporting := True, xp_progress := 0, xp_error := None, xp_path := None\<rparr>),
                    Some (export_job_of path background_images out e))))"

datatype 'e export_event = ExportProgress real | ExportFinished "'e + string"

definition receive_export :: "('e \<Rightarrow> string) \<Rightarrow> 'e export_event \<Rightarrow> export_panel \<Rightarrow> export_panel" where
  "receive_export show_error event p =
     (case event of
        ExportProgress progress \<Rightarrow> p\<lparr>xp_progress := progress\<rparr>
      | ExportFinished (Inr path) \<Rightarrow> p\<lparr>xp_exporting := False, xp_progress := 1, xp_path := Some path\<rparr>
      | ExportFinished (Inl error) \<Rightarrow> p\<lparr>xp_exporting := False, xp_error := Some (show_error error)\<rparr>)"
subsection \<open>Composing a frame\<close>

definition aligned_input_time :: "real \<Rightarrow> real \<Rightarrow> real option" where
  "aligned_input_time timeline_time_secs start_offset_secs =
     (let input_time_secs = timeline_time_secs - start_offset_secs
      in if 0 \<le> input_time_secs then Some input_time_secs else None)"

type_synonym export_decoder = "pixel_buffer video_decoder \<times> bool \<times> real"
type_synonym openers = "nat \<Rightarrow> int \<Rightarrow> decoder_error + pixel_buffer sample list"

record active_frame =
  af_pixel_buffer :: pixel_buffer
  af_dimensions :: "nat \<times> nat"
  af_is_camera :: bool

text \<open>The picture of each input that has one at the time; \<open>open_reader i\<close> answers the reader the \<open>i\<close>th decoder opens.\<close>

fun active_frames :: "openers \<Rightarrow> real \<Rightarrow> export_decoder list \<Rightarrow> export_decoder list \<times> active_frame list" where
  "active_frames open_reader time_secs [] = ([], [])"
| "active_frames open_reader time_secs ((d, is_camera, start_offset_secs) # ds) =
     (case active_frames (\<lambda>i. open_reader (Suc i)) time_secs ds of (ds', fs) \<Rightarrow>
        (case aligned_input_time time_secs start_offset_secs of
           None \<Rightarrow> ((d, is_camera, start_offset_secs) # ds', fs)
         | Some input_time_secs \<Rightarrow>
             (case frame_at (open_reader 0) input_time_secs d of
                (d', Inl e) \<Rightarrow> ((d', is_camera, start_offset_secs) # ds', fs)
              | (d', Inr pixel_buffer) \<Rightarrow>
                  ((d', is_camera, start_offset_secs) # ds',
                   \<lparr>af_pixel_buffer = pixel_buffer, af_dimensions = (de_width d', de_height d'), af_is_camera = is_camera\<rparr> # fs))))"

datatype export_error =
  OpenFailed string decoder_error | BackgroundFailed string | ContentRendererFailed string | OutputRendererFailed string
| CreateFailed writer_error | NotMapped | NothingDecoded real | ContentFailed string | OutputFailed string | OverlayFailed string
| EncodeFailed writer_error | MixFailed audio_packet_error | EncodeAudioFailed writer_error | FinishFailed writer_error

definition plain_item :: "nat \<Rightarrow> compositor_item" where
  "plain_item i = \<lparr>ci_content = SourceContent i, ci_transform = plain_transform (1/2, 1/2) (1, 1)\<rparr>"

definition canvas_dimensions :: "active_frame list \<Rightarrow> nat \<times> nat" where
  "canvas_dimensions fs =
     (case find (\<lambda>f. \<not> af_is_camera f) fs of
        Some f \<Rightarrow> af_dimensions f
      | None \<Rightarrow> (case fs of [] \<Rightarrow> (1920, 1080) | f # _ \<Rightarrow> af_dimensions f))"

definition has_screen :: "active_frame list \<Rightarrow> bool" where
  "has_screen fs \<longleftrightarrow> (\<exists>f \<in> set fs. \<not> af_is_camera f)"

definition content_camera :: "active_frame list \<Rightarrow> pixel_buffer option" where
  "content_camera fs =
     (if has_screen fs then map_option af_pixel_buffer (find af_is_camera (rev fs)) else None)"

definition screen_frames :: "active_frame list \<Rightarrow> active_frame list" where
  "screen_frames fs = filter (\<lambda>f. \<not> has_screen fs \<or> \<not> af_is_camera f) fs"

definition content_sources :: "active_frame list \<Rightarrow> compositor_source list" where
  "content_sources fs = map (\<lambda>f. \<lparr>cs_pixel_buffer = af_pixel_buffer f, cs_content_rect = None\<rparr>) (screen_frames fs)"

definition content_items :: "active_frame list \<Rightarrow> compositor_item list" where
  "content_items fs = map plain_item [0..<length (screen_frames fs)]"

text \<open>A buffer the compositor has drawn: what it drew, and the buffer.\<close>

definition rendered_buffer :: "rendering \<Rightarrow> nat \<times> nat \<Rightarrow> pixel_buffer" where
  "rendered_buffer r dims = cs_pixel_buffer (combined_source (rn_buffer r) dims)"

record content_frame =
  cf_screen :: rendering
  cf_camera :: "pixel_buffer option"
  cf_dimensions :: "nat \<times> nat"

definition render_content_frame ::
    "openers \<Rightarrow> gpu_replies \<Rightarrow> real \<Rightarrow> export_decoder list \<Rightarrow> output_pool \<Rightarrow>
     export_decoder list \<times> output_pool \<times> (export_error + content_frame) option" where
  "render_content_frame open_reader g time_secs decoders pool =
     (case active_frames open_reader time_secs decoders of (decoders', fs) \<Rightarrow>
        if fs = [] then (decoders', pool, Some (Inl (NothingDecoded time_secs)))
        else
          (let dims = canvas_dimensions fs
           in case render_items g (content_sources fs) (content_items fs) dims pool of
                (pool', None) \<Rightarrow> (decoders', pool', None)
              | (pool', Some (Inl e)) \<Rightarrow> (decoders', pool', Some (Inl (ContentFailed e)))
              | (pool', Some (Inr screen)) \<Rightarrow>
                  (decoders', pool', Some (Inr
                    \<lparr>cf_screen = screen, cf_camera = content_camera fs, cf_dimensions = dims\<rparr>))))"

definition preview_background :: "background_type \<Rightarrow> compositor_content" where
  "preview_background background_type =
     (case background_type of
        BgColor \<Rightarrow> ColorContent (173/1000, 184/1000, 227/1000, 1)
      | BgImage \<Rightarrow> ColorContent (173/1000, 184/1000, 227/1000, 1)
      | BgGradient \<Rightarrow> GradientContent (435/1000, 239/1000, 518/1000, 1) (118/1000, 212/1000, 373/1000, 1))"

text \<open>How a frame looks: the project's settings at a time of the timeline.\<close>

record frame_style =
  fst_background :: background_type
  fst_padding :: real
  fst_border_radius :: real
  fst_shadow :: real
  fst_zoom :: output_transform
  fst_camera_layout :: camera_layout
  fst_screen_crop :: "fl screen_crop option"

text \<open>Where the recording lies on the output.\<close>

definition content_transform :: "nat \<times> nat \<Rightarrow> nat \<times> nat \<Rightarrow> frame_style \<Rightarrow> item_transform" where
  "content_transform cropped out style =
     (let width = real (fst out); height = real (snd out);
          inset = min width height * fst_padding style / 200;
          maximum_size = (max (width - inset * 2) 0 / width, max (height - inset * 2) 0 / height);
          content_size = aspect_fit_size maximum_size (real (fst cropped), real (snd cropped)) (width, height);
          shortest = min (fst content_size * width) (snd content_size * height);
          strength = fst_shadow style / 50
      in with_box_shadow
           (with_spread_radius (shortest * (- 1/1000) * strength)
             (with_blur_radius (shortest * (2/100) * strength)
               (plain_shadow (0, shortest * (2/100) * strength) (0, 0, 0, 9/10 * strength))))
           (with_squircle True
             (with_corner_radius (shortest * fst_border_radius style / 100) (plain_transform (1/2, 1/2) content_size))))"

definition output_sources ::
    "pixel_buffer \<Rightarrow> nat \<times> nat \<Rightarrow> nat \<times> nat \<Rightarrow> pixel_buffer option \<Rightarrow> frame_style \<Rightarrow> compositor_source list" where
  "output_sources content canvas out wallpaper style =
     (case wallpaper of
        None \<Rightarrow> []
      | Some w \<Rightarrow> [\<lparr>cs_pixel_buffer = w,
          cs_content_rect = Some (cover_content_rect (pb_width w) (pb_height w) (fst out) (snd out))\<rparr>])
     @ [\<lparr>cs_pixel_buffer = content, cs_content_rect = Some (fst (screen_crop_rect canvas (fst_screen_crop style)))\<rparr>]"

definition output_items :: "nat \<times> nat \<Rightarrow> nat \<times> nat \<Rightarrow> pixel_buffer option \<Rightarrow> frame_style \<Rightarrow> compositor_item list" where
  "output_items canvas out wallpaper style =
     [\<lparr>ci_content = (case wallpaper of None \<Rightarrow> preview_background (fst_background style) | Some w \<Rightarrow> SourceContent 0),
       ci_transform = plain_transform (1/2, 1/2) (1, 1)\<rparr>,
      \<lparr>ci_content = SourceContent (case wallpaper of None \<Rightarrow> 0 | Some w \<Rightarrow> 1),
       ci_transform = content_transform (snd (screen_crop_rect canvas (fst_screen_crop style))) out style\<rparr>]"

definition overlay_sources :: "pixel_buffer \<Rightarrow> pixel_buffer \<Rightarrow> frame_style \<Rightarrow> compositor_source list" where
  "overlay_sources background camera style =
     [\<lparr>cs_pixel_buffer = background, cs_content_rect = None\<rparr>,
      \<lparr>cs_pixel_buffer = camera, cs_content_rect =
         Some (fst (camera_crop_rect (pb_width camera, pb_height camera) (cl_crop (fst_camera_layout style))))\<rparr>]"

definition overlay_items :: "nat \<times> nat \<Rightarrow> pixel_buffer \<Rightarrow> frame_style \<Rightarrow> compositor_item list" where
  "overlay_items out camera style =
     [plain_item 0,
      \<lparr>ci_content = SourceContent 1,
       ci_transform = camera_transform
         (snd (camera_crop_rect (pb_width camera, pb_height camera) (cl_crop (fst_camera_layout style))))
         (pb_height camera \<le> pb_width camera) (real (fst out), real (snd out)) (fst_camera_layout style)
         (ot_scale (fst_zoom style))\<rparr>]"

text \<open>The two compositors, with their output pools, and what the GPU answers each of their renderings.\<close>

record frame_replies =
  fp_combined :: gpu_replies
  fp_zoomed :: gpu_replies
  fp_overlay :: gpu_replies

definition render_output_frame ::
    "frame_replies \<Rightarrow> content_frame \<Rightarrow> nat \<times> nat \<Rightarrow> pixel_buffer option \<Rightarrow> frame_style \<Rightarrow> output_pool \<times> output_pool \<Rightarrow>
     (output_pool \<times> output_pool) \<times> (export_error + rendering) option" where
  "render_output_frame g content out wallpaper style = (\<lambda>(pool, overlay_pool).
     let canvas = cf_dimensions content;
         items = output_items canvas out wallpaper style;
         zoom = map_output_transform_to_item (map_output_transform_to_crop (fst_zoom style) (fst_screen_crop style))
                  (content_transform (snd (screen_crop_rect canvas (fst_screen_crop style))) out style)
     in case render_with_output_transform (fp_combined g) (fp_zoomed g)
              (output_sources (rendered_buffer (cf_screen content) canvas) canvas out wallpaper style) items out
              (Fin (fst (ot_center zoom)), Fin (snd (ot_center zoom))) (Fin (ot_scale zoom)) pool of
          (pool', None) \<Rightarrow> ((pool', overlay_pool), None)
        | (pool', Some (Inl e)) \<Rightarrow> ((pool', overlay_pool), Some (Inl (OutputFailed e)))
        | (pool', Some (Inr background)) \<Rightarrow>
            (case cf_camera content of
               None \<Rightarrow> ((pool', overlay_pool), Some (Inr background))
             | Some camera \<Rightarrow>
                 (case render_items (fp_overlay g)
                         (overlay_sources (rendered_buffer background out) camera style)
                         (overlay_items out camera style) out overlay_pool of
                    (overlay_pool', None) \<Rightarrow> ((pool', overlay_pool'), None)
                  | (overlay_pool', Some (Inl e)) \<Rightarrow> ((pool', overlay_pool'), Some (Inl (OverlayFailed e)))
                  | (overlay_pool', Some (Inr r)) \<Rightarrow> ((pool', overlay_pool'), Some (Inr r)))))"
subsection \<open>The export thread\<close>

text \<open>Everything outside that the thread asks: the answers for each frame and each packet of audio.\<close>

record export_replies =
  xr_decoders :: "string \<Rightarrow> decoder_error + pixel_buffer video_decoder"
  xr_wallpaper :: "string \<Rightarrow> string + pixel_buffer"
  xr_content_renderer :: "string option"
  xr_output_renderer :: "string option"
  xr_setup :: av_setup
  xr_parent :: "string option"
  xr_dir :: "string option"
  xr_unlink :: "string option"
  xr_open :: "nat \<Rightarrow> openers"
  xr_content :: "nat \<Rightarrow> gpu_replies"
  xr_output :: "nat \<Rightarrow> frame_replies"
  xr_frame :: "nat \<Rightarrow> av_reply list"
  xr_audio :: "nat \<Rightarrow> (core_media \<times> av_reply) list"
  xr_finish :: finish_reply
  xr_clean :: "string option"

datatype outcome = Going | Waiting | Panicked | Failed export_error

record export_state =
  xs_decoders :: "export_decoder list"
  xs_content_pool :: output_pool
  xs_output_pool :: output_pool
  xs_writer :: "(rendering, real) video_writer"
  xs_events :: "export_error export_event list"

definition then_do :: "export_state \<times> outcome \<Rightarrow> (export_state \<Rightarrow> export_state \<times> outcome) \<Rightarrow> export_state \<times> outcome" where
  "then_do r k = (case r of (s, Going) \<Rightarrow> k s | (s, x) \<Rightarrow> (s, x))"

fun for_each :: "(nat \<Rightarrow> export_state \<Rightarrow> export_state \<times> outcome) \<Rightarrow> nat list \<Rightarrow> export_state \<Rightarrow> export_state \<times> outcome" where
  "for_each f [] s = (s, Going)"
| "for_each f (i # is) s = then_do (f i s) (for_each f is)"

text \<open>The loops that sleep while the encoder is not ready.\<close>

fun encode_frame ::
    "rendering \<Rightarrow> duration \<Rightarrow> av_reply list \<Rightarrow> (rendering, real) video_writer \<Rightarrow> (rendering, real) video_writer \<times> outcome" where
  "encode_frame f timestamp [] w = (w, Waiting)"
| "encode_frame f timestamp (reply # replies) w =
     (case mp4_append f timestamp reply w of
        (w', Inl e) \<Rightarrow> (w', Failed (EncodeFailed e))
      | (w', Inr True) \<Rightarrow> (w', Going)
      | (w', Inr False) \<Rightarrow> encode_frame f timestamp replies w')"

fun encode_audio ::
    "real audio_packet \<Rightarrow> duration \<Rightarrow> (core_media \<times> av_reply) list \<Rightarrow> (rendering, real) video_writer \<Rightarrow>
     (rendering, real) video_writer \<times> outcome" where
  "encode_audio packet timestamp [] w = (w, Waiting)"
| "encode_audio packet timestamp ((md, reply) # replies) w =
     (case mp4_append_audio md packet timestamp reply w of
        (w', Inl e) \<Rightarrow> (w', Failed (EncodeAudioFailed e))
      | (w', Inr True) \<Rightarrow> (w', Going)
      | (w', Inr False) \<Rightarrow> encode_audio packet timestamp replies w')"

definition style_of :: "export_job \<Rightarrow> real \<Rightarrow> frame_style" where
  "style_of job timeline_time_secs =
     \<lparr>fst_background = xj_background_type job, fst_padding = xj_padding job, fst_border_radius = xj_border_radius job,
      fst_shadow = xj_shadow job, fst_zoom = zoom_transform_at (bb_zoom_segments (xj_bundle job)) timeline_time_secs,
      fst_camera_layout = bb_camera_layout (xj_bundle job),
      fst_screen_crop = map_option fin_crop (bb_screen_crop (xj_bundle job))\<rparr>"

text \<open>One frame of the export: composing it, and encoding it; \<open>n\<close> is the number of frames.\<close>

definition compose_frame ::
    "export_job \<Rightarrow> export_replies \<Rightarrow> nat \<times> nat \<Rightarrow> pixel_buffer option \<Rightarrow> nat \<Rightarrow> export_state \<Rightarrow>
     export_state \<times> (outcome + rendering)" where
  "compose_frame job ans out wallpaper frame_index s =
     (let timeline_time_secs = real frame_index / real (xj_fps job)
      in case source_time_at (xj_bundle job) timeline_time_secs of
           None \<Rightarrow> (s, Inl (Failed NotMapped))
         | Some source_time_secs \<Rightarrow>
           (case render_content_frame (xr_open ans frame_index) (xr_content ans frame_index) source_time_secs
                   (xs_decoders s) (xs_content_pool s) of
              (ds, pool, None) \<Rightarrow> (s\<lparr>xs_decoders := ds, xs_content_pool := pool\<rparr>, Inl Panicked)
            | (ds, pool, Some (Inl e)) \<Rightarrow> (s\<lparr>xs_decoders := ds, xs_content_pool := pool\<rparr>, Inl (Failed e))
            | (ds, pool, Some (Inr content)) \<Rightarrow>
              (case render_output_frame (xr_output ans frame_index) content out wallpaper (style_of job timeline_time_secs)
                      (xs_output_pool s, pool) of
                 ((output_pool, pool'), result) \<Rightarrow>
                   (s\<lparr>xs_decoders := ds, xs_content_pool := pool', xs_output_pool := output_pool\<rparr>,
                    case result of None \<Rightarrow> Inl Panicked | Some (Inl e) \<Rightarrow> Inl (Failed e) | Some (Inr frame) \<Rightarrow> Inr frame))))"

definition export_frame ::
    "export_job \<Rightarrow> export_replies \<Rightarrow> nat \<times> nat \<Rightarrow> pixel_buffer option \<Rightarrow> nat \<Rightarrow> nat \<Rightarrow> export_state \<Rightarrow> export_state \<times> outcome" where
  "export_frame job ans out wallpaper n frame_index s =
     (case compose_frame job ans out wallpaper frame_index s of
        (s1, Inl x) \<Rightarrow> (s1, x)
      | (s1, Inr frame) \<Rightarrow>
          (case try_from_secs_f64 (Fin (real frame_index / real (xj_fps job))) of
             None \<Rightarrow> (s1, Panicked)
           | Some timestamp \<Rightarrow>
               (case encode_frame frame timestamp (xr_frame ans frame_index) (xs_writer s1) of
                  (w, Going) \<Rightarrow>
                    (s1\<lparr>xs_writer := w,
                       xs_events := xs_events s1 @ [ExportProgress (real (frame_index + 1) / real n)]\<rparr>, Going)
                | (w, x) \<Rightarrow> (s1\<lparr>xs_writer := w\<rparr>, x))))"

definition AUDIO_PACKET_FRAMES :: nat where "AUDIO_PACKET_FRAMES = 1024"

function export_audio ::
    "export_job \<Rightarrow> export_replies \<Rightarrow> nat \<Rightarrow> nat \<Rightarrow> export_state \<Rightarrow> export_state \<times> outcome" where
  "export_audio job ans total_audio_frames audio_frame s =
     (if total_audio_frames \<le> audio_frame then (s, Going)
      else
        (let n = min AUDIO_PACKET_FRAMES (total_audio_frames - audio_frame);
             timestamp_secs = real audio_frame / real MIX_SAMPLE_RATE
         in case render (xj_audio_mixer job) timestamp_secs n of
              Inl e \<Rightarrow> (s, Failed (MixFailed e))
            | Inr packet \<Rightarrow>
              (case try_from_secs_f64 (Fin timestamp_secs) of
                 None \<Rightarrow> (s, Panicked)
               | Some timestamp \<Rightarrow>
                 (case encode_audio packet timestamp (xr_audio ans audio_frame) (xs_writer s) of
                    (w, Going) \<Rightarrow> export_audio job ans total_audio_frames (audio_frame + n) (s\<lparr>xs_writer := w\<rparr>)
                  | (w, x) \<Rightarrow> (s\<lparr>xs_writer := w\<rparr>, x)))))"
  by pat_completeness auto
termination
  by (relation "measure (\<lambda>(job, ans, total_audio_frames, audio_frame, s). total_audio_frames - audio_frame)")
     (auto simp: AUDIO_PACKET_FRAMES_def)

declare export_audio.simps [simp del]

definition ceil_count :: "real \<Rightarrow> nat" where
  "ceil_count x = as_unsigned usize_max (max (of_int \<lceil>x\<rceil>) 1)"

definition finish_export :: "export_replies \<Rightarrow> export_state \<Rightarrow> export_state \<times> outcome" where
  "finish_export ans s =
     (case mp4_finish (xr_finish ans) (xs_writer s) of
        (w, Inl e) \<Rightarrow> (s\<lparr>xs_writer := w\<rparr>, Failed (FinishFailed e))
      | (w, Inr _) \<Rightarrow> (s\<lparr>xs_writer := w\<rparr>, Going))"

fun open_decoders ::
    "(string \<Rightarrow> decoder_error + pixel_buffer video_decoder) \<Rightarrow> (string \<times> bool \<times> real) list \<Rightarrow> export_error + export_decoder list" where
  "open_decoders answer [] = Inr []"
| "open_decoders answer ((path, is_camera, offset) # inputs) =
     and_then (case answer path of Inl e \<Rightarrow> Inl (OpenFailed path e) | Inr d \<Rightarrow> Inr d) (\<lambda>d.
     and_then (open_decoders answer inputs) (\<lambda>ds. Inr ((d, is_camera, offset) # ds)))"

definition source_dimensions :: "export_decoder list \<Rightarrow> nat \<times> nat" where
  "source_dimensions ds =
     (case find (\<lambda>(d, is_camera, offset). \<not> is_camera) ds of
        Some (d, _) \<Rightarrow> (de_width d, de_height d)
      | None \<Rightarrow> (case ds of [] \<Rightarrow> (1920, 1080) | (d, _) # _ \<Rightarrow> (de_width d, de_height d)))"

definition export_dimensions :: "export_job \<Rightarrow> export_decoder list \<Rightarrow> nat \<times> nat" where
  "export_dimensions job ds =
     output_dimensions (xj_short_edge job)
       (snd (screen_crop_rect (source_dimensions ds) (map_option fin_crop (bb_screen_crop (xj_bundle job)))))
       (xj_aspect_ratio job) (xj_padding job)"

text \<open>What is made before the writer: the decoders and the background, unless the renderers cannot be created.\<close>

definition prepare_export ::
    "export_job \<Rightarrow> export_replies \<Rightarrow> export_error + export_decoder list \<times> pixel_buffer option" where
  "prepare_export job ans =
     and_then (open_decoders (xr_decoders ans) (xj_decoder_inputs job)) (\<lambda>decoders.
     and_then (case xj_wallpaper job of None \<Rightarrow> Inr None
        | Some path \<Rightarrow> (case xr_wallpaper ans path of Inl e \<Rightarrow> Inl (BackgroundFailed e) | Inr w \<Rightarrow> Inr (Some w))) (\<lambda>wallpaper.
     case xr_content_renderer ans of Some e \<Rightarrow> Inl (ContentRendererFailed e)
     | None \<Rightarrow> (case xr_output_renderer ans of Some e \<Rightarrow> Inl (OutputRendererFailed e)
        | None \<Rightarrow> Inr (decoders, wallpaper))))"

definition export_all ::
    "export_job \<Rightarrow> export_replies \<Rightarrow> nat \<times> nat \<Rightarrow> pixel_buffer option \<Rightarrow> export_state \<Rightarrow> export_state \<times> outcome" where
  "export_all job ans out wallpaper s =
     (let n = ceil_count (xj_duration_secs job * real (xj_fps job))
      in then_do (for_each (export_frame job ans out wallpaper n) [0..<n] s) (\<lambda>s1.
         then_do (if has_sources (xj_audio_mixer job)
                  then export_audio job ans (ceil_count (xj_duration_secs job * real MIX_SAMPLE_RATE)) 0 s1
                  else (s1, Going))
           (finish_export ans)))"

text \<open>The disk afterwards, the state once there is a writer, which is dropped at the end, and how it ended.\<close>

definition drop_writer :: "export_state \<times> outcome \<Rightarrow> export_state \<times> outcome" where
  "drop_writer = (\<lambda>(s, x). if x = Waiting then (s, x) else (s\<lparr>xs_writer := writer_drop (xs_writer s)\<rparr>, x))"

definition render_export ::
    "export_job \<Rightarrow> export_replies \<Rightarrow> Asset_Writers.disk \<Rightarrow> Asset_Writers.disk \<times> export_state option \<times> outcome" where
  "render_export job ans d =
     (case prepare_export job ans of
        Inl e \<Rightarrow> (d, None, Failed e)
      | Inr (decoders, wallpaper) \<Rightarrow>
          (let out = export_dimensions job decoders
           in case mp4_new (xr_setup ans) (options_file_type (xj_file_type job) (has_sources (xj_audio_mixer job)))
                     (xj_output job) (xr_parent ans) (xr_dir ans) (xr_unlink ans) (fst out) (snd out) (xj_fps job) d of
                (d', Inl e) \<Rightarrow> (d', None, Failed (CreateFailed e))
              | (d', Inr w) \<Rightarrow>
                  (case drop_writer (export_all job ans out wallpaper
                          \<lparr>xs_decoders = decoders, xs_content_pool = None, xs_output_pool = None, xs_writer = w, xs_events = []\<rparr>) of
                     (s, x) \<Rightarrow> (d', Some s, x))))"

text \<open>The thread: a failure removes the output; then the result is reported. A waiting or panicked thread reports nothing.\<close>

definition export_worker ::
    "export_job \<Rightarrow> export_replies \<Rightarrow> Asset_Writers.disk \<Rightarrow>
     Asset_Writers.disk \<times> export_state option \<times> export_error export_event list" where
  "export_worker job ans d =
     (case render_export job ans d of
        (d', s, x) \<Rightarrow>
          (let events = (case s of None \<Rightarrow> [] | Some s' \<Rightarrow> xs_events s')
           in case x of
                Going \<Rightarrow> (d', s, events @ [ExportFinished (Inr (xj_output job))])
              | Failed e \<Rightarrow> (fst (fs_remove (xj_output job) (xr_clean ans) d'), s, events @ [ExportFinished (Inl e)])
              | _ \<Rightarrow> (d', s, events)))"
subsection \<open>What the writer is given\<close>

text \<open>A writer after frames at their times, and after packets of audio.\<close>

definition fresh_writer :: "('f, 'a) video_writer \<Rightarrow> bool" where
  "fresh_writer w \<longleftrightarrow> vw_start w = None \<and> vw_last w = None \<and> \<not> vw_started w \<and> \<not> vw_finished w"

definition after_frames :: "('f, 'a) video_writer \<Rightarrow> ('f \<times> int) list \<Rightarrow> ('f, 'a) video_writer" where
  "after_frames w fs =
     (if fs = [] then w
      else w\<lparr>vw_start := Some 0, vw_last := Some (snd (last fs)), vw_started := True,
             vw_calls := vw_calls w @ StartSession 0 # map (\<lambda>(f, t). AppendFrame f t True) fs\<rparr>)"

definition after_samples :: "('f, 'a) video_writer \<Rightarrow> 'a pcm_sample list \<Rightarrow> ('f, 'a) video_writer" where
  "after_samples w ps = w\<lparr>vw_calls := vw_calls w @ map (\<lambda>p. AppendSamples p True) ps\<rparr>"

lemma mp4_append_waits: "mp4_append f ts reply w = (w', Inr False) \<Longrightarrow> w' = w"
  by (auto simp: mp4_append_def put_frame_def Let_def split: if_splits sum.splits option.splits)

lemma encode_frame_going:
  "encode_frame f ts replies w = (w', Going) \<Longrightarrow> \<exists>reply. mp4_append f ts reply w = (w', Inr True)"
  by (induction f ts replies w rule: encode_frame.induct)
     (auto split: prod.splits sum.splits bool.splits dest: mp4_append_waits)

lemma mp4_append_audio_waits: "mp4_append_audio md p ts reply w = (w', Inr False) \<Longrightarrow> w' = w"
  by (auto simp: mp4_append_audio_def put_samples_def split: if_splits sum.splits option.splits)

lemma encode_audio_going:
  "encode_audio p ts replies w = (w', Going) \<Longrightarrow> \<exists>md reply. mp4_append_audio md p ts reply w = (w', Inr True)"
proof (induction p ts replies w rule: encode_audio.induct)
  case (2 packet timestamp md reply replies w)
  then show ?case
    by (cases "mp4_append_audio md packet timestamp reply w")
       (auto split: sum.splits bool.splits dest: mp4_append_audio_waits)
qed simp

lemma micros_i64_Inr: "micros_i64 ts = Inr t \<Longrightarrow> t = int (as_micros ts) \<and> in_signed 64 t"
  by (auto simp: micros_i64_def checked_signed_def split: if_splits)

lemma append_after_frames:
  assumes "mp4_append f ts reply (after_frames w fs) = (w', Inr True)" and "fresh_writer w"
    and "if fs = [] then as_micros ts = 0 else snd (last fs) < int (as_micros ts)"
  shows "w' = after_frames w (fs @ [(f, int (as_micros ts))])"
proof -
  obtain t where t: "micros_i64 ts = Inr t" "av_ready reply"
    using assms(1) by (auto simp: mp4_append_def split: if_splits sum.splits)
  note tt = micros_i64_Inr [OF t(1)]
  show ?thesis
  proof (cases "fs = []")
    case True
    then show ?thesis using assms t tt
      by (auto simp: mp4_append_def after_frames_def fresh_writer_def next_relative_def checked_signed_def
          put_frame_def start_session_def call_def Let_def in_signed_def split: if_splits)
  next
    case False
    then show ?thesis using assms t tt
      by (auto simp: mp4_append_def after_frames_def fresh_writer_def next_relative_def checked_signed_def
          put_frame_def start_session_def call_def Let_def max_def split: if_splits)
  qed
qed

subsection \<open>The frames of an export\<close>

text \<open>The time of a frame: \<open>Duration::from_secs_f64\<close> in whole microseconds.\<close>

definition frame_stamp :: "nat \<Rightarrow> nat \<Rightarrow> int" where
  "frame_stamp fps i = int (as_micros (nat (round_half_even (real i / real fps * 1000000000))))"

lemma whole_micros_near:
  assumes "\<bar>real n - x\<bar> \<le> 1/2"
  shows "\<bar>real (n div 1000) - x / 1000\<bar> \<le> 1"
proof -
  define q where "q = n div 1000"
  have "1000 * q \<le> n" "n \<le> 1000 * q + 999" by (simp_all add: q_def)
  then have "real (1000 * q) \<le> real n" "real n \<le> real (1000 * q + 999)" by (simp_all only: of_nat_le_iff)
  then show ?thesis using assms unfolding q_def [symmetric] by (simp add: abs_le_iff field_simps, linarith)
qed

lemma frame_stamp_near:
  assumes "0 < fps"
  shows "\<bar>real_of_int (frame_stamp fps i) - real i / real fps * 1000000\<bar> \<le> 1"
proof -
  let ?x = "real i / real fps * 1000000000"
  have r: "\<bar>of_int (round_half_even ?x) - ?x\<bar> \<le> 1/2" by (rule round_half_even_near)
  have "0 \<le> ?x" by simp
  with r have "- 1 < real_of_int (round_half_even ?x)" by linarith
  then have "real (nat (round_half_even ?x)) = of_int (round_half_even ?x)" by (simp add: of_nat_nat)
  with r have "\<bar>real (nat (round_half_even ?x)) - ?x\<bar> \<le> 1/2" by simp
  from whole_micros_near [OF this] show ?thesis
    unfolding frame_stamp_def as_micros_def by (simp add: mult.commute)
qed

lemma frame_stamp_0: "0 < fps \<Longrightarrow> frame_stamp fps 0 = 0"
  by (simp add: frame_stamp_def as_micros_def round_half_even_def)

lemma frame_stamp_less:
  assumes "0 < fps" and "fps \<le> 1000"
  shows "frame_stamp fps i < frame_stamp fps (Suc i)"
proof -
  have "real (Suc i) / real fps = real i / real fps + 1 / real fps" using assms by (simp add: add_divide_distrib)
  moreover have "1/1000 \<le> 1 / real fps" using assms by (simp add: field_simps)
  ultimately have "real i / real fps + 1/1000 \<le> real (Suc i) / real fps" by simp
  moreover define a b where "a = real i / real fps" and "b = real (Suc i) / real fps"
  ultimately have ab: "a + 1/1000 \<le> b" by simp
  have "\<bar>real_of_int (frame_stamp fps i) - a * 1000000\<bar> \<le> 1" "\<bar>real_of_int (frame_stamp fps (Suc i)) - b * 1000000\<bar> \<le> 1"
    unfolding a_def b_def by (rule frame_stamp_near [OF assms(1)])+
  with ab have "real_of_int (frame_stamp fps i) < real_of_int (frame_stamp fps (Suc i))" by linarith
  then show ?thesis by simp
qed

text \<open>
  The pictures taken for a time of the recording: from each input that has started by then, in order, the picture of
  its file for the time since its start, with its size and its kind; an input whose file gives none is left out.
\<close>

fun frames_shown ::
    "pixel_buffer sample list list \<Rightarrow> export_decoder list \<Rightarrow> openers \<Rightarrow> real \<Rightarrow> active_frame list \<Rightarrow> bool" where
  "frames_shown (A # As) ((d, is_camera, offset) # ds) open_reader t fs \<longleftrightarrow>
     (if t < offset then frames_shown As ds (\<lambda>k. open_reader (Suc k)) t fs
      else (\<exists>f fs'. fs = f # fs' \<and> frame_shown A (tolerance d) (t - offset) (af_pixel_buffer f)
                \<and> af_dimensions f = (de_width d, de_height d) \<and> af_is_camera f = is_camera
                \<and> frames_shown As ds (\<lambda>k. open_reader (Suc k)) t fs')
           \<or> (\<exists>e. answer_ok A (tolerance d) (t - offset) (open_reader 0) (Inl e))
             \<and> frames_shown As ds (\<lambda>k. open_reader (Suc k)) t fs)"
| "frames_shown As ds open_reader t fs \<longleftrightarrow> fs = []"

text \<open>The opened decoders as they are when a frame is composed: each frame before it has asked them for its source time.\<close>

fun decoders_at :: "export_job \<Rightarrow> export_replies \<Rightarrow> export_decoder list \<Rightarrow> nat \<Rightarrow> export_decoder list" where
  "decoders_at job ans ds 0 = ds"
| "decoders_at job ans ds (Suc i) =
     (case source_time_at (xj_bundle job) (real i / real (xj_fps job)) of
        None \<Rightarrow> decoders_at job ans ds i
      | Some source_time \<Rightarrow> fst (active_frames (xr_open ans i) source_time (decoders_at job ans ds i)))"

text \<open>
  The inputs can be read: \<open>A path\<close> are the samples of a file; its decoder is a newly opened one, every reader opened on it
  has the samples from its start on, and all times are of a size that microseconds count exactly.
\<close>

definition inputs_readable :: "export_job \<Rightarrow> export_replies \<Rightarrow> (string \<Rightarrow> pixel_buffer sample list) \<Rightarrow> bool" where
  "inputs_readable job ans A \<longleftrightarrow>
     (\<forall>path. asset_ok (A path))
     \<and> (\<forall>path d. xr_decoders ans path = Inr d \<longrightarrow>
          (\<exists>r. open_decoder True (Some r) = Inr d \<and> (tr_frame_rate r \<le> 0 \<or> 1/1000 \<le> tr_frame_rate r)))
     \<and> (\<forall>i k. k < length (xj_decoder_inputs job) \<longrightarrow> reader_answers (A (fst (xj_decoder_inputs job ! k))) (xr_open ans i k))
     \<and> (\<forall>(path, is_camera, offset) \<in> set (xj_decoder_inputs job). \<bar>offset\<bar> \<le> 10 ^ 9)
     \<and> (\<forall>t x. source_time_at (xj_bundle job) t = Some x \<longrightarrow> \<bar>x\<bar> \<le> 10 ^ 9)"

text \<open>What a frame shows: the pictures that the inputs have at the source time of the frame, which the timeline gives for
the frame's time, composed in the project's style of that time.\<close>

definition exported_frame ::
    "export_job \<Rightarrow> export_replies \<Rightarrow> (string \<Rightarrow> pixel_buffer sample list) \<Rightarrow> export_decoder list \<Rightarrow> pixel_buffer option \<Rightarrow>
     nat \<Rightarrow> rendering \<Rightarrow> bool" where
  "exported_frame job ans A decoders wallpaper i f \<longleftrightarrow>
     (\<exists>source_time ds' pool pool' content pools pools'.
        source_time_at (xj_bundle job) (real i / real (xj_fps job)) = Some source_time
        \<and> frames_shown (map (\<lambda>input. A (fst input)) (xj_decoder_inputs job)) decoders (xr_open ans i) source_time
            (snd (active_frames (xr_open ans i) source_time (decoders_at job ans decoders i)))
        \<and> render_content_frame (xr_open ans i) (xr_content ans i) source_time (decoders_at job ans decoders i) pool
            = (ds', pool', Some (Inr content))
        \<and> render_output_frame (xr_output ans i) content (export_dimensions job decoders) wallpaper
              (style_of job (real i / real (xj_fps job))) pools
            = (pools', Some (Inr f)))"

definition frames_done ::
    "export_job \<Rightarrow> export_replies \<Rightarrow> (string \<Rightarrow> pixel_buffer sample list) \<Rightarrow> export_decoder list \<Rightarrow> pixel_buffer option \<Rightarrow>
     (rendering \<times> int) list \<Rightarrow> bool" where
  "frames_done job ans A decoders wallpaper fs \<longleftrightarrow>
     (\<forall>i < length fs. snd (fs ! i) = frame_stamp (xj_fps job) i \<and> exported_frame job ans A decoders wallpaper i (fst (fs ! i)))"

text \<open>Decoders of files, with the samples the files have.\<close>

definition decoding :: "pixel_buffer sample list list \<Rightarrow> export_decoder list \<Rightarrow> bool" where
  "decoding As ds \<longleftrightarrow>
     list_all2 (\<lambda>A (d, is_camera, offset). asset_ok A \<and> decoder_ok A d \<and> tolerance d \<le> 10 ^ 12 \<and> \<bar>offset\<bar> \<le> 10 ^ 9) As ds"

definition unchanging :: "export_decoder \<Rightarrow> real \<times> nat \<times> nat \<times> bool \<times> real" where
  "unchanging = (\<lambda>(d, is_camera, offset). (de_nominal_fps d, de_width d, de_height d, is_camera, offset))"

lemma seek_frame_keeps:
  "seek_frame open_reader t d = (d', x) \<Longrightarrow> de_nominal_fps d' = de_nominal_fps d \<and> de_width d' = de_width d \<and> de_height d' = de_height d"
  by (auto simp: seek_frame_def split: sum.splits prod.splits option.splits)

lemma frame_at_keeps:
  "frame_at open_reader t d = (d', x) \<Longrightarrow> de_nominal_fps d' = de_nominal_fps d \<and> de_width d' = de_width d \<and> de_height d' = de_height d"
  by (auto simp: frame_at_def Let_def dest!: seek_frame_keeps split: option.splits prod.splits bool.splits if_splits)

lemma active_frames_shown:
  assumes "active_frames open_reader t ds = (ds', fs)" and "decoding As ds" and "\<bar>t\<bar> \<le> 10 ^ 9"
    and "\<forall>k < length ds. reader_answers (As ! k) (open_reader k)"
  shows "decoding As ds' \<and> map unchanging ds' = map unchanging ds \<and> frames_shown As ds open_reader t fs"
  using assms
proof (induction open_reader t ds arbitrary: As ds' fs rule: active_frames.induct)
  case (1 open_reader t)
  then show ?case by (auto simp: decoding_def)
next
  case (2 open_reader t d is_camera offset ds)
  then obtain A As' where As: "As = A # As'" by (auto simp: decoding_def list_all2_Cons2)
  have A: "asset_ok A" "decoder_ok A d" "tolerance d \<le> 10 ^ 12" "\<bar>offset\<bar> \<le> 10 ^ 9" and ds: "decoding As' ds"
    using 2(3) by (auto simp: As decoding_def)
  have opener: "reader_answers A (open_reader 0)" "\<forall>k < length ds. reader_answers (As' ! k) (open_reader (Suc k))"
    using 2(5) by (force simp: As)+
  obtain ds1 fs1 where r: "active_frames (\<lambda>k. open_reader (Suc k)) t ds = (ds1, fs1)" by (metis surj_pair)
  from 2(1) [OF r ds 2(4) opener(2)]
  have rest: "decoding As' ds1" "map unchanging ds1 = map unchanging ds"
      "frames_shown As' ds (\<lambda>k. open_reader (Suc k)) t fs1"
    by auto
  show ?case
  proof (cases "t < offset")
    case True
    then have "ds' = (d, is_camera, offset) # ds1" "fs = fs1"
      using 2(2) r by (simp_all add: aligned_input_time_def Let_def)
    then show ?thesis using rest A True by (simp add: As decoding_def)
  next
    case False
    obtain d1 x where f: "frame_at (open_reader 0) (t - offset) d = (d1, x)" by (metis surj_pair)
    have "\<bar>t - offset\<bar> \<le> 10 ^ 12" using 2(4) A(4) by (simp add: abs_le_iff)
    from frame_at_correct [OF A(2,3,1) opener(1) this f] frame_at_keeps [OF f]
    have d1: "decoder_ok A d1" "tolerance d1 = tolerance d" "unchanging (d1, is_camera, offset) = unchanging (d, is_camera, offset)"
        "answer_ok A (tolerance d) (t - offset) (open_reader 0) x" "de_width d1 = de_width d" "de_height d1 = de_height d"
      by (auto simp: tolerance_def unchanging_def)
    show ?thesis
    proof (cases x)
      case (Inl e)
      then have "ds' = (d1, is_camera, offset) # ds1" "fs = fs1"
        using 2(2) r f False by (simp_all add: aligned_input_time_def Let_def)
      then show ?thesis using rest A d1 False Inl by (auto simp: As decoding_def)
    next
      case (Inr b)
      then have "ds' = (d1, is_camera, offset) # ds1" 
          "fs = \<lparr>af_pixel_buffer = b, af_dimensions = (de_width d1, de_height d1), af_is_camera = is_camera\<rparr> # fs1"
        using 2(2) r f False by (simp_all add: aligned_input_time_def Let_def)
      then show ?thesis using rest A d1 False Inr by (auto simp: As decoding_def answer_ok_def)
    qed
  qed
qed

lemma frames_shown_unchanging:
  "map unchanging ds = map unchanging ds' \<Longrightarrow> frames_shown As ds open_reader t fs = frames_shown As ds' open_reader t fs"
proof (induction As ds open_reader t fs arbitrary: ds' rule: frames_shown.induct)
  case (1 A As d is_camera offset ds open_reader t fs)
  then obtain d' ds1 where ds': "ds' = (d', is_camera, offset) # ds1" "map unchanging ds = map unchanging ds1"
      "tolerance d = tolerance d'" "de_width d = de_width d'" "de_height d = de_height d'"
    by (auto simp: unchanging_def tolerance_def)
  then show ?case using 1 by (simp cong: conj_cong)
qed auto

lemma opened_unchanging: "open_decoders answer inputs = Inr ds \<Longrightarrow>
   list_all2 (\<lambda>(path, is_camera, offset) (d, c, x). answer path = Inr d \<and> c = is_camera \<and> x = offset) inputs ds"
  by (induction answer inputs arbitrary: ds rule: open_decoders.induct)
     (auto split: sum.splits)

lemma opened_decoding:
  assumes "open_decoders (xr_decoders ans) (xj_decoder_inputs job) = Inr ds" and "inputs_readable job ans A"
  shows "decoding (map (\<lambda>input. A (fst input)) (xj_decoder_inputs job)) ds" and "length ds = length (xj_decoder_inputs job)"
proof -
  note o = opened_unchanging [OF assms(1)]
  show "length ds = length (xj_decoder_inputs job)" using o by (simp add: list_all2_lengthD)
  have "asset_ok (A path) \<and> decoder_ok (A path) d \<and> tolerance d \<le> 10 ^ 12" if "xr_decoders ans path = Inr d" for path d
    using that assms(2) open_decoder_ok unfolding inputs_readable_def by metis
  moreover have "\<bar>offset\<bar> \<le> 10 ^ 9" if "(path, is_camera, offset) \<in> set (xj_decoder_inputs job)" for path is_camera offset
    using that assms(2) unfolding inputs_readable_def by fast
  ultimately have each: "asset_ok (A (fst input)) \<and> (case x of (d, is_camera, offset) \<Rightarrow>
      decoder_ok (A (fst input)) d \<and> tolerance d \<le> 10 ^ 12 \<and> \<bar>offset\<bar> \<le> 10 ^ 9)"
    if "input \<in> set (xj_decoder_inputs job)"
      "(case input of (path, is_camera, offset) \<Rightarrow> \<lambda>(d, c, x). xr_decoders ans path = Inr d \<and> c = is_camera \<and> x = offset) x"
    for input x
    using that by (cases input; cases x) auto
  show "decoding (map (\<lambda>input. A (fst input)) (xj_decoder_inputs job)) ds"
    unfolding decoding_def list_all2_map1
  proof (rule list_all2_all_nthI)
    show "length (xj_decoder_inputs job) = length ds" using o by (simp add: list_all2_lengthD)
    fix k
    assume k: "k < length (xj_decoder_inputs job)"
    from each [OF nth_mem [OF k], of "ds ! k"] list_all2_nthD [OF o k]
    show "case ds ! k of (d, is_camera, offset) \<Rightarrow> asset_ok (A (fst (xj_decoder_inputs job ! k)))
        \<and> decoder_ok (A (fst (xj_decoder_inputs job ! k))) d \<and> tolerance d \<le> 10 ^ 12 \<and> \<bar>offset\<bar> \<le> 10 ^ 9"
      by (cases "xj_decoder_inputs job ! k"; cases "ds ! k") auto
  qed
qed

lemma decoders_at_decoding:
  assumes "decoding (map (\<lambda>input. A (fst input)) (xj_decoder_inputs job)) ds" and "inputs_readable job ans A"
    and "length ds = length (xj_decoder_inputs job)"
  shows "decoding (map (\<lambda>input. A (fst input)) (xj_decoder_inputs job)) (decoders_at job ans ds i)
    \<and> map unchanging (decoders_at job ans ds i) = map unchanging ds"
proof (induction i)
  case (Suc i)
  show ?case
  proof (cases "source_time_at (xj_bundle job) (real i / real (xj_fps job))")
    case (Some x)
    have "length (decoders_at job ans ds i) = length (xj_decoder_inputs job)"
      using Suc assms(3) by (metis length_map)
    then have "\<forall>k < length (decoders_at job ans ds i).
        reader_answers (map (\<lambda>input. A (fst input)) (xj_decoder_inputs job) ! k) (xr_open ans i k)"
      using assms(2) by (simp add: inputs_readable_def)
    moreover have "\<bar>x\<bar> \<le> 10 ^ 9" using Some assms(2) unfolding inputs_readable_def by blast
    ultimately show ?thesis
      using active_frames_shown [of "xr_open ans i" x "decoders_at job ans ds i"] Suc Some by (metis decoders_at.simps(2) option.simps(5) prod.collapse)
  qed (use Suc in simp)
qed (simp add: assms)

lemma pictures_at_source_time:
  assumes "decoding (map (\<lambda>input. A (fst input)) (xj_decoder_inputs job)) ds" and "inputs_readable job ans A"
    and "length ds = length (xj_decoder_inputs job)"
    and "source_time_at (xj_bundle job) (real i / real (xj_fps job)) = Some x"
  shows "frames_shown (map (\<lambda>input. A (fst input)) (xj_decoder_inputs job)) ds (xr_open ans i) x
    (snd (active_frames (xr_open ans i) x (decoders_at job ans ds i)))"
proof -
  note now = decoders_at_decoding [OF assms(1-3), of i]
  then have "length (decoders_at job ans ds i) = length (xj_decoder_inputs job)" using assms(3) by (metis length_map)
  then have "\<forall>k < length (decoders_at job ans ds i).
      reader_answers (map (\<lambda>input. A (fst input)) (xj_decoder_inputs job) ! k) (xr_open ans i k)"
    using assms(2) by (simp add: inputs_readable_def)
  moreover have "\<bar>x\<bar> \<le> 10 ^ 9" using assms(2,4) unfolding inputs_readable_def by blast
  ultimately have "frames_shown (map (\<lambda>input. A (fst input)) (xj_decoder_inputs job)) (decoders_at job ans ds i) (xr_open ans i) x
      (snd (active_frames (xr_open ans i) x (decoders_at job ans ds i)))"
    using active_frames_shown [of "xr_open ans i" x "decoders_at job ans ds i"] now by (metis prod.collapse)
  then show ?thesis using now frames_shown_unchanging by blast
qed

lemma compose_frame_going:
  assumes "compose_frame job ans (export_dimensions job decoders) wallpaper i s = (s1, Inr f)"
    and "decoding (map (\<lambda>input. A (fst input)) (xj_decoder_inputs job)) decoders" and "inputs_readable job ans A"
    and "length decoders = length (xj_decoder_inputs job)" and "xs_decoders s = decoders_at job ans decoders i"
  shows "exported_frame job ans A decoders wallpaper i f \<and> xs_writer s1 = xs_writer s \<and> xs_events s1 = xs_events s
    \<and> xs_decoders s1 = decoders_at job ans decoders (Suc i)"
proof -
  let ?out = "export_dimensions job decoders"
  let ?t = "real i / real (xj_fps job)"
  obtain source_time where source: "source_time_at (xj_bundle job) ?t = Some source_time"
    using assms(1) by (cases "source_time_at (xj_bundle job) ?t") (auto simp: compose_frame_def Let_def)
  obtain ds pool r where content:
    "render_content_frame (xr_open ans i) (xr_content ans i) source_time (xs_decoders s) (xs_content_pool s) = (ds, pool, r)"
    by (metis prod_cases3)
  then obtain content where r: "r = Some (Inr content)"
    using assms(1) source by (auto simp: compose_frame_def split: option.splits sum.splits)
  obtain output_pool pool' r' where out:
    "render_output_frame (xr_output ans i) content ?out wallpaper (style_of job ?t) (xs_output_pool s, pool)
       = ((output_pool, pool'), r')"
    by (metis surj_pair)
  then have "r' = Some (Inr f) \<and> xs_writer s1 = xs_writer s \<and> xs_events s1 = xs_events s \<and> xs_decoders s1 = ds"
    using assms(1) source content r by (auto simp: compose_frame_def split: option.splits sum.splits)
  moreover have "ds = decoders_at job ans decoders (Suc i)"
    using content source assms(5)
    by (auto simp: render_content_frame_def Let_def split: prod.splits option.splits sum.splits if_splits)
  moreover have "exported_frame job ans A decoders wallpaper i f" if "r' = Some (Inr f)"
    unfolding exported_frame_def
    using source content [unfolded r assms(5)] out [unfolded that] pictures_at_source_time [OF assms(2-4) source] by blast
  ultimately show ?thesis by blast
qed

lemma compose_frame_not_going: "compose_frame job ans out wallpaper i s \<noteq> (s1, Inl Going)"
proof -
  let ?t = "real i / real (xj_fps job)"
  show ?thesis
  proof (cases "source_time_at (xj_bundle job) ?t")
    case (Some source_time)
    obtain ds pool r where content:
      "render_content_frame (xr_open ans i) (xr_content ans i) source_time (xs_decoders s) (xs_content_pool s) = (ds, pool, r)"
      by (metis prod_cases3)
    consider "r = None" | e where "r = Some (Inl e)" | content where "r = Some (Inr content)"
      by (metis not_None_eq sumE)
    then show ?thesis
    proof cases
      case (3 content)
      obtain output_pool pool' r' where
        "render_output_frame (xr_output ans i) content out wallpaper (style_of job ?t) (xs_output_pool s, pool)
           = ((output_pool, pool'), r')"
        by (metis surj_pair)
      then show ?thesis using Some content 3
        by (auto simp: compose_frame_def Let_def split: option.splits sum.splits)
    qed (use Some content in \<open>simp_all add: compose_frame_def Let_def\<close>)
  qed (simp add: compose_frame_def Let_def)
qed

lemma export_frame_going:
  assumes "export_frame job ans (export_dimensions job decoders) wallpaper n i s = (s', Going)"
    and "decoding (map (\<lambda>input. A (fst input)) (xj_decoder_inputs job)) decoders" and "inputs_readable job ans A"
    and "length decoders = length (xj_decoder_inputs job)" and "xs_decoders s = decoders_at job ans decoders i"
  shows "\<exists>f reply ts. exported_frame job ans A decoders wallpaper i f
    \<and> xs_decoders s' = decoders_at job ans decoders (Suc i)
    \<and> as_micros ts = nat (frame_stamp (xj_fps job) i)
    \<and> mp4_append f ts reply (xs_writer s) = (xs_writer s', Inr True)
    \<and> xs_events s' = xs_events s @ [ExportProgress (real (i + 1) / real n)]"
proof -
  let ?t = "real i / real (xj_fps job)"
  let ?out = "export_dimensions job decoders"
  obtain s1 r where c: "compose_frame job ans ?out wallpaper i s = (s1, r)" by (metis surj_pair)
  obtain f where r: "r = Inr f"
    using assms(1) c compose_frame_not_going [of job ans ?out wallpaper i s s1] by (cases r) (auto simp: export_frame_def)
  obtain ts where ts: "try_from_secs_f64 (Fin ?t) = Some ts"
    using assms(1) c r by (auto simp: export_frame_def simp del: try_from_secs_f64.simps split: option.splits)
  then have "as_micros ts = nat (frame_stamp (xj_fps job) i)"
    by (auto simp: frame_stamp_def Let_def split: if_splits)
  moreover obtain w x where w: "encode_frame f ts (xr_frame ans i) (xs_writer s1) = (w, x)" by (metis surj_pair)
  then have "x = Going" "xs_writer s' = w" "xs_decoders s' = xs_decoders s1" "xs_events s' = xs_events s1 @ [ExportProgress (real (i + 1) / real n)]"
    using assms(1) c r ts
    by (cases x; auto simp: export_frame_def simp del: try_from_secs_f64.simps)+
  ultimately show ?thesis
    using compose_frame_going [OF _ assms(2-5), of wallpaper s1 f] c r w by (metis encode_frame_going)
qed

lemma for_each_snoc:
  "for_each f (is @ [i]) s = then_do (for_each f is s) (f i)"
  by (induction "is" arbitrary: s) (auto simp: then_do_def split: prod.splits outcome.splits)

lemma frames_exported:
  assumes "for_each (export_frame job ans (export_dimensions job decoders) wallpaper n) [0..<k] s = (s', Going)" and "fresh_writer (xs_writer s)"
    and "0 < xj_fps job" and "xj_fps job \<le> 1000"
    and "decoding (map (\<lambda>input. A (fst input)) (xj_decoder_inputs job)) decoders" and "inputs_readable job ans A"
    and "length decoders = length (xj_decoder_inputs job)" and "xs_decoders s = decoders"
  shows "\<exists>fs. length fs = k \<and> frames_done job ans A decoders wallpaper fs \<and> xs_writer s' = after_frames (xs_writer s) fs
    \<and> xs_decoders s' = decoders_at job ans decoders k
    \<and> xs_events s' = xs_events s @ map (\<lambda>i. ExportProgress (real (i + 1) / real n)) [0..<k]"
  using assms(1)
proof (induction k arbitrary: s')
  case 0
  then show ?case using assms(8) by (auto simp: frames_done_def after_frames_def)
next
  case (Suc k)
  then obtain s1 where s1: "for_each (export_frame job ans (export_dimensions job decoders) wallpaper n) [0..<k] s = (s1, Going)"
      "export_frame job ans (export_dimensions job decoders) wallpaper n k s1 = (s', Going)"
    by (auto simp: for_each_snoc then_do_def simp del: upt_Suc split: prod.splits outcome.splits simp: upt_Suc_append)
  from Suc.IH [OF this(1)] obtain fs where fs: "length fs = k" "frames_done job ans A decoders wallpaper fs"
      "xs_writer s1 = after_frames (xs_writer s) fs"
      "xs_events s1 = xs_events s @ map (\<lambda>i. ExportProgress (real (i + 1) / real n)) [0..<k]"
      "xs_decoders s1 = decoders_at job ans decoders k"
    by blast
  from export_frame_going [OF s1(2) assms(5-7) fs(5)] obtain f reply ts where f: "exported_frame job ans A decoders wallpaper k f"
      "as_micros ts = nat (frame_stamp (xj_fps job) k)"
      "mp4_append f ts reply (after_frames (xs_writer s) fs) = (xs_writer s', Inr True)"
      "xs_events s' = xs_events s1 @ [ExportProgress (real (k + 1) / real n)]" "xs_decoders s' = decoders_at job ans decoders (Suc k)"
    unfolding fs(3) by blast
  have stamp: "int (as_micros ts) = frame_stamp (xj_fps job) k" by (simp add: f(2) frame_stamp_def)
  have "if fs = [] then as_micros ts = 0 else snd (last fs) < int (as_micros ts)"
  proof (cases k)
    case 0
    then show ?thesis using fs(1) f(2) frame_stamp_0 [OF assms(3)] by simp
  next
    case (Suc j)
    then have "snd (last fs) = frame_stamp (xj_fps job) j"
      using fs(1,2) by (cases fs rule: rev_cases) (auto simp: frames_done_def nth_append)
    then show ?thesis using stamp frame_stamp_less [OF assms(3,4), of j] Suc fs(1) by auto
  qed
  from append_after_frames [OF f(3) assms(2) this]
  have "xs_writer s' = after_frames (xs_writer s) (fs @ [(f, frame_stamp (xj_fps job) k)])" by (simp add: stamp)
  moreover have "frames_done job ans A decoders wallpaper (fs @ [(f, frame_stamp (xj_fps job) k)])"
    using fs(1,2) f(1) by (auto simp: frames_done_def nth_append less_Suc_eq)
  ultimately show ?case using fs(1,4) f(4,5)
    by (intro exI [of _ "fs @ [(f, frame_stamp (xj_fps job) k)]"]) simp
qed
subsection \<open>The audio of an export\<close>

lemma render_samples:
  assumes "render m t n = Inr packet" and "n \<le> 1024"
  shows "pkt_samples packet = concat (map (\<lambda>i. mix_frame_at m (t + real i / 48000)) [0..<n])"
proof -
  have double: "saturating_mul usize_max n MIX_CHANNELS = 2 * n"
    using assms(2) by (simp add: saturating_mul_def MIX_CHANNELS_def u64_max_def)
  have "unwrap_or (try_from u32_max i) u32_max = i" if "i < n" for i
    using that assms(2) by (simp add: try_from_def u32_max_def)
  then have same: "map (\<lambda>i. mix_frame_at m (t + real (unwrap_or (try_from u32_max i) u32_max) / 48000)) [0..<n]
      = map (\<lambda>i. mix_frame_at m (t + real i / 48000)) [0..<n]"
    by (intro map_cong) auto
  have "pkt_samples packet
      = concat (map (\<lambda>i. mix_frame_at m (t + real (unwrap_or (try_from u32_max i) u32_max) / 48000)) [0..<n])"
    using assms double
    by (auto simp: render_def new_packet_def MIX_SAMPLE_RATE_def MIX_CHANNELS_def Let_def split: if_splits)
  then show ?thesis unfolding same .
qed

lemma append_audio_sample:
  assumes "mp4_append_audio md packet ts reply w = (w', Inr True)" and "vw_start w = Some 0"
  shows "\<exists>p. w' = after_samples w [p] \<and> smp_samples p = pkt_samples packet \<and> smp_at p = int (as_micros ts)"
proof -
  obtain t p where t: "micros_i64 ts = Inr t" "audio_sample_buffer md packet (max t 0) = Inr p"
      "w' = call (AppendSamples p True) w"
    using assms by (auto simp: mp4_append_audio_def put_samples_def split: if_splits sum.splits)
  note micros_i64_Inr [OF t(1)]
  moreover have "smp_samples p = pkt_samples packet \<and> smp_at p = max t 0"
    using t(2) by (auto simp: audio_sample_buffer_def split: if_splits simp: checked_mul_def)
  ultimately show ?thesis using t(3) by (auto simp: after_samples_def call_def)
qed

lemma audio_exported:
  assumes "export_audio job ans total_audio_frames audio_frame s = (s', Going)" and "vw_start (xs_writer s) = Some 0"
  shows "\<exists>ps. xs_writer s' = after_samples (xs_writer s) ps \<and> xs_events s' = xs_events s
    \<and> concat (map smp_samples ps)
        = concat (map (\<lambda>k. mix_frame_at (xj_audio_mixer job) (real k / 48000)) [audio_frame..<total_audio_frames])
    \<and> map smp_at ps = map (\<lambda>j. frame_stamp 48000 (audio_frame + 1024 * j)) [0..<length ps]
    \<and> length ps = (total_audio_frames - audio_frame + 1023) div 1024"
  using assms
proof (induction job ans total_audio_frames audio_frame s rule: export_audio.induct)
  case (1 job ans total audio_frame s)
  show ?case
  proof (cases "total \<le> audio_frame")
    case True
    then show ?thesis using 1(2)
      by (intro exI [of _ "[]"]) (simp add: export_audio.simps after_samples_def)
  next
    case False
    define n where "n = min AUDIO_PACKET_FRAMES (total - audio_frame)"
    have n: "n \<le> 1024" "0 < n" "audio_frame + n \<le> total" "n = 1024 \<or> audio_frame + n = total"
      using False by (auto simp: n_def AUDIO_PACKET_FRAMES_def)
    let ?t = "real audio_frame / real MIX_SAMPLE_RATE"
    obtain packet where packet: "render (xj_audio_mixer job) ?t n = Inr packet"
      using 1(2) False by (cases "render (xj_audio_mixer job) ?t n") (simp_all add: export_audio.simps n_def [symmetric] Let_def)
    obtain ts where ts: "try_from_secs_f64 (Fin ?t) = Some ts"
      using 1(2) False packet
      by (cases "try_from_secs_f64 (Fin ?t)") (simp_all add: export_audio.simps n_def [symmetric] Let_def del: try_from_secs_f64.simps)
    obtain w x where e: "encode_audio packet ts (xr_audio ans audio_frame) (xs_writer s) = (w, x)" by (metis surj_pair)
    have x: "x = Going" and rest: "export_audio job ans total (audio_frame + n) (s\<lparr>xs_writer := w\<rparr>) = (s', Going)"
      using 1(2) False packet ts e
      by (cases x; simp add: export_audio.simps [of job ans total audio_frame] n_def [symmetric] Let_def del: try_from_secs_f64.simps)+
    from e x obtain md reply where a: "mp4_append_audio md packet ts reply (xs_writer s) = (w, Inr True)"
      by (auto dest: encode_audio_going)
    from append_audio_sample [OF a 1(3)] obtain p where p: "w = after_samples (xs_writer s) [p]"
        "smp_samples p = pkt_samples packet" "smp_at p = int (as_micros ts)"
      by blast
    have at_p: "smp_at p = frame_stamp 48000 audio_frame"
      using p(3) ts by (auto simp: frame_stamp_def MIX_SAMPLE_RATE_def Let_def split: if_splits)
    have start: "vw_start (xs_writer (s\<lparr>xs_writer := w\<rparr>)) = Some 0" using p(1) 1(3) by (simp add: after_samples_def)
    have IH: "\<exists>ps. xs_writer s' = after_samples w ps \<and> xs_events s' = xs_events s
      \<and> concat (map smp_samples ps)
          = concat (map (\<lambda>k. mix_frame_at (xj_audio_mixer job) (real k / 48000)) [audio_frame + n..<total])
      \<and> map smp_at ps = map (\<lambda>j. frame_stamp 48000 (audio_frame + n + 1024 * j)) [0..<length ps]
      \<and> length ps = (total - (audio_frame + n) + 1023) div 1024"
      using 1(1) [OF False n_def refl packet ts e [symmetric] x] rest start by simp
    then obtain ps where ps: "xs_writer s' = after_samples w ps" "xs_events s' = xs_events s"
        "concat (map smp_samples ps)
          = concat (map (\<lambda>k. mix_frame_at (xj_audio_mixer job) (real k / 48000)) [audio_frame + n..<total])"
        "map smp_at ps = map (\<lambda>j. frame_stamp 48000 (audio_frame + n + 1024 * j)) [0..<length ps]"
        "length ps = (total - (audio_frame + n) + 1023) div 1024"
      by blast
    have "[audio_frame..<total] = [audio_frame..<audio_frame + n] @ [audio_frame + n..<total]"
      using n(3) by (metis le_add1 le_add_diff_inverse upt_add_eq_append)
    moreover have "[audio_frame..<audio_frame + n] = map (\<lambda>i. i + audio_frame) [0..<n]"
      by (simp add: map_add_upt add.commute)
    moreover have "pkt_samples packet = concat (map (\<lambda>i. mix_frame_at (xj_audio_mixer job) (real (i + audio_frame) / 48000)) [0..<n])"
      unfolding render_samples [OF packet n(1)] by (simp add: MIX_SAMPLE_RATE_def add_divide_distrib add.commute)
    ultimately have samples: "concat (map smp_samples (p # ps))
        = concat (map (\<lambda>k. mix_frame_at (xj_audio_mixer job) (real k / 48000)) [audio_frame..<total])"
      using p(2) ps(3) by (simp add: comp_def)
    have times: "map smp_at (p # ps) = map (\<lambda>j. frame_stamp 48000 (audio_frame + 1024 * j)) [0..<length (p # ps)]"
    proof (cases "ps = []")
      case True
      then show ?thesis using  at_p by simp
    next
      case False
      then have "n = 1024" using n(4) ps(5) by (auto simp: div_eq_0_iff)
      then show ?thesis using  at_p ps(4) by (simp add: upt_conv_Cons map_Suc_upt [symmetric] comp_def add.assoc del: upt_Suc)
    qed
    have len: "length (p # ps) = (total - audio_frame + 1023) div 1024"
    proof (cases "n = 1024")
      case True
      define rest where "rest = total - (audio_frame + n)"
      have "total - audio_frame = rest + 1024" using n(3) True by (simp add: rest_def)
      then show ?thesis using ps(5) by (simp add: rest_def [symmetric])
    next
      case False
      then have "total - audio_frame = n" "n < 1024" using n by auto
      then show ?thesis using ps(5) n by (auto simp: div_eq_0_iff le_div_geq)
    qed
    have "xs_writer s' = after_samples (xs_writer s) (p # ps)" by (simp add: ps(1) p(1) after_samples_def)
    then show ?thesis by (intro exI [of _ "p # ps"] conjI ps(2) samples times len)
  qed
qed
subsection \<open>A finished export\<close>

lemma mp4_new_fresh:
  assumes "mp4_new su (options_file_type ft audio) path parent r1 r2 width height fps d = (d', Inr w)"
  shows "fresh_writer w \<and> vw_audio_input w = audio"
  using assms
  by (auto simp: mp4_new_def writer_setup_def fresh_writer_def options_file_type_def add_audio_input_def
      split: if_splits sum.splits prod.splits)

lemma after_frames_keeps:
  "vw_audio_input (after_frames w fs) = vw_audio_input w" "vw_finished (after_frames w fs) = vw_finished w"
  "vw_audio_input (after_samples w ps) = vw_audio_input w" "vw_finished (after_samples w ps) = vw_finished w"
  "vw_start (after_samples w ps) = vw_start w" "vw_last (after_samples w ps) = vw_last w"
  by (simp_all add: after_frames_def after_samples_def)

lemma finish_export_going:
  assumes "finish_export ans s = (s', Going)" and "\<not> vw_finished (xs_writer s)"
    and "vw_start (xs_writer s) = Some 0" and "vw_last (xs_writer s) = Some l"
  shows "\<exists>end_time. l < end_time \<and> xs_events s' = xs_events s \<and> vw_finished (xs_writer s')
    \<and> vw_calls (xs_writer s') = vw_calls (xs_writer s) @ EndSession end_time # MarkVideoFinished
        # (if vw_audio_input (xs_writer s) then [MarkAudioFinished] else []) @ [FinishWriting]"
proof -
  obtain w where f: "mp4_finish (xr_finish ans) (xs_writer s) = (w, Inr ())" and s': "s' = s\<lparr>xs_writer := w\<rparr>"
    using assms(1) by (auto simp: finish_export_def split: prod.splits sum.splits)
  then obtain t where t: "mp4_end_time (xs_writer s) = Inr t"
      "vw_calls w = vw_calls (call FinishWriting (end_calls t (xs_writer s)))" "vw_finished w"
    using assms(2) by (auto simp: mp4_finish_def Let_def split: sum.splits)
  have "l < t" using t(1) assms(3,4)
    by (auto simp: mp4_end_time_def checked_signed_def dest!: end_after_gt split: if_splits)
  then show ?thesis using t(2,3) s' by (auto simp: call_def end_calls_shape end_list_def)
qed

lemma ceil_count_nat: "0 < x \<Longrightarrow> x \<le> 10 ^ 15 \<Longrightarrow> ceil_count x = nat \<lceil>x\<rceil>"
proof -
  assume x: "0 < x" "x \<le> 10 ^ 15"
  then have "1 \<le> \<lceil>x\<rceil>" "\<lceil>x\<rceil> \<le> 10 ^ 15" by (simp_all add: ceiling_le_iff less_ceiling_iff one_le_ceiling)
  then have "max (real_of_int \<lceil>x\<rceil>) 1 = real_of_int \<lceil>x\<rceil>" by (intro max_absorb1) simp
  then show "ceil_count x = nat \<lceil>x\<rceil>" using \<open>1 \<le> \<lceil>x\<rceil>\<close> \<open>\<lceil>x\<rceil> \<le> 10 ^ 15\<close>
    by (simp add: ceil_count_def as_unsigned_def u64_max_def)
qed

definition only_progress :: "export_state \<Rightarrow> bool" where
  "only_progress s \<longleftrightarrow> (\<forall>e \<in> set (xs_events s). \<exists>p. e = ExportProgress p)"

lemma compose_frame_events: "xs_events (fst (compose_frame job ans out wallpaper i s)) = xs_events s"
  by (simp add: compose_frame_def Let_def split: option.split sum.split prod.split)

lemma export_frame_progress:
  "only_progress s \<Longrightarrow> only_progress (fst (export_frame job ans out wallpaper n i s))"
  using compose_frame_events [of job ans out wallpaper i s]
  by (auto simp: export_frame_def only_progress_def simp del: try_from_secs_f64.simps
      split: prod.split sum.split option.split outcome.split)

lemma for_each_progress:
  "only_progress s \<Longrightarrow> only_progress (fst (for_each (export_frame job ans out wallpaper n) is s))"
proof (induction "is" arbitrary: s)
  case (Cons i "is")
  from export_frame_progress [OF Cons.prems, of job ans out wallpaper n i] Cons.IH show ?case
    by (auto simp: then_do_def split: prod.split outcome.split)
qed simp

lemma export_audio_events: "xs_events (fst (export_audio job ans total_audio_frames audio_frame s)) = xs_events s"
proof (induction job ans total_audio_frames audio_frame s rule: export_audio.induct)
  case (1 job ans total audio_frame s)
  show ?case
    by (subst export_audio.simps) (auto simp: Let_def 1 simp del: try_from_secs_f64.simps
        split: sum.split option.split prod.split outcome.split)
qed

lemma finish_export_events: "xs_events (fst (finish_export ans s)) = xs_events s"
  by (simp add: finish_export_def split: prod.split sum.split)

lemma then_do_going: "then_do r k = (s, Going) \<Longrightarrow> \<exists>s1. r = (s1, Going) \<and> k s1 = (s, Going)"
  by (cases r; cases "snd r") (auto simp: then_do_def)

lemma then_do_progress:
  "only_progress (fst r) \<Longrightarrow> (\<And>s. only_progress s \<Longrightarrow> only_progress (fst (k s))) \<Longrightarrow> only_progress (fst (then_do r k))"
  by (auto simp: then_do_def split: prod.split outcome.split)

lemma export_all_progress:
  assumes "only_progress s"
  shows "only_progress (fst (export_all job ans out wallpaper s))"
proof -
  have audio: "only_progress s1 \<Longrightarrow> only_progress (fst (export_audio job ans n 0 s1))" for s1 n
    by (simp add: only_progress_def export_audio_events)
  have finish: "only_progress s1 \<Longrightarrow> only_progress (fst (finish_export ans s1))" for s1
    by (simp add: only_progress_def finish_export_events)
  show ?thesis unfolding export_all_def Let_def
    by (intro then_do_progress for_each_progress assms) (auto intro: audio finish)
qed

lemma render_export_progress: "render_export job ans d = (d', Some s, x) \<Longrightarrow> only_progress s"
proof -
  assume "render_export job ans d = (d', Some s, x)"
  then obtain decoders wallpaper w s0 where "export_all job ans (export_dimensions job decoders) wallpaper
      \<lparr>xs_decoders = decoders, xs_content_pool = None, xs_output_pool = None, xs_writer = w, xs_events = []\<rparr> = (s0, x)"
      "xs_events s = xs_events s0"
    by (auto simp: render_export_def drop_writer_def Let_def split: sum.splits prod.splits if_splits)
  then show "only_progress s"
    using export_all_progress [of "\<lparr>xs_decoders = decoders, xs_content_pool = None, xs_output_pool = None, xs_writer = w, xs_events = []\<rparr>"
        job ans "export_dimensions job decoders" wallpaper]
    by (simp add: only_progress_def)
qed

lemma export_worker_success:
  assumes "export_worker job ans d = (d', Some s, events)" and "ExportFinished (Inr path) \<in> set events"
  shows "render_export job ans d = (d', Some s, Going) \<and> events = xs_events s @ [ExportFinished (Inr (xj_output job))]"
proof -
  obtain d1 st x where r: "render_export job ans d = (d1, st, x)" by (metis prod_cases3)
  then have st: "st = Some s" using assms(1) by (cases x) (auto simp: export_worker_def Let_def)
  then have "only_progress s" using r render_export_progress by blast
  then show ?thesis using assms r st
    by (cases x) (auto simp: export_worker_def Let_def only_progress_def)
qed

lemma export_done:
  assumes "(if has_sources (xj_audio_mixer job) then export_audio job ans total_audio_frames 0 s else (s, Going)) = (s', Going)"
    and "vw_start (xs_writer s) = Some 0"
  shows "\<exists>ps. xs_writer s' = after_samples (xs_writer s) ps \<and> xs_events s' = xs_events s
    \<and> concat (map smp_samples ps) = (if has_sources (xj_audio_mixer job)
        then concat (map (\<lambda>k. mix_frame_at (xj_audio_mixer job) (real k / 48000)) [0..<total_audio_frames]) else [])
    \<and> map smp_at ps = map (\<lambda>j. frame_stamp 48000 (1024 * j)) [0..<length ps]
    \<and> length ps = (if has_sources (xj_audio_mixer job) then (total_audio_frames + 1023) div 1024 else 0)"
proof (cases "has_sources (xj_audio_mixer job)")
  case True
  then show ?thesis using assms audio_exported [of job ans total_audio_frames 0 s s'] by auto
next
  case False
  then show ?thesis using assms by (intro exI [of _ "[]"]) (simp add: after_samples_def)
qed

text \<open>
  C7: An export that reports success has encoded one frame for every frame time of the timeline, in order, each
  composed from the pictures that the recorded files have at the source time the timeline gives for that moment (for
  each file that has started by then, a picture shown for the time since its start, as in C19), in the project's
  style of that moment, and put within a microsecond of its time; then, when there is audio, packets whose samples are those of the mixer for the whole
  timeline, one after another without a gap, each at its time; then it ended the session after the last frame and
  finished the file. The progress it reported rises by one frame at a time to one.
\<close>

theorem export_complete:
  assumes "export_worker job ans d = (d', Some s, events)" and "ExportFinished (Inr path) \<in> set events"
    and "0 < xj_fps job" and "xj_fps job \<le> 1000" and "0 < xj_duration_secs job" and "xj_duration_secs job \<le> 10 ^ 9"
    and "inputs_readable job ans A"
  shows "\<exists>decoders wallpaper calls frames samples end_time.
    prepare_export job ans = Inr (decoders, wallpaper)
    \<and> vw_calls (xs_writer s) = calls @ StartSession 0 # map (\<lambda>(f, t). AppendFrame f t True) frames
        @ map (\<lambda>p. AppendSamples p True) samples
        @ EndSession end_time # MarkVideoFinished
        # (if has_sources (xj_audio_mixer job) then [MarkAudioFinished] else []) @ [FinishWriting]
    \<and> length frames = nat \<lceil>xj_duration_secs job * real (xj_fps job)\<rceil>
    \<and> (\<forall>i < length frames. exported_frame job ans A decoders wallpaper i (fst (frames ! i))
        \<and> \<bar>real_of_int (snd (frames ! i)) - real i / real (xj_fps job) * 1000000\<bar> \<le> 1)
    \<and> snd (last frames) < end_time
    \<and> concat (map smp_samples samples)
        = (if has_sources (xj_audio_mixer job)
           then concat (map (\<lambda>k. mix_frame_at (xj_audio_mixer job) (real k / 48000)) [0..<nat \<lceil>xj_duration_secs job * 48000\<rceil>])
           else [])
    \<and> map smp_at samples = map (\<lambda>j. frame_stamp 48000 (1024 * j)) [0..<length samples]
    \<and> length samples = (if has_sources (xj_audio_mixer job) then (nat \<lceil>xj_duration_secs job * 48000\<rceil> + 1023) div 1024 else 0)
    \<and> events = map (\<lambda>i. ExportProgress (real (i + 1) / real (length frames))) [0..<length frames]
        @ [ExportFinished (Inr (xj_output job))]"
proof -
  let ?n = "nat \<lceil>xj_duration_secs job * real (xj_fps job)\<rceil>" and ?total = "nat \<lceil>xj_duration_secs job * 48000\<rceil>"
  have "xj_duration_secs job * real (xj_fps job) \<le> 10 ^ 9 * 1000"
    using assms(4-6) by (intro mult_mono) simp_all
  then have n: "ceil_count (xj_duration_secs job * real (xj_fps job)) = ?n" "0 < ?n"
    using assms(3,5) by (auto intro!: ceil_count_nat)
  have total: "ceil_count (xj_duration_secs job * real MIX_SAMPLE_RATE) = ?total"
    using ceil_count_nat [of "xj_duration_secs job * 48000"] assms(5,6) by (simp add: MIX_SAMPLE_RATE_def)
  note success = export_worker_success [OF assms(1,2)]
  then obtain decoders wallpaper w d1 s0 where
    prep: "prepare_export job ans = Inr (decoders, wallpaper)" and
    w: "mp4_new (xr_setup ans) (options_file_type (xj_file_type job) (has_sources (xj_audio_mixer job)))
      (xj_output job) (xr_parent ans) (xr_dir ans) (xr_unlink ans) (fst (export_dimensions job decoders))
      (snd (export_dimensions job decoders)) (xj_fps job) d = (d1, Inr w)" and
    all: "export_all job ans (export_dimensions job decoders) wallpaper
      \<lparr>xs_decoders = decoders, xs_content_pool = None, xs_output_pool = None, xs_writer = w, xs_events = []\<rparr> = (s0, Going)" and
    dropped: "s = s0\<lparr>xs_writer := writer_drop (xs_writer s0)\<rparr>"
    by (auto simp: render_export_def drop_writer_def Let_def split: sum.splits prod.splits if_splits)
  let ?s = "\<lparr>xs_decoders = decoders, xs_content_pool = None, xs_output_pool = None, xs_writer = w, xs_events = []\<rparr>"
  note fresh = mp4_new_fresh [OF w]
  obtain s1 where s1: "for_each (export_frame job ans (export_dimensions job decoders) wallpaper ?n) [0..<?n] ?s = (s1, Going)"
      "then_do (if has_sources (xj_audio_mixer job) then export_audio job ans ?total 0 s1 else (s1, Going)) (finish_export ans)
        = (s0, Going)"
    using then_do_going [OF all [unfolded export_all_def Let_def n(1) total]] by blast
  have opened: "open_decoders (xr_decoders ans) (xj_decoder_inputs job) = Inr decoders"
    using prep by (auto simp: prepare_export_def split: sum.splits option.splits)
  from frames_exported [OF s1(1) _ assms(3,4) opened_decoding(1) [OF opened assms(7)] assms(7) opened_decoding(2) [OF opened assms(7)]]
    fresh obtain fs where fs: "length fs = ?n"
      "frames_done job ans A decoders wallpaper fs" "xs_writer s1 = after_frames w fs"
      "xs_events s1 = map (\<lambda>i. ExportProgress (real (i + 1) / real ?n)) [0..<?n]"
    by auto
  then have "fs \<noteq> []" using n(2) by auto
  then have start: "vw_start (xs_writer s1) = Some 0" "vw_last (xs_writer s1) = Some (snd (last fs))"
    by (simp_all add: fs(3) after_frames_def)
  obtain s2 where s2: "(if has_sources (xj_audio_mixer job) then export_audio job ans ?total 0 s1 else (s1, Going)) = (s2, Going)"
      "finish_export ans s2 = (s0, Going)"
    using then_do_going [OF s1(2)] by blast
  obtain ps where ps: "xs_writer s2 = after_samples (xs_writer s1) ps" "xs_events s2 = xs_events s1"
      "concat (map smp_samples ps) = (if has_sources (xj_audio_mixer job)
         then concat (map (\<lambda>k. mix_frame_at (xj_audio_mixer job) (real k / 48000)) [0..<?total]) else [])"
      "map smp_at ps = map (\<lambda>j. frame_stamp 48000 (1024 * j)) [0..<length ps]"
      "length ps = (if has_sources (xj_audio_mixer job) then (?total + 1023) div 1024 else 0)"
    using export_done [OF s2(1) start(1)] by blast
  have "\<not> vw_finished (xs_writer s2)"
    using fresh by (simp add: ps(1) fs(3) after_frames_keeps fresh_writer_def)
  from finish_export_going [OF s2(2) this] start obtain end_time where e: "snd (last fs) < end_time"
      "xs_events s0 = xs_events s2"
      "vw_finished (xs_writer s0)" "vw_calls (xs_writer s0) = vw_calls (xs_writer s2) @ EndSession end_time # MarkVideoFinished
        # (if vw_audio_input (xs_writer s2) then [MarkAudioFinished] else []) @ [FinishWriting]"
    by (auto simp: ps(1) after_frames_keeps)
  have calls: "vw_calls (xs_writer s) = vw_calls w @ StartSession 0 # map (\<lambda>(f, t). AppendFrame f t True) fs
      @ map (\<lambda>p. AppendSamples p True) ps @ EndSession end_time # MarkVideoFinished
      # (if has_sources (xj_audio_mixer job) then [MarkAudioFinished] else []) @ [FinishWriting]"
    using e(3,4) fresh \<open>fs \<noteq> []\<close> by (simp add: ps(1) fs(3) after_frames_keeps) (simp add: after_samples_def after_frames_def dropped writer_drop_def)
  have shown: "\<forall>i < length fs. exported_frame job ans A decoders wallpaper i (fst (fs ! i))
      \<and> \<bar>real_of_int (snd (fs ! i)) - real i / real (xj_fps job) * 1000000\<bar> \<le> 1"
    using fs(2) frame_stamp_near [OF assms(3)] by (simp add: frames_done_def)
  have progress: "events = map (\<lambda>i. ExportProgress (real (i + 1) / real (length fs))) [0..<length fs]
      @ [ExportFinished (Inr (xj_output job))]"
    using success e(2) ps(2) fs(1,4) by (simp add: dropped)
  show ?thesis
    using prep calls fs(1) shown e(1) ps(3-5) progress by blast
qed
text \<open>A recording of one second at one frame a second, without audio or camera.\<close>

definition sample_buffer :: pixel_buffer where
  "sample_buffer = \<lparr>pb_id = 1, pb_format = Bgra32, pb_width = 2, pb_height = 2, pb_planes = []\<rparr>"

definition sample_file :: "pixel_buffer sample list" where
  "sample_file = [\<lparr>sm_time = 0, sm_image = Some sample_buffer\<rparr>]"

definition sample_track :: track_report where
  "sample_track = \<lparr>tr_value = 1, tr_timescale = 1, tr_width = 2, tr_height = 2, tr_frame_rate = 30, tr_cursor = None\<rparr>"

definition sample_decoder :: "pixel_buffer video_decoder" where
  "sample_decoder = \<lparr>de_duration = 1000000000, de_width = 2, de_height = 2, de_nominal_fps = 30, de_gop_duration = 3,
     de_reader = None, de_cache = []\<rparr>"

definition sample_reader :: "int \<Rightarrow> decoder_error + pixel_buffer sample list" where
  "sample_reader start = Inr (dropWhile (\<lambda>s. sm_time s < real_of_int start / 1000000) sample_file)"

definition sample_job :: export_job where
  "sample_job = \<lparr>xj_output = ''/m/a.mp4'', xj_file_type = Mp4, xj_short_edge = 2, xj_aspect_ratio = Square, xj_fps = 1,
     xj_duration_secs = 1,
     xj_bundle = (new_bundle 0 False False)\<lparr>bb_video_segments := Some [\<lparr>vs_id = 0, vs_source_start_secs = 0, vs_source_end_secs = 1\<rparr>]\<rparr>,
     xj_decoder_inputs = [(''screen.mp4'', False, 0)], xj_wallpaper = None, xj_background_type = BgColor, xj_padding = 0,
     xj_border_radius = 0, xj_shadow = 0, xj_audio_mixer = new_mixer [] []\<rparr>"

definition sample_replies :: export_replies where
  "sample_replies = \<lparr>xr_decoders = (\<lambda>_. Inr sample_decoder), xr_wallpaper = (\<lambda>_. Inl ''''), xr_content_renderer = None,
     xr_output_renderer = None, xr_setup = ready_setup, xr_parent = None, xr_dir = None, xr_unlink = None,
     xr_open = (\<lambda>_ _. sample_reader), xr_content = (\<lambda>_. willing_gpu),
     xr_output = (\<lambda>_. \<lparr>fp_combined = willing_gpu, fp_zoomed = willing_gpu, fp_overlay = willing_gpu\<rparr>),
     xr_frame = (\<lambda>_. [taken]), xr_audio = (\<lambda>_. []), xr_finish = finished_ok, xr_clean = None\<rparr>"

lemma sample_opened: "open_decoder True (Some sample_track) = Inr sample_decoder"
  by (simp add: open_decoder_def sample_track_def sample_decoder_def estimate_gop_duration_def fallback_gop_duration_secs_def
      as_unsigned_def round_half_even_def duration_max_def u64_max_def Let_def)

lemma sample_readable: "inputs_readable sample_job sample_replies (\<lambda>_. sample_file)"
proof -
  have "reader_answers sample_file sample_reader"
    using reader_answers_dropWhile [of sample_file] unfolding sample_reader_def .
  moreover have "\<exists>r. open_decoder True (Some r) = Inr sample_decoder \<and> (tr_frame_rate r \<le> 0 \<or> 1/1000 \<le> tr_frame_rate r)"
    using sample_opened by (intro exI [of _ sample_track]) (simp add: sample_track_def)
  moreover have "asset_ok sample_file" by (simp add: asset_ok_def sample_file_def)
  moreover have "source_time_at (xj_bundle sample_job) t = Some x \<Longrightarrow> \<bar>x\<bar> \<le> 10 ^ 9" for t x
    by (auto simp: source_time_at_def sample_job_def vs_duration_secs_def split: if_splits)
  ultimately show ?thesis by (auto simp: inputs_readable_def sample_replies_def sample_job_def)
qed

lemma sample_active:
  "active_frames (\<lambda>_. sample_reader) 0 [(sample_decoder, False, 0)]
    = ([(sample_decoder\<lparr>de_reader := Some \<lparr>rd_rest = [], rd_last_frame = sample_buffer, rd_last_ts = 0\<rparr>,
          de_cache := [(0, sample_buffer)]\<rparr>, False, 0)],
       [\<lparr>af_pixel_buffer = sample_buffer, af_dimensions = (2, 2), af_is_camera = False\<rparr>])"
  by (simp add: aligned_input_time_def frame_at_def seek_frame_def sample_decoder_def cached_near_def secs_to_micros_def
      saturating_signed_def round_away_def tolerance_def sample_reader_def sample_file_def Let_def)

lemmas gpu_eval = render_items_def render_with_clear_color_def output_pixel_buffer_def willing_gpu_def import_plane_def u32_max_def
  import_source_def gpu_content_rect_def clamp_panic_def clamp_def item_settings_def plain_transform_def clamped_corner_radius_def

lemma sample_content:
  "\<exists>ds r. render_content_frame (\<lambda>_. sample_reader) willing_gpu 0 [(sample_decoder, False, 0)] None
    = (ds, Some (2, 2), Some (Inr \<lparr>cf_screen = r, cf_camera = None, cf_dimensions = (2, 2)\<rparr>))"
  by (simp add: render_content_frame_def sample_active sample_buffer_def canvas_dimensions_def content_sources_def content_items_def
      screen_frames_def has_screen_def content_camera_def plain_item_def gpu_eval Let_def del: active_frames.simps)

lemma sample_output:
  "\<exists>pools r. render_output_frame \<lparr>fp_combined = willing_gpu, fp_zoomed = willing_gpu, fp_overlay = willing_gpu\<rparr>
     \<lparr>cf_screen = c, cf_camera = None, cf_dimensions = (2, 2)\<rparr> (2, 2) None (style_of sample_job 0) (None, Some (2, 2)) = (pools, Some (Inr r))"
proof -
  have s: "style_of sample_job 0 = \<lparr>fst_background = BgColor, fst_padding = 0, fst_border_radius = 0, fst_shadow = 0,
      fst_zoom = IDENTITY, fst_camera_layout = default_camera_layout, fst_screen_crop = None\<rparr>"
    by (simp add: style_of_def sample_job_def new_bundle_def zoom_transform_at_def)
  have crop: "screen_crop_rect (2, 2) None = (\<lparr>cr_x = 0, cr_y = 0, cr_width = 2, cr_height = 2\<rparr>, (2, 2))"
    by (simp add: screen_crop_rect_def normalize_screen_crop_def FULL_CROP_def round_away_def as_unsigned_def u64_max_def)
  show ?thesis
    by (simp add: s crop render_output_frame_def render_with_output_transform_def output_sources_def output_items_def
        content_transform_def preview_background_def rendered_buffer_def combined_source_def aspect_fit_size_def
        map_output_transform_to_item_def map_output_transform_to_crop_def normalize_screen_crop_def IDENTITY_def
        with_box_shadow_def with_spread_radius_def with_blur_radius_def plain_shadow_def with_squircle_def
        with_corner_radius_def output_scale_def output_focus_def gpu_eval Let_def)
qed

lemma sample_prepared:
  "prepare_export sample_job sample_replies = Inr ([(sample_decoder, False, 0)], None)"
  "export_dimensions sample_job [(sample_decoder, False, 0)] = (2, 2)"
proof -
  show "prepare_export sample_job sample_replies = Inr ([(sample_decoder, False, 0)], None)"
    by (simp add: prepare_export_def sample_job_def sample_replies_def)
  have "screen_crop_rect (2, 2) None = (\<lparr>cr_x = 0, cr_y = 0, cr_width = 2, cr_height = 2\<rparr>, (2, 2))"
    by (simp add: screen_crop_rect_def normalize_screen_crop_def FULL_CROP_def round_away_def as_unsigned_def u64_max_def)
  then show "export_dimensions sample_job [(sample_decoder, False, 0)] = (2, 2)"
    by (simp add: export_dimensions_def source_dimensions_def sample_decoder_def sample_job_def new_bundle_def
        output_dimensions_def output_ratio_def even_dimension_def round_away_def as_unsigned_def u64_max_def Let_def)
qed

lemma sample_exported:
  "\<exists>s. export_worker sample_job sample_replies no_files
     = (no_files, Some s, [ExportProgress 1, ExportFinished (Inr ''/m/a.mp4'')])"
proof -
  obtain w :: "(rendering, real) video_writer" where w:
    "mp4_new ready_setup (options_file_type Mp4 False) ''/m/a.mp4'' None None None 2 2 1 no_files = (no_files, Inr w)"
    "vw_frame_duration w = 1000000000"
    by (simp add: mp4_new_def frame_duration_of_def checked_div_def nanos_per_sec_def prepare_output_def
      no_files_def writer_setup_def guard_err_def ready_setup_def require_def options_file_type_def
      video_settings_def nested_def add_audio_input_def)
  note fresh = mp4_new_fresh [OF w(1)]
  let ?s = "\<lparr>xs_decoders = [(sample_decoder, False, 0)], xs_content_pool = None, xs_output_pool = None, xs_writer = w, xs_events = []\<rparr>"
  obtain ds c where c: "render_content_frame (xr_open sample_replies 0) willing_gpu 0 [(sample_decoder, False, 0)] None
      = (ds, Some (2, 2), Some (Inr \<lparr>cf_screen = c, cf_camera = None, cf_dimensions = (2, 2)\<rparr>))"
    using sample_content by (auto simp: sample_replies_def)
  obtain pools f where f: "render_output_frame \<lparr>fp_combined = willing_gpu, fp_zoomed = willing_gpu, fp_overlay = willing_gpu\<rparr>
     \<lparr>cf_screen = c, cf_camera = None, cf_dimensions = (2, 2)\<rparr> (2, 2) None (style_of sample_job 0) (None, Some (2, 2))
     = (pools, Some (Inr f))"
    using sample_output by blast
  obtain s1 where s1: "compose_frame sample_job sample_replies (2, 2) None 0 ?s = (s1, Inr f)"
  proof -
    have "source_time_at (xj_bundle sample_job) 0 = Some 0"
      by (simp add: source_time_at_def sample_job_def vs_duration_secs_def)
    moreover have "xr_content sample_replies 0 = willing_gpu"
      "xr_output sample_replies 0 = \<lparr>fp_combined = willing_gpu, fp_zoomed = willing_gpu, fp_overlay = willing_gpu\<rparr>"
      by (simp_all add: sample_replies_def)
    ultimately show ?thesis using that c f by (cases pools) (simp add: compose_frame_def)
  qed
  have "compose_frame sample_job sample_replies (export_dimensions sample_job [(sample_decoder, False, 0)]) None 0 ?s = (s1, Inr f)"
    using s1 by (simp add: sample_prepared)
  moreover have "open_decoders (xr_decoders sample_replies) (xj_decoder_inputs sample_job) = Inr [(sample_decoder, False, 0)]"
    by (simp add: sample_job_def sample_replies_def)
  ultimately have same: "xs_writer s1 = xs_writer ?s" "xs_events s1 = xs_events ?s"
    using compose_frame_going [of sample_job sample_replies "[(sample_decoder, False, 0)]" None 0 ?s s1 f "\<lambda>_. sample_file"]
      opened_decoding [OF _ sample_readable] sample_readable by auto
  have "mp4_append f 0 taken w = (after_frames w [(f, 0)], Inr True)"
    using fresh by (simp add: fresh_writer_def writer_eval start_session_def after_frames_def put_frame_def call_def)
  then have "export_frame sample_job sample_replies (2, 2) None 1 0 ?s
      = (s1\<lparr>xs_writer := after_frames w [(f, 0)], xs_events := [ExportProgress 1]\<rparr>, Going)"
    using same s1 by (simp add: export_frame_def sample_replies_def duration_max_def round_half_even_def)
  moreover have "\<exists>w'. mp4_finish finished_ok (after_frames w [(f, 0)]) = (w', Inr ())"
    using fresh w(2)
    by (simp add: mp4_finish_def mp4_end_time_def end_after_def finish_result_def finished_ok_def after_frames_def
        fresh_writer_def micros_i64_def checked_signed_def in_signed_def as_micros_def)
  ultimately have "\<exists>s. export_all sample_job sample_replies (2, 2) None ?s = (s, Going) \<and> xs_events s = [ExportProgress 1]"
    by (auto simp: export_all_def ceil_count_def as_unsigned_def u64_max_def sample_job_def then_do_def has_sources_def
        new_mixer_def finish_export_def sample_replies_def)
  then show ?thesis
    using w(1) sample_prepared by (auto simp: export_worker_def render_export_def drop_writer_def sample_job_def sample_replies_def has_sources_def new_mixer_def)
qed

theorem export_complete_witness:
  "\<exists>s calls f t end_time. export_worker sample_job sample_replies no_files
       = (no_files, Some s, [ExportProgress 1, ExportFinished (Inr ''/m/a.mp4'')])
     \<and> vw_calls (xs_writer s) = calls @ [StartSession 0, AppendFrame f t True, EndSession end_time, MarkVideoFinished, FinishWriting]
     \<and> exported_frame sample_job sample_replies (\<lambda>_. sample_file) [(sample_decoder, False, 0)] None 0 f \<and> t < end_time"
proof -
  obtain s where s: "export_worker sample_job sample_replies no_files
      = (no_files, Some s, [ExportProgress 1, ExportFinished (Inr ''/m/a.mp4'')])"
    using sample_exported by blast
  have job: "xj_fps sample_job = 1" "xj_duration_secs sample_job = 1" "has_sources (xj_audio_mixer sample_job) = False"
    by (simp_all add: sample_job_def has_sources_def new_mixer_def)
  from export_complete [OF s, of "''/m/a.mp4''" "\<lambda>_. sample_file"] sample_readable obtain decoders wallpaper calls frames samples end_time where
    c: "prepare_export sample_job sample_replies = Inr (decoders, wallpaper)"
      "vw_calls (xs_writer s) = calls @ StartSession 0 # map (\<lambda>(f, t). AppendFrame f t True) frames
         @ map (\<lambda>p. AppendSamples p True) samples @ [EndSession end_time, MarkVideoFinished, FinishWriting]"
      "length frames = 1" "length samples = 0" "snd (last frames) < end_time"
      "exported_frame sample_job sample_replies (\<lambda>_. sample_file) decoders wallpaper 0 (fst (frames ! 0))"
    unfolding job by auto
  obtain f t where "frames = [(f, t)]" using c(3) by (cases frames) auto
  then show ?thesis using s c sample_prepared by auto
qed

text \<open>Without a decoder, background or renderer nothing is written, and yet the file that an earlier export left at the
output is removed.\<close>

lemma failed_start_removes_export:
  assumes "prepare_export job ans = Inl e" and "xr_clean ans = None"
  shows "\<exists>d'. export_worker job ans d = (d', None, [ExportFinished (Inl e)]) \<and> dk_files d' (xj_output job) = None"
  using assms by (simp add: export_worker_def render_export_def fs_remove_def)

text \<open>A name without an extension but with a dot in it is cut at the dot: two chosen names give one file.\<close>

lemma destination_cut:
  "with_extension ''/m/Demo 1.1'' ''mp4'' = ''/m/Demo 1.mp4''" "with_extension ''/m/Demo 1.2'' ''mp4'' = ''/m/Demo 1.mp4''"
  by (simp_all add: with_extension_def split_path_def name_stem_def Let_def)

end
