(* ===== verification/Editor_Preview.thy ===== *)
theory Editor_Preview
  imports Editor_Export
begin

section \<open>The preview threads of the editor (apps/blip-capture/src/editor.rs)\<close>

text \<open>
  The thread that decodes the background images one after another, those asked for first; the preview thread,
  which composes a frame for the last of the requests waiting; and the thread that decodes the screen at a zoom's
  target. A queue's answer to \<open>try_recv\<close> is an argument of the step that asks it.
\<close>

subsection \<open>Background images\<close>

text \<open>Which images are decoded, and where the search for the next one goes on.\<close>

record wallpaper_state =
  wp_decoded :: "bool list"
  wp_next :: nat

function skip_decoded :: "bool list \<Rightarrow> nat \<Rightarrow> nat" where
  "skip_decoded decoded n = (if list_get decoded n = Some True then skip_decoded decoded (Suc n) else n)"
  by pat_completeness auto
termination
  by (relation "measure (\<lambda>(decoded, n). length decoded - n)") (auto simp: list_get_eq split: if_splits)

declare skip_decoded.simps [simp del]

datatype wallpaper_turn = NothingLeft | AlreadyDecoded | Decode nat

text \<open>One turn of the loop; \<open>priority\<close> is what the queue of requests answered.\<close>

definition wallpaper_turn :: "nat option \<Rightarrow> wallpaper_state \<Rightarrow> wallpaper_state \<times> wallpaper_turn" where
  "wallpaper_turn priority w =
     (case (case priority of
              Some index \<Rightarrow> Some (index, wp_next w)
            | None \<Rightarrow>
                (let n = skip_decoded (wp_decoded w) (wp_next w)
                 in if length (wp_decoded w) \<le> n then None else Some (n, Suc n))) of
        None \<Rightarrow> (w\<lparr>wp_next := skip_decoded (wp_decoded w) (wp_next w)\<rparr>, NothingLeft)
      | Some (index, next_preload) \<Rightarrow>
          if list_get (wp_decoded w) index \<noteq> Some False then (w\<lparr>wp_next := next_preload\<rparr>, AlreadyDecoded)
          else (w\<lparr>wp_decoded := (wp_decoded w)[index := True], wp_next := next_preload\<rparr>, Decode index))"

text \<open>The worker with what it reads of its queue: the images sent in order, and whether it has ended.\<close>

fun wallpaper_run :: "nat option list \<Rightarrow> wallpaper_state \<Rightarrow> nat list \<times> bool" where
  "wallpaper_run [] w = ([], False)"
| "wallpaper_run (p # ps) w =
     (case wallpaper_turn p w of
        (w', NothingLeft) \<Rightarrow> ([], True)
      | (w', AlreadyDecoded) \<Rightarrow> wallpaper_run ps w'
      | (w', Decode i) \<Rightarrow> (case wallpaper_run ps w' of (is, ended) \<Rightarrow> (i # is, ended)))"

definition wallpaper_start :: "nat \<Rightarrow> wallpaper_state" where
  "wallpaper_start n = \<lparr>wp_decoded = replicate n False, wp_next = 0\<rparr>"

definition wallpaper_inv :: "wallpaper_state \<Rightarrow> bool" where
  "wallpaper_inv w \<longleftrightarrow> wp_next w \<le> length (wp_decoded w) \<and> (\<forall>i < wp_next w. wp_decoded w ! i)"

lemma skip_decoded_prop:
  "n \<le> length decoded \<Longrightarrow> \<forall>i < n. decoded ! i \<Longrightarrow>
   n \<le> skip_decoded decoded n \<and> skip_decoded decoded n \<le> length decoded \<and> (\<forall>i < skip_decoded decoded n. decoded ! i)
   \<and> list_get decoded (skip_decoded decoded n) \<noteq> Some True"
proof (induction decoded n rule: skip_decoded.induct)
  case (1 decoded n)
  show ?case
  proof (cases "list_get decoded n = Some True")
    case True
    then have "n < length decoded" "decoded ! n" by (auto simp: list_get_eq split: if_splits)
    with 1(1) [OF True] 1(3) True show ?thesis
      by (subst (1 2 3 4) skip_decoded.simps) (auto simp: less_Suc_eq)
  next
    case False
    then show ?thesis using 1(2,3) by (simp add: skip_decoded.simps [of decoded n])
  qed
qed

lemma wallpaper_turn_inv:
  assumes "wallpaper_inv w" and "wallpaper_turn p w = (w', r)"
  shows "wallpaper_inv w'" and "length (wp_decoded w') = length (wp_decoded w)"
    and "r = Decode i \<Longrightarrow> i < length (wp_decoded w) \<and> \<not> wp_decoded w ! i \<and> wp_decoded w' = (wp_decoded w)[i := True]"
    and "\<forall>i. r \<noteq> Decode i \<Longrightarrow> wp_decoded w' = wp_decoded w"
    and "r = NothingLeft \<Longrightarrow> \<forall>i < length (wp_decoded w). wp_decoded w ! i"
proof -
  have s: "wp_next w \<le> skip_decoded (wp_decoded w) (wp_next w)" "skip_decoded (wp_decoded w) (wp_next w) \<le> length (wp_decoded w)"
      "\<forall>i < skip_decoded (wp_decoded w) (wp_next w). wp_decoded w ! i"
      "list_get (wp_decoded w) (skip_decoded (wp_decoded w) (wp_next w)) \<noteq> Some True"
    using skip_decoded_prop [of "wp_next w" "wp_decoded w"] assms(1) by (auto simp: wallpaper_inv_def)
  show "wallpaper_inv w'" "length (wp_decoded w') = length (wp_decoded w)"
    "r = Decode i \<Longrightarrow> i < length (wp_decoded w) \<and> \<not> wp_decoded w ! i \<and> wp_decoded w' = (wp_decoded w)[i := True]"
    "\<forall>i. r \<noteq> Decode i \<Longrightarrow> wp_decoded w' = wp_decoded w"
    "r = NothingLeft \<Longrightarrow> \<forall>i < length (wp_decoded w). wp_decoded w ! i"
    using assms s
    by (auto simp: wallpaper_turn_def wallpaper_inv_def list_get_eq nth_list_update less_Suc_eq Let_def
        split: option.splits if_splits)
qed

text \<open>Whatever is asked for in between, no image is decoded twice, and the worker ends only when all are.\<close>

lemma wallpapers_once:
  "wallpaper_inv w \<Longrightarrow> wallpaper_run ps w = (is, ended) \<Longrightarrow>
   distinct is \<and> (\<forall>i \<in> set is. i < length (wp_decoded w) \<and> \<not> wp_decoded w ! i)
   \<and> (ended \<longrightarrow> (\<forall>i < length (wp_decoded w). wp_decoded w ! i \<or> i \<in> set is))"
proof (induction ps arbitrary: w "is" ended)
  case (Cons p ps)
  obtain w' r where t: "wallpaper_turn p w = (w', r)" by (metis surj_pair)
  note inv = wallpaper_turn_inv [OF Cons.prems(1) t]
  show ?case
  proof (cases r)
    case NothingLeft
    then show ?thesis using Cons.prems(2) t inv(5) by auto
  next
    case AlreadyDecoded
    then have "wallpaper_run ps w' = (is, ended)" "wp_decoded w' = wp_decoded w"
      using Cons.prems(2) t inv(4) by auto
    then show ?thesis using Cons.IH [OF inv(1)] by simp
  next
    case (Decode i)
    obtain js e where js: "wallpaper_run ps w' = (js, e)" by (metis surj_pair)
    with Cons.prems(2) t Decode have eq: "is = i # js" "ended = e" by auto
    have i: "i < length (wp_decoded w)" "\<not> wp_decoded w ! i" "wp_decoded w' = (wp_decoded w)[i := True]"
      using inv(3) [OF Decode] by auto
    from Cons.IH [OF inv(1) js] show ?thesis
      unfolding eq using i by (auto simp: nth_list_update split: if_splits)
  qed
qed simp

lemma wallpapers_all_once:
  assumes "wallpaper_run ps (wallpaper_start n) = (is, True)"
  shows "distinct is \<and> set is = {..<n}"
  using wallpapers_once [OF _ assms] by (auto simp: wallpaper_inv_def wallpaper_start_def)
subsection \<open>The preview\<close>

record preview_worker =
  pw_decoders :: "export_decoder list"
  pw_content_pool :: output_pool
  pw_output_pool :: output_pool
  pw_backgrounds :: "pixel_buffer option list"
  pw_failed :: "bool list"
  pw_content :: "(real \<times> content_frame) option"

text \<open>Inputs whose decoder cannot be opened are left out.\<close>

definition start_preview ::
    "(string \<Rightarrow> decoder_error + pixel_buffer video_decoder) \<Rightarrow> (string \<times> bool \<times> real) list \<Rightarrow> nat \<Rightarrow> preview_worker" where
  "start_preview open_answer inputs background_count =
     \<lparr>pw_decoders = concat (map (\<lambda>(path, is_camera, offset).
        case open_answer path of Inr d \<Rightarrow> [(d, is_camera, offset)] | Inl e \<Rightarrow> []) inputs),
      pw_content_pool = None, pw_output_pool = None, pw_backgrounds = replicate background_count None,
      pw_failed = replicate background_count False, pw_content = None\<rparr>"

text \<open>A decoded background, or that it could not be.\<close>

definition take_wallpaper :: "nat \<times> pixel_buffer option \<Rightarrow> preview_worker \<Rightarrow> preview_worker" where
  "take_wallpaper = (\<lambda>(index, frame) w.
     if length (pw_backgrounds w) \<le> index then w
     else w\<lparr>pw_backgrounds := (pw_backgrounds w)[index := frame], pw_failed := (pw_failed w)[index := (frame = None)]\<rparr>)"

definition wallpaper_missing :: "nat \<Rightarrow> preview_worker \<Rightarrow> bool" where
  "wallpaper_missing preset w \<longleftrightarrow> list_get (pw_backgrounds w) preset = Some None \<and> \<not> pw_failed w ! preset"

text \<open>Waiting for a background; the queue's answers end when its sender is gone.\<close>

fun wait_wallpaper :: "nat \<Rightarrow> (nat \<times> pixel_buffer option) list \<Rightarrow> preview_worker \<Rightarrow> preview_worker" where
  "wait_wallpaper preset [] w = w"
| "wait_wallpaper preset (r # rs) w =
     (if wallpaper_missing preset w then wait_wallpaper preset rs (take_wallpaper r w) else w)"

definition request_style :: "preview_request \<Rightarrow> frame_style" where
  "request_style r =
     \<lparr>fst_background = pr_background_type r, fst_padding = pr_padding r, fst_border_radius = pr_border_radius r,
      fst_shadow = pr_shadow r, fst_zoom = pr_zoom r, fst_camera_layout = pr_camera_layout r,
      fst_screen_crop = map_option fin_crop (pr_screen_crop r)\<rparr>"

definition preview_dimensions :: "preview_request \<Rightarrow> content_frame \<Rightarrow> nat \<times> nat" where
  "preview_dimensions r content =
     (let cropped = snd (screen_crop_rect (cf_dimensions content) (map_option fin_crop (pr_screen_crop r)))
      in output_dimensions (min (min (fst cropped) (snd cropped)) 1080) cropped (pr_aspect_ratio r) (pr_padding r))"

definition request_wallpaper :: "preview_request \<Rightarrow> preview_worker \<Rightarrow> pixel_buffer option" where
  "request_wallpaper r w =
     (if pr_background_type r = BgImage
      then unwrap_or (list_get (pw_backgrounds w) (pr_background_preset r)) None else None)"

record preview_output =
  po_playback_generation :: nat
  po_timeline_time_secs :: real
  po_frame :: rendering
  po_screen :: rendering

datatype preview_turn = Skipped export_error | PreviewPanic | Shown preview_output

text \<open>The content frame of a request: the one kept, when it is of the same time, or a new one.\<close>

definition content_for ::
    "openers \<Rightarrow> gpu_replies \<Rightarrow> real \<Rightarrow> preview_worker \<Rightarrow> preview_worker \<times> (export_error + content_frame) option" where
  "content_for open_reader g time_secs w =
     (case pw_content w of
        Some (t, content) \<Rightarrow>
          if t = time_secs then (w, Some (Inr content))
          else (case render_content_frame open_reader g time_secs (pw_decoders w) (pw_content_pool w) of
                  (ds, pool, r) \<Rightarrow>
                    (let w1 = w\<lparr>pw_decoders := ds, pw_content_pool := pool\<rparr>
                     in case r of Some (Inr c) \<Rightarrow> (w1\<lparr>pw_content := Some (time_secs, c)\<rparr>, r) | _ \<Rightarrow> (w1, r)))
      | None \<Rightarrow>
          (case render_content_frame open_reader g time_secs (pw_decoders w) (pw_content_pool w) of
             (ds, pool, r) \<Rightarrow>
               (let w1 = w\<lparr>pw_decoders := ds, pw_content_pool := pool\<rparr>
                in case r of Some (Inr c) \<Rightarrow> (w1\<lparr>pw_content := Some (time_secs, c)\<rparr>, r) | _ \<Rightarrow> (w1, r))))"

text \<open>
  One turn: \<open>request\<close> is the last one waiting, \<open>drained\<close> the backgrounds waiting, \<open>waited\<close> those that come while the
  thread waits for the request's own. The second result is the background asked for.
\<close>

definition preview_turn ::
    "openers \<Rightarrow> gpu_replies \<Rightarrow> frame_replies \<Rightarrow> preview_request \<Rightarrow> (nat \<times> pixel_buffer option) list \<Rightarrow>
     (nat \<times> pixel_buffer option) list \<Rightarrow> preview_worker \<Rightarrow> preview_worker \<times> nat option \<times> preview_turn" where
  "preview_turn open_reader g1 g2 request drained waited w =
     (let w1 = fold take_wallpaper drained w;
          preset = pr_background_preset request;
          wallpaper_pending = (pr_background_type request = BgImage \<and> wallpaper_missing preset w1);
          asked = (if wallpaper_pending then Some preset else None)
      in case content_for open_reader g1 (pr_time_secs request) w1 of
           (w2, None) \<Rightarrow> (w2, asked, PreviewPanic)
         | (w2, Some (Inl e)) \<Rightarrow> (w2, asked, Skipped e)
         | (w2, Some (Inr content)) \<Rightarrow>
             (let w3 = (if wallpaper_pending then wait_wallpaper preset waited w2 else w2)
              in case render_output_frame g2 content (preview_dimensions request content) (request_wallpaper request w3)
                        (request_style request) (pw_output_pool w3, pw_content_pool w3) of
                   ((output_pool, pool), r) \<Rightarrow>
                     (w3\<lparr>pw_output_pool := output_pool, pw_content_pool := pool\<rparr>, asked,
                      case r of
                        None \<Rightarrow> PreviewPanic
                      | Some (Inl e) \<Rightarrow> Skipped e
                      | Some (Inr frame) \<Rightarrow>
                          Shown \<lparr>po_playback_generation = pr_playback_generation request,
                                 po_timeline_time_secs = pr_timeline_time_secs request, po_frame = frame,
                                 po_screen = cf_screen content\<rparr>)))"

text \<open>The kept content is of the time it is kept under, and every background is one that was decoded for its place.\<close>

definition composed_at :: "real \<Rightarrow> content_frame \<Rightarrow> bool" where
  "composed_at t content \<longleftrightarrow>
     (\<exists>open_reader g ds pool ds' pool'. render_content_frame open_reader g t ds pool = (ds', pool', Some (Inr content)))"

definition content_ok :: "preview_worker \<Rightarrow> bool" where
  "content_ok w \<longleftrightarrow> (\<forall>t c. pw_content w = Some (t, c) \<longrightarrow> composed_at t c)"

lemma take_wallpaper_content [simp]: "pw_content (take_wallpaper r w) = pw_content w"
  by (simp add: take_wallpaper_def split: prod.split)

lemma fold_wallpaper_content [simp]: "pw_content (fold take_wallpaper rs w) = pw_content w"
  by (induction rs arbitrary: w) simp_all

lemma wait_wallpaper_content [simp]: "pw_content (wait_wallpaper preset rs w) = pw_content w"
  by (induction preset rs w rule: wait_wallpaper.induct) simp_all

lemma content_for_composed:
  assumes "content_ok w" and "content_for open_reader g t w = (w', r)"
  shows "content_ok w' \<and> (\<forall>c. r = Some (Inr c) \<longrightarrow> composed_at t c)"
proof -
  obtain ds pool x where c: "render_content_frame open_reader g t (pw_decoders w) (pw_content_pool w) = (ds, pool, x)"
    by (metis prod_cases3)
  have new: "x = Some (Inr content) \<Longrightarrow> composed_at t content" for content
    using c unfolding composed_at_def by blast
  show ?thesis
    using assms c new
    by (auto simp: content_for_def content_ok_def Let_def split: option.splits prod.splits sum.splits if_splits)
qed

text \<open>A frame shown is of the last request's time and generation, in its style, on the background it asks for.\<close>

lemma preview_shows_request:
  assumes "content_ok w" and "preview_turn open_reader g1 g2 request drained waited w = (w', asked, r)"
  shows "content_ok w' \<and> (\<forall>result. r = Shown result \<longrightarrow>
    po_playback_generation result = pr_playback_generation request
    \<and> po_timeline_time_secs result = pr_timeline_time_secs request
    \<and> (\<exists>content pools pools'. composed_at (pr_time_secs request) content \<and> po_screen result = cf_screen content
        \<and> render_output_frame g2 content (preview_dimensions request content) (request_wallpaper request w')
            (request_style request) pools = (pools', Some (Inr (po_frame result)))))"
proof -
  let ?w1 = "fold take_wallpaper drained w"
  obtain w2 c where c: "content_for open_reader g1 (pr_time_secs request) ?w1 = (w2, c)" by (metis surj_pair)
  have "content_ok ?w1" using assms(1) by (simp add: content_ok_def)
  note ok = content_for_composed [OF this c]
  consider "c = None" | e where "c = Some (Inl e)" | content where "c = Some (Inr content)"
    by (metis not_None_eq sumE)
  then show ?thesis
  proof cases
    case (3 content)
    define pending where "pending \<longleftrightarrow> pr_background_type request = BgImage \<and> wallpaper_missing (pr_background_preset request) ?w1"
    define w3 where "w3 = (if pending then wait_wallpaper (pr_background_preset request) waited w2 else w2)"
    obtain output_pool pool x where x:
      "render_output_frame g2 content (preview_dimensions request content) (request_wallpaper request w3)
         (request_style request) (pw_output_pool w3, pw_content_pool w3) = ((output_pool, pool), x)"
      by (metis surj_pair)
    have w': "w' = w3\<lparr>pw_output_pool := output_pool, pw_content_pool := pool\<rparr>"
        "r = (case x of None \<Rightarrow> PreviewPanic | Some (Inl e) \<Rightarrow> Skipped e
              | Some (Inr frame) \<Rightarrow> Shown \<lparr>po_playback_generation = pr_playback_generation request,
                  po_timeline_time_secs = pr_timeline_time_secs request, po_frame = frame, po_screen = cf_screen content\<rparr>)"
      using assms(2) c 3 x by (auto simp: preview_turn_def Let_def pending_def [symmetric] w3_def [symmetric])
    have "pw_content w3 = pw_content w2" by (simp add: w3_def)
    moreover have "request_wallpaper request w' = request_wallpaper request w3" by (simp add: request_wallpaper_def w'(1))
    ultimately show ?thesis using ok 3 x w'
      by (fastforce simp: content_ok_def split: option.splits sum.splits)
  qed (use assms(2) c ok in \<open>auto simp: preview_turn_def Let_def\<close>)
qed

subsection \<open>The picture a zoom's target is chosen on\<close>

text \<open>The last of the times waiting is decoded; an error shows nothing.\<close>

definition zoom_target_turn ::
    "(int \<Rightarrow> decoder_error + 'f sample list) \<Rightarrow> real list \<Rightarrow> real \<Rightarrow> 'f video_decoder \<Rightarrow> 'f video_decoder \<times> (real \<times> 'f) option" where
  "zoom_target_turn open_reader waiting time_secs d =
     (let t = last (time_secs # waiting)
      in case frame_at open_reader t d of
           (d', Inr frame) \<Rightarrow> (d', Some (t, frame))
         | (d', Inl e) \<Rightarrow> (d', None))"

lemma zoom_target_shown:
  assumes "decoder_ok A d" and "tolerance d \<le> 10 ^ 12" and "asset_ok A" and "reader_answers A open_reader"
    and "\<bar>last (time_secs # waiting)\<bar> \<le> 10 ^ 12" and "zoom_target_turn open_reader waiting time_secs d = (d', Some (t, f))"
  shows "decoder_ok A d' \<and> t = last (time_secs # waiting) \<and> frame_shown A (tolerance d) t f"
proof -
  obtain e a where e: "frame_at open_reader (last (time_secs # waiting)) d = (e, a)" by (metis surj_pair)
  with assms(6) have a: "a = Inr f" "e = d'" "t = last (time_secs # waiting)"
    by (cases a; simp add: zoom_target_turn_def Let_def)+
  from frame_at_correct [OF assms(1-5) e] show ?thesis by (simp add: a answer_ok_def)
qed

end
