(* ===== verification/Spec2Isabelle.thy ===== *)
theory Spec2Isabelle
  imports Capture_Audio Editor_Properties Recording_System Studio_Session Command_Line
    Studio_Stream Studio_Headless Capture_Headless Editor_Preview
begin

section \<open>Blip: screen recording, editing and streaming\<close>

text \<open>
  Blip records screens, windows and regions of a Mac. Blip Capture (\<open>apps/blip-capture\<close>) is a toolbar that records
  to an MP4 file, to a bundle for its editor, or to HLS segments that are uploaded while they are written; the command
  line (\<open>apps/blip-cli\<close>) records to MP4; Blip Studio (\<open>apps/blip-studio\<close>) composes a scene of captures and colours
  and streams it. They share crates for time, audio, capture, writing, decoding, composing and controls. This library
  models their logic from the Rust source and proves what makes it correct. Every theory opens with a text that says
  what it holds; this one says how they hang together.

  \<^bold>\<open>Conventions.\<close>
  \<^item> Integers are \<open>nat\<close> or \<open>int\<close>, with the width of the source written out by \<open>checked_*\<close>, \<open>saturating_*\<close>, \<open>as_unsigned\<close>
    and \<open>try_from\<close> over an explicit maximum (\<open>Blip_Prelude\<close>). The targets are 64-bit.
  \<^item> \<open>f64\<close> and \<open>f32\<close> are exact reals: rounding of the arithmetic itself is not modelled, the rounding the code asks for
    is. Where the code tests for infinities or NaN, or can be given them, the values have the type \<open>fl\<close>, which adds them.
  \<^item> A \<open>Result\<close> is a sum with the error on the left, with a datatype per error enum; a panic (a slice outside a character,
    \<open>clamp\<close> with crossed bounds, an exhausted range) is \<open>None\<close>.
  \<^item> Strings are lists of bytes; \<open>Output_Paths\<close> works on Unicode code points where the code classifies characters.
  \<^item> What AVFoundation, ScreenCaptureKit, Core Audio, the GPU, FFmpeg, the file system, a server, the clock or the window
    system answers is an argument of the operation that asks. Calls made to them are recorded in the state where an
    order matters. JSON and URLs are parameters; where a theorem needs a law of them (decoding undoes encoding) it is a
    hypothesis, met by a concrete instance in the theorem's witness.
  \<^item> Threads are step relations whose steps are the accesses to shared state, so that the properties hold for every
    interleaving. Drawing, redraw notifications and window focus are left out.

  \<^bold>\<open>Shared foundations.\<close>
  \<^item> \<open>Blip_Prelude\<close>: the integer operations, results, list lemmas, and the locales \<open>state_machine\<close> (a step relation that
    keeps an invariant keeps it in all reachable states) and \<open>op_machine\<close> (the same for runs of operations), which the
    machines below interpret. \<open>Text_Format\<close>: what the format strings print, and that printed numbers read back.
  \<^item> \<open>Media_Time\<close> (\<open>crates/blip-media-time\<close>): durations and frame timestamps, a \<open>linorder\<close>.
  \<^item> \<open>Segment_Timeline\<close>: the interface of a timeline of source segments, a locale that the editor's lookup and the mixer's
    interpret; from it they agree.

  \<^bold>\<open>Capture and writing.\<close>
  \<^item> \<open>Audio_Mixer\<close> (\<open>crates/blip-audio\<close>): packets, sources, mixing, resampled playback.
    \<open>Capture_Audio\<close> and \<open>Screen_Capture\<close> (\<open>crates/blip-sck\<close>): audio samples and their latency; targets, filters, stream
    configuration, the capturer, and the copy of a frame's planes out of an IOSurface with every bound it checks.
  \<^item> \<open>Asset_Writers\<close> (\<open>crates/blip-avfoundation/src/lib.rs\<close>): \<open>Mp4Writer\<close> and \<open>AudioWriter\<close> with all their errors; the locale
    \<open>media_track\<close> is what a track promises of its presentation times, interpreted here and by \<open>Hls_Writer\<close> (\<open>hls.rs\<close>), where the
    segment delegate keeps the playlist on a disk whose operations can fail. \<open>Video_Decoder\<close> (\<open>decoder.rs\<close>): opening a file,
    \<open>frame_at\<close> with its cache and sequential reader, decoding audio.
  \<^item> \<open>Bundle\<close> (\<open>bundle.rs\<close>): the manifest and settings of a recording and their files. \<open>Profiles\<close> (\<open>profiles.rs\<close>):
    destinations, their validation, file and import.

  \<^bold>\<open>Blip Capture.\<close>
  \<^item> \<open>Upload\<close> (\<open>upload.rs\<close>): the multipart upload against a server that is a function of the requests so far.
    \<open>Hls_Upload\<close>: the incremental upload, a labelled step relation of concurrent tasks.
  \<^item> \<open>Recording\<close> and \<open>Recording_Thread\<close> (\<open>recording.rs\<close>): the writer thread's loop, the session from the shareable content to
    the outcome, what is removed and which events are sent.
  \<^item> \<open>Output_Paths\<close>, \<open>Region_Selection\<close>, \<open>Profile_Settings\<close>, \<open>Capture_App\<close> (\<open>main.rs\<close>): file names, regions, the settings
    window, the toolbar and its overlays. \<open>App_Invariant\<close> has their invariant, and \<open>Recording_System\<close> joins the toolbar with
    the threads it starts and the channel of their events; every run of \<open>Recording_Thread\<close> refines the thread's phases
    there. \<open>Capture_Headless\<close> (\<open>headless.rs\<close>): the command that records and uploads.
  \<^item> The editor (\<open>editor.rs\<close>): \<open>Video_Timeline\<close>, \<open>Timeline_Edits\<close>, \<open>Timeline_View\<close>, \<open>Zoom_Transform\<close> and \<open>Crop_Geometry\<close> are
    its pure functions; \<open>Editor_State\<close>, \<open>Editor_Segments\<close> and \<open>Editor_Zooms\<close> its window's state and handlers;
    \<open>Editor_Events\<close> the listeners and their guards, with the measurements each painted frame makes of the areas the
    listeners compare the pointer with; \<open>Editor_Invariant\<close> and \<open>Editor_Properties\<close> what holds in every session.
    \<open>Editor_Export\<close> composes and encodes a whole timeline; \<open>Editor_Preview\<close> has the preview's threads.

  \<^bold>\<open>Command line.\<close> \<open>Command_Line\<close> (\<open>apps/blip-cli\<close>): listings, the choice of a target, and a recording's capture callback,
  writer and main thread around their queue of eight messages.

  \<^bold>\<open>Blip Studio.\<close>
  \<^item> \<open>Studio_Scene\<close> (\<open>project.rs\<close> and the scene of \<open>viewer.rs\<close>), \<open>Studio_Geometry\<close> (dragging, resizing, snapping, rows),
    \<open>Compositor\<close> (\<open>crates/blip-compositor\<close>: what is drawn, and every error before it) and \<open>Studio_Compose\<close>.
  \<^item> \<open>Studio_Frames\<close>: frame hub, render queue and composition hub between the capture threads, the window and the compositor
    thread, for any fixed renderer. \<open>Studio_Viewer\<close>: the window's state and handlers. \<open>Studio_Session\<close>: sessions of them.
  \<^item> \<open>Studio_Stream\<close> (\<open>rtmp.rs\<close>): the publisher. \<open>Studio_Headless\<close> (\<open>headless.rs\<close>): the camera pipeline that measures itself.
  \<^item> \<open>Text_Input\<close> (\<open>crates/blip-ui\<close>): the editing state of the inputs of all windows.

  \<^bold>\<open>What is proved.\<close>
  \<^item> \<^emph>\<open>Recording.\<close> One recording at a time; a recording runs what was selected, ends after it was stopped, and its
    thread's runs go through the phases the toolbar sees (\<open>Recording_System\<close>; these are about runs in which no stream
    fails: a stream's own failure event can overtake the end of its thread, \<open>stale_failure\<close>). An uploaded recording is
    complete on the server before its files are removed (\<open>Recording_Thread\<close>); parts cover the file, a failed upload is
    cancelled (\<open>Upload\<close>); the incremental upload gives a viewer's address only when every asset was sent, and ends
    (\<open>Hls_Upload\<close>); the HLS directory is consistent after every step, failures included (\<open>Hls_Writer\<close>); tracks are in order (\<open>Asset_Writers\<close>); a plane's rows
    are copied without their padding, or refused exactly when the stride is too short or a size overflows
    (\<open>Screen_Capture\<close>); a free output path is found
    (\<open>Output_Paths\<close>); bundles and settings are created atomically and load again (\<open>Bundle\<close>, \<open>Profile_Settings\<close>).
  \<^item> \<^emph>\<open>Editor.\<close> Splitting, cutting and clipping keep the content at its place (\<open>Video_Timeline\<close>, \<open>Timeline_Edits\<close>);
    editor and mixer agree on the source time; every session from an unedited recording, with measured areas, presses,
    drags, splits, cuts and deletions, keeps the segments ordered and in range, and results of an old playback change nothing
    (\<open>Editor_Properties\<close>); zoom transforms are right (\<open>Zoom_Transform\<close>); the decoder answers with a picture for the time
    asked (\<open>Video_Decoder\<close>); an export has a frame for every frame time, from the pictures the recorded files have at the
    source time, in that moment's style, and the mixer's samples without a gap (\<open>Editor_Export\<close>). The mixer's frame is the
    clamped sum of its sources (\<open>Audio_Mixer\<close>).
  \<^item> \<^emph>\<open>Studio.\<close> Sessions keep the scene typed and never panic, and when every click names an element that is still there,
    every project saved on the way loads as the scene of that moment (\<open>Studio_Session\<close>); project files survive failed writes (\<open>Studio_Scene\<close>); resizing keeps the opposite anchor
    (\<open>Studio_Geometry\<close>); the composed items are the scene's (\<open>Studio_Compose\<close>, \<open>Compositor\<close>); once the threads are idle the
    picture shown is the renderer's for the current scene and frames, and they do become idle (\<open>Studio_Frames\<close>); the
    stream encodes the accepted frames in order (\<open>Studio_Stream\<close>); every frame of the headless pipeline is accounted for
    (\<open>Studio_Headless\<close>). An input of ASCII text never panics, keeps a number a number, and tells the window the number its
    text denotes, or after the arrow keys the old one plus or minus one, of which the new text is the rounding
    (\<open>Text_Input\<close>, which also shows the panic at a character beyond ASCII).
  \<^item> \<^emph>\<open>Command line.\<close> A recording that succeeds has written the captured frames in order, less those counted as dropped, and
    finished the file; the command ends when it is told to (\<open>Command_Line\<close>).

  \<^bold>\<open>Bounds and termination.\<close> There is no fuel. Loops are structural recursion over their input or the answers they wait
  for, or have a measure: the bytes left to read (\<open>Upload.fill\<close>, \<open>read_chunks\<close>), the audio frames left
  (\<open>Editor_Export.export_audio\<close>), the suffixes left (\<open>Output_Paths.first_free\<close>), the requests decoded before
  (\<open>Editor_Preview.skip_decoded\<close>). A loop that sleeps until the encoder is ready is still waiting when its answers run out,
  and the theorems say what holds of a run that finishes. Counters saturate as in the source: \<open>ids_left\<close> says that a session
  has not used up the identifiers. The sessions of Blip Studio end at a typed value beyond the range of \<open>f32\<close>
  (\<open>vw_infinite\<close>), which the program writes into a layout and saves: \<open>Studio_Viewer\<close> has the step, \<open>Studio_Session\<close> shows that the
  project saved then is refused (\<open>infinite_save_refused\<close>). Times of the decoder are at most \<open>10 ^ 12\<close> seconds,
  where counting microseconds in an \<open>i64\<close> is exact.

  \<^bold>\<open>Not modelled.\<close> gpui, the vendored user interface framework with its platform back ends, except for the rectangle functions
  the region selection uses; drawing of the windows and of the controls; the AppKit menus, the Carbon hot keys, start-up and window
  placement; the camera preview window and the camera capture session; shaders, and the creation of Metal and wgpu objects; the
  updater and the permission checks, which are single framework calls; embedded assets and themes; clap's parsing of arguments;
  loading an image into a pixel buffer and copying the bundled backgrounds.
\<close>

end
